(* ===== verification/Prelude.thy ===== *)
theory Prelude
  imports Complex_Main "HOL-Library.Multiset" "HOL-Library.Char_ord"
begin

text \<open>
  Shared vocabulary of the development: the parts of the JavaScript runtime that every component
  of the backend leans on, as executable HOL functions, and the generic lemmas about them.

  \<^item> \<open>'e + 'a\<close> is the result of fallible code: \<open>Inl\<close> is a thrown error, \<open>Inr\<close> a returned value.
  \<^item> A \<open>Map\<close> is an association list in insertion order with distinct keys (\<open>jsmap\<close>): \<open>set\<close> on an
    existing key keeps its position, on a new key appends. The interface is the locale
    \<open>kv_store\<close>; \<open>jsm\<close> is its interpretation on \<open>jsmap\<close>.
  \<^item> A \<open>Set\<close> is a distinct list in insertion order (\<open>jsset\<close>).
  \<^item> \<open>Array.prototype.slice\<close> is \<open>js_slice\<close> (negative indices count from the end),
    \<open>Array.prototype.sort\<close> is the stable sort \<open>js_sort\<close> under a comparator; the locale
    \<open>comparator\<close> states what ECMAScript calls a consistent comparator.
  \<^item> Strings are lists of characters (code units below 256); \<open>js_trim\<close>, \<open>js_split\<close> and the
    decimal digit functions are those the sources call.
  \<^item> Instants (\<open>Date\<close> objects and ISO-8601 strings the code itself prints) are epoch
    milliseconds of type \<open>int\<close>. Every \<open>Date.now()\<close>, \<open>randomUUID()\<close> and \<open>Math.random()\<close> a function
    reads is an argument of its model.
\<close>

named_theorems jsmap_simps \<open>computation and lookup rules of JavaScript maps\<close>
named_theorems js_invar \<open>preservation of the representation invariants\<close>

type_synonym time = int

section \<open>Errors\<close>

text \<open>
  What the modelled code throws: \<open>Error m\<close> is \<open>new Error(m)\<close>, the other constructors are the error
  classes of the backend with the fields their constructors take.
\<close>

datatype js_error =
    Error string
  | VersionConflictError string int int
  | CreditLineNotFoundError string
  | InvalidTransitionError string string
  | InvalidCursorError string
  | RangeError string
  | TypeError string
  | ReferenceError string
  | SorobanCreditRecordDecodeError string
  | SorobanCreditRecordFetchError string bool

type_synonym ('s, 'a) comp = "'s \<Rightarrow> (js_error + 'a) \<times> 's"

text \<open>Sequencing of code that may throw.\<close>

definition ebind :: "'e + 'a \<Rightarrow> ('a \<Rightarrow> 'e + 'b) \<Rightarrow> 'e + 'b" where
  "ebind m f = (case m of Inl e \<Rightarrow> Inl e | Inr x \<Rightarrow> f x)"

lemma ebind_simps [simp]: "ebind (Inl e) f = Inl e" "ebind (Inr x) f = f x"
  by (simp_all add: ebind_def)

lemma ebind_Inr_iff: "ebind m f = Inr y \<longleftrightarrow> (\<exists>x. m = Inr x \<and> f x = Inr y)"
  by (cases m) simp_all

lemma ebind_Inl_iff: "ebind m f = Inl e \<longleftrightarrow> m = Inl e \<or> (\<exists>x. m = Inr x \<and> f x = Inl e)"
  by (cases m) simp_all

text \<open>\<open>xs.map(f)\<close> when \<open>f\<close> may throw: the first error wins.\<close>

fun emap :: "('a \<Rightarrow> 'e + 'b) \<Rightarrow> 'a list \<Rightarrow> 'e + 'b list" where
  "emap f [] = Inr []"
| "emap f (x # xs) = (case f x of Inl e \<Rightarrow> Inl e | Inr y \<Rightarrow> (case emap f xs of Inl e \<Rightarrow> Inl e | Inr ys \<Rightarrow> Inr (y # ys)))"

lemma emap_Inr_iff: "emap f xs = Inr ys \<longleftrightarrow> list_all2 (\<lambda>x y. f x = Inr y) xs ys"
proof (induction xs arbitrary: ys)
  case (Cons x xs)
  then show ?case by (cases "f x"; cases "emap f xs") (auto simp: list_all2_Cons1)
qed auto

lemma emap_Inr_length: "emap f xs = Inr ys \<Longrightarrow> length ys = length xs"
  by (simp add: emap_Inr_iff list_all2_lengthD)

lemma emap_Inl: "emap f xs = Inl e \<Longrightarrow> \<exists>x \<in> set xs. f x = Inl e"
  by (induction xs) (auto split: sum.splits)

section \<open>Maps in insertion order\<close>

type_synonym ('k, 'v) jsmap = "('k \<times> 'v) list"

definition jsmap_invar :: "('k, 'v) jsmap \<Rightarrow> bool" where
  "jsmap_invar m \<longleftrightarrow> distinct (map fst m)"

definition jsmap_empty :: "('k, 'v) jsmap" where
  "jsmap_empty = []"

definition jsmap_get :: "('k, 'v) jsmap \<Rightarrow> 'k \<Rightarrow> 'v option" where
  "jsmap_get m k = map_of m k"

fun jsmap_set :: "'k \<Rightarrow> 'v \<Rightarrow> ('k, 'v) jsmap \<Rightarrow> ('k, 'v) jsmap" where
  "jsmap_set k v [] = [(k, v)]"
| "jsmap_set k v ((k', v') # m) = (if k = k' then (k, v) # m else (k', v') # jsmap_set k v m)"

definition jsmap_delete :: "'k \<Rightarrow> ('k, 'v) jsmap \<Rightarrow> ('k, 'v) jsmap" where
  "jsmap_delete k m = filter (\<lambda>p. fst p \<noteq> k) m"

definition jsmap_has :: "('k, 'v) jsmap \<Rightarrow> 'k \<Rightarrow> bool" where
  "jsmap_has m k \<longleftrightarrow> jsmap_get m k \<noteq> None"

definition jsmap_values :: "('k, 'v) jsmap \<Rightarrow> 'v list" where
  "jsmap_values m = map snd m"

definition jsmap_size :: "('k, 'v) jsmap \<Rightarrow> nat" where
  "jsmap_size m = length m"

text \<open>
  \<open>for (const [k, v] of m.entries()) if (p(k, v)) m.delete(k)\<close>: deleting the current entry while
  iterating is well defined in JavaScript and keeps exactly the entries that fail \<open>p\<close>.
\<close>

definition jsmap_prune :: "('k \<Rightarrow> 'v \<Rightarrow> bool) \<Rightarrow> ('k, 'v) jsmap \<Rightarrow> ('k, 'v) jsmap" where
  "jsmap_prune p m = filter (\<lambda>(k, v). \<not> p k v) m"

lemma jsmap_get_empty [simp, jsmap_simps]: "jsmap_get jsmap_empty k = None"
  by (simp add: jsmap_get_def jsmap_empty_def)

lemma jsmap_get_Nil [simp]: "jsmap_get [] k = None"
  by (simp add: jsmap_get_def)

lemma jsmap_get_Cons [simp]:
  "jsmap_get ((k', v) # m) k = (if k = k' then Some v else jsmap_get m k)"
  by (simp add: jsmap_get_def)

lemma jsmap_get_set [simp, jsmap_simps]:
  "jsmap_get (jsmap_set k v m) k' = (if k' = k then Some v else jsmap_get m k')"
  by (induction k v m rule: jsmap_set.induct) auto

lemma jsmap_get_delete [simp, jsmap_simps]:
  "jsmap_get (jsmap_delete k m) k' = (if k' = k then None else jsmap_get m k')"
  unfolding jsmap_delete_def by (induction m) auto

lemma jsmap_has_set [simp, jsmap_simps]:
  "jsmap_has (jsmap_set k v m) k' \<longleftrightarrow> k' = k \<or> jsmap_has m k'"
  by (simp add: jsmap_has_def)

lemma jsmap_has_delete [simp, jsmap_simps]:
  "jsmap_has (jsmap_delete k m) k' \<longleftrightarrow> k' \<noteq> k \<and> jsmap_has m k'"
  by (simp add: jsmap_has_def)

lemma jsmap_keys_set: "fst ` set (jsmap_set k v m) = insert k (fst ` set m)"
  by (induction k v m rule: jsmap_set.induct) auto

lemma jsmap_invar_empty [simp, js_invar]: "jsmap_invar jsmap_empty"
  by (simp add: jsmap_invar_def jsmap_empty_def)

lemma jsmap_invar_Nil [simp]: "jsmap_invar []"
  by (simp add: jsmap_invar_def)

lemma jsmap_invar_Cons [simp]:
  "jsmap_invar ((k, v) # m) \<longleftrightarrow> k \<notin> fst ` set m \<and> jsmap_invar m"
  by (simp add: jsmap_invar_def)

lemma jsmap_invar_set [simp, js_invar]: "jsmap_invar m \<Longrightarrow> jsmap_invar (jsmap_set k v m)"
  by (induction k v m rule: jsmap_set.induct) (auto simp: jsmap_keys_set)

lemma jsmap_invar_filter [js_invar]: "jsmap_invar m \<Longrightarrow> jsmap_invar (filter p m)"
  unfolding jsmap_invar_def by (induction m) auto

lemma jsmap_invar_delete [simp, js_invar]: "jsmap_invar m \<Longrightarrow> jsmap_invar (jsmap_delete k m)"
  by (simp add: jsmap_delete_def jsmap_invar_filter)

lemma jsmap_invar_prune [simp, js_invar]: "jsmap_invar m \<Longrightarrow> jsmap_invar (jsmap_prune p m)"
  by (simp add: jsmap_prune_def jsmap_invar_filter)

lemma jsmap_has_iff: "jsmap_has m k \<longleftrightarrow> k \<in> fst ` set m"
  by (simp add: jsmap_has_def jsmap_get_def map_of_eq_None_iff)

lemma jsmap_get_None_iff: "jsmap_get m k = None \<longleftrightarrow> k \<notin> fst ` set m"
  by (simp add: jsmap_get_def map_of_eq_None_iff)

lemma jsmap_get_in_set: "jsmap_get m k = Some v \<Longrightarrow> (k, v) \<in> set m"
  by (simp add: jsmap_get_def map_of_SomeD)

lemma jsmap_get_in_values: "jsmap_get m k = Some v \<Longrightarrow> v \<in> set (jsmap_values m)"
  by (force simp: jsmap_values_def dest: jsmap_get_in_set)

lemma jsmap_in_set_iff: "jsmap_invar m \<Longrightarrow> (k, v) \<in> set m \<longleftrightarrow> jsmap_get m k = Some v"
  by (simp add: jsmap_invar_def jsmap_get_def)

lemma jsmap_values_iff:
  "jsmap_invar m \<Longrightarrow> v \<in> set (jsmap_values m) \<longleftrightarrow> (\<exists>k. jsmap_get m k = Some v)"
  by (force simp: jsmap_values_def jsmap_in_set_iff [symmetric])

lemma jsmap_get_prune [simp, jsmap_simps]:
  "jsmap_invar m \<Longrightarrow> jsmap_get (jsmap_prune p m) k =
     (case jsmap_get m k of None \<Rightarrow> None | Some v \<Rightarrow> if p k v then None else Some v)"
proof (induction m)
  case (Cons a m)
  obtain k' v' where a: "a = (k', v')" by (cases a)
  have none: "jsmap_get m k' = None"
    using Cons.prems by (simp add: a jsmap_get_None_iff)
  from Cons show ?case by (cases "k = k'") (simp_all add: a none jsmap_prune_def)
qed (simp add: jsmap_prune_def)

lemma jsmap_size_set:
  "jsmap_size (jsmap_set k v m) = (if jsmap_has m k then jsmap_size m else Suc (jsmap_size m))"
  unfolding jsmap_size_def
  by (induction k v m rule: jsmap_set.induct) (auto simp: jsmap_has_def)

lemma jsmap_set_new: "\<not> jsmap_has m k \<Longrightarrow> jsmap_set k v m = m @ [(k, v)]"
  by (induction k v m rule: jsmap_set.induct) (auto simp: jsmap_has_def)

lemma jsmap_values_set_new:
  "\<not> jsmap_has m k \<Longrightarrow> jsmap_values (jsmap_set k v m) = jsmap_values m @ [v]"
  by (simp add: jsmap_set_new jsmap_values_def)

text \<open>
  The interface a component relies on when it keeps its rows in a \<open>Map\<close>, and what every client may
  conclude from it.
\<close>

locale kv_store =
  fixes empty :: "'m"
    and get :: "'m \<Rightarrow> 'k \<Rightarrow> 'v option"
    and put :: "'k \<Rightarrow> 'v \<Rightarrow> 'm \<Rightarrow> 'm"
    and remove :: "'k \<Rightarrow> 'm \<Rightarrow> 'm"
    and invar :: "'m \<Rightarrow> bool"
  assumes get_empty: "get empty k = None"
    and get_put: "invar m \<Longrightarrow> get (put k v m) k' = (if k' = k then Some v else get m k')"
    and get_remove: "invar m \<Longrightarrow> get (remove k m) k' = (if k' = k then None else get m k')"
    and invar_empty: "invar empty"
    and invar_put: "invar m \<Longrightarrow> invar (put k v m)"
    and invar_remove: "invar m \<Longrightarrow> invar (remove k m)"
begin

lemma put_put_get: "invar m \<Longrightarrow> get (put k v' (put k v m)) = get (put k v' m)"
  by (auto simp: fun_eq_iff get_put invar_put)

lemma put_comm: "invar m \<Longrightarrow> k \<noteq> k' \<Longrightarrow> get (put k v (put k' v' m)) = get (put k' v' (put k v m))"
  by (auto simp: fun_eq_iff get_put invar_put)

lemma remove_put: "invar m \<Longrightarrow> get (remove k (put k v m)) = get (remove k m)"
  by (auto simp: fun_eq_iff get_put get_remove invar_put)

lemma foldl_put_other:
  "invar m \<Longrightarrow> k \<notin> set (map fst ps) \<Longrightarrow> get (foldl (\<lambda>m (k, v). put k v m) m ps) k = get m k"
  by (induction ps arbitrary: m) (auto simp: get_put invar_put)

end

interpretation jsm: kv_store jsmap_empty jsmap_get jsmap_set jsmap_delete jsmap_invar
  by unfold_locales auto

section \<open>Sets in insertion order\<close>

definition jsset_add :: "'a \<Rightarrow> 'a list \<Rightarrow> 'a list" where
  "jsset_add x s = (if x \<in> set s then s else s @ [x])"

definition jsset_delete :: "'a \<Rightarrow> 'a list \<Rightarrow> 'a list" where
  "jsset_delete x s = filter (\<lambda>y. y \<noteq> x) s"

lemma set_jsset_add [simp]: "set (jsset_add x s) = insert x (set s)"
  by (auto simp: jsset_add_def)

lemma set_jsset_delete [simp]: "set (jsset_delete x s) = set s - {x}"
  by (auto simp: jsset_delete_def)

lemma distinct_jsset_add [simp, js_invar]: "distinct s \<Longrightarrow> distinct (jsset_add x s)"
  by (simp add: jsset_add_def)

lemma distinct_jsset_delete [simp, js_invar]: "distinct s \<Longrightarrow> distinct (jsset_delete x s)"
  by (simp add: jsset_delete_def)

lemma set_fold_jsset_add [simp]: "set (fold jsset_add xs s) = set xs \<union> set s"
  by (induction xs arbitrary: s) auto

lemma distinct_fold_jsset_add [simp, js_invar]: "distinct s \<Longrightarrow> distinct (fold jsset_add xs s)"
  by (induction xs arbitrary: s) auto

lemma find_SomeD: "List.find p xs = Some x \<Longrightarrow> x \<in> set xs \<and> p x"
  by (auto simp: find_Some_iff)

section \<open>Array slices\<close>

definition js_index :: "int \<Rightarrow> int \<Rightarrow> int" where
  "js_index len i = (if i < 0 then max 0 (len + i) else min i len)"

definition js_slice :: "'a list \<Rightarrow> int \<Rightarrow> int \<Rightarrow> 'a list" where
  "js_slice xs a b =
     (let len = int (length xs); lo = js_index len a; hi = js_index len b
      in take (nat (hi - lo)) (drop (nat lo) xs))"

lemma js_slice_nat:
  "0 \<le> a \<Longrightarrow> 0 \<le> n \<Longrightarrow> js_slice xs a (a + n) = take (nat n) (drop (nat a) xs)"
  by (cases "a \<le> int (length xs)")
     (auto simp: js_slice_def js_index_def Let_def min_def nat_diff_distrib' nat_add_distrib take_all_iff)

lemma set_js_slice: "set (js_slice xs a b) \<subseteq> set xs"
  unfolding js_slice_def Let_def by (meson order_trans set_drop_subset set_take_subset)

lemma length_js_slice_le: "length (js_slice xs a b) \<le> length xs"
  unfolding js_slice_def Let_def by simp

lemma concat_pages: "concat (map (\<lambda>k. take n (drop (k * n) xs)) [0..<p]) = take (p * n) xs"
proof (induction p)
  case (Suc p)
  have "take (p * n + n) xs = take (p * n) xs @ take n (drop (p * n) xs)" by (rule take_add)
  then have "take (Suc p * n) xs = take (p * n) xs @ take n (drop (p * n) xs)"
    by (simp add: add.commute)
  with Suc show ?case by simp
qed simp

section \<open>Stable sorting under a comparator\<close>

fun cmp_insert :: "('a \<Rightarrow> 'a \<Rightarrow> int) \<Rightarrow> 'a \<Rightarrow> 'a list \<Rightarrow> 'a list" where
  "cmp_insert cmp x [] = [x]"
| "cmp_insert cmp x (y # ys) =
     (if cmp x y \<le> 0 then x # y # ys else y # cmp_insert cmp x ys)"

definition js_sort :: "('a \<Rightarrow> 'a \<Rightarrow> int) \<Rightarrow> 'a list \<Rightarrow> 'a list" where
  "js_sort cmp xs = foldr (cmp_insert cmp) xs []"

lemma js_sort_simps [simp]:
  "js_sort cmp [] = []" "js_sort cmp (x # xs) = cmp_insert cmp x (js_sort cmp xs)"
  by (simp_all add: js_sort_def)

lemma mset_cmp_insert [simp]: "mset (cmp_insert cmp x xs) = add_mset x (mset xs)"
  by (induction cmp x xs rule: cmp_insert.induct) auto

lemma mset_js_sort [simp]: "mset (js_sort cmp xs) = mset xs"
  by (induction xs) auto

lemma set_js_sort [simp]: "set (js_sort cmp xs) = set xs"
  using mset_js_sort [of cmp xs] by (metis set_mset_mset)

lemma length_js_sort [simp]: "length (js_sort cmp xs) = length xs"
  using mset_js_sort [of cmp xs] by (metis size_mset)

lemma distinct_js_sort [simp]: "distinct (js_sort cmp xs) = distinct xs"
  using mset_js_sort [of cmp xs] by (metis mset_eq_imp_distinct_iff)

lemma js_sort_of_sorted: "sorted_wrt (\<lambda>x y. cmp x y \<le> 0) xs \<Longrightarrow> js_sort cmp xs = xs"
proof (induction xs)
  case (Cons x xs)
  then show ?case by (cases xs) auto
qed simp

locale comparator =
  fixes cmp :: "'a \<Rightarrow> 'a \<Rightarrow> int"
  assumes cmp_flip: "cmp x y < 0 \<longleftrightarrow> cmp y x > 0"
    and cmp_trans: "cmp x y \<le> 0 \<Longrightarrow> cmp y z \<le> 0 \<Longrightarrow> cmp x z \<le> 0"
begin

lemma cmp_refl: "cmp x x = 0"
  using cmp_flip [of x x] by linarith

lemma cmp_total: "cmp x y \<le> 0 \<or> cmp y x \<le> 0"
  using cmp_flip [of x y] by linarith

lemma cmp_zero_sym: "cmp x y = 0 \<longleftrightarrow> cmp y x = 0"
  using cmp_flip [of x y] cmp_flip [of y x] by linarith

lemma not_le_imp: "\<not> cmp x y \<le> 0 \<Longrightarrow> cmp y x \<le> 0"
  using cmp_total by blast

lemma sorted_cmp_insert:
  "sorted_wrt (\<lambda>x y. cmp x y \<le> 0) xs \<Longrightarrow> sorted_wrt (\<lambda>x y. cmp x y \<le> 0) (cmp_insert cmp x xs)"
proof (induction xs)
  case (Cons y ys)
  have *: "set (cmp_insert cmp x ys) = insert x (set ys)"
    using mset_cmp_insert [of cmp x ys] by (metis set_mset_add_mset_insert set_mset_mset)
  show ?case
    using Cons not_le_imp [of x y] by (auto simp: * intro: cmp_trans [of x y])
qed simp

lemma sorted_js_sort: "sorted_wrt (\<lambda>x y. cmp x y \<le> 0) (js_sort cmp xs)"
  by (induction xs) (auto intro: sorted_cmp_insert)

lemma js_sort_idem: "js_sort cmp (js_sort cmp xs) = js_sort cmp xs"
  by (rule js_sort_of_sorted [OF sorted_js_sort])

lemma sorted_cmp_unique:
  assumes "sorted_wrt (\<lambda>x y. cmp x y \<le> 0) xs" "sorted_wrt (\<lambda>x y. cmp x y \<le> 0) ys" "mset xs = mset ys"
    and "\<And>x y. x \<in> set xs \<Longrightarrow> y \<in> set xs \<Longrightarrow> cmp x y = 0 \<Longrightarrow> x = y"
  shows "xs = ys"
  using assms
proof (induction xs arbitrary: ys)
  case (Cons x xs)
  then obtain y ys' where ys: "ys = y # ys'" by (cases ys) auto
  have mem: "x \<in> set ys" "y \<in> set (x # xs)" using Cons.prems(3) ys by (metis list.set_intros(1) mset_eq_setD)+
  have "cmp x y \<le> 0" "cmp y x \<le> 0" using mem Cons.prems(1,2) ys cmp_refl by auto
  then have "cmp x y = 0" using cmp_flip [of x y] cmp_flip [of y x] by linarith
  then have xy: "x = y" using Cons.prems(4) mem(2) by simp
  have "xs = ys'" by (rule Cons.IH) (use Cons.prems xy ys in auto)
  with xy ys show ?case by simp
qed simp

lemma js_sort_mset_cong:
  assumes "mset xs = mset ys" "\<And>x y. x \<in> set xs \<Longrightarrow> y \<in> set xs \<Longrightarrow> cmp x y = 0 \<Longrightarrow> x = y"
  shows "js_sort cmp xs = js_sort cmp ys"
  by (rule sorted_cmp_unique [OF sorted_js_sort sorted_js_sort]) (use assms in simp_all)

end

text \<open>
  Lists of rows are sorted newest first with the identifier as tie-break; the identifiers are compared
  by \<open>localeCompare\<close>, a parameter of which only the comparator laws are used. Comparison by code
  units is one such function.
\<close>

definition by_key_then :: "('a \<Rightarrow> int) \<Rightarrow> ('a \<Rightarrow> 'b) \<Rightarrow> ('b \<Rightarrow> 'b \<Rightarrow> int) \<Rightarrow> 'a \<Rightarrow> 'a \<Rightarrow> int" where
  "by_key_then k i lc a b = (if k a \<noteq> k b then k a - k b else lc (i a) (i b))"

lemma comparator_by_key_then:
  assumes "comparator lc"
  shows "comparator (by_key_then k i lc)"
proof -
  note lc = assms [unfolded comparator_def]
  have flip: "by_key_then k i lc x y < 0 \<longleftrightarrow> by_key_then k i lc y x > 0" for x y
    using lc by (auto simp: by_key_then_def)
  have trans: "by_key_then k i lc x z \<le> 0"
    if "by_key_then k i lc x y \<le> 0" "by_key_then k i lc y z \<le> 0" for x y z
    using that lc by (auto simp: by_key_then_def split: if_splits)
  show ?thesis by (rule comparator.intro [OF flip trans])
qed

fun code_unit_compare :: "string \<Rightarrow> string \<Rightarrow> int" where
  "code_unit_compare [] [] = 0"
| "code_unit_compare [] (_ # _) = - 1"
| "code_unit_compare (_ # _) [] = 1"
| "code_unit_compare (a # as) (b # bs) =
     (if of_char a < (of_char b :: nat) then - 1 else if of_char b < (of_char a :: nat) then 1
      else code_unit_compare as bs)"

lemma code_unit_compare_flip: "code_unit_compare s t = - code_unit_compare t s"
  by (induction s t rule: code_unit_compare.induct) auto

lemma code_unit_compare_trans:
  "code_unit_compare s t \<le> 0 \<Longrightarrow> code_unit_compare t u \<le> 0 \<Longrightarrow> code_unit_compare s u \<le> 0"
proof (induction s t arbitrary: u rule: code_unit_compare.induct)
  case (2 b bs)
  then show ?case by (cases u) auto
next
  case (4 a as b bs)
  show ?case
  proof (cases u)
    case Nil
    then show ?thesis using 4 by simp
  next
    case (Cons c cs)
    let ?a = "of_char a :: nat" and ?b = "of_char b :: nat" and ?c = "of_char c :: nat"
    have "?a < ?b \<or> ?a = ?b \<and> code_unit_compare as bs \<le> 0" using 4(2) by (simp split: if_splits)
    moreover have "?b < ?c \<or> ?b = ?c \<and> code_unit_compare bs cs \<le> 0"
      using 4(3) by (simp add: Cons split: if_splits)
    ultimately have "?a < ?c \<or> ?a = ?c \<and> code_unit_compare as cs \<le> 0"
      using 4(1) [of cs] by (elim disjE conjE) simp_all
    then show ?thesis by (auto simp: Cons)
  qed
qed simp_all

lemma code_unit_compare_eq: "code_unit_compare s t = 0 \<Longrightarrow> s = t"
  by (induction s t rule: code_unit_compare.induct) (auto split: if_splits)

interpretation cu: comparator code_unit_compare
proof
  show "code_unit_compare x y < 0 \<longleftrightarrow> code_unit_compare y x > 0" for x y
    using code_unit_compare_flip [of x y] by linarith
qed (rule code_unit_compare_trans)

section \<open>Strings\<close>

definition is_ws :: "char \<Rightarrow> bool" where
  "is_ws c \<longleftrightarrow> c \<in> {CHR '' '', CHR 0x09, CHR 0x0A, CHR 0x0B, CHR 0x0C, CHR 0x0D, CHR 0xA0}"

definition js_trim_start :: "string \<Rightarrow> string" where
  "js_trim_start s = dropWhile is_ws s"

definition js_trim :: "string \<Rightarrow> string" where
  "js_trim s = rev (dropWhile is_ws (rev (dropWhile is_ws s)))"

fun js_split :: "char \<Rightarrow> string \<Rightarrow> string list" where
  "js_split c [] = [[]]"
| "js_split c (x # xs) =
     (if x = c then [] # js_split c xs
      else (case js_split c xs of [] \<Rightarrow> [[x]] | p # ps \<Rightarrow> (x # p) # ps))"

fun js_join :: "string \<Rightarrow> string list \<Rightarrow> string" where
  "js_join sep [] = []"
| "js_join sep [s] = s"
| "js_join sep (s # t # ts) = s @ sep @ js_join sep (t # ts)"

definition js_padStart :: "nat \<Rightarrow> char \<Rightarrow> string \<Rightarrow> string" where
  "js_padStart n c s = replicate (n - length s) c @ s"

definition js_upper_char :: "char \<Rightarrow> char" where
  "js_upper_char c = (if 97 \<le> (of_char c :: nat) \<and> (of_char c :: nat) \<le> 122 then char_of (of_char c - 32 :: nat) else c)"

definition js_toUpperCase :: "string \<Rightarrow> string" where
  "js_toUpperCase s = map js_upper_char s"

definition js_lower_char :: "char \<Rightarrow> char" where
  "js_lower_char c = (if 65 \<le> (of_char c :: nat) \<and> (of_char c :: nat) \<le> 90 then char_of (of_char c + 32 :: nat) else c)"

definition js_toLowerCase :: "string \<Rightarrow> string" where
  "js_toLowerCase s = map js_lower_char s"

lemma js_split_not_Nil [simp]: "js_split c s \<noteq> []"
  by (induction s) (auto split: list.splits)

lemma js_split_none: "c \<notin> set s \<Longrightarrow> js_split c s = [s]"
  by (induction s) auto

lemma js_split_first: "c \<notin> set a \<Longrightarrow> js_split c (a @ c # b) = a # js_split c b"
  by (induction a) auto

lemma js_join_split: "js_join [c] (js_split c s) = s"
proof (induction s)
  case (Cons x s)
  obtain p ps where "js_split c s = p # ps" by (metis js_split_not_Nil list.exhaust)
  then show ?case using Cons by (cases ps) auto
qed simp

lemma dropWhile_idem: "dropWhile P (dropWhile P xs) = dropWhile P xs"
  by (induction xs) auto

lemma dropWhile_rev_dropWhile:
  "dropWhile P (rev (dropWhile P (rev (dropWhile P xs)))) = rev (dropWhile P (rev (dropWhile P xs)))"
proof -
  let ?ys = "dropWhile P xs"
  let ?zs = "rev (dropWhile P (rev ?ys))"
  show ?thesis
  proof (cases "?zs = []")
    case False
    obtain ts where ts: "?ys = ?zs @ ts"
      by (metis rev_append rev_rev_ident takeWhile_dropWhile_id)
    have ne: "?ys \<noteq> []" using False by (metis dropWhile.simps(1) rev.simps(1))
    have "hd ?zs = hd ?ys" using False ts by (metis hd_append2)
    with ne have "\<not> P (hd ?zs)" using hd_dropWhile by metis
    with False show ?thesis by (simp add: dropWhile_eq_self_iff)
  next
    case True
    then show ?thesis by (simp only: dropWhile.simps)
  qed
qed

lemma js_trim_idem [simp]: "js_trim (js_trim s) = js_trim s"
  unfolding js_trim_def by (simp add: dropWhile_rev_dropWhile dropWhile_idem)

lemma js_trim_no_ws: "(\<And>c. c \<in> set s \<Longrightarrow> \<not> is_ws c) \<Longrightarrow> js_trim s = s"
proof -
  assume *: "\<And>c. c \<in> set s \<Longrightarrow> \<not> is_ws c"
  have 1: "dropWhile is_ws s = s"
    using * by (cases s) auto
  have 2: "dropWhile is_ws (rev s) = rev s"
    using * hd_in_set [of "rev s"] by (auto simp: dropWhile_eq_self_iff)
  show ?thesis by (simp add: js_trim_def 1 2)
qed

section \<open>Decimal digits\<close>

definition is_digit :: "char \<Rightarrow> bool" where
  "is_digit c \<longleftrightarrow> 48 \<le> (of_char c :: nat) \<and> (of_char c :: nat) \<le> 57"

definition digit_val :: "char \<Rightarrow> nat" where
  "digit_val c = of_char c - 48"

definition digit_char :: "nat \<Rightarrow> char" where
  "digit_char d = char_of (48 + d)"

definition nat_of_digits :: "string \<Rightarrow> nat" where
  "nat_of_digits ds = foldl (\<lambda>acc c. 10 * acc + digit_val c) 0 ds"

fun digits_of_nat :: "nat \<Rightarrow> string" where
  "digits_of_nat n =
     (if n < 10 then [digit_char n] else digits_of_nat (n div 10) @ [digit_char (n mod 10)])"

declare digits_of_nat.simps [simp del]

lemma of_char_digit_char: "d < 10 \<Longrightarrow> (of_char (digit_char d) :: nat) = 48 + d"
  unfolding digit_char_def by (subst of_char_of) auto

lemma is_digit_digit_char [simp]: "d < 10 \<Longrightarrow> is_digit (digit_char d)"
  by (simp add: is_digit_def of_char_digit_char)

lemma digit_val_digit_char [simp]: "d < 10 \<Longrightarrow> digit_val (digit_char d) = d"
  by (simp add: digit_val_def of_char_digit_char)

lemma digit_char_digit_val: "is_digit c \<Longrightarrow> digit_char (digit_val c) = c"
  unfolding is_digit_def digit_char_def digit_val_def by simp

lemma digit_val_less: "is_digit c \<Longrightarrow> digit_val c < 10"
  unfolding is_digit_def digit_val_def by arith

lemma nat_of_digits_Nil [simp]: "nat_of_digits [] = 0"
  by (simp add: nat_of_digits_def)

lemma nat_of_digits_snoc [simp]: "nat_of_digits (ds @ [c]) = 10 * nat_of_digits ds + digit_val c"
  by (simp add: nat_of_digits_def)

lemma nat_of_digits_append:
  "nat_of_digits (xs @ ys) = nat_of_digits xs * 10 ^ length ys + nat_of_digits ys"
proof (induction ys rule: rev_induct)
  case (snoc y ys)
  have "nat_of_digits (xs @ ys @ [y]) = nat_of_digits ((xs @ ys) @ [y])" by simp
  also have "\<dots> = 10 * nat_of_digits (xs @ ys) + digit_val y" by (rule nat_of_digits_snoc)
  finally show ?case using snoc by (simp add: algebra_simps)
qed simp

lemma nat_of_digits_Cons:
  "nat_of_digits (c # ds) = digit_val c * 10 ^ length ds + nat_of_digits ds"
  using nat_of_digits_append [of "[c]" ds] by (simp add: nat_of_digits_def)

lemma nat_of_digits_replicate_zero [simp]: "nat_of_digits (replicate n (CHR ''0'')) = 0"
  by (induction n) (simp_all add: nat_of_digits_Cons digit_val_def)

lemma nat_of_digits_less:
  "\<forall>c \<in> set ds. is_digit c \<Longrightarrow> nat_of_digits ds < 10 ^ length ds"
proof (induction ds)
  case (Cons c ds)
  then have "digit_val c \<le> 9" using digit_val_less [of c] by simp
  then have "digit_val c * 10 ^ length ds \<le> 9 * 10 ^ length ds" by (rule mult_le_mono1)
  moreover have "nat_of_digits ds < 10 ^ length ds" using Cons by simp
  ultimately have "digit_val c * 10 ^ length ds + nat_of_digits ds < 9 * 10 ^ length ds + 10 ^ length ds"
    by (rule add_le_less_mono)
  then show ?case by (simp add: nat_of_digits_Cons)
qed simp

lemma digits_of_nat_digits: "c \<in> set (digits_of_nat n) \<Longrightarrow> is_digit c"
proof (induction n rule: digits_of_nat.induct)
  case (1 n)
  then show ?case
    by (cases "n < 10") (auto simp: digits_of_nat.simps [of n])
qed

lemma nat_of_digits_of_nat [simp]: "nat_of_digits (digits_of_nat n) = n"
proof (induction n rule: digits_of_nat.induct)
  case (1 n)
  show ?case
  proof (cases "n < 10")
    case True
    then show ?thesis by (simp add: digits_of_nat.simps [of n] nat_of_digits_Cons)
  next
    case False
    with 1 show ?thesis by (simp add: digits_of_nat.simps [of n])
  qed
qed

lemma digits_of_nat_not_Nil [simp]: "digits_of_nat n \<noteq> []"
  by (subst digits_of_nat.simps) simp

lemma digits_of_nat_inj [simp]: "digits_of_nat m = digits_of_nat n \<longleftrightarrow> m = n"
  using nat_of_digits_of_nat by metis

lemma length_digits_of_nat:
  "10 ^ k \<le> n \<Longrightarrow> n < 10 ^ Suc k \<Longrightarrow> length (digits_of_nat n) = Suc k"
proof (induction k arbitrary: n)
  case 0
  then show ?case by (subst digits_of_nat.simps) simp
next
  case (Suc k)
  then have "10 ^ k \<le> n div 10" "n div 10 < 10 ^ Suc k" "\<not> n < 10"
    by (auto simp: less_eq_div_iff_mult_less_eq div_less_iff_less_mult ac_simps)
       (use one_le_power [of "10::nat" k] in linarith)
  with Suc.IH [of "n div 10"] show ?case by (subst digits_of_nat.simps) simp
qed

lemma takeWhile_digits:
  "(\<And>c. c \<in> set ds \<Longrightarrow> is_digit c) \<Longrightarrow> (rest = [] \<or> \<not> is_digit (hd rest)) \<Longrightarrow>
     takeWhile is_digit (ds @ rest) = ds \<and> dropWhile is_digit (ds @ rest) = rest"
  by (induction ds) (auto, (cases rest; simp)+)

definition show_int :: "int \<Rightarrow> string" where
  "show_int i = (if i < 0 then ''-'' @ digits_of_nat (nat (- i)) else digits_of_nat (nat i))"

lemma hd_digits_of_nat: "is_digit (hd (digits_of_nat n))"
  by (meson digits_of_nat_digits digits_of_nat_not_Nil hd_in_set)

lemma not_is_digit_minus [simp]: "\<not> is_digit (CHR ''-'')"
  by (simp add: is_digit_def)

lemma show_int_inj [simp]: "show_int i = show_int j \<longleftrightarrow> i = j"
proof
  assume eq: "show_int i = show_int j"
  have hd_neq: "digits_of_nat n \<noteq> CHR ''-'' # ds" for n ds
    using hd_digits_of_nat [of n] not_is_digit_minus by (metis list.sel(1))
  show "i = j"
    using eq hd_neq [of "nat i"] hd_neq [of "nat j"]
    by (cases "i < 0"; cases "j < 0") (auto simp: show_int_def, metis)
qed simp

end
