(* ===== verification/JsNumber.thy ===== *)
theory JsNumber
  imports Prelude "HOL-Library.Log_Nat"
begin

text \<open>
  JavaScript numbers. A number is \<open>NaN\<close>, an infinity, or a finite IEEE-754 binary64 value; a
  finite value is kept as the rational it denotes (the two zeros are identified: no code of the
  backend divides by a zero or prints one differently). \<open>dround\<close> is the rounding of binary64:
  to nearest, ties to even, 53 significant bits, exponents from \<open>-1074\<close>, overflow to infinity. Every
  arithmetic operation is the exact operation followed by \<open>dround\<close>, as IEEE-754 and ECMAScript
  prescribe. \<open>parseFloat\<close> follows \<open>StrDecimalLiteral\<close>, \<open>num_toString\<close> follows
  \<open>Number::toString\<close> (the shortest digit sequence that reads back as the same value).

  The main results: \<open>dround\<close> yields a binary64 value and leaves binary64 values alone, and
  \<open>parseFloat (num_toString x) = x\<close>, which is what makes storing amounts as strings lossless.
\<close>

named_theorems num_simps \<open>unfolding rules for number operations\<close>

datatype number = NaN | PosInf | NegInf | Fin rat

section \<open>Integer part of a logarithm\<close>

definition ilog :: "nat \<Rightarrow> rat \<Rightarrow> int" where
  "ilog b q =
     (let (n, d) = quotient_of q; e = int (floorlog b (nat n)) - int (floorlog b (nat d))
      in if of_nat b powi e \<le> q then e else e - 1)"

lemma quotient_of_pos:
  assumes "0 < q" "quotient_of q = (n, d)"
  shows "0 < n" "0 < d" "q = of_int n / of_int d"
proof -
  show d: "0 < d" using assms(2) by (rule quotient_of_denom_pos)
  show q: "q = of_int n / of_int d" using assms(2) by (rule quotient_of_div)
  show "0 < n" using assms(1) d by (simp add: q zero_less_divide_iff)
qed

lemma floorlog_nat_bounds:
  assumes "0 < (n :: int)" "1 < b"
  shows "(of_nat b :: rat) powi (int (floorlog b (nat n)) - 1) \<le> of_int n"
    and "of_int n < (of_nat b :: rat) powi int (floorlog b (nat n))"
proof -
  let ?f = "floorlog b (nat n)"
  have *: "b ^ (?f - 1) \<le> nat n" "nat n < b ^ ?f"
    using floorlog_bounds [of "nat n" b] assms by auto
  have f: "0 < ?f" using assms by (simp add: floorlog_def)
  then have f1: "int ?f - 1 = int (?f - 1)" by simp
  have "(of_nat b :: rat) powi (int ?f - 1) = of_nat (b ^ (?f - 1))"
    unfolding f1 power_int_of_nat by simp
  also have "\<dots> \<le> of_nat (nat n)" using *(1) by (simp only: of_nat_le_iff)
  finally show "(of_nat b :: rat) powi (int ?f - 1) \<le> of_int n" using assms by simp
  have "of_nat (nat n) < (of_nat (b ^ ?f) :: rat)" using *(2) by (simp only: of_nat_less_iff)
  then show "of_int n < (of_nat b :: rat) powi int ?f" using assms by simp
qed

lemma ilog_bounds:
  assumes "0 < q" "1 < b"
  shows "(of_nat b :: rat) powi ilog b q \<le> q" and "q < of_nat b powi (ilog b q + 1)"
proof -
  obtain n d where nd: "quotient_of q = (n, d)" by force
  note pos = quotient_of_pos [OF assms(1) nd]
  let ?B = "of_nat b :: rat" and ?fn = "int (floorlog b (nat n))" and ?fd = "int (floorlog b (nat d))"
  have B: "1 < ?B" "?B \<noteq> 0" using assms(2) by auto
  note bn = floorlog_nat_bounds [OF pos(1) assms(2)] and bd = floorlog_nat_bounds [OF pos(2) assms(2)]
  have d0: "0 < (of_int d :: rat)" using pos(2) by simp
  have "?fn - ?fd - 1 = (?fn - 1) - ?fd" by simp
  then have "?B powi (?fn - ?fd - 1) = ?B powi (?fn - 1) / ?B powi ?fd"
    using B(2) by (simp only: power_int_diff simp_thms)
  also have "\<dots> \<le> of_int n / of_int d"
    using bn(1) bd(2) B pos d0 by (intro frac_le) auto
  finally have lo: "?B powi (?fn - ?fd - 1) \<le> q" by (simp add: pos(3))
  have "of_int n / of_int d < ?B powi ?fn / ?B powi (?fd - 1)"
    using bn(2) bd(1) B pos d0 by (intro frac_less) auto
  also have "\<dots> = ?B powi (?fn - (?fd - 1))"
    using B(2) by (simp only: power_int_diff simp_thms)
  also have "\<dots> = ?B powi (?fn - ?fd + 1)" by (simp add: algebra_simps)
  finally have hi: "q < ?B powi (?fn - ?fd + 1)" by (simp add: pos(3))
  show "?B powi ilog b q \<le> q" "q < ?B powi (ilog b q + 1)"
    using lo hi by (auto simp: ilog_def nd Let_def)
qed

lemma powi_le_cancel: "1 < (B :: rat) \<Longrightarrow> B powi i < B powi j \<Longrightarrow> i < j"
  by (metis not_le order_less_imp_le power_int_increasing)

lemma ilog_unique:
  assumes "1 < b" "(of_nat b :: rat) powi e \<le> q" "q < of_nat b powi (e + 1)"
  shows "ilog b q = e"
proof -
  have B: "1 < (of_nat b :: rat)" using assms(1) by simp
  have q: "0 < q" using assms(2) B by (meson less_le_trans zero_less_power_int less_trans zero_less_one)
  note i = ilog_bounds [OF q assms(1)]
  have "(of_nat b :: rat) powi e < of_nat b powi (ilog b q + 1)" using assms(2) i(2) by simp
  then have "e < ilog b q + 1" by (rule powi_le_cancel [OF B])
  moreover have "(of_nat b :: rat) powi ilog b q < of_nat b powi (e + 1)" using assms(3) i(1) by simp
  then have "ilog b q < e + 1" by (rule powi_le_cancel [OF B])
  ultimately show ?thesis by simp
qed

section \<open>Rounding to binary64\<close>

definition rnd_even :: "rat \<Rightarrow> int" where
  "rnd_even x =
     (let f = \<lfloor>x\<rfloor>; r = x - of_int f
      in if r < 1 / 2 then f else if r > 1 / 2 then f + 1 else if even f then f else f + 1)"

definition dmax :: rat where
  "dmax = 2 ^ 1024"

definition dround :: "rat \<Rightarrow> number" where
  "dround q =
     (if q = 0 then Fin 0
      else let e = max (ilog 2 \<bar>q\<bar> - 52) (- 1074);
               v = of_int (rnd_even (q / 2 powi e)) * 2 powi e
           in if v \<ge> dmax then PosInf else if v \<le> - dmax then NegInf else Fin v)"

fun is_double :: "number \<Rightarrow> bool" where
  "is_double (Fin q) \<longleftrightarrow>
     (\<exists>m e. q = of_int m * 2 powi e \<and> \<bar>m\<bar> < 2 ^ 53 \<and> - 1074 \<le> e \<and> \<bar>q\<bar> < dmax)"
| "is_double _ \<longleftrightarrow> True"

lemma dmax_pos [simp]: "0 < dmax" "- dmax < 0"
  by (simp_all add: dmax_def)

lemma rnd_even_of_int [simp]: "rnd_even (of_int i) = i"
  by (simp add: rnd_even_def)

lemma rnd_even_cases: "rnd_even x = \<lfloor>x\<rfloor> \<or> rnd_even x = \<lfloor>x\<rfloor> + 1"
  by (auto simp: rnd_even_def Let_def)

lemma rnd_even_mono: "x \<le> y \<Longrightarrow> rnd_even x \<le> rnd_even y"
proof (cases "\<lfloor>x\<rfloor> = \<lfloor>y\<rfloor>")
  case True
  assume "x \<le> y"
  then show ?thesis using True by (auto simp: rnd_even_def Let_def)
next
  case False
  assume "x \<le> y"
  with False have "\<lfloor>x\<rfloor> + 1 \<le> \<lfloor>y\<rfloor>" using floor_mono [of x y] by linarith
  then show ?thesis using rnd_even_cases [of x] rnd_even_cases [of y] by linarith
qed

lemma rnd_even_nonneg: "0 \<le> x \<Longrightarrow> 0 \<le> rnd_even x"
  using rnd_even_mono [of 0 x] rnd_even_of_int [of 0] by simp

lemma rnd_even_abs_le:
  assumes "\<bar>x\<bar> \<le> of_int k"
  shows "\<bar>rnd_even x\<bar> \<le> k"
proof -
  from assms have *: "of_int (- k) \<le> x" "x \<le> of_int k" by auto
  show ?thesis
    using rnd_even_mono [OF *(1)] rnd_even_mono [OF *(2)] rnd_even_of_int [of k]
      rnd_even_of_int [of "- k"] by linarith
qed

lemma dround_0 [simp]: "dround 0 = Fin 0"
  by (simp add: dround_def)

lemma dround_double: "is_double (dround q)"
proof (cases "q = 0")
  case True
  have "\<exists>m e. (0::rat) = of_int m * 2 powi e \<and> \<bar>m\<bar> < 2 ^ 53 \<and> - 1074 \<le> e \<and> \<bar>0::rat\<bar> < dmax"
    by (rule exI [of _ 0], rule exI [of _ 0]) (simp add: dmax_pos)
  with True show ?thesis by simp
next
  case False
  define l where "l = ilog 2 \<bar>q\<bar>"
  define e where "e = max (l - 52) (- 1074)"
  define m where "m = rnd_even (q / 2 powi e)"
  have q: "0 < \<bar>q\<bar>" using False by simp
  have "\<bar>q\<bar> < 2 powi (l + 1)" using ilog_bounds(2) [OF q, of 2] by (simp add: l_def)
  also have "\<dots> \<le> 2 powi (53 + e)" by (rule power_int_increasing) (auto simp: e_def)
  also have "\<dots> = 2 ^ 53 * 2 powi e" by (simp add: power_int_add)
  finally have "\<bar>q / 2 powi e\<bar> < of_int (2 ^ 53)" by (simp add: abs_divide field_simps)
  then have m: "\<bar>m\<bar> \<le> 2 ^ 53"
    unfolding m_def by (intro rnd_even_abs_le) simp
  have eq: "dround q = (if of_int m * 2 powi e \<ge> dmax then PosInf
      else if of_int m * 2 powi e \<le> - dmax then NegInf else Fin (of_int m * 2 powi e))"
    using False by (simp add: dround_def Let_def e_def m_def l_def)
  show ?thesis
  proof (cases "\<bar>of_int m * 2 powi e\<bar> < dmax")
    case small: True
    have "\<exists>m' e'. (of_int m * 2 powi e :: rat) = of_int m' * 2 powi e' \<and> \<bar>m'\<bar> < 2 ^ 53 \<and> - 1074 \<le> e'"
    proof (cases "\<bar>m\<bar> = 2 ^ 53")
      case True
      have "(of_int m * 2 powi e :: rat) = of_int (m div 2) * 2 powi (e + 1)"
      proof -
        have "m = 2 ^ 53 \<or> m = - (2 ^ 53)" using True by linarith
        then have "m = 2 * (m div 2)" by (elim disjE) simp_all
        then have "(of_int m :: rat) = 2 * of_int (m div 2)" by (metis of_int_mult of_int_numeral)
        then show ?thesis by (simp add: power_int_add)
      qed
      moreover have "\<bar>m div 2\<bar> < 2 ^ 53" using True by (auto simp: abs_if split: if_splits)
      moreover have "- 1074 \<le> e + 1" by (simp add: e_def)
      ultimately show ?thesis by blast
    next
      case False
      with m have "\<bar>m\<bar> < 2 ^ 53" by simp
      moreover have "- 1074 \<le> e" by (simp add: e_def)
      ultimately show ?thesis by blast
    qed
    then show ?thesis using small by (auto simp: eq abs_less_iff)
  next
    case False
    then show ?thesis by (auto simp: eq abs_less_iff)
  qed
qed

lemma dround_id:
  assumes "is_double (Fin q)"
  shows "dround q = Fin q"
proof (cases "q = 0")
  case False
  obtain m e where q: "q = of_int m * 2 powi e" and m: "\<bar>m\<bar> < 2 ^ 53" and e: "- 1074 \<le> e"
    and lt: "\<bar>q\<bar> < dmax" using assms by auto
  define l where "l = ilog 2 \<bar>q\<bar>"
  define e' where "e' = max (l - 52) (- 1074)"
  have pos: "0 < \<bar>q\<bar>" using False by simp
  have "(2::rat) powi l \<le> \<bar>q\<bar>" using ilog_bounds(1) [OF pos, of 2] by (simp add: l_def)
  also have "\<bar>q\<bar> = of_int \<bar>m\<bar> * 2 powi e" by (simp add: q abs_mult)
  also have "\<dots> < of_int (2 ^ 53) * 2 powi e"
    using m by (intro mult_strict_right_mono) (auto simp del: of_int_power simp flip: of_int_less_iff)
  also have "\<dots> = 2 powi (53 + e)" by (simp add: power_int_add)
  finally have "l < 53 + e" by (rule powi_le_cancel [rotated]) simp
  with e have le: "e' \<le> e" by (simp add: e'_def)
  have "q / 2 powi e' = of_int m * 2 powi (e - e')" by (simp add: q power_int_diff)
  also have "\<dots> = of_int (m * 2 ^ nat (e - e'))" using le by (simp add: power_int_def)
  finally have "q / 2 powi e' = of_int (m * 2 ^ nat (e - e'))" .
  then have "of_int (rnd_even (q / 2 powi e')) * 2 powi e' = q / 2 powi e' * 2 powi e'"
    by (simp only: rnd_even_of_int)
  then have "of_int (rnd_even (q / 2 powi e')) * 2 powi e' = q" by simp
  then show ?thesis using False lt by (auto simp: dround_def Let_def e'_def l_def abs_less_iff)
qed simp

lemma dround_idem [simp]: "dround q = Fin v \<Longrightarrow> dround v = Fin v"
  using dround_double [of q] dround_id by metis

lemma int_less_dmax: "\<bar>i\<bar> < 2 ^ 53 \<Longrightarrow> \<bar>of_int i :: rat\<bar> < dmax"
proof -
  assume "\<bar>i\<bar> < 2 ^ 53"
  then have "of_int \<bar>i\<bar> < (of_int (2 ^ 53) :: rat)" by (simp only: of_int_less_iff)
  also have "\<dots> = 2 ^ 53" by simp
  also have "\<dots> \<le> dmax" unfolding dmax_def by (rule power_increasing) auto
  finally show ?thesis by simp
qed

lemma is_double_int: "\<bar>i\<bar> < 2 ^ 53 \<Longrightarrow> is_double (Fin (of_int i))"
  using int_less_dmax [of i] by (simp only: is_double.simps) (rule exI [of _ i], rule exI [of _ 0], simp)

lemma dround_int [simp]: "\<bar>i\<bar> < 2 ^ 53 \<Longrightarrow> dround (of_int i) = Fin (of_int i)"
  by (rule dround_id [OF is_double_int])

lemma dround_numeral [simp]: "(numeral n :: int) < 2 ^ 53 \<Longrightarrow> dround (numeral n) = Fin (numeral n)"
  using dround_int [of "numeral n"] by simp

lemma dround_one [simp]: "dround 1 = Fin 1"
  using dround_int [of 1] by simp

lemma dround_nonneg: "0 \<le> q \<Longrightarrow> dround q = PosInf \<or> (\<exists>v \<ge> 0. dround q = Fin v)"
proof (cases "q = 0")
  case False
  assume q: "0 \<le> q"
  have nn: "0 \<le> of_int (rnd_even (q / 2 powi e)) * (2::rat) powi e" for e
    using q by (intro mult_nonneg_nonneg) (auto intro!: rnd_even_nonneg)
  have "\<not> of_int (rnd_even (q / 2 powi e)) * (2::rat) powi e \<le> - dmax" for e
    using nn [of e] dmax_pos(2) by (meson order.strict_trans2 not_le)
  with False nn show ?thesis by (auto simp: dround_def Let_def)
qed simp

section \<open>Arithmetic and comparison\<close>

fun num_neg :: "number \<Rightarrow> number" where
  "num_neg NaN = NaN"
| "num_neg PosInf = NegInf"
| "num_neg NegInf = PosInf"
| "num_neg (Fin a) = Fin (- a)"

fun num_add :: "number \<Rightarrow> number \<Rightarrow> number" where
  "num_add (Fin a) (Fin b) = dround (a + b)"
| "num_add NaN _ = NaN"
| "num_add _ NaN = NaN"
| "num_add PosInf NegInf = NaN"
| "num_add NegInf PosInf = NaN"
| "num_add PosInf _ = PosInf"
| "num_add _ PosInf = PosInf"
| "num_add NegInf _ = NegInf"
| "num_add _ NegInf = NegInf"

definition num_sub :: "number \<Rightarrow> number \<Rightarrow> number" where
  "num_sub x y = num_add x (num_neg y)"

text \<open>\<open>num_sign\<close> is \<open>1\<close>, \<open>0\<close> or \<open>-1\<close>; an infinity times or over zero is \<open>NaN\<close>.\<close>

fun num_sign :: "number \<Rightarrow> rat" where
  "num_sign (Fin a) = sgn a"
| "num_sign PosInf = 1"
| "num_sign NegInf = - 1"
| "num_sign NaN = 0"

definition inf_of_sign :: "rat \<Rightarrow> number" where
  "inf_of_sign s = (if s > 0 then PosInf else if s < 0 then NegInf else NaN)"

fun num_mul :: "number \<Rightarrow> number \<Rightarrow> number" where
  "num_mul (Fin a) (Fin b) = dround (a * b)"
| "num_mul NaN _ = NaN"
| "num_mul _ NaN = NaN"
| "num_mul x y = inf_of_sign (num_sign x * num_sign y)"

fun num_div :: "number \<Rightarrow> number \<Rightarrow> number" where
  "num_div (Fin a) (Fin b) = (if b = 0 then inf_of_sign (sgn a) else dround (a / b))"
| "num_div NaN _ = NaN"
| "num_div _ NaN = NaN"
| "num_div (Fin a) _ = Fin 0"
| "num_div x (Fin b) = (if b = 0 then x else inf_of_sign (num_sign x * sgn b))"
| "num_div _ _ = NaN"

fun num_lt :: "number \<Rightarrow> number \<Rightarrow> bool" where
  "num_lt (Fin a) (Fin b) \<longleftrightarrow> a < b"
| "num_lt NaN _ \<longleftrightarrow> False"
| "num_lt _ NaN \<longleftrightarrow> False"
| "num_lt NegInf y \<longleftrightarrow> y \<noteq> NegInf"
| "num_lt x PosInf \<longleftrightarrow> x \<noteq> PosInf"
| "num_lt _ _ \<longleftrightarrow> False"

definition num_le :: "number \<Rightarrow> number \<Rightarrow> bool" where
  "num_le x y \<longleftrightarrow> x \<noteq> NaN \<and> y \<noteq> NaN \<and> \<not> num_lt y x"

definition num_gt :: "number \<Rightarrow> number \<Rightarrow> bool" where
  "num_gt x y \<longleftrightarrow> num_lt y x"

definition num_ge :: "number \<Rightarrow> number \<Rightarrow> bool" where
  "num_ge x y \<longleftrightarrow> num_le y x"

text \<open>\<open>===\<close> on numbers: \<open>NaN\<close> differs from itself.\<close>

definition num_eq :: "number \<Rightarrow> number \<Rightarrow> bool" where
  "num_eq x y \<longleftrightarrow> x = y \<and> x \<noteq> NaN"

fun num_isFinite :: "number \<Rightarrow> bool" where
  "num_isFinite (Fin a) \<longleftrightarrow> True"
| "num_isFinite _ \<longleftrightarrow> False"

fun num_isInteger :: "number \<Rightarrow> bool" where
  "num_isInteger (Fin a) \<longleftrightarrow> of_int \<lfloor>a\<rfloor> = a"
| "num_isInteger _ \<longleftrightarrow> False"

definition num_max :: "number \<Rightarrow> number \<Rightarrow> number" where
  "num_max x y = (if x = NaN \<or> y = NaN then NaN else if num_lt x y then y else x)"

definition num_min :: "number \<Rightarrow> number \<Rightarrow> number" where
  "num_min x y = (if x = NaN \<or> y = NaN then NaN else if num_lt y x then y else x)"

fun num_abs :: "number \<Rightarrow> number" where
  "num_abs (Fin a) = Fin \<bar>a\<bar>"
| "num_abs NegInf = PosInf"
| "num_abs x = x"

fun num_floor :: "number \<Rightarrow> number" where
  "num_floor (Fin a) = Fin (of_int \<lfloor>a\<rfloor>)"
| "num_floor x = x"

fun num_ceil :: "number \<Rightarrow> number" where
  "num_ceil (Fin a) = Fin (of_int \<lceil>a\<rceil>)"
| "num_ceil x = x"

text \<open>\<open>Math.round\<close> rounds halves up.\<close>

fun num_round :: "number \<Rightarrow> number" where
  "num_round (Fin a) = Fin (of_int \<lfloor>a + 1 / 2\<rfloor>)"
| "num_round x = x"

abbreviation num_of_int :: "int \<Rightarrow> number" where
  "num_of_int i \<equiv> Fin (of_int i)"

lemma num_le_Fin [simp]: "num_le (Fin a) (Fin b) \<longleftrightarrow> a \<le> b"
  by (auto simp: num_le_def)

lemma num_gt_Fin [simp]: "num_gt (Fin a) (Fin b) \<longleftrightarrow> b < a"
  by (simp add: num_gt_def)

lemma num_ge_Fin [simp]: "num_ge (Fin a) (Fin b) \<longleftrightarrow> b \<le> a"
  by (simp add: num_ge_def)

lemma num_not_gt_NaN [simp]: "\<not> num_gt x NaN" "\<not> num_gt NaN x" "\<not> num_le NaN x" "\<not> num_le x NaN"
  by (cases x; simp add: num_gt_def num_le_def)+

lemma num_isFinite_iff: "num_isFinite x \<longleftrightarrow> (\<exists>a. x = Fin a)"
  by (cases x) auto

lemma num_lt_PosInf [simp]: "num_lt x PosInf \<longleftrightarrow> x \<noteq> NaN \<and> x \<noteq> PosInf"
  by (cases x) auto

lemma num_lt_NegInf [simp]: "\<not> num_lt x NegInf"
  by (cases x) auto

lemma num_lt_trans: "num_lt x y \<Longrightarrow> num_lt y z \<Longrightarrow> num_lt x z"
  by (cases x; cases y; cases z) auto

lemma num_le_refl: "x \<noteq> NaN \<Longrightarrow> num_le x x"
  by (cases x) (auto simp: num_le_def)

lemma num_le_trans: "num_le x y \<Longrightarrow> num_le y z \<Longrightarrow> num_le x z"
  by (cases x; cases y; cases z) (auto simp: num_le_def)

lemma num_not_gt_le: "x \<noteq> NaN \<Longrightarrow> y \<noteq> NaN \<Longrightarrow> \<not> num_gt x y \<longleftrightarrow> num_le x y"
  by (simp add: num_gt_def num_le_def)

lemma num_le_min1: "x \<noteq> NaN \<Longrightarrow> y \<noteq> NaN \<Longrightarrow> num_le (num_min x y) x"
  and num_le_min2: "x \<noteq> NaN \<Longrightarrow> y \<noteq> NaN \<Longrightarrow> num_le (num_min x y) y"
  by (cases x; cases y; auto simp: num_le_def num_min_def)+

lemma num_le_max1: "x \<noteq> NaN \<Longrightarrow> y \<noteq> NaN \<Longrightarrow> num_le x (num_max x y)"
  and num_le_max2: "x \<noteq> NaN \<Longrightarrow> y \<noteq> NaN \<Longrightarrow> num_le y (num_max x y)"
  by (cases x; cases y; auto simp: num_le_def num_max_def)+

lemma is_double_neg [simp]: "is_double (num_neg x) \<longleftrightarrow> is_double x"
proof -
  have *: "is_double x \<Longrightarrow> is_double (num_neg x)" for x
  proof (cases x)
    case (Fin q)
    assume "is_double x"
    then obtain m e where "q = of_int m * 2 powi e" "\<bar>m\<bar> < 2 ^ 53" "- 1074 \<le> e" "\<bar>q\<bar> < dmax"
      using Fin by auto
    then have "- q = of_int (- m) * 2 powi e \<and> \<bar>- m\<bar> < 2 ^ 53 \<and> - 1074 \<le> e \<and> \<bar>- q\<bar> < dmax" by simp
    then show ?thesis unfolding Fin num_neg.simps is_double.simps by blast
  qed auto
  show ?thesis using * [of x] * [of "num_neg x"] by (cases x) auto
qed

lemma is_double_dround [simp]: "is_double (dround q)"
  by (rule dround_double)

lemma inf_of_sign_double [simp]: "is_double (inf_of_sign s)"
  by (simp add: inf_of_sign_def)

lemma num_add_double [simp]: "is_double x \<Longrightarrow> is_double y \<Longrightarrow> is_double (num_add x y)"
  by (cases x; cases y) (simp_all del: is_double.simps(1))

lemma num_sub_double [simp]: "is_double x \<Longrightarrow> is_double y \<Longrightarrow> is_double (num_sub x y)"
  by (simp add: num_sub_def)

lemma num_max_double [simp]: "is_double x \<Longrightarrow> is_double y \<Longrightarrow> is_double (num_max x y)"
  by (simp add: num_max_def del: is_double.simps(1))

lemma num_min_double [simp]: "is_double x \<Longrightarrow> is_double y \<Longrightarrow> is_double (num_min x y)"
  by (simp add: num_min_def del: is_double.simps(1))

lemma is_double_Fin_0 [simp]: "is_double (Fin 0)"
  using is_double_int [of 0] by simp

lemma num_mul_double [simp]: "is_double x \<Longrightarrow> is_double y \<Longrightarrow> is_double (num_mul x y)"
  by (cases x; cases y) (simp_all del: is_double.simps(1))

lemma num_div_double [simp]: "is_double x \<Longrightarrow> is_double y \<Longrightarrow> is_double (num_div x y)"
  by (cases x; cases y) (simp_all del: is_double.simps(1))

text \<open>Rounding is monotone on the non-negative values (amounts, balances, tokens).\<close>

lemma dround_mono:
  assumes "0 \<le> x" "x \<le> y"
  shows "num_le (dround x) (dround y)"
proof (cases "x = 0")
  case True
  then show ?thesis using dround_nonneg [of y] assms by (auto simp: num_le_def)
next
  case False
  then have x: "0 < x" and y: "0 < y" using assms by auto
  define ex where "ex = max (ilog 2 x - 52) (- 1074)"
  define ey where "ey = max (ilog 2 y - 52) (- 1074)"
  define vx where "vx = of_int (rnd_even (x / 2 powi ex)) * (2::rat) powi ex"
  define vy where "vy = of_int (rnd_even (y / 2 powi ey)) * (2::rat) powi ey"
  have bx: "x < 2 powi (ilog 2 x + 1)" and bx': "2 powi ilog 2 x \<le> x"
    and by1: "y < 2 powi (ilog 2 y + 1)" and by2: "2 powi ilog 2 y \<le> y"
    using ilog_bounds [OF x, of 2] ilog_bounds [OF y, of 2] by simp_all
  have "(2::rat) powi ilog 2 x < 2 powi (ilog 2 y + 1)" using bx' by1 assms(2) by linarith
  then have "ilog 2 x < ilog 2 y + 1" by (rule powi_le_cancel [rotated]) simp
  then have le: "ex \<le> ey" by (simp add: ex_def ey_def)
  have "vx \<le> vy"
  proof (cases "ex = ey")
    case True
    have "rnd_even (x / 2 powi ex) \<le> rnd_even (y / 2 powi ex)"
      using assms by (intro rnd_even_mono divide_right_mono) auto
    then have "(of_int (rnd_even (x / 2 powi ex)) :: rat) \<le> of_int (rnd_even (y / 2 powi ex))"
      by (simp only: of_int_le_iff)
    then show ?thesis unfolding vx_def vy_def True [symmetric] by (intro mult_right_mono) auto
  next
    case False
    with le have lt: "ex + 1 \<le> ey" by simp
    then have ey: "ey = ilog 2 y - 52" by (auto simp: ex_def ey_def max_def split: if_splits)
    have "x < 2 powi (53 + ex)"
      using bx by (rule less_le_trans) (auto intro!: power_int_increasing simp: ex_def)
    then have "\<bar>x / 2 powi ex\<bar> \<le> of_int (2 ^ 53)"
      using x by (simp add: power_int_add field_simps)
    then have "rnd_even (x / 2 powi ex) \<le> 2 ^ 53" using rnd_even_abs_le abs_le_D1 by blast
    then have "(of_int (rnd_even (x / 2 powi ex)) :: rat) \<le> of_int (2 ^ 53)" by (simp only: of_int_le_iff)
    then have "vx \<le> of_int (2 ^ 53) * 2 powi ex" unfolding vx_def by (intro mult_right_mono) auto
    also have "\<dots> = 2 powi (53 + ex)" by (simp add: power_int_add)
    also have "\<dots> \<le> 2 powi (52 + ey)" using lt by (intro power_int_increasing) auto
    also have "\<dots> = of_int (2 ^ 52) * 2 powi ey" by (simp add: power_int_add)
    also have "\<dots> \<le> vy"
    proof -
      have "2 powi (52 + ey) \<le> y" using by2 by (simp add: ey)
      then have "of_int (2 ^ 52) \<le> y / 2 powi ey" by (simp add: power_int_add field_simps)
      then have "2 ^ 52 \<le> rnd_even (y / 2 powi ey)"
        using rnd_even_mono rnd_even_of_int by metis
      then have "(of_int (2 ^ 52) :: rat) \<le> of_int (rnd_even (y / 2 powi ey))" by (simp only: of_int_le_iff)
      then show ?thesis unfolding vy_def by (intro mult_right_mono) auto
    qed
    finally show ?thesis .
  qed
  moreover have "0 \<le> vx" unfolding vx_def using x by (auto intro!: mult_nonneg_nonneg rnd_even_nonneg)
  moreover have "dround x = (if vx \<ge> dmax then PosInf else if vx \<le> - dmax then NegInf else Fin vx)"
    using x by (simp add: dround_def Let_def vx_def ex_def)
  moreover have "dround y = (if vy \<ge> dmax then PosInf else if vy \<le> - dmax then NegInf else Fin vy)"
    using y by (simp add: dround_def Let_def vy_def ey_def)
  ultimately show ?thesis using dmax_pos by (auto simp: num_le_def)
qed

lemma num_add_increases:
  assumes "is_double (Fin a)" "0 \<le> a" "0 \<le> b"
  shows "num_le (Fin a) (num_add (Fin a) (Fin b))"
  using dround_mono [of a "a + b"] dround_id [OF assms(1)] assms by simp

lemma rnd_even_uminus: "rnd_even (- x) = - rnd_even x"
proof (cases "of_int \<lfloor>x\<rfloor> = x")
  case True
  then obtain i where x: "x = of_int i" by metis
  have "rnd_even (of_int (- i)) = - rnd_even (of_int i)" by (simp only: rnd_even_of_int)
  then show ?thesis by (simp add: x)
next
  case False
  then have f: "\<lfloor>- x\<rfloor> = - \<lfloor>x\<rfloor> - 1" by (simp add: floor_minus ceiling_altdef)
  have r: "- x - of_int \<lfloor>- x\<rfloor> = 1 - (x - of_int \<lfloor>x\<rfloor>)" by (simp add: f)
  show ?thesis unfolding rnd_even_def Let_def r by (auto simp: f)
qed

lemma dround_uminus: "dround (- q) = num_neg (dround q)"
proof -
  define v where "v = of_int (rnd_even (q / 2 powi max (ilog 2 \<bar>q\<bar> - 52) (- 1074))) *
    (2 :: rat) powi max (ilog 2 \<bar>q\<bar> - 52) (- 1074)"
  have "dround q = (if q = 0 then Fin 0 else if v \<ge> dmax then PosInf else if v \<le> - dmax then NegInf else Fin v)"
    by (simp add: dround_def Let_def v_def)
  moreover have "dround (- q) =
      (if q = 0 then Fin 0 else if - v \<ge> dmax then PosInf else if - v \<le> - dmax then NegInf else Fin (- v))"
    by (simp add: dround_def Let_def v_def rnd_even_uminus)
  moreover have "\<not> (dmax \<le> v \<and> dmax \<le> - v)" using dmax_pos(1) by linarith
  ultimately show ?thesis by auto
qed

lemma num_sub_Fin [simp]: "num_sub (Fin a) (Fin b) = dround (a - b)"
  by (simp add: num_sub_def)

lemma dround_le_Fin:
  assumes "0 \<le> q" "q \<le> a" "is_double (Fin a)"
  obtains v where "dround q = Fin v" "0 \<le> v" "v \<le> a"
  using dround_nonneg [OF assms(1)] dround_mono [OF assms(1,2)] dround_id [OF assms(3)] that
  by (auto simp: num_le_def)

lemma dround_between:
  assumes "0 \<le> a" "a \<le> q" "q \<le> b" "is_double (Fin a)" "is_double (Fin b)"
  obtains v where "dround q = Fin v" "a \<le> v" "v \<le> b"
proof -
  have "0 \<le> q" using assms(1,2) by simp
  from dround_le_Fin [OF this assms(3,5)] obtain v where v: "dround q = Fin v" "v \<le> b" .
  have "num_le (dround a) (dround q)" using dround_mono assms(1,2) by blast
  then show thesis using that v dround_id [OF assms(4)] by simp
qed

lemma is_double_dyadic:
  assumes "\<bar>m\<bar> < 2 ^ 53"
  shows "is_double (Fin (of_int m / 2 ^ 10))"
proof -
  have "\<bar>of_int m / 2 ^ 10 :: rat\<bar> \<le> \<bar>of_int m\<bar>" by (simp add: abs_divide divide_le_eq)
  then have "\<bar>of_int m / 2 ^ 10 :: rat\<bar> < dmax" using int_less_dmax [OF assms] by linarith
  moreover have "(2 :: rat) powi (- 10) = inverse (2 powi 10)" by (rule power_int_minus)
  then have "(2 :: rat) powi (- 10) = inverse (2 ^ 10)" by (simp only: power_int_numeral)
  then have "(of_int m / 2 ^ 10 :: rat) = of_int m * 2 powi (- 10)" by (simp only: divide_inverse)
  ultimately show ?thesis using assms unfolding is_double.simps by (intro exI [of _ m] exI [of _ "- 10"] conjI) simp_all
qed

lemma num_sub_bounds:
  assumes "is_double (Fin a)" "0 \<le> b" "b \<le> a"
  obtains v where "num_sub (Fin a) (Fin b) = Fin v" "0 \<le> v" "v \<le> a"
  using dround_le_Fin [of "a - b" a thesis] assms by simp

lemma num_sub_nonpos: "a \<le> b \<Longrightarrow> num_le (num_sub (Fin a) (Fin b)) (Fin 0)"
  using dround_nonneg [of "b - a"] dround_uminus [of "b - a"] by (auto simp: num_le_def)

lemma num_max_0_sub:
  assumes "is_double (Fin a)" "0 \<le> a" "0 \<le> b"
  obtains v where "num_max (Fin 0) (num_sub (Fin a) (Fin b)) = Fin v" "0 \<le> v" "v \<le> a"
proof (cases "b \<le> a")
  case True
  obtain v where v: "num_sub (Fin a) (Fin b) = Fin v" "0 \<le> v" "v \<le> a"
    using num_sub_bounds [OF assms(1,3) True] .
  then have "num_max (Fin 0) (num_sub (Fin a) (Fin b)) = Fin v" by (simp add: num_max_def)
  then show thesis using v that by blast
next
  case False
  then have "num_le (num_sub (Fin a) (Fin b)) (Fin 0)" by (intro num_sub_nonpos) simp
  then have "num_max (Fin 0) (num_sub (Fin a) (Fin b)) = Fin 0"
    by (simp add: num_max_def num_le_def del: num_sub_Fin)
  then show thesis using that assms(2) by blast
qed

lemma dround_normal:
  assumes "2 powi n \<le> q" "q < 2 powi (n + 1)" "- 1022 \<le> n"
    and "rnd_even (q / 2 powi (n - 52)) = m" "of_int m * 2 powi (n - 52) < dmax"
  shows "dround q = Fin (of_int m * 2 powi (n - 52))"
proof -
  have q: "0 < q" using assms(1) by (meson less_le_trans zero_less_power_int zero_less_numeral)
  have "ilog 2 q = n" by (rule ilog_unique) (use assms in simp_all)
  then have e: "max (ilog 2 \<bar>q\<bar> - 52) (- 1074) = n - 52" using q assms(3) by simp
  have "0 \<le> of_int m * (2::rat) powi (n - 52)"
    using q unfolding assms(4) [symmetric] by (intro mult_nonneg_nonneg) (auto intro!: rnd_even_nonneg)
  then have "\<not> of_int m * (2::rat) powi (n - 52) \<le> - dmax" using dmax_pos(1) by linarith
  then show ?thesis using q assms(4,5) unfolding dround_def Let_def e by simp
qed

section \<open>Fixed-point printing: Number.prototype.toFixed\<close>

text \<open>For magnitudes below \<open>10 ^ 21\<close>: the integer nearest to \<open>x * 10 ^ d\<close> (the larger one on a tie), with \<open>d\<close> fraction digits.\<close>

definition pos_toFixed :: "nat \<Rightarrow> rat \<Rightarrow> string" where
  "pos_toFixed d x =
     (let ds = js_padStart (d + 1) (CHR ''0'') (digits_of_nat (nat \<lfloor>x * 10 ^ d + 1 / 2\<rfloor>));
          k = length ds - d
      in if d = 0 then ds else take k ds @ ''.'' @ drop k ds)"

section \<open>Reading numbers: parseFloat\<close>

definition parse_exponent :: "string \<Rightarrow> int" where
  "parse_exponent r =
     (case r of
        c # cs \<Rightarrow>
          if c = CHR ''e'' \<or> c = CHR ''E'' then
            (case cs of
               d # ds \<Rightarrow>
                 if d = CHR ''-'' then - int (nat_of_digits (takeWhile is_digit ds))
                 else if d = CHR ''+'' then int (nat_of_digits (takeWhile is_digit ds))
                 else int (nat_of_digits (takeWhile is_digit cs))
             | [] \<Rightarrow> 0)
          else 0
      | [] \<Rightarrow> 0)"

definition parse_fraction :: "string \<Rightarrow> string \<times> string" where
  "parse_fraction r =
     (case r of
        c # cs \<Rightarrow> if c = CHR ''.'' then (takeWhile is_digit cs, dropWhile is_digit cs) else ([], r)
      | [] \<Rightarrow> ([], []))"

definition starts_with :: "string \<Rightarrow> string \<Rightarrow> bool" where
  "starts_with p s \<longleftrightarrow> take (length p) s = p"

definition parse_magnitude :: "string \<Rightarrow> number" where
  "parse_magnitude s =
     (if starts_with ''Infinity'' s then PosInf
      else let ip = takeWhile is_digit s; (fp, rest) = parse_fraction (dropWhile is_digit s)
           in if ip = [] \<and> fp = [] then NaN
              else dround (of_nat (nat_of_digits (ip @ fp)) *
                           10 powi (parse_exponent rest - int (length fp))))"

definition parseFloat :: "string \<Rightarrow> number" where
  "parseFloat s =
     (case js_trim_start s of
        c # cs \<Rightarrow> if c = CHR ''-'' then num_neg (parse_magnitude cs)
                    else if c = CHR ''+'' then parse_magnitude cs
                    else parse_magnitude (c # cs)
      | [] \<Rightarrow> NaN)"

text \<open>\<open>Number.parseInt(s, 10)\<close>\<close>

definition parseInt10 :: "string \<Rightarrow> number" where
  "parseInt10 s =
     (let t = js_trim_start s;
          (neg, r) = (case t of c # cs \<Rightarrow> if c = CHR ''-'' then (True, cs) else if c = CHR ''+'' then (False, cs) else (False, t)
                      | [] \<Rightarrow> (False, []));
          ds = takeWhile is_digit r
      in if ds = [] then NaN
         else let v = dround (of_nat (nat_of_digits ds)) in if neg then num_neg v else v)"

section \<open>Printing numbers: Number::toString\<close>

text \<open>
  For \<open>0 < x\<close> with \<open>10 ^ (n - 1) \<le> x < 10 ^ n\<close>, \<open>dec_candidate x n k\<close> is the \<open>k\<close>-digit decimal closest
  to \<open>x\<close> that rounds back to \<open>x\<close>, if there is one. \<open>dec_shortest\<close> tries \<open>k = 1, 2, \<dots>\<close>; a binary64
  value has an exact decimal expansion with at most \<open>n + 1074\<close> digits, so the search cannot fail.
\<close>

definition dec_good :: "rat \<Rightarrow> int \<Rightarrow> nat \<Rightarrow> int \<Rightarrow> bool" where
  "dec_good x n k c \<longleftrightarrow> dround (of_int c * 10 powi (n - int k)) = Fin x"

definition dec_norm :: "int \<Rightarrow> nat \<Rightarrow> int \<Rightarrow> nat \<times> int" where
  "dec_norm n k c = (if c = 10 ^ k then (10 ^ (k - 1), n + 1) else (nat c, n))"

definition dec_candidate :: "rat \<Rightarrow> int \<Rightarrow> nat \<Rightarrow> (nat \<times> int) option" where
  "dec_candidate x n k =
     (let y = x * 10 powi (int k - n); f = \<lfloor>y\<rfloor>;
          near = (if y - of_int f \<le> 1 / 2 then f else f + 1);
          far = (if y - of_int f \<le> 1 / 2 then f + 1 else f)
      in if dec_good x n k near then Some (dec_norm n k near)
         else if dec_good x n k far then Some (dec_norm n k far) else None)"

lemma dec_candidate_Some:
  assumes "dec_candidate x n k = Some p"
  obtains c where "c = \<lfloor>x * 10 powi (int k - n)\<rfloor> \<or> c = \<lfloor>x * 10 powi (int k - n)\<rfloor> + 1"
    and "dec_good x n k c" and "p = dec_norm n k c"
proof -
  define y where "y = x * 10 powi (int k - n)"
  from assms show thesis
    unfolding dec_candidate_def Let_def y_def [symmetric]
    by (cases "y - of_int \<lfloor>y\<rfloor> \<le> 1 / 2") (auto simp del: of_int_add split: if_splits intro: that [folded y_def])
qed

fun dec_shortest :: "rat \<Rightarrow> int \<Rightarrow> nat \<Rightarrow> nat \<Rightarrow> nat \<times> nat \<times> int" where
  "dec_shortest x n k fuel =
     (case dec_candidate x n k of
        Some (s, n') \<Rightarrow> (s, k, n')
      | None \<Rightarrow> (case fuel of 0 \<Rightarrow> (nat \<lfloor>x * 10 powi (int k - n)\<rfloor>, k, n)
                  | Suc fuel' \<Rightarrow> dec_shortest x n (Suc k) fuel'))"

declare dec_shortest.simps [simp del]

definition dec_format :: "nat \<Rightarrow> nat \<Rightarrow> int \<Rightarrow> string" where
  "dec_format s k n =
     (let ds = digits_of_nat s; e = n - 1;
          es = (if e < 0 then ''-'' else ''+'') @ digits_of_nat (nat \<bar>e\<bar>)
      in if int k \<le> n \<and> n \<le> 21 then ds @ replicate (nat n - k) (CHR ''0'')
         else if 0 < n \<and> n \<le> 21 then take (nat n) ds @ ''.'' @ drop (nat n) ds
         else if - 6 < n \<and> n \<le> 0 then ''0.'' @ replicate (nat (- n)) (CHR ''0'') @ ds
         else if k = 1 then ds @ ''e'' @ es
         else take 1 ds @ ''.'' @ drop 1 ds @ ''e'' @ es)"

definition pos_toString :: "rat \<Rightarrow> string" where
  "pos_toString x =
     (let n = ilog 10 x + 1; (s, k, n') = dec_shortest x n 1 (nat (n + 1074)) in dec_format s k n')"

fun num_toString :: "number \<Rightarrow> string" where
  "num_toString NaN = ''NaN''"
| "num_toString PosInf = ''Infinity''"
| "num_toString NegInf = ''-Infinity''"
| "num_toString (Fin q) =
     (if q = 0 then ''0'' else if q < 0 then ''-'' @ pos_toString (- q) else pos_toString q)"

fun num_toFixed :: "nat \<Rightarrow> number \<Rightarrow> string" where
  "num_toFixed d (Fin q) =
     (if \<bar>q\<bar> \<ge> 10 ^ 21 then num_toString (Fin q)
      else if q < 0 then ''-'' @ pos_toFixed d (- q) else pos_toFixed d q)"
| "num_toFixed d x = num_toString x"

section \<open>Reading back what was printed\<close>

lemma not_digit_simps [simp]:
  "\<not> is_digit (CHR ''.'')" "\<not> is_digit (CHR ''e'')" "\<not> is_digit (CHR ''I'')"
  "is_digit (CHR ''0'')" "\<not> is_digit (CHR ''+'')" "\<not> is_digit (CHR ''N'')"
  by (simp_all add: is_digit_def)

lemma starts_with_Infinity_digit: "is_digit c \<Longrightarrow> \<not> starts_with ''Infinity'' (c # cs)"
  by (auto simp: starts_with_def)

lemma parse_magnitude_digits:
  assumes "ip \<noteq> []" "\<forall>c \<in> set ip. is_digit c" "rest = [] \<or> \<not> is_digit (hd rest)"
  shows "parse_magnitude (ip @ rest) =
     (let (fp, r) = parse_fraction rest
      in dround (of_nat (nat_of_digits (ip @ fp)) * 10 powi (parse_exponent r - int (length fp))))"
proof -
  from assms obtain c cs where c: "ip = c # cs" "is_digit c" by (cases ip) auto
  have tw: "takeWhile is_digit (ip @ rest) = ip" "dropWhile is_digit (ip @ rest) = rest"
    using takeWhile_digits [of ip rest] assms by auto
  have ni: "\<not> starts_with ''Infinity'' (ip @ rest)"
    using c starts_with_Infinity_digit by simp
  show ?thesis unfolding parse_magnitude_def tw using ni assms(1) by simp
qed

lemma parse_fraction_point:
  assumes "\<forall>c \<in> set fp. is_digit c" "rest = [] \<or> \<not> is_digit (hd rest)"
  shows "parse_fraction (CHR ''.'' # fp @ rest) = (fp, rest)"
  using takeWhile_digits [of fp rest] assms by (simp add: parse_fraction_def)

lemma parse_fraction_no_point: "rest = [] \<or> hd rest \<noteq> CHR ''.'' \<Longrightarrow> parse_fraction rest = ([], rest)"
  by (cases rest) (auto simp: parse_fraction_def)

lemma parse_exponent_printed:
  "parse_exponent (CHR ''e'' # (if e < 0 then ''-'' else ''+'') @ digits_of_nat (nat \<bar>e\<bar>)) = e"
proof -
  have tw: "takeWhile is_digit (digits_of_nat n) = digits_of_nat n" for n
    using takeWhile_digits [of "digits_of_nat n" "[]"] digits_of_nat_digits by auto
  show ?thesis by (simp add: parse_exponent_def tw)
qed

lemma parse_exponent_Nil [simp]: "parse_exponent [] = 0"
  by (simp add: parse_exponent_def)

lemma parse_dec_format:
  assumes "1 \<le> k" "10 ^ (k - 1) \<le> s" "s < 10 ^ k"
  shows "parse_magnitude (dec_format s k n) = dround (of_nat s * 10 powi (n - int k))"
proof -
  let ?ds = "digits_of_nat s"
  have len: "length ?ds = k" using length_digits_of_nat [of "k - 1" s] assms by simp
  have dig: "\<forall>c \<in> set ?ds. is_digit c" using digits_of_nat_digits by blast
  have digt: "\<forall>c \<in> set (take i ?ds). is_digit c" and digd: "\<forall>c \<in> set (drop i ?ds). is_digit c" for i
    using dig by (meson in_set_takeD, meson in_set_dropD)
  have rep: "\<forall>c \<in> set (replicate i (CHR ''0'')). is_digit c" for i by auto
  consider (whole) "int k \<le> n" "n \<le> 21" | (mixed) "0 < n" "n \<le> 21" "n < int k"
    | (small) "- 6 < n" "n \<le> 0" | (exp) "n \<le> - 6 \<or> 21 < n"
    by linarith
  then show ?thesis
  proof cases
    case whole
    have "parse_magnitude ((?ds @ replicate (nat n - k) (CHR ''0'')) @ []) =
        dround (of_nat (nat_of_digits (?ds @ replicate (nat n - k) (CHR ''0''))) * 10 powi 0)"
      by (subst parse_magnitude_digits) (use dig rep in \<open>auto simp: parse_fraction_no_point\<close>)
    also have "(of_nat (nat_of_digits (?ds @ replicate (nat n - k) (CHR ''0''))) :: rat) * 10 powi 0 =
        of_nat s * 10 powi (n - int k)"
      using whole by (simp add: nat_of_digits_append power_int_def nat_diff_distrib')
    finally show ?thesis using whole by (simp add: dec_format_def Let_def)
  next
    case mixed
    have "parse_magnitude (take (nat n) ?ds @ CHR ''.'' # drop (nat n) ?ds @ []) =
        dround (of_nat (nat_of_digits (take (nat n) ?ds @ drop (nat n) ?ds)) *
                10 powi (0 - int (length (drop (nat n) ?ds))))"
      by (subst parse_magnitude_digits)
         (use digt digd mixed in \<open>auto simp: parse_fraction_point [of _ "[]", simplified]\<close>)
    then show ?thesis using mixed len by (simp add: dec_format_def Let_def of_nat_diff)
  next
    case small
    let ?fp = "replicate (nat (- n)) (CHR ''0'') @ ?ds"
    have "parse_fraction (CHR ''.'' # ?fp @ []) = (?fp, [])"
      using dig rep by (intro parse_fraction_point) auto
    then have "parse_magnitude ([CHR ''0''] @ CHR ''.'' # ?fp @ []) =
        dround (of_nat (nat_of_digits ([CHR ''0''] @ ?fp)) * 10 powi (0 - int (length ?fp)))"
      by (subst parse_magnitude_digits) auto
    moreover have "nat_of_digits ([CHR ''0''] @ ?fp) = s"
      by (simp add: nat_of_digits_Cons nat_of_digits_append digit_val_def)
    moreover have "0 - int (length ?fp) = n - int k" using small len by simp
    ultimately show ?thesis using small assms(1) by (simp add: dec_format_def Let_def)
  next
    case exp
    let ?es = "(if n - 1 < 0 then ''-'' else ''+'') @ digits_of_nat (nat \<bar>n - 1\<bar>)"
    note pe = parse_exponent_printed [of "n - 1"]
    show ?thesis
    proof (cases "k = 1")
      case True
      have "parse_magnitude (?ds @ CHR ''e'' # ?es) =
          dround (of_nat (nat_of_digits (?ds @ [])) * 10 powi (n - 1 - int (length ([] :: string))))"
        by (subst parse_magnitude_digits)
           (use dig pe in \<open>auto simp: parse_fraction_no_point simp del: append.simps\<close>)
      then show ?thesis using exp True by (auto simp: dec_format_def Let_def)
    next
      case False
      have "parse_magnitude (take 1 ?ds @ CHR ''.'' # drop 1 ?ds @ CHR ''e'' # ?es) =
          dround (of_nat (nat_of_digits (take 1 ?ds @ drop 1 ?ds)) *
                  10 powi (n - 1 - int (length (drop 1 ?ds))))"
        by (subst parse_magnitude_digits)
           (use digt digd pe in \<open>auto simp: parse_fraction_point\<close>)
      then show ?thesis using exp False assms(1) len
        by (auto simp: dec_format_def Let_def of_nat_diff append_take_drop_id)
    qed
  qed
qed

lemma dec_candidate_good:
  assumes "0 < x" "10 powi (n - 1) \<le> x" "x < 10 powi n" "1 \<le> k" "dec_candidate x n k = Some (s, n')"
  shows "10 ^ (k - 1) \<le> s" and "s < 10 ^ k" and "dround (of_nat s * 10 powi (n' - int k)) = Fin x"
proof -
  define y where "y = x * 10 powi (int k - n)"
  obtain c where c: "c = \<lfloor>y\<rfloor> \<or> c = \<lfloor>y\<rfloor> + 1" and good': "dec_good x n k c" and sn': "(s, n') = dec_norm n k c"
    unfolding y_def by (rule dec_candidate_Some [OF assms(5)])
  note good = good' [unfolded dec_good_def] and sn = sn' [unfolded dec_norm_def]
  have "(10 :: rat) powi (n - 1) * 10 powi (int k - n) = 10 powi ((n - 1) + (int k - n))"
    by (rule power_int_add [symmetric]) simp
  moreover have "(n - 1) + (int k - n) = int (k - 1)" using assms(4) by linarith
  ultimately have "(10 :: rat) powi (n - 1) * 10 powi (int k - n) = 10 ^ (k - 1)"
    by (simp only: power_int_of_nat)
  moreover have "10 powi (n - 1) * 10 powi (int k - n) \<le> y" unfolding y_def using assms by (intro mult_right_mono) auto
  ultimately have lo: "10 ^ (k - 1) \<le> y" by simp
  have "y < 10 powi n * 10 powi (int k - n)" unfolding y_def using assms by (intro mult_strict_right_mono) auto
  then have hi: "y < 10 ^ k" by (simp flip: power_int_add)
  have "of_int (10 ^ (k - 1)) \<le> y" using lo by simp
  then have flo: "10 ^ (k - 1) \<le> \<lfloor>y\<rfloor>" by (simp only: le_floor_iff)
  have "y < of_int (10 ^ k)" using hi by simp
  then have fhi: "\<lfloor>y\<rfloor> < 10 ^ k" by (simp only: floor_less_iff)
  from c flo fhi have cb: "10 ^ (k - 1) \<le> c" "c \<le> 10 ^ k" by auto
  have "10 ^ (k - 1) \<le> s \<and> s < 10 ^ k \<and> dround (of_nat s * 10 powi (n' - int k)) = Fin x"
  proof (cases "c = 10 ^ k")
    case True
    then have s: "s = 10 ^ (k - 1)" and n': "n' = n + 1" using sn by auto
    have "(10::rat) ^ (k - 1) * 10 = 10 ^ k" using assms(4) by (cases k) auto
    moreover have "(10::rat) powi (n + 1 - int k) = 10 powi (n - int k) * 10"
      by (simp add: add_diff_eq [symmetric] flip: power_int_add_1) (simp add: algebra_simps)
    ultimately have "of_nat s * 10 powi (n' - int k) = (of_int c * 10 powi (n - int k) :: rat)"
      by (simp add: s n' True)
    with good show ?thesis using assms(4) by (simp add: s)
  next
    case False
    then have s: "s = nat c" and n': "n' = n" using sn by auto
    have c0: "0 \<le> c" using cb(1) by (meson order_trans zero_le_numeral zero_le_power)
    then have "(of_nat s :: rat) = of_int c" by (simp add: s)
    moreover have "10 ^ (k - 1) \<le> s" using cb(1) c0 by (simp add: s le_nat_iff)
    moreover have "s < 10 ^ k" using cb(2) False c0 by (simp add: s nat_less_iff)
    ultimately show ?thesis using good by (simp add: n')
  qed
  then show "10 ^ (k - 1) \<le> s" "s < 10 ^ k" "dround (of_nat s * 10 powi (n' - int k)) = Fin x" by auto
qed

lemma dyadic_decimal:
  assumes "0 \<le> e + j" "0 \<le> j"
  shows "\<exists>z. (of_int m * 2 powi e) * (10::rat) powi j = of_int z"
proof -
  have "(10::rat) powi j = (2 * 5) powi j" by simp
  also have "\<dots> = 2 powi j * 5 powi j" by (rule power_int_mult_distrib)
  finally have "(of_int m * 2 powi e) * (10::rat) powi j = of_int m * (2 powi e * 2 powi j) * 5 powi j"
    by (simp only: ac_simps)
  also have "(2::rat) powi e * 2 powi j = 2 powi (e + j)" by (simp add: power_int_add)
  also have "of_int m * (2::rat) powi (e + j) * 5 powi j = of_int (m * 2 ^ nat (e + j) * 5 ^ nat j)"
    using assms by (simp add: power_int_nonneg_exp)
  finally show ?thesis by blast
qed

text \<open>Far enough out, the decimal expansion of a binary64 value is exact, so a candidate exists.\<close>

lemma dec_candidate_exact:
  assumes "is_double (Fin x)" "0 < x" "1074 \<le> int k - n"
  shows "dec_candidate x n k \<noteq> None"
proof -
  obtain m e where x: "x = of_int m * 2 powi e" and e: "- 1074 \<le> e" using assms(1) by auto
  define j where "j = int k - n"
  have "\<exists>z. x * 10 powi j = of_int z"
    unfolding x by (rule dyadic_decimal) (use e assms(3) in \<open>auto simp: j_def\<close>)
  then obtain z where z: "x * 10 powi j = of_int z" by blast
  have "of_int z * 10 powi (n - int k) = x * (10 powi j * 10 powi (n - int k))" by (simp flip: z)
  also have "\<dots> = x" by (simp add: j_def flip: power_int_add)
  finally have "dround (of_int z * 10 powi (n - int k)) = Fin x" using dround_id [OF assms(1)] by simp
  then have "dec_good x n k z" by (simp add: dec_good_def)
  then show ?thesis using z by (simp add: dec_candidate_def Let_def j_def)
qed

lemma dec_shortest_good:
  assumes "is_double (Fin x)" "0 < x" "10 powi (n - 1) \<le> x" "x < 10 powi n"
  shows "1 \<le> k \<Longrightarrow> 1074 \<le> int k + int fuel - n \<Longrightarrow> dec_shortest x n k fuel = (s, k', n') \<Longrightarrow>
     1 \<le> k' \<and> 10 ^ (k' - 1) \<le> s \<and> s < 10 ^ k' \<and> dround (of_nat s * 10 powi (n' - int k')) = Fin x"
proof (induction fuel arbitrary: k)
  case 0
  then have "dec_candidate x n k \<noteq> None" using dec_candidate_exact assms by simp
  then obtain s1 n1 where "dec_candidate x n k = Some (s1, n1)" by auto
  then show ?case using 0 dec_candidate_good [OF assms(2-4) 0(1)]
    by (auto simp: dec_shortest.simps [of x n k])
next
  case (Suc fuel)
  show ?case
  proof (cases "dec_candidate x n k")
    case None
    then have "dec_shortest x n (Suc k) fuel = (s, k', n')"
      using Suc.prems(3) by (simp add: dec_shortest.simps [of x n k])
    then show ?thesis using Suc.IH [of "Suc k"] Suc.prems by simp
  next
    case (Some p)
    then show ?thesis using Suc.prems dec_candidate_good [OF assms(2-4) Suc.prems(1)]
      by (cases p) (auto simp: dec_shortest.simps [of x n k])
  qed
qed

lemma parse_pos_toString:
  assumes "is_double (Fin x)" "0 < x"
  shows "parse_magnitude (pos_toString x) = Fin x"
proof -
  define n where "n = ilog 10 x + 1"
  obtain s k n' where sh: "dec_shortest x n 1 (nat (n + 1074)) = (s, k, n')" by (cases "dec_shortest x n 1 (nat (n + 1074))")
  have b: "10 powi (n - 1) \<le> x" "x < 10 powi n"
    using ilog_bounds [OF assms(2), of 10] by (simp_all add: n_def)
  have "1 \<le> k \<and> 10 ^ (k - 1) \<le> s \<and> s < 10 ^ k \<and> dround (of_nat s * 10 powi (n' - int k)) = Fin x"
    by (rule dec_shortest_good [OF assms b _ _ sh]) auto
  then show ?thesis using parse_dec_format [of k s n'] sh
    by (simp add: pos_toString_def n_def [symmetric])
qed

lemma pos_toString_hd: "\<exists>c cs. pos_toString x = c # cs \<and> is_digit c"
proof -
  obtain s k n where "dec_shortest x (ilog 10 x + 1) 1 (nat (ilog 10 x + 1 + 1074)) = (s, k, n)"
    using prod_cases3 by blast
  then have "pos_toString x = dec_format s k n" by (simp add: pos_toString_def)
  moreover have "dec_format s k n \<noteq> [] \<and> is_digit (hd (dec_format s k n))"
  proof -
    have h: "is_digit (hd (digits_of_nat s))" "digits_of_nat s \<noteq> []" by (simp_all add: hd_digits_of_nat)
    then obtain c cs where ds: "digits_of_nat s = c # cs" and c: "is_digit c" by (cases "digits_of_nat s") auto
    then show ?thesis by (auto simp: dec_format_def Let_def ds hd_append take_Cons' dest: arg_cong [of _ _ length])
  qed
  ultimately show ?thesis by (metis list.collapse)
qed

lemma is_digit_not_ws: "is_digit c \<Longrightarrow> \<not> is_ws c \<and> c \<noteq> CHR ''-'' \<and> c \<noteq> CHR ''+''"
  by (auto simp: is_digit_def is_ws_def)

lemma parseFloat_pos_toString:
  assumes "is_double (Fin x)" "0 < x"
  shows "parseFloat (pos_toString x) = Fin x" and "parseFloat (CHR ''-'' # pos_toString x) = Fin (- x)"
proof -
  obtain c cs where c: "pos_toString x = c # cs" "is_digit c" using pos_toString_hd by blast
  note nw = is_digit_not_ws [OF c(2)]
  show "parseFloat (pos_toString x) = Fin x"
    using parse_pos_toString [OF assms] nw by (simp add: parseFloat_def js_trim_start_def c)
  show "parseFloat (CHR ''-'' # pos_toString x) = Fin (- x)"
    using parse_pos_toString [OF assms] by (simp add: parseFloat_def js_trim_start_def is_ws_def)
qed

theorem parseFloat_toString:
  assumes "is_double x"
  shows "parseFloat (num_toString x) = x"
proof (cases x)
  case (Fin q)
  show ?thesis
  proof (cases "q = 0")
    case True
    have "parse_magnitude (''0'' @ []) = Fin 0"
      by (subst parse_magnitude_digits) (auto simp: parse_fraction_no_point nat_of_digits_Cons digit_val_def)
    then show ?thesis by (simp add: Fin True parseFloat_def js_trim_start_def is_ws_def)
  next
    case False
    have "is_double (Fin (- q))" using assms is_double_neg [of x] by (simp add: Fin del: is_double.simps is_double_neg)
    then show ?thesis
      using False assms parseFloat_pos_toString [of q] parseFloat_pos_toString(2) [of "- q"] by (auto simp: Fin simp del: is_double.simps)
  qed
qed (simp_all add: parseFloat_def js_trim_start_def is_ws_def parse_magnitude_def starts_with_def parse_fraction_def)

lemma num_toString_neq_Nil [simp]: "num_toString x \<noteq> []"
  using pos_toString_hd by (cases x) (auto, metis list.distinct(1))

lemma parseFloat_double [simp]: "is_double (parseFloat s)"
proof -
  have "is_double (parse_magnitude t)" for t
    by (simp add: parse_magnitude_def Let_def split: prod.splits)
  then show ?thesis by (simp add: parseFloat_def split: list.splits)
qed

lemma parseFloat_digits:
  assumes "ds \<noteq> []" "\<forall>c \<in> set ds. is_digit c" "nat_of_digits ds < 2 ^ 53"
  shows "parseFloat ds = Fin (of_nat (nat_of_digits ds))"
proof -
  obtain c cs where c: "ds = c # cs" "is_digit c" using assms by (cases ds) auto
  have "parse_magnitude (ds @ []) = dround (of_nat (nat_of_digits ds))"
    by (subst parse_magnitude_digits) (use assms in \<open>auto simp: parse_fraction_no_point\<close>)
  also have "\<dots> = dround (of_int (int (nat_of_digits ds)))" by simp
  also have "\<dots> = Fin (of_int (int (nat_of_digits ds)))"
    by (rule dround_int) (use assms(3) in \<open>simp only: abs_of_nat of_nat_less_numeral_power_cancel_iff\<close>)
  finally show ?thesis using is_digit_not_ws [OF c(2)] by (simp add: c(1) parseFloat_def js_trim_start_def)
qed

declare is_double.simps(1) [simp del] num_toString.simps(4) [simp del]

lemmas parse_literal = parseFloat_digits is_digit_def nat_of_digits_Cons digit_val_def

end
