(* ===== verification/CreditLineRepo.thy ===== *)
theory CreditLineRepo
  imports JsNumber
begin

text \<open>
  Credit lines, ledger transactions and their in-memory repositories
  (\<open>src/models/CreditLine.ts\<close>, \<open>src/models/Transaction.ts\<close>,
  \<open>src/repositories/memory/InMemoryCreditLineRepository.ts\<close>,
  \<open>src/repositories/memory/InMemoryTransactionRepository.ts\<close>).

  An absent optional field is \<open>None\<close>. The record \<open>CreditLineRepository\<close> is the TypeScript interface
  of the same name; the locale \<open>credit_line_repository\<close> states what its clients rely on, and
  \<open>mem\<close> is its interpretation on the in-memory repository. \<open>lc\<close> stands for \<open>localeCompare\<close>.
\<close>

section \<open>Data\<close>

datatype CreditLineStatus = ACTIVE | SUSPENDED | CLOSED | PENDING_LINE

record CreditLine =
  cl_id :: string
  cl_walletAddress :: string
  cl_creditLimit :: string
  cl_availableCredit :: string
  cl_utilized :: string
  cl_interestRateBps :: number
  cl_status :: CreditLineStatus
  cl_version :: "int option"
  cl_createdAt :: time
  cl_updatedAt :: time

record CreateCreditLineRequest =
  ccr_walletAddress :: string
  ccr_creditLimit :: string
  ccr_interestRateBps :: number

record UpdateCreditLineRequest =
  ucr_creditLimit :: "string option"
  ucr_interestRateBps :: "number option"
  ucr_status :: "CreditLineStatus option"
  ucr_utilized :: "string option"
  ucr_expectedVersion :: "int option"

definition emptyUpdate :: UpdateCreditLineRequest where
  "emptyUpdate = \<lparr>ucr_creditLimit = None, ucr_interestRateBps = None, ucr_status = None,
     ucr_utilized = None, ucr_expectedVersion = None\<rparr>"

datatype TransactionType = BORROW | REPAY | INTEREST_ACCRUAL | FEE | STATUS_CHANGE

datatype TransactionStatus = PENDING | CONFIRMED | FAILED | CANCELLED

record Transaction =
  tx_id :: string
  tx_creditLineId :: string
  tx_walletAddress :: string
  tx_amount :: string
  tx_type :: TransactionType
  tx_status :: TransactionStatus
  tx_blockchainTxHash :: "string option"
  tx_createdAt :: time
  tx_processedAt :: "time option"

record CreateTransactionRequest =
  ctr_creditLineId :: string
  ctr_amount :: string
  ctr_type :: TransactionType
  ctr_blockchainTxHash :: "string option"

type_synonym creditLineRepo = "(string, CreditLine) jsmap"
type_synonym transactionRepo = "(string, Transaction) jsmap"

section \<open>The in-memory credit-line repository\<close>

definition InMemoryCreditLineRepository_sortByNewest ::
  "(string \<Rightarrow> string \<Rightarrow> int) \<Rightarrow> CreditLine list \<Rightarrow> CreditLine list" where
  "InMemoryCreditLineRepository_sortByNewest lc creditLines =
     js_sort (\<lambda>a b. let tsDiff = cl_createdAt b - cl_createdAt a
                     in if tsDiff \<noteq> 0 then tsDiff else lc (cl_id a) (cl_id b)) creditLines"

definition InMemoryCreditLineRepository_create ::
  "CreateCreditLineRequest \<Rightarrow> string \<Rightarrow> time \<Rightarrow> creditLineRepo \<Rightarrow> CreditLine \<times> creditLineRepo" where
  "InMemoryCreditLineRepository_create request uuid now m =
     (let creditLine = \<lparr>cl_id = uuid,
            cl_walletAddress = ccr_walletAddress request,
            cl_creditLimit = ccr_creditLimit request,
            cl_availableCredit = ccr_creditLimit request,
            cl_utilized = ''0'',
            cl_interestRateBps = ccr_interestRateBps request,
            cl_status = ACTIVE,
            cl_version = Some 1,
            cl_createdAt = now,
            cl_updatedAt = now\<rparr>
      in (creditLine, jsmap_set uuid creditLine m))"

definition InMemoryCreditLineRepository_findById :: "creditLineRepo \<Rightarrow> string \<Rightarrow> CreditLine option" where
  "InMemoryCreditLineRepository_findById m rowId = jsmap_get m rowId"

definition InMemoryCreditLineRepository_findByWalletAddress ::
  "(string \<Rightarrow> string \<Rightarrow> int) \<Rightarrow> creditLineRepo \<Rightarrow> string \<Rightarrow> CreditLine list" where
  "InMemoryCreditLineRepository_findByWalletAddress lc m walletAddress =
     InMemoryCreditLineRepository_sortByNewest lc
       (filter (\<lambda>cl. cl_walletAddress cl = walletAddress) (jsmap_values m))"

definition InMemoryCreditLineRepository_findAll ::
  "(string \<Rightarrow> string \<Rightarrow> int) \<Rightarrow> creditLineRepo \<Rightarrow> int option \<Rightarrow> int option \<Rightarrow> CreditLine list" where
  "InMemoryCreditLineRepository_findAll lc m offset limit =
     (let off = (case offset of Some n \<Rightarrow> n | None \<Rightarrow> 0);
          lim = (case limit of Some n \<Rightarrow> n | None \<Rightarrow> 100);
          all = InMemoryCreditLineRepository_sortByNewest lc (jsmap_values m)
      in js_slice all off (off + lim))"

text \<open>The row \<open>update\<close> writes: the spread of the patch, the version step, and the two adjustments of
  \<open>availableCredit\<close> in the order of the source.\<close>

definition CreditLine_patched :: "CreditLine \<Rightarrow> UpdateCreditLineRequest \<Rightarrow> time \<Rightarrow> CreditLine" where
  "CreditLine_patched existing request now =
     (let currentVersion = (case cl_version existing of Some v \<Rightarrow> v | None \<Rightarrow> 1);
          updated = existing\<lparr>
            cl_creditLimit := (case ucr_creditLimit request of Some v \<Rightarrow> v | None \<Rightarrow> cl_creditLimit existing),
            cl_interestRateBps := (case ucr_interestRateBps request of Some v \<Rightarrow> v | None \<Rightarrow> cl_interestRateBps existing),
            cl_status := (case ucr_status request of Some v \<Rightarrow> v | None \<Rightarrow> cl_status existing),
            cl_utilized := (case ucr_utilized request of Some v \<Rightarrow> v | None \<Rightarrow> cl_utilized existing),
            cl_version := Some (currentVersion + 1),
            cl_updatedAt := now\<rparr>;
          updated = (case ucr_utilized request of
              Some u \<Rightarrow> updated\<lparr>cl_availableCredit :=
                num_toString (num_sub (parseFloat (cl_creditLimit updated)) (parseFloat u))\<rparr>
            | None \<Rightarrow> updated);
          updated = (case ucr_creditLimit request of
              Some l \<Rightarrow>
                if l \<noteq> [] \<and> l \<noteq> cl_creditLimit existing then
                  let oldLimit = parseFloat (cl_creditLimit existing);
                      newLimit = parseFloat l;
                      oldAvailable = parseFloat (cl_availableCredit existing);
                      ratio = (if num_gt oldLimit (Fin 0) then num_div oldAvailable oldLimit else Fin 1)
                  in updated\<lparr>cl_availableCredit := num_toString (num_mul newLimit ratio)\<rparr>
                else updated
            | None \<Rightarrow> updated)
      in updated)"

definition InMemoryCreditLineRepository_update ::
  "string \<Rightarrow> UpdateCreditLineRequest \<Rightarrow> time \<Rightarrow> (creditLineRepo, CreditLine option) comp" where
  "InMemoryCreditLineRepository_update rowId request now m =
     (case jsmap_get m rowId of
        None \<Rightarrow> (Inr None, m)
      | Some existing \<Rightarrow>
          let currentVersion = (case cl_version existing of Some v \<Rightarrow> v | None \<Rightarrow> 1)
          in case ucr_expectedVersion request of
               Some ev \<Rightarrow>
                 if ev \<noteq> currentVersion then (Inl (VersionConflictError rowId ev currentVersion), m)
                 else let updated = CreditLine_patched existing request now
                      in (Inr (Some updated), jsmap_set rowId updated m)
             | None \<Rightarrow>
                 let updated = CreditLine_patched existing request now
                 in (Inr (Some updated), jsmap_set rowId updated m))"

definition InMemoryCreditLineRepository_delete :: "string \<Rightarrow> creditLineRepo \<Rightarrow> bool \<times> creditLineRepo" where
  "InMemoryCreditLineRepository_delete rowId m = (jsmap_has m rowId, jsmap_delete rowId m)"

definition InMemoryCreditLineRepository_exists :: "creditLineRepo \<Rightarrow> string \<Rightarrow> bool" where
  "InMemoryCreditLineRepository_exists m rowId = jsmap_has m rowId"

definition InMemoryCreditLineRepository_count :: "creditLineRepo \<Rightarrow> nat" where
  "InMemoryCreditLineRepository_count m = jsmap_size m"

definition InMemoryCreditLineRepository_clear :: "creditLineRepo \<Rightarrow> creditLineRepo" where
  "InMemoryCreditLineRepository_clear m = jsmap_empty"

section \<open>The in-memory transaction repository\<close>

definition InMemoryTransactionRepository_sortByNewest ::
  "(string \<Rightarrow> string \<Rightarrow> int) \<Rightarrow> Transaction list \<Rightarrow> Transaction list" where
  "InMemoryTransactionRepository_sortByNewest lc transactions =
     js_sort (\<lambda>a b. let tsDiff = tx_createdAt b - tx_createdAt a
                     in if tsDiff \<noteq> 0 then tsDiff else lc (tx_id a) (tx_id b)) transactions"

definition InMemoryTransactionRepository_create ::
  "CreateTransactionRequest \<Rightarrow> string \<Rightarrow> time \<Rightarrow> transactionRepo \<Rightarrow> Transaction \<times> transactionRepo" where
  "InMemoryTransactionRepository_create request uuid now m =
     (let transaction = \<lparr>tx_id = uuid,
            tx_creditLineId = ctr_creditLineId request,
            tx_walletAddress = [],
            tx_amount = ctr_amount request,
            tx_type = ctr_type request,
            tx_status = PENDING,
            tx_blockchainTxHash = ctr_blockchainTxHash request,
            tx_createdAt = now,
            tx_processedAt = None\<rparr>
      in (transaction, jsmap_set uuid transaction m))"

definition InMemoryTransactionRepository_findById :: "transactionRepo \<Rightarrow> string \<Rightarrow> Transaction option" where
  "InMemoryTransactionRepository_findById m rowId = jsmap_get m rowId"

text \<open>The four list queries share filter, sort and slice; \<open>offset\<close> and \<open>limit\<close> default to 0 and 100.\<close>

definition InMemoryTransactionRepository_select ::
  "(string \<Rightarrow> string \<Rightarrow> int) \<Rightarrow> transactionRepo \<Rightarrow> (Transaction \<Rightarrow> bool) \<Rightarrow> int option \<Rightarrow> int option \<Rightarrow>
     Transaction list" where
  "InMemoryTransactionRepository_select lc m p offset limit =
     (let off = (case offset of Some n \<Rightarrow> n | None \<Rightarrow> 0);
          lim = (case limit of Some n \<Rightarrow> n | None \<Rightarrow> 100);
          filtered = InMemoryTransactionRepository_sortByNewest lc (filter p (jsmap_values m))
      in js_slice filtered off (off + lim))"

definition InMemoryTransactionRepository_findByCreditLineId ::
  "(string \<Rightarrow> string \<Rightarrow> int) \<Rightarrow> transactionRepo \<Rightarrow> string \<Rightarrow> int option \<Rightarrow> int option \<Rightarrow> Transaction list" where
  "InMemoryTransactionRepository_findByCreditLineId lc m creditLineId =
     InMemoryTransactionRepository_select lc m (\<lambda>tx. tx_creditLineId tx = creditLineId)"

definition InMemoryTransactionRepository_findByWalletAddress ::
  "(string \<Rightarrow> string \<Rightarrow> int) \<Rightarrow> transactionRepo \<Rightarrow> string \<Rightarrow> int option \<Rightarrow> int option \<Rightarrow> Transaction list" where
  "InMemoryTransactionRepository_findByWalletAddress lc m walletAddress =
     InMemoryTransactionRepository_select lc m (\<lambda>tx. tx_walletAddress tx = walletAddress)"

definition InMemoryTransactionRepository_findAll ::
  "(string \<Rightarrow> string \<Rightarrow> int) \<Rightarrow> transactionRepo \<Rightarrow> int option \<Rightarrow> int option \<Rightarrow> Transaction list" where
  "InMemoryTransactionRepository_findAll lc m = InMemoryTransactionRepository_select lc m (\<lambda>_. True)"

definition InMemoryTransactionRepository_findByStatus ::
  "(string \<Rightarrow> string \<Rightarrow> int) \<Rightarrow> transactionRepo \<Rightarrow> TransactionStatus \<Rightarrow> int option \<Rightarrow> int option \<Rightarrow>
     Transaction list" where
  "InMemoryTransactionRepository_findByStatus lc m status =
     InMemoryTransactionRepository_select lc m (\<lambda>tx. tx_status tx = status)"

definition InMemoryTransactionRepository_updateStatus ::
  "string \<Rightarrow> TransactionStatus \<Rightarrow> time option \<Rightarrow> time \<Rightarrow> transactionRepo \<Rightarrow> Transaction option \<times> transactionRepo" where
  "InMemoryTransactionRepository_updateStatus rowId status processedAt now m =
     (case jsmap_get m rowId of
        None \<Rightarrow> (None, m)
      | Some existing \<Rightarrow>
          let updated = existing\<lparr>tx_status := status,
                tx_processedAt := Some (case processedAt of Some p \<Rightarrow> p | None \<Rightarrow> now)\<rparr>
          in (Some updated, jsmap_set rowId updated m))"

definition InMemoryTransactionRepository_count :: "transactionRepo \<Rightarrow> nat" where
  "InMemoryTransactionRepository_count m = jsmap_size m"

definition InMemoryTransactionRepository_clear :: "transactionRepo \<Rightarrow> transactionRepo" where
  "InMemoryTransactionRepository_clear m = jsmap_empty"

lemmas repo_defs =
  InMemoryCreditLineRepository_create_def InMemoryCreditLineRepository_findById_def
  InMemoryCreditLineRepository_update_def InMemoryCreditLineRepository_delete_def
  InMemoryCreditLineRepository_exists_def InMemoryCreditLineRepository_count_def
  InMemoryCreditLineRepository_clear_def InMemoryTransactionRepository_create_def
  InMemoryTransactionRepository_findById_def InMemoryTransactionRepository_updateStatus_def
  InMemoryTransactionRepository_count_def InMemoryTransactionRepository_clear_def

section \<open>Listing: newest first, in pages\<close>

lemma sortByNewest_alt:
  "InMemoryCreditLineRepository_sortByNewest lc =
     js_sort (by_key_then (\<lambda>cl. - cl_createdAt cl) cl_id lc)"
  unfolding InMemoryCreditLineRepository_sortByNewest_def
  by (intro ext arg_cong2 [of _ _ _ _ js_sort] refl) (auto simp: by_key_then_def Let_def)

lemma tx_sortByNewest_alt:
  "InMemoryTransactionRepository_sortByNewest lc =
     js_sort (by_key_then (\<lambda>tx. - tx_createdAt tx) tx_id lc)"
  unfolding InMemoryTransactionRepository_sortByNewest_def
  by (intro ext arg_cong2 [of _ _ _ _ js_sort] refl) (auto simp: by_key_then_def Let_def)

lemma sortByNewest_sorted:
  "comparator lc \<Longrightarrow>
     sorted_wrt (\<lambda>a b. cl_createdAt a > cl_createdAt b \<or>
       cl_createdAt a = cl_createdAt b \<and> lc (cl_id a) (cl_id b) \<le> 0)
     (InMemoryCreditLineRepository_sortByNewest lc xs)"
  using comparator.sorted_js_sort [OF comparator_by_key_then [of lc "\<lambda>cl. - cl_createdAt cl" cl_id], of xs]
  unfolding sortByNewest_alt
  by (rule sorted_wrt_mono_rel [rotated]) (auto simp: by_key_then_def split: if_splits)

lemma tx_sortByNewest_sorted:
  "comparator lc \<Longrightarrow>
     sorted_wrt (\<lambda>a b. tx_createdAt a > tx_createdAt b \<or>
       tx_createdAt a = tx_createdAt b \<and> lc (tx_id a) (tx_id b) \<le> 0)
     (InMemoryTransactionRepository_sortByNewest lc xs)"
  using comparator.sorted_js_sort [OF comparator_by_key_then [of lc "\<lambda>tx. - tx_createdAt tx" tx_id], of xs]
  unfolding tx_sortByNewest_alt
  by (rule sorted_wrt_mono_rel [rotated]) (auto simp: by_key_then_def split: if_splits)

lemma findAll_page:
  "0 \<le> off \<Longrightarrow> 0 \<le> n \<Longrightarrow> InMemoryCreditLineRepository_findAll lc m (Some off) (Some n) =
     take (nat n) (drop (nat off) (InMemoryCreditLineRepository_sortByNewest lc (jsmap_values m)))"
  by (simp add: InMemoryCreditLineRepository_findAll_def Let_def js_slice_nat)

lemma findAll_pages:
  "concat (map (\<lambda>k. InMemoryCreditLineRepository_findAll lc m (Some (int (k * n))) (Some (int n))) [0..<p]) =
     take (p * n) (InMemoryCreditLineRepository_sortByNewest lc (jsmap_values m))"
  by (simp add: findAll_page concat_pages del: of_nat_mult)

section \<open>The contract of the repository\<close>

definition expectedVersion_ok :: "CreditLine \<Rightarrow> UpdateCreditLineRequest \<Rightarrow> bool" where
  "expectedVersion_ok l request \<longleftrightarrow>
     (case ucr_expectedVersion request of
        Some ev \<Rightarrow> ev = (case cl_version l of Some v \<Rightarrow> v | None \<Rightarrow> 1)
      | None \<Rightarrow> True)"

record 's CreditLineRepository =
  repo_create :: "CreateCreditLineRequest \<Rightarrow> string \<Rightarrow> time \<Rightarrow> 's \<Rightarrow> CreditLine \<times> 's"
  repo_findById :: "'s \<Rightarrow> string \<Rightarrow> CreditLine option"
  repo_findByWalletAddress :: "'s \<Rightarrow> string \<Rightarrow> CreditLine list"
  repo_findAll :: "'s \<Rightarrow> int option \<Rightarrow> int option \<Rightarrow> CreditLine list"
  repo_update :: "string \<Rightarrow> UpdateCreditLineRequest \<Rightarrow> time \<Rightarrow> ('s, CreditLine option) comp"
  repo_delete :: "string \<Rightarrow> 's \<Rightarrow> bool \<times> 's"
  repo_exists :: "'s \<Rightarrow> string \<Rightarrow> bool"
  repo_count :: "'s \<Rightarrow> nat"

definition inMemoryCreditLines :: "(string \<Rightarrow> string \<Rightarrow> int) \<Rightarrow> creditLineRepo CreditLineRepository" where
  "inMemoryCreditLines lc = \<lparr>
     repo_create = InMemoryCreditLineRepository_create,
     repo_findById = InMemoryCreditLineRepository_findById,
     repo_findByWalletAddress = InMemoryCreditLineRepository_findByWalletAddress lc,
     repo_findAll = InMemoryCreditLineRepository_findAll lc,
     repo_update = InMemoryCreditLineRepository_update,
     repo_delete = InMemoryCreditLineRepository_delete,
     repo_exists = InMemoryCreditLineRepository_exists,
     repo_count = InMemoryCreditLineRepository_count\<rparr>"

locale credit_line_repository =
  fixes R :: "'s CreditLineRepository"
  assumes find_create:
      "repo_findById R (snd (repo_create R req u t s)) i =
         (if i = u then Some (fst (repo_create R req u t s)) else repo_findById R s i)"
    and create_row:
      "fst (repo_create R req u t s) =
         \<lparr>cl_id = u, cl_walletAddress = ccr_walletAddress req, cl_creditLimit = ccr_creditLimit req,
          cl_availableCredit = ccr_creditLimit req, cl_utilized = ''0'',
          cl_interestRateBps = ccr_interestRateBps req, cl_status = ACTIVE, cl_version = Some 1,
          cl_createdAt = t, cl_updatedAt = t\<rparr>"
    and update_missing: "repo_findById R s i = None \<Longrightarrow> repo_update R i r t s = (Inr None, s)"
    and update_conflict:
      "repo_findById R s i = Some l \<Longrightarrow> \<not> expectedVersion_ok l r \<Longrightarrow>
         \<exists>e. repo_update R i r t s = (Inl e, s)"
    and update_found:
      "repo_findById R s i = Some l \<Longrightarrow> expectedVersion_ok l r \<Longrightarrow>
         fst (repo_update R i r t s) = Inr (Some (CreditLine_patched l r t)) \<and>
         repo_findById R (snd (repo_update R i r t s)) j =
           (if j = i then Some (CreditLine_patched l r t) else repo_findById R s j)"
    and find_delete:
      "repo_findById R (snd (repo_delete R i s)) j = (if j = i then None else repo_findById R s j)"
    and delete_result: "fst (repo_delete R i s) \<longleftrightarrow> repo_findById R s i \<noteq> None"
    and exists_find: "repo_exists R s i \<longleftrightarrow> repo_findById R s i \<noteq> None"
begin

text \<open>What every client may conclude: an update touches only its own row, and two writers that
  read the same version cannot both succeed.\<close>

lemma update_other: "j \<noteq> i \<Longrightarrow> repo_findById R (snd (repo_update R i r t s)) j = repo_findById R s j"
proof (cases "repo_findById R s i")
  case (Some l)
  assume "j \<noteq> i"
  then show ?thesis
    using update_found [OF Some, of r t j] update_conflict [OF Some, of r t]
    by (cases "expectedVersion_ok l r") auto
qed (simp add: update_missing)

lemma second_writer_conflicts:
  assumes "repo_findById R s i = Some l"
    and "ucr_expectedVersion r1 = Some v" "ucr_expectedVersion r2 = Some v"
    and "fst (repo_update R i r1 t1 s) = Inr (Some l1)"
  shows "\<exists>e. repo_update R i r2 t2 (snd (repo_update R i r1 t1 s)) = (Inl e, snd (repo_update R i r1 t1 s))"
proof -
  have ok: "expectedVersion_ok l r1"
    using update_conflict [OF assms(1)] assms(4) by (metis fst_conv sum.distinct(1))
  note f = update_found [OF assms(1) ok, of t1 i]
  have "\<not> expectedVersion_ok (CreditLine_patched l r1 t1) r2"
    using ok assms(2,3) by (auto simp: expectedVersion_ok_def CreditLine_patched_def Let_def split: option.splits)
  then show ?thesis using update_conflict [of "snd (repo_update R i r1 t1 s)" i] f by simp
qed

end

interpretation mem: credit_line_repository "inMemoryCreditLines lc"
  by unfold_locales
     (auto simp: inMemoryCreditLines_def repo_defs Let_def jsmap_has_def expectedVersion_ok_def split: option.splits)

section \<open>The invariant of the stored rows\<close>

definition CreditLineRepo_invar :: "creditLineRepo \<Rightarrow> bool" where
  "CreditLineRepo_invar m \<longleftrightarrow> jsmap_invar m \<and>
     list_all (\<lambda>(k, l). cl_id l = k \<and> (\<exists>v. cl_version l = Some v \<and> 1 \<le> v) \<and> cl_createdAt l \<le> cl_updatedAt l) m"

lemma CreditLineRepo_invar_iff:
  "CreditLineRepo_invar m \<longleftrightarrow> jsmap_invar m \<and>
     (\<forall>k l. jsmap_get m k = Some l \<longrightarrow>
        cl_id l = k \<and> (\<exists>v. cl_version l = Some v \<and> 1 \<le> v) \<and> cl_createdAt l \<le> cl_updatedAt l)"
  by (auto simp: CreditLineRepo_invar_def list_all_iff jsmap_in_set_iff [symmetric])

lemma CreditLine_patched_sel [simp]:
  "cl_id (CreditLine_patched l r t) = cl_id l"
  "cl_walletAddress (CreditLine_patched l r t) = cl_walletAddress l"
  "cl_createdAt (CreditLine_patched l r t) = cl_createdAt l"
  "cl_updatedAt (CreditLine_patched l r t) = t"
  "cl_version (CreditLine_patched l r t) = Some ((case cl_version l of Some v \<Rightarrow> v | None \<Rightarrow> 1) + 1)"
  "cl_utilized (CreditLine_patched l r t) = (case ucr_utilized r of Some u \<Rightarrow> u | None \<Rightarrow> cl_utilized l)"
  "cl_creditLimit (CreditLine_patched l r t) = (case ucr_creditLimit r of Some u \<Rightarrow> u | None \<Rightarrow> cl_creditLimit l)"
  "cl_status (CreditLine_patched l r t) = (case ucr_status r of Some u \<Rightarrow> u | None \<Rightarrow> cl_status l)"
  "cl_interestRateBps (CreditLine_patched l r t) =
     (case ucr_interestRateBps r of Some u \<Rightarrow> u | None \<Rightarrow> cl_interestRateBps l)"
  by (auto simp: CreditLine_patched_def Let_def split: option.splits)

lemma CreditLineRepo_invar_create:
  "CreditLineRepo_invar m \<Longrightarrow> CreditLineRepo_invar (snd (InMemoryCreditLineRepository_create r u t m))"
  by (auto simp: CreditLineRepo_invar_iff repo_defs Let_def)

lemma CreditLineRepo_invar_update:
  assumes "CreditLineRepo_invar m" "\<And>l. jsmap_get m i = Some l \<Longrightarrow> cl_createdAt l \<le> t"
  shows "CreditLineRepo_invar (snd (InMemoryCreditLineRepository_update i r t m))"
  using assms by (auto simp: CreditLineRepo_invar_iff repo_defs Let_def split: option.splits) force+

lemma CreditLineRepo_invar_delete:
  "CreditLineRepo_invar m \<Longrightarrow> CreditLineRepo_invar (snd (InMemoryCreditLineRepository_delete i m))"
  by (auto simp: CreditLineRepo_invar_iff repo_defs)

section \<open>Properties\<close>

text \<open>A line the witnesses evaluate.\<close>

definition exampleLine :: CreditLine where
  "exampleLine = \<lparr>cl_id = ''L1'', cl_walletAddress = ''GA'', cl_creditLimit = ''1000'', cl_availableCredit = ''900'',
     cl_utilized = ''100'', cl_interestRateBps = Fin 500, cl_status = ACTIVE, cl_version = Some 3,
     cl_createdAt = 0, cl_updatedAt = 7\<rparr>"

abbreviation memLines :: "creditLineRepo CreditLineRepository" where
  "memLines \<equiv> inMemoryCreditLines code_unit_compare"

text \<open>
  Optimistic locking: of two updates that carry the same expected version, the second is rejected with a
  version conflict once the first has succeeded, and the rejected update leaves every row as it was.
\<close>

theorem stale_update_conflicts:
  assumes "ucr_expectedVersion r1 = Some v" "ucr_expectedVersion r2 = Some v"
    and "InMemoryCreditLineRepository_update i r1 t1 m = (Inr (Some l1), m1)"
  shows "InMemoryCreditLineRepository_update i r2 t2 m1 = (Inl (VersionConflictError i v (v + 1)), m1) \<and>
     cl_version l1 = Some (v + 1) \<and> jsmap_get m1 i = Some l1"
proof -
  obtain l where l: "jsmap_get m i = Some l" using assms(3) by (cases "jsmap_get m i") (auto simp: repo_defs)
  have v: "v = (case cl_version l of Some v \<Rightarrow> v | None \<Rightarrow> 1)" and l1: "l1 = CreditLine_patched l r1 t1" and m1: "m1 = jsmap_set i l1 m"
    using assms l by (auto simp: repo_defs Let_def split: if_splits)
  show ?thesis using assms(2) by (simp add: repo_defs m1 l1 v [symmetric])
qed

theorem stale_update_conflicts_witness:
  "let r = emptyUpdate\<lparr>ucr_status := Some SUSPENDED, ucr_expectedVersion := Some 3\<rparr>;
       out = InMemoryCreditLineRepository_update ''L1'' r 8 [(''L1'', exampleLine)]
   in InMemoryCreditLineRepository_update ''L1'' r 9 (snd out) = (Inl (VersionConflictError ''L1'' 3 4), snd out)"
proof -
  let ?r = "emptyUpdate\<lparr>ucr_status := Some SUSPENDED, ucr_expectedVersion := Some 3\<rparr>"
  have "InMemoryCreditLineRepository_update ''L1'' ?r 8 [(''L1'', exampleLine)] =
      (Inr (Some (CreditLine_patched exampleLine ?r 8)), [(''L1'', CreditLine_patched exampleLine ?r 8)])"
    by (simp add: repo_defs exampleLine_def Let_def)
  from stale_update_conflicts [OF _ _ this, of 3 ?r 9] this show ?thesis by (simp add: emptyUpdate_def)
qed

text \<open>
  Offset pages partition the repository: for a consistent \<open>localeCompare\<close>, consecutive pages of \<open>n\<close> rows,
  enough of them to cover the count, concatenate to the newest-first list, which holds every stored row once.
\<close>

theorem findAll_pages_partition:
  assumes "comparator lc" "InMemoryCreditLineRepository_count m \<le> p * n"
  shows "\<exists>rows. concat (map (\<lambda>k. InMemoryCreditLineRepository_findAll lc m (Some (int (k * n))) (Some (int n))) [0..<p]) = rows \<and>
     mset rows = mset (jsmap_values m) \<and>
     sorted_wrt (\<lambda>a b. cl_createdAt a > cl_createdAt b \<or> cl_createdAt a = cl_createdAt b \<and> lc (cl_id a) (cl_id b) \<le> 0) rows"
proof -
  have "take (p * n) (InMemoryCreditLineRepository_sortByNewest lc (jsmap_values m)) =
      InMemoryCreditLineRepository_sortByNewest lc (jsmap_values m)"
    using assms(2) by (simp add: sortByNewest_alt jsmap_values_def repo_defs jsmap_size_def)
  then show ?thesis
    using sortByNewest_sorted [OF assms(1)] unfolding findAll_pages by (simp add: sortByNewest_alt)
qed

theorem findAll_pages_partition_witness:
  "\<exists>rows. concat (map (\<lambda>k. InMemoryCreditLineRepository_findAll code_unit_compare
        [(''L1'', exampleLine), (''L2'', exampleLine\<lparr>cl_id := ''L2'', cl_createdAt := 5\<rparr>)] (Some (int (k * 1))) (Some (int 1))) [0..<2]) = rows \<and>
     mset rows = {# exampleLine, exampleLine\<lparr>cl_id := ''L2'', cl_createdAt := 5\<rparr> #}"
  using findAll_pages_partition [OF cu.comparator_axioms,
    of "[(''L1'', exampleLine), (''L2'', exampleLine\<lparr>cl_id := ''L2'', cl_createdAt := 5\<rparr>)]" 2 1]
  by (simp add: repo_defs jsmap_size_def jsmap_values_def)

text \<open>
  Changing the credit limit rescales the available credit by the ratio available/limit instead of
  recomputing limit minus utilized: raising the limit of a line with 500 of 1000 utilized to 2000 stores
  an available credit of 1000, although 1500 are left.
\<close>

theorem limit_change_rescales_available:
  assumes "ucr_creditLimit r = Some newLimit" "newLimit \<noteq> []" "newLimit \<noteq> cl_creditLimit l" "ucr_expectedVersion r = None"
    and "jsmap_get m i = Some l" "num_gt (parseFloat (cl_creditLimit l)) (Fin 0)"
  shows "\<exists>l' m'. InMemoryCreditLineRepository_update i r t m = (Inr (Some l'), m') \<and> cl_creditLimit l' = newLimit \<and>
     parseFloat (cl_availableCredit l') = num_mul (parseFloat newLimit)
       (num_div (parseFloat (cl_availableCredit l)) (parseFloat (cl_creditLimit l)))"
  using assms
  by (simp add: repo_defs Let_def) (simp add: CreditLine_patched_def Let_def parseFloat_toString)

theorem limit_change_rescales_available_witness:
  "\<exists>l' m'. InMemoryCreditLineRepository_update ''L1'' (emptyUpdate\<lparr>ucr_creditLimit := Some ''2000''\<rparr>) 8
       [(''L1'', exampleLine\<lparr>cl_creditLimit := ''1000'', cl_availableCredit := ''500'', cl_utilized := ''500''\<rparr>)] = (Inr (Some l'), m') \<and>
     parseFloat (cl_creditLimit l') = Fin 2000 \<and> cl_utilized l' = ''500'' \<and> parseFloat (cl_availableCredit l') = Fin 1000"
proof -
  let ?l = "exampleLine\<lparr>cl_creditLimit := ''1000'', cl_availableCredit := ''500'', cl_utilized := ''500''\<rparr>"
  let ?r = "emptyUpdate\<lparr>ucr_creditLimit := Some ''2000''\<rparr>"
  have p: "parseFloat ''1000'' = Fin 1000" "parseFloat ''2000'' = Fin 2000" "parseFloat ''500'' = Fin 500"
    by (simp_all add: parse_literal)
  have "(1 / 2 :: rat) = of_int 1 * 2 powi (- 1) \<and> \<bar>1 :: int\<bar> < 2 ^ 53 \<and> - 1074 \<le> (- 1 :: int) \<and> \<bar>1 / 2 :: rat\<bar> < dmax"
    using int_less_dmax [of 1] by simp
  then have half: "dround (1 / 2) = Fin (1 / 2)"
    by (intro dround_id) (unfold is_double.simps, blast)
  obtain l' m' where "InMemoryCreditLineRepository_update ''L1'' ?r 8 [(''L1'', ?l)] = (Inr (Some l'), m')"
    and "cl_creditLimit l' = ''2000''" and "parseFloat (cl_availableCredit l') = num_mul (Fin 2000) (num_div (Fin 500) (Fin 1000))"
    using limit_change_rescales_available [of ?r "''2000''" ?l "[(''L1'', ?l)]" "''L1''" 8] p by (auto simp: emptyUpdate_def)
  moreover from this(1) have "cl_utilized l' = ''500''" by (auto simp: repo_defs emptyUpdate_def exampleLine_def Let_def)
  ultimately show ?thesis using p half by auto
qed

end
