(* ===== verification/CreditLineService.thy ===== *)
theory CreditLineService
  imports CreditLineRepo
begin

text \<open>
  The credit-line service (\<open>src/services/CreditLineService.ts\<close>) over a repository and an optional
  ledger, its transaction boundary (\<open>src/db/transaction.ts\<close>) and the domain events it emits
  (\<open>src/services/events/domainEvents.ts\<close>).

  A service operation is a computation \<open>'s service_state \<Rightarrow> (js_error + 'a) \<times> 's service_state\<close>: the state
  is returned on errors too, because the in-memory wiring does not roll back. \<open>R\<close> is the injected
  repository, \<open>run\<close> the injected transaction runner, \<open>clk\<close> the successive readings of the clock and
  \<open>uuid\<close> the identifier drawn from \<open>randomUUID\<close>. The amounts are decimal strings that the code
  reads with \<open>parseFloat\<close>, computes with as binary64 numbers, and prints back.
\<close>

section \<open>Transaction boundary\<close>

definition withTransaction ::
  "(string \<Rightarrow> ('s, unit) comp) option \<Rightarrow> ('s, 'a) comp \<Rightarrow> ('s, 'a) comp" where
  "withTransaction client work s =
     (case client of
        None \<Rightarrow> work s
      | Some query \<Rightarrow>
          (case query ''BEGIN'' s of
             (Inl e, s1) \<Rightarrow> (Inl e, s1)
           | (Inr _, s1) \<Rightarrow>
               (case (case work s1 of
                        (Inl e, s2) \<Rightarrow> (Inl e, s2)
                      | (Inr r, s2) \<Rightarrow>
                          (case query ''COMMIT'' s2 of
                             (Inl e, s3) \<Rightarrow> (Inl e, s3)
                           | (Inr _, s3) \<Rightarrow> (Inr r, s3))) of
                  (Inl e, s4) \<Rightarrow> (Inl e, snd (query ''ROLLBACK'' s4))
                | (Inr r, s4) \<Rightarrow> (Inr r, s4))))"

definition passthroughTransactionRunner :: "('s, 'a) comp \<Rightarrow> ('s, 'a) comp" where
  "passthroughTransactionRunner work = work"

definition createDbTransactionRunner ::
  "(string \<Rightarrow> ('s, unit) comp) \<Rightarrow> ('s, 'a) comp \<Rightarrow> ('s, 'a) comp" where
  "createDbTransactionRunner client work = withTransaction (Some client) work"

section \<open>State and events\<close>

record domain_event =
  ev_type :: string
  ev_occurredAt :: time
  ev_creditLineId :: string
  ev_payload :: "(string \<times> string) list"

record 's service_state =
  ss_lines :: 's
  ss_ledger :: "transactionRepo option"
  ss_published :: "domain_event list option"

definition CreditLineService_emit :: "domain_event \<Rightarrow> 's service_state \<Rightarrow> 's service_state" where
  "CreditLineService_emit event st =
     (case ss_published st of
        None \<Rightarrow> st
      | Some evs \<Rightarrow> st\<lparr>ss_published := Some (evs @ [event])\<rparr>)"

section \<open>Operations\<close>

definition CreditLineService_createCreditLine ::
  "'s CreditLineRepository \<Rightarrow> (('s service_state, CreditLine) comp \<Rightarrow> ('s service_state, CreditLine) comp) \<Rightarrow>
     (nat \<Rightarrow> time) \<Rightarrow> string \<Rightarrow> CreateCreditLineRequest \<Rightarrow> ('s service_state, CreditLine) comp" where
  "CreditLineService_createCreditLine R run clk uuid request st =
     (if ccr_walletAddress request = [] then (Inl (Error ''Wallet address is required''), st)
      else if ccr_creditLimit request = [] \<or> num_le (parseFloat (ccr_creditLimit request)) (Fin 0)
        then (Inl (Error ''Credit limit must be greater than 0''), st)
      else if num_lt (ccr_interestRateBps request) (Fin 0) \<or> num_gt (ccr_interestRateBps request) (Fin 10000)
        then (Inl (Error ''Interest rate must be between 0 and 10000 basis points''), st)
      else case run (\<lambda>st. let (created, ls) = repo_create R request uuid (clk 0) (ss_lines st)
                          in (Inr created, st\<lparr>ss_lines := ls\<rparr>)) st of
        (Inl e, st1) \<Rightarrow> (Inl e, st1)
      | (Inr created, st1) \<Rightarrow>
          (Inr created, CreditLineService_emit
             \<lparr>ev_type = ''credit.opened'', ev_occurredAt = clk 1, ev_creditLineId = cl_id created,
              ev_payload = [(''walletAddress'', cl_walletAddress created),
                            (''creditLimit'', cl_creditLimit created)]\<rparr> st1))"

definition CreditLineService_getCreditLine ::
  "'s CreditLineRepository \<Rightarrow> 's service_state \<Rightarrow> string \<Rightarrow> CreditLine option" where
  "CreditLineService_getCreditLine R st lineId = repo_findById R (ss_lines st) lineId"

definition CreditLineService_getCreditLinesByWallet ::
  "'s CreditLineRepository \<Rightarrow> 's service_state \<Rightarrow> string \<Rightarrow> CreditLine list" where
  "CreditLineService_getCreditLinesByWallet R st walletAddress =
     repo_findByWalletAddress R (ss_lines st) walletAddress"

definition CreditLineService_getAllCreditLines ::
  "'s CreditLineRepository \<Rightarrow> 's service_state \<Rightarrow> int option \<Rightarrow> int option \<Rightarrow> js_error + CreditLine list" where
  "CreditLineService_getAllCreditLines R st offset limit =
     (if (case offset of Some n \<Rightarrow> n < 0 | None \<Rightarrow> False) then Inl (Error ''Offset cannot be negative'')
      else if (case limit of Some n \<Rightarrow> n \<le> 0 | None \<Rightarrow> False) then Inl (Error ''Limit must be greater than 0'')
      else if (case limit of Some n \<Rightarrow> n > 100 | None \<Rightarrow> False) then Inl (Error ''Limit cannot exceed 100'')
      else Inr (repo_findAll R (ss_lines st) offset limit))"

definition CreditLineService_updateCreditLine ::
  "'s CreditLineRepository \<Rightarrow> time \<Rightarrow> string \<Rightarrow> UpdateCreditLineRequest \<Rightarrow>
     ('s service_state, CreditLine option) comp" where
  "CreditLineService_updateCreditLine R now lineId request st =
     (if (case ucr_creditLimit request of Some l \<Rightarrow> l \<noteq> [] \<and> num_le (parseFloat l) (Fin 0) | None \<Rightarrow> False)
        then (Inl (Error ''Credit limit must be greater than 0''), st)
      else if (case ucr_interestRateBps request of
                 Some r \<Rightarrow> num_lt r (Fin 0) \<or> num_gt r (Fin 10000) | None \<Rightarrow> False)
        then (Inl (Error ''Interest rate must be between 0 and 10000 basis points''), st)
      else let (res, ls) = repo_update R lineId request now (ss_lines st) in (res, st\<lparr>ss_lines := ls\<rparr>))"

definition CreditLineService_deleteCreditLine ::
  "'s CreditLineRepository \<Rightarrow> string \<Rightarrow> 's service_state \<Rightarrow> bool \<times> 's service_state" where
  "CreditLineService_deleteCreditLine R lineId st =
     (let (b, ls) = repo_delete R lineId (ss_lines st) in (b, st\<lparr>ss_lines := ls\<rparr>))"

definition CreditLineService_getCreditLineCount :: "'s CreditLineRepository \<Rightarrow> 's service_state \<Rightarrow> nat" where
  "CreditLineService_getCreditLineCount R st = repo_count R (ss_lines st)"

text \<open>\<open>line.utilized || '0'\<close>\<close>

definition utilizedNum :: "CreditLine \<Rightarrow> number" where
  "utilizedNum line = parseFloat (if cl_utilized line = [] then ''0'' else cl_utilized line)"

text \<open>The checks of \<open>draw\<close> on the line it read: the error, or the new utilized amount.\<close>

definition CreditLineService_drawCheck ::
  "CreditLine option \<Rightarrow> string \<Rightarrow> string \<Rightarrow> js_error + CreditLine \<times> string" where
  "CreditLineService_drawCheck found borrowerId amount =
     (case found of
        None \<Rightarrow> Inl (Error ''Credit line not found'')
      | Some line \<Rightarrow>
          if cl_walletAddress line \<noteq> borrowerId then Inl (Error ''Unauthorized'')
          else if cl_status line \<noteq> ACTIVE then Inl (Error ''Credit line is not active'')
          else let amountNum = parseFloat amount; limitNum = parseFloat (cl_creditLimit line)
               in if \<not> num_isFinite amountNum \<or> num_le amountNum (Fin 0)
                    then Inl (Error ''Draw amount must be greater than 0'')
                  else if num_gt (num_add (utilizedNum line) amountNum) limitNum
                    then Inl (Error ''Credit limit exceeded'')
                  else Inr (line, num_toString (num_add (utilizedNum line) amountNum)))"

text \<open>The write transaction shared by \<open>draw\<close> and \<open>repay\<close>: the ledger row first, then the balance.\<close>

definition CreditLineService_ledgerWrite ::
  "string \<Rightarrow> string \<Rightarrow> TransactionType \<Rightarrow> string \<Rightarrow> time \<Rightarrow> 's service_state \<Rightarrow> 's service_state" where
  "CreditLineService_ledgerWrite lineId amount ty uuid now st =
     (case ss_ledger st of
        None \<Rightarrow> st
      | Some txs \<Rightarrow> st\<lparr>ss_ledger := Some (snd (InMemoryTransactionRepository_create
          \<lparr>ctr_creditLineId = lineId, ctr_amount = amount, ctr_type = ty, ctr_blockchainTxHash = None\<rparr>
          uuid now txs))\<rparr>)"

definition CreditLineService_balanceWrite ::
  "'s CreditLineRepository \<Rightarrow> string \<Rightarrow> string \<Rightarrow> time \<Rightarrow> ('s service_state, CreditLine) comp" where
  "CreditLineService_balanceWrite R lineId newUtilized now st =
     (let (res, ls) = repo_update R lineId (emptyUpdate\<lparr>ucr_utilized := Some newUtilized\<rparr>) now (ss_lines st);
          st' = st\<lparr>ss_lines := ls\<rparr>
      in case res of
           Inl e \<Rightarrow> (Inl e, st')
         | Inr None \<Rightarrow> (Inl (Error ''Credit line not found''), st')
         | Inr (Some next) \<Rightarrow> (Inr next, st'))"

definition drawRequested :: "CreditLine \<Rightarrow> string \<Rightarrow> string \<Rightarrow> time \<Rightarrow> domain_event" where
  "drawRequested line lineId amount now =
     \<lparr>ev_type = ''credit.draw_requested'', ev_occurredAt = now, ev_creditLineId = lineId,
      ev_payload = [(''walletAddress'', cl_walletAddress line), (''amount'', amount)]\<rparr>"

definition balanceConfirmed :: "string \<Rightarrow> CreditLine \<Rightarrow> string \<Rightarrow> string \<Rightarrow> CreditLine \<Rightarrow> time \<Rightarrow> domain_event" where
  "balanceConfirmed ty line lineId amount updated now =
     \<lparr>ev_type = ty, ev_occurredAt = now, ev_creditLineId = lineId,
      ev_payload = [(''walletAddress'', cl_walletAddress line), (''amount'', amount),
                    (''utilized'', cl_utilized updated)]\<rparr>"

definition CreditLineService_draw ::
  "'s CreditLineRepository \<Rightarrow> (('s service_state, CreditLine) comp \<Rightarrow> ('s service_state, CreditLine) comp) \<Rightarrow>
     (nat \<Rightarrow> time) \<Rightarrow> string \<Rightarrow> string \<Rightarrow> string \<Rightarrow> string \<Rightarrow> ('s service_state, CreditLine) comp" where
  "CreditLineService_draw R run clk uuid lineId borrowerId amount st =
     (case CreditLineService_drawCheck (repo_findById R (ss_lines st) lineId) borrowerId amount of
        Inl e \<Rightarrow> (Inl e, st)
      | Inr (line, newUtilized) \<Rightarrow>
          let st1 = CreditLineService_emit (drawRequested line lineId amount (clk 0)) st
          in case run (\<lambda>st. CreditLineService_balanceWrite R lineId newUtilized (clk 2)
                         (CreditLineService_ledgerWrite lineId amount BORROW uuid (clk 1) st)) st1 of
               (Inl e, st2) \<Rightarrow> (Inl e, st2)
             | (Inr updated, st2) \<Rightarrow>
                 (Inr updated, CreditLineService_emit
                    (balanceConfirmed ''credit.draw_confirmed'' line lineId amount updated (clk 3)) st2))"

definition CreditLineService_repay ::
  "'s CreditLineRepository \<Rightarrow> (('s service_state, CreditLine) comp \<Rightarrow> ('s service_state, CreditLine) comp) \<Rightarrow>
     (nat \<Rightarrow> time) \<Rightarrow> string \<Rightarrow> string \<Rightarrow> string \<Rightarrow> string \<Rightarrow> ('s service_state, CreditLine) comp" where
  "CreditLineService_repay R run clk uuid lineId walletAddress amount st =
     (case repo_findById R (ss_lines st) lineId of
        None \<Rightarrow> (Inl (Error ''Credit line not found''), st)
      | Some line \<Rightarrow>
          let amountNum = parseFloat amount
          in if \<not> num_isFinite amountNum \<or> num_le amountNum (Fin 0)
               then (Inl (Error ''Repay amount must be greater than 0''), st)
             else let newUtilized = num_toString (num_max (Fin 0) (num_sub (utilizedNum line) amountNum))
                  in case run (\<lambda>st. CreditLineService_balanceWrite R lineId newUtilized (clk 1)
                                (CreditLineService_ledgerWrite lineId amount REPAY uuid (clk 0) st)) st of
                       (Inl e, st2) \<Rightarrow> (Inl e, st2)
                     | (Inr updated, st2) \<Rightarrow>
                         (Inr updated, CreditLineService_emit
                            (balanceConfirmed ''credit.repay_confirmed'' line lineId amount updated (clk 2)) st2))"

section \<open>Balances\<close>

text \<open>A line is in order when its limit is a positive finite amount, the utilized amount lies between
  zero and the limit, and the available credit is their (rounded) difference.\<close>

definition line_ok :: "CreditLine \<Rightarrow> bool" where
  "line_ok l =
     (case (parseFloat (cl_creditLimit l), utilizedNum l) of
        (Fin L, Fin U) \<Rightarrow> 0 < L \<and> 0 \<le> U \<and> U \<le> L \<and> parseFloat (cl_availableCredit l) = num_sub (Fin L) (Fin U)
      | _ \<Rightarrow> False)"

lemma line_ok_iff:
  "line_ok l \<longleftrightarrow> (\<exists>L U. parseFloat (cl_creditLimit l) = Fin L \<and> utilizedNum l = Fin U \<and>
     0 < L \<and> 0 \<le> U \<and> U \<le> L \<and> parseFloat (cl_availableCredit l) = num_sub (Fin L) (Fin U))"
  by (auto simp: line_ok_def split: number.splits)

abbreviation withUtilized :: "CreditLine \<Rightarrow> string \<Rightarrow> time \<Rightarrow> CreditLine" where
  "withUtilized l u t \<equiv> CreditLine_patched l (emptyUpdate\<lparr>ucr_utilized := Some u\<rparr>) t"

lemma withUtilized_available:
  "cl_availableCredit (withUtilized l u t) = num_toString (num_sub (parseFloat (cl_creditLimit l)) (parseFloat u))"
  by (simp add: CreditLine_patched_def emptyUpdate_def Let_def)

lemma withUtilized_utilizedNum [simp]:
  "is_double x \<Longrightarrow> utilizedNum (withUtilized l (num_toString x) t) = x"
  by (simp add: utilizedNum_def emptyUpdate_def parseFloat_toString)

lemma utilizedNum_double: "is_double (utilizedNum l)"
  by (simp add: utilizedNum_def)

lemma line_ok_withUtilized:
  assumes "parseFloat (cl_creditLimit l) = Fin L" "0 < L" "is_double (Fin U)" "0 \<le> U" "U \<le> L"
  shows "line_ok (withUtilized l (num_toString (Fin U)) t)"
proof -
  have "is_double (num_sub (Fin L) (Fin U))"
    by (rule num_sub_double) (use parseFloat_double [of "cl_creditLimit l"] assms in \<open>simp_all del: is_double.simps\<close>)
  then have "parseFloat (cl_availableCredit (withUtilized l (num_toString (Fin U)) t)) = num_sub (Fin L) (Fin U)"
    unfolding withUtilized_available assms(1) parseFloat_toString [OF assms(3)] by (rule parseFloat_toString)
  moreover have "utilizedNum (withUtilized l (num_toString (Fin U)) t) = Fin U"
    using assms(3) by (rule withUtilized_utilizedNum)
  moreover have "parseFloat (cl_creditLimit (withUtilized l (num_toString (Fin U)) t)) = Fin L"
    using assms(1) by (simp add: emptyUpdate_def)
  ultimately show ?thesis using assms(2,4,5) unfolding line_ok_iff by blast
qed

lemma drawCheck_sound:
  assumes "line_ok line" "CreditLineService_drawCheck (Some line) b amount = Inr (line', nu)"
  obtains L U a U' where "line' = line" "parseFloat (cl_creditLimit line) = Fin L" "utilizedNum line = Fin U"
    "parseFloat amount = Fin a" "0 < a" "num_add (Fin U) (Fin a) = Fin U'" "nu = num_toString (Fin U')"
    "is_double (Fin U')" "U \<le> U'" "U' \<le> L" "0 \<le> U" "0 < L"
proof -
  obtain L U where LU: "parseFloat (cl_creditLimit line) = Fin L" "utilizedNum line = Fin U" "0 < L" "0 \<le> U" "U \<le> L"
    using assms(1) by (auto simp: line_ok_iff)
  obtain a where a: "parseFloat amount = Fin a" "0 < a" and le: "\<not> num_gt (num_add (Fin U) (Fin a)) (Fin L)"
    and l': "line' = line" and nu: "nu = num_toString (num_add (Fin U) (Fin a))"
    using assms(2) LU
    by (cases "parseFloat amount") (auto simp: CreditLineService_drawCheck_def Let_def split: if_splits)
  have dU: "is_double (Fin U)" using utilizedNum_double [of line] LU by (simp del: is_double.simps)
  have "num_le (Fin U) (num_add (Fin U) (Fin a))" using dU LU(4) a(2) by (intro num_add_increases) auto
  then obtain U' where U': "num_add (Fin U) (Fin a) = Fin U'" "U \<le> U'"
    using le by (cases "num_add (Fin U) (Fin a)") (auto simp: num_le_def num_gt_def)
  have "is_double (Fin U')" using U'(1) is_double_dround [of "U + a"] by (simp del: is_double.simps is_double_dround)
  then show thesis using that LU a le l' nu U' by simp
qed

lemma parseFloat_zero [simp]: "parseFloat ''0'' = Fin 0"
  by (subst parseFloat_digits) (simp_all add: nat_of_digits_Cons digit_val_def)

lemma emit_sel [simp]:
  "ss_lines (CreditLineService_emit e st) = ss_lines st"
  "ss_ledger (CreditLineService_emit e st) = ss_ledger st"
  "ss_published (CreditLineService_emit e st) = map_option (\<lambda>evs. evs @ [e]) (ss_published st)"
  by (auto simp: CreditLineService_emit_def split: option.splits)

lemma ledgerWrite_sel [simp]:
  "ss_lines (CreditLineService_ledgerWrite i a ty u t st) = ss_lines st"
  "ss_published (CreditLineService_ledgerWrite i a ty u t st) = ss_published st"
  "ss_ledger (CreditLineService_ledgerWrite i a ty u t st) = map_option (\<lambda>txs. snd
     (InMemoryTransactionRepository_create
        \<lparr>ctr_creditLineId = i, ctr_amount = a, ctr_type = ty, ctr_blockchainTxHash = None\<rparr> u t txs)) (ss_ledger st)"
  by (auto simp: CreditLineService_ledgerWrite_def split: option.splits)

section \<open>The service over any repository that keeps its contract\<close>

context credit_line_repository
begin

lemma balanceWrite_found:
  assumes "repo_findById R (ss_lines st) i = Some l"
  shows "\<exists>ls. CreditLineService_balanceWrite R i nu t st = (Inr (withUtilized l nu t), st\<lparr>ss_lines := ls\<rparr>) \<and>
           (\<forall>j. repo_findById R ls j = (if j = i then Some (withUtilized l nu t) else repo_findById R (ss_lines st) j))"
proof -
  let ?r = "emptyUpdate\<lparr>ucr_utilized := Some nu\<rparr>"
  have "expectedVersion_ok l ?r" by (simp add: expectedVersion_ok_def emptyUpdate_def)
  note f = update_found [OF assms this, of t]
  show ?thesis
    by (cases "repo_update R i ?r t (ss_lines st)")
       (use f in \<open>auto simp: CreditLineService_balanceWrite_def Let_def\<close>)
qed

lemma balanceWrite_missing:
  assumes "repo_findById R (ss_lines st) i = None"
  shows "CreditLineService_balanceWrite R i nu t st = (Inl (Error ''Credit line not found''), st)"
  by (simp add: CreditLineService_balanceWrite_def update_missing [OF assms])

lemma draw_rejected:
  "CreditLineService_drawCheck (repo_findById R (ss_lines st) i) b amount = Inl e \<Longrightarrow>
     CreditLineService_draw R run clk u i b amount st = (Inl e, st)"
  by (simp add: CreditLineService_draw_def)

lemma drawCheck_line:
  "CreditLineService_drawCheck found b amount = Inr (line, nu) \<Longrightarrow> found = Some line"
  by (auto simp: CreditLineService_drawCheck_def Let_def split: option.splits if_splits)

lemma draw_accepted:
  fixes clk :: "nat \<Rightarrow> time" and u :: string
  assumes "CreditLineService_drawCheck (repo_findById R (ss_lines st) i) b amount = Inr (line, nu)"
  defines "out \<equiv> CreditLineService_draw R passthroughTransactionRunner clk u i b amount st"
  shows "fst out = Inr (withUtilized line nu (clk 2))"
    and "repo_findById R (ss_lines (snd out)) j =
           (if j = i then Some (withUtilized line nu (clk 2)) else repo_findById R (ss_lines st) j)"
    and "ss_ledger (snd out) = map_option (\<lambda>txs. snd (InMemoryTransactionRepository_create
           \<lparr>ctr_creditLineId = i, ctr_amount = amount, ctr_type = BORROW, ctr_blockchainTxHash = None\<rparr>
           u (clk 1) txs)) (ss_ledger st)"
    and "ss_published (snd out) = map_option (\<lambda>evs. evs @ [drawRequested line i amount (clk 0),
           balanceConfirmed ''credit.draw_confirmed'' line i amount (withUtilized line nu (clk 2)) (clk 3)])
           (ss_published st)"
proof -
  let ?st2 = "CreditLineService_ledgerWrite i amount BORROW u (clk 1)
    (CreditLineService_emit (drawRequested line i amount (clk 0)) st)"
  have "repo_findById R (ss_lines ?st2) i = Some line" using drawCheck_line [OF assms(1)] by simp
  from balanceWrite_found [OF this, of nu "clk 2"] obtain ls where
    w: "CreditLineService_balanceWrite R i nu (clk 2) ?st2 =
          (Inr (withUtilized line nu (clk 2)), ?st2\<lparr>ss_lines := ls\<rparr>)"
    and ls: "\<And>j. repo_findById R ls j =
          (if j = i then Some (withUtilized line nu (clk 2)) else repo_findById R (ss_lines st) j)" by auto
  have out: "out = (Inr (withUtilized line nu (clk 2)), CreditLineService_emit
      (balanceConfirmed ''credit.draw_confirmed'' line i amount (withUtilized line nu (clk 2)) (clk 3))
      (?st2\<lparr>ss_lines := ls\<rparr>))"
    unfolding out_def by (simp add: CreditLineService_draw_def assms(1) Let_def passthroughTransactionRunner_def w del: One_nat_def)
  show "fst out = Inr (withUtilized line nu (clk 2))"
    and "repo_findById R (ss_lines (snd out)) j =
           (if j = i then Some (withUtilized line nu (clk 2)) else repo_findById R (ss_lines st) j)"
    and "ss_ledger (snd out) = map_option (\<lambda>txs. snd (InMemoryTransactionRepository_create
           \<lparr>ctr_creditLineId = i, ctr_amount = amount, ctr_type = BORROW, ctr_blockchainTxHash = None\<rparr>
           u (clk 1) txs)) (ss_ledger st)"
    by (simp_all add: out ls option.map_comp o_def del: One_nat_def)
  show "ss_published (snd out) = map_option (\<lambda>evs. evs @ [drawRequested line i amount (clk 0),
           balanceConfirmed ''credit.draw_confirmed'' line i amount (withUtilized line nu (clk 2)) (clk 3)])
           (ss_published st)"
    by (simp add: out option.map_comp o_def)
qed

lemma repay_accepted:
  fixes clk :: "nat \<Rightarrow> time" and u w :: string
  assumes "repo_findById R (ss_lines st) i = Some line" "parseFloat amount = Fin a" "0 < a"
  defines "nu \<equiv> num_toString (num_max (Fin 0) (num_sub (utilizedNum line) (Fin a)))"
  defines "out \<equiv> CreditLineService_repay R passthroughTransactionRunner clk u i w amount st"
  shows "fst out = Inr (withUtilized line nu (clk 1))"
    and "repo_findById R (ss_lines (snd out)) j =
           (if j = i then Some (withUtilized line nu (clk 1)) else repo_findById R (ss_lines st) j)"
    and "ss_ledger (snd out) = map_option (\<lambda>txs. snd (InMemoryTransactionRepository_create
           \<lparr>ctr_creditLineId = i, ctr_amount = amount, ctr_type = REPAY, ctr_blockchainTxHash = None\<rparr>
           u (clk 0) txs)) (ss_ledger st)"
    and "ss_published (snd out) = map_option (\<lambda>evs. evs @ [balanceConfirmed ''credit.repay_confirmed''
           line i amount (withUtilized line nu (clk 1)) (clk 2)]) (ss_published st)"
proof -
  let ?st2 = "CreditLineService_ledgerWrite i amount REPAY u (clk 0) st"
  have "repo_findById R (ss_lines ?st2) i = Some line" using assms(1) by simp
  from balanceWrite_found [OF this, of nu "clk 1"] obtain ls where
    w: "CreditLineService_balanceWrite R i nu (clk 1) ?st2 =
          (Inr (withUtilized line nu (clk 1)), ?st2\<lparr>ss_lines := ls\<rparr>)"
    and ls: "\<And>j. repo_findById R ls j =
          (if j = i then Some (withUtilized line nu (clk 1)) else repo_findById R (ss_lines st) j)" by auto
  have out: "out = (Inr (withUtilized line nu (clk 1)), CreditLineService_emit
      (balanceConfirmed ''credit.repay_confirmed'' line i amount (withUtilized line nu (clk 1)) (clk 2))
      (?st2\<lparr>ss_lines := ls\<rparr>))"
    unfolding out_def CreditLineService_repay_def assms(1) Let_def passthroughTransactionRunner_def
    using w assms(2,3) by (simp add: nu_def del: One_nat_def)
  show "fst out = Inr (withUtilized line nu (clk 1))"
    and "repo_findById R (ss_lines (snd out)) j =
           (if j = i then Some (withUtilized line nu (clk 1)) else repo_findById R (ss_lines st) j)"
    and "ss_ledger (snd out) = map_option (\<lambda>txs. snd (InMemoryTransactionRepository_create
           \<lparr>ctr_creditLineId = i, ctr_amount = amount, ctr_type = REPAY, ctr_blockchainTxHash = None\<rparr>
           u (clk 0) txs)) (ss_ledger st)"
    and "ss_published (snd out) = map_option (\<lambda>evs. evs @ [balanceConfirmed ''credit.repay_confirmed''
           line i amount (withUtilized line nu (clk 1)) (clk 2)]) (ss_published st)"
    by (simp_all add: out ls del: One_nat_def)
qed

lemma repay_rejected:
  "repo_findById R (ss_lines st) i = None \<or> (\<nexists>a. parseFloat amount = Fin a \<and> 0 < a) \<Longrightarrow>
     \<exists>e. CreditLineService_repay R run clk u i w amount st = (Inl e, st)"
  by (cases "parseFloat amount") (auto simp: CreditLineService_repay_def Let_def split: option.splits)

lemma repay_line_ok:
  assumes "line_ok line" "0 < a"
  shows "line_ok (withUtilized line (num_toString (num_max (Fin 0) (num_sub (utilizedNum line) (Fin a)))) t)"
    and "\<exists>U U'. utilizedNum line = Fin U \<and> num_max (Fin 0) (num_sub (utilizedNum line) (Fin a)) = Fin U' \<and>
           0 \<le> U' \<and> U' \<le> U \<and> is_double (Fin U')"
proof -
  obtain L U where LU: "parseFloat (cl_creditLimit line) = Fin L" "utilizedNum line = Fin U" "0 < L" "0 \<le> U" "U \<le> L"
    using assms(1) by (auto simp: line_ok_iff)
  have dU: "is_double (Fin U)" using utilizedNum_double [of line] LU by (simp del: is_double.simps)
  obtain v where v: "num_max (Fin 0) (num_sub (Fin U) (Fin a)) = Fin v" "0 \<le> v" "v \<le> U"
    using num_max_0_sub [OF dU LU(4), of a] assms(2) by (metis order_less_imp_le)
  have dv: "is_double (Fin v)" unfolding v(1) [symmetric] num_sub_Fin by (intro num_max_double is_double_Fin_0 is_double_dround)
  show "line_ok (withUtilized line (num_toString (num_max (Fin 0) (num_sub (utilizedNum line) (Fin a)))) t)"
    unfolding LU(2) v(1) by (rule line_ok_withUtilized [OF LU(1,3) dv v(2)]) (use v LU in linarith)
  show "\<exists>U U'. utilizedNum line = Fin U \<and> num_max (Fin 0) (num_sub (utilizedNum line) (Fin a)) = Fin U' \<and>
           0 \<le> U' \<and> U' \<le> U \<and> is_double (Fin U')"
    unfolding LU(2) using v dv by blast
qed

lemma draw_line_ok:
  assumes "repo_findById R (ss_lines st) i = Some line" "line_ok line"
    and "CreditLineService_draw R passthroughTransactionRunner clk u i b amount st = (Inr l', st')"
  shows "line_ok l' \<and> repo_findById R (ss_lines st') i = Some l' \<and>
     (\<exists>U a. utilizedNum line = Fin U \<and> parseFloat amount = Fin a \<and> 0 < a \<and>
        utilizedNum l' = num_add (Fin U) (Fin a) \<and> num_le (Fin U) (utilizedNum l')) \<and>
     num_le (utilizedNum l') (parseFloat (cl_creditLimit line)) \<and> cl_creditLimit l' = cl_creditLimit line"
proof -
  let ?c = "CreditLineService_drawCheck (repo_findById R (ss_lines st) i) b amount"
  obtain line1 nu where chk: "?c = Inr (line1, nu)"
    using draw_rejected [of st i b amount] assms(3) by (cases ?c) auto
  with assms(1) have "CreditLineService_drawCheck (Some line) b amount = Inr (line1, nu)" by simp
  then obtain L U a U' where f: "line1 = line" "parseFloat (cl_creditLimit line) = Fin L" "utilizedNum line = Fin U"
    "parseFloat amount = Fin a" "0 < a" "num_add (Fin U) (Fin a) = Fin U'" "nu = num_toString (Fin U')"
    "is_double (Fin U')" "U \<le> U'" "U' \<le> L" "0 \<le> U" "0 < L"
    by (rule drawCheck_sound [OF assms(2)])
  have l': "l' = withUtilized line (num_toString (Fin U')) (clk 2)"
    and find: "repo_findById R (ss_lines st') i = Some l'"
    using draw_accepted(1,2) [OF chk, of clk u] assms(3) f(1,7) by auto
  have u: "utilizedNum l' = Fin U'" unfolding l' by (rule withUtilized_utilizedNum [OF f(8)])
  have "line_ok l'" unfolding l' by (rule line_ok_withUtilized) (use f in \<open>auto simp del: is_double.simps\<close>)
  then show ?thesis using find u f l' by (auto simp: emptyUpdate_def simp del: is_double.simps)
qed

end

section \<open>Properties of the in-memory wiring\<close>

text \<open>A service state the witnesses evaluate.\<close>

definition exampleState :: "creditLineRepo service_state" where
  "exampleState = \<lparr>ss_lines = [(''L1'', exampleLine)], ss_ledger = Some [], ss_published = Some []\<rparr>"

lemma exampleState_find [simp]:
  "repo_findById (inMemoryCreditLines lc) (ss_lines exampleState) ''L1'' = Some exampleLine"
  by (simp add: exampleState_def inMemoryCreditLines_def repo_defs)

lemma exampleLine_ok: "line_ok exampleLine" "utilizedNum exampleLine = Fin 100"
  by (simp_all add: line_ok_def utilizedNum_def exampleLine_def parse_literal)

lemma exampleLine_drawCheck:
  "CreditLineService_drawCheck (Some exampleLine) ''GA'' ''250'' = Inr (exampleLine, num_toString (Fin 350))"
  by (simp add: CreditLineService_drawCheck_def exampleLine_ok(2) Let_def)
     (simp add: exampleLine_def parse_literal)

text \<open>
  C1. A successful draw keeps the line in order: the utilized amount grows by the requested amount
  (one binary64 addition) and never exceeds the credit limit, the available credit is the limit less
  the utilized amount, and the limit is unchanged.
\<close>

theorem draw_within_limit:
  assumes "repo_findById (inMemoryCreditLines lc) (ss_lines st) i = Some line" "line_ok line"
    and "CreditLineService_draw (inMemoryCreditLines lc) passthroughTransactionRunner clk u i b amount st = (Inr l', st')"
  shows "line_ok l' \<and> repo_findById (inMemoryCreditLines lc) (ss_lines st') i = Some l' \<and>
     (\<exists>U a. utilizedNum line = Fin U \<and> parseFloat amount = Fin a \<and> 0 < a \<and>
        utilizedNum l' = num_add (Fin U) (Fin a) \<and> num_le (Fin U) (utilizedNum l')) \<and>
     num_le (utilizedNum l') (parseFloat (cl_creditLimit line)) \<and> cl_creditLimit l' = cl_creditLimit line"
  by (rule mem.draw_line_ok [OF assms])

theorem draw_within_limit_witness:
  "let out = CreditLineService_draw memLines passthroughTransactionRunner int ''T1'' ''L1'' ''GA'' ''250'' exampleState;
       l' = withUtilized exampleLine (num_toString (Fin 350)) 2
   in fst out = Inr l' \<and> line_ok l' \<and> repo_findById memLines (ss_lines (snd out)) ''L1'' = Some l' \<and>
      num_le (utilizedNum l') (parseFloat (cl_creditLimit exampleLine))"
proof -
  let ?out = "CreditLineService_draw memLines passthroughTransactionRunner int ''T1'' ''L1'' ''GA'' ''250'' exampleState"
  let ?l = "withUtilized exampleLine (num_toString (Fin 350)) 2"
  have f: "fst ?out = Inr ?l"
    using mem.draw_accepted(1) [of code_unit_compare exampleState "''L1''" "''GA''" "''250''" exampleLine _ int "''T1''"]
      exampleLine_drawCheck by (simp only: exampleState_find of_nat_numeral)
  then have "?out = (Inr ?l, snd ?out)" by (simp only: prod_eq_iff fst_conv snd_conv simp_thms)
  from draw_within_limit [OF exampleState_find exampleLine_ok(1) this] f show ?thesis
    by (simp only: Let_def simp_thms)
qed

text \<open>
  C9. A rejected draw has no effect: whatever the reason (unknown line, foreign wallet, inactive line,
  bad amount, limit exceeded), the rows, the ledger and the published events are unchanged, and the
  error is the one of the first check that fails.
\<close>

theorem draw_rejection_has_no_effect:
  assumes "CreditLineService_draw (inMemoryCreditLines lc) passthroughTransactionRunner clk u i b amount st = (Inl e, st')"
  shows "st' = st \<and>
     CreditLineService_drawCheck (repo_findById (inMemoryCreditLines lc) (ss_lines st) i) b amount = Inl e"
proof (cases "CreditLineService_drawCheck (repo_findById (inMemoryCreditLines lc) (ss_lines st) i) b amount")
  case (Inl e')
  then show ?thesis using mem.draw_rejected [OF Inl] assms by simp
next
  case (Inr p)
  then obtain line nu where "CreditLineService_drawCheck (repo_findById (inMemoryCreditLines lc) (ss_lines st) i) b amount
      = Inr (line, nu)" by (cases p) auto
  from mem.draw_accepted(1) [OF this, of clk u] assms show ?thesis by simp
qed

lemma exampleLine_overdraw:
  "CreditLineService_drawCheck (Some exampleLine) ''GA'' ''901'' = Inl (Error ''Credit limit exceeded'')"
  by (simp add: CreditLineService_drawCheck_def exampleLine_ok(2) Let_def)
     (simp add: exampleLine_def parse_literal)

theorem draw_rejection_has_no_effect_witness:
  "CreditLineService_draw memLines passthroughTransactionRunner int ''T1'' ''L1'' ''GA'' ''901'' exampleState =
     (Inl (Error ''Credit limit exceeded''), exampleState) \<and>
   CreditLineService_drawCheck (repo_findById memLines (ss_lines exampleState) ''L1'') ''GA'' ''901'' =
     Inl (Error ''Credit limit exceeded'')"
proof -
  have "CreditLineService_draw memLines passthroughTransactionRunner int ''T1'' ''L1'' ''GA'' ''901'' exampleState =
      (Inl (Error ''Credit limit exceeded''), exampleState)"
    using exampleLine_overdraw by (intro mem.draw_rejected) (simp only: exampleState_find)
  from this draw_rejection_has_no_effect [OF this] show ?thesis by blast
qed

text \<open>
  A successful draw is paired with the ledger and announced: exactly one pending \<open>borrow\<close> row with the
  requested amount is appended to the ledger, the bus receives \<open>credit.draw_requested\<close> and then
  \<open>credit.draw_confirmed\<close> carrying the stored utilized amount, and every other line is untouched.
\<close>

theorem draw_writes_ledger_and_events:
  assumes "ss_ledger st = Some txs" "\<not> jsmap_has txs u" "ss_published st = Some evs"
    and "CreditLineService_draw (inMemoryCreditLines lc) passthroughTransactionRunner clk u i b amount st = (Inr l', st')"
  shows "ss_ledger st' = Some (txs @ [(u, \<lparr>tx_id = u, tx_creditLineId = i, tx_walletAddress = [], tx_amount = amount,
            tx_type = BORROW, tx_status = PENDING, tx_blockchainTxHash = None, tx_createdAt = clk 1,
            tx_processedAt = None\<rparr>)]) \<and>
     (\<exists>e1 e2. ss_published st' = Some (evs @ [e1, e2]) \<and> ev_type e1 = ''credit.draw_requested'' \<and>
        ev_type e2 = ''credit.draw_confirmed'' \<and> map_of (ev_payload e2) ''utilized'' = Some (cl_utilized l') \<and>
        map_of (ev_payload e1) ''amount'' = Some amount) \<and>
     (\<forall>j. j \<noteq> i \<longrightarrow> repo_findById (inMemoryCreditLines lc) (ss_lines st') j =
                      repo_findById (inMemoryCreditLines lc) (ss_lines st) j)"
proof -
  let ?c = "CreditLineService_drawCheck (repo_findById (inMemoryCreditLines lc) (ss_lines st) i) b amount"
  obtain line nu where chk: "?c = Inr (line, nu)"
    using mem.draw_rejected [of lc st i b amount] assms(4) by (cases ?c) auto
  note a = mem.draw_accepted [OF chk, of clk u, unfolded assms(4) fst_conv snd_conv]
  show ?thesis
    using a assms(1,2,3)
    by (auto simp: repo_defs Let_def jsmap_set_new drawRequested_def balanceConfirmed_def simp del: One_nat_def)
qed

theorem draw_writes_ledger_and_events_witness:
  "\<exists>l' st'. CreditLineService_draw memLines passthroughTransactionRunner int ''T1'' ''L1'' ''GA'' ''250'' exampleState = (Inr l', st') \<and>
     map (tx_amount \<circ> snd) (the (ss_ledger st')) = [''250''] \<and>
     map ev_type (the (ss_published st')) = [''credit.draw_requested'', ''credit.draw_confirmed'']"
proof -
  let ?out = "CreditLineService_draw memLines passthroughTransactionRunner int ''T1'' ''L1'' ''GA'' ''250'' exampleState"
  have "fst ?out = Inr (withUtilized exampleLine (num_toString (Fin 350)) 2)"
    using mem.draw_accepted(1) [of code_unit_compare exampleState "''L1''" "''GA''" "''250''" exampleLine _ int "''T1''"]
      exampleLine_drawCheck by (simp only: exampleState_find of_nat_numeral)
  then obtain l' st' where out: "?out = (Inr l', st')" by (metis prod.collapse)
  have "ss_ledger exampleState = Some []" "\<not> jsmap_has [] ''T1''" "ss_published exampleState = Some []"
    by (simp_all add: exampleState_def jsmap_has_def)
  from draw_writes_ledger_and_events [OF this out] out show ?thesis by auto
qed

text \<open>
  C14. A repayment with a positive finite amount always succeeds on an existing line in order: the utilized
  amount shrinks, is floored at zero, and the line stays in order. The wallet argument is not consulted:
  the outcome is the same for every wallet.
\<close>

theorem repay_floors_at_zero:
  assumes "repo_findById (inMemoryCreditLines lc) (ss_lines st) i = Some line" "line_ok line"
    and "parseFloat amount = Fin a" "0 < a"
  shows "\<exists>l' st'. (\<forall>w. CreditLineService_repay (inMemoryCreditLines lc) passthroughTransactionRunner clk u i w amount st = (Inr l', st')) \<and>
     repo_findById (inMemoryCreditLines lc) (ss_lines st') i = Some l' \<and> line_ok l' \<and>
     utilizedNum l' = num_max (Fin 0) (num_sub (utilizedNum line) (Fin a)) \<and>
     num_le (Fin 0) (utilizedNum l') \<and> num_le (utilizedNum l') (utilizedNum line)"
proof -
  let ?nu = "num_max (Fin 0) (num_sub (utilizedNum line) (Fin a))"
  let ?l = "withUtilized line (num_toString ?nu) (clk 1)"
  let ?out = "\<lambda>w. CreditLineService_repay (inMemoryCreditLines lc) passthroughTransactionRunner clk u i w amount st"
  note r = mem.repay_accepted [OF assms(1,3,4), of clk u]
  obtain U U' where U: "utilizedNum line = Fin U" "?nu = Fin U'" "0 \<le> U'" "U' \<le> U" "is_double (Fin U')"
    using mem.repay_line_ok(2) [OF assms(2,4)] by blast
  have same: "?out w = ?out []" for w by (simp add: CreditLineService_repay_def)
  have "?out w = (Inr ?l, snd (?out []))" for w
    unfolding same [of w] using r(1) by (simp only: prod_eq_iff fst_conv snd_conv simp_thms)
  moreover have "utilizedNum ?l = ?nu" unfolding U(2) by (rule withUtilized_utilizedNum [OF U(5)])
  moreover have "repo_findById (inMemoryCreditLines lc) (ss_lines (snd (?out []))) i = Some ?l"
    using r(2) [of "[]" i] by (simp only: if_True simp_thms)
  moreover have "num_le (Fin 0) ?nu" "num_le ?nu (utilizedNum line)"
    unfolding U(2) unfolding U(1) using U(3,4) by simp_all
  ultimately show ?thesis using mem.repay_line_ok(1) [OF assms(2,4), of "clk 1"] by metis
qed

theorem repay_floors_at_zero_witness:
  "\<exists>l' st'. CreditLineService_repay memLines passthroughTransactionRunner int ''T1'' ''L1'' ''GB'' ''250'' exampleState = (Inr l', st') \<and>
     utilizedNum l' = Fin 0 \<and> line_ok l'"
proof -
  have "parseFloat ''250'' = Fin 250" "(0 :: rat) < 250" by (simp_all add: parse_literal)
  from repay_floors_at_zero [OF exampleState_find exampleLine_ok(1) this, of code_unit_compare int "''T1''"]
  obtain l' st' where "CreditLineService_repay memLines passthroughTransactionRunner int ''T1'' ''L1'' ''GB'' ''250'' exampleState = (Inr l', st')"
    and "line_ok l'" and u: "utilizedNum l' = num_max (Fin 0) (num_sub (utilizedNum exampleLine) (Fin 250))" by blast
  moreover have "num_sub (Fin 100) (Fin 250) = Fin (- 150)" using dround_uminus [of 150] by simp
  then have "utilizedNum l' = Fin 0" by (simp add: u exampleLine_ok(2) num_max_def del: num_sub_Fin)
  ultimately show ?thesis by blast
qed

section \<open>Creation\<close>

lemma create_accepted:
  assumes "ccr_walletAddress req \<noteq> []" "ccr_creditLimit req \<noteq> []"
    and "\<not> num_le (parseFloat (ccr_creditLimit req)) (Fin 0)"
    and "\<not> num_lt (ccr_interestRateBps req) (Fin 0)" "\<not> num_gt (ccr_interestRateBps req) (Fin 10000)"
  shows "CreditLineService_createCreditLine (inMemoryCreditLines lc) passthroughTransactionRunner clk u req st =
     (let l = fst (InMemoryCreditLineRepository_create req u (clk 0) (ss_lines st))
      in (Inr l, CreditLineService_emit
            \<lparr>ev_type = ''credit.opened'', ev_occurredAt = clk 1, ev_creditLineId = u,
             ev_payload = [(''walletAddress'', ccr_walletAddress req), (''creditLimit'', ccr_creditLimit req)]\<rparr>
            (st\<lparr>ss_lines := jsmap_set u l (ss_lines st)\<rparr>)))"
  using assms
  by (simp add: CreditLineService_createCreditLine_def passthroughTransactionRunner_def inMemoryCreditLines_def
        InMemoryCreditLineRepository_create_def Let_def)

lemma create_rejected:
  assumes "ccr_walletAddress req = [] \<or> ccr_creditLimit req = [] \<or> num_le (parseFloat (ccr_creditLimit req)) (Fin 0) \<or>
     num_lt (ccr_interestRateBps req) (Fin 0) \<or> num_gt (ccr_interestRateBps req) (Fin 10000)"
  shows "\<exists>e. CreditLineService_createCreditLine R run clk u req st = (Inl e, st)"
  using assms by (auto simp: CreditLineService_createCreditLine_def)

text \<open>
  \<open>createCreditLine\<close> succeeds exactly on requests with a wallet, a limit whose number is not below or
  equal to zero, and a rate not outside 0..10000; a rejected request changes nothing. A created line is
  stored under its fresh identifier with version 1, fully available, and is in order when the limit is
  a finite number.
\<close>

theorem createCreditLine_outcome:
  "(case CreditLineService_createCreditLine (inMemoryCreditLines lc) passthroughTransactionRunner clk u req st of
      (Inl e, st') \<Rightarrow> st' = st \<and>
        (ccr_walletAddress req = [] \<or> ccr_creditLimit req = [] \<or> num_le (parseFloat (ccr_creditLimit req)) (Fin 0) \<or>
         num_lt (ccr_interestRateBps req) (Fin 0) \<or> num_gt (ccr_interestRateBps req) (Fin 10000))
    | (Inr l, st') \<Rightarrow> repo_findById (inMemoryCreditLines lc) (ss_lines st') u = Some l \<and> cl_id l = u \<and>
        cl_version l = Some 1 \<and> cl_status l = ACTIVE \<and> cl_utilized l = ''0'' \<and>
        cl_availableCredit l = cl_creditLimit l \<and> cl_creditLimit l = ccr_creditLimit req \<and>
        (line_ok l \<longleftrightarrow> num_isFinite (parseFloat (ccr_creditLimit req))))"
proof (cases "ccr_walletAddress req = [] \<or> ccr_creditLimit req = [] \<or> num_le (parseFloat (ccr_creditLimit req)) (Fin 0) \<or>
     num_lt (ccr_interestRateBps req) (Fin 0) \<or> num_gt (ccr_interestRateBps req) (Fin 10000)")
  case True
  then obtain e where "CreditLineService_createCreditLine (inMemoryCreditLines lc) passthroughTransactionRunner clk u req st = (Inl e, st)"
    using create_rejected [OF True] by blast
  with True show ?thesis by simp
next
  case False
  define l where "l = fst (InMemoryCreditLineRepository_create req u (clk 0) (ss_lines st))"
  have sel: "cl_id l = u" "cl_version l = Some 1" "cl_status l = ACTIVE" "cl_utilized l = ''0''"
    "cl_availableCredit l = cl_creditLimit l" "cl_creditLimit l = ccr_creditLimit req"
    by (simp_all add: l_def InMemoryCreditLineRepository_create_def Let_def)
  have dd: "is_double (parseFloat (ccr_creditLimit req))" by simp
  have "line_ok l \<longleftrightarrow> num_isFinite (parseFloat (ccr_creditLimit req))"
    using False dround_id dd by (cases "parseFloat (ccr_creditLimit req)") (auto simp: line_ok_def utilizedNum_def sel simp del: is_double.simps)
  moreover have "jsmap_get (jsmap_set u l (ss_lines st)) u = Some l" by simp
  ultimately show ?thesis
    using False sel by (subst create_accepted) (auto simp: Let_def l_def [symmetric] inMemoryCreditLines_def InMemoryCreditLineRepository_findById_def)
qed

text \<open>
  The limit check compares with \<open>parseFloat(limit) <= 0\<close>, which is false for a limit that is not a
  number. Such a line is created, and every later draw of a positive finite amount passes the limit
  check: its utilization is unbounded.
\<close>

theorem unparsable_limit_is_unlimited:
  assumes "parseFloat (ccr_creditLimit req) = NaN" "ccr_creditLimit req \<noteq> []" "ccr_walletAddress req \<noteq> []"
    and "\<not> num_lt (ccr_interestRateBps req) (Fin 0)" "\<not> num_gt (ccr_interestRateBps req) (Fin 10000)"
  shows "\<exists>l st'. CreditLineService_createCreditLine (inMemoryCreditLines lc) passthroughTransactionRunner clk u req st = (Inr l, st') \<and>
     (\<forall>amount a. parseFloat amount = Fin a \<and> 0 < a \<longrightarrow>
        (\<exists>nu. CreditLineService_drawCheck (Some l) (ccr_walletAddress req) amount = Inr (l, nu)))"
  using assms
  by (subst create_accepted)
     (auto simp: CreditLineService_drawCheck_def InMemoryCreditLineRepository_create_def Let_def)

theorem unparsable_limit_is_unlimited_witness:
  "\<exists>l st'. CreditLineService_createCreditLine memLines passthroughTransactionRunner int ''L2''
       \<lparr>ccr_walletAddress = ''GA'', ccr_creditLimit = ''abc'', ccr_interestRateBps = Fin 500\<rparr> exampleState = (Inr l, st') \<and>
     (\<exists>nu. CreditLineService_drawCheck (Some l) ''GA'' ''999999999'' = Inr (l, nu))"
proof -
  have nan: "parseFloat ''abc'' = NaN"
    by (simp add: parseFloat_def js_trim_start_def is_ws_def parse_magnitude_def starts_with_def is_digit_def parse_fraction_def)
  have big: "parseFloat ''999999999'' = Fin 999999999 \<and> (0 :: rat) < 999999999" by (simp add: parse_literal)
  let ?req = "\<lparr>ccr_walletAddress = ''GA'', ccr_creditLimit = ''abc'', ccr_interestRateBps = Fin 500\<rparr>"
  from unparsable_limit_is_unlimited [of ?req code_unit_compare int "''L2''" exampleState] nan
  obtain l st' where "CreditLineService_createCreditLine memLines passthroughTransactionRunner int ''L2'' ?req exampleState = (Inr l, st')"
    and "\<And>amount a. parseFloat amount = Fin a \<and> 0 < a \<Longrightarrow> \<exists>nu. CreditLineService_drawCheck (Some l) ''GA'' amount = Inr (l, nu)"
    by (auto simp: num_gt_def)
  with big show ?thesis by blast
qed

section \<open>Atomicity of the transaction boundary\<close>

text \<open>
  C19. \<open>withTransaction\<close> on a database client is all-or-nothing. Of the client it uses only that a
  successful \<open>BEGIN\<close> remembers the committed tables, that statements inside and a failing \<open>COMMIT\<close> leave
  that memory alone, and that \<open>ROLLBACK\<close> returns to it: then any failure (of \<open>BEGIN\<close>, of the work, of
  \<open>COMMIT\<close>) ends with the tables of the start, and a success returns the result of the work after \<open>COMMIT\<close>.
\<close>

theorem withTransaction_atomic:
  assumes begin_: "\<And>s r s'. query ''BEGIN'' s = (r, s') \<Longrightarrow> tables s' = tables s \<and> (r = Inr () \<longrightarrow> saved s' = tables s)"
    and work_: "\<And>s r s'. work s = (r, s') \<Longrightarrow> saved s' = saved s"
    and commit_: "\<And>s e s'. query ''COMMIT'' s = (Inl e, s') \<Longrightarrow> saved s' = saved s"
    and rollback_: "\<And>s. tables (snd (query ''ROLLBACK'' s)) = saved s"
    and run: "withTransaction (Some query) work s = (res, s')"
  shows "(\<forall>e. res = Inl e \<longrightarrow> tables s' = tables s) \<and>
     (\<forall>r. res = Inr r \<longrightarrow> (\<exists>s1 s2. query ''BEGIN'' s = (Inr (), s1) \<and> work s1 = (Inr r, s2) \<and> query ''COMMIT'' s2 = (Inr (), s')))"
proof -
  obtain rb s1 where b: "query ''BEGIN'' s = (rb, s1)" by force
  obtain rw s2 where w: "work s1 = (rw, s2)" by force
  obtain rc s3 where c: "query ''COMMIT'' s2 = (rc, s3)" by force
  show ?thesis
    using run begin_ [OF b] work_ [OF w] commit_ [of s2 _ s3] c rollback_
    by (cases rb; cases rw; cases rc) (auto simp: withTransaction_def b w c)
qed

theorem withTransaction_atomic_witness:
  "let query = (\<lambda>q (t :: nat, sv :: nat). if q = ''BEGIN'' then (Inr (), (t, t)) else if q = ''ROLLBACK'' then (Inr (), (sv, sv))
                 else (Inr (), (t, sv)));
       work = (\<lambda>(t, sv). (Inl (Error ''Credit line not found''), (t + 1, sv)))
   in withTransaction (Some query) work (5, 0) = (Inl (Error ''Credit line not found'') :: js_error + nat, (5, 5))"
proof -
  let ?query = "\<lambda>q (t :: nat, sv :: nat). if q = ''BEGIN'' then (Inr (), (t, t)) else if q = ''ROLLBACK'' then (Inr (), (sv, sv))
                 else (Inr (), (t, sv))"
  let ?work = "\<lambda>(t :: nat, sv :: nat). (Inl (Error ''Credit line not found'') :: js_error + nat, (t + 1, sv))"
  have run: "withTransaction (Some ?query) ?work (5, 0) = (Inl (Error ''Credit line not found''), (5, 5))"
    by (simp add: withTransaction_def)
  have "\<forall>e. (Inl (Error ''Credit line not found'') :: js_error + nat) = Inl e \<longrightarrow> fst (5 :: nat, 5 :: nat) = fst (5 :: nat, 0 :: nat)"
    by (rule withTransaction_atomic [of ?query fst snd ?work, OF _ _ _ _ run, THEN conjunct1]) (auto split: prod.splits if_splits)
  with run show ?thesis by (simp only: Let_def)
qed

end
