(* ===== verification/DrawConcurrency.thy ===== *)
theory DrawConcurrency
  imports CreditLineService
begin

text \<open>
  Interleaved draws on the in-memory wiring. JavaScript runs a request in blocks between its awaits:
  \<open>CreditLineService.draw\<close> reads the line (\<open>await findById\<close>), then checks, announces and writes the ledger row
  (\<open>await transactionRepository.create\<close>), then writes the balance (\<open>await creditLineRepository.update\<close>),
  then announces the confirmation. \<open>draw_block\<close> is one such block, \<open>draw_step\<close> lets any pending request
  run its next block.

  Shown: the four blocks in a row are \<open>CreditLineService_draw\<close>; in every interleaving of any number of draws
  each stored line stays in order; but two interleaved draws can both be confirmed and booked in the ledger
  while the balance keeps only one of them, so the sum of confirmed draws may exceed the limit.
\<close>

datatype draw_pc =
    DrawStart
  | DrawRead "CreditLine option"
  | DrawLedgered CreditLine string
  | DrawUpdated CreditLine CreditLine
  | DrawDone "js_error + CreditLine"

record draw_call =
  dc_lineId :: string
  dc_borrowerId :: string
  dc_amount :: string
  dc_uuid :: string
  dc_clk :: "nat \<Rightarrow> time"
  dc_pc :: draw_pc

type_synonym mem_state = "creditLineRepo service_state"

definition draw_block :: "draw_call \<Rightarrow> mem_state \<Rightarrow> draw_call \<times> mem_state" where
  "draw_block c st =
     (case dc_pc c of
        DrawStart \<Rightarrow> (c\<lparr>dc_pc := DrawRead (repo_findById memLines (ss_lines st) (dc_lineId c))\<rparr>, st)
      | DrawRead found \<Rightarrow>
          (case CreditLineService_drawCheck found (dc_borrowerId c) (dc_amount c) of
             Inl e \<Rightarrow> (c\<lparr>dc_pc := DrawDone (Inl e)\<rparr>, st)
           | Inr (line, newUtilized) \<Rightarrow>
               (c\<lparr>dc_pc := DrawLedgered line newUtilized\<rparr>,
                CreditLineService_ledgerWrite (dc_lineId c) (dc_amount c) BORROW (dc_uuid c) (dc_clk c 1)
                  (CreditLineService_emit (drawRequested line (dc_lineId c) (dc_amount c) (dc_clk c 0)) st)))
      | DrawLedgered line newUtilized \<Rightarrow>
          (case CreditLineService_balanceWrite memLines (dc_lineId c) newUtilized (dc_clk c 2) st of
             (Inl e, st') \<Rightarrow> (c\<lparr>dc_pc := DrawDone (Inl e)\<rparr>, st')
           | (Inr updated, st') \<Rightarrow> (c\<lparr>dc_pc := DrawUpdated line updated\<rparr>, st'))
      | DrawUpdated line updated \<Rightarrow>
          (c\<lparr>dc_pc := DrawDone (Inr updated)\<rparr>,
           CreditLineService_emit
             (balanceConfirmed ''credit.draw_confirmed'' line (dc_lineId c) (dc_amount c) updated (dc_clk c 3)) st)
      | DrawDone _ \<Rightarrow> (c, st))"

inductive draw_step :: "draw_call list \<times> mem_state \<Rightarrow> draw_call list \<times> mem_state \<Rightarrow> bool" where
  run_block: "i < length cs \<Longrightarrow> draw_block (cs ! i) st = (c', st') \<Longrightarrow> draw_step (cs, st) (cs[i := c'], st')"

inductive_cases draw_stepE: "draw_step (cs, st) (cs', st')"

text \<open>A schedule is a list of request numbers; it is run block by block.\<close>

fun run_schedule :: "nat list \<Rightarrow> draw_call list \<times> mem_state \<Rightarrow> draw_call list \<times> mem_state" where
  "run_schedule [] s = s"
| "run_schedule (i # is) (cs, st) =
     (if i < length cs then let (c', st') = draw_block (cs ! i) st in run_schedule is (cs[i := c'], st')
      else run_schedule is (cs, st))"

lemma run_schedule_steps: "draw_step\<^sup>*\<^sup>* s (run_schedule is s)"
proof (induction "is" s rule: run_schedule.induct)
  case (2 i "is" cs st)
  show ?case
  proof (cases "i < length cs")
    case True
    obtain c' st' where b: "draw_block (cs ! i) st = (c', st')" by force
    have "draw_step (cs, st) (cs[i := c'], st')" using True b by (rule run_block)
    with 2(1) [OF True b [symmetric] refl] True b show ?thesis
      by (auto intro: converse_rtranclp_into_rtranclp)
  next
    case False
    with 2(2) show ?thesis by simp
  qed
qed simp

section \<open>A request alone\<close>

definition draw_run :: "draw_call \<Rightarrow> mem_state \<Rightarrow> draw_call \<times> mem_state" where
  "draw_run c st =
     (let (c1, s1) = draw_block c st; (c2, s2) = draw_block c1 s1; (c3, s3) = draw_block c2 s2 in draw_block c3 s3)"

text \<open>
  Run without interference, the four blocks of a draw request compute exactly what \<open>draw\<close> returns and
  leave the state \<open>draw\<close> leaves.
\<close>

theorem draw_blocks_refine_draw:
  assumes "dc_pc c = DrawStart"
  shows "(case draw_run c st of (c', st') \<Rightarrow> (dc_pc c', st')) =
     (case CreditLineService_draw memLines passthroughTransactionRunner (dc_clk c) (dc_uuid c) (dc_lineId c)
             (dc_borrowerId c) (dc_amount c) st of (res, st') \<Rightarrow> (DrawDone res, st'))"
  using assms
  by (auto simp: draw_run_def draw_block_def CreditLineService_draw_def passthroughTransactionRunner_def Let_def
        split: sum.splits prod.splits option.splits)

definition exampleCall :: "string \<Rightarrow> string \<Rightarrow> draw_call" where
  "exampleCall amount uuid = \<lparr>dc_lineId = ''L1'', dc_borrowerId = ''GA'', dc_amount = amount, dc_uuid = uuid,
     dc_clk = int, dc_pc = DrawStart\<rparr>"

theorem draw_blocks_refine_draw_witness:
  "dc_pc (exampleCall ''901'' ''T1'') = DrawStart \<and>
   (case draw_run (exampleCall ''901'' ''T1'') exampleState of (c', st') \<Rightarrow> (dc_pc c', st')) =
     (DrawDone (Inl (Error ''Credit limit exceeded'')), exampleState)"
proof -
  have s: "dc_pc (exampleCall ''901'' ''T1'') = DrawStart" by (simp add: exampleCall_def)
  have "CreditLineService_draw memLines passthroughTransactionRunner int ''T1'' ''L1'' ''GA'' ''901'' exampleState =
      (Inl (Error ''Credit limit exceeded''), exampleState)"
    using exampleLine_overdraw by (intro mem.draw_rejected) (simp only: exampleState_find)
  with draw_blocks_refine_draw [OF s, of exampleState] s show ?thesis by (simp add: exampleCall_def)
qed

section \<open>Every interleaving keeps the lines in order\<close>

abbreviation lineOf :: "mem_state \<Rightarrow> string \<Rightarrow> CreditLine option" where
  "lineOf st i \<equiv> repo_findById memLines (ss_lines st) i"

definition call_ok :: "mem_state \<Rightarrow> draw_call \<Rightarrow> bool" where
  "call_ok st c =
     (case dc_pc c of
        DrawRead (Some l) \<Rightarrow> line_ok l \<and> map_option cl_creditLimit (lineOf st (dc_lineId c)) = Some (cl_creditLimit l)
      | DrawLedgered l nu \<Rightarrow> map_option cl_creditLimit (lineOf st (dc_lineId c)) = Some (cl_creditLimit l) \<and>
          (\<exists>L U. parseFloat (cl_creditLimit l) = Fin L \<and> 0 < L \<and> nu = num_toString (Fin U) \<and> is_double (Fin U) \<and> 0 \<le> U \<and> U \<le> L)
      | _ \<Rightarrow> True)"

definition draws_ok :: "draw_call list \<times> mem_state \<Rightarrow> bool" where
  "draws_ok s \<longleftrightarrow> (\<forall>i l. lineOf (snd s) i = Some l \<longrightarrow> line_ok l) \<and> (\<forall>c \<in> set (fst s). call_ok (snd s) c)"

lemma balanceWrite_limit:
  assumes "CreditLineService_balanceWrite memLines i nu t st = (r, st')"
  shows "map_option cl_creditLimit (lineOf st' j) = map_option cl_creditLimit (lineOf st j)"
proof (cases "lineOf st i")
  case None
  then show ?thesis using mem.balanceWrite_missing [OF None, of nu t] assms by simp
next
  case (Some l)
  then show ?thesis using mem.balanceWrite_found [OF Some, of nu t] assms by (auto simp: emptyUpdate_def)
qed

lemma draw_block_limit:
  assumes "draw_block c st = (c', st')"
  shows "map_option cl_creditLimit (lineOf st' j) = map_option cl_creditLimit (lineOf st j)"
  using assms
  by (auto simp: draw_block_def balanceWrite_limit split: draw_pc.splits sum.splits prod.splits)

lemma call_ok_mono:
  assumes "call_ok st c" "\<And>j. map_option cl_creditLimit (lineOf st' j) = map_option cl_creditLimit (lineOf st j)"
  shows "call_ok st' c"
  using assms(1) unfolding call_ok_def assms(2) .

lemma draw_block_ok:
  assumes rows: "\<And>i l. lineOf st i = Some l \<Longrightarrow> line_ok l" and c: "call_ok st c"
    and b: "draw_block c st = (c', st')"
  shows "call_ok st' c'" and "lineOf st' i = Some l \<Longrightarrow> line_ok l"
proof -
  have "call_ok st' c' \<and> (lineOf st' i = Some l \<longrightarrow> line_ok l)"
  proof (cases "dc_pc c")
    case DrawStart
    then show ?thesis using b rows by (auto simp: draw_block_def call_ok_def split: option.splits)
  next
    case (DrawRead found)
    show ?thesis
    proof (cases "CreditLineService_drawCheck found (dc_borrowerId c) (dc_amount c)")
      case (Inl e)
      then show ?thesis using b rows DrawRead by (auto simp: draw_block_def call_ok_def)
    next
      case (Inr p)
      obtain line nu where p: "p = (line, nu)" by force
      have f: "found = Some line" using mem.drawCheck_line Inr p by blast
      then have l: "line_ok line" "map_option cl_creditLimit (lineOf st (dc_lineId c)) = Some (cl_creditLimit line)"
        using c DrawRead by (simp_all add: call_ok_def)
      obtain L U where "parseFloat (cl_creditLimit line) = Fin L" "0 < L" "nu = num_toString (Fin U)" "is_double (Fin U)" "0 \<le> U" "U \<le> L"
        using drawCheck_sound [OF l(1), of "dc_borrowerId c" "dc_amount c" line nu] Inr p f by (metis order_trans)
      then have "call_ok st (c\<lparr>dc_pc := DrawLedgered line nu\<rparr>)" using l by (auto simp: call_ok_def)
      then show ?thesis using b rows DrawRead Inr p by (auto simp: draw_block_def call_ok_def)
    qed
  next
    case (DrawLedgered line nu)
    then obtain L U l0 where n: "parseFloat (cl_creditLimit line) = Fin L" "0 < L" "nu = num_toString (Fin U)" "is_double (Fin U)" "0 \<le> U" "U \<le> L"
      and l0: "lineOf st (dc_lineId c) = Some l0" "cl_creditLimit l0 = cl_creditLimit line"
      using c by (auto simp: call_ok_def simp del: is_double.simps num_toString.simps)
    from mem.balanceWrite_found [OF l0(1), of nu "dc_clk c 2"] obtain ls where
      w: "CreditLineService_balanceWrite memLines (dc_lineId c) nu (dc_clk c 2) st = (Inr (withUtilized l0 nu (dc_clk c 2)), st\<lparr>ss_lines := ls\<rparr>)"
      and ls: "\<And>j. repo_findById memLines ls j = (if j = dc_lineId c then Some (withUtilized l0 nu (dc_clk c 2)) else lineOf st j)"
      by blast
    have "line_ok (withUtilized l0 nu (dc_clk c 2))" unfolding n(3)
      by (rule line_ok_withUtilized [of _ L]) (use n l0 in \<open>simp_all del: is_double.simps\<close>)
    then show ?thesis using b rows w ls DrawLedgered by (auto simp: draw_block_def call_ok_def split: if_splits)
  qed (use b rows in \<open>auto simp: draw_block_def call_ok_def\<close>)
  then show "call_ok st' c'" "lineOf st' i = Some l \<Longrightarrow> line_ok l" by auto
qed

lemma draws_ok_step:
  assumes "draw_step s s'" "draws_ok s"
  shows "draws_ok s'"
  using assms
proof cases
  case (run_block i cs st c' st')
  have c: "call_ok st (cs ! i)" and rows: "\<And>i l. lineOf st i = Some l \<Longrightarrow> line_ok l"
    using assms(2) run_block by (simp_all add: draws_ok_def)
  have "call_ok st' d" if "d \<in> set (cs[i := c'])" for d
  proof (cases "d = c'")
    case False
    then have "d \<in> set cs" using that set_update_subset_insert by fastforce
    then show ?thesis using assms(2) run_block draw_block_limit call_ok_mono by (metis draws_ok_def fst_conv snd_conv)
  next
    case True
    show ?thesis unfolding True by (rule draw_block_ok(1) [OF _ c run_block(4)]) (rule rows)
  qed
  moreover have "line_ok l" if "lineOf st' j = Some l" for j l
    by (rule draw_block_ok(2) [OF _ c run_block(4) that]) (rule rows)
  ultimately show ?thesis by (simp add: draws_ok_def run_block)
qed

text \<open>
  C2. In every interleaving of any number of draw requests, started on rows that are in order, every stored row
  stays in order: its utilized amount never exceeds its limit and its available credit is their difference.
\<close>

theorem interleaved_draws_keep_rows:
  assumes "draw_step\<^sup>*\<^sup>* (cs, st) (cs', st')"
    and "\<And>c. c \<in> set cs \<Longrightarrow> dc_pc c = DrawStart"
    and "\<And>i l. lineOf st i = Some l \<Longrightarrow> line_ok l"
    and "lineOf st' i = Some l"
  shows "line_ok l"
proof -
  have "draws_ok s' " if "draw_step\<^sup>*\<^sup>* s s'" "draws_ok s" for s s'
    using that by (induction rule: rtranclp_induct) (auto intro: draws_ok_step)
  moreover have "draws_ok (cs, st)" using assms(2,3) by (auto simp: draws_ok_def call_ok_def)
  ultimately have "draws_ok (cs', st')" using assms(1) by blast
  then show ?thesis using assms(4) by (simp add: draws_ok_def)
qed

lemma exampleState_rows: "lineOf exampleState i = Some l \<Longrightarrow> line_ok l"
  using exampleLine_ok(1)
  by (simp add: exampleState_def inMemoryCreditLines_def repo_defs split: if_splits)

lemma exampleLine_draw600:
  "CreditLineService_drawCheck (Some exampleLine) ''GA'' ''600'' = Inr (exampleLine, num_toString (Fin 700))"
  by (simp add: CreditLineService_drawCheck_def exampleLine_ok(2) Let_def)
     (simp add: exampleLine_def parse_literal)

definition racedLine :: CreditLine where
  "racedLine = withUtilized (withUtilized exampleLine (num_toString (Fin 700)) 2) (num_toString (Fin 700)) 2"

lemma racedLine_utilized: "utilizedNum racedLine = Fin 700"
  unfolding racedLine_def by (rule withUtilized_utilizedNum) (use dround_double [of 700] in simp)

lemma balanceWrite_mem:
  "jsmap_get (ss_lines st) i = Some l \<Longrightarrow> CreditLineService_balanceWrite memLines i nu t st =
     (Inr (withUtilized l nu t), st\<lparr>ss_lines := jsmap_set i (withUtilized l nu t) (ss_lines st)\<rparr>)"
  by (simp add: CreditLineService_balanceWrite_def inMemoryCreditLines_def repo_defs emptyUpdate_def Let_def)

lemma raced_schedule:
  "\<exists>u v st'. run_schedule [0, 1, 0, 1, 0, 1, 0, 1] ([exampleCall ''600'' ''T1'', exampleCall ''600'' ''T2''], exampleState) =
     ([(exampleCall ''600'' ''T1'')\<lparr>dc_pc := DrawDone (Inr u)\<rparr>, (exampleCall ''600'' ''T2'')\<lparr>dc_pc := DrawDone (Inr v)\<rparr>], st') \<and>
     lineOf st' ''L1'' = Some racedLine \<and> map (tx_amount \<circ> snd) (the (ss_ledger st')) = [''600'', ''600'']"
  using exampleLine_draw600
  by (simp add: draw_block_def exampleCall_def exampleState_find [unfolded exampleState_def, simplified] exampleState_def
        inMemoryCreditLines_def InMemoryCreditLineRepository_findById_def balanceWrite_mem [unfolded inMemoryCreditLines_def]
        CreditLineService_ledgerWrite_def CreditLineService_emit_def InMemoryTransactionRepository_create_def
        racedLine_def Let_def)

theorem interleaved_draws_keep_rows_witness:
  "\<exists>cs' st'. draw_step\<^sup>*\<^sup>* ([exampleCall ''600'' ''T1'', exampleCall ''600'' ''T2''], exampleState) (cs', st') \<and>
     lineOf st' ''L1'' = Some racedLine \<and> line_ok racedLine"
proof -
  obtain cs' st' where r: "run_schedule [0, 1, 0, 1, 0, 1, 0, 1] ([exampleCall ''600'' ''T1'', exampleCall ''600'' ''T2''], exampleState) = (cs', st')"
    and l: "lineOf st' ''L1'' = Some racedLine" using raced_schedule by blast
  have steps: "draw_step\<^sup>*\<^sup>* ([exampleCall ''600'' ''T1'', exampleCall ''600'' ''T2''], exampleState) (cs', st')"
    unfolding r [symmetric] by (rule run_schedule_steps)
  have "line_ok racedLine"
    by (rule interleaved_draws_keep_rows [OF steps _ exampleState_rows l]) (auto simp: exampleCall_def)
  with steps l show ?thesis by blast
qed

text \<open>
  Two interleaved draws are not serialised: from a line with limit 1000 and 100 utilized, two draws of 600
  can both be confirmed and booked in the ledger (1300 in total, above the limit), while the stored balance
  shows 700: the second write overwrites the first, since \<open>draw\<close> passes no \<open>expectedVersion\<close>.
\<close>

theorem interleaved_draws_lose_an_update:
  "\<exists>cs' st'. draw_step\<^sup>*\<^sup>* ([exampleCall ''600'' ''T1'', exampleCall ''600'' ''T2''], exampleState) (cs', st') \<and>
     list_all (\<lambda>c. \<exists>l. dc_pc c = DrawDone (Inr l)) cs' \<and> length cs' = 2 \<and>
     map (tx_amount \<circ> snd) (the (ss_ledger st')) = [''600'', ''600''] \<and>
     (\<exists>l. lineOf st' ''L1'' = Some l \<and> utilizedNum l = Fin 700)"
proof -
  obtain u v st' where r: "run_schedule [0, 1, 0, 1, 0, 1, 0, 1] ([exampleCall ''600'' ''T1'', exampleCall ''600'' ''T2''], exampleState) =
     ([(exampleCall ''600'' ''T1'')\<lparr>dc_pc := DrawDone (Inr u)\<rparr>, (exampleCall ''600'' ''T2'')\<lparr>dc_pc := DrawDone (Inr v)\<rparr>], st')"
    and l: "lineOf st' ''L1'' = Some racedLine" "map (tx_amount \<circ> snd) (the (ss_ledger st')) = [''600'', ''600'']"
    using raced_schedule by (elim exE conjE) (rule that)
  have "draw_step\<^sup>*\<^sup>* ([exampleCall ''600'' ''T1'', exampleCall ''600'' ''T2''], exampleState)
     ([(exampleCall ''600'' ''T1'')\<lparr>dc_pc := DrawDone (Inr u)\<rparr>, (exampleCall ''600'' ''T2'')\<lparr>dc_pc := DrawDone (Inr v)\<rparr>], st')"
    unfolding r [symmetric] by (rule run_schedule_steps)
  then show ?thesis using l racedLine_utilized
    by (intro exI conjI) (assumption | simp)+
qed

end
