(* ===== verification/JobQueue.thy ===== *)
theory JobQueue
  imports Prelude
begin

text \<open>
  The in-memory job queue (\<open>src/services/jobQueue.ts\<close>).

  A handler is a function of the job and of the world \<open>'w\<close> (everything outside the queue, the clock
  included): it may enqueue jobs, it returns or throws, and it leaves a new world. \<open>Date.now()\<close> is a
  function \<open>now\<close> of the world. \<open>InMemoryJobQueue_processTick\<close> and \<open>InMemoryJobQueue_drain\<close> are the
  uninterrupted runs; \<open>jq_step\<close> is the event-loop view, in which enqueues, starts, stops, timer
  callbacks and drains interleave with a batch that is being processed.
\<close>

record 'p job =
  job_id :: string
  job_type :: string
  job_payload :: 'p
  job_attempts :: int
  job_maxAttempts :: int
  job_createdAt :: time
  job_updatedAt :: time
  job_lastError :: "string option"
  job_nextRunAt :: time

record 'p enqueue_call =
  enq_type :: string
  enq_payload :: 'p
  enq_maxAttempts :: "int option"
  enq_delayMs :: "int option"
  enq_id :: "string option"

type_synonym ('p, 'w) job_handler = "'p job \<Rightarrow> 'w \<Rightarrow> 'p enqueue_call list \<times> (string + unit) \<times> 'w"

record ('p, 'w) job_queue =
  q_handlers :: "(string, ('p, 'w) job_handler) jsmap"
  q_pending :: "'p job list"
  q_failed :: "'p job list"
  q_running :: bool
  q_processing :: bool
  q_armed :: bool
  q_nextId :: nat
  q_retryBackoffMs :: int

definition InMemoryJobQueue_new :: "nat \<Rightarrow> int \<Rightarrow> ('p, 'w) job_queue" where
  "InMemoryJobQueue_new nextId retryBackoffMs =
     \<lparr>q_handlers = jsmap_empty, q_pending = [], q_failed = [], q_running = False, q_processing = False,
      q_armed = False, q_nextId = nextId, q_retryBackoffMs = retryBackoffMs\<rparr>"

definition generateId :: "('p, 'w) job_queue \<Rightarrow> string \<times> ('p, 'w) job_queue" where
  "generateId q = (''job-'' @ digits_of_nat (q_nextId q), q\<lparr>q_nextId := Suc (q_nextId q)\<rparr>)"

text \<open>\<open>q_armed\<close> stands for \<open>timeoutHandle !== null\<close>.\<close>

definition InMemoryJobQueue_scheduleIfNeeded :: "('p, 'w) job_queue \<Rightarrow> ('p, 'w) job_queue" where
  "InMemoryJobQueue_scheduleIfNeeded q =
     (if \<not> q_running q \<or> q_armed q \<or> q_pending q = [] then q else q\<lparr>q_armed := True\<rparr>)"

definition InMemoryJobQueue_enqueue ::
  "'p enqueue_call \<Rightarrow> time \<Rightarrow> ('p, 'w) job_queue \<Rightarrow> string \<times> ('p, 'w) job_queue" where
  "InMemoryJobQueue_enqueue call now q =
     (let (jid, q1) = (case enq_id call of Some i \<Rightarrow> (i, q) | None \<Rightarrow> generateId q);
          job = \<lparr>job_id = jid, job_type = enq_type call, job_payload = enq_payload call,
                 job_attempts = 0,
                 job_maxAttempts = (case enq_maxAttempts call of Some m \<Rightarrow> m | None \<Rightarrow> 3),
                 job_createdAt = now, job_updatedAt = now, job_lastError = None,
                 job_nextRunAt = now + (case enq_delayMs call of Some d \<Rightarrow> d | None \<Rightarrow> 0)\<rparr>
      in (jid, InMemoryJobQueue_scheduleIfNeeded (q1\<lparr>q_pending := q_pending q1 @ [job]\<rparr>)))"

definition InMemoryJobQueue_registerHandler ::
  "string \<Rightarrow> ('p, 'w) job_handler \<Rightarrow> ('p, 'w) job_queue \<Rightarrow> ('p, 'w) job_queue" where
  "InMemoryJobQueue_registerHandler ty handler q = q\<lparr>q_handlers := jsmap_set ty handler (q_handlers q)\<rparr>"

definition InMemoryJobQueue_start :: "('p, 'w) job_queue \<Rightarrow> ('p, 'w) job_queue" where
  "InMemoryJobQueue_start q =
     (if q_running q then q else InMemoryJobQueue_scheduleIfNeeded (q\<lparr>q_running := True\<rparr>))"

definition InMemoryJobQueue_stop :: "('p, 'w) job_queue \<Rightarrow> ('p, 'w) job_queue" where
  "InMemoryJobQueue_stop q = (if \<not> q_running q then q else q\<lparr>q_running := False, q_armed := False\<rparr>)"

definition InMemoryJobQueue_isRunning :: "('p, 'w) job_queue \<Rightarrow> bool" where
  "InMemoryJobQueue_isRunning q = q_running q"

definition InMemoryJobQueue_size :: "('p, 'w) job_queue \<Rightarrow> nat" where
  "InMemoryJobQueue_size q = length (q_pending q)"

definition InMemoryJobQueue_getFailedJobs :: "('p, 'w) job_queue \<Rightarrow> 'p job list" where
  "InMemoryJobQueue_getFailedJobs q = q_failed q"

text \<open>What the loop of \<open>_processTick\<close> does with one job once its handler is missing, has thrown, or has returned.\<close>

definition deadLetter_noHandler :: "'p job \<Rightarrow> ('p, 'w) job_queue \<Rightarrow> ('p, 'w) job_queue" where
  "deadLetter_noHandler j q = q\<lparr>q_failed := q_failed q @ [j]\<rparr>"

definition settleFailure :: "'p job \<Rightarrow> string \<Rightarrow> time \<Rightarrow> ('p, 'w) job_queue \<Rightarrow> ('p, 'w) job_queue" where
  "settleFailure j msg now q =
     (let j' = j\<lparr>job_attempts := job_attempts j + 1, job_updatedAt := now, job_lastError := Some msg\<rparr>
      in if job_attempts j' < job_maxAttempts j'
         then q\<lparr>q_pending := q_pending q @ [j'\<lparr>job_nextRunAt := now + q_retryBackoffMs q\<rparr>]\<rparr>
         else q\<lparr>q_failed := q_failed q @ [j']\<rparr>)"

definition processJob ::
  "('w \<Rightarrow> time) \<Rightarrow> 'p job \<Rightarrow> ('p, 'w) job_queue \<times> 'w \<Rightarrow> ('p, 'w) job_queue \<times> 'w" where
  "processJob now j s =
     (case s of (q, w) \<Rightarrow>
        case jsmap_get (q_handlers q) (job_type j) of
          None \<Rightarrow> (deadLetter_noHandler j q, w)
        | Some handler \<Rightarrow>
            let (calls, outcome, w') = handler j w;
                q' = fold (\<lambda>call q. snd (InMemoryJobQueue_enqueue call (now w') q)) calls q
            in case outcome of
                 Inr _ \<Rightarrow> (q', w')
               | Inl msg \<Rightarrow> (settleFailure j msg (now w') q', w'))"

definition readyJobs :: "time \<Rightarrow> 'p job list \<Rightarrow> 'p job list" where
  "readyJobs t js = filter (\<lambda>j. job_nextRunAt j \<le> t) js"

definition waitingJobs :: "time \<Rightarrow> 'p job list \<Rightarrow> 'p job list" where
  "waitingJobs t js = filter (\<lambda>j. \<not> job_nextRunAt j \<le> t) js"

definition InMemoryJobQueue_processTick ::
  "('w \<Rightarrow> time) \<Rightarrow> ('p, 'w) job_queue \<times> 'w \<Rightarrow> bool \<times> ('p, 'w) job_queue \<times> 'w" where
  "InMemoryJobQueue_processTick now s =
     (case s of (q, w) \<Rightarrow>
        if q_processing q then (False, q, w)
        else let ready = readyJobs (now w) (q_pending q)
             in if ready = [] then (False, q, w)
                else let (q1, w1) = fold (processJob now) ready
                           (q\<lparr>q_processing := True, q_pending := waitingJobs (now w) (q_pending q)\<rparr>, w)
                     in (True, q1\<lparr>q_processing := False\<rparr>, w1))"

text \<open>\<open>while (await this._processTick()) \<dots>\<close>: \<open>None\<close> when the fuel runs out before a tick reports no ready job.\<close>

fun InMemoryJobQueue_drain ::
  "nat \<Rightarrow> ('w \<Rightarrow> time) \<Rightarrow> ('p, 'w) job_queue \<times> 'w \<Rightarrow> (('p, 'w) job_queue \<times> 'w) option" where
  "InMemoryJobQueue_drain 0 now s = None"
| "InMemoryJobQueue_drain (Suc fuel) now s =
     (let (more, s') = InMemoryJobQueue_processTick now s
      in if more then InMemoryJobQueue_drain fuel now s' else Some s')"

lemmas queue_op_defs =
  InMemoryJobQueue_new_def generateId_def InMemoryJobQueue_scheduleIfNeeded_def InMemoryJobQueue_enqueue_def
  InMemoryJobQueue_registerHandler_def InMemoryJobQueue_start_def InMemoryJobQueue_stop_def
  deadLetter_noHandler_def settleFailure_def

section \<open>Draining terminates\<close>

definition attempts_left :: "'p job \<Rightarrow> nat" where
  "attempts_left j = Suc (nat (job_maxAttempts j - job_attempts j - 1))"

definition work_left :: "'p job list \<Rightarrow> nat" where
  "work_left js = sum_list (map attempts_left js)"

text \<open>Handlers that enqueue nothing while they run.\<close>

definition quiet :: "('p, 'w) job_queue \<Rightarrow> bool" where
  "quiet q \<longleftrightarrow> (\<forall>ty h j w. jsmap_get (q_handlers q) ty = Some h \<longrightarrow> fst (h j w) = [])"

lemma work_left_append [simp]: "work_left (xs @ ys) = work_left xs + work_left ys"
  by (simp add: work_left_def)

lemma work_left_Cons [simp]: "work_left (j # js) = attempts_left j + work_left js"
  by (simp add: work_left_def)

lemma work_left_Nil [simp]: "work_left [] = 0"
  by (simp add: work_left_def)

lemma attempts_left_pos [simp]: "0 < attempts_left j"
  by (simp add: attempts_left_def)

lemma work_left_partition: "work_left (readyJobs t js) + work_left (waitingJobs t js) = work_left js"
  by (induction js) (auto simp: readyJobs_def waitingJobs_def)

lemma settleFailure_work:
  "work_left (q_pending (settleFailure j msg t q)) < work_left (q_pending q) + attempts_left j"
  by (auto simp: settleFailure_def Let_def attempts_left_def)

lemma settleFailure_sel [simp]:
  "q_handlers (settleFailure j msg t q) = q_handlers q"
  "q_processing (settleFailure j msg t q) = q_processing q"
  by (simp_all add: settleFailure_def Let_def)

lemma processJob_quiet:
  assumes "quiet q" "processJob now j (q, w) = (q', w')"
  shows "q_handlers q' = q_handlers q" and "q_processing q' = q_processing q"
    and "work_left (q_pending q') < work_left (q_pending q) + attempts_left j"
proof -
  have "q_handlers q' = q_handlers q \<and> q_processing q' = q_processing q \<and>
      work_left (q_pending q') < work_left (q_pending q) + attempts_left j"
  proof (cases "jsmap_get (q_handlers q) (job_type j)")
    case None
    then show ?thesis using assms(2) by (auto simp: processJob_def deadLetter_noHandler_def)
  next
    case (Some h)
    obtain calls outcome w1 where h: "h j w = (calls, outcome, w1)" by (cases "h j w") auto
    have "calls = []" using assms(1) Some h unfolding quiet_def by (metis fst_conv)
    then show ?thesis using assms(2) Some h settleFailure_work [of j _ "now w1" q]
      by (cases outcome) (auto simp: processJob_def)
  qed
  then show "q_handlers q' = q_handlers q" "q_processing q' = q_processing q"
    "work_left (q_pending q') < work_left (q_pending q) + attempts_left j" by auto
qed

lemma fold_processJob_quiet:
  assumes "quiet q" "fold (processJob now) js (q, w) = (q', w')"
  shows "q_handlers q' = q_handlers q \<and> q_processing q' = q_processing q \<and>
     work_left (q_pending q') + length js \<le> work_left (q_pending q) + work_left js"
  using assms
proof (induction js arbitrary: q w)
  case (Cons j js)
  obtain q1 w1 where p: "processJob now j (q, w) = (q1, w1)" by force
  note * = processJob_quiet [OF Cons.prems(1) p]
  have "quiet q1" using Cons.prems(1) *(1) by (simp add: quiet_def)
  moreover have "fold (processJob now) js (q1, w1) = (q', w')" using Cons.prems(2) p by simp
  ultimately show ?case using Cons.IH [of q1 w1] * by fastforce
qed simp

lemma processTick_quiet:
  assumes "quiet q" "InMemoryJobQueue_processTick now (q, w) = (True, q', w')"
  shows "quiet q'" and "work_left (q_pending q') < work_left (q_pending q)"
proof -
  let ?r = "readyJobs (now w) (q_pending q)"
  let ?q0 = "q\<lparr>q_processing := True, q_pending := waitingJobs (now w) (q_pending q)\<rparr>"
  obtain q1 where f: "fold (processJob now) ?r (?q0, w) = (q1, w')" and q': "q' = q1\<lparr>q_processing := False\<rparr>" and r: "?r \<noteq> []"
    using assms(2) by (auto simp: InMemoryJobQueue_processTick_def Let_def split: if_splits prod.splits)
  have "quiet ?q0" using assms(1) by (simp add: quiet_def)
  from fold_processJob_quiet [OF this f] have *: "q_handlers q1 = q_handlers q"
    "work_left (q_pending q1) + length ?r \<le> work_left (waitingJobs (now w) (q_pending q)) + work_left ?r" by auto
  show "quiet q'" using assms(1) * by (simp add: quiet_def q')
  show "work_left (q_pending q') < work_left (q_pending q)"
    using * r work_left_partition [of "now w" "q_pending q"] by (cases ?r) (auto simp: q')
qed

lemma drain_terminates_aux:
  "quiet q \<Longrightarrow> work_left (q_pending q) < fuel \<Longrightarrow> \<exists>s'. InMemoryJobQueue_drain fuel now (q, w) = Some s'"
proof (induction fuel arbitrary: q w)
  case (Suc fuel)
  obtain more q1 w1 where t: "InMemoryJobQueue_processTick now (q, w) = (more, q1, w1)" by (metis prod_cases3)
  show ?case
  proof (cases more)
    case True
    with t have "InMemoryJobQueue_processTick now (q, w) = (True, q1, w1)" by simp
    note * = processTick_quiet [OF Suc.prems(1) this]
    then show ?thesis using Suc.IH [of q1 w1] Suc.prems(2) t True by simp
  qed (use t in simp)
qed simp

lemma drain_result:
  "InMemoryJobQueue_drain fuel now s = Some (q', w') \<Longrightarrow>
     InMemoryJobQueue_processTick now (q', w') = (False, q', w')"
proof (induction fuel arbitrary: s)
  case (Suc fuel)
  obtain more s1 where t: "InMemoryJobQueue_processTick now s = (more, s1)"
    by (cases "InMemoryJobQueue_processTick now s")
  show ?case
  proof (cases more)
    case False
    then have "s1 = s" using t by (cases s) (auto simp: InMemoryJobQueue_processTick_def Let_def split: if_splits prod.splits)
    then show ?thesis using Suc.prems t False by auto
  qed (use Suc t in auto)
qed simp

text \<open>
  C20. Draining ends: when the handlers enqueue nothing, \<open>drain\<close> returns after at most as many ticks as attempts
  are left in the pending jobs, and then no pending job is due (or a tick of another caller is still running).
\<close>

theorem drain_terminates:
  assumes "quiet q"
  shows "\<exists>q' w'. InMemoryJobQueue_drain (Suc (work_left (q_pending q))) now (q, w) = Some (q', w') \<and>
     (q_processing q' \<or> readyJobs (now w') (q_pending q') = [])"
proof -
  obtain q' w' where d: "InMemoryJobQueue_drain (Suc (work_left (q_pending q))) now (q, w) = Some (q', w')"
    using drain_terminates_aux [OF assms, of "Suc (work_left (q_pending q))" now w] by fastforce
  have "q_processing q' \<or> readyJobs (now w') (q_pending q') = []"
    using drain_result [OF d] by (auto simp: InMemoryJobQueue_processTick_def Let_def split: if_splits prod.splits)
  with d show ?thesis by blast
qed

definition exampleQueue :: "(unit, int) job_queue" where
  "exampleQueue = snd (InMemoryJobQueue_enqueue
     \<lparr>enq_type = ''mail'', enq_payload = (), enq_maxAttempts = Some 2, enq_delayMs = None, enq_id = None\<rparr> 0
     (InMemoryJobQueue_registerHandler ''mail'' (\<lambda>j t. ([], Inl ''smtp down'', t + 600)) (InMemoryJobQueue_new 1 500)))"

lemma exampleQueue_quiet: "quiet exampleQueue"
  by (simp add: exampleQueue_def quiet_def queue_op_defs Let_def jsmap_empty_def)

lemma exampleQueue_work: "work_left (q_pending exampleQueue) = 2"
  by (simp add: exampleQueue_def queue_op_defs Let_def attempts_left_def)

theorem drain_terminates_witness:
  "\<exists>q' w'. InMemoryJobQueue_drain 3 (\<lambda>t. t) (exampleQueue, 0) = Some (q', w') \<and>
     (q_processing q' \<or> readyJobs w' (q_pending q') = [])"
  using drain_terminates [OF exampleQueue_quiet, of "\<lambda>t. t" 0]
  by (simp add: exampleQueue_work numeral_3_eq_3 numeral_2_eq_2)

section \<open>The event-loop view\<close>

text \<open>A configuration is the queue and the ticks in progress, a list because nothing but the \<open>processing\<close> flag
  keeps the timer and several callers of \<open>drain\<close> from running ticks side by side: each with its origin (\<open>True\<close>: the timer)
  and the jobs of its batch not yet settled. \<open>begin_tick\<close> is \<open>_processTick\<close> up to its first await, \<open>end_tick\<close> its end,
  and any tick in progress may take the next step.\<close>

type_synonym 'p batch = "bool \<times> 'p job list"

type_synonym ('p, 'w) jq_config = "('p, 'w) job_queue \<times> 'p batch list"

definition begin_tick :: "bool \<Rightarrow> time \<Rightarrow> ('p, 'w) jq_config \<Rightarrow> ('p, 'w) jq_config" where
  "begin_tick timer now s =
     (case s of (q, bs) \<Rightarrow>
        let idle = (if timer then InMemoryJobQueue_scheduleIfNeeded q else q, bs)
        in if q_processing q then idle
           else if readyJobs now (q_pending q) = [] then idle
           else (q\<lparr>q_processing := True, q_pending := waitingJobs now (q_pending q)\<rparr>,
                 bs @ [(timer, readyJobs now (q_pending q))]))"

definition end_tick :: "bool \<Rightarrow> ('p, 'w) job_queue \<Rightarrow> ('p, 'w) job_queue" where
  "end_tick timer q =
     (let q' = q\<lparr>q_processing := False\<rparr> in if timer then InMemoryJobQueue_scheduleIfNeeded q' else q')"

inductive jq_step :: "bool \<Rightarrow> ('p, 'w) jq_config \<Rightarrow> ('p, 'w) jq_config \<Rightarrow> bool" for drains where
  enqueue: "jq_step drains (q, bs) (snd (InMemoryJobQueue_enqueue call now q), bs)"
| registerHandler: "jq_step drains (q, bs) (InMemoryJobQueue_registerHandler ty h q, bs)"
| start: "jq_step drains (q, bs) (InMemoryJobQueue_start q, bs)"
| stop: "jq_step drains (q, bs) (InMemoryJobQueue_stop q, bs)"
| timer: "q_armed q \<Longrightarrow> jq_step drains (q, bs) (begin_tick True now (q\<lparr>q_armed := False\<rparr>, bs))"
| drain: "drains \<Longrightarrow> jq_step drains (q, bs) (begin_tick False now (q, bs))"
| no_handler: "jsmap_get (q_handlers q) (job_type j) = None \<Longrightarrow>
    jq_step drains (q, as @ (tm, j # js) # bs) (deadLetter_noHandler j q, as @ (tm, js) # bs)"
| handler_returns: "jsmap_get (q_handlers q) (job_type j) = Some h \<Longrightarrow>
    jq_step drains (q, as @ (tm, j # js) # bs) (q, as @ (tm, js) # bs)"
| handler_throws: "jsmap_get (q_handlers q) (job_type j) = Some h \<Longrightarrow>
    jq_step drains (q, as @ (tm, j # js) # bs) (settleFailure j msg now q, as @ (tm, js) # bs)"
| finish: "jq_step drains (q, as @ (tm, []) # bs) (end_tick tm q, as @ bs)"

definition jobs_of_batches :: "'p batch list \<Rightarrow> 'p job list" where
  "jobs_of_batches bs = concat (map snd bs)"

lemma jobs_of_batches_simps [simp]:
  "jobs_of_batches [] = []" "jobs_of_batches (b # bs) = snd b @ jobs_of_batches bs"
  "jobs_of_batches (as @ bs) = jobs_of_batches as @ jobs_of_batches bs"
  by (simp_all add: jobs_of_batches_def)

definition pend_ok :: "'p job \<Rightarrow> bool" where
  "pend_ok j \<longleftrightarrow> job_attempts j = 0 \<or> 0 < job_attempts j \<and> job_attempts j < job_maxAttempts j"

definition fail_ok :: "'p job \<Rightarrow> bool" where
  "fail_ok j \<longleftrightarrow> 0 \<le> job_attempts j \<and> job_attempts j \<le> max 1 (job_maxAttempts j)"

definition jq_invar :: "('p, 'w) jq_config \<Rightarrow> bool" where
  "jq_invar s \<longleftrightarrow> (case s of (q, bs) \<Rightarrow>
     length bs \<le> 1 \<and> (q_processing q \<longleftrightarrow> bs \<noteq> []) \<and> (q_armed q \<longrightarrow> q_running q) \<and>
     list_all pend_ok (q_pending q @ jobs_of_batches bs) \<and> list_all fail_ok (q_failed q))"

definition awake :: "('p, 'w) jq_config \<Rightarrow> bool" where
  "awake s \<longleftrightarrow> (case s of (q, bs) \<Rightarrow>
     (q_running q \<and> q_pending q \<noteq> [] \<longrightarrow> q_armed q \<or> bs \<noteq> []) \<and> list_all fst bs)"

lemma scheduleIfNeeded_sel [simp]:
  "q_pending (InMemoryJobQueue_scheduleIfNeeded q) = q_pending q"
  "q_failed (InMemoryJobQueue_scheduleIfNeeded q) = q_failed q"
  "q_processing (InMemoryJobQueue_scheduleIfNeeded q) = q_processing q"
  "q_running (InMemoryJobQueue_scheduleIfNeeded q) = q_running q"
  "q_handlers (InMemoryJobQueue_scheduleIfNeeded q) = q_handlers q"
  "q_armed (InMemoryJobQueue_scheduleIfNeeded q) \<longleftrightarrow> q_armed q \<or> q_running q \<and> q_pending q \<noteq> []"
  by (auto simp: InMemoryJobQueue_scheduleIfNeeded_def)

lemma pend_ok_settle: "pend_ok j \<Longrightarrow> fail_ok (j\<lparr>job_attempts := job_attempts j + 1, job_updatedAt := t, job_lastError := e\<rparr>)"
  by (auto simp: pend_ok_def fail_ok_def)

lemma list_all_ready_waiting:
  "list_all P js \<Longrightarrow> list_all P (readyJobs t js) \<and> list_all P (waitingJobs t js)"
  by (auto simp: list_all_iff readyJobs_def waitingJobs_def)

lemma jq_invar_begin_tick:
  "jq_invar (q, b) \<Longrightarrow> q' = q \<or> q' = q\<lparr>q_armed := False\<rparr> \<Longrightarrow> jq_invar (begin_tick tm now (q', b))"
  by (auto simp: jq_invar_def begin_tick_def Let_def dest: list_all_ready_waiting [where t = now])

lemma jq_invar_step:
  assumes "jq_step drains s s'" "jq_invar s"
  shows "jq_invar s'"
  using assms
proof (induction rule: jq_step.induct)
  case (enqueue q bs call now)
  then show ?case
    by (auto simp: jq_invar_def InMemoryJobQueue_enqueue_def generateId_def Let_def pend_ok_def
        split: option.splits)
next
  case (timer q bs now)
  then show ?case by (intro jq_invar_begin_tick) auto
next
  case (drain q bs now)
  then show ?case by (intro jq_invar_begin_tick) auto
next
  case (no_handler q j as tm js bs)
  then show ?case by (auto simp: jq_invar_def deadLetter_noHandler_def pend_ok_def fail_ok_def)
next
  case (handler_throws q j h as tm js bs msg now)
  then have "pend_ok j" by (simp add: jq_invar_def)
  with pend_ok_settle [OF this] handler_throws show ?case
    by (auto simp: jq_invar_def settleFailure_def Let_def pend_ok_def fail_ok_def)
qed (auto simp: jq_invar_def InMemoryJobQueue_registerHandler_def InMemoryJobQueue_start_def InMemoryJobQueue_stop_def
       end_tick_def Let_def)

lemma awake_step:
  assumes "jq_step False s s'" "awake s" "jq_invar s"
  shows "awake s'"
  using assms
  by (induction rule: jq_step.induct)
     (auto simp: awake_def jq_invar_def InMemoryJobQueue_enqueue_def InMemoryJobQueue_registerHandler_def InMemoryJobQueue_start_def
        InMemoryJobQueue_stop_def begin_tick_def end_tick_def Let_def generateId_def deadLetter_noHandler_def settleFailure_def
        split: option.splits if_splits)

lemma jq_reachable_invar:
  "(jq_step drains)\<^sup>*\<^sup>* (InMemoryJobQueue_new n r, []) s \<Longrightarrow> jq_invar s"
proof (induction rule: rtranclp_induct)
  case base
  show ?case by (simp add: jq_invar_def InMemoryJobQueue_new_def)
qed (rule jq_invar_step)

text \<open>
  C7. In every reachable state of the queue, drains included: a pending or in-flight job that was attempted
  before has attempts left, a dead-lettered job was attempted at most \<open>max 1 maxAttempts\<close> times, at most one
  batch is in progress (although the timer and any number of drains may call \<open>_processTick\<close> at any moment), the
  \<open>processing\<close> flag is up exactly while one is, and the timer is armed only while the queue is running.
\<close>

theorem queue_reachable_invariant:
  assumes "(jq_step drains)\<^sup>*\<^sup>* (InMemoryJobQueue_new n r, []) (q, bs)"
  shows "length bs \<le> 1 \<and> (q_processing q \<longleftrightarrow> bs \<noteq> []) \<and> (q_armed q \<longrightarrow> q_running q) \<and>
     list_all (\<lambda>j. job_attempts j = 0 \<or> 0 < job_attempts j \<and> job_attempts j < job_maxAttempts j) (q_pending q @ jobs_of_batches bs) \<and>
     list_all (\<lambda>j. 0 \<le> job_attempts j \<and> job_attempts j \<le> max 1 (job_maxAttempts j)) (q_failed q)"
  using jq_reachable_invar [OF assms] by (simp add: jq_invar_def pend_ok_def [abs_def] fail_ok_def [abs_def])

definition mailCall :: "unit enqueue_call" where
  "mailCall = \<lparr>enq_type = ''mail'', enq_payload = (), enq_maxAttempts = Some 2, enq_delayMs = None, enq_id = Some ''m1''\<rparr>"

definition mailJob :: "unit job" where
  "mailJob = \<lparr>job_id = ''m1'', job_type = ''mail'', job_payload = (), job_attempts = 0, job_maxAttempts = 2,
     job_createdAt = 0, job_updatedAt = 0, job_lastError = None, job_nextRunAt = 0\<rparr>"

definition mailHandlers :: "(string, (unit, nat) job_handler) jsmap" where
  "mailHandlers = [(''mail'', \<lambda>_ w. ([], Inr (), w))]"

definition mailQueue :: "bool \<Rightarrow> bool \<Rightarrow> unit job list \<Rightarrow> unit job list \<Rightarrow> bool \<Rightarrow> (unit, nat) job_queue" where
  "mailQueue rn ar pd fl pr = \<lparr>q_handlers = mailHandlers, q_pending = pd, q_failed = fl, q_running = rn,
     q_processing = pr, q_armed = ar, q_nextId = 1, q_retryBackoffMs = 500\<rparr>"

lemma mail_started:
  "(jq_step drains)\<^sup>*\<^sup>* (InMemoryJobQueue_new 1 500, []) (mailQueue True True [mailJob] [] False, [])"
proof -
  have 1: "jq_step drains (InMemoryJobQueue_new 1 500, []) (mailQueue False False [] [] False, [])"
    using jq_step.registerHandler [of drains "InMemoryJobQueue_new 1 500" "[]" "''mail''" "\<lambda>_ w. ([], Inr (), w)"]
    by (simp add: mailQueue_def mailHandlers_def queue_op_defs jsmap_empty_def)
  have 2: "jq_step drains (mailQueue False False [] [] False, []) (mailQueue True False [] [] False, [])"
    using jq_step.start [of drains "mailQueue False False [] [] False" "[]"] by (simp add: mailQueue_def queue_op_defs)
  have 3: "jq_step drains (mailQueue True False [] [] False, []) (mailQueue True True [mailJob] [] False, [])"
    using jq_step.enqueue [of drains "mailQueue True False [] [] False" "[]" mailCall 0]
    by (simp add: mailQueue_def queue_op_defs mailCall_def mailJob_def)
  from 1 2 3 show ?thesis by (meson converse_rtranclp_into_rtranclp rtranclp.rtrancl_refl)
qed

theorem queue_reachable_invariant_witness:
  "(jq_step True)\<^sup>*\<^sup>* (InMemoryJobQueue_new 1 500, []) (mailQueue True True [mailJob] [] False, []) \<and>
   list_all (\<lambda>j. job_attempts j = 0 \<or> 0 < job_attempts j \<and> job_attempts j < job_maxAttempts j) [mailJob]"
  using queue_reachable_invariant [OF mail_started [of True]] mail_started [of True]
  by (simp add: mailQueue_def)

definition job_ids :: "('p, 'w) jq_config \<Rightarrow> string multiset" where
  "job_ids s = (case s of (q, bs) \<Rightarrow> mset (map job_id (q_pending q @ jobs_of_batches bs @ q_failed q)))"

lemma mset_ready_waiting: "mset (map job_id (waitingJobs t js)) + mset (map job_id (readyJobs t js)) = mset (map job_id js)"
  by (induction js) (auto simp: readyJobs_def waitingJobs_def)

lemma job_ids_begin_tick:
  "job_ids (begin_tick tm now (q, bs)) = job_ids (q, bs)"
  using mset_ready_waiting [of now "q_pending q"]
  by (auto simp: job_ids_def begin_tick_def Let_def)

text \<open>
  A job leaves the queue only when its handler returned: in every step the identifiers of pending, in-flight and
  dead-lettered jobs are kept, except for the one job whose registered handler has just completed.
\<close>

theorem jobs_are_not_lost:
  assumes "jq_step drains s s'"
  shows "job_ids s \<subseteq># job_ids s' \<or>
     (\<exists>q as tm j js bs h. s = (q, as @ (tm, j # js) # bs) \<and> jsmap_get (q_handlers q) (job_type j) = Some h \<and>
        job_ids s = add_mset (job_id j) (job_ids s'))"
  using assms
proof (induction rule: jq_step.induct)
  case (enqueue q bs call now)
  then show ?case
    by (auto simp: job_ids_def InMemoryJobQueue_enqueue_def generateId_def Let_def split: option.splits)
next
  case (timer q bs now)
  have "job_ids (q\<lparr>q_armed := False\<rparr>, bs) = job_ids (q, bs)" by (simp add: job_ids_def)
  then show ?case using timer job_ids_begin_tick [of True now "q\<lparr>q_armed := False\<rparr>" bs] by simp
next
  case (drain q bs now)
  then show ?case using job_ids_begin_tick [of False now q bs] by simp
next
  case (handler_returns q j h as tm js bs)
  have "job_ids (q, as @ (tm, j # js) # bs) = add_mset (job_id j) (job_ids (q, as @ (tm, js) # bs))"
    by (simp add: job_ids_def)
  then show ?case using handler_returns by blast
qed (auto simp: job_ids_def InMemoryJobQueue_registerHandler_def InMemoryJobQueue_start_def
       InMemoryJobQueue_stop_def deadLetter_noHandler_def settleFailure_def end_tick_def Let_def)

theorem jobs_are_not_lost_witness:
  "job_ids (mailQueue True False [] [] True, [(False, [mailJob])]) = {# ''m1'' #} \<and>
   job_ids (settleFailure mailJob ''smtp down'' 7 (mailQueue True False [] [] True), [(False, [])]) = {# ''m1'' #}"
proof -
  have "jq_step True (mailQueue True False [] [] True, [(False, [mailJob])])
     (settleFailure mailJob ''smtp down'' 7 (mailQueue True False [] [] True), [(False, [])])"
    using jq_step.handler_throws [of "mailQueue True False [] [] True" mailJob "\<lambda>_ w. ([], Inr (), w)" True "[]" False "[]" "[]"]
    by (simp add: mailQueue_def mailHandlers_def mailJob_def)
  from jobs_are_not_lost [OF this] show ?thesis
    by (auto simp: mailQueue_def job_ids_def settleFailure_def mailJob_def)
qed

text \<open>
  C21. No lost wake-up without drains: as long as nobody calls \<open>drain\<close>, a running queue with pending jobs always
  has its timer armed or a batch in progress (whose end re-arms the timer).
\<close>

theorem running_queue_stays_awake:
  assumes "(jq_step False)\<^sup>*\<^sup>* (InMemoryJobQueue_new n r, []) (q, bs)" "q_running q" "q_pending q \<noteq> []"
  shows "q_armed q \<or> bs \<noteq> []"
proof -
  have "awake (q, bs)"
    using assms(1)
  proof (induction rule: rtranclp_induct)
    case base
    show ?case by (simp add: awake_def InMemoryJobQueue_new_def)
  next
    case (step s s')
    then show ?case using awake_step jq_reachable_invar by blast
  qed
  then show ?thesis using assms(2,3) by (simp add: awake_def)
qed

theorem running_queue_stays_awake_witness:
  "(jq_step False)\<^sup>*\<^sup>* (InMemoryJobQueue_new 1 500, []) (mailQueue True True [mailJob] [] False, []) \<and>
   q_armed (mailQueue True True [mailJob] [] False)"
proof -
  have "q_running (mailQueue True True [mailJob] [] False)" "q_pending (mailQueue True True [mailJob] [] False) \<noteq> []"
    by (simp_all add: mailQueue_def)
  from running_queue_stays_awake [OF mail_started this] mail_started show ?thesis by blast
qed

text \<open>
  With \<open>drain\<close> a wake-up can be lost: when the timer fires while a drain is processing the last pending job, it is
  not re-armed; if that job then fails, the queue is running with a job waiting for its retry, no timer armed and no
  batch in progress. Nothing happens until the next \<open>enqueue\<close>, restart or drain.
\<close>

theorem drain_can_strand_a_job:
  "\<exists>q. (jq_step True)\<^sup>*\<^sup>* (InMemoryJobQueue_new 1 500 :: (unit, nat) job_queue, []) (q, []) \<and>
     q_running q \<and> map job_id (q_pending q) = [''m1''] \<and> \<not> q_armed q"
proof -
  let ?j = "mailJob\<lparr>job_attempts := 1, job_updatedAt := 7, job_lastError := Some ''smtp down'', job_nextRunAt := 507\<rparr>"
  have 1: "jq_step True (mailQueue True True [mailJob] [] False, []) (mailQueue True True [] [] True, [(False, [mailJob])])"
    using jq_step.drain [of True "mailQueue True True [mailJob] [] False" "[]" 0]
    by (simp add: begin_tick_def mailQueue_def readyJobs_def waitingJobs_def mailJob_def Let_def)
  have 2: "jq_step True (mailQueue True True [] [] True, [(False, [mailJob])]) (mailQueue True False [] [] True, [(False, [mailJob])])"
    using jq_step.timer [of "mailQueue True True [] [] True" True "[(False, [mailJob])]" 5]
    by (simp add: begin_tick_def mailQueue_def InMemoryJobQueue_scheduleIfNeeded_def)
  have 3: "jq_step True (mailQueue True False [] [] True, [(False, [mailJob])]) (mailQueue True False [?j] [] True, [(False, [])])"
    using jq_step.handler_throws [of "mailQueue True False [] [] True" mailJob "\<lambda>_ w. ([], Inr (), w)" True "[]" False "[]" "[]" "''smtp down''" 7]
    by (simp add: mailQueue_def mailHandlers_def mailJob_def settleFailure_def)
  have 4: "jq_step True (mailQueue True False [?j] [] True, [(False, [])]) (mailQueue True False [?j] [] False, [])"
    using jq_step.finish [of True "mailQueue True False [?j] [] True" "[]" False "[]"] by (simp add: end_tick_def mailQueue_def)
  have "(jq_step True)\<^sup>*\<^sup>* (InMemoryJobQueue_new 1 500, []) (mailQueue True False [?j] [] False, [])"
    using mail_started [of True] 1 2 3 4 by (meson rtranclp.rtrancl_into_rtrancl)
  then show ?thesis by (intro exI [of _ "mailQueue True False [?j] [] False"]) (simp add: mailQueue_def mailJob_def)
qed

end
