(* ===== verification/Diagnostics.thy ===== *)
theory Diagnostics
  imports Json
begin

text \<open>
  Redaction of Stellar keys in diagnostics (\<open>src/services/stellarDiagnostics.ts\<close>) for strings, errors and JSON values other than strings.

  \<open>redactKeys k repl\<close> is the global replacement of the regular expression \<open>\b k [A-Z2-7]{55} \b\<close>: the text
  is scanned from the left, \<open>prev\<close> is the character before the current position (for the word
  boundary), and a match is skipped as a whole.
\<close>

definition is_word_char :: "char \<Rightarrow> bool" where
  "is_word_char c \<longleftrightarrow> is_digit c \<or> 65 \<le> (of_char c :: nat) \<and> (of_char c :: nat) \<le> 90 \<or>
     97 \<le> (of_char c :: nat) \<and> (of_char c :: nat) \<le> 122 \<or> c = CHR ''_''"

definition is_key_char :: "char \<Rightarrow> bool" where
  "is_key_char c \<longleftrightarrow> 65 \<le> (of_char c :: nat) \<and> (of_char c :: nat) \<le> 90 \<or>
     50 \<le> (of_char c :: nat) \<and> (of_char c :: nat) \<le> 55"

definition is_word_at :: "string \<Rightarrow> bool" where
  "is_word_at s \<longleftrightarrow> (case s of [] \<Rightarrow> False | c # _ \<Rightarrow> is_word_char c)"

definition is_word_opt :: "char option \<Rightarrow> bool" where
  "is_word_opt p \<longleftrightarrow> (case p of None \<Rightarrow> False | Some c \<Rightarrow> is_word_char c)"

text \<open>A key of kind \<open>k\<close> starts here: the boundary before (the kind letter is a word character), the
  56 characters, the boundary after (the last of them is a word character).\<close>

definition key_at :: "char \<Rightarrow> char option \<Rightarrow> string \<Rightarrow> bool" where
  "key_at k prev s \<longleftrightarrow> \<not> is_word_opt prev \<and>
     (case s of [] \<Rightarrow> False
      | c # cs \<Rightarrow> c = k \<and> 55 \<le> length cs \<and> list_all is_key_char (take 55 cs) \<and> \<not> is_word_at (drop 55 cs))"

function redactKeys :: "char \<Rightarrow> string \<Rightarrow> char option \<Rightarrow> string \<Rightarrow> string" where
  "redactKeys k repl prev s =
     (case s of [] \<Rightarrow> []
      | c # cs \<Rightarrow>
          if key_at k prev s then repl @ redactKeys k repl (Some (last (take 56 s))) (drop 56 s)
          else c # redactKeys k repl (Some c) cs)"
  by pat_completeness auto
termination
  by (relation "measure (\<lambda>(_, _, _, s). length s)") (auto simp: key_at_def)

declare redactKeys.simps [simp del]

fun js_error_text :: "js_error \<Rightarrow> string" where
  "js_error_text (Error m) = ''Error: '' @ m"
| "js_error_text (VersionConflictError i ev av) = ''VersionConflictError: Credit line was modified concurrently (expected version ''
     @ show_int ev @ '', found '' @ show_int av @ ''). Re-read and retry.''"
| "js_error_text (CreditLineNotFoundError i) =
     ''CreditLineNotFoundError: Credit line '' @ [CHR 0x22] @ i @ [CHR 0x22] @ '' not found.''"
| "js_error_text (InvalidTransitionError st act) =
     ''InvalidTransitionError: Cannot '' @ [CHR 0x22] @ act @ [CHR 0x22] @ '' a credit line that is already ''
     @ [CHR 0x22] @ st @ [CHR 0x22] @ ''.''"
| "js_error_text (InvalidCursorError m) = ''InvalidCursorError: '' @ m"
| "js_error_text (RangeError m) = ''RangeError: '' @ m"
| "js_error_text (TypeError m) = ''TypeError: '' @ m"
| "js_error_text (ReferenceError m) = ''ReferenceError: '' @ m"
| "js_error_text (SorobanCreditRecordDecodeError m) = ''SorobanCreditRecordDecodeError: '' @ m"
| "js_error_text (SorobanCreditRecordFetchError m retryable) = ''SorobanCreditRecordFetchError: '' @ m"

datatype diagnostic = DiagString string | DiagError js_error | DiagJson json

fun stringifyForDiagnostic :: "diagnostic \<Rightarrow> string" where
  "stringifyForDiagnostic (DiagError e) = js_error_text e"
| "stringifyForDiagnostic (DiagString s) = s"
| "stringifyForDiagnostic (DiagJson v) = json_stringify v"

definition REDACTED_PUBLIC_KEY :: string where
  "REDACTED_PUBLIC_KEY = ''[REDACTED_STELLAR_PUBLIC_KEY]''"

definition REDACTED_STELLAR_SEED :: string where
  "REDACTED_STELLAR_SEED = ''[REDACTED_STELLAR_SECRET_KEY]''"

definition sanitizeStellarDiagnostic :: "diagnostic \<Rightarrow> string" where
  "sanitizeStellarDiagnostic v =
     redactKeys (CHR ''G'') REDACTED_PUBLIC_KEY None
       (redactKeys (CHR ''S'') REDACTED_STELLAR_SEED None (stringifyForDiagnostic v))"

section \<open>No key survives\<close>

text \<open>Somewhere in a text that follows the character \<open>prev\<close> there is a key of kind \<open>k\<close>.\<close>

fun has_key :: "char \<Rightarrow> char option \<Rightarrow> string \<Rightarrow> bool" where
  "has_key k prev [] \<longleftrightarrow> False"
| "has_key k prev (c # cs) \<longleftrightarrow> key_at k prev (c # cs) \<or> has_key k (Some c) cs"

text \<open>A replacement is harmless when it is bracketed by non-word characters and no key can start inside it.\<close>

definition last_char :: "char option \<Rightarrow> string \<Rightarrow> char option" where
  "last_char prev s = (if s = [] then prev else Some (last s))"

definition harmless :: "char \<Rightarrow> string \<Rightarrow> bool" where
  "harmless k repl \<longleftrightarrow> repl \<noteq> [] \<and> \<not> is_word_char (hd repl) \<and>
     list_all (\<lambda>(p, c). c = k \<longrightarrow> is_word_char p) (zip repl (tl repl))"

lemma key_char_word: "is_key_char c \<Longrightarrow> is_word_char c"
  by (auto simp: is_key_char_def is_word_char_def is_digit_def)

lemma last_char_Cons: "last_char (Some c) cs = last_char prev (c # cs)"
  by (simp add: last_char_def)

lemma redact_Nil [simp]: "redactKeys k repl prev [] = []"
  by (subst redactKeys.simps) simp

lemma redact_key:
  "key_at k prev s \<Longrightarrow> redactKeys k repl prev s = repl @ redactKeys k repl (Some (last (take 56 s))) (drop 56 s)"
  by (subst redactKeys.simps) (auto simp: key_at_def split: list.splits)

lemma redact_skip: "\<not> key_at k prev (c # cs) \<Longrightarrow> redactKeys k repl prev (c # cs) = c # redactKeys k repl (Some c) cs"
  by (subst redactKeys.simps) simp

text \<open>Output characters up to the first bracket are copied from the input.\<close>

lemma redact_copies:
  assumes "redactKeys k repl prev s = u @ v" "\<forall>c \<in> set u. is_word_char c" "repl \<noteq> []" "\<not> is_word_char (hd repl)"
  shows "\<exists>s'. s = u @ s' \<and> v = redactKeys k repl (last_char prev u) s'"
  using assms(1,2)
proof (induction u arbitrary: prev s)
  case Nil
  then show ?case by (simp add: last_char_def)
next
  case (Cons c u)
  obtain r rs where repl: "repl = r # rs" "\<not> is_word_char r" using assms(3,4) by (cases repl) auto
  show ?case
  proof (cases s)
    case Nil
    then show ?thesis using Cons.prems(1) by simp
  next
    case (Cons d cs)
    have "\<not> key_at k prev s"
    proof
      assume "key_at k prev s"
      from redact_key [OF this, of repl] show False using Cons.prems repl by simp
    qed
    then have "redactKeys k repl prev s = d # redactKeys k repl (Some d) cs" by (simp add: redact_skip Cons)
    then have "d = c" "redactKeys k repl (Some c) cs = u @ v" using Cons.prems(1) by simp_all
    with Cons.IH [of "Some c" cs] Cons.prems(2) Cons show ?thesis using last_char_Cons [of c u prev] by auto
  qed
qed

text \<open>So a key in the output at the place where the scan stands is a key in the input.\<close>

lemma redact_no_new_key:
  assumes "key_at k' prev (redactKeys k repl prev s)" "repl \<noteq> []" "\<not> is_word_char (hd repl)" "is_key_char k'"
  shows "key_at k' prev s"
proof -
  let ?o = "redactKeys k repl prev s"
  obtain c cs where o: "?o = c # cs" using assms(1) by (cases ?o) (auto simp: key_at_def)
  then have k: "\<not> is_word_opt prev" "c = k'" "55 \<le> length cs" "list_all is_key_char (take 55 cs)" "\<not> is_word_at (drop 55 cs)"
    using assms(1) by (simp_all add: key_at_def)
  let ?u = "c # take 55 cs"
  have split: "?o = ?u @ drop 55 cs" using o by simp
  moreover have word: "\<forall>c \<in> set ?u. is_word_char c" using k(2,4) assms(4) by (auto simp: list_all_iff intro: key_char_word)
  ultimately obtain s' where s': "s = ?u @ s'" "drop 55 cs = redactKeys k repl (last_char prev ?u) s'"
    using redact_copies [of k repl prev s ?u] assms(2,3) by blast
  have "\<not> is_word_at s'"
  proof
    assume w: "is_word_at s'"
    then obtain d ds where d: "s' = d # ds" "is_word_char d" by (cases s') (auto simp: is_word_at_def)
    have "last ?u \<in> set ?u" by (rule last_in_set) simp
    with word have "is_word_char (last ?u)" by blast
    then have "is_word_opt (last_char prev ?u)" by (simp add: is_word_opt_def last_char_def)
    then have "\<not> key_at k (last_char prev ?u) s'" by (simp add: key_at_def)
    then have "drop 55 cs = d # redactKeys k repl (Some d) ds" using s'(2) d(1) by (simp add: redact_skip)
    then show False using k(5) d(2) by (simp add: is_word_at_def)
  qed
  moreover have "length (take 55 cs) = 55" using k(3) by simp
  ultimately show ?thesis using k s' by (simp add: key_at_def)
qed

text \<open>No key starts inside a harmless replacement, and after it the text continues as before.\<close>

lemma has_key_harmless:
  assumes "\<forall>(p, c) \<in> set (zip (x # xs) xs). c = k \<longrightarrow> is_word_char p"
  shows "has_key k (Some x) (xs @ t) \<longleftrightarrow> has_key k (Some (last (x # xs))) t"
  using assms
proof (induction xs arbitrary: x)
  case (Cons y ys)
  have "\<not> key_at k (Some x) (y # ys @ t)" using Cons.prems by (auto simp: key_at_def is_word_opt_def)
  then show ?case using Cons.IH [of y] Cons.prems by simp
qed simp

lemma has_key_replacement:
  assumes "harmless k repl" "is_key_char k"
  shows "has_key k prev (repl @ t) \<longleftrightarrow> has_key k (Some (last repl)) t"
proof -
  obtain x xs where r: "repl = x # xs" "\<not> is_word_char x" using assms(1) by (cases repl) (auto simp: harmless_def)
  then have "\<not> key_at k prev (repl @ t)" using key_char_word [OF assms(2)] by (auto simp: key_at_def)
  then have "has_key k prev (repl @ t) \<longleftrightarrow> has_key k (Some x) (xs @ t)" using r by simp
  also have "\<dots> \<longleftrightarrow> has_key k (Some (last repl)) t"
    using has_key_harmless [of x xs k t] assms(1) r by (simp add: harmless_def list_all_iff)
  finally show ?thesis .
qed

lemma has_key_suffix: "has_key k (last_char prev u) v \<Longrightarrow> has_key k prev (u @ v)"
proof (induction u arbitrary: prev)
  case (Cons c u)
  then show ?case using last_char_Cons [of c u prev] by simp
qed (simp add: last_char_def)

lemma has_key_any_prev: "\<not> is_word_at t \<Longrightarrow> is_key_char k \<Longrightarrow> has_key k p t \<longleftrightarrow> has_key k q t"
  using key_char_word by (cases t) (auto simp: is_word_at_def key_at_def)

lemma redact_is_word_at: "repl \<noteq> [] \<Longrightarrow> \<not> is_word_char (hd repl) \<Longrightarrow> \<not> is_word_at s \<Longrightarrow> \<not> is_word_at (redactKeys k repl prev s)"
  by (cases s; cases repl; cases "key_at k prev s") (simp_all add: redact_key redact_skip is_word_at_def)

text \<open>Redacting keys of kind \<open>k\<close> leaves no key of kind \<open>k\<close>, and adds none of another kind.\<close>

lemma redact_has_key:
  assumes "harmless k' repl" "is_key_char k'" "k' = k \<or> \<not> has_key k' prev s"
  shows "\<not> has_key k' prev (redactKeys k repl prev s)"
  using assms
proof (induction k repl prev s rule: redactKeys.induct)
  case (1 k repl prev s)
  have h: "repl \<noteq> []" "\<not> is_word_char (hd repl)" using 1(3) by (simp_all add: harmless_def)
  show ?case
  proof (cases s)
    case (Cons c cs)
    show ?thesis
    proof (cases "key_at k prev s")
      case True
      let ?p = "Some (last (take 56 s))"
      have w: "\<not> is_word_at (drop 56 s)" using True Cons by (simp add: key_at_def)
      have "has_key k' ?p (drop 56 s) \<Longrightarrow> has_key k' prev s"
        using has_key_suffix [of k' prev "take 56 s" "drop 56 s"] Cons by (simp add: last_char_def)
      then have "k' = k \<or> \<not> has_key k' ?p (drop 56 s)" using 1(5) by blast
      then have "\<not> has_key k' ?p (redactKeys k repl ?p (drop 56 s))" using 1(1) [OF Cons True 1(3,4)] by (simp only: not_False_eq_True)
      moreover have "\<not> is_word_at (redactKeys k repl ?p (drop 56 s))" using redact_is_word_at [OF h w] .
      ultimately show ?thesis using has_key_any_prev 1(3,4) by (auto simp: redact_key [OF True] has_key_replacement)
    next
      case False
      then have o: "redactKeys k repl prev s = c # redactKeys k repl (Some c) cs" by (simp add: redact_skip Cons)
      have "\<not> key_at k' prev s" using 1(5) False Cons by auto
      then have "\<not> key_at k' prev (redactKeys k repl prev s)" using redact_no_new_key [of k' prev k repl s] h 1(4) by auto
      moreover have "\<not> has_key k' (Some c) (redactKeys k repl (Some c) cs)" using 1(2) [OF Cons] False 1(3-5) Cons by auto
      ultimately show ?thesis by (simp add: o)
    qed
  qed simp
qed

text \<open>
  No Stellar key survives redaction: whatever the value, the text that \<open>sanitizeStellarDiagnostic\<close> returns contains neither a secret key nor a public
  key, that is, no word of 56 characters that starts with \<open>S\<close> or \<open>G\<close> and continues with base-32 characters.
\<close>

theorem no_key_survives_redaction:
  "\<not> has_key (CHR ''S'') None (sanitizeStellarDiagnostic v) \<and> \<not> has_key (CHR ''G'') None (sanitizeStellarDiagnostic v)"
proof -
  let ?s = "redactKeys (CHR ''S'') REDACTED_STELLAR_SEED None (stringifyForDiagnostic v)"
  have h: "harmless (CHR ''S'') REDACTED_STELLAR_SEED" "harmless (CHR ''S'') REDACTED_PUBLIC_KEY" "harmless (CHR ''G'') REDACTED_PUBLIC_KEY"
    by (simp_all add: harmless_def REDACTED_STELLAR_SEED_def REDACTED_PUBLIC_KEY_def is_word_char_def is_digit_def)
  have k: "is_key_char (CHR ''S'')" "is_key_char (CHR ''G'')" by (simp_all add: is_key_char_def)
  have "\<not> has_key (CHR ''S'') None ?s" using redact_has_key [OF h(1) k(1)] by simp
  then have "\<not> has_key (CHR ''S'') None (redactKeys (CHR ''G'') REDACTED_PUBLIC_KEY None ?s)" using redact_has_key [OF h(2) k(1)] by simp
  moreover have "\<not> has_key (CHR ''G'') None (redactKeys (CHR ''G'') REDACTED_PUBLIC_KEY None ?s)" using redact_has_key [OF h(3) k(2)] by simp
  ultimately show ?thesis by (simp add: sanitizeStellarDiagnostic_def)
qed

end
