(* ===== verification/Reconciliation.thy ===== *)
theory Reconciliation
  imports CreditLineService JobQueue Diagnostics
begin

text \<open>
  Reconciliation of stored credit lines with the on-chain contract (\<open>src/services/reconciliationService.ts\<close>,
  \<open>src/services/reconciliationWorker.ts\<close>). What the contract returns, or the error its client throws, is the
  argument \<open>chain\<close>; the repository is read through the interface record. Logging is left out.
\<close>

record OnChainCreditRecord =
  oc_id :: string
  oc_walletAddress :: string
  oc_creditLimit :: string
  oc_availableCredit :: string
  oc_interestRateBps :: number
  oc_status :: string

datatype mismatch_value = MString string | MNumber number

datatype severity = Critical | Warning

record ReconciliationMismatch =
  mm_creditLineId :: string
  mm_walletAddress :: string
  mm_field :: string
  mm_dbValue :: mismatch_value
  mm_chainValue :: mismatch_value
  mm_severity :: severity

record ReconciliationResult =
  rr_timestamp :: time
  rr_totalChecked :: nat
  rr_mismatches :: "ReconciliationMismatch list"
  rr_errors :: "string list"

fun status_string :: "CreditLineStatus \<Rightarrow> string" where
  "status_string ACTIVE = ''active''"
| "status_string SUSPENDED = ''suspended''"
| "status_string CLOSED = ''closed''"
| "status_string PENDING_LINE = ''pending''"

definition walletKey :: "string \<Rightarrow> js_error + string" where
  "walletKey walletAddress =
     (let trimmed = js_trim walletAddress
      in if trimmed = [] then Inl (Error ''Borrower wallet address cannot be empty'') else Inr trimmed)"

text \<open>The loop of \<open>findDuplicateWallets\<close> with its two sets.\<close>

fun findDuplicateWallets_loop :: "string list \<Rightarrow> string list \<Rightarrow> string list \<Rightarrow> js_error + string list" where
  "findDuplicateWallets_loop [] seen duplicates = Inr duplicates"
| "findDuplicateWallets_loop (w # ws) seen duplicates =
     (case walletKey w of
        Inl e \<Rightarrow> Inl e
      | Inr key \<Rightarrow> findDuplicateWallets_loop ws (jsset_add key seen)
                    (if key \<in> set seen then jsset_add key duplicates else duplicates))"

definition findDuplicateWallets :: "string list \<Rightarrow> js_error + string list" where
  "findDuplicateWallets ws = findDuplicateWallets_loop ws [] []"

definition reconciliationDiagnostic :: "string \<Rightarrow> string" where
  "reconciliationDiagnostic message = sanitizeStellarDiagnostic (DiagString message)"

section \<open>Decimal comparison\<close>

text \<open>\<open>/^([+-]?)(\d+)(?:\.(\d+))?$/\<close>: sign, whole digits, fraction digits.\<close>

definition decimal_match :: "string \<Rightarrow> (bool \<times> string \<times> string) option" where
  "decimal_match s =
     (let (neg, rest) = (case s of c # cs \<Rightarrow> if c = CHR ''-'' then (True, cs) else if c = CHR ''+'' then (False, cs) else (False, s)
                         | [] \<Rightarrow> (False, []));
          whole = takeWhile is_digit rest; r = dropWhile is_digit rest
      in if whole = [] then None
         else case r of
                [] \<Rightarrow> Some (neg, whole, [])
              | c # f \<Rightarrow> if c = CHR ''.'' \<and> f \<noteq> [] \<and> list_all is_digit f then Some (neg, whole, f) else None)"

definition strip_trailing_zeros :: "string \<Rightarrow> string" where
  "strip_trailing_zeros ds = rev (dropWhile (\<lambda>c. c = CHR ''0'') (rev ds))"

definition parseDecimalForComparison :: "string \<Rightarrow> (int \<times> nat) option" where
  "parseDecimalForComparison s =
     (case decimal_match (js_trim s) of
        None \<Rightarrow> None
      | Some (neg, whole, frc) \<Rightarrow>
          let sign = (if neg then - 1 else 1);
              fraction = strip_trailing_zeros frc;
              digits = (let d = dropWhile (\<lambda>c. c = CHR ''0'') (whole @ fraction) in if d = [] then ''0'' else d);
              magnitude = int (nat_of_digits digits)
          in if magnitude = 0 then Some (0, 0) else Some (sign * magnitude, length fraction))"

definition decimalStringsEqual :: "string \<Rightarrow> string \<Rightarrow> bool" where
  "decimalStringsEqual left right =
     (case (parseDecimalForComparison left, parseDecimalForComparison right) of
        (Some (lv, ls), Some (rv, rs)) \<Rightarrow> lv = rv \<and> ls = rs
      | _ \<Rightarrow> left = right)"

section \<open>Reading the database\<close>

function fetchAllDbCreditLines_loop ::
  "(int option \<Rightarrow> int option \<Rightarrow> CreditLine list) \<Rightarrow> int \<Rightarrow> CreditLine list \<Rightarrow> js_error + CreditLine list" where
  "fetchAllDbCreditLines_loop findAll offset acc =
     (let page = findAll (Some offset) (Some 1000); all = acc @ page
      in if length all > 10000
         then Inl (Error ''Reconciliation exceeded 10000 database credit lines; shard or raise the configured cap'')
         else if length page < 1000 then Inr all
         else fetchAllDbCreditLines_loop findAll (offset + 1000) all)"
  by pat_completeness auto
termination
  by (relation "measure (\<lambda>(_, _, acc). 10001 - length acc)") auto

declare fetchAllDbCreditLines_loop.simps [simp del]

definition fetchAllDbCreditLines :: "'s CreditLineRepository \<Rightarrow> 's \<Rightarrow> js_error + CreditLine list" where
  "fetchAllDbCreditLines R s = fetchAllDbCreditLines_loop (repo_findAll R s) 0 []"

section \<open>Comparing\<close>

definition mismatch :: "string \<Rightarrow> string \<Rightarrow> string \<Rightarrow> mismatch_value \<Rightarrow> mismatch_value \<Rightarrow> severity \<Rightarrow> ReconciliationMismatch" where
  "mismatch lineId wallet field db ch sev = \<lparr>mm_creditLineId = lineId, mm_walletAddress = wallet, mm_field = field,
     mm_dbValue = db, mm_chainValue = ch, mm_severity = sev\<rparr>"

text \<open>The mismatches \<open>compareFields\<close> pushes. It is reached only for wallets whose keys exist, so the
  keys are passed in.\<close>

definition ReconciliationService_compareFields ::
  "string \<Rightarrow> string \<Rightarrow> CreditLine \<Rightarrow> OnChainCreditRecord \<Rightarrow> ReconciliationMismatch list" where
  "ReconciliationService_compareFields dbWalletKey chainWalletKey dbLine chainRecord =
     (if dbWalletKey \<noteq> chainWalletKey
      then [mismatch (cl_id dbLine) dbWalletKey ''walletAddress'' (MString dbWalletKey) (MString chainWalletKey) Critical]
      else if cl_walletAddress dbLine \<noteq> oc_walletAddress chainRecord
      then [mismatch (cl_id dbLine) dbWalletKey ''walletAddressFormatting''
              (MString (sanitizeStellarDiagnostic (DiagString (cl_walletAddress dbLine))))
              (MString (sanitizeStellarDiagnostic (DiagString (oc_walletAddress chainRecord)))) Warning]
      else []) @
     (if \<not> decimalStringsEqual (cl_creditLimit dbLine) (oc_creditLimit chainRecord)
      then [mismatch (cl_id dbLine) (cl_walletAddress dbLine) ''creditLimit''
              (MString (cl_creditLimit dbLine)) (MString (oc_creditLimit chainRecord)) Critical] else []) @
     (if \<not> decimalStringsEqual (cl_availableCredit dbLine) (oc_availableCredit chainRecord)
      then [mismatch (cl_id dbLine) (cl_walletAddress dbLine) ''availableCredit''
              (MString (cl_availableCredit dbLine)) (MString (oc_availableCredit chainRecord)) Warning] else []) @
     (if \<not> num_eq (cl_interestRateBps dbLine) (oc_interestRateBps chainRecord)
      then [mismatch (cl_id dbLine) (cl_walletAddress dbLine) ''interestRateBps''
              (MNumber (cl_interestRateBps dbLine)) (MNumber (oc_interestRateBps chainRecord)) Warning] else []) @
     (if status_string (cl_status dbLine) \<noteq> oc_status chainRecord
      then [mismatch (cl_id dbLine) (cl_walletAddress dbLine) ''status''
              (MString (status_string (cl_status dbLine))) (MString (oc_status chainRecord)) Critical] else [])"

text \<open>\<open>new Map(xs.map(x => [walletKey(x), x]))\<close>: later entries win.\<close>

fun keyed :: "('a \<Rightarrow> string) \<Rightarrow> 'a list \<Rightarrow> js_error + (string, 'a) jsmap" where
  "keyed wallet xs = foldl (\<lambda>acc x. case acc of
       Inl e \<Rightarrow> Inl e
     | Inr m \<Rightarrow> (case walletKey (wallet x) of Inl e \<Rightarrow> Inl e | Inr k \<Rightarrow> Inr (jsmap_set k x m))) (Inr jsmap_empty) xs"

declare keyed.simps [simp del]

text \<open>The two comparison loops. \<open>walletKey\<close> is applied only to wallets it has accepted before; on an
  error the loops stop and the error reaches the handler of \<open>reconcile\<close>.\<close>

fun reconcileDbLoop ::
  "(string, OnChainCreditRecord) jsmap \<Rightarrow> CreditLine list \<Rightarrow> js_error + ReconciliationMismatch list" where
  "reconcileDbLoop chainMap [] = Inr []"
| "reconcileDbLoop chainMap (dbLine # rest) =
     (case walletKey (cl_walletAddress dbLine) of
        Inl e \<Rightarrow> Inl e
      | Inr dbKey \<Rightarrow>
          (case (case jsmap_get chainMap dbKey of
                   None \<Rightarrow> Inr [mismatch (cl_id dbLine) (cl_walletAddress dbLine) ''existence''
                               (MString ''exists'') (MString ''missing'') Critical]
                 | Some chainRecord \<Rightarrow>
                     (case walletKey (oc_walletAddress chainRecord) of
                        Inl e \<Rightarrow> Inl e
                      | Inr chainKey \<Rightarrow> Inr (ReconciliationService_compareFields dbKey chainKey dbLine chainRecord))) of
             Inl e \<Rightarrow> Inl e
           | Inr ms \<Rightarrow> (case reconcileDbLoop chainMap rest of Inl e \<Rightarrow> Inl e | Inr ms' \<Rightarrow> Inr (ms @ ms'))))"

fun reconcileChainLoop ::
  "(string, CreditLine) jsmap \<Rightarrow> OnChainCreditRecord list \<Rightarrow> js_error + ReconciliationMismatch list" where
  "reconcileChainLoop dbMap [] = Inr []"
| "reconcileChainLoop dbMap (chainRecord # rest) =
     (case walletKey (oc_walletAddress chainRecord) of
        Inl e \<Rightarrow> Inl e
      | Inr key \<Rightarrow>
          (case reconcileChainLoop dbMap rest of
             Inl e \<Rightarrow> Inl e
           | Inr ms \<Rightarrow>
               Inr ((if jsmap_has dbMap key then []
                     else [mismatch (oc_id chainRecord) (oc_walletAddress chainRecord) ''existence''
                             (MString ''missing'') (MString ''exists'') Critical]) @ ms)))"

text \<open>The body of the \<open>try\<close> block: what it has found when it ends, or the error it throws together with
  \<open>totalChecked\<close> at that moment. No mismatch has been pushed before an error: every wallet is checked by
  \<open>findDuplicateWallets\<close> first.\<close>

definition reconcileBody ::
  "(js_error + CreditLine list) \<Rightarrow> (js_error + OnChainCreditRecord list) \<Rightarrow>
     (nat \<times> js_error) + (nat \<times> ReconciliationMismatch list \<times> string list)" where
  "reconcileBody db chain =
     (case db of Inl e \<Rightarrow> Inl (0, e) | Inr dbCreditLines \<Rightarrow>
      case chain of Inl e \<Rightarrow> Inl (0, e) | Inr chainRecords \<Rightarrow>
      let checked = max (length dbCreditLines) (length chainRecords)
      in case findDuplicateWallets (map cl_walletAddress dbCreditLines) of Inl e \<Rightarrow> Inl (checked, e) | Inr dupDb \<Rightarrow>
         case findDuplicateWallets (map oc_walletAddress chainRecords) of Inl e \<Rightarrow> Inl (checked, e) | Inr dupChain \<Rightarrow>
         let errors = map (\<lambda>w. reconciliationDiagnostic (''Duplicate database credit lines for borrower wallet '' @ w)) dupDb @
                      map (\<lambda>w. reconciliationDiagnostic (''Duplicate on-chain credit records for borrower wallet '' @ w)) dupChain
         in if errors \<noteq> [] then Inr (checked, [], errors)
            else case keyed cl_walletAddress dbCreditLines of Inl e \<Rightarrow> Inl (checked, e) | Inr dbMap \<Rightarrow>
                 case keyed oc_walletAddress chainRecords of Inl e \<Rightarrow> Inl (checked, e) | Inr chainMap \<Rightarrow>
                 case reconcileDbLoop chainMap dbCreditLines of Inl e \<Rightarrow> Inl (checked, e) | Inr ms1 \<Rightarrow>
                 case reconcileChainLoop dbMap chainRecords of Inl e \<Rightarrow> Inl (checked, e) | Inr ms2 \<Rightarrow>
                 Inr (checked, ms1 @ ms2, []))"

definition ReconciliationService_reconcile ::
  "'s CreditLineRepository \<Rightarrow> 's \<Rightarrow> (js_error + OnChainCreditRecord list) \<Rightarrow> time \<Rightarrow> ReconciliationResult" where
  "ReconciliationService_reconcile R s chain now =
     (case reconcileBody (fetchAllDbCreditLines R s) chain of
        Inl (checked, e) \<Rightarrow> \<lparr>rr_timestamp = now, rr_totalChecked = checked, rr_mismatches = [],
          rr_errors = [sanitizeStellarDiagnostic (DiagError e)]\<rparr>
      | Inr (checked, ms, errors) \<Rightarrow> \<lparr>rr_timestamp = now, rr_totalChecked = checked, rr_mismatches = ms, rr_errors = errors\<rparr>)"

section \<open>Scheduling and the worker\<close>

definition reconciliationCall :: "int \<Rightarrow> unit enqueue_call" where
  "reconciliationCall delayMs = \<lparr>enq_type = ''credit-reconciliation'', enq_payload = (), enq_maxAttempts = Some 3,
     enq_delayMs = Some delayMs, enq_id = None\<rparr>"

definition ReconciliationService_scheduleReconciliation ::
  "int \<Rightarrow> time \<Rightarrow> (unit, 'w) job_queue \<Rightarrow> string \<times> (unit, 'w) job_queue" where
  "ReconciliationService_scheduleReconciliation delayMs now q = InMemoryJobQueue_enqueue (reconciliationCall delayMs) now q"

definition criticalCount :: "ReconciliationResult \<Rightarrow> nat" where
  "criticalCount result = length (filter (\<lambda>m. mm_severity m = Critical) (rr_mismatches result))"

definition reconciliationOutcome :: "ReconciliationResult \<Rightarrow> string + unit" where
  "reconciliationOutcome result =
     (if rr_mismatches result \<noteq> [] \<and> criticalCount result > 0
      then Inl (''Critical reconciliation mismatches detected: '' @ digits_of_nat (criticalCount result) @ '' critical issues found'')
      else if rr_errors result \<noteq> []
      then Inl (''Reconciliation errors: '' @
             js_join '', '' (map (\<lambda>e. sanitizeStellarDiagnostic (DiagString e)) (rr_errors result)))
      else Inr ())"

text \<open>The handler the worker registers; \<open>reconcile\<close> is the service's operation in the current world.\<close>

definition ReconciliationWorker_handler :: "('w \<Rightarrow> ReconciliationResult) \<Rightarrow> (unit, 'w) job_handler" where
  "ReconciliationWorker_handler reconcile job w = ([], reconciliationOutcome (reconcile w), w)"

definition ReconciliationWorker_new :: "('w \<Rightarrow> ReconciliationResult) \<Rightarrow> (unit, 'w) job_queue \<Rightarrow> (unit, 'w) job_queue" where
  "ReconciliationWorker_new reconcile q =
     InMemoryJobQueue_registerHandler ''credit-reconciliation'' (ReconciliationWorker_handler reconcile) q"

record reconciliation_worker =
  rw_running :: bool
  rw_interval :: "int option"

definition ReconciliationWorker_start ::
  "int option \<Rightarrow> bool option \<Rightarrow> time \<Rightarrow> reconciliation_worker \<times> (unit, 'w) job_queue \<Rightarrow>
     reconciliation_worker \<times> (unit, 'w) job_queue" where
  "ReconciliationWorker_start intervalMs runImmediately now s =
     (case s of (wk, q) \<Rightarrow>
        if rw_running wk then (wk, q)
        else let q1 = InMemoryJobQueue_start q;
                 q2 = (if (case runImmediately of Some b \<Rightarrow> b | None \<Rightarrow> True)
                       then snd (ReconciliationService_scheduleReconciliation 0 now q1) else q1)
             in (wk\<lparr>rw_running := True, rw_interval := Some (case intervalMs of Some i \<Rightarrow> i | None \<Rightarrow> 3600000)\<rparr>, q2))"

definition ReconciliationWorker_tick ::
  "time \<Rightarrow> reconciliation_worker \<times> (unit, 'w) job_queue \<Rightarrow> reconciliation_worker \<times> (unit, 'w) job_queue" where
  "ReconciliationWorker_tick now s =
     (case s of (wk, q) \<Rightarrow>
        if rw_interval wk = None then (wk, q)
        else (wk, snd (ReconciliationService_scheduleReconciliation 0 now q)))"

definition ReconciliationWorker_stop :: "reconciliation_worker \<Rightarrow> reconciliation_worker" where
  "ReconciliationWorker_stop wk = (if \<not> rw_running wk then wk else wk\<lparr>rw_interval := None, rw_running := False\<rparr>)"

section \<open>The comparison of decimals is numeric\<close>

text \<open>The number a decimal string denotes.\<close>

definition decimal_value :: "string \<Rightarrow> rat option" where
  "decimal_value s =
     (case decimal_match (js_trim s) of
        None \<Rightarrow> None
      | Some (neg, whole, frc) \<Rightarrow>
          Some ((if neg then - 1 else 1) * of_nat (nat_of_digits (whole @ frc)) / 10 ^ length frc))"

lemma pad_digits:
  fixes d n :: nat
  defines "ds \<equiv> js_padStart (d + 1) (CHR ''0'') (digits_of_nat n)"
  shows "\<forall>c \<in> set ds. is_digit c" "d < length ds" "nat_of_digits ds = n"
  using digits_of_nat_digits by (auto simp: ds_def js_padStart_def nat_of_digits_append)

lemma decimal_match_plain:
  assumes "whole \<noteq> []" "\<forall>c \<in> set whole. is_digit c" "\<forall>c \<in> set frc. is_digit c"
  shows "decimal_match ((if neg then ''-'' else []) @ whole @ (if frc \<noteq> [] then ''.'' @ frc else [])) = Some (neg, whole, frc)"
proof -
  obtain c cs where w: "whole = c # cs" "is_digit c" using assms by (cases whole) auto
  then have "c \<noteq> CHR ''-''" "c \<noteq> CHR ''+''" using is_digit_not_ws by auto
  moreover have "takeWhile is_digit (whole @ (if frc \<noteq> [] then ''.'' @ frc else [])) = whole"
    "dropWhile is_digit (whole @ (if frc \<noteq> [] then ''.'' @ frc else [])) = (if frc \<noteq> [] then ''.'' @ frc else [])"
    using takeWhile_digits [of whole "if frc \<noteq> [] then ''.'' @ frc else []"] assms(2) by auto
  ultimately show ?thesis using assms w by (auto simp: decimal_match_def Let_def list_all_iff)
qed

lemma digits_no_trim:
  assumes "\<forall>c \<in> set ds. is_digit c \<or> c = CHR ''.'' \<or> c = CHR ''-''"
  shows "js_trim ds = ds"
  by (rule js_trim_no_ws) (use assms is_digit_not_ws in \<open>auto simp: is_ws_def\<close>)

text \<open>An integer printed with its last \<open>d\<close> digits after a point denotes it divided by ten to the \<open>d\<close>.\<close>

lemma fixed_point_value:
  fixes big :: int and d :: nat
  defines "ds \<equiv> js_padStart (d + 1) (CHR ''0'') (digits_of_nat (nat \<bar>big\<bar>))"
  defines "w \<equiv> take (length ds - d) ds" and "f \<equiv> drop (length ds - d) ds"
  defines "a \<equiv> (if big < 0 then ''-'' else []) @ w @ (if f \<noteq> [] then ''.'' @ f else [])"
  shows "decimal_match a = Some (big < 0, w, f)" "decimal_value a = Some (of_int big / 10 ^ d)"
proof -
  note pd = pad_digits [of d "nat \<bar>big\<bar>", folded ds_def]
  have sets: "w \<noteq> []" "\<forall>c \<in> set w. is_digit c" "\<forall>c \<in> set f. is_digit c"
    using pd by (auto simp: w_def f_def dest: in_set_takeD in_set_dropD)
  show mt: "decimal_match a = Some (big < 0, w, f)" unfolding a_def by (rule decimal_match_plain [OF sets])
  have trim: "js_trim a = a" by (rule digits_no_trim) (use sets in \<open>auto simp: a_def split: if_splits\<close>)
  have len: "length f = d" using pd(2) by (simp add: f_def)
  have "w @ f = ds" unfolding w_def f_def by (rule append_take_drop_id)
  then have nd: "nat_of_digits (w @ f) = nat \<bar>big\<bar>" using pd(3) by simp
  have "decimal_value a = Some ((if big < 0 then - 1 else 1) * of_nat (nat \<bar>big\<bar>) / 10 ^ d)"
    unfolding decimal_value_def trim mt by (simp only: option.case prod.case nd len)
  also have "(if big < 0 then - 1 else 1) * of_nat (nat \<bar>big\<bar>) = (of_int big :: rat)" by (simp add: of_nat_nat)
  finally show "decimal_value a = Some (of_int big / 10 ^ d)" .
qed

lemma show_int_value: "decimal_value (show_int i) = Some (of_int i)"
proof -
  have "js_padStart (0 + 1) (CHR ''0'') (digits_of_nat n) = digits_of_nat n" for n
    using digits_of_nat_not_Nil [of n] by (cases "digits_of_nat n") (simp_all add: js_padStart_def)
  with fixed_point_value(2) [where big = i and d = 0] show ?thesis by (auto simp: show_int_def)
qed

lemma nat_of_digits_drop_zeros: "nat_of_digits (dropWhile (\<lambda>c. c = CHR ''0'') ds) = nat_of_digits ds"
  by (induction ds) (auto simp: nat_of_digits_Cons digit_val_def)

lemma nat_of_digits_normal:
  "nat_of_digits (if dropWhile (\<lambda>c. c = CHR ''0'') ds = [] then ''0'' else dropWhile (\<lambda>c. c = CHR ''0'') ds) = nat_of_digits ds"
proof (cases "dropWhile (\<lambda>c. c = CHR ''0'') ds = []")
  case True
  have "nat_of_digits ''0'' = nat_of_digits []" by (simp add: nat_of_digits_Cons digit_val_def)
  with True show ?thesis using nat_of_digits_drop_zeros [of ds] by (simp only: if_True simp_thms)
next
  case False
  then show ?thesis using nat_of_digits_drop_zeros [of ds] by (simp only: if_False simp_thms)
qed

lemma strip_trailing_zeros_split:
  "\<exists>n. ds = strip_trailing_zeros ds @ replicate n (CHR ''0'')"
proof -
  let ?P = "\<lambda>c. c = CHR ''0''"
  have "rev (takeWhile ?P (rev ds) @ dropWhile ?P (rev ds)) = ds" by (simp only: takeWhile_dropWhile_id rev_rev_ident)
  then have "ds = rev (dropWhile ?P (rev ds)) @ rev (takeWhile ?P (rev ds))" by (simp only: rev_append)
  moreover have "takeWhile ?P (rev ds) = replicate (length (takeWhile ?P (rev ds))) (CHR ''0'')"
    by (rule replicate_eqI) (auto dest: set_takeWhileD)
  then have "rev (takeWhile ?P (rev ds)) = replicate (length (takeWhile ?P (rev ds))) (CHR ''0'')" by (metis rev_replicate)
  ultimately have "ds = strip_trailing_zeros ds @ replicate (length (takeWhile ?P (rev ds))) (CHR ''0'')"
    unfolding strip_trailing_zeros_def by (simp only:)
  then show ?thesis by (rule exI)
qed

lemma strip_trailing_zeros_last:
  "strip_trailing_zeros ds \<noteq> [] \<Longrightarrow> last (strip_trailing_zeros ds) \<noteq> CHR ''0''"
  unfolding strip_trailing_zeros_def last_rev using hd_dropWhile [of "\<lambda>c. c = CHR ''0''" "rev ds"] by simp

lemma set_strip_trailing_zeros: "set (strip_trailing_zeros ds) \<subseteq> set ds"
  unfolding strip_trailing_zeros_def by (auto dest: set_dropWhileD)

lemma decimal_match_digits:
  assumes "decimal_match s = Some (neg, whole, frc)"
  shows "whole \<noteq> []" "\<forall>c \<in> set whole. is_digit c" "\<forall>c \<in> set frc. is_digit c"
  using assms
  by (auto simp: decimal_match_def Let_def list_all_iff split: list.splits if_splits prod.splits dest: set_takeWhileD)

text \<open>The value and scale that are compared: the exact value in lowest decimal terms.\<close>

lemma parseDecimal_Some_iff: "parseDecimalForComparison s = None \<longleftrightarrow> decimal_value s = None"
  by (auto simp: parseDecimalForComparison_def decimal_value_def Let_def split: option.splits)

lemma parseDecimal_value:
  assumes "parseDecimalForComparison s = Some (v, k)"
  shows "decimal_value s = Some (of_int v / 10 ^ k)" and "k = 0 \<or> \<not> 10 dvd v"
proof -
  obtain neg whole frc where m: "decimal_match (js_trim s) = Some (neg, whole, frc)"
    using assms by (auto simp: parseDecimalForComparison_def split: option.splits)
  note dg = decimal_match_digits [OF m]
  let ?f = "strip_trailing_zeros frc"
  let ?mag = "nat_of_digits (whole @ ?f)"
  have mag: "nat_of_digits (if dropWhile (\<lambda>c. c = CHR ''0'') (whole @ ?f) = [] then ''0'' else dropWhile (\<lambda>c. c = CHR ''0'') (whole @ ?f)) = ?mag"
    by (rule nat_of_digits_normal)
  have vk: "(v, k) = (if ?mag = 0 then (0, 0) else ((if neg then - 1 else 1) * int ?mag, length ?f))"
    using assms unfolding parseDecimalForComparison_def m option.case prod.case Let_def mag
    by (auto split: if_splits)
  obtain n where n: "frc = ?f @ replicate n (CHR ''0'')" using strip_trailing_zeros_split by blast
  then have "nat_of_digits (whole @ frc) = nat_of_digits (whole @ ?f @ replicate n (CHR ''0''))" by (rule arg_cong)
  also have "\<dots> = nat_of_digits ((whole @ ?f) @ replicate n (CHR ''0''))" by (simp only: append_assoc)
  also have "\<dots> = ?mag * 10 ^ n" by (subst nat_of_digits_append) simp
  finally have nd: "nat_of_digits (whole @ frc) = ?mag * 10 ^ n" .
  have "length frc = length (?f @ replicate n (CHR ''0''))" using n by (rule arg_cong)
  then have len: "length frc = length ?f + n" by (simp only: length_append length_replicate)
  show "decimal_value s = Some (of_int v / 10 ^ k)"
    using vk by (auto simp: decimal_value_def m nd len power_add split: if_splits)
  show "k = 0 \<or> \<not> 10 dvd v"
  proof (cases "?mag = 0 \<or> ?f = []")
    case False
    then obtain f c where f: "?f = f @ [c]" by (metis rev_exhaust)
    have c: "is_digit c" "c \<noteq> CHR ''0''"
      using dg(3) set_strip_trailing_zeros [of frc] strip_trailing_zeros_last [of frc] f by auto
    have "of_char c \<noteq> (of_char (CHR ''0'') :: nat)" using c(2) by (simp only: of_char_eq_iff not_False_eq_True)
    then have "digit_val c \<noteq> 0" using c(1) by (simp add: digit_val_def is_digit_def)
    moreover have "digit_val c < 10" by (rule digit_val_less [OF c(1)])
    moreover have "?mag = 10 * nat_of_digits (whole @ f) + digit_val c"
      using nat_of_digits_snoc [of "whole @ f" c] by (simp add: f)
    ultimately have "\<not> 10 dvd ?mag" by presburger
    then have "\<not> 10 dvd int ?mag" by (metis int_dvd_int_iff of_nat_numeral)
    then show ?thesis using vk False by auto
  qed (use vk in \<open>auto split: if_splits\<close>)
qed

lemma lowest_decimal_unique:
  fixes v w :: int
  assumes "(of_int v / 10 ^ k :: rat) = of_int w / 10 ^ l" "k = 0 \<or> \<not> 10 dvd v" "k \<le> l" "l = 0 \<or> \<not> 10 dvd w"
  shows "v = w \<and> k = l"
proof -
  obtain d where d: "l = k + d" using assms(3) le_iff_add by blast
  have "(of_int v * 10 ^ d :: rat) = of_int w"
    using assms(1) by (simp add: d power_add field_simps)
  then have w: "w = v * 10 ^ d" by (metis of_int_eq_iff of_int_mult of_int_numeral of_int_power)
  show ?thesis
  proof (cases d)
    case (Suc e)
    then have "10 dvd w" by (simp add: w)
    then show ?thesis using assms(4) Suc d by simp
  qed (use w d in simp)
qed

lemma decimalStringsEqual_iff:
  "decimalStringsEqual l r \<longleftrightarrow>
     (if decimal_value l = None \<or> decimal_value r = None then l = r else decimal_value l = decimal_value r)"
proof (cases "parseDecimalForComparison l = None \<or> parseDecimalForComparison r = None")
  case True
  with parseDecimal_Some_iff [of l] parseDecimal_Some_iff [of r] show ?thesis
    by (auto simp: decimalStringsEqual_def split: option.splits)
next
  case False
  then obtain v k w m where l: "parseDecimalForComparison l = Some (v, k)" and r: "parseDecimalForComparison r = Some (w, m)" by auto
  note L = parseDecimal_value [OF l] and R = parseDecimal_value [OF r]
  have "v = w \<and> k = m" if "(of_int v / 10 ^ k :: rat) = of_int w / 10 ^ m"
    using lowest_decimal_unique [of v k w m] lowest_decimal_unique [of w m v k] that L(2) R(2) by (cases "k \<le> m") auto
  then show ?thesis using L(1) R(1) l r by (auto simp: decimalStringsEqual_def)
qed

text \<open>
  The string comparison of amounts is numeric: for two decimal strings, \<open>decimalStringsEqual\<close> holds exactly when
  they denote the same rational number (whatever their padding, signs and zeros); if one of them is not a
  decimal, it is plain string equality.
\<close>

theorem decimalStringsEqual_numeric:
  "decimalStringsEqual l r \<longleftrightarrow>
     (if decimal_value l = None \<or> decimal_value r = None then l = r else decimal_value l = decimal_value r)"
  by (rule decimalStringsEqual_iff)

section \<open>Reading all rows\<close>

lemma fetchAll_loop_pages:
  assumes "\<And>off. findAll (Some (int off)) (Some 1000) = take 1000 (drop off xs)"
  shows "n \<le> length xs \<Longrightarrow> fetchAllDbCreditLines_loop findAll (int n) (take n xs) =
     (if length xs > 10000
      then Inl (Error ''Reconciliation exceeded 10000 database credit lines; shard or raise the configured cap'') else Inr xs)"
proof (induction "length xs - n" arbitrary: n rule: less_induct)
  case less
  let ?page = "take 1000 (drop n xs)"
  have all: "take n xs @ ?page = take (n + 1000) xs" by (simp add: take_add)
  have unfold: "fetchAllDbCreditLines_loop findAll (int n) (take n xs) =
     (if length (take (n + 1000) xs) > 10000
      then Inl (Error ''Reconciliation exceeded 10000 database credit lines; shard or raise the configured cap'')
      else if length ?page < 1000 then Inr (take (n + 1000) xs)
      else fetchAllDbCreditLines_loop findAll (int (n + 1000)) (take (n + 1000) xs))"
    by (subst fetchAllDbCreditLines_loop.simps) (simp only: Let_def assms all of_nat_add of_nat_numeral)
  show ?case
  proof (cases "length ?page < 1000")
    case True
    then have "length xs < n + 1000" using less.prems by auto
    then show ?thesis unfolding unfold using True by auto
  next
    case False
    then have "n + 1000 \<le> length xs" by auto
    with less.hyps [of "n + 1000"] show ?thesis unfolding unfold using False by auto
  qed
qed

lemma fetchAll_mem:
  "fetchAllDbCreditLines (inMemoryCreditLines lc) m =
     (if length m > 10000
      then Inl (Error ''Reconciliation exceeded 10000 database credit lines; shard or raise the configured cap'')
      else Inr (InMemoryCreditLineRepository_sortByNewest lc (jsmap_values m)))"
proof -
  let ?xs = "InMemoryCreditLineRepository_sortByNewest lc (jsmap_values m)"
  have "repo_findAll (inMemoryCreditLines lc) m (Some (int off)) (Some 1000) = take 1000 (drop off ?xs)" for off
    using findAll_page [of "int off" 1000 lc m] by (simp add: inMemoryCreditLines_def)
  from fetchAll_loop_pages [of "repo_findAll (inMemoryCreditLines lc) m" ?xs 0, OF this] show ?thesis
    by (simp add: fetchAllDbCreditLines_def sortByNewest_alt jsmap_values_def)
qed

section \<open>What a clean reconciliation means\<close>

definition records_agree :: "CreditLine \<Rightarrow> OnChainCreditRecord \<Rightarrow> bool" where
  "records_agree d c \<longleftrightarrow> cl_walletAddress d = oc_walletAddress c \<and>
     decimalStringsEqual (cl_creditLimit d) (oc_creditLimit c) \<and>
     decimalStringsEqual (cl_availableCredit d) (oc_availableCredit c) \<and>
     num_eq (cl_interestRateBps d) (oc_interestRateBps c) \<and> status_string (cl_status d) = oc_status c"

lemma walletKey_eq: "js_trim w \<noteq> [] \<Longrightarrow> walletKey w = Inr (js_trim w)"
  by (simp add: walletKey_def Let_def)

lemma walletKey_blank: "js_trim w = [] \<Longrightarrow> \<exists>e. walletKey w = Inl e"
  by (simp add: walletKey_def Let_def)

lemma findDuplicateWallets_loop_blank:
  "w \<in> set ws \<Longrightarrow> js_trim w = [] \<Longrightarrow> \<exists>e. findDuplicateWallets_loop ws seen d = Inl e"
proof (induction ws arbitrary: seen d)
  case (Cons v vs)
  then show ?case using walletKey_blank [of v] by (cases "walletKey v") auto
qed simp

lemma findDuplicateWallets_loop_ok:
  "(\<And>w. w \<in> set ws \<Longrightarrow> js_trim w \<noteq> []) \<Longrightarrow>
     \<exists>d'. findDuplicateWallets_loop ws seen d = Inr d' \<and>
       (d' = [] \<longleftrightarrow> d = [] \<and> distinct (map js_trim ws) \<and> set (map js_trim ws) \<inter> set seen = {})"
proof (induction ws arbitrary: seen d)
  case (Cons w ws)
  let ?k = "js_trim w"
  have step: "findDuplicateWallets_loop (w # ws) seen d =
      findDuplicateWallets_loop ws (jsset_add ?k seen) (if ?k \<in> set seen then jsset_add ?k d else d)"
    using Cons.prems by (simp add: walletKey_eq)
  obtain d' where d': "findDuplicateWallets_loop ws (jsset_add ?k seen) (if ?k \<in> set seen then jsset_add ?k d else d) = Inr d'"
    and iff: "d' = [] \<longleftrightarrow> (if ?k \<in> set seen then jsset_add ?k d else d) = [] \<and> distinct (map js_trim ws) \<and>
        set (map js_trim ws) \<inter> set (jsset_add ?k seen) = {}"
    using Cons.IH [of "jsset_add ?k seen" "if ?k \<in> set seen then jsset_add ?k d else d"] Cons.prems by auto
  have "jsset_add ?k d \<noteq> []" by (auto simp: jsset_add_def)
  then show ?case using d' iff step by (intro exI [of _ d']) auto
qed simp

lemma keyed_snoc:
  "keyed wallet (xs @ [x]) = (case keyed wallet xs of Inl e \<Rightarrow> Inl e
     | Inr m \<Rightarrow> (case walletKey (wallet x) of Inl e \<Rightarrow> Inl e | Inr k \<Rightarrow> Inr (jsmap_set k x m)))"
  by (simp add: keyed.simps)

lemma keyed_get:
  assumes "\<And>x. x \<in> set xs \<Longrightarrow> js_trim (wallet x) \<noteq> []"
  shows "\<exists>m. keyed wallet xs = Inr m \<and> jsmap_get m = map_of (rev (map (\<lambda>x. (js_trim (wallet x), x)) xs))"
  using assms
proof (induction xs rule: rev_induct)
  case (snoc x xs)
  then obtain m where "keyed wallet xs = Inr m" "jsmap_get m = map_of (rev (map (\<lambda>x. (js_trim (wallet x), x)) xs))" by auto
  then show ?case using snoc.prems by (simp add: keyed_snoc walletKey_eq fun_eq_iff)
qed (simp add: keyed.simps fun_eq_iff)

lemma keyed_distinct:
  assumes "\<And>x. x \<in> set xs \<Longrightarrow> js_trim (wallet x) \<noteq> []" "distinct (map (\<lambda>x. js_trim (wallet x)) xs)"
  shows "\<exists>m. keyed wallet xs = Inr m \<and> (\<forall>k x. jsmap_get m k = Some x \<longleftrightarrow> x \<in> set xs \<and> js_trim (wallet x) = k)"
proof -
  obtain m where m: "keyed wallet xs = Inr m" "jsmap_get m = map_of (rev (map (\<lambda>x. (js_trim (wallet x), x)) xs))"
    using keyed_get [of xs wallet] assms(1) by blast
  have "distinct (map fst (map (\<lambda>x. (js_trim (wallet x), x)) xs))" using assms(2) by (simp add: o_def)
  then have "distinct (map fst (rev (map (\<lambda>x. (js_trim (wallet x), x)) xs)))" by (simp only: rev_map [symmetric] distinct_rev)
  from map_of_eq_Some_iff [OF this] m show ?thesis by auto
qed

lemma compareFields_clean: "ReconciliationService_compareFields k k d c = [] \<longleftrightarrow> records_agree d c"
  by (auto simp: ReconciliationService_compareFields_def records_agree_def)

lemma reconcileDbLoop_ok:
  assumes "\<And>k c. jsmap_get cm k = Some c \<Longrightarrow> js_trim (oc_walletAddress c) = k" "\<And>d. d \<in> set ds \<Longrightarrow> js_trim (cl_walletAddress d) \<noteq> []"
  shows "\<exists>ms. reconcileDbLoop cm ds = Inr ms \<and>
     (ms = [] \<longleftrightarrow> (\<forall>d \<in> set ds. \<exists>c. jsmap_get cm (js_trim (cl_walletAddress d)) = Some c \<and> records_agree d c))"
  using assms(2)
proof (induction ds)
  case (Cons d ds)
  let ?k = "js_trim (cl_walletAddress d)"
  obtain ms where ms: "reconcileDbLoop cm ds = Inr ms"
    "ms = [] \<longleftrightarrow> (\<forall>d \<in> set ds. \<exists>c. jsmap_get cm (js_trim (cl_walletAddress d)) = Some c \<and> records_agree d c)"
    using Cons by auto
  have k: "walletKey (cl_walletAddress d) = Inr ?k" "?k \<noteq> []" using Cons.prems by (simp_all add: walletKey_eq)
  show ?case
  proof (cases "jsmap_get cm ?k")
    case None
    then show ?thesis using ms k by simp
  next
    case (Some c)
    then have "walletKey (oc_walletAddress c) = Inr ?k" using assms(1) [OF Some] k by (simp add: walletKey_eq)
    then show ?thesis using ms k Some compareFields_clean [of ?k d c] by auto
  qed
qed simp

lemma reconcileChainLoop_ok:
  assumes "\<And>c. c \<in> set cs \<Longrightarrow> js_trim (oc_walletAddress c) \<noteq> []"
  shows "\<exists>ms. reconcileChainLoop dm cs = Inr ms \<and>
     (ms = [] \<longleftrightarrow> (\<forall>c \<in> set cs. jsmap_get dm (js_trim (oc_walletAddress c)) \<noteq> None))"
  using assms
proof (induction cs)
  case (Cons c cs)
  then obtain ms where "reconcileChainLoop dm cs = Inr ms"
    "ms = [] \<longleftrightarrow> (\<forall>c \<in> set cs. jsmap_get dm (js_trim (oc_walletAddress c)) \<noteq> None)" by auto
  then show ?case using Cons.prems by (auto simp: walletKey_eq jsmap_has_def)
qed simp

lemma findDuplicateWallets_cases:
  "(\<exists>w \<in> set ws. js_trim w = []) \<and> (\<exists>e. findDuplicateWallets ws = Inl e) \<or>
   (\<forall>w \<in> set ws. js_trim w \<noteq> []) \<and> (\<exists>d. findDuplicateWallets ws = Inr d \<and> (d = [] \<longleftrightarrow> distinct (map js_trim ws)))"
proof (cases "\<exists>w \<in> set ws. js_trim w = []")
  case True
  then obtain w where "w \<in> set ws" "js_trim w = []" by blast
  from findDuplicateWallets_loop_blank [OF this, of "[]" "[]"] True show ?thesis by (simp add: findDuplicateWallets_def)
next
  case False
  then show ?thesis using findDuplicateWallets_loop_ok [of ws "[]" "[]"] by (auto simp: findDuplicateWallets_def)
qed

definition reconcilable :: "CreditLine list \<Rightarrow> OnChainCreditRecord list \<Rightarrow> bool" where
  "reconcilable ds cs \<longleftrightarrow>
     (\<forall>d \<in> set ds. js_trim (cl_walletAddress d) \<noteq> []) \<and> (\<forall>c \<in> set cs. js_trim (oc_walletAddress c) \<noteq> []) \<and>
     distinct (map (\<lambda>d. js_trim (cl_walletAddress d)) ds) \<and> distinct (map (\<lambda>c. js_trim (oc_walletAddress c)) cs)"

lemma reconcileBody_reconcilable:
  assumes "reconcilable ds cs"
  shows "\<exists>n ms. reconcileBody (Inr ds) (Inr cs) = Inr (n, ms, []) \<and>
     (ms = [] \<longleftrightarrow> (\<forall>d \<in> set ds. \<exists>c \<in> set cs. records_agree d c) \<and>
        (\<forall>c \<in> set cs. \<exists>d \<in> set ds. js_trim (cl_walletAddress d) = js_trim (oc_walletAddress c)))"
proof -
  note r = assms [unfolded reconcilable_def]
  have fd: "findDuplicateWallets (map cl_walletAddress ds) = Inr []" "findDuplicateWallets (map oc_walletAddress cs) = Inr []"
    using findDuplicateWallets_cases [of "map cl_walletAddress ds"] findDuplicateWallets_cases [of "map oc_walletAddress cs"] r
    by (auto simp: o_def)
  obtain dm where dm: "keyed cl_walletAddress ds = Inr dm"
    and dmg: "\<And>k d. jsmap_get dm k = Some d \<longleftrightarrow> d \<in> set ds \<and> js_trim (cl_walletAddress d) = k"
    using keyed_distinct [of ds cl_walletAddress] r by blast
  obtain cm where cm: "keyed oc_walletAddress cs = Inr cm"
    and cmg: "\<And>k c. jsmap_get cm k = Some c \<longleftrightarrow> c \<in> set cs \<and> js_trim (oc_walletAddress c) = k"
    using keyed_distinct [of cs oc_walletAddress] r by blast
  obtain ms1 where m1: "reconcileDbLoop cm ds = Inr ms1"
    "ms1 = [] \<longleftrightarrow> (\<forall>d \<in> set ds. \<exists>c. jsmap_get cm (js_trim (cl_walletAddress d)) = Some c \<and> records_agree d c)"
    using reconcileDbLoop_ok [of cm ds] cmg r by blast
  obtain ms2 where m2: "reconcileChainLoop dm cs = Inr ms2"
    "ms2 = [] \<longleftrightarrow> (\<forall>c \<in> set cs. jsmap_get dm (js_trim (oc_walletAddress c)) \<noteq> None)"
    using reconcileChainLoop_ok [of cs dm] r by blast
  have agree: "(\<exists>c. jsmap_get cm (js_trim (cl_walletAddress d)) = Some c \<and> records_agree d c) \<longleftrightarrow> (\<exists>c \<in> set cs. records_agree d c)" for d
    unfolding cmg by (auto simp: records_agree_def)
  have "jsmap_get dm k \<noteq> None \<longleftrightarrow> (\<exists>d \<in> set ds. js_trim (cl_walletAddress d) = k)" for k
    using dmg by (metis not_Some_eq)
  then show ?thesis using m1 m2 agree by (simp add: reconcileBody_def fd dm cm Let_def)
qed

lemma reconcileBody_not_reconcilable:
  assumes "\<not> reconcilable ds cs"
  shows "case reconcileBody (Inr ds) (Inr cs) of Inl _ \<Rightarrow> True | Inr (_, ms, es) \<Rightarrow> es \<noteq> []"
proof -
  note d = findDuplicateWallets_cases [of "map cl_walletAddress ds"] and c = findDuplicateWallets_cases [of "map oc_walletAddress cs"]
  show ?thesis
  proof (cases "(\<exists>e. findDuplicateWallets (map cl_walletAddress ds) = Inl e) \<or> (\<exists>e. findDuplicateWallets (map oc_walletAddress cs) = Inl e)")
    case True
    then show ?thesis by (auto simp: reconcileBody_def Let_def split: sum.splits)
  next
    case False
    with d c obtain dd dc where f: "findDuplicateWallets (map cl_walletAddress ds) = Inr dd" "findDuplicateWallets (map oc_walletAddress cs) = Inr dc"
      by auto
    have "dd \<noteq> [] \<or> dc \<noteq> []" using assms d c f by (auto simp: reconcilable_def o_def)
    then show ?thesis using f by (auto simp: reconcileBody_def Let_def)
  qed
qed

lemma reconcile_clean:
  "(rr_errors (ReconciliationService_reconcile (inMemoryCreditLines lc) m chain now) = [] \<and>
    rr_mismatches (ReconciliationService_reconcile (inMemoryCreditLines lc) m chain now) = []) \<longleftrightarrow>
   length m \<le> 10000 \<and>
   (\<exists>cs. chain = Inr cs \<and> reconcilable (jsmap_values m) cs \<and>
      (\<forall>d \<in> set (jsmap_values m). \<exists>c \<in> set cs. records_agree d c) \<and>
      (\<forall>c \<in> set cs. \<exists>d \<in> set (jsmap_values m). js_trim (cl_walletAddress d) = js_trim (oc_walletAddress c)))"
proof (cases "length m > 10000 \<or> (\<exists>e. chain = Inl e)")
  case True
  then show ?thesis
    by (auto simp: ReconciliationService_reconcile_def fetchAll_mem reconcileBody_def split: sum.splits)
next
  case False
  then obtain cs where cs: "chain = Inr cs" and len: "length m \<le> 10000" by (cases chain) auto
  let ?ds = "InMemoryCreditLineRepository_sortByNewest lc (jsmap_values m)"
  have perm: "mset ?ds = mset (jsmap_values m)" by (simp add: sortByNewest_alt)
  then have set: "set ?ds = set (jsmap_values m)" by (metis set_mset_mset)
  have "mset (map (\<lambda>d. js_trim (cl_walletAddress d)) ?ds) = mset (map (\<lambda>d. js_trim (cl_walletAddress d)) (jsmap_values m))"
    using perm by (simp only: mset_map)
  then have rec: "reconcilable ?ds cs \<longleftrightarrow> reconcilable (jsmap_values m) cs"
    unfolding reconcilable_def set using mset_eq_imp_distinct_iff by blast
  have res: "ReconciliationService_reconcile (inMemoryCreditLines lc) m (Inr cs) now =
     (case reconcileBody (Inr ?ds) (Inr cs) of
        Inl (checked, e) \<Rightarrow> \<lparr>rr_timestamp = now, rr_totalChecked = checked, rr_mismatches = [], rr_errors = [sanitizeStellarDiagnostic (DiagError e)]\<rparr>
      | Inr (checked, ms, errors) \<Rightarrow> \<lparr>rr_timestamp = now, rr_totalChecked = checked, rr_mismatches = ms, rr_errors = errors\<rparr>)"
    using len by (simp add: ReconciliationService_reconcile_def fetchAll_mem)
  show ?thesis
  proof (cases "reconcilable ?ds cs")
    case True
    from reconcileBody_reconcilable [OF True] show ?thesis
      using True rec len by (auto simp: cs res set)
  next
    case False
    from reconcileBody_not_reconcilable [OF False] show ?thesis
      using False rec by (auto simp: cs res split: sum.splits)
  qed
qed

text \<open>
  C5. A reconciliation run over the in-memory repository reports neither an error nor a mismatch exactly when the two
  sources agree: at most 10000 rows are stored, the chain could be read, wallets are non-blank and unique on each side, every
  stored line has an on-chain record with the same wallet, numerically equal limit and available credit, the
  same rate and status, and every on-chain record has a stored line of its wallet.
\<close>

theorem reconcile_clean_iff:
  "(rr_errors (ReconciliationService_reconcile (inMemoryCreditLines lc) m chain now) = [] \<and>
    rr_mismatches (ReconciliationService_reconcile (inMemoryCreditLines lc) m chain now) = []) \<longleftrightarrow>
   length m \<le> 10000 \<and>
   (\<exists>cs. chain = Inr cs \<and> reconcilable (jsmap_values m) cs \<and>
      (\<forall>d \<in> set (jsmap_values m). \<exists>c \<in> set cs. records_agree d c) \<and>
      (\<forall>c \<in> set cs. \<exists>d \<in> set (jsmap_values m). js_trim (cl_walletAddress d) = js_trim (oc_walletAddress c)))"
  by (rule reconcile_clean)

definition exampleRecord :: OnChainCreditRecord where
  "exampleRecord = \<lparr>oc_id = ''c1'', oc_walletAddress = ''GA'', oc_creditLimit = ''1000'', oc_availableCredit = ''900'',
     oc_interestRateBps = Fin 500, oc_status = ''active''\<rparr>"

lemma decimalStringsEqual_refl [simp]: "decimalStringsEqual s s"
  by (simp add: decimalStringsEqual_def split: option.splits)

lemma exampleRecord_agrees: "records_agree exampleLine exampleRecord" "js_trim ''GA'' = ''GA''"
  by (simp_all add: records_agree_def exampleLine_def exampleRecord_def num_eq_def js_trim_def js_trim_start_def is_ws_def)

theorem reconcile_clean_iff_witness:
  "rr_errors (ReconciliationService_reconcile memLines [(''L1'', exampleLine)] (Inr [exampleRecord]) 9) = [] \<and>
   rr_mismatches (ReconciliationService_reconcile memLines [(''L1'', exampleLine)] (Inr [exampleRecord]) 9) = []"
proof -
  have w: "cl_walletAddress exampleLine = ''GA''" "oc_walletAddress exampleRecord = ''GA''" by (simp_all add: exampleLine_def exampleRecord_def)
  have "reconcilable [exampleLine] [exampleRecord]" by (simp add: reconcilable_def w exampleRecord_agrees(2))
  then show ?thesis
    unfolding reconcile_clean_iff by (intro conjI exI [of _ "[exampleRecord]"]) (simp_all add: jsmap_values_def exampleRecord_agrees w)
qed

text \<open>
  The reconciliation job succeeds exactly when the run reported no error and no critical mismatch; otherwise its
  handler throws, so the queue retries it and finally dead-letters it.
\<close>

theorem reconciliation_job_outcome:
  "fst (snd (ReconciliationWorker_handler reconcile job w)) = Inr () \<longleftrightarrow>
     rr_errors (reconcile w) = [] \<and> (\<forall>m \<in> set (rr_mismatches (reconcile w)). mm_severity m = Warning)"
proof -
  have "criticalCount r = 0 \<longleftrightarrow> (\<forall>m \<in> set (rr_mismatches r). mm_severity m = Warning)" for r :: ReconciliationResult
    unfolding criticalCount_def by (auto simp: filter_empty_conv) (metis severity.exhaust)
  from this [of "reconcile w"] show ?thesis by (auto simp: ReconciliationWorker_handler_def reconciliationOutcome_def)
qed

theorem reconciliation_job_outcome_witness:
  "fst (snd (ReconciliationWorker_handler (\<lambda>_. \<lparr>rr_timestamp = 9, rr_totalChecked = 1,
       rr_mismatches = [mismatch ''L1'' ''GA'' ''interestRateBps'' (MNumber (Fin 5)) (MNumber (Fin 6)) Warning], rr_errors = []\<rparr>) mailJob (0 :: nat))) = Inr ()"
  unfolding reconciliation_job_outcome by (simp add: mismatch_def)

end
