(* ===== verification/Money.thy ===== *)
theory Money
  imports Reconciliation
begin

text \<open>Money formatting (\<open>src/utils/money.ts\<close>): integer minor units to a decimal string.\<close>

datatype minor_units = MUNumber number | MUBigInt int | MUString string

record MoneyResponse =
  mo_minorUnits :: string
  mo_amount :: string
  mo_currency :: string
  mo_decimals :: nat

definition string_to_int :: "string \<Rightarrow> int option" where
  "string_to_int s =
     (case s of
        c # cs \<Rightarrow> if c = CHR ''-'' then (if cs \<noteq> [] \<and> list_all is_digit cs then Some (- int (nat_of_digits cs)) else None)
                   else if list_all is_digit s then Some (int (nat_of_digits s)) else None
      | [] \<Rightarrow> None)"

fun toBigInt :: "minor_units \<Rightarrow> js_error + int" where
  "toBigInt (MUBigInt i) = Inr i"
| "toBigInt (MUNumber x) =
     (case x of
        Fin q \<Rightarrow> if num_isInteger (Fin q) then Inr \<lfloor>q\<rfloor> else Inl (TypeError ''minorUnits number must be an integer'')
      | _ \<Rightarrow> Inl (TypeError ''minorUnits number must be an integer''))"
| "toBigInt (MUString s) =
     (case string_to_int s of Some i \<Rightarrow> Inr i | None \<Rightarrow> Inl (TypeError (''invalid minorUnits value: '' @ s)))"

definition formatMoney :: "minor_units \<Rightarrow> string \<Rightarrow> number \<Rightarrow> js_error + MoneyResponse" where
  "formatMoney minorUnits currency decimals =
     (if \<not> num_isInteger decimals \<or> num_lt decimals (Fin 0) \<or> num_gt decimals (Fin 18)
      then Inl (RangeError ''decimals must be an integer in [0, 18]'')
      else let dec = (case decimals of Fin q \<Rightarrow> nat \<lfloor>q\<rfloor> | _ \<Rightarrow> 0)
           in case toBigInt minorUnits of
                Inl e \<Rightarrow> Inl e
              | Inr big \<Rightarrow>
                  let negative = big < 0;
                      digits = js_padStart (dec + 1) (CHR ''0'') (digits_of_nat (nat \<bar>big\<bar>));
                      whole = take (length digits - dec) digits;
                      fraction = (if dec > 0 then drop (length digits - dec) digits else []);
                      amount = (if negative then ''-'' else []) @ whole @ (if fraction \<noteq> [] then ''.'' @ fraction else [])
                  in Inr \<lparr>mo_minorUnits = show_int big, mo_amount = amount,
                          mo_currency = js_toUpperCase currency, mo_decimals = dec\<rparr>)"

text \<open>
  Formatting money is lossless: on valid arguments \<open>formatMoney\<close> succeeds, \<open>minorUnits\<close> is the integer itself, and the decimal
  string \<open>amount\<close> denotes exactly the integer divided by ten to the number of decimals.
\<close>

theorem formatMoney_lossless:
  assumes "toBigInt minorUnits = Inr big" "decimals = Fin (of_nat d)" "d \<le> 18"
  shows "\<exists>m. formatMoney minorUnits currency decimals = Inr m \<and> mo_minorUnits m = show_int big \<and> mo_decimals m = d \<and>
     decimal_value (mo_amount m) = Some (of_int big / 10 ^ d)"
proof -
  let ?ds = "js_padStart (d + 1) (CHR ''0'') (digits_of_nat (nat \<bar>big\<bar>))"
  let ?w = "take (length ?ds - d) ?ds" and ?f = "drop (length ?ds - d) ?ds"
  have f: "(if d > 0 then ?f else []) = ?f" by simp
  let ?a = "(if big < 0 then ''-'' else []) @ ?w @ (if ?f \<noteq> [] then ''.'' @ ?f else [])"
  have dv: "decimal_value ?a = Some (of_int big / 10 ^ d)" by (rule fixed_point_value(2))
  have "(of_nat d :: rat) \<le> 18" using assms(3) by (metis of_nat_le_iff of_nat_numeral)
  moreover have "num_isInteger (Fin (of_nat d))" by (simp add: floor_of_nat)
  ultimately have "formatMoney minorUnits currency decimals =
      Inr \<lparr>mo_minorUnits = show_int big, mo_amount = ?a, mo_currency = js_toUpperCase currency, mo_decimals = d\<rparr>"
    unfolding formatMoney_def assms(1,2) Let_def f by (simp add: floor_of_nat del: drop_eq_Nil)
  then show ?thesis using dv by simp
qed

theorem formatMoney_lossless_witness:
  "\<exists>m. formatMoney (MUBigInt (- 5)) ''usd'' (Fin 2) = Inr m \<and> decimal_value (mo_amount m) = Some (- 5 / 100)"
proof -
  have "toBigInt (MUBigInt (- 5)) = Inr (- 5)" "Fin 2 = Fin (of_nat 2)" "2 \<le> (18 :: nat)" by simp_all
  from formatMoney_lossless [OF this, of "''usd''"] show ?thesis by auto
qed

end
