(* ===== verification/Idempotency.thy ===== *)
theory Idempotency
  imports Json
begin

text \<open>
  Idempotent requests: the in-memory store (\<open>src/services/idempotencyStore.ts\<close>) and the middleware
  (\<open>src/middleware/idempotency.ts\<close>). A promise is identified by the token of the request that will
  settle it; \<open>is_promises\<close> records the settled ones. \<open>sha\<close> stands for the SHA-256 hex digest of
  \<open>node:crypto\<close>.
\<close>

record CachedIdempotencyResponse =
  cr_statusCode :: int
  cr_body :: json

datatype IdempotencyBeginResult =
    Started string
  | Replay CachedIdempotencyResponse
  | PendingOn string
  | InProgress
  | Conflict

record IdempotencyEntry =
  ie_keyHash :: string
  ie_scope :: string
  ie_principalHash :: string
  ie_requestHash :: string

datatype MemoryRecord =
    PendingMemoryRecord (mr_token: string) (mr_requestHash: string) (mr_expiresAt: time)
  | CompletedMemoryRecord (mr_token: string) (mr_requestHash: string) (mr_expiresAt: time)
      (mr_response: CachedIdempotencyResponse)

record idempotency_store =
  is_records :: "(string, MemoryRecord) jsmap"
  is_tokens :: "(string, string) jsmap"
  is_promises :: "(string, js_error + CachedIdempotencyResponse) jsmap"
  is_ttlMs :: int

definition InMemoryIdempotencyStore_new :: "int \<Rightarrow> idempotency_store" where
  "InMemoryIdempotencyStore_new ttlMs =
     \<lparr>is_records = jsmap_empty, is_tokens = jsmap_empty, is_promises = jsmap_empty, is_ttlMs = ttlMs\<rparr>"

definition InMemoryIdempotencyStore_cacheKey :: "IdempotencyEntry \<Rightarrow> string" where
  "InMemoryIdempotencyStore_cacheKey entry = ie_keyHash entry @ '':'' @ ie_scope entry @ '':'' @ ie_principalHash entry"

definition InMemoryIdempotencyStore_pruneExpired :: "time \<Rightarrow> idempotency_store \<Rightarrow> idempotency_store" where
  "InMemoryIdempotencyStore_pruneExpired now s =
     s\<lparr>is_records := jsmap_prune (\<lambda>_ r. mr_expiresAt r \<le> now) (is_records s),
       is_tokens := fold jsmap_delete
         (map (\<lambda>(_, r). mr_token r) (filter (\<lambda>(_, r). mr_expiresAt r \<le> now) (is_records s))) (is_tokens s)\<rparr>"

text \<open>\<open>now\<close> is the clock of the synchronous body, \<open>uuid\<close> the token drawn when a record is created.\<close>

definition InMemoryIdempotencyStore_begin ::
  "IdempotencyEntry \<Rightarrow> string \<Rightarrow> time \<Rightarrow> idempotency_store \<Rightarrow> IdempotencyBeginResult \<times> idempotency_store" where
  "InMemoryIdempotencyStore_begin entry uuid now s0 =
     (let s = InMemoryIdempotencyStore_pruneExpired now s0; cacheKey = InMemoryIdempotencyStore_cacheKey entry
      in case jsmap_get (is_records s) cacheKey of
           Some existing \<Rightarrow>
             if mr_requestHash existing \<noteq> ie_requestHash entry then (Conflict, s)
             else (case existing of
                     CompletedMemoryRecord _ _ _ response \<Rightarrow> (Replay response, s)
                   | PendingMemoryRecord token _ _ \<Rightarrow> (PendingOn token, s))
         | None \<Rightarrow>
             (Started uuid,
              s\<lparr>is_records := jsmap_set cacheKey (PendingMemoryRecord uuid (ie_requestHash entry) (now + is_ttlMs s)) (is_records s),
                is_tokens := jsmap_set uuid cacheKey (is_tokens s)\<rparr>))"

definition InMemoryIdempotencyStore_complete ::
  "string \<Rightarrow> CachedIdempotencyResponse \<Rightarrow> time \<Rightarrow> idempotency_store \<Rightarrow> idempotency_store" where
  "InMemoryIdempotencyStore_complete token response now s =
     (case jsmap_get (is_tokens s) token of
        None \<Rightarrow> s
      | Some cacheKey \<Rightarrow>
          (case jsmap_get (is_records s) cacheKey of
             Some (PendingMemoryRecord ptoken requestHash _) \<Rightarrow>
               s\<lparr>is_records := jsmap_set cacheKey (CompletedMemoryRecord token requestHash (now + is_ttlMs s) response) (is_records s),
                 is_promises := jsmap_set ptoken (Inr response) (is_promises s)\<rparr>
           | _ \<Rightarrow> s))"

definition InMemoryIdempotencyStore_fail :: "string \<Rightarrow> idempotency_store \<Rightarrow> idempotency_store" where
  "InMemoryIdempotencyStore_fail token s =
     (case jsmap_get (is_tokens s) token of
        None \<Rightarrow> s
      | Some cacheKey \<Rightarrow>
          let record = jsmap_get (is_records s) cacheKey;
              s' = s\<lparr>is_records := jsmap_delete cacheKey (is_records s), is_tokens := jsmap_delete token (is_tokens s)\<rparr>
          in case record of
               Some (PendingMemoryRecord ptoken _ _) \<Rightarrow>
                 s'\<lparr>is_promises := jsmap_set ptoken (Inl (Error ''Idempotent request did not complete'')) (is_promises s')\<rparr>
             | _ \<Rightarrow> s')"

lemmas idempotency_defs =
  InMemoryIdempotencyStore_begin_def InMemoryIdempotencyStore_complete_def InMemoryIdempotencyStore_fail_def

section \<open>The invariant of the store\<close>

definition idem_invar :: "idempotency_store \<Rightarrow> bool" where
  "idem_invar s \<longleftrightarrow> jsmap_invar (is_records s) \<and> jsmap_invar (is_tokens s) \<and>
     (\<forall>k r. jsmap_get (is_records s) k = Some r \<longrightarrow> jsmap_get (is_tokens s) (mr_token r) = Some k) \<and>
     (\<forall>t k. jsmap_get (is_tokens s) t = Some k \<longrightarrow> (\<exists>r. jsmap_get (is_records s) k = Some r \<and> mr_token r = t))"

lemma idem_token: "idem_invar s \<Longrightarrow> jsmap_get (is_records s) k = Some r \<Longrightarrow> jsmap_get (is_tokens s) (mr_token r) = Some k"
  by (simp add: idem_invar_def)

lemma idem_token_unique:
  "idem_invar s \<Longrightarrow> jsmap_get (is_tokens s) t = Some k \<Longrightarrow> jsmap_get (is_records s) k = Some r \<Longrightarrow> mr_token r = t"
  unfolding idem_invar_def by (metis option.inject)

lemma jsmap_get_fold_delete: "jsmap_get (fold jsmap_delete ts m) t = (if t \<in> set ts then None else jsmap_get m t)"
  by (induction ts arbitrary: m) auto

lemma jsmap_invar_fold_delete: "jsmap_invar m \<Longrightarrow> jsmap_invar (fold jsmap_delete ts m)"
  by (induction ts arbitrary: m) auto

lemma prune_records [simp]:
  "jsmap_invar (is_records s) \<Longrightarrow> jsmap_get (is_records (InMemoryIdempotencyStore_pruneExpired now s)) k =
     (case jsmap_get (is_records s) k of None \<Rightarrow> None | Some r \<Rightarrow> if mr_expiresAt r \<le> now then None else Some r)"
  by (simp add: InMemoryIdempotencyStore_pruneExpired_def)

lemma prune_tokens:
  assumes "idem_invar s"
  shows "jsmap_get (is_tokens (InMemoryIdempotencyStore_pruneExpired now s)) t =
     (case jsmap_get (is_tokens s) t of None \<Rightarrow> None
      | Some k \<Rightarrow> (case jsmap_get (is_records s) k of None \<Rightarrow> None | Some r \<Rightarrow> if mr_expiresAt r \<le> now then None else Some k))"
proof -
  note i = assms [unfolded idem_invar_def]
  let ?dead = "map (\<lambda>(_, r). mr_token r) (filter (\<lambda>(_, r). mr_expiresAt r \<le> now) (is_records s))"
  have dead: "t \<in> set ?dead \<longleftrightarrow> (\<exists>k r. jsmap_get (is_records s) k = Some r \<and> mr_expiresAt r \<le> now \<and> mr_token r = t)"
    using i by (force simp: jsmap_in_set_iff [symmetric])
  have get: "jsmap_get (is_tokens (InMemoryIdempotencyStore_pruneExpired now s)) t = (if t \<in> set ?dead then None else jsmap_get (is_tokens s) t)"
    unfolding InMemoryIdempotencyStore_pruneExpired_def by (simp add: jsmap_get_fold_delete)
  show ?thesis
  proof (cases "jsmap_get (is_tokens s) t")
    case (Some k)
    then obtain r where r: "jsmap_get (is_records s) k = Some r" "mr_token r = t" using i by blast
    have "k' = k \<and> r' = r" if "jsmap_get (is_records s) k' = Some r'" "mr_token r' = t" for k' r'
      using idem_token [OF assms that(1)] that Some r by simp
    then have "t \<in> set ?dead \<longleftrightarrow> mr_expiresAt r \<le> now" unfolding dead using r by blast
    then show ?thesis unfolding get by (simp add: Some r)
  qed (simp add: get)
qed

lemma idem_invar_prune:
  assumes "idem_invar s"
  shows "idem_invar (InMemoryIdempotencyStore_pruneExpired now s)"
proof -
  have j: "jsmap_invar (is_records s)" "jsmap_invar (is_tokens s)" using assms by (simp_all add: idem_invar_def)
  have "jsmap_invar (is_records (InMemoryIdempotencyStore_pruneExpired now s))"
    "jsmap_invar (is_tokens (InMemoryIdempotencyStore_pruneExpired now s))"
    using j by (simp_all add: InMemoryIdempotencyStore_pruneExpired_def jsmap_invar_fold_delete)
  then show ?thesis
    unfolding idem_invar_def prune_tokens [OF assms] prune_records [OF j(1)]
    using idem_token [OF assms] idem_token_unique [OF assms] by (auto split: option.splits if_splits)
qed

lemma prune_ttl [simp]: "is_ttlMs (InMemoryIdempotencyStore_pruneExpired now s) = is_ttlMs s"
  by (simp add: InMemoryIdempotencyStore_pruneExpired_def)

lemma idem_invar_new: "idem_invar (InMemoryIdempotencyStore_new ttl)"
  by (simp add: idem_invar_def InMemoryIdempotencyStore_new_def)

lemma idem_invar_begin:
  assumes "idem_invar s" "jsmap_get (is_tokens s) uuid = None"
  shows "idem_invar (snd (InMemoryIdempotencyStore_begin entry uuid now s))"
proof -
  let ?p = "InMemoryIdempotencyStore_pruneExpired now s"
  have p: "idem_invar ?p" by (rule idem_invar_prune [OF assms(1)])
  have fresh: "jsmap_get (is_tokens ?p) uuid = None" using assms(2) by (simp add: prune_tokens [OF assms(1)])
  show ?thesis
  proof (cases "jsmap_get (is_records ?p) (InMemoryIdempotencyStore_cacheKey entry)")
    case None
    then show ?thesis
      using p fresh unfolding idem_invar_def InMemoryIdempotencyStore_begin_def Let_def
      by (auto split: if_splits) (metis option.distinct(1))+
  next
    case (Some r)
    then show ?thesis using p by (auto simp: InMemoryIdempotencyStore_begin_def Let_def split: MemoryRecord.splits)
  qed
qed

lemma idem_invar_complete: "idem_invar s \<Longrightarrow> idem_invar (InMemoryIdempotencyStore_complete token response now s)"
  unfolding idem_invar_def InMemoryIdempotencyStore_complete_def
  by (auto split: option.splits MemoryRecord.splits if_splits) (metis MemoryRecord.sel option.inject)+

lemma idem_invar_fail: "idem_invar s \<Longrightarrow> idem_invar (InMemoryIdempotencyStore_fail token s)"
  unfolding idem_invar_def InMemoryIdempotencyStore_fail_def Let_def
  by (auto split: option.splits MemoryRecord.splits if_splits) (metis option.inject)+

section \<open>Sequences of requests\<close>

datatype idem_op =
    OpBegin IdempotencyEntry string time
  | OpComplete string CachedIdempotencyResponse time
  | OpFail string

fun idem_apply :: "idem_op \<Rightarrow> idempotency_store \<Rightarrow> idempotency_store" where
  "idem_apply (OpBegin e uuid now) s = snd (InMemoryIdempotencyStore_begin e uuid now s)"
| "idem_apply (OpComplete token response now) s = InMemoryIdempotencyStore_complete token response now s"
| "idem_apply (OpFail token) s = InMemoryIdempotencyStore_fail token s"

text \<open>Operations that neither reuse the token \<open>tok\<close> nor fail it, at times in \<open>[lo, hi)\<close>, with fresh tokens.\<close>

fun undisturbed :: "string \<Rightarrow> time \<Rightarrow> time \<Rightarrow> idempotency_store \<Rightarrow> idem_op list \<Rightarrow> bool" where
  "undisturbed tok lo hi s [] = True"
| "undisturbed tok lo hi s (op # ops) =
     ((case op of
         OpBegin e uuid now \<Rightarrow> jsmap_get (is_tokens s) uuid = None \<and> lo \<le> now \<and> now < hi
       | OpComplete token _ now \<Rightarrow> lo \<le> now \<and> now < hi
       | OpFail token \<Rightarrow> token \<noteq> tok) \<and>
      undisturbed tok lo hi (idem_apply op s) ops)"

definition completion_of :: "string \<Rightarrow> idem_op list \<Rightarrow> CachedIdempotencyResponse option" where
  "completion_of tok ops =
     (case filter (\<lambda>op. case op of OpComplete t _ _ \<Rightarrow> t = tok | _ \<Rightarrow> False) ops of
        OpComplete _ r _ # _ \<Rightarrow> Some r
      | _ \<Rightarrow> None)"

text \<open>The record of the request with token \<open>tok\<close>: pending until \<open>resp\<close> is known, and not expiring before \<open>hi\<close>.\<close>

definition holds_request ::
  "string \<Rightarrow> string \<Rightarrow> string \<Rightarrow> CachedIdempotencyResponse option \<Rightarrow> time \<Rightarrow> idempotency_store \<Rightarrow> bool" where
  "holds_request tok key hash resp hi s \<longleftrightarrow> idem_invar s \<and>
     (\<exists>r. jsmap_get (is_records s) key = Some r \<and> mr_token r = tok \<and> mr_requestHash r = hash \<and> hi \<le> mr_expiresAt r \<and>
        (case resp of None \<Rightarrow> (\<exists>x. r = PendingMemoryRecord tok hash x)
         | Some a \<Rightarrow> (\<exists>x. r = CompletedMemoryRecord tok hash x a)))"

lemma holds_request_begin:
  assumes "holds_request tok key hash resp hi s" "jsmap_get (is_tokens s) uuid = None" "now < hi"
  shows "holds_request tok key hash resp hi (snd (InMemoryIdempotencyStore_begin e uuid now s))"
proof -
  have i: "idem_invar s" and j: "jsmap_invar (is_records s)" using assms(1) by (simp_all add: holds_request_def idem_invar_def)
  have "jsmap_get (is_records (snd (InMemoryIdempotencyStore_begin e uuid now s))) key = jsmap_get (is_records s) key"
    if "jsmap_get (is_records s) key = Some r" "hi \<le> mr_expiresAt r" for r
    using that assms(3) j
    by (auto simp: InMemoryIdempotencyStore_begin_def Let_def split: option.splits MemoryRecord.splits if_splits)
  then show ?thesis using assms(1) idem_invar_begin [OF i assms(2)] unfolding holds_request_def by metis
qed

lemma complete_record:
  assumes "idem_invar s" "jsmap_get (is_tokens s) t = Some k" "jsmap_get (is_records s) k = Some r"
  shows "InMemoryIdempotencyStore_complete t a now s =
     (case r of PendingMemoryRecord _ h _ \<Rightarrow>
          s\<lparr>is_records := jsmap_set k (CompletedMemoryRecord t h (now + is_ttlMs s) a) (is_records s),
            is_promises := jsmap_set t (Inr a) (is_promises s)\<rparr>
      | _ \<Rightarrow> s)"
  using idem_token_unique [OF assms] assms(2,3)
  by (cases r) (simp_all add: InMemoryIdempotencyStore_complete_def)

lemma holds_request_complete_self:
  assumes "holds_request tok key hash resp hi s" "hi \<le> now + is_ttlMs s"
  shows "holds_request tok key hash (case resp of None \<Rightarrow> Some a | Some b \<Rightarrow> Some b) hi (InMemoryIdempotencyStore_complete tok a now s)"
proof -
  obtain r where r: "jsmap_get (is_records s) key = Some r" "mr_token r = tok" and i: "idem_invar s"
    using assms(1) by (auto simp: holds_request_def)
  have t: "jsmap_get (is_tokens s) tok = Some key" using idem_token [OF i r(1)] r(2) by simp
  have "idem_invar (InMemoryIdempotencyStore_complete tok a now s)" by (rule idem_invar_complete [OF i])
  then show ?thesis
    using assms r unfolding complete_record [OF i t r(1)]
    by (cases resp; cases r) (auto simp: holds_request_def)
qed

lemma complete_other:
  assumes "idem_invar s" "jsmap_get (is_records s) key = Some r" "mr_token r \<noteq> t"
  shows "jsmap_get (is_records (InMemoryIdempotencyStore_complete t a now s)) key = Some r"
    and "jsmap_get (is_records (InMemoryIdempotencyStore_fail t s)) key = Some r"
proof -
  have k: "k \<noteq> key" if "jsmap_get (is_tokens s) t = Some k" for k
    using idem_token_unique [OF assms(1) that] assms(2,3) by auto
  show "jsmap_get (is_records (InMemoryIdempotencyStore_complete t a now s)) key = Some r"
    using assms(2) k by (auto simp: InMemoryIdempotencyStore_complete_def split: option.splits MemoryRecord.splits)
  show "jsmap_get (is_records (InMemoryIdempotencyStore_fail t s)) key = Some r"
    using assms(2) k by (auto simp: InMemoryIdempotencyStore_fail_def Let_def split: option.splits MemoryRecord.splits)
qed

lemma holds_request_other:
  assumes "holds_request tok key hash resp hi s" "t \<noteq> tok"
  shows "holds_request tok key hash resp hi (InMemoryIdempotencyStore_complete t a now s)"
    and "holds_request tok key hash resp hi (InMemoryIdempotencyStore_fail t s)"
  using assms complete_other(1) [of s key _ t a now] complete_other(2) [of s key _ t] idem_invar_complete [of s t a now] idem_invar_fail [of s t]
  unfolding holds_request_def by metis+

lemma begin_ttl [simp]: "is_ttlMs (snd (InMemoryIdempotencyStore_begin e u now s)) = is_ttlMs s"
  by (auto simp: InMemoryIdempotencyStore_begin_def Let_def split: option.splits MemoryRecord.splits)

lemma idem_apply_ttl [simp]: "is_ttlMs (idem_apply op s) = is_ttlMs s"
  by (cases op)
     (auto simp: InMemoryIdempotencyStore_complete_def InMemoryIdempotencyStore_fail_def Let_def split: option.splits MemoryRecord.splits)

lemma holds_request_run:
  assumes "holds_request tok key hash resp hi s" "undisturbed tok lo hi s ops" "hi \<le> lo + is_ttlMs s"
  shows "holds_request tok key hash (case resp of None \<Rightarrow> completion_of tok ops | Some b \<Rightarrow> Some b) hi (fold idem_apply ops s)"
  using assms
proof (induction ops arbitrary: s resp)
  case Nil
  then show ?case by (cases resp) (simp_all add: completion_of_def)
next
  case (Cons op ops)
  have u: "undisturbed tok lo hi (idem_apply op s) ops" and ttl: "hi \<le> lo + is_ttlMs (idem_apply op s)"
    using Cons.prems by simp_all
  show ?case
  proof (cases "\<exists>a now. op = OpComplete tok a now")
    case True
    then obtain a now where op: "op = OpComplete tok a now" by blast
    have "holds_request tok key hash (case resp of None \<Rightarrow> Some a | Some b \<Rightarrow> Some b) hi (idem_apply op s)"
      using holds_request_complete_self [OF Cons.prems(1)] Cons.prems(2,3) by (simp add: op)
    from Cons.IH [OF this u ttl] show ?thesis by (cases resp) (simp_all add: op completion_of_def)
  next
    case False
    then have h: "holds_request tok key hash resp hi (idem_apply op s)"
      using Cons.prems(1,2) holds_request_begin holds_request_other by (cases op) auto
    have "completion_of tok (op # ops) = completion_of tok ops"
      using False by (cases op) (auto simp: completion_of_def)
    then show ?thesis using Cons.IH [OF h u ttl] by (cases resp) simp_all
  qed
qed

lemma begin_on_held:
  assumes "holds_request tok (InMemoryIdempotencyStore_cacheKey e) (ie_requestHash e) resp hi s" "now < hi"
  shows "fst (InMemoryIdempotencyStore_begin e uuid now s) = (case resp of None \<Rightarrow> PendingOn tok | Some a \<Rightarrow> Replay a)"
  using assms by (cases resp) (auto simp: holds_request_def idem_invar_def InMemoryIdempotencyStore_begin_def Let_def split: MemoryRecord.splits)

text \<open>
  C3. At most one execution: after a request has started under an idempotency key, and as long as that execution is not marked failed (a response of 500 or
  more, a connection closed early or aborted), whatever other requests begin, complete or fail in between, every further begin of the same request before the
  record expires is not started again. It waits for the first execution while that is running, and replays exactly the response that was first completed for it.
  Once it is marked failed the next begin starts anew (\<open>failed_request_restarts\<close>).
\<close>

theorem idempotent_request_runs_once:
  assumes "idem_invar s" "jsmap_get (is_tokens s) tok = None" "0 < is_ttlMs s"
    and "InMemoryIdempotencyStore_begin e tok t0 s = (Started tok, s1)"
    and "undisturbed tok t0 (t0 + is_ttlMs s) s1 ops" "now < t0 + is_ttlMs s"
  shows "fst (InMemoryIdempotencyStore_begin e uuid now (fold idem_apply ops s1)) =
     (case completion_of tok ops of None \<Rightarrow> PendingOn tok | Some response \<Rightarrow> Replay response)"
proof -
  let ?k = "InMemoryIdempotencyStore_cacheKey e"
  have i: "idem_invar s1" using idem_invar_begin [OF assms(1,2), of e t0] assms(4) by simp
  have "jsmap_get (is_records s1) ?k = Some (PendingMemoryRecord tok (ie_requestHash e) (t0 + is_ttlMs s))" "is_ttlMs s1 = is_ttlMs s"
    using assms(4) by (auto simp: InMemoryIdempotencyStore_begin_def Let_def split: option.splits MemoryRecord.splits if_splits)
  with i have h: "holds_request tok ?k (ie_requestHash e) None (t0 + is_ttlMs s) s1" and t: "is_ttlMs s1 = is_ttlMs s"
    by (simp_all add: holds_request_def)
  from holds_request_run [OF h assms(5)] t
  have "holds_request tok ?k (ie_requestHash e) (completion_of tok ops) (t0 + is_ttlMs s) (fold idem_apply ops s1)" by simp
  from begin_on_held [OF this assms(6)] show ?thesis .
qed

lemma failed_request_restarts:
  assumes "idem_invar s" "jsmap_get (is_records s) (InMemoryIdempotencyStore_cacheKey e) = Some r"
  shows "fst (InMemoryIdempotencyStore_begin e uuid now (InMemoryIdempotencyStore_fail (mr_token r) s)) = Started uuid"
proof -
  let ?s = "InMemoryIdempotencyStore_fail (mr_token r) s"
  have "jsmap_get (is_records ?s) (InMemoryIdempotencyStore_cacheKey e) = None"
    using idem_token [OF assms] by (auto simp: InMemoryIdempotencyStore_fail_def Let_def split: option.splits MemoryRecord.splits)
  moreover have "jsmap_invar (is_records ?s)" using idem_invar_fail [OF assms(1)] by (simp add: idem_invar_def)
  ultimately show ?thesis by (simp add: InMemoryIdempotencyStore_begin_def Let_def)
qed

definition exampleEntry :: IdempotencyEntry where
  "exampleEntry = \<lparr>ie_keyHash = ''k1'', ie_scope = ''POST:/draw'', ie_principalHash = ''p1'', ie_requestHash = ''h1''\<rparr>"

theorem idempotent_request_runs_once_witness:
  "let s1 = snd (InMemoryIdempotencyStore_begin exampleEntry ''T1'' 0 (InMemoryIdempotencyStore_new 100));
       r = \<lparr>cr_statusCode = 200, cr_body = JNull\<rparr>
   in fst (InMemoryIdempotencyStore_begin exampleEntry ''T2'' 50 (fold idem_apply [OpComplete ''T1'' r 10] s1)) = Replay r"
proof -
  let ?s = "InMemoryIdempotencyStore_new 100"
  let ?s1 = "snd (InMemoryIdempotencyStore_begin exampleEntry ''T1'' 0 ?s)"
  let ?r = "\<lparr>cr_statusCode = 200, cr_body = JNull\<rparr>"
  have b: "InMemoryIdempotencyStore_begin exampleEntry ''T1'' 0 ?s = (Started ''T1'', ?s1)"
    by (simp add: InMemoryIdempotencyStore_begin_def InMemoryIdempotencyStore_new_def InMemoryIdempotencyStore_pruneExpired_def
        Let_def jsmap_prune_def jsmap_empty_def)
  have "fst (InMemoryIdempotencyStore_begin exampleEntry ''T2'' 50 (fold idem_apply [OpComplete ''T1'' ?r 10] ?s1)) =
     (case completion_of ''T1'' [OpComplete ''T1'' ?r 10] of None \<Rightarrow> PendingOn ''T1'' | Some response \<Rightarrow> Replay response)"
    by (rule idempotent_request_runs_once [OF idem_invar_new _ _ b]) (simp_all add: InMemoryIdempotencyStore_new_def)
  then show ?thesis by (simp add: completion_of_def)
qed

section \<open>The middleware\<close>

datatype header_value = HStr string | HArr "string list"

record http_request =
  rq_method :: string
  rq_path :: string
  rq_headers :: "(string, header_value) jsmap"
  rq_query :: json
  rq_body :: "json option"

fun stableStringify :: "json \<Rightarrow> string" where
  "stableStringify (JArr xs) = ''['' @ js_join '','' (map stableStringify xs) @ '']''"
| "stableStringify (JObj ps) =
     ''{'' @ js_join '','' (map (\<lambda>(k, sv). json_quote k @ '':'' @ sv)
        (js_sort (\<lambda>a b. code_unit_compare (fst a) (fst b)) (map (\<lambda>(k, v). (k, stableStringify v)) ps))) @ ''}''"
| "stableStringify v = json_stringify v"

definition headerValue :: "http_request \<Rightarrow> string \<Rightarrow> string option" where
  "headerValue req name =
     (case jsmap_get (rq_headers req) name of
        None \<Rightarrow> None
      | Some (HStr v) \<Rightarrow> Some v
      | Some (HArr vs) \<Rightarrow> (case vs of [] \<Rightarrow> None | v # _ \<Rightarrow> Some v))"

text \<open>A header is used when it is present and non-empty (\<open>if (value)\<close>).\<close>

definition truthy :: "string option \<Rightarrow> string option" where
  "truthy v = (case v of Some s \<Rightarrow> if s = [] then None else Some s | None \<Rightarrow> None)"

definition resolvePrincipal :: "(string \<Rightarrow> string) \<Rightarrow> http_request \<Rightarrow> string" where
  "resolvePrincipal sha req =
     (case truthy (headerValue req ''x-api-key'') of Some k \<Rightarrow> ''x-api-key:'' @ sha k
      | None \<Rightarrow>
     (case truthy (headerValue req ''x-admin-api-key'') of Some k \<Rightarrow> ''x-admin-api-key:'' @ sha k
      | None \<Rightarrow>
     (case truthy (headerValue req ''authorization'') of Some k \<Rightarrow> ''authorization:'' @ sha k
      | None \<Rightarrow>
     (case truthy (case rq_body req of
                     Some (JObj ps) \<Rightarrow> (case map_of ps ''walletAddress'' of Some (JStr w) \<Rightarrow> Some w | _ \<Rightarrow> None)
                   | _ \<Rightarrow> None) of
        Some w \<Rightarrow> ''wallet:'' @ sha w
      | None \<Rightarrow> ''anonymous''))))"

definition idempotencyEntry :: "(string \<Rightarrow> string) \<Rightarrow> http_request \<Rightarrow> string \<Rightarrow> IdempotencyEntry" where
  "idempotencyEntry sha req idempotencyKey =
     \<lparr>ie_keyHash = sha idempotencyKey,
      ie_scope = rq_method req @ '':'' @ rq_path req,
      ie_principalHash = sha (resolvePrincipal sha req),
      ie_requestHash = sha (stableStringify (JObj
        [(''method'', JStr (rq_method req)), (''path'', JStr (rq_path req)), (''query'', rq_query req),
         (''body'', (case rq_body req of Some b \<Rightarrow> b | None \<Rightarrow> JNull))]))\<rparr>"

datatype mw_result =
    CallNext
  | RespondWith int json "(string \<times> string) list"
  | AwaitPromise string
  | CaptureAndCallNext string

definition errorBody :: "string \<Rightarrow> json" where
  "errorBody msg = JObj [(''data'', JNull), (''error'', JStr msg)]"

definition sendCachedResponse :: "CachedIdempotencyResponse \<Rightarrow> mw_result" where
  "sendCachedResponse r = RespondWith (cr_statusCode r) (cr_body r) [(''Idempotency-Status'', ''replayed'')]"

definition idempotencyMiddleware ::
  "(string \<Rightarrow> string) \<Rightarrow> http_request \<Rightarrow> string \<Rightarrow> time \<Rightarrow> idempotency_store \<Rightarrow> mw_result \<times> idempotency_store" where
  "idempotencyMiddleware sha req uuid now s =
     (if rq_method req \<noteq> ''POST'' then (CallNext, s)
      else case jsmap_get (rq_headers req) ''idempotency-key'' of
        None \<Rightarrow> (CallNext, s)
      | Some (HArr _) \<Rightarrow> (RespondWith 400 (errorBody ''Only one Idempotency-Key header is allowed'') [], s)
      | Some (HStr raw) \<Rightarrow>
          let idempotencyKey = js_trim raw
          in if idempotencyKey = [] then (RespondWith 400 (errorBody ''Idempotency-Key must not be empty'') [], s)
             else if length idempotencyKey > 255 then (RespondWith 400 (errorBody ''Idempotency-Key is too long'') [], s)
             else let (b, s') = InMemoryIdempotencyStore_begin (idempotencyEntry sha req idempotencyKey) uuid now s
                  in (case b of
                        Conflict \<Rightarrow> RespondWith 409 (errorBody ''Idempotency-Key was already used for a different request'') []
                      | Replay r \<Rightarrow> sendCachedResponse r
                      | PendingOn token \<Rightarrow> AwaitPromise token
                      | InProgress \<Rightarrow> RespondWith 409 (errorBody ''A matching idempotent request is still being processed'')
                          [(''Retry-After'', ''1'')]
                      | Started token \<Rightarrow> CaptureAndCallNext token, s'))"

text \<open>What a waiting duplicate sends once the promise it awaits is settled.\<close>

definition awaitedResponse :: "js_error + CachedIdempotencyResponse \<Rightarrow> mw_result" where
  "awaitedResponse settled =
     (case settled of
        Inr r \<Rightarrow> sendCachedResponse r
      | Inl _ \<Rightarrow> RespondWith 409 (errorBody ''A matching idempotent request is still being processed'') [])"

text \<open>The listeners \<open>captureResponse\<close> installs: \<open>finish\<close>, and \<open>close\<close> before the response has ended, or \<open>aborted\<close>.\<close>

definition captureResponse_finish ::
  "string \<Rightarrow> int \<Rightarrow> json option \<Rightarrow> time \<Rightarrow> idempotency_store \<Rightarrow> idempotency_store" where
  "captureResponse_finish token status capturedBody now s =
     (if status \<ge> 500 then InMemoryIdempotencyStore_fail token s
      else InMemoryIdempotencyStore_complete token
        \<lparr>cr_statusCode = status, cr_body = (case capturedBody of Some b \<Rightarrow> b | None \<Rightarrow> JNull)\<rparr> now s)"

definition captureResponse_close :: "bool \<Rightarrow> string \<Rightarrow> idempotency_store \<Rightarrow> idempotency_store" where
  "captureResponse_close writableEnded token s = (if \<not> writableEnded then InMemoryIdempotencyStore_fail token s else s)"

definition captureResponse_aborted :: "string \<Rightarrow> idempotency_store \<Rightarrow> idempotency_store" where
  "captureResponse_aborted token s = InMemoryIdempotencyStore_fail token s"

lemma cacheKey_append: "InMemoryIdempotencyStore_cacheKey e = ie_keyHash e @ CHR '':'' # ie_scope e @ CHR '':'' # ie_principalHash e"
  by (simp add: InMemoryIdempotencyStore_cacheKey_def)

lemma append_colon_unique:
  assumes "xs @ c # r = ys @ c # q" "c \<notin> set xs" "c \<notin> set ys"
  shows "xs = ys \<and> r = q"
  using assms by (induction xs arbitrary: ys) (auto simp: Cons_eq_append_conv append_eq_Cons_conv)

text \<open>
  Cache keys do not collide: when digests contain no colon (hexadecimal ones do not), entries with equal cache keys have the
  same key digest, the same scope and the same principal, although scopes (method and path) may contain colons.
\<close>

theorem cacheKey_injective:
  assumes "InMemoryIdempotencyStore_cacheKey e = InMemoryIdempotencyStore_cacheKey e'"
    and "CHR '':'' \<notin> set (ie_keyHash e)" "CHR '':'' \<notin> set (ie_keyHash e')"
    and "CHR '':'' \<notin> set (ie_principalHash e)" "CHR '':'' \<notin> set (ie_principalHash e')"
  shows "ie_keyHash e = ie_keyHash e' \<and> ie_scope e = ie_scope e' \<and> ie_principalHash e = ie_principalHash e'"
proof -
  have k: "ie_keyHash e = ie_keyHash e' \<and> ie_scope e @ CHR '':'' # ie_principalHash e = ie_scope e' @ CHR '':'' # ie_principalHash e'"
    using assms(1-3) unfolding cacheKey_append by (rule append_colon_unique)
  then have "rev (ie_principalHash e) @ CHR '':'' # rev (ie_scope e) = rev (ie_principalHash e') @ CHR '':'' # rev (ie_scope e')"
    by (metis append.assoc append_Cons append_Nil rev.simps(2) rev_append)
  then have "rev (ie_principalHash e) = rev (ie_principalHash e') \<and> rev (ie_scope e) = rev (ie_scope e')"
    by (rule append_colon_unique) (use assms(4,5) in simp_all)
  with k show ?thesis by simp
qed

theorem cacheKey_injective_witness:
  "InMemoryIdempotencyStore_cacheKey exampleEntry = InMemoryIdempotencyStore_cacheKey (exampleEntry\<lparr>ie_requestHash := ''h2''\<rparr>) \<and>
   ie_scope exampleEntry = ie_scope (exampleEntry\<lparr>ie_requestHash := ''h2''\<rparr>)"
proof -
  have k: "InMemoryIdempotencyStore_cacheKey exampleEntry = InMemoryIdempotencyStore_cacheKey (exampleEntry\<lparr>ie_requestHash := ''h2''\<rparr>)"
    by (simp add: InMemoryIdempotencyStore_cacheKey_def)
  from cacheKey_injective [OF this] k show ?thesis by (simp add: exampleEntry_def)
qed

text \<open>Equality of JSON values up to the order of object properties, at every level.\<close>

inductive same_json :: "json \<Rightarrow> json \<Rightarrow> bool" where
  same: "same_json v v"
| array: "list_all2 same_json xs ys \<Longrightarrow> same_json (JArr xs) (JArr ys)"
| object: "list_all2 (\<lambda>p q. fst p = fst q \<and> same_json (snd p) (snd q)) ps qs \<Longrightarrow> mset qs = mset rs \<Longrightarrow>
    distinct (map fst ps) \<Longrightarrow> same_json (JObj ps) (JObj rs)"

lemma sort_properties_mset:
  assumes "mset xs = mset ys" "distinct (map fst xs)"
  shows "js_sort (\<lambda>a b. code_unit_compare (fst a) (fst b)) xs = js_sort (\<lambda>a b. code_unit_compare (fst a) (fst b)) (ys :: (string \<times> 'a) list)"
proof -
  have "comparator (\<lambda>a b :: string \<times> 'a. code_unit_compare (fst a) (fst b))"
    by unfold_locales (use cu.cmp_flip cu.cmp_trans in blast)+
  then show ?thesis
    by (rule comparator.js_sort_mset_cong)
       (use assms in \<open>auto simp: distinct_map inj_on_def dest!: code_unit_compare_eq\<close>)
qed

text \<open>
  The request fingerprint does not depend on the order of object properties: JSON values that are equal up to the order
  of properties (at any depth) have the same \<open>stableStringify\<close>, so a retried request is recognised even if its
  client serialises the body in another order.
\<close>

theorem stableStringify_order_insensitive:
  assumes "same_json a b"
  shows "stableStringify a = stableStringify b"
  using assms
proof (induction rule: same_json.induct)
  case (array xs ys)
  then have "map stableStringify xs = map stableStringify ys" by (induction rule: list_all2_induct) auto
  then show ?case by simp
next
  case (object ps qs rs)
  let ?f = "\<lambda>(k, v). (k, stableStringify v)"
  have 1: "map ?f ps = map ?f qs" and k: "map fst ps = map fst qs"
    using object(1) by (induction rule: list_all2_induct) (auto simp: case_prod_beta)
  have "mset (map ?f qs) = mset (map ?f rs)" using object(2) by (simp only: mset_map)
  moreover have "map fst (map ?f qs) = map fst qs" by (simp add: case_prod_beta o_def)
  then have "distinct (map fst (map ?f qs))" using k object(3) by (simp only:)
  ultimately have "js_sort (\<lambda>a b. code_unit_compare (fst a) (fst b)) (map ?f qs) =
      js_sort (\<lambda>a b. code_unit_compare (fst a) (fst b)) (map ?f rs)" by (rule sort_properties_mset)
  with 1 show ?case by simp
qed simp

theorem stableStringify_order_insensitive_witness:
  "stableStringify (JObj [(''b'', JBool True), (''a'', JStr ''x'')]) = stableStringify (JObj [(''a'', JStr ''x''), (''b'', JBool True)])"
proof -
  have "same_json (JObj [(''b'', JBool True), (''a'', JStr ''x'')]) (JObj [(''a'', JStr ''x''), (''b'', JBool True)])"
    by (rule same_json.object [where qs = "[(''b'', JBool True), (''a'', JStr ''x'')]"]) (auto intro: same_json.same)
  then show ?thesis by (rule stableStringify_order_insensitive)
qed

section \<open>Serving a request\<close>

text \<open>A request served without interleaving: the handler computes a response from the request and the world, and answers
  with \<open>res.status(status).json(body)\<close>.\<close>

definition serve ::
  "(string \<Rightarrow> string) \<Rightarrow> (http_request \<Rightarrow> 'w \<Rightarrow> (int \<times> json) \<times> 'w) \<Rightarrow> http_request \<Rightarrow> string \<Rightarrow> time \<Rightarrow>
     idempotency_store \<times> 'w \<Rightarrow> (int \<times> json) option \<times> idempotency_store \<times> 'w" where
  "serve sha handler req uuid now sw =
     (case sw of (s, w) \<Rightarrow>
        let (r, s') = idempotencyMiddleware sha req uuid now s
        in case r of
             CallNext \<Rightarrow> (let (resp, w') = handler req w in (Some resp, s', w'))
           | RespondWith status body _ \<Rightarrow> (Some (status, body), s', w)
           | AwaitPromise token \<Rightarrow>
               (case jsmap_get (is_promises s') token of
                  None \<Rightarrow> (None, s', w)
                | Some settled \<Rightarrow> (case awaitedResponse settled of RespondWith st b _ \<Rightarrow> (Some (st, b), s', w) | _ \<Rightarrow> (None, s', w)))
           | CaptureAndCallNext token \<Rightarrow>
               (let ((status, body), w') = handler req w
                in (Some (status, body), captureResponse_finish token status (Some body) now s', w')))"

definition idempotency_key_ok :: "http_request \<Rightarrow> bool" where
  "idempotency_key_ok req \<longleftrightarrow> rq_method req = ''POST'' \<and>
     (case jsmap_get (rq_headers req) ''idempotency-key'' of
        Some (HStr raw) \<Rightarrow> js_trim raw \<noteq> [] \<and> length (js_trim raw) \<le> 255
      | _ \<Rightarrow> False)"

abbreviation requestEntry :: "(string \<Rightarrow> string) \<Rightarrow> http_request \<Rightarrow> IdempotencyEntry" where
  "requestEntry sha req \<equiv> idempotencyEntry sha req
     (case jsmap_get (rq_headers req) ''idempotency-key'' of Some (HStr raw) \<Rightarrow> js_trim raw | _ \<Rightarrow> [])"

lemma middleware_keyed:
  "idempotency_key_ok req \<Longrightarrow> InMemoryIdempotencyStore_begin (requestEntry sha req) uuid now s = (b, s') \<Longrightarrow>
     idempotencyMiddleware sha req uuid now s =
       (case b of Conflict \<Rightarrow> RespondWith 409 (errorBody ''Idempotency-Key was already used for a different request'') []
        | Replay r \<Rightarrow> sendCachedResponse r | PendingOn token \<Rightarrow> AwaitPromise token
        | InProgress \<Rightarrow> RespondWith 409 (errorBody ''A matching idempotent request is still being processed'') [(''Retry-After'', ''1'')]
        | Started token \<Rightarrow> CaptureAndCallNext token, s')"
  by (auto simp: idempotencyMiddleware_def idempotency_key_ok_def Let_def split: option.splits header_value.splits)

lemma started_record:
  assumes "InMemoryIdempotencyStore_begin e u t s = (Started u', s0)" "idem_invar s" "jsmap_get (is_tokens s) u = None"
  shows "idem_invar s0" "is_ttlMs s0 = is_ttlMs s"
    "jsmap_get (is_records s0) (InMemoryIdempotencyStore_cacheKey e) = Some (PendingMemoryRecord u (ie_requestHash e) (t + is_ttlMs s))"
  using idem_invar_begin [OF assms(2,3), of e t] assms(1)
  by (auto simp: InMemoryIdempotencyStore_begin_def Let_def split: option.splits MemoryRecord.splits if_splits)

lemma completed_request_replays:
  assumes "InMemoryIdempotencyStore_begin e u t s = (Started u, s0)" "idem_invar s" "jsmap_get (is_tokens s) u = None" "0 < is_ttlMs s" "t2 < t + is_ttlMs s"
  shows "fst (InMemoryIdempotencyStore_begin e u2 t2 (InMemoryIdempotencyStore_complete u r t s0)) = Replay r"
proof -
  note st = started_record [OF assms(1-3)]
  have h: "holds_request u (InMemoryIdempotencyStore_cacheKey e) (ie_requestHash e) None (t + is_ttlMs s) s0" using st by (simp add: holds_request_def)
  have "holds_request u (InMemoryIdempotencyStore_cacheKey e) (ie_requestHash e) (completion_of u [OpComplete u r t]) (t + is_ttlMs s)
      (fold idem_apply [OpComplete u r t] s0)"
    using holds_request_run [OF h, of t "[OpComplete u r t]"] st(2) assms(4) by simp
  from begin_on_held [OF this assms(5)] show ?thesis by (simp add: completion_of_def)
qed

text \<open>
  C8. A keyed POST that starts an execution is answered by the handler. If the answer is below 500, repeating the request within the retention time returns the same status
  and body without calling the handler again, so the world is unchanged. An answer of 500 or more is not stored, and the repeated request, whenever it comes, is executed
  again. (Requests served one after the other.)
\<close>

theorem repeated_request_is_replayed:
  assumes "idempotency_key_ok req" "idem_invar s" "jsmap_get (is_tokens s) u1 = None" "0 < is_ttlMs s"
    and "fst (InMemoryIdempotencyStore_begin (requestEntry sha req) u1 t1 s) = Started u1"
    and "serve sha handler req u1 t1 (s, w) = (Some (status, body), s1, w1)"
  shows "handler req w = ((status, body), w1) \<and>
     (if status < 500 then t2 < t1 + is_ttlMs s \<longrightarrow> (\<exists>s2. serve sha handler req u2 t2 (s1, w1) = (Some (status, body), s2, w1))
      else \<exists>s2. serve sha handler req u2 t2 (s1, w1) = (Some (fst (handler req w1)), s2, snd (handler req w1)))"
proof -
  let ?e = "requestEntry sha req" and ?r = "\<lparr>cr_statusCode = status, cr_body = body\<rparr>"
  obtain s0 where b: "InMemoryIdempotencyStore_begin ?e u1 t1 s = (Started u1, s0)"
    using assms(5) by (cases "InMemoryIdempotencyStore_begin ?e u1 t1 s") auto
  note st = started_record [OF b assms(2,3)]
  obtain st bd w' where h: "handler req w = ((st, bd), w')" by (metis prod.collapse)
  have eqs: "st = status" "bd = body" "w' = w1" and s1: "s1 = captureResponse_finish u1 status (Some body) t1 s0"
    using assms(6) by (auto simp: serve_def middleware_keyed [OF assms(1) b] h)
  have again: "\<exists>s2. InMemoryIdempotencyStore_begin ?e u2 t2 s1 = (a, s2)" if "fst (InMemoryIdempotencyStore_begin ?e u2 t2 s1) = a" for a
    using that by (metis prod.collapse)
  show ?thesis
  proof (cases "status < 500")
    case True
    have "\<exists>s2. serve sha handler req u2 t2 (s1, w1) = (Some (status, body), s2, w1)" if "t2 < t1 + is_ttlMs s"
    proof -
      have "fst (InMemoryIdempotencyStore_begin ?e u2 t2 s1) = Replay ?r"
        using completed_request_replays [OF b assms(2-4) that, of u2 ?r] True by (simp add: s1 captureResponse_finish_def)
      then obtain s2 where "InMemoryIdempotencyStore_begin ?e u2 t2 s1 = (Replay ?r, s2)" using again by blast
      from middleware_keyed [OF assms(1) this] show ?thesis by (simp add: serve_def sendCachedResponse_def)
    qed
    then show ?thesis using True h eqs by simp
  next
    case False
    have "fst (InMemoryIdempotencyStore_begin ?e u2 t2 s1) = Started u2"
      using failed_request_restarts [OF st(1,3)] False by (simp add: s1 captureResponse_finish_def)
    then obtain s2 where "InMemoryIdempotencyStore_begin ?e u2 t2 s1 = (Started u2, s2)" using again by blast
    from middleware_keyed [OF assms(1) this] have "\<exists>s3. serve sha handler req u2 t2 (s1, w1) = (Some (fst (handler req w1)), s3, snd (handler req w1))"
      by (simp add: serve_def split: prod.split)
    then show ?thesis using False h eqs by simp
  qed
qed

definition exampleRequest :: http_request where
  "exampleRequest = \<lparr>rq_method = ''POST'', rq_path = ''/draw'', rq_headers = [(''idempotency-key'', HStr ''abc'')],
     rq_query = JObj [], rq_body = None\<rparr>"

theorem repeated_request_is_replayed_witness:
  "let out = serve (\<lambda>x. x) (\<lambda>req n. ((200, JNull), Suc n)) exampleRequest ''T1'' 0 (InMemoryIdempotencyStore_new 100, 7)
   in \<exists>s2. serve (\<lambda>x. x) (\<lambda>req n. ((200, JNull), Suc n)) exampleRequest ''T2'' 50 (snd out) = (Some (200, JNull), s2, 8)"
proof -
  let ?s = "InMemoryIdempotencyStore_new 100"
  let ?h = "\<lambda>(req :: http_request) (n :: nat). ((200 :: int, JNull), Suc n)"
  have k: "idempotency_key_ok exampleRequest"
    by (simp add: idempotency_key_ok_def exampleRequest_def js_trim_def is_ws_def)
  have b: "fst (InMemoryIdempotencyStore_begin (requestEntry (\<lambda>x. x) exampleRequest) ''T1'' 0 ?s) = Started ''T1''"
    by (simp add: InMemoryIdempotencyStore_begin_def InMemoryIdempotencyStore_new_def InMemoryIdempotencyStore_pruneExpired_def
        Let_def jsmap_prune_def jsmap_empty_def)
  then obtain s0 where b': "InMemoryIdempotencyStore_begin (requestEntry (\<lambda>x. x) exampleRequest) ''T1'' 0 ?s = (Started ''T1'', s0)"
    by (metis prod.collapse)
  have o: "\<exists>s1. serve (\<lambda>x. x) ?h exampleRequest ''T1'' 0 (?s, 7) = (Some (200, JNull), s1, 8)"
    using middleware_keyed [OF k b'] by (simp add: serve_def)
  then obtain s1 where s1: "serve (\<lambda>x. x) ?h exampleRequest ''T1'' 0 (?s, 7) = (Some (200, JNull), s1, 8)" by blast
  have "\<exists>s2. serve (\<lambda>x. x) ?h exampleRequest ''T2'' 50 (s1, 8) = (Some (200, JNull), s2, 8)"
    using repeated_request_is_replayed [OF k idem_invar_new _ _ b s1, of 50 "''T2''"] by (simp add: InMemoryIdempotencyStore_new_def)
  then show ?thesis using s1 by (auto simp: Let_def)
qed

end
