(* ===== verification/RateLimit.thy ===== *)
theory RateLimit
  imports Idempotency
begin

text \<open>
  The token-bucket rate limiter (\<open>src/middleware/rateLimit.ts\<close>) and its configuration (\<open>src/config/rateLimit.ts\<close>).
  Token counts, windows and instants are binary64 numbers, as in the code; \<open>Date.now()\<close> is an argument. Of the
  Redis store the connection and the timeout are outside the model: the outcome of the call is an argument; the script it runs
  is in \<open>RedisRateLimit\<close>. \<open>sha\<close> stands for the SHA-256 digest.
\<close>

record RateLimitResult =
  rl_allowed :: bool
  rl_remaining :: number
  rl_resetAt :: number

record MemoryBucket =
  mb_tokens :: number
  mb_lastRefillAt :: number

type_synonym rate_store = "(string, MemoryBucket) jsmap"

definition refilledTokens :: "MemoryBucket option \<Rightarrow> number \<Rightarrow> number \<Rightarrow> number \<Rightarrow> number" where
  "refilledTokens existing safeCapacity refillRate now =
     (case existing of
        None \<Rightarrow> safeCapacity
      | Some b \<Rightarrow>
          let elapsed = num_max (Fin 0) (num_sub now (mb_lastRefillAt b))
          in num_min safeCapacity (num_add (mb_tokens b) (num_mul elapsed refillRate)))"

definition consumeTokenBucket ::
  "MemoryBucket option \<Rightarrow> number \<Rightarrow> number \<Rightarrow> number \<Rightarrow> MemoryBucket \<times> RateLimitResult" where
  "consumeTokenBucket existing capacity windowMs now =
     (let safeCapacity = num_max (Fin 1) capacity;
          safeWindow = num_max (Fin 1) windowMs;
          refillRate = num_div safeCapacity safeWindow;
          tokens = refilledTokens existing safeCapacity refillRate now
      in if num_ge tokens (Fin 1)
         then let tokens' = num_sub tokens (Fin 1);
                  remaining = num_floor tokens';
                  deficit = num_sub safeCapacity tokens';
                  resetAt = (if num_le deficit (Fin 0) then now else num_add now (num_ceil (num_div deficit refillRate)))
              in (\<lparr>mb_tokens = tokens', mb_lastRefillAt = now\<rparr>,
                  \<lparr>rl_allowed = True, rl_remaining = num_max (Fin 0) remaining, rl_resetAt = resetAt\<rparr>)
         else let need = num_sub (Fin 1) tokens
              in (\<lparr>mb_tokens = tokens, mb_lastRefillAt = now\<rparr>,
                  \<lparr>rl_allowed = False, rl_remaining = Fin 0,
                   rl_resetAt = num_add now (num_ceil (num_div need refillRate))\<rparr>))"

definition InMemoryRateLimitStore_cleanup :: "number \<Rightarrow> number \<Rightarrow> number \<Rightarrow> rate_store \<Rightarrow> rate_store" where
  "InMemoryRateLimitStore_cleanup capacity windowMs now s =
     (let idleMs = num_max (num_mul windowMs (Fin 2)) (Fin 1)
      in jsmap_prune (\<lambda>_ b. num_ge (num_sub now (mb_lastRefillAt b)) idleMs \<and> num_ge (mb_tokens b) capacity) s)"

definition InMemoryRateLimitStore_consume ::
  "string \<Rightarrow> number \<Rightarrow> number \<Rightarrow> number \<Rightarrow> rate_store \<Rightarrow> RateLimitResult \<times> rate_store" where
  "InMemoryRateLimitStore_consume key capacity windowMs now s =
     (let s' = InMemoryRateLimitStore_cleanup capacity windowMs now s;
          (bucket, outcome) = consumeTokenBucket (jsmap_get s' key) capacity windowMs now
      in (outcome, jsmap_set key bucket s'))"

section \<open>Keys and bypass\<close>

text \<open>\<open>ip\<close> is Express' \<open>req.ip\<close>, \<open>trust\<close> whether \<open>trust proxy\<close> is set.\<close>

definition getClientIp :: "string option \<Rightarrow> bool \<Rightarrow> http_request \<Rightarrow> string" where
  "getClientIp ip trust req =
     (let ip' = truthy ip;
          forwarded = (case jsmap_get (rq_headers req) ''x-forwarded-for'' of Some (HStr f) \<Rightarrow> truthy (Some f) | _ \<Rightarrow> None);
          first = (case forwarded of None \<Rightarrow> None | Some f \<Rightarrow> truthy (Some (js_trim (hd (js_split (CHR '','') f)))))
      in case (ip', trust) of
           (Some i, True) \<Rightarrow> i
         | _ \<Rightarrow> (case first of Some f \<Rightarrow> f | None \<Rightarrow> (case ip' of Some i \<Rightarrow> i | None \<Rightarrow> ''unknown'')))"

definition createIpKeyGenerator :: "string option \<Rightarrow> bool \<Rightarrow> http_request \<Rightarrow> string" where
  "createIpKeyGenerator ip trust req = getClientIp ip trust req"

definition createApiKeyKeyGenerator :: "string option \<Rightarrow> bool \<Rightarrow> http_request \<Rightarrow> string" where
  "createApiKeyKeyGenerator ip trust req =
     (case jsmap_get (rq_headers req) ''x-api-key'' of
        Some (HStr k) \<Rightarrow> if k \<noteq> [] then ''apikey:'' @ k else ''ip:'' @ getClientIp ip trust req
      | _ \<Rightarrow> ''ip:'' @ getClientIp ip trust req)"

definition timingSafeStringEqual :: "(string \<Rightarrow> string) \<Rightarrow> string \<Rightarrow> string \<Rightarrow> bool" where
  "timingSafeStringEqual sha left right \<longleftrightarrow> sha left = sha right \<and> length left = length right"

definition adminBypass :: "(string \<Rightarrow> string) \<Rightarrow> string option \<Rightarrow> http_request \<Rightarrow> bool" where
  "adminBypass sha expectedKey req =
     (case truthy expectedKey of
        None \<Rightarrow> False
      | Some expected \<Rightarrow>
          (case jsmap_get (rq_headers req) ''x-admin-api-key'' of
             Some (HStr provided) \<Rightarrow> provided \<noteq> [] \<and> timingSafeStringEqual sha provided expected
           | _ \<Rightarrow> False))"

section \<open>The Redis store\<close>

datatype RedisRateLimitFailureMode = FailOpen | FailClosed

definition fallbackResult :: "RedisRateLimitFailureMode \<Rightarrow> number \<Rightarrow> number \<Rightarrow> number \<Rightarrow> RateLimitResult" where
  "fallbackResult mode now windowMs capacity =
     (case mode of
        FailOpen \<Rightarrow> \<lparr>rl_allowed = True, rl_remaining = capacity, rl_resetAt = num_add now windowMs\<rparr>
      | FailClosed \<Rightarrow> \<lparr>rl_allowed = False, rl_remaining = Fin 0, rl_resetAt = num_add now windowMs\<rparr>)"

text \<open>The reply of the script: an array of numbers, or something else.\<close>

definition parseRedisConsumeResult :: "number list option \<Rightarrow> js_error + RateLimitResult" where
  "parseRedisConsumeResult result =
     (case result of
        Some (allowedFlag # remaining # resetAt # _) \<Rightarrow>
          if \<not> list_all num_isFinite [allowedFlag, remaining, resetAt]
          then Inl (Error ''Redis rate-limit consume returned non-numeric values'')
          else Inr \<lparr>rl_allowed = num_eq allowedFlag (Fin 1), rl_remaining = num_max (Fin 0) (num_floor remaining), rl_resetAt = resetAt\<rparr>
      | _ \<Rightarrow> Inl (Error ''Redis rate-limit consume returned an invalid response''))"

definition RedisRateLimitStore_consume ::
  "RedisRateLimitFailureMode \<Rightarrow> js_error + number list option \<Rightarrow> number \<Rightarrow> number \<Rightarrow> number \<Rightarrow> RateLimitResult" where
  "RedisRateLimitStore_consume mode reply capacity windowMs now =
     (case reply of
        Inl _ \<Rightarrow> fallbackResult mode now windowMs capacity
      | Inr r \<Rightarrow> (case parseRedisConsumeResult r of Inl _ \<Rightarrow> fallbackResult mode now windowMs capacity | Inr res \<Rightarrow> res))"

definition RedisRateLimitStore_increment :: "RateLimitResult \<Rightarrow> number \<Rightarrow> number \<times> number" where
  "RedisRateLimitStore_increment result capacity =
     (if rl_allowed result then num_max (Fin 1) (num_sub capacity (rl_remaining result)) else num_add capacity (Fin 1), rl_resetAt result)"

definition RedisRateLimitStore_buildKey :: "(string \<Rightarrow> string) \<Rightarrow> string \<Rightarrow> string \<Rightarrow> string" where
  "RedisRateLimitStore_buildKey sha prefix key = prefix @ '':'' @ sha key"

section \<open>The middleware\<close>

datatype rate_limit_response =
    RateNext "(string \<times> string) list"
  | RateDenied "(string \<times> string) list" string number

definition applyRateLimitHeaders :: "number \<Rightarrow> number \<Rightarrow> number \<Rightarrow> string option \<Rightarrow> (string \<times> string) list" where
  "applyRateLimitHeaders limit remaining resetAt bypass =
     [(''X-RateLimit-Limit'', num_toString limit),
      (''X-RateLimit-Remaining'', num_toString (num_max (Fin 0) remaining)),
      (''X-RateLimit-Reset'', num_toString (num_ceil (num_div resetAt (Fin 1000))))] @
     (case truthy bypass of Some b \<Rightarrow> [(''X-RateLimit-Bypass'', b)] | None \<Rightarrow> [])"

definition applyDenied :: "number \<Rightarrow> number \<Rightarrow> number \<Rightarrow> rate_limit_response" where
  "applyDenied limit resetAt now =
     (let retryAfter = num_max (Fin 1) (num_ceil (num_div (num_sub resetAt now) (Fin 1000)))
      in RateDenied (applyRateLimitHeaders limit (Fin 0) resetAt None @ [(''Retry-After'', num_toString retryAfter)])
           (''Too many requests. Please retry after '' @ num_toString retryAfter @ '' seconds.'') retryAfter)"

definition rateLimitMiddleware ::
  "(http_request \<Rightarrow> bool) option \<Rightarrow> (http_request \<Rightarrow> string) \<Rightarrow> number \<Rightarrow> number \<Rightarrow> http_request \<Rightarrow> number \<Rightarrow> rate_store \<Rightarrow>
     rate_limit_response \<times> rate_store" where
  "rateLimitMiddleware skip keyGenerator maxRequests windowMs req now s =
     (if (case skip of Some p \<Rightarrow> p req | None \<Rightarrow> False)
      then (RateNext (applyRateLimitHeaders maxRequests maxRequests (num_add now windowMs) (Some ''admin'')), s)
      else let (outcome, s') = InMemoryRateLimitStore_consume (keyGenerator req) maxRequests windowMs now s
           in if \<not> rl_allowed outcome then (applyDenied maxRequests (rl_resetAt outcome) now, s')
              else (RateNext (applyRateLimitHeaders maxRequests (rl_remaining outcome) (rl_resetAt outcome) None), s'))"

section \<open>Configuration\<close>

definition parseIntOrDefault :: "string option \<Rightarrow> number \<Rightarrow> number" where
  "parseIntOrDefault value defaultValue =
     (case value of
        None \<Rightarrow> defaultValue
      | Some v \<Rightarrow> (let parsed = parseInt10 v in if parsed = NaN \<or> num_le parsed (Fin 0) then defaultValue else parsed))"

definition parseFailureMode :: "string option \<Rightarrow> RedisRateLimitFailureMode" where
  "parseFailureMode value = (if value = Some ''closed'' then FailClosed else FailOpen)"

record RateLimitConfig =
  rlc_windowMs :: number
  rlc_maxRequests :: number

record RateLimitConfigs =
  rlcs_default :: RateLimitConfig
  rlcs_evaluate :: RateLimitConfig
  rlcs_export :: RateLimitConfig

definition loadRateLimitConfig :: "(string \<Rightarrow> string option) \<Rightarrow> RateLimitConfigs" where
  "loadRateLimitConfig env =
     (let windowMs = parseIntOrDefault (env ''RATE_LIMIT_WINDOW_MS'') (Fin 60000);
          maxRequests = parseIntOrDefault (env ''RATE_LIMIT_MAX_REQUESTS'') (Fin 100);
          maxEvaluate = parseIntOrDefault (env ''RATE_LIMIT_MAX_EVALUATE'') (Fin 10);
          maxExport = parseIntOrDefault (env ''RATE_LIMIT_MAX_EXPORT'') (Fin 5)
      in \<lparr>rlcs_default = \<lparr>rlc_windowMs = windowMs, rlc_maxRequests = maxRequests\<rparr>,
          rlcs_evaluate = \<lparr>rlc_windowMs = windowMs, rlc_maxRequests = maxEvaluate\<rparr>,
          rlcs_export = \<lparr>rlc_windowMs = windowMs, rlc_maxRequests = maxExport\<rparr>\<rparr>)"

definition loadRateLimitStoreConfig :: "(string \<Rightarrow> string option) \<Rightarrow> string option \<times> RedisRateLimitFailureMode" where
  "loadRateLimitStoreConfig env = (env ''RATE_LIMIT_REDIS_URL'', parseFailureMode (env ''RATE_LIMIT_REDIS_FAILURE_MODE''))"

section \<open>The bucket\<close>

text \<open>A stored bucket for capacity \<open>c\<close> holds at least 0 and less than \<open>c\<close> tokens; instants are integers below \<open>2 ^ 52\<close>.\<close>

definition bucket_ok :: "rat \<Rightarrow> MemoryBucket \<Rightarrow> bool" where
  "bucket_ok c b \<longleftrightarrow> (\<exists>t i. mb_tokens b = Fin t \<and> is_double (Fin t) \<and> 0 \<le> t \<and> t < c \<and>
     mb_lastRefillAt b = num_of_int i \<and> \<bar>i\<bar> < 2 ^ 52)"

definition limits_ok :: "rat \<Rightarrow> rat \<Rightarrow> bool" where
  "limits_ok c w \<longleftrightarrow> is_double (Fin c) \<and> 1 \<le> c \<and> c \<le> 2 ^ 53 \<and> is_double (Fin w) \<and> 1 \<le> w"

lemma double_minus_one:
  assumes "is_double (Fin x)" "1 \<le> x" "x \<le> 2 ^ 53"
  shows "is_double (Fin (x - 1))"
proof -
  obtain m e where x: "x = of_int m * 2 powi e" and m: "\<bar>m\<bar> < 2 ^ 53" and e: "- 1074 \<le> e" and b: "\<bar>x\<bar> < dmax"
    using assms(1) by (auto simp: is_double.simps)
  have b': "\<bar>x - 1\<bar> < dmax" using b assms(2) by linarith
  show ?thesis
  proof (cases "e \<le> 0")
    case True
    define k where "k = nat (- e)"
    have k: "e = - int k" using True by (simp add: k_def)
    have p: "(2::rat) powi e * 2 ^ k = 1" by (simp add: k power_int_minus)
    have "x - 1 = (of_int m - 2 ^ k) * 2 powi e" using p by (simp add: x algebra_simps)
    also have "\<dots> = of_int (m - 2 ^ k) * 2 powi e" by simp
    finally have x1: "x - 1 = of_int (m - 2 ^ k) * 2 powi e" .
    have pe: "(0::rat) < 2 powi e" by simp
    have "0 \<le> of_int (m - 2 ^ k) * (2::rat) powi e" using assms(2) x1 by simp
    then have "(0::rat) \<le> of_int (m - 2 ^ k)" using pe by (simp only: zero_le_mult_iff) (auto dest: order.strict_trans1)
    then have m0: "0 \<le> m - 2 ^ k" by (simp only: of_int_0_le_iff)
    have "(0::int) \<le> 2 ^ k" by simp
    then have "\<bar>m - 2 ^ k\<bar> < 2 ^ 53" using m m0 by linarith
    then show ?thesis using x1 e b' unfolding is_double.simps by blast
  next
    case False
    then have "x = of_int (m * 2 ^ nat e)" by (simp add: x power_int_def)
    then obtain i where i: "x = of_int i" by blast
    have "(of_int 1 :: rat) \<le> of_int i" "(of_int i :: rat) \<le> of_int (2 ^ 53)" using assms(2,3) i by simp_all
    then have "1 \<le> i" "i \<le> 2 ^ 53" by (simp_all only: of_int_le_iff)
    then have "\<bar>i - 1\<bar> < 2 ^ 53" by linarith
    from is_double_int [OF this] show ?thesis by (simp add: i)
  qed
qed

lemma elapsed_cases:
  assumes "\<bar>i\<bar> < 2 ^ 52" "\<bar>j\<bar> < 2 ^ 52"
  shows "num_max (Fin 0) (num_sub (num_of_int i) (num_of_int j)) = Fin (of_int (max 0 (i - j)))"
proof -
  have "(2::int) ^ 53 = 2 ^ 52 + 2 ^ 52" by simp
  then have "\<bar>i - j\<bar> < 2 ^ 53" using assms by linarith
  then have "num_sub (num_of_int i) (num_of_int j) = Fin (of_int (i - j))" using dround_int [of "i - j"] by simp
  then show ?thesis by (simp add: num_max_def max_def)
qed

lemma refill_rate:
  assumes "limits_ok c w"
  obtains r where "num_div (num_max (Fin 1) (Fin c)) (num_max (Fin 1) (Fin w)) = Fin r" "0 \<le> r"
    "num_max (Fin 1) (Fin c) = Fin c"
proof -
  have c: "is_double (Fin c)" "1 \<le> c" and w: "1 \<le> w" using assms by (simp_all add: limits_ok_def)
  have mc: "num_max (Fin 1) (Fin c) = Fin c" and mw: "num_max (Fin 1) (Fin w) = Fin w" using c w by (auto simp: num_max_def)
  have "c / w \<le> c / 1" using c w by (intro divide_left_mono) auto
  moreover have "0 \<le> c / w" using c w by simp
  ultimately obtain r where "dround (c / w) = Fin r" "0 \<le> r" "r \<le> c" using dround_le_Fin [OF _ _ c(1), of "c / w"] by auto
  then show thesis using that [of r] mc mw w by auto
qed

text \<open>Refilling stays within the capacity, and adds nothing when no time has passed.\<close>

lemma refilled_bounds:
  assumes "limits_ok c w" "case existing of None \<Rightarrow> True | Some b \<Rightarrow> bucket_ok c b" "0 \<le> r" "\<bar>now\<bar> < 2 ^ 52"
  obtains t where "refilledTokens existing (Fin c) (Fin r) (num_of_int now) = Fin t" "is_double (Fin t)" "0 \<le> t" "t \<le> c"
    and "existing = None \<Longrightarrow> t = c"
    and "\<And>b. existing = Some b \<Longrightarrow> mb_lastRefillAt b = num_of_int now \<Longrightarrow> Fin t = mb_tokens b"
proof (cases existing)
  case None
  then show thesis using that [of c] assms(1) by (simp add: refilledTokens_def limits_ok_def)
next
  case (Some b)
  then obtain t j where t: "mb_tokens b = Fin t" "is_double (Fin t)" "0 \<le> t" "t < c" and j: "mb_lastRefillAt b = num_of_int j" "\<bar>j\<bar> < 2 ^ 52"
    using assms(2) by (auto simp: bucket_ok_def)
  let ?e = "of_int (max 0 (now - j)) :: rat"
  have el: "num_max (Fin 0) (num_sub (num_of_int now) (mb_lastRefillAt b)) = Fin ?e" using elapsed_cases [OF assms(4) j(2)] j(1) by simp
  have nn: "0 \<le> ?e * r" using assms(3) by (intro mult_nonneg_nonneg) auto
  have ref: "refilledTokens existing (Fin c) (Fin r) (num_of_int now) = num_min (Fin c) (num_add (Fin t) (dround (?e * r)))"
    by (simp add: refilledTokens_def Some el t(1) Let_def)
  obtain t' where t': "num_min (Fin c) (num_add (Fin t) (dround (?e * r))) = Fin t'" "is_double (Fin t')" "0 \<le> t'" "t' \<le> c"
  proof (cases "dround (?e * r) = PosInf")
    case True
    then have "num_min (Fin c) (num_add (Fin t) (dround (?e * r))) = Fin c" by (simp add: num_min_def)
    then show thesis using that [of c] assms(1) by (simp add: limits_ok_def)
  next
    case False
    then obtain v where v: "dround (?e * r) = Fin v" "0 \<le> v" using dround_nonneg [OF nn] by blast
    have "num_add (Fin t) (Fin v) = PosInf \<or> (\<exists>z \<ge> 0. num_add (Fin t) (Fin v) = Fin z)"
      using dround_nonneg [of "t + v"] t(3) v(2) by simp
    then show thesis
    proof
      assume "num_add (Fin t) (Fin v) = PosInf"
      then show thesis using that [of c] assms(1) v by (simp add: num_min_def limits_ok_def)
    next
      assume "\<exists>z \<ge> 0. num_add (Fin t) (Fin v) = Fin z"
      then obtain z where z: "num_add (Fin t) (Fin v) = Fin z" "0 \<le> z" by blast
      have "is_double (Fin z)" using is_double_dround [of "t + v"] z(1) by (simp only: num_add.simps)
      then show thesis using that [of "min c z"] assms(1) v z by (auto simp: num_min_def min_def limits_ok_def)
    qed
  qed
  have "t' = t" if "mb_lastRefillAt b = num_of_int now"
  proof -
    have "?e = 0" using that j(1) by simp
    then show ?thesis using t' t dround_id [OF t(2)] by (simp add: num_min_def split: if_splits)
  qed
  then show thesis using that [of t'] t' ref Some t(1) by simp
qed

lemma consume_cases:
  assumes "limits_ok c w" "case existing of None \<Rightarrow> True | Some b \<Rightarrow> bucket_ok c b" "\<bar>now\<bar> < 2 ^ 52"
  obtains t where "0 \<le> t" "t \<le> c" "existing = None \<Longrightarrow> t = c"
    and "\<And>b. existing = Some b \<Longrightarrow> mb_lastRefillAt b = num_of_int now \<Longrightarrow> Fin t = mb_tokens b"
    and "rl_allowed (snd (consumeTokenBucket existing (Fin c) (Fin w) (num_of_int now))) \<longleftrightarrow> 1 \<le> t"
    and "fst (consumeTokenBucket existing (Fin c) (Fin w) (num_of_int now)) =
           \<lparr>mb_tokens = Fin (if 1 \<le> t then t - 1 else t), mb_lastRefillAt = num_of_int now\<rparr>"
    and "bucket_ok c (fst (consumeTokenBucket existing (Fin c) (Fin w) (num_of_int now)))"
proof -
  obtain r where r: "num_div (num_max (Fin 1) (Fin c)) (num_max (Fin 1) (Fin w)) = Fin r" "0 \<le> r" "num_max (Fin 1) (Fin c) = Fin c"
    by (rule refill_rate [OF assms(1)])
  obtain t where t: "refilledTokens existing (Fin c) (Fin r) (num_of_int now) = Fin t" "is_double (Fin t)" "0 \<le> t" "t \<le> c"
    "existing = None \<Longrightarrow> t = c" "\<And>b. existing = Some b \<Longrightarrow> mb_lastRefillAt b = num_of_int now \<Longrightarrow> Fin t = mb_tokens b"
    by (rule refilled_bounds [OF assms(1,2) r(2) assms(3)]) blast
  have c: "1 \<le> c" "c \<le> 2 ^ 53" using assms(1) by (simp_all add: limits_ok_def)
  have d1: "is_double (Fin (t - 1))" if "1 \<le> t" using double_minus_one [OF t(2) that] t(4) c(2) by simp
  then have s1: "dround (t - 1) = Fin (t - 1)" if "1 \<le> t" using that dround_id by blast
  have al: "rl_allowed (snd (consumeTokenBucket existing (Fin c) (Fin w) (num_of_int now))) \<longleftrightarrow> 1 \<le> t"
    unfolding consumeTokenBucket_def Let_def r(1) unfolding r(3) t(1) by simp
  have bk: "fst (consumeTokenBucket existing (Fin c) (Fin w) (num_of_int now)) =
      \<lparr>mb_tokens = Fin (if 1 \<le> t then t - 1 else t), mb_lastRefillAt = num_of_int now\<rparr>"
    unfolding consumeTokenBucket_def Let_def r(1) unfolding r(3) t(1) using s1 by simp
  have "bucket_ok c (fst (consumeTokenBucket existing (Fin c) (Fin w) (num_of_int now)))"
    unfolding bk bucket_ok_def using d1 t c assms(3) by auto
  then show thesis using that [of t] t al bk by blast
qed

section \<open>The in-memory store\<close>

definition store_ok :: "rat \<Rightarrow> rate_store \<Rightarrow> bool" where
  "store_ok c s \<longleftrightarrow> jsmap_invar s \<and> (\<forall>k b. jsmap_get s k = Some b \<longrightarrow> bucket_ok c b)"

lemma cleanup_store_ok:
  assumes "store_ok c s"
  shows "InMemoryRateLimitStore_cleanup (Fin c) windowMs now s = s"
proof -
  have "\<not> num_ge (mb_tokens b) (Fin c)" if "(k, b) \<in> set s" for k b
  proof -
    have "bucket_ok c b" using assms that by (auto simp: store_ok_def jsmap_in_set_iff)
    then show ?thesis by (auto simp: bucket_ok_def)
  qed
  then show ?thesis
    unfolding InMemoryRateLimitStore_cleanup_def Let_def jsmap_prune_def by (intro filter_True) auto
qed

lemma consume_store:
  assumes "limits_ok c w" "store_ok c s" "\<bar>now\<bar> < 2 ^ 52"
  shows "InMemoryRateLimitStore_consume key (Fin c) (Fin w) (num_of_int now) s =
      (snd (consumeTokenBucket (jsmap_get s key) (Fin c) (Fin w) (num_of_int now)),
       jsmap_set key (fst (consumeTokenBucket (jsmap_get s key) (Fin c) (Fin w) (num_of_int now))) s)"
    and "store_ok c (snd (InMemoryRateLimitStore_consume key (Fin c) (Fin w) (num_of_int now) s))"
proof -
  have g: "case jsmap_get s key of None \<Rightarrow> True | Some b \<Rightarrow> bucket_ok c b"
    using assms(2) by (auto simp: store_ok_def split: option.splits)
  have "bucket_ok c (fst (consumeTokenBucket (jsmap_get s key) (Fin c) (Fin w) (num_of_int now)))"
    by (rule consume_cases [OF assms(1) g assms(3)])
  moreover show eq: "InMemoryRateLimitStore_consume key (Fin c) (Fin w) (num_of_int now) s =
      (snd (consumeTokenBucket (jsmap_get s key) (Fin c) (Fin w) (num_of_int now)),
       jsmap_set key (fst (consumeTokenBucket (jsmap_get s key) (Fin c) (Fin w) (num_of_int now))) s)"
    unfolding InMemoryRateLimitStore_consume_def cleanup_store_ok [OF assms(2)] Let_def by (simp add: case_prod_beta)
  ultimately show "store_ok c (snd (InMemoryRateLimitStore_consume key (Fin c) (Fin w) (num_of_int now) s))"
    using assms(2) by (auto simp: store_ok_def split: if_splits)
qed

fun allowed_in_burst :: "nat \<Rightarrow> string \<Rightarrow> number \<Rightarrow> number \<Rightarrow> number \<Rightarrow> rate_store \<Rightarrow> nat" where
  "allowed_in_burst 0 key capacity windowMs now s = 0"
| "allowed_in_burst (Suc n) key capacity windowMs now s =
     (let (outcome, s') = InMemoryRateLimitStore_consume key capacity windowMs now s
      in (if rl_allowed outcome then 1 else 0) + allowed_in_burst n key capacity windowMs now s')"

lemma burst_arith:
  fixes t :: rat
  assumes "0 \<le> t"
  shows "(if 1 \<le> t then 1 else 0) + min m (nat \<lfloor>if 1 \<le> t then t - 1 else t\<rfloor>) = min (Suc m) (nat \<lfloor>t\<rfloor>)"
proof (cases "1 \<le> t")
  case True
  then have "1 \<le> \<lfloor>t\<rfloor>" by (simp only: le_floor_iff of_int_1)
  then have "nat \<lfloor>t\<rfloor> = Suc (nat \<lfloor>t - 1\<rfloor>)" unfolding floor_diff_one by linarith
  then show ?thesis using True by simp
next
  case False
  then have "\<lfloor>t\<rfloor> = 0" using assms by (simp add: floor_eq_iff)
  then show ?thesis using False by simp
qed

lemma burst_from_bucket:
  assumes "limits_ok c w" "\<bar>now\<bar> < 2 ^ 52"
  shows "store_ok c s \<Longrightarrow> jsmap_get s key = Some b \<Longrightarrow> mb_lastRefillAt b = num_of_int now \<Longrightarrow> mb_tokens b = Fin t \<Longrightarrow>
     allowed_in_burst n key (Fin c) (Fin w) (num_of_int now) s = min n (nat \<lfloor>t\<rfloor>)"
proof (induction n arbitrary: s b t)
  case (Suc n)
  have g: "case jsmap_get s key of None \<Rightarrow> True | Some b \<Rightarrow> bucket_ok c b"
    using Suc.prems(1) by (auto simp: store_ok_def split: option.splits)
  obtain t' where t': "0 \<le> t'" "\<And>b. jsmap_get s key = Some b \<Longrightarrow> mb_lastRefillAt b = num_of_int now \<Longrightarrow> Fin t' = mb_tokens b"
    and al: "rl_allowed (snd (consumeTokenBucket (jsmap_get s key) (Fin c) (Fin w) (num_of_int now))) \<longleftrightarrow> 1 \<le> t'"
    and bk: "fst (consumeTokenBucket (jsmap_get s key) (Fin c) (Fin w) (num_of_int now)) =
           \<lparr>mb_tokens = Fin (if 1 \<le> t' then t' - 1 else t'), mb_lastRefillAt = num_of_int now\<rparr>"
    by (rule consume_cases [OF assms(1) g assms(2)]) blast
  have tt: "t' = t" using t'(2) [OF Suc.prems(2,3)] Suc.prems(4) by simp
  note cs = consume_store [OF assms(1) Suc.prems(1) assms(2), of key]
  let ?s' = "jsmap_set key \<lparr>mb_tokens = Fin (if 1 \<le> t then t - 1 else t), mb_lastRefillAt = num_of_int now\<rparr> s"
  have s': "snd (InMemoryRateLimitStore_consume key (Fin c) (Fin w) (num_of_int now) s) = ?s'" using cs(1) bk tt by simp
  have "allowed_in_burst n key (Fin c) (Fin w) (num_of_int now) ?s' = min n (nat \<lfloor>if 1 \<le> t then t - 1 else t\<rfloor>)"
    by (rule Suc.IH [where b = "\<lparr>mb_tokens = Fin (if 1 \<le> t then t - 1 else t), mb_lastRefillAt = num_of_int now\<rparr>"])
       (use cs(2) s' in simp_all)
  moreover have "InMemoryRateLimitStore_consume key (Fin c) (Fin w) (num_of_int now) s =
      (snd (consumeTokenBucket (jsmap_get s key) (Fin c) (Fin w) (num_of_int now)), ?s')" using cs(1) bk tt by simp
  ultimately show ?case using al tt burst_arith [of t n] t'(1) by simp
qed simp

lemma burst_eq:
  assumes "limits_ok c w" "\<bar>now\<bar> < 2 ^ 52" "store_ok c s"
  shows "\<exists>t. 0 \<le> t \<and> t \<le> c \<and> (jsmap_get s key = None \<longrightarrow> t = c) \<and>
     (\<forall>n. allowed_in_burst n key (Fin c) (Fin w) (num_of_int now) s = min n (nat \<lfloor>t\<rfloor>))"
proof -
  have g: "case jsmap_get s key of None \<Rightarrow> True | Some b \<Rightarrow> bucket_ok c b"
    using assms(3) by (auto simp: store_ok_def split: option.splits)
  obtain t where t: "0 \<le> t" "t \<le> c" "jsmap_get s key = None \<Longrightarrow> t = c"
    and al: "rl_allowed (snd (consumeTokenBucket (jsmap_get s key) (Fin c) (Fin w) (num_of_int now))) \<longleftrightarrow> 1 \<le> t"
    and bk: "fst (consumeTokenBucket (jsmap_get s key) (Fin c) (Fin w) (num_of_int now)) =
           \<lparr>mb_tokens = Fin (if 1 \<le> t then t - 1 else t), mb_lastRefillAt = num_of_int now\<rparr>"
    by (rule consume_cases [OF assms(1) g assms(2)], rule that; (assumption | blast))
  let ?b = "\<lparr>mb_tokens = Fin (if 1 \<le> t then t - 1 else t), mb_lastRefillAt = num_of_int now\<rparr>"
  note cs = consume_store [OF assms(1,3,2), of key]
  have step: "InMemoryRateLimitStore_consume key (Fin c) (Fin w) (num_of_int now) s =
      (snd (consumeTokenBucket (jsmap_get s key) (Fin c) (Fin w) (num_of_int now)), jsmap_set key ?b s)" using cs(1) bk by simp
  have "allowed_in_burst n key (Fin c) (Fin w) (num_of_int now) s = min n (nat \<lfloor>t\<rfloor>)" for n
  proof (cases n)
    case (Suc m)
    have "allowed_in_burst m key (Fin c) (Fin w) (num_of_int now) (jsmap_set key ?b s) = min m (nat \<lfloor>if 1 \<le> t then t - 1 else t\<rfloor>)"
      by (rule burst_from_bucket [OF assms(1,2), where b = ?b]) (use cs(2) step in simp_all)
    then show ?thesis using al burst_arith [OF t(1), of m] unfolding Suc allowed_in_burst.simps step Let_def prod.case by simp
  qed simp
  then show ?thesis using t(1,2) t(3) by (intro exI [of _ t] conjI impI allI)
qed

text \<open>
  C29. Bursts are bounded by the capacity: however many requests with the same key arrive at one instant, at most the integer part of
  the capacity is allowed, whatever the history of the bucket; a key seen for the first time gets exactly that many.
\<close>

theorem burst_bounded_by_capacity:
  assumes "limits_ok c w" "\<bar>now\<bar> < 2 ^ 52" "store_ok c s"
  shows "allowed_in_burst n key (Fin c) (Fin w) (num_of_int now) s \<le> nat \<lfloor>c\<rfloor> \<and>
     (jsmap_get s key = None \<longrightarrow> allowed_in_burst n key (Fin c) (Fin w) (num_of_int now) s = min n (nat \<lfloor>c\<rfloor>))"
proof -
  obtain t where t: "0 \<le> t" "t \<le> c" "jsmap_get s key = None \<longrightarrow> t = c"
    "\<forall>n. allowed_in_burst n key (Fin c) (Fin w) (num_of_int now) s = min n (nat \<lfloor>t\<rfloor>)"
    using burst_eq [OF assms, of key] by (elim exE conjE)
  have "nat \<lfloor>t\<rfloor> \<le> nat \<lfloor>c\<rfloor>" by (rule nat_mono, rule floor_mono, rule t(2))
  then show ?thesis using t(3,4) by (auto simp: min_def)
qed

lemma example_limits: "limits_ok 5 60000"
  using is_double_int [of 5] is_double_int [of 60000] by (simp add: limits_ok_def)

theorem burst_bounded_by_capacity_witness:
  "allowed_in_burst 100 ''ip:10.0.0.1'' (Fin 5) (Fin 60000) (num_of_int 1700000000000) [] = 5"
proof -
  have "allowed_in_burst 100 ''ip:10.0.0.1'' (Fin 5) (Fin 60000) (num_of_int 1700000000000) [] \<le> nat \<lfloor>5 :: rat\<rfloor> \<and>
     (jsmap_get ([] :: rate_store) ''ip:10.0.0.1'' = None \<longrightarrow>
        allowed_in_burst 100 ''ip:10.0.0.1'' (Fin 5) (Fin 60000) (num_of_int 1700000000000) [] = min 100 (nat \<lfloor>5 :: rat\<rfloor>))"
    by (rule burst_bounded_by_capacity [OF example_limits]) (simp_all add: store_ok_def)
  moreover have "min 100 (nat \<lfloor>5 :: rat\<rfloor>) = 5" "jsmap_get ([] :: rate_store) ''ip:10.0.0.1'' = None" by simp_all
  ultimately show ?thesis by (simp only: simp_thms)
qed

text \<open>
  Buckets are never evicted: with one capacity in use, a stored bucket always holds fewer tokens than the capacity, so the
  eviction condition of \<open>cleanup\<close> (idle and \<open>tokens >= capacity\<close>) never holds and the store keeps a bucket for every key ever seen.
\<close>

theorem rate_buckets_never_evicted:
  assumes "limits_ok c w" "\<forall>(key, now) \<in> set reqs. \<bar>now\<bar> < 2 ^ 52"
  shows "fst ` set (fold (\<lambda>(key, now) s. snd (InMemoryRateLimitStore_consume key (Fin c) (Fin w) (num_of_int now) s)) reqs jsmap_empty) = fst ` set reqs"
proof -
  have "store_ok c s \<Longrightarrow> fst ` set (fold (\<lambda>(key, now) s. snd (InMemoryRateLimitStore_consume key (Fin c) (Fin w) (num_of_int now) s)) reqs s) =
      fst ` set s \<union> fst ` set reqs" for s
    using assms(2)
  proof (induction reqs arbitrary: s)
    case (Cons p reqs)
    obtain key now where p: "p = (key, now)" by (cases p)
    with Cons.prems have now: "\<bar>now\<bar> < 2 ^ 52" by simp
    note cs = consume_store [OF assms(1) Cons.prems(1) now, of key]
    show ?case using Cons.IH [OF cs(2)] Cons.prems(2) cs(1) by (auto simp: p jsmap_keys_set)
  qed simp
  from this [of jsmap_empty] show ?thesis by (simp add: store_ok_def jsmap_empty_def)
qed

theorem rate_buckets_never_evicted_witness:
  "fst ` set (fold (\<lambda>(key, now) s. snd (InMemoryRateLimitStore_consume key (Fin 5) (Fin 60000) (num_of_int now) s))
     [(''a'', 0), (''b'', 1000000000)] jsmap_empty) = {''a'', ''b''}"
  using rate_buckets_never_evicted [OF example_limits, of "[(''a'', 0), (''b'', 1000000000)]"] by simp

text \<open>
  Unless \<open>trust proxy\<close> is set, the client chooses its bucket: whatever the peer address, a request with the header
  \<open>X-Forwarded-For: w\<close> (one non-blank hop) is limited under the key \<open>w\<close>.
\<close>

theorem forwarded_header_selects_bucket:
  assumes "CHR '','' \<notin> set hop" "js_trim hop = hop" "hop \<noteq> []"
    and "jsmap_get (rq_headers req) ''x-forwarded-for'' = Some (HStr hop)"
  shows "createIpKeyGenerator ip False req = hop"
proof -
  have "js_split (CHR '','') hop = [hop]" using assms(1) by (rule js_split_none)
  then show ?thesis
    using assms by (simp add: createIpKeyGenerator_def getClientIp_def truthy_def Let_def split: option.splits)
qed

theorem forwarded_header_selects_bucket_witness:
  "createIpKeyGenerator (Some ''10.0.0.1'') False (exampleRequest\<lparr>rq_headers := [(''x-forwarded-for'', HStr ''1.2.3.4'')]\<rparr>) = ''1.2.3.4''"
  by (rule forwarded_header_selects_bucket) (simp_all add: js_trim_def is_ws_def)

end
