(* ===== verification/RedisRateLimit.thy ===== *)
theory RedisRateLimit
  imports RateLimit
begin

text \<open>
  The Lua script of the Redis rate-limit store (\<open>REDIS_CONSUME_SCRIPT\<close> of \<open>src/middleware/rateLimit.ts\<close>), which runs inside Redis, one call at a time. Lua's
  numbers are binary64, so its arithmetic is that of the in-memory bucket. The hash stores numbers as text: \<open>luaNum\<close> is \<open>tonumber(tostring(x))\<close>, which keeps 14
  digits. Numbers of the reply become integers; \<open>redis_int\<close> is the conversion inside the range of 64 bits.
\<close>

section \<open>The script\<close>

definition redis_int :: "number \<Rightarrow> number" where
  "redis_int x = (case x of Fin q \<Rightarrow> if \<bar>q\<bar> < 2 ^ 63 then Fin (of_int (if 0 \<le> q then \<lfloor>q\<rfloor> else \<lceil>q\<rceil>)) else x | _ \<Rightarrow> x)"

definition script_refill :: "MemoryBucket option \<Rightarrow> number \<Rightarrow> number \<Rightarrow> number \<Rightarrow> number" where
  "script_refill data capacity refillRate now =
     (case data of
        None \<Rightarrow> capacity
      | Some b \<Rightarrow>
         (let elapsed0 = num_sub now (mb_lastRefillAt b);
              elapsed = (if num_lt elapsed0 (Fin 0) then Fin 0 else elapsed0)
          in num_min capacity (num_add (mb_tokens b) (num_mul elapsed refillRate))))"

text \<open>The reply and, unless the limits are not positive, the bucket written back.\<close>

definition redis_consume_script :: "(number \<Rightarrow> number) \<Rightarrow> MemoryBucket option \<Rightarrow> number \<Rightarrow> number \<Rightarrow> number \<Rightarrow> number list \<times> MemoryBucket option" where
  "redis_consume_script luaNum data capacity windowMs now =
     (if num_le capacity (Fin 0) \<or> num_le windowMs (Fin 0) then ([Fin 0, Fin 0, redis_int (num_add now windowMs)], data)
      else
        let refillRate = num_div capacity windowMs;
            tokens = script_refill data capacity refillRate now;
            allowed = num_ge tokens (Fin 1);
            tokens' = (if allowed then num_sub tokens (Fin 1) else tokens);
            remaining0 = num_floor tokens';
            remaining = (if num_lt remaining0 (Fin 0) then Fin 0 else remaining0);
            need0 = num_sub (Fin 1) tokens';
            need = (if num_lt need0 (Fin 0) then Fin 0 else need0);
            resetAt = (if num_ge tokens' capacity then now
                       else if allowed then num_add now (num_ceil (num_div (num_sub capacity tokens') refillRate))
                       else num_add now (num_ceil (num_div need refillRate)))
        in ([if allowed then Fin 1 else Fin 0, redis_int remaining, redis_int resetAt],
            Some \<lparr>mb_tokens = luaNum tokens', mb_lastRefillAt = luaNum now\<rparr>))"

section \<open>Agreement with the in-memory bucket\<close>

lemma clip_below_zero: "x \<noteq> NaN \<Longrightarrow> (if num_lt x (Fin 0) then Fin 0 else x) = num_max (Fin 0) x"
  by (cases x) (auto simp: num_max_def)

lemma script_refill_eq:
  "(case data of None \<Rightarrow> True | Some b \<Rightarrow> num_sub now (mb_lastRefillAt b) \<noteq> NaN) \<Longrightarrow>
     script_refill data capacity rate now = refilledTokens data capacity rate now"
  by (cases data) (simp_all add: script_refill_def refilledTokens_def Let_def clip_below_zero)

text \<open>The refill rate is at least half the exact quotient, so the time to refill is at most twice the window.\<close>

lemma refill_rate_half:
  assumes "is_double (Fin c)" "1 \<le> c" "c \<le> 2 ^ 53" "1 \<le> w" "w \<le> 2 ^ 50"
  obtains r where "dround (c / w) = Fin r" "c / (2 * w) \<le> r" "0 < r"
proof -
  let ?k = "ilog 2 (c / w)"
  have pos: "0 < c / w" using assms by simp
  have b: "(2::rat) powi ?k \<le> c / w" "c / w < 2 powi (?k + 1)" using ilog_bounds [OF pos, of 2] by simp_all
  have le: "c / w \<le> c / 1" using assms by (intro divide_left_mono) auto
  have "- 53 \<le> ?k"
  proof (rule ccontr)
    assume "\<not> - 53 \<le> ?k"
    then have "(2::rat) powi (?k + 1) \<le> 2 powi (- 53)" by (intro power_int_increasing) auto
    moreover have "(2::rat) powi (- 53) \<le> 1 / 2 ^ 52" by (simp add: power_int_minus field_simps)
    moreover have "1 / 2 ^ 52 \<le> c / w" using assms by (intro frac_le) auto
    ultimately show False using b(2) by linarith
  qed
  have "(2::rat) powi ?k \<le> c" using b(1) le by simp
  then have "is_double (Fin (2 powi ?k))" using assms(1) \<open>- 53 \<le> ?k\<close>
    unfolding is_double.simps by (intro exI [of _ 1] exI [of _ ?k]) auto
  then obtain r where r: "dround (c / w) = Fin r" "2 powi ?k \<le> r"
    using dround_between [of "2 powi ?k" "c / w" c thesis] b(1) le assms(1) by auto
  have "c / (2 * w) = (c / w) / 2" by simp
  also have "\<dots> \<le> 2 powi ?k" using b(2) by (simp add: power_int_add)
  finally have "c / (2 * w) \<le> r" using r(2) by (rule order_trans)
  moreover have "0 < c / (2 * w)" using assms by simp
  ultimately show thesis using that [of r] r(1) by linarith
qed
lemma max0_of_int: "0 \<le> k \<Longrightarrow> num_max (Fin 0) (Fin (of_int k)) = Fin (of_int k)" "0 \<le> k \<Longrightarrow> \<not> num_lt (Fin (of_int k)) (Fin 0)"
  by (auto simp: num_max_def)

lemma dround_never_NaN: "dround q \<noteq> NaN"
  unfolding dround_def by (simp only: Let_def split: if_split) simp

lemma wait_bounded:
  assumes "c / (2 * w) \<le> r" "0 < r" "1 \<le> c" "1 \<le> w" "w \<le> 2 ^ 50" "0 \<le> d" "d \<le> c"
  obtains z :: int where "num_ceil (num_div (Fin d) (Fin r)) = Fin (of_int z)" "0 \<le> z" "z \<le> 2 ^ 51"
proof -
  have "d \<le> c" "c \<le> r * (2 * w)" using assms by (simp_all add: divide_le_eq)
  then have "d / r \<le> 2 * w" using assms(2) by (simp add: divide_le_eq mult.commute)
  then have q: "0 \<le> d / r" "d / r \<le> 2 ^ 51" using assms by simp_all
  have "is_double (Fin (of_int (2 ^ 51)))" by (rule is_double_int) simp
  then have "is_double (Fin (2 ^ 51))" by simp
  from dround_le_Fin [OF q this] obtain v where v: "dround (d / r) = Fin v" "0 \<le> v" "v \<le> 2 ^ 51" .
  have "\<lceil>v\<rceil> \<le> 2 ^ 51" using v(3) by (simp add: ceiling_le_iff)
  then show thesis using that [of "\<lceil>v\<rceil>"] v assms(2) by simp
qed

lemma redis_int_of_int: "\<bar>i\<bar> < 2 ^ 63 \<Longrightarrow> redis_int (Fin (of_int i)) = Fin (of_int i)"
proof -
  assume "\<bar>i\<bar> < 2 ^ 63"
  then have "(of_int \<bar>i\<bar> :: rat) < of_int (2 ^ 63)" by (simp only: of_int_less_iff)
  then show ?thesis by (simp add: redis_int_def)
qed

lemma instant_sum:
  assumes "0 \<le> now" "now < 2 ^ 52" "0 \<le> z" "z \<le> 2 ^ 51"
  shows "num_add (num_of_int now) (Fin (of_int z)) = Fin (of_int (now + z))" "redis_int (Fin (of_int (now + z))) = Fin (of_int (now + z))"
proof -
  have "(2::int) ^ 53 = 2 * 2 ^ 52" "(2::int) ^ 52 = 2 * 2 ^ 51" by simp_all
  then have "\<bar>now + z\<bar> < 2 ^ 53" using assms by linarith
  then have "dround (of_int (now + z)) = Fin (of_int (now + z))" by (rule dround_int)
  then show "num_add (num_of_int now) (Fin (of_int z)) = Fin (of_int (now + z))" by simp
  have "(2::int) ^ 53 < 2 ^ 63" by simp
  then show "redis_int (Fin (of_int (now + z))) = Fin (of_int (now + z))" using \<open>\<bar>now + z\<bar> < 2 ^ 53\<close> by (intro redis_int_of_int) linarith
qed

lemma script_outcome:
  assumes "limits_ok c w" "w \<le> 2 ^ 50" "case data of None \<Rightarrow> True | Some b \<Rightarrow> bucket_ok c b" "0 \<le> now" "now < 2 ^ 52"
  obtains t z where "0 \<le> t" "t \<le> c" "c \<le> 2 ^ 53" "0 \<le> z" "z \<le> 2 ^ 51"
    "consumeTokenBucket data (Fin c) (Fin w) (num_of_int now) =
      (\<lparr>mb_tokens = Fin (if 1 \<le> t then t - 1 else t), mb_lastRefillAt = num_of_int now\<rparr>,
       \<lparr>rl_allowed = (1 \<le> t), rl_remaining = Fin (of_int (if 1 \<le> t then \<lfloor>t - 1\<rfloor> else 0)), rl_resetAt = Fin (of_int (now + z))\<rparr>)"
    "redis_consume_script luaNum data (Fin c) (Fin w) (num_of_int now) =
      ([if 1 \<le> t then Fin 1 else Fin 0, redis_int (Fin (of_int (if 1 \<le> t then \<lfloor>t - 1\<rfloor> else 0))), redis_int (Fin (of_int (now + z)))],
       Some \<lparr>mb_tokens = luaNum (Fin (if 1 \<le> t then t - 1 else t)), mb_lastRefillAt = luaNum (num_of_int now)\<rparr>)"
proof -
  have c: "is_double (Fin c)" "1 \<le> c" "c \<le> 2 ^ 53" "1 \<le> w" using assms(1) by (simp_all add: limits_ok_def)
  obtain r where r: "dround (c / w) = Fin r" "c / (2 * w) \<le> r" "0 < r" by (rule refill_rate_half [OF c assms(2)])
  have mx: "num_max (Fin 1) (Fin c) = Fin c" "num_max (Fin 1) (Fin w) = Fin w" using c by (auto simp: num_max_def)
  have dv: "num_div (Fin c) (Fin w) = Fin r" using r c(4) by simp
  have abs: "\<bar>now\<bar> < 2 ^ 52" using assms by simp
  obtain t where t: "refilledTokens data (Fin c) (Fin r) (num_of_int now) = Fin t" "is_double (Fin t)" "0 \<le> t" "t \<le> c"
    by (rule refilled_bounds [OF assms(1,3) _ abs, of r]) (use r in auto)
  have "case data of None \<Rightarrow> True | Some b \<Rightarrow> num_sub (num_of_int now) (mb_lastRefillAt b) \<noteq> NaN"
    using assms(3) by (cases data) (auto simp: bucket_ok_def dround_never_NaN)
  then have ts: "script_refill data (Fin c) (Fin r) (num_of_int now) = Fin t" using script_refill_eq t(1) by simp
  have np: "\<not> num_le (Fin c) (Fin 0)" "\<not> num_le (Fin w) (Fin 0)" using c by simp_all
  show thesis
  proof (cases "1 \<le> t")
    case True
    have d: "is_double (Fin (t - 1))" using double_minus_one [OF t(2) True] t(4) c(3) by simp
    have s: "num_sub (Fin t) (Fin 1) = Fin (t - 1)" using dround_id [OF d] by simp
    obtain e where e: "num_sub (Fin c) (Fin (t - 1)) = Fin e" "1 \<le> e" "e \<le> c"
      using dround_between [of 1 "c - (t - 1)" c thesis] True t c is_double_int [of 1] by auto
    obtain z where z: "num_ceil (num_div (Fin e) (Fin r)) = Fin (of_int z)" "0 \<le> z" "z \<le> 2 ^ 51"
      by (rule wait_bounded [OF r(2,3) c(2,4) assms(2), of e]) (use e in auto)
    note sum = instant_sum [OF assms(4,5) z(2,3)]
    have fl: "num_floor (Fin (t - 1)) = Fin (of_int \<lfloor>t - 1\<rfloor>)" by simp
    have le: "\<not> num_le (Fin e) (Fin 0)" "\<not> num_ge (Fin (t - 1)) (Fin c)" "num_ge (Fin t) (Fin 1)" using e t(4) True by simp_all
    have nn: "0 \<le> \<lfloor>t - 1\<rfloor>" using True by simp
    then have rm: "num_max (Fin 0) (Fin (of_int \<lfloor>t - 1\<rfloor>)) = Fin (of_int \<lfloor>t - 1\<rfloor>)" "\<not> num_lt (Fin (of_int \<lfloor>t - 1\<rfloor>)) (Fin 0)"
      by (rule max0_of_int)+
    show thesis
    proof (rule that [of t z])
      show "consumeTokenBucket data (Fin c) (Fin w) (num_of_int now) =
        (\<lparr>mb_tokens = Fin (if 1 \<le> t then t - 1 else t), mb_lastRefillAt = num_of_int now\<rparr>,
         \<lparr>rl_allowed = (1 \<le> t), rl_remaining = Fin (of_int (if 1 \<le> t then \<lfloor>t - 1\<rfloor> else 0)), rl_resetAt = Fin (of_int (now + z))\<rparr>)"
        unfolding consumeTokenBucket_def Let_def mx dv t(1) s e(1) fl rm(1) z(1) sum(1) using True le by (simp only: if_True if_False simp_thms)
      show "redis_consume_script luaNum data (Fin c) (Fin w) (num_of_int now) =
        ([if 1 \<le> t then Fin 1 else Fin 0, redis_int (Fin (of_int (if 1 \<le> t then \<lfloor>t - 1\<rfloor> else 0))), redis_int (Fin (of_int (now + z)))],
         Some \<lparr>mb_tokens = luaNum (Fin (if 1 \<le> t then t - 1 else t)), mb_lastRefillAt = luaNum (num_of_int now)\<rparr>)"
        unfolding redis_consume_script_def Let_def dv ts using True le np rm(2)
        by (simp only: if_True if_False simp_thms s e(1) fl z(1) sum(1))
    qed (use t c z in simp_all)
  next
    case False
    have e0: "0 \<le> 1 - t" "1 - t \<le> 1" using False t(3) by simp_all
    have "is_double (Fin 1)" using is_double_int [of 1] by simp
    from dround_le_Fin [OF e0 this] obtain e where e: "dround (1 - t) = Fin e" "0 \<le> e" "e \<le> 1" .
    have s: "num_sub (Fin 1) (Fin t) = Fin e" using e by simp
    obtain z where z: "num_ceil (num_div (Fin e) (Fin r)) = Fin (of_int z)" "0 \<le> z" "z \<le> 2 ^ 51"
      by (rule wait_bounded [OF r(2,3) c(2,4) assms(2), of e]) (use e c in auto)
    note sum = instant_sum [OF assms(4,5) z(2,3)]
    have "\<lfloor>t\<rfloor> = 0" using False t(3) by (simp add: floor_eq_iff)
    then have fl: "num_floor (Fin t) = Fin (of_int 0)" "\<not> num_lt (Fin (of_int 0)) (Fin 0)" by simp_all
    have le: "\<not> num_ge (Fin t) (Fin c)" "\<not> num_ge (Fin t) (Fin 1)" "\<not> num_lt (Fin e) (Fin 0)" using e c False by simp_all
    show thesis
    proof (rule that [of t z])
      show "consumeTokenBucket data (Fin c) (Fin w) (num_of_int now) =
        (\<lparr>mb_tokens = Fin (if 1 \<le> t then t - 1 else t), mb_lastRefillAt = num_of_int now\<rparr>,
         \<lparr>rl_allowed = (1 \<le> t), rl_remaining = Fin (of_int (if 1 \<le> t then \<lfloor>t - 1\<rfloor> else 0)), rl_resetAt = Fin (of_int (now + z))\<rparr>)"
        unfolding consumeTokenBucket_def Let_def mx dv t(1) s z(1) sum(1) using False le by (simp only: if_True if_False simp_thms of_int_0)
      show "redis_consume_script luaNum data (Fin c) (Fin w) (num_of_int now) =
        ([if 1 \<le> t then Fin 1 else Fin 0, redis_int (Fin (of_int (if 1 \<le> t then \<lfloor>t - 1\<rfloor> else 0))), redis_int (Fin (of_int (now + z)))],
         Some \<lparr>mb_tokens = luaNum (Fin (if 1 \<le> t then t - 1 else t)), mb_lastRefillAt = luaNum (num_of_int now)\<rparr>)"
        unfolding redis_consume_script_def Let_def dv ts using False le np fl(2)
        by (simp only: if_True if_False simp_thms s e(1) fl(1) z(1) sum(1))
    qed (use t c z in simp_all)
  qed
qed

section \<open>Property\<close>

text \<open>C30. The two rate-limit stores agree. For limits within the supported range and the same stored bucket, the reply of the Redis script, once parsed, is the decision of
  the in-memory token bucket: same verdict, same remaining tokens, same reset time; and what the script writes back is the in-memory bucket after the text
  conversion of Redis hashes.\<close>

theorem redis_script_agrees_with_memory:
  assumes "limits_ok c w" "w \<le> 2 ^ 50" "case data of None \<Rightarrow> True | Some b \<Rightarrow> bucket_ok c b" "0 \<le> now" "now < 2 ^ 52"
  shows "RedisRateLimitStore_consume mode (Inr (Some (fst (redis_consume_script luaNum data (Fin c) (Fin w) (num_of_int now))))) (Fin c) (Fin w) (num_of_int now) =
      snd (consumeTokenBucket data (Fin c) (Fin w) (num_of_int now)) \<and>
    snd (redis_consume_script luaNum data (Fin c) (Fin w) (num_of_int now)) =
      (case fst (consumeTokenBucket data (Fin c) (Fin w) (num_of_int now)) of b \<Rightarrow>
        Some \<lparr>mb_tokens = luaNum (mb_tokens b), mb_lastRefillAt = luaNum (mb_lastRefillAt b)\<rparr>)"
proof -
  obtain t z where t: "0 \<le> t" "t \<le> c" "c \<le> 2 ^ 53" "0 \<le> z" "z \<le> 2 ^ 51"
    and m: "consumeTokenBucket data (Fin c) (Fin w) (num_of_int now) =
      (\<lparr>mb_tokens = Fin (if 1 \<le> t then t - 1 else t), mb_lastRefillAt = num_of_int now\<rparr>,
       \<lparr>rl_allowed = (1 \<le> t), rl_remaining = Fin (of_int (if 1 \<le> t then \<lfloor>t - 1\<rfloor> else 0)), rl_resetAt = Fin (of_int (now + z))\<rparr>)"
    and s: "redis_consume_script luaNum data (Fin c) (Fin w) (num_of_int now) =
      ([if 1 \<le> t then Fin 1 else Fin 0, redis_int (Fin (of_int (if 1 \<le> t then \<lfloor>t - 1\<rfloor> else 0))), redis_int (Fin (of_int (now + z)))],
       Some \<lparr>mb_tokens = luaNum (Fin (if 1 \<le> t then t - 1 else t)), mb_lastRefillAt = luaNum (num_of_int now)\<rparr>)"
    by (rule script_outcome [OF assms])
  define k where "k = (if 1 \<le> t then \<lfloor>t - 1\<rfloor> else 0)"
  have k: "0 \<le> k" by (simp add: k_def)
  have "\<lfloor>t - 1\<rfloor> \<le> \<lfloor>(2 ^ 53 :: rat)\<rfloor>" using t(2,3) by (intro floor_mono) simp
  then have "\<lfloor>t - 1\<rfloor> \<le> 2 ^ 53" by simp
  moreover have "(2::int) ^ 53 < 2 ^ 63" by simp
  ultimately have "\<bar>k\<bar> < 2 ^ 63" using k unfolding k_def by (auto split: if_splits)
  then have rk: "redis_int (Fin (of_int k)) = Fin (of_int k)" by (rule redis_int_of_int)
  note rs = instant_sum(2) [OF assms(4,5) t(4,5)]
  have mx: "num_max (Fin 0) (Fin (of_int k)) = Fin (of_int k)" using k by (rule max0_of_int)
  show ?thesis unfolding m s k_def [symmetric] rk rs RedisRateLimitStore_consume_def parseRedisConsumeResult_def
    using mx by (auto simp: num_eq_def simp del: of_int_add)
qed

theorem redis_script_agrees_with_memory_witness:
  "RedisRateLimitStore_consume FailOpen (Inr (Some (fst (redis_consume_script (\<lambda>x. x) None (Fin 5) (Fin 60000) (num_of_int 1000))))) (Fin 5) (Fin 60000) (num_of_int 1000) =
     snd (consumeTokenBucket None (Fin 5) (Fin 60000) (num_of_int 1000))"
  using redis_script_agrees_with_memory [OF example_limits, of None 1000 FailOpen "\<lambda>x. x"] by simp

end
