(* ===== verification/PolicyEngine.thy ===== *)
theory PolicyEngine
  imports JsNumber
begin

text \<open>
  The credit policy engine (\<open>src/services/policyEngine.ts\<close>): the rule registry, the built-in rules and the
  evaluation. \<open>dateTime\<close> stands for \<open>new Date(s).getTime()\<close> on the caller's timestamp, \<open>now\<close> for \<open>Date.now()\<close>.
\<close>

record PolicyContext =
  pc_walletAddress :: string
  pc_creditScore :: number
  pc_requestedAmount :: number
  pc_kycLevel :: number
  pc_lastDrawAt :: "string option"
  pc_outstandingBalance :: number

datatype RejectionCode =
  CREDIT_SCORE_TOO_LOW | AMOUNT_EXCEEDS_LIMIT | KYC_NOT_VERIFIED | COOLDOWN_ACTIVE | OUTSTANDING_BALANCE_TOO_HIGH

record RuleOutcome =
  ro_passed :: bool
  ro_code :: "RejectionCode option"
  ro_reason :: "string option"

record PolicyRule =
  pr_id :: string
  pr_evaluate :: "PolicyContext \<Rightarrow> RuleOutcome"

record PolicyEvaluationResult =
  pe_approved :: bool
  pe_rejections :: "(RejectionCode \<times> string) list"
  pe_evaluatedRules :: "string list"

type_synonym PolicyRuleRegistry = "(string, PolicyRule) jsmap"

definition PolicyRuleRegistry_register :: "PolicyRule \<Rightarrow> (PolicyRuleRegistry, unit) comp" where
  "PolicyRuleRegistry_register rule reg =
     (if jsmap_has reg (pr_id rule)
      then (Inl (Error (''Policy rule '' @ [CHR 0x22] @ pr_id rule @ [CHR 0x22] @ '' is already registered.'')), reg)
      else (Inr (), jsmap_set (pr_id rule) rule reg))"

definition PolicyRuleRegistry_unregister :: "string \<Rightarrow> PolicyRuleRegistry \<Rightarrow> bool \<times> PolicyRuleRegistry" where
  "PolicyRuleRegistry_unregister ruleId reg = (jsmap_has reg ruleId, jsmap_delete ruleId reg)"

definition PolicyRuleRegistry_list :: "PolicyRuleRegistry \<Rightarrow> PolicyRule list" where
  "PolicyRuleRegistry_list reg = jsmap_values reg"

definition PolicyRuleRegistry_get :: "PolicyRuleRegistry \<Rightarrow> string \<Rightarrow> PolicyRule option" where
  "PolicyRuleRegistry_get reg ruleId = jsmap_get reg ruleId"

section \<open>Built-in rules\<close>

definition rule_passed :: RuleOutcome where
  "rule_passed = \<lparr>ro_passed = True, ro_code = None, ro_reason = None\<rparr>"

definition rule_failed :: "RejectionCode \<Rightarrow> string \<Rightarrow> RuleOutcome" where
  "rule_failed code reason = \<lparr>ro_passed = False, ro_code = Some code, ro_reason = Some reason\<rparr>"

definition MAX_OUTSTANDING_THRESHOLD :: number where
  "MAX_OUTSTANDING_THRESHOLD = num_mul (Fin 50000000) (dround (8 / 10))"

definition creditScoreMinimum :: PolicyRule where
  "creditScoreMinimum = \<lparr>pr_id = ''credit-score-minimum'', pr_evaluate = (\<lambda>ctx.
     if num_ge (pc_creditScore ctx) (Fin 40) then rule_passed
     else rule_failed CREDIT_SCORE_TOO_LOW
       (''Credit score '' @ num_toString (pc_creditScore ctx) @ '' is below the minimum of 40.''))\<rparr>"

definition amountWithinLimit :: PolicyRule where
  "amountWithinLimit = \<lparr>pr_id = ''amount-within-limit'', pr_evaluate = (\<lambda>ctx.
     if num_le (pc_requestedAmount ctx) (Fin 50000000) then rule_passed
     else rule_failed AMOUNT_EXCEEDS_LIMIT
       (''Requested amount '' @ num_toString (pc_requestedAmount ctx) @ '' cents exceeds the limit of 50000000 cents.''))\<rparr>"

definition kycVerified :: PolicyRule where
  "kycVerified = \<lparr>pr_id = ''kyc-verified'', pr_evaluate = (\<lambda>ctx.
     if num_ge (pc_kycLevel ctx) (Fin 1) then rule_passed
     else rule_failed KYC_NOT_VERIFIED
       (''KYC level '' @ num_toString (pc_kycLevel ctx) @ '' does not meet the requirement of 1.''))\<rparr>"

definition elapsedHours :: "(string \<Rightarrow> number) \<Rightarrow> time \<Rightarrow> string \<Rightarrow> number" where
  "elapsedHours dateTime now s = num_div (num_sub (num_of_int now) (dateTime s)) (Fin 3600000)"

definition drawCooldown :: "(string \<Rightarrow> number) \<Rightarrow> time \<Rightarrow> PolicyRule" where
  "drawCooldown dateTime now = \<lparr>pr_id = ''draw-cooldown'', pr_evaluate = (\<lambda>ctx.
     case pc_lastDrawAt ctx of
       None \<Rightarrow> rule_passed
     | Some s \<Rightarrow>
         if s = [] then rule_passed
         else if num_ge (elapsedHours dateTime now s) (Fin 24) then rule_passed
         else rule_failed COOLDOWN_ACTIVE
           (''Only '' @ num_toFixed 1 (elapsedHours dateTime now s) @ '' hours have passed since the last draw; 24 hours required.''))\<rparr>"

definition outstandingBalanceLimit :: PolicyRule where
  "outstandingBalanceLimit = \<lparr>pr_id = ''outstanding-balance-limit'', pr_evaluate = (\<lambda>ctx.
     if num_le (pc_outstandingBalance ctx) MAX_OUTSTANDING_THRESHOLD then rule_passed
     else rule_failed OUTSTANDING_BALANCE_TOO_HIGH
       (''Outstanding balance '' @ num_toString (pc_outstandingBalance ctx) @ '' cents exceeds the allowed threshold of '' @
        num_toString MAX_OUTSTANDING_THRESHOLD @ '' cents.''))\<rparr>"

definition builtinRules :: "(string \<Rightarrow> number) \<Rightarrow> time \<Rightarrow> PolicyRule list" where
  "builtinRules dateTime now =
     [creditScoreMinimum, amountWithinLimit, kycVerified, drawCooldown dateTime now, outstandingBalanceLimit]"

section \<open>Evaluation\<close>

text \<open>A failing outcome is recorded when it carries a code and a non-empty reason.\<close>

definition outcome_rejection :: "RuleOutcome \<Rightarrow> (RejectionCode \<times> string) list" where
  "outcome_rejection outcome =
     (case (ro_code outcome, ro_reason outcome) of
        (Some code, Some reason) \<Rightarrow> if \<not> ro_passed outcome \<and> reason \<noteq> [] then [(code, reason)] else []
      | _ \<Rightarrow> [])"

definition evaluatePolicy :: "PolicyRuleRegistry \<Rightarrow> PolicyContext \<Rightarrow> PolicyEvaluationResult" where
  "evaluatePolicy reg ctx =
     (let rules = PolicyRuleRegistry_list reg;
          rejections = concat (map (\<lambda>rule. outcome_rejection (pr_evaluate rule ctx)) rules)
      in \<lparr>pe_approved = (rejections = []), pe_rejections = rejections, pe_evaluatedRules = map pr_id rules\<rparr>)"

definition createDefaultRegistry :: "(string \<Rightarrow> number) \<Rightarrow> time \<Rightarrow> PolicyRuleRegistry" where
  "createDefaultRegistry dateTime now =
     fold (\<lambda>rule reg. snd (PolicyRuleRegistry_register rule reg)) (builtinRules dateTime now) jsmap_empty"

lemmas rule_defs = creditScoreMinimum_def amountWithinLimit_def kycVerified_def drawCooldown_def outstandingBalanceLimit_def
  rule_passed_def rule_failed_def

lemma default_rules:
  "PolicyRuleRegistry_list (createDefaultRegistry dateTime now) = builtinRules dateTime now"
  by (simp add: createDefaultRegistry_def builtinRules_def PolicyRuleRegistry_list_def PolicyRuleRegistry_register_def
      jsmap_has_def jsmap_empty_def jsmap_values_def rule_defs)

lemma threshold_value: "MAX_OUTSTANDING_THRESHOLD = Fin 40000000"
proof -
  have small: "of_int m * (2::rat) powi k < dmax" if "m < 2 ^ 53" "0 \<le> m" "k \<le> 0" for m k
  proof -
    have "of_int m * (2::rat) powi k \<le> of_int m * 1"
      using that power_int_increasing [of k 0 "2::rat"] by (intro mult_left_mono) auto
    also have "of_int m \<le> \<bar>of_int m :: rat\<bar>" by simp
    also have "\<dots> < dmax" using that int_less_dmax [of m] by simp
    finally show ?thesis by simp
  qed
  have p: "(2::rat) powi (- 53) = 1 / 9007199254740992" "(2::rat) powi (- 27) = 1 / 134217728" "(2::rat) powi 25 = 33554432"
    "(2::rat) powi 26 = 67108864" "(2::rat) powi (- 1) = 1 / 2"
    by (simp_all add: power_int_def power_one_over)
  have fl: "\<lfloor>36028797018963968 / 5 :: rat\<rfloor> = 7205759403792793"
    "\<lfloor>1407374883553280078125 / 262144 :: rat\<rfloor> = 5368709120000000" by (simp_all add: floor_eq_iff)
  have 1: "dround (8 / 10) = Fin (of_int 7205759403792794 * 2 powi (- 1 - 52))"
    by (rule dround_normal) (use small [of 7205759403792794 "- 53"] in \<open>simp_all add: p rnd_even_def fl Let_def\<close>)
  have 2: "dround (50000000 * (7205759403792794 / 9007199254740992)) = Fin (of_int 5368709120000000 * 2 powi (25 - 52))"
    by (rule dround_normal) (use small [of 5368709120000000 "- 27"] in \<open>simp_all add: p rnd_even_def fl Let_def\<close>)
  show ?thesis using 1 2 by (simp add: MAX_OUTSTANDING_THRESHOLD_def p)
qed

text \<open>
  The default policy approves a request exactly when the score is at least 40, the amount at most 50000000 cents, the KYC level at
  least 1, no draw is recorded or 24 hours have passed since, and the outstanding balance is at most 40000000 cents (the
  rounded product of the limit and 0.8). Every rule is evaluated, and a rejection lists the failing rules in order.
\<close>

theorem default_policy_approves_iff:
  "(pe_approved (evaluatePolicy (createDefaultRegistry dateTime now) ctx) \<longleftrightarrow>
     num_ge (pc_creditScore ctx) (Fin 40) \<and> num_le (pc_requestedAmount ctx) (Fin 50000000) \<and> num_ge (pc_kycLevel ctx) (Fin 1) \<and>
     (case pc_lastDrawAt ctx of None \<Rightarrow> True | Some s \<Rightarrow> s = [] \<or> num_ge (elapsedHours dateTime now s) (Fin 24)) \<and>
     num_le (pc_outstandingBalance ctx) (Fin 40000000)) \<and>
   pe_evaluatedRules (evaluatePolicy (createDefaultRegistry dateTime now) ctx) =
     [''credit-score-minimum'', ''amount-within-limit'', ''kyc-verified'', ''draw-cooldown'', ''outstanding-balance-limit''] \<and>
   map fst (pe_rejections (evaluatePolicy (createDefaultRegistry dateTime now) ctx)) =
     (if num_ge (pc_creditScore ctx) (Fin 40) then [] else [CREDIT_SCORE_TOO_LOW]) @
     (if num_le (pc_requestedAmount ctx) (Fin 50000000) then [] else [AMOUNT_EXCEEDS_LIMIT]) @
     (if num_ge (pc_kycLevel ctx) (Fin 1) then [] else [KYC_NOT_VERIFIED]) @
     (if (case pc_lastDrawAt ctx of None \<Rightarrow> True | Some s \<Rightarrow> s = [] \<or> num_ge (elapsedHours dateTime now s) (Fin 24))
      then [] else [COOLDOWN_ACTIVE]) @
     (if num_le (pc_outstandingBalance ctx) (Fin 40000000) then [] else [OUTSTANDING_BALANCE_TOO_HIGH])"
  by (simp_all add: evaluatePolicy_def default_rules builtinRules_def outcome_rejection_def rule_defs threshold_value Let_def split: option.splits)

text \<open>
  Registering never overwrites: registering under a free identifier appends the rule, so it is evaluated last; registering a
  taken identifier throws and changes nothing; unregistering removes exactly that rule.
\<close>

theorem registry_operations:
  assumes "jsmap_invar reg"
  shows "(case PolicyRuleRegistry_register rule reg of
      (Inl e, reg') \<Rightarrow> PolicyRuleRegistry_get reg (pr_id rule) \<noteq> None \<and> reg' = reg
    | (Inr _, reg') \<Rightarrow> PolicyRuleRegistry_get reg (pr_id rule) = None \<and> jsmap_invar reg' \<and>
        PolicyRuleRegistry_list reg' = PolicyRuleRegistry_list reg @ [rule] \<and>
        snd (PolicyRuleRegistry_unregister (pr_id rule) reg') = reg)"
proof (cases "jsmap_has reg (pr_id rule)")
  case False
  let ?reg' = "jsmap_set (pr_id rule) rule reg"
  have "filter (\<lambda>p. fst p \<noteq> pr_id rule) reg = reg"
    using False by (intro filter_True) (force simp: jsmap_has_iff)
  then have "jsmap_delete (pr_id rule) ?reg' = reg" using False by (simp add: jsmap_set_new jsmap_delete_def)
  moreover have "jsmap_values ?reg' = jsmap_values reg @ [rule]" using False by (rule jsmap_values_set_new)
  moreover have "jsmap_invar ?reg'" using assms by (rule jsmap_invar_set)
  moreover have "jsmap_get reg (pr_id rule) = None" using False by (simp add: jsmap_has_def)
  moreover have "PolicyRuleRegistry_register rule reg = (Inr (), ?reg')" using False by (simp add: PolicyRuleRegistry_register_def)
  ultimately show ?thesis
    by (simp add: PolicyRuleRegistry_get_def PolicyRuleRegistry_list_def PolicyRuleRegistry_unregister_def)
qed (use assms in \<open>auto simp: PolicyRuleRegistry_register_def PolicyRuleRegistry_get_def jsmap_has_def\<close>)

theorem registry_operations_witness:
  "snd (PolicyRuleRegistry_unregister ''kyc-verified'' (snd (PolicyRuleRegistry_register kycVerified [(''credit-score-minimum'', creditScoreMinimum)]))) =
     [(''credit-score-minimum'', creditScoreMinimum)]"
proof -
  have "jsmap_invar [(''credit-score-minimum'', creditScoreMinimum)]" by simp
  from registry_operations [OF this, of kycVerified] show ?thesis
    by (simp add: PolicyRuleRegistry_register_def kycVerified_def jsmap_has_def)
qed

end
