(* ===== verification/JsonParse.thy ===== *)
theory JsonParse
  imports Json
begin

text \<open>
  \<open>JSON.parse\<close>, \<open>Number(s)\<close> and the \<open>base64url\<close> codec of \<open>Buffer\<close>, as the cursor, webhook and token code uses
  them. Parsers are recursive-descent over the character list; \<open>None\<close> is a thrown \<open>SyntaxError\<close>. The mutually
  recursive functions take fuel, which every call lowers by one: between two characters consumed there are at most two calls, so
  \<open>2 * length s + 2\<close> is enough and \<open>JSON_parse\<close> never fails for lack of it. An escape above \<open>U+00FF\<close> is outside
  the model's strings and counts as an error.
\<close>

section \<open>Lexemes\<close>

definition json_ws :: "char \<Rightarrow> bool" where
  "json_ws c \<longleftrightarrow> c = CHR '' '' \<or> c = CHR 0x09 \<or> c = CHR 0x0A \<or> c = CHR 0x0D"

definition is_num_char :: "char \<Rightarrow> bool" where
  "is_num_char c \<longleftrightarrow> is_digit c \<or> c = CHR ''-'' \<or> c = CHR ''+'' \<or> c = CHR ''.'' \<or> c = CHR ''e'' \<or> c = CHR ''E''"

definition exponent_ok :: "string \<Rightarrow> bool" where
  "exponent_ok r =
     (case r of
        [] \<Rightarrow> True
      | c # cs \<Rightarrow> (c = CHR ''e'' \<or> c = CHR ''E'') \<and>
          (let ds = (case cs of d # ds \<Rightarrow> if d = CHR ''-'' \<or> d = CHR ''+'' then ds else cs | [] \<Rightarrow> [])
           in ds \<noteq> [] \<and> list_all is_digit ds))"

definition json_magnitude_ok :: "string \<Rightarrow> bool" where
  "json_magnitude_ok s =
     (let ip = takeWhile is_digit s; r = dropWhile is_digit s
      in ip \<noteq> [] \<and> (length ip = 1 \<or> hd ip \<noteq> CHR ''0'') \<and>
         (case r of
            [] \<Rightarrow> True
          | c # cs \<Rightarrow> if c = CHR ''.'' then takeWhile is_digit cs \<noteq> [] \<and> exponent_ok (dropWhile is_digit cs) else exponent_ok r))"

definition json_number_ok :: "string \<Rightarrow> bool" where
  "json_number_ok s = (case s of c # cs \<Rightarrow> json_magnitude_ok (if c = CHR ''-'' then cs else s) | [] \<Rightarrow> False)"

definition hex_val :: "char \<Rightarrow> nat option" where
  "hex_val c =
     (let n = (of_char c :: nat)
      in if is_digit c then Some (n - 48)
         else if 97 \<le> n \<and> n \<le> 102 then Some (n - 87)
         else if 65 \<le> n \<and> n \<le> 70 then Some (n - 55) else None)"

definition hex4 :: "char \<Rightarrow> char \<Rightarrow> char \<Rightarrow> char \<Rightarrow> char option" where
  "hex4 a b c d =
     (case (hex_val a, hex_val b, hex_val c, hex_val d) of
        (Some i, Some j, Some k, Some l) \<Rightarrow>
          (let n = ((i * 16 + j) * 16 + k) * 16 + l in if n < 256 then Some (char_of n) else None)
      | _ \<Rightarrow> None)"

definition simple_escape :: "char \<Rightarrow> char option" where
  "simple_escape c =
     (if c = CHR 0x22 \<or> c = CHR 0x5C \<or> c = CHR ''/'' then Some c
      else if c = CHR ''b'' then Some (CHR 0x08)
      else if c = CHR ''f'' then Some (CHR 0x0C)
      else if c = CHR ''n'' then Some (CHR 0x0A)
      else if c = CHR ''r'' then Some (CHR 0x0D)
      else if c = CHR ''t'' then Some (CHR 0x09)
      else None)"

text \<open>The rest of a string literal after the opening quote: its value and what follows the closing quote.\<close>

fun json_string :: "string \<Rightarrow> (string \<times> string) option" where
  "json_string [] = None"
| "json_string (c # r) =
     (if c = CHR 0x22 then Some ([], r)
      else if c = CHR 0x5C then
        (case r of
           [] \<Rightarrow> None
         | e # r' \<Rightarrow>
             if e = CHR ''u'' then
               (case r' of
                  h1 # h2 # h3 # h4 # r'' \<Rightarrow>
                    (case hex4 h1 h2 h3 h4 of
                       None \<Rightarrow> None
                     | Some x \<Rightarrow> map_option (apfst ((#) x)) (json_string r''))
                | _ \<Rightarrow> None)
             else (case simple_escape e of
                     None \<Rightarrow> None
                   | Some x \<Rightarrow> map_option (apfst ((#) x)) (json_string r')))
      else if (of_char c :: nat) < 32 then None
      else map_option (apfst ((#) c)) (json_string r))"

definition json_skip :: "string \<Rightarrow> string" where
  "json_skip s = dropWhile json_ws s"

definition json_literal :: "string \<Rightarrow> json \<Rightarrow> string \<Rightarrow> (json \<times> string) option" where
  "json_literal w v s = (if starts_with w s then Some (v, drop (length w) s) else None)"

section \<open>Values\<close>

fun json_value :: "nat \<Rightarrow> string \<Rightarrow> (json \<times> string) option"
  and json_elements :: "nat \<Rightarrow> string \<Rightarrow> (json list \<times> string) option"
  and json_members :: "nat \<Rightarrow> string \<Rightarrow> ((string \<times> json) list \<times> string) option" where
  "json_value 0 s = None"
| "json_value (Suc n) s =
     (case json_skip s of
        [] \<Rightarrow> None
      | c # r \<Rightarrow>
          if c = CHR ''{'' then
            (case json_skip r of
               [] \<Rightarrow> None
             | d # r' \<Rightarrow> if d = CHR ''}'' then Some (JObj [], r')
                 else map_option (apfst (\<lambda>ps. JObj (fold (\<lambda>(k, v). jsmap_set k v) ps []))) (json_members n (d # r')))
          else if c = CHR ''['' then
            (case json_skip r of
               [] \<Rightarrow> None
             | d # r' \<Rightarrow> if d = CHR '']'' then Some (JArr [], r')
                 else map_option (apfst JArr) (json_elements n (d # r')))
          else if c = CHR 0x22 then map_option (apfst JStr) (json_string r)
          else if c = CHR ''t'' then json_literal ''true'' (JBool True) (c # r)
          else if c = CHR ''f'' then json_literal ''false'' (JBool False) (c # r)
          else if c = CHR ''n'' then json_literal ''null'' JNull (c # r)
          else (let lex = takeWhile is_num_char (c # r)
                in if json_number_ok lex then Some (JNum (parseFloat lex), dropWhile is_num_char (c # r)) else None))"
| "json_elements 0 s = None"
| "json_elements (Suc n) s =
     (case json_value n s of
        None \<Rightarrow> None
      | Some (v, r) \<Rightarrow>
          (case json_skip r of
             [] \<Rightarrow> None
           | c # r' \<Rightarrow> if c = CHR '','' then map_option (apfst ((#) v)) (json_elements n r')
               else if c = CHR '']'' then Some ([v], r') else None))"
| "json_members 0 s = None"
| "json_members (Suc n) s =
     (case json_skip s of
        [] \<Rightarrow> None
      | q # r \<Rightarrow>
          if q \<noteq> CHR 0x22 then None
          else (case json_string r of
                  None \<Rightarrow> None
                | Some (k, r1) \<Rightarrow>
                    (case json_skip r1 of
                       [] \<Rightarrow> None
                     | c # r2 \<Rightarrow>
                         if c \<noteq> CHR '':'' then None
                         else (case json_value n r2 of
                                 None \<Rightarrow> None
                               | Some (v, r3) \<Rightarrow>
                                   (case json_skip r3 of
                                      [] \<Rightarrow> None
                                    | d # r4 \<Rightarrow> if d = CHR '','' then map_option (apfst ((#) (k, v))) (json_members n r4)
                                        else if d = CHR ''}'' then Some ([(k, v)], r4) else None)))))"

definition JSON_parse :: "string \<Rightarrow> json option" where
  "JSON_parse s =
     (case json_value (2 * length s + 2) s of
        Some (v, r) \<Rightarrow> if json_skip r = [] then Some v else None
      | None \<Rightarrow> None)"

text \<open>\<open>obj.k\<close> on a parsed value\<close>

fun json_field :: "json \<Rightarrow> string \<Rightarrow> json option" where
  "json_field (JObj ps) k = jsmap_get ps k"
| "json_field _ k = None"

section \<open>\<open>Number(s)\<close>\<close>

definition decimal_literal_ok :: "string \<Rightarrow> bool" where
  "decimal_literal_ok s =
     (let ip = takeWhile is_digit s; (fp, rest) = parse_fraction (dropWhile is_digit s)
      in (ip \<noteq> [] \<or> fp \<noteq> []) \<and> exponent_ok rest)"

definition radix_digits :: "nat \<Rightarrow> string \<Rightarrow> nat option" where
  "radix_digits b s =
     (if s \<noteq> [] \<and> list_all (\<lambda>c. case hex_val c of Some d \<Rightarrow> d < b | None \<Rightarrow> False) s
      then Some (foldl (\<lambda>a c. a * b + (case hex_val c of Some d \<Rightarrow> d | None \<Rightarrow> 0)) 0 s) else None)"

definition radix_number :: "nat \<Rightarrow> string \<Rightarrow> number" where
  "radix_number b s = (case radix_digits b s of Some n \<Rightarrow> dround (of_nat n) | None \<Rightarrow> NaN)"

definition js_Number :: "string \<Rightarrow> number" where
  "js_Number s =
     (let t = js_trim s;
          m = (case t of c # cs \<Rightarrow> if c = CHR ''-'' \<or> c = CHR ''+'' then cs else t | [] \<Rightarrow> [])
      in if t = [] then Fin 0
         else if starts_with ''0x'' t \<or> starts_with ''0X'' t then radix_number 16 (drop 2 t)
         else if starts_with ''0o'' t \<or> starts_with ''0O'' t then radix_number 8 (drop 2 t)
         else if starts_with ''0b'' t \<or> starts_with ''0B'' t then radix_number 2 (drop 2 t)
         else if m = ''Infinity'' \<or> decimal_literal_ok m then parseFloat t else NaN)"

section \<open>base64\<close>

definition b64url_char :: "nat \<Rightarrow> char" where
  "b64url_char n =
     (if n < 26 then char_of (65 + n) else if n < 52 then char_of (71 + n) else if n < 62 then char_of (n - 4)
      else if n = 62 then CHR ''-'' else CHR ''_'')"

text \<open>\<open>Buffer.from(s, 'base64')\<close> and \<open>'base64url'\<close> read either alphabet and skip every other character; padding ends the data.\<close>

definition b64_index :: "char \<Rightarrow> nat option" where
  "b64_index c =
     (let n = (of_char c :: nat)
      in if 65 \<le> n \<and> n \<le> 90 then Some (n - 65)
         else if 97 \<le> n \<and> n \<le> 122 then Some (n - 71)
         else if is_digit c then Some (n + 4)
         else if c = CHR ''-'' \<or> c = CHR ''+'' then Some 62
         else if c = CHR ''_'' \<or> c = CHR ''/'' then Some 63 else None)"

fun sextets :: "nat list \<Rightarrow> nat list" where
  "sextets [] = []"
| "sextets [a] = [a div 4, a mod 4 * 16]"
| "sextets [a, b] = [a div 4, a mod 4 * 16 + b div 16, b mod 16 * 4]"
| "sextets (a # b # c # r) = a div 4 # (a mod 4 * 16 + b div 16) # (b mod 16 * 4 + c div 64) # c mod 64 # sextets r"

fun octets :: "nat list \<Rightarrow> nat list" where
  "octets (p # q # u # v # r) = (p * 4 + q div 16) # (q mod 16 * 16 + u div 4) # (u mod 4 * 64 + v) # octets r"
| "octets [p, q, u] = [p * 4 + q div 16, q mod 16 * 16 + u div 4]"
| "octets [p, q] = [p * 4 + q div 16]"
| "octets _ = []"

definition b64url_encode :: "string \<Rightarrow> string" where
  "b64url_encode s = map b64url_char (sextets (map of_char s))"

definition b64_decode :: "string \<Rightarrow> string" where
  "b64_decode s = map char_of (octets (List.map_filter b64_index (takeWhile (\<lambda>c. c \<noteq> CHR ''='') s)))"

lemma pack_digits [simp]:
  fixes x y :: nat
  assumes "y < m"
  shows "(x * m + y) div m = x" "(x * m + y) mod m = y"
  using assms by simp_all

lemma sextet_bounds [simp]:
  fixes a b c :: nat
  assumes "a < 256"
  shows "a div 4 < 64" "a div 16 < 16" "a div 64 < 4"
  using assms by (simp_all add: div_less_iff_less_mult)

lemma pack_bounds [simp]:
  fixes a y :: nat
  shows "a mod 4 * 16 < 64" "y < 16 \<Longrightarrow> a mod 4 * 16 + y < 64" "a mod 16 * 4 < 64" "y < 4 \<Longrightarrow> a mod 16 * 4 + y < 64"
proof -
  have "a mod 4 \<le> 3" "a mod 16 \<le> 15" using mod_less_divisor [of 4 a] mod_less_divisor [of 16 a] by linarith+
  then show "a mod 4 * 16 < 64" "y < 16 \<Longrightarrow> a mod 4 * 16 + y < 64" "a mod 16 * 4 < 64" "y < 4 \<Longrightarrow> a mod 16 * 4 + y < 64" by linarith+
qed

lemma sextets_bound: "\<forall>x \<in> set xs. x < 256 \<Longrightarrow> \<forall>n \<in> set (sextets xs). n < 64"
  by (induction xs rule: sextets.induct) simp_all

lemma octets_sextets: "\<forall>x \<in> set xs. x < 256 \<Longrightarrow> octets (sextets xs) = xs"
  by (induction xs rule: sextets.induct) (simp_all del: mod_mult_self3 mod_mult_self4 div_mult_self3 div_mult_self4)

lemma b64_index_char: "n < 64 \<Longrightarrow> b64_index (b64url_char n) = Some n"
proof -
  assume "n < 64"
  have oc: "of_char (char_of k :: char) = k" if "k < 256" for k :: nat using that by simp
  consider "n < 26" | "26 \<le> n" "n < 52" | "52 \<le> n" "n < 62" | "n = 62" | "n = 63" using \<open>n < 64\<close> by linarith
  then show ?thesis
  proof cases
    case 1
    then show ?thesis using oc [of "65 + n"] by (simp add: b64_index_def b64url_char_def Let_def)
  next
    case 2
    then show ?thesis using oc [of "71 + n"] by (simp add: b64_index_def b64url_char_def Let_def)
  next
    case 3
    then have "48 \<le> n - 4" "n - 4 \<le> 57" by linarith+
    then have "is_digit (char_of (n - 4))" using oc [of "n - 4"] by (simp add: is_digit_def)
    then show ?thesis using 3 oc [of "n - 4"] by (simp add: b64_index_def b64url_char_def Let_def)
  qed (simp_all add: b64_index_def b64url_char_def is_digit_def)
qed

lemma b64url_char_neq_pad: "n < 64 \<Longrightarrow> b64url_char n \<noteq> CHR ''=''"
  using b64_index_char [of n] by (auto simp: b64_index_def is_digit_def)

lemma b64_roundtrip [simp]: "b64_decode (b64url_encode s) = s"
proof -
  let ?ns = "map of_char s :: nat list"
  have b: "\<forall>x \<in> set ?ns. x < 256" by (auto simp: nat_of_char_less_256)
  note s = sextets_bound [OF b]
  have "List.map_filter b64_index (map b64url_char ns) = ns" if "\<forall>n \<in> set ns. n < 64" for ns
    using that by (induction ns) (auto simp: List.map_filter_def b64_index_char)
  then have "List.map_filter b64_index (map b64url_char (sextets ?ns)) = sextets ?ns" using s by blast
  moreover have "takeWhile (\<lambda>c. c \<noteq> CHR ''='') (map b64url_char (sextets ?ns)) = map b64url_char (sextets ?ns)"
    using s b64url_char_neq_pad by (auto simp: takeWhile_eq_all_conv)
  ultimately show ?thesis unfolding b64_decode_def b64url_encode_def by (simp only: octets_sextets [OF b]) (simp add: o_def)
qed

lemma b64url_no_dot: "CHR ''.'' \<notin> set (b64url_encode s)"
proof
  assume "CHR ''.'' \<in> set (b64url_encode s)"
  then obtain n where n: "n \<in> set (sextets (map of_char s))" "b64url_char n = CHR ''.''" by (auto simp: b64url_encode_def)
  have "n < 64" using sextets_bound [of "map of_char s"] n(1) by (auto simp: nat_of_char_less_256)
  then have "b64_index (CHR ''.'') = Some n" using b64_index_char [of n] n(2) by simp
  then show False by (simp add: b64_index_def is_digit_def)
qed

section \<open>Reading back what \<open>JSON.stringify\<close> printed\<close>

lemma hex_val_hex_digit: "d < 16 \<Longrightarrow> hex_val (hex_digit d) = Some d"
proof -
  assume d: "d < 16"
  have oc: "of_char (char_of k :: char) = k" if "k < 256" for k :: nat using that by simp
  show ?thesis
  proof (cases "d < 10")
    case True
    then show ?thesis using oc [of "48 + d"] by (simp add: hex_val_def hex_digit_def Let_def is_digit_def)
  next
    case False
    then show ?thesis using d oc [of "87 + d"] by (simp add: hex_val_def hex_digit_def Let_def is_digit_def)
  qed
qed

lemma hex4_escape: "(of_char c :: nat) < 32 \<Longrightarrow> hex4 (CHR ''0'') (CHR ''0'') (hex_digit (of_char c div 16)) (hex_digit (of_char c mod 16)) = Some c"
proof -
  assume c: "(of_char c :: nat) < 32"
  have z: "hex_val (CHR ''0'') = Some 0" by (simp add: hex_val_def is_digit_def)
  have d: "of_char c div 16 < (16 :: nat)" using c by linarith
  have "of_char c div 16 * 16 + of_char c mod 16 = (of_char c :: nat)" by (rule div_mult_mod_eq)
  then show ?thesis using c d by (simp add: hex4_def z hex_val_hex_digit Let_def)
qed

lemma json_string_escape: "json_string (json_escape_char c @ r) = map_option (apfst ((#) c)) (json_string r)"
proof -
  have "c = CHR 0x22 \<or> c = CHR 0x5C \<or> c = CHR 0x08 \<or> c = CHR 0x0C \<or> c = CHR 0x0A \<or> c = CHR 0x0D \<or> c = CHR 0x09 \<or>
     c \<notin> {CHR 0x22, CHR 0x5C, CHR 0x08, CHR 0x0C, CHR 0x0A, CHR 0x0D, CHR 0x09}" by blast
  then show ?thesis
  proof (elim disjE)
    assume "c \<notin> {CHR 0x22, CHR 0x5C, CHR 0x08, CHR 0x0C, CHR 0x0A, CHR 0x0D, CHR 0x09}"
    then show ?thesis by (simp add: json_escape_char_def hex4_escape)
  qed (simp_all add: json_escape_char_def simple_escape_def)
qed

lemma json_string_quoted: "json_string (concat (map json_escape_char s) @ CHR 0x22 # r) = Some (s, r)"
proof (induction s)
  case (Cons c s)
  then show ?case using json_string_escape [of c "concat (map json_escape_char s) @ CHR 0x22 # r"] by simp
qed simp

lemma json_value_quoted: "json_value (Suc n) (json_quote s @ r) = Some (JStr s, r)"
  by (simp add: json_quote_def json_skip_def json_ws_def json_string_quoted)

lemma digits_of_nat_hd_nonzero: "0 < n \<Longrightarrow> hd (digits_of_nat n) \<noteq> CHR ''0''"
proof (induction n rule: digits_of_nat.induct)
  case (1 n)
  show ?case
  proof (cases "n < 10")
    case True
    have "digit_char n \<noteq> digit_char 0" using 1(2) True digit_val_digit_char by (metis less_numeral_extra(3) zero_less_numeral)
    moreover have "digit_char (digit_val (CHR ''0'')) = CHR ''0''" by (rule digit_char_digit_val) simp
    then have "digit_char 0 = CHR ''0''" by (simp add: digit_val_def)
    ultimately show ?thesis using True by (subst digits_of_nat.simps) simp
  next
    case False
    then have "0 < n div 10" by simp
    then show ?thesis using 1(1) False by (subst digits_of_nat.simps) (simp add: hd_append)
  qed
qed

lemma json_magnitude_ok_printed:
  assumes "ip \<noteq> []" "\<forall>c \<in> set ip. is_digit c" "length ip = 1 \<or> hd ip \<noteq> CHR ''0''"
    and "\<forall>c \<in> set fp. is_digit c" "er = [] \<or> \<not> is_digit (hd er)" "exponent_ok er"
  shows "fp \<noteq> [] \<Longrightarrow> json_magnitude_ok (ip @ CHR ''.'' # fp @ er)" and "er = [] \<or> hd er \<noteq> CHR ''.'' \<Longrightarrow> json_magnitude_ok (ip @ er)"
proof -
  have f: "takeWhile is_digit (fp @ er) = fp" "dropWhile is_digit (fp @ er) = er" using takeWhile_digits [of fp er] assms by auto
  have "takeWhile is_digit (ip @ CHR ''.'' # fp @ er) = ip" "dropWhile is_digit (ip @ CHR ''.'' # fp @ er) = CHR ''.'' # fp @ er"
    using takeWhile_digits [of ip "CHR ''.'' # fp @ er"] assms by auto
  then show "fp \<noteq> [] \<Longrightarrow> json_magnitude_ok (ip @ CHR ''.'' # fp @ er)" unfolding json_magnitude_ok_def using assms f by simp
  have tw: "takeWhile is_digit (ip @ er) = ip" "dropWhile is_digit (ip @ er) = er" using takeWhile_digits [of ip er] assms by auto
  show "er = [] \<or> hd er \<noteq> CHR ''.'' \<Longrightarrow> json_magnitude_ok (ip @ er)"
    unfolding json_magnitude_ok_def tw Let_def using assms by (auto split: list.splits)
qed

lemma json_magnitude_ok_dec_format:
  assumes "1 \<le> k" "10 ^ (k - 1) \<le> s" "s < 10 ^ k"
  shows "json_magnitude_ok (dec_format s k n)" and "list_all is_num_char (dec_format s k n)"
proof -
  let ?ds = "digits_of_nat s" and ?er = "''e'' @ (if n - 1 < 0 then ''-'' else ''+'') @ digits_of_nat (nat \<bar>n - 1\<bar>)"
  have len: "length ?ds = k" using length_digits_of_nat [of "k - 1" s] assms by simp
  have dig: "\<forall>c \<in> set (digits_of_nat i). is_digit c" for i using digits_of_nat_digits by blast
  have digt: "\<forall>c \<in> set (take i ?ds). is_digit c" and digd: "\<forall>c \<in> set (drop i ?ds). is_digit c" for i
    using dig by (meson in_set_takeD, meson in_set_dropD)
  have "(1::nat) \<le> 10 ^ (k - 1)" by simp
  then have "0 < s" using assms(2) by linarith
  then have hd: "hd ?ds \<noteq> CHR ''0''" by (rule digits_of_nat_hd_nonzero)
  have er: "exponent_ok ?er" "\<not> is_digit (hd ?er)" "hd ?er \<noteq> CHR ''.''" using dig by (auto simp: exponent_ok_def list_all_iff)
  have hdt: "hd (take i ?ds) \<noteq> CHR ''0''" if "0 < i" for i using hd that by (simp add: hd_take)
  show "json_magnitude_ok (dec_format s k n)"
  proof -
    have "json_magnitude_ok (?ds @ replicate i (CHR ''0''))" for i
      using json_magnitude_ok_printed(2) [of "?ds @ replicate i (CHR ''0'')" "[]" "[]"] dig [of s] hd by (force simp: exponent_ok_def)
    moreover have "json_magnitude_ok (take (nat n) ?ds @ ''.'' @ drop (nat n) ?ds)" if "0 < n" "\<not> int k \<le> n"
      using json_magnitude_ok_printed(1) [of "take (nat n) ?ds" "drop (nat n) ?ds" "[]"] digt digd hdt [of "nat n"] that len
      by (auto simp: exponent_ok_def)
    moreover have "json_magnitude_ok (''0.'' @ replicate i (CHR ''0'') @ ?ds)" for i
      using json_magnitude_ok_printed(1) [of "''0''" "replicate i (CHR ''0'') @ ?ds" "[]"] dig [of s] by (force simp: exponent_ok_def)
    moreover have "json_magnitude_ok (?ds @ ?er)"
      using json_magnitude_ok_printed(2) [of ?ds "[]" ?er] dig hd er by auto
    moreover have "json_magnitude_ok (take 1 ?ds @ ''.'' @ drop 1 ?ds @ ?er)" if "k \<noteq> 1"
      using json_magnitude_ok_printed(1) [of "take 1 ?ds" "drop 1 ?ds" ?er] digt digd hdt [of 1] er len that assms(1) by auto
    ultimately show ?thesis unfolding dec_format_def Let_def by simp
  qed
  show "list_all is_num_char (dec_format s k n)"
    unfolding dec_format_def Let_def using dig digt digd by (auto simp: list_all_iff is_num_char_def dest: in_set_takeD in_set_dropD)
qed

lemma pos_toString_json:
  assumes "is_double (Fin x)" "0 < x"
  shows "json_magnitude_ok (pos_toString x)" and "list_all is_num_char (pos_toString x)"
proof -
  define n where "n = ilog 10 x + 1"
  obtain s k n' where sh: "dec_shortest x n 1 (nat (n + 1074)) = (s, k, n')" by (cases "dec_shortest x n 1 (nat (n + 1074))")
  have b: "10 powi (n - 1) \<le> x" "x < 10 powi n"
    using ilog_bounds [OF assms(2), of 10] by (simp_all add: n_def)
  have g: "1 \<le> k \<and> 10 ^ (k - 1) \<le> s \<and> s < 10 ^ k \<and> dround (of_nat s * 10 powi (n' - int k)) = Fin x"
    by (rule dec_shortest_good [OF assms b _ _ sh]) auto
  have "pos_toString x = dec_format s k n'" using sh by (simp add: pos_toString_def n_def [symmetric])
  then show "json_magnitude_ok (pos_toString x)" "list_all is_num_char (pos_toString x)"
    using g json_magnitude_ok_dec_format [of k s n'] by simp_all
qed

lemma num_toString_json:
  assumes "is_double (Fin q)"
  shows "json_number_ok (num_toString (Fin q))" and "list_all is_num_char (num_toString (Fin q))"
    and "\<exists>c cs. num_toString (Fin q) = c # cs \<and> (is_digit c \<or> c = CHR ''-'')"
proof -
  have neg: "is_double (Fin (- q))" using assms is_double_neg [of "Fin q"] by simp
  consider "q = 0" | "q < 0" | "0 < q" by linarith
  then have "json_number_ok (num_toString (Fin q)) \<and> list_all is_num_char (num_toString (Fin q)) \<and>
      (\<exists>c cs. num_toString (Fin q) = c # cs \<and> (is_digit c \<or> c = CHR ''-''))"
  proof cases
    case 1
    then show ?thesis by (simp add: num_toString.simps json_number_ok_def json_magnitude_ok_def is_num_char_def)
  next
    case 2
    then show ?thesis using pos_toString_json [OF neg] by (simp add: num_toString.simps json_number_ok_def is_num_char_def)
  next
    case 3
    obtain c cs where c: "pos_toString q = c # cs" "is_digit c" using pos_toString_hd by blast
    then have "c \<noteq> CHR ''-''" by auto
    then show ?thesis using 3 c pos_toString_json [OF assms 3] by (simp add: num_toString.simps json_number_ok_def)
  qed
  then show "json_number_ok (num_toString (Fin q))" "list_all is_num_char (num_toString (Fin q))"
    "\<exists>c cs. num_toString (Fin q) = c # cs \<and> (is_digit c \<or> c = CHR ''-'')" by blast+
qed

lemma split_lexeme: "list_all P xs \<Longrightarrow> r = [] \<or> \<not> P (hd r) \<Longrightarrow> takeWhile P (xs @ r) = xs \<and> dropWhile P (xs @ r) = r"
  by (induction xs) (auto, (cases r; simp)+)

lemma json_value_number:
  assumes "is_double (Fin q)" "r = [] \<or> \<not> is_num_char (hd r)"
  shows "json_value (Suc n) (json_number (Fin q) @ r) = Some (JNum (Fin q), r)"
proof -
  note num = num_toString_json [OF assms(1)]
  obtain c cs where c: "num_toString (Fin q) = c # cs" "is_digit c \<or> c = CHR ''-''" using num(3) by blast
  have sk: "json_skip (c # cs @ r) = c # cs @ r" using c(2) by (auto simp: json_skip_def json_ws_def is_digit_def)
  have tw: "takeWhile is_num_char ((c # cs) @ r) = c # cs" "dropWhile is_num_char ((c # cs) @ r) = r"
    using split_lexeme [of is_num_char "c # cs" r] num(2) assms(2) c(1) by simp_all
  have neq: "c \<noteq> CHR ''{''" "c \<noteq> CHR ''[''" "c \<noteq> CHR 0x22" "c \<noteq> CHR ''t''" "c \<noteq> CHR ''f''" "c \<noteq> CHR ''n''"
    using c(2) by (auto simp: is_digit_def)
  have "json_number_ok (c # cs)" "parseFloat (c # cs) = Fin q" using num(1) c(1) parseFloat_toString [OF assms(1)] by simp_all
  moreover have "json_number (Fin q) = c # cs" by (simp add: json_number_def c(1))
  ultimately show ?thesis using sk tw neq by (simp only: json_value.simps append_Cons list.case if_False Let_def if_True)
qed

lemma num_toString_hd: "\<exists>c cs. num_toString (Fin q) = c # cs \<and> (is_digit c \<or> c = CHR ''-'')"
  using pos_toString_hd [of q] by (auto simp: num_toString.simps)

text \<open>A value \<open>JSON.stringify\<close> prints faithfully: finite numbers and, in every object, pairwise different keys.\<close>

fun json_ok :: "json \<Rightarrow> bool" where
  "json_ok (JNum x) = (num_isFinite x \<and> is_double x)"
| "json_ok (JArr xs) = list_all json_ok xs"
| "json_ok (JObj ps) = (distinct (map fst ps) \<and> list_all (\<lambda>p. json_ok (snd p)) ps)"
| "json_ok _ = True"

lemma json_stringify_hd: "\<exists>c r. json_stringify j = c # r \<and> \<not> json_ws c \<and> c \<noteq> CHR '']''"
proof (cases j)
  case (JNum x)
  show ?thesis
  proof (cases "num_isFinite x")
    case True
    then obtain q where "x = Fin q" by (auto simp: num_isFinite_iff)
    then show ?thesis using JNum num_toString_hd [of q] by (auto simp: json_number_def json_ws_def is_digit_def)
  qed (simp add: JNum json_number_def json_ws_def)
qed (auto simp: json_quote_def json_ws_def)

lemma json_elements_printed:
  assumes "\<And>x n r. x \<in> set xs \<Longrightarrow> json_ok x \<Longrightarrow> r = [] \<or> \<not> is_num_char (hd r) \<Longrightarrow> 2 * length (json_stringify x) \<le> n \<Longrightarrow>
      json_value n (json_stringify x @ r) = Some (x, r)"
    and "list_all json_ok xs" "xs \<noteq> []" "2 * length (js_join '','' (map json_stringify xs)) < n"
  shows "json_elements n (js_join '','' (map json_stringify xs) @ CHR '']'' # r) = Some (xs, r)"
  using assms
proof (induction xs arbitrary: n)
  case (Cons x xs)
  obtain m where n: "n = Suc m" using Cons.prems(4) by (cases n) auto
  have nc: "\<not> is_num_char (CHR '','')" "\<not> is_num_char (CHR '']'')" by (simp_all add: is_num_char_def is_digit_def)
  show ?case
  proof (cases xs)
    case Nil
    have "json_value m (json_stringify x @ CHR '']'' # r) = Some (x, CHR '']'' # r)"
      using Cons.prems(2,4) n nc by (intro Cons.prems(1)) (simp_all add: Nil)
    then show ?thesis by (simp add: Nil n json_skip_def json_ws_def del: json_value.simps)
  next
    case (Cons y ys)
    let ?rest = "js_join '','' (map json_stringify xs) @ CHR '']'' # r"
    have join: "js_join '','' (map json_stringify (x # xs)) @ CHR '']'' # r = json_stringify x @ CHR '','' # ?rest"
      by (simp add: Cons)
    have len: "length (js_join '','' (map json_stringify (x # xs))) = length (json_stringify x) + 1 + length (js_join '','' (map json_stringify xs))"
      by (simp add: Cons)
    have 1: "json_value m (json_stringify x @ CHR '','' # ?rest) = Some (x, CHR '','' # ?rest)"
      using Cons.prems(2,4) n nc len by (intro Cons.prems(1)) simp_all
    have 2: "json_elements m ?rest = Some (xs, r)"
      using Cons.prems n len Cons by (intro Cons.IH) auto
    show ?thesis unfolding join n json_elements.simps(2) 1 by (simp add: json_skip_def json_ws_def 2 del: json_value.simps)
  qed
qed simp

lemma json_member_printed:
  assumes "json_value n (json_stringify x @ r) = Some (x, r)" "r \<noteq> []" "\<not> json_ws (hd r)"
  shows "json_members (Suc n) (json_quote k @ CHR '':'' # json_stringify x @ r) =
     (if hd r = CHR '','' then map_option (apfst ((#) (k, x))) (json_members n (tl r))
      else if hd r = CHR ''}'' then Some ([(k, x)], tl r) else None)"
proof -
  obtain d r' where r: "r = d # r'" using assms(2) by (cases r) auto
  have q: "json_skip (json_quote k @ CHR '':'' # json_stringify x @ r) =
      CHR 0x22 # concat (map json_escape_char k) @ CHR 0x22 # CHR '':'' # json_stringify x @ r"
    by (simp add: json_quote_def json_skip_def json_ws_def)
  have "json_skip (CHR '':'' # json_stringify x @ r) = CHR '':'' # json_stringify x @ r" by (simp add: json_skip_def json_ws_def)
  moreover have "json_skip r = r" using assms(3) by (simp add: r json_skip_def)
  moreover have "json_string (concat (map json_escape_char k) @ CHR 0x22 # CHR '':'' # json_stringify x @ r) = Some (k, CHR '':'' # json_stringify x @ r)"
    by (rule json_string_quoted)
  ultimately show ?thesis
    unfolding json_members.simps(2) q
    by (simp add: assms(1) r [symmetric] del: json_value.simps json_members.simps) (simp add: r del: json_value.simps json_members.simps)
qed

abbreviation print_member :: "string \<times> json \<Rightarrow> string" where
  "print_member \<equiv> \<lambda>(k, v). json_quote k @ '':'' @ json_stringify v"

lemma json_members_printed:
  assumes "\<And>x n r. x \<in> snd ` set ps \<Longrightarrow> json_ok x \<Longrightarrow> r = [] \<or> \<not> is_num_char (hd r) \<Longrightarrow> 2 * length (json_stringify x) \<le> n \<Longrightarrow>
      json_value n (json_stringify x @ r) = Some (x, r)"
    and "list_all (\<lambda>p. json_ok (snd p)) ps" "ps \<noteq> []" "2 * length (js_join '','' (map print_member ps)) < n"
  shows "json_members n (js_join '','' (map print_member ps) @ CHR ''}'' # r) = Some (ps, r)"
  using assms
proof (induction ps arbitrary: n)
  case (Cons p ps)
  obtain k x where p: "p = (k, x)" by (cases p)
  obtain m where n: "n = Suc m" using Cons.prems(4) by (cases n) auto
  have nc: "\<not> is_num_char (CHR '','')" "\<not> is_num_char (CHR ''}'')" "\<not> json_ws (CHR '','')" "\<not> json_ws (CHR ''}'')"
    by (simp_all add: is_num_char_def is_digit_def json_ws_def)
  show ?case
  proof (cases ps)
    case Nil
    have "json_value m (json_stringify x @ CHR ''}'' # r) = Some (x, CHR ''}'' # r)"
      using Cons.prems(2,4) n nc by (intro Cons.prems(1)) (simp_all add: Nil p)
    from json_member_printed [OF this, of k] show ?thesis using nc by (simp add: Nil n p del: json_value.simps json_members.simps)
  next
    case (Cons p' ps')
    let ?rest = "js_join '','' (map print_member ps) @ CHR ''}'' # r"
    have join: "js_join '','' (map print_member (p # ps)) @ CHR ''}'' # r = json_quote k @ CHR '':'' # json_stringify x @ CHR '','' # ?rest"
      by (simp add: Cons p)
    have len: "length (js_join '','' (map print_member (p # ps))) = length (json_quote k) + length (json_stringify x) + 2 + length (js_join '','' (map print_member ps))"
      by (simp add: Cons p)
    have 1: "json_value m (json_stringify x @ CHR '','' # ?rest) = Some (x, CHR '','' # ?rest)"
      using Cons.prems(2,4) n nc len by (intro Cons.prems(1)) (simp_all add: p)
    have 2: "json_members m ?rest = Some (ps, r)"
      using Cons.prems n len Cons by (intro Cons.IH) auto
    show ?thesis unfolding join n unfolding p using json_member_printed [OF 1, of k] nc 2 by (simp del: json_value.simps json_members.simps)
  qed
qed simp

lemma fold_set_new: "distinct (map fst (qs @ ps)) \<Longrightarrow> fold (\<lambda>(k, v). jsmap_set k v) ps qs = qs @ ps"
proof (induction ps arbitrary: qs)
  case (Cons p ps)
  obtain k v where p: "p = (k, v)" by (cases p)
  have "\<not> jsmap_has qs k" using Cons.prems by (auto simp: jsmap_has_iff p)
  then show ?case using Cons.IH [of "qs @ [(k, v)]"] Cons.prems by (simp add: p jsmap_set_new)
qed simp

lemma json_value_printed:
  "json_ok j \<Longrightarrow> r = [] \<or> \<not> is_num_char (hd r) \<Longrightarrow> 2 * length (json_stringify j) \<le> n \<Longrightarrow> json_value n (json_stringify j @ r) = Some (j, r)"
proof (induction j arbitrary: n r)
  case (JNum x)
  then obtain q m where q: "x = Fin q" "n = Suc m" using num_toString_neq_Nil [of x] by (cases n) (auto simp: num_isFinite_iff json_number_def)
  then show ?case using JNum json_value_number [of q r m] by simp
next
  case (JStr s)
  then obtain m where "n = Suc m" by (cases n) (auto simp: json_quote_def)
  then show ?case using json_value_quoted [of m s r] by simp
next
  case (JArr xs)
  then obtain m where n: "n = Suc m" by (cases n) auto
  show ?case
  proof (cases "xs = []")
    case True
    then show ?thesis by (simp add: n json_skip_def json_ws_def)
  next
    case False
    have e: "json_elements m (js_join '','' (map json_stringify xs) @ CHR '']'' # r) = Some (xs, r)"
      using JArr False n by (intro json_elements_printed) auto
    obtain x ys where xs: "xs = x # ys" using False by (cases xs) auto
    obtain c cs where c: "json_stringify x = c # cs" "\<not> json_ws c" "c \<noteq> CHR '']''" using json_stringify_hd by blast
    obtain t where t: "js_join '','' (map json_stringify xs) @ CHR '']'' # r = c # t" using c(1) by (cases ys) (auto simp: xs)
    have "json_skip (CHR ''['' # c # t) = CHR ''['' # c # t" "json_skip (c # t) = c # t" using c(2) by (simp_all add: json_skip_def json_ws_def)
    moreover have "json_stringify (JArr xs) @ r = CHR ''['' # c # t" using t by simp
    ultimately show ?thesis using e c(3) t by (simp add: n del: json_stringify.simps json_elements.simps)
  qed
next
  case (JObj ps)
  then obtain m where n: "n = Suc m" by (cases n) auto
  show ?case
  proof (cases "ps = []")
    case True
    then show ?thesis by (simp add: n json_skip_def json_ws_def)
  next
    case False
    have ih: "json_value n' (json_stringify x @ r') = Some (x, r')"
      if mem: "x \<in> snd ` set ps" and "json_ok x" "r' = [] \<or> \<not> is_num_char (hd r')" "2 * length (json_stringify x) \<le> n'" for x n' r'
    proof -
      obtain a where "(a, x) \<in> set ps" using mem by auto
      then show ?thesis using JObj.IH [of "(a, x)" x r' n'] that(2-4) by (simp add: snds.intros)
    qed
    have e: "json_members m (js_join '','' (map print_member ps) @ CHR ''}'' # r) = Some (ps, r)"
      by (rule json_members_printed [OF ih]) (use JObj.prems False n in auto)
    obtain k x ys where ps: "ps = (k, x) # ys" using False by (cases ps) auto
    obtain t where t: "js_join '','' (map print_member ps) @ CHR ''}'' # r = CHR 0x22 # t" by (cases ys) (auto simp: ps json_quote_def)
    have "json_skip (CHR ''{'' # CHR 0x22 # t) = CHR ''{'' # CHR 0x22 # t" "json_skip (CHR 0x22 # t) = CHR 0x22 # t" by (simp_all add: json_skip_def json_ws_def)
    moreover have "json_stringify (JObj ps) @ r = CHR ''{'' # CHR 0x22 # t" using t by simp
    moreover have "fold (\<lambda>(k, v). jsmap_set k v) ps [] = ps" using fold_set_new [of "[]" ps] JObj.prems(1) by simp
    ultimately show ?thesis using e t by (simp add: n del: json_stringify.simps json_members.simps)
  qed
next
  case JNull
  then obtain m where "n = Suc m" by (cases n) auto
  then show ?case by (simp add: json_skip_def json_ws_def json_literal_def starts_with_def)
next
  case (JBool b)
  then obtain m where "n = Suc m" by (cases n) (auto split: if_splits)
  then show ?case by (cases b) (simp_all add: json_skip_def json_ws_def json_literal_def starts_with_def)
qed

theorem json_roundtrip: "json_ok j \<Longrightarrow> JSON_parse (json_stringify j) = Some j"
  using json_value_printed [of j "[]" "2 * length (json_stringify j) + 2"] by (simp add: JSON_parse_def json_skip_def del: json_value.simps json_stringify.simps)

end
