(* ===== verification/CursorPagination.thy ===== *)
theory CursorPagination
  imports JsonParse CreditLineRepo
begin

text \<open>
  Cursor pagination (\<open>src/utils/cursorPagination.ts\<close>) and its use in the in-memory credit-line repository. Sort keys
  are a binary64 timestamp and an identifier; \<open>lc\<close> stands for \<open>localeCompare\<close>. A comparator's result is used by
  \<open>sort\<close> through its sign only, with \<open>NaN\<close> as 0 (\<open>num_cmp\<close>). Cursor text is UTF-8, the identity on the ASCII
  range. The theorems are that a minted cursor decodes to its key, that a page holds the first rows after the cursor's key, and that
  following the cursors visits every row once, in order.
\<close>

definition DEFAULT_PAGE_SIZE :: number where "DEFAULT_PAGE_SIZE = Fin 25"
definition MAX_PAGE_SIZE :: number where "MAX_PAGE_SIZE = Fin 100"
definition MIN_PAGE_SIZE :: number where "MIN_PAGE_SIZE = Fin 1"

record CursorKey =
  ck_t :: number
  ck_i :: string

record 'a CursorPage =
  cp_items :: "'a list"
  cp_nextCursor :: "string option"
  cp_hasMore :: bool
  cp_limit :: number

record CursorPaginationMeta =
  cm_limit :: number
  cm_nextCursor :: "string option"
  cm_hasMore :: bool

datatype CursorSortOrder = Asc | Desc

definition clampLimit :: "number option \<Rightarrow> number option \<Rightarrow> js_error + number" where
  "clampLimit limit defaultLimit =
     (let dflt = (case defaultLimit of Some d \<Rightarrow> d | None \<Rightarrow> DEFAULT_PAGE_SIZE)
      in case limit of
           None \<Rightarrow> Inr dflt
         | Some l \<Rightarrow>
             if l = NaN then Inr dflt
             else if \<not> num_isFinite l \<or> \<not> num_isInteger l
               then Inl (Error (''Limit must be an integer between '' @ num_toString MIN_PAGE_SIZE @ '' and '' @ num_toString MAX_PAGE_SIZE))
             else if num_lt l MIN_PAGE_SIZE then Inl (Error ''Limit must be greater than 0'')
             else if num_gt l MAX_PAGE_SIZE then Inl (Error (''Limit cannot exceed '' @ num_toString MAX_PAGE_SIZE))
             else Inr l)"

definition cursor_payload :: "CursorKey \<Rightarrow> json" where
  "cursor_payload key = JObj [(''v'', JNum (Fin 1)), (''t'', JNum (ck_t key)), (''i'', JStr (ck_i key))]"

definition encodeCursor :: "CursorKey \<Rightarrow> js_error + string" where
  "encodeCursor key =
     (if \<not> num_isFinite (ck_t key) \<or> ck_i key = [] then Inl (Error ''Cannot encode cursor: invalid key'')
      else Inr (b64url_encode (json_stringify (cursor_payload key))))"

text \<open>The versioned format: \<open>Inl m\<close> is the message thrown in strict mode.\<close>

definition decode_versioned :: "string \<Rightarrow> string + CursorKey" where
  "decode_versioned raw =
     (case JSON_parse raw of
        None \<Rightarrow> Inl ''Malformed cursor''
      | Some parsed \<Rightarrow>
          if json_field parsed ''v'' \<noteq> Some (JNum (Fin 1)) then Inl ''Unsupported cursor version''
          else (case (json_field parsed ''t'', json_field parsed ''i'') of
                  (Some (JNum t), Some (JStr i)) \<Rightarrow>
                    if num_isFinite t \<and> i \<noteq> [] then Inr \<lparr>ck_t = t, ck_i = i\<rparr> else Inl ''Malformed cursor payload''
                | _ \<Rightarrow> Inl ''Malformed cursor payload''))"

text \<open>The legacy format: \<open>base64(timestamp|id)\<close>.\<close>

definition decode_legacy :: "string \<Rightarrow> CursorKey option" where
  "decode_legacy legacyRaw =
     (let before = takeWhile (\<lambda>c. c \<noteq> CHR ''|'') legacyRaw; rest = dropWhile (\<lambda>c. c \<noteq> CHR ''|'') legacyRaw;
          t = js_Number before; i = tl rest
      in if rest \<noteq> [] \<and> before \<noteq> [] \<and> num_isFinite t \<and> i \<noteq> [] then Some \<lparr>ck_t = t, ck_i = i\<rparr> else None)"

definition decodeCursor :: "string option \<Rightarrow> bool \<Rightarrow> js_error + CursorKey option" where
  "decodeCursor cursor strict =
     (case cursor of
        None \<Rightarrow> Inr None
      | Some c \<Rightarrow>
          if c = [] then Inr None
          else let raw = b64_decode c
               in if raw \<noteq> [] \<and> hd raw = CHR ''{''
                  then (case decode_versioned raw of
                          Inl m \<Rightarrow> if strict then Inl (InvalidCursorError m) else Inr None
                        | Inr k \<Rightarrow> Inr (Some k))
                  else (case decode_legacy raw of
                          Some k \<Rightarrow> Inr (Some k)
                        | None \<Rightarrow> if strict then Inl (InvalidCursorError ''Malformed cursor'') else Inr None))"

section \<open>Order\<close>

definition num_cmp :: "number \<Rightarrow> int" where
  "num_cmp x = (if num_lt x (Fin 0) then - 1 else if num_lt (Fin 0) x then 1 else 0)"

definition compareCursorKeysAsc :: "(string \<Rightarrow> string \<Rightarrow> int) \<Rightarrow> CursorKey \<Rightarrow> CursorKey \<Rightarrow> int" where
  "compareCursorKeysAsc lc a b =
     (if \<not> num_eq (ck_t a) (ck_t b) then num_cmp (num_sub (ck_t a) (ck_t b)) else lc (ck_i a) (ck_i b))"

definition compareCursorKeysDesc :: "(string \<Rightarrow> string \<Rightarrow> int) \<Rightarrow> CursorKey \<Rightarrow> CursorKey \<Rightarrow> int" where
  "compareCursorKeysDesc lc a b =
     (if \<not> num_eq (ck_t a) (ck_t b) then num_cmp (num_sub (ck_t b) (ck_t a)) else lc (ck_i a) (ck_i b))"

definition isAfterCursor :: "(string \<Rightarrow> string \<Rightarrow> int) \<Rightarrow> CursorKey \<Rightarrow> CursorKey \<Rightarrow> CursorSortOrder \<Rightarrow> bool" where
  "isAfterCursor lc item cursor order =
     (case order of
        Asc \<Rightarrow> compareCursorKeysAsc lc item cursor > 0
      | Desc \<Rightarrow> if \<not> num_eq (ck_t item) (ck_t cursor) then num_lt (ck_t item) (ck_t cursor) else lc (ck_i item) (ck_i cursor) > 0)"

section \<open>Pages\<close>

definition js_findIndex :: "('a \<Rightarrow> bool) \<Rightarrow> 'a list \<Rightarrow> int" where
  "js_findIndex p xs = (let n = length (takeWhile (\<lambda>x. \<not> p x) xs) in if n < length xs then int n else - 1)"

fun num_trunc :: "number \<Rightarrow> int" where
  "num_trunc (Fin q) = (if q < 0 then - \<lfloor>- q\<rfloor> else \<lfloor>q\<rfloor>)"
| "num_trunc _ = 0"

definition buildPageFromOverfetch :: "'a list \<Rightarrow> number \<Rightarrow> ('a \<Rightarrow> CursorKey) \<Rightarrow> js_error + 'a CursorPage" where
  "buildPageFromOverfetch overfetched limit getKey =
     (let hasMore = num_gt (num_of_int (int (length overfetched))) limit;
          items = (if hasMore then js_slice overfetched 0 (num_trunc limit) else overfetched)
      in if hasMore \<and> items \<noteq> []
         then (case encodeCursor (getKey (last items)) of
                 Inl e \<Rightarrow> Inl e
               | Inr c \<Rightarrow> Inr \<lparr>cp_items = items, cp_nextCursor = Some c, cp_hasMore = hasMore, cp_limit = limit\<rparr>)
         else Inr \<lparr>cp_items = items, cp_nextCursor = None, cp_hasMore = hasMore, cp_limit = limit\<rparr>)"

definition page_start :: "(string \<Rightarrow> string \<Rightarrow> int) \<Rightarrow> 'a list \<Rightarrow> ('a \<Rightarrow> CursorKey) \<Rightarrow> CursorSortOrder \<Rightarrow> CursorKey option \<Rightarrow> int" where
  "page_start lc rows getKey order decoded =
     (case decoded of
        None \<Rightarrow> 0
      | Some d \<Rightarrow>
          let exact = js_findIndex (\<lambda>item. num_eq (ck_t (getKey item)) (ck_t d) \<and> ck_i (getKey item) = ck_i d) rows
          in if exact \<ge> 0 then exact + 1
             else let startIndex = js_findIndex (\<lambda>item. isAfterCursor lc (getKey item) d order) rows
                  in if startIndex < 0 then int (length rows) else startIndex)"

definition sort_items :: "(string \<Rightarrow> string \<Rightarrow> int) \<Rightarrow> ('a \<Rightarrow> CursorKey) \<Rightarrow> CursorSortOrder \<Rightarrow> 'a list \<Rightarrow> 'a list" where
  "sort_items lc getKey order items =
     js_sort (\<lambda>a b. if order = Asc then compareCursorKeysAsc lc (getKey a) (getKey b) else compareCursorKeysDesc lc (getKey a) (getKey b)) items"

definition paginateArray ::
  "(string \<Rightarrow> string \<Rightarrow> int) \<Rightarrow> 'a list \<Rightarrow> string option \<Rightarrow> number option \<Rightarrow> ('a \<Rightarrow> CursorKey) \<Rightarrow> CursorSortOrder \<Rightarrow> bool \<Rightarrow> number option \<Rightarrow>
     js_error + 'a CursorPage" where
  "paginateArray lc items cursor limit getKey order strictCursor defaultLimit =
     (case clampLimit limit defaultLimit of
        Inl e \<Rightarrow> Inl e
      | Inr pageLimit \<Rightarrow>
          let rows = sort_items lc getKey order items
          in case decodeCursor cursor strictCursor of
               Inl e \<Rightarrow> Inl e
             | Inr decoded \<Rightarrow>
                 let startIndex = page_start lc rows getKey order decoded;
                     window = js_slice rows startIndex (num_trunc (num_add (num_add (num_of_int startIndex) pageLimit) (Fin 1)))
                 in buildPageFromOverfetch window pageLimit getKey)"

definition toPaginationMeta :: "'a CursorPage \<Rightarrow> CursorPaginationMeta" where
  "toPaginationMeta page = \<lparr>cm_limit = cp_limit page, cm_nextCursor = cp_nextCursor page, cm_hasMore = cp_hasMore page\<rparr>"

text \<open>A query parameter as Express parses it: absent, text, or (from a caller) a number.\<close>

datatype query_value = QAbsent | QString string | QNumber number

definition parseCursorQuery :: "query_value \<Rightarrow> query_value \<Rightarrow> number option \<Rightarrow> js_error + (string option \<times> number \<times> bool)" where
  "parseCursorQuery rawCursor rawLimit defaultLimit =
     (let cursorMode = (rawCursor \<noteq> QAbsent);
          cursor = (case rawCursor of QString s \<Rightarrow> if s \<noteq> [] then Some s else None | _ \<Rightarrow> None);
          limit = (case rawLimit of QAbsent \<Rightarrow> None | QNumber n \<Rightarrow> Some n | QString s \<Rightarrow> if s = [] then None else Some (parseInt10 s))
      in case clampLimit limit (case defaultLimit of Some d \<Rightarrow> Some d | None \<Rightarrow> Some DEFAULT_PAGE_SIZE) of
           Inl e \<Rightarrow> Inl e
         | Inr l \<Rightarrow> Inr (cursor, l, cursorMode))"

text \<open>The SQL seek clause and its bound values; a value is a number, a timestamp or a text.\<close>

datatype sql_value = SqlNum number | SqlDate number | SqlText string

definition sqlSeekAsc :: "CursorKey option \<Rightarrow> number \<Rightarrow> number \<Rightarrow> number \<times> string \<times> sql_value list" where
  "sqlSeekAsc cursor limit startIndex =
     (case cursor of
        None \<Rightarrow> (startIndex, [], [SqlNum (num_add limit (Fin 1))])
      | Some c \<Rightarrow>
          let tParam = num_toString (num_add startIndex (Fin 1)); iParam = num_toString (num_add startIndex (Fin 2))
          in (startIndex,
              ''(created_at > $'' @ tParam @ '' OR (created_at = $'' @ tParam @ '' AND id > $'' @ iParam @ ''))'',
              [SqlNum (num_add limit (Fin 1)), SqlDate (ck_t c), SqlText (ck_i c)]))"

definition creditLine_key :: "CreditLine \<Rightarrow> CursorKey" where
  "creditLine_key cl = \<lparr>ck_t = num_of_int (cl_createdAt cl), ck_i = cl_id cl\<rparr>"

definition InMemoryCreditLineRepository_findAllWithCursor ::
  "(string \<Rightarrow> string \<Rightarrow> int) \<Rightarrow> creditLineRepo \<Rightarrow> string option \<Rightarrow> number option \<Rightarrow> js_error + CreditLine CursorPage" where
  "InMemoryCreditLineRepository_findAllWithCursor lc m cursor limit =
     paginateArray lc (jsmap_values m) cursor (Some (case limit of Some l \<Rightarrow> l | None \<Rightarrow> Fin 100)) creditLine_key Asc False (Some (Fin 100))"

definition CreditLineService_getAllCreditLinesWithCursor ::
  "(string \<Rightarrow> string \<Rightarrow> int) \<Rightarrow> creditLineRepo \<Rightarrow> string option \<Rightarrow> number option \<Rightarrow> js_error + CreditLine CursorPage" where
  "CreditLineService_getAllCreditLinesWithCursor lc m cursor limit =
     (case clampLimit limit (Some (Fin 100)) of
        Inl e \<Rightarrow> Inl e
      | Inr safeLimit \<Rightarrow> InMemoryCreditLineRepository_findAllWithCursor lc m cursor (Some safeLimit))"

section \<open>Cursors round trip\<close>

lemma json_parse_cursor:
  assumes "is_double (Fin q)" "ck_t key = Fin q"
  shows "JSON_parse (json_stringify (cursor_payload key)) = Some (cursor_payload key)"
proof -
  have "is_double (Fin 1)" using is_double_int [of 1] by (simp only: of_int_1) simp
  then show ?thesis using assms by (intro json_roundtrip) (simp add: cursor_payload_def)
qed

lemma cursor_decodes:
  assumes "is_double (ck_t key)" "num_isFinite (ck_t key)" "ck_i key \<noteq> []"
  shows "\<exists>c. encodeCursor key = Inr c \<and> c \<noteq> [] \<and> (\<forall>strict. decodeCursor (Some c) strict = Inr (Some key))"
proof -
  obtain q where q: "ck_t key = Fin q" using assms(2) by (auto simp: num_isFinite_iff)
  let ?s = "json_stringify (cursor_payload key)" and ?c = "b64url_encode (json_stringify (cursor_payload key))"
  have p: "JSON_parse ?s = Some (cursor_payload key)" using json_parse_cursor q assms(1) by simp
  have s: "?s \<noteq> [] \<and> hd ?s = CHR ''{''" by (simp add: cursor_payload_def)
  then have c: "?c \<noteq> []" by (cases "map of_char ?s :: nat list" rule: sextets.cases) (auto simp: b64url_encode_def)
  have "decode_versioned ?s = Inr key"
    using assms q by (simp add: decode_versioned_def p) (simp add: cursor_payload_def)
  then have "decodeCursor (Some ?c) strict = Inr (Some key)" for strict using s c by (simp add: decodeCursor_def)
  moreover have "encodeCursor key = Inr ?c" using assms by (simp add: encodeCursor_def)
  ultimately show ?thesis using c by blast
qed

text \<open>
  A minted cursor is faithful: a key with a finite timestamp and a non-empty identifier encodes to a non-empty cursor, and decoding
  that cursor, strictly or not, gives the key back.
\<close>

theorem cursor_roundtrip:
  assumes "is_double (ck_t key)" "num_isFinite (ck_t key)" "ck_i key \<noteq> []"
  shows "\<exists>c. encodeCursor key = Inr c \<and> c \<noteq> [] \<and> decodeCursor (Some c) strict = Inr (Some key)"
  using cursor_decodes [OF assms] by blast

definition exampleKey :: CursorKey where
  "exampleKey = \<lparr>ck_t = Fin 1700000000000, ck_i = ''line-1''\<rparr>"

theorem cursor_roundtrip_witness:
  "\<exists>c. encodeCursor exampleKey = Inr c \<and> c \<noteq> [] \<and> decodeCursor (Some c) True = Inr (Some exampleKey)"
  by (rule cursor_roundtrip) (use is_double_int [of 1700000000000] in \<open>simp_all add: exampleKey_def\<close>)

section \<open>The order of keys\<close>

text \<open>A valid key: the time value of a \<open>Date\<close> (an integer, at most \<open>8.64e15\<close> in magnitude) and a non-empty identifier.\<close>

definition key_ok :: "CursorKey \<Rightarrow> bool" where
  "key_ok k \<longleftrightarrow> (\<exists>j. ck_t k = num_of_int j \<and> \<bar>j\<bar> \<le> 8640000000000000) \<and> ck_i k \<noteq> []"

definition key_time :: "CursorKey \<Rightarrow> int" where
  "key_time k = num_trunc (ck_t k)"

definition key_order :: "(string \<Rightarrow> string \<Rightarrow> int) \<Rightarrow> CursorSortOrder \<Rightarrow> CursorKey \<Rightarrow> CursorKey \<Rightarrow> int" where
  "key_order lc order = by_key_then (\<lambda>k. if order = Asc then key_time k else - key_time k) ck_i lc"

lemma num_trunc_int [simp]: "num_trunc (num_of_int i) = i"
proof -
  have "\<lfloor>- (of_int i :: rat)\<rfloor> = - i" using floor_of_int [where 'a = rat, of "- i"] by simp
  then show ?thesis by simp
qed

lemma key_ok_time: "key_ok k \<Longrightarrow> ck_t k = num_of_int (key_time k) \<and> \<bar>key_time k\<bar> \<le> 8640000000000000"
  by (auto simp: key_ok_def key_time_def simp del: num_trunc.simps)

lemma key_ok_double: "key_ok k \<Longrightarrow> is_double (ck_t k) \<and> num_isFinite (ck_t k) \<and> ck_i k \<noteq> []"
  using key_ok_time [of k] is_double_int [of "key_time k"] by (auto simp: key_ok_def)

lemma num_cmp_sub_int: "num_cmp (num_sub (num_of_int i) (num_of_int j)) = sgn (i - j)"
proof -
  have pos: "\<exists>x \<ge> 1. dround (of_int k) = Fin x \<or> dround (of_int k) = PosInf" if "0 < k" for k
  proof -
    have "1 \<le> k" using that by simp
    then have "num_le (dround 1) (dround (of_int k))" by (intro dround_mono iffD2 [OF of_int_1_le_iff]) simp_all
    then show ?thesis using dround_nonneg [of "of_int k"] that by (force simp: num_le_def)
  qed
  consider "i = j" | "0 < i - j" | "0 < j - i" by linarith
  then show ?thesis
  proof cases
    case 2
    then show ?thesis using pos [OF 2] by (auto simp: num_cmp_def simp flip: of_int_diff)
  next
    case 3
    have "dround (of_int (i - j)) = num_neg (dround (of_int (j - i)))" using dround_uminus [of "of_int (j - i)"] by simp
    then show ?thesis using 3 pos [OF 3] by (auto simp: num_cmp_def simp flip: of_int_diff)
  qed (simp add: num_cmp_def)
qed

lemma key_compare:
  assumes "key_ok a" "key_ok b"
  shows "sgn (if order = Asc then compareCursorKeysAsc lc a b else compareCursorKeysDesc lc a b) = sgn (key_order lc order a b)"
    and "isAfterCursor lc a b order \<longleftrightarrow> key_order lc order a b > 0"
    and "num_eq (ck_t a) (ck_t b) \<and> ck_i a = ck_i b \<longleftrightarrow> a = b"
proof -
  have a: "ck_t a = num_of_int (key_time a)" and b: "ck_t b = num_of_int (key_time b)" using key_ok_time assms by blast+
  have ne: "num_eq (ck_t a) (ck_t b) \<longleftrightarrow> key_time a = key_time b" by (simp add: a b num_eq_def)
  show 1: "sgn (if order = Asc then compareCursorKeysAsc lc a b else compareCursorKeysDesc lc a b) = sgn (key_order lc order a b)"
    unfolding compareCursorKeysAsc_def compareCursorKeysDesc_def ne unfolding a b num_cmp_sub_int by (simp add: key_order_def by_key_then_def)
  show "isAfterCursor lc a b order \<longleftrightarrow> key_order lc order a b > 0"
  proof (cases order)
    case Asc
    then show ?thesis using 1 by (simp add: isAfterCursor_def) (metis sgn_greater)
  next
    case Desc
    then show ?thesis unfolding isAfterCursor_def ne by (simp add: a b key_order_def by_key_then_def)
  qed
  show "num_eq (ck_t a) (ck_t b) \<and> ck_i a = ck_i b \<longleftrightarrow> a = b" unfolding ne using a b by (auto intro: CursorKey.equality)
qed

lemma comparator_key_order: "comparator lc \<Longrightarrow> comparator (\<lambda>a b. key_order lc order (f a) (f b))"
  using comparator_by_key_then [of lc "\<lambda>x. if order = Asc then key_time (f x) else - key_time (f x)" "\<lambda>x. ck_i (f x)"]
  by (simp add: key_order_def by_key_then_def [abs_def])

lemma cmp_insert_cong: "(\<And>y. y \<in> set ys \<Longrightarrow> cmp x y \<le> 0 \<longleftrightarrow> cmp' x y \<le> 0) \<Longrightarrow> cmp_insert cmp x ys = cmp_insert cmp' x ys"
  by (induction ys) auto

lemma js_sort_cong: "(\<And>x y. x \<in> set xs \<Longrightarrow> y \<in> set xs \<Longrightarrow> cmp x y \<le> 0 \<longleftrightarrow> cmp' x y \<le> 0) \<Longrightarrow> js_sort cmp xs = js_sort cmp' xs"
  by (induction xs) (auto intro!: cmp_insert_cong)

lemma sorted_strict:
  fixes c :: "'a \<Rightarrow> 'a \<Rightarrow> int"
  shows "sorted_wrt (\<lambda>a b. c a b \<le> 0) xs \<Longrightarrow> distinct (map f xs) \<Longrightarrow>
     (\<And>a b. a \<in> set xs \<Longrightarrow> b \<in> set xs \<Longrightarrow> c a b = 0 \<Longrightarrow> f a = f b) \<Longrightarrow> sorted_wrt (\<lambda>a b. c a b < 0) xs"
proof (induction xs)
  case (Cons x xs)
  have "c x y < 0" if "y \<in> set xs" for y
  proof -
    have "c x y \<le> 0" "f x \<noteq> f y" using Cons.prems(1,2) that by auto
    moreover have "c x y \<noteq> 0" using Cons.prems(3) [of x y] that \<open>f x \<noteq> f y\<close> by auto
    ultimately show ?thesis by linarith
  qed
  then show ?case using Cons by simp
qed simp

text \<open>Rows with valid, pairwise different keys are sorted strictly.\<close>

lemma sort_items_strict:
  assumes lc: "comparator lc" "\<And>x y. lc x y = 0 \<Longrightarrow> x = y"
    and ok: "\<forall>x \<in> set items. key_ok (getKey x)" and d: "distinct (map getKey items)"
  shows "sorted_wrt (\<lambda>a b. key_order lc order (getKey a) (getKey b) < 0) (sort_items lc getKey order items)"
proof -
  let ?c = "\<lambda>a b. key_order lc order (getKey a) (getKey b)"
  have s: "sort_items lc getKey order items = js_sort ?c items"
    unfolding sort_items_def
  proof (rule js_sort_cong)
    fix x y assume "x \<in> set items" "y \<in> set items"
    then have "sgn (if order = Asc then compareCursorKeysAsc lc (getKey x) (getKey y) else compareCursorKeysDesc lc (getKey x) (getKey y)) =
        sgn (?c x y)" using ok by (intro key_compare(1)) blast+
    then show "(if order = Asc then compareCursorKeysAsc lc (getKey x) (getKey y) else compareCursorKeysDesc lc (getKey x) (getKey y)) \<le> 0
      \<longleftrightarrow> ?c x y \<le> 0" by (simp add: sgn_if split: if_splits)
  qed
  have le: "sorted_wrt (\<lambda>a b. ?c a b \<le> 0) (js_sort ?c items)" by (rule comparator.sorted_js_sort [OF comparator_key_order [OF lc(1)]])
  have ds: "distinct (map getKey (js_sort ?c items))" using d by (metis mset_eq_imp_distinct_iff mset_js_sort mset_map)
  have z: "?c a b = 0 \<Longrightarrow> getKey a = getKey b" if "a \<in> set items" "b \<in> set items" for a b
  proof -
    assume "?c a b = 0"
    then have "key_time (getKey a) = key_time (getKey b)" "lc (ck_i (getKey a)) (ck_i (getKey b)) = 0"
      by (simp_all add: key_order_def by_key_then_def split: if_splits)
    moreover have "key_ok (getKey a)" "key_ok (getKey b)" using ok that by blast+
    ultimately show "getKey a = getKey b" using lc(2) key_ok_time by (metis CursorKey.equality old.unit.exhaust)
  qed
  have "sorted_wrt (\<lambda>a b. ?c a b < 0) (js_sort ?c items)" by (rule sorted_strict [OF le ds]) (rule z, simp_all only: set_js_sort)
  then show ?thesis unfolding s .
qed

section \<open>Pages\<close>

lemma js_findIndex_found: "p x \<Longrightarrow> (\<And>y. y \<in> set pre \<Longrightarrow> \<not> p y) \<Longrightarrow> js_findIndex p (pre @ x # post) = int (length pre)"
  by (simp add: js_findIndex_def)

lemma js_findIndex_none: "(\<And>y. y \<in> set xs \<Longrightarrow> \<not> p y) \<Longrightarrow> js_findIndex p xs = - 1"
  by (simp add: js_findIndex_def takeWhile_eq_all_conv [THEN iffD2])

lemma dropWhile_filter:
  "sorted_wrt R xs \<Longrightarrow> (\<And>x y. R x y \<Longrightarrow> P x \<Longrightarrow> P y) \<Longrightarrow> dropWhile (\<lambda>x. \<not> P x) xs = filter P xs"
proof (induction xs)
  case (Cons x xs)
  have "P x \<Longrightarrow> filter P xs = xs" using Cons.prems by (intro filter_True) auto
  then show ?case using Cons by auto
qed simp

text \<open>The rows a cursor leaves to be served: those after its key, whether or not the row it was minted from still exists.\<close>

lemma page_start_after:
  assumes lc: "comparator lc"
    and sorted: "sorted_wrt (\<lambda>a b. key_order lc order (getKey a) (getKey b) < 0) rows"
    and ok: "\<forall>x \<in> set rows. key_ok (getKey x)" "key_ok d"
  obtains n where "page_start lc rows getKey order (Some d) = int n" "n \<le> length rows"
    and "drop n rows = filter (\<lambda>x. isAfterCursor lc (getKey x) d order) rows"
proof -
  note K = comparator_key_order [OF lc, of order "\<lambda>k. k"]
  let ?P = "\<lambda>x. isAfterCursor lc (getKey x) d order"
  have after: "?P x \<longleftrightarrow> key_order lc order (getKey x) d > 0" if "x \<in> set rows" for x using key_compare(2) ok that by blast
  have eq: "num_eq (ck_t (getKey x)) (ck_t d) \<and> ck_i (getKey x) = ck_i d \<longleftrightarrow> getKey x = d" if "x \<in> set rows" for x
    using key_compare(3) ok that by blast
  show thesis
  proof (cases "\<exists>x \<in> set rows. getKey x = d")
    case True
    then obtain pre x post where rows: "rows = pre @ x # post" and x: "getKey x = d" by (meson split_list)
    have pre: "key_order lc order (getKey y) d < 0" if "y \<in> set pre" for y using sorted that by (auto simp: rows x sorted_wrt_append)
    have post: "key_order lc order (getKey y) d > 0" if "y \<in> set post" for y
      using sorted that comparator.cmp_flip [OF K] by (auto simp: rows x sorted_wrt_append)
    have self: "key_order lc order d d = 0" by (rule comparator.cmp_refl [OF K])
    have "js_findIndex (\<lambda>item. num_eq (ck_t (getKey item)) (ck_t d) \<and> ck_i (getKey item) = ck_i d) rows = int (length pre)"
      unfolding rows
    proof (rule js_findIndex_found)
      show "num_eq (ck_t (getKey x)) (ck_t d) \<and> ck_i (getKey x) = ck_i d" using eq [of x] x by (simp add: rows)
      fix y assume y: "y \<in> set pre"
      then have "getKey y \<noteq> d" using pre self by force
      then show "\<not> (num_eq (ck_t (getKey y)) (ck_t d) \<and> ck_i (getKey y) = ck_i d)" using eq [of y] y by (simp add: rows)
    qed
    then have "page_start lc rows getKey order (Some d) = int (Suc (length pre))" by (simp add: page_start_def)
    moreover have "filter ?P pre = []" using pre after by (force simp: rows filter_empty_conv)
    moreover have "filter ?P post = post" using post after by (intro filter_True) (auto simp: rows)
    moreover have "\<not> ?P x" using after [of x] self by (simp add: rows x)
    ultimately show thesis by (intro that [of "Suc (length pre)"]) (simp_all add: rows)
  next
    case False
    have "js_findIndex (\<lambda>item. num_eq (ck_t (getKey item)) (ck_t d) \<and> ck_i (getKey item) = ck_i d) rows = - 1"
      by (rule js_findIndex_none) (use eq False in blast)
    then have ps: "page_start lc rows getKey order (Some d) = (let i = js_findIndex ?P rows in if i < 0 then int (length rows) else i)"
      by (simp add: page_start_def)
    let ?n = "length (takeWhile (\<lambda>x. \<not> ?P x) rows)"
    have "dropWhile (\<lambda>x. \<not> 0 < key_order lc order (getKey x) d) rows = filter (\<lambda>x. 0 < key_order lc order (getKey x) d) rows"
    proof (rule dropWhile_filter [OF sorted])
      fix x y assume "key_order lc order (getKey x) (getKey y) < 0" "0 < key_order lc order (getKey x) d"
      then show "0 < key_order lc order (getKey y) d" using comparator.cmp_trans [OF K, of "getKey x" "getKey y" d] by linarith
    qed
    moreover have "dropWhile (\<lambda>x. \<not> 0 < key_order lc order (getKey x) d) rows = dropWhile (\<lambda>x. \<not> ?P x) rows"
      using after by (intro dropWhile_cong) auto
    moreover have "filter (\<lambda>x. 0 < key_order lc order (getKey x) d) rows = filter ?P rows" using after by (intro filter_cong) auto
    ultimately have "drop ?n rows = filter ?P rows" by (simp add: dropWhile_eq_drop)
    moreover have "page_start lc rows getKey order (Some d) = int ?n"
      using length_takeWhile_le [of "\<lambda>x. \<not> ?P x" rows] by (auto simp: ps js_findIndex_def Let_def)
    ultimately show thesis using that length_takeWhile_le by blast
  qed
qed

lemma clampLimit_int: "1 \<le> L \<Longrightarrow> L \<le> 100 \<Longrightarrow> clampLimit (Some (num_of_int L)) dl = Inr (num_of_int L)"
  using of_int_less_1_iff [where 'a = rat, of L] of_int_le_numeral_iff [where 'a = rat, of L "num.Bit0 (num.Bit0 (num.Bit1 (num.Bit0 (num.Bit0 (num.Bit1 num.One)))))"]
  by (auto simp: clampLimit_def MIN_PAGE_SIZE_def MAX_PAGE_SIZE_def num_gt_def)

lemma page_window:
  assumes "n \<le> length rows" "length rows < 2 ^ 52" "1 \<le> L" "L \<le> 100"
  shows "js_slice rows (int n) (num_trunc (num_add (num_add (num_of_int (int n)) (num_of_int L)) (Fin 1))) = take (Suc (nat L)) (drop n rows)"
proof -
  have "(2::nat) ^ 53 = 2 ^ 52 + 2 ^ 52" "(1000::nat) < 2 ^ 52" by simp_all
  then have "n + nat L + 1 < 2 ^ 53" using assms by linarith
  then have "int (n + nat L + 1) < int (2 ^ 53)" by (simp only: of_nat_less_iff)
  then have b: "\<bar>int n + L\<bar> < 2 ^ 53" "\<bar>int n + L + 1\<bar> < 2 ^ 53" using assms(3) by simp_all
  have "num_add (num_of_int (int n)) (num_of_int L) = num_of_int (int n + L)" using dround_int [OF b(1)] by simp
  moreover have "num_add (num_of_int (int n + L)) (Fin 1) = num_of_int (int n + L + 1)" using dround_int [OF b(2)] by simp
  ultimately have "num_trunc (num_add (num_add (num_of_int (int n)) (num_of_int L)) (Fin 1)) = int n + (L + 1)"
    by (simp only: num_trunc_int)
  moreover have "nat (L + 1) = Suc (nat L)" using assms(3) by simp
  ultimately show ?thesis using js_slice_nat [of "int n" "L + 1" rows] assms(3) by simp
qed

lemma build_page:
  assumes "1 \<le> L" "\<forall>x \<in> set rest. key_ok (getKey x)"
  obtains c where "buildPageFromOverfetch (take (Suc (nat L)) rest) (num_of_int L) getKey =
      Inr \<lparr>cp_items = take (nat L) rest, cp_nextCursor = c, cp_hasMore = nat L < length rest, cp_limit = num_of_int L\<rparr>"
    and "nat L < length rest \<Longrightarrow> \<exists>t. c = Some t \<and> t \<noteq> [] \<and> (\<forall>strict. decodeCursor (Some t) strict = Inr (Some (getKey (rest ! (nat L - 1)))))"
    and "\<not> nat L < length rest \<Longrightarrow> c = None"
proof (cases "nat L < length rest")
  case True
  have len: "length (take (Suc (nat L)) rest) = Suc (nat L)" using True by simp
  have more: "num_gt (num_of_int (int (length (take (Suc (nat L)) rest)))) (num_of_int L)" using assms(1) unfolding len by simp
  have items: "js_slice (take (Suc (nat L)) rest) 0 (num_trunc (num_of_int L)) = take (nat L) rest"
    using js_slice_nat [of 0 L "take (Suc (nat L)) rest"] assms(1) by (simp only: num_trunc_int) (simp add: min_def)
  have ne: "take (nat L) rest \<noteq> []" using True assms(1) by auto
  have lst: "last (take (nat L) rest) = rest ! (nat L - 1)" using True assms(1) by (subst last_conv_nth [OF ne]) simp
  have "key_ok (getKey (rest ! (nat L - 1)))" using assms(2) True by (simp add: less_imp_diff_less)
  note ok = key_ok_double [OF this]
  obtain t where t: "encodeCursor (getKey (rest ! (nat L - 1))) = Inr t" "t \<noteq> []"
    "\<forall>strict. decodeCursor (Some t) strict = Inr (Some (getKey (rest ! (nat L - 1))))" using cursor_decodes ok by blast
  show thesis
    by (rule that [of "Some t"]) (use True more items ne lst t in \<open>simp_all add: buildPageFromOverfetch_def Let_def\<close>)
next
  case False
  then have len: "take (Suc (nat L)) rest = rest" "take (nat L) rest = rest" by simp_all
  have "int (length rest) \<le> L" using False assms(1) by linarith
  then have "\<not> num_gt (num_of_int (int (length rest))) (num_of_int L)" by (simp only: num_gt_Fin of_int_less_iff)
  then show thesis by (intro that [of None]) (use False in \<open>simp_all add: buildPageFromOverfetch_def Let_def len\<close>)
qed

text \<open>The hypotheses the pagination theorems share: \<open>localeCompare\<close> is a consistent comparator that separates different identifiers, the
  rows have valid and pairwise different keys, and the limit is within bounds.\<close>

definition pageable :: "(string \<Rightarrow> string \<Rightarrow> int) \<Rightarrow> ('a \<Rightarrow> CursorKey) \<Rightarrow> 'a list \<Rightarrow> int \<Rightarrow> bool" where
  "pageable lc getKey items L \<longleftrightarrow> comparator lc \<and> (\<forall>x y. lc x y = 0 \<longrightarrow> x = y) \<and> (\<forall>x \<in> set items. key_ok (getKey x)) \<and>
     distinct (map getKey items) \<and> length items < 2 ^ 52 \<and> 1 \<le> L \<and> L \<le> 100"

lemma set_sort_items [simp]: "set (sort_items lc getKey order items) = set items" "length (sort_items lc getKey order items) = length items"
  by (simp_all add: sort_items_def)

lemma pageable_sorted:
  "pageable lc getKey items L \<Longrightarrow>
     sorted_wrt (\<lambda>a b. key_order lc order (getKey a) (getKey b) < 0) (sort_items lc getKey order items)"
  by (rule sort_items_strict) (auto simp: pageable_def)

lemma page_from_suffix:
  assumes "pageable lc getKey items L" "decodeCursor cursor strict = Inr decoded"
    and "page_start lc (sort_items lc getKey order items) getKey order decoded = int n" "n \<le> length items"
  shows "paginateArray lc items cursor (Some (num_of_int L)) getKey order strict dl =
     buildPageFromOverfetch (take (Suc (nat L)) (drop n (sort_items lc getKey order items))) (num_of_int L) getKey"
proof -
  have "1 \<le> L" "L \<le> 100" "length items < 2 ^ 52" using assms(1) by (simp_all add: pageable_def)
  then show ?thesis
    unfolding paginateArray_def clampLimit_int [OF \<open>1 \<le> L\<close> \<open>L \<le> 100\<close>] sum.case Let_def assms(2,3)
    by (subst page_window) (use assms(4) in simp_all)
qed

fun follow_cursors :: "nat \<Rightarrow> (string option \<Rightarrow> js_error + 'a CursorPage) \<Rightarrow> string option \<Rightarrow> 'a list list option" where
  "follow_cursors 0 fetch cursor = None"
| "follow_cursors (Suc n) fetch cursor =
     (case fetch cursor of
        Inl _ \<Rightarrow> None
      | Inr page \<Rightarrow>
          (case cp_nextCursor page of
             None \<Rightarrow> Some [cp_items page]
           | Some c \<Rightarrow> map_option ((#) (cp_items page)) (follow_cursors n fetch (Some c))))"

lemma next_suffix:
  assumes "pageable lc getKey items L" "n + nat L < length items"
  shows "page_start lc (sort_items lc getKey order items) getKey order (Some (getKey (drop n (sort_items lc getKey order items) ! (nat L - 1)))) =
     int (n + nat L)"
proof -
  let ?rows = "sort_items lc getKey order items" and ?m = "n + (nat L - 1)"
  have L: "1 \<le> nat L" and lc: "comparator lc" using assms(1) by (auto simp: pageable_def)
  have m: "?m < length ?rows" "n + nat L = Suc ?m" using assms(2) L by simp_all
  let ?x = "?rows ! ?m"
  have rows: "?rows = take ?m ?rows @ ?x # drop (Suc ?m) ?rows" using m(1) by (rule id_take_nth_drop)
  have ok: "key_ok (getKey y)" if "y \<in> set items" for y using assms(1) that by (simp add: pageable_def)
  have mem: "?x \<in> set items" using m(1) by (metis nth_mem set_sort_items(1))
  note K = comparator_key_order [OF lc, of order "\<lambda>k. k"]
  have "js_findIndex (\<lambda>item. num_eq (ck_t (getKey item)) (ck_t (getKey ?x)) \<and> ck_i (getKey item) = ck_i (getKey ?x))
      (take ?m ?rows @ ?x # drop (Suc ?m) ?rows) = int (length (take ?m ?rows))"
  proof (rule js_findIndex_found)
    show "num_eq (ck_t (getKey ?x)) (ck_t (getKey ?x)) \<and> ck_i (getKey ?x) = ck_i (getKey ?x)" using key_compare(3) ok mem by blast
    fix y assume y: "y \<in> set (take ?m ?rows)"
    have s: "sorted_wrt (\<lambda>a b. key_order lc order (getKey a) (getKey b) < 0) (take ?m ?rows @ ?x # drop (Suc ?m) ?rows)"
      using pageable_sorted [OF assms(1), of order] rows by metis
    have "key_order lc order (getKey y) (getKey ?x) < 0" using s y by (simp add: sorted_wrt_append)
    then have "getKey y \<noteq> getKey ?x" using comparator.cmp_refl [OF K] by (metis less_irrefl)
    moreover have "y \<in> set items" using y by (metis in_set_takeD set_sort_items(1))
    ultimately show "\<not> (num_eq (ck_t (getKey y)) (ck_t (getKey ?x)) \<and> ck_i (getKey y) = ck_i (getKey ?x))" using key_compare(3) ok mem by blast
  qed
  then have "js_findIndex (\<lambda>item. num_eq (ck_t (getKey item)) (ck_t (getKey ?x)) \<and> ck_i (getKey item) = ck_i (getKey ?x)) ?rows = int ?m"
    using m(1) by (simp only: rows [symmetric]) simp
  moreover have "drop n ?rows ! (nat L - 1) = ?x" using m(1) by simp
  ultimately show ?thesis by (simp add: page_start_def m(2))
qed

lemma follow_from_suffix:
  assumes "pageable lc getKey items L"
  shows "decodeCursor cursor strict = Inr decoded \<Longrightarrow> n \<le> length items \<Longrightarrow> length items - n \<le> fuel \<Longrightarrow>
     page_start lc (sort_items lc getKey order items) getKey order decoded = int n \<Longrightarrow>
     \<exists>pages. follow_cursors (Suc fuel) (\<lambda>c. paginateArray lc items c (Some (num_of_int L)) getKey order strict dl) cursor = Some pages \<and>
       concat pages = drop n (sort_items lc getKey order items) \<and> (\<forall>p \<in> set pages. length p \<le> nat L)"
proof (induction fuel arbitrary: cursor decoded n)
  case (0 cursor decoded n)
  then have n: "n = length items" by simp
  have L: "1 \<le> L" using assms by (simp add: pageable_def)
  show ?case unfolding follow_cursors.simps page_from_suffix [OF assms 0(1,4,2)]
    using L by (simp add: n buildPageFromOverfetch_def num_gt_def)
next
  case (Suc fuel)
  let ?rows = "sort_items lc getKey order items" and ?fetch = "\<lambda>c. paginateArray lc items c (Some (num_of_int L)) getKey order strict dl"
  let ?rest = "drop n ?rows"
  have L: "1 \<le> L" using assms by (simp add: pageable_def)
  have ok: "\<forall>x \<in> set ?rest. key_ok (getKey x)" using assms by (auto simp: pageable_def dest: in_set_dropD)
  obtain c where c: "?fetch cursor = Inr \<lparr>cp_items = take (nat L) ?rest, cp_nextCursor = c, cp_hasMore = nat L < length ?rest, cp_limit = num_of_int L\<rparr>"
    and some: "nat L < length ?rest \<Longrightarrow> \<exists>t. c = Some t \<and> t \<noteq> [] \<and> (\<forall>strict. decodeCursor (Some t) strict = Inr (Some (getKey (?rest ! (nat L - 1)))))"
    and none: "\<not> nat L < length ?rest \<Longrightarrow> c = None"
    using build_page [OF L ok] page_from_suffix [OF assms Suc.prems(1,4,2)] by metis
  show ?case
  proof (cases "nat L < length ?rest")
    case False
    then show ?thesis using c none by simp
  next
    case True
    then obtain t where t: "c = Some t" "decodeCursor (Some t) strict = Inr (Some (getKey (?rest ! (nat L - 1))))" using some by blast
    have lt: "n + nat L < length items" using True by simp
    have f: "n + nat L \<le> length items" "length items - (n + nat L) \<le> fuel" using lt L Suc.prems(3) by linarith+
    obtain pages where pages: "follow_cursors (Suc fuel) ?fetch (Some t) = Some pages" "concat pages = drop (n + nat L) ?rows"
      "\<forall>p \<in> set pages. length p \<le> nat L"
      using Suc.IH [OF t(2) f next_suffix [OF assms lt]] by blast
    have "follow_cursors (Suc (Suc fuel)) ?fetch cursor = Some (take (nat L) ?rest # pages)"
      by (subst follow_cursors.simps(2)) (simp only: c t(1) sum.case CursorPage.simps option.case pages(1) option.map)
    moreover have "concat (take (nat L) ?rest # pages) = ?rest" using append_take_drop_id [of "nat L" ?rest] pages(2) by (simp add: add.commute)
    ultimately show ?thesis using pages(3) by auto
  qed
qed

text \<open>
  C31. Following the cursors visits every row exactly once: starting without a cursor and passing each \<open>nextCursor\<close> back, the walk ends
  after at most one request per row plus one, no page is longer than the limit, and the pages put together are the sorted collection.
\<close>

theorem cursor_walk_partition:
  assumes "pageable lc getKey items L"
  shows "\<exists>pages. follow_cursors (Suc (length items)) (\<lambda>c. paginateArray lc items c (Some (num_of_int L)) getKey order strict dl) None = Some pages \<and>
     concat pages = sort_items lc getKey order items \<and> (\<forall>p \<in> set pages. length p \<le> nat L)"
  using follow_from_suffix [OF assms, of None strict None 0 "length items" order dl] by (simp add: decodeCursor_def page_start_def)

lemma example_pageable: "pageable code_unit_compare (\<lambda>k. k) [exampleKey, exampleKey\<lparr>ck_i := ''line-0''\<rparr>] 1"
proof -
  have "comparator code_unit_compare" by unfold_locales
  then show ?thesis using code_unit_compare_eq by (auto simp: pageable_def key_ok_def exampleKey_def intro!: exI [of _ 1700000000000])
qed

theorem cursor_walk_partition_witness:
  "\<exists>pages. follow_cursors 3 (\<lambda>c. paginateArray code_unit_compare [exampleKey, exampleKey\<lparr>ck_i := ''line-0''\<rparr>] c (Some (num_of_int 1)) (\<lambda>k. k) Asc True None)
       None = Some pages \<and>
     concat pages = sort_items code_unit_compare (\<lambda>k. k) Asc [exampleKey, exampleKey\<lparr>ck_i := ''line-0''\<rparr>] \<and> list_all (\<lambda>p. length p \<le> 1) pages"
proof -
  have "Suc (length [exampleKey, exampleKey\<lparr>ck_i := ''line-0''\<rparr>]) = 3" "nat 1 = 1" by simp_all
  then show ?thesis using cursor_walk_partition [OF example_pageable, of Asc True None] by (simp only: list_all_iff)
qed

text \<open>
  A cursor stays good when rows come and go: for any collection with valid keys, the page at a cursor minted from the key \<open>d\<close> (of a row
  that may since have been deleted) holds the first rows of the sorted collection whose key is after \<open>d\<close>, and \<open>hasMore\<close> tells whether
  there are others.
\<close>

theorem cursor_page_resumes:
  assumes "pageable lc getKey items L" "key_ok d" "encodeCursor d = Inr c"
  shows "\<exists>page. paginateArray lc items (Some c) (Some (num_of_int L)) getKey order strict dl = Inr page \<and>
     cp_items page = take (nat L) (filter (\<lambda>x. isAfterCursor lc (getKey x) d order) (sort_items lc getKey order items)) \<and>
     (cp_hasMore page \<longleftrightarrow> nat L < length (filter (\<lambda>x. isAfterCursor lc (getKey x) d order) (sort_items lc getKey order items)))"
proof -
  let ?rows = "sort_items lc getKey order items"
  have dec: "decodeCursor (Some c) strict = Inr (Some d)" using cursor_decodes key_ok_double [OF assms(2)] assms(3) by (metis sum.inject(2))
  have p: "comparator lc" "\<forall>x \<in> set ?rows. key_ok (getKey x)" "1 \<le> L" using assms(1) by (simp_all add: pageable_def)
  obtain n where n: "page_start lc ?rows getKey order (Some d) = int n" "n \<le> length ?rows"
    "drop n ?rows = filter (\<lambda>x. isAfterCursor lc (getKey x) d order) ?rows"
    by (rule page_start_after [OF p(1) pageable_sorted [OF assms(1)] p(2) assms(2)])
  have ok: "\<forall>x \<in> set (drop n ?rows). key_ok (getKey x)" using p(2) by (meson in_set_dropD)
  have "n \<le> length items" using n(2) by simp
  from page_from_suffix [OF assms(1) dec n(1) this, of dl] build_page [OF p(3) ok] show ?thesis
    by (metis CursorPage.select_convs(1,3) n(3))
qed

theorem cursor_page_resumes_witness:
  "\<exists>page. paginateArray code_unit_compare [exampleKey, exampleKey\<lparr>ck_i := ''line-0''\<rparr>]
       (case encodeCursor (exampleKey\<lparr>ck_i := ''gone''\<rparr>) of Inr c \<Rightarrow> Some c | Inl _ \<Rightarrow> None) (Some (num_of_int 1)) (\<lambda>k. k) Asc True None = Inr page \<and>
     cp_items page = take (nat 1) (filter (\<lambda>x. isAfterCursor code_unit_compare x (exampleKey\<lparr>ck_i := ''gone''\<rparr>) Asc)
       (sort_items code_unit_compare (\<lambda>k. k) Asc [exampleKey, exampleKey\<lparr>ck_i := ''line-0''\<rparr>]))"
proof -
  have ok: "key_ok (exampleKey\<lparr>ck_i := ''gone''\<rparr>)" by (auto simp: key_ok_def exampleKey_def intro!: exI [of _ 1700000000000])
  then obtain c where c: "encodeCursor (exampleKey\<lparr>ck_i := ''gone''\<rparr>) = Inr c" using cursor_decodes key_ok_double by blast
  show ?thesis using cursor_page_resumes [OF example_pageable ok c, of Asc True None] unfolding c by auto
qed

end
