(* ===== verification/CreditService.thy ===== *)
theory CreditService
  imports CursorPagination
begin

text \<open>
  The functional credit-line module (\<open>src/services/creditService.ts\<close>) and the array it draws from
  (\<open>src/models/creditLineStore.ts\<close>): draws against a numeric limit, the active/suspended/closed status machine with
  its event list and its \<open>STATUS_CHANGE\<close> transactions, and the transaction listings. The two module-level maps are the
  record \<open>credit_store\<close>. Time stamps are instants; \<open>dateTime\<close> stands for \<open>new Date(s).getTime()\<close> on a client's text.
\<close>

section \<open>Draws from the stored array\<close>

datatype StoredCreditLineStatus = StActive | StClosed | StSuspended

record StoredCreditLine =
  sl_id :: string
  sl_borrowerId :: string
  sl_limit :: number
  sl_utilized :: number
  sl_status :: StoredCreditLineStatus

definition creditLines :: "StoredCreditLine list" where
  "creditLines = [\<lparr>sl_id = ''line-1'', sl_borrowerId = ''user-1'', sl_limit = Fin 1000, sl_utilized = Fin 0, sl_status = StActive\<rparr>]"

record DrawRequest =
  dr_id :: string
  dr_borrowerId :: string
  dr_amount :: number

fun normalizeStoredCreditLineStatus :: "StoredCreditLineStatus \<Rightarrow> string" where
  "normalizeStoredCreditLineStatus StActive = ''active''"
| "normalizeStoredCreditLineStatus StSuspended = ''suspended''"
| "normalizeStoredCreditLineStatus StClosed = ''closed''"

fun replace_first :: "('a \<Rightarrow> bool) \<Rightarrow> 'a \<Rightarrow> 'a list \<Rightarrow> 'a list" where
  "replace_first p v [] = []"
| "replace_first p v (x # xs) = (if p x then v # xs else x # replace_first p v xs)"

definition drawFromCreditLine :: "DrawRequest \<Rightarrow> (StoredCreditLine list, StoredCreditLine) comp" where
  "drawFromCreditLine req ls =
     (case List.find (\<lambda>l. sl_id l = dr_id req) ls of
        None \<Rightarrow> (Inl (CreditLineNotFoundError (dr_id req)), ls)
      | Some line \<Rightarrow>
          if sl_status line \<noteq> StActive
            then (Inl (InvalidTransitionError (normalizeStoredCreditLineStatus (sl_status line)) ''draw''), ls)
          else if sl_borrowerId line \<noteq> dr_borrowerId req
            then (Inl (Error (''Borrower \"'' @ dr_borrowerId req @ ''\" is not authorized to draw from credit line \"'' @ dr_id req @ ''\".'')), ls)
          else if num_le (dr_amount req) (Fin 0)
            then (Inl (Error (''Draw amount must be greater than zero. Received '' @ num_toString (dr_amount req) @ ''.'')), ls)
          else
            let availableCredit = num_sub (sl_limit line) (sl_utilized line)
            in if num_gt (dr_amount req) availableCredit
               then (Inl (Error (''Requested draw amount of '' @ num_toString (dr_amount req) @ '' exceeds available credit of '' @
                       num_toString availableCredit @ '' for credit line \"'' @ dr_id req @ ''\".'')), ls)
               else let line' = line\<lparr>sl_utilized := num_add (sl_utilized line) (dr_amount req)\<rparr>
                    in (Inr line', replace_first (\<lambda>l. sl_id l = dr_id req) line' ls))"

section \<open>The status machine\<close>

datatype LineStatus = LActive | LSuspended | LClosed

fun status_text :: "LineStatus \<Rightarrow> string" where
  "status_text LActive = ''active''"
| "status_text LSuspended = ''suspended''"
| "status_text LClosed = ''closed''"

datatype line_action = ActCreated | ActSuspended | ActClosed

record CreditLineEvent =
  ev_action :: line_action
  ev_timestamp :: time

record StatusLine =
  ln_id :: string
  ln_status :: LineStatus
  ln_createdAt :: time
  ln_updatedAt :: time
  ln_events :: "CreditLineEvent list"

text \<open>A transaction of this module; \<open>metadata\<close> is always \<open>{ action }\<close>.\<close>

record LineTransaction =
  lt_id :: string
  lt_creditLineId :: string
  lt_type :: TransactionType
  lt_amount :: "string option"
  lt_currency :: "string option"
  lt_timestamp :: time
  lt_metadata :: line_action

record credit_store =
  cs_store :: "(string, StatusLine) jsmap"
  cs_transactions :: "(string, LineTransaction list) jsmap"

definition resetStore :: credit_store where
  "resetStore = \<lparr>cs_store = jsmap_empty, cs_transactions = jsmap_empty\<rparr>"

definition recordTransaction :: "string \<Rightarrow> TransactionType \<Rightarrow> time \<Rightarrow> line_action \<Rightarrow> string \<Rightarrow> credit_store \<Rightarrow> credit_store" where
  "recordTransaction creditLineId ty timestamp metadata uuid s =
     (let tx = \<lparr>lt_id = uuid, lt_creditLineId = creditLineId, lt_type = ty, lt_amount = None, lt_currency = None,
            lt_timestamp = timestamp, lt_metadata = metadata\<rparr>;
          existing = (case jsmap_get (cs_transactions s) creditLineId of Some ts \<Rightarrow> ts | None \<Rightarrow> [])
      in s\<lparr>cs_transactions := jsmap_set creditLineId (existing @ [tx]) (cs_transactions s)\<rparr>)"

definition createCreditLine :: "string \<Rightarrow> LineStatus \<Rightarrow> string \<Rightarrow> time \<Rightarrow> credit_store \<Rightarrow> StatusLine \<times> credit_store" where
  "createCreditLine rowId status uuid ts s =
     (let line = \<lparr>ln_id = rowId, ln_status = status, ln_createdAt = ts, ln_updatedAt = ts,
            ln_events = [\<lparr>ev_action = ActCreated, ev_timestamp = ts\<rparr>]\<rparr>;
          s' = s\<lparr>cs_store := jsmap_set rowId line (cs_store s)\<rparr>
      in (line, recordTransaction rowId STATUS_CHANGE ts ActCreated uuid s'))"

definition getCreditLine :: "string \<Rightarrow> credit_store \<Rightarrow> StatusLine option" where
  "getCreditLine rowId s = jsmap_get (cs_store s) rowId"

definition listCreditLines :: "credit_store \<Rightarrow> StatusLine list" where
  "listCreditLines s = jsmap_values (cs_store s)"

definition moveLine :: "LineStatus \<Rightarrow> line_action \<Rightarrow> time \<Rightarrow> StatusLine \<Rightarrow> StatusLine" where
  "moveLine status act ts line =
     line\<lparr>ln_status := status, ln_updatedAt := ts, ln_events := ln_events line @ [\<lparr>ev_action = act, ev_timestamp = ts\<rparr>]\<rparr>"

definition suspendCreditLine :: "string \<Rightarrow> string \<Rightarrow> time \<Rightarrow> (credit_store, StatusLine) comp" where
  "suspendCreditLine rowId uuid ts s =
     (case jsmap_get (cs_store s) rowId of
        None \<Rightarrow> (Inl (CreditLineNotFoundError rowId), s)
      | Some line \<Rightarrow>
          if ln_status line \<noteq> LActive then (Inl (InvalidTransitionError (status_text (ln_status line)) ''suspend''), s)
          else let line' = moveLine LSuspended ActSuspended ts line
               in (Inr line', recordTransaction rowId STATUS_CHANGE ts ActSuspended uuid (s\<lparr>cs_store := jsmap_set rowId line' (cs_store s)\<rparr>)))"

definition closeCreditLine :: "string \<Rightarrow> string \<Rightarrow> time \<Rightarrow> (credit_store, StatusLine) comp" where
  "closeCreditLine rowId uuid ts s =
     (case jsmap_get (cs_store s) rowId of
        None \<Rightarrow> (Inl (CreditLineNotFoundError rowId), s)
      | Some line \<Rightarrow>
          if ln_status line = LClosed then (Inl (InvalidTransitionError (status_text (ln_status line)) ''close''), s)
          else let line' = moveLine LClosed ActClosed ts line
               in (Inr line', recordTransaction rowId STATUS_CHANGE ts ActClosed uuid (s\<lparr>cs_store := jsmap_set rowId line' (cs_store s)\<rparr>)))"

section \<open>Listings\<close>

record TransactionFilters =
  tf_type :: "TransactionType option"
  tf_from :: "string option"
  tf_to :: "string option"

definition filterTransactions :: "(string \<Rightarrow> number) \<Rightarrow> string \<Rightarrow> TransactionFilters \<Rightarrow> credit_store \<Rightarrow> js_error + LineTransaction list" where
  "filterTransactions dateTime rowId filters s =
     (if \<not> jsmap_has (cs_store s) rowId then Inl (CreditLineNotFoundError rowId)
      else let txs = (case jsmap_get (cs_transactions s) rowId of Some ts \<Rightarrow> ts | None \<Rightarrow> []);
               txs = (case tf_type filters of Some ty \<Rightarrow> filter (\<lambda>tx. lt_type tx = ty) txs | None \<Rightarrow> txs);
               txs = (case tf_from filters of Some f \<Rightarrow> filter (\<lambda>tx. num_ge (num_of_int (lt_timestamp tx)) (dateTime f)) txs | None \<Rightarrow> txs);
               txs = (case tf_to filters of Some t \<Rightarrow> filter (\<lambda>tx. num_le (num_of_int (lt_timestamp tx)) (dateTime t)) txs | None \<Rightarrow> txs)
           in Inr txs)"

record PaginatedTransactions =
  pt_transactions :: "LineTransaction list"
  pt_total :: nat
  pt_page :: number
  pt_limit :: number
  pt_totalPages :: number

definition getTransactions ::
  "(string \<Rightarrow> string \<Rightarrow> int) \<Rightarrow> (string \<Rightarrow> number) \<Rightarrow> string \<Rightarrow> TransactionFilters \<Rightarrow> number \<times> number \<Rightarrow> credit_store \<Rightarrow> js_error + PaginatedTransactions" where
  "getTransactions lc dateTime rowId filters pagination s =
     (case filterTransactions dateTime rowId filters s of
        Inl e \<Rightarrow> Inl e
      | Inr txs \<Rightarrow>
          let txs' = js_sort (\<lambda>a b. let ts = lt_timestamp b - lt_timestamp a in if ts \<noteq> 0 then ts else lc (lt_id a) (lt_id b)) txs;
              (page, limit) = pagination;
              totalPages = num_max (Fin 1) (num_ceil (num_div (num_of_int (int (length txs'))) limit));
              offset = num_mul (num_sub page (Fin 1)) limit
          in Inr \<lparr>pt_transactions = js_slice txs' (num_trunc offset) (num_trunc (num_add offset limit)),
                  pt_total = length txs', pt_page = page, pt_limit = limit, pt_totalPages = totalPages\<rparr>)"

definition getTransactionsWithCursor ::
  "(string \<Rightarrow> string \<Rightarrow> int) \<Rightarrow> (string \<Rightarrow> number) \<Rightarrow> string \<Rightarrow> TransactionFilters \<Rightarrow> string option \<Rightarrow> number option \<Rightarrow> credit_store \<Rightarrow>
     js_error + LineTransaction CursorPage" where
  "getTransactionsWithCursor lc dateTime rowId filters cursor limit s =
     (case filterTransactions dateTime rowId filters s of
        Inl e \<Rightarrow> Inl e
      | Inr txs \<Rightarrow> paginateArray lc txs cursor limit (\<lambda>tx. \<lparr>ck_t = num_of_int (lt_timestamp tx), ck_i = lt_id tx\<rparr>) Desc False (Some (Fin 20)))"

section \<open>Submission to the chain\<close>

text \<open>\<open>submit\<close> is the Soroban client's call, whose outcome is a transaction hash, nothing, or a rejection.\<close>

datatype submit_status = Submitted | PendingSubmission

record SubmitResult =
  sr_id :: string
  sr_walletAddress :: string
  sr_amount :: string
  sr_txHash :: "string option"
  sr_status :: submit_status

definition submitRequest ::
  "(string \<Rightarrow> string \<Rightarrow> string \<Rightarrow> js_error + string option) \<Rightarrow> string \<Rightarrow> string \<Rightarrow> string \<Rightarrow> js_error + SubmitResult" where
  "submitRequest submit rowId walletAddress amount =
     (case submit walletAddress rowId amount of
        Inl e \<Rightarrow> Inl e
      | Inr txHash \<Rightarrow> Inr \<lparr>sr_id = rowId, sr_walletAddress = walletAddress, sr_amount = amount, sr_txHash = txHash,
          sr_status = (if txHash \<noteq> None then Submitted else PendingSubmission)\<rparr>)"

definition noopSubmit :: "string \<Rightarrow> string \<Rightarrow> string \<Rightarrow> js_error + string option" where
  "noopSubmit walletAddress rowId amount = Inr None"

section \<open>Draws stay within the limit\<close>

text \<open>A stored line with whole amounts: \<open>0 \<le> utilized \<le> limit\<close>.\<close>

definition stored_ok :: "StoredCreditLine \<Rightarrow> bool" where
  "stored_ok l \<longleftrightarrow> (\<exists>L U. sl_limit l = num_of_int L \<and> sl_utilized l = num_of_int U \<and> 0 \<le> U \<and> U \<le> L \<and> L < 2 ^ 53)"

lemma set_replace_first: "set (replace_first p v xs) \<subseteq> insert v (set xs)"
  by (induction xs) auto

lemma stored_draw_ok:
  assumes "stored_ok l" "\<not> num_le (num_of_int a) (Fin 0)" "\<not> num_gt (num_of_int a) (num_sub (sl_limit l) (sl_utilized l))"
  shows "stored_ok (l\<lparr>sl_utilized := num_add (sl_utilized l) (num_of_int a)\<rparr>)"
proof -
  obtain L U where l: "sl_limit l = num_of_int L" "sl_utilized l = num_of_int U" and b: "0 \<le> U" "U \<le> L" "L < 2 ^ 53"
    using assms(1) by (auto simp: stored_ok_def)
  have "\<bar>L - U\<bar> < 2 ^ 53" using b by linarith
  from dround_int [OF this] have "num_sub (sl_limit l) (sl_utilized l) = num_of_int (L - U)" by (simp add: l)
  then have a: "0 < a" "a \<le> L - U" using assms(2,3) by (simp_all only: num_le_Fin num_gt_Fin of_int_less_iff of_int_le_0_iff not_le not_less)
  have "\<bar>U + a\<bar> < 2 ^ 53" using a b by linarith
  from dround_int [OF this] have "num_add (sl_utilized l) (num_of_int a) = num_of_int (U + a)" by (simp add: l)
  then show ?thesis unfolding stored_ok_def using l(1) a b by (intro exI [of _ L] exI [of _ "U + a"]) simp
qed

lemma drawFromCreditLine_ok:
  assumes "\<forall>l \<in> set ls. stored_ok l" "dr_amount req = num_of_int a"
  shows "\<forall>l \<in> set (snd (drawFromCreditLine req ls)). stored_ok l"
proof -
  let ?p = "\<lambda>l. sl_id l = dr_id req"
  have "stored_ok (l\<lparr>sl_utilized := num_add (sl_utilized l) (dr_amount req)\<rparr>)"
    if "List.find ?p ls = Some l" "\<not> num_le (dr_amount req) (Fin 0)" "\<not> num_gt (dr_amount req) (num_sub (sl_limit l) (sl_utilized l))" for l
    using stored_draw_ok [of l a] find_SomeD [OF that(1)] that assms by simp
  then show ?thesis
    unfolding drawFromCreditLine_def using assms(1) set_replace_first [of ?p _ ls] by (auto simp: Let_def split: option.split)
qed

text \<open>
  Whatever sequence of whole-number draws is made, with refusals in between, every stored line keeps \<open>0 \<le> utilized \<le> limit\<close>; no
  draw changes a limit, an owner or a status; and a refused draw changes nothing.
\<close>

theorem stored_draws_within_limit:
  assumes "\<forall>l \<in> set ls. stored_ok l" "\<forall>req \<in> set reqs. \<exists>a. dr_amount req = num_of_int a"
  shows "(\<forall>l \<in> set (fold (\<lambda>req ls. snd (drawFromCreditLine req ls)) reqs ls). stored_ok l) \<and>
     map (\<lambda>l. (sl_id l, sl_borrowerId l, sl_limit l, sl_status l)) (fold (\<lambda>req ls. snd (drawFromCreditLine req ls)) reqs ls) =
       map (\<lambda>l. (sl_id l, sl_borrowerId l, sl_limit l, sl_status l)) ls \<and>
     (\<forall>req e. fst (drawFromCreditLine req ls) = Inl e \<longrightarrow> snd (drawFromCreditLine req ls) = ls)"
proof -
  let ?f = "\<lambda>l. (sl_id l, sl_borrowerId l, sl_limit l, sl_status l)"
  have rep: "List.find p ls = Some l \<Longrightarrow> ?f l' = ?f l \<Longrightarrow> map ?f (replace_first p l' ls) = map ?f ls" for p l l' ls
    by (induction ls) (auto split: if_splits)
  have step: "map ?f (snd (drawFromCreditLine req ls)) = map ?f ls" for req ls
    unfolding drawFromCreditLine_def by (auto simp: Let_def rep split: option.split)
  have err: "fst (drawFromCreditLine req ls) = Inl e \<Longrightarrow> snd (drawFromCreditLine req ls) = ls" for req e
    unfolding drawFromCreditLine_def by (auto simp: Let_def split: option.splits if_splits)
  have "map ?f (fold (\<lambda>req ls. snd (drawFromCreditLine req ls)) reqs ls) = map ?f ls" for ls
    by (induction reqs arbitrary: ls) (simp_all add: step)
  moreover have "\<forall>l \<in> set (fold (\<lambda>req ls. snd (drawFromCreditLine req ls)) reqs ls). stored_ok l"
    using assms by (induction reqs arbitrary: ls) (auto dest: drawFromCreditLine_ok)
  ultimately show ?thesis using err by blast
qed

lemma example_stored_ok: "\<forall>l \<in> set creditLines. stored_ok l"
  unfolding stored_ok_def creditLines_def by (auto intro!: exI [of _ 1000] exI [of _ 0])

theorem stored_draws_within_limit_witness:
  "list_all stored_ok (fold (\<lambda>req ls. snd (drawFromCreditLine req ls))
     [\<lparr>dr_id = ''line-1'', dr_borrowerId = ''user-1'', dr_amount = num_of_int 400\<rparr>, \<lparr>dr_id = ''line-1'', dr_borrowerId = ''user-1'', dr_amount = num_of_int 601\<rparr>]
     creditLines)"
  using stored_draws_within_limit [OF example_stored_ok, of "[\<lparr>dr_id = ''line-1'', dr_borrowerId = ''user-1'', dr_amount = num_of_int 400\<rparr>,
      \<lparr>dr_id = ''line-1'', dr_borrowerId = ''user-1'', dr_amount = num_of_int 601\<rparr>]"] by (force simp: list_all_iff simp del: fold_simps)

text \<open>
  \<open>NaN\<close> passes both amount checks: on an active line of the borrower, a draw of \<open>NaN\<close> is accepted and the utilised amount becomes
  \<open>NaN\<close>; from then on the line accepts every draw that is not at most zero, however large.
\<close>

theorem nan_draw_disables_the_limit:
  assumes "List.find (\<lambda>l. sl_id l = i) ls = Some line" "sl_status line = StActive" "sl_borrowerId line = b" "\<not> num_le x (Fin 0)"
  shows "drawFromCreditLine \<lparr>dr_id = i, dr_borrowerId = b, dr_amount = NaN\<rparr> ls =
       (Inr (line\<lparr>sl_utilized := NaN\<rparr>), replace_first (\<lambda>l. sl_id l = i) (line\<lparr>sl_utilized := NaN\<rparr>) ls) \<and>
     fst (drawFromCreditLine \<lparr>dr_id = i, dr_borrowerId = b, dr_amount = x\<rparr>
       (snd (drawFromCreditLine \<lparr>dr_id = i, dr_borrowerId = b, dr_amount = NaN\<rparr> ls))) = Inr (line\<lparr>sl_utilized := NaN\<rparr>)"
proof -
  have nan: "num_add y NaN = NaN" "num_add NaN y = NaN" "num_sub y NaN = NaN" for y by (cases y; simp add: num_sub_def)+
  have 1: "drawFromCreditLine \<lparr>dr_id = i, dr_borrowerId = b, dr_amount = NaN\<rparr> ls =
      (Inr (line\<lparr>sl_utilized := NaN\<rparr>), replace_first (\<lambda>l. sl_id l = i) (line\<lparr>sl_utilized := NaN\<rparr>) ls)"
    using assms by (simp add: drawFromCreditLine_def nan Let_def)
  have idl: "sl_id line = i" using find_SomeD [OF assms(1)] by simp
  have "List.find (\<lambda>l. sl_id l = i) (replace_first (\<lambda>l. sl_id l = i) (line\<lparr>sl_utilized := NaN\<rparr>) ls) = Some (line\<lparr>sl_utilized := NaN\<rparr>)"
    using assms(1) idl by (induction ls) (auto split: if_splits)
  then have "fst (drawFromCreditLine \<lparr>dr_id = i, dr_borrowerId = b, dr_amount = x\<rparr>
      (replace_first (\<lambda>l. sl_id l = i) (line\<lparr>sl_utilized := NaN\<rparr>) ls)) = Inr (line\<lparr>sl_utilized := NaN\<rparr>)"
    using assms(2-4) by (simp add: drawFromCreditLine_def nan Let_def)
  with 1 show ?thesis by simp
qed

theorem nan_draw_disables_the_limit_witness:
  "fst (drawFromCreditLine \<lparr>dr_id = ''line-1'', dr_borrowerId = ''user-1'', dr_amount = Fin 1000000000\<rparr>
     (snd (drawFromCreditLine \<lparr>dr_id = ''line-1'', dr_borrowerId = ''user-1'', dr_amount = NaN\<rparr> creditLines))) =
   Inr ((hd creditLines)\<lparr>sl_utilized := NaN\<rparr>)"
proof -
  have "List.find (\<lambda>l. sl_id l = ''line-1'') creditLines = Some (hd creditLines)" "sl_status (hd creditLines) = StActive"
    "sl_borrowerId (hd creditLines) = ''user-1''" "\<not> num_le (Fin 1000000000) (Fin 0)" by (simp_all add: creditLines_def)
  from nan_draw_disables_the_limit [OF this] show ?thesis by (rule conjunct2)
qed

section \<open>The life of a line\<close>

text \<open>\<open>createCreditLine\<close> takes any status (active is its default); \<open>S\<close> is the set of statuses the callers create lines with.\<close>

inductive credit_step :: "LineStatus set \<Rightarrow> credit_store \<Rightarrow> credit_store \<Rightarrow> bool" for S where
  create: "status \<in> S \<Longrightarrow> credit_step S s (snd (createCreditLine rowId status uuid ts s))"
| suspend: "credit_step S s (snd (suspendCreditLine rowId uuid ts s))"
| close: "credit_step S s (snd (closeCreditLine rowId uuid ts s))"

text \<open>A line as its log tells it: the status is the one of the last event, or the one it was created with if nothing happened since; the first and the last
  time stamp are those of the events, the events run through the machine, and the transactions recorded under the identifier end with the same actions at the
  same instants.\<close>

definition event_log :: "CreditLineEvent list \<Rightarrow> (line_action \<times> time) list" where
  "event_log es = map (\<lambda>e. (ev_action e, ev_timestamp e)) es"

definition tx_log :: "LineTransaction list \<Rightarrow> (line_action \<times> time) list" where
  "tx_log txs = map (\<lambda>tx. (lt_metadata tx, lt_timestamp tx)) txs"

definition lifecycle :: "LineStatus set \<Rightarrow> LineStatus \<Rightarrow> line_action list set" where
  "lifecycle S status =
     {acts. acts = [ActCreated] \<and> status \<in> S \<or>
        acts = [ActCreated, ActSuspended] \<and> status = LSuspended \<and> LActive \<in> S \<or>
        acts = [ActCreated, ActClosed] \<and> status = LClosed \<and> (LActive \<in> S \<or> LSuspended \<in> S) \<or>
        acts = [ActCreated, ActSuspended, ActClosed] \<and> status = LClosed \<and> LActive \<in> S}"

definition line_log_ok :: "LineStatus set \<Rightarrow> credit_store \<Rightarrow> string \<Rightarrow> StatusLine \<Rightarrow> bool" where
  "line_log_ok S s rowId line \<longleftrightarrow> ln_id line = rowId \<and> map ev_action (ln_events line) \<in> lifecycle S (ln_status line) \<and>
     ln_createdAt line = ev_timestamp (hd (ln_events line)) \<and> ln_updatedAt line = ev_timestamp (last (ln_events line)) \<and>
     (\<exists>txs earlier. jsmap_get (cs_transactions s) rowId = Some txs \<and> tx_log txs = earlier @ event_log (ln_events line) \<and>
        (\<forall>tx \<in> set txs. lt_creditLineId tx = rowId \<and> lt_type tx = STATUS_CHANGE))"

definition credit_log_ok :: "LineStatus set \<Rightarrow> credit_store \<Rightarrow> bool" where
  "credit_log_ok S s \<longleftrightarrow> (\<forall>rowId line. jsmap_get (cs_store s) rowId = Some line \<longrightarrow> line_log_ok S s rowId line) \<and>
     (\<forall>rowId txs. jsmap_get (cs_transactions s) rowId = Some txs \<longrightarrow> (\<forall>tx \<in> set txs. lt_creditLineId tx = rowId \<and> lt_type tx = STATUS_CHANGE))"

lemma recordTransaction_get:
  "jsmap_get (cs_transactions (recordTransaction rowId ty ts act uuid s)) k =
     (if k = rowId then Some ((case jsmap_get (cs_transactions s) rowId of Some txs \<Rightarrow> txs | None \<Rightarrow> []) @
        [\<lparr>lt_id = uuid, lt_creditLineId = rowId, lt_type = ty, lt_amount = None, lt_currency = None, lt_timestamp = ts, lt_metadata = act\<rparr>])
      else jsmap_get (cs_transactions s) k)"
  "cs_store (recordTransaction rowId ty ts act uuid s) = cs_store s"
  by (simp_all add: recordTransaction_def Let_def)

text \<open>Writing a line together with the transaction of its last event keeps the log, if the earlier events were logged.\<close>

lemma log_ok_write:
  assumes "credit_log_ok S s" "ln_id line = rowId" "map ev_action (ln_events line) \<in> lifecycle S (ln_status line)"
    and "ln_createdAt line = ev_timestamp (hd (ln_events line))" "ln_updatedAt line = ev_timestamp (last (ln_events line))"
    and "ln_events line = before @ [\<lparr>ev_action = act, ev_timestamp = ts\<rparr>]"
    and "before = [] \<or> (\<exists>txs earlier. jsmap_get (cs_transactions s) rowId = Some txs \<and> tx_log txs = earlier @ event_log before)"
  shows "credit_log_ok S (recordTransaction rowId STATUS_CHANGE ts act uuid (s\<lparr>cs_store := jsmap_set rowId line (cs_store s)\<rparr>))"
proof -
  let ?s = "recordTransaction rowId STATUS_CHANGE ts act uuid (s\<lparr>cs_store := jsmap_set rowId line (cs_store s)\<rparr>)"
  let ?old = "case jsmap_get (cs_transactions s) rowId of Some txs \<Rightarrow> txs | None \<Rightarrow> []"
  let ?tx = "\<lparr>lt_id = uuid, lt_creditLineId = rowId, lt_type = STATUS_CHANGE, lt_amount = None, lt_currency = None, lt_timestamp = ts, lt_metadata = act\<rparr>"
  have get: "jsmap_get (cs_transactions ?s) k = (if k = rowId then Some (?old @ [?tx]) else jsmap_get (cs_transactions s) k)" for k
    by (simp add: recordTransaction_get)
  have st: "jsmap_get (cs_store ?s) k = (if k = rowId then Some line else jsmap_get (cs_store s) k)" for k by (simp add: recordTransaction_get)
  have old: "\<forall>tx \<in> set ?old. lt_creditLineId tx = rowId \<and> lt_type tx = STATUS_CHANGE"
    using assms(1) by (cases "jsmap_get (cs_transactions s) rowId") (auto simp: credit_log_ok_def)
  have "\<exists>earlier. tx_log (?old @ [?tx]) = earlier @ event_log (ln_events line)"
    using assms(7) by (auto simp: assms(6) tx_log_def event_log_def)
  then have "line_log_ok S ?s rowId line" using assms(2-5) old get [of rowId] by (auto simp: line_log_ok_def)
  moreover have "line_log_ok S ?s k l" if "jsmap_get (cs_store s) k = Some l" "k \<noteq> rowId" for k l
    using assms(1) that get [of k] by (auto simp: credit_log_ok_def line_log_ok_def)
  ultimately show ?thesis using assms(1) old unfolding credit_log_ok_def st get by auto
qed

lemma credit_step_log_ok: "credit_step S s s' \<Longrightarrow> credit_log_ok S s \<Longrightarrow> credit_log_ok S s'"
proof (induction rule: credit_step.induct)
  case (create status s rowId uuid ts)
  show ?case unfolding createCreditLine_def Let_def snd_conv
    by (rule log_ok_write [where before = "[]", OF create(2)]) (use create(1) in \<open>simp_all add: lifecycle_def\<close>)
next
  case (suspend s rowId uuid ts)
  show ?case
  proof (cases "\<exists>line. jsmap_get (cs_store s) rowId = Some line \<and> ln_status line = LActive")
    case True
    then obtain line where line: "jsmap_get (cs_store s) rowId = Some line" "ln_status line = LActive" by blast
    then have ok: "line_log_ok S s rowId line" using suspend by (simp add: credit_log_ok_def)
    then have ne: "ln_events line \<noteq> []" using line(2) by (auto simp: line_log_ok_def lifecycle_def)
    have "credit_log_ok S (recordTransaction rowId STATUS_CHANGE ts ActSuspended uuid
        (s\<lparr>cs_store := jsmap_set rowId (moveLine LSuspended ActSuspended ts line) (cs_store s)\<rparr>))"
      by (rule log_ok_write [OF suspend, where before = "ln_events line"])
         (use ok line(2) ne in \<open>auto simp: line_log_ok_def moveLine_def lifecycle_def\<close>)
    then show ?thesis by (simp add: suspendCreditLine_def line Let_def)
  next
    case False
    then have "snd (suspendCreditLine rowId uuid ts s) = s" by (auto simp: suspendCreditLine_def split: option.splits)
    then show ?thesis using suspend by simp
  qed
next
  case (close s rowId uuid ts)
  show ?case
  proof (cases "\<exists>line. jsmap_get (cs_store s) rowId = Some line \<and> ln_status line \<noteq> LClosed")
    case True
    then obtain line where line: "jsmap_get (cs_store s) rowId = Some line" "ln_status line \<noteq> LClosed" by blast
    then have ok: "line_log_ok S s rowId line" using close by (simp add: credit_log_ok_def)
    then have ne: "ln_events line \<noteq> []" using line(2) by (cases "ln_status line") (auto simp: line_log_ok_def lifecycle_def)
    have st: "ln_status line = LActive \<or> ln_status line = LSuspended" using line(2) by (cases "ln_status line") simp_all
    have "credit_log_ok S (recordTransaction rowId STATUS_CHANGE ts ActClosed uuid
        (s\<lparr>cs_store := jsmap_set rowId (moveLine LClosed ActClosed ts line) (cs_store s)\<rparr>))"
      by (rule log_ok_write [OF close, where before = "ln_events line"])
         (use ok st ne in \<open>auto simp: line_log_ok_def moveLine_def lifecycle_def\<close>)
    then show ?thesis by (simp add: closeCreditLine_def line Let_def)
  next
    case False
    then have "snd (closeCreditLine rowId uuid ts s) = s" by (auto simp: closeCreditLine_def split: option.splits)
    then show ?thesis using close by simp
  qed
qed

text \<open>
  C32. The life of a line: after any sequence of creations (with statuses from \<open>S\<close>), suspensions and closings, refused ones included, the event list of every
  line is one of created, created-suspended, created-closed and created-suspended-closed; its status is the one its last event gives, or the one it was
  created with when creation is its only event; only a line created active can show a suspension; the creation and update times are those of the first and the
  last event; and the \<open>STATUS_CHANGE\<close> transactions recorded under its identifier end with the same actions at the same instants. A suspension succeeds exactly on an active
  line and a closing exactly on a line that is not closed, so closed is final unless the identifier is created anew.
\<close>

theorem credit_log_invariant:
  assumes "(credit_step S)\<^sup>*\<^sup>* resetStore s"
  shows "credit_log_ok S s \<and>
     (\<forall>rowId uuid ts. (\<exists>l. fst (suspendCreditLine rowId uuid ts s) = Inr l) \<longleftrightarrow> (\<exists>line. jsmap_get (cs_store s) rowId = Some line \<and> ln_status line = LActive)) \<and>
     (\<forall>rowId uuid ts. (\<exists>l. fst (closeCreditLine rowId uuid ts s) = Inr l) \<longleftrightarrow> (\<exists>line. jsmap_get (cs_store s) rowId = Some line \<and> ln_status line \<noteq> LClosed)) \<and>
     (\<forall>rowId line uuid ts. jsmap_get (cs_store s) rowId = Some line \<and> ln_status line = LClosed \<longrightarrow>
        snd (suspendCreditLine rowId uuid ts s) = s \<and> snd (closeCreditLine rowId uuid ts s) = s)"
proof -
  have "credit_log_ok S s" using assms
  proof (induction rule: rtranclp_induct)
    case base
    then show ?case by (simp add: credit_log_ok_def resetStore_def)
  qed (rule credit_step_log_ok)
  moreover have "(\<exists>l. fst (suspendCreditLine rowId uuid ts s) = Inr l) \<longleftrightarrow> (\<exists>line. jsmap_get (cs_store s) rowId = Some line \<and> ln_status line = LActive)"
    "(\<exists>l. fst (closeCreditLine rowId uuid ts s) = Inr l) \<longleftrightarrow> (\<exists>line. jsmap_get (cs_store s) rowId = Some line \<and> ln_status line \<noteq> LClosed)" for rowId uuid ts
    by (auto simp: suspendCreditLine_def closeCreditLine_def Let_def split: option.splits)
  ultimately show ?thesis by (auto simp: suspendCreditLine_def closeCreditLine_def)
qed

theorem credit_log_invariant_witness:
  "credit_log_ok {LActive, LSuspended} (snd (closeCreditLine ''line-1'' ''tx-2'' 7 (snd (createCreditLine ''line-1'' LSuspended ''tx-1'' 3 resetStore))))"
proof -
  have "credit_step {LActive, LSuspended} resetStore (snd (createCreditLine ''line-1'' LSuspended ''tx-1'' 3 resetStore))" by (rule credit_step.create) simp
  then have "(credit_step {LActive, LSuspended})\<^sup>*\<^sup>* resetStore (snd (closeCreditLine ''line-1'' ''tx-2'' 7 (snd (createCreditLine ''line-1'' LSuspended ''tx-1'' 3 resetStore))))"
    by (rule rtranclp.rtrancl_into_rtrancl [OF r_into_rtranclp [where r = "credit_step {LActive, LSuspended}"]]) (rule credit_step.close)
  then show ?thesis using credit_log_invariant by blast
qed

end
