(* ===== verification/JsDate.thy ===== *)
theory JsDate
  imports JsNumber
begin

text \<open>
  \<open>Date.prototype.toISOString\<close> on epoch milliseconds: the proleptic Gregorian calendar by eras of 400 years (146097 days), a
  four-digit year from 0 to 9999 and a signed six-digit year outside.
\<close>

definition pad_digits :: "nat \<Rightarrow> int \<Rightarrow> string" where
  "pad_digits n i = js_padStart n (CHR ''0'') (digits_of_nat (nat i))"

definition civil_from_days :: "int \<Rightarrow> int \<times> int \<times> int" where
  "civil_from_days days =
     (let z = days + 719468; era = z div 146097; doe = z mod 146097;
          yoe = (doe - doe div 1460 + doe div 36524 - doe div 146096) div 365;
          doy = doe - (365 * yoe + yoe div 4 - yoe div 100);
          mp = (5 * doy + 2) div 153;
          d = doy - (153 * mp + 2) div 5 + 1;
          m = (if mp < 10 then mp + 3 else mp - 9)
      in (yoe + era * 400 + (if m \<le> 2 then 1 else 0), m, d))"

definition iso_year :: "int \<Rightarrow> string" where
  "iso_year y =
     (if 0 \<le> y \<and> y \<le> 9999 then pad_digits 4 y
      else (if y < 0 then ''-'' else ''+'') @ pad_digits 6 \<bar>y\<bar>)"

definition toISOString :: "time \<Rightarrow> string" where
  "toISOString t =
     (let (y, m, d) = civil_from_days (t div 86400000); ms = t mod 86400000
      in iso_year y @ ''-'' @ pad_digits 2 m @ ''-'' @ pad_digits 2 d @ ''T'' @
         pad_digits 2 (ms div 3600000) @ '':'' @ pad_digits 2 (ms div 60000 mod 60) @ '':'' @
         pad_digits 2 (ms div 1000 mod 60) @ ''.'' @ pad_digits 3 (ms mod 1000) @ ''Z'')"

text \<open>\<open>new Date(x).toISOString()\<close>: a time value beyond 8.64e15 or not finite is invalid, fractions are dropped towards zero.\<close>

fun Date_toISOString :: "number \<Rightarrow> js_error + string" where
  "Date_toISOString (Fin q) =
     (if \<bar>q\<bar> \<le> 8640000000000000 then Inr (toISOString (if 0 \<le> q then \<lfloor>q\<rfloor> else \<lceil>q\<rceil>)) else Inl (RangeError ''Invalid time value''))"
| "Date_toISOString _ = Inl (RangeError ''Invalid time value'')"

lemma toISOString_epoch: "toISOString 0 = ''1970-01-01T00:00:00.000Z''"
  by code_simp

lemma toISOString_leap_day: "toISOString 1709164800123 = ''2024-02-29T00:00:00.123Z''"
  by code_simp

lemma toISOString_end_of_year: "toISOString 1735689599999 = ''2024-12-31T23:59:59.999Z''"
  by code_simp

end
