(* ===== verification/OutboundWebhooks.thy ===== *)
theory OutboundWebhooks
  imports CreditLineService JobQueue Json JsDate
begin

text \<open>
  Outbound webhooks: the delivery store (\<open>src/services/outboundWebhookStore.ts\<close>) and the dispatcher that turns domain events into
  deliveries and jobs (\<open>src/services/outboundWebhookDispatcher.ts\<close>). The dispatcher's delivery handler is a job handler of
  \<open>JobQueue\<close>; its world holds the store, the clock and the requests posted so far. \<open>fetchImpl\<close> stands for \<open>fetch\<close> (the answer to the
  \<open>n\<close>-th request, an error covering the abort of the timeout) and \<open>hmac\<close> for the keyed digest in hexadecimal.
\<close>

section \<open>The store\<close>

datatype OutboundWebhookStatus = Queued | Delivered | FailedDelivery | DeadLetter

record OutboundWebhookSubscription =
  sub_id :: string
  sub_url :: string
  sub_eventTypes :: "string list"
  sub_active :: bool
  sub_secretRef :: string
  sub_createdAt :: time
  sub_updatedAt :: time

record OutboundWebhookDelivery =
  od_id :: string
  od_subscriptionId :: string
  od_url :: string
  od_eventType :: string
  od_eventId :: string
  od_status :: OutboundWebhookStatus
  od_payload :: json
  od_attempts :: int
  od_responseStatus :: "int option"
  od_lastError :: "string option"
  od_nextAttemptAt :: "time option"
  od_deliveredAt :: "time option"
  od_createdAt :: time
  od_updatedAt :: time

record CreateDeliveryInput =
  cd_subscriptionId :: string
  cd_url :: string
  cd_eventType :: string
  cd_eventId :: string
  cd_payload :: json

text \<open>A patch: an absent property is \<open>None\<close>; \<open>Some None\<close> is a property present with the value \<open>undefined\<close>.\<close>

record DeliveryPatch =
  dp_status :: "OutboundWebhookStatus option"
  dp_attempts :: "int option"
  dp_responseStatus :: "int option"
  dp_lastError :: "string option option"
  dp_nextAttemptAt :: "time option option"
  dp_deliveredAt :: "time option"

record webhook_store =
  ws_subscriptions :: "(string, OutboundWebhookSubscription) jsmap"
  ws_deliveries :: "(string, OutboundWebhookDelivery) jsmap"

definition upsertEnvSubscription ::
  "string \<Rightarrow> string list \<Rightarrow> string \<Rightarrow> string \<Rightarrow> time \<Rightarrow> webhook_store \<Rightarrow> OutboundWebhookSubscription \<times> webhook_store" where
  "upsertEnvSubscription url eventTypes secretRef uuid now s =
     (let existing = List.find (\<lambda>sub. sub_url sub = url) (jsmap_values (ws_subscriptions s));
          subscription = \<lparr>sub_id = (case existing of Some e \<Rightarrow> sub_id e | None \<Rightarrow> uuid), sub_url = url, sub_eventTypes = eventTypes,
            sub_active = True, sub_secretRef = secretRef,
            sub_createdAt = (case existing of Some e \<Rightarrow> sub_createdAt e | None \<Rightarrow> now), sub_updatedAt = now\<rparr>
      in (subscription, s\<lparr>ws_subscriptions := jsmap_set (sub_id subscription) subscription (ws_subscriptions s)\<rparr>))"

definition listSubscriptions :: "webhook_store \<Rightarrow> OutboundWebhookSubscription list" where
  "listSubscriptions s = filter sub_active (jsmap_values (ws_subscriptions s))"

definition createDelivery :: "CreateDeliveryInput \<Rightarrow> string \<Rightarrow> time \<Rightarrow> webhook_store \<Rightarrow> OutboundWebhookDelivery \<times> webhook_store" where
  "createDelivery input uuid now s =
     (let delivery = \<lparr>od_id = uuid, od_subscriptionId = cd_subscriptionId input, od_url = cd_url input,
            od_eventType = cd_eventType input, od_eventId = cd_eventId input, od_status = Queued, od_payload = cd_payload input,
            od_attempts = 0, od_responseStatus = None, od_lastError = None, od_nextAttemptAt = None, od_deliveredAt = None,
            od_createdAt = now, od_updatedAt = now\<rparr>
      in (delivery, s\<lparr>ws_deliveries := jsmap_set uuid delivery (ws_deliveries s)\<rparr>))"

definition getDelivery :: "webhook_store \<Rightarrow> string \<Rightarrow> OutboundWebhookDelivery option" where
  "getDelivery s deliveryId = jsmap_get (ws_deliveries s) deliveryId"

definition findDelivery :: "webhook_store \<Rightarrow> string \<Rightarrow> string \<Rightarrow> OutboundWebhookDelivery option" where
  "findDelivery s subscriptionId eventId =
     List.find (\<lambda>d. od_subscriptionId d = subscriptionId \<and> od_eventId d = eventId) (jsmap_values (ws_deliveries s))"

text \<open>The in-memory update spreads the patch, so a property present as \<open>undefined\<close> clears the field.\<close>

definition patchDelivery :: "OutboundWebhookDelivery \<Rightarrow> DeliveryPatch \<Rightarrow> time \<Rightarrow> OutboundWebhookDelivery" where
  "patchDelivery existing patch now = existing\<lparr>
     od_status := (case dp_status patch of Some v \<Rightarrow> v | None \<Rightarrow> od_status existing),
     od_attempts := (case dp_attempts patch of Some v \<Rightarrow> v | None \<Rightarrow> od_attempts existing),
     od_responseStatus := (case dp_responseStatus patch of Some v \<Rightarrow> Some v | None \<Rightarrow> od_responseStatus existing),
     od_lastError := (case dp_lastError patch of Some v \<Rightarrow> v | None \<Rightarrow> od_lastError existing),
     od_nextAttemptAt := (case dp_nextAttemptAt patch of Some v \<Rightarrow> v | None \<Rightarrow> od_nextAttemptAt existing),
     od_deliveredAt := (case dp_deliveredAt patch of Some v \<Rightarrow> Some v | None \<Rightarrow> od_deliveredAt existing),
     od_updatedAt := now\<rparr>"

definition updateDelivery :: "string \<Rightarrow> DeliveryPatch \<Rightarrow> time \<Rightarrow> (webhook_store, OutboundWebhookDelivery) comp" where
  "updateDelivery deliveryId patch now s =
     (case jsmap_get (ws_deliveries s) deliveryId of
        None \<Rightarrow> (Inl (Error (''Webhook delivery not found: '' @ deliveryId)), s)
      | Some existing \<Rightarrow>
          let updated = patchDelivery existing patch now
          in (Inr updated, s\<lparr>ws_deliveries := jsmap_set deliveryId updated (ws_deliveries s)\<rparr>))"

definition listDeliveries :: "OutboundWebhookStatus option \<Rightarrow> int option \<Rightarrow> webhook_store \<Rightarrow> OutboundWebhookDelivery list" where
  "listDeliveries status limit s =
     (let n = min (max (case limit of Some l \<Rightarrow> l | None \<Rightarrow> 50) 1) 200
      in js_slice (js_sort (\<lambda>a b. od_createdAt b - od_createdAt a)
           (filter (\<lambda>d. case status of None \<Rightarrow> True | Some st \<Rightarrow> od_status d = st) (jsmap_values (ws_deliveries s)))) 0 n)"

text \<open>The values the Postgres update binds: with \<open>??\<close>, \<open>undefined\<close> falls back to the stored value.\<close>

definition postgresPatch :: "OutboundWebhookDelivery \<Rightarrow> DeliveryPatch \<Rightarrow> time \<Rightarrow> OutboundWebhookDelivery" where
  "postgresPatch current patch now = current\<lparr>
     od_status := (case dp_status patch of Some v \<Rightarrow> v | None \<Rightarrow> od_status current),
     od_attempts := (case dp_attempts patch of Some v \<Rightarrow> v | None \<Rightarrow> od_attempts current),
     od_responseStatus := (case dp_responseStatus patch of Some v \<Rightarrow> Some v | None \<Rightarrow> od_responseStatus current),
     od_lastError := (case dp_lastError patch of Some (Some v) \<Rightarrow> Some v | _ \<Rightarrow> od_lastError current),
     od_nextAttemptAt := (case dp_nextAttemptAt patch of Some (Some v) \<Rightarrow> Some v | _ \<Rightarrow> od_nextAttemptAt current),
     od_deliveredAt := (case dp_deliveredAt patch of Some v \<Rightarrow> Some v | None \<Rightarrow> od_deliveredAt current),
     od_updatedAt := now\<rparr>"

section \<open>The dispatcher\<close>

definition WEBHOOK_DELIVERY_JOB :: string where
  "WEBHOOK_DELIVERY_JOB = ''outbound-webhook-delivery''"

definition DEFAULT_EVENT_TYPES :: "string list" where
  "DEFAULT_EVENT_TYPES = [''credit.opened'', ''credit.draw_confirmed'', ''credit.repay_confirmed'', ''credit.defaulted'']"

record OutboundWebhookDispatcherConfig =
  wc_secret :: string
  wc_maxAttempts :: int
  wc_timeoutMs :: int
  wc_initialBackoffMs :: int

record http_post =
  hp_url :: string
  hp_headers :: "(string \<times> string) list"
  hp_body :: string

record http_answer =
  ha_ok :: bool
  ha_status :: int
  ha_statusText :: string

record webhook_world =
  ww_store :: webhook_store
  ww_clock :: time
  ww_posts :: "http_post list"

type_synonym fetch_impl = "http_post \<Rightarrow> nat \<Rightarrow> string + http_answer"
type_synonym webhook_queue = "(string, webhook_world) job_queue"

definition initializeFromEnvironment ::
  "OutboundWebhookDispatcherConfig \<Rightarrow> (string \<times> string) list \<Rightarrow> time \<Rightarrow> (webhook_store, unit) comp" where
  "initializeFromEnvironment config urls now s =
     (if urls \<noteq> [] \<and> wc_secret config = [] then (Inl (Error ''WEBHOOK_SECRET is required when WEBHOOK_URLS is configured''), s)
      else (Inr (), fold (\<lambda>(url, uuid) s. snd (upsertEnvSubscription url DEFAULT_EVENT_TYPES ''WEBHOOK_SECRET'' uuid now s)) urls s))"

definition eventId :: "domain_event \<Rightarrow> string" where
  "eventId event = ev_type event @ '':'' @ ev_creditLineId event @ '':'' @ toISOString (ev_occurredAt event)"

definition payloadFor :: "domain_event \<Rightarrow> time \<Rightarrow> json" where
  "payloadFor event now = JObj
     [(''event'', JStr (ev_type event)), (''timestamp'', JStr (toISOString now)),
      (''data'', JObj (fold (\<lambda>(k, v). jsmap_set k (JStr v)) (ev_payload event)
         [(''creditLineId'', JStr (ev_creditLineId event)), (''occurredAt'', JStr (toISOString (ev_occurredAt event)))]))]"

definition deliveryCall :: "OutboundWebhookDispatcherConfig \<Rightarrow> string \<Rightarrow> string \<Rightarrow> string enqueue_call" where
  "deliveryCall config deliveryId jobId =
     \<lparr>enq_type = WEBHOOK_DELIVERY_JOB, enq_payload = deliveryId, enq_maxAttempts = Some (wc_maxAttempts config),
      enq_delayMs = None, enq_id = Some jobId\<rparr>"

text \<open>One turn of the loop of \<open>scheduleEvent\<close>; \<open>uuid\<close> is the identifier \<open>randomUUID()\<close> would give the new delivery.\<close>

definition scheduleFor ::
  "OutboundWebhookDispatcherConfig \<Rightarrow> domain_event \<Rightarrow> time \<Rightarrow> OutboundWebhookSubscription \<times> string \<Rightarrow>
     string list \<times> webhook_store \<times> webhook_queue \<Rightarrow> string list \<times> webhook_store \<times> webhook_queue" where
  "scheduleFor config event now sub acc =
     (case (sub, acc) of ((subscription, uuid), (jobIds, s, q)) \<Rightarrow>
        if (case findDelivery s (sub_id subscription) (eventId event) of Some d \<Rightarrow> od_status d = Delivered | None \<Rightarrow> False)
        then (jobIds, s, q)
        else let (delivery, s') = createDelivery \<lparr>cd_subscriptionId = sub_id subscription, cd_url = sub_url subscription,
                     cd_eventType = ev_type event, cd_eventId = eventId event, cd_payload = payloadFor event now\<rparr> uuid now s;
                 (jobId, q') = InMemoryJobQueue_enqueue (deliveryCall config (od_id delivery) (''webhook-'' @ od_id delivery)) now q
             in (jobIds @ [jobId], s', q'))"

definition matchingSubscriptions :: "webhook_store \<Rightarrow> domain_event \<Rightarrow> OutboundWebhookSubscription list" where
  "matchingSubscriptions s event = filter (\<lambda>sub. sub_active sub \<and> ev_type event \<in> set (sub_eventTypes sub)) (listSubscriptions s)"

definition scheduleEvent ::
  "OutboundWebhookDispatcherConfig \<Rightarrow> (nat \<Rightarrow> string) \<Rightarrow> domain_event \<Rightarrow> time \<Rightarrow> webhook_store \<times> webhook_queue \<Rightarrow>
     string list \<times> webhook_store \<times> webhook_queue" where
  "scheduleEvent config uuids event now sq =
     (let matching = matchingSubscriptions (fst sq) event
      in fold (scheduleFor config event now) (zip matching (map uuids [0..<length matching])) ([], sq))"

definition replayDelivery ::
  "OutboundWebhookDispatcherConfig \<Rightarrow> string \<Rightarrow> time \<Rightarrow> (webhook_store \<times> webhook_queue, string) comp" where
  "replayDelivery config deliveryId now sq =
     (case sq of (s, q) \<Rightarrow>
        case getDelivery s deliveryId of
          None \<Rightarrow> (Inl (Error (''Webhook delivery not found: '' @ deliveryId)), (s, q))
        | Some delivery \<Rightarrow>
            let s' = snd (updateDelivery (od_id delivery)
                  \<lparr>dp_status = Some Queued, dp_attempts = None, dp_responseStatus = None, dp_lastError = Some None,
                   dp_nextAttemptAt = Some None, dp_deliveredAt = None\<rparr> now s);
                (jobId, q') = InMemoryJobQueue_enqueue
                  (deliveryCall config deliveryId (''webhook-replay-'' @ od_id delivery @ ''-'' @ show_int now)) now q
            in (Inr jobId, (s', q')))"

definition signedPost :: "(string \<Rightarrow> string \<Rightarrow> string) \<Rightarrow> OutboundWebhookDispatcherConfig \<Rightarrow> OutboundWebhookDelivery \<Rightarrow> time \<Rightarrow> http_post" where
  "signedPost hmac config delivery now =
     (let body = json_stringify (od_payload delivery); signature = hmac (wc_secret config) body
      in \<lparr>hp_url = od_url delivery,
          hp_headers = [(''Content-Type'', ''application/json''), (''X-Webhook-Signature'', ''sha256='' @ signature),
            (''X-Webhook-Timestamp'', toISOString now), (''User-Agent'', ''Creditra-Webhook/1.0'')],
          hp_body = body\<rparr>)"

definition deliver ::
  "(string \<Rightarrow> string \<Rightarrow> string) \<Rightarrow> fetch_impl \<Rightarrow> OutboundWebhookDispatcherConfig \<Rightarrow> OutboundWebhookDelivery \<Rightarrow> webhook_world \<Rightarrow>
     (string + int) \<times> webhook_world" where
  "deliver hmac fetchImpl config delivery w =
     (let post = signedPost hmac config delivery (ww_clock w);
          w' = w\<lparr>ww_posts := ww_posts w @ [post]\<rparr>
      in case fetchImpl post (length (ww_posts w)) of
           Inl e \<Rightarrow> (Inl e, w')
         | Inr response \<Rightarrow>
             if \<not> ha_ok response then (Inl (''HTTP '' @ show_int (ha_status response) @ '': '' @ ha_statusText response), w')
             else (Inr (ha_status response), w'))"

definition deliveryMaxAttempts :: "string job \<Rightarrow> int" where
  "deliveryMaxAttempts job = max 1 (job_maxAttempts job)"

definition successPatch :: "int \<Rightarrow> int \<Rightarrow> time \<Rightarrow> DeliveryPatch" where
  "successPatch attempt status now =
     \<lparr>dp_status = Some Delivered, dp_attempts = Some attempt, dp_responseStatus = Some status, dp_lastError = Some None,
      dp_nextAttemptAt = None, dp_deliveredAt = Some now\<rparr>"

definition failurePatch :: "OutboundWebhookDispatcherConfig \<Rightarrow> bool \<Rightarrow> int \<Rightarrow> string \<Rightarrow> time \<Rightarrow> DeliveryPatch" where
  "failurePatch config finalAttempt attempt lastError now =
     \<lparr>dp_status = Some (if finalAttempt then DeadLetter else FailedDelivery), dp_attempts = Some attempt, dp_responseStatus = None,
      dp_lastError = Some (Some lastError), dp_nextAttemptAt = Some (if finalAttempt then None else Some (now + wc_initialBackoffMs config)),
      dp_deliveredAt = None\<rparr>"

definition processDeliveryJob ::
  "(string \<Rightarrow> string \<Rightarrow> string) \<Rightarrow> fetch_impl \<Rightarrow> OutboundWebhookDispatcherConfig \<Rightarrow> (string, webhook_world) job_handler" where
  "processDeliveryJob hmac fetchImpl config job w =
     (case getDelivery (ww_store w) (job_payload job) of
        None \<Rightarrow> ([], Inl (''Webhook delivery not found: '' @ job_payload job), w)
      | Some delivery \<Rightarrow>
          let attempt = job_attempts job + 1;
              (outcome, w') = deliver hmac fetchImpl config delivery w
          in case outcome of
               Inr status \<Rightarrow>
                 ([], Inr (), w'\<lparr>ww_store := snd (updateDelivery (od_id delivery) (successPatch attempt status (ww_clock w')) (ww_clock w') (ww_store w'))\<rparr>)
             | Inl lastError \<Rightarrow>
                 let finalAttempt = (deliveryMaxAttempts job \<le> attempt)
                 in ([], Inl lastError, w'\<lparr>ww_store := snd (updateDelivery (od_id delivery)
                      (failurePatch config finalAttempt attempt lastError (ww_clock w')) (ww_clock w') (ww_store w'))\<rparr>))"

definition OutboundWebhookDispatcher_new ::
  "(string \<Rightarrow> string \<Rightarrow> string) \<Rightarrow> fetch_impl \<Rightarrow> OutboundWebhookDispatcherConfig \<Rightarrow> webhook_queue \<Rightarrow> webhook_queue" where
  "OutboundWebhookDispatcher_new hmac fetchImpl config q =
     InMemoryJobQueue_registerHandler WEBHOOK_DELIVERY_JOB (processDeliveryJob hmac fetchImpl config) q"

section \<open>One delivery attempt\<close>

lemma updateDelivery_get:
  assumes "jsmap_get (ws_deliveries s) k = Some d"
  shows "jsmap_get (ws_deliveries (snd (updateDelivery k patch now s))) k' = (if k' = k then Some (patchDelivery d patch now) else jsmap_get (ws_deliveries s) k')"
  using assms by (simp add: updateDelivery_def Let_def)

text \<open>
  C33. The delivery record and the job queue tell the same story. Processing a delivery job posts exactly one signed request and counts one
  attempt. If the answer was ok the delivery is marked delivered and the job is gone; if the job is queued again the delivery
  is marked failed, with one attempt left at least; if the job is dead-lettered the delivery is marked dead letter. No other delivery changes.
  (The retry time the record announces is computed from \<open>initialBackoffMs\<close>, the one the queue uses from its own back-off.)
\<close>

theorem delivery_and_queue_agree:
  assumes "job_type j = WEBHOOK_DELIVERY_JOB" "0 \<le> job_attempts j"
    and "jsmap_get (q_handlers q) WEBHOOK_DELIVERY_JOB = Some (processDeliveryJob hmac fetchImpl config)"
    and "getDelivery (ww_store w) (job_payload j) = Some d" "od_id d = job_payload j"
    and "processJob ww_clock j (q, w) = (q', w')"
  shows "ww_posts w' = ww_posts w @ [signedPost hmac config d (ww_clock w)] \<and>
     (\<forall>k. k \<noteq> job_payload j \<longrightarrow> getDelivery (ww_store w') k = getDelivery (ww_store w) k) \<and>
     (\<exists>d'. getDelivery (ww_store w') (job_payload j) = Some d' \<and> od_attempts d' = job_attempts j + 1 \<and>
        (od_status d' = Delivered \<longleftrightarrow> (\<exists>r. fetchImpl (signedPost hmac config d (ww_clock w)) (length (ww_posts w)) = Inr r \<and> ha_ok r)) \<and>
        (od_status d' = Delivered \<and> od_lastError d' = None \<and> od_deliveredAt d' = Some (ww_clock w) \<and> q' = q \<or>
         od_status d' = FailedDelivery \<and> q_failed q' = q_failed q \<and> job_attempts j + 1 < job_maxAttempts j \<and>
           od_nextAttemptAt d' = Some (ww_clock w + wc_initialBackoffMs config) \<and>
           (\<exists>j'. q_pending q' = q_pending q @ [j'] \<and> job_id j' = job_id j \<and> job_payload j' = job_payload j \<and>
              job_attempts j' = job_attempts j + 1 \<and> job_nextRunAt j' = ww_clock w + q_retryBackoffMs q) \<or>
         od_status d' = DeadLetter \<and> q_pending q' = q_pending q \<and> job_maxAttempts j \<le> job_attempts j + 1 \<and> od_nextAttemptAt d' = None \<and>
           (\<exists>j'. q_failed q' = q_failed q @ [j'] \<and> job_id j' = job_id j \<and> job_payload j' = job_payload j)))"
proof -
  let ?post = "signedPost hmac config d (ww_clock w)"
  let ?w = "w\<lparr>ww_posts := ww_posts w @ [?post]\<rparr>"
  have g: "jsmap_get (ws_deliveries (ww_store w)) (job_payload j) = Some d" using assms(4) by (simp add: getDelivery_def)
  note upd = updateDelivery_get [OF g]
  show ?thesis
  proof (cases "\<exists>r. fetchImpl ?post (length (ww_posts w)) = Inr r \<and> ha_ok r")
    case True
    then obtain r where r: "fetchImpl ?post (length (ww_posts w)) = Inr r" "ha_ok r" by blast
    let ?p = "successPatch (job_attempts j + 1) (ha_status r) (ww_clock w)"
    have h: "processDeliveryJob hmac fetchImpl config j w =
        ([], Inr (), ?w\<lparr>ww_store := snd (updateDelivery (job_payload j) ?p (ww_clock w) (ww_store w))\<rparr>)"
      using r assms(4,5) by (simp add: processDeliveryJob_def deliver_def Let_def)
    have "q' = q" "w' = ?w\<lparr>ww_store := snd (updateDelivery (job_payload j) ?p (ww_clock w) (ww_store w))\<rparr>"
      using assms(1,3,6) h by (simp_all add: processJob_def)
    then show ?thesis using r by (simp add: getDelivery_def upd patchDelivery_def successPatch_def)
  next
    case False
    then obtain e where e: "fst (deliver hmac fetchImpl config d w) = Inl e" and dw: "snd (deliver hmac fetchImpl config d w) = ?w"
      by (cases "fetchImpl ?post (length (ww_posts w))") (auto simp: deliver_def Let_def)
    then have del: "deliver hmac fetchImpl config d w = (Inl e, ?w)" by (simp add: prod_eq_iff)
    let ?final = "deliveryMaxAttempts j \<le> job_attempts j + 1"
    let ?p = "failurePatch config ?final (job_attempts j + 1) e (ww_clock w)"
    have h: "processDeliveryJob hmac fetchImpl config j w =
        ([], Inl e, ?w\<lparr>ww_store := snd (updateDelivery (job_payload j) ?p (ww_clock w) (ww_store w))\<rparr>)"
      using del assms(4,5) by (simp add: processDeliveryJob_def Let_def)
    have w': "w' = ?w\<lparr>ww_store := snd (updateDelivery (job_payload j) ?p (ww_clock w) (ww_store w))\<rparr>"
      and q': "q' = settleFailure j e (ww_clock w) q" using assms(1,3,6) h by (auto simp: processJob_def)
    have fin: "?final \<longleftrightarrow> job_maxAttempts j \<le> job_attempts j + 1" using assms(2) by (auto simp: deliveryMaxAttempts_def)
    have "od_status (patchDelivery d ?p (ww_clock w)) \<noteq> Delivered" by (simp add: patchDelivery_def failurePatch_def)
    then show ?thesis using False
      unfolding w' q' by (cases ?final) (auto simp: getDelivery_def upd patchDelivery_def failurePatch_def settleFailure_def Let_def fin)
  qed
qed

definition exampleDelivery :: OutboundWebhookDelivery where
  "exampleDelivery = \<lparr>od_id = ''d1'', od_subscriptionId = ''s1'', od_url = ''https://a.example'', od_eventType = ''credit.opened'',
     od_eventId = ''e1'', od_status = Queued, od_payload = JNull, od_attempts = 0, od_responseStatus = None, od_lastError = None,
     od_nextAttemptAt = None, od_deliveredAt = None, od_createdAt = 0, od_updatedAt = 0\<rparr>"

definition exampleWorld :: webhook_world where
  "exampleWorld = \<lparr>ww_store = \<lparr>ws_subscriptions = [], ws_deliveries = [(''d1'', exampleDelivery)]\<rparr>, ww_clock = 5, ww_posts = []\<rparr>"

definition exampleWebhookConfig :: OutboundWebhookDispatcherConfig where
  "exampleWebhookConfig = \<lparr>wc_secret = ''k'', wc_maxAttempts = 1, wc_timeoutMs = 1000, wc_initialBackoffMs = 250\<rparr>"

definition exampleDeliveryJob :: "string job" where
  "exampleDeliveryJob = \<lparr>job_id = ''webhook-d1'', job_type = WEBHOOK_DELIVERY_JOB, job_payload = ''d1'', job_attempts = 0,
     job_maxAttempts = 1, job_createdAt = 0, job_updatedAt = 0, job_lastError = None, job_nextRunAt = 0\<rparr>"

theorem delivery_and_queue_agree_witness:
  "\<exists>q' w' d'. processJob ww_clock exampleDeliveryJob
       (OutboundWebhookDispatcher_new (\<lambda>k b. k @ b) (\<lambda>_ _. Inl ''connection refused'') exampleWebhookConfig (InMemoryJobQueue_new 1 500), exampleWorld) = (q', w') \<and>
     getDelivery (ww_store w') ''d1'' = Some d' \<and> od_status d' = DeadLetter \<and> map job_id (q_failed q') = [''webhook-d1'']"
proof -
  let ?q = "OutboundWebhookDispatcher_new (\<lambda>k b. k @ b) (\<lambda>_ _. Inl ''connection refused'') exampleWebhookConfig (InMemoryJobQueue_new 1 500)"
  obtain q' w' where p: "processJob ww_clock exampleDeliveryJob (?q, exampleWorld) = (q', w')" by fastforce
  have 1: "job_type exampleDeliveryJob = WEBHOOK_DELIVERY_JOB" "0 \<le> job_attempts exampleDeliveryJob" "job_payload exampleDeliveryJob = ''d1''"
    "job_maxAttempts exampleDeliveryJob = 1" "job_attempts exampleDeliveryJob = 0" "job_id exampleDeliveryJob = ''webhook-d1''"
    by (simp_all add: exampleDeliveryJob_def)
  have 2: "jsmap_get (q_handlers ?q) WEBHOOK_DELIVERY_JOB = Some (processDeliveryJob (\<lambda>k b. k @ b) (\<lambda>_ _. Inl ''connection refused'') exampleWebhookConfig)"
    by (simp add: OutboundWebhookDispatcher_new_def InMemoryJobQueue_registerHandler_def)
  have 3: "getDelivery (ww_store exampleWorld) (job_payload exampleDeliveryJob) = Some exampleDelivery" "od_id exampleDelivery = job_payload exampleDeliveryJob"
    by (simp_all add: exampleWorld_def getDelivery_def 1 exampleDelivery_def)
  have "q_failed ?q = []" by (simp add: OutboundWebhookDispatcher_new_def InMemoryJobQueue_registerHandler_def InMemoryJobQueue_new_def)
  then show ?thesis using delivery_and_queue_agree [OF 1(1,2) 2 3 p] p 1 by auto
qed

section \<open>Scheduling\<close>

definition undelivered :: "webhook_store \<Rightarrow> domain_event \<Rightarrow> OutboundWebhookSubscription \<Rightarrow> bool" where
  "undelivered s event sub \<longleftrightarrow> (case findDelivery s (sub_id sub) (eventId event) of Some d \<Rightarrow> od_status d \<noteq> Delivered | None \<Rightarrow> True)"

definition newDelivery :: "domain_event \<Rightarrow> time \<Rightarrow> OutboundWebhookSubscription \<times> string \<Rightarrow> OutboundWebhookDelivery" where
  "newDelivery event now su = fst (createDelivery \<lparr>cd_subscriptionId = sub_id (fst su), cd_url = sub_url (fst su),
     cd_eventType = ev_type event, cd_eventId = eventId event, cd_payload = payloadFor event now\<rparr> (snd su) now \<lparr>ws_subscriptions = [], ws_deliveries = []\<rparr>)"

lemma newDelivery_sel [simp]:
  "od_id (newDelivery event now su) = snd su" "od_subscriptionId (newDelivery event now su) = sub_id (fst su)"
  "od_url (newDelivery event now su) = sub_url (fst su)" "od_status (newDelivery event now su) = Queued" "od_eventId (newDelivery event now su) = eventId event"
  by (simp_all add: newDelivery_def createDelivery_def Let_def)

lemma find_snoc: "List.find P (xs @ [x]) = (case List.find P xs of Some y \<Rightarrow> Some y | None \<Rightarrow> if P x then Some x else None)"
  by (induction xs) auto

lemma scheduleFor_step:
  assumes "\<not> jsmap_has (ws_deliveries s) u"
  shows "scheduleFor config event now (sub, u) (jobIds, s, q) =
     (if undelivered s event sub
      then (jobIds @ [''webhook-'' @ u], s\<lparr>ws_deliveries := ws_deliveries s @ [(u, newDelivery event now (sub, u))]\<rparr>,
            snd (InMemoryJobQueue_enqueue (deliveryCall config u (''webhook-'' @ u)) now q))
      else (jobIds, s, q))"
  using assms by (auto simp: scheduleFor_def undelivered_def newDelivery_def createDelivery_def jsmap_set_new Let_def deliveryCall_def
      InMemoryJobQueue_enqueue_def split: option.splits)

lemma undelivered_other:
  "sub_id sub' \<noteq> sub_id sub \<Longrightarrow>
     undelivered (s\<lparr>ws_deliveries := ws_deliveries s @ [(u, newDelivery event now (sub, u))]\<rparr>) event sub' = undelivered s event sub'"
  by (auto simp: undelivered_def findDelivery_def jsmap_values_def find_snoc split: option.splits)

lemma schedule_fold:
  assumes "distinct (map (sub_id \<circ> fst) sus)" "distinct (map snd sus)" "\<forall>su \<in> set sus. \<not> jsmap_has (ws_deliveries s) (snd su)"
  shows "fold (scheduleFor config event now) sus (jobIds, s, q) =
     (let due = filter (\<lambda>su. undelivered s event (fst su)) sus
      in (jobIds @ map (\<lambda>su. ''webhook-'' @ snd su) due,
          s\<lparr>ws_deliveries := ws_deliveries s @ map (\<lambda>su. (snd su, newDelivery event now su)) due\<rparr>,
          fold (\<lambda>su q. snd (InMemoryJobQueue_enqueue (deliveryCall config (snd su) (''webhook-'' @ snd su)) now q)) due q))"
  using assms
proof (induction sus arbitrary: jobIds s q)
  case (Cons su sus)
  obtain sub u where su: "su = (sub, u)" by (cases su)
  have fresh: "\<not> jsmap_has (ws_deliveries s) u" using Cons.prems(3) su by simp
  show ?case
  proof (cases "undelivered s event sub")
    case False
    then show ?thesis using Cons scheduleFor_step [OF fresh, of config event now sub] by (simp add: su)
  next
    case True
    let ?s = "s\<lparr>ws_deliveries := ws_deliveries s @ [(u, newDelivery event now (sub, u))]\<rparr>"
    have "filter (\<lambda>su. undelivered ?s event (fst su)) sus = filter (\<lambda>su. undelivered s event (fst su)) sus"
    proof (rule filter_cong [OF refl])
      fix x assume "x \<in> set sus"
      then have "sub_id (fst x) \<noteq> sub_id sub" using Cons.prems(1) su by (auto simp: image_iff)
      then show "undelivered ?s event (fst x) = undelivered s event (fst x)" by (simp add: undelivered_other)
    qed
    moreover have "\<forall>su \<in> set sus. \<not> jsmap_has (ws_deliveries ?s) (snd su)"
    proof
      fix x assume x: "x \<in> set sus"
      then have "\<not> jsmap_has (ws_deliveries s) (snd x)" "snd x \<noteq> u" using Cons.prems(2,3) su by auto
      then show "\<not> jsmap_has (ws_deliveries ?s) (snd x)" by (simp add: jsmap_has_iff)
    qed
    ultimately show ?thesis
      using Cons.IH [of ?s] Cons.prems True scheduleFor_step [OF fresh, of config event now sub] by (simp add: su Let_def)
  qed
qed simp

lemma enqueue_all_pending:
  "map job_payload (q_pending (fold (\<lambda>su q. snd (InMemoryJobQueue_enqueue (deliveryCall config (snd su) (f su)) now q)) due q)) =
     map job_payload (q_pending q) @ map snd due"
  by (induction due arbitrary: q) (simp_all add: InMemoryJobQueue_enqueue_def deliveryCall_def Let_def InMemoryJobQueue_scheduleIfNeeded_def)

text \<open>
  Scheduling an event fans out to exactly the active subscriptions of its type: for each one whose first recorded delivery of this event
  is not marked delivered (or that has none), one queued delivery is appended and one job is enqueued for it, in the order of the subscriptions;
  the identifiers of these jobs are returned and nothing else changes. A delivery of the same event that is still queued or
  failed does not prevent another one.
\<close>

theorem scheduleEvent_fans_out:
  assumes "distinct (map sub_id (matchingSubscriptions s event))" "inj_on uuids {..<length (matchingSubscriptions s event)}"
    and "\<forall>n < length (matchingSubscriptions s event). \<not> jsmap_has (ws_deliveries s) (uuids n)"
    and "scheduleEvent config uuids event now (s, q) = (jobIds, s', q')"
  shows "\<exists>ds. ws_deliveries s' = ws_deliveries s @ map (\<lambda>d. (od_id d, d)) ds \<and> ws_subscriptions s' = ws_subscriptions s \<and>
     map od_subscriptionId ds = map sub_id (filter (undelivered s event) (matchingSubscriptions s event)) \<and>
     list_all (\<lambda>d. od_status d = Queued \<and> od_eventId d = eventId event) ds \<and>
     jobIds = map (\<lambda>d. ''webhook-'' @ od_id d) ds \<and> map job_payload (q_pending q') = map job_payload (q_pending q) @ map od_id ds"
proof -
  let ?m = "matchingSubscriptions s event"
  let ?sus = "zip ?m (map uuids [0..<length ?m])"
  let ?due = "filter (\<lambda>su. undelivered s event (fst su)) ?sus"
  have d1: "distinct (map (sub_id \<circ> fst) ?sus)" using assms(1) by (simp flip: map_map)
  have d2: "distinct (map snd ?sus)" using assms(2) by (simp add: distinct_map atLeast0LessThan)
  have fr: "\<forall>su \<in> set ?sus. \<not> jsmap_has (ws_deliveries s) (snd su)" using assms(3) by (auto simp: set_zip)
  have ff: "map fst (filter (\<lambda>su. P (fst su)) ps) = filter P (map fst ps)" for P and ps :: "(OutboundWebhookSubscription \<times> string) list"
    by (induction ps) auto
  have "map sub_id (map fst ?due) = map sub_id (filter (undelivered s event) ?m)" by (simp only: ff) simp
  then show ?thesis
    using assms(4) schedule_fold [OF d1 d2 fr, of config event now "[]" q] enqueue_all_pending [of config _ now ?due q]
    by (intro exI [of _ "map (newDelivery event now) ?due"])
       (auto simp: scheduleEvent_def Let_def o_def list_all_iff)
qed

definition exampleSubscription :: OutboundWebhookSubscription where
  "exampleSubscription = \<lparr>sub_id = ''s1'', sub_url = ''https://a.example'', sub_eventTypes = DEFAULT_EVENT_TYPES, sub_active = True,
     sub_secretRef = ''WEBHOOK_SECRET'', sub_createdAt = 0, sub_updatedAt = 0\<rparr>"

definition exampleEvent :: domain_event where
  "exampleEvent = \<lparr>ev_type = ''credit.opened'', ev_occurredAt = 0, ev_creditLineId = ''L1'', ev_payload = []\<rparr>"

theorem scheduleEvent_fans_out_witness:
  "\<exists>jobIds s' q'. scheduleEvent exampleWebhookConfig (\<lambda>n. ''d'' @ digits_of_nat (n + 2)) exampleEvent 5
       (\<lparr>ws_subscriptions = [(''s1'', exampleSubscription)], ws_deliveries = [(''d1'', exampleDelivery)]\<rparr>, InMemoryJobQueue_new 1 500) = (jobIds, s', q') \<and>
     map job_payload (q_pending q') = map od_id (map snd (tl (ws_deliveries s'))) \<and> length (ws_deliveries s') = 2"
proof -
  let ?s = "\<lparr>ws_subscriptions = [(''s1'', exampleSubscription)], ws_deliveries = [(''d1'', exampleDelivery)]\<rparr>"
  let ?q = "InMemoryJobQueue_new 1 500 :: webhook_queue"
  obtain jobIds s' q' where r: "scheduleEvent exampleWebhookConfig (\<lambda>n. ''d'' @ digits_of_nat (n + 2)) exampleEvent 5 (?s, ?q) = (jobIds, s', q')"
    by (metis prod_cases3)
  have m: "matchingSubscriptions ?s exampleEvent = [exampleSubscription]"
    by (simp add: matchingSubscriptions_def listSubscriptions_def exampleSubscription_def exampleEvent_def DEFAULT_EVENT_TYPES_def jsmap_values_def)
  have e: "hd (eventId exampleEvent) = CHR ''c''" by (simp add: eventId_def exampleEvent_def)
  then have "eventId exampleEvent \<noteq> ''e1''" by auto
  then have u: "undelivered ?s exampleEvent exampleSubscription"
    by (auto simp: undelivered_def findDelivery_def jsmap_values_def exampleDelivery_def)
  have "digits_of_nat 2 \<noteq> ''1''" by code_simp
  then have f: "\<forall>n < length (matchingSubscriptions ?s exampleEvent). \<not> jsmap_has (ws_deliveries ?s) (''d'' @ digits_of_nat (n + 2))"
    unfolding m by (simp add: jsmap_has_def numeral_2_eq_2)
  have di: "distinct (map sub_id (matchingSubscriptions ?s exampleEvent))"
    "inj_on (\<lambda>n. ''d'' @ digits_of_nat (n + 2)) {..<length (matchingSubscriptions ?s exampleEvent)}" unfolding m by (simp_all add: inj_on_def)
  have sid: "map sub_id (filter (undelivered ?s exampleEvent) (matchingSubscriptions ?s exampleEvent)) = [''s1'']"
    unfolding m using u by (simp add: exampleSubscription_def)
  obtain ds where
    "ws_deliveries s' = (''d1'', exampleDelivery) # map (\<lambda>d. (od_id d, d)) ds" "map od_subscriptionId ds = [''s1'']"
    "map job_payload (q_pending q') = map job_payload (q_pending ?q) @ map od_id ds"
    using scheduleEvent_fans_out [OF di f r] unfolding sid webhook_store.select_convs append_Cons append_Nil by (elim exE conjE)
  moreover have "length ds = 1" using calculation(2) by (metis length_map length_Cons list.size(3) One_nat_def)
  ultimately show ?thesis using r by (simp add: InMemoryJobQueue_new_def)
qed

section \<open>The two stores differ\<close>

text \<open>After a failed attempt and a successful one, the in-memory store has cleared \<open>lastError\<close>; the Postgres store, whose update falls back to
  the stored value on \<open>undefined\<close>, still shows the old error on a delivered row.\<close>

lemma postgres_keeps_stale_error:
  "od_lastError (patchDelivery d (successPatch a st now) now) = None \<and>
   od_lastError (postgresPatch d (successPatch a st now) now) = od_lastError d"
  by (simp add: patchDelivery_def postgresPatch_def successPatch_def)

end
