(* ===== verification/ServiceAuth.thy ===== *)
theory ServiceAuth
  imports RateLimit CursorPagination JsDate
begin

text \<open>
  Authentication: rotating API keys (\<open>src/services/apiKeyStore.ts\<close>), signed service tokens
  (\<open>src/services/serviceTokens.ts\<close>) and the middlewares that check them (\<open>src/middleware/auth.ts\<close>, \<open>adminAuth.ts\<close>,
  \<open>serviceAuth.ts\<close>, \<open>src/config/apiKeys.ts\<close>). \<open>sha\<close> stands for the SHA-256 digest in hexadecimal and \<open>hmac\<close> for the
  HMAC-SHA256 of a key and a message, as bytes; strings are their UTF-8 bytes; random identifiers and secrets are arguments. \<open>ServiceTokenError m\<close> is \<open>Error m\<close>.
\<close>

section \<open>API keys\<close>

datatype ApiKeyStatus = KeyActive | KeyRevoked

record ApiKeyMetadata =
  ak_id :: string
  ak_label :: string
  ak_status :: ApiKeyStatus
  ak_createdAt :: time
  ak_revokedAt :: "time option"
  ak_graceExpiresAt :: "time option"

record ApiKeyRecord = ApiKeyMetadata +
  ak_hash :: string

datatype key_action = KeyIssued | KeyWithdrawn

record ApiKeyAuditEntry =
  ka_action :: key_action
  ka_keyId :: string
  ka_label :: string
  ka_at :: time

record api_key_store =
  aks_records :: "(string, ApiKeyRecord) jsmap"
  aks_audit :: "ApiKeyAuditEntry list"
  aks_gracePeriodMs :: int

definition DEFAULT_GRACE_PERIOD_MS :: int where
  "DEFAULT_GRACE_PERIOD_MS = 24 * 60 * 60 * 1000"

definition ApiKeyStore_new :: "int option \<Rightarrow> api_key_store" where
  "ApiKeyStore_new gracePeriodMs =
     \<lparr>aks_records = jsmap_empty, aks_audit = [], aks_gracePeriodMs = (case gracePeriodMs of Some g \<Rightarrow> g | None \<Rightarrow> DEFAULT_GRACE_PERIOD_MS)\<rparr>"

definition toMetadata :: "ApiKeyRecord \<Rightarrow> ApiKeyMetadata" where
  "toMetadata r = ApiKeyMetadata.truncate r"

text \<open>\<open>idHex\<close> and \<open>secretHex\<close> are the two random strings; the plaintext is \<open>ck_\<close> followed by the second.\<close>

definition ApiKeyStore_issue ::
  "(string \<Rightarrow> string) \<Rightarrow> string \<Rightarrow> string \<Rightarrow> string \<Rightarrow> time \<Rightarrow> api_key_store \<Rightarrow> (string \<times> string \<times> ApiKeyMetadata) \<times> api_key_store" where
  "ApiKeyStore_issue sha label idHex secretHex now s =
     (let plaintext = ''ck_'' @ secretHex;
          rec = \<lparr>ak_id = idHex, ak_label = label, ak_status = KeyActive, ak_createdAt = now, ak_revokedAt = None,
                 ak_graceExpiresAt = None, ak_hash = sha plaintext\<rparr>
      in ((idHex, plaintext, toMetadata rec),
          s\<lparr>aks_records := jsmap_set idHex rec (aks_records s),
            aks_audit := aks_audit s @ [\<lparr>ka_action = KeyIssued, ka_keyId = idHex, ka_label = label, ka_at = now\<rparr>]\<rparr>))"

definition ApiKeyStore_revoke :: "string \<Rightarrow> time \<Rightarrow> api_key_store \<Rightarrow> bool \<times> api_key_store" where
  "ApiKeyStore_revoke keyId now s =
     (case jsmap_get (aks_records s) keyId of
        None \<Rightarrow> (False, s)
      | Some rec \<Rightarrow>
          if ak_status rec = KeyRevoked then (True, s)
          else let updated = rec\<lparr>ak_status := KeyRevoked, ak_revokedAt := Some now, ak_graceExpiresAt := Some (now + aks_gracePeriodMs s)\<rparr>
               in (True, s\<lparr>aks_records := jsmap_set keyId updated (aks_records s),
                     aks_audit := aks_audit s @ [\<lparr>ka_action = KeyWithdrawn, ka_keyId = keyId, ka_label = ak_label rec, ka_at = now\<rparr>]\<rparr>))"

definition ApiKeyStore_list :: "api_key_store \<Rightarrow> ApiKeyMetadata list" where
  "ApiKeyStore_list s = map toMetadata (jsmap_values (aks_records s))"

definition ApiKeyStore_listWithCursor ::
  "(string \<Rightarrow> string \<Rightarrow> int) \<Rightarrow> string option \<Rightarrow> number option \<Rightarrow> api_key_store \<Rightarrow> js_error + ApiKeyMetadata CursorPage" where
  "ApiKeyStore_listWithCursor lc cursor limit s =
     paginateArray lc (ApiKeyStore_list s) cursor limit (\<lambda>m. \<lparr>ck_t = num_of_int (ak_createdAt m), ck_i = ak_id m\<rparr>) Asc False None"

definition timingSafeHexEqual :: "string \<Rightarrow> string \<Rightarrow> bool" where
  "timingSafeHexEqual a b \<longleftrightarrow> length a = length b \<and> a = b"

definition isUsable :: "ApiKeyRecord \<Rightarrow> time \<Rightarrow> bool" where
  "isUsable rec nowMs \<longleftrightarrow>
     (if ak_status rec = KeyActive then True
      else case ak_graceExpiresAt rec of None \<Rightarrow> False | Some g \<Rightarrow> nowMs \<le> g)"

definition ApiKeyStore_verify :: "(string \<Rightarrow> string) \<Rightarrow> string \<Rightarrow> time \<Rightarrow> api_key_store \<Rightarrow> bool" where
  "ApiKeyStore_verify sha presented nowMs s =
     (if presented = [] then False
      else fold (\<lambda>rec matched. if timingSafeHexEqual (ak_hash rec) (sha presented) \<and> isUsable rec nowMs then True else matched)
             (jsmap_values (aks_records s)) False)"

definition ApiKeyStore_auditLog :: "api_key_store \<Rightarrow> ApiKeyAuditEntry list" where
  "ApiKeyStore_auditLog s = aks_audit s"

fun action_text :: "key_action \<Rightarrow> string" where
  "action_text KeyIssued = ''issued''"
| "action_text KeyWithdrawn = ''revoked''"

definition ApiKeyStore_auditLogWithCursor ::
  "(string \<Rightarrow> string \<Rightarrow> int) \<Rightarrow> string option \<Rightarrow> number option \<Rightarrow> api_key_store \<Rightarrow> js_error + ApiKeyAuditEntry CursorPage" where
  "ApiKeyStore_auditLogWithCursor lc cursor limit s =
     paginateArray lc (aks_audit s) cursor limit
       (\<lambda>e. \<lparr>ck_t = num_of_int (ka_at e), ck_i = ka_keyId e @ '':'' @ action_text (ka_action e) @ '':'' @ toISOString (ka_at e)\<rparr>) Desc False None"

definition env_keys :: "string option \<Rightarrow> string list" where
  "env_keys raw = filter (\<lambda>k. k \<noteq> []) (map js_trim (js_split (CHR '','') (case raw of Some r \<Rightarrow> r | None \<Rightarrow> [])))"

definition seedFromEnv :: "(string \<Rightarrow> string) \<Rightarrow> string option \<Rightarrow> time \<Rightarrow> api_key_store \<Rightarrow> nat \<times> api_key_store" where
  "seedFromEnv sha raw now s =
     (length (env_keys raw),
      fold (\<lambda>key s. let keyId = ''env_'' @ take 12 (sha key)
                     in s\<lparr>aks_records := jsmap_set keyId \<lparr>ak_id = keyId, ak_label = ''env-seed'', ak_status = KeyActive, ak_createdAt = now,
                            ak_revokedAt = None, ak_graceExpiresAt = None, ak_hash = sha key\<rparr> (aks_records s)\<rparr>)
        (env_keys raw) s)"

section \<open>Service tokens\<close>

type_synonym signing_key = "string \<times> string"

definition DEFAULT_TTL_SECONDS :: number where
  "DEFAULT_TTL_SECONDS = Fin 300"

definition KEY_RETENTION :: nat where
  "KEY_RETENTION = 3"

definition registry_current :: "signing_key list \<Rightarrow> js_error + signing_key" where
  "registry_current keys = (case keys of [] \<Rightarrow> Inl (Error ''No signing key configured'') | k # _ \<Rightarrow> Inr k)"

definition registry_getSecret :: "signing_key list \<Rightarrow> string \<Rightarrow> string option" where
  "registry_getSecret keys kid = map_option snd (List.find (\<lambda>k. fst k = kid) keys)"

definition registry_rotate :: "signing_key \<Rightarrow> signing_key list \<Rightarrow> signing_key list" where
  "registry_rotate key keys = take KEY_RETENTION (key # keys)"

definition initial_registry :: "string option \<Rightarrow> string option \<Rightarrow> string \<Rightarrow> signing_key list" where
  "initial_registry envSecret envKid randomSecret =
     [(case envKid of Some k \<Rightarrow> k | None \<Rightarrow> ''initial'', case envSecret of Some s \<Rightarrow> s | None \<Rightarrow> randomSecret)]"

record ServiceTokenClaims =
  st_sub :: string
  st_permissions :: "string list"

record VerifiedServiceToken =
  vt_sub :: string
  vt_permissions :: "json list"
  vt_kid :: string

definition nowSeconds :: "time \<Rightarrow> number" where
  "nowSeconds ms = num_floor (num_div (num_of_int ms) (Fin 1000))"

definition token_header :: "string \<Rightarrow> json" where
  "token_header kid = JObj [(''alg'', JStr ''HS256''), (''typ'', JStr ''JWT''), (''kid'', JStr kid)]"

definition token_payload :: "ServiceTokenClaims \<Rightarrow> number \<Rightarrow> number \<Rightarrow> json" where
  "token_payload claims iat expiry = JObj
     [(''iss'', JStr ''creditra-backend''), (''aud'', JStr ''creditra-internal''), (''sub'', JStr (st_sub claims)),
      (''permissions'', JArr (map JStr (st_permissions claims))), (''iat'', JNum iat), (''exp'', JNum expiry)]"

definition mintServiceToken ::
  "(string \<Rightarrow> string \<Rightarrow> string) \<Rightarrow> signing_key list \<Rightarrow> ServiceTokenClaims \<Rightarrow> number \<Rightarrow> time \<Rightarrow> js_error + (string \<times> string)" where
  "mintServiceToken hmac keys claims ttlSeconds ms =
     (case registry_current keys of
        Inl e \<Rightarrow> Inl e
      | Inr (kid, secret) \<Rightarrow>
          let now = nowSeconds ms; expiry = num_add now ttlSeconds;
              signingInput = b64url_encode (json_stringify (token_header kid)) @ ''.'' @ b64url_encode (json_stringify (token_payload claims now expiry))
          in (case Date_toISOString (num_mul expiry (Fin 1000)) of
                Inl e \<Rightarrow> Inl e
              | Inr expiresAt \<Rightarrow> Inr (signingInput @ ''.'' @ b64url_encode (hmac secret signingInput), expiresAt)))"

text \<open>Reading \<open>parsed.k\<close>: on \<open>null\<close> a \<open>TypeError\<close>, which the callers do not catch as a token error.\<close>

definition field_of :: "json \<Rightarrow> string \<Rightarrow> js_error + json option" where
  "field_of parsed k = (if parsed = JNull then Inl (TypeError ''Cannot read properties of null'') else Inr (json_field parsed k))"

fun js_falsy :: "json option \<Rightarrow> bool" where
  "js_falsy None = True"
| "js_falsy (Some JNull) = True"
| "js_falsy (Some (JBool b)) = (\<not> b)"
| "js_falsy (Some (JNum x)) = (x = NaN \<or> x = Fin 0)"
| "js_falsy (Some (JStr s)) = (s = [])"
| "js_falsy _ = False"

definition verifyClaims :: "json \<Rightarrow> string \<Rightarrow> time \<Rightarrow> js_error + VerifiedServiceToken" where
  "verifyClaims payload kid ms =
     (if payload = JNull then Inl (TypeError ''Cannot read properties of null'')
      else if json_field payload ''iss'' \<noteq> Some (JStr ''creditra-backend'') then Inl (Error ''Invalid issuer'')
      else if json_field payload ''aud'' \<noteq> Some (JStr ''creditra-internal'') then Inl (Error ''Invalid audience'')
      else (case json_field payload ''sub'' of
              Some (JStr sub) \<Rightarrow>
                if sub = [] then Inl (Error ''Missing subject'')
                else (case json_field payload ''exp'' of
                        Some (JNum expiry) \<Rightarrow>
                          if num_ge (nowSeconds ms) expiry then Inl (Error ''Token expired'')
                          else Inr \<lparr>vt_sub = sub,
                                 vt_permissions = (case json_field payload ''permissions'' of Some (JArr ps) \<Rightarrow> ps | _ \<Rightarrow> []), vt_kid = kid\<rparr>
                      | _ \<Rightarrow> Inl (Error ''Token expired''))
            | _ \<Rightarrow> Inl (Error ''Missing subject'')))"

definition verifyParts ::
  "(string \<Rightarrow> string \<Rightarrow> string) \<Rightarrow> signing_key list \<Rightarrow> time \<Rightarrow> string \<Rightarrow> string \<Rightarrow> string \<Rightarrow> js_error + VerifiedServiceToken" where
  "verifyParts hmac keys ms headerPart payloadPart signaturePart =
     (case (JSON_parse (b64_decode headerPart), JSON_parse (b64_decode payloadPart)) of
        (Some header, Some payload) \<Rightarrow>
          if header = JNull then Inl (TypeError ''Cannot read properties of null'')
          else if json_field header ''alg'' \<noteq> Some (JStr ''HS256'') \<or> js_falsy (json_field header ''kid'')
            then Inl (Error ''Unsupported or missing key id'')
          else (case json_field header ''kid'' of
                  Some (JStr kid) \<Rightarrow>
                    (case registry_getSecret keys kid of
                       None \<Rightarrow> Inl (Error ''Unknown or expired signing key'')
                     | Some secret \<Rightarrow>
                         if secret = [] then Inl (Error ''Unknown or expired signing key'')
                         else if hmac secret (headerPart @ ''.'' @ payloadPart) \<noteq> b64_decode signaturePart then Inl (Error ''Invalid signature'')
                         else verifyClaims payload kid ms)
                | _ \<Rightarrow> Inl (Error ''Unknown or expired signing key''))
      | _ \<Rightarrow> Inl (Error ''Malformed token''))"

definition verifyServiceToken ::
  "(string \<Rightarrow> string \<Rightarrow> string) \<Rightarrow> signing_key list \<Rightarrow> time \<Rightarrow> string \<Rightarrow> js_error + VerifiedServiceToken" where
  "verifyServiceToken hmac keys ms token =
     (case js_split (CHR ''.'') token of
        [headerPart, payloadPart, signaturePart] \<Rightarrow> verifyParts hmac keys ms headerPart payloadPart signaturePart
      | _ \<Rightarrow> Inl (Error ''Malformed token''))"

section \<open>Middlewares\<close>

datatype auth_response = AuthNext | Unauthorized string | Forbidden string | ServiceUnavailable string

definition loadApiKeys :: "string option \<Rightarrow> js_error + string list" where
  "loadApiKeys raw =
     (let keys = env_keys raw
      in if keys = [] then Inl (Error (''API_KEYS environment variable is not set or contains no valid entries. '' @
              ''Set it to a comma-separated list of secret keys before starting the service.''))
         else Inr (fold jsset_add keys []))"

definition first_header :: "http_request \<Rightarrow> string \<Rightarrow> string" where
  "first_header req name =
     (case jsmap_get (rq_headers req) name of
        Some (HStr v) \<Rightarrow> v
      | Some (HArr (v # _)) \<Rightarrow> v
      | _ \<Rightarrow> [])"

definition requireApiKey :: "string list \<Rightarrow> http_request \<Rightarrow> auth_response" where
  "requireApiKey keys req =
     (let provided = first_header req ''x-api-key''
      in if provided = [] then Unauthorized ''Unauthorized''
         else if list_ex (\<lambda>key. length key = length provided \<and> key = provided) keys then AuthNext
         else Forbidden ''Forbidden'')"

definition adminAuth :: "(string \<Rightarrow> string) \<Rightarrow> string option \<Rightarrow> http_request \<Rightarrow> auth_response" where
  "adminAuth sha expectedKey req =
     (case truthy expectedKey of
        None \<Rightarrow> ServiceUnavailable ''Admin authentication is not configured on this server.''
      | Some expected \<Rightarrow>
          (case jsmap_get (rq_headers req) ''x-admin-api-key'' of
             Some (HStr provided) \<Rightarrow>
               if timingSafeStringEqual sha provided expected then AuthNext
               else Unauthorized ''Unauthorized: valid X-Admin-Api-Key header is required.''
           | _ \<Rightarrow> Unauthorized ''Unauthorized: valid X-Admin-Api-Key header is required.''))"

text \<open>The second component is the \<open>serviceAccount\<close> the middleware attaches to the request.\<close>

definition requireServiceToken ::
  "(string \<Rightarrow> string \<Rightarrow> string) \<Rightarrow> signing_key list \<Rightarrow> string option \<Rightarrow> time \<Rightarrow> http_request \<Rightarrow> auth_response \<times> VerifiedServiceToken option" where
  "requireServiceToken hmac keys requiredPermission ms req =
     (case jsmap_get (rq_headers req) ''authorization'' of
        Some (HStr header) \<Rightarrow>
          if \<not> starts_with ''Bearer '' header then (Unauthorized ''Unauthorized: Bearer service token required.'', None)
          else (case verifyServiceToken hmac keys ms (drop 7 header) of
                  Inl _ \<Rightarrow> (Forbidden ''Forbidden: invalid or expired service token.'', None)
                | Inr claims \<Rightarrow>
                    (case truthy requiredPermission of
                       Some p \<Rightarrow>
                         if JStr p \<notin> set (vt_permissions claims) then (Forbidden ''Forbidden: token lacks required permission.'', None)
                         else (AuthNext, Some claims)
                     | None \<Rightarrow> (AuthNext, Some claims)))
      | _ \<Rightarrow> (Unauthorized ''Unauthorized: Bearer service token required.'', None))"

section \<open>The life of an API key\<close>

datatype key_op = OpIssue string string string time | OpRevoke string time

fun key_op_run :: "(string \<Rightarrow> string) \<Rightarrow> key_op \<Rightarrow> api_key_store \<Rightarrow> api_key_store" where
  "key_op_run sha (OpIssue label idHex secretHex now) s = snd (ApiKeyStore_issue sha label idHex secretHex now s)"
| "key_op_run sha (OpRevoke keyId now) s = snd (ApiKeyStore_revoke keyId now s)"

fun revoked_at :: "string \<Rightarrow> key_op list \<Rightarrow> time option" where
  "revoked_at keyId [] = None"
| "revoked_at keyId (OpRevoke i t # ops) = (if i = keyId then Some t else revoked_at keyId ops)"
| "revoked_at keyId (OpIssue _ _ _ _ # ops) = revoked_at keyId ops"

fun reissues :: "string \<Rightarrow> key_op \<Rightarrow> bool" where
  "reissues keyId (OpIssue _ i _ _) = (i = keyId)"
| "reissues keyId (OpRevoke _ _) = False"

lemma verify_iff:
  "ApiKeyStore_verify sha presented now s \<longleftrightarrow>
     presented \<noteq> [] \<and> (\<exists>r \<in> set (jsmap_values (aks_records s)). ak_hash r = sha presented \<and> isUsable r now)"
proof -
  have "fold (\<lambda>r m. if P r then True else m) rs b \<longleftrightarrow> b \<or> (\<exists>r \<in> set rs. P r)" for P :: "ApiKeyRecord \<Rightarrow> bool" and rs b
    by (induction rs arbitrary: b) auto
  moreover have "timingSafeHexEqual a b \<longleftrightarrow> a = b" for a b by (auto simp: timingSafeHexEqual_def)
  ultimately show ?thesis by (simp add: ApiKeyStore_verify_def)
qed

text \<open>What a record and the audit trail of one key look like after a sequence of operations that does not issue it again.\<close>

definition key_state :: "ApiKeyRecord \<Rightarrow> int \<Rightarrow> time option \<Rightarrow> ApiKeyRecord" where
  "key_state r grace t =
     (case t of None \<Rightarrow> r | Some u \<Rightarrow> r\<lparr>ak_status := KeyRevoked, ak_revokedAt := Some u, ak_graceExpiresAt := Some (u + grace)\<rparr>)"

definition key_trail :: "string \<Rightarrow> api_key_store \<Rightarrow> ApiKeyAuditEntry list" where
  "key_trail keyId s = filter (\<lambda>e. ka_keyId e = keyId) (aks_audit s)"

lemma run_other:
  assumes "\<not> reissues keyId op" "\<forall>t. op \<noteq> OpRevoke keyId t"
  shows "jsmap_get (aks_records (key_op_run sha op s)) keyId = jsmap_get (aks_records s) keyId \<and> key_trail keyId (key_op_run sha op s) = key_trail keyId s \<and>
     aks_gracePeriodMs (key_op_run sha op s) = aks_gracePeriodMs s"
  using assms by (cases op) (auto simp: ApiKeyStore_issue_def ApiKeyStore_revoke_def key_trail_def Let_def split: option.splits)

lemma run_keeps_invar: "jsmap_invar (aks_records s) \<Longrightarrow> jsmap_invar (aks_records (key_op_run sha op s))"
  by (cases op) (auto simp: ApiKeyStore_issue_def ApiKeyStore_revoke_def Let_def split: option.splits)

lemma run_revoked:
  assumes "jsmap_get (aks_records s) keyId = Some r" "ak_status r = KeyRevoked" "\<forall>op \<in> set ops. \<not> reissues keyId op"
  shows "jsmap_get (aks_records (fold (key_op_run sha) ops s)) keyId = Some r \<and> key_trail keyId (fold (key_op_run sha) ops s) = key_trail keyId s"
  using assms
proof (induction ops arbitrary: s)
  case (Cons op ops)
  have "jsmap_get (aks_records (key_op_run sha op s)) keyId = Some r \<and> key_trail keyId (key_op_run sha op s) = key_trail keyId s"
  proof (cases "\<exists>t. op = OpRevoke keyId t")
    case True
    then show ?thesis using Cons.prems(1,2) by (auto simp: ApiKeyStore_revoke_def)
  next
    case False
    then show ?thesis using run_other [of keyId op sha s] Cons.prems(1,3) by simp
  qed
  then show ?case using Cons by simp
qed simp

lemma run_active:
  assumes "jsmap_get (aks_records s) keyId = Some r" "ak_status r = KeyActive" "\<forall>op \<in> set ops. \<not> reissues keyId op"
  shows "jsmap_get (aks_records (fold (key_op_run sha) ops s)) keyId = Some (key_state r (aks_gracePeriodMs s) (revoked_at keyId ops)) \<and>
     key_trail keyId (fold (key_op_run sha) ops s) = key_trail keyId s @
       (case revoked_at keyId ops of None \<Rightarrow> [] | Some t \<Rightarrow> [\<lparr>ka_action = KeyWithdrawn, ka_keyId = keyId, ka_label = ak_label r, ka_at = t\<rparr>])"
  using assms
proof (induction ops arbitrary: s)
  case (Cons op ops)
  show ?case
  proof (cases "\<exists>t. op = OpRevoke keyId t")
    case True
    then obtain t where op: "op = OpRevoke keyId t" by blast
    let ?r = "key_state r (aks_gracePeriodMs s) (Some t)"
    have "jsmap_get (aks_records (key_op_run sha op s)) keyId = Some ?r" "ak_status ?r = KeyRevoked"
      "key_trail keyId (key_op_run sha op s) = key_trail keyId s @ [\<lparr>ka_action = KeyWithdrawn, ka_keyId = keyId, ka_label = ak_label r, ka_at = t\<rparr>]"
      using Cons.prems(1,2) by (simp_all add: op ApiKeyStore_revoke_def key_state_def key_trail_def Let_def)
    then show ?thesis using run_revoked [of "key_op_run sha op s" keyId ?r ops sha] Cons.prems(3) by (simp add: op)
  next
    case False
    then have "revoked_at keyId (op # ops) = revoked_at keyId ops" by (cases op) auto
    moreover have "jsmap_get (aks_records (key_op_run sha op s)) keyId = Some r" "key_trail keyId (key_op_run sha op s) = key_trail keyId s"
      "aks_gracePeriodMs (key_op_run sha op s) = aks_gracePeriodMs s"
      using run_other [of keyId op sha s] False Cons.prems(1,3) by simp_all
    ultimately show ?thesis using Cons.IH [of "key_op_run sha op s"] Cons.prems(2,3) by simp
  qed
qed (simp add: key_state_def)

text \<open>
  C34. The life of an API key. After a key is issued under a fresh identifier, and whatever other keys are issued or revoked since, the plaintext
  handed out verifies until its first revocation and then until the end of the grace period counted from that first
  revocation (revoking again does not extend it), and not after, if no other stored key has its digest. The audit trail of the key is
  its issue followed by at most one revocation, and only the digest of the plaintext is stored.
\<close>

theorem api_key_lifecycle:
  assumes "jsmap_invar (aks_records s)" "key_trail keyId s = []" "\<forall>op \<in> set ops. \<not> reissues keyId op"
    and "s' = fold (key_op_run sha) ops (snd (ApiKeyStore_issue sha label keyId secretHex t0 s))"
    and "\<forall>k r. jsmap_get (aks_records s') k = Some r \<and> ak_hash r = sha (''ck_'' @ secretHex) \<longrightarrow> k = keyId"
  shows "(ApiKeyStore_verify sha (''ck_'' @ secretHex) now s' \<longleftrightarrow>
       (case revoked_at keyId ops of None \<Rightarrow> True | Some t \<Rightarrow> now \<le> t + aks_gracePeriodMs s)) \<and>
     key_trail keyId s' = \<lparr>ka_action = KeyIssued, ka_keyId = keyId, ka_label = label, ka_at = t0\<rparr> #
       (case revoked_at keyId ops of None \<Rightarrow> [] | Some t \<Rightarrow> [\<lparr>ka_action = KeyWithdrawn, ka_keyId = keyId, ka_label = label, ka_at = t\<rparr>])"
proof -
  let ?r = "\<lparr>ak_id = keyId, ak_label = label, ak_status = KeyActive, ak_createdAt = t0, ak_revokedAt = None, ak_graceExpiresAt = None,
      ak_hash = sha (''ck_'' @ secretHex)\<rparr>"
  let ?s = "snd (ApiKeyStore_issue sha label keyId secretHex t0 s)"
  have g: "jsmap_get (aks_records ?s) keyId = Some ?r" "ak_status ?r = KeyActive" "aks_gracePeriodMs ?s = aks_gracePeriodMs s"
    "key_trail keyId ?s = [\<lparr>ka_action = KeyIssued, ka_keyId = keyId, ka_label = label, ka_at = t0\<rparr>]" "jsmap_invar (aks_records ?s)"
    using assms(1,2) by (simp_all add: ApiKeyStore_issue_def key_trail_def Let_def)
  have inv: "jsmap_invar (aks_records (fold (key_op_run sha) ops u))" if "jsmap_invar (aks_records u)" for u
    using that by (induction ops arbitrary: u) (simp_all add: run_keeps_invar)
  have r: "jsmap_get (aks_records s') keyId = Some (key_state ?r (aks_gracePeriodMs s) (revoked_at keyId ops))"
    and tr: "key_trail keyId s' = \<lparr>ka_action = KeyIssued, ka_keyId = keyId, ka_label = label, ka_at = t0\<rparr> #
       (case revoked_at keyId ops of None \<Rightarrow> [] | Some t \<Rightarrow> [\<lparr>ka_action = KeyWithdrawn, ka_keyId = keyId, ka_label = label, ka_at = t\<rparr>])"
    using run_active [OF g(1,2) assms(3), of sha] g(3,4) by (simp_all add: assms(4) split: option.splits)
  let ?k = "key_state ?r (aks_gracePeriodMs s) (revoked_at keyId ops)"
  have vals: "q \<in> set (jsmap_values (aks_records s')) \<longleftrightarrow> (\<exists>k. jsmap_get (aks_records s') k = Some q)" for q
    using jsmap_values_iff inv [OF g(5)] by (simp add: assms(4))
  have "ApiKeyStore_verify sha (''ck_'' @ secretHex) now s' \<longleftrightarrow> isUsable ?k now"
  proof
    assume "ApiKeyStore_verify sha (''ck_'' @ secretHex) now s'"
    then obtain k q where "jsmap_get (aks_records s') k = Some q" "ak_hash q = sha (''ck_'' @ secretHex)" "isUsable q now"
      by (auto simp: verify_iff vals)
    then show "isUsable ?k now" using assms(5) r by auto
  next
    assume "isUsable ?k now"
    moreover have "ak_hash ?k = sha (''ck_'' @ secretHex)" by (simp add: key_state_def split: option.splits)
    moreover have "?k \<in> set (jsmap_values (aks_records s'))" using r vals by blast
    ultimately show "ApiKeyStore_verify sha (''ck_'' @ secretHex) now s'" unfolding verify_iff by (intro conjI bexI [of _ ?k]) simp_all
  qed
  then show ?thesis using tr by (simp add: isUsable_def key_state_def split: option.splits)
qed

theorem api_key_lifecycle_witness:
  "ApiKeyStore_verify (\<lambda>x. x) ''ck_s1'' 150 (fold (key_op_run (\<lambda>x. x)) [OpIssue ''b'' ''k2'' ''s2'' 20, OpRevoke ''k1'' 60, OpRevoke ''k1'' 90]
     (snd (ApiKeyStore_issue (\<lambda>x. x) ''a'' ''k1'' ''s1'' 10 (ApiKeyStore_new (Some 100)))))"
proof -
  let ?ops = "[OpIssue ''b'' ''k2'' ''s2'' 20, OpRevoke ''k1'' 60, OpRevoke ''k1'' 90]"
  let ?s' = "fold (key_op_run (\<lambda>x. x)) ?ops (snd (ApiKeyStore_issue (\<lambda>x. x) ''a'' ''k1'' ''s1'' 10 (ApiKeyStore_new (Some 100))))"
  have "list_all (\<lambda>(k, r). ak_hash r = ''ck_s1'' \<longrightarrow> k = ''k1'') (aks_records ?s')" by code_simp
  then have "\<forall>k r. jsmap_get (aks_records ?s') k = Some r \<and> ak_hash r = ''ck_'' @ ''s1'' \<longrightarrow> k = ''k1''"
    by (auto simp: list_all_iff jsmap_get_def dest: map_of_SomeD)
  moreover have "jsmap_invar (aks_records (ApiKeyStore_new (Some 100)))" "key_trail ''k1'' (ApiKeyStore_new (Some 100)) = []"
    "aks_gracePeriodMs (ApiKeyStore_new (Some 100)) = 100"
    by (simp_all add: ApiKeyStore_new_def key_trail_def jsmap_invar_def jsmap_empty_def)
  ultimately show ?thesis
    using api_key_lifecycle [of "ApiKeyStore_new (Some 100)" "''k1''" ?ops ?s' "\<lambda>x. x" "''a''" "''s1''" 10 150]
    by (simp del: fold_simps fold.simps key_op_run.simps)
qed

section \<open>The life of a service token\<close>

lemma registry_rotations: "fold registry_rotate ks keys = (if ks = [] then keys else take KEY_RETENTION (rev ks @ keys))"
proof (induction ks arbitrary: keys)
  case (Cons k ks)
  have "take KEY_RETENTION (rev ks @ take KEY_RETENTION (k # keys)) = take KEY_RETENTION (rev ks @ k # keys)"
    by (simp add: take_append min_def)
  then show ?case using Cons by (simp add: registry_rotate_def)
qed simp

lemma getSecret_after_rotations:
  assumes "kid \<notin> fst ` set ks"
  shows "registry_getSecret (fold registry_rotate ks ((kid, secret) # older)) kid = (if length ks < KEY_RETENTION then Some secret else None)"
proof -
  have none: "List.find (\<lambda>k. fst k = kid) (take n (rev ks)) = None" for n
    using assms by (force simp: find_None_iff dest!: in_set_takeD)
  have app: "List.find P (xs @ ys) = (case List.find P xs of None \<Rightarrow> List.find P ys | Some x \<Rightarrow> Some x)" for P and xs ys :: "signing_key list"
    by (induction xs) auto
  show ?thesis using none [of KEY_RETENTION]
    by (auto simp: registry_rotations registry_getSecret_def app KEY_RETENTION_def take_Cons' split: if_splits)
qed

lemma nowSeconds_double:
  assumes "0 \<le> ms" "ms < 2 ^ 53"
  obtains i where "nowSeconds ms = num_of_int i" "is_double (num_of_int i)" "0 \<le> i"
proof -
  have d: "is_double (num_of_int ms)" using assms by (intro is_double_int) simp
  have "(0::rat) \<le> of_int ms / 1000" "of_int ms / 1000 \<le> (of_int ms :: rat)" using assms(1) by (simp_all add: field_simps)
  then obtain v where v: "dround (of_int ms / 1000) = Fin v" "0 \<le> v" "v \<le> of_int ms" using d by (rule dround_le_Fin)
  have f: "0 \<le> \<lfloor>v\<rfloor>" "\<lfloor>v\<rfloor> \<le> ms" using v(2,3) by (simp_all add: floor_le_iff)
  then have "\<bar>\<lfloor>v\<rfloor>\<bar> < 2 ^ 53" using assms(2) by linarith
  then show ?thesis using that [of "\<lfloor>v\<rfloor>"] is_double_int f(1) by (simp add: nowSeconds_def v(1))
qed

lemma json_roundtrip_strings [simp]: "list_all json_ok (map JStr xs)"
  by (simp add: list_all_iff)

lemma minted_token_parts:
  assumes "mintServiceToken hmac ((kid, secret) # older) claims ttl ms = Inr (token, expiresAt)"
    and "header = b64url_encode (json_stringify (token_header kid))"
    and "payload = b64url_encode (json_stringify (token_payload claims (nowSeconds ms) (num_add (nowSeconds ms) ttl)))"
  shows "js_split (CHR ''.'') token = [header, payload, b64url_encode (hmac secret (header @ ''.'' @ payload))]"
    and "num_isFinite (num_add (nowSeconds ms) ttl)"
proof -
  let ?e = "num_add (nowSeconds ms) ttl"
  have t: "token = header @ CHR ''.'' # payload @ CHR ''.'' # b64url_encode (hmac secret (header @ ''.'' @ payload))"
    and x: "\<exists>x. Date_toISOString (num_mul ?e (Fin 1000)) = Inr x"
    using assms by (auto simp: mintServiceToken_def registry_current_def Let_def split: sum.splits)
  have d: "CHR ''.'' \<notin> set header" "CHR ''.'' \<notin> set payload" using b64url_no_dot assms(2,3) by simp_all
  show "js_split (CHR ''.'') token = [header, payload, b64url_encode (hmac secret (header @ ''.'' @ payload))]"
    unfolding t by (simp only: js_split_first [OF d(1)] js_split_first [OF d(2)] js_split_none [OF b64url_no_dot])
  show "num_isFinite ?e" using x by (cases ?e) (simp_all add: inf_of_sign_def)
qed

lemma verifyParts_issued:
  assumes "json_ok (token_payload claims iat expiry)" "st_sub claims \<noteq> []" "kid \<noteq> []" "secret \<noteq> []"
    and "registry_getSecret keys kid \<in> {None, Some secret}"
    and "header = b64url_encode (json_stringify (token_header kid))" "payload = b64url_encode (json_stringify (token_payload claims iat expiry))"
  shows "verifyParts hmac keys now header payload (b64url_encode (hmac secret (header @ ''.'' @ payload))) =
     (if registry_getSecret keys kid = None then Inl (Error ''Unknown or expired signing key'')
      else if num_ge (nowSeconds now) expiry then Inl (Error ''Token expired'')
      else Inr \<lparr>vt_sub = st_sub claims, vt_permissions = map JStr (st_permissions claims), vt_kid = kid\<rparr>)"
proof -
  have "JSON_parse (b64_decode payload) = Some (token_payload claims iat expiry)" unfolding assms(7) b64_roundtrip using assms(1) by (rule json_roundtrip)
  moreover have "json_ok (token_header kid)" by (simp add: token_header_def)
  then have "JSON_parse (b64_decode header) = Some (token_header kid)" unfolding assms(6) b64_roundtrip by (rule json_roundtrip)
  moreover have "verifyClaims (token_payload claims iat expiry) kid now =
      (if num_ge (nowSeconds now) expiry then Inl (Error ''Token expired'')
       else Inr \<lparr>vt_sub = st_sub claims, vt_permissions = map JStr (st_permissions claims), vt_kid = kid\<rparr>)"
    using assms(2) by (simp add: verifyClaims_def token_payload_def jsmap_get_def)
  moreover have "json_field (token_header kid) ''alg'' = Some (JStr ''HS256'')" "json_field (token_header kid) ''kid'' = Some (JStr kid)"
    "token_header kid \<noteq> JNull"
    by (simp_all add: token_header_def jsmap_get_def)
  ultimately show ?thesis using assms(3-5) by (auto simp: verifyParts_def)
qed

text \<open>
  Rotation without downtime. A token minted under the current signing key is accepted, with the subject, the permissions and the key
  identifier it was minted with, after fewer than \<open>KEY_RETENTION\<close> rotations of the signing key, and exactly while the clock in whole
  seconds is below its expiry; from the third rotation on it is refused as signed by an unknown key. The clock at minting is a time value of JavaScript.
\<close>

theorem service_token_roundtrip:
  assumes "0 \<le> ms" "ms < 2 ^ 53" "is_double ttl" "st_sub claims \<noteq> []" "kid \<noteq> []" "secret \<noteq> []"
    and "mintServiceToken hmac ((kid, secret) # older) claims ttl ms = Inr (token, expiresAt)"
    and "kid \<notin> fst ` set ks"
  shows "verifyServiceToken hmac (fold registry_rotate ks ((kid, secret) # older)) now token =
     (if length ks \<ge> KEY_RETENTION then Inl (Error ''Unknown or expired signing key'')
      else if num_ge (nowSeconds now) (num_add (nowSeconds ms) ttl) then Inl (Error ''Token expired'')
      else Inr \<lparr>vt_sub = st_sub claims, vt_permissions = map JStr (st_permissions claims), vt_kid = kid\<rparr>)"
proof -
  let ?e = "num_add (nowSeconds ms) ttl"
  define header where "header = b64url_encode (json_stringify (token_header kid))"
  define payload where "payload = b64url_encode (json_stringify (token_payload claims (nowSeconds ms) ?e))"
  note hp = header_def payload_def minted_token_parts [OF assms(7) header_def payload_def]
  obtain i where i: "nowSeconds ms = num_of_int i" "is_double (num_of_int i)" using assms(1,2) by (rule nowSeconds_double)
  have "is_double ?e" using i assms(3) by (simp del: num_add.simps)
  then have "json_ok (token_payload claims (nowSeconds ms) ?e)" using hp(4) i by (simp add: token_payload_def)
  then show ?thesis
    using verifyParts_issued [OF _ assms(4,5,6) _ header_def payload_def, of "fold registry_rotate ks ((kid, secret) # older)" hmac now]
    by (simp add: verifyServiceToken_def hp(3) getSecret_after_rotations [OF assms(8)])
qed

theorem service_token_roundtrip_witness:
  "\<exists>token expiresAt. mintServiceToken (\<lambda>k m. k @ m) [(''initial'', ''s3cret'')] \<lparr>st_sub = ''worker'', st_permissions = [''reconcile'']\<rparr> DEFAULT_TTL_SECONDS 1700000000000 =
       Inr (token, expiresAt) \<and>
     verifyServiceToken (\<lambda>k m. k @ m) (fold registry_rotate [(''k1'', ''a''), (''k2'', ''b'')] [(''initial'', ''s3cret'')]) 1700000299000 token =
       Inr \<lparr>vt_sub = ''worker'', vt_permissions = [JStr ''reconcile''], vt_kid = ''initial''\<rparr>"
proof -
  let ?c = "\<lparr>st_sub = ''worker'', st_permissions = [''reconcile'']\<rparr>"
  have n: "nowSeconds 1700000000000 = Fin 1700000000" "nowSeconds 1700000299000 = Fin 1700000299"
    "num_add (Fin 1700000000) DEFAULT_TTL_SECONDS = Fin 1700000300"
    using dround_int [of 1700000000] dround_int [of 1700000299] by (simp_all add: nowSeconds_def DEFAULT_TTL_SECONDS_def)
  have "\<exists>token expiresAt. mintServiceToken (\<lambda>k m. k @ m) [(''initial'', ''s3cret'')] ?c DEFAULT_TTL_SECONDS 1700000000000 = Inr (token, expiresAt)"
    by (simp add: mintServiceToken_def registry_current_def n Let_def)
  then obtain token expiresAt where m: "mintServiceToken (\<lambda>k m. k @ m) [(''initial'', ''s3cret'')] ?c DEFAULT_TTL_SECONDS 1700000000000 = Inr (token, expiresAt)"
    by (elim exE)
  moreover have "is_double DEFAULT_TTL_SECONDS" using is_double_int [of 300] by (simp add: DEFAULT_TTL_SECONDS_def)
  ultimately show ?thesis
    using service_token_roundtrip [of 1700000000000 DEFAULT_TTL_SECONDS ?c "''initial''" "''s3cret''" "\<lambda>k m. k @ m" "[]" token expiresAt "[(''k1'', ''a''), (''k2'', ''b'')]" 1700000299000]
    by (intro exI conjI) (assumption, simp add: n KEY_RETENTION_def)
qed

lemma verifyClaims_accepts:
  assumes "verifyClaims p kid ms = Inr claims"
  shows "json_field p ''iss'' = Some (JStr ''creditra-backend'') \<and> json_field p ''aud'' = Some (JStr ''creditra-internal'') \<and>
     json_field p ''sub'' = Some (JStr (vt_sub claims)) \<and> vt_sub claims \<noteq> [] \<and>
     (\<exists>expiry. json_field p ''exp'' = Some (JNum expiry) \<and> \<not> num_ge (nowSeconds ms) expiry)"
  using assms by (auto simp: verifyClaims_def split: if_splits option.splits json.splits)

lemma verifyParts_accepts:
  assumes "verifyParts hmac keys ms header payload signature = Inr claims"
  shows "\<exists>h p kid secret. JSON_parse (b64_decode header) = Some h \<and> JSON_parse (b64_decode payload) = Some p \<and>
     json_field h ''alg'' = Some (JStr ''HS256'') \<and> json_field h ''kid'' = Some (JStr kid) \<and>
     (kid, secret) \<in> set keys \<and> b64_decode signature = hmac secret (header @ ''.'' @ payload) \<and> verifyClaims p kid ms = Inr claims"
proof -
  have mem: "(kid, s) \<in> set keys" if "registry_getSecret keys kid = Some s" for kid s
    using that by (induction keys) (auto simp: registry_getSecret_def split: if_splits)
  show ?thesis using assms unfolding verifyParts_def by (auto split: option.splits if_splits json.splits intro: mem)
qed

text \<open>
  C35. Tokens are authentic. A request passes \<open>requireServiceToken\<close> only with a bearer token whose third part decodes to the HMAC of its first
  two parts under a signing key the registry still holds (selected by the key identifier in its header), whose payload carries the expected issuer
  and audience, a non-empty subject, an expiry above the current second, and the permission the route requires, if it requires one.
\<close>

theorem service_token_authentic:
  assumes "requireServiceToken hmac keys required ms req = (AuthNext, account)"
  shows "\<exists>header payload signature h p kid secret claims expiry.
     jsmap_get (rq_headers req) ''authorization'' = Some (HStr (''Bearer '' @ header @ ''.'' @ payload @ ''.'' @ signature)) \<and>
     JSON_parse (b64_decode header) = Some h \<and> json_field h ''alg'' = Some (JStr ''HS256'') \<and> json_field h ''kid'' = Some (JStr kid) \<and>
     (kid, secret) \<in> set keys \<and> b64_decode signature = hmac secret (header @ ''.'' @ payload) \<and>
     JSON_parse (b64_decode payload) = Some p \<and> json_field p ''iss'' = Some (JStr ''creditra-backend'') \<and>
     json_field p ''aud'' = Some (JStr ''creditra-internal'') \<and> json_field p ''sub'' = Some (JStr (vt_sub claims)) \<and> vt_sub claims \<noteq> [] \<and>
     json_field p ''exp'' = Some (JNum expiry) \<and> \<not> num_ge (nowSeconds ms) expiry \<and>
     account = Some claims \<and> (required \<in> {None, Some []} \<or> (\<exists>r. required = Some r \<and> JStr r \<in> set (vt_permissions claims)))"
proof -
  obtain bearer claims where auth: "jsmap_get (rq_headers req) ''authorization'' = Some (HStr bearer)" "starts_with ''Bearer '' bearer"
    "verifyServiceToken hmac keys ms (drop 7 bearer) = Inr claims" "account = Some claims"
    "required \<in> {None, Some []} \<or> (\<exists>r. required = Some r \<and> JStr r \<in> set (vt_permissions claims))"
    using assms unfolding requireServiceToken_def truthy_def by (auto split: option.splits header_value.splits if_splits sum.splits)
  have bearer: "bearer = ''Bearer '' @ drop 7 bearer" using auth(2) append_take_drop_id [of "length ''Bearer ''" bearer]
    unfolding starts_with_def by (simp only: list.size) (simp add: numeral_eq_Suc)
  obtain header payload signature where parts: "js_split (CHR ''.'') (drop 7 bearer) = [header, payload, signature]"
    and ok: "verifyParts hmac keys ms header payload signature = Inr claims"
    using auth(3) by (auto simp: verifyServiceToken_def split: list.splits)
  have "drop 7 bearer = header @ ''.'' @ payload @ ''.'' @ signature" using js_join_split [of "CHR ''.''" "drop 7 bearer"] by (simp add: parts)
  then have "jsmap_get (rq_headers req) ''authorization'' = Some (HStr (''Bearer '' @ header @ ''.'' @ payload @ ''.'' @ signature))"
    using auth(1) bearer by simp
  moreover obtain h p kid secret where "JSON_parse (b64_decode header) = Some h" "JSON_parse (b64_decode payload) = Some p"
    "json_field h ''alg'' = Some (JStr ''HS256'')" "json_field h ''kid'' = Some (JStr kid)"
    "(kid, secret) \<in> set keys" "b64_decode signature = hmac secret (header @ ''.'' @ payload)" "verifyClaims p kid ms = Inr claims"
    using verifyParts_accepts [OF ok] by (elim exE conjE)
  moreover obtain expiry where "json_field p ''exp'' = Some (JNum expiry)" "\<not> num_ge (nowSeconds ms) expiry"
    using verifyClaims_accepts [OF \<open>verifyClaims p kid ms = Inr claims\<close>] by (elim exE conjE)
  ultimately show ?thesis using verifyClaims_accepts [OF \<open>verifyClaims p kid ms = Inr claims\<close>] auth(4,5)
    by (intro exI conjI) (assumption | elim conjE; assumption)+
qed

theorem service_token_authentic_witness:
  "\<exists>token account. requireServiceToken (\<lambda>k m. k) [(''initial'', ''s3cret'')] (Some ''run'') 0
       (exampleRequest\<lparr>rq_headers := [(''authorization'', HStr (''Bearer '' @ token))]\<rparr>) = (AuthNext, Some account) \<and> vt_sub account \<noteq> []"
proof -
  let ?c = "\<lparr>st_sub = ''w'', st_permissions = [''run'']\<rparr>" and ?keys = "[(''initial'', ''s3cret'')]"
  define header where "header = b64url_encode (json_stringify (token_header ''initial''))"
  define payload where "payload = b64url_encode (json_stringify (token_payload ?c (Fin 0) (Fin 5)))"
  define signature where "signature = b64url_encode ''s3cret''"
  define token where "token = header @ CHR ''.'' # payload @ CHR ''.'' # signature"
  have d: "CHR ''.'' \<notin> set header" "CHR ''.'' \<notin> set payload" "CHR ''.'' \<notin> set signature"
    unfolding header_def payload_def signature_def by (rule b64url_no_dot)+
  have split: "js_split (CHR ''.'') token = [header, payload, signature]"
    unfolding token_def by (simp only: js_split_first [OF d(1)] js_split_first [OF d(2)] js_split_none [OF d(3)])
  have ok: "json_ok (token_payload ?c (Fin 0) (Fin 5))" using is_double_int [of 0] is_double_int [of 5] by (simp add: token_payload_def)
  have "nowSeconds 0 = Fin 0" by (simp add: nowSeconds_def)
  then have "verifyParts (\<lambda>k m. k) ?keys 0 header payload signature = Inr \<lparr>vt_sub = ''w'', vt_permissions = [JStr ''run''], vt_kid = ''initial''\<rparr>"
    using verifyParts_issued [OF ok _ _ _ _ header_def payload_def, of "''s3cret''" ?keys "\<lambda>k m. k" 0]
    by (simp add: registry_getSecret_def signature_def)
  then have "requireServiceToken (\<lambda>k m. k) ?keys (Some ''run'') 0 (exampleRequest\<lparr>rq_headers := [(''authorization'', HStr (''Bearer '' @ token))]\<rparr>) =
      (AuthNext, Some \<lparr>vt_sub = ''w'', vt_permissions = [JStr ''run''], vt_kid = ''initial''\<rparr>)"
    by (simp add: requireServiceToken_def jsmap_get_def starts_with_def truthy_def verifyServiceToken_def split)
  note acc = this
  show ?thesis using service_token_authentic [OF acc] acc by (intro exI conjI) (assumption, simp)
qed

end
