(* ===== verification/InboundWebhooks.thy ===== *)
theory InboundWebhooks
  imports ServiceAuth
begin

text \<open>
  Verification of signed partner webhooks and replay protection: \<open>src/middleware/inboundWebhookSignature.ts\<close>,
  \<open>src/services/inboundWebhookNonceStore.ts\<close> and \<open>src/middleware/rawBody.ts\<close>. \<open>hmacHex\<close> is the HMAC-SHA256 of a key and a
  message in hexadecimal, \<open>dateParse\<close> the host's \<open>Date.parse\<close> (its result on non-ISO input is up to the host, \<open>NaN\<close> where it fails).
  The three clock readings of one request (skew check, expiry of the nonce, purge in the nonce store) are separate arguments.
\<close>

section \<open>The nonce store\<close>

type_synonym nonce_store = "(string, number) jsmap"

definition purgeExpired :: "time \<Rightarrow> nonce_store \<Rightarrow> nat \<times> nonce_store" where
  "purgeExpired nowMs nonces =
     (length (filter (\<lambda>(nonce, expiresAtMs). num_le expiresAtMs (num_of_int nowMs)) nonces),
      filter (\<lambda>(nonce, expiresAtMs). \<not> num_le expiresAtMs (num_of_int nowMs)) nonces)"

definition claim_nonce :: "time \<Rightarrow> string \<Rightarrow> number \<Rightarrow> nonce_store \<Rightarrow> bool \<times> nonce_store" where
  "claim_nonce now nonce expiresAtMs nonces =
     (let nonces = snd (purgeExpired now nonces)
      in if jsmap_has nonces nonce then (False, nonces) else (True, jsmap_set nonce expiresAtMs nonces))"

section \<open>Signatures\<close>

definition DEFAULT_INBOUND_WEBHOOK_TOLERANCE_MS :: number where
  "DEFAULT_INBOUND_WEBHOOK_TOLERANCE_MS = Fin (5 * 60 * 1000)"

definition SIGNATURE_PREFIX :: string where
  "SIGNATURE_PREFIX = ''sha256=''"

definition HEX_64 :: "string \<Rightarrow> bool" where
  "HEX_64 s \<longleftrightarrow> length s = 64 \<and> list_all (\<lambda>c. hex_val c \<noteq> None) s"

text \<open>\<open>Buffer.from(s, 'hex')\<close>: pairs of hexadecimal digits until the first pair that is not one.\<close>

fun hex_decode :: "string \<Rightarrow> nat list" where
  "hex_decode (a # b # r) =
     (case (hex_val a, hex_val b) of (Some x, Some y) \<Rightarrow> (16 * x + y) # hex_decode r | _ \<Rightarrow> [])"
| "hex_decode _ = []"

definition signInboundWebhookPayload :: "(string \<Rightarrow> string \<Rightarrow> string) \<Rightarrow> string \<Rightarrow> string \<Rightarrow> string \<Rightarrow> string \<Rightarrow> string" where
  "signInboundWebhookPayload hmacHex secret timestamp nonce rawBody =
     SIGNATURE_PREFIX @ hmacHex secret (timestamp @ ''.'' @ nonce @ ''.'' @ rawBody)"

definition epoch_literal :: "string \<Rightarrow> bool" where
  "epoch_literal s \<longleftrightarrow>
     (let rest = dropWhile is_digit s
      in takeWhile is_digit s \<noteq> [] \<and> (case rest of [] \<Rightarrow> True | c # ds \<Rightarrow> c = CHR ''.'' \<and> ds \<noteq> [] \<and> list_all is_digit ds))"

definition parseWebhookTimestamp :: "(string \<Rightarrow> number) \<Rightarrow> string \<Rightarrow> number option" where
  "parseWebhookTimestamp dateParse value =
     (let trimmed = js_trim value
      in if trimmed = [] then None
         else if epoch_literal trimmed then
           (let asNumber = js_Number trimmed
            in if \<not> num_isFinite asNumber then None
               else if num_lt asNumber (Fin 1000000000000) then Some (num_floor (num_mul asNumber (Fin 1000)))
               else Some (num_floor asNumber))
         else (let ms = dateParse trimmed in if ms = NaN then None else Some ms))"

definition inbound_header :: "http_request \<Rightarrow> string \<Rightarrow> string" where
  "inbound_header req name =
     (case jsmap_get (rq_headers req) name of
        Some (HArr vs) \<Rightarrow> (case vs of [] \<Rightarrow> [] | v # _ \<Rightarrow> v)
      | Some (HStr v) \<Rightarrow> v
      | None \<Rightarrow> [])"

definition parseSignatureHex :: "string \<Rightarrow> nat list option" where
  "parseSignatureHex header =
     (let value = js_trim header; hex = js_trim (drop (length SIGNATURE_PREFIX) value)
      in if \<not> starts_with SIGNATURE_PREFIX (js_toLowerCase value) then None
         else if \<not> HEX_64 hex then None else Some (hex_decode hex))"

definition env_tolerance :: "string option \<Rightarrow> number" where
  "env_tolerance fromEnv =
     (case truthy fromEnv of
        None \<Rightarrow> DEFAULT_INBOUND_WEBHOOK_TOLERANCE_MS
      | Some v \<Rightarrow> let parsed = js_Number v
                   in if num_isFinite parsed \<and> num_ge parsed (Fin 0) then parsed else DEFAULT_INBOUND_WEBHOOK_TOLERANCE_MS)"

definition resolveToleranceMs :: "number option \<Rightarrow> string option \<Rightarrow> number" where
  "resolveToleranceMs explicit fromEnv =
     (case explicit of
        Some x \<Rightarrow> if num_isFinite x \<and> num_ge x (Fin 0) then x else env_tolerance fromEnv
      | None \<Rightarrow> env_tolerance fromEnv)"

section \<open>The middleware\<close>

datatype inbound_response = InboundNext | InboundReject nat string

record inbound_config =
  ic_secret :: string
  ic_toleranceMs :: number

record inbound_message =
  im_request :: http_request
  im_rawBody :: "string option"
  im_checkedAt :: time
  im_stampedAt :: time
  im_claimedAt :: time

definition inboundWebhookSignature ::
  "(string \<Rightarrow> string \<Rightarrow> string) \<Rightarrow> (string \<Rightarrow> number) \<Rightarrow> inbound_config \<Rightarrow> inbound_message \<Rightarrow> nonce_store \<Rightarrow> inbound_response \<times> nonce_store" where
  "inboundWebhookSignature hmacHex dateParse cfg m nonces =
     (let timestamp = inbound_header (im_request m) ''x-timestamp'';
          nonce = inbound_header (im_request m) ''x-nonce'';
          signature = inbound_header (im_request m) ''x-signature''
      in if ic_secret cfg = [] then (InboundReject 503 ''Inbound webhook signing is not configured on this server.'', nonces)
         else if timestamp = [] \<or> nonce = [] \<or> signature = []
           then (InboundReject 401 ''Missing required webhook headers (X-Timestamp, X-Nonce, X-Signature)'', nonces)
         else if length nonce > 256 then (InboundReject 401 ''Invalid webhook nonce'', nonces)
         else (case parseWebhookTimestamp dateParse timestamp of
                 None \<Rightarrow> (InboundReject 401 ''Invalid webhook timestamp'', nonces)
               | Some sentAtMs \<Rightarrow>
                   if num_gt (num_abs (num_sub (num_of_int (im_checkedAt m)) sentAtMs)) (ic_toleranceMs cfg)
                     then (InboundReject 401 ''Stale webhook timestamp'', nonces)
                   else (case im_rawBody m of
                           None \<Rightarrow> (InboundReject 401 ''Missing raw request body for signature verification'', nonces)
                         | Some rawBody \<Rightarrow>
                             (case parseSignatureHex signature of
                                None \<Rightarrow> (InboundReject 401 ''Malformed webhook signature'', nonces)
                              | Some provided \<Rightarrow>
                                  if provided \<noteq> hex_decode (drop (length SIGNATURE_PREFIX)
                                       (signInboundWebhookPayload hmacHex (ic_secret cfg) timestamp nonce rawBody))
                                    then (InboundReject 401 ''Invalid webhook signature'', nonces)
                                  else (let expiresAtMs = num_add (num_max (num_of_int (im_stampedAt m)) sentAtMs) (ic_toleranceMs cfg);
                                            (first, nonces') = claim_nonce (im_claimedAt m) nonce expiresAtMs nonces
                                        in (if first then InboundNext else InboundReject 401 ''Replay detected'', nonces'))))))"

text \<open>The route \<open>POST /events\<close> behind the middleware: the event name it echoes with status 202.\<close>

definition inbound_event :: "json option \<Rightarrow> string" where
  "inbound_event body =
     (case body of
        Some b \<Rightarrow> (case json_field b ''event'' of Some (JStr e) \<Rightarrow> e | _ \<Rightarrow> ''unknown'')
      | None \<Rightarrow> ''unknown'')"

section \<open>What is accepted\<close>

lemma inbound_accept_iff:
  "fst (inboundWebhookSignature hmacHex dateParse cfg m nonces) = InboundNext \<longleftrightarrow>
     ic_secret cfg \<noteq> [] \<and> inbound_header (im_request m) ''x-timestamp'' \<noteq> [] \<and> inbound_header (im_request m) ''x-nonce'' \<noteq> [] \<and>
     inbound_header (im_request m) ''x-signature'' \<noteq> [] \<and> length (inbound_header (im_request m) ''x-nonce'') \<le> 256 \<and>
     (\<exists>sentAtMs rawBody. parseWebhookTimestamp dateParse (inbound_header (im_request m) ''x-timestamp'') = Some sentAtMs \<and>
        \<not> num_gt (num_abs (num_sub (num_of_int (im_checkedAt m)) sentAtMs)) (ic_toleranceMs cfg) \<and> im_rawBody m = Some rawBody \<and>
        parseSignatureHex (inbound_header (im_request m) ''x-signature'') = Some (hex_decode (hmacHex (ic_secret cfg)
          (inbound_header (im_request m) ''x-timestamp'' @ ''.'' @ inbound_header (im_request m) ''x-nonce'' @ ''.'' @ rawBody))) \<and>
        fst (claim_nonce (im_claimedAt m) (inbound_header (im_request m) ''x-nonce'')
          (num_add (num_max (num_of_int (im_stampedAt m)) sentAtMs) (ic_toleranceMs cfg)) nonces))"
  by (auto simp: inboundWebhookSignature_def signInboundWebhookPayload_def SIGNATURE_PREFIX_def Let_def split: option.splits prod.splits)

lemma inbound_store:
  "snd (inboundWebhookSignature hmacHex dateParse cfg m nonces) = nonces \<or>
   (\<exists>expiresAtMs. snd (inboundWebhookSignature hmacHex dateParse cfg m nonces) =
      snd (claim_nonce (im_claimedAt m) (inbound_header (im_request m) ''x-nonce'') expiresAtMs nonces))"
  unfolding inboundWebhookSignature_def Let_def by (simp add: case_prod_unfold split: option.split) blast

section \<open>Nonces are kept until they expire\<close>

lemma filter_get:
  assumes "jsmap_invar m" "jsmap_get m k = Some v" "P (k, v)"
  shows "jsmap_get (filter P m) k = Some v" "jsmap_invar (filter P m)"
proof -
  show inv: "jsmap_invar (filter P m)" using assms(1) by (simp add: jsmap_invar_def distinct_map_filter)
  have "(k, v) \<in> set (filter P m)" using assms(2,3) by (simp add: jsmap_get_def map_of_SomeD)
  then show "jsmap_get (filter P m) k = Some v" using inv by (simp add: jsmap_get_def jsmap_invar_def)
qed

lemma claim_keeps:
  assumes "jsmap_invar s" "jsmap_get s k = Some e" "\<not> num_le e (num_of_int now)"
  shows "jsmap_get (snd (claim_nonce now nonce expiresAtMs s)) k = Some e" "jsmap_invar (snd (claim_nonce now nonce expiresAtMs s))"
    and "\<not> fst (claim_nonce now k expiresAtMs s)"
  using filter_get [OF assms(1,2), of "\<lambda>(n, e). \<not> num_le e (num_of_int now)"] assms(3)
  by (auto simp: claim_nonce_def purgeExpired_def Let_def jsmap_has_def)

lemma messages_keep:
  assumes "jsmap_invar s" "jsmap_get s k = Some e" "\<forall>m \<in> set ms. \<not> num_le e (num_of_int (im_claimedAt m))"
  shows "jsmap_get (fold (\<lambda>m s. snd (inboundWebhookSignature hmacHex dateParse cfg m s)) ms s) k = Some e \<and>
     jsmap_invar (fold (\<lambda>m s. snd (inboundWebhookSignature hmacHex dateParse cfg m s)) ms s)"
  using assms
proof (induction ms arbitrary: s)
  case (Cons m ms)
  let ?s = "snd (inboundWebhookSignature hmacHex dateParse cfg m s)"
  have "jsmap_get ?s k = Some e \<and> jsmap_invar ?s"
    using inbound_store [of hmacHex dateParse cfg m s] claim_keeps [OF Cons.prems(1,2)] Cons.prems by auto
  then show ?case using Cons.IH [of ?s] Cons.prems(3) by simp
qed simp

lemma skew_beyond_tolerance:
  assumes "0 \<le> tol" "tol < 2 ^ 52" "tol < d"
  shows "num_gt (num_abs (dround (of_int d))) (num_of_int tol)"
proof -
  have "num_le (dround (of_int (tol + 1))) (dround (of_int d))" using assms by (intro dround_mono) simp_all
  moreover have "dround (of_int (tol + 1)) = num_of_int (tol + 1)" using assms by (intro dround_int) simp
  ultimately show ?thesis using dround_nonneg [of "of_int d"] assms by (auto simp: num_le_def num_gt_def)
qed

text \<open>
  C36. No replay. Once a webhook has been accepted, a later message with its nonce and its timestamp is refused, whatever other messages, genuine or forged,
  arrive in between: it is refused when its nonce check runs before the recorded expiry \<open>max(now, sentAt) + tolerance\<close> and when its skew
  check runs after \<open>sentAt + tolerance\<close>. Only a message that meets both instants at once, in the single millisecond \<open>sentAt + tolerance\<close> when
  one request reads one time, escapes (see \<open>inbound_boundary_replay\<close>).
\<close>

theorem inbound_no_replay:
  assumes "jsmap_invar s" "inboundWebhookSignature hmacHex dateParse cfg m s = (InboundNext, s')"
    and "parseWebhookTimestamp dateParse (inbound_header (im_request m) ''x-timestamp'') = Some (num_of_int sent)"
    and "ic_toleranceMs cfg = num_of_int tol" "0 \<le> tol" "tol < 2 ^ 52" "\<bar>sent\<bar> < 2 ^ 52" "\<bar>im_stampedAt m\<bar> < 2 ^ 52"
    and "\<forall>b \<in> set between. im_claimedAt b \<le> im_claimedAt r"
    and "inbound_header (im_request r) ''x-nonce'' = inbound_header (im_request m) ''x-nonce''"
      "inbound_header (im_request r) ''x-timestamp'' = inbound_header (im_request m) ''x-timestamp''"
    and "im_claimedAt r < max (im_stampedAt m) sent + tol \<or> sent + tol < im_checkedAt r"
  shows "fst (inboundWebhookSignature hmacHex dateParse cfg r
     (fold (\<lambda>b s. snd (inboundWebhookSignature hmacHex dateParse cfg b s)) between s')) \<noteq> InboundNext"
proof (cases "sent + tol < im_checkedAt r")
  case True
  then have "num_gt (num_abs (num_sub (num_of_int (im_checkedAt r)) (num_of_int sent))) (ic_toleranceMs cfg)"
    using skew_beyond_tolerance [OF assms(5,6), of "im_checkedAt r - sent"] by (simp add: assms(4))
  then show ?thesis using assms(3,11) by (auto simp: inbound_accept_iff)
next
  case False
  let ?nonce = "inbound_header (im_request m) ''x-nonce''" and ?e = "num_of_int (max (im_stampedAt m) sent + tol)"
  have acc: "fst (inboundWebhookSignature hmacHex dateParse cfg m s) = InboundNext" using assms(2) by simp
  have "\<bar>max (im_stampedAt m) sent + tol\<bar> < 2 ^ 53" using assms(5-8) by (auto simp: max_def abs_less_iff)
  then have "num_add (num_max (num_of_int (im_stampedAt m)) (num_of_int sent)) (ic_toleranceMs cfg) = ?e"
    using dround_int [of "max (im_stampedAt m) sent + tol"] by (simp add: assms(4) num_max_def max_def split: if_splits)
  then have c: "fst (claim_nonce (im_claimedAt m) ?nonce ?e s)" "s' = snd (claim_nonce (im_claimedAt m) ?nonce ?e s)"
    using acc assms(2,3) by (auto simp: inbound_accept_iff inboundWebhookSignature_def Let_def case_prod_unfold split: option.splits if_splits)
  have inv: "jsmap_invar (filter P s)" for P using assms(1) by (simp add: jsmap_invar_def distinct_map_filter)
  have s': "jsmap_get s' ?nonce = Some ?e" "jsmap_invar s'"
    using c inv by (auto simp: claim_nonce_def purgeExpired_def Let_def split: if_splits)
  have late: "\<not> num_le ?e (num_of_int u)" if "u \<le> im_claimedAt r" for u using that False assms(12) by (simp add: num_le_def)
  have "\<forall>b \<in> set between. \<not> num_le ?e (num_of_int (im_claimedAt b))" using assms(9) late by blast
  note k = messages_keep [OF s'(2,1) this, of hmacHex dateParse cfg]
  show ?thesis unfolding inbound_accept_iff assms(10)
    using claim_keeps(3) [OF k [THEN conjunct2] k [THEN conjunct1] late [OF order_refl]] by blast
qed

definition exampleMessage :: "string \<Rightarrow> string \<Rightarrow> time \<Rightarrow> inbound_message" where
  "exampleMessage timestamp nonce t =
     \<lparr>im_request = exampleRequest\<lparr>rq_headers := [(''x-timestamp'', HStr timestamp), (''x-nonce'', HStr nonce),
        (''x-signature'', HStr (''sha256='' @ replicate 64 (CHR ''0'')))]\<rparr>,
      im_rawBody = Some ''{}'', im_checkedAt = t, im_stampedAt = t, im_claimedAt = t\<rparr>"

lemma exampleMessage_headers [simp]:
  "inbound_header (im_request (exampleMessage timestamp nonce t)) ''x-timestamp'' = timestamp"
  "inbound_header (im_request (exampleMessage timestamp nonce t)) ''x-nonce'' = nonce"
  "inbound_header (im_request (exampleMessage timestamp nonce t)) ''x-signature'' = ''sha256='' @ replicate 64 (CHR ''0'')"
  "im_rawBody (exampleMessage timestamp nonce t) = Some ''{}''"
  "im_checkedAt (exampleMessage timestamp nonce t) = t" "im_stampedAt (exampleMessage timestamp nonce t) = t"
  "im_claimedAt (exampleMessage timestamp nonce t) = t"
  by (simp_all add: exampleMessage_def inbound_header_def jsmap_get_def)

lemma example_signature: "parseSignatureHex (''sha256='' @ replicate 64 (CHR ''0'')) = Some (hex_decode (replicate 64 (CHR ''0'')))"
  by code_simp

lemma example_timestamp: "parseWebhookTimestamp (\<lambda>_. Fin 1000) ''now'' = Some (Fin 1000)" "parseWebhookTimestamp (\<lambda>_. Fin 1000) ''now.5'' = Some (Fin 1000)"
  by (simp_all add: parseWebhookTimestamp_def js_trim_def is_ws_def epoch_literal_def is_digit_def Let_def)

lemma example_accepted:
  assumes "\<bar>t - 1000\<bar> \<le> 300" "\<bar>t\<bar> < 2 ^ 52" "timestamp \<in> {''now'', ''now.5''}" "nonce \<noteq> []" "length nonce \<le> 256"
  shows "inboundWebhookSignature (\<lambda>_ _. replicate 64 (CHR ''0'')) (\<lambda>_. Fin 1000) \<lparr>ic_secret = ''s'', ic_toleranceMs = Fin 300\<rparr> (exampleMessage timestamp nonce t) s =
     (let (first, s') = claim_nonce t nonce (num_add (num_max (num_of_int t) (Fin 1000)) (Fin 300)) s
      in (if first then InboundNext else InboundReject 401 ''Replay detected'', s'))"
proof -
  have "dround (of_int t - 1000) = num_of_int (t - 1000)" using dround_int [of "t - 1000"] assms(1,2) by (simp add: abs_le_iff abs_less_iff)
  moreover have "(of_int \<bar>t - 1000\<bar> :: rat) \<le> of_int 300" using assms(1) by (simp only: of_int_le_iff)
  then have "\<not> 300 < \<bar>of_int t - (1000 :: rat)\<bar>" by simp
  ultimately show ?thesis using assms(3-5)
    by (auto simp: inboundWebhookSignature_def signInboundWebhookPayload_def SIGNATURE_PREFIX_def example_signature [unfolded append_Cons append_Nil] example_timestamp Let_def split: prod.splits)
qed

theorem inbound_no_replay_witness:
  "fst (inboundWebhookSignature (\<lambda>_ _. replicate 64 (CHR ''0'')) (\<lambda>_. Fin 1000) \<lparr>ic_secret = ''s'', ic_toleranceMs = Fin 300\<rparr> (exampleMessage ''now'' ''n1'' 1250)
     (fold (\<lambda>b s. snd (inboundWebhookSignature (\<lambda>_ _. replicate 64 (CHR ''0'')) (\<lambda>_. Fin 1000) \<lparr>ic_secret = ''s'', ic_toleranceMs = Fin 300\<rparr> b s))
        [exampleMessage ''now'' ''n2'' 1200] [(''n1'', Fin 1350)])) \<noteq> InboundNext"
proof -
  have "inboundWebhookSignature (\<lambda>_ _. replicate 64 (CHR ''0'')) (\<lambda>_. Fin 1000) \<lparr>ic_secret = ''s'', ic_toleranceMs = Fin 300\<rparr> (exampleMessage ''now'' ''n1'' 1050) [] =
      (InboundNext, [(''n1'', Fin 1350)])"
    by (simp add: example_accepted claim_nonce_def purgeExpired_def jsmap_has_def jsmap_get_def num_max_def)
  from inbound_no_replay [OF _ this, of 1000 300 "[exampleMessage ''now'' ''n2'' 1200]" "exampleMessage ''now'' ''n1'' 1250"]
  show ?thesis by (simp add: example_timestamp jsmap_invar_def del: fold_simps)
qed

text \<open>The instant left open is real: a message accepted before its own timestamp is accepted again at exactly \<open>sentAt + tolerance\<close>,
  since the nonce is purged when it expires (\<open>expiresAt <= now\<close>) and the timestamp is still within tolerance (\<open>skew > tolerance\<close> fails).\<close>

lemma inbound_boundary_replay:
  "\<exists>s. inboundWebhookSignature (\<lambda>_ _. replicate 64 (CHR ''0'')) (\<lambda>_. Fin 1000) \<lparr>ic_secret = ''s'', ic_toleranceMs = Fin 300\<rparr> (exampleMessage ''now'' ''n1'' 1000) [] =
       (InboundNext, s) \<and>
     fst (inboundWebhookSignature (\<lambda>_ _. replicate 64 (CHR ''0'')) (\<lambda>_. Fin 1000) \<lparr>ic_secret = ''s'', ic_toleranceMs = Fin 300\<rparr> (exampleMessage ''now'' ''n1'' 1300) s) =
       InboundNext"
  by (simp add: example_accepted claim_nonce_def purgeExpired_def jsmap_has_def jsmap_get_def num_max_def num_le_def)

section \<open>The signed string does not determine timestamp and nonce\<close>

definition with_headers :: "string \<Rightarrow> string \<Rightarrow> http_request \<Rightarrow> http_request" where
  "with_headers timestamp nonce req = req\<lparr>rq_headers := jsmap_set ''x-timestamp'' (HStr timestamp) (jsmap_set ''x-nonce'' (HStr nonce) (rq_headers req))\<rparr>"

text \<open>
  A signature can be reused under another nonce. The signed string is \<open>timestamp.nonce.body\<close>, so the dot of a fractional timestamp can be moved:
  whoever sees an accepted message with timestamp \<open>a.b\<close> and nonce \<open>n\<close> can send the same signature and body with timestamp \<open>a\<close> and nonce \<open>b.n\<close>;
  it is accepted while \<open>a\<close> is within tolerance, however often the original nonce has been claimed.
\<close>

theorem signature_reusable_under_other_nonce:
  assumes "fst (inboundWebhookSignature hmacHex dateParse cfg m s) = InboundNext"
    and "inbound_header (im_request m) ''x-timestamp'' = a @ ''.'' @ b" "a \<noteq> []"
    and "nonce' = b @ ''.'' @ inbound_header (im_request m) ''x-nonce''" "length nonce' \<le> 256" "\<not> jsmap_has s' nonce'"
    and "parseWebhookTimestamp dateParse a = Some sent'"
    and "\<not> num_gt (num_abs (num_sub (num_of_int (im_checkedAt m')) sent')) (ic_toleranceMs cfg)"
    and "im_request m' = with_headers a nonce' (im_request m)" "im_rawBody m' = im_rawBody m"
  shows "fst (inboundWebhookSignature hmacHex dateParse cfg m' s') = InboundNext"
proof -
  have h: "inbound_header (im_request m') ''x-timestamp'' = a" "inbound_header (im_request m') ''x-nonce'' = nonce'"
    "inbound_header (im_request m') ''x-signature'' = inbound_header (im_request m) ''x-signature''"
    by (simp_all add: assms(9) with_headers_def inbound_header_def)
  have "\<not> jsmap_has (filter P s') nonce'" for P using assms(6) by (auto simp: jsmap_has_iff)
  then have "fst (claim_nonce t nonce' e s')" for t e by (simp add: claim_nonce_def purgeExpired_def Let_def)
  then show ?thesis using assms(1-5,7,8,10) unfolding inbound_accept_iff h by auto
qed

theorem signature_reusable_under_other_nonce_witness:
  "fst (inboundWebhookSignature (\<lambda>_ _. replicate 64 (CHR ''0'')) (\<lambda>_. Fin 1000) \<lparr>ic_secret = ''s'', ic_toleranceMs = Fin 300\<rparr>
     \<lparr>im_request = with_headers ''now'' ''5.n1'' (im_request (exampleMessage ''now.5'' ''n1'' 1000)), im_rawBody = Some ''{}'', im_checkedAt = 1100, im_stampedAt = 1100, im_claimedAt = 1100\<rparr>
     [(''n1'', Fin 1300)]) = InboundNext"
proof -
  have "fst (inboundWebhookSignature (\<lambda>_ _. replicate 64 (CHR ''0'')) (\<lambda>_. Fin 1000) \<lparr>ic_secret = ''s'', ic_toleranceMs = Fin 300\<rparr> (exampleMessage ''now.5'' ''n1'' 1000) []) = InboundNext"
    by (simp add: example_accepted claim_nonce_def purgeExpired_def jsmap_has_def jsmap_get_def)
  from signature_reusable_under_other_nonce [OF this, of "''now''" "''5''" "''5.n1''" "[(''n1'', Fin 1300)]" "Fin 1000"
      "\<lparr>im_request = with_headers ''now'' ''5.n1'' (im_request (exampleMessage ''now.5'' ''n1'' 1000)), im_rawBody = Some ''{}'', im_checkedAt = 1100, im_stampedAt = 1100, im_claimedAt = 1100\<rparr>"]
  show ?thesis by (simp add: example_timestamp jsmap_has_def jsmap_get_def)
qed

end
