(* ===== verification/HorizonListener.thy ===== *)
theory HorizonListener
  imports JsonParse JsDate
begin

text \<open>
  The Horizon event poller: \<open>src/services/horizonListener.ts\<close>. The module's variables are the record \<open>horizon_state\<close>; the handlers act on a
  state \<open>'w\<close> of their own and may throw. \<open>sha\<close> is SHA-256 in hexadecimal, \<open>pow\<close> is \<open>Math.pow\<close> (its last digits are up to the host),
  \<open>rnd\<close> the successive results of \<open>Math.random()\<close> and every clock reading an argument. A poll runs to its end before the next one starts;
  \<open>start\<close> is split at its \<open>await\<close>, where \<open>stop\<close> can run.
\<close>

section \<open>Data\<close>

record HorizonEvent =
  hz_ledger :: number
  hz_timestamp :: string
  hz_contractId :: string
  hz_topics :: "string list"
  hz_data :: string
  hz_eventId :: "string option"

record HorizonListenerConfig =
  hc_horizonUrl :: string
  hc_contractIds :: "string list"
  hc_pollIntervalMs :: number
  hc_startLedger :: string
  hc_maxRetries :: "number option"
  hc_initialBackoffMs :: "number option"
  hc_maxBackoffMs :: "number option"
  hc_backoffMultiplier :: "number option"
  hc_rateLimitDelayMs :: "number option"
  hc_maxCursorGap :: "number option"
  hc_enableMetrics :: bool

record HorizonListenerMetrics =
  hm_totalPolls :: nat
  hm_successfulPolls :: nat
  hm_failedPolls :: nat
  hm_eventsProcessed :: nat
  hm_eventsDuplicated :: nat
  hm_retryAttempts :: nat
  hm_rateLimitHits :: nat
  hm_cursorGapsDetected :: nat
  hm_cursorGapsRecovered :: nat
  hm_lastSuccessfulPoll :: "time option"
  hm_lastError :: "string option"
  hm_averagePollTime :: "number option"

record HorizonError =
  he_message :: string
  he_status :: "int option"
  he_code :: "string option"
  he_isRateLimit :: bool
  he_isTransient :: bool
  he_isCursorGap :: bool

record retry_state =
  rt_attempts :: nat
  rt_lastErrorTime :: time
  rt_nextRetryTime :: number

type_synonym 'w event_handler = "HorizonEvent \<Rightarrow> 'w \<Rightarrow> (js_error + unit) \<times> 'w"

record 'w horizon_state =
  hs_running :: bool
  hs_interval :: "nat option"
  hs_timers :: "nat list"
  hs_handlers :: "'w event_handler list"
  hs_activeConfig :: "HorizonListenerConfig option"
  hs_cursor :: "number option"
  hs_processed :: "string list"
  hs_metrics :: HorizonListenerMetrics
  hs_retry :: retry_state

definition zero_metrics :: HorizonListenerMetrics where
  "zero_metrics = \<lparr>hm_totalPolls = 0, hm_successfulPolls = 0, hm_failedPolls = 0, hm_eventsProcessed = 0, hm_eventsDuplicated = 0,
     hm_retryAttempts = 0, hm_rateLimitHits = 0, hm_cursorGapsDetected = 0, hm_cursorGapsRecovered = 0,
     hm_lastSuccessfulPoll = None, hm_lastError = None, hm_averagePollTime = None\<rparr>"

definition zero_retry :: retry_state where
  "zero_retry = \<lparr>rt_attempts = 0, rt_lastErrorTime = 0, rt_nextRetryTime = Fin 0\<rparr>"

definition initial_horizon :: "'w horizon_state" where
  "initial_horizon = \<lparr>hs_running = False, hs_interval = None, hs_timers = [], hs_handlers = [], hs_activeConfig = None, hs_cursor = None, hs_processed = [],
     hs_metrics = zero_metrics, hs_retry = zero_retry\<rparr>"

text \<open>\<open>x || d\<close> on an optional number: \<open>undefined\<close>, \<open>0\<close> and \<open>NaN\<close> give the default.\<close>

definition truthy_num :: "number option \<Rightarrow> number option" where
  "truthy_num x = (case x of Some v \<Rightarrow> if v = NaN \<or> v = Fin 0 then None else Some v | None \<Rightarrow> None)"

definition num_or :: "number option \<Rightarrow> number \<Rightarrow> number" where
  "num_or x d = (case truthy_num x of Some v \<Rightarrow> v | None \<Rightarrow> d)"

text \<open>\<open>parseInt(s)\<close> without a radix also reads a hexadecimal prefix.\<close>

definition parseInt_auto :: "string \<Rightarrow> number" where
  "parseInt_auto s =
     (let t = js_trim_start s;
          (neg, r) = (case t of c # cs \<Rightarrow> if c = CHR ''-'' then (True, cs) else if c = CHR ''+'' then (False, cs) else (False, t)
                      | [] \<Rightarrow> (False, []))
      in if starts_with ''0x'' r \<or> starts_with ''0X'' r
         then (let v = radix_number 16 (takeWhile (\<lambda>c. hex_val c \<noteq> None) (drop 2 r)) in if neg then num_neg v else v)
         else parseInt10 s)"

section \<open>Configuration\<close>

definition trimmed_items :: "string option \<Rightarrow> string list" where
  "trimmed_items raw =
     (case raw of None \<Rightarrow> [] | Some r \<Rightarrow> if r = [] then [] else filter (\<lambda>x. x \<noteq> []) (map js_trim (js_split (CHR '','') r)))"

definition env_or :: "(string \<Rightarrow> string option) \<Rightarrow> string \<Rightarrow> string \<Rightarrow> string" where
  "env_or env name d = (case env name of Some v \<Rightarrow> v | None \<Rightarrow> d)"

definition resolveConfig :: "(string \<Rightarrow> string option) \<Rightarrow> HorizonListenerConfig" where
  "resolveConfig env =
     \<lparr>hc_horizonUrl = env_or env ''HORIZON_URL'' ''https://horizon-testnet.stellar.org'',
      hc_contractIds = trimmed_items (env ''CONTRACT_IDS''),
      hc_pollIntervalMs = parseInt10 (env_or env ''POLL_INTERVAL_MS'' ''5000''),
      hc_startLedger = env_or env ''HORIZON_START_LEDGER'' ''latest'',
      hc_maxRetries = Some (parseInt10 (env_or env ''HORIZON_MAX_RETRIES'' ''3'')),
      hc_initialBackoffMs = Some (parseInt10 (env_or env ''HORIZON_INITIAL_BACKOFF_MS'' ''1000'')),
      hc_maxBackoffMs = Some (parseInt10 (env_or env ''HORIZON_MAX_BACKOFF_MS'' ''30000'')),
      hc_backoffMultiplier = Some (parseFloat (env_or env ''HORIZON_BACKOFF_MULTIPLIER'' ''2.0'')),
      hc_rateLimitDelayMs = Some (parseInt10 (env_or env ''HORIZON_RATE_LIMIT_DELAY_MS'' ''60000'')),
      hc_maxCursorGap = Some (parseInt10 (env_or env ''HORIZON_MAX_CURSOR_GAP'' ''100'')),
      hc_enableMetrics = (env ''HORIZON_ENABLE_METRICS'' = Some ''true'')\<rparr>"

section \<open>Events\<close>

definition generateEventId :: "(string \<Rightarrow> string) \<Rightarrow> HorizonEvent \<Rightarrow> string" where
  "generateEventId sha e =
     num_toString (hz_ledger e) @ ''-'' @ hz_contractId e @ ''-'' @ js_join ''-'' (hz_topics e) @ ''-'' @ take 16 (sha (hz_data e))"

definition markEventProcessed :: "string \<Rightarrow> string list \<Rightarrow> string list" where
  "markEventProcessed eventId ids =
     (let ids = jsset_add eventId ids
      in if length ids > 10000 then fold jsset_delete (take 1000 ids) ids else ids)"

definition dispatchEvent ::
  "(string \<Rightarrow> string) \<Rightarrow> HorizonEvent \<Rightarrow> 'w horizon_state \<times> 'w \<Rightarrow> 'w horizon_state \<times> 'w" where
  "dispatchEvent sha event = (\<lambda>(s, w).
     (let eventId = generateEventId sha event; event = event\<lparr>hz_eventId := Some eventId\<rparr>
      in if eventId \<in> set (hs_processed s)
         then (s\<lparr>hs_metrics := hs_metrics s\<lparr>hm_eventsDuplicated := hm_eventsDuplicated (hs_metrics s) + 1\<rparr>\<rparr>, w)
         else (s\<lparr>hs_processed := markEventProcessed eventId (hs_processed s),
                 hs_metrics := hs_metrics s\<lparr>hm_eventsProcessed := hm_eventsProcessed (hs_metrics s) + 1\<rparr>\<rparr>,
               fold (\<lambda>handler w. snd (handler event w)) (hs_handlers s) w)))"

definition onEvent :: "'w event_handler \<Rightarrow> 'w horizon_state \<Rightarrow> 'w horizon_state" where
  "onEvent handler s = s\<lparr>hs_handlers := hs_handlers s @ [handler]\<rparr>"

definition clearEventHandlers :: "'w horizon_state \<Rightarrow> 'w horizon_state" where
  "clearEventHandlers s = s\<lparr>hs_handlers := [], hs_processed := [], hs_cursor := None, hs_retry := zero_retry\<rparr>"

definition resetMetrics :: "'w horizon_state \<Rightarrow> 'w horizon_state" where
  "resetMetrics s = s\<lparr>hs_metrics := zero_metrics\<rparr>"

section \<open>Errors\<close>

definition js_includes :: "string \<Rightarrow> string \<Rightarrow> bool" where
  "js_includes s p \<longleftrightarrow> list_ex (\<lambda>i. starts_with p (drop i s)) [0..<length s + 1]"

definition classifyError :: "HorizonError \<Rightarrow> HorizonError" where
  "classifyError e =
     (if he_status e = Some 429 \<or> he_code e = Some ''RATE_LIMIT_EXCEEDED'' then e\<lparr>he_isRateLimit := True, he_isTransient := True\<rparr>
      else if he_code e = Some ''CURSOR_GAP'' \<or> js_includes (he_message e) ''cursor gap'' then e\<lparr>he_isCursorGap := True, he_isTransient := True\<rparr>
      else if (case he_status e of Some c \<Rightarrow> c \<ge> 500 | None \<Rightarrow> False) \<or> he_code e = Some ''ETIMEDOUT'' \<or> he_code e = Some ''ECONNRESET''
        then e\<lparr>he_isTransient := True\<rparr>
      else if (case he_status e of Some c \<Rightarrow> c \<ge> 400 \<and> c < 500 \<and> c \<noteq> 429 | None \<Rightarrow> False) then e\<lparr>he_isTransient := False\<rparr>
      else e\<lparr>he_isTransient := True\<rparr>)"

definition calculateBackoffDelay :: "(number \<Rightarrow> number \<Rightarrow> number) \<Rightarrow> number \<Rightarrow> nat \<Rightarrow> HorizonListenerConfig \<Rightarrow> number" where
  "calculateBackoffDelay pow rnd attempt config =
     (let baseDelay = num_or (hc_initialBackoffMs config) (Fin 1000);
          maxDelay = num_or (hc_maxBackoffMs config) (Fin 30000);
          multiplier = num_or (hc_backoffMultiplier config) (Fin 2);
          delay = num_min (num_mul baseDelay (pow multiplier (num_of_int (int attempt - 1)))) maxDelay;
          jitter = num_mul (num_mul delay (dround (1 / 10))) rnd
      in num_floor (num_add delay jitter))"

section \<open>Fetching\<close>

text \<open>The simulated response: up to five events, one per contract, on consecutive ledgers after the cursor.\<close>

definition pad3 :: "nat \<Rightarrow> string" where
  "pad3 i = js_padStart 3 (CHR ''0'') (digits_of_nat i)"

definition simulated_event :: "HorizonListenerConfig \<Rightarrow> time \<Rightarrow> number \<Rightarrow> nat \<Rightarrow> HorizonEvent" where
  "simulated_event config now baseLedger i =
     \<lparr>hz_ledger = num_add baseLedger (num_of_int (int i)), hz_timestamp = toISOString now,
      hz_contractId = hc_contractIds config ! (i mod length (hc_contractIds config)), hz_topics = [''credit_line_created''],
      hz_data = json_stringify (JObj [(''walletAddress'', JStr (''GDEMO'' @ pad3 i @ ''XXXXXXXXXXXXXXXXXXXXXXXXXXXXXX'')),
        (''amount'', JNum (num_of_int (int i))), (''type'', JStr ''payment'')]),
      hz_eventId = None\<rparr>"

definition base_ledger :: "HorizonListenerConfig \<Rightarrow> number option \<Rightarrow> number" where
  "base_ledger config cursor =
     (case truthy_num cursor of
        Some c \<Rightarrow> num_add c (Fin 1)
      | None \<Rightarrow> if hc_startLedger config = ''latest'' then Fin 1000 else parseInt_auto (hc_startLedger config))"

definition simulated_events :: "HorizonListenerConfig \<Rightarrow> time \<Rightarrow> number option \<Rightarrow> HorizonEvent list" where
  "simulated_events config now cursor =
     map (simulated_event config now (base_ledger config cursor)) [0..<min 5 (length (hc_contractIds config))]"

definition simulated_failure :: "HorizonListenerConfig \<Rightarrow> HorizonError option" where
  "simulated_failure config =
     (let contractHint = (case hc_contractIds config of [] \<Rightarrow> [] | c # _ \<Rightarrow> c)
      in if js_includes contractHint ''RATE_LIMIT''
           then Some \<lparr>he_message = ''Rate limit exceeded'', he_status = Some 429, he_code = None, he_isRateLimit = True, he_isTransient = True, he_isCursorGap = False\<rparr>
         else if js_includes contractHint ''TRANSIENT'' \<or> js_includes contractHint ''MAX_RETRY''
           then Some \<lparr>he_message = ''Transient network error'', he_status = Some 503, he_code = None, he_isRateLimit = False, he_isTransient = True, he_isCursorGap = False\<rparr>
         else if js_includes contractHint ''GAP''
           then Some \<lparr>he_message = ''Cursor gap detected'', he_status = None, he_code = Some ''CURSOR_GAP'', he_isRateLimit = False, he_isTransient = True, he_isCursorGap = True\<rparr>
         else None)"

definition poll_failed :: "HorizonError \<Rightarrow> HorizonListenerMetrics \<Rightarrow> HorizonListenerMetrics" where
  "poll_failed classified m =
     (let m = m\<lparr>hm_failedPolls := hm_failedPolls m + 1, hm_lastError := Some (he_message classified)\<rparr>;
          m = (if he_isRateLimit classified then m\<lparr>hm_rateLimitHits := hm_rateLimitHits m + 1\<rparr> else m)
      in if he_isCursorGap classified then m\<lparr>hm_cursorGapsDetected := hm_cursorGapsDetected m + 1\<rparr> else m)"

definition poll_succeeded :: "time \<Rightarrow> time \<Rightarrow> HorizonListenerMetrics \<Rightarrow> HorizonListenerMetrics" where
  "poll_succeeded startTime now m =
     (let pollTime = num_of_int (now - startTime)
      in m\<lparr>hm_averagePollTime := Some (case truthy_num (hm_averagePollTime m) of
               Some avg \<Rightarrow> num_div (num_add avg pollTime) (Fin 2) | None \<Rightarrow> pollTime),
           hm_successfulPolls := hm_successfulPolls m + 1, hm_lastSuccessfulPoll := Some now\<rparr>)"

definition fetchHorizonEvents ::
  "HorizonListenerConfig \<Rightarrow> time \<Rightarrow> time \<Rightarrow> 'w horizon_state \<Rightarrow> (HorizonError + HorizonEvent list) \<times> 'w horizon_state" where
  "fetchHorizonEvents config startTime now s =
     (let s = s\<lparr>hs_metrics := hs_metrics s\<lparr>hm_totalPolls := hm_totalPolls (hs_metrics s) + 1\<rparr>\<rparr>
      in case simulated_failure config of
           Some e \<Rightarrow> (let c = classifyError e in (Inl c, s\<lparr>hs_metrics := poll_failed c (hs_metrics s)\<rparr>))
         | None \<Rightarrow>
             (let events = simulated_events config now (hs_cursor s);
                  s = (case events of [] \<Rightarrow> s
                       | e # es \<Rightarrow> s\<lparr>hs_cursor := Some (fold (\<lambda>e m. num_max m (hz_ledger e)) es (hz_ledger e))\<rparr>)
              in (Inr events, s\<lparr>hs_metrics := poll_succeeded startTime now (hs_metrics s)\<rparr>)))"

text \<open>Scanning a gap: the loop stops at the first \<open>Math.random() < 0.1\<close>; only the recovery counter depends on it. \<open>fuel\<close> bounds the iterations.\<close>

fun gap_scan :: "nat \<Rightarrow> (nat \<Rightarrow> number) \<Rightarrow> number \<Rightarrow> number \<Rightarrow> number \<Rightarrow> nat \<Rightarrow> nat option" where
  "gap_scan 0 rnd ledger end1 end2 recovered = None"
| "gap_scan (Suc fuel) rnd ledger end1 end2 recovered =
     (if num_lt ledger end1 \<and> num_le ledger end2
      then (if num_lt (rnd 0) (dround (1 / 10)) then Some (recovered + 1)
            else gap_scan fuel (\<lambda>n. rnd (Suc n)) (num_add ledger (Fin 1)) end1 end2 recovered)
      else Some recovered)"

definition handleCursorGap :: "nat \<Rightarrow> (nat \<Rightarrow> number) \<Rightarrow> HorizonListenerConfig \<Rightarrow> string \<Rightarrow> 'w horizon_state \<Rightarrow> 'w horizon_state option" where
  "handleCursorGap fuel rnd config gapStart s =
     (let maxGap = num_or (hc_maxCursorGap config) (Fin 100);
          startLedger = parseInt_auto gapStart;
          from = num_or (hs_cursor s) startLedger
      in map_option (\<lambda>recovered. s\<lparr>hs_metrics := hs_metrics s\<lparr>hm_cursorGapsRecovered := recovered\<rparr>, hs_cursor := Some (num_add from maxGap)\<rparr>)
           (gap_scan fuel rnd startLedger (num_add startLedger maxGap) (num_add from maxGap) (hm_cursorGapsRecovered (hs_metrics s))))"

section \<open>Polling\<close>

text \<open>\<open>pollRecover\<close> is the \<open>catch\<close> block: rate limits wait, gaps are skipped, transient errors back off, anything else is logged.\<close>

definition pollRecover ::
  "(number \<Rightarrow> number \<Rightarrow> number) \<Rightarrow> nat \<Rightarrow> (nat \<Rightarrow> number) \<Rightarrow> HorizonListenerConfig \<Rightarrow> time \<Rightarrow> HorizonError \<Rightarrow> 'w horizon_state \<Rightarrow> 'w horizon_state option" where
  "pollRecover pow fuel rnd config now e s =
     (if he_isRateLimit e
      then Some (s\<lparr>hs_retry := hs_retry s\<lparr>rt_nextRetryTime := num_add (num_of_int now) (num_or (hc_rateLimitDelayMs config) (Fin 60000))\<rparr>\<rparr>)
      else if he_isCursorGap e
      then handleCursorGap fuel rnd config (case truthy_num (hs_cursor s) of Some c \<Rightarrow> num_toString c | None \<Rightarrow> hc_startLedger config) s
      else if he_isTransient e
      then (let attempts = rt_attempts (hs_retry s) + 1
            in if num_le (num_of_int (int attempts)) (num_or (hc_maxRetries config) (Fin 3))
               then Some (s\<lparr>hs_retry := \<lparr>rt_attempts = attempts, rt_lastErrorTime = now,
                        rt_nextRetryTime = num_add (num_of_int now) (calculateBackoffDelay pow (rnd 0) attempts config)\<rparr>,
                      hs_metrics := hs_metrics s\<lparr>hm_retryAttempts := hm_retryAttempts (hs_metrics s) + 1\<rparr>\<rparr>)
               else Some (s\<lparr>hs_retry := hs_retry s\<lparr>rt_attempts := 0\<rparr>\<rparr>))
      else Some s)"

definition pollOnce ::
  "(string \<Rightarrow> string) \<Rightarrow> (number \<Rightarrow> number \<Rightarrow> number) \<Rightarrow> nat \<Rightarrow> (nat \<Rightarrow> number) \<Rightarrow> HorizonListenerConfig \<Rightarrow> time \<Rightarrow> time \<Rightarrow>
     'w horizon_state \<times> 'w \<Rightarrow> ('w horizon_state \<times> 'w) option" where
  "pollOnce sha pow fuel rnd config now fin = (\<lambda>(s, w).
     (let s = (if \<not> hs_running s \<and> rt_attempts (hs_retry s) > 0 then s\<lparr>hs_retry := zero_retry\<rparr> else s)
      in if num_gt (rt_nextRetryTime (hs_retry s)) (num_of_int now) then Some (s, w)
         else let s = (if rt_attempts (hs_retry s) > 0 then s\<lparr>hs_retry := zero_retry\<rparr> else s)
              in case fetchHorizonEvents config now fin s of
                   (Inr events, s) \<Rightarrow> Some (fold (dispatchEvent sha) events (s, w))
                 | (Inl e, s) \<Rightarrow> map_option (\<lambda>s. (s, w)) (pollRecover pow fuel rnd config fin e s)))"

section \<open>Start and stop\<close>

text \<open>\<open>start\<close> up to \<open>await pollOnce\<close> and after it; the first part returns whether the call goes on. \<open>hs_interval\<close> is the stored handle and
  \<open>hs_timers\<close> the interval timers the event loop holds.\<close>

definition start_begin :: "(string \<Rightarrow> string option) \<Rightarrow> 'w horizon_state \<Rightarrow> bool \<times> 'w horizon_state" where
  "start_begin env s =
     (if hs_running s then (False, s) else (True, s\<lparr>hs_activeConfig := Some (resolveConfig env), hs_running := True\<rparr>))"

definition start_end :: "nat \<Rightarrow> 'w horizon_state \<Rightarrow> 'w horizon_state" where
  "start_end timer s = s\<lparr>hs_interval := Some timer, hs_timers := hs_timers s @ [timer]\<rparr>"

definition stop :: "'w horizon_state \<Rightarrow> 'w horizon_state" where
  "stop s =
     (if \<not> hs_running s then s
      else (case hs_interval s of
              None \<Rightarrow> s
            | Some t \<Rightarrow> s\<lparr>hs_interval := None, hs_timers := filter (\<lambda>u. u \<noteq> t) (hs_timers s)\<rparr>)
           \<lparr>hs_running := False, hs_activeConfig := None\<rparr>)"

section \<open>The idempotency cache\<close>

lemma fold_jsset_delete_prefix: "distinct ids \<Longrightarrow> fold jsset_delete (take n ids) ids = drop n ids"
proof -
  assume d: "distinct ids"
  have "fold jsset_delete xs ys = filter (\<lambda>y. y \<notin> set xs) ys" for xs ys :: "'a list"
    by (induction xs arbitrary: ys) (auto simp: jsset_delete_def intro: filter_cong)
  moreover have "filter (\<lambda>y. y \<notin> set (take n ids)) (take n ids) = []" by (simp add: filter_empty_conv)
  moreover have "filter (\<lambda>y. y \<notin> set (take n ids)) (drop n ids) = drop n ids"
    using set_take_disj_set_drop_if_distinct [OF d order_refl, of n] by (auto simp: filter_id_conv)
  ultimately show ?thesis using filter_append [of "\<lambda>y. y \<notin> set (take n ids)" "take n ids" "drop n ids"] by simp
qed

lemma markEventProcessed_new:
  assumes "distinct ids" "length ids \<le> 10000" "e \<notin> set ids"
  shows "markEventProcessed e ids = (if length ids = 10000 then drop 1000 (ids @ [e]) else ids @ [e])"
proof (cases "length ids = 10000")
  case True
  then show ?thesis using assms fold_jsset_delete_prefix [of "ids @ [e]" 1000] by (simp add: markEventProcessed_def jsset_add_def Let_def)
qed (use assms in \<open>simp add: markEventProcessed_def jsset_add_def Let_def\<close>)

lemma dispatch_duplicate:
  "generateEventId sha e \<in> set (hs_processed s) \<Longrightarrow> dispatchEvent sha e (s, w) =
     (s\<lparr>hs_metrics := hs_metrics s\<lparr>hm_eventsDuplicated := hm_eventsDuplicated (hs_metrics s) + 1\<rparr>\<rparr>, w)"
  by (simp add: dispatchEvent_def Let_def)

lemma dispatch_new:
  "generateEventId sha e \<notin> set (hs_processed s) \<Longrightarrow> dispatchEvent sha e (s, w) =
     (s\<lparr>hs_processed := markEventProcessed (generateEventId sha e) (hs_processed s),
        hs_metrics := hs_metrics s\<lparr>hm_eventsProcessed := hm_eventsProcessed (hs_metrics s) + 1\<rparr>\<rparr>,
      fold (\<lambda>handler w. snd (handler (e\<lparr>hz_eventId := Some (generateEventId sha e)\<rparr>) w)) (hs_handlers s) w)"
  by (simp add: dispatchEvent_def Let_def)

text \<open>What a run of dispatches hands to the handlers, recorded by a handler that logs the identifiers.\<close>

definition recorder :: "string list event_handler" where
  "recorder e w = (Inr (), w @ [case hz_eventId e of Some i \<Rightarrow> i | None \<Rightarrow> []])"

definition spaced :: "nat \<Rightarrow> string list \<Rightarrow> bool" where
  "spaced d ids \<longleftrightarrow> (\<forall>i j. i < j \<and> j < length ids \<and> ids ! i = ids ! j \<longrightarrow> d < j - i)"

definition cache_window :: "string list \<Rightarrow> string list \<Rightarrow> bool" where
  "cache_window ids cache \<longleftrightarrow> distinct cache \<and> length cache \<le> 10000 \<and>
     (\<exists>k \<le> length ids. cache = drop k ids \<and> (k = 0 \<or> 9001 \<le> length cache))"

lemma cache_window_step:
  assumes "cache_window ids cache" "spaced 9000 ids" "e \<notin> set cache"
  shows "cache_window (ids @ [e]) (markEventProcessed e cache)" "spaced 9000 (ids @ [e])"
proof -
  obtain k where k: "k \<le> length ids" "cache = drop k ids" "k = 0 \<or> 9001 \<le> length cache" "distinct cache" "length cache \<le> 10000"
    using assms(1) unfolding cache_window_def by blast
  have m: "markEventProcessed e cache = (if length cache = 10000 then drop 1000 (cache @ [e]) else cache @ [e])"
    using markEventProcessed_new [OF k(4,5) assms(3)] .
  have d: "distinct (cache @ [e])" using k(4) assms(3) by simp
  show "cache_window (ids @ [e]) (markEventProcessed e cache)"
  proof (cases "length cache = 10000")
    case True
    then have "drop 1000 (cache @ [e]) = drop (k + 1000) (ids @ [e])" using k(1,2) by (simp add: add.commute)
    moreover have "length (drop 1000 (cache @ [e])) = 9001" using True by simp
    moreover have "k + 1000 \<le> length (ids @ [e])" using True k(1,2) by simp
    ultimately show ?thesis using m True distinct_drop [OF d, of 1000] unfolding cache_window_def by (auto intro!: exI [of _ "k + 1000"])
  next
    case False
    moreover have "cache @ [e] = drop k (ids @ [e])" using k(1,2) by simp
    ultimately show ?thesis using m k d unfolding cache_window_def by (auto intro!: exI [of _ k])
  qed
  show "spaced 9000 (ids @ [e])"
    unfolding spaced_def
  proof (intro allI impI)
    fix i j assume ij: "i < j \<and> j < length (ids @ [e]) \<and> (ids @ [e]) ! i = (ids @ [e]) ! j"
    show "9000 < j - i"
    proof (cases "j < length ids")
      case True
      then show ?thesis using assms(2) ij by (auto simp: spaced_def nth_append)
    next
      case False
      then have j: "j = length ids" "ids ! i = e" "i < length ids" using ij by (auto simp: nth_append)
      have "\<not> k \<le> i"
      proof
        assume "k \<le> i"
        then have "drop k ids ! (i - k) = e" "i - k < length (drop k ids)" using j by simp_all
        then show False using assms(3) k(2) nth_mem by metis
      qed
      then show ?thesis using k(1-3) j by auto
    qed
  qed
qed

text \<open>
  C37. Deduplication of events. Dispatching any sequence of events hands every identifier that occurs in it to the handlers, and hands the same identifier out again
  only after more than 9,000 other hand-outs: the cache is always the most recent part of the hand-outs, at most 10,000 and, once it has evicted,
  at least 9,001 long (it evicts in order of arrival; a duplicate does not refresh an entry).
\<close>

theorem horizon_dedup_window:
  "case fold (dispatchEvent sha) events (onEvent recorder initial_horizon, []) of
     (s, ids) \<Rightarrow> set ids = generateEventId sha ` set events \<and> spaced 9000 ids \<and> cache_window ids (hs_processed s) \<and>
       hm_eventsProcessed (hs_metrics s) = length ids \<and> hm_eventsProcessed (hs_metrics s) + hm_eventsDuplicated (hs_metrics s) = length events"
proof (induction events rule: rev_induct)
  case Nil
  then show ?case by (simp add: onEvent_def initial_horizon_def zero_metrics_def spaced_def cache_window_def)
next
  case (snoc event events)
  have h: "hs_handlers (fst (fold (dispatchEvent sha) es (onEvent recorder initial_horizon, []))) = [recorder]" for es
    by (induction es rule: rev_induct) (simp_all add: onEvent_def initial_horizon_def dispatchEvent_def Let_def case_prod_unfold)
  obtain s ids where si: "fold (dispatchEvent sha) events (onEvent recorder initial_horizon, []) = (s, ids)" by (meson surj_pair)
  have ih: "set ids = generateEventId sha ` set events" "spaced 9000 ids" "cache_window ids (hs_processed s)"
    "hm_eventsProcessed (hs_metrics s) = length ids" "hm_eventsProcessed (hs_metrics s) + hm_eventsDuplicated (hs_metrics s) = length events"
    and hs: "hs_handlers s = [recorder]"
    using snoc h [of events] by (simp_all add: si)
  have eq: "fold (dispatchEvent sha) (events @ [event]) (onEvent recorder initial_horizon, []) = dispatchEvent sha event (s, ids)" by (simp add: si)
  show ?case
  proof (cases "generateEventId sha event \<in> set (hs_processed s)")
    case True
    moreover have "set (hs_processed s) \<subseteq> set ids" using ih(3) by (auto simp: cache_window_def dest: in_set_dropD)
    ultimately have "generateEventId sha event \<in> generateEventId sha ` set events" using ih(1) by blast
    then show ?thesis unfolding eq using ih by (simp add: dispatch_duplicate [OF True] insert_absorb)
  next
    case False
    then show ?thesis unfolding eq using ih(1,4,5) cache_window_step [OF ih(3,2) False]
      by (simp add: dispatch_new [OF False] hs recorder_def)
  qed
qed

section \<open>Reachable states\<close>

inductive horizon_reachable ::
  "(string \<Rightarrow> string) \<Rightarrow> (number \<Rightarrow> number \<Rightarrow> number) \<Rightarrow> 'w horizon_state \<times> 'w \<Rightarrow> bool" for sha pow where
  reach_init: "horizon_reachable sha pow (initial_horizon, w)"
| reach_poll: "horizon_reachable sha pow sw \<Longrightarrow> pollOnce sha pow fuel rnd config now fin sw = Some sw' \<Longrightarrow> horizon_reachable sha pow sw'"
| reach_onEvent: "horizon_reachable sha pow (s, w) \<Longrightarrow> horizon_reachable sha pow (onEvent h s, w)"
| reach_clear: "horizon_reachable sha pow (s, w) \<Longrightarrow> horizon_reachable sha pow (clearEventHandlers s, w)"
| reach_reset: "horizon_reachable sha pow (s, w) \<Longrightarrow> horizon_reachable sha pow (resetMetrics s, w)"
| reach_start: "horizon_reachable sha pow (s, w) \<Longrightarrow> horizon_reachable sha pow (snd (start_begin env s), w)"
| reach_started: "horizon_reachable sha pow (s, w) \<Longrightarrow> horizon_reachable sha pow (start_end timer s, w)"
| reach_stop: "horizon_reachable sha pow (s, w) \<Longrightarrow> horizon_reachable sha pow (stop s, w)"

definition horizon_ok :: "'w horizon_state \<Rightarrow> bool" where
  "horizon_ok s \<longleftrightarrow> distinct (hs_processed s) \<and> length (hs_processed s) \<le> 10000 \<and>
     hm_totalPolls (hs_metrics s) = hm_successfulPolls (hs_metrics s) + hm_failedPolls (hs_metrics s) \<and>
     rt_attempts (hs_retry s) \<le> 1 \<and> (hs_activeConfig s \<noteq> None \<longleftrightarrow> hs_running s)"

lemma dispatch_ok: "horizon_ok (fst sw) \<Longrightarrow> horizon_ok (fst (fold (dispatchEvent sha) events sw))"
proof (induction events arbitrary: sw)
  case (Cons e es)
  have "horizon_ok (fst (dispatchEvent sha e sw))"
    using Cons.prems markEventProcessed_new [of "hs_processed (fst sw)" "generateEventId sha e"]
    by (cases sw) (auto simp: dispatchEvent_def horizon_ok_def Let_def dest: in_set_dropD)
  then show ?case using Cons.IH by simp
qed simp

lemma fetch_ok:
  assumes "fetchHorizonEvents config now fin s = (r, s')" "horizon_ok s"
  shows "horizon_ok s' \<and> hs_retry s' = hs_retry s"
  using assms
  by (auto simp: fetchHorizonEvents_def horizon_ok_def poll_failed_def poll_succeeded_def Let_def split: option.splits list.splits if_splits)

lemma recover_ok:
  assumes "pollRecover pow fuel rnd config now e s = Some s'" "horizon_ok s" "rt_attempts (hs_retry s) = 0"
  shows "horizon_ok s'"
  using assms
  by (auto simp: pollRecover_def handleCursorGap_def horizon_ok_def Let_def split: if_splits)

lemma poll_cases:
  assumes "pollOnce sha pow fuel rnd config now fin (s, w) = Some (s', w')"
  obtains (waiting) r where "s' = s\<lparr>hs_retry := r\<rparr>" "w' = w" "r = hs_retry s \<or> r = zero_retry" "num_gt (rt_nextRetryTime r) (num_of_int now)"
  | (fetched) r events s1 where "r = hs_retry s \<and> rt_attempts r = 0 \<or> r = zero_retry"
      "fetchHorizonEvents config now fin (s\<lparr>hs_retry := r\<rparr>) = (Inr events, s1)" "(s', w') = fold (dispatchEvent sha) events (s1, w)"
  | (failed) r e s1 where "r = hs_retry s \<and> rt_attempts r = 0 \<or> r = zero_retry"
      "fetchHorizonEvents config now fin (s\<lparr>hs_retry := r\<rparr>) = (Inl e, s1)" "pollRecover pow fuel rnd config fin e s1 = Some s'" "w' = w"
proof -
  define s0 where "s0 = (if \<not> hs_running s \<and> rt_attempts (hs_retry s) > 0 then s\<lparr>hs_retry := zero_retry\<rparr> else s)"
  define r where "r = (if rt_attempts (hs_retry s0) > 0 then zero_retry else hs_retry s0)"
  have s0: "s0 = s\<lparr>hs_retry := hs_retry s0\<rparr>" "hs_retry s0 = hs_retry s \<or> hs_retry s0 = zero_retry" by (simp_all add: s0_def)
  have r: "r = hs_retry s \<and> rt_attempts r = 0 \<or> r = zero_retry" using s0(2) by (auto simp: r_def)
  have sr: "(if rt_attempts (hs_retry s0) > 0 then s0\<lparr>hs_retry := zero_retry\<rparr> else s0) = s\<lparr>hs_retry := r\<rparr>" by (simp add: r_def s0_def)
  note p = assms [unfolded pollOnce_def prod.case Let_def, folded s0_def, unfolded sr]
  show thesis
  proof (cases "num_gt (rt_nextRetryTime (hs_retry s0)) (num_of_int now)")
    case True
    then show thesis using p s0 by (intro waiting [of "hs_retry s0"]) auto
  next
    case False
    obtain x s1 where f: "fetchHorizonEvents config now fin (s\<lparr>hs_retry := r\<rparr>) = (x, s1)" by (meson surj_pair)
    show thesis
    proof (cases x)
      case (Inl e)
      then show thesis using p False f r by (intro failed [of r e s1]) auto
    next
      case (Inr events)
      then show thesis using p False f r by (intro fetched [of r events s1]) auto
    qed
  qed
qed

lemma poll_ok:
  assumes "pollOnce sha pow fuel rnd config now fin (s, w) = Some (s', w')" "horizon_ok s"
  shows "horizon_ok s'"
  using assms(1)
proof (cases rule: poll_cases)
  case (waiting r)
  then show ?thesis using assms(2) by (auto simp: horizon_ok_def zero_retry_def)
next
  case (fetched r events s1)
  have "horizon_ok (s\<lparr>hs_retry := r\<rparr>)" using fetched(1) assms(2) by (auto simp: horizon_ok_def zero_retry_def)
  then have "horizon_ok s1" using fetch_ok [OF fetched(2)] by simp
  then show ?thesis using dispatch_ok [of "(s1, w)" sha events] fetched(3) by (metis fst_conv)
next
  case (failed r e s1)
  have "horizon_ok (s\<lparr>hs_retry := r\<rparr>)" "rt_attempts r = 0" using failed(1) assms(2) by (auto simp: horizon_ok_def zero_retry_def)
  then show ?thesis using fetch_ok [OF failed(2)] recover_ok [OF failed(3)] by simp
qed

text \<open>
  Invariant of the listener. In every state reachable by polling with any configuration, starting, stopping, registering handlers, clearing and resetting metrics, the
  processed identifiers are distinct and at most 10,000, every poll is counted as exactly one success or failure, at most one retry attempt
  is recorded, and a configuration is active exactly while the listener runs.
\<close>

theorem horizon_reachable_ok: "horizon_reachable sha pow (s, w) \<Longrightarrow> horizon_ok s"
proof (induction "(s, w)" arbitrary: s w rule: horizon_reachable.induct)
  case (reach_poll sw fuel rnd config now fin)
  then show ?case by (cases sw) (auto intro: poll_ok)
qed (auto simp: horizon_ok_def initial_horizon_def zero_metrics_def zero_retry_def onEvent_def clearEventHandlers_def resetMetrics_def
      start_begin_def start_end_def stop_def split: option.splits if_splits)

theorem horizon_reachable_ok_witness:
  "horizon_ok (stop (snd (start_begin (\<lambda>_. None) (initial_horizon :: unit horizon_state))))"
proof -
  have "horizon_reachable (\<lambda>x. x) (\<lambda>x y. x) (stop (snd (start_begin (\<lambda>_. None) (initial_horizon :: unit horizon_state))), ())"
    by (intro reach_stop reach_start reach_init)
  then show ?thesis by (rule horizon_reachable_ok)
qed

section \<open>Ledgers, backoff, start and stop\<close>

lemma fold_num_max_ledgers:
  "fold (\<lambda>l m. num_max m l) (map num_of_int [c + 1..c + int n]) (num_of_int c) = num_of_int (c + int n)"
proof (induction n)
  case (Suc n)
  have "[c + 1..c + int (Suc n)] = [c + 1..c + int n] @ [c + int (Suc n)]" using upto_rec2 [of "c + 1" "c + int (Suc n)"] by simp
  then show ?case using Suc by (simp add: num_max_def)
qed simp

text \<open>
  The cursor advances without gaps. A poll that fetches, with the cursor at a positive ledger \<open>c\<close> and \<open>k\<close> contracts observed (five at most),
  dispatches one event on each of the ledgers \<open>c + 1\<close> to \<open>c + k\<close>, in that order, and leaves the cursor at \<open>c + k\<close>, where the next poll goes on.
\<close>

theorem poll_advances_cursor:
  assumes "pollOnce sha pow fuel rnd config now fin (s, w) = Some (s', w')" "\<not> num_gt (rt_nextRetryTime (hs_retry s)) (num_of_int now)"
    and "simulated_failure config = None" "k = min 5 (length (hc_contractIds config))" "0 < k"
    and "hs_cursor s = Some (num_of_int c)" "0 < c" "c < 2 ^ 52" "0 \<le> now"
  shows "hs_cursor s' = Some (num_of_int (c + int k)) \<and>
     (\<exists>events s1. map hz_ledger events = map num_of_int [c + 1..c + int k] \<and> hs_processed s1 = hs_processed s \<and> hs_handlers s1 = hs_handlers s \<and>
        (s', w') = fold (dispatchEvent sha) events (s1, w))"
  using assms(1)
proof (cases rule: poll_cases)
  case (waiting r)
  then have "num_gt (Fin 0) (num_of_int now)" using assms(2) by (auto simp: zero_retry_def)
  then show ?thesis using assms(9) by simp
next
  case (failed r e s1)
  then show ?thesis using assms(3) by (simp add: fetchHorizonEvents_def Let_def)
next
  case (fetched r events s1)
  have base: "base_ledger config (Some (num_of_int c)) = num_of_int (c + 1)"
    using assms(7,8) dround_int [of "c + 1"] by (simp add: base_ledger_def truthy_num_def)
  have led: "num_add (num_of_int (c + 1)) (num_of_int (int i)) = num_of_int (c + 1 + int i)" if "i < 5" for i
    using dround_int [of "c + 1 + int i"] assms(7,8) that by (simp add: abs_less_iff)
  have ev: "events = simulated_events config fin (Some (num_of_int c))"
    and cur: "hs_cursor s1 = (case events of [] \<Rightarrow> Some (num_of_int c) | e # es \<Rightarrow> Some (fold (\<lambda>e m. num_max m (hz_ledger e)) es (hz_ledger e)))"
    and keep: "hs_processed s1 = hs_processed s" "hs_handlers s1 = hs_handlers s"
    using fetched(2) assms(3,6) by (auto simp: fetchHorizonEvents_def Let_def split: list.splits)
  have "map hz_ledger events = map (\<lambda>i. num_of_int (c + 1 + int i)) [0..<k]"
    using led by (auto simp: ev simulated_events_def simulated_event_def base assms(4) simp del: num_add.simps of_int_add)
  also have "\<dots> = map num_of_int [c + 1..c + int k]" by (rule nth_equalityI) simp_all
  finally have ledgers: "map hz_ledger events = map num_of_int [c + 1..c + int k]" .
  have "hs_cursor s1 = Some (num_of_int (c + int k))"
  proof -
    obtain e es where ees: "events = e # es" using ledgers assms(5) by (cases events) simp_all
    have up: "[c + 1..c + int k] = (c + 1) # [2 + c..c + int k]" using upto_rec1 [of "c + 1" "c + int k"] assms(5) by simp
    have "hz_ledger e = num_of_int (c + 1)" "map hz_ledger es = map num_of_int [2 + c..c + int k]" using ledgers unfolding ees up by simp_all
    moreover have "fold (\<lambda>l m. num_max m l) (map num_of_int [c + 1 + 1..c + 1 + int (k - 1)]) (num_of_int (c + 1)) = num_of_int (c + 1 + int (k - 1))"
      by (rule fold_num_max_ledgers)
    ultimately show ?thesis using cur assms(5) fold_map [of "\<lambda>l m. num_max m l" hz_ledger es] by (simp add: ees o_def of_nat_diff)
  qed
  moreover have "hs_cursor (fst (fold (dispatchEvent sha) es sw)) = hs_cursor (fst sw)" for es and sw :: "'a horizon_state \<times> 'a"
    by (induction es arbitrary: sw) (simp_all add: dispatchEvent_def Let_def case_prod_unfold)
  then have "hs_cursor s' = hs_cursor s1" using fetched(3) by (metis fst_conv)
  ultimately show ?thesis using ledgers keep fetched(3) by (intro conjI exI) simp_all
qed

text \<open>
  The backoff does not grow. A poll that is due and fails with a transient error leaves exactly one recorded attempt and waits the first delay of the backoff
  sequence, whatever number of failures came before, because every poll that is due first resets the attempts; the branch for exhausted retries is not reached.
\<close>

theorem transient_backoff_is_constant:
  assumes "pollOnce sha pow fuel rnd config now fin (s, w) = Some (s', w')" "\<not> num_gt (rt_nextRetryTime (hs_retry s)) (num_of_int now)" "0 \<le> now"
    and "simulated_failure config = Some e" "he_isTransient (classifyError e)" "\<not> he_isRateLimit (classifyError e)" "\<not> he_isCursorGap (classifyError e)"
    and "num_le (Fin 1) (num_or (hc_maxRetries config) (Fin 3))"
  shows "rt_attempts (hs_retry s') = 1 \<and> hm_retryAttempts (hs_metrics s') = hm_retryAttempts (hs_metrics s) + 1 \<and>
     rt_nextRetryTime (hs_retry s') = num_add (num_of_int fin) (calculateBackoffDelay pow (rnd 0) 1 config)"
  using assms(1)
proof (cases rule: poll_cases)
  case (waiting r)
  then have "num_gt (Fin 0) (num_of_int now)" using assms(2) by (auto simp: zero_retry_def)
  then show ?thesis using assms(3) by simp
next
  case (fetched r events s1)
  then show ?thesis using assms(4) by (simp add: fetchHorizonEvents_def Let_def)
next
  case (failed r e' s1)
  have r: "rt_attempts r = 0" using failed(1) by (auto simp: zero_retry_def)
  have s1: "e' = classifyError e" "hs_retry s1 = r" "hm_retryAttempts (hs_metrics s1) = hm_retryAttempts (hs_metrics s)"
    using failed(2) assms(4) by (auto simp: fetchHorizonEvents_def poll_failed_def Let_def)
  show ?thesis using failed(3) assms(5-8) by (auto simp: pollRecover_def s1 r Let_def)
qed

text \<open>
  Stopping while starting. \<open>start\<close> run to its end and then \<open>stop\<close> leave the timers as they were. But a \<open>stop\<close> that runs while \<open>start\<close> awaits its first poll
  does not prevent the timer: the listener ends up stopped with a live timer, which no further \<open>stop\<close> clears.
\<close>

theorem stop_during_start_leaves_timer:
  fixes s :: "'w horizon_state"
  assumes "\<not> hs_running s" "timer \<notin> set (hs_timers s)"
  shows "hs_timers (stop (start_end timer (snd (start_begin env s)))) = hs_timers s \<and>
     (let s' = start_end timer (stop (snd (start_begin env s))) in \<not> hs_running s' \<and> timer \<in> set (hs_timers s') \<and> stop s' = s')"
  using assms by (auto simp: start_begin_def start_end_def stop_def Let_def filter_id_conv split: option.splits)

theorem stop_during_start_leaves_timer_witness:
  "\<not> hs_running (start_end 7 (stop (snd (start_begin (\<lambda>_. None) (initial_horizon :: unit horizon_state))))) \<and>
     7 \<in> set (hs_timers (start_end 7 (stop (snd (start_begin (\<lambda>_. None) (initial_horizon :: unit horizon_state))))))"
  using stop_during_start_leaves_timer [of "initial_horizon :: unit horizon_state" 7 "\<lambda>_. None"]
  by (simp add: initial_horizon_def Let_def)

definition exampleConfig :: "string \<Rightarrow> HorizonListenerConfig" where
  "exampleConfig contract =
     \<lparr>hc_horizonUrl = ''h'', hc_contractIds = [contract, ''CB''], hc_pollIntervalMs = Fin 5000, hc_startLedger = ''latest'', hc_maxRetries = Some (Fin 3),
      hc_initialBackoffMs = Some (Fin 1000), hc_maxBackoffMs = Some (Fin 30000), hc_backoffMultiplier = Some (Fin 2),
      hc_rateLimitDelayMs = Some (Fin 60000), hc_maxCursorGap = Some (Fin 100), hc_enableMetrics = False\<rparr>"

lemma example_failures:
  "simulated_failure (exampleConfig ''CA'') = None"
  "simulated_failure (exampleConfig ''TRANSIENT'') = Some \<lparr>he_message = ''Transient network error'', he_status = Some 503, he_code = None,
     he_isRateLimit = False, he_isTransient = True, he_isCursorGap = False\<rparr>"
  by code_simp+

theorem poll_advances_cursor_witness:
  "\<exists>s' w'. pollOnce (\<lambda>x. x) (\<lambda>x y. x) 0 (\<lambda>_. Fin 0) (exampleConfig ''CA'') 5 5 ((initial_horizon :: unit horizon_state)\<lparr>hs_cursor := Some (Fin 10)\<rparr>, ()) = Some (s', w') \<and>
     hs_cursor s' = Some (Fin 12)"
proof -
  let ?s = "(initial_horizon :: unit horizon_state)\<lparr>hs_cursor := Some (Fin 10)\<rparr>"
  have z: "hs_retry ?s = zero_retry" by (simp add: initial_horizon_def)
  have "pollOnce (\<lambda>x. x) (\<lambda>x y. x) 0 (\<lambda>_. Fin 0) (exampleConfig ''CA'') 5 5 (?s, ()) \<noteq> None"
    by (simp add: pollOnce_def fetchHorizonEvents_def example_failures Let_def z zero_retry_def)
  then obtain s' w' where p: "pollOnce (\<lambda>x. x) (\<lambda>x y. x) 0 (\<lambda>_. Fin 0) (exampleConfig ''CA'') 5 5 (?s, ()) = Some (s', w')" by auto
  from poll_advances_cursor [OF this, of 2 10] have "hs_cursor s' = Some (Fin 12)"
    by (simp add: z zero_retry_def example_failures) (simp add: exampleConfig_def)
  with p show ?thesis by (intro exI conjI)
qed

theorem transient_backoff_is_constant_witness:
  "\<exists>s' w'. pollOnce (\<lambda>x. x) (\<lambda>x y. x) 0 (\<lambda>_. Fin 0) (exampleConfig ''TRANSIENT'') 5 5
       ((initial_horizon :: unit horizon_state)\<lparr>hs_running := True, hs_retry := zero_retry\<lparr>rt_attempts := 3\<rparr>\<rparr>, ()) = Some (s', w') \<and>
     rt_attempts (hs_retry s') = 1"
proof -
  let ?s = "(initial_horizon :: unit horizon_state)\<lparr>hs_running := True, hs_retry := zero_retry\<lparr>rt_attempts := 3\<rparr>\<rparr>"
  let ?e = "\<lparr>he_message = ''Transient network error'', he_status = Some 503, he_code = None, he_isRateLimit = False, he_isTransient = True, he_isCursorGap = False\<rparr>"
  have c: "he_isTransient (classifyError ?e)" "\<not> he_isRateLimit (classifyError ?e)" "\<not> he_isCursorGap (classifyError ?e)" by code_simp+
  have "pollOnce (\<lambda>x. x) (\<lambda>x y. x) 0 (\<lambda>_. Fin 0) (exampleConfig ''TRANSIENT'') 5 5 (?s, ()) \<noteq> None"
    using c by (simp add: pollOnce_def fetchHorizonEvents_def pollRecover_def example_failures Let_def zero_retry_def)
  then obtain s' w' where p: "pollOnce (\<lambda>x. x) (\<lambda>x y. x) 0 (\<lambda>_. Fin 0) (exampleConfig ''TRANSIENT'') 5 5 (?s, ()) = Some (s', w')" by auto
  from transient_backoff_is_constant [OF this _ _ example_failures(2) c] have "rt_attempts (hs_retry s') = 1"
    by (simp add: zero_retry_def) (simp add: exampleConfig_def num_or_def truthy_num_def num_le_def)
  with p show ?thesis by (intro exI conjI)
qed

text \<open>Ledger zero is polled again: a cursor of \<open>0\<close> is falsy, so the next poll starts from \<open>startLedger\<close> once more.\<close>

lemma ledger_zero_restarts: "hs_cursor s = Some (Fin 0) \<Longrightarrow> base_ledger config (hs_cursor s) = base_ledger config None"
  by (simp add: base_ledger_def truthy_num_def)

text \<open>The gap scan ends: with integer bounds, one more iteration than the width of the gap is enough fuel.\<close>

lemma gap_scan_terminates:
  assumes "\<bar>l\<bar> < 2 ^ 51" "\<bar>e\<bar> < 2 ^ 51" "e - l < int fuel" "0 < fuel"
  shows "\<exists>r. gap_scan fuel rnd (num_of_int l) (num_of_int e) end2 recovered = Some r"
  using assms
proof (induction fuel arbitrary: l rnd)
  case (Suc fuel)
  show ?case
  proof (cases "l < e")
    case True
    have "num_add (num_of_int l) (Fin 1) = num_of_int (l + 1)" using dround_int [of "l + 1"] Suc.prems(1) by (simp add: abs_less_iff)
    moreover have "\<exists>r. gap_scan fuel rnd' (num_of_int (l + 1)) (num_of_int e) end2 recovered = Some r" for rnd'
      using Suc.prems True by (intro Suc.IH) (auto simp: abs_less_iff)
    ultimately show ?thesis by (simp del: num_add.simps)
  qed simp
qed simp

end
