(* ===== verification/DrawWebhook.thy ===== *)
theory DrawWebhook
  imports HorizonListener InboundWebhooks
begin

text \<open>
  Fan-out of confirmed draws to the configured subscribers and its delivery state: \<open>src/services/drawWebhookService.ts\<close>
  and \<open>src/services/webhookDeliveryState.ts\<close>. \<open>post\<close> is what evaluating \<open>fetchWithTimeout(url, \<dots>)\<close> does on each attempt: a response
  or an exception. (The module does not import that name in this revision, so in the code as it stands \<open>post\<close> always throws a \<open>ReferenceError\<close>;
  nor does it import \<open>duplicateResource\<close>, so registering a duplicate throws one too.) \<open>hmacHex\<close> is HMAC-SHA256 in hexadecimal and \<open>parseUrl\<close> the WHATWG URL parser. The deliveries of one event run
  concurrently but each touches only its own key of the store, so they are folded in the order of the URLs, with the
  check for earlier deliveries made for all of them first, as the code does before its first \<open>await\<close>.
  Events are taken one after another; a delivery of another event between the attempts of this one is not modelled. The retry loop carries fuel, and \<open>None\<close> means that it ran out.
\<close>

section \<open>Delivery state\<close>

datatype DeliveryStatus = Delivered | FailedDelivery | DeadLetter

record DrawDelivery =
  dd_drawId :: string
  dd_url :: string
  dd_status :: DeliveryStatus
  dd_attempts :: number
  dd_lastError :: "string option"
  dd_deliveredAt :: "time option"
  dd_updatedAt :: time

type_synonym delivery_store = "(string, DrawDelivery) jsmap"

definition delivery_key :: "string \<Rightarrow> string \<Rightarrow> string" where
  "delivery_key drawId url = drawId @ ''::'' @ url"

definition isDelivered :: "delivery_store \<Rightarrow> string \<Rightarrow> string \<Rightarrow> bool" where
  "isDelivered st drawId url \<longleftrightarrow>
     (case jsmap_get st (delivery_key drawId url) of Some r \<Rightarrow> dd_status r = Delivered | None \<Rightarrow> False)"

definition record_delivery :: "DrawDelivery \<Rightarrow> time \<Rightarrow> delivery_store \<Rightarrow> delivery_store" where
  "record_delivery r now st = jsmap_set (delivery_key (dd_drawId r) (dd_url r)) (r\<lparr>dd_updatedAt := now\<rparr>) st"

definition deadLetters :: "delivery_store \<Rightarrow> DrawDelivery list" where
  "deadLetters st = filter (\<lambda>r. dd_status r = DeadLetter) (jsmap_values st)"

definition list_deliveries :: "delivery_store \<Rightarrow> DrawDelivery list" where
  "list_deliveries st = jsmap_values st"

record delivery_counts =
  dc_total :: nat
  dc_delivered :: nat
  dc_failed :: nat
  dc_deadLetter :: nat

definition count_delivery :: "DrawDelivery \<Rightarrow> delivery_counts \<Rightarrow> delivery_counts" where
  "count_delivery r c =
     (case dd_status r of
        Delivered \<Rightarrow> c\<lparr>dc_delivered := dc_delivered c + 1\<rparr>
      | FailedDelivery \<Rightarrow> c\<lparr>dc_failed := dc_failed c + 1\<rparr>
      | DeadLetter \<Rightarrow> c\<lparr>dc_deadLetter := dc_deadLetter c + 1\<rparr>)"

definition delivery_count :: "delivery_store \<Rightarrow> delivery_counts" where
  "delivery_count st = fold count_delivery (jsmap_values st) \<lparr>dc_total = length st, dc_delivered = 0, dc_failed = 0, dc_deadLetter = 0\<rparr>"

section \<open>Configuration and subscriptions\<close>

record WebhookConfig =
  wc_urls :: "string list"
  wc_secret :: string
  wc_maxRetries :: number
  wc_initialBackoffMs :: number
  wc_backoffMultiplier :: number
  wc_timeoutMs :: number

definition resolveWebhookConfig :: "(string \<Rightarrow> string option) \<Rightarrow> js_error + WebhookConfig" where
  "resolveWebhookConfig env =
     (let urls = trimmed_items (env ''WEBHOOK_URLS''); secret = env_or env ''WEBHOOK_SECRET'' []
      in if urls \<noteq> [] \<and> secret = [] then Inl (Error ''WEBHOOK_SECRET is required when WEBHOOK_URLS is configured'')
         else Inr \<lparr>wc_urls = urls, wc_secret = secret, wc_maxRetries = parseInt10 (env_or env ''WEBHOOK_MAX_RETRIES'' ''3''),
                   wc_initialBackoffMs = parseInt10 (env_or env ''WEBHOOK_INITIAL_BACKOFF_MS'' ''1000''),
                   wc_backoffMultiplier = parseFloat (env_or env ''WEBHOOK_BACKOFF_MULTIPLIER'' ''2.0''),
                   wc_timeoutMs = parseInt10 (env_or env ''WEBHOOK_TIMEOUT_MS'' ''10000'')\<rparr>)"

record url_parts =
  up_protocol :: string
  up_host :: string
  up_pathname :: string
  up_search :: string

record webhook_state =
  ws_config :: "WebhookConfig option"
  ws_runtime :: "(string, string \<times> time) jsmap"
  ws_deliveries :: delivery_store

definition initializeWebhooks :: "(string \<Rightarrow> string option) \<Rightarrow> webhook_state \<Rightarrow> webhook_state" where
  "initializeWebhooks env s = s\<lparr>ws_config := (case resolveWebhookConfig env of Inr c \<Rightarrow> Some c | Inl _ \<Rightarrow> None)\<rparr>"

definition normaliseWebhookUrl :: "(string \<Rightarrow> url_parts option) \<Rightarrow> string \<Rightarrow> string" where
  "normaliseWebhookUrl parseUrl url =
     (let trimmed = js_trim url
      in case parseUrl trimmed of
           None \<Rightarrow> trimmed
         | Some p \<Rightarrow>
             (let path = (if length (up_pathname p) > 1 \<and> last (up_pathname p) = CHR ''/'' then butlast (up_pathname p) else up_pathname p)
              in up_protocol p @ ''//'' @ js_toLowerCase (up_host p) @ path @ up_search p))"

definition getWebhookConfig :: "webhook_state \<Rightarrow> WebhookConfig option" where
  "getWebhookConfig s =
     map_option (\<lambda>c. c\<lparr>wc_urls := fold jsset_add (wc_urls c @ map fst (jsmap_values (ws_runtime s))) []\<rparr>) (ws_config s)"

definition registerWebhookSubscription ::
  "(string \<Rightarrow> url_parts option) \<Rightarrow> string \<Rightarrow> time \<Rightarrow> webhook_state \<Rightarrow> (js_error + (string \<times> time)) \<times> webhook_state" where
  "registerWebhookSubscription parseUrl url now s =
     (let trimmed = js_trim url; key = normaliseWebhookUrl parseUrl trimmed;
          envUrls = (case ws_config s of Some c \<Rightarrow> wc_urls c | None \<Rightarrow> [])
      in if trimmed = [] then (Inl (Error ''Webhook URL is required''), s)
         else (case parseUrl trimmed of
                 None \<Rightarrow> (Inl (Error ''Webhook URL is invalid''), s)
               | Some p \<Rightarrow>
                   if up_protocol p \<noteq> ''http:'' \<and> up_protocol p \<noteq> ''https:'' then (Inl (Error ''Webhook URL must use http or https''), s)
                   else if key \<in> normaliseWebhookUrl parseUrl ` set envUrls \<or> jsmap_has (ws_runtime s) key
                     then (Inl (ReferenceError ''duplicateResource is not defined''), s)
                   else (Inr (trimmed, now), s\<lparr>ws_runtime := jsmap_set key (trimmed, now) (ws_runtime s)\<rparr>)))"

definition listRuntimeWebhookSubscriptions :: "webhook_state \<Rightarrow> (string \<times> time) list" where
  "listRuntimeWebhookSubscriptions s = jsmap_values (ws_runtime s)"

section \<open>Payloads\<close>

record WebhookPayload =
  wp_timestamp :: string
  wp_ledger :: number
  wp_contractId :: string
  wp_drawAmount :: json
  wp_drawId :: json
  wp_borrowerWallet :: json
  wp_creditLineId :: json
  wp_horizonTimestamp :: string

text \<open>\<open>eventData.k || d\<close>.\<close>

definition field_or :: "json \<Rightarrow> string \<Rightarrow> string \<Rightarrow> json" where
  "field_or j k d = (if js_falsy (json_field j k) then JStr d else (case json_field j k of Some v \<Rightarrow> v | None \<Rightarrow> JStr d))"

text \<open>A payload that is not JSON, or is \<open>null\<close>, throws inside the \<open>try\<close> and gives no payload.\<close>

definition parseDrawConfirmedEvent :: "time \<Rightarrow> HorizonEvent \<Rightarrow> WebhookPayload option" where
  "parseDrawConfirmedEvent now event =
     (if ''draw_confirmed'' \<notin> set (hz_topics event) then None
      else case JSON_parse (hz_data event) of
             None \<Rightarrow> None
           | Some JNull \<Rightarrow> None
           | Some d \<Rightarrow> Some \<lparr>wp_timestamp = toISOString now, wp_ledger = hz_ledger event, wp_contractId = hz_contractId event,
               wp_drawAmount = field_or d ''drawAmount'' ''0'', wp_drawId = field_or d ''drawId'' [],
               wp_borrowerWallet = field_or d ''borrowerWallet'' [], wp_creditLineId = field_or d ''creditLineId'' [],
               wp_horizonTimestamp = hz_timestamp event\<rparr>)"

definition payload_json :: "WebhookPayload \<Rightarrow> json" where
  "payload_json p = JObj [(''event'', JStr ''draw_confirmed''), (''timestamp'', JStr (wp_timestamp p)), (''data'', JObj
     [(''ledger'', JNum (wp_ledger p)), (''contractId'', JStr (wp_contractId p)), (''drawAmount'', wp_drawAmount p), (''drawId'', wp_drawId p),
      (''borrowerWallet'', wp_borrowerWallet p), (''creditLineId'', wp_creditLineId p), (''horizonTimestamp'', JStr (wp_horizonTimestamp p))])]"

text \<open>A template literal prints a string as itself; the identifier of a draw is a string in every event the contract emits.\<close>

fun template_text :: "json \<Rightarrow> string" where
  "template_text (JStr s) = s"
| "template_text (JNum x) = num_toString x"
| "template_text (JBool b) = (if b then ''true'' else ''false'')"
| "template_text JNull = ''null''"
| "template_text (JArr xs) = js_join '','' (map (\<lambda>x. if x = JNull then [] else template_text x) xs)"
| "template_text (JObj ps) = ''[object Object]''"

section \<open>Delivery\<close>

datatype http_outcome = HttpResponse bool nat string | HttpThrows string

record webhook_post =
  po_url :: string
  po_signature :: string
  po_timestamp :: string
  po_body :: string
  po_timeoutMs :: number

record delivery_attempt =
  da_success :: bool
  da_status :: "nat option"
  da_error :: "string option"

definition deliverWebhook :: "(webhook_post \<Rightarrow> http_outcome) \<Rightarrow> webhook_post \<Rightarrow> js_error + delivery_attempt" where
  "deliverWebhook post p =
     (case post p of
        HttpResponse resp_ok status statusText \<Rightarrow>
          if resp_ok then Inr \<lparr>da_success = True, da_status = Some status, da_error = None\<rparr>
          else Inr \<lparr>da_success = False, da_status = Some status, da_error = Some (''HTTP '' @ digits_of_nat status @ '': '' @ statusText)\<rparr>
      | HttpThrows m \<Rightarrow> Inl (Error m))"

text \<open>The retry loop: \<open>attempt\<close> runs while it is at most \<open>maxRetries + 1\<close>. The result is the last error (none when the loop body never ran) or
  the first result with its attempt number, and the number of calls made. \<open>fuel\<close> bounds the iterations.\<close>

fun retryWithBackoff ::
  "nat \<Rightarrow> (nat \<Rightarrow> js_error + delivery_attempt) \<Rightarrow> number \<Rightarrow> number \<Rightarrow> number \<Rightarrow> nat \<Rightarrow> js_error option \<Rightarrow>
     (js_error option + (delivery_attempt \<times> nat)) option" where
  "retryWithBackoff 0 fn maxRetries delay backoffMultiplier attempt lastError = None"
| "retryWithBackoff (Suc fuel) fn maxRetries delay backoffMultiplier attempt lastError =
     (if num_le (num_of_int (int attempt)) (num_add maxRetries (Fin 1))
      then (case fn attempt of
              Inr result \<Rightarrow> Some (Inr (result, attempt))
            | Inl e \<Rightarrow>
                (let delay = (if num_le (num_of_int (int attempt)) maxRetries then num_floor (num_mul delay backoffMultiplier) else delay)
                 in retryWithBackoff fuel fn maxRetries delay backoffMultiplier (Suc attempt) (Some e)))
      else Some (Inl lastError))"

record WebhookDeliveryResult =
  wr_url :: string
  wr_success :: bool
  wr_attempt :: number
  wr_error :: "string option"
  wr_responseStatus :: "nat option"

definition error_text :: "js_error option \<Rightarrow> string" where
  "error_text e = (case e of Some (Error m) \<Rightarrow> m | _ \<Rightarrow> ''Unknown error'')"

text \<open>One URL of one event: its result, the record it writes, if any, and whether it posted.\<close>

definition deliver_url ::
  "nat \<Rightarrow> (nat \<Rightarrow> webhook_post \<Rightarrow> http_outcome) \<Rightarrow> WebhookConfig \<Rightarrow> delivery_store \<Rightarrow> string \<Rightarrow> webhook_post \<Rightarrow> time \<Rightarrow>
     (WebhookDeliveryResult \<times> DrawDelivery option) option" where
  "deliver_url fuel post c store drawId p now =
     (if isDelivered store drawId (po_url p)
      then Some (\<lparr>wr_url = po_url p, wr_success = True, wr_attempt = Fin 0, wr_error = None, wr_responseStatus = None\<rparr>, None)
      else (case retryWithBackoff fuel (\<lambda>n. deliverWebhook (post n) p) (wc_maxRetries c) (wc_initialBackoffMs c) (wc_backoffMultiplier c) 1 None of
              None \<Rightarrow> None
            | Some (Inr (result, attempts)) \<Rightarrow>
                Some (\<lparr>wr_url = po_url p, wr_success = da_success result, wr_attempt = num_of_int (int attempts), wr_error = da_error result,
                       wr_responseStatus = da_status result\<rparr>,
                      Some \<lparr>dd_drawId = drawId, dd_url = po_url p, dd_status = (if da_success result then Delivered else FailedDelivery),
                        dd_attempts = num_of_int (int attempts), dd_lastError = da_error result,
                        dd_deliveredAt = (if da_success result then Some now else None), dd_updatedAt = now\<rparr>)
            | Some (Inl e) \<Rightarrow>
                (let attempts = num_add (wc_maxRetries c) (Fin 1)
                 in Some (\<lparr>wr_url = po_url p, wr_success = False, wr_attempt = attempts, wr_error = Some (error_text e), wr_responseStatus = None\<rparr>,
                          Some \<lparr>dd_drawId = drawId, dd_url = po_url p, dd_status = DeadLetter, dd_attempts = attempts,
                            dd_lastError = Some (error_text e), dd_deliveredAt = None, dd_updatedAt = now\<rparr>))))"

definition draw_post :: "(string \<Rightarrow> string \<Rightarrow> string) \<Rightarrow> WebhookConfig \<Rightarrow> WebhookPayload \<Rightarrow> string \<Rightarrow> webhook_post" where
  "draw_post hmacHex c payload url =
     \<lparr>po_url = url, po_signature = ''sha256='' @ hmacHex (wc_secret c) (json_stringify (payload_json payload)), po_timestamp = wp_timestamp payload,
      po_body = json_stringify (payload_json payload), po_timeoutMs = wc_timeoutMs c\<rparr>"

definition sendDrawConfirmationWebhook ::
  "nat \<Rightarrow> (string \<Rightarrow> string \<Rightarrow> string) \<Rightarrow> (nat \<Rightarrow> webhook_post \<Rightarrow> http_outcome) \<Rightarrow> time \<Rightarrow> HorizonEvent \<Rightarrow> webhook_state \<Rightarrow>
     (WebhookDeliveryResult list \<times> webhook_state) option" where
  "sendDrawConfirmationWebhook fuel hmacHex post now event s =
     (case ws_config s of
        None \<Rightarrow> Some ([], s)
      | Some c \<Rightarrow>
          if wc_urls c = [] then Some ([], s)
          else (case parseDrawConfirmedEvent now event of
                  None \<Rightarrow> Some ([], s)
                | Some payload \<Rightarrow>
                    (case those (map (\<lambda>url. deliver_url fuel post c (ws_deliveries s) (template_text (wp_drawId payload))
                                        (draw_post hmacHex c payload url) now) (wc_urls c)) of
                       None \<Rightarrow> None
                     | Some outcomes \<Rightarrow>
                         Some (map fst outcomes,
                               s\<lparr>ws_deliveries := fold (\<lambda>r st. record_delivery r now st) (List.map_filter snd outcomes) (ws_deliveries s)\<rparr>))))"

text \<open>The connectivity probe posts a fixed payload to every configured URL, without retries and without touching the delivery state.\<close>

definition testWebhookConnectivity ::
  "(string \<Rightarrow> string \<Rightarrow> string) \<Rightarrow> (webhook_post \<Rightarrow> http_outcome) \<Rightarrow> time \<Rightarrow> webhook_state \<Rightarrow> (string \<times> bool \<times> string option) list" where
  "testWebhookConnectivity hmacHex post now s =
     (case ws_config s of
        None \<Rightarrow> []
      | Some c \<Rightarrow>
          (let payload = \<lparr>wp_timestamp = toISOString now, wp_ledger = Fin 0, wp_contractId = ''test'', wp_drawAmount = JStr ''0'', wp_drawId = JStr ''test'',
                 wp_borrowerWallet = JStr ''test'', wp_creditLineId = JStr ''test'', wp_horizonTimestamp = toISOString now\<rparr>
           in map (\<lambda>url. case deliverWebhook post ((draw_post hmacHex c payload url)\<lparr>po_timeoutMs := Fin 5000\<rparr>) of
                 Inr result \<Rightarrow> (url, da_success result, da_error result)
               | Inl e \<Rightarrow> (url, False, Some (error_text (Some e)))) (wc_urls c)))"

section \<open>The outcome of a delivery\<close>

lemma attempt_bound: "0 \<le> m \<Longrightarrow> m < 2 ^ 52 \<Longrightarrow> num_le (num_of_int (int n)) (num_add (num_of_int m) (Fin 1)) \<longleftrightarrow> int n \<le> m + 1"
proof -
  assume m: "0 \<le> m" "m < 2 ^ 52"
  have "dround (of_int m + 1) = num_of_int (m + 1)" using dround_int [of "m + 1"] m by simp
  moreover have "num_le (num_of_int (int n)) (num_of_int (m + 1)) \<longleftrightarrow> int n \<le> m + 1" by (simp only: num_le_Fin of_int_le_iff)
  ultimately show ?thesis by simp
qed

lemma retry_loop:
  assumes "0 \<le> m" "m < 2 ^ 52" "m + 2 < int attempt + int fuel" "0 < fuel"
  shows "retryWithBackoff fuel fn (num_of_int m) delay k attempt lastError =
     (case List.find (\<lambda>n. \<not> isl (fn n)) [attempt..<nat (m + 2)] of
        Some n \<Rightarrow> Some (Inr (projr (fn n), n))
      | None \<Rightarrow> Some (Inl (if int attempt \<le> m + 1 then Some (projl (fn (nat (m + 1)))) else lastError)))"
  using assms(3,4)
proof (induction fuel arbitrary: attempt delay lastError)
  case (Suc fuel)
  show ?case
  proof (cases "int attempt \<le> m + 1")
    case False
    then have "\<not> attempt < nat (m + 2)" by linarith
    then show ?thesis using False attempt_bound [OF assms(1,2), of attempt] by (simp del: num_add.simps of_int_of_nat_eq)
  next
    case True
    then have lt: "attempt < nat (m + 2)" by linarith
    then have up: "[attempt..<nat (m + 2)] = attempt # [Suc attempt..<nat (m + 2)]" by (rule upt_conv_Cons)
    have go: "num_le (num_of_int (int attempt)) (num_add (num_of_int m) (Fin 1))" using True attempt_bound [OF assms(1,2)] by blast
    show ?thesis
    proof (cases "fn attempt")
      case (Inr x)
      then show ?thesis using go by (simp add: up del: num_add.simps of_int_of_nat_eq)
    next
      case (Inl e)
      have ih: "retryWithBackoff fuel fn (num_of_int m) d k (Suc attempt) (Some e) =
          (case List.find (\<lambda>n. \<not> isl (fn n)) [Suc attempt..<nat (m + 2)] of
             Some n \<Rightarrow> Some (Inr (projr (fn n), n))
           | None \<Rightarrow> Some (Inl (if int (Suc attempt) \<le> m + 1 then Some (projl (fn (nat (m + 1)))) else Some e)))" for d
        using Suc.prems True by (intro Suc.IH) linarith+
      have "nat (m + 1) = attempt" if "\<not> int (Suc attempt) \<le> m + 1" using that True by linarith
      then show ?thesis using go Inl ih True
        by (auto simp: up Let_def simp del: num_add.simps of_int_of_nat_eq split: option.splits)
    qed
  qed
qed simp

text \<open>
  The outcome of a delivery. With \<open>WEBHOOK_MAX_RETRIES\<close> a non-negative integer \<open>m\<close>, delivering a draw to a URL that has not received it always ends (fuel \<open>m + 3\<close> is enough)
  and calls the endpoint until the first attempt that does not throw: that attempt decides between \<open>delivered\<close> and
  \<open>failed\<close> (an HTTP error status is not retried), and a draw on which all \<open>m + 1\<close> attempts throw is dead-lettered with the last error.
\<close>

theorem draw_delivery_outcome:
  assumes "wc_maxRetries c = num_of_int m" "0 \<le> m" "m < 2 ^ 52" "m + 2 < int fuel" "\<not> isDelivered store drawId (po_url p)"
  shows "\<exists>result r. deliver_url fuel post c store drawId p now = Some (result, Some r) \<and> wr_attempt result = dd_attempts r \<and>
     wr_success result = (dd_status r = Delivered) \<and> dd_drawId r = drawId \<and> dd_url r = po_url p \<and>
     (case List.find (\<lambda>n. \<not> isl (deliverWebhook (post n) p)) [1..<nat (m + 2)] of
        Some n \<Rightarrow> dd_attempts r = num_of_int (int n) \<and> dd_status r = (if da_success (projr (deliverWebhook (post n) p)) then Delivered else FailedDelivery)
      | None \<Rightarrow> dd_attempts r = num_of_int (m + 1) \<and> dd_status r = DeadLetter \<and>
          dd_lastError r = Some (error_text (Some (projl (deliverWebhook (post (nat (m + 1))) p)))))"
proof -
  have "num_add (num_of_int m) (Fin 1) = num_of_int (m + 1)" using dround_int [of "m + 1"] assms(2,3) by simp
  moreover have "retryWithBackoff fuel (\<lambda>n. deliverWebhook (post n) p) (num_of_int m) (wc_initialBackoffMs c) (wc_backoffMultiplier c) 1 None =
     (case List.find (\<lambda>n. \<not> isl (deliverWebhook (post n) p)) [1..<nat (m + 2)] of
        Some n \<Rightarrow> Some (Inr (projr (deliverWebhook (post n) p), n))
      | None \<Rightarrow> Some (Inl (Some (projl (deliverWebhook (post (nat (m + 1))) p)))))"
    using retry_loop [OF assms(2,3), of 1 fuel "\<lambda>n. deliverWebhook (post n) p"] assms(2,4) by simp
  ultimately show ?thesis using assms(5)
    by (simp add: deliver_url_def assms(1) Let_def del: num_add.simps split: option.split)
qed

section \<open>A delivered draw is not posted again\<close>

datatype webhook_op =
    OpSend time "nat \<Rightarrow> webhook_post \<Rightarrow> http_outcome" HorizonEvent
  | OpRegister string time
  | OpInitialize "string \<Rightarrow> string option"

fun webhook_run ::
  "nat \<Rightarrow> (string \<Rightarrow> string \<Rightarrow> string) \<Rightarrow> (string \<Rightarrow> url_parts option) \<Rightarrow> webhook_op list \<Rightarrow> webhook_state \<Rightarrow> webhook_state option" where
  "webhook_run fuel hmacHex parseUrl [] s = Some s"
| "webhook_run fuel hmacHex parseUrl (OpSend now post event # ops) s =
     (case sendDrawConfirmationWebhook fuel hmacHex post now event s of None \<Rightarrow> None | Some (_, s') \<Rightarrow> webhook_run fuel hmacHex parseUrl ops s')"
| "webhook_run fuel hmacHex parseUrl (OpRegister url now # ops) s =
     webhook_run fuel hmacHex parseUrl ops (snd (registerWebhookSubscription parseUrl url now s))"
| "webhook_run fuel hmacHex parseUrl (OpInitialize env # ops) s = webhook_run fuel hmacHex parseUrl ops (initializeWebhooks env s)"

lemma those_Some_iff: "those xs = Some ys \<longleftrightarrow> xs = map Some ys"
  by (induction xs arbitrary: ys) (auto split: option.splits)

lemma send_cases:
  assumes "sendDrawConfirmationWebhook fuel hmacHex post now event s = Some (rs, s')"
  obtains (idle) "rs = []" "s' = s"
  | (fanout) c payload outcomes where "ws_config s = Some c" "parseDrawConfirmedEvent now event = Some payload"
      "map (\<lambda>url. deliver_url fuel post c (ws_deliveries s) (template_text (wp_drawId payload)) (draw_post hmacHex c payload url) now) (wc_urls c) = map Some outcomes"
      "rs = map fst outcomes" "s' = s\<lparr>ws_deliveries := fold (\<lambda>r st. record_delivery r now st) (List.map_filter snd outcomes) (ws_deliveries s)\<rparr>"
proof (cases "ws_config s")
  case None
  then show thesis using assms idle by (simp add: sendDrawConfirmationWebhook_def)
next
  case (Some c)
  show thesis
  proof (cases "wc_urls c = [] \<or> parseDrawConfirmedEvent now event = None")
    case True
    then show thesis using assms Some idle by (auto simp: sendDrawConfirmationWebhook_def split: if_splits)
  next
    case False
    then obtain payload where p: "parseDrawConfirmedEvent now event = Some payload" "wc_urls c \<noteq> []" by auto
    obtain outcomes where
      "those (map (\<lambda>url. deliver_url fuel post c (ws_deliveries s) (template_text (wp_drawId payload)) (draw_post hmacHex c payload url) now) (wc_urls c)) = Some outcomes"
      "rs = map fst outcomes" "s' = s\<lparr>ws_deliveries := fold (\<lambda>r st. record_delivery r now st) (List.map_filter snd outcomes) (ws_deliveries s)\<rparr>"
      using assms Some p by (auto simp: sendDrawConfirmationWebhook_def split: option.splits)
    then show thesis using fanout [OF Some p(1)] unfolding those_Some_iff by blast
  qed
qed

lemma in_map_filter: "y \<in> set (List.map_filter f xs) \<longleftrightarrow> (\<exists>x \<in> set xs. f x = Some y)"
  by (induction xs) (auto simp: List.map_filter_simps split: option.splits)

lemma fold_record_other:
  assumes "\<forall>r \<in> set rs. delivery_key (dd_drawId r) (dd_url r) \<noteq> k"
  shows "jsmap_get (fold (\<lambda>r st. record_delivery r now st) rs st) k = jsmap_get st k"
  using assms by (induction rs arbitrary: st) (auto simp: record_delivery_def)

lemma deliver_url_record:
  assumes "deliver_url fuel post c store drawId p now = Some (result, Some r)"
  shows "\<not> isDelivered store drawId (po_url p) \<and> dd_drawId r = drawId \<and> dd_url r = po_url p \<and> wr_url result = po_url p \<and>
     (wr_success result \<longrightarrow> dd_status r = Delivered)"
  using assms by (auto simp: deliver_url_def Let_def split: if_splits option.splits sum.splits)

lemma deliver_url_none:
  "deliver_url fuel post c store drawId p now = Some (result, None) \<Longrightarrow> isDelivered store drawId (po_url p) \<and> wr_url result = po_url p"
  by (auto simp: deliver_url_def Let_def split: if_splits option.splits sum.splits)

lemma send_keeps_delivered:
  assumes "sendDrawConfirmationWebhook fuel hmacHex post now event s = Some (rs, s')" "isDelivered (ws_deliveries s) drawId url"
  shows "isDelivered (ws_deliveries s') drawId url"
  using assms(1)
proof (cases rule: send_cases)
  case idle
  then show ?thesis using assms(2) by simp
next
  case (fanout c payload outcomes)
  have "delivery_key (dd_drawId r) (dd_url r) \<noteq> delivery_key drawId url" if mem: "r \<in> set (List.map_filter snd outcomes)" for r
  proof
    assume k: "delivery_key (dd_drawId r) (dd_url r) = delivery_key drawId url"
    obtain res where "(res, Some r) \<in> set outcomes" using mem by (auto simp: in_map_filter)
    then have "Some (res, Some r) \<in> set (map (\<lambda>url. deliver_url fuel post c (ws_deliveries s) (template_text (wp_drawId payload)) (draw_post hmacHex c payload url) now) (wc_urls c))"
      unfolding fanout(3) by simp
    then obtain u where "deliver_url fuel post c (ws_deliveries s) (template_text (wp_drawId payload)) (draw_post hmacHex c payload u) now = Some (res, Some r)"
      by force
    then have "\<not> isDelivered (ws_deliveries s) (dd_drawId r) (dd_url r)" using deliver_url_record by fastforce
    then show False using assms(2) k by (simp add: isDelivered_def)
  qed
  then have "jsmap_get (ws_deliveries s') (delivery_key drawId url) = jsmap_get (ws_deliveries s) (delivery_key drawId url)"
    using fold_record_other fanout(5) by simp
  then show ?thesis using assms(2) by (simp add: isDelivered_def)
qed

lemma run_keeps_delivered:
  "webhook_run fuel hmacHex parseUrl ops s = Some s' \<Longrightarrow> isDelivered (ws_deliveries s) drawId url \<Longrightarrow> isDelivered (ws_deliveries s') drawId url"
proof (induction ops arbitrary: s)
  case (Cons op ops)
  show ?case
  proof (cases op)
    case (OpSend now post event)
    then obtain rs s1 where "sendDrawConfirmationWebhook fuel hmacHex post now event s = Some (rs, s1)" "webhook_run fuel hmacHex parseUrl ops s1 = Some s'"
      using Cons.prems(1) by (auto split: option.splits)
    then show ?thesis using Cons.IH send_keeps_delivered Cons.prems(2) by blast
  next
    case (OpRegister url now)
    then show ?thesis using Cons by (auto simp: registerWebhookSubscription_def Let_def split: option.splits if_splits)
  next
    case (OpInitialize env)
    then show ?thesis using Cons by (auto simp: initializeWebhooks_def)
  qed
qed simp

lemma success_is_recorded:
  assumes "sendDrawConfirmationWebhook fuel hmacHex post now event s = Some (rs, s')" "parseDrawConfirmedEvent now event = Some payload"
    and "ws_config s = Some c" "distinct (wc_urls c)" "r \<in> set rs" "wr_success r"
  shows "isDelivered (ws_deliveries s') (template_text (wp_drawId payload)) (wr_url r)"
  using assms(1)
proof (cases rule: send_cases)
  case idle
  then show ?thesis using assms(5) by simp
next
  case (fanout c' payload' outcomes)
  let ?d = "template_text (wp_drawId payload)"
  let ?f = "\<lambda>url. deliver_url fuel post c (ws_deliveries s) ?d (draw_post hmacHex c payload url) now"
  have eq: "c' = c" "payload' = payload" using fanout(1,2) assms(2,3) by simp_all
  have outs: "outcomes = map (\<lambda>u. the (?f u)) (wc_urls c)"
    using arg_cong [OF fanout(3), of "map the"] unfolding eq by (simp add: o_def)
  have some: "?f u = Some (the (?f u))" if "u \<in> set (wc_urls c)" for u
    using arg_cong [OF fanout(3), of set] that unfolding eq outs by force
  have url: "wr_url (fst (the (?f u))) = u \<and> (\<forall>q. snd (the (?f u)) = Some q \<longrightarrow> dd_drawId q = ?d \<and> dd_url q = u \<and> (wr_success (fst (the (?f u))) \<longrightarrow> dd_status q = Delivered)) \<and>
      (snd (the (?f u)) = None \<longrightarrow> isDelivered (ws_deliveries s) ?d u)" if mem: "u \<in> set (wc_urls c)" for u
  proof -
    obtain res q where rq: "?f u = Some (res, q)" using some [OF mem] by (metis surj_pair)
    show ?thesis
      using deliver_url_record [of fuel post c "ws_deliveries s" ?d "draw_post hmacHex c payload u" now res]
        deliver_url_none [of fuel post c "ws_deliveries s" ?d "draw_post hmacHex c payload u" now res] rq
      by (cases q) (auto simp: draw_post_def)
  qed
  obtain u where u: "u \<in> set (wc_urls c)" "r = fst (the (?f u))" using assms(5) unfolding fanout(4) outs by auto
  then have ru: "wr_url r = u" using url by simp
  show ?thesis
  proof (cases "snd (the (?f u))")
    case None
    then have "isDelivered (ws_deliveries s) ?d u" using url [OF u(1)] by blast
    then show ?thesis using send_keeps_delivered [OF assms(1)] ru by simp
  next
    case (Some q)
    obtain us vs where split: "wc_urls c = us @ u # vs" "u \<notin> set us" "u \<notin> set vs" using split_list [OF u(1)] assms(4) by auto
    have rest: "List.map_filter snd (map (\<lambda>u. the (?f u)) (us @ u # vs)) =
        List.map_filter snd (map (\<lambda>u. the (?f u)) us) @ q # List.map_filter snd (map (\<lambda>u. the (?f u)) vs)"
      using Some by (induction us) (auto simp: List.map_filter_simps split: option.splits)
    have q: "dd_drawId q = ?d" "dd_url q = u" "dd_status q = Delivered" using url [OF u(1)] Some assms(6) u(2) by auto
    have "\<forall>x \<in> set (List.map_filter snd (map (\<lambda>u. the (?f u)) vs)). delivery_key (dd_drawId x) (dd_url x) \<noteq> delivery_key ?d u"
    proof
      fix x assume "x \<in> set (List.map_filter snd (map (\<lambda>u. the (?f u)) vs))"
      then obtain v where "v \<in> set vs" "snd (the (?f v)) = Some x" by (auto simp: in_map_filter)
      then have "dd_drawId x = ?d" "dd_url x = v" "v \<noteq> u" using url [of v] split by auto
      then show "delivery_key (dd_drawId x) (dd_url x) \<noteq> delivery_key ?d u" by (simp add: delivery_key_def)
    qed
    then have "jsmap_get (ws_deliveries s') (delivery_key ?d u) = Some (q\<lparr>dd_updatedAt := now\<rparr>)"
      using fanout(5) fold_record_other q unfolding outs split(1) rest by (simp add: record_delivery_def)
    then show ?thesis using q(3) ru by (simp add: isDelivered_def)
  qed
qed

text \<open>
  Exactly once per draw and subscriber. Once a delivery of a draw to a URL has succeeded, then whatever events are sent, URLs registered and configurations
  loaded afterwards, a later event for the same draw does not post to that URL: its result is a success with zero attempts, whatever the network would answer.
  (The configured URLs are distinct, and the events are processed one after another.)
\<close>

theorem draw_delivered_once:
  assumes "sendDrawConfirmationWebhook fuel hmacHex post now event s = Some (rs, s1)" "parseDrawConfirmedEvent now event = Some payload"
    and "ws_config s = Some c" "distinct (wc_urls c)" "r \<in> set rs" "wr_success r"
    and "webhook_run fuel hmacHex parseUrl ops s1 = Some s2"
    and "parseDrawConfirmedEvent now' event' = Some payload'" "template_text (wp_drawId payload') = template_text (wp_drawId payload)"
    and "sendDrawConfirmationWebhook fuel hmacHex post' now' event' s2 = Some (rs', s3)" "r' \<in> set rs'" "wr_url r' = wr_url r"
  shows "r' = \<lparr>wr_url = wr_url r, wr_success = True, wr_attempt = Fin 0, wr_error = None, wr_responseStatus = None\<rparr>"
  using assms(10)
proof (cases rule: send_cases)
  case idle
  then show ?thesis using assms(11) by simp
next
  case (fanout c' p' outcomes)
  have d: "isDelivered (ws_deliveries s2) (template_text (wp_drawId payload)) (wr_url r)"
    using run_keeps_delivered [OF assms(7) success_is_recorded [OF assms(1-6)]] .
  have p': "p' = payload'" using fanout(2) assms(8) by simp
  obtain q where "(r', q) \<in> set outcomes" using assms(11) unfolding fanout(4) by auto
  then have "Some (r', q) \<in> set (map (\<lambda>url. deliver_url fuel post' c' (ws_deliveries s2) (template_text (wp_drawId payload')) (draw_post hmacHex c' payload' url) now') (wc_urls c'))"
    unfolding fanout(3) [unfolded p'] by simp
  then obtain u where u: "deliver_url fuel post' c' (ws_deliveries s2) (template_text (wp_drawId payload')) (draw_post hmacHex c' payload' u) now' = Some (r', q)" by force
  then have "wr_url r' = u"
    using deliver_url_record [of fuel post' c' "ws_deliveries s2" _ _ now' r'] deliver_url_none [of fuel post' c' "ws_deliveries s2" _ _ now' r'] by (cases q) (auto simp: draw_post_def)
  then show ?thesis using u d assms(9,12) by (simp add: deliver_url_def draw_post_def)
qed

definition exampleWebhookConfig :: WebhookConfig where
  "exampleWebhookConfig = \<lparr>wc_urls = [''https://a''], wc_secret = ''s'', wc_maxRetries = Fin 3, wc_initialBackoffMs = Fin 1000, wc_backoffMultiplier = Fin 2,
     wc_timeoutMs = Fin 10000\<rparr>"

definition exampleWebhookState :: webhook_state where
  "exampleWebhookState = \<lparr>ws_config = Some exampleWebhookConfig, ws_runtime = [], ws_deliveries = []\<rparr>"

definition exampleDraw :: HorizonEvent where
  "exampleDraw = \<lparr>hz_ledger = Fin 7, hz_timestamp = ''t'', hz_contractId = ''C'', hz_topics = [''draw_confirmed''], hz_data = ''{}'', hz_eventId = None\<rparr>"

definition exampleDelivery :: "time \<Rightarrow> DrawDelivery" where
  "exampleDelivery now = \<lparr>dd_drawId = [], dd_url = ''https://a'', dd_status = Delivered, dd_attempts = Fin 1, dd_lastError = None, dd_deliveredAt = Some now, dd_updatedAt = now\<rparr>"

lemma exampleDraw_payload: "\<exists>p. parseDrawConfirmedEvent now exampleDraw = Some p \<and> template_text (wp_drawId p) = []"
proof -
  have "JSON_parse ''{}'' = Some (JObj [])" by code_simp
  then show ?thesis by (simp add: parseDrawConfirmedEvent_def exampleDraw_def field_or_def jsmap_get_def)
qed

lemma example_send:
  "sendDrawConfirmationWebhook 6 hmacHex (\<lambda>_ _. HttpResponse True 200 ''OK'') now exampleDraw exampleWebhookState =
     Some ([\<lparr>wr_url = ''https://a'', wr_success = True, wr_attempt = Fin 1, wr_error = None, wr_responseStatus = Some 200\<rparr>],
       exampleWebhookState\<lparr>ws_deliveries := [(''::https://a'', exampleDelivery now)]\<rparr>)"
  "sendDrawConfirmationWebhook 6 hmacHex post now exampleDraw (exampleWebhookState\<lparr>ws_deliveries := [(''::https://a'', exampleDelivery now')]\<rparr>) =
     Some ([\<lparr>wr_url = ''https://a'', wr_success = True, wr_attempt = Fin 0, wr_error = None, wr_responseStatus = None\<rparr>],
       exampleWebhookState\<lparr>ws_deliveries := [(''::https://a'', exampleDelivery now')]\<rparr>)"
proof -
  obtain p where p: "parseDrawConfirmedEvent now exampleDraw = Some p" "template_text (wp_drawId p) = []" using exampleDraw_payload by blast
  have f: "retryWithBackoff 6 fn (Fin 3) d k (Suc 0) e = Some (Inr (x, Suc 0))" if "fn (Suc 0) = Inr x" for fn d k e x
    using that dround_numeral [of "num.Bit0 (num.Bit0 num.One)"] by (simp add: numeral_eq_Suc retryWithBackoff.simps)
  show "sendDrawConfirmationWebhook 6 hmacHex (\<lambda>_ _. HttpResponse True 200 ''OK'') now exampleDraw exampleWebhookState =
     Some ([\<lparr>wr_url = ''https://a'', wr_success = True, wr_attempt = Fin 1, wr_error = None, wr_responseStatus = Some 200\<rparr>],
       exampleWebhookState\<lparr>ws_deliveries := [(''::https://a'', exampleDelivery now)]\<rparr>)"
    by (simp add: sendDrawConfirmationWebhook_def exampleWebhookState_def exampleWebhookConfig_def p deliver_url_def draw_post_def isDelivered_def
        delivery_key_def jsmap_get_def f deliverWebhook_def record_delivery_def List.map_filter_simps exampleDelivery_def)
  show "sendDrawConfirmationWebhook 6 hmacHex post now exampleDraw (exampleWebhookState\<lparr>ws_deliveries := [(''::https://a'', exampleDelivery now')]\<rparr>) =
     Some ([\<lparr>wr_url = ''https://a'', wr_success = True, wr_attempt = Fin 0, wr_error = None, wr_responseStatus = None\<rparr>],
       exampleWebhookState\<lparr>ws_deliveries := [(''::https://a'', exampleDelivery now')]\<rparr>)"
    by (simp add: sendDrawConfirmationWebhook_def exampleWebhookState_def exampleWebhookConfig_def p deliver_url_def draw_post_def isDelivered_def
        delivery_key_def jsmap_get_def List.map_filter_simps exampleDelivery_def)
qed

theorem draw_delivered_once_witness:
  "\<exists>rs' s3. sendDrawConfirmationWebhook 6 (\<lambda>k m. []) (\<lambda>_ _. HttpThrows ''down'') 9 exampleDraw (exampleWebhookState\<lparr>ws_deliveries := [(''::https://a'', exampleDelivery 5)]\<rparr>) =
     Some (rs', s3) \<and> list_all (\<lambda>r. wr_attempt r = Fin 0) rs'"
proof -
  obtain p5 p9 where p: "parseDrawConfirmedEvent 5 exampleDraw = Some p5" "template_text (wp_drawId p5) = []"
    "parseDrawConfirmedEvent 9 exampleDraw = Some p9" "template_text (wp_drawId p9) = []" using exampleDraw_payload by blast
  let ?r = "\<lparr>wr_url = ''https://a'', wr_success = True, wr_attempt = Fin 0, wr_error = None, wr_responseStatus = None\<rparr>"
  let ?r1 = "?r\<lparr>wr_attempt := Fin 1, wr_responseStatus := Some 200\<rparr>"
  have c: "ws_config exampleWebhookState = Some exampleWebhookConfig" "distinct (wc_urls exampleWebhookConfig)"
    by (simp_all add: exampleWebhookState_def exampleWebhookConfig_def)
  have m: "?r1 \<in> set [?r1]" "wr_success ?r1" by simp_all
  have e1: "sendDrawConfirmationWebhook 6 (\<lambda>k m. []) (\<lambda>_ _. HttpResponse True 200 ''OK'') 5 exampleDraw exampleWebhookState =
      Some ([?r1], exampleWebhookState\<lparr>ws_deliveries := [(''::https://a'', exampleDelivery 5)]\<rparr>)" using example_send(1) by simp
  note once = draw_delivered_once [OF e1 p(1) c m, of "\<lambda>_. None" "[]" "exampleWebhookState\<lparr>ws_deliveries := [(''::https://a'', exampleDelivery 5)]\<rparr>",
      OF _ p(3) _ example_send(2) [of "\<lambda>k m. []" "\<lambda>_ _. HttpThrows ''down''" 9 5], of ?r]
  have "wr_attempt ?r = Fin 0" using once p by simp
  then show ?thesis using example_send(2) [of "\<lambda>k m. []" "\<lambda>_ _. HttpThrows ''down''" 9 5] by (intro exI conjI) (assumption, simp)
qed

theorem draw_delivery_outcome_witness:
  "\<exists>result r. deliver_url 6 (\<lambda>_ _. HttpThrows ''down'') exampleWebhookConfig [] ''d1'' \<lparr>po_url = ''https://a'', po_signature = [], po_timestamp = [], po_body = [], po_timeoutMs = Fin 1\<rparr> 5 =
     Some (result, Some r) \<and> dd_status r = DeadLetter \<and> dd_attempts r = Fin 4"
proof -
  let ?p = "\<lparr>po_url = ''https://a'', po_signature = [], po_timestamp = [], po_body = [], po_timeoutMs = Fin 1\<rparr>"
  have "List.find (\<lambda>n. \<not> isl (deliverWebhook (\<lambda>_. HttpThrows ''down'') ?p)) [1..<nat (3 + 2)] = None"
    by (simp add: find_None_iff deliverWebhook_def)
  with draw_delivery_outcome [of exampleWebhookConfig 3 6 "[]" "''d1''" ?p "\<lambda>_ _. HttpThrows ''down''" 5] show ?thesis
    by (auto simp: exampleWebhookConfig_def isDelivered_def jsmap_get_def)
qed

text \<open>Subscriptions registered at run time are listed by \<open>getWebhookConfig\<close> but never receive a draw: the sender reads the configuration alone.\<close>

lemma runtime_subscriptions_get_no_draws:
  assumes "sendDrawConfirmationWebhook fuel hmacHex post now event s = Some (rs, s')" "r \<in> set rs"
  shows "\<exists>c. ws_config s = Some c \<and> wr_url r \<in> set (wc_urls c)"
  using assms(1)
proof (cases rule: send_cases)
  case idle
  then show ?thesis using assms(2) by simp
next
  case (fanout c payload outcomes)
  obtain q where "(r, q) \<in> set outcomes" using assms(2) unfolding fanout(4) by auto
  then have "Some (r, q) \<in> set (map (\<lambda>url. deliver_url fuel post c (ws_deliveries s) (template_text (wp_drawId payload)) (draw_post hmacHex c payload url) now) (wc_urls c))"
    unfolding fanout(3) by simp
  then obtain u where u: "u \<in> set (wc_urls c)" "deliver_url fuel post c (ws_deliveries s) (template_text (wp_drawId payload)) (draw_post hmacHex c payload u) now = Some (r, q)" by force
  then have "wr_url r = u"
    using deliver_url_record [of fuel post c "ws_deliveries s" _ _ now r] deliver_url_none [of fuel post c "ws_deliveries s" _ _ now r] by (cases q) (auto simp: draw_post_def)
  then show ?thesis using u(1) fanout(1) by blast
qed

end
