(* ===== verification/Events.thy ===== *)
theory Events
  imports CreditLineService CursorPagination JsDate
begin

text \<open>
  The in-process event bus and its subscribers: \<open>src/services/events/eventBus.ts\<close>, \<open>auditSubscriber.ts\<close>,
  \<open>domainEventSubscriber.ts\<close>, the audit log (\<open>src/services/auditLogStore.ts\<close>) and the replay log (\<open>src/services/domainEventStore.ts\<close>).
  A handler acts on the state \<open>'w\<close> of the subscribers and may throw; it is registered under a number that stands for its object identity.
  The handlers of one event run in order of registration. The locale \<open>event_log\<close> is what \<open>DomainEventStore\<close> promises; \<open>memlog\<close> is
  its interpretation on the in-memory store.
\<close>

section \<open>The bus\<close>

type_synonym 'w bus_handler = "domain_event \<Rightarrow> 'w \<Rightarrow> (js_error + unit) \<times> 'w"

type_synonym 'w bus = "(string, (nat \<times> 'w bus_handler) list) jsmap"

definition bus_handlers :: "'w bus \<Rightarrow> string \<Rightarrow> (nat \<times> 'w bus_handler) list" where
  "bus_handlers b type = (case jsmap_get b type of Some hs \<Rightarrow> hs | None \<Rightarrow> [])"

definition bus_subscribe :: "string \<Rightarrow> nat \<Rightarrow> 'w bus_handler \<Rightarrow> 'w bus \<Rightarrow> 'w bus" where
  "bus_subscribe type i handler b =
     (let hs = bus_handlers b type
      in jsmap_set type (if i \<in> fst ` set hs then hs else hs @ [(i, handler)]) b)"

definition bus_unsubscribe :: "string \<Rightarrow> nat \<Rightarrow> 'w bus \<Rightarrow> 'w bus" where
  "bus_unsubscribe type i b =
     (case jsmap_get b type of None \<Rightarrow> b | Some hs \<Rightarrow> jsmap_set type (filter (\<lambda>h. fst h \<noteq> i) hs) b)"

definition run_handler :: "domain_event \<Rightarrow> nat \<times> 'w bus_handler \<Rightarrow> (js_error \<times> nat) list \<times> 'w \<Rightarrow> (js_error \<times> nat) list \<times> 'w" where
  "run_handler event = (\<lambda>(i, handler) (errs, w).
     (case handler event w of
        (Inl e, w') \<Rightarrow> (errs @ [(e, i)], w')
      | (Inr _, w') \<Rightarrow> (errs, w')))"

text \<open>\<open>publish\<close> returns what the error sink receives and the state the handlers leave.\<close>

definition bus_publish :: "'w bus \<Rightarrow> domain_event \<Rightarrow> 'w \<Rightarrow> (js_error \<times> nat) list \<times> 'w" where
  "bus_publish b event w = fold (run_handler event) (bus_handlers b (ev_type event)) ([], w)"

definition handlerCount :: "'w bus \<Rightarrow> string \<Rightarrow> nat" where
  "handlerCount b type = length (bus_handlers b type)"

definition bus_clear :: "'w bus \<Rightarrow> 'w bus" where
  "bus_clear b = jsmap_empty"

definition LIFECYCLE_EVENTS :: "string list" where
  "LIFECYCLE_EVENTS = [''credit.opened'', ''credit.draw_requested'', ''credit.draw_confirmed'', ''credit.repay_confirmed'', ''credit.defaulted'']"

lemma handlers_after_subscribe:
  "bus_handlers (bus_subscribe type i h b) t =
     (if t = type \<and> i \<notin> fst ` set (bus_handlers b t) then bus_handlers b t @ [(i, h)] else bus_handlers b t)"
  by (auto simp: bus_subscribe_def bus_handlers_def Let_def split: option.splits)

lemma handlers_after_unsubscribe:
  "bus_handlers (bus_unsubscribe type i b) t = (if t = type then filter (\<lambda>h. fst h \<noteq> i) (bus_handlers b t) else bus_handlers b t)"
  by (auto simp: bus_unsubscribe_def bus_handlers_def split: option.splits)

lemma handlers_after_subscriptions:
  assumes "distinct (map fst xs)" "\<forall>(type, i) \<in> set xs. i \<notin> fst ` set (bus_handlers b type)"
  shows "bus_handlers (fold (\<lambda>(type, i). bus_subscribe type i h) xs b) t =
     bus_handlers b t @ (case map_of xs t of Some i \<Rightarrow> [(i, h)] | None \<Rightarrow> [])"
  using assms
proof (induction xs arbitrary: b)
  case (Cons x xs)
  obtain type i where x: "x = (type, i)" by (cases x)
  have new: "bus_handlers (bus_subscribe type i h b) u = bus_handlers b u @ (if u = type then [(i, h)] else [])" for u
    using Cons.prems(2) x by (simp add: handlers_after_subscribe)
  have nt: "type \<notin> fst ` set xs" using Cons.prems(1) x by simp
  then have none: "map_of xs type = None" by (simp add: map_of_eq_None_iff)
  have "j \<notin> fst ` set (bus_handlers (bus_subscribe type i h b) u)" if m: "(u, j) \<in> set xs" for u j
  proof -
    have "u \<noteq> type" using m nt by force
    then show ?thesis using Cons.prems(2) m new [of u] by auto
  qed
  then have "\<forall>(u, j) \<in> set xs. j \<notin> fst ` set (bus_handlers (bus_subscribe type i h b) u)" by blast
  then show ?case using Cons.IH [of "bus_subscribe type i h b"] Cons.prems(1) none by (simp add: x new)
qed simp

lemma fold_run_handler:
  "fold (run_handler event) hs (errs, w) = (errs', w') \<Longrightarrow> w' = fold (\<lambda>h w. snd (snd h event w)) hs w"
proof (induction hs arbitrary: errs w)
  case (Cons h hs)
  obtain i f where h: "h = (i, f)" by (cases h)
  obtain r w1 where f: "f event w = (r, w1)" by (cases "f event w")
  show ?case using Cons.prems Cons.IH [of _ w1] by (cases r) (simp_all add: h f run_handler_def)
qed simp

text \<open>Every handler of the type runs exactly once, whichever of the others throw.\<close>

lemma publish_runs_all: "snd (bus_publish b event w) = fold (\<lambda>h w. snd (snd h event w)) (bus_handlers b (ev_type event)) w"
  unfolding bus_publish_def by (metis fold_run_handler prod.collapse)

section \<open>The audit log\<close>

record AuditRecord =
  ar_action :: string
  ar_creditLineId :: string
  ar_occurredAt :: time
  ar_details :: "(string \<times> string) list"

definition DEFAULT_AUDIT_STORE_CAPACITY :: int where
  "DEFAULT_AUDIT_STORE_CAPACITY = 50000"

record audit_store =
  as_records :: "AuditRecord list"
  as_capacity :: int

definition AuditLogStore_new :: "int \<Rightarrow> js_error + audit_store" where
  "AuditLogStore_new capacity =
     (if capacity < 1 then Inl (Error ''AuditLogStore capacity must be at least 1'')
      else Inr \<lparr>as_records = [], as_capacity = capacity\<rparr>)"

fun drop_oldest :: "int \<Rightarrow> AuditRecord list \<Rightarrow> AuditRecord list" where
  "drop_oldest capacity [] = []"
| "drop_oldest capacity (r # rs) = (if int (length (r # rs)) > capacity then drop_oldest capacity rs else r # rs)"

definition AuditLogStore_append :: "AuditRecord \<Rightarrow> audit_store \<Rightarrow> audit_store" where
  "AuditLogStore_append rec s = s\<lparr>as_records := drop_oldest (as_capacity s) (as_records s @ [rec])\<rparr>"

record AuditQuery =
  aq_from :: "time option"
  aq_to :: "time option"
  aq_creditLineId :: "string option"
  aq_action :: "string option"
  aq_offset :: "int option"
  aq_limit :: "int option"

definition matches_filter :: "string option \<Rightarrow> string \<Rightarrow> bool" where
  "matches_filter f v \<longleftrightarrow> (case f of None \<Rightarrow> True | Some x \<Rightarrow> x = [] \<or> v = x)"

definition matchesAuditFilters :: "AuditRecord \<Rightarrow> AuditQuery \<Rightarrow> bool" where
  "matchesAuditFilters rec q \<longleftrightarrow>
     (case aq_from q of Some f \<Rightarrow> f \<le> ar_occurredAt rec | None \<Rightarrow> True) \<and>
     (case aq_to q of Some t \<Rightarrow> ar_occurredAt rec \<le> t | None \<Rightarrow> True) \<and>
     matches_filter (aq_creditLineId q) (ar_creditLineId rec) \<and> matches_filter (aq_action q) (ar_action rec)"

definition audit_compare :: "(string \<Rightarrow> string \<Rightarrow> int) \<Rightarrow> AuditRecord \<Rightarrow> AuditRecord \<Rightarrow> int" where
  "audit_compare lc a b =
     (let ts = ar_occurredAt b - ar_occurredAt a in if ts \<noteq> 0 then ts else lc (ar_creditLineId a) (ar_creditLineId b))"

definition AuditLogStore_query :: "(string \<Rightarrow> string \<Rightarrow> int) \<Rightarrow> AuditQuery \<Rightarrow> audit_store \<Rightarrow> AuditRecord list" where
  "AuditLogStore_query lc q s =
     (let offset = max 0 (case aq_offset q of Some v \<Rightarrow> v | None \<Rightarrow> 0);
          limit = (case aq_limit q of Some v \<Rightarrow> v | None \<Rightarrow> int (length (as_records s)));
          matched = js_sort (audit_compare lc) (filter (\<lambda>r. matchesAuditFilters r q) (as_records s))
      in js_slice matched offset (offset + limit))"

definition AuditLogStore_count :: "AuditQuery \<Rightarrow> audit_store \<Rightarrow> nat" where
  "AuditLogStore_count q s = length (filter (\<lambda>r. matchesAuditFilters r q) (as_records s))"

definition AuditLogStore_clear :: "audit_store \<Rightarrow> audit_store" where
  "AuditLogStore_clear s = s\<lparr>as_records := []\<rparr>"

definition toAuditRecord :: "domain_event \<Rightarrow> AuditRecord" where
  "toAuditRecord event = \<lparr>ar_action = ev_type event, ar_creditLineId = ev_creditLineId event, ar_occurredAt = ev_occurredAt event, ar_details = ev_payload event\<rparr>"

text \<open>Each lifecycle event gets a handler of its own; \<open>ids\<close> numbers them.\<close>

definition registerAuditSubscriber :: "(nat \<Rightarrow> nat) \<Rightarrow> (AuditRecord \<Rightarrow> 'w \<Rightarrow> (js_error + unit) \<times> 'w) \<Rightarrow> 'w bus \<Rightarrow> 'w bus" where
  "registerAuditSubscriber ids sink b =
     fold (\<lambda>(n, type). bus_subscribe type (ids n) (\<lambda>event. sink (toAuditRecord event))) (enumerate 0 LIFECYCLE_EVENTS) b"

section \<open>The replay log\<close>

record DomainEventRecord =
  de_id :: string
  de_eventType :: string
  de_aggregateId :: string
  de_payload :: "(string \<times> string) list"
  de_occurredAt :: time
  de_createdAt :: time

record DomainEventQuery =
  dq_aggregateId :: "string option"
  dq_eventType :: "string option"
  dq_offset :: "int option"
  dq_limit :: "int option"

record domain_log =
  dl_seen :: "string list"
  dl_records :: "DomainEventRecord list"
  dl_counter :: nat

definition empty_domain_log :: domain_log where
  "empty_domain_log = \<lparr>dl_seen = [], dl_records = [], dl_counter = 0\<rparr>"

definition dedupeKey :: "domain_event \<Rightarrow> string" where
  "dedupeKey event = ev_creditLineId event @ ''::'' @ ev_type event @ ''::'' @ toISOString (ev_occurredAt event)"

definition domain_append :: "time \<Rightarrow> domain_event \<Rightarrow> domain_log \<Rightarrow> domain_log" where
  "domain_append now event s =
     (let key = dedupeKey event
      in if key \<in> set (dl_seen s) then s
         else s\<lparr>dl_seen := dl_seen s @ [key], dl_counter := dl_counter s + 1,
                dl_records := dl_records s @ [\<lparr>de_id = ''mem-'' @ digits_of_nat (dl_counter s + 1), de_eventType = ev_type event,
                  de_aggregateId = ev_creditLineId event, de_payload = ev_payload event, de_occurredAt = ev_occurredAt event, de_createdAt = now\<rparr>]\<rparr>)"

definition domain_list :: "DomainEventQuery \<Rightarrow> domain_log \<Rightarrow> DomainEventRecord list" where
  "domain_list q s =
     (let offset = max 0 (case dq_offset q of Some v \<Rightarrow> v | None \<Rightarrow> 0);
          limit = (case dq_limit q of Some v \<Rightarrow> v | None \<Rightarrow> int (length (dl_records s)));
          rs = filter (\<lambda>r. matches_filter (dq_eventType q) (de_eventType r)) (filter (\<lambda>r. matches_filter (dq_aggregateId q) (de_aggregateId r)) (dl_records s))
      in js_slice rs offset (offset + limit))"

definition domain_clear :: "domain_log \<Rightarrow> domain_log" where
  "domain_clear s = empty_domain_log"

definition registerDomainEventStoreSubscriber :: "(nat \<Rightarrow> nat) \<Rightarrow> (domain_event \<Rightarrow> 'w \<Rightarrow> (js_error + unit) \<times> 'w) \<Rightarrow> 'w bus \<Rightarrow> 'w bus" where
  "registerDomainEventStoreSubscriber ids store_append b =
     fold (\<lambda>(n, type). bus_subscribe type (ids n) store_append) (enumerate 0 LIFECYCLE_EVENTS) b"

section \<open>The audit log keeps the most recent records\<close>

lemma drop_oldest_drop: "0 \<le> capacity \<Longrightarrow> drop_oldest capacity rs = drop (length rs - nat capacity) rs"
proof (induction rs)
  case (Cons r rs)
  show ?case
  proof (cases "int (length (r # rs)) > capacity")
    case True
    then have "length (r # rs) - nat capacity = Suc (length rs - nat capacity)" using Cons.prems by auto
    then show ?thesis using True Cons by simp
  next
    case False
    then have "length (r # rs) - nat capacity = 0" by linarith
    then show ?thesis using False by simp
  qed
qed simp

lemma recent_snoc: "drop (length (drop (length ys - n) ys @ [x]) - n) (drop (length ys - n) ys @ [x]) = drop (length (ys @ [x]) - n) (ys @ [x])"
  by (cases "length ys \<le> n") (simp_all add: Suc_diff_le)

lemma appends_keep_recent:
  assumes "0 \<le> as_capacity s"
  shows "as_records (fold AuditLogStore_append xs s) =
      (if xs = [] then as_records s else drop (length (as_records s @ xs) - nat (as_capacity s)) (as_records s @ xs))" (is "?A s")
    and "as_capacity (fold AuditLogStore_append xs s) = as_capacity s"
proof -
  have c: "as_capacity (fold AuditLogStore_append ys s) = as_capacity s" for ys
    by (induction ys rule: rev_induct) (simp_all add: AuditLogStore_append_def)
  then show "as_capacity (fold AuditLogStore_append xs s) = as_capacity s" .
  show "?A s"
  proof (induction xs rule: rev_induct)
    case (snoc x xs)
    define n where "n = nat (as_capacity s)"
    define ys where "ys = as_records s @ xs"
    define t where "t = fold AuditLogStore_append xs s"
    have "as_records (AuditLogStore_append x t) = drop (length (as_records t @ [x]) - n) (as_records t @ [x])"
      using assms c [of xs] by (simp add: AuditLogStore_append_def drop_oldest_drop t_def n_def)
    also have "\<dots> = drop (length (ys @ [x]) - n) (ys @ [x])"
    proof (cases "xs = []")
      case False
      then have "as_records t = drop (length ys - n) ys" using snoc by (simp add: t_def n_def ys_def)
      then show ?thesis using recent_snoc [of ys n x] by simp
    qed (simp add: ys_def t_def)
    finally show ?case by (simp add: t_def n_def ys_def)
  qed simp
qed

lemma audit_comparator: "comparator lc \<Longrightarrow> comparator (audit_compare lc)"
proof -
  assume "comparator lc"
  then have flip: "lc x y < 0 \<longleftrightarrow> lc y x > 0" and trans: "lc x y \<le> 0 \<Longrightarrow> lc y z \<le> 0 \<Longrightarrow> lc x z \<le> 0" for x y z
    by (auto simp: comparator_def)
  show ?thesis
    by unfold_locales (use flip trans in \<open>auto simp: audit_compare_def Let_def split: if_splits\<close>)
qed

text \<open>
  The audit log is a ring. After any sequence of appends to a new store of capacity \<open>n \<ge> 1\<close> it holds exactly the last \<open>n\<close> records appended, in order; a query without
  pagination returns exactly the retained records that match its filters, newest first, and as many as \<open>count\<close> says.
\<close>

theorem audit_log_recent_and_ordered:
  assumes "AuditLogStore_new capacity = Inr s0" "s = fold AuditLogStore_append rs s0" "comparator lc"
    and "aq_offset q = None" "aq_limit q = None"
  shows "as_records s = drop (length rs - nat capacity) rs \<and>
     mset (AuditLogStore_query lc q s) = mset (filter (\<lambda>r. matchesAuditFilters r q) (as_records s)) \<and>
     sorted_wrt (\<lambda>a b. ar_occurredAt b \<le> ar_occurredAt a) (AuditLogStore_query lc q s) \<and>
     length (AuditLogStore_query lc q s) = AuditLogStore_count q s"
proof -
  have s0: "s0 = \<lparr>as_records = [], as_capacity = capacity\<rparr>" "1 \<le> capacity" using assms(1) by (auto simp: AuditLogStore_new_def split: if_splits)
  have r: "as_records s = drop (length rs - nat capacity) rs" using appends_keep_recent(1) [of s0 rs] s0 by (simp add: assms(2))
  let ?m = "filter (\<lambda>r. matchesAuditFilters r q) (as_records s)"
  have "int (length ?m) \<le> int (length (as_records s))" by simp
  then have q: "AuditLogStore_query lc q s = js_sort (audit_compare lc) ?m"
    using js_slice_nat [of 0 "int (length (as_records s))" "js_sort (audit_compare lc) ?m"]
    by (simp add: AuditLogStore_query_def assms(4,5) Let_def)
  have "sorted_wrt (\<lambda>a b. audit_compare lc a b \<le> 0) (js_sort (audit_compare lc) ?m)"
    by (rule comparator.sorted_js_sort [OF audit_comparator [OF assms(3)]])
  then have "sorted_wrt (\<lambda>a b. ar_occurredAt b \<le> ar_occurredAt a) (js_sort (audit_compare lc) ?m)"
    by (rule sorted_wrt_mono_rel [rotated]) (auto simp: audit_compare_def Let_def split: if_splits)
  then show ?thesis using r q by (simp add: AuditLogStore_count_def)
qed

theorem audit_log_recent_and_ordered_witness:
  "map ar_creditLineId (AuditLogStore_query code_unit_compare \<lparr>aq_from = None, aq_to = None, aq_creditLineId = None, aq_action = None, aq_offset = None, aq_limit = None\<rparr>
     (fold AuditLogStore_append (map (\<lambda>(t, i). \<lparr>ar_action = ''credit.opened'', ar_creditLineId = i, ar_occurredAt = t, ar_details = []\<rparr>) [(5, ''a''), (7, ''b''), (9, ''c'')])
        \<lparr>as_records = [], as_capacity = 2\<rparr>)) = [''c'', ''b'']"
proof -
  let ?rs = "map (\<lambda>(t, i). \<lparr>ar_action = ''credit.opened'', ar_creditLineId = i, ar_occurredAt = t, ar_details = []\<rparr>) [(5, ''a''), (7, ''b''), (9, ''c'')]"
  let ?q = "\<lparr>aq_from = None, aq_to = None, aq_creditLineId = None, aq_action = None, aq_offset = None, aq_limit = None\<rparr>"
  let ?s0 = "\<lparr>as_records = [], as_capacity = 2\<rparr>"
  have "AuditLogStore_new 2 = Inr ?s0" by (simp add: AuditLogStore_new_def)
  moreover have "comparator code_unit_compare" by unfold_locales
  ultimately have "as_records (fold AuditLogStore_append ?rs ?s0) = drop (length ?rs - nat 2) ?rs"
    using audit_log_recent_and_ordered [of 2 ?s0 _ ?rs code_unit_compare ?q, OF _ refl] by simp
  then show ?thesis by (simp add: AuditLogStore_query_def matchesAuditFilters_def matches_filter_def audit_compare_def js_slice_def js_index_def Let_def)
qed

section \<open>The replay log\<close>

locale event_log =
  fixes add :: "time \<Rightarrow> domain_event \<Rightarrow> 's \<Rightarrow> 's" and entries :: "'s \<Rightarrow> domain_event list" and key :: "domain_event \<Rightarrow> 'k" and ok :: "'s \<Rightarrow> bool"
  assumes add_ok: "ok s \<Longrightarrow> ok (add now e s)"
    and add_new: "ok s \<Longrightarrow> key e \<notin> key ` set (entries s) \<Longrightarrow> entries (add now e s) = entries s @ [e]"
    and add_seen: "ok s \<Longrightarrow> key e \<in> key ` set (entries s) \<Longrightarrow> add now e s = s"
begin

lemma redelivery_is_noop: "ok s \<Longrightarrow> add now' e (add now e s) = add now e s"
  by (cases "key e \<in> key ` set (entries s)") (simp_all add: add_seen add_new add_ok)

lemma replay_keys:
  assumes "ok s" "distinct (map key (entries s))"
  shows "let s' = fold (\<lambda>(now, e). add now e) es s in ok s' \<and> distinct (map key (entries s')) \<and>
     set (map key (entries s')) = set (map key (entries s)) \<union> key ` snd ` set es \<and> (\<exists>more. entries s' = entries s @ more \<and> set more \<subseteq> snd ` set es)"
  using assms
proof (induction es arbitrary: s)
  case (Cons x es)
  obtain now e where x: "x = (now, e)" by (cases x)
  have step: "ok (add now e s)" "distinct (map key (entries (add now e s)))" "key ` set (entries (add now e s)) = insert (key e) (key ` set (entries s))"
    "\<exists>more. entries (add now e s) = entries s @ more \<and> set more \<subseteq> {e}"
    using Cons.prems by (cases "key e \<in> key ` set (entries s)"; auto simp: add_ok add_new add_seen)+
  show ?case using Cons.IH [OF step(1,2)] step(3,4) by (auto simp: x Let_def)
qed simp

end

definition record_event :: "DomainEventRecord \<Rightarrow> domain_event" where
  "record_event r = \<lparr>ev_type = de_eventType r, ev_occurredAt = de_occurredAt r, ev_creditLineId = de_aggregateId r, ev_payload = de_payload r\<rparr>"

definition domain_log_ok :: "domain_log \<Rightarrow> bool" where
  "domain_log_ok s \<longleftrightarrow> dl_seen s = map (\<lambda>r. dedupeKey (record_event r)) (dl_records s) \<and> dl_counter s = length (dl_records s)"

interpretation memlog: event_log domain_append "\<lambda>s. map record_event (dl_records s)" dedupeKey domain_log_ok
  by unfold_locales (auto simp: domain_append_def domain_log_ok_def record_event_def dedupeKey_def Let_def image_image)

text \<open>
  The replay log is idempotent. Appending any sequence of events to an empty log, with any redeliveries, leaves exactly one row per deduplication key that occurred,
  each the event that came first with that key, in order of first arrival, numbered \<open>mem-1\<close>, \<open>mem-2\<close>, \<open>\<dots>\<close>; redelivering an event changes nothing.
\<close>

theorem replay_log_idempotent:
  "let s = fold (\<lambda>(now, e). domain_append now e) es empty_domain_log
   in distinct (map (\<lambda>r. dedupeKey (record_event r)) (dl_records s)) \<and>
      set (map (\<lambda>r. dedupeKey (record_event r)) (dl_records s)) = dedupeKey ` snd ` set es \<and>
      set (map record_event (dl_records s)) \<subseteq> snd ` set es \<and>
      (\<forall>now x. fold (\<lambda>(now, e). domain_append now e) [(now, snd x)] (fold (\<lambda>(now, e). domain_append now e) (es @ [x]) empty_domain_log) =
         fold (\<lambda>(now, e). domain_append now e) (es @ [x]) empty_domain_log)"
proof -
  let ?s = "fold (\<lambda>(now, e). domain_append now e) es empty_domain_log"
  have ok: "domain_log_ok empty_domain_log" "distinct (map dedupeKey (map record_event (dl_records empty_domain_log)))"
    by (simp_all add: domain_log_ok_def empty_domain_log_def)
  note r = memlog.replay_keys [OF ok, of es, unfolded Let_def]
  have "domain_append now (snd x) (fold (\<lambda>(now, e). domain_append now e) (es @ [x]) empty_domain_log) = fold (\<lambda>(now, e). domain_append now e) (es @ [x]) empty_domain_log" for now x
    using memlog.redelivery_is_noop r by (cases x) simp
  then show ?thesis using r by (auto simp: Let_def o_def empty_domain_log_def)
qed

text \<open>The key has millisecond resolution: of two different draws on one line confirmed in the same millisecond only the first is kept.\<close>

lemma same_millisecond_event_is_lost:
  assumes "ev_creditLineId e' = ev_creditLineId e" "ev_type e' = ev_type e" "ev_occurredAt e' = ev_occurredAt e"
  shows "domain_append now' e' (domain_append now e s) = domain_append now e s"
  using assms by (simp add: domain_append_def dedupeKey_def Let_def)

end
