(* ===== verification/AnomalyDetection.thy ===== *)
theory AnomalyDetection
  imports Events
begin

text \<open>
  Rules-based anomaly detection: \<open>src/services/anomalyDetectionService.ts\<close>, its configuration (\<open>src/config/anomalyDetection.ts\<close>), the
  in-memory signal repository (\<open>src/repositories/memory/InMemoryRiskSignalRepository.ts\<close>) and the bus subscriber
  (\<open>src/services/events/anomalySubscriber.ts\<close>). Thresholds are JavaScript numbers, event times integral milliseconds; evidence and
  thresholds of a signal are JSON objects.
\<close>

section \<open>Configuration\<close>

record draw_rule_config =
  dr_minCount :: number
  dr_windowSeconds :: number

record repay_rule_config =
  rr_minCycles :: number
  rr_pairWindowSeconds :: number
  rr_patternWindowSeconds :: number
  rr_amountToleranceRatio :: number

record AnomalyDetectionConfig =
  ac_enabled :: bool
  ac_rapidSuccessiveDraws :: draw_rule_config
  ac_drawBurst :: draw_rule_config
  ac_unusualRepayPattern :: repay_rule_config
  ac_signalCooldownSeconds :: number
  ac_maxActivityEventsPerLine :: number

definition DEFAULT_ANOMALY_DETECTION_CONFIG :: AnomalyDetectionConfig where
  "DEFAULT_ANOMALY_DETECTION_CONFIG =
     \<lparr>ac_enabled = True, ac_rapidSuccessiveDraws = \<lparr>dr_minCount = Fin 3, dr_windowSeconds = Fin 300\<rparr>,
      ac_drawBurst = \<lparr>dr_minCount = Fin 5, dr_windowSeconds = Fin 60\<rparr>,
      ac_unusualRepayPattern = \<lparr>rr_minCycles = Fin 2, rr_pairWindowSeconds = Fin 120, rr_patternWindowSeconds = Fin 600,
        rr_amountToleranceRatio = dround (1 / 10)\<rparr>,
      ac_signalCooldownSeconds = Fin 300, ac_maxActivityEventsPerLine = Fin 50\<rparr>"

definition parsePositiveInt :: "string option \<Rightarrow> number \<Rightarrow> number" where
  "parsePositiveInt raw fallback =
     (case raw of
        None \<Rightarrow> fallback
      | Some r \<Rightarrow> if r = [] then fallback
                   else let n = parseInt10 r in if \<not> num_isFinite n \<or> num_le n (Fin 0) then fallback else n)"

definition parseNonNegativeRatio :: "string option \<Rightarrow> number \<Rightarrow> number" where
  "parseNonNegativeRatio raw fallback =
     (case raw of
        None \<Rightarrow> fallback
      | Some r \<Rightarrow> if r = [] then fallback
                   else let n = parseFloat r in if \<not> num_isFinite n \<or> num_lt n (Fin 0) then fallback else n)"

definition parseBool :: "string option \<Rightarrow> bool \<Rightarrow> bool" where
  "parseBool raw fallback =
     (case raw of
        None \<Rightarrow> fallback
      | Some r \<Rightarrow>
          if r = [] then fallback
          else let v = js_toLowerCase (js_trim r)
               in if v \<in> {''true'', ''1'', ''yes''} then True else if v \<in> {''false'', ''0'', ''no''} then False else fallback)"

definition loadAnomalyDetectionConfig :: "(string \<Rightarrow> string option) \<Rightarrow> AnomalyDetectionConfig" where
  "loadAnomalyDetectionConfig env =
     (let d = DEFAULT_ANOMALY_DETECTION_CONFIG
      in \<lparr>ac_enabled = parseBool (env ''ANOMALY_DETECTION_ENABLED'') (ac_enabled d),
          ac_rapidSuccessiveDraws =
            \<lparr>dr_minCount = parsePositiveInt (env ''ANOMALY_RAPID_DRAWS_MIN_COUNT'') (dr_minCount (ac_rapidSuccessiveDraws d)),
             dr_windowSeconds = parsePositiveInt (env ''ANOMALY_RAPID_DRAWS_WINDOW_SECONDS'') (dr_windowSeconds (ac_rapidSuccessiveDraws d))\<rparr>,
          ac_drawBurst =
            \<lparr>dr_minCount = parsePositiveInt (env ''ANOMALY_DRAW_BURST_MIN_COUNT'') (dr_minCount (ac_drawBurst d)),
             dr_windowSeconds = parsePositiveInt (env ''ANOMALY_DRAW_BURST_WINDOW_SECONDS'') (dr_windowSeconds (ac_drawBurst d))\<rparr>,
          ac_unusualRepayPattern =
            \<lparr>rr_minCycles = parsePositiveInt (env ''ANOMALY_REPAY_PATTERN_MIN_CYCLES'') (rr_minCycles (ac_unusualRepayPattern d)),
             rr_pairWindowSeconds = parsePositiveInt (env ''ANOMALY_REPAY_PAIR_WINDOW_SECONDS'') (rr_pairWindowSeconds (ac_unusualRepayPattern d)),
             rr_patternWindowSeconds = parsePositiveInt (env ''ANOMALY_REPAY_PATTERN_WINDOW_SECONDS'') (rr_patternWindowSeconds (ac_unusualRepayPattern d)),
             rr_amountToleranceRatio = parseNonNegativeRatio (env ''ANOMALY_REPAY_AMOUNT_TOLERANCE_RATIO'') (rr_amountToleranceRatio (ac_unusualRepayPattern d))\<rparr>,
          ac_signalCooldownSeconds = parsePositiveInt (env ''ANOMALY_SIGNAL_COOLDOWN_SECONDS'') (ac_signalCooldownSeconds d),
          ac_maxActivityEventsPerLine = parsePositiveInt (env ''ANOMALY_MAX_ACTIVITY_EVENTS_PER_LINE'') (ac_maxActivityEventsPerLine d)\<rparr>)"

section \<open>Signals and their repository\<close>

datatype RiskSignalType = RapidSuccessiveDraws | DrawBurst | UnusualRepayPattern

datatype RiskSignalSeverity = LowSeverity | MediumSeverity | HighSeverity

datatype RiskSignalStatus = OpenSignal | AcknowledgedSignal | DismissedSignal

fun ruleId_of :: "RiskSignalType \<Rightarrow> string" where
  "ruleId_of RapidSuccessiveDraws = ''rule.rapid_successive_draws''"
| "ruleId_of DrawBurst = ''rule.draw_burst''"
| "ruleId_of UnusualRepayPattern = ''rule.unusual_repay_pattern''"

record FiredRule =
  fr_signalType :: RiskSignalType
  fr_ruleId :: string
  fr_severity :: RiskSignalSeverity
  fr_thresholds :: json
  fr_evidence :: json

record RiskSignal =
  rs_id :: string
  rs_signalType :: RiskSignalType
  rs_ruleId :: string
  rs_severity :: RiskSignalSeverity
  rs_walletAddress :: string
  rs_creditLineId :: string
  rs_correlationId :: string
  rs_thresholds :: json
  rs_evidence :: json
  rs_status :: RiskSignalStatus
  rs_createdAt :: time

type_synonym signal_repo = "(string, RiskSignal) jsmap"

record RiskSignalListFilters =
  sf_walletAddress :: "string option"
  sf_creditLineId :: "string option"
  sf_signalType :: "RiskSignalType option"
  sf_status :: "RiskSignalStatus option"
  sf_correlationId :: "string option"
  sf_offset :: "int option"
  sf_limit :: "int option"

definition signal_create :: "RiskSignal \<Rightarrow> signal_repo \<Rightarrow> RiskSignal \<times> signal_repo" where
  "signal_create signal signals = (signal, jsmap_set (rs_id signal) signal signals)"

definition signal_findById :: "signal_repo \<Rightarrow> string \<Rightarrow> RiskSignal option" where
  "signal_findById signals i = jsmap_get signals i"

definition signal_filter :: "RiskSignalListFilters \<Rightarrow> signal_repo \<Rightarrow> RiskSignal list" where
  "signal_filter f signals =
     filter (\<lambda>s. matches_filter (sf_walletAddress f) (rs_walletAddress s) \<and> matches_filter (sf_creditLineId f) (rs_creditLineId s) \<and>
       (case sf_signalType f of None \<Rightarrow> True | Some t \<Rightarrow> rs_signalType s = t) \<and> (case sf_status f of None \<Rightarrow> True | Some t \<Rightarrow> rs_status s = t) \<and>
       matches_filter (sf_correlationId f) (rs_correlationId s)) (jsmap_values signals)"

definition signal_findMany :: "RiskSignalListFilters \<Rightarrow> signal_repo \<Rightarrow> RiskSignal list" where
  "signal_findMany f signals =
     (let offset = (case sf_offset f of Some v \<Rightarrow> v | None \<Rightarrow> 0); limit = (case sf_limit f of Some v \<Rightarrow> v | None \<Rightarrow> 50)
      in js_slice (js_sort (\<lambda>a b. rs_createdAt b - rs_createdAt a) (signal_filter f signals)) offset (offset + limit))"

definition signal_count :: "RiskSignalListFilters \<Rightarrow> signal_repo \<Rightarrow> nat" where
  "signal_count f signals = length (signal_filter f signals)"

section \<open>Activity\<close>

datatype ActivityKind = DrawActivity | RepayActivity

record ActivityEvent =
  act_kind :: ActivityKind
  act_creditLineId :: string
  act_walletAddress :: string
  act_amount :: string
  act_occurredAtMs :: time
  act_correlationId :: "string option"

record anomaly_state =
  an_activity :: "(string, ActivityEvent list) jsmap"
  an_lastFired :: "(string, time) jsmap"
  an_signals :: signal_repo

definition events_of :: "anomaly_state \<Rightarrow> string \<Rightarrow> ActivityEvent list" where
  "events_of s creditLineId = (case jsmap_get (an_activity s) creditLineId of Some es \<Rightarrow> es | None \<Rightarrow> [])"

definition since :: "number \<Rightarrow> ActivityEvent \<Rightarrow> bool" where
  "since start e \<longleftrightarrow> num_ge (num_of_int (act_occurredAtMs e)) start"

definition trim_activity :: "AnomalyDetectionConfig \<Rightarrow> time \<Rightarrow> ActivityEvent list \<Rightarrow> ActivityEvent list" where
  "trim_activity c now events =
     (let maxWindowSec = num_max (num_max (dr_windowSeconds (ac_rapidSuccessiveDraws c)) (dr_windowSeconds (ac_drawBurst c)))
            (rr_patternWindowSeconds (ac_unusualRepayPattern c));
          cutoff = num_sub (num_of_int now) (num_mul (num_mul maxWindowSec (Fin 1000)) (Fin 2));
          trimmed = filter (since cutoff) events;
          m = ac_maxActivityEventsPerLine c; len = num_of_int (int (length trimmed))
      in if num_gt len m then js_slice trimmed (num_trunc (num_sub len m)) (int (length trimmed)) else trimmed)"

definition pushActivity :: "AnomalyDetectionConfig \<Rightarrow> ActivityEvent \<Rightarrow> anomaly_state \<Rightarrow> anomaly_state" where
  "pushActivity c event s =
     s\<lparr>an_activity := jsmap_set (act_creditLineId event)
         (trim_activity c (act_occurredAtMs event) (events_of s (act_creditLineId event) @ [event])) (an_activity s)\<rparr>"

definition cooldownKey :: "string \<Rightarrow> string \<Rightarrow> string" where
  "cooldownKey creditLineId ruleId = creditLineId @ '':'' @ ruleId"

definition isCoolingDown :: "AnomalyDetectionConfig \<Rightarrow> anomaly_state \<Rightarrow> string \<Rightarrow> string \<Rightarrow> time \<Rightarrow> bool" where
  "isCoolingDown c s creditLineId ruleId nowMs =
     (case jsmap_get (an_lastFired s) (cooldownKey creditLineId ruleId) of
        None \<Rightarrow> False
      | Some t \<Rightarrow> num_lt (num_sub (num_of_int nowMs) (num_of_int t)) (num_mul (ac_signalCooldownSeconds c) (Fin 1000)))"

section \<open>Rules\<close>

definition isoText :: "time \<Rightarrow> json" where
  "isoText t = JStr (toISOString t)"

text \<open>The two draw rules differ in their names, severity and thresholds only. An invalid start of the window makes \<open>toISOString\<close> throw.\<close>

definition draw_rule ::
  "RiskSignalType \<Rightarrow> string \<Rightarrow> RiskSignalSeverity \<Rightarrow> draw_rule_config \<Rightarrow> ActivityEvent list \<Rightarrow> string \<Rightarrow> js_error + FiredRule option" where
  "draw_rule type name severity c events correlationId =
     (if events = [] \<or> act_kind (last events) \<noteq> DrawActivity then Inr None
      else let latest = last events;
               windowStart = num_sub (num_of_int (act_occurredAtMs latest)) (num_mul (dr_windowSeconds c) (Fin 1000));
               draws = filter (\<lambda>e. act_kind e = DrawActivity \<and> since windowStart e) events
           in if num_lt (num_of_int (int (length draws))) (dr_minCount c) then Inr None
              else (case Date_toISOString windowStart of
                      Inl err \<Rightarrow> Inl err
                    | Inr startIso \<Rightarrow>
                        Inr (Some \<lparr>fr_signalType = type, fr_ruleId = ruleId_of type, fr_severity = severity,
                          fr_thresholds = JObj [(''minCount'', JNum (dr_minCount c)), (''windowSeconds'', JNum (dr_windowSeconds c)), (''rule'', JStr name)],
                          fr_evidence = JObj [(''correlationId'', JStr correlationId), (''drawCount'', JNum (num_of_int (int (length draws)))),
                            (''windowStartIso'', JStr startIso), (''windowEndIso'', isoText (act_occurredAtMs latest)),
                            (''amounts'', JArr (map (\<lambda>d. JStr (act_amount d)) draws)),
                            (''occurredAt'', JArr (map (\<lambda>d. isoText (act_occurredAtMs d)) draws))]\<rparr>)))"

definition ruleRapidSuccessiveDraws :: "AnomalyDetectionConfig \<Rightarrow> ActivityEvent list \<Rightarrow> string \<Rightarrow> js_error + FiredRule option" where
  "ruleRapidSuccessiveDraws c = draw_rule RapidSuccessiveDraws ''rapid_successive_draws'' MediumSeverity (ac_rapidSuccessiveDraws c)"

definition ruleDrawBurst :: "AnomalyDetectionConfig \<Rightarrow> ActivityEvent list \<Rightarrow> string \<Rightarrow> js_error + FiredRule option" where
  "ruleDrawBurst c = draw_rule DrawBurst ''draw_burst'' HighSeverity (ac_drawBurst c)"

definition amountsWithinTolerance :: "string \<Rightarrow> string \<Rightarrow> number \<Rightarrow> bool" where
  "amountsWithinTolerance drawAmount repayAmount toleranceRatio =
     (let d = parseFloat drawAmount; r = parseFloat repayAmount
      in if \<not> num_isFinite d \<or> \<not> num_isFinite r \<or> d = Fin 0 then False
         else num_le (num_div (num_abs (num_sub d r)) (num_abs d)) toleranceRatio)"

definition pairs_with :: "repay_rule_config \<Rightarrow> ActivityEvent \<Rightarrow> ActivityEvent \<Rightarrow> bool" where
  "pairs_with c repay draw \<longleftrightarrow>
     (let delta = num_sub (num_of_int (act_occurredAtMs repay)) (num_of_int (act_occurredAtMs draw))
      in \<not> (num_lt delta (Fin 0) \<or> num_gt delta (num_mul (rr_pairWindowSeconds c) (Fin 1000))) \<and>
         amountsWithinTolerance (act_amount draw) (act_amount repay) (rr_amountToleranceRatio c))"

text \<open>The unpaired draws are kept newest first; a repayment takes the first that fits.\<close>

fun take_first :: "('a \<Rightarrow> bool) \<Rightarrow> 'a list \<Rightarrow> ('a \<times> 'a list) option" where
  "take_first p [] = None"
| "take_first p (x # xs) = (if p x then Some (x, xs) else map_option (\<lambda>(y, ys). (y, x # ys)) (take_first p xs))"

fun pair_cycles :: "repay_rule_config \<Rightarrow> ActivityEvent list \<Rightarrow> ActivityEvent list \<Rightarrow> (ActivityEvent \<times> ActivityEvent) list" where
  "pair_cycles c unpaired [] = []"
| "pair_cycles c unpaired (e # es) =
     (if act_kind e = DrawActivity then pair_cycles c (e # unpaired) es
      else (case take_first (pairs_with c e) unpaired of
              None \<Rightarrow> pair_cycles c unpaired es
            | Some (draw, rest) \<Rightarrow> (draw, e) # pair_cycles c rest es))"

fun num_round :: "number \<Rightarrow> number" where
  "num_round (Fin q) = Fin (of_int \<lfloor>q + 1 / 2\<rfloor>)"
| "num_round x = x"

definition cycle_json :: "ActivityEvent \<times> ActivityEvent \<Rightarrow> json" where
  "cycle_json = (\<lambda>(draw, repay). JObj
     [(''drawAmount'', JStr (act_amount draw)), (''repayAmount'', JStr (act_amount repay)), (''drawAt'', isoText (act_occurredAtMs draw)),
      (''repayAt'', isoText (act_occurredAtMs repay)),
      (''deltaSeconds'', JNum (num_round (num_div (num_sub (num_of_int (act_occurredAtMs repay)) (num_of_int (act_occurredAtMs draw))) (Fin 1000))))])"

definition ruleUnusualRepayPattern :: "AnomalyDetectionConfig \<Rightarrow> ActivityEvent list \<Rightarrow> string \<Rightarrow> js_error + FiredRule option" where
  "ruleUnusualRepayPattern config events correlationId =
     (let c = ac_unusualRepayPattern config
      in if events = [] \<or> act_kind (last events) \<noteq> RepayActivity then Inr None
         else let latest = last events;
                  windowStart = num_sub (num_of_int (act_occurredAtMs latest)) (num_mul (rr_patternWindowSeconds c) (Fin 1000));
                  cycles = pair_cycles c [] (filter (since windowStart) events)
              in if num_lt (num_of_int (int (length cycles))) (rr_minCycles c) then Inr None
                 else (case Date_toISOString windowStart of
                         Inl err \<Rightarrow> Inl err
                       | Inr startIso \<Rightarrow>
                           Inr (Some \<lparr>fr_signalType = UnusualRepayPattern, fr_ruleId = ruleId_of UnusualRepayPattern, fr_severity = HighSeverity,
                             fr_thresholds = JObj [(''minCycles'', JNum (rr_minCycles c)), (''pairWindowSeconds'', JNum (rr_pairWindowSeconds c)),
                               (''patternWindowSeconds'', JNum (rr_patternWindowSeconds c)), (''amountToleranceRatio'', JNum (rr_amountToleranceRatio c)),
                               (''rule'', JStr ''unusual_repay_pattern'')],
                             fr_evidence = JObj [(''correlationId'', JStr correlationId), (''cycleCount'', JNum (num_of_int (int (length cycles)))),
                               (''cycles'', JArr (map cycle_json cycles)), (''windowStartIso'', JStr startIso),
                               (''windowEndIso'', isoText (act_occurredAtMs latest))]\<rparr>)))"

fun collect_rules :: "(js_error + FiredRule option) list \<Rightarrow> js_error + FiredRule list" where
  "collect_rules [] = Inr []"
| "collect_rules (Inl e # rs) = Inl e"
| "collect_rules (Inr None # rs) = collect_rules rs"
| "collect_rules (Inr (Some r) # rs) = (case collect_rules rs of Inl e \<Rightarrow> Inl e | Inr fs \<Rightarrow> Inr (r # fs))"

definition evaluateRules :: "AnomalyDetectionConfig \<Rightarrow> anomaly_state \<Rightarrow> string \<Rightarrow> string \<Rightarrow> js_error + FiredRule list" where
  "evaluateRules c s creditLineId correlationId =
     (let events = events_of s creditLineId
      in if events = [] then Inr []
         else collect_rules [ruleRapidSuccessiveDraws c events correlationId, ruleDrawBurst c events correlationId, ruleUnusualRepayPattern c events correlationId])"

section \<open>Observing activity\<close>

record EvaluateResult =
  er_correlationId :: string
  er_signals :: "RiskSignal list"
  er_firedRules :: "FiredRule list"

definition signal_of :: "ActivityEvent \<Rightarrow> string \<Rightarrow> FiredRule \<Rightarrow> string \<Rightarrow> time \<Rightarrow> RiskSignal" where
  "signal_of event correlationId rule i createdAt =
     \<lparr>rs_id = i, rs_signalType = fr_signalType rule, rs_ruleId = fr_ruleId rule, rs_severity = fr_severity rule, rs_walletAddress = act_walletAddress event,
      rs_creditLineId = act_creditLineId event, rs_correlationId = correlationId, rs_thresholds = fr_thresholds rule, rs_evidence = fr_evidence rule,
      rs_status = OpenSignal, rs_createdAt = createdAt\<rparr>"

text \<open>
  \<open>observe\<close> gives up control at every \<open>await this.repository.create(input)\<close>, and the cooldown of the rule is only recorded after it, so the model is cut there: \<open>observe_begin\<close>
  runs up to the first await, \<open>observe_resume\<close> from one await to the next, and \<open>observe\<close> is the run in which nothing else happens in between. \<open>created\<close> is what the repository
  makes of the call for a rule: the identifier and creation time of the new row, or the error it rejects with, which ends the observation. The row is written when \<open>create\<close> is called, as
  the in-memory repository does.
\<close>

datatype observe_phase = AwaitingCreate FiredRule "js_error + RiskSignal" "FiredRule list" | Observed | ObserveThrew js_error

record observation =
  ob_event :: ActivityEvent
  ob_correlationId :: string
  ob_fired :: "FiredRule list"
  ob_signals :: "RiskSignal list"
  ob_phase :: observe_phase

type_synonym create_answer = "FiredRule \<Rightarrow> js_error + string \<times> time"

definition repository_create :: "js_error + string \<times> time \<Rightarrow> (string \<Rightarrow> time \<Rightarrow> RiskSignal) \<Rightarrow> signal_repo \<Rightarrow> (js_error + RiskSignal) \<times> signal_repo" where
  "repository_create answer input repo =
     (case answer of Inl e \<Rightarrow> (Inl e, repo) | Inr (i, createdAt) \<Rightarrow> (let (saved, repo) = signal_create (input i createdAt) repo in (Inr saved, repo)))"

fun next_rule :: "AnomalyDetectionConfig \<Rightarrow> create_answer \<Rightarrow> FiredRule list \<Rightarrow> observation \<times> anomaly_state \<Rightarrow> observation \<times> anomaly_state" where
  "next_rule c created [] (ob, s) = (ob\<lparr>ob_phase := Observed\<rparr>, s)"
| "next_rule c created (rule # rules) (ob, s) =
     (if isCoolingDown c s (act_creditLineId (ob_event ob)) (fr_ruleId rule) (act_occurredAtMs (ob_event ob))
      then next_rule c created rules (ob, s)
      else let (saved, repo) = repository_create (created rule) (signal_of (ob_event ob) (ob_correlationId ob) rule) (an_signals s)
           in (ob\<lparr>ob_phase := AwaitingCreate rule saved rules\<rparr>, s\<lparr>an_signals := repo\<rparr>))"

text \<open>\<open>uuid\<close> is the random correlation identifier.\<close>

definition observe_begin :: "AnomalyDetectionConfig \<Rightarrow> string \<Rightarrow> create_answer \<Rightarrow> ActivityEvent \<Rightarrow> anomaly_state \<Rightarrow> observation \<times> anomaly_state" where
  "observe_begin c uuid created event s =
     (let correlationId = (case act_correlationId event of Some i \<Rightarrow> i | None \<Rightarrow> uuid);
          ob = \<lparr>ob_event = event\<lparr>act_correlationId := Some correlationId\<rparr>, ob_correlationId = correlationId, ob_fired = [], ob_signals = [], ob_phase = Observed\<rparr>
      in if \<not> ac_enabled c then (ob, s)
         else let s = pushActivity c (ob_event ob) s
              in case evaluateRules c s (act_creditLineId event) correlationId of
                   Inl e \<Rightarrow> (ob\<lparr>ob_phase := ObserveThrew e\<rparr>, s)
                 | Inr fired \<Rightarrow> next_rule c created fired (ob\<lparr>ob_fired := fired\<rparr>, s))"

definition observe_resume :: "AnomalyDetectionConfig \<Rightarrow> create_answer \<Rightarrow> observation \<times> anomaly_state \<Rightarrow> observation \<times> anomaly_state" where
  "observe_resume c created = (\<lambda>(ob, s).
     case ob_phase ob of
       AwaitingCreate rule (Inl e) rules \<Rightarrow> (ob\<lparr>ob_phase := ObserveThrew e\<rparr>, s)
     | AwaitingCreate rule (Inr saved) rules \<Rightarrow>
         next_rule c created rules
           (ob\<lparr>ob_signals := ob_signals ob @ [saved]\<rparr>,
            s\<lparr>an_lastFired := jsmap_set (cooldownKey (act_creditLineId (ob_event ob)) (fr_ruleId rule)) (act_occurredAtMs (ob_event ob)) (an_lastFired s)\<rparr>)
     | _ \<Rightarrow> (ob, s))"

fun rules_open :: "observe_phase \<Rightarrow> nat" where
  "rules_open (AwaitingCreate rule saved rules) = Suc (length rules)"
| "rules_open _ = 0"

lemma next_rule_open: "rules_open (ob_phase (fst (next_rule c created rules (ob, s)))) \<le> length rules"
  by (induction rules) (auto split: prod.split)

lemma observe_resume_open: "0 < rules_open (ob_phase ob) \<Longrightarrow> rules_open (ob_phase (fst (observe_resume c created (ob, s)))) < rules_open (ob_phase ob)"
  by (auto simp: observe_resume_def less_Suc_eq_le next_rule_open split: observe_phase.splits sum.splits)

function observe_run :: "AnomalyDetectionConfig \<Rightarrow> create_answer \<Rightarrow> observation \<times> anomaly_state \<Rightarrow> observation \<times> anomaly_state" where
  "observe_run c created (ob, s) =
     (if rules_open (ob_phase ob) = 0 then (ob, s) else observe_run c created (observe_resume c created (ob, s)))"
  by pat_completeness auto
termination
  by (relation "measure (\<lambda>(c, created, ob, s). rules_open (ob_phase ob))") (auto split: prod.split dest!: arg_cong [where f = fst] intro!: observe_resume_open [THEN order_less_le_trans])

definition observe_result :: "observation \<Rightarrow> js_error + EvaluateResult" where
  "observe_result ob =
     (case ob_phase ob of
        ObserveThrew e \<Rightarrow> Inl e
      | _ \<Rightarrow> Inr \<lparr>er_correlationId = ob_correlationId ob, er_signals = ob_signals ob, er_firedRules = ob_fired ob\<rparr>)"

definition observe ::
  "AnomalyDetectionConfig \<Rightarrow> string \<Rightarrow> create_answer \<Rightarrow> ActivityEvent \<Rightarrow> anomaly_state \<Rightarrow> (js_error + EvaluateResult) \<times> anomaly_state" where
  "observe c uuid created event s =
     (let (ob, s) = observe_run c created (observe_begin c uuid created event s) in (observe_result ob, s))"

definition seedActivity :: "AnomalyDetectionConfig \<Rightarrow> string \<Rightarrow> ActivityEvent list \<Rightarrow> anomaly_state \<Rightarrow> anomaly_state" where
  "seedActivity c uuid events s =
     fold (\<lambda>e. pushActivity c (e\<lparr>act_correlationId := Some (case act_correlationId e of Some i \<Rightarrow> i | None \<Rightarrow> uuid)\<rparr>)) events s"

definition clearState :: "anomaly_state \<Rightarrow> anomaly_state" where
  "clearState s = s\<lparr>an_activity := [], an_lastFired := []\<rparr>"

definition listSignals :: "RiskSignalListFilters \<Rightarrow> anomaly_state \<Rightarrow> RiskSignal list \<times> nat \<times> int \<times> int" where
  "listSignals f s =
     (let offset = max 0 (case sf_offset f of Some v \<Rightarrow> v | None \<Rightarrow> 0);
          limit = (case sf_limit f of Some v \<Rightarrow> v | None \<Rightarrow> 50);
          limit = (if limit \<le> 0 then 50 else limit);
          limit = (if limit > 100 then 100 else limit)
      in (signal_findMany (f\<lparr>sf_offset := Some offset, sf_limit := Some limit\<rparr>) (an_signals s), signal_count f (an_signals s), offset, limit))"

section \<open>The bus subscriber\<close>

definition WATCHED :: "string list" where
  "WATCHED = [''credit.draw_confirmed'', ''credit.repay_confirmed'']"

text \<open>Events carry their instant as a time value, so \<open>Date.parse\<close> succeeds. \<open>obs\<close> is \<open>service.observe\<close> on the subscribers' state.\<close>

definition anomaly_activity :: "domain_event \<Rightarrow> ActivityEvent" where
  "anomaly_activity event =
     \<lparr>act_kind = (if ev_type event = ''credit.draw_confirmed'' then DrawActivity else RepayActivity), act_creditLineId = ev_creditLineId event,
      act_walletAddress = (case map_of (ev_payload event) ''walletAddress'' of Some v \<Rightarrow> v | None \<Rightarrow> []),
      act_amount = (case map_of (ev_payload event) ''amount'' of Some v \<Rightarrow> v | None \<Rightarrow> []),
      act_occurredAtMs = ev_occurredAt event, act_correlationId = None\<rparr>"

definition anomaly_handler :: "(ActivityEvent \<Rightarrow> 'w \<Rightarrow> (js_error + EvaluateResult) \<times> 'w) \<Rightarrow> 'w bus_handler" where
  "anomaly_handler obs event w =
     (if ev_type event \<notin> set WATCHED then (Inr (), w)
      else (case obs (anomaly_activity event) w of (Inl e, w') \<Rightarrow> (Inl e, w') | (Inr _, w') \<Rightarrow> (Inr (), w')))"

definition registerAnomalySubscriber :: "nat \<Rightarrow> (ActivityEvent \<Rightarrow> 'w \<Rightarrow> (js_error + EvaluateResult) \<times> 'w) \<Rightarrow> 'w bus \<Rightarrow> 'w bus" where
  "registerAnomalySubscriber i obs b = fold (\<lambda>type. bus_subscribe type i (anomaly_handler obs)) WATCHED b"

section \<open>Cooldown\<close>

lemma cooldown_int:
  assumes "ac_signalCooldownSeconds c = num_of_int cd" "0 < cd" "cd < 2 ^ 40" "\<bar>now\<bar> < 2 ^ 51" "\<bar>t\<bar> < 2 ^ 51"
    and "jsmap_get (an_lastFired s) (cooldownKey l r) = Some t"
  shows "isCoolingDown c s l r now \<longleftrightarrow> now < t + cd * 1000"
proof -
  have b: "\<bar>cd * 1000\<bar> < 2 ^ 53" "\<bar>now - t\<bar> < 2 ^ 53" using assms(2-5) by (auto simp: abs_less_iff)
  have "dround (of_int (cd * 1000)) = num_of_int (cd * 1000)" "dround (of_int (now - t)) = num_of_int (now - t)" by (rule dround_int [OF b(1)], rule dround_int [OF b(2)])
  then have "isCoolingDown c s l r now \<longleftrightarrow> num_lt (num_of_int (now - t)) (num_of_int (cd * 1000))" by (simp add: isCoolingDown_def assms(1,6))
  also have "\<dots> \<longleftrightarrow> now - t < cd * 1000" by (simp only: num_lt.simps of_int_less_iff)
  finally show ?thesis by auto
qed

definition fired_bounded :: "anomaly_state \<Rightarrow> bool" where
  "fired_bounded s \<longleftrightarrow> (\<forall>k t. jsmap_get (an_lastFired s) k = Some t \<longrightarrow> \<bar>t\<bar> < 2 ^ 51)"

text \<open>
  Observations in progress side by side: the state of the service and all observations so far in order of arrival. An event may arrive at any moment, and any observation waiting for the
  repository may go on. On the lines in \<open>L\<close> observations follow one another: an event arrives only when no earlier observation of the line is in flight.
\<close>

definition ob_line :: "observation \<Rightarrow> string" where
  "ob_line ob = act_creditLineId (ob_event ob)"

definition ob_time :: "observation \<Rightarrow> time" where
  "ob_time ob = act_occurredAtMs (ob_event ob)"

definition in_flight :: "observation \<Rightarrow> bool" where
  "in_flight ob \<longleftrightarrow> 0 < rules_open (ob_phase ob)"

inductive observe_step :: "AnomalyDetectionConfig \<Rightarrow> string set \<Rightarrow> anomaly_state \<times> observation list \<Rightarrow> anomaly_state \<times> observation list \<Rightarrow> bool" for c L where
  arrive: "\<lbrakk>act_creditLineId event \<in> L \<longrightarrow> (\<forall>ob \<in> set obs. ob_line ob = act_creditLineId event \<longrightarrow> \<not> in_flight ob); \<bar>act_occurredAtMs event\<bar> < 2 ^ 51;
     observe_begin c uuid created event s = (ob, s')\<rbrakk> \<Longrightarrow> observe_step c L (s, obs) (s', obs @ [ob])"
| resume: "\<lbrakk>i < length obs; in_flight (obs ! i); observe_resume c created (obs ! i, s) = (ob, s')\<rbrakk> \<Longrightarrow> observe_step c L (s, obs) (s', obs[i := ob])"

text \<open>The signals an observation has put into the repository, also when it is still waiting or has failed since.\<close>

definition recorded :: "observation \<Rightarrow> RiskSignal list" where
  "recorded ob = ob_signals ob @ (case ob_phase ob of AwaitingCreate _ (Inr saved) _ \<Rightarrow> [saved] | _ \<Rightarrow> [])"

definition rule_ok :: "FiredRule \<Rightarrow> bool" where
  "rule_ok r \<longleftrightarrow> fr_ruleId r = ruleId_of (fr_signalType r)"

lemma collect_rules_ok: "collect_rules rs = Inr fired \<Longrightarrow> \<forall>r. Inr (Some r) \<in> set rs \<longrightarrow> rule_ok r \<Longrightarrow> list_all rule_ok fired"
  by (induction rs arbitrary: fired rule: collect_rules.induct) (auto split: sum.splits)

lemma evaluateRules_ok: "evaluateRules c s l corr = Inr fired \<Longrightarrow> list_all rule_ok fired"
  unfolding evaluateRules_def Let_def
  by (auto split: if_splits elim!: collect_rules_ok
      simp: ruleRapidSuccessiveDraws_def ruleDrawBurst_def draw_rule_def ruleUnusualRepayPattern_def rule_ok_def Let_def split: sum.splits)

lemma ruleId_no_colon: "CHR '':'' \<notin> set (ruleId_of t)"
  by (cases t) simp_all

lemma cooldownKey_inj:
  assumes "cooldownKey l r = cooldownKey l' r'" "CHR '':'' \<notin> set r" "CHR '':'' \<notin> set r'"
  shows "l = l'"
proof -
  have rev_key: "rev (cooldownKey l r) = rev r @ CHR '':'' # rev l" for l r by (simp add: cooldownKey_def)
  have "dropWhile (\<lambda>x. x \<noteq> CHR '':'') (rev (cooldownKey l r)) = CHR '':'' # rev l" if "CHR '':'' \<notin> set r" for l r
    using that unfolding rev_key by (subst dropWhile_append2) auto
  then show ?thesis using assms by (metis list.inject rev_rev_ident)
qed

definition awaits_ok :: "observation \<Rightarrow> bool" where
  "awaits_ok ob \<longleftrightarrow> (\<forall>rule saved rest. ob_phase ob = AwaitingCreate rule saved rest \<longrightarrow>
     list_all rule_ok (rule # rest) \<and> (\<forall>sig. saved = Inr sig \<longrightarrow> rs_ruleId sig = fr_ruleId rule))"

definition gap_ok :: "int \<Rightarrow> anomaly_state \<Rightarrow> observation \<Rightarrow> bool" where
  "gap_ok cd s ob \<longleftrightarrow> (\<forall>rule saved rest t. ob_phase ob = AwaitingCreate rule saved rest \<longrightarrow>
     jsmap_get (an_lastFired s) (cooldownKey (ob_line ob) (fr_ruleId rule)) = Some t \<longrightarrow> t + cd * 1000 \<le> ob_time ob)"

definition settled_ok :: "anomaly_state \<Rightarrow> observation \<Rightarrow> bool" where
  "settled_ok s ob \<longleftrightarrow> (\<forall>sig \<in> set (ob_signals ob). CHR '':'' \<notin> set (rs_ruleId sig) \<and>
     (\<exists>t \<ge> ob_time ob. jsmap_get (an_lastFired s) (cooldownKey (ob_line ob) (rs_ruleId sig)) = Some t))"

lemma next_rule_block:
  assumes "next_rule c created rules (ob, s) = (ob', s')" "list_all rule_ok rules"
    and "ac_signalCooldownSeconds c = num_of_int cd" "0 < cd" "cd < 2 ^ 40" "\<bar>ob_time ob\<bar> < 2 ^ 51" "fired_bounded s"
  shows "an_lastFired s' = an_lastFired s \<and> ob_event ob' = ob_event ob \<and> ob_signals ob' = ob_signals ob \<and> awaits_ok ob' \<and> gap_ok cd s' ob'"
  using assms(1,2)
proof (induction rules)
  case Nil
  then show ?case by (auto simp: awaits_ok_def gap_ok_def)
next
  case (Cons rule rules)
  show ?case
  proof (cases "isCoolingDown c s (ob_line ob) (fr_ruleId rule) (ob_time ob)")
    case True
    then show ?thesis using Cons by (simp add: ob_line_def ob_time_def)
  next
    case False
    obtain saved repo where r: "repository_create (created rule) (signal_of (ob_event ob) (ob_correlationId ob) rule) (an_signals s) = (saved, repo)"
      by (meson surj_pair)
    then have "\<forall>sig. saved = Inr sig \<longrightarrow> rs_ruleId sig = fr_ruleId rule"
      by (auto simp: repository_create_def signal_create_def signal_of_def split: sum.splits)
    moreover have "t + cd * 1000 \<le> ob_time ob" if "jsmap_get (an_lastFired s) (cooldownKey (ob_line ob) (fr_ruleId rule)) = Some t" for t
      using cooldown_int [OF assms(3-6) _ that] assms(7) False that by (auto simp: fired_bounded_def)
    moreover have "ob' = ob\<lparr>ob_phase := AwaitingCreate rule saved rules\<rparr>" "s' = s\<lparr>an_signals := repo\<rparr>"
      using Cons.prems(1) False r by (simp_all add: ob_line_def ob_time_def)
    ultimately show ?thesis using Cons.prems(2) by (simp add: awaits_ok_def gap_ok_def ob_line_def ob_time_def)
  qed
qed

text \<open>One block of an observation touches the recorded times of its own line only; they move forward if the rule it waited for still kept the distance.\<close>

definition fired_later :: "anomaly_state \<Rightarrow> anomaly_state \<Rightarrow> bool" where
  "fired_later s s' \<longleftrightarrow> (\<forall>k t. jsmap_get (an_lastFired s) k = Some t \<longrightarrow> (\<exists>t' \<ge> t. jsmap_get (an_lastFired s') k = Some t'))"

definition block_ok :: "int \<Rightarrow> anomaly_state \<Rightarrow> anomaly_state \<Rightarrow> observation \<Rightarrow> bool" where
  "block_ok cd s s' ob' \<longleftrightarrow> fired_bounded s' \<and> awaits_ok ob' \<and> gap_ok cd s' ob' \<and> \<bar>ob_time ob'\<bar> < 2 ^ 51 \<and>
     (\<forall>l r. CHR '':'' \<notin> set r \<longrightarrow> l \<noteq> ob_line ob' \<longrightarrow> jsmap_get (an_lastFired s') (cooldownKey l r) = jsmap_get (an_lastFired s) (cooldownKey l r))"

lemma begin_block:
  assumes "observe_begin c uuid created event s = (ob', s')" "\<bar>act_occurredAtMs event\<bar> < 2 ^ 51"
    and "ac_signalCooldownSeconds c = num_of_int cd" "0 < cd" "cd < 2 ^ 40" "fired_bounded s"
  shows "ob_line ob' = act_creditLineId event \<and> ob_time ob' = act_occurredAtMs event \<and> ob_signals ob' = [] \<and> block_ok cd s s' ob' \<and> fired_later s s'"
proof -
  define corr where "corr = (case act_correlationId event of Some i \<Rightarrow> i | None \<Rightarrow> uuid)"
  define ob where "ob = \<lparr>ob_event = event\<lparr>act_correlationId := Some corr\<rparr>, ob_correlationId = corr, ob_fired = [], ob_signals = [], ob_phase = Observed\<rparr>"
  define s1 where "s1 = pushActivity c (ob_event ob) s"
  have s1: "an_lastFired s1 = an_lastFired s" "fired_bounded s1" using assms(6) by (simp_all add: s1_def pushActivity_def fired_bounded_def)
  have b: "(if \<not> ac_enabled c then (ob, s) else case evaluateRules c s1 (act_creditLineId event) corr of Inl e \<Rightarrow> (ob\<lparr>ob_phase := ObserveThrew e\<rparr>, s1)
      | Inr fired \<Rightarrow> next_rule c created fired (ob\<lparr>ob_fired := fired\<rparr>, s1)) = (ob', s')"
    using assms(1) by (simp only: observe_begin_def Let_def corr_def ob_def s1_def)
  show ?thesis
  proof (cases "ac_enabled c \<and> (\<exists>fired. evaluateRules c s1 (act_creditLineId event) corr = Inr fired)")
    case True
    then obtain fired where e: "ac_enabled c" "evaluateRules c s1 (act_creditLineId event) corr = Inr fired" by blast
    have n: "next_rule c created fired (ob\<lparr>ob_fired := fired\<rparr>, s1) = (ob', s')" using b e by simp
    have "\<bar>ob_time (ob\<lparr>ob_fired := fired\<rparr>)\<bar> < 2 ^ 51" using assms(2) by (simp add: ob_time_def ob_def)
    from next_rule_block [OF n evaluateRules_ok [OF e(2)] assms(3-5) this s1(2)] show ?thesis
      using s1 assms(2) by (auto simp: block_ok_def fired_later_def fired_bounded_def ob_line_def ob_time_def ob_def)
  next
    case False
    then have "an_lastFired s' = an_lastFired s \<and> ob_event ob' = ob_event ob \<and> ob_signals ob' = [] \<and> rules_open (ob_phase ob') = 0"
      using b s1 by (auto simp: ob_def split: if_splits sum.splits)
    then show ?thesis using assms(2,6)
      by (auto simp: block_ok_def awaits_ok_def gap_ok_def fired_later_def fired_bounded_def ob_line_def ob_time_def ob_def)
  qed
qed

lemma resume_block:
  assumes "observe_resume c created (ob, s) = (ob', s')" "in_flight ob" "\<bar>ob_time ob\<bar> < 2 ^ 51"
    and "ac_signalCooldownSeconds c = num_of_int cd" "0 < cd" "cd < 2 ^ 40" "fired_bounded s" "awaits_ok ob"
  shows "ob_line ob' = ob_line ob \<and> ob_time ob' = ob_time ob \<and> set (ob_signals ob') \<subseteq> set (recorded ob) \<and> block_ok cd s s' ob' \<and>
     (gap_ok cd s ob \<and> settled_ok s ob \<longrightarrow> fired_later s s' \<and> settled_ok s' ob')"
proof -
  obtain rule saved rest where ph: "ob_phase ob = AwaitingCreate rule saved rest" using assms(2) by (cases "ob_phase ob") (auto simp: in_flight_def)
  show ?thesis
  proof (cases saved)
    case (Inl e)
    then show ?thesis using assms(1,3,7) ph
      by (auto simp: observe_resume_def block_ok_def awaits_ok_def gap_ok_def settled_ok_def fired_later_def ob_line_def ob_time_def recorded_def)
  next
    case (Inr sig)
    let ?k = "cooldownKey (ob_line ob) (fr_ruleId rule)"
    define s1 where "s1 = s\<lparr>an_lastFired := jsmap_set ?k (ob_time ob) (an_lastFired s)\<rparr>"
    define ob1 where "ob1 = ob\<lparr>ob_signals := ob_signals ob @ [sig]\<rparr>"
    have rule: "list_all rule_ok rest" "rs_ruleId sig = fr_ruleId rule" "CHR '':'' \<notin> set (fr_ruleId rule)"
      using assms(8) ph Inr ruleId_no_colon by (auto simp: awaits_ok_def rule_ok_def)
    have fb: "fired_bounded s1" using assms(3,7) by (auto simp: fired_bounded_def s1_def)
    have n: "next_rule c created rest (ob1, s1) = (ob', s')" using assms(1) ph Inr by (simp add: observe_resume_def s1_def ob1_def ob_line_def ob_time_def)
    have o1: "ob_event ob1 = ob_event ob" "\<bar>ob_time ob1\<bar> < 2 ^ 51" using assms(3) by (simp_all add: ob1_def ob_time_def)
    note nb = next_rule_block [OF n rule(1) assms(4-6) o1(2) fb]
    have own: "fired_later s s' \<and> settled_ok s' ob'" if ok: "gap_ok cd s ob" "settled_ok s ob"
    proof -
      have later: "\<exists>t' \<ge> t. jsmap_get (an_lastFired s1) k = Some t'" if "jsmap_get (an_lastFired s) k = Some t" for k t
        using assms(5) ok(1) ph that by (fastforce simp: gap_ok_def s1_def)
      have "CHR '':'' \<notin> set (rs_ruleId x) \<and> (\<exists>t \<ge> ob_time ob. jsmap_get (an_lastFired s1) (cooldownKey (ob_line ob) (rs_ruleId x)) = Some t)"
        if x: "x \<in> set (ob_signals ob1)" for x
      proof (cases "x = sig")
        case True
        then show ?thesis using rule by (simp add: s1_def)
      next
        case False
        then obtain t where "CHR '':'' \<notin> set (rs_ruleId x)" "ob_time ob \<le> t" "jsmap_get (an_lastFired s) (cooldownKey (ob_line ob) (rs_ruleId x)) = Some t"
          using ok(2) x unfolding settled_ok_def ob1_def by auto
        then show ?thesis using later [of "cooldownKey (ob_line ob) (rs_ruleId x)" t] by (auto intro: order_trans)
      qed
      then show ?thesis using later nb o1(1) by (simp add: settled_ok_def fired_later_def ob_line_def ob_time_def)
    qed
    have "jsmap_get (an_lastFired s') (cooldownKey l r) = jsmap_get (an_lastFired s) (cooldownKey l r)" if "CHR '':'' \<notin> set r" "l \<noteq> ob_line ob" for l r
      using cooldownKey_inj [of l r "ob_line ob" "fr_ruleId rule"] rule(3) that nb by (auto simp: s1_def)
    moreover have "set (ob_signals ob') \<subseteq> set (recorded ob)" using nb ph Inr by (auto simp: ob1_def recorded_def)
    moreover have "ob_line ob' = ob_line ob" "ob_time ob' = ob_time ob" using nb o1 by (simp_all add: ob_line_def ob_time_def)
    ultimately show ?thesis using nb fb own assms(3) by (simp add: block_ok_def fired_bounded_def)
  qed
qed

text \<open>The invariant of a line on which observations follow one another.\<close>

definition apart :: "int \<Rightarrow> observation \<Rightarrow> observation \<Rightarrow> bool" where
  "apart cd a b \<longleftrightarrow> (\<forall>x \<in> set (recorded a). \<forall>y \<in> set (recorded b). rs_ruleId x = rs_ruleId y \<longrightarrow> ob_time a + cd * 1000 \<le> ob_time b)"

definition cool_invar :: "int \<Rightarrow> string \<Rightarrow> anomaly_state \<Rightarrow> observation list \<Rightarrow> bool" where
  "cool_invar cd l s obs \<longleftrightarrow> fired_bounded s \<and> (\<forall>ob \<in> set obs. awaits_ok ob \<and> \<bar>ob_time ob\<bar> < 2 ^ 51) \<and>
     (\<forall>ob \<in> set obs. ob_line ob = l \<longrightarrow> gap_ok cd s ob \<and> settled_ok s ob) \<and>
     (\<forall>i j. i < j \<longrightarrow> j < length obs \<longrightarrow> ob_line (obs ! i) = l \<longrightarrow> ob_line (obs ! j) = l \<longrightarrow> \<not> in_flight (obs ! i) \<and> apart cd (obs ! i) (obs ! j))"

lemma recorded_settled: "\<not> in_flight ob \<Longrightarrow> recorded ob = ob_signals ob"
  by (cases "ob_phase ob") (auto simp: in_flight_def recorded_def)

lemma gap_ok_done: "\<not> in_flight ob \<Longrightarrow> gap_ok cd s ob"
  by (auto simp: in_flight_def gap_ok_def)

lemma settled_ok_later: "settled_ok s ob \<Longrightarrow> fired_later s s' \<Longrightarrow> settled_ok s' ob"
  unfolding settled_ok_def fired_later_def by (meson order_trans)

text \<open>A signal recorded now keeps the distance to those an earlier observation of the line has settled.\<close>

lemma apart_new:
  assumes "\<not> in_flight a" "settled_ok s a" "ob_line a = ob_line b" "gap_ok cd s b" "awaits_ok b"
    and "\<And>x y. x \<in> set (recorded a) \<Longrightarrow> y \<in> set (ob_signals b) \<Longrightarrow> rs_ruleId x = rs_ruleId y \<Longrightarrow> ob_time a + cd * 1000 \<le> ob_time b"
  shows "apart cd a b"
  unfolding apart_def
proof (intro ballI impI)
  fix x y assume x: "x \<in> set (recorded a)" and y: "y \<in> set (recorded b)" and eq: "rs_ruleId x = rs_ruleId y"
  show "ob_time a + cd * 1000 \<le> ob_time b"
  proof (cases "y \<in> set (ob_signals b)")
    case True
    then show ?thesis using assms(6) x eq by blast
  next
    case False
    then obtain rule rest where ph: "ob_phase b = AwaitingCreate rule (Inr y) rest" using y by (cases "ob_phase b") (auto simp: recorded_def split: sum.splits)
    then have "rs_ruleId y = fr_ruleId rule" using assms(5) by (simp add: awaits_ok_def)
    moreover obtain t where "ob_time a \<le> t" "jsmap_get (an_lastFired s) (cooldownKey (ob_line b) (rs_ruleId x)) = Some t"
      using x assms(1-3) by (auto simp: settled_ok_def recorded_settled)
    ultimately show ?thesis using assms(4) ph eq unfolding gap_ok_def by fastforce
  qed
qed

lemma other_line_ok:
  assumes "block_ok cd s s' ob'" "ob_line ob \<noteq> ob_line ob'" "awaits_ok ob" "gap_ok cd s ob" "settled_ok s ob"
  shows "gap_ok cd s' ob \<and> settled_ok s' ob"
proof -
  have k: "jsmap_get (an_lastFired s') (cooldownKey (ob_line ob) r) = jsmap_get (an_lastFired s) (cooldownKey (ob_line ob) r)" if "CHR '':'' \<notin> set r" for r
    using assms(1,2) that by (simp add: block_ok_def)
  have "CHR '':'' \<notin> set (fr_ruleId rule)" if "ob_phase ob = AwaitingCreate rule saved rest" for rule saved rest
    using assms(3) that ruleId_no_colon by (simp add: awaits_ok_def rule_ok_def)
  then show ?thesis using assms(4,5) by (auto simp: gap_ok_def settled_ok_def k)
qed

lemma cool_invar_update:
  assumes inv: "cool_invar cd l s obs" and blk: "block_ok cd s s' ob'" and i: "i < length obs'" "obs' ! i = ob'"
    and rest: "\<And>k. k < length obs' \<Longrightarrow> k \<noteq> i \<Longrightarrow> k < length obs \<and> obs' ! k = obs ! k"
    and own: "ob_line ob' = l \<Longrightarrow> fired_later s s' \<and> settled_ok s' ob'"
    and past: "\<And>k. ob_line ob' = l \<Longrightarrow> k < length obs' \<Longrightarrow> k \<noteq> i \<Longrightarrow> ob_line (obs ! k) = l \<Longrightarrow> k < i \<and> \<not> in_flight (obs ! k) \<and>
      (\<forall>x \<in> set (recorded (obs ! k)). \<forall>y \<in> set (ob_signals ob'). rs_ruleId x = rs_ruleId y \<longrightarrow> ob_time (obs ! k) + cd * 1000 \<le> ob_time ob')"
  shows "cool_invar cd l s' obs'"
proof -
  have old: "awaits_ok (obs ! k)" "\<bar>ob_time (obs ! k)\<bar> < 2 ^ 51" "ob_line (obs ! k) = l \<longrightarrow> gap_ok cd s (obs ! k) \<and> settled_ok s (obs ! k)"
    if "k < length obs" for k using inv that by (simp_all add: cool_invar_def)
  have line: "gap_ok cd s' (obs' ! k) \<and> settled_ok s' (obs' ! k)" if k: "k < length obs'" "ob_line (obs' ! k) = l" for k
  proof (cases "k = i")
    case True
    then show ?thesis using blk own k i by (simp add: block_ok_def)
  next
    case False
    then have o: "k < length obs" "obs' ! k = obs ! k" using rest k by auto
    show ?thesis
    proof (cases "ob_line ob' = l")
      case True
      then show ?thesis using past [OF True k(1) False] own k(2) o old [OF o(1)] by (auto intro: gap_ok_done settled_ok_later)
    next
      case neq: False
      have ok: "gap_ok cd s (obs ! k)" "settled_ok s (obs ! k)" using old(3) [OF o(1)] k(2) o(2) by simp_all
      have "ob_line (obs ! k) \<noteq> ob_line ob'" using k(2) o(2) neq by simp
      from other_line_ok [OF blk this old(1) [OF o(1)] ok] show ?thesis unfolding o(2) .
    qed
  qed
  have pair: "\<not> in_flight (obs' ! m) \<and> apart cd (obs' ! m) (obs' ! n)"
    if mn: "m < n" "n < length obs'" "ob_line (obs' ! m) = l" "ob_line (obs' ! n) = l" for m n
  proof (cases "n = i")
    case True
    then have m: "m \<noteq> i" "m < length obs'" "obs' ! m = obs ! m" using mn rest [of m] by auto
    have l: "ob_line ob' = l" "ob_line (obs ! m) = l" using mn True i m by auto
    note p = past [OF l(1) m(2,1) l(2)]
    have "apart cd (obs ! m) ob'"
      by (rule apart_new [where s = s']) (use p line [of m] m l blk in \<open>auto simp: block_ok_def\<close>)
    then show ?thesis using p m True i by simp
  next
    case False
    then have n: "n < length obs" "obs' ! n = obs ! n" using rest mn by auto
    have "m \<noteq> i" using past [of n] False mn i n by auto
    then have "m < length obs" "obs' ! m = obs ! m" using rest [of m] mn by auto
    then show ?thesis using inv mn n by (simp add: cool_invar_def)
  qed
  have all: "awaits_ok (obs' ! k) \<and> \<bar>ob_time (obs' ! k)\<bar> < 2 ^ 51" if "k < length obs'" for k
    using rest [of k] old [of k] blk that i by (cases "k = i") (auto simp: block_ok_def)
  have "fired_bounded s'" using blk by (simp add: block_ok_def)
  then show ?thesis unfolding cool_invar_def using all line pair by (auto simp: in_set_conv_nth)
qed

lemma cool_invar_step:
  assumes "observe_step c L (s, obs) (s', obs')" "l \<in> L" "cool_invar cd l s obs"
    and cd: "ac_signalCooldownSeconds c = num_of_int cd" "0 < cd" "cd < 2 ^ 40"
  shows "cool_invar cd l s' obs'"
  using assms(1)
proof (cases rule: observe_step.cases)
  case (arrive event uuid created ob)
  have fb: "fired_bounded s" using assms(3) by (simp add: cool_invar_def)
  note b = begin_block [OF arrive(4,3) cd fb]
  show ?thesis
  proof (rule cool_invar_update [OF assms(3), where ob' = ob and i = "length obs"])
    show "block_ok cd s s' ob" using b by simp
    show "fired_later s s' \<and> settled_ok s' ob" using b by (simp add: settled_ok_def)
    show "k < length obs \<and> \<not> in_flight (obs ! k) \<and> (\<forall>x \<in> set (recorded (obs ! k)). \<forall>y \<in> set (ob_signals ob).
        rs_ruleId x = rs_ruleId y \<longrightarrow> ob_time (obs ! k) + cd * 1000 \<le> ob_time ob)"
      if "ob_line ob = l" "k < length obs'" "k \<noteq> length obs" "ob_line (obs ! k) = l" for k
      using that arrive(1,2) b assms(2) by auto
  qed (auto simp: arrive(1) nth_append)
next
  case (resume i created ob)
  have mem: "obs ! i \<in> set obs" using resume(2) by simp
  have ok: "fired_bounded s" "awaits_ok (obs ! i)" "\<bar>ob_time (obs ! i)\<bar> < 2 ^ 51" using assms(3) mem by (simp_all add: cool_invar_def)
  note b = resume_block [OF resume(4,3) ok(3) cd ok(1,2)]
  have pairs: "\<not> in_flight (obs ! m) \<and> apart cd (obs ! m) (obs ! n)"
    if "m < n" "n < length obs" "ob_line (obs ! m) = l" "ob_line (obs ! n) = l" for m n using assms(3) that by (simp add: cool_invar_def)
  show ?thesis
  proof (rule cool_invar_update [OF assms(3), where ob' = ob and i = i])
    show "block_ok cd s s' ob" using b by simp
    show "fired_later s s' \<and> settled_ok s' ob" if "ob_line ob = l" using b that assms(3) mem by (simp add: cool_invar_def)
    show "k < i \<and> \<not> in_flight (obs ! k) \<and> (\<forall>x \<in> set (recorded (obs ! k)). \<forall>y \<in> set (ob_signals ob).
        rs_ruleId x = rs_ruleId y \<longrightarrow> ob_time (obs ! k) + cd * 1000 \<le> ob_time ob)"
      if k: "ob_line ob = l" "k < length obs'" "k \<noteq> i" "ob_line (obs ! k) = l" for k
    proof -
      have "k < i" using pairs [of i k] k b resume(1,3) by (metis length_list_update nat_neq_iff)
      then have "\<not> in_flight (obs ! k) \<and> apart cd (obs ! k) (obs ! i)" using pairs [of k i] k b resume(2) by simp
      then show ?thesis using \<open>k < i\<close> b unfolding apart_def by (metis subsetD)
    qed
  qed (use resume(1,2) in auto)
qed

lemma cool_invar_reachable:
  assumes "(observe_step c L)\<^sup>*\<^sup>* (s0, []) sobs" "l \<in> L" "fired_bounded s0"
    and "ac_signalCooldownSeconds c = num_of_int cd" "0 < cd" "cd < 2 ^ 40"
  shows "cool_invar cd l (fst sobs) (snd sobs)"
  using assms(1)
proof (induction rule: rtranclp_induct)
  case base
  show ?case using assms(3) by (simp add: cool_invar_def)
next
  case (step y z)
  then show ?case using cool_invar_step [of c L "fst y" "snd y" "fst z" "snd z" l cd] assms(2,4-6) by simp
qed

text \<open>
  C39. One signal per rule, line and cooldown period. While observations of other lines overlap in any way and the repository rejects whichever calls it likes, let the observations of one
  line follow one another, each beginning after the earlier ones have finished (the timestamps may come in any order). Then two signals of one rule that two of its observations put into the repository
  belong to events at least the cooldown apart. Overlapping observations of one line need not keep it: see \<open>overlapping_observations_both_fire\<close>.
\<close>

theorem signals_respect_cooldown:
  assumes "(observe_step c L)\<^sup>*\<^sup>* (s0, []) (s, obs)" "fired_bounded s0" "l \<in> L"
    and "ac_signalCooldownSeconds c = num_of_int cd" "0 < cd" "cd < 2 ^ 40"
    and "i < j" "j < length obs" "act_creditLineId (ob_event (obs ! i)) = l" "act_creditLineId (ob_event (obs ! j)) = l"
    and "sig1 \<in> set (recorded (obs ! i))" "sig2 \<in> set (recorded (obs ! j))" "rs_ruleId sig2 = rs_ruleId sig1"
  shows "act_occurredAtMs (ob_event (obs ! i)) + cd * 1000 \<le> act_occurredAtMs (ob_event (obs ! j))"
proof -
  have "cool_invar cd l s obs" using cool_invar_reachable [OF assms(1,3,2,4-6)] by simp
  then have "apart cd (obs ! i) (obs ! j)" using assms(7-10) by (simp add: cool_invar_def ob_line_def)
  then show ?thesis using assms(11-13) unfolding apart_def ob_time_def by metis
qed

section \<open>Draw and repay cycles\<close>

lemma take_first_Some: "take_first p xs = Some (y, ys) \<Longrightarrow> p y \<and> mset xs = add_mset y (mset ys)"
  by (induction xs arbitrary: ys) (auto split: if_splits)

lemma subset_add_mset: "A \<subseteq># B \<Longrightarrow> A \<subseteq># add_mset e B"
  by (rule subset_mset.order_trans [of _ B]) (simp_all add: subseteq_mset_def)

lemma pair_cycles_sound:
  "mset (map fst (pair_cycles c unpaired es)) \<subseteq># mset unpaired + mset (filter (\<lambda>e. act_kind e = DrawActivity) es) \<and>
   mset (map snd (pair_cycles c unpaired es)) \<subseteq># mset (filter (\<lambda>e. act_kind e = RepayActivity) es) \<and>
   (\<forall>p \<in> set (pair_cycles c unpaired es). pairs_with c (snd p) (fst p))"
proof (induction c unpaired es rule: pair_cycles.induct)
  case (2 c unpaired e es)
  show ?case
  proof (cases "act_kind e = DrawActivity")
    case True
    then show ?thesis using "2.IH"(1) by simp
  next
    case False
    then have k: "act_kind e = RepayActivity" by (cases "act_kind e") simp_all
    show ?thesis
    proof (cases "take_first (pairs_with c e) unpaired")
      case None
      then show ?thesis using "2.IH"(2) False k by (auto intro: subset_add_mset)
    next
      case (Some x)
      obtain d rest where x: "x = (d, rest)" by (cases x)
      then have "pairs_with c e d" "mset unpaired = add_mset d (mset rest)" using take_first_Some [of "pairs_with c e" unpaired d rest] Some by simp_all
      then show ?thesis using "2.IH"(3) [OF False Some x [symmetric]] False k Some x by simp
    qed
  qed
qed simp

text \<open>
  What the repay-pattern rule reports. When the rule fires, its evidence lists at least \<open>minCycles\<close> draw-repay pairs in which no draw and no repayment of the
  window is used twice, each repayment follows its draw within the pair window and its amount is within tolerance of the draw's, and all lie inside the pattern window.
\<close>

theorem repay_pattern_evidence:
  assumes "ruleUnusualRepayPattern config events corr = Inr (Some fired)" "c = ac_unusualRepayPattern config"
  shows "\<exists>cycles. json_field (fr_evidence fired) ''cycles'' = Some (JArr (map cycle_json cycles)) \<and>
     \<not> num_lt (num_of_int (int (length cycles))) (rr_minCycles c) \<and> (\<forall>p \<in> set cycles. pairs_with c (snd p) (fst p)) \<and>
     (let start = num_sub (num_of_int (act_occurredAtMs (last events))) (num_mul (rr_patternWindowSeconds c) (Fin 1000))
      in mset (map fst cycles) \<subseteq># mset (filter (\<lambda>e. act_kind e = DrawActivity \<and> since start e) events) \<and>
         mset (map snd cycles) \<subseteq># mset (filter (\<lambda>e. act_kind e = RepayActivity \<and> since start e) events))"
proof -
  let ?start = "num_sub (num_of_int (act_occurredAtMs (last events))) (num_mul (rr_patternWindowSeconds c) (Fin 1000))"
  let ?cycles = "pair_cycles c [] (filter (since ?start) events)"
  have f: "json_field (fr_evidence fired) ''cycles'' = Some (JArr (map cycle_json ?cycles))" "\<not> num_lt (num_of_int (int (length ?cycles))) (rr_minCycles c)"
    using assms(1) unfolding ruleUnusualRepayPattern_def assms(2) [symmetric] Let_def
    by (auto simp: jsmap_get_def split: if_splits sum.splits)
  have "mset (map fst ?cycles) \<subseteq># mset (filter (\<lambda>e. act_kind e = DrawActivity \<and> since ?start e) events)"
    "mset (map snd ?cycles) \<subseteq># mset (filter (\<lambda>e. act_kind e = RepayActivity \<and> since ?start e) events)"
    "\<forall>p \<in> set ?cycles. pairs_with c (snd p) (fst p)"
    using pair_cycles_sound [of c "[]" "filter (since ?start) events"] by (simp_all add: conj_commute)
  then show ?thesis using f unfolding Let_def by (intro exI [of _ ?cycles] conjI)
qed

section \<open>The buffer against the full history\<close>

definition recent :: "nat \<Rightarrow> 'a list \<Rightarrow> 'a list" where
  "recent n xs = drop (length xs - n) xs"

lemma recent_split:
  obtains old where "xs = old @ recent n xs" "old = [] \<or> length (recent n xs) = n" "length (recent n xs) \<le> n"
  by (rule that [of "take (length xs - n) xs"]) (auto simp: recent_def)

lemma length_recent: "length (recent n xs) \<le> length xs"
  by (simp add: recent_def)

lemma recent_append: "n \<le> length ys \<Longrightarrow> recent n (xs @ ys) = recent n ys"
  by (simp add: recent_def)

definition in_window :: "int \<Rightarrow> ActivityEvent \<Rightarrow> bool" where
  "in_window start e \<longleftrightarrow> start \<le> act_occurredAtMs e"

abbreviation chronological :: "ActivityEvent list \<Rightarrow> bool" where
  "chronological es \<equiv> sorted (map act_occurredAtMs es)"

text \<open>In chronological order, an element of the older part that lies in a window puts the whole newer part into it.\<close>

lemma window_suffix:
  assumes "chronological (old @ new)" "filter (in_window a) old \<noteq> []"
  shows "filter (in_window a) new = new"
proof -
  obtain o' where "o' \<in> set old" "a \<le> act_occurredAtMs o'" using assms(2) by (auto simp: filter_empty_conv in_window_def)
  then show ?thesis using assms(1) by (fastforce simp: filter_id_conv in_window_def sorted_append)
qed

lemma recent_window:
  assumes "chronological xs" "length (filter (in_window a) xs) \<le> n"
  shows "filter (in_window a) (recent n xs) = filter (in_window a) xs"
proof -
  define new where "new = recent n xs"
  obtain old where old: "xs = old @ new" "old = [] \<or> length new = n" unfolding new_def by (rule recent_split)
  have "filter (in_window a) old = []"
  proof (rule ccontr)
    assume ne: "filter (in_window a) old \<noteq> []"
    have "filter (in_window a) new = new" using assms(1) ne unfolding old(1) by (rule window_suffix)
    then have "length (filter (in_window a) old) + length new \<le> n" using assms(2) by (simp add: old(1))
    moreover have "0 < length (filter (in_window a) old)" using ne by blast
    ultimately show False using ne old(2) by (cases "old = []") simp_all
  qed
  then show ?thesis unfolding new_def [symmetric] by (simp add: old(1))
qed

lemma recent_step:
  assumes "chronological xs"
  shows "recent n (filter (in_window a) (recent n xs) @ [e]) = recent n (filter (in_window a) xs @ [e])"
proof (cases "length (filter (in_window a) xs) \<le> n")
  case True
  then show ?thesis using recent_window [OF assms True] by simp
next
  case False
  define new where "new = recent n xs"
  obtain old where old: "xs = old @ new" "old = [] \<or> length new = n" "length new \<le> n" unfolding new_def by (rule recent_split)
  have ne: "filter (in_window a) old \<noteq> []" using False order_trans [OF length_filter_le old(3), of "in_window a"] by (auto simp: old(1))
  have new: "filter (in_window a) new = new" using assms ne unfolding old(1) by (rule window_suffix)
  have "length new = n" using ne old(2) by auto
  then have "recent n (filter (in_window a) old @ (new @ [e])) = recent n (new @ [e])" by (intro recent_append) simp
  then show ?thesis unfolding new_def [symmetric] by (simp add: old(1) new)
qed

text \<open>Integral settings small enough for exact arithmetic: the three windows in seconds and the cap on the buffer.\<close>

definition exact_settings :: "AnomalyDetectionConfig \<Rightarrow> int \<Rightarrow> int \<Rightarrow> int \<Rightarrow> int \<Rightarrow> bool" where
  "exact_settings c w1 w2 w3 m \<longleftrightarrow>
     dr_windowSeconds (ac_rapidSuccessiveDraws c) = num_of_int w1 \<and> dr_windowSeconds (ac_drawBurst c) = num_of_int w2 \<and>
     rr_patternWindowSeconds (ac_unusualRepayPattern c) = num_of_int w3 \<and> ac_maxActivityEventsPerLine c = num_of_int m \<and>
     0 < w1 \<and> w1 < 2 ^ 38 \<and> 0 < w2 \<and> w2 < 2 ^ 38 \<and> 0 < w3 \<and> w3 < 2 ^ 38 \<and> 0 < m \<and> m < 2 ^ 52"

lemma window_start:
  assumes "0 < w" "w < 2 ^ 38" "\<bar>now\<bar> < 2 ^ 51"
  shows "num_sub (num_of_int now) (num_mul (num_of_int w) (Fin 1000)) = num_of_int (now - w * 1000)"
    and "num_sub (num_of_int now) (num_mul (num_mul (num_of_int w) (Fin 1000)) (Fin 2)) = num_of_int (now - w * 2000)"
proof -
  have b: "\<bar>w * 1000\<bar> < 2 ^ 53" "\<bar>w * 2000\<bar> < 2 ^ 53" "\<bar>now - w * 1000\<bar> < 2 ^ 53" "\<bar>now - w * 2000\<bar> < 2 ^ 53"
    using assms by (auto simp: abs_less_iff)
  show "num_sub (num_of_int now) (num_mul (num_of_int w) (Fin 1000)) = num_of_int (now - w * 1000)"
    "num_sub (num_of_int now) (num_mul (num_mul (num_of_int w) (Fin 1000)) (Fin 2)) = num_of_int (now - w * 2000)"
    using dround_int [OF b(1)] dround_int [OF b(2)] dround_int [OF b(3)] dround_int [OF b(4)] by (simp_all add: mult.commute)
qed

lemma since_int [simp]: "since (num_of_int a) = in_window a"
  by (auto simp: since_def in_window_def fun_eq_iff)

lemma num_max_int: "num_max (num_of_int a) (num_of_int b) = num_of_int (max a b)"
  by (simp add: num_max_def max_def)

lemma trim_activity_int:
  assumes "exact_settings c w1 w2 w3 m" "\<bar>now\<bar> < 2 ^ 51" "int (length es) < 2 ^ 52"
  shows "trim_activity c now es = recent (nat m) (filter (in_window (now - max (max w1 w2) w3 * 2000)) es)"
proof -
  have W: "0 < max (max w1 w2) w3" "max (max w1 w2) w3 < 2 ^ 38" using assms(1) by (auto simp: exact_settings_def)
  let ?t = "filter (in_window (now - max (max w1 w2) w3 * 2000)) es"
  have "0 < m" using assms(1) by (simp add: exact_settings_def)
  moreover have "int (length ?t) < 2 ^ 52" using assms(3) length_filter_le [of "in_window (now - max (max w1 w2) w3 * 2000)" es] by linarith
  ultimately have b: "0 < m" "int (length ?t) < 2 ^ 52" by auto
  have "dround (of_int (int (length ?t) - m)) = num_of_int (int (length ?t) - m)"
    using assms(1) b by (intro dround_int) (auto simp: exact_settings_def abs_less_iff)
  then have "js_slice ?t (num_trunc (num_sub (num_of_int (int (length ?t))) (num_of_int m))) (int (length ?t)) = recent (nat m) ?t" if "m < int (length ?t)"
    using that b(1) by (simp add: recent_def js_slice_def js_index_def Let_def nat_diff_distrib)
  moreover have "recent (nat m) ?t = ?t" if "\<not> m < int (length ?t)" using that by (simp add: recent_def)
  moreover have "num_gt (num_of_int (int (length ?t))) (num_of_int m) \<longleftrightarrow> m < int (length ?t)" by (simp add: of_int_less_iff [symmetric, where 'a = rat] del: of_int_less_iff)
  moreover have eqs: "dr_windowSeconds (ac_rapidSuccessiveDraws c) = num_of_int w1" "dr_windowSeconds (ac_drawBurst c) = num_of_int w2"
    "rr_patternWindowSeconds (ac_unusualRepayPattern c) = num_of_int w3" "ac_maxActivityEventsPerLine c = num_of_int m"
    using assms(1) by (simp_all add: exact_settings_def)
  have start: "since (num_sub (num_of_int now) (num_mul (num_mul (num_max (num_max (num_of_int w1) (num_of_int w2)) (num_of_int w3)) (Fin 1000)) (Fin 2))) =
      in_window (now - max (max w1 w2) w3 * 2000)"
    by (simp only: num_max_int window_start(2) [OF W assms(2)] since_int)
  ultimately show ?thesis unfolding trim_activity_def Let_def eqs start by presburger
qed

lemma push_other: "act_creditLineId e \<noteq> l \<Longrightarrow> events_of (pushActivity c e s) l = events_of s l"
  by (simp add: pushActivity_def events_of_def)

lemma push_same: "events_of (pushActivity c e s) (act_creditLineId e) = trim_activity c (act_occurredAtMs e) (events_of s (act_creditLineId e) @ [e])"
  by (simp add: pushActivity_def events_of_def)

text \<open>The buffer of a line: of its history, the events not older than twice the widest window before its last event, and of these the most recent \<open>m\<close>.\<close>

lemma buffer_of_history:
  assumes "exact_settings c w1 w2 w3 m" "events_of s l = []" "\<forall>e \<in> set es. \<bar>act_occurredAtMs e\<bar> < 2 ^ 51" "int (length es) < 2 ^ 52"
    and "h = filter (\<lambda>e. act_creditLineId e = l) es" "chronological h"
  shows "events_of (fold (pushActivity c) es s) l =
     (if h = [] then [] else recent (nat m) (filter (in_window (act_occurredAtMs (last h) - max (max w1 w2) w3 * 2000)) h))"
  using assms(3-6)
proof (induction es arbitrary: h rule: rev_induct)
  case Nil
  then show ?case using assms(2) by simp
next
  case (snoc e es)
  define g where "g = filter (\<lambda>e. act_creditLineId e = l) es"
  define B where "B = events_of (fold (pushActivity c) es s) l"
  have W: "0 \<le> max (max w1 w2) w3" using assms(1) by (auto simp: exact_settings_def max_def)
  show ?case
  proof (cases "act_creditLineId e = l")
    case False
    then show ?thesis using snoc.IH [of h] snoc.prems by (simp add: push_other)
  next
    case True
    let ?a = "act_occurredAtMs e - max (max w1 w2) w3 * 2000"
    have h: "h = g @ [e]" using snoc.prems(3) True by (simp add: g_def)
    have cg: "chronological g" and le: "\<forall>x \<in> set g. act_occurredAtMs x \<le> act_occurredAtMs e" using snoc.prems(4) by (auto simp: h sorted_append)
    have IH: "B = (if g = [] then [] else recent (nat m) (filter (in_window (act_occurredAtMs (last g) - max (max w1 w2) w3 * 2000)) g))"
      using snoc.IH [of g] snoc.prems cg by (simp add: g_def B_def)
    have "length B \<le> length g" using IH by (auto intro: le_trans [OF length_recent length_filter_le])
    then have "length B \<le> length es" using length_filter_le [of "\<lambda>e. act_creditLineId e = l" es] unfolding g_def by (rule le_trans)
    then have "int (length (B @ [e])) < 2 ^ 52" using snoc.prems(2) by simp
    then have "events_of (pushActivity c e (fold (pushActivity c) es s)) l = recent (nat m) (filter (in_window ?a) (B @ [e]))"
      using push_same [of c e "fold (pushActivity c) es s"] trim_activity_int [OF assms(1)] snoc.prems(1) True by (simp add: B_def)
    also have "\<dots> = recent (nat m) (filter (in_window ?a) B @ [e])" using W by (simp add: in_window_def)
    also have "\<dots> = recent (nat m) (filter (in_window ?a) g @ [e])"
    proof (cases "g = []")
      case False
      let ?f = "filter (in_window (act_occurredAtMs (last g) - max (max w1 w2) w3 * 2000)) g"
      have "act_occurredAtMs (last g) \<le> act_occurredAtMs e" using le False by simp
      then have "filter (in_window ?a) ?f = filter (in_window ?a) g" unfolding filter_filter by (intro filter_cong) (auto simp: in_window_def)
      moreover have "chronological ?f" using cg by (simp add: sorted_filter)
      ultimately show ?thesis using recent_step [of ?f "nat m" ?a e] False IH by simp
    qed (simp add: IH)
    also have "\<dots> = recent (nat m) (filter (in_window ?a) h)" using W by (simp add: h in_window_def)
    finally show ?thesis by (simp add: h)
  qed
qed

lemma rule_on_buffer:
  assumes "b = recent n (filter (in_window lo) h)" "h \<noteq> []" "0 < n" "lo \<le> start" "start \<le> act_occurredAtMs (last h)" "chronological h"
    and "length (filter (in_window start) h) \<le> n"
  shows "b \<noteq> []" "last b = last h" "filter (in_window start) b = filter (in_window start) h"
proof -
  let ?f = "filter (in_window lo) h"
  have "last h \<in> set ?f" using assms(2,4,5) by (simp add: in_window_def)
  then have ne: "?f \<noteq> []" by (metis empty_iff list.set(1))
  have "last ?f = last h"
  proof -
    obtain xs where "h = xs @ [last h]" using assms(2) by (metis append_butlast_last_id)
    then have "?f = filter (in_window lo) xs @ [last h]" using assms(4,5) by (metis filter.simps(1) filter.simps(2) filter_append in_window_def order_trans)
    then show ?thesis by simp
  qed
  moreover have "length ?f - n < length ?f" using ne assms(3) by simp
  ultimately show "b \<noteq> []" "last b = last h" using assms(1) by (auto simp: recent_def last_drop)
  have ff: "filter (in_window start) ?f = filter (in_window start) h"
    using assms(4) unfolding filter_filter by (intro filter_cong) (auto simp: in_window_def)
  have "chronological ?f" using assms(6) by (simp add: sorted_filter)
  then show "filter (in_window start) b = filter (in_window start) h" using recent_window [of ?f start n, unfolded ff] assms(7) unfolding assms(1) by blast
qed

lemma draw_rule_on_buffer:
  assumes "b = recent n (filter (in_window lo) h)" "h \<noteq> []" "0 < n" "chronological h"
    and "dr_windowSeconds d = num_of_int w" "0 < w" "w < 2 ^ 38" "\<bar>act_occurredAtMs (last h)\<bar> < 2 ^ 51" "lo \<le> act_occurredAtMs (last h) - w * 1000"
    and "length (filter (in_window (act_occurredAtMs (last h) - w * 1000)) h) \<le> n"
  shows "draw_rule type name severity d b corr = draw_rule type name severity d h corr"
proof -
  let ?start = "act_occurredAtMs (last h) - w * 1000"
  have "?start \<le> act_occurredAtMs (last h)" using assms(6) by simp
  note rb = rule_on_buffer [OF assms(1-3,9) this assms(4,10)]
  have st: "num_sub (num_of_int (act_occurredAtMs (last h))) (num_mul (dr_windowSeconds d) (Fin 1000)) = num_of_int ?start"
    unfolding assms(5) by (rule window_start(1) [OF assms(6-8)])
  have "filter (\<lambda>e. act_kind e = DrawActivity \<and> since (num_of_int ?start) e) xs = filter (\<lambda>e. act_kind e = DrawActivity) (filter (in_window ?start) xs)" for xs
    by (simp only: since_int filter_filter conj_commute)
  then show ?thesis using rb(1) assms(2) unfolding draw_rule_def rb(2) st Let_def by (simp only: rb(3))
qed

lemma repay_rule_on_buffer:
  assumes "b = recent n (filter (in_window lo) h)" "h \<noteq> []" "0 < n" "chronological h"
    and "rr_patternWindowSeconds (ac_unusualRepayPattern c) = num_of_int w" "0 < w" "w < 2 ^ 38" "\<bar>act_occurredAtMs (last h)\<bar> < 2 ^ 51"
      "lo \<le> act_occurredAtMs (last h) - w * 1000"
    and "length (filter (in_window (act_occurredAtMs (last h) - w * 1000)) h) \<le> n"
  shows "ruleUnusualRepayPattern c b corr = ruleUnusualRepayPattern c h corr"
proof -
  let ?start = "act_occurredAtMs (last h) - w * 1000"
  have "?start \<le> act_occurredAtMs (last h)" using assms(6) by simp
  note rb = rule_on_buffer [OF assms(1-3,9) this assms(4,10)]
  have "num_sub (num_of_int (act_occurredAtMs (last h))) (num_mul (rr_patternWindowSeconds (ac_unusualRepayPattern c)) (Fin 1000)) = num_of_int ?start"
    unfolding assms(5) by (rule window_start(1) [OF assms(6-8)])
  then show ?thesis using rb(1) assms(2) unfolding ruleUnusualRepayPattern_def rb(2) Let_def by (simp only: since_int rb(3))
qed

text \<open>
  The bounded buffer loses nothing the rules look at. After any activity on any lines, in chronological order on the line, evaluating the rules on the buffer of a line gives what
  evaluating them on its whole history gives, provided no more than \<open>maxActivityEventsPerLine\<close> of its events fall into the widest window before the last one
  (with integral settings).
\<close>

theorem buffer_sees_history:
  assumes "exact_settings c w1 w2 w3 m" "events_of s l = []" "\<forall>e \<in> set es. \<bar>act_occurredAtMs e\<bar> < 2 ^ 51" "int (length es) < 2 ^ 52"
    and "h = filter (\<lambda>e. act_creditLineId e = l) es" "chronological h" "h \<noteq> []"
    and "int (length (filter (in_window (act_occurredAtMs (last h) - max (max w1 w2) w3 * 1000)) h)) \<le> m"
  shows "evaluateRules c (fold (pushActivity c) es s) l corr =
     collect_rules [ruleRapidSuccessiveDraws c h corr, ruleDrawBurst c h corr, ruleUnusualRepayPattern c h corr]"
proof -
  let ?W = "max (max w1 w2) w3" and ?b = "events_of (fold (pushActivity c) es s) l"
  have b: "?b = recent (nat m) (filter (in_window (act_occurredAtMs (last h) - ?W * 2000)) h)" using buffer_of_history [OF assms(1-6)] assms(7) by simp
  have t: "\<bar>act_occurredAtMs (last h)\<bar> < 2 ^ 51" using assms(3,5,7) last_in_set [of h] by auto
  have w: "0 < w1" "w1 < 2 ^ 38" "0 < w2" "w2 < 2 ^ 38" "0 < w3" "w3 < 2 ^ 38" "0 < nat m" using assms(1) by (simp_all add: exact_settings_def)
  have cnt: "length (filter (in_window (act_occurredAtMs (last h) - v * 1000)) h) \<le> nat m" and cut: "act_occurredAtMs (last h) - ?W * 2000 \<le> act_occurredAtMs (last h) - v * 1000"
    if "v \<le> ?W" "0 < v" for v
  proof -
    have "length (filter (in_window (act_occurredAtMs (last h) - v * 1000)) h) \<le> length (filter (in_window (act_occurredAtMs (last h) - ?W * 1000)) h)"
      using that(1) by (induction h) (auto simp: in_window_def)
    then show "length (filter (in_window (act_occurredAtMs (last h) - v * 1000)) h) \<le> nat m" using assms(8) by linarith
    show "act_occurredAtMs (last h) - ?W * 2000 \<le> act_occurredAtMs (last h) - v * 1000" using that by linarith
  qed
  have "?b \<noteq> []" using rule_on_buffer(1) [OF b assms(7) w(7) cut _ assms(6) cnt, of w1] w(1) by simp
  moreover have "ruleRapidSuccessiveDraws c ?b corr = ruleRapidSuccessiveDraws c h corr" "ruleDrawBurst c ?b corr = ruleDrawBurst c h corr"
    "ruleUnusualRepayPattern c ?b corr = ruleUnusualRepayPattern c h corr"
    unfolding ruleRapidSuccessiveDraws_def ruleDrawBurst_def
    using draw_rule_on_buffer [OF b assms(7) w(7) assms(6) _ w(1,2) t cut cnt] draw_rule_on_buffer [OF b assms(7) w(7) assms(6) _ w(3,4) t cut cnt]
      repay_rule_on_buffer [OF b assms(7) w(7) assms(6) _ w(5,6) t cut cnt] w assms(1) by (auto simp: exact_settings_def)
  ultimately show ?thesis by (simp add: evaluateRules_def Let_def)
qed

section \<open>Examples\<close>

definition exampleAnomalyConfig :: AnomalyDetectionConfig where
  "exampleAnomalyConfig =
     \<lparr>ac_enabled = True, ac_rapidSuccessiveDraws = \<lparr>dr_minCount = Fin 1, dr_windowSeconds = Fin 10\<rparr>,
      ac_drawBurst = \<lparr>dr_minCount = Fin 5, dr_windowSeconds = Fin 5\<rparr>,
      ac_unusualRepayPattern = \<lparr>rr_minCycles = Fin 1, rr_pairWindowSeconds = Fin 9, rr_patternWindowSeconds = Fin 10, rr_amountToleranceRatio = Fin 1\<rparr>,
      ac_signalCooldownSeconds = Fin 5, ac_maxActivityEventsPerLine = Fin 50\<rparr>"

definition exampleActivity :: "ActivityKind \<Rightarrow> time \<Rightarrow> ActivityEvent" where
  "exampleActivity k t = \<lparr>act_kind = k, act_creditLineId = ''L1'', act_walletAddress = ''GA'', act_amount = ''100'', act_occurredAtMs = t, act_correlationId = Some ''c''\<rparr>"

definition emptyAnomalyState :: anomaly_state where
  "emptyAnomalyState = \<lparr>an_activity = [], an_lastFired = [], an_signals = []\<rparr>"

lemma example_settings: "exact_settings exampleAnomalyConfig 10 5 10 50"
  by (simp add: exact_settings_def exampleAnomalyConfig_def)

theorem buffer_sees_history_witness:
  "evaluateRules exampleAnomalyConfig (fold (pushActivity exampleAnomalyConfig) [exampleActivity DrawActivity 100000, exampleActivity DrawActivity 104000] emptyAnomalyState) ''L1'' ''c'' =
     collect_rules [ruleRapidSuccessiveDraws exampleAnomalyConfig [exampleActivity DrawActivity 100000, exampleActivity DrawActivity 104000] ''c'',
       ruleDrawBurst exampleAnomalyConfig [exampleActivity DrawActivity 100000, exampleActivity DrawActivity 104000] ''c'',
       ruleUnusualRepayPattern exampleAnomalyConfig [exampleActivity DrawActivity 100000, exampleActivity DrawActivity 104000] ''c'']"
  by (rule buffer_sees_history [OF example_settings])
     (simp_all add: emptyAnomalyState_def events_of_def jsmap_get_def exampleActivity_def in_window_def)

theorem repay_pattern_evidence_witness:
  "\<exists>fired. ruleUnusualRepayPattern exampleAnomalyConfig [exampleActivity DrawActivity 100000, exampleActivity RepayActivity 104000] ''c'' = Inr (Some fired) \<and>
     (\<exists>cycles. json_field (fr_evidence fired) ''cycles'' = Some (JArr (map cycle_json cycles)) \<and> cycles \<noteq> [])"
proof -
  let ?es = "[exampleActivity DrawActivity 100000, exampleActivity RepayActivity 104000]"
  have "parseFloat ''100'' = Fin 100" by (simp add: parse_literal)
  then have p: "pairs_with (ac_unusualRepayPattern exampleAnomalyConfig) (exampleActivity RepayActivity 104000) (exampleActivity DrawActivity 100000)"
    by (simp add: pairs_with_def exampleAnomalyConfig_def exampleActivity_def amountsWithinTolerance_def Let_def)
  then have "\<exists>fired. ruleUnusualRepayPattern exampleAnomalyConfig ?es ''c'' = Inr (Some fired)"
    by (simp add: ruleUnusualRepayPattern_def Let_def since_def exampleActivity_def exampleAnomalyConfig_def)
  then obtain fired where f: "ruleUnusualRepayPattern exampleAnomalyConfig ?es ''c'' = Inr (Some fired)" by (elim exE)
  from repay_pattern_evidence [OF f refl] obtain cycles where "json_field (fr_evidence fired) ''cycles'' = Some (JArr (map cycle_json cycles))"
    "\<not> num_lt (num_of_int (int (length cycles))) (Fin 1)" by (auto simp: exampleAnomalyConfig_def)
  then show ?thesis using f by (intro exI conjI) (assumption | simp)+
qed

lemma example_rules:
  assumes "t = 100000 \<and> old = [] \<or> t \<in> {101000, 106000} \<and> old = [exampleActivity DrawActivity 100000]"
  shows "trim_activity exampleAnomalyConfig t (old @ [exampleActivity DrawActivity t]) = old @ [exampleActivity DrawActivity t]"
    and "\<exists>r. ruleRapidSuccessiveDraws exampleAnomalyConfig (old @ [exampleActivity DrawActivity t]) ''c'' = Inr (Some r) \<and> fr_ruleId r = ''rule.rapid_successive_draws''"
    and "ruleDrawBurst exampleAnomalyConfig (old @ [exampleActivity DrawActivity t]) ''c'' = Inr None"
    and "ruleUnusualRepayPattern exampleAnomalyConfig (old @ [exampleActivity DrawActivity t]) ''c'' = Inr None"
proof -
  show "trim_activity exampleAnomalyConfig t (old @ [exampleActivity DrawActivity t]) = old @ [exampleActivity DrawActivity t]"
    using assms trim_activity_int [OF example_settings, of t "old @ [exampleActivity DrawActivity t]"]
    by (auto simp: recent_def in_window_def exampleActivity_def)
  show "\<exists>r. ruleRapidSuccessiveDraws exampleAnomalyConfig (old @ [exampleActivity DrawActivity t]) ''c'' = Inr (Some r) \<and> fr_ruleId r = ''rule.rapid_successive_draws''"
    using assms by (auto simp: ruleRapidSuccessiveDraws_def draw_rule_def exampleAnomalyConfig_def exampleActivity_def since_def Let_def)
  show "ruleDrawBurst exampleAnomalyConfig (old @ [exampleActivity DrawActivity t]) ''c'' = Inr None"
    using assms by (auto simp: ruleDrawBurst_def draw_rule_def exampleAnomalyConfig_def exampleActivity_def since_def Let_def)
  show "ruleUnusualRepayPattern exampleAnomalyConfig (old @ [exampleActivity DrawActivity t]) ''c'' = Inr None"
    by (simp add: ruleUnusualRepayPattern_def exampleActivity_def Let_def)
qed

lemma example_begin:
  assumes "t = 100000 \<and> old = [] \<or> t \<in> {101000, 106000} \<and> old = [exampleActivity DrawActivity 100000]"
    and "an_activity s = (if old = [] then [] else [(''L1'', old)])"
    and "an_lastFired s = [] \<or> t = 106000 \<and> an_lastFired s = [(''L1:rule.rapid_successive_draws'', 100000)]"
  shows "\<exists>ob s' rule sig. observe_begin exampleAnomalyConfig ''u'' (\<lambda>_. Inr (i, t)) (exampleActivity DrawActivity t) s = (ob, s') \<and>
     ob_event ob = exampleActivity DrawActivity t \<and> ob_signals ob = [] \<and> ob_phase ob = AwaitingCreate rule (Inr sig) [] \<and>
     fr_ruleId rule = ''rule.rapid_successive_draws'' \<and> rs_ruleId sig = ''rule.rapid_successive_draws'' \<and>
     an_activity s' = [(''L1'', old @ [exampleActivity DrawActivity t])] \<and> an_lastFired s' = an_lastFired s"
proof -
  let ?e = "exampleActivity DrawActivity t"
  define s1 where "s1 = s\<lparr>an_activity := [(''L1'', old @ [?e])]\<rparr>"
  have e: "?e\<lparr>act_correlationId := Some ''c''\<rparr> = ?e" "act_creditLineId ?e = ''L1''" "act_occurredAtMs ?e = t" "act_correlationId ?e = Some ''c''"
    by (simp_all add: exampleActivity_def)
  have "events_of s ''L1'' = old" using assms(2) by (simp add: events_of_def jsmap_get_def)
  then have push: "pushActivity exampleAnomalyConfig ?e s = s1"
    using assms(2) by (simp add: pushActivity_def e example_rules(1) [OF assms(1)] s1_def)
  obtain r where r: "ruleRapidSuccessiveDraws exampleAnomalyConfig (old @ [?e]) ''c'' = Inr (Some r)" "fr_ruleId r = ''rule.rapid_successive_draws''"
    using example_rules(2) [OF assms(1)] by (elim exE conjE)
  have ev: "evaluateRules exampleAnomalyConfig s1 ''L1'' ''c'' = Inr [r]"
    by (simp add: evaluateRules_def events_of_def s1_def jsmap_get_def r example_rules(3,4) [OF assms(1)])
  have "\<not> isCoolingDown exampleAnomalyConfig s1 ''L1'' (fr_ruleId r) t"
    using assms(3) by (auto simp: isCoolingDown_def s1_def cooldownKey_def r jsmap_get_def exampleAnomalyConfig_def)
  moreover have "ac_enabled exampleAnomalyConfig" by (simp add: exampleAnomalyConfig_def)
  moreover have "an_activity s1 = [(''L1'', old @ [?e])]" "an_lastFired s1 = an_lastFired s" by (simp_all add: s1_def)
  ultimately show ?thesis
    by (simp add: observe_begin_def Let_def e push ev repository_create_def signal_create_def signal_of_def r)
qed

text \<open>
  Two draws on one line, one second apart with a cooldown of five: the second event arrives while the first observation waits for the repository, its check still finds no recorded time,
  and both observations put a signal of the rule into the repository.
\<close>

theorem overlapping_observations_both_fire:
  "\<exists>s a b x y. (observe_step exampleAnomalyConfig {})\<^sup>*\<^sup>* (emptyAnomalyState, []) (s, [a, b]) \<and>
     ob_event a = exampleActivity DrawActivity 100000 \<and> ob_event b = exampleActivity DrawActivity 101000 \<and>
     x \<in> set (recorded a) \<and> y \<in> set (recorded b) \<and> rs_ruleId y = rs_ruleId x \<and> ac_signalCooldownSeconds exampleAnomalyConfig = Fin 5"
proof -
  obtain a s1 ra x where a: "observe_begin exampleAnomalyConfig ''u'' (\<lambda>_. Inr (''i1'', 100000)) (exampleActivity DrawActivity 100000) emptyAnomalyState = (a, s1)"
    "ob_event a = exampleActivity DrawActivity 100000" "ob_phase a = AwaitingCreate ra (Inr x) []" "rs_ruleId x = ''rule.rapid_successive_draws''"
    "an_activity s1 = [(''L1'', [exampleActivity DrawActivity 100000])]" "an_lastFired s1 = []"
    using example_begin [of 100000 "[]" emptyAnomalyState "''i1''"] by (auto simp: emptyAnomalyState_def)
  obtain b s2 rb y where b: "observe_begin exampleAnomalyConfig ''u'' (\<lambda>_. Inr (''i2'', 101000)) (exampleActivity DrawActivity 101000) s1 = (b, s2)"
    "ob_event b = exampleActivity DrawActivity 101000" "ob_phase b = AwaitingCreate rb (Inr y) []" "rs_ruleId y = ''rule.rapid_successive_draws''"
    using example_begin [of 101000 "[exampleActivity DrawActivity 100000]" s1 "''i2''"] a(5,6) by auto
  have 1: "observe_step exampleAnomalyConfig {} (emptyAnomalyState, []) (s1, [a])"
    using observe_step.arrive [where c = exampleAnomalyConfig and L = "{}", OF _ _ a(1), of "[]"] by (simp add: exampleActivity_def)
  have 2: "observe_step exampleAnomalyConfig {} (s1, [a]) (s2, [a, b])"
    using observe_step.arrive [where c = exampleAnomalyConfig and L = "{}", OF _ _ b(1), of "[a]"] by (simp add: exampleActivity_def)
  have "(observe_step exampleAnomalyConfig {})\<^sup>*\<^sup>* (emptyAnomalyState, []) (s2, [a, b])" using 1 2 by (meson r_into_rtranclp rtranclp_trans)
  moreover have "x \<in> set (recorded a)" "y \<in> set (recorded b)" using a(3) b(3) by (simp_all add: recorded_def)
  ultimately show ?thesis using a(2,4) b(2,4) by (intro exI conjI) (assumption | simp add: exampleAnomalyConfig_def)+
qed

theorem signals_respect_cooldown_witness:
  "\<exists>s a b x y. (observe_step exampleAnomalyConfig {''L1''})\<^sup>*\<^sup>* (emptyAnomalyState, []) (s, [a, b]) \<and> x \<in> set (recorded a) \<and> y \<in> set (recorded b) \<and>
     act_occurredAtMs (ob_event a) = 100000 \<and> act_occurredAtMs (ob_event b) = 106000 \<and> act_occurredAtMs (ob_event a) + 5 * 1000 \<le> act_occurredAtMs (ob_event b)"
proof -
  let ?L = "{''L1''}" and ?c = exampleAnomalyConfig
  obtain a s1 ra x where a: "observe_begin ?c ''u'' (\<lambda>_. Inr (''i1'', 100000)) (exampleActivity DrawActivity 100000) emptyAnomalyState = (a, s1)"
    "ob_event a = exampleActivity DrawActivity 100000" "ob_signals a = []" "ob_phase a = AwaitingCreate ra (Inr x) []" "fr_ruleId ra = ''rule.rapid_successive_draws''"
    "rs_ruleId x = ''rule.rapid_successive_draws''" "an_activity s1 = [(''L1'', [exampleActivity DrawActivity 100000])]" "an_lastFired s1 = []"
    using example_begin [of 100000 "[]" emptyAnomalyState "''i1''"] by (auto simp: emptyAnomalyState_def)
  define a' where "a' = a\<lparr>ob_signals := [x], ob_phase := Observed\<rparr>"
  define s2 where "s2 = s1\<lparr>an_lastFired := [(''L1:rule.rapid_successive_draws'', 100000)]\<rparr>"
  have r: "observe_resume ?c (\<lambda>_. Inr (''i1'', 100000)) (a, s1) = (a', s2)"
    using a by (simp add: observe_resume_def a'_def s2_def cooldownKey_def exampleActivity_def)
  have a'_facts: "ob_event a' = exampleActivity DrawActivity 100000" "x \<in> set (recorded a')" "\<not> in_flight a'" using a(2) by (simp_all add: a'_def recorded_def in_flight_def)
  obtain b s3 rb y where b: "observe_begin ?c ''u'' (\<lambda>_. Inr (''i2'', 106000)) (exampleActivity DrawActivity 106000) s2 = (b, s3)"
    "ob_event b = exampleActivity DrawActivity 106000" "ob_phase b = AwaitingCreate rb (Inr y) []" "rs_ruleId y = ''rule.rapid_successive_draws''"
    using example_begin [of 106000 "[exampleActivity DrawActivity 100000]" s2 "''i2''"] a(7) by (auto simp: s2_def)
  have y: "y \<in> set (recorded b)" using b(3) by (simp add: recorded_def)
  have 1: "observe_step ?c ?L (emptyAnomalyState, []) (s1, [a])"
    using observe_step.arrive [where c = ?c and L = ?L, OF _ _ a(1), of "[]"] by (simp add: exampleActivity_def)
  have 2: "observe_step ?c ?L (s1, [a]) (s2, [a'])"
    using observe_step.resume [where c = ?c and L = ?L, of 0 "[a]" _ s1 a' s2] r a(4) by (simp add: in_flight_def)
  have 3: "observe_step ?c ?L (s2, [a']) (s3, [a', b])"
    using observe_step.arrive [where c = ?c and L = ?L, OF _ _ b(1), of "[a']"] a'_facts by (simp add: exampleActivity_def)
  have run: "(observe_step ?c ?L)\<^sup>*\<^sup>* (emptyAnomalyState, []) (s3, [a', b])" using 1 2 3 by (meson r_into_rtranclp rtranclp_trans)
  have "act_occurredAtMs (ob_event ([a', b] ! 0)) + 5 * 1000 \<le> act_occurredAtMs (ob_event ([a', b] ! 1))"
    by (rule signals_respect_cooldown [OF run, where l = "''L1''" and ?sig1.0 = x and ?sig2.0 = y])
       (simp_all add: a'_facts y a(6) b(2,4) exampleAnomalyConfig_def fired_bounded_def emptyAnomalyState_def jsmap_get_def exampleActivity_def)
  then show ?thesis using run a'_facts y b(2) by (intro exI conjI) (assumption | simp add: exampleActivity_def)+
qed

end
