(* ===== verification/Wiring.thy ===== *)
theory Wiring
  imports AnomalyDetection
begin

text \<open>
  How \<open>src/container/Container.ts\<close> puts the bus and its subscribers together with in-memory stores: the audit subscriber first, then the anomaly subscriber, then the
  replay log. The outbound dispatcher, which the container subscribes in between, is in \<open>OutboundWebhooks\<close> and touches none of this state.
\<close>

record subscriber_state =
  sub_audit :: audit_store
  sub_anomaly :: anomaly_state
  sub_log :: domain_log

definition audit_sink :: "AuditRecord \<Rightarrow> subscriber_state \<Rightarrow> (js_error + unit) \<times> subscriber_state" where
  "audit_sink rec w = (Inr (), w\<lparr>sub_audit := AuditLogStore_append rec (sub_audit w)\<rparr>)"

definition anomaly_observer ::
  "AnomalyDetectionConfig \<Rightarrow> string \<Rightarrow> create_answer \<Rightarrow> ActivityEvent \<Rightarrow> subscriber_state \<Rightarrow> (js_error + EvaluateResult) \<times> subscriber_state" where
  "anomaly_observer c uuid fresh a w = (let (r, s) = observe c uuid fresh a (sub_anomaly w) in (r, w\<lparr>sub_anomaly := s\<rparr>))"

definition log_append :: "time \<Rightarrow> domain_event \<Rightarrow> subscriber_state \<Rightarrow> (js_error + unit) \<times> subscriber_state" where
  "log_append now event w = (Inr (), w\<lparr>sub_log := domain_append now event (sub_log w)\<rparr>)"

definition container_bus :: "AnomalyDetectionConfig \<Rightarrow> string \<Rightarrow> create_answer \<Rightarrow> time \<Rightarrow> subscriber_state bus" where
  "container_bus c uuid fresh now =
     registerDomainEventStoreSubscriber (\<lambda>n. n + 6) (log_append now)
       (registerAnomalySubscriber 5 (anomaly_observer c uuid fresh)
         (registerAuditSubscriber (\<lambda>n. n) audit_sink jsmap_empty))"

lemma audit_handlers:
  "bus_handlers (registerAuditSubscriber (\<lambda>n. n) sink jsmap_empty) t =
     (case map_of (zip LIFECYCLE_EVENTS [0..<5]) t of Some i \<Rightarrow> [(i, \<lambda>event. sink (toAuditRecord event))] | None \<Rightarrow> [])"
proof -
  have "registerAuditSubscriber (\<lambda>n. n) sink jsmap_empty =
      fold (\<lambda>(type, i). bus_subscribe type i (\<lambda>event. sink (toAuditRecord event))) (zip LIFECYCLE_EVENTS [0..<5]) jsmap_empty"
    by (simp add: registerAuditSubscriber_def LIFECYCLE_EVENTS_def upt_rec)
  then show ?thesis
    using handlers_after_subscriptions [of "zip LIFECYCLE_EVENTS [0..<5]" jsmap_empty "\<lambda>event. sink (toAuditRecord event)" t]
    by (simp add: bus_handlers_def jsmap_empty_def jsmap_get_def LIFECYCLE_EVENTS_def upt_rec)
qed

lemma audit_ids: "fst ` set (bus_handlers (registerAuditSubscriber (\<lambda>n. n) sink jsmap_empty) t) \<subseteq> {0..<5}"
proof (cases "map_of (zip LIFECYCLE_EVENTS [0..<5]) t")
  case (Some i)
  then have "i \<in> set [0..<5]" by (meson map_of_SomeD set_zip_rightD)
  then show ?thesis using Some by (simp add: audit_handlers)
qed (simp add: audit_handlers)

lemma anomaly_handlers:
  assumes "\<forall>t. 5 \<notin> fst ` set (bus_handlers b t)"
  shows "bus_handlers (registerAnomalySubscriber 5 obs b) t = bus_handlers b t @ (if t \<in> set WATCHED then [(5, anomaly_handler obs)] else [])"
proof -
  have "registerAnomalySubscriber 5 obs b = fold (\<lambda>(type, i). bus_subscribe type i (anomaly_handler obs)) (map (\<lambda>t. (t, 5)) WATCHED) b"
    by (simp add: registerAnomalySubscriber_def fold_map o_def)
  then show ?thesis
    using handlers_after_subscriptions [of "map (\<lambda>t. (t, 5)) WATCHED" b "anomaly_handler obs" t] assms by (simp add: WATCHED_def)
qed

lemma log_handlers:
  assumes "\<forall>t. fst ` set (bus_handlers b t) \<subseteq> {0..<6}" "t \<in> set LIFECYCLE_EVENTS"
  shows "map snd (bus_handlers (registerDomainEventStoreSubscriber (\<lambda>n. n + 6) store_append b) t) = map snd (bus_handlers b t) @ [store_append]"
proof -
  have eq: "registerDomainEventStoreSubscriber (\<lambda>n. n + 6) store_append b =
      fold (\<lambda>(type, i). bus_subscribe type i store_append) (zip LIFECYCLE_EVENTS (map (\<lambda>n. n + 6) [0..<5])) b"
    by (simp add: registerDomainEventStoreSubscriber_def LIFECYCLE_EVENTS_def upt_rec)
  have d: "distinct (map fst (zip LIFECYCLE_EVENTS (map (\<lambda>n. n + 6) [0..<5])))" by (simp add: LIFECYCLE_EVENTS_def upt_rec)
  have "t \<in> fst ` set (zip LIFECYCLE_EVENTS (map (\<lambda>n. n + 6) [0..<5]))" using assms(2) by (simp add: LIFECYCLE_EVENTS_def upt_rec)
  then obtain i where "map_of (zip LIFECYCLE_EVENTS (map (\<lambda>n. n + 6) [0..<5])) t = Some i" by (metis map_of_eq_None_iff not_None_eq)
  moreover have "\<forall>(type, i) \<in> set (zip LIFECYCLE_EVENTS (map (\<lambda>n. n + 6) [0..<5])). i \<notin> fst ` set (bus_handlers b type)"
    using assms(1) by (fastforce dest!: set_zip_rightD)
  ultimately show ?thesis using handlers_after_subscriptions [OF d, of b store_append t] eq by simp
qed

lemma container_handlers:
  assumes "type \<in> set LIFECYCLE_EVENTS"
  shows "map snd (bus_handlers (container_bus c uuid fresh now) type) =
     [\<lambda>event. audit_sink (toAuditRecord event)] @ (if type \<in> set WATCHED then [anomaly_handler (anomaly_observer c uuid fresh)] else []) @ [log_append now]"
proof -
  let ?a = "registerAuditSubscriber (\<lambda>n. n) audit_sink jsmap_empty"
  have "type \<in> fst ` set (zip LIFECYCLE_EVENTS [0..<5])" using assms by (simp add: LIFECYCLE_EVENTS_def upt_rec)
  then obtain i where "map_of (zip LIFECYCLE_EVENTS [0..<5]) type = Some i" by (metis map_of_eq_None_iff not_None_eq)
  then have audit: "map snd (bus_handlers ?a type) = [\<lambda>event. audit_sink (toAuditRecord event)]" by (simp add: audit_handlers)
  have five: "\<forall>t. 5 \<notin> fst ` set (bus_handlers ?a t)" using audit_ids [of audit_sink] by fastforce
  have "\<forall>t. fst ` set (bus_handlers (registerAnomalySubscriber 5 (anomaly_observer c uuid fresh) ?a) t) \<subseteq> {0..<6}"
    using audit_ids [of audit_sink] by (fastforce simp: anomaly_handlers [OF five])
  note log = log_handlers [OF this assms, of "log_append now"]
  show ?thesis by (simp add: container_bus_def log anomaly_handlers [OF five] audit)
qed

text \<open>What publishing one lifecycle event does to the three stores, whether or not the anomaly subscriber throws.\<close>

definition delivered_to_all :: "AnomalyDetectionConfig \<Rightarrow> string \<Rightarrow> create_answer \<Rightarrow> time \<Rightarrow> domain_event \<Rightarrow> subscriber_state \<Rightarrow> subscriber_state" where
  "delivered_to_all c uuid fresh now event w =
     \<lparr>sub_audit = AuditLogStore_append (toAuditRecord event) (sub_audit w),
      sub_anomaly = (if ev_type event \<in> set WATCHED then snd (observe c uuid fresh (anomaly_activity event) (sub_anomaly w)) else sub_anomaly w),
      sub_log = domain_append now event (sub_log w)\<rparr>"

lemma publish_delivers:
  assumes "ev_type event \<in> set LIFECYCLE_EVENTS"
  shows "snd (bus_publish (container_bus c uuid fresh now) event w) = delivered_to_all c uuid fresh now event w"
proof -
  have "snd (bus_publish (container_bus c uuid fresh now) event w) =
      fold (\<lambda>h w. snd (h event w)) (map snd (bus_handlers (container_bus c uuid fresh now) (ev_type event))) w"
    unfolding publish_runs_all by (simp add: fold_map o_def)
  moreover have "snd (anomaly_handler (anomaly_observer c uuid fresh) event v) = v\<lparr>sub_anomaly := snd (observe c uuid fresh (anomaly_activity event) (sub_anomaly v))\<rparr>"
    if "ev_type event \<in> set WATCHED" for v
    using that by (auto simp: anomaly_handler_def anomaly_observer_def split: prod.splits sum.splits)
  ultimately show ?thesis by (simp add: container_handlers [OF assms] delivered_to_all_def audit_sink_def log_append_def)
qed

text \<open>
  C38. A draw reaches every subscriber. When a draw succeeds, the two events it publishes go to the audit log and the replay log, in order, and the confirmation to the
  anomaly detector as a draw of the requested amount on that line at the instant of confirmation, even if the detector throws: the subscribers' state is exactly the result of those appends
  (the replay log drops an event of which it already holds one with the same type, line and millisecond) and of one observation, when nothing else runs in between.
\<close>

theorem draw_reaches_every_subscriber:
  assumes "CreditLineService_draw (inMemoryCreditLines lc) passthroughTransactionRunner clk u i b amount st = (Inr l', st')"
    and "ss_published st = Some []"
  shows "\<exists>e1 e2 line. ss_published st' = Some [e1, e2] \<and> repo_findById (inMemoryCreditLines lc) (ss_lines st) i = Some line \<and>
     (let w1 = snd (bus_publish (container_bus c uuid1 fresh1 now1) e1 w); w2 = snd (bus_publish (container_bus c uuid2 fresh2 now2) e2 w1)
      in sub_audit w2 = fold AuditLogStore_append [toAuditRecord e1, toAuditRecord e2] (sub_audit w) \<and>
         map ar_action [toAuditRecord e1, toAuditRecord e2] = [''credit.draw_requested'', ''credit.draw_confirmed''] \<and>
         sub_log w2 = domain_append now2 e2 (domain_append now1 e1 (sub_log w)) \<and>
         sub_anomaly w2 = snd (observe c uuid2 fresh2 \<lparr>act_kind = DrawActivity, act_creditLineId = i, act_walletAddress = cl_walletAddress line,
           act_amount = amount, act_occurredAtMs = clk 3, act_correlationId = None\<rparr> (sub_anomaly w)))"
proof -
  let ?c = "CreditLineService_drawCheck (repo_findById (inMemoryCreditLines lc) (ss_lines st) i) b amount"
  obtain line nu where chk: "?c = Inr (line, nu)"
    using mem.draw_rejected [of lc st i b amount] assms(1) by (cases ?c) auto
  let ?e1 = "drawRequested line i amount (clk 0)"
    and ?e2 = "balanceConfirmed ''credit.draw_confirmed'' line i amount (withUtilized line nu (clk 2)) (clk 3)"
  have "ss_published st' = Some [?e1, ?e2]" using mem.draw_accepted(4) [OF chk, of clk u] assms by simp
  moreover have "repo_findById (inMemoryCreditLines lc) (ss_lines st) i = Some line" using mem.drawCheck_line [OF chk] .
  moreover have "ev_type ?e1 \<in> set LIFECYCLE_EVENTS" "ev_type ?e2 \<in> set LIFECYCLE_EVENTS" "ev_type ?e1 \<notin> set WATCHED" "ev_type ?e2 \<in> set WATCHED"
    by (simp_all add: drawRequested_def balanceConfirmed_def LIFECYCLE_EVENTS_def WATCHED_def)
  moreover have "anomaly_activity ?e2 = \<lparr>act_kind = DrawActivity, act_creditLineId = i, act_walletAddress = cl_walletAddress line,
      act_amount = amount, act_occurredAtMs = clk 3, act_correlationId = None\<rparr>"
    by (simp add: anomaly_activity_def balanceConfirmed_def)
  moreover have "map ar_action [toAuditRecord ?e1, toAuditRecord ?e2] = [''credit.draw_requested'', ''credit.draw_confirmed'']"
    by (simp add: toAuditRecord_def drawRequested_def balanceConfirmed_def)
  ultimately show ?thesis
    by (intro exI [of _ ?e1] exI [of _ ?e2] exI [of _ line]) (simp add: publish_delivers delivered_to_all_def Let_def)
qed

definition exampleSubscribers :: subscriber_state where
  "exampleSubscribers = \<lparr>sub_audit = \<lparr>as_records = [], as_capacity = DEFAULT_AUDIT_STORE_CAPACITY\<rparr>, sub_anomaly = emptyAnomalyState, sub_log = empty_domain_log\<rparr>"

theorem draw_reaches_every_subscriber_witness:
  "\<exists>l' st' e1 e2. CreditLineService_draw memLines passthroughTransactionRunner int ''T1'' ''L1'' ''GA'' ''250'' exampleState = (Inr l', st') \<and>
     ss_published st' = Some [e1, e2] \<and>
     sub_audit (snd (bus_publish (container_bus exampleAnomalyConfig ''u'' (\<lambda>_. Inr (''i'', 9)) 9) e2 (snd (bus_publish (container_bus exampleAnomalyConfig ''u'' (\<lambda>_. Inr (''i'', 9)) 8) e1 exampleSubscribers)))) =
       fold AuditLogStore_append [toAuditRecord e1, toAuditRecord e2] (sub_audit exampleSubscribers)"
proof -
  let ?out = "CreditLineService_draw memLines passthroughTransactionRunner int ''T1'' ''L1'' ''GA'' ''250'' exampleState"
  have "fst ?out = Inr (withUtilized exampleLine (num_toString (Fin 350)) 2)"
    using mem.draw_accepted(1) [of code_unit_compare exampleState "''L1''" "''GA''" "''250''" exampleLine _ int "''T1''"]
      exampleLine_drawCheck by (simp only: exampleState_find of_nat_numeral)
  then obtain l' st' where out: "?out = (Inr l', st')" by (metis prod.collapse)
  have "ss_published exampleState = Some []" by (simp add: exampleState_def)
  from draw_reaches_every_subscriber [OF out this, of exampleAnomalyConfig "''u''" "\<lambda>_. Inr (''i'', 9)" 8 exampleSubscribers "''u''" "\<lambda>_. Inr (''i'', 9)" 9]
  obtain e1 e2 where "ss_published st' = Some [e1, e2]"
    "sub_audit (snd (bus_publish (container_bus exampleAnomalyConfig ''u'' (\<lambda>_. Inr (''i'', 9)) 9) e2 (snd (bus_publish (container_bus exampleAnomalyConfig ''u'' (\<lambda>_. Inr (''i'', 9)) 8) e1 exampleSubscribers)))) =
       fold AuditLogStore_append [toAuditRecord e1, toAuditRecord e2] (sub_audit exampleSubscribers)"
    unfolding Let_def by (elim exE conjE)
  then show ?thesis using out by (intro exI conjI)
qed

end
