(* ===== verification/JsValue.thy ===== *)
theory JsValue
  imports Json
begin

text \<open>
  Dynamically typed JavaScript values, for the code that inspects values of unknown type: decoded contract data, thrown errors, log records.
  \<open>nullish\<close> is the operator \<open>??\<close>, \<open>truthy\<close> the condition of an \<open>if\<close>, \<open>js_String\<close> the function \<open>String\<close>.
\<close>

text \<open>What \<open>scValToNative\<close> and \<open>JSON.parse\<close> return. A \<open>Map\<close> lists \<open>String(key)\<close> with the values; objects of other classes (byte arrays)
  are objects with their own properties.\<close>

datatype js_value =
    JsUndefined
  | JsNull
  | JsBool bool
  | JsNumber number
  | JsBigInt int
  | JsString string
  | JsArray "js_value list"
  | JsMap "(string \<times> js_value) list"
  | JsObject "(string \<times> js_value) list"

fun of_json :: "json \<Rightarrow> js_value" where
  "of_json JNull = JsNull"
| "of_json (JBool b) = JsBool b"
| "of_json (JNum x) = JsNumber x"
| "of_json (JStr s) = JsString s"
| "of_json (JArr xs) = JsArray (map of_json xs)"
| "of_json (JObj ps) = JsObject (map (\<lambda>(k, v). (k, of_json v)) ps)"

definition MAX_SAFE_INTEGER :: int where
  "MAX_SAFE_INTEGER = 2 ^ 53 - 1"

definition num_isSafeInteger :: "number \<Rightarrow> bool" where
  "num_isSafeInteger x \<longleftrightarrow> (case x of Fin q \<Rightarrow> num_isInteger x \<and> \<bar>\<lfloor>q\<rfloor>\<bar> \<le> MAX_SAFE_INTEGER | _ \<Rightarrow> False)"

fun num_int :: "number \<Rightarrow> int" where
  "num_int (Fin q) = \<lfloor>q\<rfloor>"
| "num_int _ = 0"

definition nullish :: "js_value \<Rightarrow> js_value \<Rightarrow> js_value" where
  "nullish a b = (if a = JsUndefined \<or> a = JsNull then b else a)"

fun truthy :: "js_value \<Rightarrow> bool" where
  "truthy JsUndefined = False"
| "truthy JsNull = False"
| "truthy (JsBool b) = b"
| "truthy (JsNumber x) = (x \<noteq> NaN \<and> x \<noteq> Fin 0)"
| "truthy (JsBigInt i) = (i \<noteq> 0)"
| "truthy (JsString s) = (s \<noteq> [])"
| "truthy _ = True"

fun js_String :: "js_value \<Rightarrow> string" where
  "js_String JsUndefined = ''undefined''"
| "js_String JsNull = ''null''"
| "js_String (JsBool b) = (if b then ''true'' else ''false'')"
| "js_String (JsNumber x) = num_toString x"
| "js_String (JsBigInt i) = show_int i"
| "js_String (JsString s) = s"
| "js_String (JsArray xs) = js_join '','' (map (\<lambda>x. if x = JsUndefined \<or> x = JsNull then [] else js_String x) xs)"
| "js_String (JsMap _) = ''[object Map]''"
| "js_String (JsObject _) = ''[object Object]''"

text \<open>Own properties of an object; everything else has none of the names the code reads.\<close>

definition js_get :: "js_value \<Rightarrow> string \<Rightarrow> js_value" where
  "js_get v k = (case v of JsObject ps \<Rightarrow> (case jsmap_get ps k of Some x \<Rightarrow> x | None \<Rightarrow> JsUndefined) | _ \<Rightarrow> JsUndefined)"

definition is_JsString :: "js_value \<Rightarrow> bool" where
  "is_JsString v \<longleftrightarrow> (case v of JsString _ \<Rightarrow> True | _ \<Rightarrow> False)"

definition is_JsNumber :: "js_value \<Rightarrow> bool" where
  "is_JsNumber v \<longleftrightarrow> (case v of JsNumber _ \<Rightarrow> True | _ \<Rightarrow> False)"

definition js_str :: "js_value \<Rightarrow> string" where
  "js_str v = (case v of JsString s \<Rightarrow> s | _ \<Rightarrow> [])"

definition js_num :: "js_value \<Rightarrow> number" where
  "js_num v = (case v of JsNumber x \<Rightarrow> x | _ \<Rightarrow> NaN)"

end
