(* ===== verification/SorobanClient.thy ===== *)
theory SorobanClient
  imports Reconciliation JsonParse JsValue
begin

text \<open>
  The client that reads the credit lines from the contract (\<open>src/services/sorobanClient.ts\<close>, with the configuration of
  \<open>src/services/sorobanRpcClient.ts\<close>): paged enumeration, JSON-RPC with retries, and the decoding of contract values.

  What the code takes from elsewhere is an argument: \<open>isContract\<close> and \<open>isPublicKey\<close> are \<open>StrKey\<close>'s checks, \<open>buildTx\<close> builds and
  encodes the transaction, \<open>fetchImpl\<close> is the HTTP exchange (the outcome of the n-th request), \<open>decodeXdr\<close> is \<open>scValToNative\<close> of
  \<open>ScVal.fromXDR\<close>, \<open>random\<close> the n-th \<open>Math.random()\<close>. A simulation result comes out of \<open>JSON.parse\<close>, so it never holds an \<open>ScVal\<close> object.
\<close>

definition isRecord :: "js_value \<Rightarrow> bool" where
  "isRecord v \<longleftrightarrow> (case v of JsObject _ \<Rightarrow> True | JsMap _ \<Rightarrow> True | _ \<Rightarrow> False)"

section \<open>Errors\<close>

definition newDecodeError :: "string \<Rightarrow> js_error" where
  "newDecodeError message = SorobanCreditRecordDecodeError (sanitizeStellarDiagnostic (DiagString message))"

definition newFetchError :: "string \<Rightarrow> bool \<Rightarrow> js_error" where
  "newFetchError message retryable = SorobanCreditRecordFetchError (sanitizeStellarDiagnostic (DiagString message)) retryable"

text \<open>What the HTTP layer and the SDK throw: an \<open>Error\<close> with its name, its \<open>code\<close> if that is a string, and its message; or another value.\<close>

datatype thrown = ThrownError string "string option" string | ThrownValue json

definition isRetryableError :: "string \<Rightarrow> string option \<Rightarrow> bool" where
  "isRetryableError name code =
     (js_toUpperCase (case code of Some c \<Rightarrow> c | None \<Rightarrow> name) \<in>
        set [''ABORTERROR'', ''ECONNABORTED'', ''ECONNRESET'', ''ETIMEDOUT'', ''EPIPE'', ''ENETDOWN'', ''ENETRESET''])"

text \<open>\<open>toSorobanError\<close> on foreign errors; its own errors pass unchanged.\<close>

fun toSorobanError :: "thrown \<Rightarrow> js_error" where
  "toSorobanError (ThrownError name code message) = newFetchError message (isRetryableError name code)"
| "toSorobanError (ThrownValue v) = newFetchError (sanitizeStellarDiagnostic (case v of JStr s \<Rightarrow> DiagString s | _ \<Rightarrow> DiagJson v)) False"

definition isRetryableJsonRpcError :: "js_value \<Rightarrow> bool" where
  "isRetryableJsonRpcError error =
     (case (case error of JsObject ps \<Rightarrow> jsmap_get ps ''code'' | _ \<Rightarrow> None) of
        Some (JsNumber c) \<Rightarrow> num_eq c (Fin (- 32000)) \<or> num_eq c (Fin (- 32001)) \<or> num_eq c (Fin (- 32002))
      | _ \<Rightarrow> True)"

definition isRetryableHttpStatus :: "int \<Rightarrow> bool" where
  "isRetryableHttpStatus status \<longleftrightarrow> status = 408 \<or> status = 409 \<or> status = 425 \<or> status = 429 \<or> status \<ge> 500"

section \<open>Configuration\<close>

record SorobanClientConfig =
  sc_rpcUrl :: string
  sc_contractId :: string
  sc_networkPassphrase :: string

record SorobanRpcConfig =
  sr_rpcUrl :: string
  sr_networkPassphrase :: string
  sr_timeoutMs :: "number option"
  sr_maxRetries :: "number option"
  sr_retryJitterMs :: "number option"

record rpc_settings =
  rs_timeoutMs :: int
  rs_maxRetries :: int
  rs_retryJitterMs :: int

definition DEFAULT_RPC_URL :: string where
  "DEFAULT_RPC_URL = ''https://soroban-testnet.stellar.org''"

definition DEFAULT_NETWORK_PASSPHRASE :: string where
  "DEFAULT_NETWORK_PASSPHRASE = ''Test SDF Network ; September 2015''"

definition trimOrDefault :: "string \<Rightarrow> string \<Rightarrow> string" where
  "trimOrDefault value fallback = (let trimmed = js_trim value in if trimmed \<noteq> [] then trimmed else fallback)"

definition positiveIntegerOrDefault :: "number option \<Rightarrow> int \<Rightarrow> int" where
  "positiveIntegerOrDefault value fallback =
     (case value of Some v \<Rightarrow> if num_isSafeInteger v \<and> num_gt v (Fin 0) then num_int v else fallback | None \<Rightarrow> fallback)"

definition nonNegativeIntegerOrDefault :: "number option \<Rightarrow> int \<Rightarrow> int" where
  "nonNegativeIntegerOrDefault value fallback =
     (case value of Some v \<Rightarrow> if num_isSafeInteger v \<and> num_ge v (Fin 0) then num_int v else fallback | None \<Rightarrow> fallback)"

definition normalizeSorobanClientConfig :: "SorobanClientConfig \<Rightarrow> SorobanClientConfig" where
  "normalizeSorobanClientConfig config =
     \<lparr>sc_rpcUrl = trimOrDefault (sc_rpcUrl config) DEFAULT_RPC_URL, sc_contractId = js_trim (sc_contractId config),
      sc_networkPassphrase = trimOrDefault (sc_networkPassphrase config) DEFAULT_NETWORK_PASSPHRASE\<rparr>"

definition resolveSorobanConfig :: "(string \<Rightarrow> string option) \<Rightarrow> SorobanClientConfig" where
  "resolveSorobanConfig env =
     \<lparr>sc_rpcUrl = (case env ''SOROBAN_RPC_URL'' of Some v \<Rightarrow> v | None \<Rightarrow> DEFAULT_RPC_URL),
      sc_contractId = (case env ''CREDIT_CONTRACT_ID'' of Some v \<Rightarrow> v | None \<Rightarrow> []),
      sc_networkPassphrase = (case env ''STELLAR_NETWORK_PASSPHRASE'' of Some v \<Rightarrow> v | None \<Rightarrow> DEFAULT_NETWORK_PASSPHRASE)\<rparr>"

definition parseIntegerEnv :: "string option \<Rightarrow> number \<Rightarrow> number" where
  "parseIntegerEnv value fallback =
     (let parsed = parseInt10 (case value of Some v \<Rightarrow> v | None \<Rightarrow> []) in if num_isFinite parsed then parsed else fallback)"

definition resolveSorobanRpcConfig :: "(string \<Rightarrow> string option) \<Rightarrow> SorobanRpcConfig" where
  "resolveSorobanRpcConfig env =
     \<lparr>sr_rpcUrl = trimOrDefault (case env ''SOROBAN_RPC_URL'' of Some v \<Rightarrow> v | None \<Rightarrow> []) DEFAULT_RPC_URL,
      sr_networkPassphrase = trimOrDefault (case env ''STELLAR_NETWORK_PASSPHRASE'' of Some v \<Rightarrow> v | None \<Rightarrow> []) DEFAULT_NETWORK_PASSPHRASE,
      sr_timeoutMs = Some (parseIntegerEnv (env ''SOROBAN_TIMEOUT_MS'') (Fin 30000)),
      sr_maxRetries = Some (parseIntegerEnv (env ''SOROBAN_MAX_RETRIES'') (Fin 3)),
      sr_retryJitterMs = Some (parseIntegerEnv (env ''SOROBAN_RETRY_JITTER_MS'') (Fin 1000))\<rparr>"

record soroban_client =
  so_config :: SorobanClientConfig
  so_rpc :: rpc_settings

definition StellarSorobanClient_new :: "SorobanClientConfig \<Rightarrow> SorobanRpcConfig \<Rightarrow> soroban_client" where
  "StellarSorobanClient_new config rpcConfig =
     \<lparr>so_config = normalizeSorobanClientConfig config,
      so_rpc = \<lparr>rs_timeoutMs = positiveIntegerOrDefault (sr_timeoutMs rpcConfig) 30000,
                rs_maxRetries = nonNegativeIntegerOrDefault (sr_maxRetries rpcConfig) 3,
                rs_retryJitterMs = nonNegativeIntegerOrDefault (sr_retryJitterMs rpcConfig) 1000\<rparr>\<rparr>"

section \<open>Decoding contract values\<close>

definition readOptionalField :: "js_value \<Rightarrow> string list \<Rightarrow> js_value" where
  "readOptionalField value fieldNames =
     (case value of
        JsMap es \<Rightarrow> (case List.find (\<lambda>(k, _). k \<in> set fieldNames) es of Some (_, v) \<Rightarrow> v | None \<Rightarrow> JsUndefined)
      | JsObject ps \<Rightarrow>
          (case List.find (\<lambda>n. jsmap_has ps n) fieldNames of
             Some n \<Rightarrow> (case jsmap_get ps n of Some v \<Rightarrow> v | None \<Rightarrow> JsUndefined)
           | None \<Rightarrow> JsUndefined)
      | _ \<Rightarrow> JsUndefined)"

definition creditLine_field :: "nat \<Rightarrow> string \<Rightarrow> string" where
  "creditLine_field index field = ''Credit line '' @ digits_of_nat index @ '' field '' @ field"

definition readField :: "js_value \<Rightarrow> string list \<Rightarrow> nat \<Rightarrow> nat \<Rightarrow> js_error + js_value" where
  "readField value fieldNames tupleIndex recordIndex =
     (case value of
        JsArray vs \<Rightarrow>
          if tupleIndex < length vs then Inr (vs ! tupleIndex)
          else Inl (newDecodeError (''Credit line '' @ digits_of_nat recordIndex @ '' is missing '' @ hd fieldNames))
      | _ \<Rightarrow>
          let named = readOptionalField value fieldNames
          in if named \<noteq> JsUndefined then Inr named
             else Inl (newDecodeError (''Credit line '' @ digits_of_nat recordIndex @ '' is missing '' @ hd fieldNames)))"

definition readCreditStatusField :: "js_value \<Rightarrow> nat \<Rightarrow> js_error + js_value" where
  "readCreditStatusField value recordIndex =
     (case value of
        JsArray vs \<Rightarrow>
          let tupleIndex = (if length vs \<ge> 6 then 5 else 4)
          in if tupleIndex < length vs then Inr (vs ! tupleIndex) else readField value [''status''] 4 recordIndex
      | _ \<Rightarrow> readField value [''status''] 4 recordIndex)"

definition readEnumerationTuple :: "js_value \<Rightarrow> nat \<Rightarrow> js_error + js_value \<times> js_value" where
  "readEnumerationTuple entry index =
     (let bad = Inl (newDecodeError (''enumerate_credit_lines entry '' @ digits_of_nat index @ '' must be an id/record tuple''))
      in case entry of
           JsArray vs \<Rightarrow> if length vs \<ge> 2 then Inr (vs ! 0, vs ! 1) else bad
         | _ \<Rightarrow>
             if isRecord entry
             then let cursor = readOptionalField entry [''id'', ''cursor'', ''creditLineId'', ''credit_line_id''];
                      record = readOptionalField entry [''record'', ''line'', ''creditLine'', ''credit_line'']
                  in if cursor \<noteq> JsUndefined \<and> record \<noteq> JsUndefined then Inr (cursor, record) else bad
             else bad)"

definition toNonEmptyString :: "js_value \<Rightarrow> nat \<Rightarrow> string \<Rightarrow> js_error + string" where
  "toNonEmptyString value index field =
     (case value of
        JsString s \<Rightarrow>
          let stringValue = js_trim s
          in if stringValue = [] then Inl (newDecodeError (creditLine_field index field @ '' must be non-empty'')) else Inr stringValue
      | _ \<Rightarrow> Inl (newDecodeError (creditLine_field index field @ '' must be a string'')))"

definition toBorrowerPublicKey :: "(string \<Rightarrow> bool) \<Rightarrow> js_value \<Rightarrow> nat \<Rightarrow> js_error + string" where
  "toBorrowerPublicKey isPublicKey value index =
     (case toNonEmptyString value index ''borrower'' of
        Inl e \<Rightarrow> Inl e
      | Inr walletAddress \<Rightarrow>
          if isPublicKey walletAddress then Inr walletAddress
          else Inl (newDecodeError (''Credit line '' @ digits_of_nat index @ '' borrower must be a valid Stellar public key'')))"

text \<open>\<open>/^-?\d+(?:\.\d+)?$/\<close>: as \<open>decimal_match\<close>, without the plus sign.\<close>

definition decimal_string_match :: "string \<Rightarrow> (bool \<times> string \<times> string) option" where
  "decimal_string_match s = (case s of c # _ \<Rightarrow> if c = CHR ''+'' then None else decimal_match s | [] \<Rightarrow> None)"

definition toPreciseDecimalString :: "js_value \<Rightarrow> nat \<Rightarrow> string \<Rightarrow> js_error + string" where
  "toPreciseDecimalString value index field =
     (case value of
        JsString s \<Rightarrow>
          let trimmed = js_trim s
          in if decimal_string_match trimmed = None then Inl (newDecodeError (creditLine_field index field @ '' was not a decimal string''))
             else Inr trimmed
      | JsBigInt i \<Rightarrow> Inr (show_int i)
      | JsNumber x \<Rightarrow>
          if num_isSafeInteger x then Inr (show_int (num_int x))
          else Inl (newDecodeError (creditLine_field index field @ '' was not a string-precise numeric value''))
      | _ \<Rightarrow> Inl (newDecodeError (creditLine_field index field @ '' was not a string-precise numeric value'')))"

text \<open>\<open>/^-?\d+$/\<close> and the integer it denotes.\<close>

definition integer_string :: "string \<Rightarrow> int option" where
  "integer_string s =
     (case s of
        c # cs \<Rightarrow> if c = CHR ''-'' then (if cs \<noteq> [] \<and> list_all is_digit cs then Some (- int (nat_of_digits cs)) else None)
                    else if list_all is_digit s then Some (int (nat_of_digits s)) else None
      | [] \<Rightarrow> None)"

definition toSafeInteger :: "js_value \<Rightarrow> nat \<Rightarrow> string \<Rightarrow> js_error + int" where
  "toSafeInteger value index field =
     (let parsed =
        (case value of
           JsNumber x \<Rightarrow> if num_isSafeInteger x then Some (num_int x) else None
         | JsBigInt i \<Rightarrow> if i \<le> MAX_SAFE_INTEGER \<and> - MAX_SAFE_INTEGER \<le> i then Some i else None
         | JsString s \<Rightarrow>
             (case integer_string s of
                Some i \<Rightarrow> let asNumber = dround (of_int i) in if num_isSafeInteger asNumber then Some (num_int asNumber) else None
              | None \<Rightarrow> None)
         | _ \<Rightarrow> None)
      in case parsed of Some i \<Rightarrow> Inr i | None \<Rightarrow> Inl (newDecodeError (creditLine_field index field @ '' must be a safe integer'')))"

text \<open>\<open>value.replace(/([a-z0-9])([A-Z])/g, '$1_$2')\<close>: a match takes both letters.\<close>

definition is_lower_or_digit :: "char \<Rightarrow> bool" where
  "is_lower_or_digit c \<longleftrightarrow> is_digit c \<or> 97 \<le> (of_char c :: nat) \<and> (of_char c :: nat) \<le> 122"

definition is_upper :: "char \<Rightarrow> bool" where
  "is_upper c \<longleftrightarrow> 65 \<le> (of_char c :: nat) \<and> (of_char c :: nat) \<le> 90"

fun split_camel :: "string \<Rightarrow> string" where
  "split_camel (c # d # r) = (if is_lower_or_digit c \<and> is_upper d then c # CHR ''_'' # d # split_camel r else c # split_camel (d # r))"
| "split_camel s = s"

text \<open>\<open>replace(/[\s-]+/g, '_')\<close>: every run becomes one underscore.\<close>

fun join_words :: "string \<Rightarrow> string" where
  "join_words [] = []"
| "join_words (c # r) =
     (if is_ws c \<or> c = CHR ''-''
      then (case r of d # _ \<Rightarrow> if is_ws d \<or> d = CHR ''-'' then join_words r else CHR ''_'' # join_words r | [] \<Rightarrow> ''_'')
      else c # join_words r)"

definition normalizeStatusString :: "string \<Rightarrow> string" where
  "normalizeStatusString value = js_toLowerCase (join_words (split_camel value))"

definition contractStatusFromDiscriminant :: "int \<Rightarrow> nat \<Rightarrow> js_error + string" where
  "contractStatusFromDiscriminant value index =
     (case map_of [(0, ''active''), (1, ''suspended''), (2, ''defaulted''), (3, ''closed''), (4, ''restricted'')] value of
        Some status \<Rightarrow> Inr status
      | None \<Rightarrow> Inl (newDecodeError (''Credit line '' @ digits_of_nat index @ '' status '' @ show_int value @ '' is not a recognized contract status'')))"

definition normalizeCreditStatus :: "js_value \<Rightarrow> nat \<Rightarrow> js_error + string" where
  "normalizeCreditStatus value index =
     (let other = (case toNonEmptyString value index ''status'' of Inl e \<Rightarrow> Inl e | Inr s \<Rightarrow> Inr (normalizeStatusString s))
      in case value of
           JsNumber x \<Rightarrow> if num_isSafeInteger x then contractStatusFromDiscriminant (num_int x) index else other
         | JsBigInt i \<Rightarrow>
             if i < 0 \<or> i > MAX_SAFE_INTEGER
             then Inl (newDecodeError (''Credit line '' @ digits_of_nat index @ '' status '' @ show_int i @ '' is not a recognized contract status''))
             else contractStatusFromDiscriminant i index
         | JsObject ps \<Rightarrow> (case jsmap_get ps ''tag'' of Some (JsString t) \<Rightarrow> Inr (normalizeStatusString t) | _ \<Rightarrow> other)
         | _ \<Rightarrow> other)"

text \<open>Exact decimal subtraction with \<open>BigInt\<close>.\<close>

definition parseDecimal :: "string \<Rightarrow> js_error + int \<times> nat" where
  "parseDecimal value =
     (case decimal_string_match value of
        None \<Rightarrow> Inl (newDecodeError (''Cannot subtract non-decimal value '' @ value))
      | Some (negative, whole, frc) \<Rightarrow>
          let magnitude = int (nat_of_digits (whole @ frc)) in Inr (if negative then - magnitude else magnitude, length frc))"

definition subtractDecimalStrings :: "string \<Rightarrow> string \<Rightarrow> js_error + string" where
  "subtractDecimalStrings left right =
     ebind (parseDecimal left) (\<lambda>(lv, ls). ebind (parseDecimal right) (\<lambda>(rv, rs).
      let scale = max ls rs;
          difference = lv * 10 ^ (scale - ls) - rv * 10 ^ (scale - rs);
          negative = difference < 0;
          magnitude = (if negative then - difference else difference);
          raw = js_padStart (scale + 1) (CHR ''0'') (digits_of_nat (nat magnitude));
          sign = (if negative then ''-'' else [])
      in if scale = 0 then Inr (sign @ raw)
         else Inr (sign @ take (length raw - scale) raw @ ''.'' @ drop (length raw - scale) raw)))"

record credit_line_data =
  cd_walletAddress :: string
  cd_creditLimit :: string
  cd_utilizedAmount :: string
  cd_interestRateBps :: int
  cd_status :: string

definition parseCreditLineData :: "(string \<Rightarrow> bool) \<Rightarrow> js_value \<Rightarrow> nat \<Rightarrow> js_error + credit_line_data" where
  "parseCreditLineData isPublicKey value index =
     (ebind (readField value [''borrower'', ''walletAddress'', ''wallet_address''] 0 index) (\<lambda>v0.
      ebind (toBorrowerPublicKey isPublicKey v0 index) (\<lambda>walletAddress.
      ebind (readField value [''credit_limit'', ''creditLimit'', ''limit''] 1 index) (\<lambda>v1.
      ebind (toPreciseDecimalString v1 index ''creditLimit'') (\<lambda>creditLimit.
      ebind (readField value [''utilized_amount'', ''utilizedAmount'', ''utilized''] 2 index) (\<lambda>v2.
      ebind (toPreciseDecimalString v2 index ''utilizedAmount'') (\<lambda>utilizedAmount.
      ebind (readField value [''interest_rate_bps'', ''interestRateBps'', ''interestRate''] 3 index) (\<lambda>v3.
      ebind (toSafeInteger v3 index ''interestRateBps'') (\<lambda>interestRateBps.
      ebind (readCreditStatusField value index) (\<lambda>v4.
      ebind (normalizeCreditStatus v4 index) (\<lambda>status.
      Inr \<lparr>cd_walletAddress = walletAddress, cd_creditLimit = creditLimit, cd_utilizedAmount = utilizedAmount,
           cd_interestRateBps = interestRateBps, cd_status = status\<rparr>)))))))))))"

record EnumeratedCreditRecord = OnChainCreditRecord +
  er_cursor :: int

definition parseEnumeratedEntry :: "(string \<Rightarrow> bool) \<Rightarrow> js_value \<Rightarrow> nat \<Rightarrow> js_error + EnumeratedCreditRecord" where
  "parseEnumeratedEntry isPublicKey entry index =
     (ebind (readEnumerationTuple entry index) (\<lambda>(v0, v1).
      ebind (toSafeInteger v0 index ''cursor'') (\<lambda>cursor.
      ebind (parseCreditLineData isPublicKey v1 index) (\<lambda>rec.
      ebind (subtractDecimalStrings (cd_creditLimit rec) (cd_utilizedAmount rec)) (\<lambda>available.
      Inr \<lparr>oc_id = show_int cursor, oc_walletAddress = cd_walletAddress rec, oc_creditLimit = cd_creditLimit rec,
           oc_availableCredit = available, oc_interestRateBps = num_of_int (cd_interestRateBps rec), oc_status = cd_status rec,
           er_cursor = cursor\<rparr>)))))"

text \<open>\<open>decodeXdr\<close> yields the native value or the error that \<open>fromXDR\<close> or \<open>scValToNative\<close> throws.\<close>

definition parseEnumeratedCreditLineEntriesScVal ::
  "(string \<Rightarrow> bool) \<Rightarrow> (string \<Rightarrow> js_error + js_value) \<Rightarrow> string \<Rightarrow> js_error + EnumeratedCreditRecord list" where
  "parseEnumeratedCreditLineEntriesScVal isPublicKey decodeXdr scVal =
     (case decodeXdr scVal of
        Inl e \<Rightarrow> Inl (newDecodeError (''Could not decode enumerate_credit_lines ScVal: '' @ sanitizeStellarDiagnostic (DiagError e)))
      | Inr (JsArray entries) \<Rightarrow> emap (\<lambda>(index, entry). parseEnumeratedEntry isPublicKey entry index) (List.enumerate 0 entries)
      | Inr _ \<Rightarrow> Inl (newDecodeError ''enumerate_credit_lines result must be an array''))"

fun assertUniqueBorrowers_loop :: "EnumeratedCreditRecord list \<Rightarrow> string list \<Rightarrow> js_error + unit" where
  "assertUniqueBorrowers_loop [] seen = Inr ()"
| "assertUniqueBorrowers_loop (rec # records) seen =
     (if oc_walletAddress rec \<in> set seen
      then Inl (newDecodeError (''Duplicate borrower '' @ oc_walletAddress rec @ '' in Soroban enumeration''))
      else assertUniqueBorrowers_loop records (jsset_add (oc_walletAddress rec) seen))"

definition assertUniqueBorrowers :: "EnumeratedCreditRecord list \<Rightarrow> js_error + unit" where
  "assertUniqueBorrowers records = assertUniqueBorrowers_loop records []"

definition withoutCursor :: "EnumeratedCreditRecord \<Rightarrow> OnChainCreditRecord" where
  "withoutCursor r = \<lparr>oc_id = oc_id r, oc_walletAddress = oc_walletAddress r, oc_creditLimit = oc_creditLimit r,
     oc_availableCredit = oc_availableCredit r, oc_interestRateBps = oc_interestRateBps r, oc_status = oc_status r\<rparr>"

definition parseEnumeratedCreditLinesScVal ::
  "(string \<Rightarrow> bool) \<Rightarrow> (string \<Rightarrow> js_error + js_value) \<Rightarrow> string \<Rightarrow> js_error + OnChainCreditRecord list" where
  "parseEnumeratedCreditLinesScVal isPublicKey decodeXdr scVal =
     (case parseEnumeratedCreditLineEntriesScVal isPublicKey decodeXdr scVal of
        Inl e \<Rightarrow> Inl e
      | Inr records \<Rightarrow> (case assertUniqueBorrowers records of Inl e \<Rightarrow> Inl e | Inr _ \<Rightarrow> Inr (map withoutCursor records)))"

section \<open>The RPC exchange\<close>

definition xdr_string :: "js_value \<Rightarrow> string option" where
  "xdr_string v = (case v of JsString s \<Rightarrow> Some s | _ \<Rightarrow> None)"

definition extractSimulationReturnValue :: "js_value \<Rightarrow> js_error + string" where
  "extractSimulationReturnValue simulation =
     (let direct = readOptionalField simulation [''retval'', ''returnValue'', ''xdr''];
          nested = readOptionalField (readOptionalField simulation [''result'']) [''retval'', ''returnValue'', ''xdr''];
          fromResults = (case readOptionalField simulation [''results''] of
                           JsArray (firstResult # _) \<Rightarrow> readOptionalField firstResult [''xdr'', ''retval'']
                         | _ \<Rightarrow> JsUndefined)
      in case xdr_string direct of Some s \<Rightarrow> Inr s | None \<Rightarrow>
         (case xdr_string nested of Some s \<Rightarrow> Inr s | None \<Rightarrow>
         (case xdr_string fromResults of Some s \<Rightarrow> Inr s | None \<Rightarrow>
            Inl (newDecodeError ''Soroban simulation did not return enumerate_credit_lines XDR''))))"

text \<open>One HTTP exchange: a response with its status, status text and body, or what \<open>fetch\<close> or \<open>text()\<close> throws; and whether the timer had aborted the
  request when its failure is handled.\<close>

datatype rpc_reply = RpcResponse int string string | RpcThrows thrown

record rpc_exchange =
  rx_reply :: rpc_reply
  rx_aborted :: bool

definition rpc_body :: "string \<Rightarrow> (string \<times> json) list \<Rightarrow> string" where
  "rpc_body method params = json_stringify (JObj [(''jsonrpc'', JStr ''2.0''), (''id'', JNum (Fin 1)), (''method'', JStr method), (''params'', JObj params)])"

text \<open>Reading \<open>payload.error\<close> and testing for an own \<open>result\<close>: on \<open>null\<close> the read throws a \<open>TypeError\<close>; on a payload that is no object
  both find nothing. The error text of a malformed body comes from \<open>JSON.parse\<close>.\<close>

definition rpc_payload :: "(string \<Rightarrow> string) \<Rightarrow> string \<Rightarrow> string \<Rightarrow> js_error + js_value" where
  "rpc_payload syntaxError method responseBody =
     (case JSON_parse responseBody of
        None \<Rightarrow> Inl (newFetchError (''Soroban RPC '' @ method @ '' returned malformed JSON: '' @
                   sanitizeStellarDiagnostic (DiagString (syntaxError responseBody))) False)
      | Some JNull \<Rightarrow> Inl (toSorobanError (ThrownError ''TypeError'' None ''Cannot read properties of null (reading 'error')''))
      | Some payload \<Rightarrow>
          (let fields = (case payload of JObj ps \<Rightarrow> ps | _ \<Rightarrow> [])
           in case jsmap_get fields ''error'' of
                Some err \<Rightarrow> Inl (newFetchError (''Soroban RPC '' @ method @ '' failed: '' @
                   sanitizeStellarDiagnostic (case err of JStr s \<Rightarrow> DiagString s | _ \<Rightarrow> DiagJson err)) (isRetryableJsonRpcError (of_json err)))
              | None \<Rightarrow>
                  (case jsmap_get fields ''result'' of
                     None \<Rightarrow> Inl (newFetchError (''Soroban RPC '' @ method @ '' response missing result'') False)
                   | Some r \<Rightarrow> Inr (of_json r))))"

definition postJsonRpc :: "(string \<Rightarrow> string) \<Rightarrow> rpc_settings \<Rightarrow> string \<Rightarrow> rpc_exchange \<Rightarrow> js_error + js_value" where
  "postJsonRpc syntaxError rpc method x =
     (let result =
        (case rx_reply x of
           RpcThrows t \<Rightarrow> Inl (toSorobanError t)
         | RpcResponse status statusText responseBody \<Rightarrow>
             if \<not> (200 \<le> status \<and> status \<le> 299)
             then Inl (newFetchError (''Soroban RPC HTTP '' @ show_int status @ '' '' @ statusText @ '': '' @ responseBody) (isRetryableHttpStatus status))
             else rpc_payload syntaxError method responseBody)
      in case result of
           Inr v \<Rightarrow> Inr v
         | Inl e \<Rightarrow>
             if rx_aborted x then Inl (newFetchError (''Soroban RPC timed out after '' @ show_int (rs_timeoutMs rpc) @ ''ms'') True) else Inl e)"

text \<open>The client's surroundings: how many requests have been made, and the delays slept before retries.\<close>

record rpc_world =
  rw_requests :: nat
  rw_sleeps :: "number list"

definition calculateRetryDelayMs :: "nat \<Rightarrow> int \<Rightarrow> number \<Rightarrow> number" where
  "calculateRetryDelayMs attempt retryJitterMs random =
     num_add (num_of_int (1000 * 2 ^ min attempt 10)) (num_floor (num_mul random (num_of_int retryJitterMs)))"

text \<open>An error ends the retries at once unless it is a retryable fetch error.\<close>

definition gives_up :: "js_error \<Rightarrow> bool" where
  "gives_up e \<longleftrightarrow> (case e of SorobanCreditRecordFetchError _ retryable \<Rightarrow> \<not> retryable | _ \<Rightarrow> True)"

text \<open>The loop of \<open>withRetry\<close> with \<open>left\<close> retries still allowed after attempt number \<open>attempt\<close>. The operation's errors are the client's own:
  \<open>postJsonRpc\<close>, the transaction builder and the extraction only throw those.\<close>

fun withRetry_loop ::
  "int \<Rightarrow> (nat \<Rightarrow> number) \<Rightarrow> (rpc_world \<Rightarrow> (js_error + 'a) \<times> rpc_world) \<Rightarrow> nat \<Rightarrow> nat \<Rightarrow> rpc_world \<Rightarrow> (js_error + 'a) \<times> rpc_world" where
  "withRetry_loop jitter random operation attempt left w =
     (case operation w of
        (Inr v, w') \<Rightarrow> (Inr v, w')
      | (Inl e, w') \<Rightarrow>
          if gives_up e then (Inl e, w')
          else (case left of
                  0 \<Rightarrow> (Inl e, w')
                | Suc n \<Rightarrow> withRetry_loop jitter random operation (attempt + 1) n
                    (w'\<lparr>rw_sleeps := rw_sleeps w' @ [calculateRetryDelayMs attempt jitter (random (length (rw_sleeps w')))]\<rparr>)))"

declare withRetry_loop.simps [simp del]

definition withRetry :: "rpc_settings \<Rightarrow> (nat \<Rightarrow> number) \<Rightarrow> (rpc_world \<Rightarrow> (js_error + 'a) \<times> rpc_world) \<Rightarrow> rpc_world \<Rightarrow> (js_error + 'a) \<times> rpc_world" where
  "withRetry rpc random operation w = withRetry_loop (rs_retryJitterMs rpc) random operation 0 (nat (rs_maxRetries rpc)) w"

text \<open>What the client is given from outside.\<close>

record soroban_env =
  se_isContract :: "string \<Rightarrow> bool"
  se_isPublicKey :: "string \<Rightarrow> bool"
  se_decodeXdr :: "string \<Rightarrow> js_error + js_value"
  se_buildTx :: "SorobanClientConfig \<Rightarrow> number \<Rightarrow> int option \<Rightarrow> thrown + string"
  se_fetchImpl :: "nat \<Rightarrow> string \<Rightarrow> string \<Rightarrow> rpc_exchange"
  se_random :: "nat \<Rightarrow> number"
  se_syntaxError :: "string \<Rightarrow> string"

definition simulate_once :: "soroban_env \<Rightarrow> soroban_client \<Rightarrow> int option \<Rightarrow> rpc_world \<Rightarrow> (js_error + string) \<times> rpc_world" where
  "simulate_once env c startAfter w =
     (case se_buildTx env (so_config c) (num_max (Fin 1) (num_ceil (num_div (num_of_int (rs_timeoutMs (so_rpc c))) (Fin 1000)))) startAfter of
        Inl t \<Rightarrow> (Inl (toSorobanError t), w)
      | Inr tx \<Rightarrow>
          (ebind (postJsonRpc (se_syntaxError env) (so_rpc c) ''simulateTransaction''
                    (se_fetchImpl env (rw_requests w) (sc_rpcUrl (so_config c)) (rpc_body ''simulateTransaction'' [(''transaction'', JStr tx)])))
             extractSimulationReturnValue,
           w\<lparr>rw_requests := rw_requests w + 1\<rparr>))"

definition fetchCreditRecordPage ::
  "soroban_env \<Rightarrow> soroban_client \<Rightarrow> int option \<Rightarrow> rpc_world \<Rightarrow> (js_error + EnumeratedCreditRecord list) \<times> rpc_world" where
  "fetchCreditRecordPage env c startAfter w =
     (case withRetry (so_rpc c) (se_random env) (simulate_once env c startAfter) w of
        (r, w') \<Rightarrow> (ebind r (parseEnumeratedCreditLineEntriesScVal (se_isPublicKey env) (se_decodeXdr env)), w'))"

section \<open>Paged enumeration\<close>

text \<open>The \<open>for\<close> loop. A page that continues the loop has at least \<open>ENUMERATION_PAGE_LIMIT\<close> records, so its last cursor is never \<open>undefined\<close>.\<close>

function enumerate_pages ::
  "(int option \<Rightarrow> 'w \<Rightarrow> (js_error + EnumeratedCreditRecord list) \<times> 'w) \<Rightarrow> EnumeratedCreditRecord list \<Rightarrow> int option \<Rightarrow> 'w \<Rightarrow>
     (js_error + EnumeratedCreditRecord list) \<times> 'w" where
  "enumerate_pages fetchPage records startAfter w =
     (case fetchPage startAfter w of
        (Inl e, w') \<Rightarrow> (Inl e, w')
      | (Inr page, w') \<Rightarrow>
          if length (records @ page) > 10000 then (Inl (newDecodeError ''Soroban enumeration exceeded 10000 credit records''), w')
          else if length page < 100 then (Inr (records @ page), w')
          else if (case startAfter of Some s \<Rightarrow> er_cursor (last page) \<le> s | None \<Rightarrow> False)
            then (Inl (newDecodeError ''Soroban enumeration cursor did not advance''), w')
          else enumerate_pages fetchPage (records @ page) (Some (er_cursor (last page))) w')"
  by pat_completeness auto
termination
  by (relation "measure (\<lambda>(_, records, _, _). 10001 - length records)") auto

declare enumerate_pages.simps [simp del]

definition fetchAllCreditRecords :: "soroban_env \<Rightarrow> soroban_client \<Rightarrow> rpc_world \<Rightarrow> (js_error + OnChainCreditRecord list) \<times> rpc_world" where
  "fetchAllCreditRecords env c w =
     (if sc_contractId (so_config c) = [] then (Inr [], w)
      else if \<not> se_isContract env (sc_contractId (so_config c))
        then (Inl (newFetchError ''Invalid CREDIT_CONTRACT_ID; expected a C... contract id'' False), w)
      else (case enumerate_pages (fetchCreditRecordPage env c) [] None w of
              (Inl e, w') \<Rightarrow> (Inl e, w')
            | (Inr records, w') \<Rightarrow> (ebind (assertUniqueBorrowers records) (\<lambda>_. Inr (map withoutCursor records)), w')))"

text \<open>\<open>createSorobanClient\<close> picks the mock when there is no contract identifier; the mock returns no records.\<close>

definition createSorobanClient ::
  "soroban_env \<Rightarrow> SorobanClientConfig \<Rightarrow> SorobanRpcConfig \<Rightarrow> rpc_world \<Rightarrow> (js_error + OnChainCreditRecord list) \<times> rpc_world" where
  "createSorobanClient env config rpcConfig =
     (let normalizedConfig = normalizeSorobanClientConfig config
      in if sc_contractId normalizedConfig = [] then (\<lambda>w. (Inr [], w))
         else fetchAllCreditRecords env (StellarSorobanClient_new normalizedConfig rpcConfig))"

section \<open>What a decoded record says\<close>

lemma decimal_string_value:
  assumes "decimal_string_match s = Some (neg, whole, frc)" "js_trim s = s"
  shows "decimal_value s = Some ((if neg then - 1 else 1) * of_nat (nat_of_digits (whole @ frc)) / 10 ^ length frc)"
  using assms by (auto simp: decimal_string_match_def decimal_value_def split: list.splits if_splits)

lemma parseDecimal_exact:
  assumes "parseDecimal s = Inr (v, k)" "js_trim s = s"
  shows "decimal_value s = Some (of_int v / 10 ^ k)"
  using assms decimal_string_value [of s] by (auto simp: parseDecimal_def Let_def split: option.splits)

lemma scaled_difference:
  fixes lv rv :: int
  shows "(of_int (lv * 10 ^ (max ls rs - ls) - rv * 10 ^ (max ls rs - rs)) :: rat) / 10 ^ max ls rs = of_int lv / 10 ^ ls - of_int rv / 10 ^ rs"
proof -
  have scale: "(of_int (v * 10 ^ (m - k)) :: rat) / 10 ^ m = of_int v / 10 ^ k" if "k \<le> m" for v :: int and k m
  proof -
    have "(10 :: rat) ^ m = 10 ^ (m - k) * 10 ^ k" using that by (metis le_add_diff_inverse2 power_add)
    then show ?thesis by simp
  qed
  have "(of_int (lv * 10 ^ (max ls rs - ls) - rv * 10 ^ (max ls rs - rs)) :: rat) / 10 ^ max ls rs =
      of_int (lv * 10 ^ (max ls rs - ls)) / 10 ^ max ls rs - of_int (rv * 10 ^ (max ls rs - rs)) / 10 ^ max ls rs"
    by (simp only: of_int_diff diff_divide_distrib)
  also have "\<dots> = of_int lv / 10 ^ ls - of_int rv / 10 ^ rs" using scale [of ls "max ls rs" lv] scale [of rs "max ls rs" rv] by simp
  finally show ?thesis .
qed

lemma subtractDecimalStrings_exact:
  assumes "subtractDecimalStrings l r = Inr d" "js_trim l = l" "js_trim r = r"
  shows "\<exists>x y. decimal_value l = Some x \<and> decimal_value r = Some y \<and> decimal_value d = Some (x - y)"
proof -
  obtain lv ls rv rs where p: "parseDecimal l = Inr (lv, ls)" "parseDecimal r = Inr (rv, rs)"
    using assms(1) by (auto simp: subtractDecimalStrings_def ebind_Inr_iff)
  define k where "k = max ls rs"
  define b where "b = lv * 10 ^ (k - ls) - rv * 10 ^ (k - rs)"
  define ds where "ds = js_padStart (k + 1) (CHR ''0'') (digits_of_nat (nat \<bar>b\<bar>))"
  define w f sign where "w = take (length ds - k) ds" and "f = drop (length ds - k) ds" and "sign = (if b < 0 then ''-'' else [])"
  have len: "length f = k" using pad_digits(2) [of k "nat \<bar>b\<bar>", folded ds_def] by (simp add: f_def)
  have mag: "(if b < 0 then - b else b) = \<bar>b\<bar>" by simp
  have "(if k = 0 then Inr (sign @ ds) else Inr (sign @ w @ ''.'' @ f)) = (Inr d :: js_error + string)"
    using assms(1) unfolding subtractDecimalStrings_def p ebind_simps prod.case Let_def
      k_def [symmetric] b_def [symmetric] mag ds_def [symmetric] w_def [symmetric] f_def [symmetric] sign_def [symmetric] .
  moreover have "k = 0 \<Longrightarrow> w = ds \<and> f = []" by (simp add: w_def f_def)
  moreover have "k \<noteq> 0 \<Longrightarrow> f \<noteq> []" using len by auto
  ultimately have "d = sign @ w @ (if f \<noteq> [] then ''.'' @ f else [])" by (cases "k = 0") auto
  then have "decimal_value d = Some (of_int b / 10 ^ k)"
    using fixed_point_value(2) [where big = b and d = k] by (simp only: ds_def w_def f_def sign_def)
  moreover have "(of_int b / 10 ^ k :: rat) = of_int lv / 10 ^ ls - of_int rv / 10 ^ rs" unfolding b_def k_def by (rule scaled_difference)
  ultimately show ?thesis using parseDecimal_exact [OF p(1) assms(2)] parseDecimal_exact [OF p(2) assms(3)] by simp
qed

text \<open>The number a contract value denotes.\<close>

definition numeric_value :: "js_value \<Rightarrow> rat option" where
  "numeric_value v =
     (case v of JsString s \<Rightarrow> decimal_value s | JsBigInt i \<Rightarrow> Some (of_int i) | JsNumber (Fin q) \<Rightarrow> Some q | _ \<Rightarrow> None)"

lemma safeInteger_cases:
  assumes "num_isSafeInteger x"
  obtains i where "x = num_of_int i" "\<bar>i\<bar> \<le> MAX_SAFE_INTEGER" "num_int x = i"
proof (cases x)
  case (Fin q)
  then have "x = num_of_int \<lfloor>q\<rfloor>" "\<bar>\<lfloor>q\<rfloor>\<bar> \<le> MAX_SAFE_INTEGER" using assms by (auto simp: num_isSafeInteger_def)
  then show thesis by (intro that [of "\<lfloor>q\<rfloor>"]) simp_all
qed (use assms in \<open>simp_all add: num_isSafeInteger_def\<close>)

lemma toPreciseDecimalString_value:
  assumes "toPreciseDecimalString v index field = Inr s"
  shows "js_trim s = s" "decimal_value s = numeric_value v" "decimal_string_match s \<noteq> None"
proof -
  have shown: "js_trim (show_int i) = show_int i" "decimal_string_match (show_int i) \<noteq> None" for i
  proof -
    have d: "\<forall>c \<in> set (show_int i). is_digit c \<or> c = CHR ''.'' \<or> c = CHR ''-''" using digits_of_nat_digits by (auto simp: show_int_def)
    show t: "js_trim (show_int i) = show_int i" by (rule digits_no_trim [OF d])
    have "decimal_match (js_trim (show_int i)) \<noteq> None" using show_int_value [of i] by (auto simp: decimal_value_def split: option.splits)
    moreover have "\<not> is_digit (CHR ''+'')" by (simp add: is_digit_def)
    ultimately show "decimal_string_match (show_int i) \<noteq> None" using d t by (auto simp: decimal_string_match_def decimal_match_def split: list.splits)
  qed
  have trimmed: "decimal_value (js_trim t) = decimal_value t" for t by (simp add: decimal_value_def)
  consider (str) t where "v = JsString t" "s = js_trim t" "decimal_string_match s \<noteq> None"
    | (big) i where "v = JsBigInt i" "s = show_int i"
    | (num) x where "v = JsNumber x" "num_isSafeInteger x" "s = show_int (num_int x)"
    using assms by (cases v) (auto simp: toPreciseDecimalString_def Let_def split: if_splits)
  then show "js_trim s = s" "decimal_value s = numeric_value v" "decimal_string_match s \<noteq> None"
    by (cases; auto simp: shown numeric_value_def trimmed show_int_value elim!: safeInteger_cases)+
qed

lemma toSafeInteger_safe:
  assumes "toSafeInteger v index field = Inr i"
  shows "\<bar>i\<bar> \<le> MAX_SAFE_INTEGER" "v = JsBigInt j \<Longrightarrow> i = j" "v = JsNumber x \<Longrightarrow> x = num_of_int i"
  using assms
  by (auto simp: toSafeInteger_def Let_def split: js_value.splits if_splits option.splits elim!: safeInteger_cases)

lemma parseCreditLineData_ok:
  assumes "parseCreditLineData isPublicKey value index = Inr d"
  shows "isPublicKey (cd_walletAddress d)" "js_trim (cd_walletAddress d) = cd_walletAddress d" "cd_walletAddress d \<noteq> []"
    "\<bar>cd_interestRateBps d\<bar> \<le> MAX_SAFE_INTEGER"
    "\<exists>v. readField value [''credit_limit'', ''creditLimit'', ''limit''] 1 index = Inr v \<and> toPreciseDecimalString v index ''creditLimit'' = Inr (cd_creditLimit d)"
    "\<exists>v. readField value [''utilized_amount'', ''utilizedAmount'', ''utilized''] 2 index = Inr v \<and> toPreciseDecimalString v index ''utilizedAmount'' = Inr (cd_utilizedAmount d)"
proof -
  obtain v0 v3 where w: "toBorrowerPublicKey isPublicKey v0 index = Inr (cd_walletAddress d)"
    and i: "toSafeInteger v3 index ''interestRateBps'' = Inr (cd_interestRateBps d)"
    using assms by (auto simp: parseCreditLineData_def ebind_Inr_iff)
  show "isPublicKey (cd_walletAddress d)" "js_trim (cd_walletAddress d) = cd_walletAddress d" "cd_walletAddress d \<noteq> []"
    using w js_trim_idem by (auto simp: toBorrowerPublicKey_def toNonEmptyString_def Let_def split: sum.splits if_splits js_value.splits) (metis js_trim_idem)+
  show "\<bar>cd_interestRateBps d\<bar> \<le> MAX_SAFE_INTEGER" by (rule toSafeInteger_safe(1) [OF i])
qed (use assms in \<open>auto simp: parseCreditLineData_def ebind_Inr_iff\<close>)

lemma decoded_record:
  assumes "parseEnumeratedEntry isPublicKey entry index = Inr r"
  shows "\<exists>cur rec lim util x y i. readEnumerationTuple entry index = Inr (cur, rec) \<and>
     readField rec [''credit_limit'', ''creditLimit'', ''limit''] 1 index = Inr lim \<and> numeric_value lim = Some x \<and>
     readField rec [''utilized_amount'', ''utilizedAmount'', ''utilized''] 2 index = Inr util \<and> numeric_value util = Some y \<and>
     decimal_value (oc_creditLimit r) = Some x \<and> decimal_value (oc_availableCredit r) = Some (x - y) \<and>
     \<bar>er_cursor r\<bar> \<le> MAX_SAFE_INTEGER \<and> oc_id r = show_int (er_cursor r) \<and>
     isPublicKey (oc_walletAddress r) \<and> js_trim (oc_walletAddress r) = oc_walletAddress r \<and> oc_walletAddress r \<noteq> [] \<and>
     oc_interestRateBps r = num_of_int i \<and> \<bar>i\<bar> \<le> MAX_SAFE_INTEGER"
proof -
  obtain cur rec d where e: "readEnumerationTuple entry index = Inr (cur, rec)" "toSafeInteger cur index ''cursor'' = Inr (er_cursor r)"
    "parseCreditLineData isPublicKey rec index = Inr d" "subtractDecimalStrings (cd_creditLimit d) (cd_utilizedAmount d) = Inr (oc_availableCredit r)"
    and r: "oc_id r = show_int (er_cursor r)" "oc_walletAddress r = cd_walletAddress d" "oc_creditLimit r = cd_creditLimit d"
    "oc_interestRateBps r = num_of_int (cd_interestRateBps d)"
    using assms by (auto simp: parseEnumeratedEntry_def ebind_Inr_iff)
  note d = parseCreditLineData_ok [OF e(3)]
  obtain lim util where l: "readField rec [''credit_limit'', ''creditLimit'', ''limit''] 1 index = Inr lim"
      "toPreciseDecimalString lim index ''creditLimit'' = Inr (cd_creditLimit d)"
    and u: "readField rec [''utilized_amount'', ''utilizedAmount'', ''utilized''] 2 index = Inr util"
      "toPreciseDecimalString util index ''utilizedAmount'' = Inr (cd_utilizedAmount d)" using d(5,6) by blast
  note L = toPreciseDecimalString_value [OF l(2)] and U = toPreciseDecimalString_value [OF u(2)]
  obtain x y where "numeric_value lim = Some x" "numeric_value util = Some y" "decimal_value (oc_availableCredit r) = Some (x - y)"
    using subtractDecimalStrings_exact [OF e(4) L(1) U(1)] L(2) U(2) by auto
  then show ?thesis using e(1) l(1) u(1) L(2) d(1-4) toSafeInteger_safe(1) [OF e(2)] r by auto
qed

text \<open>
  C22. Decoded contract entries are well typed: the cursor is a safe integer and the identifier its decimal form; the wallet is a trimmed, valid public key;
  the rate is a safe integer; limit and available credit are decimal strings, the limit denotes exactly the number the contract stores, and the available
  credit exactly that number minus the utilized amount the contract stores, whatever the mixture of strings, numbers and big integers and their scales.
\<close>

theorem decoded_record_well_typed:
  assumes "parseEnumeratedEntry isPublicKey entry index = Inr r"
  shows "\<exists>cur rec lim util x y i. readEnumerationTuple entry index = Inr (cur, rec) \<and>
     readField rec [''credit_limit'', ''creditLimit'', ''limit''] 1 index = Inr lim \<and> numeric_value lim = Some x \<and>
     readField rec [''utilized_amount'', ''utilizedAmount'', ''utilized''] 2 index = Inr util \<and> numeric_value util = Some y \<and>
     decimal_value (oc_creditLimit r) = Some x \<and> decimal_value (oc_availableCredit r) = Some (x - y) \<and>
     \<bar>er_cursor r\<bar> \<le> MAX_SAFE_INTEGER \<and> oc_id r = show_int (er_cursor r) \<and>
     isPublicKey (oc_walletAddress r) \<and> js_trim (oc_walletAddress r) = oc_walletAddress r \<and> oc_walletAddress r \<noteq> [] \<and>
     oc_interestRateBps r = num_of_int i \<and> \<bar>i\<bar> \<le> MAX_SAFE_INTEGER"
  by (rule decoded_record [OF assms])

section \<open>Retries\<close>

definition retryable :: "js_error + 'a \<Rightarrow> bool" where
  "retryable r \<longleftrightarrow> (case r of Inl e \<Rightarrow> \<not> gives_up e | Inr _ \<Rightarrow> False)"

text \<open>An operation that makes one request and answers by its number is tried until an answer is final or no retry is left.\<close>

lemma withRetry_loop_outcome:
  assumes op: "\<And>w. operation w = (answer (rw_requests w), w\<lparr>rw_requests := rw_requests w + 1\<rparr>)"
  shows "\<exists>k \<le> left. (\<forall>j < k. retryable (answer (rw_requests w + j))) \<and> (k = left \<or> \<not> retryable (answer (rw_requests w + k))) \<and>
     withRetry_loop jitter random operation attempt left w =
       (answer (rw_requests w + k), w\<lparr>rw_requests := rw_requests w + k + 1,
          rw_sleeps := rw_sleeps w @ map (\<lambda>j. calculateRetryDelayMs (attempt + j) jitter (random (length (rw_sleeps w) + j))) [0..<k]\<rparr>)"
proof (induction left arbitrary: attempt w)
  case 0
  show ?case by (simp add: withRetry_loop.simps op split: sum.splits)
next
  case (Suc n)
  show ?case
  proof (cases "retryable (answer (rw_requests w))")
    case False
    have "withRetry_loop jitter random operation attempt (Suc n) w = (answer (rw_requests w), w\<lparr>rw_requests := rw_requests w + 1\<rparr>)"
      by (subst withRetry_loop.simps) (use False in \<open>auto simp: op retryable_def split: sum.splits\<close>)
    then show ?thesis by (intro exI [of _ 0]) (simp add: False)
  next
    case True
    then obtain e where e: "answer (rw_requests w) = Inl e" "\<not> gives_up e" by (auto simp: retryable_def split: sum.splits)
    let ?d = "calculateRetryDelayMs attempt jitter (random (length (rw_sleeps w)))"
    let ?w = "w\<lparr>rw_requests := rw_requests w + 1, rw_sleeps := rw_sleeps w @ [?d]\<rparr>"
    have step: "withRetry_loop jitter random operation attempt (Suc n) w = withRetry_loop jitter random operation (attempt + 1) n ?w"
      by (subst withRetry_loop.simps) (simp add: op e)
    from Suc.IH [of ?w "attempt + 1"] obtain k where k: "k \<le> n" "\<forall>j < k. retryable (answer (rw_requests w + 1 + j))"
      "k = n \<or> \<not> retryable (answer (rw_requests w + 1 + k))"
      "withRetry_loop jitter random operation (attempt + 1) n ?w = (answer (rw_requests w + 1 + k), ?w\<lparr>rw_requests := rw_requests w + 1 + k + 1,
          rw_sleeps := (rw_sleeps w @ [?d]) @ map (\<lambda>j. calculateRetryDelayMs (attempt + 1 + j) jitter (random (length (rw_sleeps w @ [?d]) + j))) [0..<k]\<rparr>)"
      by auto
    have "\<forall>j < Suc k. retryable (answer (rw_requests w + j))"
    proof (intro allI impI)
      fix j assume "j < Suc k"
      then show "retryable (answer (rw_requests w + j))" using True k(2) by (cases j) auto
    qed
    moreover have "map f [0..<Suc k] = f 0 # map (\<lambda>j. f (Suc j)) [0..<k]" for f :: "nat \<Rightarrow> number" by (simp only: upt_conv_Cons zero_less_Suc list.map map_Suc_upt [symmetric] map_map o_def)
    ultimately show ?thesis using k(1,3,4) by (intro exI [of _ "Suc k"]) (simp add: step del: upt_Suc)
  qed
qed

text \<open>The \<open>n\<close>-th answer of the network to a page request.\<close>

definition page_answer :: "soroban_env \<Rightarrow> soroban_client \<Rightarrow> string \<Rightarrow> nat \<Rightarrow> js_error + string" where
  "page_answer env c tx n =
     ebind (postJsonRpc (se_syntaxError env) (so_rpc c) ''simulateTransaction''
              (se_fetchImpl env n (sc_rpcUrl (so_config c)) (rpc_body ''simulateTransaction'' [(''transaction'', JStr tx)])))
       extractSimulationReturnValue"

definition page_tx :: "soroban_env \<Rightarrow> soroban_client \<Rightarrow> int option \<Rightarrow> thrown + string" where
  "page_tx env c startAfter = se_buildTx env (so_config c) (num_max (Fin 1) (num_ceil (num_div (num_of_int (rs_timeoutMs (so_rpc c))) (Fin 1000)))) startAfter"

lemma simulate_once_answer:
  assumes "page_tx env c startAfter = Inr tx"
  shows "simulate_once env c startAfter w = (page_answer env c tx (rw_requests w), w\<lparr>rw_requests := rw_requests w + 1\<rparr>)"
  using assms by (simp add: simulate_once_def page_tx_def page_answer_def)

lemma retry_delay_at_least:
  assumes "0 \<le> r" "0 \<le> jitter" "is_double (Fin r)" "dround (r * of_int jitter) \<noteq> PosInf"
  shows "num_le (num_of_int (1000 * 2 ^ min attempt 10)) (calculateRetryDelayMs attempt jitter (Fin r))"
proof -
  obtain v where v: "dround (r * of_int jitter) = Fin v" "0 \<le> v" using dround_nonneg [of "r * of_int jitter"] assms by auto
  have "(2 :: int) ^ min attempt 10 \<le> 2 ^ 10" by (rule power_increasing) auto
  then have "\<bar>1000 * 2 ^ min attempt 10 :: int\<bar> < 2 ^ 53" by simp
  from num_add_increases [OF is_double_int [OF this], of "of_int \<lfloor>v\<rfloor>"] v show ?thesis by (simp add: calculateRetryDelayMs_def)
qed

text \<open>
  The retry policy of a page request: the client sends one request and repeats it only after a retryable failure, at most \<open>maxRetries\<close> times; the
  answer that counts is the first one that is not a retryable failure, or the last one allowed. Before the \<open>j\<close>-th repetition it sleeps the exponential
  delay of attempt \<open>j\<close>, and nothing else happens.
\<close>

theorem page_retry_policy:
  assumes "page_tx env c startAfter = Inr tx" "0 \<le> rs_maxRetries (so_rpc c)"
  shows "\<exists>k. int k \<le> rs_maxRetries (so_rpc c) \<and> (\<forall>j < k. retryable (page_answer env c tx (rw_requests w + j))) \<and>
     (int k = rs_maxRetries (so_rpc c) \<or> \<not> retryable (page_answer env c tx (rw_requests w + k))) \<and>
     fetchCreditRecordPage env c startAfter w =
       (ebind (page_answer env c tx (rw_requests w + k)) (parseEnumeratedCreditLineEntriesScVal (se_isPublicKey env) (se_decodeXdr env)),
        w\<lparr>rw_requests := rw_requests w + k + 1,
          rw_sleeps := rw_sleeps w @ map (\<lambda>j. calculateRetryDelayMs j (rs_retryJitterMs (so_rpc c)) (se_random env (length (rw_sleeps w) + j))) [0..<k]\<rparr>)"
proof -
  from withRetry_loop_outcome [of "simulate_once env c startAfter" "page_answer env c tx" "nat (rs_maxRetries (so_rpc c))" w
      "rs_retryJitterMs (so_rpc c)" "se_random env" 0, OF simulate_once_answer [OF assms(1)]]
  obtain k where k: "k \<le> nat (rs_maxRetries (so_rpc c))" "\<forall>j < k. retryable (page_answer env c tx (rw_requests w + j))"
    "k = nat (rs_maxRetries (so_rpc c)) \<or> \<not> retryable (page_answer env c tx (rw_requests w + k))"
    "withRetry (so_rpc c) (se_random env) (simulate_once env c startAfter) w =
       (page_answer env c tx (rw_requests w + k), w\<lparr>rw_requests := rw_requests w + k + 1,
          rw_sleeps := rw_sleeps w @ map (\<lambda>j. calculateRetryDelayMs j (rs_retryJitterMs (so_rpc c)) (se_random env (length (rw_sleeps w) + j))) [0..<k]\<rparr>)"
    by (auto simp: withRetry_def)
  show ?thesis
    by (intro exI [of _ k]) (use k(1-3) assms(2) in \<open>simp add: fetchCreditRecordPage_def k(4) nat_le_iff; linarith\<close>)
qed

section \<open>Enumeration is complete\<close>

text \<open>The position of an entry in its page only appears in error messages.\<close>

lemma position_irrelevant:
  "readEnumerationTuple entry i = Inr t \<Longrightarrow> readEnumerationTuple entry j = Inr t"
  "readField value names n i = Inr v \<Longrightarrow> readField value names n j = Inr v"
  "toBorrowerPublicKey pk value i = Inr w \<Longrightarrow> toBorrowerPublicKey pk value j = Inr w"
  "toPreciseDecimalString value i field = Inr d \<Longrightarrow> toPreciseDecimalString value j field = Inr d"
  "toSafeInteger value i field = Inr x \<Longrightarrow> toSafeInteger value j field = Inr x"
  "normalizeCreditStatus value i = Inr st \<Longrightarrow> normalizeCreditStatus value j = Inr st"
proof -
  show "readEnumerationTuple entry i = Inr t \<Longrightarrow> readEnumerationTuple entry j = Inr t"
    by (cases entry) (auto simp: readEnumerationTuple_def Let_def split: if_splits)
  show "readField value names n i = Inr v \<Longrightarrow> readField value names n j = Inr v"
    by (cases "value") (auto simp: readField_def Let_def split: if_splits)
  show "toBorrowerPublicKey pk value i = Inr w \<Longrightarrow> toBorrowerPublicKey pk value j = Inr w"
    by (cases "value") (auto simp: toBorrowerPublicKey_def toNonEmptyString_def Let_def split: if_splits)
  show "toPreciseDecimalString value i field = Inr d \<Longrightarrow> toPreciseDecimalString value j field = Inr d"
    by (cases "value") (auto simp: toPreciseDecimalString_def Let_def split: if_splits)
  show "toSafeInteger value i field = Inr x \<Longrightarrow> toSafeInteger value j field = Inr x"
    unfolding toSafeInteger_def Let_def by (auto split: option.splits)
  have "(case m of Some s \<Rightarrow> Inr s | None \<Rightarrow> Inl e) = (Inr st :: js_error + string) \<longleftrightarrow> m = Some st" for m and e :: js_error by (cases m) simp_all
  then have "contractStatusFromDiscriminant k i = Inr st \<Longrightarrow> contractStatusFromDiscriminant k j = Inr st" for k
    by (simp only: contractStatusFromDiscriminant_def)
  then show "normalizeCreditStatus value i = Inr st \<Longrightarrow> normalizeCreditStatus value j = Inr st"
    by (cases "value") (auto simp: normalizeCreditStatus_def toNonEmptyString_def Let_def split: if_splits option.splits js_value.splits)
qed

lemma readCreditStatusField_position: "readCreditStatusField value i = Inr v \<Longrightarrow> readCreditStatusField value j = Inr v"
  using position_irrelevant(2) [of "value" "[''status'']" 4 i v j] by (cases "value") (simp_all add: readCreditStatusField_def Let_def split: if_splits)

lemma parseCreditLineData_position:
  assumes "parseCreditLineData pk data i = Inr d"
  shows "parseCreditLineData pk data j = Inr d"
proof -
  note pos = position_irrelevant [where j = j] readCreditStatusField_position [where j = j]
  obtain v0 v1 v2 v3 v4 where v: "readField data [''borrower'', ''walletAddress'', ''wallet_address''] 0 i = Inr v0"
    "toBorrowerPublicKey pk v0 i = Inr (cd_walletAddress d)"
    "readField data [''credit_limit'', ''creditLimit'', ''limit''] 1 i = Inr v1" "toPreciseDecimalString v1 i ''creditLimit'' = Inr (cd_creditLimit d)"
    "readField data [''utilized_amount'', ''utilizedAmount'', ''utilized''] 2 i = Inr v2" "toPreciseDecimalString v2 i ''utilizedAmount'' = Inr (cd_utilizedAmount d)"
    "readField data [''interest_rate_bps'', ''interestRateBps'', ''interestRate''] 3 i = Inr v3" "toSafeInteger v3 i ''interestRateBps'' = Inr (cd_interestRateBps d)"
    "readCreditStatusField data i = Inr v4" "normalizeCreditStatus v4 i = Inr (cd_status d)"
    using assms by (auto simp: parseCreditLineData_def ebind_Inr_iff)
  show ?thesis
    by (simp only: parseCreditLineData_def pos(2) [OF v(1)] pos(3) [OF v(2)] pos(2) [OF v(3)] pos(4) [OF v(4)] pos(2) [OF v(5)] pos(4) [OF v(6)]
        pos(2) [OF v(7)] pos(5) [OF v(8)] pos(7) [OF v(9)] pos(6) [OF v(10)] ebind_simps) simp
qed

lemma parseEnumeratedEntry_position:
  assumes "parseEnumeratedEntry pk entry i = Inr r"
  shows "parseEnumeratedEntry pk entry j = Inr r"
proof -
  obtain cur data x d where "readEnumerationTuple entry i = Inr (cur, data)" "toSafeInteger cur i ''cursor'' = Inr x" "parseCreditLineData pk data i = Inr d"
    using assms by (auto simp: parseEnumeratedEntry_def ebind_Inr_iff)
  note e = this position_irrelevant(1) [where j = j, OF this(1)] position_irrelevant(5) [where j = j, OF this(2)] parseCreditLineData_position [where j = j, OF this(3)]
  show ?thesis using assms by (simp add: parseEnumeratedEntry_def e)
qed

text \<open>What the contract holds: entries whose decoding succeeds, in ascending order of their cursors.\<close>

definition holds_entries :: "(string \<Rightarrow> bool) \<Rightarrow> js_value list \<Rightarrow> EnumeratedCreditRecord list \<Rightarrow> bool" where
  "holds_entries isPublicKey entries records \<longleftrightarrow>
     list_all2 (\<lambda>e r. parseEnumeratedEntry isPublicKey e 0 = Inr r) entries records \<and> sorted_wrt (\<lambda>a b. er_cursor a < er_cursor b) records"

definition after_cursor :: "int option \<Rightarrow> EnumeratedCreditRecord \<Rightarrow> bool" where
  "after_cursor startAfter r \<longleftrightarrow> (case startAfter of None \<Rightarrow> True | Some s \<Rightarrow> s < er_cursor r)"

text \<open>The network and the contract do what their documentation says: a page request is answered at once, with the first hundred entries after the
  cursor.\<close>

definition answers_pages :: "soroban_env \<Rightarrow> soroban_client \<Rightarrow> js_value list \<Rightarrow> EnumeratedCreditRecord list \<Rightarrow> bool" where
  "answers_pages env c entries records \<longleftrightarrow>
     (\<forall>startAfter n. \<exists>tx x. page_tx env c startAfter = Inr tx \<and> page_answer env c tx n = Inr x \<and>
        se_decodeXdr env x = Inr (JsArray (map fst (take 100 (filter (\<lambda>(e, r). after_cursor startAfter r) (zip entries records))))))"

lemma page_decodes:
  assumes "list_all2 (\<lambda>e r. parseEnumeratedEntry pk e 0 = Inr r) es rs"
  shows "emap (\<lambda>(index, entry). parseEnumeratedEntry pk entry index) (List.enumerate n es) = Inr rs"
  using assms
proof (induction arbitrary: n rule: list_all2_induct)
  case (Cons e es r rs)
  then show ?case using parseEnumeratedEntry_position [of pk e 0 r n] by simp
qed simp

lemma page_served:
  assumes "holds_entries (se_isPublicKey env) entries records" "answers_pages env c entries records" "0 \<le> rs_maxRetries (so_rpc c)"
  shows "fetchCreditRecordPage env c startAfter w = (Inr (take 100 (filter (after_cursor startAfter) records)), w\<lparr>rw_requests := rw_requests w + 1\<rparr>)"
proof -
  obtain tx x where tx: "page_tx env c startAfter = Inr tx" and x: "page_answer env c tx (rw_requests w) = Inr x"
    "se_decodeXdr env x = Inr (JsArray (map fst (take 100 (filter (\<lambda>(e, r). after_cursor startAfter r) (zip entries records)))))"
    using assms(2) unfolding answers_pages_def by meson
  let ?ps = "take 100 (filter (\<lambda>(e, r). after_cursor startAfter r) (zip entries records))"
  have la: "list_all2 (\<lambda>e r. parseEnumeratedEntry (se_isPublicKey env) e 0 = Inr r) entries records" using assms(1) by (simp add: holds_entries_def)
  have "\<forall>p \<in> set ?ps. parseEnumeratedEntry (se_isPublicKey env) (fst p) 0 = Inr (snd p)"
    using la by (auto simp: list_all2_iff dest!: in_set_takeD)
  then have "list_all2 (\<lambda>e r. parseEnumeratedEntry (se_isPublicKey env) e 0 = Inr r) (map fst ?ps) (map snd ?ps)"
    by (simp add: list.rel_map list.rel_refl_strong)
  moreover have "map snd (filter (\<lambda>(e, r). after_cursor startAfter r) (zip entries records)) = filter (after_cursor startAfter) records"
    using list_all2_lengthD [OF la] by (induction entries records rule: list_induct2) auto
  ultimately have dec: "parseEnumeratedCreditLineEntriesScVal (se_isPublicKey env) (se_decodeXdr env) x = Inr (take 100 (filter (after_cursor startAfter) records))"
    using page_decodes [of "se_isPublicKey env" "map fst ?ps" "map snd ?ps" 0] by (simp add: parseEnumeratedCreditLineEntriesScVal_def x(2) take_map [symmetric])
  have "simulate_once env c startAfter w = (Inr x, w\<lparr>rw_requests := rw_requests w + 1\<rparr>)" by (simp add: simulate_once_answer [OF tx] x(1))
  then show ?thesis by (simp add: fetchCreditRecordPage_def withRetry_def withRetry_loop.simps dec)
qed

lemma filter_after_take:
  assumes "sorted_wrt (\<lambda>a b. er_cursor a < er_cursor b) rs" "0 < k" "k \<le> length rs"
  shows "filter (after_cursor (Some (er_cursor (rs ! (k - 1))))) rs = drop k rs"
proof -
  have "filter (after_cursor (Some (er_cursor (rs ! (k - 1))))) (take k rs @ drop k rs) = drop k rs"
  proof -
    have "\<not> er_cursor (rs ! (k - 1)) < er_cursor (rs ! i)" if "i < k" for i
    proof (cases "i = k - 1")
      case False
      then have "er_cursor (rs ! i) < er_cursor (rs ! (k - 1))" using assms that by (auto simp: sorted_wrt_iff_nth_less)
      then show ?thesis by simp
    qed simp
    then have "filter (after_cursor (Some (er_cursor (rs ! (k - 1))))) (take k rs) = []"
      by (auto simp: filter_empty_conv after_cursor_def in_set_conv_nth)
    moreover have "er_cursor (rs ! (k - 1)) < er_cursor r" if mem: "r \<in> set (drop k rs)" for r
    proof -
      obtain i where "i < length (drop k rs)" "r = drop k rs ! i" using mem by (metis in_set_conv_nth)
      then show ?thesis using assms by (auto simp: sorted_wrt_iff_nth_less)
    qed
    then have "filter (after_cursor (Some (er_cursor (rs ! (k - 1))))) (drop k rs) = drop k rs" by (simp add: filter_id_conv after_cursor_def)
    ultimately show ?thesis by (simp only: filter_append append_Nil)
  qed
  then show ?thesis by (simp only: append_take_drop_id)
qed

text \<open>So the loop, after \<open>k\<close> records, goes on with those that remain.\<close>

lemma enumerate_pages_complete:
  fixes rs :: "EnumeratedCreditRecord list"
  assumes pages: "\<And>s w. fst (fetchPage s w) = Inr (take 100 (filter (after_cursor s) rs))"
    and sorted: "sorted_wrt (\<lambda>a b. er_cursor a < er_cursor b) rs"
    and "k \<le> length rs" "startAfter = (if k = 0 then None else Some (er_cursor (rs ! (k - 1))))" "k \<le> 10000"
  shows "fst (enumerate_pages fetchPage (take k rs) startAfter w) =
     (if length rs > 10000 then Inl (newDecodeError ''Soroban enumeration exceeded 10000 credit records'') else Inr rs)"
  using assms(3-5)
proof (induction "length rs - k" arbitrary: k startAfter w rule: less_induct)
  case less
  have page: "filter (after_cursor startAfter) rs = drop k rs"
    using filter_after_take [OF sorted, of k] less.prems by (auto simp: after_cursor_def)
  obtain w' where w': "fetchPage startAfter w = (Inr (take 100 (drop k rs)), w')"
    using pages [of startAfter w] by (metis page prod.collapse)
  have all: "take k rs @ take 100 (drop k rs) = take (k + 100) rs" by (rule take_add [symmetric])
  show ?case
  proof (cases "length (take (k + 100) rs) > 10000 \<or> length (take 100 (drop k rs)) < 100")
    case True
    then show ?thesis
      by (subst enumerate_pages.simps) (auto simp: w' all min_def split: if_splits)
  next
    case False
    then have ge: "\<not> length (take (k + 100) rs) > 10000" "\<not> length (take 100 (drop k rs)) < 100" by blast+
    then have len: "k + 100 \<le> length rs" "k + 100 \<le> 10000" by auto
    then have last: "last (take 100 (drop k rs)) = rs ! (k + 100 - 1)" by (simp add: last_conv_nth add.commute)
    have adv: "\<not> (case startAfter of Some s \<Rightarrow> er_cursor (rs ! (k + 100 - 1)) \<le> s | None \<Rightarrow> False)"
      using sorted len less.prems(2) by (auto simp: sorted_wrt_iff_nth_less not_le split: option.splits if_splits)
    have "enumerate_pages fetchPage (take k rs) startAfter w =
        enumerate_pages fetchPage (take (k + 100) rs) (Some (er_cursor (rs ! (k + 100 - 1)))) w'"
      by (subst enumerate_pages.simps) (simp only: w' prod.case sum.case all ge if_False last adv)
    moreover have "fst (enumerate_pages fetchPage (take (k + 100) rs) (Some (er_cursor (rs ! (k + 100 - 1)))) w') =
        (if length rs > 10000 then Inl (newDecodeError ''Soroban enumeration exceeded 10000 credit records'') else Inr rs)"
      by (rule less.hyps) (use len in simp_all)
    ultimately show ?thesis by simp
  qed
qed

lemma assertUniqueBorrowers_loop_iff:
  "assertUniqueBorrowers_loop rs seen = Inr () \<longleftrightarrow> distinct (map oc_walletAddress rs) \<and> set (map oc_walletAddress rs) \<inter> set seen = {}"
  by (induction rs arbitrary: seen) auto

lemma enumeration_result:
  assumes "holds_entries (se_isPublicKey env) entries records" "answers_pages env c entries records" "0 \<le> rs_maxRetries (so_rpc c)"
    and "sc_contractId (so_config c) \<noteq> []" "se_isContract env (sc_contractId (so_config c))"
  shows "(length records \<le> 10000 \<and> distinct (map oc_walletAddress records) \<longrightarrow> fst (fetchAllCreditRecords env c w) = Inr (map withoutCursor records)) \<and>
     (\<not> (length records \<le> 10000 \<and> distinct (map oc_walletAddress records)) \<longrightarrow> (\<exists>m. fst (fetchAllCreditRecords env c w) = Inl (SorobanCreditRecordDecodeError m)))"
proof -
  have pages: "fst (fetchCreditRecordPage env c s w) = Inr (take 100 (filter (after_cursor s) records))" for s w
    using page_served [OF assms(1-3)] by simp
  have loop: "fst (enumerate_pages (fetchCreditRecordPage env c) [] None w) =
     (if length records > 10000 then Inl (newDecodeError ''Soroban enumeration exceeded 10000 credit records'') else Inr records)"
    using enumerate_pages_complete [of "fetchCreditRecordPage env c" records 0 None w, OF pages] assms(1) by (simp add: holds_entries_def)
  have unique: "assertUniqueBorrowers records = Inr () \<longleftrightarrow> distinct (map oc_walletAddress records)"
    by (simp add: assertUniqueBorrowers_def assertUniqueBorrowers_loop_iff)
  have "assertUniqueBorrowers_loop rs seen = Inr () \<or> (\<exists>m. assertUniqueBorrowers_loop rs seen = Inl (SorobanCreditRecordDecodeError m))" for rs seen
    by (induction rs arbitrary: seen) (auto simp: newDecodeError_def)
  then have "assertUniqueBorrowers records = Inr () \<or> (\<exists>m. assertUniqueBorrowers records = Inl (SorobanCreditRecordDecodeError m))"
    by (simp add: assertUniqueBorrowers_def)
  then show ?thesis using loop unique assms(4,5)
    by (auto simp: fetchAllCreditRecords_def newDecodeError_def split: prod.splits sum.splits if_splits)
qed

text \<open>
  The enumeration is complete. If the network answers page requests as documented (the first hundred entries after the given cursor) and the entries decode,
  then the client returns exactly the records the contract holds, all of them and in order, provided they are at most 10000 and no borrower occurs twice;
  it fails otherwise.
\<close>

theorem enumeration_complete:
  assumes "holds_entries (se_isPublicKey env) entries records" "answers_pages env c entries records" "0 \<le> rs_maxRetries (so_rpc c)"
    and "sc_contractId (so_config c) \<noteq> []" "se_isContract env (sc_contractId (so_config c))"
  shows "(length records \<le> 10000 \<and> distinct (map oc_walletAddress records) \<longrightarrow> fst (fetchAllCreditRecords env c w) = Inr (map withoutCursor records)) \<and>
     (\<not> (length records \<le> 10000 \<and> distinct (map oc_walletAddress records)) \<longrightarrow> (\<exists>m. fst (fetchAllCreditRecords env c w) = Inl (SorobanCreditRecordDecodeError m)))"
  by (rule enumeration_result [OF assms])

section \<open>Reconciliation against the contract\<close>

text \<open>A stored line shows what a contract entry holds: the borrower, a limit denoting the entry's number, an available credit denoting exactly the limit minus
  the utilized amount, the rate and the status.\<close>

definition entry_matches :: "(string \<Rightarrow> bool) \<Rightarrow> js_value \<Rightarrow> CreditLine \<Rightarrow> bool" where
  "entry_matches isPublicKey e line \<longleftrightarrow> (\<exists>cur rec who lim util rate st x y i.
     readEnumerationTuple e 0 = Inr (cur, rec) \<and>
     readField rec [''borrower'', ''walletAddress'', ''wallet_address''] 0 0 = Inr who \<and> toBorrowerPublicKey isPublicKey who 0 = Inr (cl_walletAddress line) \<and>
     readField rec [''credit_limit'', ''creditLimit'', ''limit''] 1 0 = Inr lim \<and> numeric_value lim = Some x \<and>
     readField rec [''utilized_amount'', ''utilizedAmount'', ''utilized''] 2 0 = Inr util \<and> numeric_value util = Some y \<and>
     decimal_value (cl_creditLimit line) = Some x \<and> decimal_value (cl_availableCredit line) = Some (x - y) \<and>
     readField rec [''interest_rate_bps'', ''interestRateBps'', ''interestRate''] 3 0 = Inr rate \<and>
     toSafeInteger rate 0 ''interestRateBps'' = Inr i \<and> cl_interestRateBps line = num_of_int i \<and>
     readCreditStatusField rec 0 = Inr st \<and> normalizeCreditStatus st 0 = Inr (status_string (cl_status line)))"

lemma agreeing_entry_matches:
  assumes "parseEnumeratedEntry isPublicKey e 0 = Inr r" "records_agree line (withoutCursor r)"
  shows "entry_matches isPublicKey e line"
proof -
  have eq: "decimal_value a = Some x" if "decimalStringsEqual a b" "decimal_value b = Some x" for a b x
    using that decimalStringsEqual_iff [of a b] by (auto split: if_splits)
  have ag: "cl_walletAddress line = oc_walletAddress r" "decimalStringsEqual (cl_creditLimit line) (oc_creditLimit r)"
    "decimalStringsEqual (cl_availableCredit line) (oc_availableCredit r)" "num_eq (cl_interestRateBps line) (oc_interestRateBps r)"
    "status_string (cl_status line) = oc_status r" using assms(2) by (simp_all add: records_agree_def withoutCursor_def)
  from decoded_record [OF assms(1)] obtain cur rec lim util x y where d: "readEnumerationTuple e 0 = Inr (cur, rec)"
    "readField rec [''credit_limit'', ''creditLimit'', ''limit''] 1 0 = Inr lim" "numeric_value lim = Some x"
    "readField rec [''utilized_amount'', ''utilizedAmount'', ''utilized''] 2 0 = Inr util" "numeric_value util = Some y"
    "decimal_value (oc_creditLimit r) = Some x" "decimal_value (oc_availableCredit r) = Some (x - y)" by (elim exE conjE)
  obtain cd where cd: "parseCreditLineData isPublicKey rec 0 = Inr cd" "oc_walletAddress r = cd_walletAddress cd"
    "oc_interestRateBps r = num_of_int (cd_interestRateBps cd)" "oc_status r = cd_status cd"
    using assms(1) d(1) by (auto simp: parseEnumeratedEntry_def ebind_Inr_iff)
  obtain who rate st where f: "readField rec [''borrower'', ''walletAddress'', ''wallet_address''] 0 0 = Inr who"
    "toBorrowerPublicKey isPublicKey who 0 = Inr (cd_walletAddress cd)"
    "readField rec [''interest_rate_bps'', ''interestRateBps'', ''interestRate''] 3 0 = Inr rate" "toSafeInteger rate 0 ''interestRateBps'' = Inr (cd_interestRateBps cd)"
    "readCreditStatusField rec 0 = Inr st" "normalizeCreditStatus st 0 = Inr (cd_status cd)"
    using cd(1) by (auto simp: parseCreditLineData_def ebind_Inr_iff)
  have rate: "cl_interestRateBps line = num_of_int (cd_interestRateBps cd)" using ag(4) cd(3) by (cases "cl_interestRateBps line") (auto simp: num_eq_def)
  have who: "toBorrowerPublicKey isPublicKey who 0 = Inr (cl_walletAddress line)" using f(2) ag(1) cd(2) by (simp only:)
  have st: "normalizeCreditStatus st 0 = Inr (status_string (cl_status line))" using f(6) ag(5) cd(4) by (simp only:)
  show ?thesis unfolding entry_matches_def
    by (intro exI conjI) (rule d f who st rate eq [OF ag(2) d(6)] eq [OF ag(3) d(7)])+
qed

lemma list_all2_mem:
  assumes "list_all2 P xs ys"
  shows "x \<in> set xs \<Longrightarrow> \<exists>y \<in> set ys. P x y" and "y \<in> set ys \<Longrightarrow> \<exists>x \<in> set xs. P x y"
  using assms by (induction rule: list_all2_induct) auto

text \<open>The two loops of a clean reconciliation together: wallets are unique on both sides, and the agreeing records are in one-to-one correspondence.\<close>

lemma clean_sides_agree:
  assumes "reconcilable ds cs" "\<forall>d \<in> set ds. \<exists>c \<in> set cs. records_agree d c"
    and "\<forall>c \<in> set cs. \<exists>d \<in> set ds. js_trim (cl_walletAddress d) = js_trim (oc_walletAddress c)"
  shows "(\<forall>c \<in> set cs. \<exists>d \<in> set ds. records_agree d c) \<and> length ds = length cs \<and> distinct (map cl_walletAddress ds)"
proof -
  let ?dk = "\<lambda>d. js_trim (cl_walletAddress d)" and ?ck = "\<lambda>c. js_trim (oc_walletAddress c)"
  have dist: "distinct (map ?dk ds)" "distinct (map ?ck cs)" using assms(1) by (simp_all add: reconcilable_def)
  have key: "records_agree d c \<Longrightarrow> ?dk d = ?ck c" for d c by (simp add: records_agree_def)
  have "\<exists>d \<in> set ds. records_agree d c" if c: "c \<in> set cs" for c
  proof -
    obtain d c' where d: "d \<in> set ds" "?dk d = ?ck c" "c' \<in> set cs" "records_agree d c'" using assms(2,3) c by blast
    then have "c' = c" using dist(2) c key [OF d(4)] by (auto simp: distinct_map dest: inj_onD)
    then show ?thesis using d by blast
  qed
  moreover have "set (map ?dk ds) = set (map ?ck cs)" using assms(2,3) key by (auto simp: image_iff) (metis | force)+
  then have "length ds = length cs" using distinct_card [OF dist(1)] distinct_card [OF dist(2)] by simp
  moreover have "distinct (map cl_walletAddress ds)" using dist(1) by (auto simp: distinct_map inj_on_def)
  ultimately show ?thesis by blast
qed

text \<open>
  C6. What a clean reconciliation proves about the chain. Composed with this client and a network that answers page requests as documented, a reconciliation run without errors
  and mismatches means that stored lines and contract entries correspond one to one: there are as many lines as entries, no wallet is stored twice, every line matches an
  entry and every entry is matched by a line, in borrower, limit, available credit (the entry's limit minus its utilized amount, exactly), interest rate and status.
\<close>

theorem clean_reconciliation_matches_contract:
  assumes "holds_entries (se_isPublicKey env) entries records" "answers_pages env c entries records" "0 \<le> rs_maxRetries (so_rpc c)"
    and "sc_contractId (so_config c) \<noteq> []" "se_isContract env (sc_contractId (so_config c))"
    and "result = ReconciliationService_reconcile (inMemoryCreditLines lc) m (fst (fetchAllCreditRecords env c w)) now"
    and "rr_errors result = []" "rr_mismatches result = []"
  shows "(\<forall>line \<in> set (jsmap_values m). \<exists>e \<in> set entries. entry_matches (se_isPublicKey env) e line) \<and>
     (\<forall>e \<in> set entries. \<exists>line \<in> set (jsmap_values m). entry_matches (se_isPublicKey env) e line) \<and>
     length (jsmap_values m) = length entries \<and> distinct (map cl_walletAddress (jsmap_values m))"
proof -
  let ?ds = "jsmap_values m"
  obtain cs where cs: "fst (fetchAllCreditRecords env c w) = Inr cs" and rec: "reconcilable ?ds cs" and agree: "\<forall>d \<in> set ?ds. \<exists>c \<in> set cs. records_agree d c"
    and covered: "\<forall>c \<in> set cs. \<exists>d \<in> set ?ds. js_trim (cl_walletAddress d) = js_trim (oc_walletAddress c)"
    using reconcile_clean [of lc m "fst (fetchAllCreditRecords env c w)" now] assms(6-8) by auto
  have csr: "cs = map withoutCursor records" using enumeration_result [OF assms(1-5), of w] cs by (auto split: if_splits)
  have la: "list_all2 (\<lambda>e r. parseEnumeratedEntry (se_isPublicKey env) e 0 = Inr r) entries records" using assms(1) by (simp add: holds_entries_def)
  have of_record: "\<exists>e \<in> set entries. parseEnumeratedEntry (se_isPublicKey env) e 0 = Inr r" if "r \<in> set records" for r
    using list_all2_mem(2) [OF la that] .
  have of_entry: "\<exists>r \<in> set records. parseEnumeratedEntry (se_isPublicKey env) e 0 = Inr r" if "e \<in> set entries" for e
    using list_all2_mem(1) [OF la that] .
  note sides = clean_sides_agree [OF rec agree covered]
  have "\<forall>line \<in> set ?ds. \<exists>e \<in> set entries. entry_matches (se_isPublicKey env) e line"
    using agree of_record agreeing_entry_matches unfolding csr by fastforce
  moreover have "\<forall>e \<in> set entries. \<exists>line \<in> set ?ds. entry_matches (se_isPublicKey env) e line"
    using conjunct1 [OF sides] of_entry agreeing_entry_matches unfolding csr by fastforce
  ultimately show ?thesis using sides list_all2_lengthD [OF la] by (simp add: csr)
qed

section \<open>An example contract\<close>

definition exampleEntry :: js_value where
  "exampleEntry = JsArray [JsNumber (Fin 7), JsArray [JsString ''GA'', JsBigInt 1000, JsString ''100'', JsNumber (Fin 500), JsNumber (Fin 0)]]"

definition exampleEntryRecord :: EnumeratedCreditRecord where
  "exampleEntryRecord = \<lparr>oc_id = show_int 7, oc_walletAddress = ''GA'', oc_creditLimit = show_int 1000, oc_availableCredit = ''900'',
     oc_interestRateBps = Fin 500, oc_status = ''active'', er_cursor = 7\<rparr>"

definition exampleReply :: "string \<Rightarrow> json" where
  "exampleReply x = JObj [(''result'', JObj [(''xdr'', JStr x)])]"

definition exampleEnv :: soroban_env where
  "exampleEnv = \<lparr>se_isContract = (\<lambda>_. True), se_isPublicKey = (\<lambda>w. w = ''GA''),
     se_decodeXdr = (\<lambda>x. Inr (JsArray (if x = ''A'' then [exampleEntry] else []))),
     se_buildTx = (\<lambda>_ _ s. Inr (if (case s of None \<Rightarrow> True | Some i \<Rightarrow> i < 7) then ''A'' else ''B'')),
     se_fetchImpl = (\<lambda>_ _ body. \<lparr>rx_reply = RpcResponse 200 ''OK'' (json_stringify (exampleReply
        (if body = rpc_body ''simulateTransaction'' [(''transaction'', JStr ''A'')] then ''A'' else ''B''))), rx_aborted = False\<rparr>),
     se_random = (\<lambda>_. Fin 0), se_syntaxError = (\<lambda>_. [])\<rparr>"

definition exampleClient :: soroban_client where
  "exampleClient = \<lparr>so_config = \<lparr>sc_rpcUrl = DEFAULT_RPC_URL, sc_contractId = ''C1'', sc_networkPassphrase = DEFAULT_NETWORK_PASSPHRASE\<rparr>,
     so_rpc = \<lparr>rs_timeoutMs = 30000, rs_maxRetries = 3, rs_retryJitterMs = 1000\<rparr>\<rparr>"

lemma exampleEntry_decodes: "parseEnumeratedEntry (\<lambda>w. w = ''GA'') exampleEntry i = Inr exampleEntryRecord"
proof -
  have sub: "subtractDecimalStrings (show_int 1000) ''100'' = Inr ''900''" by code_simp
  have trims: "js_trim ''GA'' = ''GA''" "js_trim ''100'' = ''100''" by code_simp+
  have m: "decimal_string_match ''100'' \<noteq> None" by code_simp
  have safe: "num_isSafeInteger (Fin 7)" "num_isSafeInteger (Fin 500)" "num_isSafeInteger (Fin 0)"
    by (simp_all add: num_isSafeInteger_def MAX_SAFE_INTEGER_def)
  have field: "readField (JsArray vs) names n i = Inr (vs ! n)" if "n < length vs" for vs names n using that by (simp add: readField_def)
  show ?thesis
    by (simp add: parseEnumeratedEntry_def exampleEntry_def readEnumerationTuple_def toSafeInteger_def safe parseCreditLineData_def field
        toBorrowerPublicKey_def toNonEmptyString_def trims toPreciseDecimalString_def m readCreditStatusField_def normalizeCreditStatus_def
        contractStatusFromDiscriminant_def sub exampleEntryRecord_def)
qed

lemma example_holds: "holds_entries (se_isPublicKey exampleEnv) [exampleEntry] [exampleEntryRecord]"
  using exampleEntry_decodes [of 0] by (simp add: holds_entries_def exampleEnv_def)

lemma rpc_body_inj: "rpc_body mt [(''transaction'', JStr a)] = rpc_body mt [(''transaction'', JStr b)] \<longleftrightarrow> a = b"
proof
  assume eq: "rpc_body mt [(''transaction'', JStr a)] = rpc_body mt [(''transaction'', JStr b)]"
  have ok: "json_ok (JObj [(''jsonrpc'', JStr ''2.0''), (''id'', JNum (Fin 1)), (''method'', JStr mt), (''params'', JObj [(''transaction'', JStr t)])])" for t
    using is_double_int [of 1] by (simp del: is_double.simps)
  note rt = json_roundtrip [OF ok, folded rpc_body_def]
  have "Some (JObj [(''jsonrpc'', JStr ''2.0''), (''id'', JNum (Fin 1)), (''method'', JStr mt), (''params'', JObj [(''transaction'', JStr a)])]) =
      Some (JObj [(''jsonrpc'', JStr ''2.0''), (''id'', JNum (Fin 1)), (''method'', JStr mt), (''params'', JObj [(''transaction'', JStr b)])])"
    using rt [of a] rt [of b] by (simp only: eq)
  then show "a = b" by simp
qed simp

lemma example_answers: "answers_pages exampleEnv exampleClient [exampleEntry] [exampleEntryRecord]"
proof -
  have tx: "page_tx exampleEnv exampleClient s = Inr (if after_cursor s exampleEntryRecord then ''A'' else ''B'')" for s
    by (simp add: page_tx_def exampleEnv_def after_cursor_def exampleEntryRecord_def split: option.splits)
  have ok: "json_ok (exampleReply x)" for x by (simp add: exampleReply_def)
  have ans: "page_answer exampleEnv exampleClient t n = Inr (if t = ''A'' then ''A'' else ''B'')" for t n
    by (simp add: page_answer_def exampleEnv_def postJsonRpc_def rpc_payload_def json_roundtrip [OF ok] rpc_body_inj)
      (simp add: exampleReply_def extractSimulationReturnValue_def readOptionalField_def xdr_string_def jsmap_has_def jsmap_get_def)
  show ?thesis by (auto simp: answers_pages_def tx ans) (simp_all add: exampleEnv_def)
qed

theorem decoded_record_well_typed_witness:
  "\<exists>x y. decimal_value (oc_creditLimit exampleEntryRecord) = Some x \<and> decimal_value (oc_availableCredit exampleEntryRecord) = Some (x - y) \<and> x = 1000 \<and> y = 100"
proof -
  from decoded_record_well_typed [OF exampleEntry_decodes [of 0]] obtain cur rec lim util x y i
    where "readEnumerationTuple exampleEntry 0 = Inr (cur, rec)" "readField rec [''credit_limit'', ''creditLimit'', ''limit''] 1 0 = Inr lim" "numeric_value lim = Some x"
      "readField rec [''utilized_amount'', ''utilizedAmount'', ''utilized''] 2 0 = Inr util" "numeric_value util = Some y"
      "decimal_value (oc_creditLimit exampleEntryRecord) = Some x" "decimal_value (oc_availableCredit exampleEntryRecord) = Some (x - y)" by (elim exE conjE)
  moreover from this(1) have "rec = JsArray [JsString ''GA'', JsBigInt 1000, JsString ''100'', JsNumber (Fin 500), JsNumber (Fin 0)]"
    by (simp add: readEnumerationTuple_def exampleEntry_def)
  moreover have show100: "show_int 100 = ''100''" by code_simp
  moreover have "decimal_value ''100'' = Some 100" using show_int_value [of 100] by (simp only: show100 of_int_numeral)
  ultimately have "x = 1000" "y = 100" by (auto simp: readField_def numeric_value_def)
  with \<open>decimal_value (oc_creditLimit exampleEntryRecord) = Some x\<close> \<open>decimal_value (oc_availableCredit exampleEntryRecord) = Some (x - y)\<close>
  show ?thesis by blast
qed

theorem page_retry_policy_witness:
  "\<exists>k. int k \<le> 3 \<and> snd (fetchCreditRecordPage exampleEnv exampleClient None \<lparr>rw_requests = 0, rw_sleeps = []\<rparr>) =
     \<lparr>rw_requests = k + 1, rw_sleeps = map (\<lambda>j. calculateRetryDelayMs j 1000 (Fin 0)) [0..<k]\<rparr>"
proof -
  have "page_tx exampleEnv exampleClient None = Inr ''A''" "0 \<le> rs_maxRetries (so_rpc exampleClient)"
    by (simp_all add: page_tx_def exampleEnv_def exampleClient_def)
  from page_retry_policy [OF this, of "\<lparr>rw_requests = 0, rw_sleeps = []\<rparr>"] obtain k where k: "int k \<le> rs_maxRetries (so_rpc exampleClient)"
    "snd (fetchCreditRecordPage exampleEnv exampleClient None \<lparr>rw_requests = 0, rw_sleeps = []\<rparr>) = \<lparr>rw_requests = k + 1,
       rw_sleeps = map (\<lambda>j. calculateRetryDelayMs j (rs_retryJitterMs (so_rpc exampleClient)) (se_random exampleEnv j)) [0..<k]\<rparr>"
    by (auto simp del: upt_Suc)
  then show ?thesis by (intro exI [of _ k]) (simp add: exampleClient_def exampleEnv_def)
qed

lemma example_client:
  "0 \<le> rs_maxRetries (so_rpc exampleClient)" "sc_contractId (so_config exampleClient) \<noteq> []" "se_isContract exampleEnv (sc_contractId (so_config exampleClient))"
  by (simp_all add: exampleClient_def exampleEnv_def)

theorem enumeration_complete_witness:
  "fst (fetchAllCreditRecords exampleEnv exampleClient \<lparr>rw_requests = 0, rw_sleeps = []\<rparr>) = Inr [withoutCursor exampleEntryRecord]"
  using enumeration_complete [OF example_holds example_answers example_client] by simp

theorem clean_reconciliation_matches_contract_witness:
  "entry_matches (se_isPublicKey exampleEnv) exampleEntry exampleLine"
proof -
  let ?w = "\<lparr>rw_requests = 0, rw_sleeps = []\<rparr>"
  let ?chain = "fst (fetchAllCreditRecords exampleEnv exampleClient ?w)"
  have chain: "?chain = Inr [withoutCursor exampleEntryRecord]" using enumeration_result [OF example_holds example_answers example_client] by simp
  have "show_int 1000 = ''1000''" by code_simp
  then have agree: "records_agree exampleLine (withoutCursor exampleEntryRecord)"
    by (simp add: records_agree_def exampleLine_def withoutCursor_def exampleEntryRecord_def num_eq_def)
  have t: "js_trim ''GA'' = ''GA''" by code_simp
  have w: "cl_walletAddress exampleLine = ''GA''" "oc_walletAddress (withoutCursor exampleEntryRecord) = ''GA''"
    by (simp_all add: exampleLine_def withoutCursor_def exampleEntryRecord_def)
  have "length [(''L1'', exampleLine)] \<le> 10000 \<and> (\<exists>cs. ?chain = Inr cs \<and> reconcilable (jsmap_values [(''L1'', exampleLine)]) cs \<and>
      (\<forall>d \<in> set (jsmap_values [(''L1'', exampleLine)]). \<exists>c \<in> set cs. records_agree d c) \<and>
      (\<forall>c \<in> set cs. \<exists>d \<in> set (jsmap_values [(''L1'', exampleLine)]). js_trim (cl_walletAddress d) = js_trim (oc_walletAddress c)))"
    using agree w t by (intro conjI exI [of _ "[withoutCursor exampleEntryRecord]"]) (simp_all add: jsmap_values_def reconcilable_def chain)
  then have clean: "rr_errors (ReconciliationService_reconcile memLines [(''L1'', exampleLine)] ?chain 9) = []"
      "rr_mismatches (ReconciliationService_reconcile memLines [(''L1'', exampleLine)] ?chain 9) = []"
    using iffD2 [OF reconcile_clean] by blast+
  from clean_reconciliation_matches_contract [OF example_holds example_answers example_client refl clean] show ?thesis
    by (auto simp: jsmap_values_def)
qed

end
