(* ===== verification/Problems.thy ===== *)
theory Problems
  imports JsValue
begin

text \<open>
  The error taxonomy and its translation to responses: \<open>src/errors/taxonomy.ts\<close>, \<open>AppError.ts\<close>, \<open>ConflictError.ts\<close>, \<open>uniqueViolation.ts\<close>, \<open>problem.ts\<close>,
  the error handler of \<open>src/middleware/errorHandler.ts\<close> and the envelope of \<open>src/utils/response.ts\<close>. Anything can be thrown, so an error is a value of type \<open>thrown_value\<close>; fields
  the code copies without looking at them are dynamically typed. Problem codes are taken not to be names of \<open>Object.prototype\<close>. Logging is left out.
\<close>

section \<open>Taxonomy\<close>

definition PROBLEM_STATUS :: "(string \<times> int) list" where
  "PROBLEM_STATUS =
     [(''validation_failed'', 400), (''unauthorized'', 401), (''forbidden'', 403), (''not_found'', 404), (''duplicate_resource'', 409),
      (''version_conflict'', 409), (''invalid_state_transition'', 409), (''unique_constraint_violation'', 409), (''payload_too_large'', 413),
      (''unsupported_media_type'', 415), (''rate_limited'', 429), (''upstream_failure'', 502), (''upstream_timeout'', 504),
      (''service_unavailable'', 503), (''internal_error'', 500)]"

definition PROBLEM_TITLE :: "(string \<times> string) list" where
  "PROBLEM_TITLE =
     [(''validation_failed'', ''Validation Error''), (''unauthorized'', ''Unauthorized''), (''forbidden'', ''Forbidden''), (''not_found'', ''Not Found''),
      (''duplicate_resource'', ''Conflict''), (''version_conflict'', ''Conflict''), (''invalid_state_transition'', ''Conflict''),
      (''unique_constraint_violation'', ''Conflict''), (''payload_too_large'', ''Payload Too Large''), (''unsupported_media_type'', ''Unsupported Media Type''),
      (''rate_limited'', ''Too Many Requests''), (''upstream_failure'', ''Bad Gateway''), (''upstream_timeout'', ''Gateway Timeout''),
      (''service_unavailable'', ''Service Unavailable''), (''internal_error'', ''Internal Server Error'')]"

definition problemTypeUri :: "string \<Rightarrow> string" where
  "problemTypeUri code = ''https://docs.creditra.dev/problems/'' @ code"

definition titleForCode :: "string \<Rightarrow> string" where
  "titleForCode code = (case map_of PROBLEM_TITLE code of Some t \<Rightarrow> t | None \<Rightarrow> ''Error'')"

definition statusForCode :: "string \<Rightarrow> int \<Rightarrow> int" where
  "statusForCode code fallback = (case map_of PROBLEM_STATUS code of Some s \<Rightarrow> s | None \<Rightarrow> fallback)"

section \<open>Application errors\<close>

record app_error =
  ae_name :: string
  ae_statusCode :: number
  ae_code :: string
  ae_message :: string
  ae_title :: js_value
  ae_details :: js_value
  ae_resource :: js_value
  ae_retryAfter :: js_value
  ae_exposeMessage :: js_value

record AppErrorOptions =
  op_code :: string
  op_message :: string
  op_statusCode :: "number option"
  op_title :: js_value
  op_details :: js_value
  op_resource :: js_value
  op_retryAfter :: js_value
  op_exposeMessage :: js_value

definition errorOptions :: "string \<Rightarrow> string \<Rightarrow> AppErrorOptions" where
  "errorOptions code message = \<lparr>op_code = code, op_message = message, op_statusCode = None, op_title = JsUndefined, op_details = JsUndefined,
     op_resource = JsUndefined, op_retryAfter = JsUndefined, op_exposeMessage = JsBool True\<rparr>"

text \<open>The status of an unknown code is \<open>undefined\<close>, which only occurs for untyped callers that pass no status either.\<close>

definition AppError_new :: "AppErrorOptions \<Rightarrow> app_error" where
  "AppError_new o1 =
     (let statusCode = (case op_statusCode o1 of Some s \<Rightarrow> s
                        | None \<Rightarrow> (case map_of PROBLEM_STATUS (op_code o1) of Some s \<Rightarrow> num_of_int s | None \<Rightarrow> NaN))
      in \<lparr>ae_name = ''AppError'', ae_statusCode = statusCode, ae_code = op_code o1, ae_message = op_message o1,
          ae_title = nullish (op_title o1) (case map_of PROBLEM_TITLE (op_code o1) of Some t \<Rightarrow> JsString t | None \<Rightarrow> JsUndefined),
          ae_details = op_details o1, ae_resource = op_resource o1, ae_retryAfter = op_retryAfter o1,
          ae_exposeMessage = nullish (op_exposeMessage o1) (JsBool (op_code o1 \<noteq> ''internal_error'' \<and> num_lt statusCode (Fin 500)))\<rparr>)"

definition ConflictError_new :: "string \<Rightarrow> string option \<Rightarrow> js_value \<Rightarrow> js_value \<Rightarrow> app_error" where
  "ConflictError_new message code resource details =
     (AppError_new ((errorOptions (case code of Some c \<Rightarrow> c | None \<Rightarrow> ''duplicate_resource'') message)
        \<lparr>op_statusCode := Some (Fin 409), op_title := JsString ''Conflict'', op_details := details, op_resource := resource\<rparr>))
       \<lparr>ae_name := ''ConflictError''\<rparr>"

definition duplicateResource :: "string \<Rightarrow> string \<Rightarrow> js_value \<Rightarrow> app_error" where
  "duplicateResource resource message details = ConflictError_new message (Some ''duplicate_resource'') (JsString resource) details"

definition validationFailed :: "string \<Rightarrow> js_value \<Rightarrow> app_error" where
  "validationFailed message details = AppError_new ((errorOptions ''validation_failed'' message)\<lparr>op_details := details\<rparr>)"

definition unauthorized :: "string \<Rightarrow> app_error" where
  "unauthorized message = AppError_new (errorOptions ''unauthorized'' message)"

definition forbidden :: "string \<Rightarrow> app_error" where
  "forbidden message = AppError_new (errorOptions ''forbidden'' message)"

definition notFound :: "string \<Rightarrow> js_value \<Rightarrow> js_value \<Rightarrow> app_error" where
  "notFound message resource details = AppError_new ((errorOptions ''not_found'' message)\<lparr>op_resource := resource, op_details := details\<rparr>)"

definition rateLimited :: "number \<Rightarrow> string option \<Rightarrow> app_error" where
  "rateLimited retryAfterSeconds message =
     AppError_new ((errorOptions ''rate_limited''
       (case message of Some m \<Rightarrow> m | None \<Rightarrow> ''Too many requests. Please retry after '' @ num_toString retryAfterSeconds @ '' seconds.''))
       \<lparr>op_retryAfter := JsNumber retryAfterSeconds\<rparr>)"

definition upstreamFailure :: "string \<Rightarrow> app_error" where
  "upstreamFailure message = AppError_new (errorOptions ''upstream_failure'' message)"

definition upstreamTimeout :: "string \<Rightarrow> app_error" where
  "upstreamTimeout message = AppError_new (errorOptions ''upstream_timeout'' message)"

definition serviceUnavailable :: "string \<Rightarrow> js_value \<Rightarrow> app_error" where
  "serviceUnavailable message details = AppError_new ((errorOptions ''service_unavailable'' message)\<lparr>op_details := details\<rparr>)"

definition payloadTooLarge :: "string \<Rightarrow> app_error" where
  "payloadTooLarge message = AppError_new (errorOptions ''payload_too_large'' message)"

definition unsupportedMediaType :: "string \<Rightarrow> app_error" where
  "unsupportedMediaType message = AppError_new (errorOptions ''unsupported_media_type'' message)"

definition internalError :: "string \<Rightarrow> app_error" where
  "internalError message = AppError_new ((errorOptions ''internal_error'' message)\<lparr>op_exposeMessage := JsBool False\<rparr>)"

section \<open>Unique-constraint violations\<close>

text \<open>What can be thrown: an \<open>AppError\<close> (or its subclass), another \<open>Error\<close> with its name, message and further own properties, or any other value.\<close>

datatype thrown_value =
    AppThrown app_error
  | ErrThrown string string "(string \<times> js_value) list"
  | ValThrown js_value

fun tv_get :: "thrown_value \<Rightarrow> string \<Rightarrow> js_value" where
  "tv_get (AppThrown a) k = (if k = ''code'' then JsString (ae_code a) else JsUndefined)"
| "tv_get (ErrThrown name message props) k =
     (if k = ''name'' then JsString name else if k = ''message'' then JsString message else js_get (JsObject props) k)"
| "tv_get (ValThrown v) k = js_get v k"

definition isUniqueViolation :: "thrown_value \<Rightarrow> bool" where
  "isUniqueViolation err \<longleftrightarrow> tv_get err ''code'' = JsString ''23505''"

definition str_includes :: "string \<Rightarrow> string \<Rightarrow> bool" where
  "str_includes s t \<longleftrightarrow> (\<exists>i \<in> {0..length s}. take (length t) (drop i s) = t)"

definition resourceFromConstraint :: "js_value \<Rightarrow> js_value" where
  "resourceFromConstraint constraint =
     (if \<not> truthy constraint then JsUndefined
      else let name = js_toLowerCase (js_str constraint)
           in if str_includes name ''credit_line'' then JsString ''credit_line''
              else if str_includes name ''risk_evaluation'' then JsString ''risk_evaluation''
              else if str_includes name ''webhook'' then JsString ''webhook_subscription''
              else if str_includes name ''events'' \<or> str_includes name ''idempotency'' then JsString ''event''
              else if str_includes name ''borrower'' \<or> str_includes name ''wallet_address'' then JsString ''borrower''
              else JsUndefined)"

definition safeMessage :: "js_value \<Rightarrow> string" where
  "safeMessage resource =
     (if resource = JsString ''credit_line'' then ''A credit line for this resource already exists.''
      else if resource = JsString ''risk_evaluation'' then ''A risk evaluation for this resource already exists.''
      else if resource = JsString ''webhook_subscription'' then ''A webhook subscription for this endpoint already exists.''
      else if resource = JsString ''borrower'' then ''A borrower with this identity already exists.''
      else if resource = JsString ''event'' then ''An event with this idempotency key already exists.''
      else ''The request conflicts with an existing resource.'')"

definition conflictFromUniqueViolation :: "thrown_value \<Rightarrow> app_error option" where
  "conflictFromUniqueViolation err =
     (if \<not> isUniqueViolation err then None
      else let resource = resourceFromConstraint (tv_get err ''constraint'')
           in Some (ConflictError_new (safeMessage resource) (Some ''unique_constraint_violation'') resource (JsObject [(''reason'', JsString ''unique_constraint'')])))"

definition withUniqueConflictMapping :: "thrown_value + 'a \<Rightarrow> thrown_value + 'a" where
  "withUniqueConflictMapping r =
     (case r of
        Inr x \<Rightarrow> Inr x
      | Inl err \<Rightarrow> (case conflictFromUniqueViolation err of Some conflict \<Rightarrow> Inl (AppThrown conflict) | None \<Rightarrow> Inl err))"

section \<open>Problem documents\<close>

record ProblemSource =
  ps_statusCode :: number
  ps_code :: string
  ps_message :: string
  ps_title :: js_value
  ps_details :: js_value
  ps_resource :: js_value
  ps_retryAfter :: js_value
  ps_exposeMessage :: js_value

record ProblemDetails =
  pd_type :: string
  pd_title :: js_value
  pd_status :: number
  pd_detail :: string
  pd_code :: string
  pd_data :: js_value
  pd_error :: string
  pd_resource :: js_value
  pd_details :: js_value
  pd_retryAfter :: js_value

definition isSafeUpstreamStatus :: "number \<Rightarrow> bool" where
  "isSafeUpstreamStatus status \<longleftrightarrow> num_eq status (Fin 502) \<or> num_eq status (Fin 503) \<or> num_eq status (Fin 504)"

text \<open>The three optional members are set when the source has them; an absent member and an \<open>undefined\<close> one print the same.\<close>

definition toProblem :: "ProblemSource \<Rightarrow> ProblemDetails" where
  "toProblem source =
     (let status = ps_statusCode source;
          expose = nullish (ps_exposeMessage source) (JsBool (num_lt status (Fin 500) \<or> isSafeUpstreamStatus status));
          detail = (if truthy expose then ps_message source else ''Internal server error'')
      in \<lparr>pd_type = problemTypeUri (ps_code source), pd_title = nullish (ps_title source) (JsString (titleForCode (ps_code source))),
          pd_status = status, pd_detail = detail, pd_code = ps_code source, pd_data = JsNull, pd_error = detail,
          pd_resource = ps_resource source, pd_details = ps_details source, pd_retryAfter = ps_retryAfter source\<rparr>)"

definition appErrorToProblem :: "app_error \<Rightarrow> ProblemDetails" where
  "appErrorToProblem err = toProblem \<lparr>ps_statusCode = ae_statusCode err, ps_code = ae_code err, ps_message = ae_message err, ps_title = ae_title err,
     ps_details = ae_details err, ps_resource = ae_resource err, ps_retryAfter = ae_retryAfter err, ps_exposeMessage = ae_exposeMessage err\<rparr>"

record problem_response =
  pr_status :: number
  pr_headers :: "(string \<times> string) list"
  pr_body :: ProblemDetails

definition PROBLEM_CONTENT_TYPE :: string where
  "PROBLEM_CONTENT_TYPE = ''application/problem+json; charset=utf-8''"

definition sendProblem :: "ProblemDetails \<Rightarrow> problem_response" where
  "sendProblem problem =
     \<lparr>pr_status = pd_status problem,
      pr_headers = (if pd_retryAfter problem \<noteq> JsUndefined then [(''Retry-After'', js_String (pd_retryAfter problem))] else []) @
        [(''Content-Type'', PROBLEM_CONTENT_TYPE)],
      pr_body = problem\<rparr>"

section \<open>Translation of unknown errors\<close>

text \<open>An object that looks like an application error.\<close>

definition duck_app_error :: "thrown_value \<Rightarrow> bool" where
  "duck_app_error err \<longleftrightarrow> is_JsNumber (tv_get err ''statusCode'') \<and> is_JsString (tv_get err ''code'') \<and> is_JsString (tv_get err ''message'') \<and>
     (tv_get err ''name'' = JsString ''AppError'' \<or> tv_get err ''name'' = JsString ''ConflictError'')"

definition isAppError :: "thrown_value \<Rightarrow> bool" where
  "isAppError err \<longleftrightarrow> (case err of AppThrown _ \<Rightarrow> True | _ \<Rightarrow> duck_app_error err)"

definition translateAppError :: "thrown_value \<Rightarrow> app_error" where
  "translateAppError err =
     (case err of
        AppThrown a \<Rightarrow> a
      | _ \<Rightarrow> AppError_new \<lparr>op_code = js_str (tv_get err ''code''), op_message = js_str (tv_get err ''message''),
               op_statusCode = Some (js_num (tv_get err ''statusCode'')), op_title = tv_get err ''title'', op_details = tv_get err ''details'',
               op_resource = tv_get err ''resource'', op_retryAfter = tv_get err ''retryAfter'', op_exposeMessage = tv_get err ''exposeMessage''\<rparr>)"

definition is_object :: "thrown_value \<Rightarrow> bool" where
  "is_object err \<longleftrightarrow> (case err of ValThrown v \<Rightarrow> (case v of JsNull \<Rightarrow> True | JsArray _ \<Rightarrow> True | JsMap _ \<Rightarrow> True | JsObject _ \<Rightarrow> True | _ \<Rightarrow> False) | _ \<Rightarrow> True)"

definition error_message :: "thrown_value \<Rightarrow> string" where
  "error_message err = (case tv_get err ''message'' of JsString m \<Rightarrow> m | _ \<Rightarrow> ''Request failed'')"

definition translateByName :: "js_value \<Rightarrow> string \<Rightarrow> app_error option" where
  "translateByName name message =
     (if name = JsString ''ValidationError'' then Some (AppError_new (errorOptions ''validation_failed'' message))
      else if name = JsString ''UnauthorizedError'' then Some (AppError_new (errorOptions ''unauthorized'' message))
      else if name = JsString ''ForbiddenError'' then Some (AppError_new (errorOptions ''forbidden'' message))
      else if name = JsString ''NotFoundError'' then Some (AppError_new (errorOptions ''not_found'' message))
      else if name = JsString ''CreditLineNotFoundError''
        then Some (AppError_new ((errorOptions ''not_found'' message)\<lparr>op_resource := JsString ''credit_line''\<rparr>))
      else if name = JsString ''ConflictError'' then Some (ConflictError_new message (Some ''duplicate_resource'') JsUndefined JsUndefined)
      else if name = JsString ''VersionConflictError'' then Some (ConflictError_new message (Some ''version_conflict'') JsUndefined JsUndefined)
      else if name = JsString ''InvalidTransitionError'' then Some (ConflictError_new message (Some ''invalid_state_transition'') JsUndefined JsUndefined)
      else if name = JsString ''HttpTimeoutError'' then Some (AppError_new (errorOptions ''upstream_timeout'' ''Upstream service timed out''))
      else if name = JsString ''HttpRequestError'' then Some (AppError_new (errorOptions ''upstream_failure'' ''Upstream service failed''))
      else None)"

definition code_of_status :: "number \<Rightarrow> string" where
  "code_of_status status =
     (case map_of [(Fin 400, ''validation_failed''), (Fin 401, ''unauthorized''), (Fin 403, ''forbidden''), (Fin 404, ''not_found''),
        (Fin 409, ''duplicate_resource''), (Fin 413, ''payload_too_large''), (Fin 415, ''unsupported_media_type''), (Fin 429, ''rate_limited''),
        (Fin 502, ''upstream_failure''), (Fin 503, ''service_unavailable''), (Fin 504, ''upstream_timeout'')] status of
        Some c \<Rightarrow> c | None \<Rightarrow> ''internal_error'')"

definition translateByStatus :: "js_value \<Rightarrow> string \<Rightarrow> app_error option" where
  "translateByStatus st message =
     (case st of
        JsNumber status \<Rightarrow>
          if num_ge status (Fin 400) \<and> num_lt status (Fin 600)
          then Some (AppError_new ((errorOptions (code_of_status status) (if num_ge status (Fin 500) then ''Internal server error'' else message))
                 \<lparr>op_statusCode := Some status, op_exposeMessage := JsBool (num_lt status (Fin 500))\<rparr>))
          else None
      | _ \<Rightarrow> None)"

text \<open>\<open>translateUnknownError\<close>. An object that looks like a \<open>ConflictError\<close> also looks like an \<open>AppError\<close>, so the second test of the code never fires.\<close>

definition translateUnknownError :: "thrown_value \<Rightarrow> app_error option" where
  "translateUnknownError err =
     (if isAppError err then Some (translateAppError err)
      else if tv_get err ''type'' = JsString ''entity.too.large'' \<or> tv_get err ''status'' = JsNumber (Fin 413)
        then Some (AppError_new (errorOptions ''payload_too_large'' ''Request body too large. Maximum size is 100kb.''))
      else if \<not> is_object err then None
      else (case translateByName (tv_get err ''name'') (error_message err) of
              Some a \<Rightarrow> Some a
            | None \<Rightarrow> translateByStatus (nullish (tv_get err ''statusCode'') (tv_get err ''status'')) (error_message err)))"

definition errorHandler :: "thrown_value \<Rightarrow> bool \<Rightarrow> problem_response option" where
  "errorHandler err headersSent =
     (if headersSent then None
      else Some (sendProblem (appErrorToProblem
        (case translateUnknownError err of
           Some translated \<Rightarrow> translated
         | None \<Rightarrow> (case err of ValThrown (JsString text') \<Rightarrow> AppError_new (errorOptions ''internal_error'' text') | _ \<Rightarrow> internalError ''Internal server error'')))))"

section \<open>The response envelope\<close>

definition ok_response :: "js_value \<Rightarrow> int \<Rightarrow> int \<times> js_value" where
  "ok_response payload statusCode = (statusCode, JsObject [(''data'', payload), (''error'', JsNull)])"

definition fail_message :: "thrown_value \<Rightarrow> int \<Rightarrow> string" where
  "fail_message error statusCode =
     (case error of
        ValThrown (JsString s) \<Rightarrow> s
      | ValThrown _ \<Rightarrow> if statusCode < 500 then ''Bad request'' else ''Internal server error''
      | AppThrown a \<Rightarrow> if statusCode < 500 then ae_message a else ''Internal server error''
      | ErrThrown _ message _ \<Rightarrow> if statusCode < 500 then message else ''Internal server error'')"

definition fail_response :: "thrown_value \<Rightarrow> int \<Rightarrow> int \<times> js_value" where
  "fail_response error statusCode = (statusCode, JsObject [(''data'', JsNull), (''error'', JsString (fail_message error statusCode))])"

section \<open>What a client can see\<close>

definition SAFE_PHRASES :: "string list" where
  "SAFE_PHRASES = [''Internal server error'', ''Upstream service timed out'', ''Upstream service failed'']"

text \<open>A response that says nothing about the server's insides: a listed code, an error status, one of the fixed phrases when the fault is on the server's side.\<close>

definition discreet :: "app_error \<Rightarrow> bool" where
  "discreet a \<longleftrightarrow> num_ge (ae_statusCode a) (Fin 400) \<and> num_lt (ae_statusCode a) (Fin 600) \<and> ae_code a \<in> set (map fst PROBLEM_STATUS) \<and>
     (num_ge (ae_statusCode a) (Fin 500) \<longrightarrow> pd_detail (appErrorToProblem a) \<in> set SAFE_PHRASES)"

lemma problem_fields [simp]:
  "pd_status (appErrorToProblem a) = ae_statusCode a" "pd_code (appErrorToProblem a) = ae_code a" "pd_data (appErrorToProblem a) = JsNull"
  "pd_error (appErrorToProblem a) = pd_detail (appErrorToProblem a)"
  by (simp_all add: appErrorToProblem_def toProblem_def Let_def)

lemma problem_detail:
  "pd_detail (appErrorToProblem a) =
     (if truthy (nullish (ae_exposeMessage a) (JsBool (num_lt (ae_statusCode a) (Fin 500) \<or> isSafeUpstreamStatus (ae_statusCode a))))
      then ae_message a else ''Internal server error'')"
  by (simp add: appErrorToProblem_def toProblem_def Let_def)

lemma taxonomy_error:
  assumes "map_of PROBLEM_STATUS code = Some st" "400 \<le> st" "st < 600" "st < 500 \<or> message \<in> set SAFE_PHRASES"
  shows "discreet (AppError_new (errorOptions code message))" "discreet (AppError_new ((errorOptions code message)\<lparr>op_resource := r\<rparr>))"
proof -
  have "code \<in> set (map fst PROBLEM_STATUS)" using assms(1) map_of_SomeD by force
  then show "discreet (AppError_new (errorOptions code message))" "discreet (AppError_new ((errorOptions code message)\<lparr>op_resource := r\<rparr>))"
    using assms by (auto simp: discreet_def problem_detail AppError_new_def errorOptions_def nullish_def SAFE_PHRASES_def)
qed

lemma conflict_error_discreet: "code \<in> set (map fst PROBLEM_STATUS) \<Longrightarrow> discreet (ConflictError_new m (Some code) r d)"
  by (simp add: discreet_def ConflictError_new_def AppError_new_def errorOptions_def)

lemma named_errors_discreet:
  "discreet (AppError_new (errorOptions ''validation_failed'' m))" "discreet (AppError_new (errorOptions ''unauthorized'' m))"
  "discreet (AppError_new (errorOptions ''forbidden'' m))" "discreet (AppError_new (errorOptions ''not_found'' m))"
  "discreet (AppError_new (errorOptions ''payload_too_large'' m))"
  "discreet (AppError_new ((errorOptions ''not_found'' m)\<lparr>op_resource := r\<rparr>))"
  "discreet (AppError_new (errorOptions ''upstream_timeout'' ''Upstream service timed out''))"
  "discreet (AppError_new (errorOptions ''upstream_failure'' ''Upstream service failed''))"
  by (rule taxonomy_error, simp add: PROBLEM_STATUS_def, simp_all add: SAFE_PHRASES_def)+

lemma if_Some_cases: "(if b then Some x else r) = Some a \<Longrightarrow> P x \<Longrightarrow> (r = Some a \<Longrightarrow> P a) \<Longrightarrow> P a"
  by (simp split: if_splits)

lemma translateByName_discreet: "translateByName name m = Some a \<Longrightarrow> discreet a"
  unfolding translateByName_def
  by (elim if_Some_cases) (simp_all add: named_errors_discreet conflict_error_discreet PROBLEM_STATUS_def)

lemma code_of_status_listed: "code_of_status st \<in> set (map fst PROBLEM_STATUS)"
proof -
  have lookup: "(case map_of xs k of Some c \<Rightarrow> c | None \<Rightarrow> d) \<in> insert d (snd ` set xs)" for xs :: "(number \<times> string) list" and k d
    by (force dest: map_of_SomeD split: option.splits)
  show ?thesis unfolding code_of_status_def by (rule subsetD [OF _ lookup]) (simp add: PROBLEM_STATUS_def)
qed

lemma translateByStatus_discreet: "translateByStatus st m = Some a \<Longrightarrow> discreet a"
  using code_of_status_listed
  by (auto simp: translateByStatus_def discreet_def problem_detail AppError_new_def errorOptions_def nullish_def SAFE_PHRASES_def num_ge_def num_le_def
      split: js_value.splits if_splits)

text \<open>Below 500 the text is the message of the error, or the fixed one for an oversized body.\<close>

definition plain :: "string \<Rightarrow> app_error \<Rightarrow> bool" where
  "plain m a \<longleftrightarrow> (num_lt (ae_statusCode a) (Fin 500) \<longrightarrow> pd_detail (appErrorToProblem a) = m)"

lemma plain_new:
  "plain m (AppError_new (errorOptions code m))" "plain m (AppError_new ((errorOptions code m)\<lparr>op_resource := r\<rparr>))" "plain m (ConflictError_new m c r d)"
  "plain m (AppError_new (errorOptions ''upstream_timeout'' x))" "plain m (AppError_new (errorOptions ''upstream_failure'' x))"
  by (simp_all add: plain_def problem_detail AppError_new_def ConflictError_new_def errorOptions_def nullish_def PROBLEM_STATUS_def)

lemma translateByName_plain: "translateByName name m = Some a \<Longrightarrow> plain m a"
  unfolding translateByName_def by (elim if_Some_cases) (simp_all add: plain_new)

lemma translateByStatus_plain: "translateByStatus st m = Some a \<Longrightarrow> plain m a"
  by (auto simp: translateByStatus_def plain_def problem_detail AppError_new_def errorOptions_def nullish_def num_ge_def num_le_def split: js_value.splits if_splits)

lemma client_errors_show_message:
  assumes "translateUnknownError err = Some a" "\<not> isAppError err" "num_lt (ae_statusCode a) (Fin 500)"
  shows "pd_detail (appErrorToProblem a) \<in> {error_message err, ''Request body too large. Maximum size is 100kb.''}"
proof -
  have "plain ''Request body too large. Maximum size is 100kb.'' a \<or> plain (error_message err) a"
    using assms(1,2) plain_new(1) translateByName_plain translateByStatus_plain by (fastforce simp: translateUnknownError_def split: if_splits option.splits)
  then show ?thesis using assms(3) by (auto simp: plain_def)
qed



text \<open>An unlisted client status gets the code of an internal error, although the problem is the client's: a 422 is reported as \<open>internal_error\<close>.\<close>

lemma unprocessable_is_internal_error:
  "map_option ae_code (translateUnknownError (ValThrown (JsObject [(''status'', JsNumber (Fin 422)), (''message'', JsString ''bad'')]))) = Some ''internal_error''"
  by (simp add: translateUnknownError_def isAppError_def duck_app_error_def is_JsNumber_def js_get_def is_object_def translateByName_def translateByStatus_def
      error_message_def nullish_def code_of_status_def AppError_new_def errorOptions_def)

text \<open>A violated constraint is reported by resource only: neither the constraint name nor the driver's detail or message shows.\<close>

lemma unique_violation_is_discreet:
  assumes "conflictFromUniqueViolation err = Some a"
  shows "discreet a" "\<exists>r. a = ConflictError_new (safeMessage r) (Some ''unique_constraint_violation'') r (JsObject [(''reason'', JsString ''unique_constraint'')]) \<and>
     r \<in> insert JsUndefined (JsString ` set [''credit_line'', ''risk_evaluation'', ''webhook_subscription'', ''event'', ''borrower''])"
proof -
  let ?r = "resourceFromConstraint (tv_get err ''constraint'')"
  have a: "a = ConflictError_new (safeMessage ?r) (Some ''unique_constraint_violation'') ?r (JsObject [(''reason'', JsString ''unique_constraint'')])"
    using assms by (auto simp: conflictFromUniqueViolation_def Let_def split: if_splits)
  then show "discreet a" by (simp add: conflict_error_discreet PROBLEM_STATUS_def)
  have "?r \<in> insert JsUndefined (JsString ` set [''credit_line'', ''risk_evaluation'', ''webhook_subscription'', ''event'', ''borrower''])"
    by (simp add: resourceFromConstraint_def Let_def)
  with a show "\<exists>r. a = ConflictError_new (safeMessage r) (Some ''unique_constraint_violation'') r (JsObject [(''reason'', JsString ''unique_constraint'')]) \<and>
     r \<in> insert JsUndefined (JsString ` set [''credit_line'', ''risk_evaluation'', ''webhook_subscription'', ''event'', ''borrower''])" by blast
qed

end
