(* ===== verification/RiskEvaluation.thy ===== *)
theory RiskEvaluation
  imports Problems Reconciliation JsonParse "HOL-Library.Word"
begin

text \<open>
  Risk evaluation: the service with its cache (\<open>src/services/RiskEvaluationService.ts\<close>), the in-memory repository
  (\<open>src/repositories/memory/InMemoryRiskEvaluationRepository.ts\<close>), the providers (\<open>src/services/providers\<close>) and the wallet endpoint's service
  (\<open>src/services/riskService.ts\<close>). The record \<open>RiskEvaluationRepository\<close> is the TypeScript interface; the locale \<open>risk_repository\<close> states what the service relies
  on and \<open>memrisk\<close> is its interpretation. \<open>Math.log2\<close> and the HTTP exchange of the external provider are arguments.
\<close>

unbundle bit_operations_syntax

record RiskFactor =
  rf_name :: string
  rf_value :: number
  rf_weight :: number
  rf_description :: "string option"

text \<open>An evaluation before it is saved, and with its identifier.\<close>

record NewRiskEvaluation =
  re_walletAddress :: string
  re_riskScore :: number
  re_creditLimit :: string
  re_interestRateBps :: number
  re_factors :: "RiskFactor list"
  re_evaluatedAt :: time
  re_expiresAt :: time

record RiskEvaluation = NewRiskEvaluation +
  re_id :: string

record RiskEvaluationRequest =
  rq_walletAddress :: string
  rq_forceRefresh :: bool
  rq_createOnly :: bool

record RiskEvaluationResult =
  rr_walletAddress :: string
  rr_riskScore :: number
  rr_creditLimit :: string
  rr_interestRateBps :: number
  rr_message :: string

record RiskProviderOutput =
  po_score :: number
  po_factors :: "RiskFactor list"

type_synonym risk_provider = "string \<Rightarrow> thrown_value + RiskProviderOutput"

record 's RiskEvaluationRepository =
  rer_save :: "string \<Rightarrow> NewRiskEvaluation \<Rightarrow> 's \<Rightarrow> (thrown_value + RiskEvaluation) \<times> 's"
  rer_findLatestByWalletAddress :: "'s \<Rightarrow> string \<Rightarrow> RiskEvaluation option"
  rer_findById :: "'s \<Rightarrow> string \<Rightarrow> RiskEvaluation option"
  rer_findByWalletAddress :: "'s \<Rightarrow> string \<Rightarrow> int option \<Rightarrow> int option \<Rightarrow> RiskEvaluation list"
  rer_deleteExpired :: "time \<Rightarrow> 's \<Rightarrow> nat \<times> 's"
  rer_isValid :: "time \<Rightarrow> 's \<Rightarrow> string \<Rightarrow> bool"
  rer_findAll :: "'s \<Rightarrow> int option \<Rightarrow> int option \<Rightarrow> RiskEvaluation list"
  rer_count :: "'s \<Rightarrow> nat"

section \<open>The in-memory repository\<close>

type_synonym risk_map = "(string, RiskEvaluation) jsmap"

definition newest_first :: "RiskEvaluation \<Rightarrow> RiskEvaluation \<Rightarrow> int" where
  "newest_first a b = re_evaluatedAt b - re_evaluatedAt a"

definition with_id :: "string \<Rightarrow> NewRiskEvaluation \<Rightarrow> RiskEvaluation" where
  "with_id i e = NewRiskEvaluation.extend e \<lparr>re_id = i\<rparr>"

definition risk_save :: "string \<Rightarrow> NewRiskEvaluation \<Rightarrow> risk_map \<Rightarrow> (thrown_value + RiskEvaluation) \<times> risk_map" where
  "risk_save uuid evaluation m = (Inr (with_id uuid evaluation), jsmap_set uuid (with_id uuid evaluation) m)"

definition evaluations_of :: "risk_map \<Rightarrow> string \<Rightarrow> RiskEvaluation list" where
  "evaluations_of m walletAddress = js_sort newest_first (filter (\<lambda>e. re_walletAddress e = walletAddress) (jsmap_values m))"

definition risk_findLatest :: "risk_map \<Rightarrow> string \<Rightarrow> RiskEvaluation option" where
  "risk_findLatest m walletAddress = (case evaluations_of m walletAddress of e # _ \<Rightarrow> Some e | [] \<Rightarrow> None)"

definition risk_findByWalletAddress :: "risk_map \<Rightarrow> string \<Rightarrow> int option \<Rightarrow> int option \<Rightarrow> RiskEvaluation list" where
  "risk_findByWalletAddress m walletAddress offset limit =
     (let o1 = (case offset of Some v \<Rightarrow> v | None \<Rightarrow> 0); l1 = (case limit of Some v \<Rightarrow> v | None \<Rightarrow> 100)
      in js_slice (evaluations_of m walletAddress) o1 (o1 + l1))"

definition risk_deleteExpired :: "time \<Rightarrow> risk_map \<Rightarrow> nat \<times> risk_map" where
  "risk_deleteExpired now m =
     (length (filter (\<lambda>e. re_expiresAt e < now) (jsmap_values m)), jsmap_prune (\<lambda>_ e. re_expiresAt e < now) m)"

definition risk_isValid :: "time \<Rightarrow> risk_map \<Rightarrow> string \<Rightarrow> bool" where
  "risk_isValid now m walletAddress = (case risk_findLatest m walletAddress of None \<Rightarrow> False | Some latest \<Rightarrow> now < re_expiresAt latest)"

definition risk_findAll :: "risk_map \<Rightarrow> int option \<Rightarrow> int option \<Rightarrow> RiskEvaluation list" where
  "risk_findAll m offset limit =
     (let o1 = (case offset of Some v \<Rightarrow> v | None \<Rightarrow> 0); l1 = (case limit of Some v \<Rightarrow> v | None \<Rightarrow> 100)
      in js_slice (js_sort newest_first (jsmap_values m)) o1 (o1 + l1))"

definition inMemoryRiskEvaluations :: "risk_map RiskEvaluationRepository" where
  "inMemoryRiskEvaluations = \<lparr>rer_save = risk_save, rer_findLatestByWalletAddress = risk_findLatest, rer_findById = jsmap_get,
     rer_findByWalletAddress = risk_findByWalletAddress, rer_deleteExpired = risk_deleteExpired, rer_isValid = risk_isValid,
     rer_findAll = risk_findAll, rer_count = jsmap_size\<rparr>"

section \<open>The service\<close>

definition performRiskEvaluation :: "risk_provider \<Rightarrow> time \<Rightarrow> string \<Rightarrow> thrown_value + NewRiskEvaluation" where
  "performRiskEvaluation provider now walletAddress =
     ebind (provider walletAddress) (\<lambda>out.
       Inr \<lparr>re_walletAddress = walletAddress, re_riskScore = po_score out,
            re_creditLimit = num_toFixed 2 (num_div (num_mul (Fin 1000) (po_score out)) (Fin 100)),
            re_interestRateBps = num_round (num_add (Fin 500) (num_mul (Fin 500) (num_div (num_sub (Fin 100) (po_score out)) (Fin 100)))),
            re_factors = po_factors out, re_evaluatedAt = now, re_expiresAt = now + 24 * 60 * 60 * 1000\<rparr>)"

definition result_of :: "NewRiskEvaluation \<Rightarrow> string \<Rightarrow> RiskEvaluationResult" where
  "result_of e message = \<lparr>rr_walletAddress = re_walletAddress e, rr_riskScore = re_riskScore e, rr_creditLimit = re_creditLimit e,
     rr_interestRateBps = re_interestRateBps e, rr_message = message\<rparr>"

definition risk_conflict :: app_error where
  "risk_conflict = duplicateResource ''risk_evaluation''
     ''A valid risk evaluation already exists for this wallet. Pass forceRefresh to replace it.''
     (JsObject [(''field'', JsString ''walletAddress''), (''reason'', JsString ''unexpired_evaluation'')])"

text \<open>What the cache answers; \<open>None\<close> is a miss.\<close>

definition cachedRisk :: "'s RiskEvaluationRepository \<Rightarrow> RiskEvaluationRequest \<Rightarrow> time \<Rightarrow> 's \<Rightarrow> (thrown_value + RiskEvaluationResult) option" where
  "cachedRisk R request now s =
     (if rq_forceRefresh request \<or> \<not> rer_isValid R now s (rq_walletAddress request) then None
      else (case rer_findLatestByWalletAddress R s (rq_walletAddress request) of
              None \<Rightarrow> None
            | Some cached \<Rightarrow>
                Some (if rq_createOnly request then Inl (AppThrown risk_conflict)
                      else Inr (result_of (NewRiskEvaluation.truncate cached) ''Using cached risk evaluation''))))"

text \<open>A failed save: application errors pass, unique violations become conflicts.\<close>

definition saveFailure :: "thrown_value \<Rightarrow> thrown_value" where
  "saveFailure err =
     (case err of
        AppThrown a \<Rightarrow> if ae_name a = ''ConflictError'' then err
                        else (case conflictFromUniqueViolation err of Some conflict \<Rightarrow> AppThrown conflict | None \<Rightarrow> err)
      | _ \<Rightarrow> (case conflictFromUniqueViolation err of Some conflict \<Rightarrow> AppThrown conflict | None \<Rightarrow> err))"

definition evaluateRisk ::
  "'s RiskEvaluationRepository \<Rightarrow> risk_provider \<Rightarrow> (nat \<Rightarrow> time) \<Rightarrow> string \<Rightarrow> RiskEvaluationRequest \<Rightarrow> 's \<Rightarrow> (thrown_value + RiskEvaluationResult) \<times> 's" where
  "evaluateRisk R provider clk uuid request s =
     (if rq_walletAddress request = [] then (Inl (ErrThrown ''Error'' ''Wallet address is required'' []), s)
      else (case cachedRisk R request (clk 0) s of
              Some answer \<Rightarrow> (answer, s)
            | None \<Rightarrow>
                (case performRiskEvaluation provider (clk 1) (rq_walletAddress request) of
                   Inl err \<Rightarrow> (Inl err, s)
                 | Inr evaluation \<Rightarrow>
                     (case rer_save R uuid evaluation s of
                        (Inl err, s') \<Rightarrow> (Inl (saveFailure err), s')
                      | (Inr _, s') \<Rightarrow> (Inr (result_of evaluation ''New risk evaluation completed''), s')))))"

definition createRiskEvaluation ::
  "'s RiskEvaluationRepository \<Rightarrow> risk_provider \<Rightarrow> (nat \<Rightarrow> time) \<Rightarrow> string \<Rightarrow> RiskEvaluationRequest \<Rightarrow> 's \<Rightarrow> (thrown_value + RiskEvaluationResult) \<times> 's" where
  "createRiskEvaluation R provider clk uuid request = evaluateRisk R provider clk uuid (request\<lparr>rq_createOnly := True\<rparr>)"

definition getRiskEvaluation :: "'s RiskEvaluationRepository \<Rightarrow> 's \<Rightarrow> string \<Rightarrow> RiskEvaluation option" where
  "getRiskEvaluation R s i = rer_findById R s i"

definition getLatestRiskEvaluation :: "'s RiskEvaluationRepository \<Rightarrow> 's \<Rightarrow> string \<Rightarrow> RiskEvaluation option" where
  "getLatestRiskEvaluation R s w = rer_findLatestByWalletAddress R s w"

definition getRiskEvaluationHistory :: "'s RiskEvaluationRepository \<Rightarrow> 's \<Rightarrow> string \<Rightarrow> int option \<Rightarrow> int option \<Rightarrow> RiskEvaluation list" where
  "getRiskEvaluationHistory R s w offset limit = rer_findByWalletAddress R s w offset limit"

definition cleanupExpiredEvaluations :: "'s RiskEvaluationRepository \<Rightarrow> time \<Rightarrow> 's \<Rightarrow> nat \<times> 's" where
  "cleanupExpiredEvaluations R now s = rer_deleteExpired R now s"

section \<open>The cache\<close>

text \<open>Requests and clean-ups as a sequence of operations.\<close>

datatype risk_op = EvaluateOp risk_provider "nat \<Rightarrow> time" string RiskEvaluationRequest | CleanupOp time

fun risk_step :: "'s RiskEvaluationRepository \<Rightarrow> risk_op \<Rightarrow> 's \<Rightarrow> 's" where
  "risk_step R (EvaluateOp provider clk uuid request) s = snd (evaluateRisk R provider clk uuid request s)"
| "risk_step R (CleanupOp now) s = snd (cleanupExpiredEvaluations R now s)"

text \<open>Operations within the validity of an evaluation that do not force a refresh of its wallet.\<close>

fun within_validity :: "string \<Rightarrow> RiskEvaluation \<Rightarrow> risk_op \<Rightarrow> bool" where
  "within_validity w ev (EvaluateOp provider clk uuid request) \<longleftrightarrow>
     uuid \<noteq> re_id ev \<and> (rq_walletAddress request = w \<longrightarrow> \<not> rq_forceRefresh request \<and> clk 0 < re_expiresAt ev)"
| "within_validity w ev (CleanupOp now) \<longleftrightarrow> now \<le> re_expiresAt ev"

text \<open>What the service relies on. \<open>current s w ev\<close>: \<open>ev\<close> is stored and is the newest evaluation of wallet \<open>w\<close>; \<open>older s w t\<close>: every stored evaluation of \<open>w\<close> was made
  before \<open>t\<close>.\<close>

locale risk_repository =
  fixes R :: "'s RiskEvaluationRepository" and current :: "'s \<Rightarrow> string \<Rightarrow> RiskEvaluation \<Rightarrow> bool" and older :: "'s \<Rightarrow> string \<Rightarrow> time \<Rightarrow> bool"
  assumes latest_current: "current s w ev \<Longrightarrow> rer_findLatestByWalletAddress R s w = Some ev"
    and valid_current: "current s w ev \<Longrightarrow> rer_isValid R now s w \<longleftrightarrow> now < re_expiresAt ev"
    and save_new: "older s w (re_evaluatedAt e) \<Longrightarrow> re_walletAddress e = w \<Longrightarrow> rer_save R uuid e s = (Inr r, s') \<Longrightarrow> current s' w (with_id uuid e)"
    and save_other: "current s w ev \<Longrightarrow> re_walletAddress e \<noteq> w \<Longrightarrow> uuid \<noteq> re_id ev \<Longrightarrow> current (snd (rer_save R uuid e s)) w ev"
    and expire_current: "current s w ev \<Longrightarrow> now \<le> re_expiresAt ev \<Longrightarrow> current (snd (rer_deleteExpired R now s)) w ev"
begin

lemma cache_hit:
  assumes "current s w ev" "rq_walletAddress request = w" "\<not> rq_forceRefresh request" "clk 0 < re_expiresAt ev" "w \<noteq> []"
  shows "evaluateRisk R provider clk uuid request s =
     (if rq_createOnly request then Inl (AppThrown risk_conflict) else Inr (result_of (NewRiskEvaluation.truncate ev) ''Using cached risk evaluation''), s)"
  using assms latest_current [OF assms(1)] valid_current [OF assms(1)] by (simp add: evaluateRisk_def cachedRisk_def)

lemma performed_for: "performRiskEvaluation provider now w = Inr e \<Longrightarrow> re_walletAddress e = w"
  by (auto simp: performRiskEvaluation_def ebind_Inr_iff)

lemma step_current:
  assumes "current s w ev" "within_validity w ev op" "w \<noteq> []"
  shows "current (risk_step R op s) w ev"
proof (cases op)
  case (EvaluateOp provider clk uuid request)
  show ?thesis
  proof (cases "rq_walletAddress request = w")
    case True
    then show ?thesis using cache_hit [OF assms(1) True _ _ assms(3)] assms EvaluateOp by simp
  next
    case False
    have "\<exists>e. performRiskEvaluation provider (clk 1) (rq_walletAddress request) = Inr e \<and> risk_step R op s = snd (rer_save R uuid e s) \<or> risk_step R op s = s"
      by (auto simp: EvaluateOp evaluateRisk_def split: option.splits sum.splits prod.splits)
    then obtain e where "re_walletAddress e = rq_walletAddress request \<and> risk_step R op s = snd (rer_save R uuid e s) \<or> risk_step R op s = s"
      using performed_for by blast
    then show ?thesis using save_other [OF assms(1), of e uuid] assms(1,2) False EvaluateOp by auto
  qed
next
  case (CleanupOp now)
  then show ?thesis using expire_current [OF assms(1)] assms(2) by (simp add: cleanupExpiredEvaluations_def)
qed

lemma steps_current:
  assumes "current s w ev" "list_all (within_validity w ev) ops" "w \<noteq> []"
  shows "current (fold (risk_step R) ops s) w ev"
  using assms by (induction ops arbitrary: s) (simp_all add: step_current)

lemma fresh_evaluation_current:
  assumes "evaluateRisk R provider clk uuid request s = (Inr res, s')" "rr_message res = ''New risk evaluation completed''"
    and "older s (rq_walletAddress request) (clk 1)"
  obtains ev where "current s' (rq_walletAddress request) ev" "re_id ev = uuid" "re_expiresAt ev = clk 1 + 86400000"
    "result_of (NewRiskEvaluation.truncate ev) m = res\<lparr>rr_message := m\<rparr>" "rq_walletAddress request \<noteq> []"
proof -
  have w: "rq_walletAddress request \<noteq> []" using assms(1) by (auto simp: evaluateRisk_def)
  have miss: "cachedRisk R request (clk 0) s = None"
  proof (rule ccontr)
    assume "cachedRisk R request (clk 0) s \<noteq> None"
    then have "\<exists>e. res = result_of e ''Using cached risk evaluation''"
      using assms(1) w by (auto simp: evaluateRisk_def cachedRisk_def split: if_splits option.splits)
    then show False using assms(2) by (auto simp: result_of_def)
  qed
  obtain e r where e: "performRiskEvaluation provider (clk 1) (rq_walletAddress request) = Inr e" "rer_save R uuid e s = (Inr r, s')"
    "res = result_of e ''New risk evaluation completed''"
    using assms(1) w miss by (auto simp: evaluateRisk_def split: sum.splits prod.splits)
  have t: "re_evaluatedAt e = clk 1" "re_expiresAt e = clk 1 + 86400000" using e(1) by (auto simp: performRiskEvaluation_def ebind_Inr_iff)
  have "current s' (rq_walletAddress request) (with_id uuid e)" using save_new [OF _ performed_for [OF e(1)] e(2)] assms(3) t by simp
  then show thesis
    by (rule that) (use e(3) t w in \<open>simp_all add: with_id_def result_of_def NewRiskEvaluation.defs\<close>)
qed

end

text \<open>The in-memory repository keeps the contract.\<close>

definition risk_current :: "risk_map \<Rightarrow> string \<Rightarrow> RiskEvaluation \<Rightarrow> bool" where
  "risk_current m w ev \<longleftrightarrow> jsmap_invar m \<and> jsmap_get m (re_id ev) = Some ev \<and> re_walletAddress ev = w \<and>
     (\<forall>(k, e) \<in> set m. re_walletAddress e = w \<and> k \<noteq> re_id ev \<longrightarrow> re_evaluatedAt e < re_evaluatedAt ev)"

definition risk_older :: "risk_map \<Rightarrow> string \<Rightarrow> time \<Rightarrow> bool" where
  "risk_older m w t \<longleftrightarrow> jsmap_invar m \<and> (\<forall>e \<in> set (jsmap_values m). re_walletAddress e = w \<longrightarrow> re_evaluatedAt e < t)"

interpretation newest: comparator newest_first
  by unfold_locales (auto simp: newest_first_def)

lemma risk_findLatest_current:
  assumes "risk_current m w ev"
  shows "risk_findLatest m w = Some ev"
proof -
  have mem: "(re_id ev, ev) \<in> set m" using assms by (auto simp: risk_current_def dest: jsmap_get_in_set)
  then have ev: "ev \<in> set (evaluations_of m w)" using assms by (force simp: evaluations_of_def jsmap_values_def risk_current_def)
  then obtain h t where ht: "evaluations_of m w = h # t" by (cases "evaluations_of m w") auto
  have "h = ev"
  proof (rule ccontr)
    assume "h \<noteq> ev"
    then have "ev \<in> set t" using ev ht by auto
    then have le: "re_evaluatedAt ev \<le> re_evaluatedAt h"
      using newest.sorted_js_sort [of "filter (\<lambda>e. re_walletAddress e = w) (jsmap_values m)"] ht by (auto simp: evaluations_of_def newest_first_def)
    have "h \<in> set (evaluations_of m w)" by (simp add: ht)
    then obtain k where k: "(k, h) \<in> set m" "re_walletAddress h = w" by (auto simp: evaluations_of_def jsmap_values_def)
    moreover have "k \<noteq> re_id ev" using k(1) mem \<open>h \<noteq> ev\<close> assms jsmap_in_set_iff [of m] by (auto simp: risk_current_def)
    ultimately have "re_evaluatedAt h < re_evaluatedAt ev" using assms by (auto simp: risk_current_def)
    then show False using le by simp
  qed
  then show ?thesis by (simp add: risk_findLatest_def ht)
qed

lemma in_jsmap_set: "(k, e) \<in> set (jsmap_set i v m) \<Longrightarrow> jsmap_invar m \<Longrightarrow> k \<noteq> i \<Longrightarrow> (k, e) \<in> set m"
  using jsmap_in_set_iff [of "jsmap_set i v m" k e] jsmap_in_set_iff [of m k e] by simp

interpretation memrisk: risk_repository inMemoryRiskEvaluations risk_current risk_older
proof
  fix m :: risk_map and w ev now uuid and e :: NewRiskEvaluation and r m'
  show "risk_current m w ev \<Longrightarrow> rer_findLatestByWalletAddress inMemoryRiskEvaluations m w = Some ev"
    by (simp add: inMemoryRiskEvaluations_def risk_findLatest_current)
  show "risk_current m w ev \<Longrightarrow> rer_isValid inMemoryRiskEvaluations now m w \<longleftrightarrow> now < re_expiresAt ev"
    by (simp add: inMemoryRiskEvaluations_def risk_isValid_def risk_findLatest_current)
  show "risk_current m' w (with_id uuid e)" if old: "risk_older m w (re_evaluatedAt e)" and "re_walletAddress e = w"
    and sv: "rer_save inMemoryRiskEvaluations uuid e m = (Inr r, m')"
  proof -
    have m': "m' = jsmap_set uuid (with_id uuid e) m" using sv by (auto simp: inMemoryRiskEvaluations_def risk_save_def)
    have i: "re_id (with_id uuid e) = uuid" "re_walletAddress (with_id uuid e) = re_walletAddress e" "re_evaluatedAt (with_id uuid e) = re_evaluatedAt e"
      by (simp_all add: with_id_def NewRiskEvaluation.defs)
    have "re_evaluatedAt x < re_evaluatedAt e" if "(k, x) \<in> set m'" "re_walletAddress x = w" "k \<noteq> uuid" for k x
    proof -
      have "(k, x) \<in> set m" using in_jsmap_set [of k x uuid] that old by (auto simp: m' risk_older_def)
      then show ?thesis using old that(2) by (force simp: risk_older_def jsmap_values_def)
    qed
    then show ?thesis using old that(2) i by (auto simp: risk_current_def m' risk_older_def)
  qed
  show "risk_current (snd (rer_save inMemoryRiskEvaluations uuid e m)) w ev" if cur: "risk_current m w ev" and "re_walletAddress e \<noteq> w" "uuid \<noteq> re_id ev"
  proof -
    have i: "re_walletAddress (with_id uuid e) = re_walletAddress e" by (simp add: with_id_def NewRiskEvaluation.defs)
    have "re_evaluatedAt x < re_evaluatedAt ev" if x: "(k, x) \<in> set (jsmap_set uuid (with_id uuid e) m)" "re_walletAddress x = w" "k \<noteq> re_id ev" for k x
    proof (cases "k = uuid")
      case True
      have "jsmap_get (jsmap_set uuid (with_id uuid e) m) k = Some x" using x(1) cur jsmap_in_set_iff jsmap_invar_set by (metis risk_current_def)
      then show ?thesis using True x(2) that i \<open>re_walletAddress e \<noteq> w\<close> by auto
    next
      case False
      then have "(k, x) \<in> set m" using in_jsmap_set [OF x(1)] cur by (auto simp: risk_current_def)
      then show ?thesis using cur x by (auto simp: risk_current_def)
    qed
    then show ?thesis using cur \<open>uuid \<noteq> re_id ev\<close> by (auto simp: risk_current_def inMemoryRiskEvaluations_def risk_save_def)
  qed
  show "risk_current (snd (rer_deleteExpired inMemoryRiskEvaluations now m)) w ev" if cur: "risk_current m w ev" and "now \<le> re_expiresAt ev"
  proof -
    have "jsmap_get (jsmap_prune (\<lambda>_ e. re_expiresAt e < now) m) (re_id ev) = Some ev" using that by (simp add: risk_current_def)
    moreover have "set (jsmap_prune (\<lambda>_ e. re_expiresAt e < now) m) \<subseteq> set m" by (auto simp: jsmap_prune_def)
    ultimately show ?thesis using cur unfolding risk_current_def inMemoryRiskEvaluations_def by (auto simp: risk_deleteExpired_def)
  qed
qed

text \<open>
  C23. A risk evaluation is reused until it expires. After a fresh evaluation of a wallet, and any sequence of other requests and clean-ups within its 24 hours that do not force a
  refresh of that wallet, a request for the wallet is answered with the same score, limit and rate and changes nothing; the provider is not consulted. A create-only
  request is refused with the conflict instead.
\<close>

theorem cached_evaluation_reused:
  assumes "evaluateRisk inMemoryRiskEvaluations provider clk uuid request m = (Inr res, m1)" "rr_message res = ''New risk evaluation completed''"
    and "risk_older m (rq_walletAddress request) (clk 1)"
    and "list_all (\<lambda>op. case op of
           EvaluateOp _ clk' uuid' request' \<Rightarrow> uuid' \<noteq> uuid \<and>
             (rq_walletAddress request' = rq_walletAddress request \<longrightarrow> \<not> rq_forceRefresh request' \<and> clk' 0 < clk 1 + 86400000)
         | CleanupOp now \<Rightarrow> now \<le> clk 1 + 86400000) between"
    and "m2 = fold (risk_step inMemoryRiskEvaluations) between m1"
    and "rq_walletAddress request2 = rq_walletAddress request" "\<not> rq_forceRefresh request2" "clk2 0 < clk 1 + 86400000"
  shows "evaluateRisk inMemoryRiskEvaluations provider2 clk2 uuid2 request2 m2 =
     (if rq_createOnly request2 then Inl (AppThrown risk_conflict) else Inr (res\<lparr>rr_message := ''Using cached risk evaluation''\<rparr>), m2)"
proof -
  obtain ev where ev: "risk_current m1 (rq_walletAddress request) ev" "re_id ev = uuid" "re_expiresAt ev = clk 1 + 86400000"
    "result_of (NewRiskEvaluation.truncate ev) ''Using cached risk evaluation'' = res\<lparr>rr_message := ''Using cached risk evaluation''\<rparr>" "rq_walletAddress request \<noteq> []"
    using memrisk.fresh_evaluation_current [OF assms(1-3)] by metis
  have "list_all (within_validity (rq_walletAddress request) ev) between"
    using assms(4) by (rule list.pred_mono_strong) (auto simp: ev(2,3) split: risk_op.splits)
  then have "risk_current m2 (rq_walletAddress request) ev" using memrisk.steps_current [OF ev(1)] ev(5) by (simp add: assms(5))
  from memrisk.cache_hit [OF this assms(6,7) _ ev(5)] show ?thesis using ev(3,4) assms(8) by simp
qed

section \<open>Economics\<close>

lemma toFixed_whole:
  assumes "int n < 10 ^ 21"
  shows "decimal_value (num_toFixed 2 (Fin (of_nat n))) = Some (of_nat n)"
proof -
  have "\<lfloor>of_nat n * 10 ^ 2 + 1 / 2 :: rat\<rfloor> = int (100 * n)" by (rule floor_unique) simp_all
  then have f: "nat \<lfloor>of_nat n * 10 ^ 2 + 1 / 2 :: rat\<rfloor> = nat \<bar>int (100 * n)\<bar>" by simp
  let ?ds = "js_padStart (2 + 1) (CHR ''0'') (digits_of_nat (nat \<bar>int (100 * n)\<bar>))"
  have len: "drop (length ?ds - 2) ?ds \<noteq> []" using pad_digits(2) [of 2 "nat \<bar>int (100 * n)\<bar>"] by simp
  have big: "\<not> (of_nat n :: rat) \<ge> 10 ^ 21" using assms by (metis not_le of_int_less_iff of_int_numeral of_int_of_nat_eq of_int_power)
  have "num_toFixed 2 (Fin (of_nat n)) = pos_toFixed 2 (of_nat n)" using big by simp
  also have "\<dots> = take (length ?ds - 2) ?ds @ ''.'' @ drop (length ?ds - 2) ?ds" unfolding pos_toFixed_def Let_def f by (rule if_not_P) simp
  finally have "num_toFixed 2 (Fin (of_nat n)) = take (length ?ds - 2) ?ds @ ''.'' @ drop (length ?ds - 2) ?ds" .
  then show ?thesis using fixed_point_value(2) [where big = "int (100 * n)" and d = 2] len by simp
qed

lemma rate_rounding:
  assumes "n \<le> 100"
  shows "num_round (num_add (Fin 500) (num_mul (Fin 500) (num_div (num_sub (Fin 100) (Fin (of_nat n))) (Fin 100)))) = Fin (of_nat (1000 - 5 * n))"
proof -
  define q :: rat where "q = of_nat (100 - n) / 100"
  define k where "k = \<lfloor>q * 2 ^ 10\<rfloor>"
  have q: "0 \<le> q" "q \<le> 1" by (simp_all add: q_def)
  have k: "of_int k / 2 ^ 10 \<le> q" "q \<le> of_int (k + 1) / 2 ^ 10" "0 \<le> k" "k \<le> 1024"
    using q of_int_floor_le [of "q * 2 ^ 10"] floor_correct [of "q * 2 ^ 10"] by (auto simp: k_def field_simps floor_le_iff)
  have sub: "num_sub (Fin 100) (Fin (of_nat n)) = Fin (of_nat (100 - n))" using dround_int [of "100 - int n"] assms by (simp add: of_nat_diff)
  have a0: "0 \<le> (of_int k / 2 ^ 10 :: rat)" using k(3) by simp
  obtain x where x: "dround q = Fin x" "of_int k / 2 ^ 10 \<le> x" "x \<le> of_int (k + 1) / 2 ^ 10"
    using dround_between [OF a0 k(1,2) is_double_dyadic is_double_dyadic] k(3,4) by auto
  have "is_double (Fin (of_int (500 * k) / 2 ^ 10))" "is_double (Fin (of_int (500 * (k + 1)) / 2 ^ 10))" using k by (intro is_double_dyadic; simp)+
  then obtain y where y: "dround (500 * x) = Fin y" "of_int (500 * k) / 2 ^ 10 \<le> y" "y \<le> of_int (500 * (k + 1)) / 2 ^ 10"
    using dround_between [of "of_int (500 * k) / 2 ^ 10" "500 * x" "of_int (500 * (k + 1)) / 2 ^ 10"] x(2,3) k(3) by (auto simp: field_simps)
  have "is_double (Fin (of_int (512000 + 500 * k) / 2 ^ 10))" "is_double (Fin (of_int (512000 + 500 * (k + 1)) / 2 ^ 10))" using k by (intro is_double_dyadic; simp)+
  then obtain z where z: "dround (500 + y) = Fin z" "of_int (512000 + 500 * k) / 2 ^ 10 \<le> z" "z \<le> of_int (512000 + 500 * (k + 1)) / 2 ^ 10"
    using dround_between [of "of_int (512000 + 500 * k) / 2 ^ 10" "500 + y" "of_int (512000 + 500 * (k + 1)) / 2 ^ 10"] y(2,3) k(3) by (auto simp: field_simps)
  have exact: "(of_nat (1000 - 5 * n) :: rat) = 500 + 500 * q" using assms by (simp add: q_def of_nat_diff field_simps)
  have "\<lfloor>z + 1 / 2\<rfloor> = int (1000 - 5 * n)"
    by (rule floor_unique) (use z(2,3) k(1,2) exact in \<open>simp_all add: field_simps\<close>)
  then show ?thesis using x(1) y(1) z(1) unfolding sub by (simp add: q_def)
qed

lemma evaluation_terms:
  assumes "provider w = Inr out" "po_score out = Fin (of_nat n)" "n \<le> 100"
  shows "\<exists>e. performRiskEvaluation provider now w = Inr e \<and> decimal_value (re_creditLimit e) = Some (of_nat (10 * n)) \<and>
     re_interestRateBps e = Fin (of_nat (1000 - 5 * n)) \<and> re_riskScore e = Fin (of_nat n) \<and> re_factors e = po_factors out \<and>
     re_walletAddress e = w \<and> re_evaluatedAt e = now \<and> re_expiresAt e = now + 86400000"
proof -
  have "num_mul (Fin 1000) (Fin (of_nat n)) = Fin (of_nat (1000 * n))" using dround_int [of "1000 * int n"] assms(3) by simp
  then have "num_div (num_mul (Fin 1000) (Fin (of_nat n))) (Fin 100) = Fin (of_nat (10 * n))" using dround_int [of "10 * int n"] assms(3) by simp
  moreover have "int (10 * n) < 10 ^ 21" using assms(3) by simp
  ultimately show ?thesis
    using toFixed_whole [of "10 * n"] rate_rounding [OF assms(3)] assms(1,2) by (simp add: performRiskEvaluation_def)
qed

text \<open>
  The economics of an evaluation. For a whole score \<open>n\<close> between 0 and 100 the credit limit denotes exactly \<open>10 n\<close> (ten units per point, at most 1000) and the rate is exactly \<open>1000 - 5 n\<close> basis points
  (between 500 and 1000): floating-point rounding never shows, and a higher score never gives a lower limit or a higher rate. The evaluation expires 24 hours after it is made.
\<close>

theorem risk_economics:
  assumes "provider w = Inr out" "po_score out = Fin (of_nat n)" "n \<le> 100"
  shows "\<exists>e. performRiskEvaluation provider now w = Inr e \<and> decimal_value (re_creditLimit e) = Some (of_nat (10 * n)) \<and>
     re_interestRateBps e = Fin (of_nat (1000 - 5 * n)) \<and> re_riskScore e = Fin (of_nat n) \<and> re_factors e = po_factors out \<and>
     re_walletAddress e = w \<and> re_evaluatedAt e = now \<and> re_expiresAt e = now + 86400000"
  by (rule evaluation_terms [of provider w out n, OF assms])

section \<open>Providers\<close>

text \<open>\<open>freq\<close>: how often each character occurs; then \<open>Object.values\<close>, which lists digit keys in ascending order before the others in insertion order.\<close>

definition char_freq :: "string \<Rightarrow> (char, nat) jsmap" where
  "char_freq address = foldl (\<lambda>m ch. jsmap_set ch (case jsmap_get m ch of Some n \<Rightarrow> n + 1 | None \<Rightarrow> 1) m) jsmap_empty address"

definition object_values :: "(char, 'v) jsmap \<Rightarrow> 'v list" where
  "object_values m = map snd (sort_key (\<lambda>p. digit_val (fst p)) (filter (\<lambda>p. is_digit (fst p)) m)) @ map snd (filter (\<lambda>p. \<not> is_digit (fst p)) m)"

definition addressEntropy :: "(number \<Rightarrow> number) \<Rightarrow> string \<Rightarrow> number" where
  "addressEntropy log2 address =
     foldl (\<lambda>h count. let p = num_div (Fin (of_nat count)) (Fin (of_nat (length address))) in num_sub h (num_mul p (log2 p))) (Fin 0)
       (object_values (char_freq address))"

text \<open>FNV-1a on 32 bits: \<open>Math.imul\<close> followed by \<open>>>> 0\<close> is multiplication modulo two to the 32.\<close>

definition deterministicHash :: "string \<Rightarrow> 32 word" where
  "deterministicHash input = foldl (\<lambda>h c. (h XOR of_nat (of_char c)) * 0x01000193) 0x811c9dc5 input"

record Rule =
  ru_name :: string
  ru_description :: string
  ru_weight :: number
  ru_evaluate :: "string \<Rightarrow> number"

definition defaultRules :: "(number \<Rightarrow> number) \<Rightarrow> Rule list" where
  "defaultRules log2 =
     [\<lparr>ru_name = ''address_entropy'', ru_description = ''Entropy of the address character distribution'', ru_weight = dround (35 / 100),
       ru_evaluate = (\<lambda>address. num_min (num_div (addressEntropy log2 address) (log2 (Fin 32))) (Fin 1))\<rparr>,
      \<lparr>ru_name = ''address_hash_spread'', ru_description = ''Uniform hash spread across the address'', ru_weight = dround (4 / 10),
       ru_evaluate = (\<lambda>address. num_div (Fin (of_nat (unat (deterministicHash address) mod 1000))) (Fin 1000))\<rparr>,
      \<lparr>ru_name = ''address_prefix_score'', ru_description = ''Score derived from the leading characters of the address'', ru_weight = dround (25 / 100),
       ru_evaluate = (\<lambda>address. num_div (Fin (of_nat (unat (deterministicHash (js_slice address 1 9)) mod 500))) (Fin 500))\<rparr>]"

definition RulesEngineRiskProvider_new :: "Rule list \<Rightarrow> thrown_value + Rule list" where
  "RulesEngineRiskProvider_new rules =
     (if rules = [] then Inl (ErrThrown ''Error'' ''RulesEngineRiskProvider requires at least one rule.'' [])
      else let totalWeight = foldl (\<lambda>acc r. num_add acc (ru_weight r)) (Fin 0) rules
           in if num_gt (num_abs (num_sub totalWeight (Fin 1))) (dround (1 / 1000))
              then Inl (ErrThrown ''Error'' (''Rule weights must sum to 1.0, got '' @ num_toFixed 3 totalWeight @ ''.'') [])
              else Inr rules)"

definition RulesEngineRiskProvider_evaluate :: "Rule list \<Rightarrow> risk_provider" where
  "RulesEngineRiskProvider_evaluate rules walletAddress =
     (let factors = map (\<lambda>rule. \<lparr>rf_name = ru_name rule, rf_value = ru_evaluate rule walletAddress, rf_weight = ru_weight rule,
            rf_description = Some (ru_description rule)\<rparr>) rules;
          score = num_round (num_mul (foldl (\<lambda>acc f. num_add acc (num_mul (rf_value f) (rf_weight f))) (Fin 0) factors) (Fin 100))
      in Inr \<lparr>po_score = num_min (num_max score (Fin 0)) (Fin 100), po_factors = factors\<rparr>)"

definition StaticRiskProvider_evaluate :: "number option \<Rightarrow> risk_provider" where
  "StaticRiskProvider_evaluate score walletAddress =
     (let fixedScore = (case score of Some s \<Rightarrow> s | None \<Rightarrow> Fin 65)
      in Inr \<lparr>po_score = fixedScore, po_factors = [\<lparr>rf_name = ''static_baseline'', rf_value = num_div fixedScore (Fin 100), rf_weight = Fin 1,
           rf_description = Some ''Fixed baseline score for all addresses''\<rparr>]\<rparr>)"

record ExternalApiRiskProviderConfig =
  xp_baseUrl :: string
  xp_apiKey :: string
  xp_timeoutMs :: number

definition ExternalApiRiskProvider_new :: "ExternalApiRiskProviderConfig \<Rightarrow> thrown_value + ExternalApiRiskProviderConfig" where
  "ExternalApiRiskProvider_new config =
     (if xp_baseUrl config = [] \<or> xp_apiKey config = [] then Inl (ErrThrown ''Error'' ''ExternalApiRiskProvider requires baseUrl and apiKey.'' [])
      else Inr config)"

record external_request =
  xq_url :: string
  xq_authorization :: string
  xq_body :: string
  xq_connectTimeoutMs :: number

text \<open>The reply: the message of the error \<open>fetch\<close> throws, or a status and the decoded body, taken to have the declared shape.\<close>

datatype external_reply = ExternalThrows string | ExternalResponse int RiskProviderOutput

definition ExternalApiRiskProvider_evaluate :: "(external_request \<Rightarrow> external_reply) \<Rightarrow> ExternalApiRiskProviderConfig \<Rightarrow> risk_provider" where
  "ExternalApiRiskProvider_evaluate fetch config walletAddress =
     (case fetch \<lparr>xq_url = xp_baseUrl config @ ''/evaluate'', xq_authorization = ''Bearer '' @ xp_apiKey config,
                  xq_body = json_stringify (JObj [(''walletAddress'', JStr walletAddress)]), xq_connectTimeoutMs = xp_timeoutMs config\<rparr> of
        ExternalThrows m \<Rightarrow> Inl (ErrThrown ''Error'' (''External risk provider request failed: '' @ m) [])
      | ExternalResponse status out \<Rightarrow>
          if \<not> (200 \<le> status \<and> status \<le> 299) then Inl (ErrThrown ''Error'' (''External risk provider returned HTTP '' @ show_int status @ ''.'') [])
          else Inr \<lparr>po_score = num_min (num_max (num_round (po_score out)) (Fin 0)) (Fin 100), po_factors = po_factors out\<rparr>)"

text \<open>\<open>createRiskProvider\<close>: the provider with its name, or the error of its constructor.\<close>

definition createRiskProvider ::
  "(number \<Rightarrow> number) \<Rightarrow> (external_request \<Rightarrow> external_reply) \<Rightarrow> (string \<Rightarrow> string option) \<Rightarrow> string option \<Rightarrow> thrown_value + string \<times> risk_provider" where
  "createRiskProvider log2 fetch env override =
     (let name = (case override of Some n \<Rightarrow> n | None \<Rightarrow> (case env ''RISK_PROVIDER'' of Some n \<Rightarrow> n | None \<Rightarrow> ''rules''))
      in if name = ''static'' then Inr (''static'', StaticRiskProvider_evaluate None)
         else if name = ''external''
           then ebind (ExternalApiRiskProvider_new
                   \<lparr>xp_baseUrl = (case env ''RISK_PROVIDER_API_URL'' of Some v \<Rightarrow> v | None \<Rightarrow> []),
                    xp_apiKey = (case env ''RISK_PROVIDER_API_KEY'' of Some v \<Rightarrow> v | None \<Rightarrow> []),
                    xp_timeoutMs = (case env ''RISK_PROVIDER_TIMEOUT_MS'' of Some v \<Rightarrow> js_Number v | None \<Rightarrow> Fin 5000)\<rparr>)
                  (\<lambda>config. Inr (''external'', ExternalApiRiskProvider_evaluate fetch config))
         else ebind (RulesEngineRiskProvider_new (defaultRules log2)) (\<lambda>rules. Inr (''rules'', RulesEngineRiskProvider_evaluate rules)))"

section \<open>The wallet endpoint's service\<close>

datatype RiskLevel = LowRisk | MediumRisk | HighRisk

text \<open>\<open>/^G[A-Z2-7]{55}$/\<close>.\<close>

definition isValidStellarAddress :: "string \<Rightarrow> bool" where
  "isValidStellarAddress address \<longleftrightarrow> (case address of c # cs \<Rightarrow> c = CHR ''G'' \<and> length cs = 55 \<and> list_all is_key_char cs | [] \<Rightarrow> False)"

definition scoreToRiskLevel :: "number \<Rightarrow> RiskLevel" where
  "scoreToRiskLevel score = (if num_lt score (Fin 40) then LowRisk else if num_lt score (Fin 70) then MediumRisk else HighRisk)"

record wallet_evaluation =
  we_walletAddress :: string
  we_score :: number
  we_riskLevel :: RiskLevel
  we_message :: string
  we_evaluatedAt :: time

definition evaluateWallet :: "string \<Rightarrow> string \<times> risk_provider \<Rightarrow> time \<Rightarrow> thrown_value + wallet_evaluation" where
  "evaluateWallet walletAddress provider now =
     (if \<not> isValidStellarAddress walletAddress then Inl (ErrThrown ''InvalidWalletAddressError'' ''Invalid wallet address format.'' [])
      else ebind (snd provider walletAddress) (\<lambda>out.
        Inr \<lparr>we_walletAddress = walletAddress, we_score = po_score out, we_riskLevel = scoreToRiskLevel (po_score out),
             we_message = ''Risk evaluation completed via '' @ [CHR 0x27] @ fst provider @ [CHR 0x27] @ '' provider.'', we_evaluatedAt = now\<rparr>))"

section \<open>Scores of the default provider\<close>

text \<open>A number that is not negative and not \<open>NaN\<close>.\<close>

definition nonneg :: "number \<Rightarrow> bool" where
  "nonneg x \<longleftrightarrow> x = PosInf \<or> (\<exists>q \<ge> 0. x = Fin q)"

definition unit_interval :: "number \<Rightarrow> bool" where
  "unit_interval x \<longleftrightarrow> (\<exists>q. x = Fin q \<and> 0 \<le> q \<and> q \<le> 1)"

lemma nonneg_dround: "0 \<le> q \<Longrightarrow> nonneg (dround q)"
  using dround_nonneg [of q] by (auto simp: nonneg_def)

lemma nonneg_add: "nonneg x \<Longrightarrow> nonneg y \<Longrightarrow> nonneg (num_add x y)"
  by (auto simp: nonneg_def dest: dround_nonneg [OF add_nonneg_nonneg])

lemma nonneg_mul_Fin: "0 \<le> a \<Longrightarrow> 0 \<le> b \<Longrightarrow> nonneg (num_mul (Fin a) (Fin b))"
  by (simp add: nonneg_dround)

lemma unit_div: "k < d \<Longrightarrow> unit_interval (num_div (Fin (of_nat k)) (Fin (of_nat d)))"
proof -
  assume "k < d"
  then obtain v where "dround (of_nat k / of_nat d) = Fin v" "0 \<le> v" "v \<le> 1"
    using dround_between [of 0 "of_nat k / of_nat d" 1] is_double_int [of 1] by auto
  then show ?thesis using \<open>k < d\<close> by (simp add: unit_interval_def)
qed

lemma clamp_score:
  assumes "nonneg x"
  shows "\<exists>n \<le> 100. num_min (num_max (num_round (num_mul x (Fin 100))) (Fin 0)) (Fin 100) = Fin (of_nat n)"
proof -
  have "nonneg (num_mul x (Fin 100))"
  proof (cases "x = PosInf")
    case False
    then obtain q where "x = Fin q" "0 \<le> q" using assms by (auto simp: nonneg_def)
    then show ?thesis using nonneg_mul_Fin [of q 100] by simp
  qed (simp add: nonneg_def inf_of_sign_def)
  then consider "num_round (num_mul x (Fin 100)) = PosInf" | i where "num_round (num_mul x (Fin 100)) = Fin (of_nat i)"
    by (auto simp: nonneg_def) (metis add_nonneg_nonneg floor_of_nat floor_mono of_int_of_nat_eq zero_le_floor zero_le_imp_eq_int zero_le_divide_1_iff zero_le_numeral)
  then show ?thesis
  proof cases
    case 1
    then show ?thesis by (intro exI [of _ 100]) (simp add: num_max_def num_min_def)
  next
    case (2 i)
    then show ?thesis by (intro exI [of _ "min i 100"]) (auto simp: num_max_def num_min_def min_def)
  qed
qed

lemma weighted_sum_nonneg:
  assumes "\<forall>f \<in> set fs. unit_interval (rf_value f) \<and> (\<exists>w \<ge> 0. rf_weight f = Fin w)" "nonneg x"
  shows "nonneg (foldl (\<lambda>acc f. num_add acc (num_mul (rf_value f) (rf_weight f))) x fs)"
  using assms
proof (induction fs arbitrary: x)
  case (Cons f fs)
  then have "nonneg (num_mul (rf_value f) (rf_weight f))" by (auto simp: unit_interval_def nonneg_dround)
  then show ?case using Cons by (simp add: nonneg_add)
qed simp

lemma char_freq_counts:
  "n \<in> set (jsmap_values (foldl (\<lambda>m ch. jsmap_set ch (case jsmap_get m ch of Some n \<Rightarrow> n + 1 | None \<Rightarrow> 1) m) m0 s)) \<Longrightarrow>
     jsmap_invar m0 \<Longrightarrow> \<forall>k \<in> set (jsmap_values m0). 1 \<le> k \<and> k \<le> L \<Longrightarrow> 1 \<le> n \<and> n \<le> L + length s"
proof (induction s arbitrary: m0 L)
  case (Cons c s)
  let ?m = "jsmap_set c (case jsmap_get m0 c of Some n \<Rightarrow> n + 1 | None \<Rightarrow> 1) m0"
  have "\<forall>k \<in> set (jsmap_values ?m). 1 \<le> k \<and> k \<le> Suc L"
  proof
    fix k assume "k \<in> set (jsmap_values ?m)"
    then obtain i where "jsmap_get ?m i = Some k" using Cons.prems(2) by (auto simp: jsmap_values_iff)
    then consider "jsmap_get m0 i = Some k" | n where "jsmap_get m0 c = Some n" "k = n + 1" | "k = 1" by (auto split: if_splits option.splits)
    then show "1 \<le> k \<and> k \<le> Suc L" using Cons.prems(3) jsmap_get_in_values by cases fastforce+
  qed
  then show ?case using Cons.IH [of ?m "Suc L"] Cons.prems by simp
qed auto

lemma object_values_subset: "set (object_values m) \<subseteq> set (jsmap_values m)"
  by (auto simp: object_values_def jsmap_values_def)

lemma frequency_range:
  assumes "n \<in> set (object_values (char_freq s))"
  shows "1 \<le> n" "n \<le> length s"
proof -
  have "n \<in> set (jsmap_values (char_freq s))" using subsetD [OF object_values_subset assms] .
  from char_freq_counts [OF this [unfolded char_freq_def], of 0] have "1 \<le> n \<and> n \<le> length s" by (simp add: jsmap_values_def jsmap_empty_def)
  then show "1 \<le> n" "n \<le> length s" by simp_all
qed

text \<open>What \<open>Math.log2\<close> is documented to do on the arguments that occur.\<close>

definition log2_ok :: "(number \<Rightarrow> number) \<Rightarrow> bool" where
  "log2_ok log2 \<longleftrightarrow> log2 (Fin 32) = Fin 5 \<and> (\<forall>q. 0 < q \<and> q \<le> 1 \<longrightarrow> (\<exists>v \<le> 0. log2 (Fin q) = Fin v))"

lemma foldl_keeps:
  assumes "P a" "\<And>b x. P b \<Longrightarrow> x \<in> set xs \<Longrightarrow> P (f b x)"
  shows "P (foldl f a xs)"
  using assms by (induction xs arbitrary: a) simp_all

lemma entropy_nonneg:
  assumes "log2_ok log2" "length address \<le> 1024"
  shows "nonneg (addressEntropy log2 address)"
proof -
  let ?L = "length address"
  have step: "nonneg (num_sub h (num_mul (num_div (Fin (of_nat n)) (Fin (of_nat ?L))) (log2 (num_div (Fin (of_nat n)) (Fin (of_nat ?L))))))"
    if "nonneg h" "1 \<le> n" "n \<le> ?L" for h n
  proof -
    note count = that
    have "real (length address) \<le> 1024 * real n" using assms(2) that(2) by linarith
    then have "(of_nat ?L :: rat) \<le> 1024 * of_nat n" by (metis of_nat_le_iff of_nat_mult of_nat_numeral)
    moreover have "?L > 0" using that by linarith
    then have "(0 :: rat) < of_nat ?L" by (simp only: of_nat_0_less_iff)
    ultimately have "(of_int 1 / 2 ^ 10 :: rat) \<le> of_nat n / of_nat ?L" by (simp only: le_divide_eq if_True) simp
    then obtain p where p: "dround (of_nat n / of_nat ?L) = Fin p" "of_int 1 / 2 ^ 10 \<le> p" "p \<le> 1"
    proof (rule dround_between [rotated 1])
      show "(0 :: rat) \<le> of_int 1 / 2 ^ 10" by simp
      show "(of_nat n / of_nat ?L :: rat) \<le> 1" using count(3) by (simp add: divide_le_eq_1)
      show "is_double (Fin (of_int 1 / 2 ^ 10))" by (rule is_double_dyadic) simp
      show "is_double (Fin 1)" using is_double_int [of 1] by simp
    qed
    then have p0: "0 < p" by simp
    then obtain v where v: "log2 (Fin p) = Fin v" "v \<le> 0" using assms(1) p(3) by (auto simp: log2_ok_def)
    have "nonneg (num_neg (dround (p * v)))" using nonneg_dround [of "p * - v"] p0 v(2) dround_uminus [of "p * v"] by (simp add: mult_nonneg_nonpos)
    then have "nonneg (num_sub h (dround (p * v)))" using nonneg_add [OF that(1)] by (simp add: num_sub_def)
    moreover have "address \<noteq> []" using count by auto
    ultimately show ?thesis using p(1) v(1) by simp
  qed
  have "nonneg (foldl (\<lambda>h count. let p = num_div (Fin (of_nat count)) (Fin (of_nat ?L)) in num_sub h (num_mul p (log2 p))) (Fin 0) (object_values (char_freq address)))"
  proof (rule foldl_keeps [where P = nonneg])
    show "nonneg (Fin 0)" by (simp add: nonneg_def)
  next
    fix h n
    assume "nonneg h" "n \<in> set (object_values (char_freq address))"
    then show "nonneg (let p = num_div (Fin (of_nat n)) (Fin (of_nat ?L)) in num_sub h (num_mul p (log2 p)))"
      unfolding Let_def using frequency_range [of n address] by (intro step)
  qed
  then show ?thesis unfolding addressEntropy_def .
qed

text \<open>
  What the default provider offers. For every wallet address (of at most 1024 characters) the rules engine succeeds with a whole score between 0 and 100, so a new
  evaluation offers a limit of \<open>10 n\<close> and a rate of \<open>1000 - 5 n\<close> basis points for that score \<open>n\<close>.
\<close>

theorem default_provider_terms:
  assumes "log2_ok log2" "length w \<le> 1024"
  shows "\<exists>e n. n \<le> 100 \<and> performRiskEvaluation (RulesEngineRiskProvider_evaluate (defaultRules log2)) now w = Inr e \<and> re_riskScore e = Fin (of_nat n) \<and>
     decimal_value (re_creditLimit e) = Some (of_nat (10 * n)) \<and> re_interestRateBps e = Fin (of_nat (1000 - 5 * n))"
proof -
  let ?fs = "map (\<lambda>rule. \<lparr>rf_name = ru_name rule, rf_value = ru_evaluate rule w, rf_weight = ru_weight rule, rf_description = Some (ru_description rule)\<rparr>) (defaultRules log2)"
  have weight: "\<exists>v \<ge> 0. dround q = Fin v" if "0 \<le> q" "q \<le> 1" for q
  proof -
    have "is_double (Fin 1)" using is_double_int [of 1] by simp
    from dround_between [OF order_refl that is_double_Fin_0 this] obtain v where "dround q = Fin v" "0 \<le> v" by metis
    then show ?thesis by blast
  qed
  have "unit_interval (num_min (num_div (addressEntropy log2 w) (Fin 5)) (Fin 1))"
  proof (cases "addressEntropy log2 w")
    case (Fin q)
    then have "0 \<le> q" using entropy_nonneg [OF assms] by (auto simp: nonneg_def)
    then have "nonneg (dround (q / 5))" by (simp add: nonneg_dround)
    then show ?thesis using Fin by (auto simp: nonneg_def unit_interval_def num_min_def)
  qed (use entropy_nonneg [OF assms] in \<open>auto simp: nonneg_def unit_interval_def num_min_def inf_of_sign_def\<close>)
  moreover have "unit_interval (num_div (Fin (of_nat (k mod 1000))) (Fin 1000))" "unit_interval (num_div (Fin (of_nat (k mod 500))) (Fin 500))" for k
    using unit_div [of "k mod 1000" 1000] unit_div [of "k mod 500" 500] by simp_all
  moreover have "\<exists>v \<ge> 0. dround (35 / 100) = Fin v" "\<exists>v \<ge> 0. dround (4 / 10) = Fin v" "\<exists>v \<ge> 0. dround (25 / 100) = Fin v"
    using weight [of "35 / 100"] weight [of "4 / 10"] weight [of "25 / 100"] by simp_all
  ultimately have "\<forall>f \<in> set ?fs. unit_interval (rf_value f) \<and> (\<exists>v \<ge> 0. rf_weight f = Fin v)"
    using assms(1) by (simp add: defaultRules_def log2_ok_def)
  from clamp_score [OF weighted_sum_nonneg [OF this, of "Fin 0"]] obtain n where n: "n \<le> 100"
    "num_min (num_max (num_round (num_mul (foldl (\<lambda>acc f. num_add acc (num_mul (rf_value f) (rf_weight f))) (Fin 0) ?fs) (Fin 100))) (Fin 0)) (Fin 100) = Fin (of_nat n)"
    by (auto simp: nonneg_def)
  obtain out where out: "RulesEngineRiskProvider_evaluate (defaultRules log2) w = Inr out" "po_score out = Fin (of_nat n)"
    using n(2) by (simp add: RulesEngineRiskProvider_evaluate_def Let_def)
  obtain e where "performRiskEvaluation (RulesEngineRiskProvider_evaluate (defaultRules log2)) now w = Inr e" "re_riskScore e = Fin (of_nat n)"
     "decimal_value (re_creditLimit e) = Some (of_nat (10 * n))" "re_interestRateBps e = Fin (of_nat (1000 - 5 * n))"
    using evaluation_terms [of "RulesEngineRiskProvider_evaluate (defaultRules log2)" w out n now] out n(1) by auto
  then show ?thesis using n(1) by blast
qed

text \<open>The wallet endpoint reads the score the other way round: the wallet it calls a high risk gets the best terms.\<close>

lemma highest_risk_gets_best_terms:
  assumes "provider w = Inr out" "po_score out = Fin 100" "isValidStellarAddress w"
  shows "\<exists>e we. evaluateWallet w (name, provider) now = Inr we \<and> we_riskLevel we = HighRisk \<and>
     performRiskEvaluation provider now w = Inr e \<and> decimal_value (re_creditLimit e) = Some 1000 \<and> re_interestRateBps e = Fin 500"
  using evaluation_terms [of provider w out 100 now] assms by (auto simp: evaluateWallet_def scoreToRiskLevel_def)

section \<open>Examples\<close>

definition exampleLog2 :: "number \<Rightarrow> number" where
  "exampleLog2 x = (if x = Fin 32 then Fin 5 else Fin 0)"

theorem default_provider_terms_witness:
  "\<exists>e n. n \<le> 100 \<and> performRiskEvaluation (RulesEngineRiskProvider_evaluate (defaultRules exampleLog2)) 0 ''GA'' = Inr e \<and> re_riskScore e = Fin (of_nat n)"
proof -
  have "log2_ok exampleLog2" "length ''GA'' \<le> 1024" by (auto simp: log2_ok_def exampleLog2_def)
  from default_provider_terms [OF this, of 0] show ?thesis by blast
qed

lemma static_provider: "StaticRiskProvider_evaluate None w = Inr \<lparr>po_score = Fin 65, po_factors = [\<lparr>rf_name = ''static_baseline'',
    rf_value = num_div (Fin 65) (Fin 100), rf_weight = Fin 1, rf_description = Some ''Fixed baseline score for all addresses''\<rparr>]\<rparr>"
  by (simp add: StaticRiskProvider_evaluate_def)

theorem risk_economics_witness:
  "\<exists>e. performRiskEvaluation (StaticRiskProvider_evaluate None) 0 ''GA'' = Inr e \<and> decimal_value (re_creditLimit e) = Some 650 \<and> re_interestRateBps e = Fin 675"
  using risk_economics [where w = "''GA''" and n = 65 and now = 0 and provider = "StaticRiskProvider_evaluate None", OF static_provider] by auto

theorem cached_evaluation_reused_witness:
  "\<exists>res m1. evaluateRisk inMemoryRiskEvaluations (StaticRiskProvider_evaluate None) int ''e1'' \<lparr>rq_walletAddress = ''GA'', rq_forceRefresh = False, rq_createOnly = False\<rparr> [] = (Inr res, m1) \<and>
     evaluateRisk inMemoryRiskEvaluations (\<lambda>_. Inl (ValThrown JsNull)) (\<lambda>_. 86000000) ''e2'' \<lparr>rq_walletAddress = ''GA'', rq_forceRefresh = False, rq_createOnly = False\<rparr>
       (fold (risk_step inMemoryRiskEvaluations) [CleanupOp 50] m1) =
       (Inr (res\<lparr>rr_message := ''Using cached risk evaluation''\<rparr>), fold (risk_step inMemoryRiskEvaluations) [CleanupOp 50] m1)"
proof -
  let ?q = "\<lparr>rq_walletAddress = ''GA'', rq_forceRefresh = False, rq_createOnly = False\<rparr>"
  obtain e where e: "performRiskEvaluation (StaticRiskProvider_evaluate None) 1 ''GA'' = Inr e" by (simp add: performRiskEvaluation_def static_provider)
  have run: "evaluateRisk inMemoryRiskEvaluations (StaticRiskProvider_evaluate None) int ''e1'' ?q [] =
      (Inr (result_of e ''New risk evaluation completed''), jsmap_set ''e1'' (with_id ''e1'' e) [])"
    by (simp add: evaluateRisk_def cachedRisk_def inMemoryRiskEvaluations_def risk_isValid_def risk_findLatest_def evaluations_of_def jsmap_values_def e risk_save_def)
  have msg: "rr_message (result_of e ''New risk evaluation completed'') = ''New risk evaluation completed''" by (simp add: result_of_def)
  have old: "risk_older [] (rq_walletAddress ?q) (int 1)" by (simp add: risk_older_def jsmap_values_def)
  from cached_evaluation_reused [OF run msg old, of "[CleanupOp 50]" _ ?q "\<lambda>_. 86000000" "\<lambda>_. Inl (ValThrown JsNull)" "''e2''", OF _ refl] run
  show ?thesis by (intro exI conjI) simp_all
qed

end
