(* ===== verification/OutboundHttp.thy ===== *)
theory OutboundHttp
  imports JsonParse
begin

text \<open>
  Outbound HTTP requests with timeouts and retries (\<open>src/utils/fetchWithTimeout.ts\<close>).

  The network is a parameter: \<open>ne_exchange n\<close> says how the \<open>n\<close>-th request ends and after how many milliseconds. \<open>AbortSignal\<close>s are the instant at
  which they fire, \<open>setTimeout\<close> clamps its delay as Node does, and \<open>fetch\<close> rejects with the signal's reason when the signal fires first. The state is
  the clock, the number of calls of \<open>fetch\<close> and the waits between them. The retry loop has no static bound (\<open>maxRetries\<close> may be infinite), so it is a
  partial function and its termination is a theorem.
\<close>

section \<open>Types and configuration\<close>

record FetchTimeoutConfig =
  ftc_connectTimeoutMs :: number
  ftc_readTimeoutMs :: number

record FetchRetryConfig =
  frc_maxRetries :: number
  frc_retryDelayMs :: number
  frc_maxRetryDelayMs :: number
  frc_retryJitterMs :: number
  frc_retryStatuses :: "int list"
  frc_retryMethods :: "string list"

text \<open>An error that \<open>fetch\<close> rejects with: an \<open>Error\<close> with its name and message, or a value that is not an \<open>Error\<close>.\<close>

datatype fetch_rejection = FetchError string string | FetchOther

datatype http_error = HttpTimeoutError string string number | HttpRequestError string string "fetch_rejection option"

text \<open>The name of the thrown error.\<close>

fun http_error_name :: "http_error \<Rightarrow> string" where
  "http_error_name (HttpTimeoutError _ _ _) = ''HttpTimeoutError''"
| "http_error_name (HttpRequestError _ _ _) = ''HttpRequestError''"

fun http_error_message :: "http_error \<Rightarrow> string" where
  "http_error_message (HttpTimeoutError ty url ms) = ''HTTP '' @ ty @ '' timeout after '' @ num_toString ms @ ''ms: '' @ url"
| "http_error_message (HttpRequestError msg _ _) = msg"

record http_response =
  hr_status :: int
  hr_statusText :: string
  hr_header :: "string \<Rightarrow> string option"
  hr_body :: string

text \<open>A caller's signal: when it aborts (\<open>None\<close>: never) and the reason it carries.\<close>

record abort_signal =
  sg_abortAt :: "time option"
  sg_reason :: fetch_rejection

record retry_overrides =
  ro_maxRetries :: "number option"
  ro_retryDelayMs :: "number option"
  ro_maxRetryDelayMs :: "number option"
  ro_retryJitterMs :: "number option"
  ro_retryStatuses :: "int list option"
  ro_retryMethods :: "string list option"

datatype retry_option = RetryUndefined | RetryFalse | RetryWith retry_overrides

record FetchWithTimeoutOptions =
  fo_method :: "string option"
  fo_signal :: "abort_signal option"
  fo_connectTimeoutMs :: "number option"
  fo_readTimeoutMs :: "number option"
  fo_retry :: retry_option

record network_env =
  ne_env :: "string \<Rightarrow> string option"
  ne_exchange :: "nat \<Rightarrow> nat \<times> (fetch_rejection + http_response)"
  ne_random :: "nat \<Rightarrow> number"
  ne_dateParse :: "string \<Rightarrow> number"

record http_state =
  hs_now :: time
  hs_sent :: nat
  hs_waits :: "int list"

definition env_int :: "network_env \<Rightarrow> string \<Rightarrow> string \<Rightarrow> number" where
  "env_int ne name fallback = parseInt10 (case ne_env ne name of Some v \<Rightarrow> v | None \<Rightarrow> fallback)"

definition getDefaultTimeouts :: "network_env \<Rightarrow> FetchTimeoutConfig" where
  "getDefaultTimeouts ne = \<lparr>ftc_connectTimeoutMs = env_int ne ''HTTP_CONNECT_TIMEOUT_MS'' ''5000'',
     ftc_readTimeoutMs = env_int ne ''HTTP_READ_TIMEOUT_MS'' ''10000''\<rparr>"

definition getDefaultRetryConfig :: "network_env \<Rightarrow> FetchRetryConfig" where
  "getDefaultRetryConfig ne = \<lparr>
     frc_maxRetries = env_int ne ''HTTP_MAX_RETRIES'' ''2'',
     frc_retryDelayMs = env_int ne ''HTTP_RETRY_DELAY_MS'' ''250'',
     frc_maxRetryDelayMs = env_int ne ''HTTP_MAX_RETRY_DELAY_MS'' ''2000'',
     frc_retryJitterMs = env_int ne ''HTTP_RETRY_JITTER_MS'' ''100'',
     frc_retryStatuses = [408, 429, 500, 502, 503, 504],
     frc_retryMethods = [''GET'', ''HEAD'', ''OPTIONS'']\<rparr>"

definition resolveRetryConfig :: "network_env \<Rightarrow> retry_option \<Rightarrow> FetchRetryConfig" where
  "resolveRetryConfig ne overrides =
     (let defaults = getDefaultRetryConfig ne
      in case overrides of
           RetryFalse \<Rightarrow> defaults\<lparr>frc_maxRetries := Fin 0\<rparr>
         | RetryUndefined \<Rightarrow> defaults\<lparr>frc_retryMethods := map js_toUpperCase (frc_retryMethods defaults)\<rparr>
         | RetryWith o1 \<Rightarrow> \<lparr>
             frc_maxRetries = (case ro_maxRetries o1 of Some v \<Rightarrow> v | None \<Rightarrow> frc_maxRetries defaults),
             frc_retryDelayMs = (case ro_retryDelayMs o1 of Some v \<Rightarrow> v | None \<Rightarrow> frc_retryDelayMs defaults),
             frc_maxRetryDelayMs = (case ro_maxRetryDelayMs o1 of Some v \<Rightarrow> v | None \<Rightarrow> frc_maxRetryDelayMs defaults),
             frc_retryJitterMs = (case ro_retryJitterMs o1 of Some v \<Rightarrow> v | None \<Rightarrow> frc_retryJitterMs defaults),
             frc_retryStatuses = (case ro_retryStatuses o1 of Some v \<Rightarrow> v | None \<Rightarrow> frc_retryStatuses defaults),
             frc_retryMethods = map js_toUpperCase (case ro_retryMethods o1 of Some v \<Rightarrow> v | None \<Rightarrow> frc_retryMethods defaults)\<rparr>)"

section \<open>One request\<close>

text \<open>The delay Node gives to \<open>setTimeout\<close>: 1 unless the number lies between 1 and \<open>2 ^ 31 - 1\<close>, fractions dropped.\<close>

fun timer_delay :: "number \<Rightarrow> int" where
  "timer_delay (Fin q) = (if 1 \<le> q \<and> q \<le> 2147483647 then \<lfloor>q\<rfloor> else 1)"
| "timer_delay _ = 1"

definition aborted :: "abort_signal option \<Rightarrow> time \<Rightarrow> bool" where
  "aborted signal now = (case signal of Some s \<Rightarrow> (case sg_abortAt s of Some t \<Rightarrow> t \<le> now | None \<Rightarrow> False) | None \<Rightarrow> False)"

definition abortError :: fetch_rejection where
  "abortError = FetchError ''AbortError'' ''This operation was aborted''"

text \<open>\<open>mergeAbortSignals\<close> at time \<open>now\<close>: the signal handed to \<open>fetch\<close>. A signal that has already fired is used as it is, with its own reason; otherwise
  a new controller aborts, without a reason, with the first of the two.\<close>

definition mergeAbortSignals :: "abort_signal option \<Rightarrow> time \<Rightarrow> time \<Rightarrow> abort_signal" where
  "mergeAbortSignals signal timeoutAt now =
     (case signal of
        None \<Rightarrow> \<lparr>sg_abortAt = Some timeoutAt, sg_reason = abortError\<rparr>
      | Some s \<Rightarrow>
          if aborted (Some s) now then s
          else \<lparr>sg_abortAt = Some (case sg_abortAt s of Some t \<Rightarrow> min t timeoutAt | None \<Rightarrow> timeoutAt), sg_reason = abortError\<rparr>)"

text \<open>\<open>fetch\<close> with a signal: the exchange of the network, unless the signal fires before it ends.\<close>

definition fetch_with_signal :: "network_env \<Rightarrow> abort_signal \<Rightarrow> http_state \<Rightarrow> (fetch_rejection + http_response) \<times> http_state" where
  "fetch_with_signal ne signal st =
     (case ne_exchange ne (hs_sent st) of (duration, outcome) \<Rightarrow>
        let ends = hs_now st + int duration; st1 = st\<lparr>hs_sent := hs_sent st + 1\<rparr>
        in case sg_abortAt signal of
             Some t \<Rightarrow> if t \<le> ends then (Inl (sg_reason signal), st1\<lparr>hs_now := max (hs_now st) t\<rparr>) else (outcome, st1\<lparr>hs_now := ends\<rparr>)
           | None \<Rightarrow> (outcome, st1\<lparr>hs_now := ends\<rparr>))"

definition fetchOnceWithTimeout :: "network_env \<Rightarrow> string \<Rightarrow> FetchWithTimeoutOptions \<Rightarrow> http_state \<Rightarrow> (http_error + http_response) \<times> http_state" where
  "fetchOnceWithTimeout ne url options st =
     (let defaults = getDefaultTimeouts ne;
          connectTimeoutMs = (case fo_connectTimeoutMs options of Some v \<Rightarrow> v | None \<Rightarrow> ftc_connectTimeoutMs defaults);
          readTimeoutMs = (case fo_readTimeoutMs options of Some v \<Rightarrow> v | None \<Rightarrow> ftc_readTimeoutMs defaults);
          totalTimeoutMs = num_add connectTimeoutMs readTimeoutMs;
          signal = mergeAbortSignals (fo_signal options) (hs_now st + timer_delay totalTimeoutMs) (hs_now st)
      in case fetch_with_signal ne signal st of
           (Inr response, st1) \<Rightarrow> (Inr response, st1)
         | (Inl (FetchError name message), st1) \<Rightarrow>
             if name = ''AbortError'' then (Inl (HttpTimeoutError ''read'' url totalTimeoutMs), st1)
             else (Inl (HttpRequestError (''HTTP request failed: '' @ message) url (Some (FetchError name message))), st1)
         | (Inl FetchOther, st1) \<Rightarrow> (Inl (HttpRequestError ''HTTP request failed with unknown error'' url None), st1))"

section \<open>Retries\<close>

definition parseRetryAfterMs :: "network_env \<Rightarrow> time \<Rightarrow> http_response option \<Rightarrow> number option" where
  "parseRetryAfterMs ne now response =
     (case (case response of Some r \<Rightarrow> hr_header r ''retry-after'' | None \<Rightarrow> None) of
        None \<Rightarrow> None
      | Some header \<Rightarrow>
          if header = [] then None
          else let seconds = js_Number header
               in if num_isFinite seconds \<and> num_ge seconds (Fin 0) then Some (num_mul seconds (Fin 1000))
                  else let dateMs = ne_dateParse ne header
                       in if num_isFinite dateMs then Some (num_max (Fin 0) (num_sub dateMs (num_of_int now))) else None)"

definition retryDelay :: "network_env \<Rightarrow> nat \<Rightarrow> FetchRetryConfig \<Rightarrow> http_response option \<Rightarrow> http_state \<Rightarrow> number" where
  "retryDelay ne attempt retry response st =
     (let backoffMs = num_min (frc_maxRetryDelayMs retry) (num_mul (frc_retryDelayMs retry) (num_of_int (2 ^ attempt)));
          jitterMs = (if num_gt (frc_retryJitterMs retry) (Fin 0) then num_floor (num_mul (ne_random ne (hs_sent st)) (frc_retryJitterMs retry)) else Fin 0)
      in case parseRetryAfterMs ne (hs_now st) response of Some ms \<Rightarrow> ms | None \<Rightarrow> num_add backoffMs jitterMs)"

definition waitBeforeRetry :: "network_env \<Rightarrow> nat \<Rightarrow> FetchRetryConfig \<Rightarrow> http_response option \<Rightarrow> http_state \<Rightarrow> http_state" where
  "waitBeforeRetry ne attempt retry response st =
     (let delayMs = retryDelay ne attempt retry response st
      in if num_le delayMs (Fin 0) then st
         else st\<lparr>hs_now := hs_now st + timer_delay delayMs, hs_waits := hs_waits st @ [timer_delay delayMs]\<rparr>)"

definition isCallerAbort :: "abort_signal option \<Rightarrow> time \<Rightarrow> http_error \<Rightarrow> bool" where
  "isCallerAbort signal now e \<longleftrightarrow> aborted signal now \<and> http_error_name e = ''AbortError''"

text \<open>The body of the loop: the final result, or the state in which the next attempt starts and the error remembered.\<close>

definition fetch_attempt ::
  "network_env \<Rightarrow> string \<Rightarrow> FetchWithTimeoutOptions \<Rightarrow> FetchRetryConfig \<Rightarrow> bool \<Rightarrow> nat \<Rightarrow> http_error option \<Rightarrow> http_state \<Rightarrow>
     ((http_error + http_response) \<times> http_state) + (http_error option \<times> http_state)" where
  "fetch_attempt ne url options retry canRetryMethod attempt lastError st =
     (case fetchOnceWithTimeout ne url options st of
        (Inr response, st1) \<Rightarrow>
          if num_lt (Fin (of_nat attempt)) (frc_maxRetries retry) \<and> canRetryMethod \<and> hr_status response \<in> set (frc_retryStatuses retry)
          then Inr (lastError, waitBeforeRetry ne attempt retry (Some response) st1)
          else Inl (Inr response, st1)
      | (Inl e, st1) \<Rightarrow>
          if num_ge (Fin (of_nat attempt)) (frc_maxRetries retry) \<or> \<not> canRetryMethod \<or> isCallerAbort (fo_signal options) (hs_now st1) e
          then Inl (Inl e, st1)
          else Inr (Some e, waitBeforeRetry ne attempt retry None st1))"

partial_function (option) fetch_loop ::
  "network_env \<Rightarrow> string \<Rightarrow> FetchWithTimeoutOptions \<Rightarrow> FetchRetryConfig \<Rightarrow> bool \<Rightarrow> nat \<Rightarrow> http_error option \<Rightarrow> http_state \<Rightarrow>
     ((http_error + http_response) \<times> http_state) option" where
  "fetch_loop ne url options retry canRetryMethod attempt lastError st =
     (if num_le (Fin (of_nat attempt)) (frc_maxRetries retry)
      then (case fetch_attempt ne url options retry canRetryMethod attempt lastError st of
              Inl r \<Rightarrow> Some r
            | Inr (e, st1) \<Rightarrow> fetch_loop ne url options retry canRetryMethod (attempt + 1) e st1)
      else Some (Inl (case lastError of Some e \<Rightarrow> e | None \<Rightarrow> HttpRequestError ''HTTP request failed with unknown error'' url None), st))"

definition fetchWithTimeout :: "network_env \<Rightarrow> string \<Rightarrow> FetchWithTimeoutOptions \<Rightarrow> http_state \<Rightarrow> ((http_error + http_response) \<times> http_state) option" where
  "fetchWithTimeout ne url options st =
     (let retry = resolveRetryConfig ne (fo_retry options);
          method = js_toUpperCase (case fo_method options of Some m \<Rightarrow> m | None \<Rightarrow> ''GET'');
          canRetryMethod = (method \<in> set (frc_retryMethods retry))
      in fetch_loop ne url options retry canRetryMethod 0 None st)"

definition fetchJsonWithTimeout :: "(string \<Rightarrow> fetch_rejection) \<Rightarrow> network_env \<Rightarrow> string \<Rightarrow> FetchWithTimeoutOptions \<Rightarrow> http_state \<Rightarrow> ((http_error + json) \<times> http_state) option" where
  "fetchJsonWithTimeout syntaxError ne url options st =
     (case fetchWithTimeout ne url options st of
        None \<Rightarrow> None
      | Some (Inl e, st1) \<Rightarrow> Some (Inl e, st1)
      | Some (Inr response, st1) \<Rightarrow>
          if \<not> (200 \<le> hr_status response \<and> hr_status response \<le> 299)
            then Some (Inl (HttpRequestError (''HTTP '' @ show_int (hr_status response) @ '' '' @ hr_statusText response) url None), st1)
          else (case JSON_parse (hr_body response) of
                  Some j \<Rightarrow> Some (Inr j, st1)
                | None \<Rightarrow> Some (Inl (HttpRequestError ''Failed to parse JSON response'' url (Some (syntaxError (hr_body response)))), st1)))"

section \<open>What a request does\<close>

text \<open>The check for an abort by the caller never succeeds: \<open>fetchOnceWithTimeout\<close> has already turned the \<open>AbortError\<close> into an error of another name.\<close>

lemma caller_abort_undetected [simp]: "\<not> isCallerAbort signal now e"
  by (cases e) (simp_all add: isCallerAbort_def)

definition total_timeout :: "network_env \<Rightarrow> FetchWithTimeoutOptions \<Rightarrow> int" where
  "total_timeout ne options =
     timer_delay (num_add (case fo_connectTimeoutMs options of Some v \<Rightarrow> v | None \<Rightarrow> ftc_connectTimeoutMs (getDefaultTimeouts ne))
                          (case fo_readTimeoutMs options of Some v \<Rightarrow> v | None \<Rightarrow> ftc_readTimeoutMs (getDefaultTimeouts ne)))"

lemma timer_delay_pos [simp]: "1 \<le> timer_delay x"
  by (cases x) (simp_all add: le_floor_iff)

lemma merged_abort:
  "\<exists>t. sg_abortAt (mergeAbortSignals signal timeoutAt now) = Some t \<and> (now \<le> timeoutAt \<longrightarrow> t \<le> timeoutAt)"
  by (auto simp: mergeAbortSignals_def aborted_def min_def split: option.splits)

text \<open>One request is one call of \<open>fetch\<close>, and it is over within the total timeout.\<close>

lemma fetchOnce_effect:
  "hs_sent (snd (fetchOnceWithTimeout ne url options st)) = hs_sent st + 1"
  "hs_waits (snd (fetchOnceWithTimeout ne url options st)) = hs_waits st"
  "hs_now (snd (fetchOnceWithTimeout ne url options st)) \<le> hs_now st + total_timeout ne options"
proof -
  let ?signal = "mergeAbortSignals (fo_signal options) (hs_now st + total_timeout ne options) (hs_now st)"
  have snd: "snd (fetchOnceWithTimeout ne url options st) = snd (fetch_with_signal ne ?signal st)"
    by (auto simp: fetchOnceWithTimeout_def Let_def total_timeout_def split: prod.splits sum.splits fetch_rejection.splits)
  obtain t where t: "sg_abortAt ?signal = Some t" "t \<le> hs_now st + total_timeout ne options"
    using merged_abort [of "fo_signal options" "hs_now st + total_timeout ne options" "hs_now st"] timer_delay_pos
    by (auto simp: total_timeout_def intro: order_trans [OF _ timer_delay_pos])
  have "0 \<le> total_timeout ne options" using order_trans [OF _ timer_delay_pos, of 0] by (simp add: total_timeout_def)
  then show "hs_sent (snd (fetchOnceWithTimeout ne url options st)) = hs_sent st + 1"
    "hs_waits (snd (fetchOnceWithTimeout ne url options st)) = hs_waits st"
    "hs_now (snd (fetchOnceWithTimeout ne url options st)) \<le> hs_now st + total_timeout ne options"
    unfolding snd using t by (simp_all add: fetch_with_signal_def Let_def split: prod.splits)
qed

lemma waitBeforeRetry_sent [simp]: "hs_sent (waitBeforeRetry ne n retry response st) = hs_sent st"
  by (simp add: waitBeforeRetry_def Let_def)

section \<open>What the retry loop does\<close>

text \<open>An outcome is transient if it is an error or a response with a retryable status.\<close>

definition transient :: "FetchRetryConfig \<Rightarrow> http_error + http_response \<Rightarrow> bool" where
  "transient retry r = (case r of Inl _ \<Rightarrow> True | Inr response \<Rightarrow> hr_status response \<in> set (frc_retryStatuses retry))"

definition next_attempt :: "network_env \<Rightarrow> string \<Rightarrow> FetchWithTimeoutOptions \<Rightarrow> FetchRetryConfig \<Rightarrow> nat \<Rightarrow> http_state \<Rightarrow> http_state" where
  "next_attempt ne url options retry j st =
     (case fetchOnceWithTimeout ne url options st of
        (Inr response, st1) \<Rightarrow> waitBeforeRetry ne j retry (Some response) st1
      | (Inl _, st1) \<Rightarrow> waitBeforeRetry ne j retry None st1)"

lemma next_attempt_sent: "hs_sent (next_attempt ne url options retry j st) = hs_sent st + 1"
  using fetchOnce_effect(1) [of ne url options st] by (auto simp: next_attempt_def split: prod.splits sum.splits)

text \<open>The state in which attempt \<open>j\<close> starts, the first being number \<open>i\<close>.\<close>

fun attempt_state :: "network_env \<Rightarrow> string \<Rightarrow> FetchWithTimeoutOptions \<Rightarrow> FetchRetryConfig \<Rightarrow> nat \<Rightarrow> nat \<Rightarrow> http_state \<Rightarrow> http_state" where
  "attempt_state ne url options retry i 0 st = st"
| "attempt_state ne url options retry i (Suc k) st = attempt_state ne url options retry (i + 1) k (next_attempt ne url options retry i st)"

lemma attempt_state_sent: "hs_sent (attempt_state ne url options retry i k st) = hs_sent st + k"
  by (induction k arbitrary: i st) (simp_all add: next_attempt_sent)

lemma fetch_attempt_cases:
  assumes "frc_maxRetries retry = Fin (of_nat n)" "i \<le> n"
  shows "fetch_attempt ne url options retry can i e st =
     (if i < n \<and> can \<and> transient retry (fst (fetchOnceWithTimeout ne url options st))
      then Inr (case fst (fetchOnceWithTimeout ne url options st) of Inl e' \<Rightarrow> Some e' | Inr _ \<Rightarrow> e, next_attempt ne url options retry i st)
      else Inl (fetchOnceWithTimeout ne url options st))"
  using assms by (auto simp: fetch_attempt_def transient_def next_attempt_def num_ge_def num_le_def split: prod.splits sum.splits)

lemma fetch_loop_run:
  fixes ne url options retry
  assumes "frc_maxRetries retry = Fin (of_nat n)" "i \<le> n"
  defines "once \<equiv> fetchOnceWithTimeout ne url options" and "starts \<equiv> attempt_state ne url options retry"
  shows "\<exists>k. i + k \<le> n \<and> (\<forall>j < k. can \<and> transient retry (fst (once (starts i j st)))) \<and>
     (i + k = n \<or> \<not> can \<or> \<not> transient retry (fst (once (starts i k st)))) \<and>
     fetch_loop ne url options retry can i e st = Some (once (starts i k st))"
  using assms(2)
proof (induction "n - i" arbitrary: i e st)
  case 0
  then have "fetch_loop ne url options retry can i e st = Some (once st)"
    using assms(1) by (subst fetch_loop.simps) (simp add: fetch_attempt_cases num_le_def once_def)
  then show ?case using 0 by (intro exI [of _ 0]) (simp add: starts_def)
next
  case (Suc m)
  then have lt: "i < n" by simp
  show ?case
  proof (cases "can \<and> transient retry (fst (once st))")
    case False
    then have "fetch_loop ne url options retry can i e st = Some (once st)"
      using assms(1) lt by (subst fetch_loop.simps) (auto simp: fetch_attempt_cases num_le_def once_def)
    then show ?thesis using False lt by (intro exI [of _ 0]) (auto simp: starts_def)
  next
    case True
    define e' where "e' = (case fst (once st) of Inl x \<Rightarrow> Some x | Inr _ \<Rightarrow> e)"
    have step: "fetch_loop ne url options retry can i e st = fetch_loop ne url options retry can (i + 1) e' (next_attempt ne url options retry i st)"
      using True assms(1) lt by (subst fetch_loop.simps) (simp add: fetch_attempt_cases num_le_def once_def e'_def)
    have "m = n - (i + 1)" "i + 1 \<le> n" using Suc(2) lt by simp_all
    from Suc(1) [OF this, of "next_attempt ne url options retry i st" e']
    obtain k where k: "i + 1 + k \<le> n" "\<forall>j < k. can \<and> transient retry (fst (once (starts (i + 1) j (next_attempt ne url options retry i st))))"
      "i + 1 + k = n \<or> \<not> can \<or> \<not> transient retry (fst (once (starts (i + 1) k (next_attempt ne url options retry i st))))"
      "fetch_loop ne url options retry can (i + 1) e' (next_attempt ne url options retry i st) = Some (once (starts (i + 1) k (next_attempt ne url options retry i st)))"
      by blast
    have "can \<and> transient retry (fst (once (starts i j st)))" if "j < Suc k" for j
      using that True k(2) by (cases j) (auto simp: starts_def)
    then show ?thesis using k step by (intro exI [of _ "Suc k"]) (simp add: starts_def)
  qed
qed

text \<open>
  C28. The retry policy of outbound requests. With a whole number of retries allowed, \<open>fetchWithTimeout\<close> always returns, with the outcome of its last request: it calls
  \<open>fetch\<close> \<open>k + 1\<close> times with \<open>k\<close> at most \<open>maxRetries\<close>, every earlier outcome was an error or a retryable status, a method that is not listed is sent once, and
  it stops early only at an outcome that is final. Each request is over within the total timeout of the clock reading at which it starts.
\<close>

theorem outbound_retry_policy:
  fixes ne url options st
  defines "retry \<equiv> resolveRetryConfig ne (fo_retry options)"
  defines "can \<equiv> js_toUpperCase (case fo_method options of Some m \<Rightarrow> m | None \<Rightarrow> ''GET'') \<in> set (frc_retryMethods retry)"
    and "once \<equiv> fetchOnceWithTimeout ne url options" and "starts \<equiv> attempt_state ne url options retry 0"
  assumes "frc_maxRetries retry = Fin (of_nat n)"
  shows "\<exists>k \<le> n. fetchWithTimeout ne url options st = Some (once (starts k st)) \<and> hs_sent (snd (once (starts k st))) = hs_sent st + k + 1 \<and>
     (\<forall>j < k. can \<and> transient retry (fst (once (starts j st)))) \<and> (k = n \<or> \<not> can \<or> \<not> transient retry (fst (once (starts k st)))) \<and>
     (\<forall>j \<le> k. hs_now (snd (once (starts j st))) \<le> hs_now (starts j st) + total_timeout ne options)"
proof -
  obtain k where "0 + k \<le> n" "\<forall>j < k. can \<and> transient retry (fst (once (starts j st)))" "0 + k = n \<or> \<not> can \<or> \<not> transient retry (fst (once (starts k st)))"
    "fetch_loop ne url options retry can 0 None st = Some (once (starts k st))"
    using fetch_loop_run [of retry n 0 can ne url options st None] assms(5) unfolding once_def starts_def by auto
  then show ?thesis
    by (intro exI [of _ k]) (simp add: fetchWithTimeout_def Let_def retry_def [symmetric] can_def [symmetric] once_def fetchOnce_effect starts_def attempt_state_sent)
qed

text \<open>A request that the caller has aborted is not given up: it is repeated as often as \<open>maxRetries\<close> allows, and then reported as a read timeout.\<close>

lemma failing_request_is_repeated:
  assumes "frc_maxRetries (resolveRetryConfig ne (fo_retry options)) = Fin (of_nat n)"
    "js_toUpperCase (case fo_method options of Some m \<Rightarrow> m | None \<Rightarrow> ''GET'') \<in> set (frc_retryMethods (resolveRetryConfig ne (fo_retry options)))"
    "\<And>k. fst (fetchOnceWithTimeout ne url options (attempt_state ne url options (resolveRetryConfig ne (fo_retry options)) 0 k st)) = Inl (e k)"
  shows "\<exists>st'. fetchWithTimeout ne url options st = Some (Inl (e n), st') \<and> hs_sent st' = hs_sent st + n + 1"
proof -
  let ?retry = "resolveRetryConfig ne (fo_retry options)"
  let ?last = "fetchOnceWithTimeout ne url options (attempt_state ne url options ?retry 0 n st)"
  from fetch_loop_run [OF assms(1), of 0 True ne url options st None] obtain k where k: "k \<le> n"
    "k = n \<or> \<not> transient ?retry (fst (fetchOnceWithTimeout ne url options (attempt_state ne url options ?retry 0 k st)))"
    "fetch_loop ne url options ?retry True 0 None st = Some (fetchOnceWithTimeout ne url options (attempt_state ne url options ?retry 0 k st))" by auto
  from k(2) assms(3) [of k] have "k = n" by (simp add: transient_def)
  then have "fetchWithTimeout ne url options st = Some ?last" using k(3) assms(2) by (simp add: fetchWithTimeout_def Let_def)
  moreover have "?last = (Inl (e n), snd ?last)" using assms(3) [of n] by (metis prod.collapse)
  moreover have "hs_sent (snd ?last) = hs_sent st + n + 1" by (simp add: fetchOnce_effect attempt_state_sent)
  ultimately show ?thesis by metis
qed

lemma aborted_request_times_out:
  assumes "fo_signal options = Some s" "sg_abortAt s = Some t" "sg_reason s = abortError" "t \<le> hs_now st"
  shows "\<exists>ms. fst (fetchOnceWithTimeout ne url options st) = Inl (HttpTimeoutError ''read'' url ms)"
  using assms by (auto simp: fetchOnceWithTimeout_def Let_def mergeAbortSignals_def aborted_def fetch_with_signal_def abortError_def split: prod.splits)

text \<open>A retry count that does not parse is \<open>NaN\<close>; the loop is then not entered and the request fails without being sent.\<close>

lemma unparsable_retries_send_nothing:
  assumes "frc_maxRetries (resolveRetryConfig ne (fo_retry options)) = NaN"
  shows "fetchWithTimeout ne url options st = Some (Inl (HttpRequestError ''HTTP request failed with unknown error'' url None), st)"
  by (simp add: fetchWithTimeout_def Let_def fetch_loop.simps assms num_le_def)

text \<open>A \<open>Retry-After\<close> header replaces the backoff and is not capped by \<open>maxRetryDelayMs\<close>.\<close>

lemma retry_after_is_not_capped:
  "parseRetryAfterMs ne (hs_now st) response = Some ms \<Longrightarrow> retryDelay ne attempt retry response st = ms"
  by (simp add: retryDelay_def Let_def)

section \<open>Witness\<close>

definition exampleNetwork :: network_env where
  "exampleNetwork = \<lparr>ne_env = (\<lambda>_. None),
     ne_exchange = (\<lambda>n. (10, Inr \<lparr>hr_status = (if n = 0 then 503 else 200), hr_statusText = ''OK'', hr_header = (\<lambda>_. None), hr_body = ''[]''\<rparr>)),
     ne_random = (\<lambda>_. Fin 0), ne_dateParse = (\<lambda>_. NaN)\<rparr>"

definition exampleGet :: FetchWithTimeoutOptions where
  "exampleGet = \<lparr>fo_method = None, fo_signal = None, fo_connectTimeoutMs = Some (Fin 50), fo_readTimeoutMs = Some (Fin 50),
     fo_retry = RetryWith \<lparr>ro_maxRetries = Some (Fin 1), ro_retryDelayMs = Some (Fin 0), ro_maxRetryDelayMs = Some (Fin 2000), ro_retryJitterMs = Some (Fin 0),
        ro_retryStatuses = None, ro_retryMethods = None\<rparr>\<rparr>"

theorem outbound_retry_policy_witness:
  "\<exists>k \<le> 1. fetchWithTimeout exampleNetwork ''u'' exampleGet \<lparr>hs_now = 0, hs_sent = 0, hs_waits = []\<rparr> =
     Some (fetchOnceWithTimeout exampleNetwork ''u'' exampleGet
       (attempt_state exampleNetwork ''u'' exampleGet (resolveRetryConfig exampleNetwork (fo_retry exampleGet)) 0 k \<lparr>hs_now = 0, hs_sent = 0, hs_waits = []\<rparr>))"
proof -
  have "frc_maxRetries (resolveRetryConfig exampleNetwork (fo_retry exampleGet)) = Fin (of_nat 1)"
    by (simp add: resolveRetryConfig_def exampleGet_def Let_def)
  from outbound_retry_policy [OF this, of "''u''" "\<lparr>hs_now = 0, hs_sent = 0, hs_waits = []\<rparr>"] show ?thesis by auto
qed

end
