(* ===== verification/RequestGuards.thy ===== *)
theory RequestGuards
  imports Problems JsonParse JsDate
begin

text \<open>
  The guards a request passes before it reaches a handler: body size limits (\<open>src/config/bodyLimit.ts\<close>, \<open>src/middleware/bodyLimit.ts\<close>), API version and deprecation
  headers (\<open>src/config/apiVersion.ts\<close>, \<open>src/middleware/apiVersion.ts\<close>), maintenance mode (\<open>src/middleware/maintenanceMode.ts\<close>) and the media-type guard of
  \<open>src/index.ts\<close>. A middleware maps the request and the response to whether \<open>next\<close> is called, the augmented request and the response.
  \<open>dateParse\<close> is the host's \<open>Date.parse\<close>. The charset Express may append to a content type is left out.
\<close>

section \<open>Requests and responses\<close>

record guard_request =
  gr_method :: string
  gr_originalUrl :: string
  gr_url :: string
  gr_path :: string
  gr_header :: "string \<Rightarrow> string option"
  gr_bodyLimitBytes :: "number option"
  gr_bodyLimitLabel :: "string option"
  gr_rawBodyLength :: "nat option"

record guard_response =
  gs_headersSent :: bool
  gs_headers :: "(string, string) jsmap"
  gs_status :: "number option"
  gs_body :: js_value

type_synonym middleware = "guard_request \<Rightarrow> guard_response \<Rightarrow> bool \<times> guard_request \<times> guard_response"

definition setHeader :: "string \<Rightarrow> string \<Rightarrow> guard_response \<Rightarrow> guard_response" where
  "setHeader name val res = res\<lparr>gs_headers := jsmap_set name val (gs_headers res)\<rparr>"

definition js_startsWith :: "string \<Rightarrow> string \<Rightarrow> bool" where
  "js_startsWith s p \<longleftrightarrow> take (length p) s = p"

text \<open>\<open>s.split('?')[0]\<close>\<close>

definition before_query :: "string \<Rightarrow> string" where
  "before_query s = takeWhile (\<lambda>c. c \<noteq> CHR ''?'') s"

definition raw_url :: "guard_request \<Rightarrow> string" where
  "raw_url req = (if gr_originalUrl req \<noteq> [] then gr_originalUrl req else if gr_url req \<noteq> [] then gr_url req else gr_path req)"

text \<open>A problem sent by \<open>sendProblem\<close>.\<close>

definition problem_value :: "ProblemDetails \<Rightarrow> js_value" where
  "problem_value p = JsObject [(''type'', JsString (pd_type p)), (''title'', pd_title p), (''status'', JsNumber (pd_status p)), (''detail'', JsString (pd_detail p)),
     (''code'', JsString (pd_code p)), (''data'', pd_data p), (''error'', JsString (pd_error p)), (''resource'', pd_resource p), (''details'', pd_details p),
     (''retryAfter'', pd_retryAfter p)]"

definition send_problem :: "app_error \<Rightarrow> guard_response \<Rightarrow> guard_response" where
  "send_problem err res =
     (let r = sendProblem (appErrorToProblem err)
      in (foldl (\<lambda>acc (k, v). setHeader k v acc) res (pr_headers r))\<lparr>gs_status := Some (pr_status r), gs_body := problem_value (pr_body r), gs_headersSent := True\<rparr>)"

section \<open>Body limits\<close>

record BodyLimitRouteRule =
  brr_pathPrefix :: string
  brr_maxBytes :: number

record BodyLimitConfig =
  blc_defaultMaxBytes :: number
  blc_maxBytes :: number
  blc_routes :: "BodyLimitRouteRule list"

definition BODY_LIMIT_DEFAULT_BYTES :: number where
  "BODY_LIMIT_DEFAULT_BYTES = Fin (100 * 1024)"

definition BODY_LIMIT_BULK_BYTES :: number where
  "BODY_LIMIT_BULK_BYTES = Fin (1024 * 1024)"

definition parsePositiveBytes :: "string option \<Rightarrow> number \<Rightarrow> number" where
  "parsePositiveBytes val fallback =
     (case val of
        None \<Rightarrow> fallback
      | Some s \<Rightarrow>
          if s = [] then fallback
          else let parsed = parseInt10 s in if \<not> num_isFinite parsed \<or> num_le parsed (Fin 0) then fallback else parsed)"

definition loadBodyLimitConfig :: "(string \<Rightarrow> string option) \<Rightarrow> BodyLimitConfig" where
  "loadBodyLimitConfig env =
     (let defaultMaxBytes = parsePositiveBytes (env ''BODY_LIMIT_DEFAULT_BYTES'') BODY_LIMIT_DEFAULT_BYTES;
          bulkMaxBytes = parsePositiveBytes (env ''BODY_LIMIT_BULK_BYTES'') BODY_LIMIT_BULK_BYTES
      in \<lparr>blc_defaultMaxBytes = defaultMaxBytes,
          blc_maxBytes = parsePositiveBytes (env ''BODY_LIMIT_MAX_BYTES'') (num_max defaultMaxBytes bulkMaxBytes),
          blc_routes = [\<lparr>brr_pathPrefix = ''/api/credit/lines/bulk'', brr_maxBytes = bulkMaxBytes\<rparr>]\<rparr>)"

definition rule_prefix :: "BodyLimitRouteRule \<Rightarrow> string" where
  "rule_prefix rule = (let p = brr_pathPrefix rule in if p \<noteq> [] \<and> last p = CHR ''/'' then butlast p else p)"

definition rule_matches :: "string \<Rightarrow> BodyLimitRouteRule \<Rightarrow> bool" where
  "rule_matches normalized rule \<longleftrightarrow> normalized = rule_prefix rule \<or> js_startsWith normalized (rule_prefix rule @ ''/'')"

definition resolveBodyLimit :: "string \<Rightarrow> BodyLimitConfig \<Rightarrow> number" where
  "resolveBodyLimit path config =
     (let normalized = (if before_query path = [] then ''/'' else before_query path)
      in case find (rule_matches normalized) (blc_routes config) of Some rule \<Rightarrow> brr_maxBytes rule | None \<Rightarrow> blc_defaultMaxBytes config)"

text \<open>The remainder \<open>%\<close> of finite numbers.\<close>

fun num_rem :: "number \<Rightarrow> number \<Rightarrow> number" where
  "num_rem (Fin a) (Fin b) = (if b = 0 then NaN else Fin (a - b * of_int (if a / b < 0 then \<lceil>a / b\<rceil> else \<lfloor>a / b\<rfloor>)))"
| "num_rem (Fin a) PosInf = Fin a"
| "num_rem (Fin a) NegInf = Fin a"
| "num_rem _ _ = NaN"

definition formatBodyLimitLabel :: "number \<Rightarrow> string" where
  "formatBodyLimitLabel bytes =
     (if num_ge bytes (Fin 1048576) \<and> num_rem bytes (Fin 1048576) = Fin 0 then num_toString (num_div bytes (Fin 1048576)) @ ''mb''
      else if num_ge bytes (Fin 1024) \<and> num_rem bytes (Fin 1024) = Fin 0 then num_toString (num_div bytes (Fin 1024)) @ ''kb''
      else if num_ge bytes (Fin 1048576) then num_toFixed 1 (num_div bytes (Fin 1048576)) @ ''mb''
      else if num_ge bytes (Fin 1024) then num_toFixed 1 (num_div bytes (Fin 1024)) @ ''kb''
      else num_toString bytes @ ''b'')"

definition bodyTooLargeMessage :: "number \<Rightarrow> string" where
  "bodyTooLargeMessage maxBytes =
     ''Payload Too Large. Request body exceeds the maximum size of '' @ formatBodyLimitLabel maxBytes @ '' for this endpoint.''"

definition PayloadTooLargeError_new :: "number \<Rightarrow> number \<Rightarrow> thrown_value" where
  "PayloadTooLargeError_new limit len = ErrThrown ''PayloadTooLargeError'' (bodyTooLargeMessage limit)
     [(''status'', JsNumber (Fin 413)), (''statusCode'', JsNumber (Fin 413)), (''type'', JsString ''entity.too.large''), (''limit'', JsNumber limit),
      (''length'', JsNumber len), (''expose'', JsBool True)]"

definition isPayloadTooLargeError :: "thrown_value \<Rightarrow> bool" where
  "isPayloadTooLargeError err \<longleftrightarrow>
     (case err of ErrThrown n _ _ \<Rightarrow> n = ''PayloadTooLargeError'' | _ \<Rightarrow> False) \<or>
     is_object err \<and> err \<noteq> ValThrown JsNull \<and>
       (tv_get err ''type'' = JsString ''entity.too.large'' \<or> tv_get err ''status'' = JsNumber (Fin 413) \<or> tv_get err ''statusCode'' = JsNumber (Fin 413))"

definition attachLimitMeta :: "number \<Rightarrow> guard_request \<Rightarrow> guard_request" where
  "attachLimitMeta maxBytes req = req\<lparr>gr_bodyLimitBytes := Some maxBytes, gr_bodyLimitLabel := Some (formatBodyLimitLabel maxBytes)\<rparr>"

definition contentLengthExceeds :: "guard_request \<Rightarrow> number \<Rightarrow> number option" where
  "contentLengthExceeds req maxBytes =
     (case gr_header req ''content-length'' of
        None \<Rightarrow> None
      | Some raw \<Rightarrow>
          let len = js_Number raw
          in if \<not> num_isFinite len \<or> num_lt len (Fin 0) then None else if num_gt len maxBytes then Some len else None)"

definition respondPayloadTooLarge :: "number \<Rightarrow> number option \<Rightarrow> guard_response \<Rightarrow> guard_response" where
  "respondPayloadTooLarge maxBytes len res =
     (if gs_headersSent res then res
      else let res1 = setHeader ''X-Content-Length-Limit'' (num_toString maxBytes) res;
               res2 = (case len of Some n \<Rightarrow> setHeader ''X-Content-Length-Received'' (num_toString n) res1 | None \<Rightarrow> res1);
               message = bodyTooLargeMessage maxBytes
           in (setHeader ''Content-Type'' ''application/problem+json'' res2)\<lparr>gs_status := Some (Fin 413), gs_headersSent := True,
                gs_body := JsObject [(''type'', JsString ''https://httpstatuses.com/413''), (''title'', JsString ''Payload Too Large''), (''status'', JsNumber (Fin 413)),
                  (''detail'', JsString message), (''limit'', JsNumber maxBytes), (''limitLabel'', JsString (formatBodyLimitLabel maxBytes)),
                  (''data'', JsNull), (''error'', JsString message)]\<rparr>)"

definition requestPath :: "guard_request \<Rightarrow> string" where
  "requestPath req = before_query (raw_url req)"

definition bodyLimitMiddleware :: "number \<Rightarrow> middleware" where
  "bodyLimitMiddleware maxBytes req res =
     (let req1 = attachLimitMeta maxBytes req
      in case contentLengthExceeds req maxBytes of
           Some oversize \<Rightarrow> (False, req1, respondPayloadTooLarge maxBytes (Some oversize) res)
         | None \<Rightarrow> (True, req1, res))"

definition createBodyLimitMiddleware :: "number \<Rightarrow> js_error + middleware" where
  "createBodyLimitMiddleware maxBytes =
     (if \<not> num_isFinite maxBytes \<or> num_le maxBytes (Fin 0) then Inl (Error ''createBodyLimitMiddleware: maxBytes must be a positive number'')
      else Inr (bodyLimitMiddleware maxBytes))"

definition createPathAwareBodyLimitMiddleware :: "BodyLimitConfig \<Rightarrow> middleware" where
  "createPathAwareBodyLimitMiddleware config req res = bodyLimitMiddleware (resolveBodyLimit (requestPath req) config) req res"

text \<open>The \<open>verify\<close> hook of the JSON parser on the raw body: the error thrown, or nothing, and the augmented request.\<close>

definition createJsonBodyLimitVerify :: "BodyLimitConfig \<Rightarrow> guard_request \<Rightarrow> string \<Rightarrow> (thrown_value + unit) \<times> guard_request" where
  "createJsonBodyLimitVerify config req buf =
     (let maxBytes = (case gr_bodyLimitBytes req of Some b \<Rightarrow> b | None \<Rightarrow> resolveBodyLimit (requestPath req) config);
          req1 = (attachLimitMeta maxBytes req)\<lparr>gr_rawBodyLength := Some (length buf)\<rparr>
      in (if num_gt (Fin (of_nat (length buf))) maxBytes then Inl (PayloadTooLargeError_new maxBytes (Fin (of_nat (length buf)))) else Inr (), req1))"

definition failPayloadTooLarge :: "number \<Rightarrow> guard_response \<Rightarrow> guard_response" where
  "failPayloadTooLarge maxBytes res =
     (let (status, body) = fail_response (ValThrown (JsString (bodyTooLargeMessage maxBytes))) 413
      in (setHeader ''X-Content-Length-Limit'' (num_toString maxBytes) res)\<lparr>gs_status := Some (num_of_int status), gs_body := body, gs_headersSent := True\<rparr>)"

section \<open>API versions\<close>

definition DEFAULT_LEGACY_SUNSET :: string where
  "DEFAULT_LEGACY_SUNSET = ''Thu, 31 Dec 2026 23:59:59 GMT''"

record ApiVersionPolicy =
  avp_version :: string
  avp_deprecated :: bool
  avp_sunset :: "string option"

text \<open>\<open>Date.prototype.toUTCString\<close> of a valid date.\<close>

definition toUTCString :: "time \<Rightarrow> string" where
  "toUTCString t =
     (let days = t div 86400000; ms = t mod 86400000; (y, m, d) = civil_from_days days
      in [''Sun'', ''Mon'', ''Tue'', ''Wed'', ''Thu'', ''Fri'', ''Sat''] ! nat ((days + 4) mod 7) @ '', '' @ pad_digits 2 d @ '' '' @
         [''Jan'', ''Feb'', ''Mar'', ''Apr'', ''May'', ''Jun'', ''Jul'', ''Aug'', ''Sep'', ''Oct'', ''Nov'', ''Dec''] ! nat (m - 1) @ '' '' @
         (if y < 0 then ''-'' else '''') @ pad_digits 4 \<bar>y\<bar> @ '' '' @
         pad_digits 2 (ms div 3600000) @ '':'' @ pad_digits 2 (ms div 60000 mod 60) @ '':'' @ pad_digits 2 (ms div 1000 mod 60) @ '' GMT'')"

text \<open>\<open>Date.parse\<close> gives \<open>NaN\<close> or a time value.\<close>

definition resolveLegacySunset :: "(string \<Rightarrow> time option) \<Rightarrow> string option \<Rightarrow> string" where
  "resolveLegacySunset dateParse raw =
     (let candidate = js_trim (case raw of Some r \<Rightarrow> r | None \<Rightarrow> [])
      in if candidate = [] then DEFAULT_LEGACY_SUNSET
         else case dateParse candidate of None \<Rightarrow> DEFAULT_LEGACY_SUNSET | Some ms \<Rightarrow> toUTCString ms)"

definition loadApiVersionPolicy :: "(string \<Rightarrow> time option) \<Rightarrow> (string \<Rightarrow> string option) \<Rightarrow> string" where
  "loadApiVersionPolicy dateParse env = resolveLegacySunset dateParse (env ''API_LEGACY_SUNSET'')"

definition is_v1_path :: "string \<Rightarrow> bool" where
  "is_v1_path pathname \<longleftrightarrow> pathname = ''/api/v1'' \<or> js_startsWith pathname ''/api/v1/''"

definition isLegacyApiPath :: "string \<Rightarrow> bool" where
  "isLegacyApiPath pathname \<longleftrightarrow>
     (if \<not> js_startsWith pathname ''/api'' then False
      else if is_v1_path pathname then False
      else pathname = ''/api'' \<or> js_startsWith pathname ''/api/'')"

definition toVersionedApiPath :: "string \<Rightarrow> string" where
  "toVersionedApiPath pathname =
     (let pathOnly = before_query pathname; query = drop (length pathOnly) pathname
      in if is_v1_path pathOnly then pathname
         else if pathOnly = ''/api'' then ''/api/v1'' @ query
         else if js_startsWith pathOnly ''/api/'' then ''/api/v1/'' @ drop 5 pathOnly @ query
         else pathname)"

definition resolveApiVersionPolicy :: "string \<Rightarrow> string option \<Rightarrow> ApiVersionPolicy option" where
  "resolveApiVersionPolicy pathname legacySunset =
     (let pathOnly = before_query pathname
      in if is_v1_path pathOnly then Some \<lparr>avp_version = ''1'', avp_deprecated = False, avp_sunset = None\<rparr>
         else if isLegacyApiPath pathOnly
           then Some \<lparr>avp_version = ''1'', avp_deprecated = True, avp_sunset = Some (case legacySunset of Some s \<Rightarrow> s | None \<Rightarrow> DEFAULT_LEGACY_SUNSET)\<rparr>
         else None)"

definition applyApiVersionHeaders :: "ApiVersionPolicy \<Rightarrow> string \<Rightarrow> guard_response \<Rightarrow> guard_response" where
  "applyApiVersionHeaders policy path res =
     (let res1 = setHeader ''X-API-Version'' (avp_version policy) res
      in if \<not> avp_deprecated policy then res1
         else let res2 = setHeader ''Deprecation'' ''true'' res1;
                  res3 = (case avp_sunset policy of Some s \<Rightarrow> if s = [] then res2 else setHeader ''Sunset'' s res2 | None \<Rightarrow> res2);
                  successorLink = ''<'' @ toVersionedApiPath (before_query path) @ ''>; rel='' @ [CHR 0x22] @ ''successor-version'' @ [CHR 0x22]
              in case jsmap_get (gs_headers res3) ''Link'' of
                   Some existingLink \<Rightarrow> if existingLink \<noteq> [] then setHeader ''Link'' (existingLink @ '', '' @ successorLink) res3 else setHeader ''Link'' successorLink res3
                 | None \<Rightarrow> setHeader ''Link'' successorLink res3)"

definition apiVersionMiddleware :: "(string \<Rightarrow> time option) \<Rightarrow> (string \<Rightarrow> string option) \<Rightarrow> string option \<Rightarrow> string option \<Rightarrow> middleware" where
  "apiVersionMiddleware dateParse env legacySunset version req res =
     (let sunset = (case legacySunset of Some s \<Rightarrow> s | None \<Rightarrow> loadApiVersionPolicy dateParse env);
          version1 = (case version of Some v \<Rightarrow> v | None \<Rightarrow> ''1'');
          pathname = before_query (raw_url req)
      in case resolveApiVersionPolicy pathname (Some sunset) of
           Some policy \<Rightarrow>
             (True, req, applyApiVersionHeaders (policy\<lparr>avp_version := (if avp_version policy = [] then version1 else avp_version policy)\<rparr>) pathname res)
         | None \<Rightarrow> (True, req, res))"

definition v1VersionMiddleware :: "string option \<Rightarrow> middleware" where
  "v1VersionMiddleware version req res = (True, req, setHeader ''X-API-Version'' (case version of Some v \<Rightarrow> v | None \<Rightarrow> ''1'') res)"

definition legacyDeprecationMiddleware :: "(string \<Rightarrow> time option) \<Rightarrow> (string \<Rightarrow> string option) \<Rightarrow> string option \<Rightarrow> string option \<Rightarrow> middleware" where
  "legacyDeprecationMiddleware dateParse env legacySunset version req res =
     (True, req, applyApiVersionHeaders \<lparr>avp_version = (case version of Some v \<Rightarrow> v | None \<Rightarrow> ''1''), avp_deprecated = True,
        avp_sunset = Some (case legacySunset of Some s \<Rightarrow> s | None \<Rightarrow> loadApiVersionPolicy dateParse env)\<rparr> (before_query (raw_url req)) res)"

section \<open>Maintenance mode and the media-type guard\<close>

record maintenance_entry =
  me_at :: string
  me_enabled :: bool
  me_by :: string

record maintenance_state =
  ms_enabled :: bool
  ms_auditLog :: "maintenance_entry list"

definition setMaintenanceMode :: "bool \<Rightarrow> string \<Rightarrow> time \<Rightarrow> maintenance_state \<Rightarrow> maintenance_state" where
  "setMaintenanceMode enabled actor now s =
     s\<lparr>ms_enabled := enabled, ms_auditLog := ms_auditLog s @ [\<lparr>me_at = toISOString now, me_enabled = enabled, me_by = actor\<rparr>]\<rparr>"

definition maintenanceModeGuard :: "maintenance_state \<Rightarrow> middleware" where
  "maintenanceModeGuard s req res =
     (if \<not> ms_enabled s then (True, req, res)
      else if gr_path req = ''/health'' \<or> gr_method req \<in> set [''GET'', ''HEAD'', ''OPTIONS''] \<or> list_ex (\<lambda>prefix. js_startsWith (gr_path req) prefix) [''/api/admin/'']
        then (True, req, res)
      else (False, req, send_problem (serviceUnavailable ''The API is currently in maintenance mode (read-only). Please retry later.''
              (JsObject [(''maintenanceMode'', JsBool True)])) res))"

definition mediaTypeGuard :: middleware where
  "mediaTypeGuard req res =
     (let methodHasBody = (gr_method req = ''POST'' \<or> gr_method req = ''PUT'' \<or> gr_method req = ''PATCH'');
          hasBody = (methodHasBody \<and>
            (num_gt (case gr_header req ''content-length'' of Some l \<Rightarrow> js_Number l | None \<Rightarrow> NaN) (Fin 0) \<or> gr_header req ''transfer-encoding'' \<noteq> None));
          ct = (case gr_header req ''content-type'' of Some t \<Rightarrow> t | None \<Rightarrow> [])
      in if hasBody \<and> \<not> str_includes ct ''application/json'' then (False, req, send_problem (unsupportedMediaType ''Content-Type must be application/json'') res)
         else (True, req, res))"

section \<open>Oversized bodies\<close>

lemma payload_error_translated:
  "translateUnknownError (PayloadTooLargeError_new limit n) = Some (AppError_new (errorOptions ''payload_too_large'' ''Request body too large. Maximum size is 100kb.''))"
proof -
  have "tv_get (PayloadTooLargeError_new limit n) ''name'' = JsString ''PayloadTooLargeError''" "tv_get (PayloadTooLargeError_new limit n) ''type'' = JsString ''entity.too.large''"
    by (simp_all add: PayloadTooLargeError_new_def js_get_def)
  moreover have "\<not> isAppError (PayloadTooLargeError_new limit n)"
    by (simp add: PayloadTooLargeError_new_def isAppError_def duck_app_error_def)
  ultimately show ?thesis by (simp only: translateUnknownError_def if_False if_True simp_thms)
qed

lemma payload_app_error:
  "ae_statusCode (AppError_new (errorOptions ''payload_too_large'' m)) = Fin 413" "ae_exposeMessage (AppError_new (errorOptions ''payload_too_large'' m)) = JsBool True"
  "ae_message (AppError_new (errorOptions ''payload_too_large'' m)) = m"
  by (simp_all add: AppError_new_def errorOptions_def statusForCode_def PROBLEM_STATUS_def nullish_def)

lemma payload_error_is_413:
  "\<exists>resp. errorHandler (PayloadTooLargeError_new limit n) False = Some resp \<and> pr_status resp = Fin 413 \<and>
     pd_detail (pr_body resp) = ''Request body too large. Maximum size is 100kb.''"
  unfolding errorHandler_def payload_error_translated option.case if_False
  by (intro exI conjI, rule refl) (simp_all only: sendProblem_def problem_response.simps problem_fields problem_detail payload_app_error nullish_def truthy.simps if_True js_value.simps js_value.case num_lt.simps simp_thms, simp)

text \<open>
  Body limits hold for declared and for streamed bodies. For a request whose \<open>Content-Length\<close> is absent or truthful, the path-aware middleware followed by the parser's
  \<open>verify\<close> hook lets the body through exactly when it is no longer than the limit of its path; otherwise the client gets a 413, either from the middleware at once or from
  the error handler when the hook throws.
\<close>

theorem body_limit_enforced:
  fixes config req
  defines "limit \<equiv> resolveBodyLimit (requestPath req) config"
  assumes "\<not> gs_headersSent res" "\<forall>raw. gr_header req ''content-length'' = Some raw \<longrightarrow> js_Number raw = Fin (of_nat (length buf))"
  shows "if num_gt (Fin (of_nat (length buf))) limit
     then (\<exists>req1 res1. createPathAwareBodyLimitMiddleware config req res = (False, req1, res1) \<and> gs_status res1 = Some (Fin 413)) \<or>
          (\<exists>req1 e resp. createPathAwareBodyLimitMiddleware config req res = (True, req1, res) \<and> fst (createJsonBodyLimitVerify config req1 buf) = Inl e \<and>
             errorHandler e False = Some resp \<and> pr_status resp = Fin 413)
     else \<exists>req1. createPathAwareBodyLimitMiddleware config req res = (True, req1, res) \<and> fst (createJsonBodyLimitVerify config req1 buf) = Inr ()"
proof -
  have ap: "createPathAwareBodyLimitMiddleware config req res =
     (case contentLengthExceeds req limit of Some n \<Rightarrow> (False, attachLimitMeta limit req, respondPayloadTooLarge limit (Some n) res) | None \<Rightarrow> (True, attachLimitMeta limit req, res))"
    by (simp only: createPathAwareBodyLimitMiddleware_def bodyLimitMiddleware_def Let_def limit_def option.case_distrib) (simp split: option.split)
  have verify: "fst (createJsonBodyLimitVerify config (attachLimitMeta limit req) buf) =
     (if num_gt (Fin (of_nat (length buf))) limit then Inl (PayloadTooLargeError_new limit (Fin (of_nat (length buf)))) else Inr ())"
    by (simp add: createJsonBodyLimitVerify_def attachLimitMeta_def Let_def)
  show ?thesis
  proof (cases "num_gt (Fin (of_nat (length buf))) limit")
    case False
    then have "contentLengthExceeds req limit = None"
      using assms(3) by (auto simp: contentLengthExceeds_def Let_def split: option.splits)
    then show ?thesis using False ap verify by simp
  next
    case True
    show ?thesis
    proof (cases "contentLengthExceeds req limit")
      case None
      then show ?thesis using True ap verify payload_error_is_413 [of limit "Fin (of_nat (length buf))"] by auto
    next
      case (Some n)
      then have "gs_status (respondPayloadTooLarge limit (Some n) res) = Some (Fin 413)"
        using assms(2) by (simp add: respondPayloadTooLarge_def Let_def)
      then show ?thesis using True ap Some by auto
    qed
  qed
qed

text \<open>With the configured limits the bulk endpoint accepts ten times the default, but the 413 of the error handler always speaks of 100kb.\<close>

lemma bulk_limit:
  "resolveBodyLimit ''/api/credit/lines/bulk'' (loadBodyLimitConfig (\<lambda>_. None)) = Fin 1048576"
  "resolveBodyLimit ''/api/credit/lines'' (loadBodyLimitConfig (\<lambda>_. None)) = Fin 102400"
  by (simp_all add: resolveBodyLimit_def loadBodyLimitConfig_def parsePositiveBytes_def before_query_def rule_matches_def rule_prefix_def js_startsWith_def Let_def
      BODY_LIMIT_DEFAULT_BYTES_def BODY_LIMIT_BULK_BYTES_def)

lemma bulk_limit_reported_as_100kb:
  "\<exists>resp. errorHandler (PayloadTooLargeError_new (Fin 1048576) n) False = Some resp \<and> pd_detail (pr_body resp) = ''Request body too large. Maximum size is 100kb.''"
  using payload_error_is_413 by blast

section \<open>Versioned paths\<close>

lemma before_query_idem [simp]: "before_query (before_query p) = before_query p"
  by (simp add: before_query_def)

lemma startsWith_append [simp]: "js_startsWith (p @ s) p"
  by (simp add: js_startsWith_def)

lemma before_query_append: "CHR ''?'' \<notin> set p \<Longrightarrow> before_query (p @ s) = p @ before_query s"
  by (induction p) (auto simp: before_query_def)

lemma before_query_drop: "before_query p = p \<Longrightarrow> before_query (drop n p) = drop n p"
  by (metis (no_types, lifting) before_query_def in_set_dropD takeWhile_eq_all_conv)

lemma v1_prefix: "is_v1_path (''/api/v1/'' @ s)"
  unfolding is_v1_path_def by (rule disjI2) (rule startsWith_append)

lemma successor_path:
  assumes "before_query p = p" "isLegacyApiPath p"
  shows "toVersionedApiPath p = ''/api/v1'' \<or> toVersionedApiPath p = ''/api/v1/'' @ drop 5 p"
proof -
  have "\<not> is_v1_path p" "p = ''/api'' \<or> js_startsWith p ''/api/''" using assms(2) by (simp_all add: isLegacyApiPath_def split: if_splits)
  then show ?thesis unfolding toVersionedApiPath_def Let_def assms(1) by auto
qed

lemma successor_is_versioned:
  assumes "before_query p = p" "isLegacyApiPath p"
  shows "is_v1_path (toVersionedApiPath p)" "before_query (toVersionedApiPath p) = toVersionedApiPath p"
proof -
  have "before_query (''/api/v1/'' @ drop 5 p) = ''/api/v1/'' @ drop 5 p"
    by (subst before_query_append) (simp_all add: before_query_drop [OF assms(1)])
  then show "is_v1_path (toVersionedApiPath p)" "before_query (toVersionedApiPath p) = toVersionedApiPath p"
    using successor_path [OF assms] v1_prefix [of "drop 5 p"] by (elim disjE; simp add: is_v1_path_def before_query_def; fail)+
qed

lemma header_get_set [simp]: "jsmap_get (gs_headers (setHeader k v res)) k' = (if k' = k then Some v else jsmap_get (gs_headers res) k')"
  by (simp add: setHeader_def)

text \<open>
  What the version headers promise. A request never stops here. A path outside the API is untouched, a path under \<open>/api/v1\<close> is only stamped with the version, and
  every other API path is marked as deprecated with a successor link to a path that is served by version 1 and is not deprecated itself.
\<close>

theorem version_headers:
  fixes req
  defines "p \<equiv> before_query (raw_url req)"
  shows "\<exists>res1. apiVersionMiddleware dateParse env legacySunset version req res = (True, req, res1) \<and>
     (is_v1_path p \<longrightarrow> res1 = setHeader ''X-API-Version'' ''1'' res) \<and>
     (\<not> is_v1_path p \<and> \<not> isLegacyApiPath p \<longrightarrow> res1 = res) \<and>
     (isLegacyApiPath p \<longrightarrow>
        jsmap_get (gs_headers res1) ''X-API-Version'' = Some ''1'' \<and> jsmap_get (gs_headers res1) ''Deprecation'' = Some ''true'' \<and>
        (\<exists>pre. jsmap_get (gs_headers res1) ''Link'' = Some (pre @ ''<'' @ toVersionedApiPath p @ ''>; rel='' @ [CHR 0x22] @ ''successor-version'' @ [CHR 0x22])) \<and>
        resolveApiVersionPolicy (toVersionedApiPath p) legacySunset = Some \<lparr>avp_version = ''1'', avp_deprecated = False, avp_sunset = None\<rparr>)"
proof (cases "isLegacyApiPath p")
  case False
  then show ?thesis
    by (auto simp: apiVersionMiddleware_def Let_def p_def resolveApiVersionPolicy_def applyApiVersionHeaders_def)
next
  case True
  have q: "before_query p = p" by (simp add: p_def)
  have nv: "\<not> is_v1_path p" using True by (simp add: isLegacyApiPath_def split: if_splits)
  obtain sunset where mw: "apiVersionMiddleware dateParse env legacySunset version req res =
      (True, req, applyApiVersionHeaders \<lparr>avp_version = ''1'', avp_deprecated = True, avp_sunset = Some sunset\<rparr> p res)"
    using True nv q by (simp add: apiVersionMiddleware_def Let_def p_def [symmetric] resolveApiVersionPolicy_def)
  let ?res1 = "applyApiVersionHeaders \<lparr>avp_version = ''1'', avp_deprecated = True, avp_sunset = Some sunset\<rparr> p res"
  have "jsmap_get (gs_headers ?res1) ''X-API-Version'' = Some ''1''" "jsmap_get (gs_headers ?res1) ''Deprecation'' = Some ''true''"
    "\<exists>pre. jsmap_get (gs_headers ?res1) ''Link'' = Some (pre @ ''<'' @ toVersionedApiPath p @ ''>; rel='' @ [CHR 0x22] @ ''successor-version'' @ [CHR 0x22])"
    using q by (auto simp: applyApiVersionHeaders_def Let_def split: option.splits)
  moreover have "resolveApiVersionPolicy (toVersionedApiPath p) legacySunset = Some \<lparr>avp_version = ''1'', avp_deprecated = False, avp_sunset = None\<rparr>"
    using successor_is_versioned [OF q True] by (simp add: resolveApiVersionPolicy_def Let_def)
  ultimately show ?thesis using mw nv True by blast
qed

section \<open>Maintenance mode\<close>

text \<open>After any sequence of toggles the mode is that of the last audit entry and every toggle is on record.\<close>

lemma maintenance_log:
  "ms_auditLog (foldl (\<lambda>s (enabled, actor, now). setMaintenanceMode enabled actor now s) s ops) =
     ms_auditLog s @ map (\<lambda>(enabled, actor, now). \<lparr>me_at = toISOString now, me_enabled = enabled, me_by = actor\<rparr>) ops"
  "ops \<noteq> [] \<Longrightarrow> ms_enabled (foldl (\<lambda>s (enabled, actor, now). setMaintenanceMode enabled actor now s) s ops) = fst (last ops)"
  by (induction ops arbitrary: s) (auto simp: setMaintenanceMode_def)

lemma maintenance_blocks_mutations:
  assumes "ms_enabled s" "gr_method req \<notin> set [''GET'', ''HEAD'', ''OPTIONS'']" "gr_path req \<noteq> ''/health''" "\<not> js_startsWith (gr_path req) ''/api/admin/''"
  shows "\<exists>res1. maintenanceModeGuard s req res = (False, req, res1) \<and> gs_status res1 = Some (Fin 503)"
  using assms by (simp add: maintenanceModeGuard_def send_problem_def Let_def sendProblem_def serviceUnavailable_def AppError_new_def errorOptions_def statusForCode_def
      PROBLEM_STATUS_def)

section \<open>Witness\<close>

definition exampleGuardRequest :: guard_request where
  "exampleGuardRequest = \<lparr>gr_method = ''POST'', gr_originalUrl = ''/api/credit/lines?x=1'', gr_url = [], gr_path = [], gr_header = (\<lambda>_. None),
     gr_bodyLimitBytes = None, gr_bodyLimitLabel = None, gr_rawBodyLength = None\<rparr>"

definition exampleGuardResponse :: guard_response where
  "exampleGuardResponse = \<lparr>gs_headersSent = False, gs_headers = jsmap_empty, gs_status = None, gs_body = JsUndefined\<rparr>"

theorem body_limit_enforced_witness:
  "\<exists>req1. createPathAwareBodyLimitMiddleware (loadBodyLimitConfig (\<lambda>_. None)) exampleGuardRequest exampleGuardResponse = (True, req1, exampleGuardResponse) \<and>
     fst (createJsonBodyLimitVerify (loadBodyLimitConfig (\<lambda>_. None)) req1 ''[]'') = Inr ()"
proof -
  have path: "requestPath exampleGuardRequest = ''/api/credit/lines''" by (simp add: requestPath_def raw_url_def exampleGuardRequest_def before_query_def)
  have "\<not> gs_headersSent exampleGuardResponse" by (simp add: exampleGuardResponse_def)
  moreover have "\<forall>raw. gr_header exampleGuardRequest ''content-length'' = Some raw \<longrightarrow> js_Number raw = Fin (of_nat (length ''[]''))"
    by (simp add: exampleGuardRequest_def)
  ultimately show ?thesis
    using body_limit_enforced [of exampleGuardResponse exampleGuardRequest "''[]''" "loadBodyLimitConfig (\<lambda>_. None)"] unfolding path bulk_limit(2)
    by (simp add: num_gt_def)
qed

end
