(* ===== verification/ConditionalGet.thy ===== *)
theory ConditionalGet
  imports RequestGuards
begin

text \<open>
  Conditional GET with entity tags (\<open>src/utils/etag.ts\<close>). \<open>digest\<close> is the base64url form of the SHA-256 digest of a text; what the proofs use of it is that it has at least
  27 characters, all of them letters, digits, \<open>-\<close> or \<open>_\<close>. The payload is a JSON value.
\<close>

definition ETAG_CACHE_CONTROL :: string where
  "ETAG_CACHE_CONTROL = ''private, must-revalidate''"

definition stableSerialize_etag :: "json \<Rightarrow> string" where
  "stableSerialize_etag v = json_stringify v"

definition computeEtag :: "(string \<Rightarrow> string) \<Rightarrow> json \<Rightarrow> string" where
  "computeEtag digest v = [CHR 0x22] @ js_slice (digest (stableSerialize_etag v)) 0 27 @ [CHR 0x22]"

definition normalizeTag :: "string \<Rightarrow> string" where
  "normalizeTag tag =
     (let t = js_trim tag;
          t = (if js_startsWith t ''W/'' \<or> js_startsWith t ''w/'' then js_trim (drop 2 t) else t)
      in if t \<noteq> [] \<and> hd t = CHR 0x22 \<and> last t = CHR 0x22 \<and> 2 \<le> length t then butlast (tl t) else t)"

text \<open>\<open>If-None-Match\<close> as one string; Node joins repeated headers with commas.\<close>

definition etagMatches :: "string option \<Rightarrow> string \<Rightarrow> bool" where
  "etagMatches ifNoneMatch etag =
     (case ifNoneMatch of
        None \<Rightarrow> False
      | Some header \<Rightarrow>
          let trimmed = js_trim header
          in if trimmed = [] then False
             else if trimmed = ''*'' then True
             else list_ex (\<lambda>part. normalizeTag part = normalizeTag etag) (js_split (CHR '','') trimmed))"

definition applyConditionalGet :: "guard_request \<Rightarrow> string \<Rightarrow> guard_response \<Rightarrow> bool \<times> guard_response" where
  "applyConditionalGet req etag res =
     (let res1 = setHeader ''Cache-Control'' ETAG_CACHE_CONTROL (setHeader ''ETag'' etag res)
      in if etagMatches (gr_header req ''if-none-match'') etag then (True, res1\<lparr>gs_status := Some (Fin 304), gs_headersSent := True\<rparr>)
         else (False, res1))"

definition okWithEtag :: "(string \<Rightarrow> string) \<Rightarrow> guard_request \<Rightarrow> json \<Rightarrow> number \<Rightarrow> guard_response \<Rightarrow> guard_response" where
  "okWithEtag digest req payload statusCode res =
     (let envelope = JObj [(''data'', payload), (''error'', JNull)];
          (matched, res1) = applyConditionalGet req (computeEtag digest envelope) res
      in if matched then res1 else res1\<lparr>gs_status := Some statusCode, gs_body := of_json envelope, gs_headersSent := True\<rparr>)"

section \<open>Revalidation\<close>

definition tag_char :: "char \<Rightarrow> bool" where
  "tag_char c \<longleftrightarrow> c \<in> set ''ABCDEFGHIJKLMNOPQRSTUVWXYZabcdefghijklmnopqrstuvwxyz0123456789-_''"

definition digest_ok :: "(string \<Rightarrow> string) \<Rightarrow> bool" where
  "digest_ok digest \<longleftrightarrow> (\<forall>s. 27 \<le> length (digest s) \<and> list_all tag_char (digest s))"

lemma js_trim_outer: "s \<noteq> [] \<Longrightarrow> \<not> is_ws (hd s) \<Longrightarrow> \<not> is_ws (last s) \<Longrightarrow> js_trim s = s"
proof -
  assume "s \<noteq> []" "\<not> is_ws (hd s)" "\<not> is_ws (last s)"
  then have "dropWhile is_ws s = s" "dropWhile is_ws (rev s) = rev s" by (simp_all add: dropWhile_eq_self_iff hd_rev)
  then show ?thesis by (simp add: js_trim_def)
qed

lemma js_trim_space: "js_trim (CHR '' '' # s) = js_trim s"
  by (simp add: js_trim_def is_ws_def)

text \<open>A tag as a client sends it: quoted, with or without the weak prefix.\<close>

definition sent_tag :: "bool \<times> string \<Rightarrow> string" where
  "sent_tag wd = (if fst wd then ''W/'' else []) @ [CHR 0x22] @ snd wd @ [CHR 0x22]"

lemma sent_tag_trim: "js_trim (sent_tag wd) = sent_tag wd"
  by (rule js_trim_outer) (auto simp: sent_tag_def is_ws_def)

lemma normalizeTag_sent: "normalizeTag (sent_tag wd) = snd wd"
proof -
  have q: "js_trim ([CHR 0x22] @ snd wd @ [CHR 0x22]) = [CHR 0x22] @ snd wd @ [CHR 0x22]" by (rule js_trim_outer) (auto simp: is_ws_def)
  show ?thesis
  proof (cases "fst wd")
    case True
    then have "js_startsWith (sent_tag wd) ''W/''" "drop 2 (sent_tag wd) = [CHR 0x22] @ snd wd @ [CHR 0x22]" by (simp_all add: sent_tag_def js_startsWith_def)
    then show ?thesis using q by (simp add: normalizeTag_def sent_tag_trim Let_def)
  next
    case False
    then have "\<not> js_startsWith (sent_tag wd) ''W/''" "\<not> js_startsWith (sent_tag wd) ''w/''" by (simp_all add: sent_tag_def js_startsWith_def)
    then show ?thesis using False by (simp add: normalizeTag_def sent_tag_trim Let_def) (simp add: sent_tag_def)
  qed
qed

lemma normalizeTag_space: "normalizeTag (CHR '' '' # t) = normalizeTag t"
  by (simp add: normalizeTag_def js_trim_space)

lemma split_join_comma:
  "\<forall>t \<in> set (a # ts). CHR '','' \<notin> set t \<Longrightarrow> js_split (CHR '','') (js_join '', '' (a # ts)) = a # map (\<lambda>t. CHR '' '' # t) ts"
proof (induction ts arbitrary: a)
  case Nil
  then show ?case by (simp add: js_split_none)
next
  case (Cons b ts)
  have "js_split (CHR '','') (CHR '' '' # js_join '', '' (b # ts)) = (CHR '' '' # b) # map (\<lambda>t. CHR '' '' # t) ts" using Cons.IH [of b] Cons.prems by simp
  then show ?case using js_split_first [of "CHR '',''" a "CHR '' '' # js_join '', '' (b # ts)"] Cons.prems by simp
qed

lemma js_join_ends:
  "js_join sep (a # ts) = a @ (if ts = [] then [] else sep @ js_join sep ts)"
  by (cases ts) simp_all

lemma join_tags_trim: "js_trim (js_join '', '' (map sent_tag (wd # ws))) = js_join '', '' (map sent_tag (wd # ws))"
proof (rule js_trim_outer)
  show "js_join '', '' (map sent_tag (wd # ws)) \<noteq> []" "\<not> is_ws (hd (js_join '', '' (map sent_tag (wd # ws))))"
    by (simp_all only: list.map js_join_ends) (simp_all add: sent_tag_def is_ws_def)
  have "last (js_join '', '' (map sent_tag (wd # ws))) = CHR 0x22"
  proof (induction ws arbitrary: wd)
    case (Cons x xs)
    have "js_join '', '' (map sent_tag (x # xs)) \<noteq> []" by (simp only: list.map js_join_ends) (simp add: sent_tag_def)
    then show ?case using Cons [of x] by (simp only: list.map js_join_ends [of _ "sent_tag wd"]) (simp add: last_append)
  qed (simp add: sent_tag_def)
  then show "\<not> is_ws (last (js_join '', '' (map sent_tag (wd # ws))))" by (simp add: is_ws_def)
qed

lemma comma_no_tag: "\<not> tag_char (CHR '','')"
  by (simp add: tag_char_def)

lemma etagMatches_list:
  assumes "wds \<noteq> []" "\<forall>wd \<in> set wds. list_all tag_char (snd wd)" "list_all tag_char d"
  shows "etagMatches (Some (js_join '', '' (map sent_tag wds))) (sent_tag (False, d)) \<longleftrightarrow> d \<in> snd ` set wds"
proof -
  obtain wd ws where wds: "wds = wd # ws" using assms(1) by (cases wds) auto
  let ?h = "js_join '', '' (map sent_tag wds)"
  have h: "js_trim ?h = ?h" unfolding wds by (rule join_tags_trim)
  have ne: "?h \<noteq> []" "?h \<noteq> ''*''" unfolding wds by (simp_all only: list.map js_join_ends) (auto simp: sent_tag_def)
  have "CHR '','' \<notin> set (sent_tag x)" if "x \<in> set wds" for x
    using assms(2) that comma_no_tag by (auto simp: sent_tag_def list_all_iff)
  then have sp: "js_split (CHR '','') ?h = sent_tag wd # map (\<lambda>t. CHR '' '' # t) (map sent_tag ws)"
    unfolding wds list.map by (intro split_join_comma) auto
  show ?thesis unfolding etagMatches_def option.case Let_def h using ne sp
    by (auto simp: wds normalizeTag_sent normalizeTag_space list_ex_iff)
qed

lemma computeEtag_sent: "computeEtag digest v = sent_tag (False, js_slice (digest (stableSerialize_etag v)) 0 27)"
  by (simp add: computeEtag_def sent_tag_def)

lemma tag_chars: "digest_ok digest \<Longrightarrow> list_all tag_char (js_slice (digest s) 0 27)"
  using js_slice_nat [of 0 27 "digest s"] by (auto simp: digest_ok_def list_all_iff dest: in_set_takeD)

text \<open>
  C40. Revalidation with entity tags. When a client sends back a list of tags (strong or weak) that it may have received earlier, a GET is answered with 304 and no body
  exactly when the tag of the current payload is among them; otherwise with the full envelope. Either way the response carries the current tag and the cache directive, so
  a client that revalidates never keeps a payload whose tag has changed.
\<close>

theorem etag_revalidation:
  fixes digest payload res
  defines "tag v \<equiv> js_slice (digest (stableSerialize_etag (JObj [(''data'', v), (''error'', JNull)]))) 0 27"
  assumes "digest_ok digest" "tags \<noteq> []" "\<forall>wd \<in> set tags. \<exists>s. snd wd = js_slice (digest s) 0 27"
    "gr_header req ''if-none-match'' = Some (js_join '', '' (map sent_tag tags))" "status \<noteq> Fin 304"
  defines "res1 \<equiv> okWithEtag digest req payload status res"
  shows "(gs_status res1 = Some (Fin 304) \<longleftrightarrow> tag payload \<in> snd ` set tags) \<and>
     (if tag payload \<in> snd ` set tags then gs_body res1 = gs_body res
      else gs_status res1 = Some status \<and> gs_body res1 = of_json (JObj [(''data'', payload), (''error'', JNull)])) \<and>
     jsmap_get (gs_headers res1) ''ETag'' = Some (sent_tag (False, tag payload)) \<and> jsmap_get (gs_headers res1) ''Cache-Control'' = Some ''private, must-revalidate''"
proof -
  have "\<forall>wd \<in> set tags. list_all tag_char (snd wd)" using assms(4) tag_chars [OF assms(2)] by metis
  from etagMatches_list [OF assms(3) this tag_chars [OF assms(2)]]
  have m: "etagMatches (gr_header req ''if-none-match'') (sent_tag (False, tag payload)) \<longleftrightarrow> tag payload \<in> snd ` set tags"
    unfolding assms(5) tag_def .
  have e: "computeEtag digest (JObj [(''data'', payload), (''error'', JNull)]) = sent_tag (False, tag payload)"
    by (simp only: computeEtag_sent tag_def)
  have r: "res1 = (let r = setHeader ''Cache-Control'' ETAG_CACHE_CONTROL (setHeader ''ETag'' (sent_tag (False, tag payload)) res)
     in if tag payload \<in> snd ` set tags then r\<lparr>gs_status := Some (Fin 304), gs_headersSent := True\<rparr>
        else r\<lparr>gs_status := Some status, gs_body := of_json (JObj [(''data'', payload), (''error'', JNull)]), gs_headersSent := True\<rparr>)"
    unfolding res1_def okWithEtag_def applyConditionalGet_def Let_def e m by simp
  show ?thesis using assms(6) unfolding r by (simp add: Let_def setHeader_def ETAG_CACHE_CONTROL_def del: of_json.simps)
qed

theorem etag_revalidation_witness:
  "gs_status (okWithEtag (\<lambda>s. if s = [] then replicate 27 CHR ''A'' else replicate 27 CHR ''B'')
     (exampleGuardRequest\<lparr>gr_header := (\<lambda>h. if h = ''if-none-match'' then Some (sent_tag (True, replicate 27 CHR ''B'')) else None)\<rparr>)
     (JStr ''x'') (Fin 200) exampleGuardResponse) = Some (Fin 304)"
proof -
  let ?digest = "\<lambda>s :: string. if s = [] then replicate 27 CHR ''A'' else replicate 27 CHR ''B''"
  have ok: "digest_ok ?digest" unfolding digest_ok_def list_all_iff by (simp add: tag_char_def)
  have sl: "js_slice (?digest s) 0 27 = ?digest s" for s using js_slice_nat [of 0 27 "?digest s"] by simp
  have ex: "\<forall>wd \<in> set [(True, replicate 27 CHR ''B'')]. \<exists>s. snd wd = js_slice (?digest s) 0 27"
    unfolding sl by (auto intro: exI [of _ "''x''"])
  have ne: "stableSerialize_etag (JObj [(''data'', JStr ''x''), (''error'', JNull)]) \<noteq> []" by (simp add: stableSerialize_etag_def)
  show ?thesis
    using etag_revalidation [of ?digest "[(True, replicate 27 CHR ''B'')]"
        "exampleGuardRequest\<lparr>gr_header := (\<lambda>h. if h = ''if-none-match'' then Some (sent_tag (True, replicate 27 CHR ''B'')) else None)\<rparr>"
        "Fin 200" "JStr ''x''" exampleGuardResponse, OF ok _ ex]
    unfolding sl using ne by simp
qed

end
