(* ===== verification/Database.thy ===== *)
theory Database
  imports CreditLineRepo
begin

text \<open>
  The Postgres tables that the repositories and the retention sweep share, as lists of rows, and the execution of one statement. The columns are those of the
  migrations; a \<open>NUMERIC(28,8)\<close> is kept as a whole number of units of \<open>10 ^ -8\<close>. A statement is a function of the database's clock and the tables, translated from
  its SQL text; whether the server accepts it (connection, constraints not written out here) is a parameter of the environment.
\<close>

text \<open>A \<open>TIMESTAMPTZ\<close> in microseconds since the epoch.\<close>

type_synonym timestamptz = int

record borrower_row =
  bo_id :: string
  bo_wallet_address :: string
  bo_created_at :: timestamptz
  bo_updated_at :: timestamptz
  bo_anonymized_at :: "timestamptz option"

record credit_line_row =
  lr_id :: string
  lr_borrower_id :: string
  lr_credit_limit :: int
  lr_currency :: string
  lr_status :: string
  lr_interest_rate_bps :: int
  lr_version :: int
  lr_created_at :: timestamptz
  lr_updated_at :: timestamptz

record transaction_row =
  tr_id :: string
  tr_credit_line_id :: string
  tr_type :: string
  tr_amount :: int
  tr_currency :: string
  tr_status :: string
  tr_blockchain_tx_hash :: "string option"
  tr_created_at :: timestamptz
  tr_processed_at :: "timestamptz option"

record risk_row =
  rk_id :: string
  rk_borrower_id :: string
  rk_evaluated_at :: timestamptz

record event_row =
  ew_id :: string
  ew_created_at :: timestamptz

record retention_run_row =
  rn_events_deleted :: nat
  rn_risk_evaluations_deleted :: nat
  rn_borrowers_anonymized :: nat
  rn_operational_retention_days :: int
  rn_events_retention_days :: int
  rn_errors :: "string option"

record database =
  db_borrowers :: "borrower_row list"
  db_credit_lines :: "credit_line_row list"
  db_transactions :: "transaction_row list"
  db_risk_evaluations :: "risk_row list"
  db_events :: "event_row list"
  db_retention_runs :: "retention_run_row list"

text \<open>The primary keys.\<close>

definition keys_ok :: "database \<Rightarrow> bool" where
  "keys_ok db \<longleftrightarrow> distinct (map bo_id (db_borrowers db)) \<and> distinct (map lr_id (db_credit_lines db)) \<and> distinct (map tr_id (db_transactions db))"

record db_env =
  de_now :: "nat \<Rightarrow> timestamptz"
  de_fails :: "nat \<Rightarrow> string option"

record db_world =
  dw_db :: database
  dw_queries :: nat

text \<open>\<open>client.query\<close>: the \<open>n\<close>-th statement fails with a message, or is executed at the database's time.\<close>

definition client_query :: "db_env \<Rightarrow> (timestamptz \<Rightarrow> database \<Rightarrow> 'a \<times> database) \<Rightarrow> db_world \<Rightarrow> (string + 'a) \<times> db_world" where
  "client_query env stmt w =
     (case de_fails env (dw_queries w) of
        Some message \<Rightarrow> (Inl message, w\<lparr>dw_queries := dw_queries w + 1\<rparr>)
      | None \<Rightarrow> (case stmt (de_now env (dw_queries w)) (dw_db w) of (r, db) \<Rightarrow> (Inr r, \<lparr>dw_db = db, dw_queries = dw_queries w + 1\<rparr>)))"

end
