(* ===== verification/DataRetention.thy ===== *)
theory DataRetention
  imports Database JobQueue Json
begin

text \<open>
  Data retention (\<open>src/services/dataRetentionService.ts\<close>, \<open>src/services/dataRetentionWorker.ts\<close>): deletion of old events and risk evaluations, anonymisation of stale
  borrowers, the dry run, the audit row and the worker that runs sweeps through the job queue. \<open>sha256hex\<close> is \<open>encode(digest(x, 'sha256'), 'hex')\<close>. An interval of a
  number of days is that many times 24 hours, as in a session whose time zone is UTC.
\<close>

section \<open>The statements\<close>

record DataRetentionConfig =
  drc_operationalRetentionDays :: int
  drc_eventsRetentionDays :: int

record DataRetentionResult =
  drr_runAt :: time
  drr_eventsDeleted :: nat
  drr_riskEvaluationsDeleted :: nat
  drr_borrowersAnonymized :: nat
  drr_errors :: "string list"

definition cutoff :: "timestamptz \<Rightarrow> int \<Rightarrow> timestamptz" where
  "cutoff now days = now - days * 86400000000"

definition purgeExpiredEvents :: "int \<Rightarrow> time \<Rightarrow> database \<Rightarrow> nat \<times> database" where
  "purgeExpiredEvents retentionDays now db =
     (length (filter (\<lambda>e. ew_created_at e < cutoff now retentionDays) (db_events db)),
      db\<lparr>db_events := filter (\<lambda>e. \<not> ew_created_at e < cutoff now retentionDays) (db_events db)\<rparr>)"

definition has_active_line :: "database \<Rightarrow> string \<Rightarrow> bool" where
  "has_active_line db borrowerId \<longleftrightarrow> list_ex (\<lambda>cl. lr_borrower_id cl = borrowerId \<and> lr_status cl = ''active'') (db_credit_lines db)"

definition stale_evaluation :: "time \<Rightarrow> database \<Rightarrow> risk_row \<Rightarrow> borrower_row \<Rightarrow> bool" where
  "stale_evaluation c db re b \<longleftrightarrow> rk_borrower_id re = bo_id b \<and> rk_evaluated_at re < c \<and> \<not> has_active_line db (bo_id b)"

definition purgeStaleRiskEvaluations :: "int \<Rightarrow> time \<Rightarrow> database \<Rightarrow> nat \<times> database" where
  "purgeStaleRiskEvaluations retentionDays now db =
     (let gone = (\<lambda>re. list_ex (stale_evaluation (cutoff now retentionDays) db re) (db_borrowers db))
      in (length (filter gone (db_risk_evaluations db)), db\<lparr>db_risk_evaluations := filter (\<lambda>re. \<not> gone re) (db_risk_evaluations db)\<rparr>))"

text \<open>The common table expression \<open>last_activity\<close>: the greatest of the borrower's own timestamp and those of its lines, their transactions and its evaluations.\<close>

definition activity_times :: "database \<Rightarrow> borrower_row \<Rightarrow> time list" where
  "activity_times db b =
     (let lines = filter (\<lambda>cl. lr_borrower_id cl = bo_id b) (db_credit_lines db)
      in map lr_updated_at lines @
         map tr_created_at (filter (\<lambda>t. list_ex (\<lambda>cl. tr_credit_line_id t = lr_id cl) lines) (db_transactions db)) @
         map rk_evaluated_at (filter (\<lambda>re. rk_borrower_id re = bo_id b) (db_risk_evaluations db)))"

definition last_active_at :: "database \<Rightarrow> borrower_row \<Rightarrow> time" where
  "last_active_at db b = foldl max (bo_updated_at b) (activity_times db b)"

definition stale_borrower :: "time \<Rightarrow> database \<Rightarrow> borrower_row \<Rightarrow> bool" where
  "stale_borrower c db b \<longleftrightarrow> bo_anonymized_at b = None \<and> \<not> has_active_line db (bo_id b) \<and> last_active_at db b < c"

definition anonymized :: "(string \<Rightarrow> string) \<Rightarrow> time \<Rightarrow> borrower_row \<Rightarrow> borrower_row" where
  "anonymized sha256hex now b = b\<lparr>bo_wallet_address := ''anon_'' @ sha256hex (bo_id b), bo_anonymized_at := Some now\<rparr>"

definition anonymizeStaleBorrowers :: "(string \<Rightarrow> string) \<Rightarrow> int \<Rightarrow> time \<Rightarrow> database \<Rightarrow> nat \<times> database" where
  "anonymizeStaleBorrowers sha256hex retentionDays now db =
     (let stale = stale_borrower (cutoff now retentionDays) db
      in (length (filter stale (db_borrowers db)),
          db\<lparr>db_borrowers := map (\<lambda>b. if stale b then anonymized sha256hex now b else b) (db_borrowers db)\<rparr>))"

text \<open>The counting statements of the dry run.\<close>

definition count_expired_events :: "int \<Rightarrow> time \<Rightarrow> database \<Rightarrow> nat \<times> database" where
  "count_expired_events days now db = (length (filter (\<lambda>e. ew_created_at e < cutoff now days) (db_events db)), db)"

definition count_stale_evaluations :: "int \<Rightarrow> time \<Rightarrow> database \<Rightarrow> nat \<times> database" where
  "count_stale_evaluations days now db =
     (length (concat (map (\<lambda>re. filter (stale_evaluation (cutoff now days) db re) (db_borrowers db)) (db_risk_evaluations db))), db)"

definition count_stale_borrowers :: "int \<Rightarrow> time \<Rightarrow> database \<Rightarrow> nat \<times> database" where
  "count_stale_borrowers days now db = (length (filter (stale_borrower (cutoff now days) db) (db_borrowers db)), db)"

definition record_run :: "DataRetentionConfig \<Rightarrow> DataRetentionResult \<Rightarrow> time \<Rightarrow> database \<Rightarrow> unit \<times> database" where
  "record_run config result now db = ((), db\<lparr>db_retention_runs := db_retention_runs db @
     [\<lparr>rn_events_deleted = drr_eventsDeleted result, rn_risk_evaluations_deleted = drr_riskEvaluationsDeleted result,
       rn_borrowers_anonymized = drr_borrowersAnonymized result, rn_operational_retention_days = drc_operationalRetentionDays config,
       rn_events_retention_days = drc_eventsRetentionDays config,
       rn_errors = (if drr_errors result \<noteq> [] then Some (json_stringify (JArr (map JStr (drr_errors result)))) else None)\<rparr>]\<rparr>)"

section \<open>The service\<close>

definition empty_result :: "time \<Rightarrow> DataRetentionResult" where
  "empty_result runAt = \<lparr>drr_runAt = runAt, drr_eventsDeleted = 0, drr_riskEvaluationsDeleted = 0, drr_borrowersAnonymized = 0, drr_errors = []\<rparr>"

text \<open>One guarded step: the count is stored, or the error is collected under the step's name.\<close>

definition settle :: "string \<Rightarrow> ('a \<Rightarrow> DataRetentionResult \<Rightarrow> DataRetentionResult) \<Rightarrow> string + 'a \<Rightarrow> DataRetentionResult \<Rightarrow> DataRetentionResult" where
  "settle name store r result =
     (case r of Inr n \<Rightarrow> store n result | Inl message \<Rightarrow> result\<lparr>drr_errors := drr_errors result @ [name @ '': '' @ message]\<rparr>)"

definition DataRetentionService_preview :: "db_env \<Rightarrow> time \<Rightarrow> DataRetentionConfig \<Rightarrow> db_world \<Rightarrow> DataRetentionResult \<times> db_world" where
  "DataRetentionService_preview env runAt config w =
     (let (r1, w1) = client_query env (count_expired_events (drc_eventsRetentionDays config)) w;
          (r2, w2) = client_query env (count_stale_evaluations (drc_operationalRetentionDays config)) w1;
          (r3, w3) = client_query env (count_stale_borrowers (drc_operationalRetentionDays config)) w2
      in (settle ''previewStaleBorrowers'' (\<lambda>n. drr_borrowersAnonymized_update (\<lambda>_. n)) r3
           (settle ''previewStaleRiskEvaluations'' (\<lambda>n. drr_riskEvaluationsDeleted_update (\<lambda>_. n)) r2
             (settle ''previewExpiredEvents'' (\<lambda>n. drr_eventsDeleted_update (\<lambda>_. n)) r1 (empty_result runAt))), w3))"

definition DataRetentionService_run :: "(string \<Rightarrow> string) \<Rightarrow> db_env \<Rightarrow> time \<Rightarrow> DataRetentionConfig \<Rightarrow> db_world \<Rightarrow> DataRetentionResult \<times> db_world" where
  "DataRetentionService_run sha256hex env runAt config w =
     (let (r1, w1) = client_query env (purgeExpiredEvents (drc_eventsRetentionDays config)) w;
          (r2, w2) = client_query env (purgeStaleRiskEvaluations (drc_operationalRetentionDays config)) w1;
          (r3, w3) = client_query env (anonymizeStaleBorrowers sha256hex (drc_operationalRetentionDays config)) w2;
          result = settle ''anonymizeStaleBorrowers'' (\<lambda>n. drr_borrowersAnonymized_update (\<lambda>_. n)) r3
            (settle ''purgeStaleRiskEvaluations'' (\<lambda>n. drr_riskEvaluationsDeleted_update (\<lambda>_. n)) r2
              (settle ''purgeExpiredEvents'' (\<lambda>n. drr_eventsDeleted_update (\<lambda>_. n)) r1 (empty_result runAt)));
          (r4, w4) = client_query env (record_run config result) w3
      in (settle ''recordRun'' (\<lambda>_ r. r) r4 result, w4))"

section \<open>The worker\<close>

definition retentionOutcome :: "DataRetentionResult \<Rightarrow> string + unit" where
  "retentionOutcome result = (if drr_errors result \<noteq> [] then Inl (''Data retention errors: '' @ js_join '', '' (drr_errors result)) else Inr ())"

definition DataRetentionWorker_handler :: "(string \<Rightarrow> string) \<Rightarrow> db_env \<Rightarrow> (DataRetentionConfig, db_world) job_handler" where
  "DataRetentionWorker_handler sha256hex env job w =
     (let (result, w') = DataRetentionService_run sha256hex env (de_now env (dw_queries w) div 1000) (job_payload job) w in ([], retentionOutcome result, w'))"

definition DataRetentionWorker_new ::
  "(string \<Rightarrow> string) \<Rightarrow> db_env \<Rightarrow> (DataRetentionConfig, db_world) job_queue \<Rightarrow> (DataRetentionConfig, db_world) job_queue" where
  "DataRetentionWorker_new sha256hex env q = InMemoryJobQueue_registerHandler ''data-retention-sweep'' (DataRetentionWorker_handler sha256hex env) q"

record retention_worker =
  dt_running :: bool
  dt_interval :: "int option"
  dt_retentionConfig :: "DataRetentionConfig option"

definition scheduleSweep :: "DataRetentionConfig \<Rightarrow> int \<Rightarrow> time \<Rightarrow> (DataRetentionConfig, db_world) job_queue \<Rightarrow> string \<times> (DataRetentionConfig, db_world) job_queue" where
  "scheduleSweep config delayMs now q =
     InMemoryJobQueue_enqueue \<lparr>enq_type = ''data-retention-sweep'', enq_payload = config, enq_maxAttempts = Some 3, enq_delayMs = Some delayMs, enq_id = None\<rparr> now q"

definition DataRetentionWorker_start ::
  "int option \<Rightarrow> bool option \<Rightarrow> DataRetentionConfig \<Rightarrow> time \<Rightarrow> retention_worker \<times> (DataRetentionConfig, db_world) job_queue \<Rightarrow>
     retention_worker \<times> (DataRetentionConfig, db_world) job_queue" where
  "DataRetentionWorker_start intervalMs runImmediately retentionConfig now s =
     (case s of (wk, q) \<Rightarrow>
        if dt_running wk then (wk, q)
        else let q1 = InMemoryJobQueue_start q;
                 q2 = (if (case runImmediately of Some b \<Rightarrow> b | None \<Rightarrow> True) then snd (scheduleSweep retentionConfig 0 now q1) else q1)
             in (\<lparr>dt_running = True, dt_interval = Some (case intervalMs of Some i \<Rightarrow> i | None \<Rightarrow> 86400000), dt_retentionConfig = Some retentionConfig\<rparr>, q2))"

definition DataRetentionWorker_tick ::
  "time \<Rightarrow> retention_worker \<times> (DataRetentionConfig, db_world) job_queue \<Rightarrow> retention_worker \<times> (DataRetentionConfig, db_world) job_queue" where
  "DataRetentionWorker_tick now s =
     (case s of (wk, q) \<Rightarrow>
        case (dt_interval wk, dt_retentionConfig wk) of
          (Some _, Some config) \<Rightarrow> (wk, snd (scheduleSweep config 0 now q))
        | _ \<Rightarrow> (wk, q))"

definition DataRetentionWorker_stop :: "retention_worker \<Rightarrow> retention_worker" where
  "DataRetentionWorker_stop wk = (if \<not> dt_running wk then wk else wk\<lparr>dt_interval := None, dt_running := False\<rparr>)"

section \<open>What a sweep does to the tables\<close>

lemma foldl_max_less: "foldl max a xs < c \<longleftrightarrow> a < c \<and> (\<forall>x \<in> set xs. x < c)" for a c :: int
  by (induction xs arbitrary: a) auto

lemma stale_borrower_iff:
  "stale_borrower c db b \<longleftrightarrow> bo_anonymized_at b = None \<and> \<not> has_active_line db (bo_id b) \<and> bo_updated_at b < c \<and> (\<forall>t \<in> set (activity_times db b). t < c)"
  by (simp add: stale_borrower_def last_active_at_def foldl_max_less)

text \<open>The evaluations a borrower keeps after old ones are deleted decide its staleness just as all of them did.\<close>

lemma stale_after_purge:
  assumes "bo_id b \<in> bo_id ` set (db_borrowers db)" "cutoff now' days' \<le> c"
  shows "stale_borrower c (snd (purgeStaleRiskEvaluations days' now' db)) b \<longleftrightarrow> stale_borrower c db b"
proof -
  let ?gone = "\<lambda>re. list_ex (stale_evaluation (cutoff now' days') db re) (db_borrowers db)"
  have lines: "has_active_line (db\<lparr>db_risk_evaluations := rs\<rparr>) i = has_active_line db i" for rs i by (simp add: has_active_line_def)
  have "(\<forall>re \<in> set (db_risk_evaluations db). \<not> ?gone re \<and> rk_borrower_id re = bo_id b \<longrightarrow> rk_evaluated_at re < c) \<longleftrightarrow>
        (\<forall>re \<in> set (db_risk_evaluations db). rk_borrower_id re = bo_id b \<longrightarrow> rk_evaluated_at re < c)"
    using assms(2) by (force simp: list_ex_iff stale_evaluation_def)
  then show ?thesis
    by (auto simp: stale_borrower_iff purgeStaleRiskEvaluations_def Let_def lines activity_times_def)
qed

lemma purge_counts:
  assumes "distinct (map bo_id (db_borrowers db))"
  shows "fst (count_stale_evaluations days now db) = fst (purgeStaleRiskEvaluations days now db)"
proof -
  let ?st = "stale_evaluation (cutoff now days) db"
  have one: "length (filter (?st re) bs) = (if list_ex (?st re) bs then 1 else 0)" if "distinct (map bo_id bs)" for re bs
    using that
  proof (induction bs)
    case (Cons b bs)
    have "filter (?st re) bs = []" if "?st re b" using that Cons.prems by (auto simp: stale_evaluation_def filter_empty_conv image_iff)
    with Cons show ?case by auto
  qed simp
  have "length (concat (map (\<lambda>re. filter (?st re) (db_borrowers db)) res)) = length (filter (\<lambda>re. list_ex (?st re) (db_borrowers db)) res)" for res
    by (induction res) (simp_all add: one [OF assms])
  then show ?thesis by (simp add: count_stale_evaluations_def purgeStaleRiskEvaluations_def Let_def)
qed

lemma purge_events_frame:
  "db_borrowers (snd (purgeExpiredEvents d now db)) = db_borrowers db" "db_credit_lines (snd (purgeExpiredEvents d now db)) = db_credit_lines db"
  "db_transactions (snd (purgeExpiredEvents d now db)) = db_transactions db" "db_risk_evaluations (snd (purgeExpiredEvents d now db)) = db_risk_evaluations db"
  by (simp_all add: purgeExpiredEvents_def)

lemma stale_other_tables:
  assumes "db_credit_lines db' = db_credit_lines db" "db_transactions db' = db_transactions db" "db_risk_evaluations db' = db_risk_evaluations db"
  shows "stale_borrower c db' b = stale_borrower c db b" "stale_evaluation c db' = stale_evaluation c db"
  using assms by (simp_all add: fun_eq_iff stale_borrower_iff activity_times_def stale_evaluation_def has_active_line_def)

lemma preview_is_run:
  assumes "\<And>n. de_fails env n = None" "\<And>n. de_now env n = t" "keys_ok (dw_db w)"
  shows "fst (DataRetentionService_preview env runAt config w) = fst (DataRetentionService_run sha256hex env runAt config w)"
proof -
  let ?db = "dw_db w" and ?days = "drc_operationalRetentionDays config"
  let ?db1 = "snd (purgeExpiredEvents (drc_eventsRetentionDays config) t ?db)"
  have q: "client_query env stmt v = (Inr (fst (stmt t (dw_db v))), \<lparr>dw_db = snd (stmt t (dw_db v)), dw_queries = dw_queries v + 1\<rparr>)" for stmt :: "time \<Rightarrow> database \<Rightarrow> 'a \<times> database" and v
    by (simp add: client_query_def assms(1,2) split: prod.splits)
  have ev: "fst (purgeExpiredEvents (drc_eventsRetentionDays config) t ?db) = fst (count_expired_events (drc_eventsRetentionDays config) t ?db)"
    by (simp add: purgeExpiredEvents_def count_expired_events_def)
  have "fst (purgeStaleRiskEvaluations ?days t ?db1) = fst (purgeStaleRiskEvaluations ?days t ?db)"
    by (simp add: purgeStaleRiskEvaluations_def Let_def purge_events_frame stale_other_tables [OF purge_events_frame(2-4)])
  then have re: "fst (purgeStaleRiskEvaluations ?days t ?db1) = fst (count_stale_evaluations ?days t ?db)"
    using purge_counts [of ?db] assms(3) by (simp add: keys_ok_def)
  have "stale_borrower (cutoff t ?days) (snd (purgeStaleRiskEvaluations ?days t ?db1)) b = stale_borrower (cutoff t ?days) ?db b" if "b \<in> set (db_borrowers ?db)" for b
    using that stale_after_purge [of b ?db1 t ?days] by (simp add: purge_events_frame stale_other_tables [OF purge_events_frame(2-4)])
  then have an: "fst (anonymizeStaleBorrowers sha256hex ?days t (snd (purgeStaleRiskEvaluations ?days t ?db1))) = fst (count_stale_borrowers ?days t ?db)"
    by (simp add: anonymizeStaleBorrowers_def count_stale_borrowers_def Let_def purgeStaleRiskEvaluations_def purge_events_frame cong: filter_cong)
  have un: "snd (count_expired_events d t ?db) = ?db" "snd (count_stale_evaluations d t ?db) = ?db" "snd (count_stale_borrowers d t ?db) = ?db" for d
    by (simp_all add: count_expired_events_def count_stale_evaluations_def count_stale_borrowers_def)
  show ?thesis
    unfolding DataRetentionService_preview_def DataRetentionService_run_def q Let_def split fst_conv snd_conv db_world.simps un ev re an
    by (simp add: settle_def empty_result_def)
qed

text \<open>
  C26. The dry run tells the truth. When nothing fails and the statements read the same clock, the preview reports exactly the result of the sweep itself: the three
  counts agree, although the sweep counts after it has already deleted events and evaluations, because a deleted evaluation is too old to make its borrower active.
\<close>

theorem preview_predicts_run:
  assumes "\<And>n. de_fails env n = None" "\<And>n. de_now env n = t" "keys_ok (dw_db w)"
  shows "fst (DataRetentionService_preview env runAt config w) = fst (DataRetentionService_run sha256hex env runAt config w)"
  using assms by (rule preview_is_run)

text \<open>Anonymising keeps identities, lines and activity, so a second sweep at the same instant finds nothing left to do.\<close>

definition same_tables :: "database \<Rightarrow> database \<Rightarrow> bool" where
  "same_tables db db' \<longleftrightarrow> db_borrowers db' = db_borrowers db \<and> db_credit_lines db' = db_credit_lines db \<and> db_transactions db' = db_transactions db \<and>
     db_risk_evaluations db' = db_risk_evaluations db \<and> db_events db' = db_events db"

definition sweep :: "(string \<Rightarrow> string) \<Rightarrow> DataRetentionConfig \<Rightarrow> time \<Rightarrow> database \<Rightarrow> database" where
  "sweep sha256hex config t db = snd (anonymizeStaleBorrowers sha256hex (drc_operationalRetentionDays config) t
     (snd (purgeStaleRiskEvaluations (drc_operationalRetentionDays config) t (snd (purgeExpiredEvents (drc_eventsRetentionDays config) t db)))))"

lemma sweep_tables:
  "db_credit_lines (sweep h config t db) = db_credit_lines db" "db_transactions (sweep h config t db) = db_transactions db"
  "map bo_id (db_borrowers (sweep h config t db)) = map bo_id (db_borrowers db)"
  "db_events (sweep h config t db) = filter (\<lambda>e. \<not> ew_created_at e < cutoff t (drc_eventsRetentionDays config)) (db_events db)"
  by (simp_all add: sweep_def anonymizeStaleBorrowers_def purgeStaleRiskEvaluations_def purgeExpiredEvents_def Let_def anonymized_def comp_def)

lemma gone_iff:
  "list_ex (stale_evaluation c db re) bs \<longleftrightarrow> rk_borrower_id re \<in> bo_id ` set bs \<and> rk_evaluated_at re < c \<and> \<not> has_active_line db (rk_borrower_id re)"
  by (auto simp: list_ex_iff stale_evaluation_def)

lemma sweep_evaluations:
  "db_risk_evaluations (sweep h config t db) =
     filter (\<lambda>re. \<not> (rk_borrower_id re \<in> bo_id ` set (db_borrowers db) \<and> rk_evaluated_at re < cutoff t (drc_operationalRetentionDays config) \<and>
        \<not> has_active_line db (rk_borrower_id re))) (db_risk_evaluations db)"
  by (simp add: sweep_def anonymizeStaleBorrowers_def purgeStaleRiskEvaluations_def purgeExpiredEvents_def Let_def gone_iff has_active_line_def)

lemma sweep_borrowers:
  "db_borrowers (sweep h config t db) =
     map (\<lambda>b. if stale_borrower (cutoff t (drc_operationalRetentionDays config)) (sweep h config t db) b then anonymized h t b else b) (db_borrowers db)"
  (is "_ = map (\<lambda>b. if ?st (sweep h config t db) b then _ else _) _")
proof -
  let ?db2 = "snd (purgeStaleRiskEvaluations (drc_operationalRetentionDays config) t (snd (purgeExpiredEvents (drc_eventsRetentionDays config) t db)))"
  have "?st (sweep h config t db) b = ?st ?db2 b" for b
    by (rule stale_other_tables) (simp_all add: sweep_def anonymizeStaleBorrowers_def Let_def)
  then show ?thesis by (simp add: sweep_def anonymizeStaleBorrowers_def Let_def) (simp add: purgeStaleRiskEvaluations_def purgeExpiredEvents_def Let_def)
qed

lemma nothing_left:
  fixes h config t db
  defines "db' \<equiv> sweep h config t db" and "c \<equiv> cutoff t (drc_operationalRetentionDays config)"
  shows "filter (\<lambda>e. ew_created_at e < cutoff t (drc_eventsRetentionDays config)) (db_events db') = []"
    and "filter (\<lambda>re. list_ex (stale_evaluation c db' re) (db_borrowers db')) (db_risk_evaluations db') = []"
    and "filter (stale_borrower c db') (db_borrowers db') = []"
proof -
  show "filter (\<lambda>e. ew_created_at e < cutoff t (drc_eventsRetentionDays config)) (db_events db') = []" by (auto simp: db'_def sweep_tables filter_empty_conv)
  have "bo_id ` set (db_borrowers db') = bo_id ` set (db_borrowers db)"
    using arg_cong [OF sweep_tables(3) [of h config t db], of set] by (simp add: db'_def)
  moreover have "has_active_line db' = has_active_line db" by (simp add: fun_eq_iff has_active_line_def db'_def sweep_tables)
  ultimately show "filter (\<lambda>re. list_ex (stale_evaluation c db' re) (db_borrowers db')) (db_risk_evaluations db') = []"
    unfolding gone_iff by (auto simp: filter_empty_conv db'_def sweep_evaluations c_def)
  have "\<not> stale_borrower c db' (anonymized h t b)" for b by (simp add: stale_borrower_def anonymized_def)
  then show "filter (stale_borrower c db') (db_borrowers db') = []"
    using sweep_borrowers [of h config t db] by (auto simp: filter_empty_conv db'_def [symmetric] c_def [symmetric])
qed

lemma record_run_row: "\<exists>row. snd (record_run config result now db) = db\<lparr>db_retention_runs := db_retention_runs db @ [row]\<rparr>"
  by (auto simp: record_run_def)

lemma run_without_faults:
  assumes "\<And>n. de_fails env n = None" "\<And>n. de_now env n = t"
  shows "\<exists>row. dw_db (snd (DataRetentionService_run h env runAt config w)) = (sweep h config t (dw_db w))\<lparr>db_retention_runs := db_retention_runs (dw_db w) @ [row]\<rparr>"
proof -
  have q: "client_query env stmt v = (Inr (fst (stmt t (dw_db v))), \<lparr>dw_db = snd (stmt t (dw_db v)), dw_queries = dw_queries v + 1\<rparr>)" for stmt :: "time \<Rightarrow> database \<Rightarrow> 'a \<times> database" and v
    by (simp add: client_query_def assms(1,2) split: prod.splits)
  have "db_retention_runs (sweep h config t (dw_db w)) = db_retention_runs (dw_db w)"
    by (simp add: sweep_def anonymizeStaleBorrowers_def purgeStaleRiskEvaluations_def purgeExpiredEvents_def Let_def)
  then show ?thesis unfolding DataRetentionService_run_def q Let_def split fst_conv snd_conv db_world.simps sweep_def [symmetric]
    using record_run_row [of config _ t "sweep h config t (dw_db w)"] by (simp del: split_paired_Ex)
qed

text \<open>
  A repeated sweep is harmless. The job queue runs a failed sweep again, and an operator may run one twice: when nothing fails and the clock stands still, a second sweep
  deletes and anonymises nothing and leaves every table but its own audit trail as the first one left it.
\<close>

theorem repeated_sweep_changes_nothing:
  fixes config sha256hex runAt runAt'
  assumes "\<And>n. de_fails env n = None" "\<And>n. de_now env n = t" "keys_ok (dw_db w)"
  defines "w1 \<equiv> snd (DataRetentionService_run sha256hex env runAt config w)"
  defines "out \<equiv> DataRetentionService_run sha256hex env runAt' config w1"
  shows "fst out = empty_result runAt' \<and> same_tables (dw_db w1) (dw_db (snd out))"
proof -
  let ?db' = "sweep sha256hex config t (dw_db w)" and ?c = "cutoff t (drc_operationalRetentionDays config)"
  obtain row where w1: "dw_db w1 = ?db'\<lparr>db_retention_runs := db_retention_runs (dw_db w) @ [row]\<rparr>" using run_without_faults [OF assms(1,2)] unfolding w1_def by blast
  obtain row' where w2: "dw_db (snd out) = (sweep sha256hex config t (dw_db w1))\<lparr>db_retention_runs := db_retention_runs (dw_db w1) @ [row']\<rparr>"
    using run_without_faults [OF assms(1,2)] unfolding out_def by blast
  have st: "stale_borrower ?c (dw_db w1) = stale_borrower ?c ?db'" "stale_evaluation ?c (dw_db w1) = stale_evaluation ?c ?db'"
    using stale_other_tables [of "dw_db w1" ?db'] w1 by (simp_all add: fun_eq_iff)
  have left: "filter (\<lambda>e. ew_created_at e < cutoff t (drc_eventsRetentionDays config)) (db_events (dw_db w1)) = []"
    "filter (\<lambda>re. list_ex (stale_evaluation ?c (dw_db w1) re) (db_borrowers (dw_db w1))) (db_risk_evaluations (dw_db w1)) = []"
    "filter (stale_borrower ?c (dw_db w1)) (db_borrowers (dw_db w1)) = []"
    unfolding st using nothing_left [of t config sha256hex "dw_db w"] w1 by simp_all
  have "keys_ok (dw_db w1)" using assms(3) w1 by (simp add: keys_ok_def sweep_tables)
  then have "fst out = fst (DataRetentionService_preview env runAt' config w1)" "distinct (map bo_id (db_borrowers (dw_db w1)))"
    unfolding out_def using preview_is_run [OF assms(1,2), of w1] by (simp_all add: keys_ok_def)
  moreover have "fst (DataRetentionService_preview env runAt' config w1) = empty_result runAt'"
  proof -
    have counts: "count_expired_events (drc_eventsRetentionDays config) t (dw_db w1) = (0, dw_db w1)"
      "count_stale_borrowers (drc_operationalRetentionDays config) t (dw_db w1) = (0, dw_db w1)"
      using left(1,3) by (simp_all add: count_expired_events_def count_stale_borrowers_def)
    have "fst (count_stale_evaluations (drc_operationalRetentionDays config) t (dw_db w1)) = 0"
      using left(2) purge_counts [OF calculation(2)] by (simp add: purgeStaleRiskEvaluations_def Let_def)
    then have "count_stale_evaluations (drc_operationalRetentionDays config) t (dw_db w1) = (0, dw_db w1)" by (simp add: count_stale_evaluations_def)
    with counts show ?thesis by (simp add: DataRetentionService_preview_def client_query_def assms(1,2) settle_def empty_result_def)
  qed
  moreover have "same_tables (dw_db w1) (dw_db (snd out))"
  proof -
    let ?db2 = "sweep sha256hex config t (dw_db w1)"
    have ev: "db_events ?db2 = db_events (dw_db w1)" using left(1) by (simp add: sweep_tables filter_empty_conv filter_id_conv)
    have re: "db_risk_evaluations ?db2 = db_risk_evaluations (dw_db w1)"
      using left(2) unfolding gone_iff by (auto simp: sweep_evaluations filter_empty_conv filter_id_conv)
    have "stale_borrower ?c ?db2 = stale_borrower ?c (dw_db w1)"
      using stale_other_tables(1) [OF sweep_tables(1,2) re] by (simp add: fun_eq_iff)
    then have "db_borrowers ?db2 = db_borrowers (dw_db w1)"
      using left(3) sweep_borrowers [of sha256hex config t "dw_db w1"] by (auto simp: filter_empty_conv map_idI)
    with ev re show ?thesis unfolding w2 same_tables_def by (simp add: sweep_tables(1,2))
  qed
  ultimately show ?thesis by simp
qed

section \<open>What a sweep must not touch\<close>

lemma client_query_db:
  "dw_db (snd (client_query env stmt w)) = dw_db w \<or> dw_db (snd (client_query env stmt w)) = snd (stmt (de_now env (dw_queries w)) (dw_db w))"
  "dw_queries (snd (client_query env stmt w)) = dw_queries w + 1"
  by (simp_all add: client_query_def split: option.splits prod.splits)

text \<open>The tables after a sweep in which any statement may have failed.\<close>

lemma run_tables:
  fixes h env runAt config w
  defines "db \<equiv> dw_db w" and "n \<equiv> dw_queries w" and "days \<equiv> drc_operationalRetentionDays config"
  obtains db1 db2 db3 where "db1 = db \<or> db1 = snd (purgeExpiredEvents (drc_eventsRetentionDays config) (de_now env n) db)"
    "db2 = db1 \<or> db2 = snd (purgeStaleRiskEvaluations days (de_now env (n + 1)) db1)"
    "db3 = db2 \<or> db3 = snd (anonymizeStaleBorrowers h days (de_now env (n + 2)) db2)"
    "same_tables db3 (dw_db (snd (DataRetentionService_run h env runAt config w)))"
proof -
  define w1 where "w1 = snd (client_query env (purgeExpiredEvents (drc_eventsRetentionDays config)) w)"
  define w2 where "w2 = snd (client_query env (purgeStaleRiskEvaluations days) w1)"
  define w3 where "w3 = snd (client_query env (anonymizeStaleBorrowers h days) w2)"
  obtain result where run: "snd (DataRetentionService_run h env runAt config w) = snd (client_query env (record_run config result) w3)"
    unfolding DataRetentionService_run_def w1_def w2_def w3_def days_def Let_def case_prod_beta snd_conv by blast
  have "same_tables (dw_db w3) (dw_db (snd (client_query env (record_run config result) w3)))"
    using client_query_db(1) [of env "record_run config result" w3] by (auto simp: record_run_def same_tables_def)
  moreover have "dw_queries w1 = n + 1" "dw_queries w2 = n + 2" by (simp_all add: w1_def w2_def n_def client_query_db(2))
  ultimately show thesis
    using that [of "dw_db w1" "dw_db w2" "dw_db w3"] client_query_db(1) [of env "purgeExpiredEvents (drc_eventsRetentionDays config)" w]
      client_query_db(1) [of env "purgeStaleRiskEvaluations days" w1] client_query_db(1) [of env "anonymizeStaleBorrowers h days" w2]
    unfolding run db_def n_def w1_def [symmetric] w2_def [symmetric] w3_def [symmetric] by auto
qed

text \<open>
  C25. Retention spares active borrowers. Whatever statements of a sweep fail, credit lines and transactions stay as they are, every risk evaluation of a borrower with an
  active credit line is kept, and a borrower is changed only by replacing the wallet address with a digest of its identifier, and only if it has no active line and all its
  activity (its own row, lines, transactions, evaluations) lies before the retention window.
\<close>

theorem retention_spares_active_borrowers:
  fixes w env config sha256hex runAt
  defines "db \<equiv> dw_db w" and "now \<equiv> de_now env (dw_queries w + 2)"
  defines "db' \<equiv> dw_db (snd (DataRetentionService_run sha256hex env runAt config w))"
  assumes "de_now env (dw_queries w + 1) \<le> now"
  shows "db_credit_lines db' = db_credit_lines db \<and> db_transactions db' = db_transactions db \<and>
     filter (\<lambda>re. has_active_line db (rk_borrower_id re)) (db_risk_evaluations db') = filter (\<lambda>re. has_active_line db (rk_borrower_id re)) (db_risk_evaluations db) \<and>
     list_all2 (\<lambda>b b'. b' = b \<or> b' = b\<lparr>bo_wallet_address := ''anon_'' @ sha256hex (bo_id b), bo_anonymized_at := Some now\<rparr> \<and> \<not> has_active_line db (bo_id b) \<and>
        (\<forall>t \<in> set (bo_updated_at b # activity_times db b). t < now - drc_operationalRetentionDays config * 86400000000)) (db_borrowers db) (db_borrowers db')"
proof -
  let ?days = "drc_operationalRetentionDays config"
  obtain db1 db2 db3 where d1: "db1 = db \<or> db1 = snd (purgeExpiredEvents (drc_eventsRetentionDays config) (de_now env (dw_queries w)) db)"
    and d2: "db2 = db1 \<or> db2 = snd (purgeStaleRiskEvaluations ?days (de_now env (dw_queries w + 1)) db1)"
    and d3: "db3 = db2 \<or> db3 = snd (anonymizeStaleBorrowers sha256hex ?days now db2)" and d4: "same_tables db3 db'"
    unfolding db_def db'_def now_def by (rule run_tables [where w = w and env = env and config = config and h = sha256hex and runAt = runAt]) blast
  have t1: "db_borrowers db1 = db_borrowers db" "db_credit_lines db1 = db_credit_lines db" "db_transactions db1 = db_transactions db" "db_risk_evaluations db1 = db_risk_evaluations db"
    using d1 by (auto simp: purge_events_frame)
  have t2: "db_borrowers db2 = db_borrowers db" "db_credit_lines db2 = db_credit_lines db" "db_transactions db2 = db_transactions db"
    using d2 t1 by (auto simp: purgeStaleRiskEvaluations_def Let_def)
  have active: "has_active_line db1 = has_active_line db" "has_active_line db2 = has_active_line db" by (simp_all add: fun_eq_iff has_active_line_def t1 t2)
  have ev: "filter (\<lambda>re. has_active_line db (rk_borrower_id re)) (db_risk_evaluations db2) = filter (\<lambda>re. has_active_line db (rk_borrower_id re)) (db_risk_evaluations db)"
    using d2
  proof
    assume "db2 = db1" then show ?thesis by (simp add: t1(4))
  next
    assume "db2 = snd (purgeStaleRiskEvaluations ?days (de_now env (dw_queries w + 1)) db1)"
    then show ?thesis by (auto simp: purgeStaleRiskEvaluations_def Let_def gone_iff active t1(4) intro: filter_cong)
  qed
  have stale: "stale_borrower (cutoff now ?days) db2 b = stale_borrower (cutoff now ?days) db b" if "b \<in> set (db_borrowers db)" for b
  proof -
    have "cutoff (de_now env (dw_queries w + 1)) ?days \<le> cutoff now ?days" using assms(4) by (simp add: cutoff_def)
    from stale_after_purge [OF _ this, of b db1] have "stale_borrower (cutoff now ?days) db2 b = stale_borrower (cutoff now ?days) db1 b" using d2 that t1(1) by auto
    then show ?thesis using stale_other_tables(1) [OF t1(2-4)] by simp
  qed
  have "list_all2 (\<lambda>b b'. b' = b \<or> b' = anonymized sha256hex now b \<and> stale_borrower (cutoff now ?days) db b) (db_borrowers db) (db_borrowers db3)"
    using d3
  proof
    assume "db3 = db2" then show ?thesis by (simp add: t2 list_all2_same)
  next
    assume "db3 = snd (anonymizeStaleBorrowers sha256hex ?days now db2)"
    then show ?thesis by (simp add: anonymizeStaleBorrowers_def Let_def t2 list_all2_map2 list_all2_same stale)
  qed
  then have "list_all2 (\<lambda>b b'. b' = b \<or> b' = b\<lparr>bo_wallet_address := ''anon_'' @ sha256hex (bo_id b), bo_anonymized_at := Some now\<rparr> \<and> \<not> has_active_line db (bo_id b) \<and>
        (\<forall>t \<in> set (bo_updated_at b # activity_times db b). t < now - ?days * 86400000000)) (db_borrowers db) (db_borrowers db')"
    using d4 by (auto simp: same_tables_def stale_borrower_iff anonymized_def cutoff_def elim!: list_all2_mono)
  moreover have "db_credit_lines db3 = db_credit_lines db" "db_transactions db3 = db_transactions db" "db_risk_evaluations db3 = db_risk_evaluations db2"
    using d3 t2 by (auto simp: anonymizeStaleBorrowers_def Let_def)
  ultimately show ?thesis using d4 ev by (simp add: same_tables_def)
qed

section \<open>Witnesses\<close>

definition exampleRetention :: DataRetentionConfig where
  "exampleRetention = \<lparr>drc_operationalRetentionDays = 90, drc_eventsRetentionDays = 365\<rparr>"

definition exampleDb :: database where
  "exampleDb = \<lparr>db_borrowers = [\<lparr>bo_id = ''b1'', bo_wallet_address = ''GA'', bo_created_at = 0, bo_updated_at = 0, bo_anonymized_at = None\<rparr>,
       \<lparr>bo_id = ''b2'', bo_wallet_address = ''GB'', bo_created_at = 0, bo_updated_at = 0, bo_anonymized_at = None\<rparr>],
     db_credit_lines = [\<lparr>lr_id = ''l2'', lr_borrower_id = ''b2'', lr_credit_limit = 0, lr_currency = ''USDC'', lr_status = ''active'', lr_interest_rate_bps = 0,
       lr_version = 1, lr_created_at = 0, lr_updated_at = 0\<rparr>],
     db_transactions = [], db_risk_evaluations = [\<lparr>rk_id = ''e1'', rk_borrower_id = ''b1'', rk_evaluated_at = 5\<rparr>, \<lparr>rk_id = ''e2'', rk_borrower_id = ''b2'', rk_evaluated_at = 5\<rparr>],
     db_events = [\<lparr>ew_id = ''v'', ew_created_at = 0\<rparr>], db_retention_runs = []\<rparr>"

definition exampleDbEnv :: db_env where
  "exampleDbEnv = \<lparr>de_now = (\<lambda>_. 40000000000000), de_fails = (\<lambda>_. None)\<rparr>"

definition exampleWorld :: db_world where
  "exampleWorld = \<lparr>dw_db = exampleDb, dw_queries = 0\<rparr>"

lemma example_env: "de_fails exampleDbEnv n = None" "de_now exampleDbEnv n = 40000000000000"
  by (simp_all add: exampleDbEnv_def)

lemma example_keys: "keys_ok (dw_db exampleWorld)"
  by (simp add: exampleWorld_def exampleDb_def keys_ok_def)

theorem preview_predicts_run_witness:
  "fst (DataRetentionService_preview exampleDbEnv 0 exampleRetention exampleWorld) = fst (DataRetentionService_run (\<lambda>s. s) exampleDbEnv 0 exampleRetention exampleWorld)"
  by (rule preview_predicts_run [OF example_env example_keys])

theorem repeated_sweep_changes_nothing_witness:
  "fst (DataRetentionService_run (\<lambda>s. s) exampleDbEnv 1 exampleRetention (snd (DataRetentionService_run (\<lambda>s. s) exampleDbEnv 0 exampleRetention exampleWorld))) = empty_result 1"
  by (rule conjunct1 [OF repeated_sweep_changes_nothing [OF example_env example_keys]])

theorem retention_spares_active_borrowers_witness:
  "filter (\<lambda>re. has_active_line exampleDb (rk_borrower_id re)) (db_risk_evaluations (dw_db (snd (DataRetentionService_run (\<lambda>s. s) exampleDbEnv 0 exampleRetention exampleWorld)))) =
     [\<lparr>rk_id = ''e2'', rk_borrower_id = ''b2'', rk_evaluated_at = 5\<rparr>]"
proof -
  have "de_now exampleDbEnv (dw_queries exampleWorld + 1) \<le> de_now exampleDbEnv (dw_queries exampleWorld + 2)" by (simp add: exampleDbEnv_def)
  note f = conjunct1 [OF conjunct2 [OF conjunct2 [OF retention_spares_active_borrowers [OF this, of "\<lambda>s. s" 0 exampleRetention]]]]
  have "dw_db exampleWorld = exampleDb" by (simp add: exampleWorld_def)
  moreover have "filter (\<lambda>re. has_active_line exampleDb (rk_borrower_id re)) (db_risk_evaluations exampleDb) = [\<lparr>rk_id = ''e2'', rk_borrower_id = ''b2'', rk_evaluated_at = 5\<rparr>]"
    by (simp add: exampleDb_def has_active_line_def)
  ultimately show ?thesis using f by simp
qed

end
