(* ===== verification/PostgresRepos.thy ===== *)
theory PostgresRepos
  imports Database Problems CreditLineService CursorPagination
begin

text \<open>
  The Postgres repositories of credit lines and transactions (\<open>src/repositories/postgres/PostgresCreditLineRepository.ts\<close>, \<open>PostgresTransactionRepository.ts\<close>) and the
  credit-line service on top of them. Balances are not stored here: what is utilized is the sum of the ledger.

  \<open>pg_in\<close>, \<open>pg_out\<close> and \<open>pg_int\<close> are the server's conversions of \<open>NUMERIC(28,8)\<close> and \<open>INTEGER\<close> parameters and results, \<open>pg_restrict\<close> the error of a violated foreign
  key. Rows that a query leaves unordered come in the order of the table. Status and type columns hold the enumerations' strings, which is all the code writes.
  The module does not import \<open>duplicateResource\<close>, \<open>conflictFromUniqueViolation\<close> and \<open>ConflictError\<close>, so a statement that reaches one of these names throws a \<open>ReferenceError\<close>.
\<close>

section \<open>Columns\<close>

text \<open>The JavaScript date of a column: microseconds are cut off.\<close>

definition js_date :: "timestamptz \<Rightarrow> time" where
  "js_date t = t div 1000"

record pg_types =
  pg_in :: "string \<Rightarrow> js_error + int"
  pg_out :: "int \<Rightarrow> string"
  pg_int :: "number \<Rightarrow> js_error + int"
  pg_restrict :: js_error

definition line_status :: "string \<Rightarrow> CreditLineStatus" where
  "line_status s = (if s = ''active'' then ACTIVE else if s = ''suspended'' then SUSPENDED else if s = ''closed'' then CLOSED else PENDING_LINE)"

fun line_status_string :: "CreditLineStatus \<Rightarrow> string" where
  "line_status_string ACTIVE = ''active''"
| "line_status_string SUSPENDED = ''suspended''"
| "line_status_string CLOSED = ''closed''"
| "line_status_string PENDING_LINE = ''pending''"

fun tx_type_string :: "TransactionType \<Rightarrow> string" where
  "tx_type_string BORROW = ''borrow''"
| "tx_type_string REPAY = ''repay''"
| "tx_type_string INTEREST_ACCRUAL = ''interest_accrual''"
| "tx_type_string FEE = ''fee''"
| "tx_type_string STATUS_CHANGE = ''status_change''"

definition tx_type_of :: "string \<Rightarrow> TransactionType" where
  "tx_type_of s = (if s = ''borrow'' then BORROW else if s = ''repay'' then REPAY else if s = ''interest_accrual'' then INTEREST_ACCRUAL
     else if s = ''fee'' then FEE else STATUS_CHANGE)"

fun tx_status_string :: "TransactionStatus \<Rightarrow> string" where
  "tx_status_string PENDING = ''pending''"
| "tx_status_string CONFIRMED = ''confirmed''"
| "tx_status_string FAILED = ''failed''"
| "tx_status_string CANCELLED = ''cancelled''"

definition tx_status_of :: "string \<Rightarrow> TransactionStatus" where
  "tx_status_of s = (if s = ''confirmed'' then CONFIRMED else if s = ''failed'' then FAILED else if s = ''cancelled'' then CANCELLED else PENDING)"

section \<open>Credit lines\<close>

definition ledger_rows :: "database \<Rightarrow> string \<Rightarrow> transaction_row list" where
  "ledger_rows db lineId = filter (\<lambda>t. tr_credit_line_id t = lineId \<and> tr_status t \<noteq> ''failed'' \<and> tr_status t \<noteq> ''cancelled'') (db_transactions db)"

definition ledger_sum :: "database \<Rightarrow> string \<Rightarrow> int" where
  "ledger_sum db lineId =
     sum_list (map (\<lambda>t. if tr_type t = ''borrow'' then tr_amount t else if tr_type t = ''repay'' then - tr_amount t else 0) (ledger_rows db lineId))"

definition calculateAvailableCredit :: "pg_types \<Rightarrow> database \<Rightarrow> string \<Rightarrow> string \<Rightarrow> string" where
  "calculateAvailableCredit pg db lineId creditLimit =
     (let utilized = parseFloat (if ledger_rows db lineId = [] then ''0'' else pg_out pg (ledger_sum db lineId)); limit = parseFloat creditLimit
      in if \<not> num_isFinite utilized \<or> \<not> num_isFinite limit then creditLimit
         else num_toString (num_max (Fin 0) (num_sub limit (num_max (Fin 0) utilized))))"

definition calculateUtilized :: "string \<Rightarrow> string \<Rightarrow> string" where
  "calculateUtilized creditLimit availableCredit =
     (let utilized = num_sub (parseFloat creditLimit) (parseFloat availableCredit)
      in if num_isFinite utilized then num_toString (num_max (Fin 0) utilized) else ''0'')"

definition toCreditLine :: "pg_types \<Rightarrow> database \<Rightarrow> credit_line_row \<times> borrower_row \<Rightarrow> CreditLine" where
  "toCreditLine pg db rb =
     (case rb of (row, b) \<Rightarrow>
        let creditLimit = pg_out pg (lr_credit_limit row); availableCredit = calculateAvailableCredit pg db (lr_id row) creditLimit
        in \<lparr>cl_id = lr_id row, cl_walletAddress = bo_wallet_address b, cl_creditLimit = creditLimit, cl_availableCredit = availableCredit,
            cl_utilized = calculateUtilized creditLimit availableCredit, cl_interestRateBps = num_of_int (lr_interest_rate_bps row),
            cl_status = line_status (lr_status row), cl_version = Some (lr_version row), cl_createdAt = js_date (lr_created_at row), cl_updatedAt = js_date (lr_updated_at row)\<rparr>)"

text \<open>\<open>credit_lines cl JOIN borrowers b ON cl.borrower_id = b.id\<close>\<close>

definition joined_lines :: "database \<Rightarrow> (credit_line_row \<times> borrower_row) list" where
  "joined_lines db = concat (map (\<lambda>row. map (Pair row) (filter (\<lambda>b. lr_borrower_id row = bo_id b) (db_borrowers db))) (db_credit_lines db))"

definition pgl_findById :: "pg_types \<Rightarrow> database \<Rightarrow> string \<Rightarrow> CreditLine option" where
  "pgl_findById pg db lineId = map_option (toCreditLine pg db) (find (\<lambda>(row, b). lr_id row = lineId) (joined_lines db))"

text \<open>\<open>ORDER BY cl.created_at DESC\<close>\<close>

definition newest_lines :: "(credit_line_row \<times> borrower_row) list \<Rightarrow> (credit_line_row \<times> borrower_row) list" where
  "newest_lines = sort_key (\<lambda>(row, b). - lr_created_at row)"

definition pgl_findByWalletAddress :: "pg_types \<Rightarrow> database \<Rightarrow> string \<Rightarrow> CreditLine list" where
  "pgl_findByWalletAddress pg db walletAddress =
     map (toCreditLine pg db) (newest_lines (filter (\<lambda>(row, b). bo_wallet_address b = walletAddress) (joined_lines db)))"

definition pgl_findAll :: "pg_types \<Rightarrow> database \<Rightarrow> nat option \<Rightarrow> nat option \<Rightarrow> CreditLine list" where
  "pgl_findAll pg db offset limit =
     (let o1 = (case offset of Some n \<Rightarrow> n | None \<Rightarrow> 0); l1 = (case limit of Some n \<Rightarrow> n | None \<Rightarrow> 100)
      in map (toCreditLine pg db) (take l1 (drop o1 (newest_lines (joined_lines db)))))"

definition pgl_exists :: "database \<Rightarrow> string \<Rightarrow> bool" where
  "pgl_exists db lineId = list_ex (\<lambda>row. lr_id row = lineId) (db_credit_lines db)"

definition pgl_count :: "database \<Rightarrow> nat" where
  "pgl_count db = length (db_credit_lines db)"

text \<open>\<open>UPDATE credit_lines SET ... WHERE id = $ [AND version = $]\<close>\<close>

definition pgl_patch :: "int option \<Rightarrow> int option \<Rightarrow> CreditLineStatus option \<Rightarrow> timestamptz \<Rightarrow> credit_line_row \<Rightarrow> credit_line_row" where
  "pgl_patch limit rate status now row =
     row\<lparr>lr_credit_limit := (case limit of Some v \<Rightarrow> v | None \<Rightarrow> lr_credit_limit row),
         lr_interest_rate_bps := (case rate of Some v \<Rightarrow> v | None \<Rightarrow> lr_interest_rate_bps row),
         lr_status := (case status of Some v \<Rightarrow> line_status_string v | None \<Rightarrow> lr_status row), lr_updated_at := now, lr_version := lr_version row + 1\<rparr>"

fun optional :: "('a \<Rightarrow> 'e + 'b) \<Rightarrow> 'a option \<Rightarrow> 'e + 'b option" where
  "optional f None = Inr None"
| "optional f (Some x) = ebind (f x) (\<lambda>y. Inr (Some y))"

definition pgl_update :: "pg_types \<Rightarrow> string \<Rightarrow> UpdateCreditLineRequest \<Rightarrow> timestamptz \<Rightarrow> (database, CreditLine option) comp" where
  "pgl_update pg lineId request now db =
     (if ucr_creditLimit request = None \<and> ucr_interestRateBps request = None \<and> ucr_status request = None then (Inr (pgl_findById pg db lineId), db)
      else case ebind (optional (pg_in pg) (ucr_creditLimit request)) (\<lambda>limit. ebind (optional (pg_int pg) (ucr_interestRateBps request)) (\<lambda>rate. Inr (limit, rate))) of
        Inl e \<Rightarrow> (Inl e, db)
      | Inr (limit, rate) \<Rightarrow>
          let hit = (\<lambda>row. lr_id row = lineId \<and> (case ucr_expectedVersion request of Some v \<Rightarrow> lr_version row = v | None \<Rightarrow> True))
          in if \<not> list_ex hit (db_credit_lines db)
             then (case ucr_expectedVersion request of
                     Some v \<Rightarrow>
                       if pgl_exists db lineId
                       then (Inl (VersionConflictError lineId v (case pgl_findById pg db lineId of Some cl \<Rightarrow> the (cl_version cl) | None \<Rightarrow> - 1)), db)
                       else (Inr None, db)
                   | None \<Rightarrow> (Inr None, db))
             else let db1 = db\<lparr>db_credit_lines := map (\<lambda>row. if hit row then pgl_patch limit rate (ucr_status request) now row else row) (db_credit_lines db)\<rparr>
                  in (Inr (pgl_findById pg db1 lineId), db1))"

text \<open>\<open>DELETE\<close>; transactions of the line restrict it.\<close>

definition pgl_delete :: "pg_types \<Rightarrow> string \<Rightarrow> (database, bool) comp" where
  "pgl_delete pg lineId db =
     (if pgl_exists db lineId \<and> list_ex (\<lambda>t. tr_credit_line_id t = lineId) (db_transactions db) then (Inl (pg_restrict pg), db)
      else (Inr (pgl_exists db lineId), db\<lparr>db_credit_lines := filter (\<lambda>row. lr_id row \<noteq> lineId) (db_credit_lines db)\<rparr>))"

text \<open>\<open>findAllWithCursor\<close>: \<open>WHERE (cl.created_at > $2 OR (cl.created_at = $2 AND cl.id > $3)) ORDER BY cl.created_at ASC, cl.id ASC LIMIT $1\<close> with \<open>$2\<close> the cursor's
  milliseconds and \<open>$1\<close> one more than the page size.\<close>

definition after_key :: "CursorKey \<Rightarrow> credit_line_row \<times> borrower_row \<Rightarrow> bool" where
  "after_key k rb =
     (let t = 1000 * num_trunc (ck_t k); row = fst rb in lr_created_at row > t \<or> lr_created_at row = t \<and> code_unit_compare (lr_id row) (ck_i k) > 0)"

definition pgl_findAllWithCursor :: "pg_types \<Rightarrow> database \<Rightarrow> string option \<Rightarrow> nat option \<Rightarrow> js_error + CreditLine CursorPage" where
  "pgl_findAllWithCursor pg db cursor limit =
     (let l1 = (case limit of Some n \<Rightarrow> n | None \<Rightarrow> 100)
      in ebind (decodeCursor cursor False) (\<lambda>decoded.
           let rows = take (l1 + 1) (js_sort (by_key_then (\<lambda>rb. lr_created_at (fst rb)) (\<lambda>rb. lr_id (fst rb)) code_unit_compare)
                        (filter (\<lambda>rb. case decoded of Some k \<Rightarrow> after_key k rb | None \<Rightarrow> True) (joined_lines db)))
           in buildPageFromOverfetch (map (toCreditLine pg db) rows) (num_of_int (int l1)) (\<lambda>cl. \<lparr>ck_t = num_of_int (cl_createdAt cl), ck_i = cl_id cl\<rparr>)))"

definition borrower_with :: "database \<Rightarrow> string \<Rightarrow> borrower_row option" where
  "borrower_with db walletAddress = find (\<lambda>b. bo_wallet_address b = walletAddress) (db_borrowers db)"

text \<open>\<open>ensureBorrower\<close>. Another writer may act between the \<open>SELECT\<close> and the \<open>INSERT\<close> (\<open>other\<close>); the unique index on the wallet then rejects the insertion, and the
  handler of the rejection fails on the name it calls.\<close>

definition ensureBorrower :: "(database \<Rightarrow> database) \<Rightarrow> string \<Rightarrow> string \<Rightarrow> timestamptz \<Rightarrow> (database, string) comp" where
  "ensureBorrower other walletAddress uuid now db =
     (case borrower_with db walletAddress of
        Some b \<Rightarrow> (Inr (bo_id b), db)
      | None \<Rightarrow>
          let db1 = other db
          in case borrower_with db1 walletAddress of
               Some _ \<Rightarrow> (Inl (ReferenceError ''conflictFromUniqueViolation is not defined''), db1)
             | None \<Rightarrow> (Inr uuid, db1\<lparr>db_borrowers := db_borrowers db1 @
                 [\<lparr>bo_id = uuid, bo_wallet_address = walletAddress, bo_created_at = now, bo_updated_at = now, bo_anonymized_at = None\<rparr>]\<rparr>))"

definition open_line :: "string \<Rightarrow> credit_line_row \<Rightarrow> bool" where
  "open_line borrowerId row \<longleftrightarrow> lr_borrower_id row = borrowerId \<and> lr_status row \<noteq> ''closed''"

text \<open>\<open>create\<close>: the application's check, then the insertion under the partial unique index on open lines; \<open>other2\<close> is what another writer does in between. The check and
  the handler of a rejected insertion, whatever the server's reason, end in a \<open>ReferenceError\<close>.\<close>

definition pgl_create ::
  "pg_types \<Rightarrow> (database \<Rightarrow> database) \<Rightarrow> (database \<Rightarrow> database) \<Rightarrow> CreateCreditLineRequest \<Rightarrow> string \<Rightarrow> string \<Rightarrow> timestamptz \<Rightarrow> (database, CreditLine) comp" where
  "pgl_create pg other other2 request borrowerUuid uuid now db =
     (case ensureBorrower other (ccr_walletAddress request) borrowerUuid now db of
        (Inl e, db1) \<Rightarrow> (Inl e, db1)
      | (Inr borrowerId, db1) \<Rightarrow>
          if list_ex (open_line borrowerId) (db_credit_lines db1) then (Inl (ReferenceError ''duplicateResource is not defined''), db1)
          else
            let db2 = other2 db1
            in case ebind (pg_in pg (ccr_creditLimit request)) (\<lambda>limit. ebind (pg_int pg (ccr_interestRateBps request)) (\<lambda>rate.
                      if list_ex (open_line borrowerId) (db_credit_lines db2) then Inl (Error ''duplicate key value violates unique constraint'') else Inr (limit, rate))) of
                 Inl _ \<Rightarrow> (Inl (ReferenceError ''conflictFromUniqueViolation is not defined''), db2)
               | Inr (limit, rate) \<Rightarrow>
                   let row = \<lparr>lr_id = uuid, lr_borrower_id = borrowerId, lr_credit_limit = limit, lr_currency = ''USDC'', lr_status = ''active'',
                         lr_interest_rate_bps = rate, lr_version = 1, lr_created_at = now, lr_updated_at = now\<rparr>;
                       db3 = db2\<lparr>db_credit_lines := db_credit_lines db2 @ [row]\<rparr>
                   in case find (\<lambda>b. bo_id b = borrowerId) (db_borrowers db3) of
                        None \<Rightarrow> (Inl (Error (''Borrower not found: '' @ borrowerId)), db3)
                      | Some b \<Rightarrow> (Inr \<lparr>cl_id = uuid, cl_walletAddress = bo_wallet_address b, cl_creditLimit = pg_out pg limit,
                          cl_availableCredit = pg_out pg limit, cl_utilized = ''0'', cl_interestRateBps = num_of_int rate, cl_status = ACTIVE,
                          cl_version = Some 1, cl_createdAt = js_date now, cl_updatedAt = js_date now\<rparr>, db3))"

section \<open>Transactions\<close>

definition joined_transactions :: "database \<Rightarrow> (transaction_row \<times> borrower_row) list" where
  "joined_transactions db = concat (map (\<lambda>t. map (\<lambda>(row, b). (t, b)) (filter (\<lambda>(row, b). tr_credit_line_id t = lr_id row) (joined_lines db))) (db_transactions db))"

definition toTransaction :: "pg_types \<Rightarrow> transaction_row \<times> borrower_row \<Rightarrow> Transaction" where
  "toTransaction pg tb =
     (case tb of (t, b) \<Rightarrow>
        \<lparr>tx_id = tr_id t, tx_creditLineId = tr_credit_line_id t, tx_walletAddress = bo_wallet_address b, tx_amount = pg_out pg (tr_amount t),
         tx_type = tx_type_of (tr_type t), tx_status = tx_status_of (tr_status t), tx_blockchainTxHash = tr_blockchain_tx_hash t,
         tx_createdAt = js_date (tr_created_at t), tx_processedAt = map_option js_date (tr_processed_at t)\<rparr>)"

definition pgt_findById :: "pg_types \<Rightarrow> database \<Rightarrow> string \<Rightarrow> Transaction option" where
  "pgt_findById pg db txId = map_option (toTransaction pg) (find (\<lambda>(t, b). tr_id t = txId) (joined_transactions db))"

text \<open>\<open>select\<close> with a condition, newest first, a page.\<close>

definition pgt_select :: "pg_types \<Rightarrow> database \<Rightarrow> (transaction_row \<times> borrower_row \<Rightarrow> bool) \<Rightarrow> nat option \<Rightarrow> nat option \<Rightarrow> Transaction list" where
  "pgt_select pg db cond offset limit =
     (let o1 = (case offset of Some n \<Rightarrow> n | None \<Rightarrow> 0); l1 = (case limit of Some n \<Rightarrow> n | None \<Rightarrow> 100)
      in map (toTransaction pg) (take l1 (drop o1 (sort_key (\<lambda>(t, b). - tr_created_at t) (filter cond (joined_transactions db))))))"

definition pgt_findByCreditLineId :: "pg_types \<Rightarrow> database \<Rightarrow> string \<Rightarrow> nat option \<Rightarrow> nat option \<Rightarrow> Transaction list" where
  "pgt_findByCreditLineId pg db lineId = pgt_select pg db (\<lambda>(t, b). tr_credit_line_id t = lineId)"

definition pgt_findByWalletAddress :: "pg_types \<Rightarrow> database \<Rightarrow> string \<Rightarrow> nat option \<Rightarrow> nat option \<Rightarrow> Transaction list" where
  "pgt_findByWalletAddress pg db walletAddress = pgt_select pg db (\<lambda>(t, b). bo_wallet_address b = walletAddress)"

definition pgt_findByStatus :: "pg_types \<Rightarrow> database \<Rightarrow> TransactionStatus \<Rightarrow> nat option \<Rightarrow> nat option \<Rightarrow> Transaction list" where
  "pgt_findByStatus pg db status = pgt_select pg db (\<lambda>(t, b). tr_status t = tx_status_string status)"

definition pgt_findAll :: "pg_types \<Rightarrow> database \<Rightarrow> nat option \<Rightarrow> nat option \<Rightarrow> Transaction list" where
  "pgt_findAll pg db = pgt_select pg db (\<lambda>_. True)"

definition pgt_count :: "database \<Rightarrow> nat" where
  "pgt_count db = length (db_transactions db)"

definition pgt_updateStatus :: "pg_types \<Rightarrow> string \<Rightarrow> TransactionStatus \<Rightarrow> time option \<Rightarrow> time \<Rightarrow> database \<Rightarrow> Transaction option \<times> database" where
  "pgt_updateStatus pg txId status processedAt now db =
     (if \<not> list_ex (\<lambda>t. tr_id t = txId) (db_transactions db) then (None, db)
      else let db1 = db\<lparr>db_transactions := map (\<lambda>t. if tr_id t = txId
                 then t\<lparr>tr_status := tx_status_string status, tr_processed_at := Some (1000 * (case processedAt of Some p \<Rightarrow> p | None \<Rightarrow> now))\<rparr> else t) (db_transactions db)\<rparr>
           in (pgt_findById pg db1 txId, db1))"

definition pgt_create :: "pg_types \<Rightarrow> CreateTransactionRequest \<Rightarrow> string \<Rightarrow> timestamptz \<Rightarrow> (database, Transaction) comp" where
  "pgt_create pg request uuid now db =
     (case pg_in pg (ctr_amount request) of
        Inl e \<Rightarrow> (Inl e, db)
      | Inr amount \<Rightarrow>
          if \<not> pgl_exists db (ctr_creditLineId request) then (Inl (pg_restrict pg), db)
          else let db1 = db\<lparr>db_transactions := db_transactions db @ [\<lparr>tr_id = uuid, tr_credit_line_id = ctr_creditLineId request,
                     tr_type = tx_type_string (ctr_type request), tr_amount = amount, tr_currency = ''USDC'', tr_status = ''pending'',
                     tr_blockchain_tx_hash = ctr_blockchainTxHash request, tr_created_at = now, tr_processed_at = None\<rparr>]\<rparr>
               in case pgt_findById pg db1 uuid of
                    Some created \<Rightarrow> (Inr created, db1)
                  | None \<Rightarrow> (Inl (Error (''Failed to load created transaction: '' @ uuid)), db1))"

section \<open>Draws and repayments on Postgres\<close>

record pg_service =
  ps_db :: database
  ps_published :: "domain_event list"

definition on_db :: "(database, 'a) comp \<Rightarrow> (pg_service, 'a) comp" where
  "on_db f s = (case f (ps_db s) of (r, db) \<Rightarrow> (r, s\<lparr>ps_db := db\<rparr>))"

text \<open>The work inside the transaction of \<open>draw\<close> and \<open>repay\<close>: the ledger row, then the update that only carries \<open>utilized\<close>.\<close>

definition pg_balanceWork :: "pg_types \<Rightarrow> string \<Rightarrow> string \<Rightarrow> TransactionType \<Rightarrow> string \<Rightarrow> string \<Rightarrow> timestamptz \<Rightarrow> (pg_service, CreditLine) comp" where
  "pg_balanceWork pg lineId amount ty newUtilized uuid now s =
     (case on_db (pgt_create pg \<lparr>ctr_creditLineId = lineId, ctr_amount = amount, ctr_type = ty, ctr_blockchainTxHash = None\<rparr> uuid now) s of
        (Inl e, s1) \<Rightarrow> (Inl e, s1)
      | (Inr _, s1) \<Rightarrow>
          (case on_db (pgl_update pg lineId (emptyUpdate\<lparr>ucr_utilized := Some newUtilized\<rparr>) now) s1 of
             (Inl e, s2) \<Rightarrow> (Inl e, s2)
           | (Inr None, s2) \<Rightarrow> (Inl (Error ''Credit line not found''), s2)
           | (Inr (Some next), s2) \<Rightarrow> (Inr next, s2)))"

definition pg_emit :: "domain_event \<Rightarrow> pg_service \<Rightarrow> pg_service" where
  "pg_emit event s = s\<lparr>ps_published := ps_published s @ [event]\<rparr>"

definition pg_draw ::
  "pg_types \<Rightarrow> ((pg_service, CreditLine) comp \<Rightarrow> (pg_service, CreditLine) comp) \<Rightarrow> (nat \<Rightarrow> time) \<Rightarrow> timestamptz \<Rightarrow> string \<Rightarrow> string \<Rightarrow> string \<Rightarrow> string \<Rightarrow> (pg_service, CreditLine) comp" where
  "pg_draw pg run clk now uuid lineId borrowerId amount s =
     (case CreditLineService_drawCheck (pgl_findById pg (ps_db s) lineId) borrowerId amount of
        Inl e \<Rightarrow> (Inl e, s)
      | Inr (line, newUtilized) \<Rightarrow>
          (case run (pg_balanceWork pg lineId amount BORROW newUtilized uuid now) (pg_emit (drawRequested line lineId amount (clk 0)) s) of
             (Inl e, s2) \<Rightarrow> (Inl e, s2)
           | (Inr updated, s2) \<Rightarrow> (Inr updated, pg_emit (balanceConfirmed ''credit.draw_confirmed'' line lineId amount updated (clk 1)) s2)))"

definition pg_repay ::
  "pg_types \<Rightarrow> ((pg_service, CreditLine) comp \<Rightarrow> (pg_service, CreditLine) comp) \<Rightarrow> (nat \<Rightarrow> time) \<Rightarrow> timestamptz \<Rightarrow> string \<Rightarrow> string \<Rightarrow> string \<Rightarrow> (pg_service, CreditLine) comp" where
  "pg_repay pg run clk now uuid lineId amount s =
     (case pgl_findById pg (ps_db s) lineId of
        None \<Rightarrow> (Inl (Error ''Credit line not found''), s)
      | Some line \<Rightarrow>
          let amountNum = parseFloat amount
          in if \<not> num_isFinite amountNum \<or> num_le amountNum (Fin 0) then (Inl (Error ''Repay amount must be greater than 0''), s)
             else let newUtilized = num_toString (num_max (Fin 0) (num_sub (utilizedNum line) amountNum))
                  in case run (pg_balanceWork pg lineId amount REPAY newUtilized uuid now) s of
                       (Inl e, s2) \<Rightarrow> (Inl e, s2)
                     | (Inr updated, s2) \<Rightarrow> (Inr updated, pg_emit (balanceConfirmed ''credit.repay_confirmed'' line lineId amount updated (clk 0)) s2))"

section \<open>Creating lines\<close>

lemma borrower_with_None: "borrower_with db w = None \<longleftrightarrow> w \<notin> bo_wallet_address ` set (db_borrowers db)"
  by (auto simp: borrower_with_def find_None_iff)

lemma borrower_with_Some: "borrower_with db w = Some b \<Longrightarrow> b \<in> set (db_borrowers db) \<and> bo_wallet_address b = w"
  by (auto simp: borrower_with_def find_Some_iff)

text \<open>A second line for a wallet whose first is open is refused with a \<open>ReferenceError\<close>, which the error handler answers with a 500 and not with the 409 that was meant; the
  row of the first line stays the only one.\<close>

lemma pg_second_line_is_a_fault:
  assumes "borrower_with db (ccr_walletAddress request) = Some b" "row \<in> set (db_credit_lines db)" "open_line (bo_id b) row"
  shows "pgl_create pg other other2 request borrowerUuid uuid now db = (Inl (ReferenceError ''duplicateResource is not defined''), db)"
  using assms by (auto simp: pgl_create_def ensureBorrower_def list_ex_iff)

lemma reference_error_is_500:
  "\<exists>resp. errorHandler (ErrThrown ''ReferenceError'' m []) False = Some resp \<and> pr_status resp = Fin 500 \<and> pd_detail (pr_body resp) = ''Internal server error''"
proof -
  have "translateUnknownError (ErrThrown ''ReferenceError'' m []) = None"
    by (simp add: translateUnknownError_def isAppError_def duck_app_error_def is_JsNumber_def is_object_def translateByName_def translateByStatus_def js_get_def nullish_def)
  then show ?thesis
    by (simp add: errorHandler_def sendProblem_def internalError_def AppError_new_def errorOptions_def PROBLEM_STATUS_def problem_detail nullish_def)
qed

section \<open>Balances are the ledger\<close>

text \<open>\<open>NUMERIC(28,8)\<close> values are printed exactly, and \<open>parseFloat\<close> rounds what is printed.\<close>

definition numeric_ok :: "pg_types \<Rightarrow> bool" where
  "numeric_ok pg \<longleftrightarrow> (\<forall>n. parseFloat (pg_out pg n) = dround (of_int n / 10 ^ 8))"

lemma numeric_whole: "numeric_ok pg \<Longrightarrow> \<bar>i\<bar> < 2 ^ 53 \<Longrightarrow> parseFloat (pg_out pg (i * 10 ^ 8)) = Fin (of_int i)"
  by (simp add: numeric_ok_def)

lemma num_max_Fin [simp]: "num_max (Fin a) (Fin b) = Fin (max a b)"
  by (simp add: num_max_def max_def)

lemma whole_toString: "\<bar>i\<bar> < 2 ^ 53 \<Longrightarrow> parseFloat (num_toString (Fin (of_int i))) = Fin (of_int i)"
  by (rule parseFloat_toString [OF is_double_int])

lemma whole_available:
  assumes "numeric_ok pg" "0 \<le> L" "L < 2 ^ 53" "0 \<le> s" "s \<le> L" "ledger_sum db i = s * 10 ^ 8"
  shows "calculateAvailableCredit pg db i (pg_out pg (L * 10 ^ 8)) = num_toString (Fin (of_int (L - s)))"
proof -
  have "parseFloat (if ledger_rows db i = [] then ''0'' else pg_out pg (ledger_sum db i)) = Fin (of_int s)"
  proof (cases "ledger_rows db i = []")
    case True
    then have "s = 0" using assms(6) by (simp add: ledger_sum_def)
    then show ?thesis using True by simp
  next
    case False
    then show ?thesis using numeric_whole [OF assms(1), of s] assms(3-6) by simp
  qed
  moreover have "parseFloat (pg_out pg (L * 10 ^ 8)) = Fin (of_int L)" using numeric_whole [OF assms(1), of L] assms(2,3) by simp
  moreover have "dround (of_int L - of_int s) = Fin (of_int (L - s))" using dround_int [of "L - s"] assms(2-5) by simp
  ultimately show ?thesis using assms(4,5) by (simp add: calculateAvailableCredit_def Let_def)
qed

lemma whole_utilized:
  assumes "numeric_ok pg" "0 \<le> L" "L < 2 ^ 53" "0 \<le> s" "s \<le> L"
  shows "calculateUtilized (pg_out pg (L * 10 ^ 8)) (num_toString (Fin (of_int (L - s)))) = num_toString (Fin (of_int s))"
proof -
  have "parseFloat (pg_out pg (L * 10 ^ 8)) = Fin (of_int L)" using numeric_whole [OF assms(1), of L] assms(2,3) by simp
  moreover have "parseFloat (num_toString (Fin (of_int (L - s)))) = Fin (of_int (L - s))" using whole_toString [of "L - s"] assms(2-5) by simp
  moreover have "dround (of_int L - of_int (L - s)) = Fin (of_int s)" using dround_int [of s] assms(2-5) by simp
  ultimately show ?thesis using assms(4) by (simp add: calculateUtilized_def Let_def)
qed

text \<open>A line whose limit \<open>L\<close> and ledger sum \<open>s\<close> are whole amounts in range.\<close>

definition whole_line :: "pg_types \<Rightarrow> database \<Rightarrow> string \<Rightarrow> credit_line_row \<Rightarrow> borrower_row \<Rightarrow> int \<Rightarrow> int \<Rightarrow> bool" where
  "whole_line pg db lineId row b L s \<longleftrightarrow> numeric_ok pg \<and> find (\<lambda>(r, b). lr_id r = lineId) (joined_lines db) = Some (row, b) \<and>
     lr_credit_limit row = L * 10 ^ 8 \<and> ledger_sum db lineId = s * 10 ^ 8 \<and> 0 \<le> s \<and> s \<le> L \<and> L < 2 ^ 53 - 1"

lemma whole_line_id: "whole_line pg db lineId row b L s \<Longrightarrow> lr_id row = lineId"
  by (auto simp: whole_line_def find_Some_iff)

lemma whole_findById:
  assumes "whole_line pg db lineId row b L s"
  shows "\<exists>line. pgl_findById pg db lineId = Some line \<and> cl_id line = lineId \<and> cl_walletAddress line = bo_wallet_address b \<and> cl_status line = line_status (lr_status row) \<and>
     cl_creditLimit line = pg_out pg (L * 10 ^ 8) \<and> parseFloat (cl_creditLimit line) = Fin (of_int L) \<and>
     cl_utilized line = num_toString (Fin (of_int s)) \<and> utilizedNum line = Fin (of_int s) \<and> cl_availableCredit line = num_toString (Fin (of_int (L - s))) \<and>
     cl_version line = Some (lr_version row)"
proof -
  have h: "numeric_ok pg" "lr_credit_limit row = L * 10 ^ 8" "ledger_sum db lineId = s * 10 ^ 8" "0 \<le> s" "s \<le> L" "0 \<le> L" "L < 2 ^ 53"
    using assms by (auto simp: whole_line_def)
  define line where "line = toCreditLine pg db (row, b)"
  have id_row: "lr_id row = lineId" by (rule whole_line_id [OF assms])
  have lim: "cl_creditLimit line = pg_out pg (L * 10 ^ 8)" by (simp add: line_def toCreditLine_def Let_def h(2))
  have av: "cl_availableCredit line = num_toString (Fin (of_int (L - s)))"
    using whole_available [OF h(1,6,7,4,5,3)] by (simp add: line_def toCreditLine_def Let_def h(2) id_row)
  have ut: "cl_utilized line = num_toString (Fin (of_int s))"
  proof -
    have "cl_utilized line = calculateUtilized (cl_creditLimit line) (cl_availableCredit line)" by (simp add: line_def toCreditLine_def Let_def)
    then show ?thesis using whole_utilized [OF h(1,6,7,4,5)] unfolding lim av by simp
  qed
  have "num_toString (Fin (of_int s)) \<noteq> []" using whole_toString [of s] h(4,5,7) by (auto simp: parseFloat_def js_trim_start_def)
  then have "utilizedNum line = Fin (of_int s)" using whole_toString [of s] h(4,5,7) by (simp add: utilizedNum_def ut)
  moreover have "parseFloat (cl_creditLimit line) = Fin (of_int L)" using numeric_whole [OF h(1), of L] h(6,7) by (simp add: lim)
  moreover have "pgl_findById pg db lineId = Some line" using assms by (simp add: pgl_findById_def whole_line_def line_def)
  moreover have "cl_id line = lineId" "cl_walletAddress line = bo_wallet_address b" "cl_status line = line_status (lr_status row)" "cl_version line = Some (lr_version row)"
    by (simp_all add: line_def toCreditLine_def Let_def id_row)
  ultimately show ?thesis using lim av ut by blast
qed

text \<open>The ledger row of a draw or repayment.\<close>

definition ledger_entry :: "string \<Rightarrow> TransactionType \<Rightarrow> int \<Rightarrow> string \<Rightarrow> timestamptz \<Rightarrow> transaction_row" where
  "ledger_entry lineId ty amount uuid now = \<lparr>tr_id = uuid, tr_credit_line_id = lineId, tr_type = tx_type_string ty, tr_amount = amount, tr_currency = ''USDC'',
     tr_status = ''pending'', tr_blockchain_tx_hash = None, tr_created_at = now, tr_processed_at = None\<rparr>"

definition add_entry :: "transaction_row \<Rightarrow> database \<Rightarrow> database" where
  "add_entry t db = db\<lparr>db_transactions := db_transactions db @ [t]\<rparr>"

lemma joined_lines_add [simp]: "joined_lines (add_entry t db) = joined_lines db"
  by (simp add: joined_lines_def add_entry_def)

lemma ledger_sum_add:
  "ledger_sum (add_entry (ledger_entry lineId ty amount uuid now) db) lineId =
     ledger_sum db lineId + (case ty of BORROW \<Rightarrow> amount | REPAY \<Rightarrow> - amount | _ \<Rightarrow> 0)"
  by (cases ty) (simp_all add: ledger_sum_def ledger_rows_def add_entry_def ledger_entry_def)

lemma balanceWork_ok:
  assumes "find (\<lambda>(r, b). lr_id r = lineId) (joined_lines (ps_db s)) = Some (row, b)" "pg_in pg amount = Inr n"
  shows "\<exists>line. pgl_findById pg (add_entry (ledger_entry lineId ty n uuid now) (ps_db s)) lineId = Some line \<and>
     pg_balanceWork pg lineId amount ty nu uuid now s = (Inr line, s\<lparr>ps_db := add_entry (ledger_entry lineId ty n uuid now) (ps_db s)\<rparr>)"
proof -
  let ?db = "ps_db s" and ?t = "ledger_entry lineId ty n uuid now"
  have rb: "(row, b) \<in> set (joined_lines ?db)" "lr_id row = lineId" using assms(1) by (auto simp: find_Some_iff intro: nth_mem [THEN back_subst [of "\<lambda>x. x \<in> _"]])
  then have ex: "pgl_exists ?db lineId" by (auto simp: pgl_exists_def list_ex_iff joined_lines_def)
  have "(?t, b) \<in> set (joined_transactions (add_entry ?t ?db))"
    using rb by (force simp: joined_transactions_def add_entry_def ledger_entry_def joined_lines_def)
  then have "find (\<lambda>(t, b). tr_id t = uuid) (joined_transactions (add_entry ?t ?db)) \<noteq> None"
    unfolding find_None_iff by (force simp: ledger_entry_def)
  then obtain created where "pgt_findById pg (add_entry ?t ?db) uuid = Some created" by (auto simp: pgt_findById_def)
  then have "pgt_create pg \<lparr>ctr_creditLineId = lineId, ctr_amount = amount, ctr_type = ty, ctr_blockchainTxHash = None\<rparr> uuid now ?db = (Inr created, add_entry ?t ?db)"
    using ex assms(2) by (simp add: pgt_create_def Let_def add_entry_def ledger_entry_def)
  moreover obtain line where "pgl_findById pg (add_entry ?t ?db) lineId = Some line" using assms(1) by (simp add: pgl_findById_def)
  ultimately show ?thesis by (simp add: pg_balanceWork_def on_db_def pgl_update_def emptyUpdate_def)
qed

text \<open>
  C16. On Postgres a draw is a ledger entry, and it means the same as in memory. For a line with a whole limit and ledger sum, a draw of a whole amount by its wallet on an active
  line succeeds exactly when the new sum stays within the limit. Then the ledger grows by the amount, the row of the line is not touched, and the line returned shows the
  utilized amount, available credit and limit that the in-memory repository stores for the same draw; otherwise nothing is written.
\<close>

theorem pg_draw_follows_ledger:
  fixes clk now uuid
  assumes "whole_line pg (ps_db s) lineId row b L u" "lr_status row = ''active''" "bo_wallet_address b = borrowerId"
    "pg_in pg amount = Inr (a * 10 ^ 8)" "parseFloat amount = Fin (of_int a)" "0 < a"
  defines "out \<equiv> pg_draw pg passthroughTransactionRunner clk now uuid lineId borrowerId amount s"
  shows "if u + a \<le> L
     then \<exists>line line'. pgl_findById pg (ps_db s) lineId = Some line \<and> fst out = Inr line' \<and>
        whole_line pg (ps_db (snd out)) lineId row b L (u + a) \<and> db_credit_lines (ps_db (snd out)) = db_credit_lines (ps_db s) \<and>
        cl_utilized line' = cl_utilized (withUtilized line (num_toString (Fin (of_int (u + a)))) t) \<and>
        cl_availableCredit line' = cl_availableCredit (withUtilized line (num_toString (Fin (of_int (u + a)))) t) \<and>
        cl_creditLimit line' = cl_creditLimit line \<and> length (ps_published (snd out)) = length (ps_published s) + 2
     else out = (Inl (Error ''Credit limit exceeded''), s)"
proof -
  obtain line where line: "pgl_findById pg (ps_db s) lineId = Some line" "cl_walletAddress line = borrowerId" "cl_status line = ACTIVE"
    "parseFloat (cl_creditLimit line) = Fin (of_int L)" "utilizedNum line = Fin (of_int u)" "cl_creditLimit line = pg_out pg (L * 10 ^ 8)"
    using whole_findById [OF assms(1)] assms(2,3) by (auto simp: line_status_def)
  have h: "0 \<le> u" "u \<le> L" "L < 2 ^ 53 - 1" using assms(1) by (auto simp: whole_line_def)
  have check: "CreditLineService_drawCheck (pgl_findById pg (ps_db s) lineId) borrowerId amount =
     (if num_gt (dround (of_int (u + a))) (Fin (of_int L)) then Inl (Error ''Credit limit exceeded'') else Inr (line, num_toString (dround (of_int (u + a)))))"
    using line assms(5,6) by (simp add: CreditLineService_drawCheck_def Let_def num_le_def)
  show ?thesis
  proof (cases "u + a \<le> L")
    case False
    have "dround (of_int (L + 1) :: rat) = Fin (of_int (L + 1))" using h by (intro dround_int) simp
    moreover have "num_le (dround (of_int (L + 1) :: rat)) (dround (of_int (u + a)))" using False h by (intro dround_mono) linarith+
    ultimately have "num_gt (dround (of_int (u + a))) (Fin (of_int L))"
      by (cases "dround (of_int (u + a) :: rat)") (auto simp: num_le_def num_gt_def)
    then show ?thesis using False check by (simp add: out_def pg_draw_def)
  next
    case True
    have dr: "dround (of_int (u + a) :: rat) = Fin (of_int (u + a))" using True h assms(6) by (intro dround_int) simp
    then have ok: "CreditLineService_drawCheck (pgl_findById pg (ps_db s) lineId) borrowerId amount = Inr (line, num_toString (Fin (of_int (u + a))))"
      using check True by (simp add: num_gt_def)
    let ?db = "add_entry (ledger_entry lineId BORROW (a * 10 ^ 8) uuid now) (ps_db s)"
    have fnd: "find (\<lambda>(r, b). lr_id r = lineId) (joined_lines (ps_db s)) = Some (row, b)" using assms(1) by (simp add: whole_line_def)
    have w: "whole_line pg ?db lineId row b L (u + a)"
      using assms(1,6) True by (simp add: whole_line_def ledger_sum_add algebra_simps)
    from whole_findById [OF w] obtain line' where line': "pgl_findById pg ?db lineId = Some line'" "cl_creditLimit line' = pg_out pg (L * 10 ^ 8)"
      "cl_utilized line' = num_toString (Fin (of_int (u + a)))" "cl_availableCredit line' = num_toString (Fin (of_int (L - (u + a))))" by blast
    let ?s1 = "pg_emit (drawRequested line lineId amount (clk 0)) s"
    have "pg_balanceWork pg lineId amount BORROW (num_toString (Fin (of_int (u + a)))) uuid now ?s1 = (Inr line', ?s1\<lparr>ps_db := ?db\<rparr>)"
      using balanceWork_ok [of lineId ?s1 row b pg amount "a * 10 ^ 8" BORROW uuid now "num_toString (Fin (of_int (u + a)))"] fnd assms(4) line'(1) by (simp add: pg_emit_def)
    then have o: "out = (Inr line', pg_emit (balanceConfirmed ''credit.draw_confirmed'' line lineId amount line' (clk 1)) (?s1\<lparr>ps_db := ?db\<rparr>))"
      by (simp add: out_def pg_draw_def ok passthroughTransactionRunner_def)
    have mem: "cl_utilized (withUtilized line (num_toString (Fin (of_int (u + a)))) t) = num_toString (Fin (of_int (u + a)))"
      "cl_availableCredit (withUtilized line (num_toString (Fin (of_int (u + a)))) t) = num_toString (Fin (of_int (L - (u + a))))"
    proof -
      show "cl_utilized (withUtilized line (num_toString (Fin (of_int (u + a)))) t) = num_toString (Fin (of_int (u + a)))"
        by (simp add: CreditLine_patched_def emptyUpdate_def Let_def)
      have "parseFloat (num_toString (Fin (of_int (u + a)))) = Fin (of_int (u + a))" using True h assms(6) by (intro whole_toString) simp
      moreover have "dround (of_int L - of_int (u + a)) = Fin (of_int (L - (u + a)))" using dround_int [of "L - (u + a)"] True h assms(6) by simp
      ultimately show "cl_availableCredit (withUtilized line (num_toString (Fin (of_int (u + a)))) t) = num_toString (Fin (of_int (L - (u + a))))"
        unfolding withUtilized_available line(4) by simp
    qed
    show ?thesis using True o w line(1,6) line' mem by (simp add: pg_emit_def add_entry_def)
  qed
qed

section \<open>Where the database differs from memory\<close>

text \<open>The balance update of \<open>draw\<close> and \<open>repay\<close> writes nothing here: the version of the line stays, and an expected version that comes alone is not looked at.\<close>

lemma balance_update_ignores_version:
  "pgl_update pg lineId (emptyUpdate\<lparr>ucr_utilized := Some nu, ucr_expectedVersion := Some v\<rparr>) now db = (Inr (pgl_findById pg db lineId), db)"
  by (simp add: pgl_update_def emptyUpdate_def)

text \<open>An overpayment is not floored: the ledger keeps it, so a later draw up to the same amount leaves the line unutilized.\<close>

lemma overpayment_extends_credit:
  assumes "numeric_ok pg" "0 \<le> L" "L < 2 ^ 53" "0 < a" "a < 2 ^ 53" "ledger_sum db lineId = - a * 10 ^ 8"
  shows "calculateAvailableCredit pg db lineId (pg_out pg (L * 10 ^ 8)) = num_toString (Fin (of_int L))"
    and "ledger_sum (add_entry (ledger_entry lineId BORROW (a * 10 ^ 8) uuid now) db) lineId = 0"
proof -
  have "ledger_rows db lineId \<noteq> []" using assms(4,6) by (auto simp: ledger_sum_def)
  moreover have "parseFloat (pg_out pg (ledger_sum db lineId)) = Fin (of_int (- a))" using numeric_whole [OF assms(1), of "- a"] assms(4-6) by simp
  moreover have "parseFloat (pg_out pg (L * 10 ^ 8)) = Fin (of_int L)" using numeric_whole [OF assms(1), of L] assms(2,3) by simp
  moreover have "dround (of_int L :: rat) = Fin (of_int L)" using assms(2,3) by (intro dround_int) simp
  ultimately show "calculateAvailableCredit pg db lineId (pg_out pg (L * 10 ^ 8)) = num_toString (Fin (of_int L))"
    using assms(2,4) by (simp add: calculateAvailableCredit_def Let_def)
  show "ledger_sum (add_entry (ledger_entry lineId BORROW (a * 10 ^ 8) uuid now) db) lineId = 0"
    using assms(6) by (simp add: ledger_sum_add)
qed

text \<open>A cursor carries milliseconds, the column microseconds: the row a cursor was minted from comes after it again, unless its timestamp is a whole millisecond.\<close>

lemma cursor_repeats_its_row:
  assumes "lr_created_at row mod 1000 \<noteq> 0"
  shows "after_key \<lparr>ck_t = num_of_int (cl_createdAt (toCreditLine pg db (row, b))), ck_i = cl_id (toCreditLine pg db (row, b))\<rparr> (row, b)"
proof -
  have "1000 * (lr_created_at row div 1000) < lr_created_at row" using assms by (metis mult_div_mod_eq add_strict_left_mono linorder_neqE_linordered_idom not_less add.right_neutral pos_mod_sign zero_less_numeral)
  moreover have "num_trunc (num_of_int i) = i" for i by simp
  ultimately show ?thesis by (simp add: after_key_def Let_def toCreditLine_def js_date_def del: num_trunc.simps)
qed

section \<open>Witnesses\<close>

definition examplePg :: pg_types where
  "examplePg = \<lparr>pg_in = (\<lambda>s. case parseFloat s of Fin q \<Rightarrow> Inr \<lfloor>q * 10 ^ 8\<rfloor> | _ \<Rightarrow> Inl (Error ''invalid input syntax for type numeric'')),
     pg_out = (\<lambda>n. num_toString (dround (of_int n / 10 ^ 8))),
     pg_int = (\<lambda>x. case x of Fin q \<Rightarrow> Inr \<lfloor>q\<rfloor> | _ \<Rightarrow> Inl (Error ''invalid input syntax for type integer'')), pg_restrict = Error ''foreign key''\<rparr>"

definition exampleBorrower :: borrower_row where
  "exampleBorrower = \<lparr>bo_id = ''b1'', bo_wallet_address = ''GA'', bo_created_at = 0, bo_updated_at = 0, bo_anonymized_at = None\<rparr>"

definition exampleLineRow :: credit_line_row where
  "exampleLineRow = \<lparr>lr_id = ''l1'', lr_borrower_id = ''b1'', lr_credit_limit = 100000000000, lr_currency = ''USDC'', lr_status = ''active'',
     lr_interest_rate_bps = 500, lr_version = 1, lr_created_at = 0, lr_updated_at = 0\<rparr>"

definition exampleTables :: database where
  "exampleTables = \<lparr>db_borrowers = [exampleBorrower], db_credit_lines = [exampleLineRow], db_transactions = [], db_risk_evaluations = [], db_events = [], db_retention_runs = []\<rparr>"

lemma example_numeric: "numeric_ok examplePg"
  by (simp add: numeric_ok_def examplePg_def parseFloat_toString)

lemma parseFloat_300: "parseFloat ''300'' = Fin 300"
  by (subst parseFloat_digits) (simp_all add: nat_of_digits_Cons digit_val_def is_digit_def)

lemma example_whole: "whole_line examplePg exampleTables ''l1'' exampleLineRow exampleBorrower 1000 0"
  by (simp add: whole_line_def example_numeric exampleTables_def joined_lines_def exampleLineRow_def exampleBorrower_def ledger_sum_def ledger_rows_def)

theorem pg_draw_follows_ledger_witness:
  "\<exists>line'. fst (pg_draw examplePg passthroughTransactionRunner (\<lambda>_. 0) 0 ''t1'' ''l1'' ''GA'' ''300'' \<lparr>ps_db = exampleTables, ps_published = []\<rparr>) = Inr line' \<and>
     cl_utilized line' = num_toString (Fin 300)"
proof -
  let ?s = "\<lparr>ps_db = exampleTables, ps_published = []\<rparr>"
  have w: "whole_line examplePg (ps_db ?s) ''l1'' exampleLineRow exampleBorrower 1000 0" by (simp add: example_whole)
  have c: "lr_status exampleLineRow = ''active''" "bo_wallet_address exampleBorrower = ''GA''" by (simp_all add: exampleLineRow_def exampleBorrower_def)
  have i: "pg_in examplePg ''300'' = Inr (300 * 10 ^ 8)" by (simp add: examplePg_def parseFloat_300)
  have f: "parseFloat ''300'' = Fin (of_int 300)" by (simp add: parseFloat_300)
  have "\<exists>line line'. pgl_findById examplePg (ps_db ?s) ''l1'' = Some line \<and>
      fst (pg_draw examplePg passthroughTransactionRunner (\<lambda>_. 0) 0 ''t1'' ''l1'' ''GA'' ''300'' ?s) = Inr line' \<and>
      cl_utilized line' = cl_utilized (withUtilized line (num_toString (Fin (of_int (0 + 300)))) 0)"
    using pg_draw_follows_ledger [OF w c i f, where clk = "\<lambda>_. 0" and now = 0 and uuid = "''t1''" and t = 0] by (auto simp del: of_int_add)
  then show ?thesis by (auto simp: CreditLine_patched_def emptyUpdate_def Let_def)
qed

end
