(* ===== verification/ComplianceExport.thy ===== *)
theory ComplianceExport
  imports PostgresRepos Events JsonParse
begin

text \<open>
  Compliance exports: \<open>services/complianceExportService.ts\<close>, \<open>utils/exportStream.ts\<close> and the writer of \<open>routes/exports.ts\<close>.
  The service scans a repository in batches of 500 until it has one match more than the page needs; the loop is a partial function, so not
  returning is the value \<open>None\<close>. \<open>dateParse\<close> is the host's \<open>Date.parse\<close>. The streams are the chunks passed to \<open>res.write\<close>.
\<close>

section \<open>Rows\<close>

datatype export_value =
    XUndefined
  | XDate time
  | XJson json

type_synonym export_row = "(string \<times> export_value) list"

definition row_get :: "export_row \<Rightarrow> string \<Rightarrow> export_value" where
  "row_get row col = (case jsmap_get row col of Some v \<Rightarrow> v | None \<Rightarrow> XUndefined)"

definition csv_special :: "char \<Rightarrow> bool" where
  "csv_special c \<longleftrightarrow> c = CHR 0x22 \<or> c = CHR '','' \<or> c = CHR 0x0D \<or> c = CHR 0x0A"

definition double_quotes :: "string \<Rightarrow> string" where
  "double_quotes raw = concat (map (\<lambda>c. if c = CHR 0x22 then [CHR 0x22, CHR 0x22] else [c]) raw)"

text \<open>The text of a value before quoting; null and undefined have none.\<close>

fun csv_raw :: "export_value \<Rightarrow> string" where
  "csv_raw XUndefined = []"
| "csv_raw (XDate t) = toISOString t"
| "csv_raw (XJson JNull) = []"
| "csv_raw (XJson (JBool b)) = (if b then ''true'' else ''false'')"
| "csv_raw (XJson (JNum x)) = num_toString x"
| "csv_raw (XJson (JStr s)) = s"
| "csv_raw (XJson j) = json_stringify j"

definition escapeCsvField :: "export_value \<Rightarrow> string" where
  "escapeCsvField v =
     (let raw = csv_raw v in
      if list_ex csv_special raw then [CHR 0x22] @ double_quotes raw @ [CHR 0x22] else raw)"

fun flatten_value :: "export_value \<Rightarrow> export_value" where
  "flatten_value (XDate t) = XJson (JStr (toISOString t))"
| "flatten_value (XJson (JArr xs)) = XJson (JStr (json_stringify (JArr xs)))"
| "flatten_value (XJson (JObj ps)) = XJson (JStr (json_stringify (JObj ps)))"
| "flatten_value v = v"

definition flattenForExport :: "export_row \<Rightarrow> export_row" where
  "flattenForExport row = map (\<lambda>(key, v). (key, flatten_value v)) row"

text \<open>\<open>JSON.stringify\<close> of a row: undefined members are left out, dates print their ISO form.\<close>

fun export_json :: "export_value \<Rightarrow> json" where
  "export_json XUndefined = JNull"
| "export_json (XDate t) = JStr (toISOString t)"
| "export_json (XJson j) = j"

definition row_json :: "export_row \<Rightarrow> json" where
  "row_json row = JObj (map (\<lambda>(k, v). (k, export_json v)) (filter (\<lambda>(k, v). v \<noteq> XUndefined) row))"

section \<open>Streams\<close>

record export_response =
  xr_headers :: "(string, string) jsmap"
  xr_chunks :: "string list"
  xr_ended :: bool

definition xr_empty :: export_response where
  "xr_empty = \<lparr>xr_headers = jsmap_empty, xr_chunks = [], xr_ended = False\<rparr>"

definition xr_setHeader :: "string \<Rightarrow> string \<Rightarrow> export_response \<Rightarrow> export_response" where
  "xr_setHeader k v res = res\<lparr>xr_headers := jsmap_set k v (xr_headers res)\<rparr>"

definition xr_write :: "string \<Rightarrow> export_response \<Rightarrow> export_response" where
  "xr_write chunk res = res\<lparr>xr_chunks := xr_chunks res @ [chunk]\<rparr>"

definition xr_end :: "export_response \<Rightarrow> export_response" where
  "xr_end res = res\<lparr>xr_ended := True\<rparr>"

definition body_text :: "export_response \<Rightarrow> string" where
  "body_text res = concat (xr_chunks res)"

definition csv_line :: "export_value list \<Rightarrow> string" where
  "csv_line vs = js_join '','' (map escapeCsvField vs) @ [CHR 0x0A]"

definition streamCsv :: "string list \<Rightarrow> export_row list \<Rightarrow> string \<Rightarrow> export_response \<Rightarrow> export_response" where
  "streamCsv columns rows filename res0 =
     (let res1 = xr_setHeader ''Content-Type'' ''text/csv; charset=utf-8'' res0;
          res2 = xr_setHeader ''Content-Disposition'' (''attachment; filename='' @ [CHR 0x22] @ filename @ [CHR 0x22]) res1;
          res3 = xr_setHeader ''Cache-Control'' ''no-store'' res2;
          res4 = xr_write (csv_line (map (\<lambda>c. XJson (JStr c)) columns)) res3;
          res5 = fold (\<lambda>row. xr_write (csv_line (map (row_get row) columns))) rows res4
      in xr_end res5)"

record StreamMeta =
  sm_resource :: string
  sm_format :: string
  sm_count :: int
  sm_limit :: int
  sm_offset :: int
  sm_truncated :: bool
  sm_from :: string
  sm_to :: string
  sm_generatedAt :: string

definition jint :: "int \<Rightarrow> json" where
  "jint i = JNum (Fin (of_int i))"

definition meta_json :: "StreamMeta \<Rightarrow> json" where
  "meta_json meta = JObj
     [(''resource'', JStr (sm_resource meta)), (''format'', JStr (sm_format meta)), (''count'', jint (sm_count meta)),
      (''limit'', jint (sm_limit meta)), (''offset'', jint (sm_offset meta)), (''truncated'', JBool (sm_truncated meta)),
      (''from'', JStr (sm_from meta)), (''to'', JStr (sm_to meta)), (''generatedAt'', JStr (sm_generatedAt meta))]"

fun json_rows :: "nat \<Rightarrow> export_row list \<Rightarrow> export_response \<Rightarrow> export_response" where
  "json_rows index [] res = res"
| "json_rows index (row # rows) res =
     json_rows (Suc index) rows (xr_write (json_stringify (row_json row)) (if 0 < index then xr_write '','' res else res))"

definition streamJson :: "export_row list \<Rightarrow> StreamMeta \<Rightarrow> export_response \<Rightarrow> export_response" where
  "streamJson rows meta res0 =
     (let res1 = xr_setHeader ''Content-Type'' ''application/json; charset=utf-8'' res0;
          res2 = xr_setHeader ''Cache-Control'' ''no-store'' res1;
          res3 = xr_write ([CHR ''{'', CHR 0x22] @ ''data'' @ [CHR 0x22] @ '':['') res2;
          res4 = json_rows 0 rows res3;
          res5 = xr_write (''],'' @ [CHR 0x22] @ ''meta'' @ [CHR 0x22] @ '':'') res4;
          res6 = xr_write (json_stringify (meta_json meta)) res5;
          res7 = xr_write ('','' @ [CHR 0x22] @ ''error'' @ [CHR 0x22] @ '':null}'') res6
      in xr_end res7)"

section \<open>The service\<close>

definition SCAN_BATCH :: int where
  "SCAN_BATCH = 500"

definition DEFAULT_EXPORT_LIMIT :: int where
  "DEFAULT_EXPORT_LIMIT = 1000"

definition MAX_EXPORT_LIMIT :: int where
  "MAX_EXPORT_LIMIT = 5000"

record ExportPage =
  ep_rows :: "export_row list"
  ep_truncated :: bool
  ep_limit :: int
  ep_offset :: int
  ep_from :: string
  ep_to :: string

record CreditLineExportQuery =
  xq_from :: string
  xq_to :: string
  xq_limit :: "int option"
  xq_offset :: "int option"
  xq_lineStatus :: "CreditLineStatus option"
  xq_walletAddress :: "string option"

record TransactionExportQuery =
  tq_from :: string
  tq_to :: string
  tq_limit :: "int option"
  tq_offset :: "int option"
  tq_status :: "TransactionStatus option"
  tq_type :: "TransactionType option"
  tq_creditLineId :: "string option"
  tq_walletAddress :: "string option"

record AuditExportQuery =
  eq_from :: string
  eq_to :: string
  eq_limit :: "int option"
  eq_offset :: "int option"
  eq_action :: "string option"
  eq_creditLineId :: "string option"

definition export_clampLimit :: "int option \<Rightarrow> int" where
  "export_clampLimit limit = min (max 1 (case limit of Some v \<Rightarrow> v | None \<Rightarrow> DEFAULT_EXPORT_LIMIT)) MAX_EXPORT_LIMIT"

definition inRange :: "time \<Rightarrow> number \<Rightarrow> number \<Rightarrow> bool" where
  "inRange date from to \<longleftrightarrow> num_ge (Fin (of_int date)) from \<and> num_le (Fin (of_int date)) to"

definition status_filter :: "'a option \<Rightarrow> 'a \<Rightarrow> bool" where
  "status_filter f v \<longleftrightarrow> (case f of None \<Rightarrow> True | Some x \<Rightarrow> v = x)"

definition export_line_matches :: "(string \<Rightarrow> number) \<Rightarrow> CreditLineExportQuery \<Rightarrow> CreditLine \<Rightarrow> bool" where
  "export_line_matches dateParse query line \<longleftrightarrow>
     inRange (cl_createdAt line) (dateParse (xq_from query)) (dateParse (xq_to query)) \<and>
     status_filter (xq_lineStatus query) (cl_status line) \<and> matches_filter (xq_walletAddress query) (cl_walletAddress line)"

definition export_tx_matches :: "(string \<Rightarrow> number) \<Rightarrow> TransactionExportQuery \<Rightarrow> Transaction \<Rightarrow> bool" where
  "export_tx_matches dateParse query tx \<longleftrightarrow>
     inRange (tx_createdAt tx) (dateParse (tq_from query)) (dateParse (tq_to query)) \<and>
     status_filter (tq_status query) (tx_status tx) \<and> status_filter (tq_type query) (tx_type tx) \<and>
     matches_filter (tq_creditLineId query) (tx_creditLineId tx) \<and> matches_filter (tq_walletAddress query) (tx_walletAddress tx)"

text \<open>The inner loop over a batch, and the loop over the batches.\<close>

fun scan_batch :: "('a \<Rightarrow> bool) \<Rightarrow> int \<Rightarrow> 'a list \<Rightarrow> 'a list \<Rightarrow> 'a list" where
  "scan_batch p need [] matched = matched"
| "scan_batch p need (x # xs) matched =
     (if \<not> p x then scan_batch p need xs matched
      else let matched' = matched @ [x]
           in if int (length matched') \<ge> need then matched' else scan_batch p need xs matched')"

partial_function (option) scan_loop ::
  "(int \<Rightarrow> int \<Rightarrow> 'a list) \<Rightarrow> ('a \<Rightarrow> bool) \<Rightarrow> int \<Rightarrow> int \<Rightarrow> 'a list \<Rightarrow> 'a list option" where
  "scan_loop fetch p need scanOffset matched =
     (if \<not> int (length matched) < need then Some matched
      else let batch = fetch scanOffset SCAN_BATCH
           in if batch = [] then Some matched
              else let matched' = scan_batch p need batch matched
                   in if int (length batch) < SCAN_BATCH then Some matched'
                      else scan_loop fetch p need (scanOffset + int (length batch)) matched')"

definition export_bounds :: "(string \<Rightarrow> number) \<Rightarrow> string \<Rightarrow> string \<Rightarrow> (string \<Rightarrow> string \<Rightarrow> ExportPage) \<Rightarrow> js_error + ExportPage" where
  "export_bounds dateParse from to page =
     ebind (Date_toISOString (dateParse from)) (\<lambda>f. ebind (Date_toISOString (dateParse to)) (\<lambda>t. Inr (page f t)))"

definition scan_export ::
  "(string \<Rightarrow> number) \<Rightarrow> (int \<Rightarrow> int \<Rightarrow> 'a list) \<Rightarrow> ('a \<Rightarrow> bool) \<Rightarrow> ('a \<Rightarrow> export_row) \<Rightarrow> string \<Rightarrow> string \<Rightarrow> int option \<Rightarrow> int option \<Rightarrow>
     (js_error + ExportPage) option" where
  "scan_export dateParse fetch p serialize from to limit0 offset0 =
     (let limit = export_clampLimit limit0;
          offset = (case offset0 of Some v \<Rightarrow> v | None \<Rightarrow> 0);
          need = offset + limit + 1
      in map_option (\<lambda>matched.
           export_bounds dateParse from to (\<lambda>f t.
             \<lparr>ep_rows = map (\<lambda>r. flattenForExport (serialize r)) (js_slice matched offset (offset + limit)),
              ep_truncated = (int (length matched) > offset + limit),
              ep_limit = limit, ep_offset = offset, ep_from = f, ep_to = t\<rparr>))
         (scan_loop fetch p need 0 []))"

definition serializeCreditLine :: "CreditLine \<Rightarrow> export_row" where
  "serializeCreditLine line =
     [(''id'', XJson (JStr (cl_id line))), (''walletAddress'', XJson (JStr (cl_walletAddress line))),
      (''creditLimit'', XJson (JStr (cl_creditLimit line))), (''availableCredit'', XJson (JStr (cl_availableCredit line))),
      (''utilized'', XJson (JStr (cl_utilized line))), (''interestRateBps'', XJson (JNum (cl_interestRateBps line))),
      (''status'', XJson (JStr (line_status_string (cl_status line)))),
      (''version'', XJson (case cl_version line of Some v \<Rightarrow> jint v | None \<Rightarrow> JNull)),
      (''createdAt'', XJson (JStr (toISOString (cl_createdAt line)))), (''updatedAt'', XJson (JStr (toISOString (cl_updatedAt line))))]"

definition serializeTransaction :: "Transaction \<Rightarrow> export_row" where
  "serializeTransaction tx =
     [(''id'', XJson (JStr (tx_id tx))), (''creditLineId'', XJson (JStr (tx_creditLineId tx))),
      (''walletAddress'', XJson (JStr (tx_walletAddress tx))), (''amount'', XJson (JStr (tx_amount tx))),
      (''type'', XJson (JStr (tx_type_string (tx_type tx)))), (''status'', XJson (JStr (tx_status_string (tx_status tx)))),
      (''blockchainTxHash'', XJson (case tx_blockchainTxHash tx of Some h \<Rightarrow> JStr h | None \<Rightarrow> JNull)),
      (''createdAt'', XJson (JStr (toISOString (tx_createdAt tx)))),
      (''processedAt'', XJson (case tx_processedAt tx of Some t \<Rightarrow> JStr (toISOString t) | None \<Rightarrow> JNull))]"

text \<open>The time of an audit record is the ISO text of its milliseconds.\<close>

definition serializeAudit :: "AuditRecord \<Rightarrow> export_row" where
  "serializeAudit rec =
     [(''action'', XJson (JStr (ar_action rec))), (''creditLineId'', XJson (JStr (ar_creditLineId rec))),
      (''occurredAt'', XJson (JStr (toISOString (ar_occurredAt rec)))),
      (''details'', XJson (JObj (map (\<lambda>(k, v). (k, JStr v)) (ar_details rec))))]"

definition exportCreditLines ::
  "(string \<Rightarrow> number) \<Rightarrow> (int \<Rightarrow> int \<Rightarrow> CreditLine list) \<Rightarrow> CreditLineExportQuery \<Rightarrow> (js_error + ExportPage) option" where
  "exportCreditLines dateParse findAll query =
     scan_export dateParse findAll (export_line_matches dateParse query) serializeCreditLine (xq_from query) (xq_to query)
       (xq_limit query) (xq_offset query)"

definition exportTransactions ::
  "(string \<Rightarrow> number) \<Rightarrow> (int \<Rightarrow> int \<Rightarrow> Transaction list) \<Rightarrow> TransactionExportQuery \<Rightarrow> (js_error + ExportPage) option" where
  "exportTransactions dateParse findAll query =
     scan_export dateParse findAll (export_tx_matches dateParse query) serializeTransaction (tq_from query) (tq_to query)
       (tq_limit query) (tq_offset query)"

text \<open>The audit store takes its bounds as dates; a bound that is no date makes \<open>toISOString\<close> throw after the query, which has no effect.\<close>

definition exportAudit ::
  "(string \<Rightarrow> number) \<Rightarrow> (string \<Rightarrow> string \<Rightarrow> int) \<Rightarrow> AuditExportQuery \<Rightarrow> audit_store \<Rightarrow> js_error + ExportPage" where
  "exportAudit dateParse lc query store =
     (let limit = export_clampLimit (eq_limit query);
          offset = (case eq_offset query of Some v \<Rightarrow> v | None \<Rightarrow> 0);
          records = AuditLogStore_query lc
            \<lparr>aq_from = Some (num_int (dateParse (eq_from query))), aq_to = Some (num_int (dateParse (eq_to query))),
             aq_creditLineId = eq_creditLineId query, aq_action = eq_action query, aq_offset = Some offset, aq_limit = Some (limit + 1)\<rparr> store;
          truncated = int (length records) > limit;
          page = (if truncated then js_slice records 0 limit else records)
      in export_bounds dateParse (eq_from query) (eq_to query) (\<lambda>f t.
           \<lparr>ep_rows = map (\<lambda>r. flattenForExport (serializeAudit r)) page, ep_truncated = truncated,
            ep_limit = limit, ep_offset = offset, ep_from = f, ep_to = t\<rparr>))"

definition CREDIT_LINE_CSV_COLUMNS :: "string list" where
  "CREDIT_LINE_CSV_COLUMNS = [''id'', ''walletAddress'', ''creditLimit'', ''availableCredit'', ''utilized'', ''interestRateBps'', ''status'',
     ''version'', ''createdAt'', ''updatedAt'']"

definition TRANSACTION_CSV_COLUMNS :: "string list" where
  "TRANSACTION_CSV_COLUMNS = [''id'', ''creditLineId'', ''walletAddress'', ''amount'', ''type'', ''status'', ''blockchainTxHash'', ''createdAt'', ''processedAt'']"

definition AUDIT_CSV_COLUMNS :: "string list" where
  "AUDIT_CSV_COLUMNS = [''action'', ''creditLineId'', ''occurredAt'', ''details'']"

text \<open>The route's writer; \<open>now\<close> is the clock of \<open>nowUtcIso\<close>.\<close>

definition writeExport :: "time \<Rightarrow> string \<Rightarrow> string \<Rightarrow> ExportPage \<Rightarrow> string list \<Rightarrow> export_response \<Rightarrow> export_response" where
  "writeExport now resource format page columns res0 =
     (let meta = \<lparr>sm_resource = resource, sm_format = format, sm_count = int (length (ep_rows page)), sm_limit = ep_limit page,
            sm_offset = ep_offset page, sm_truncated = ep_truncated page, sm_from = ep_from page, sm_to = ep_to page,
            sm_generatedAt = toISOString now\<rparr>;
          res1 = xr_setHeader ''X-Export-Count'' (show_int (sm_count meta)) res0;
          res2 = xr_setHeader ''X-Export-Limit'' (show_int (sm_limit meta)) res1;
          res3 = xr_setHeader ''X-Export-Offset'' (show_int (sm_offset meta)) res2;
          res4 = xr_setHeader ''X-Export-Truncated'' (if sm_truncated meta then ''true'' else ''false'') res3
      in if format = ''csv'' then
           let stamp = map (\<lambda>c. if c = CHR '':'' \<or> c = CHR ''.'' then CHR ''-'' else c) (sm_generatedAt meta)
           in streamCsv columns (ep_rows page) (''creditra-'' @ resource @ ''-'' @ stamp @ ''.csv'') res4
         else streamJson (ep_rows page) meta res4)"

section \<open>A scan over pages\<close>

text \<open>What the scan relies on: \<open>fetch\<close> serves the windows of one list.\<close>

locale page_source =
  fixes fetch :: "int \<Rightarrow> int \<Rightarrow> 'a list" and rows :: "'a list"
  assumes fetch_window: "0 \<le> off \<Longrightarrow> 0 \<le> n \<Longrightarrow> fetch off n = take (nat n) (drop (nat off) rows)"
begin

lemma fetch_batch: "fetch (int k) SCAN_BATCH = take 500 (drop k rows)"
  by (simp add: fetch_window SCAN_BATCH_def)

end

lemma scan_batch_take:
  "length matched < need \<Longrightarrow> scan_batch p (int need) xs matched = matched @ take (need - length matched) (filter p xs)"
proof (induction xs arbitrary: matched)
  case (Cons x xs)
  show ?case
  proof (cases "p x")
    case True
    show ?thesis
    proof (cases "need \<le> length matched + 1")
      case True
      then have "need - length matched = 1" using Cons.prems by simp
      with True \<open>p x\<close> show ?thesis by (simp add: Let_def)
    next
      case False
      then have *: "scan_batch p (int need) xs (matched @ [x]) = (matched @ [x]) @ take (need - length (matched @ [x])) (filter p xs)"
        by (intro Cons.IH) simp
      have "need - length matched = Suc (need - Suc (length matched))" using False by simp
      with False \<open>p x\<close> * show ?thesis by (simp add: Let_def)
    qed
  next
    case False
    with Cons show ?thesis by simp
  qed
qed simp

context page_source
begin

lemma scan_loop_from:
  "matched = take need (filter p (take k rows)) \<Longrightarrow>
     scan_loop fetch p (int need) (int k) matched = Some (take need (filter p rows))"
proof (induction "length rows - k" arbitrary: k matched rule: less_induct)
  case less
  define batch where "batch = take 500 (drop k rows)"
  have f: "fetch (int k) 500 = batch" using fetch_batch [of k] by (simp add: SCAN_BATCH_def batch_def)
  have split: "take (k + length batch) rows = take k rows @ batch"
    by (simp add: take_add batch_def min_def)
  show ?case
  proof (cases "length matched < need")
    case False
    have "take need (filter p rows) = take need (filter p (take k rows) @ filter p (drop k rows))"
      by (metis append_take_drop_id filter_append)
    also have "\<dots> = matched" using False less.prems by auto
    finally show ?thesis using False by (simp add: scan_loop.simps)
  next
    case True
    then have whole: "matched = filter p (take k rows)" using less.prems by simp
    have m: "scan_batch p (int need) batch matched = take need (filter p (take (k + length batch) rows))"
      using True by (simp add: scan_batch_take split whole)
    show ?thesis
    proof (cases "length batch < 500")
      case True
      then have all: "take (k + length batch) rows = rows"
        by (auto simp: batch_def)
      show ?thesis
      proof (cases "batch = []")
        case True
        then have "matched = take need (filter p rows)" using all less.prems by simp
        with True \<open>length matched < need\<close> show ?thesis by (subst scan_loop.simps) (simp add: f SCAN_BATCH_def)
      next
        case False
        with True \<open>length matched < need\<close> show ?thesis by (subst scan_loop.simps) (simp add: f m all SCAN_BATCH_def Let_def)
      qed
    next
      case False
      then have "batch \<noteq> []" "length batch = 500" "k < length rows" by (auto simp: batch_def)
      then have "scan_loop fetch p (int need) (int (k + length batch)) (scan_batch p (int need) batch matched) = Some (take need (filter p rows))"
        by (intro less.hyps) (auto simp: m)
      with False \<open>batch \<noteq> []\<close> \<open>length matched < need\<close> show ?thesis by (subst scan_loop.simps) (simp add: f SCAN_BATCH_def Let_def)
    qed
  qed
qed

lemma scan_returns: "0 \<le> need \<Longrightarrow> scan_loop fetch p need 0 [] = Some (take (nat need) (filter p rows))"
  using scan_loop_from [of "[]" "nat need" p 0] by simp

end

text \<open>The two in-memory repositories are such sources.\<close>

lemma line_windows:
  "page_source (\<lambda>off n. InMemoryCreditLineRepository_findAll lc m (Some off) (Some n)) (InMemoryCreditLineRepository_sortByNewest lc (jsmap_values m))"
  by unfold_locales (rule findAll_page)

lemma tx_windows:
  "page_source (\<lambda>off n. InMemoryTransactionRepository_findAll lc m (Some off) (Some n)) (InMemoryTransactionRepository_sortByNewest lc (jsmap_values m))"
  by unfold_locales (simp add: InMemoryTransactionRepository_findAll_def InMemoryTransactionRepository_select_def Let_def js_slice_nat)

interpretation line_scan: page_source "\<lambda>off n. InMemoryCreditLineRepository_findAll lc m (Some off) (Some n)"
    "InMemoryCreditLineRepository_sortByNewest lc (jsmap_values m)" for lc m
  by (rule line_windows)

interpretation tx_scan: page_source "\<lambda>off n. InMemoryTransactionRepository_findAll lc m (Some off) (Some n)"
    "InMemoryTransactionRepository_sortByNewest lc (jsmap_values m)" for lc m
  by (rule tx_windows)

lemma clampLimit_bounds: "1 \<le> export_clampLimit l" "export_clampLimit l \<le> 5000"
  by (simp_all add: export_clampLimit_def MAX_EXPORT_LIMIT_def)

text \<open>The page a client asked for, cut from all matching records at once.\<close>

definition requested_page :: "('a \<Rightarrow> export_row) \<Rightarrow> 'a list \<Rightarrow> int option \<Rightarrow> int option \<Rightarrow> string \<Rightarrow> string \<Rightarrow> ExportPage" where
  "requested_page serialize matches limit offset from to =
     (let n = export_clampLimit limit; off = (case offset of Some v \<Rightarrow> v | None \<Rightarrow> 0)
      in \<lparr>ep_rows = map (\<lambda>r. flattenForExport (serialize r)) (take (nat n) (drop (nat off) matches)),
          ep_truncated = (off + n < int (length matches)), ep_limit = n, ep_offset = off, ep_from = from, ep_to = to\<rparr>)"

lemma window_of_take:
  "0 \<le> off \<Longrightarrow> 0 \<le> n \<Longrightarrow> js_slice (take (nat (off + n + 1)) xs) off (off + n) = take (nat n) (drop (nat off) xs)"
  by (simp add: js_slice_nat drop_take nat_add_distrib)

lemma truncated_take: "0 \<le> k \<Longrightarrow> (k < int (min l (nat (k + 1)))) = (k < int l)"
  by linarith

context page_source
begin

lemma scan_export_page:
  assumes "0 \<le> (case offset of Some v \<Rightarrow> v | None \<Rightarrow> 0)"
    and "Date_toISOString (dateParse from) = Inr f" "Date_toISOString (dateParse to) = Inr t"
  shows "scan_export dateParse fetch p serialize from to limit offset =
     Some (Inr (requested_page serialize (filter p rows) limit offset f t))"
proof -
  define n where "n = export_clampLimit limit"
  define off where "off = (case offset of Some v \<Rightarrow> v | None \<Rightarrow> (0::int))"
  have b: "0 \<le> off" "1 \<le> n" using assms(1) clampLimit_bounds by (simp_all add: off_def n_def)
  then have "scan_loop fetch p (off + n + 1) 0 [] = Some (take (nat (off + n + 1)) (filter p rows))" by (intro scan_returns) simp
  then show ?thesis using b assms(2,3)
    by (simp add: scan_export_def requested_page_def Let_def export_bounds_def window_of_take truncated_take
        flip: n_def off_def)
qed

end

lemma nat_cases_window: "0 \<le> n \<Longrightarrow> take (nat n) (take (nat (n + 1)) ys) = take (nat n) ys"
  by (simp add: min_def nat_add_distrib)

definition audit_matches :: "(string \<Rightarrow> number) \<Rightarrow> (string \<Rightarrow> string \<Rightarrow> int) \<Rightarrow> AuditExportQuery \<Rightarrow> audit_store \<Rightarrow> AuditRecord list" where
  "audit_matches dateParse lc query store =
     js_sort (audit_compare lc) (filter (\<lambda>r. num_int (dateParse (eq_from query)) \<le> ar_occurredAt r \<and> ar_occurredAt r \<le> num_int (dateParse (eq_to query)) \<and>
       matches_filter (eq_creditLineId query) (ar_creditLineId r) \<and> matches_filter (eq_action query) (ar_action r)) (as_records store))"

lemma exportAudit_page:
  assumes "0 \<le> (case eq_offset query of Some v \<Rightarrow> v | None \<Rightarrow> 0)"
    and "Date_toISOString (dateParse (eq_from query)) = Inr f" "Date_toISOString (dateParse (eq_to query)) = Inr t"
  shows "exportAudit dateParse lc query store =
     Inr (requested_page serializeAudit (audit_matches dateParse lc query store) (eq_limit query) (eq_offset query) f t)"
proof -
  define n where "n = export_clampLimit (eq_limit query)"
  define off where "off = (case eq_offset query of Some v \<Rightarrow> v | None \<Rightarrow> (0::int))"
  define ys where "ys = drop (nat off) (audit_matches dateParse lc query store)"
  have b: "0 \<le> off" "1 \<le> n" using assms(1) clampLimit_bounds by (simp_all add: off_def n_def)
  have q: "AuditLogStore_query lc
      \<lparr>aq_from = Some (num_int (dateParse (eq_from query))), aq_to = Some (num_int (dateParse (eq_to query))),
       aq_creditLineId = eq_creditLineId query, aq_action = eq_action query, aq_offset = Some off, aq_limit = Some (n + 1)\<rparr> store = take (nat (n + 1)) ys"
    using b by (simp add: AuditLogStore_query_def matchesAuditFilters_def Let_def js_slice_nat ys_def audit_matches_def)
  have s: "js_slice zs 0 n = take (nat n) zs" for zs :: "AuditRecord list" using b js_slice_nat [of 0 n zs] by simp
  have l: "(n < int (length ys)) = (off + n < int (length (audit_matches dateParse lc query store)))" using b by (auto simp: ys_def)
  have w: "(if n < int (length ys) then take (nat n) ys else take (nat (n + 1)) ys) = take (nat n) ys" by auto
  show ?thesis
    unfolding exportAudit_def Let_def n_def [symmetric] off_def [symmetric] q s
    using b assms(2,3) nat_cases_window [of n ys] l w
    by (simp add: truncated_take export_bounds_def requested_page_def Let_def ys_def flip: n_def off_def)
qed

section \<open>What a reader of the streams sees\<close>

text \<open>A reader of comma-separated text: fields in quotes end at a quote that is not doubled, records end at a line feed.\<close>

datatype csv_mode = AtStart | InPlain | InQuoted | AfterQuote

fun csv_run :: "csv_mode \<Rightarrow> string \<Rightarrow> string list \<Rightarrow> string list list \<Rightarrow> string \<Rightarrow> string list list option" where
  "csv_run mode field record0 done0 [] =
     (if mode = InQuoted then None
      else if mode = AtStart \<and> record0 = [] then Some done0 else Some (done0 @ [record0 @ [field]]))"
| "csv_run InQuoted field record0 done0 (c # cs) =
     (if c = CHR 0x22 then csv_run AfterQuote field record0 done0 cs else csv_run InQuoted (field @ [c]) record0 done0 cs)"
| "csv_run AtStart field record0 done0 (c # cs) =
     (if c = CHR 0x22 then csv_run InQuoted field record0 done0 cs
      else if c = CHR '','' then csv_run AtStart [] (record0 @ [field]) done0 cs
      else if c = CHR 0x0A then csv_run AtStart [] [] (done0 @ [record0 @ [field]]) cs
      else csv_run InPlain (field @ [c]) record0 done0 cs)"
| "csv_run InPlain field record0 done0 (c # cs) =
     (if c = CHR 0x22 then None
      else if c = CHR '','' then csv_run AtStart [] (record0 @ [field]) done0 cs
      else if c = CHR 0x0A then csv_run AtStart [] [] (done0 @ [record0 @ [field]]) cs
      else csv_run InPlain (field @ [c]) record0 done0 cs)"
| "csv_run AfterQuote field record0 done0 (c # cs) =
     (if c = CHR 0x22 then csv_run InQuoted (field @ [c]) record0 done0 cs
      else if c = CHR '','' then csv_run AtStart [] (record0 @ [field]) done0 cs
      else if c = CHR 0x0A then csv_run AtStart [] [] (done0 @ [record0 @ [field]]) cs
      else None)"

definition csv_read :: "string \<Rightarrow> string list list option" where
  "csv_read s = csv_run AtStart [] [] [] s"

lemma csv_plain:
  "\<not> list_ex csv_special s \<Longrightarrow> c = CHR '','' \<or> c = CHR 0x0A \<Longrightarrow>
     csv_run InPlain f r d (s @ c # rest) = csv_run AfterQuote (f @ s) r d (c # rest)"
proof (induction s arbitrary: f)
  case (Cons a s)
  then have "a \<noteq> CHR 0x22" "a \<noteq> CHR '',''" "a \<noteq> CHR 0x0A" by (auto simp: csv_special_def)
  with Cons show ?case by simp
qed auto

lemma csv_quoted:
  "csv_run InQuoted f r d (double_quotes s @ CHR 0x22 # rest) = csv_run AfterQuote (f @ s) r d rest"
  by (induction s arbitrary: f) (auto simp: double_quotes_def)

lemma csv_field:
  assumes "c = CHR '','' \<or> c = CHR 0x0A"
  shows "csv_run AtStart [] r d (escapeCsvField v @ c # rest) = csv_run AfterQuote (csv_raw v) r d (c # rest)"
proof (cases "list_ex csv_special (csv_raw v)")
  case True
  then show ?thesis by (simp add: escapeCsvField_def Let_def csv_quoted)
next
  case False
  show ?thesis
  proof (cases "csv_raw v")
    case Nil
    with assms show ?thesis by (auto simp: escapeCsvField_def)
  next
    case (Cons a s)
    then have a: "a \<noteq> CHR 0x22" "a \<noteq> CHR '',''" "a \<noteq> CHR 0x0A" and s: "\<not> list_ex csv_special s"
      using False by (auto simp: csv_special_def)
    then have "csv_run AtStart [] r d (escapeCsvField v @ c # rest) = csv_run InPlain [a] r d (s @ c # rest)"
      using False Cons by (simp add: escapeCsvField_def)
    then show ?thesis using csv_plain [OF s assms, of "[a]" r d rest] Cons by simp
  qed
qed

lemma csv_record:
  "vs \<noteq> [] \<Longrightarrow> csv_run AtStart [] r d (csv_line vs @ rest) = csv_run AtStart [] [] (d @ [r @ map csv_raw vs]) rest"
proof (induction vs arbitrary: r)
  case (Cons v vs)
  show ?case
  proof (cases vs)
    case Nil
    then show ?thesis using csv_field [of "CHR 0x0A" r d v rest] by (simp add: csv_line_def)
  next
    case (Cons w ws)
    have "csv_line (v # vs) @ rest = escapeCsvField v @ CHR '','' # (csv_line vs @ rest)" using Cons by (simp add: csv_line_def)
    then show ?thesis using csv_field [of "CHR '',''" r d v "csv_line vs @ rest"] Cons.IH [of "r @ [csv_raw v]"] Cons
      by (simp del: csv_run.simps(3))
  qed
qed simp

lemma csv_records:
  "columns \<noteq> [] \<Longrightarrow> csv_run AtStart [] [] d (concat (map (\<lambda>row. csv_line (map (row_get row) columns)) rows)) =
     Some (d @ map (\<lambda>row. map (csv_raw \<circ> row_get row) columns) rows)"
  by (induction rows arbitrary: d) (simp_all add: csv_record del: csv_run.simps(2-5))

lemma fold_write: "body_text (fold (\<lambda>row. xr_write (g row)) rows res) = body_text res @ concat (map g rows)"
  by (induction rows arbitrary: res) (simp_all add: xr_write_def body_text_def)

lemma body_text_simps [simp]:
  "body_text (xr_setHeader k v res) = body_text res" "body_text (xr_write s res) = body_text res @ s" "body_text (xr_end res) = body_text res"
  "body_text xr_empty = []"
  by (simp_all add: body_text_def xr_setHeader_def xr_write_def xr_end_def xr_empty_def)

lemma streamCsv_text:
  "body_text (streamCsv columns rows filename res) =
     body_text res @ csv_line (map (\<lambda>c. XJson (JStr c)) columns) @ concat (map (\<lambda>row. csv_line (map (row_get row) columns)) rows)"
  by (simp add: streamCsv_def Let_def fold_write)

lemma json_rows_text:
  "body_text (json_rows i rows res) =
     body_text res @ (if rows = [] then [] else if i = 0 then [] else '','') @ js_join '','' (map (\<lambda>row. json_stringify (row_json row)) rows)"
proof (induction i rows res rule: json_rows.induct)
  case (2 i row rows res)
  then show ?case by (cases rows) simp_all
qed simp

lemma streamJson_text:
  "body_text (streamJson rows meta res) = body_text res @
     json_stringify (JObj [(''data'', JArr (map row_json rows)), (''meta'', meta_json meta), (''error'', JNull)])"
  by (simp add: streamJson_def Let_def json_rows_text json_quote_def json_escape_char_def comp_def del: json_stringify.simps(6))
     (simp add: json_quote_def json_escape_char_def comp_def)

lemma headers_write [simp]: "xr_headers (xr_write s res) = xr_headers res" "xr_headers (xr_end res) = xr_headers res"
  "xr_headers (xr_setHeader k v res) = jsmap_set k v (xr_headers res)"
  by (simp_all add: xr_write_def xr_end_def xr_setHeader_def)

lemma headers_fold_write [simp]: "xr_headers (fold (\<lambda>row. xr_write (g row)) rows res) = xr_headers res"
  by (induction rows arbitrary: res) simp_all

lemma headers_json_rows [simp]: "xr_headers (json_rows i rows res) = xr_headers res"
  by (induction i rows res rule: json_rows.induct) simp_all

lemma stream_headers:
  "k \<notin> {''Content-Type'', ''Content-Disposition'', ''Cache-Control''} \<Longrightarrow>
     jsmap_get (xr_headers (streamCsv columns rows filename res)) k = jsmap_get (xr_headers res) k \<and>
     jsmap_get (xr_headers (streamJson rows meta res)) k = jsmap_get (xr_headers res) k"
  by (simp add: streamCsv_def streamJson_def Let_def jsmap_get_set)

section \<open>Properties\<close>

text \<open>C17. Every export returns the page the client asked for. For dates that parse and an offset that is not negative, the scans over credit lines and
  transactions return (they never run forever), and all three exports answer with exactly the window of the matching records, newest first, that starts at the
  offset and has at most the clamped limit of rows, never more than 5000; the page is marked truncated exactly when matching records remain beyond it.\<close>

theorem exports_return_requested_page:
  assumes "Date_toISOString (dateParse from) = Inr f" "Date_toISOString (dateParse to) = Inr t" "0 \<le> off"
    and "xq_from qc = from" "xq_to qc = to" "xq_offset qc = Some off"
    and "tq_from qt = from" "tq_to qt = to" "tq_offset qt = Some off"
    and "eq_from qa = from" "eq_to qa = to" "eq_offset qa = Some off"
  shows "exportCreditLines dateParse (\<lambda>o' n. InMemoryCreditLineRepository_findAll lc m (Some o') (Some n)) qc =
      Some (Inr (requested_page serializeCreditLine
        (filter (export_line_matches dateParse qc) (InMemoryCreditLineRepository_sortByNewest lc (jsmap_values m))) (xq_limit qc) (Some off) f t)) \<and>
    exportTransactions dateParse (\<lambda>o' n. InMemoryTransactionRepository_findAll lc m' (Some o') (Some n)) qt =
      Some (Inr (requested_page serializeTransaction
        (filter (export_tx_matches dateParse qt) (InMemoryTransactionRepository_sortByNewest lc (jsmap_values m'))) (tq_limit qt) (Some off) f t)) \<and>
    exportAudit dateParse lc qa store =
      Inr (requested_page serializeAudit (audit_matches dateParse lc qa store) (eq_limit qa) (Some off) f t) \<and>
    length (ep_rows (requested_page serialize records limit (Some off) f t)) \<le> 5000"
proof (intro conjI)
  show "exportCreditLines dateParse (\<lambda>o' n. InMemoryCreditLineRepository_findAll lc m (Some o') (Some n)) qc =
      Some (Inr (requested_page serializeCreditLine
        (filter (export_line_matches dateParse qc) (InMemoryCreditLineRepository_sortByNewest lc (jsmap_values m))) (xq_limit qc) (Some off) f t))"
    unfolding exportCreditLines_def assms(4-6) by (rule line_scan.scan_export_page) (use assms(1-3) in simp_all)
  show "exportTransactions dateParse (\<lambda>o' n. InMemoryTransactionRepository_findAll lc m' (Some o') (Some n)) qt =
      Some (Inr (requested_page serializeTransaction
        (filter (export_tx_matches dateParse qt) (InMemoryTransactionRepository_sortByNewest lc (jsmap_values m'))) (tq_limit qt) (Some off) f t))"
    unfolding exportTransactions_def assms(7-9) by (rule tx_scan.scan_export_page) (use assms(1-3) in simp_all)
  show "exportAudit dateParse lc qa store =
      Inr (requested_page serializeAudit (audit_matches dateParse lc qa store) (eq_limit qa) (Some off) f t)"
    using exportAudit_page [of qa dateParse f t lc store] assms by simp
  show "length (ep_rows (requested_page serialize records limit (Some off) f t)) \<le> 5000"
    using clampLimit_bounds(2) [of limit] by (simp add: requested_page_def Let_def)
qed

text \<open>C18. The streamed bodies read back. A reader of comma-separated text finds the header and, for each exported row, the text of every column, whatever commas,
  quotes and line breaks the values contain; the JSON body, written in pieces, is what \<open>JSON.stringify\<close> prints for the envelope of rows, meta data and a null
  error; and the header \<open>X-Export-Truncated\<close> says whether rows remain.\<close>

theorem export_streams_read_back:
  assumes "columns \<noteq> []"
  shows "csv_read (body_text (writeExport now resource ''csv'' page columns xr_empty)) =
      Some (columns # map (\<lambda>row. map (csv_raw \<circ> row_get row) columns) (ep_rows page)) \<and>
    body_text (writeExport now resource ''json'' page columns xr_empty) =
      json_stringify (JObj [(''data'', JArr (map row_json (ep_rows page))),
        (''meta'', meta_json \<lparr>sm_resource = resource, sm_format = ''json'', sm_count = int (length (ep_rows page)), sm_limit = ep_limit page,
            sm_offset = ep_offset page, sm_truncated = ep_truncated page, sm_from = ep_from page, sm_to = ep_to page,
            sm_generatedAt = toISOString now\<rparr>), (''error'', JNull)]) \<and>
    jsmap_get (xr_headers (writeExport now resource format page columns xr_empty)) ''X-Export-Truncated'' =
      Some (if ep_truncated page then ''true'' else ''false'')"
proof (intro conjI)
  have "map csv_raw (map (\<lambda>c. XJson (JStr c)) columns) = columns" by (simp add: comp_def)
  then show "csv_read (body_text (writeExport now resource ''csv'' page columns xr_empty)) =
      Some (columns # map (\<lambda>row. map (csv_raw \<circ> row_get row) columns) (ep_rows page))"
    using assms by (simp add: writeExport_def Let_def streamCsv_text csv_read_def csv_record csv_records del: csv_run.simps map_map)
  show "body_text (writeExport now resource ''json'' page columns xr_empty) =
      json_stringify (JObj [(''data'', JArr (map row_json (ep_rows page))),
        (''meta'', meta_json \<lparr>sm_resource = resource, sm_format = ''json'', sm_count = int (length (ep_rows page)), sm_limit = ep_limit page,
            sm_offset = ep_offset page, sm_truncated = ep_truncated page, sm_from = ep_from page, sm_to = ep_to page,
            sm_generatedAt = toISOString now\<rparr>), (''error'', JNull)])"
    by (simp add: writeExport_def Let_def streamJson_text del: json_stringify.simps)
  show "jsmap_get (xr_headers (writeExport now resource format page columns xr_empty)) ''X-Export-Truncated'' =
      Some (if ep_truncated page then ''true'' else ''false'')"
    by (simp add: writeExport_def Let_def stream_headers)
qed

section \<open>Witnesses\<close>

definition exampleDateParse :: "string \<Rightarrow> number" where
  "exampleDateParse s = (if s = ''2020'' then Fin (- 1000) else Fin 86400000)"

definition exampleLineQuery :: CreditLineExportQuery where
  "exampleLineQuery = \<lparr>xq_from = ''2020'', xq_to = ''2021'', xq_limit = Some 9999, xq_offset = Some 0, xq_lineStatus = Some ACTIVE, xq_walletAddress = None\<rparr>"

definition exampleTxQuery :: TransactionExportQuery where
  "exampleTxQuery = \<lparr>tq_from = ''2020'', tq_to = ''2021'', tq_limit = None, tq_offset = Some 0, tq_status = None, tq_type = None, tq_creditLineId = None,
     tq_walletAddress = None\<rparr>"

definition exampleAuditQuery :: AuditExportQuery where
  "exampleAuditQuery = \<lparr>eq_from = ''2020'', eq_to = ''2021'', eq_limit = None, eq_offset = Some 0, eq_action = None, eq_creditLineId = None\<rparr>"

theorem exports_return_requested_page_witness:
  "exportCreditLines exampleDateParse (\<lambda>o' n. InMemoryCreditLineRepository_findAll code_unit_compare [(''l1'', exampleLine)] (Some o') (Some n)) exampleLineQuery =
     Some (Inr \<lparr>ep_rows = [flattenForExport (serializeCreditLine exampleLine)], ep_truncated = False, ep_limit = 5000, ep_offset = 0,
       ep_from = toISOString (- 1000), ep_to = toISOString 86400000\<rparr>)"
proof -
  have q: "filter (export_line_matches exampleDateParse exampleLineQuery) [exampleLine] = [exampleLine]"
    by (simp add: export_line_matches_def inRange_def exampleDateParse_def exampleLineQuery_def exampleLine_def status_filter_def matches_filter_def)
  have r: "requested_page serializeCreditLine [exampleLine] (xq_limit exampleLineQuery) (Some 0) (toISOString (- 1000)) (toISOString 86400000) =
      \<lparr>ep_rows = [flattenForExport (serializeCreditLine exampleLine)], ep_truncated = False, ep_limit = 5000, ep_offset = 0,
       ep_from = toISOString (- 1000), ep_to = toISOString 86400000\<rparr>"
    by (simp add: requested_page_def export_clampLimit_def exampleLineQuery_def MAX_EXPORT_LIMIT_def)
  have p: "Date_toISOString (exampleDateParse ''2020'') = Inr (toISOString (- 1000))" "Date_toISOString (exampleDateParse ''2021'') = Inr (toISOString 86400000)"
    by (simp_all add: exampleDateParse_def)
  have v: "InMemoryCreditLineRepository_sortByNewest code_unit_compare (jsmap_values [(''l1'', exampleLine)]) = [exampleLine]"
    by (simp add: InMemoryCreditLineRepository_sortByNewest_def jsmap_values_def)
  have sel: "xq_from exampleLineQuery = ''2020''" "xq_to exampleLineQuery = ''2021''" "xq_offset exampleLineQuery = Some 0"
    "tq_from exampleTxQuery = ''2020''" "tq_to exampleTxQuery = ''2021''" "tq_offset exampleTxQuery = Some 0"
    "eq_from exampleAuditQuery = ''2020''" "eq_to exampleAuditQuery = ''2021''" "eq_offset exampleAuditQuery = Some 0"
    by (simp_all add: exampleLineQuery_def exampleTxQuery_def exampleAuditQuery_def)
  show ?thesis
    using exports_return_requested_page [of exampleDateParse "''2020''" _ "''2021''" _ 0 exampleLineQuery exampleTxQuery exampleAuditQuery code_unit_compare
        "[(''l1'', exampleLine)]", OF p order.refl sel, THEN conjunct1]
    unfolding v q r .
qed

definition exampleExportPage :: ExportPage where
  "exampleExportPage = \<lparr>ep_rows = [[(''id'', XJson (JStr [CHR ''a'', CHR '','', CHR 0x22, CHR 0x0A]))]], ep_truncated = True, ep_limit = 1, ep_offset = 0,
     ep_from = [], ep_to = []\<rparr>"

theorem export_streams_read_back_witness:
  "csv_read (body_text (writeExport 0 ''audit'' ''csv'' exampleExportPage [''id''] xr_empty)) = Some [[''id''], [[CHR ''a'', CHR '','', CHR 0x22, CHR 0x0A]]]"
  using export_streams_read_back [of "[''id'']" 0 "''audit''" exampleExportPage "''csv''"]
  by (simp add: exampleExportPage_def row_get_def)

end
