(* ===== verification/AdminAudit.thy ===== *)
theory AdminAudit
  imports JsonParse JsDate HorizonListener
begin

text \<open>
  The administrators' audit log: \<open>services/adminAuditLog.ts\<close> and \<open>utils/adminActor.ts\<close>. Each record carries the digest of its own serialisation and
  the digest of the record before it. \<open>sha256hex\<close> is the digest in hexadecimal, \<open>lc\<close> is \<open>localeCompare\<close>. The values of \<open>before\<close> and \<open>after\<close> are those the routes
  pass: \<open>undefined\<close> (\<open>None\<close>) or plain JSON data.
\<close>

section \<open>Records\<close>

record AdminAuditRecordInput =
  ai_actor :: string
  ai_action :: string
  ai_targetType :: string
  ai_targetId :: "string option"
  ai_before :: "json option"
  ai_after :: "json option"
  ai_correlationId :: "string option"

record AdminAuditRecord =
  aa_id :: string
  aa_actor :: string
  aa_action :: string
  aa_targetType :: string
  aa_targetId :: "string option"
  aa_before :: "json option"
  aa_after :: "json option"
  aa_correlationId :: string
  aa_createdAt :: string
  aa_previousHash :: "string option"
  aa_hash :: string

definition REDACTED :: string where
  "REDACTED = ''[REDACTED]''"

text \<open>The alternatives of the key pattern, with the optional separator written out.\<close>

definition SENSITIVE_WORDS :: "string list" where
  "SENSITIVE_WORDS = [''authorization'', ''secret'', ''password'', ''plaintext'', ''token'', ''apikey'', ''api-key'', ''api_key'',
     ''privatekey'', ''private-key'', ''private_key'', ''seed'', ''mnemonic'']"

definition sensitive_key :: "string \<Rightarrow> bool" where
  "sensitive_key key \<longleftrightarrow> list_ex (js_includes (js_toLowerCase key)) SENSITIVE_WORDS"

definition actorFingerprint :: "(string \<Rightarrow> string) \<Rightarrow> string \<Rightarrow> string" where
  "actorFingerprint sha256hex actorSecret = ''sha256:'' @ take 16 (sha256hex actorSecret)"

text \<open>A repeated header arrives as a list, of which the first is taken.\<close>

definition adminActorFromRequest :: "(string \<Rightarrow> string) \<Rightarrow> string list option \<Rightarrow> string" where
  "adminActorFromRequest sha256hex header =
     (case header of Some (raw # _) \<Rightarrow> if raw \<noteq> [] then actorFingerprint sha256hex raw else ''unknown'' | _ \<Rightarrow> ''unknown'')"

fun redactAuditValue :: "json \<Rightarrow> json" where
  "redactAuditValue (JArr xs) = JArr (map redactAuditValue xs)"
| "redactAuditValue (JObj ps) = JObj (map (\<lambda>(key, nested). (key, if sensitive_key key then JStr REDACTED else redactAuditValue nested)) ps)"
| "redactAuditValue v = v"

fun audit_stableStringify :: "(string \<Rightarrow> string \<Rightarrow> int) \<Rightarrow> json \<Rightarrow> string" where
  "audit_stableStringify lc (JArr xs) = ''['' @ js_join '','' (map (audit_stableStringify lc) xs) @ '']''"
| "audit_stableStringify lc (JObj ps) =
     ''{'' @ js_join '','' (map (\<lambda>(key, text). json_quote key @ '':'' @ text)
        (js_sort (\<lambda>l r. lc (fst l) (fst r)) (map (\<lambda>(key, nested). (key, audit_stableStringify lc nested)) ps))) @ ''}''"
| "audit_stableStringify lc v = json_stringify v"

text \<open>The record as the object that is hashed; an undefined member prints as the word \<open>undefined\<close>.\<close>

definition audit_text :: "(string \<Rightarrow> string \<Rightarrow> int) \<Rightarrow> json option \<Rightarrow> string" where
  "audit_text lc v = (case v of None \<Rightarrow> ''undefined'' | Some j \<Rightarrow> audit_stableStringify lc j)"

definition nullable :: "string option \<Rightarrow> json" where
  "nullable s = (case s of None \<Rightarrow> JNull | Some x \<Rightarrow> JStr x)"

definition audit_entries :: "AdminAuditRecord \<Rightarrow> (string \<times> json option) list" where
  "audit_entries r =
     [(''id'', Some (JStr (aa_id r))), (''actor'', Some (JStr (aa_actor r))), (''action'', Some (JStr (aa_action r))),
      (''targetType'', Some (JStr (aa_targetType r))), (''targetId'', Some (nullable (aa_targetId r))),
      (''before'', aa_before r), (''after'', aa_after r), (''correlationId'', Some (JStr (aa_correlationId r))),
      (''createdAt'', Some (JStr (aa_createdAt r))), (''previousHash'', Some (nullable (aa_previousHash r)))]"

definition audit_serialized :: "(string \<Rightarrow> string \<Rightarrow> int) \<Rightarrow> AdminAuditRecord \<Rightarrow> string" where
  "audit_serialized lc r =
     ''{'' @ js_join '','' (map (\<lambda>(key, v). json_quote key @ '':'' @ audit_text lc v) (js_sort (\<lambda>a b. lc (fst a) (fst b)) (audit_entries r))) @ ''}''"

definition computeHash :: "(string \<Rightarrow> string) \<Rightarrow> (string \<Rightarrow> string \<Rightarrow> int) \<Rightarrow> AdminAuditRecord \<Rightarrow> string" where
  "computeHash sha256hex lc r = sha256hex (audit_serialized lc r)"

section \<open>The log\<close>

text \<open>\<open>uuid\<close> and \<open>corrUuid\<close> are the identifiers \<open>randomUUID\<close> returns; the second is used when the input has no correlation identifier.\<close>

definition AdminAuditLog_record ::
  "(string \<Rightarrow> string) \<Rightarrow> (string \<Rightarrow> string \<Rightarrow> int) \<Rightarrow> AdminAuditRecordInput \<Rightarrow> string \<Rightarrow> string \<Rightarrow> time \<Rightarrow> AdminAuditRecord list \<Rightarrow>
     AdminAuditRecord \<times> AdminAuditRecord list" where
  "AdminAuditLog_record sha256hex lc input uuid corrUuid now records =
     (let previousHash = (if records = [] then None else Some (aa_hash (last records)));
          withoutHash = \<lparr>aa_id = uuid, aa_actor = ai_actor input, aa_action = ai_action input, aa_targetType = ai_targetType input,
            aa_targetId = ai_targetId input, aa_before = map_option redactAuditValue (ai_before input),
            aa_after = map_option redactAuditValue (ai_after input),
            aa_correlationId = (case ai_correlationId input of Some c \<Rightarrow> c | None \<Rightarrow> corrUuid),
            aa_createdAt = toISOString now, aa_previousHash = previousHash, aa_hash = []\<rparr>;
          entry = withoutHash\<lparr>aa_hash := computeHash sha256hex lc withoutHash\<rparr>
      in (entry, records @ [entry]))"

record AdminAuditQuery =
  qa_limit :: "int option"
  qa_cursor :: "string option"
  qa_actor :: "string option"
  qa_action :: "string option"
  qa_targetType :: "string option"

record AdminAuditPage =
  ap_items :: "AdminAuditRecord list"
  ap_nextCursor :: "string option"
  ap_hasMore :: bool

definition audit_filter :: "string option \<Rightarrow> string \<Rightarrow> bool" where
  "audit_filter f v \<longleftrightarrow> (case f of None \<Rightarrow> True | Some x \<Rightarrow> x = [] \<or> v = x)"

definition audit_offset :: "string option \<Rightarrow> int" where
  "audit_offset cursor =
     (let start = (case cursor of Some c \<Rightarrow> if c \<noteq> [] then parseInt10 c else Fin 0 | None \<Rightarrow> Fin 0)
      in if num_isFinite start \<and> num_gt start (Fin 0) then \<lfloor>case start of Fin q \<Rightarrow> q | _ \<Rightarrow> 0\<rfloor> else 0)"

definition AdminAuditLog_list :: "(string \<Rightarrow> string \<Rightarrow> int) \<Rightarrow> AdminAuditQuery \<Rightarrow> AdminAuditRecord list \<Rightarrow> AdminAuditPage" where
  "AdminAuditLog_list lc query records =
     (let limit = min (max (case qa_limit query of Some l \<Rightarrow> l | None \<Rightarrow> 50) 1) 100;
          offset = audit_offset (qa_cursor query);
          filtered = js_sort (\<lambda>left right. lc (aa_createdAt right) (aa_createdAt left))
            (filter (\<lambda>r. audit_filter (qa_actor query) (aa_actor r) \<and> audit_filter (qa_action query) (aa_action r) \<and>
               audit_filter (qa_targetType query) (aa_targetType r)) records);
          items = js_slice filtered offset (offset + limit);
          nextOffset = offset + int (length items)
      in \<lparr>ap_items = items,
          ap_nextCursor = (if nextOffset < int (length filtered) then Some (show_int nextOffset) else None),
          ap_hasMore = (nextOffset < int (length filtered))\<rparr>)"

section \<open>Redaction\<close>

fun redacted :: "json \<Rightarrow> bool" where
  "redacted (JArr xs) = list_all redacted xs"
| "redacted (JObj ps) = list_all (\<lambda>p. if sensitive_key (fst p) then snd p = JStr REDACTED else redacted (snd p)) ps"
| "redacted _ = True"

lemma redacted_redact: "redacted (redactAuditValue j)"
  by (induction j rule: redactAuditValue.induct) (auto simp: list_all_iff)

lemma redact_id: "redacted j \<Longrightarrow> redactAuditValue j = j"
  by (induction j rule: redactAuditValue.induct) (auto simp: list_all_iff intro!: map_idI split: if_splits)

lemma json_ok_redact: "json_ok j \<Longrightarrow> json_ok (redactAuditValue j)"
  by (induction j rule: redactAuditValue.induct) (auto simp: list_all_iff comp_def case_prod_beta)

section \<open>The serialisation determines the record\<close>

text \<open>Objects with their properties in the order of the serialisation.\<close>

fun stable_json :: "(string \<Rightarrow> string \<Rightarrow> int) \<Rightarrow> json \<Rightarrow> json" where
  "stable_json lc (JArr xs) = JArr (map (stable_json lc) xs)"
| "stable_json lc (JObj ps) = JObj (js_sort (\<lambda>l r. lc (fst l) (fst r)) (map (\<lambda>(key, nested). (key, stable_json lc nested)) ps))"
| "stable_json lc v = v"

lemma cmp_insert_map: "cmp_insert (\<lambda>l r. c (fst l) (fst r)) (fst x, f (snd x)) (map (\<lambda>p. (fst p, f (snd p))) ys) =
    map (\<lambda>p. (fst p, f (snd p))) (cmp_insert (\<lambda>l r. c (fst l) (fst r)) x ys)"
  by (induction ys) auto

lemma sort_by_key_map: "js_sort (\<lambda>l r. c (fst l) (fst r)) (map (\<lambda>p. (fst p, f (snd p))) ps) =
    map (\<lambda>p. (fst p, f (snd p))) (js_sort (\<lambda>l r. c (fst l) (fst r)) ps)"
  by (induction ps) (simp_all add: cmp_insert_map)

lemma audit_stableStringify_json: "audit_stableStringify lc j = json_stringify (stable_json lc j)"
proof (induction j rule: stable_json.induct)
  case (2 lc ps)
  let ?c = "\<lambda>l r :: string \<times> _. lc (fst l) (fst r)"
  let ?ps = "map (\<lambda>(key, nested). (key, stable_json lc nested)) ps"
  have "map (\<lambda>(key, nested). (key, audit_stableStringify lc nested)) ps = map (\<lambda>p. (fst p, json_stringify (snd p))) ?ps"
    using 2 by (auto simp: comp_def)
  then have "audit_stableStringify lc (JObj ps) = ''{'' @ js_join '','' (map (\<lambda>(key, text). json_quote key @ '':'' @ text)
      (js_sort ?c (map (\<lambda>p. (fst p, json_stringify (snd p))) ?ps))) @ ''}''"
    by (simp only: audit_stableStringify.simps)
  also have "\<dots> = json_stringify (stable_json lc (JObj ps))"
    unfolding stable_json.simps json_stringify.simps by (subst sort_by_key_map) (simp add: comp_def case_prod_unfold)
  finally show ?case .
qed (auto simp: comp_def cong: map_cong)

lemma json_ok_stable: "json_ok j \<Longrightarrow> json_ok (stable_json lc j)"
proof (induction j rule: stable_json.induct)
  case (2 lc ps)
  let ?s = "js_sort (\<lambda>l r. lc (fst l) (fst r)) (map (\<lambda>(key, nested). (key, stable_json lc nested)) ps)"
  have "mset (map fst ?s) = mset (map fst ps)" by (simp only: mset_map mset_js_sort image_mset.compositionality) (simp add: comp_def case_prod_beta)
  then have "distinct (map fst ?s) = distinct (map fst ps)" by (rule mset_eq_imp_distinct_iff)
  then have "distinct (map fst ?s)" using 2(2) by (simp only: json_ok.simps)
  then show ?case using 2 by (auto simp: list_all_iff)
qed (auto simp: list_all_iff)

definition audit_value_ok :: "json option \<Rightarrow> bool" where
  "audit_value_ok v \<longleftrightarrow> (case v of None \<Rightarrow> True | Some j \<Rightarrow> json_ok j)"

definition ends_value :: "string \<Rightarrow> bool" where
  "ends_value r \<longleftrightarrow> (\<exists>c r'. r = c # r' \<and> (c = CHR '','' \<or> c = CHR ''}''))"

lemma json_text_unique:
  assumes "json_ok i" "json_ok j" "ends_value r" "ends_value q" "json_stringify i @ r = json_stringify j @ q"
  shows "i = j \<and> r = q"
proof -
  let ?n = "2 * length (json_stringify i) + 2 * length (json_stringify j)"
  have d: "r = [] \<or> \<not> is_num_char (hd r)" "q = [] \<or> \<not> is_num_char (hd q)"
    using assms(3,4) by (auto simp: ends_value_def is_num_char_def is_digit_def)
  have "json_value ?n (json_stringify i @ r) = Some (i, r)" by (rule json_value_printed [OF assms(1) d(1)]) simp
  moreover have "json_value ?n (json_stringify j @ q) = Some (j, q)" by (rule json_value_printed [OF assms(2) d(2)]) simp
  ultimately have "Some (i, r) = Some (j, q)" unfolding assms(5) by (rule trans [OF sym])
  then show ?thesis by simp
qed

lemma undefined_is_no_json: "json_ok j \<Longrightarrow> json_stringify j @ r \<noteq> ''undefined'' @ q"
proof (cases j)
  case (JNum x)
  show ?thesis
  proof (cases "num_isFinite x")
    case True
    then obtain q where "x = Fin q" by (auto simp: num_isFinite_iff)
    then show ?thesis using JNum num_toString_hd [of q] by (auto simp: json_number_def is_digit_def)
  qed (simp add: JNum json_number_def)
qed (auto simp: json_quote_def)

lemma audit_text_unique:
  assumes "audit_value_ok v" "audit_value_ok w" "ends_value r" "ends_value q" "audit_text lc v @ r = audit_text lc w @ q"
  shows "map_option (stable_json lc) v = map_option (stable_json lc) w \<and> r = q"
proof (cases v; cases w)
  fix i j assume vw: "v = Some i" "w = Some j"
  then show ?thesis using json_text_unique [of "stable_json lc i" "stable_json lc j" r q] assms
    by (simp add: audit_value_ok_def audit_text_def audit_stableStringify_json json_ok_stable)
next
  fix i assume "v = Some i" "w = None"
  then show ?thesis using undefined_is_no_json [of "stable_json lc i" r q] assms
    by (simp add: audit_value_ok_def audit_text_def audit_stableStringify_json json_ok_stable)
next
  fix j assume "v = None" "w = Some j"
  then show ?thesis using undefined_is_no_json [of "stable_json lc j" q r] assms
    by (simp add: audit_value_ok_def audit_text_def audit_stableStringify_json json_ok_stable)
qed (use assms in \<open>simp add: audit_text_def\<close>)

definition audit_member :: "(string \<Rightarrow> string \<Rightarrow> int) \<Rightarrow> string \<times> json option \<Rightarrow> string" where
  "audit_member lc p = json_quote (fst p) @ '':'' @ audit_text lc (snd p)"

definition audit_tail :: "(string \<Rightarrow> string \<Rightarrow> int) \<Rightarrow> (string \<times> json option) list \<Rightarrow> string" where
  "audit_tail lc ps = (if ps = [] then ''}'' else '','' @ js_join '','' (map (audit_member lc) ps) @ ''}'')"

lemma ends_value_tail: "ends_value (audit_tail lc ps)"
  by (auto simp: ends_value_def audit_tail_def)

lemma audit_join_Cons: "js_join '','' (map (audit_member lc) (x # xs)) @ ''}'' = json_quote (fst x) @ '':'' @ audit_text lc (snd x) @ audit_tail lc xs"
  by (cases xs) (auto simp: audit_member_def audit_tail_def)

lemma audit_members_unique:
  assumes "map fst ps = map fst qs" "list_all (\<lambda>p. audit_value_ok (snd p)) ps" "list_all (\<lambda>p. audit_value_ok (snd p)) qs"
    and "js_join '','' (map (audit_member lc) ps) @ ''}'' = js_join '','' (map (audit_member lc) qs) @ ''}''"
  shows "map (\<lambda>p. map_option (stable_json lc) (snd p)) ps = map (\<lambda>p. map_option (stable_json lc) (snd p)) qs"
  using assms
proof (induction ps arbitrary: qs)
  case (Cons p ps)
  obtain q qs' where qs: "qs = q # qs'" "fst q = fst p" "map fst ps = map fst qs'" using Cons.prems(1) by (cases qs) auto
  have "audit_text lc (snd p) @ audit_tail lc ps = audit_text lc (snd q) @ audit_tail lc qs'"
    using Cons.prems(4) unfolding qs(1) audit_join_Cons qs(2) by simp
  then have "map_option (stable_json lc) (snd p) = map_option (stable_json lc) (snd q) \<and> audit_tail lc ps = audit_tail lc qs'"
    by (rule audit_text_unique [rotated -1]) (use Cons.prems(2,3) qs(1) in \<open>simp_all add: ends_value_tail\<close>)
  then have v: "map_option (stable_json lc) (snd p) = map_option (stable_json lc) (snd q)" and r: "audit_tail lc ps = audit_tail lc qs'"
    by blast+
  have "ps = [] \<longleftrightarrow> qs' = []" using qs(3) by (metis Nil_is_map_conv)
  then have "map (\<lambda>p. map_option (stable_json lc) (snd p)) ps = map (\<lambda>p. map_option (stable_json lc) (snd p)) qs'"
  proof (cases "ps = []")
    case False
    then show ?thesis using r \<open>ps = [] \<longleftrightarrow> qs' = []\<close> Cons.IH [OF qs(3)] Cons.prems(2,3) qs(1) by (simp add: audit_tail_def)
  qed simp
  with v qs(1) show ?case by simp
qed simp

text \<open>A record up to the order of the properties inside \<open>before\<close> and \<open>after\<close>.\<close>

definition audit_content :: "(string \<Rightarrow> string \<Rightarrow> int) \<Rightarrow> AdminAuditRecord \<Rightarrow> AdminAuditRecord" where
  "audit_content lc r = r\<lparr>aa_before := map_option (stable_json lc) (aa_before r), aa_after := map_option (stable_json lc) (aa_after r)\<rparr>"

definition audit_record_ok :: "AdminAuditRecord \<Rightarrow> bool" where
  "audit_record_ok r \<longleftrightarrow> audit_value_ok (aa_before r) \<and> audit_value_ok (aa_after r)"

text \<open>The order of the keys does not depend on the values.\<close>

lemma sorted_keys: "js_sort (\<lambda>a b. lc (fst a) (fst b)) (audit_entries r) =
    map (\<lambda>p. (fst p, snd p r)) (js_sort (\<lambda>a b. lc (fst a) (fst b))
      [(''id'', \<lambda>r. Some (JStr (aa_id r))), (''actor'', \<lambda>r. Some (JStr (aa_actor r))), (''action'', \<lambda>r. Some (JStr (aa_action r))),
       (''targetType'', \<lambda>r. Some (JStr (aa_targetType r))), (''targetId'', \<lambda>r. Some (nullable (aa_targetId r))),
       (''before'', aa_before), (''after'', aa_after), (''correlationId'', \<lambda>r. Some (JStr (aa_correlationId r))),
       (''createdAt'', \<lambda>r. Some (JStr (aa_createdAt r))), (''previousHash'', \<lambda>r. Some (nullable (aa_previousHash r)))])"
  (is "_ = map _ (js_sort _ ?fields)")
proof -
  have "audit_entries r = map (\<lambda>p. (fst p, snd p r)) ?fields" by (simp add: audit_entries_def)
  then show ?thesis using sort_by_key_map [of lc "\<lambda>f. f r" ?fields] by simp
qed

lemma nullable_inj: "stable_json lc (nullable a) = stable_json lc (nullable b) \<Longrightarrow> a = b"
  by (cases a; cases b) (simp_all add: nullable_def)

lemma audit_serialized_unique:
  assumes "audit_record_ok r" "audit_record_ok s" "audit_serialized lc r = audit_serialized lc s"
  shows "audit_content lc (r\<lparr>aa_hash := h\<rparr>) = audit_content lc (s\<lparr>aa_hash := h\<rparr>)"
proof -
  define fields :: "(string \<times> (AdminAuditRecord \<Rightarrow> json option)) list" where
    "fields = [(''id'', \<lambda>r. Some (JStr (aa_id r))), (''actor'', \<lambda>r. Some (JStr (aa_actor r))), (''action'', \<lambda>r. Some (JStr (aa_action r))),
       (''targetType'', \<lambda>r. Some (JStr (aa_targetType r))), (''targetId'', \<lambda>r. Some (nullable (aa_targetId r))),
       (''before'', aa_before), (''after'', aa_after), (''correlationId'', \<lambda>r. Some (JStr (aa_correlationId r))),
       (''createdAt'', \<lambda>r. Some (JStr (aa_createdAt r))), (''previousHash'', \<lambda>r. Some (nullable (aa_previousHash r)))]"
  define fs where "fs = js_sort (\<lambda>a b. lc (fst a) (fst b)) fields"
  let ?e = "\<lambda>r. map (\<lambda>p. (fst p, snd p r)) fs"
  have sorted: "js_sort (\<lambda>a b. lc (fst a) (fst b)) (audit_entries x) = ?e x" for x
    unfolding fs_def fields_def by (rule sorted_keys)
  have set_fs: "set fs = set fields" by (simp add: fs_def)
  have ok: "list_all (\<lambda>p. audit_value_ok (snd p)) (?e x)" if "audit_record_ok x" for x
    using that unfolding list_all_iff set_map set_fs
    by (auto simp: fields_def audit_record_ok_def audit_value_ok_def nullable_def split: option.splits)
  have ser: "audit_serialized lc x = ''{'' @ js_join '','' (map (audit_member lc) (?e x)) @ ''}''" for x
    unfolding audit_serialized_def sorted audit_member_def by (simp add: case_prod_unfold)
  have "map (\<lambda>p. map_option (stable_json lc) (snd p)) (?e r) = map (\<lambda>p. map_option (stable_json lc) (snd p)) (?e s)"
    by (rule audit_members_unique [OF _ ok ok]) (use assms ser in \<open>simp_all add: comp_def\<close>)
  then have "\<And>p. p \<in> set fields \<Longrightarrow> map_option (stable_json lc) (snd p r) = map_option (stable_json lc) (snd p s)"
    unfolding set_fs [symmetric] by (simp add: comp_def)
  then have "\<forall>p \<in> set fields. map_option (stable_json lc) (snd p r) = map_option (stable_json lc) (snd p s)" by blast
  then show ?thesis unfolding fields_def
    by (cases r; cases s) (auto simp: audit_content_def dest: nullable_inj)
qed

section \<open>The chain\<close>

fun audit_chain :: "(string \<Rightarrow> string) \<Rightarrow> (string \<Rightarrow> string \<Rightarrow> int) \<Rightarrow> string option \<Rightarrow> AdminAuditRecord list \<Rightarrow> bool" where
  "audit_chain hash lc prev [] = True"
| "audit_chain hash lc prev (r # rs) = (aa_previousHash r = prev \<and> aa_hash r = computeHash hash lc r \<and> audit_chain hash lc (Some (aa_hash r)) rs)"

definition head_hash :: "string option \<Rightarrow> AdminAuditRecord list \<Rightarrow> string option" where
  "head_hash prev rs = (if rs = [] then prev else Some (aa_hash (last rs)))"

lemma audit_chain_snoc:
  "audit_chain hash lc prev (rs @ [r]) \<longleftrightarrow> audit_chain hash lc prev rs \<and> aa_previousHash r = head_hash prev rs \<and> aa_hash r = computeHash hash lc r"
  by (induction rs arbitrary: prev) (auto simp: head_hash_def)

lemma computeHash_hash [simp]: "computeHash hash lc (r\<lparr>aa_hash := h\<rparr>) = computeHash hash lc r"
  by (simp add: computeHash_def audit_serialized_def audit_entries_def)

lemma record_extends_chain:
  "audit_chain hash lc None trail \<Longrightarrow> audit_chain hash lc None (snd (AdminAuditLog_record hash lc input uuid corrUuid now trail))"
  by (simp add: AdminAuditLog_record_def Let_def audit_chain_snoc head_hash_def computeHash_def audit_serialized_def audit_entries_def)

lemma chain_determined:
  assumes "inj_on hash S" "audit_chain hash lc None (xs @ [x])" "audit_chain hash lc None ys" "head_hash None ys = Some (aa_hash x)"
    and "list_all audit_record_ok (xs @ [x])" "list_all audit_record_ok ys" "audit_serialized lc ` set (xs @ [x]) \<subseteq> S" "audit_serialized lc ` set ys \<subseteq> S"
  shows "map (audit_content lc) ys = map (audit_content lc) (xs @ [x])"
  using assms(2-)
proof (induction xs arbitrary: x ys rule: rev_induct)
  case Nil
  then obtain zs y where ys: "ys = zs @ [y]" by (cases ys rule: rev_cases) (auto simp: head_hash_def)
  have "audit_serialized lc y = audit_serialized lc x"
    using Nil assms(1) by (simp add: ys audit_chain_snoc head_hash_def computeHash_def inj_on_eq_iff)
  then have c: "audit_content lc (y\<lparr>aa_hash := aa_hash x\<rparr>) = audit_content lc (x\<lparr>aa_hash := aa_hash x\<rparr>)"
    by (intro audit_serialized_unique) (use Nil ys in simp_all)
  have "aa_hash y = aa_hash x" using Nil by (simp add: ys head_hash_def)
  with c have e: "audit_content lc y = audit_content lc x" by (cases y) simp
  then have "aa_previousHash y = aa_previousHash x" by (cases x; cases y) (simp add: audit_content_def)
  then have "zs = []" using Nil by (auto simp: ys audit_chain_snoc head_hash_def split: if_splits)
  with e ys show ?case by simp
next
  case (snoc w xs)
  then obtain zs y where ys: "ys = zs @ [y]" by (cases ys rule: rev_cases) (auto simp: head_hash_def)
  have px: "audit_chain hash lc None (xs @ [w])" "aa_previousHash x = Some (aa_hash w)" "aa_hash x = computeHash hash lc x"
    using snoc.prems(1) unfolding append.assoc [symmetric] audit_chain_snoc [of _ _ _ "xs @ [w]"] by (simp_all add: head_hash_def)
  have "audit_serialized lc y = audit_serialized lc x"
    using snoc.prems(2,3,6,7) px(3) assms(1) by (simp add: ys audit_chain_snoc head_hash_def computeHash_def inj_on_eq_iff)
  then have c: "audit_content lc (y\<lparr>aa_hash := aa_hash x\<rparr>) = audit_content lc (x\<lparr>aa_hash := aa_hash x\<rparr>)"
    by (intro audit_serialized_unique) (use snoc.prems ys in simp_all)
  have "aa_hash y = aa_hash x" using snoc.prems(3) by (simp add: ys head_hash_def)
  with c have e: "audit_content lc y = audit_content lc x" by (cases y) simp
  then have "aa_previousHash y = aa_previousHash x" by (cases x; cases y) (simp add: audit_content_def)
  then have "head_hash None zs = Some (aa_hash w)" using snoc.prems(2) px(2) by (simp add: ys audit_chain_snoc)
  then have "map (audit_content lc) zs = map (audit_content lc) (xs @ [w])"
    by (intro snoc.IH) (use snoc.prems px ys in \<open>simp_all add: audit_chain_snoc\<close>)
  with e ys show ?case by simp
qed

text \<open>The log after a sequence of calls, each with the identifiers and the time it saw.\<close>

type_synonym audit_call = "AdminAuditRecordInput \<times> string \<times> string \<times> time"

definition audit_trail :: "(string \<Rightarrow> string) \<Rightarrow> (string \<Rightarrow> string \<Rightarrow> int) \<Rightarrow> audit_call list \<Rightarrow> AdminAuditRecord list" where
  "audit_trail sha256hex lc calls =
     fold (\<lambda>(input, uuid, corrUuid, now) trail. snd (AdminAuditLog_record sha256hex lc input uuid corrUuid now trail)) calls []"

definition audit_call_ok :: "audit_call \<Rightarrow> bool" where
  "audit_call_ok c \<longleftrightarrow> audit_value_ok (ai_before (fst c)) \<and> audit_value_ok (ai_after (fst c))"

definition audit_redacted :: "AdminAuditRecord \<Rightarrow> bool" where
  "audit_redacted r \<longleftrightarrow> pred_option redacted (aa_before r) \<and> pred_option redacted (aa_after r)"

lemma recorded_entry:
  "\<exists>r. snd (AdminAuditLog_record hash lc input uuid corrUuid now trail) = trail @ [r] \<and> audit_redacted r \<and>
     (audit_value_ok (ai_before input) \<longrightarrow> audit_value_ok (ai_after input) \<longrightarrow> audit_record_ok r)"
  by (auto simp: AdminAuditLog_record_def Let_def audit_redacted_def redacted_redact audit_record_ok_def audit_value_ok_def json_ok_redact
      option.pred_map comp_def option.pred_True split: option.splits)

lemma audit_trail_snoc:
  "audit_trail hash lc (calls @ [(input, uuid, corrUuid, now)]) = snd (AdminAuditLog_record hash lc input uuid corrUuid now (audit_trail hash lc calls))"
  by (simp add: audit_trail_def)

lemma audit_trail_ok:
  "audit_chain hash lc None (audit_trail hash lc calls) \<and> list_all audit_redacted (audit_trail hash lc calls) \<and>
   length (audit_trail hash lc calls) = length calls \<and> (list_all audit_call_ok calls \<longrightarrow> list_all audit_record_ok (audit_trail hash lc calls))"
proof (induction calls rule: rev_induct)
  case (snoc c calls)
  obtain input uuid corrUuid now where c: "c = (input, uuid, corrUuid, now)" by (cases c)
  obtain r where r: "snd (AdminAuditLog_record hash lc input uuid corrUuid now (audit_trail hash lc calls)) = audit_trail hash lc calls @ [r]"
    "audit_redacted r" "audit_value_ok (ai_before input) \<longrightarrow> audit_value_ok (ai_after input) \<longrightarrow> audit_record_ok r"
    using recorded_entry by blast
  have "audit_chain hash lc None (audit_trail hash lc (calls @ [c]))"
    unfolding c audit_trail_snoc using snoc record_extends_chain by blast
  moreover have "audit_trail hash lc (calls @ [c]) = audit_trail hash lc calls @ [r]" unfolding c audit_trail_snoc by (rule r(1))
  ultimately show ?case using snoc r(2,3) by (auto simp: c audit_call_ok_def)
qed (simp add: audit_trail_def)

section \<open>Property\<close>

text \<open>C12. The audit log is tamper evident and holds no secrets. After any non-empty sequence of recorded actions, the log is a chain with one entry per action in
  which every property with a sensitive name shows only the placeholder. Any other list of records that verifies as a chain and ends in the same hash has the
  same records, up to the order of properties inside \<open>before\<close> and \<open>after\<close>, as long as the digest does not collide on the serialisations involved: nothing can be
  changed, inserted, removed or reordered without changing the last hash.\<close>

theorem audit_trail_is_tamper_evident:
  assumes "calls \<noteq> []" "list_all audit_call_ok calls"
    and "audit_chain sha256hex lc None forged" "list_all audit_record_ok forged" "forged \<noteq> []"
    and "aa_hash (last forged) = aa_hash (last (audit_trail sha256hex lc calls))"
    and "inj_on sha256hex (audit_serialized lc ` (set forged \<union> set (audit_trail sha256hex lc calls)))"
  shows "map (audit_content lc) forged = map (audit_content lc) (audit_trail sha256hex lc calls) \<and>
    length (audit_trail sha256hex lc calls) = length calls \<and> list_all audit_redacted (audit_trail sha256hex lc calls) \<and>
    audit_chain sha256hex lc None (audit_trail sha256hex lc calls)"
proof -
  note ok = audit_trail_ok [of sha256hex lc calls]
  obtain xs x where t: "audit_trail sha256hex lc calls = xs @ [x]"
    using ok assms(1) by (metis length_0_conv rev_exhaust)
  have "map (audit_content lc) forged = map (audit_content lc) (xs @ [x])"
    by (rule chain_determined [OF assms(7)]) (use ok t assms in \<open>auto simp: head_hash_def\<close>)
  with ok t show ?thesis by simp
qed

section \<open>Witness\<close>

definition exampleAuditCall :: "(string \<times> json) list \<Rightarrow> audit_call" where
  "exampleAuditCall after = (\<lparr>ai_actor = ''sha256:0'', ai_action = ''maintenance_mode.updated'', ai_targetType = ''maintenance_mode'', ai_targetId = None,
     ai_before = None, ai_after = Some (JObj after), ai_correlationId = None\<rparr>, ''u1'', ''u2'', 0)"

abbreviation exampleTrail :: "AdminAuditRecord list" where
  "exampleTrail \<equiv> audit_trail (\<lambda>s. s) code_unit_compare [exampleAuditCall [(''enabled'', JBool True), (''apiToken'', JStr ''xyz'')]]"

abbreviation reorderedTrail :: "AdminAuditRecord list" where
  "reorderedTrail \<equiv> audit_trail (\<lambda>s. s) code_unit_compare [exampleAuditCall [(''apiToken'', JStr ''xyz''), (''enabled'', JBool True)]]"

lemma audit_serialized_cong:
  assumes "map (\<lambda>p. (fst p, audit_text lc (snd p))) (audit_entries r) = map (\<lambda>p. (fst p, audit_text lc (snd p))) (audit_entries s)"
  shows "audit_serialized lc r = audit_serialized lc s"
proof -
  have "audit_serialized lc x = ''{'' @ js_join '','' (map (\<lambda>p. json_quote (fst p) @ '':'' @ snd p)
      (js_sort (\<lambda>a b. lc (fst a) (fst b)) (map (\<lambda>p. (fst p, audit_text lc (snd p))) (audit_entries x)))) @ ''}''" for x
    unfolding sort_by_key_map [of lc "audit_text lc"] audit_serialized_def by (simp add: case_prod_unfold comp_def)
  then show ?thesis using assms by simp
qed

lemma example_same_text:
  "audit_stableStringify code_unit_compare (redactAuditValue (JObj [(''apiToken'', JStr ''xyz''), (''enabled'', JBool True)])) =
   audit_stableStringify code_unit_compare (redactAuditValue (JObj [(''enabled'', JBool True), (''apiToken'', JStr ''xyz'')]))"
  by code_simp

lemma example_same_hash: "aa_hash (last reorderedTrail) = aa_hash (last exampleTrail)"
  unfolding audit_trail_def AdminAuditLog_record_def exampleAuditCall_def computeHash_def
  by (simp add: Let_def del: redactAuditValue.simps) (rule audit_serialized_cong, simp add: audit_entries_def audit_text_def example_same_text del: redactAuditValue.simps)

theorem audit_trail_is_tamper_evident_witness:
  "map (audit_content code_unit_compare) reorderedTrail = map (audit_content code_unit_compare) exampleTrail \<and> length exampleTrail = 1"
proof -
  have c: "list_all audit_call_ok [exampleAuditCall [(''enabled'', JBool True), (''apiToken'', JStr ''xyz'')]]"
    "list_all audit_call_ok [exampleAuditCall [(''apiToken'', JStr ''xyz''), (''enabled'', JBool True)]]"
    by (simp_all add: audit_call_ok_def exampleAuditCall_def audit_value_ok_def)
  note ok = audit_trail_ok [of "\<lambda>s. s" code_unit_compare "[exampleAuditCall [(''apiToken'', JStr ''xyz''), (''enabled'', JBool True)]]"]
  have "reorderedTrail \<noteq> []" using ok by auto
  then show ?thesis
    using audit_trail_is_tamper_evident [OF _ c(1), of "\<lambda>s. s" code_unit_compare reorderedTrail] ok c(2) example_same_hash by simp
qed

text \<open>What the log keeps of the example: the placeholder in place of the token.\<close>

lemma example_audit_entry:
  "map aa_after (audit_trail sha256hex lc [exampleAuditCall [(''enabled'', JBool True), (''apiToken'', JStr ''xyz'')]]) = [Some (JObj [(''enabled'', JBool True), (''apiToken'', JStr ''[REDACTED]'')])]"
  by (simp add: audit_trail_def AdminAuditLog_record_def exampleAuditCall_def Let_def) code_simp

end
