(* ===== verification/Dashboard.thy ===== *)
theory Dashboard
  imports CreditLineRepo JsDate
begin

text \<open>
  The cached dashboard summary, \<open>services/dashboardSummaryService.ts\<close>. A read that misses the cache is split at its awaits: it notes the time, loads the credit
  lines, and later stores and returns the summary; other reads, mutations and invalidations run in between. \<open>contents t m\<close> says that the repository held \<open>m\<close> at
  some moment of millisecond \<open>t\<close>.
\<close>

section \<open>Aggregation\<close>

record DashboardSummary =
  da_totalCreditLines :: nat
  da_totalCreditLimit :: string
  da_totalUtilized :: string
  da_totalAvailable :: string
  da_countsByStatus :: "(CreditLineStatus, nat) jsmap"
  da_generatedAt :: string

definition or_zero :: "number \<Rightarrow> number" where
  "or_zero x = (if x = NaN then Fin 0 else x)"

definition zero_counts :: "(CreditLineStatus, nat) jsmap" where
  "zero_counts = [(ACTIVE, 0), (SUSPENDED, 0), (CLOSED, 0), (PENDING_LINE, 0)]"

definition aggregate_line ::
  "CreditLine \<Rightarrow> (CreditLineStatus, nat) jsmap \<times> number \<times> number \<Rightarrow> (CreditLineStatus, nat) jsmap \<times> number \<times> number" where
  "aggregate_line line acc =
     (case acc of (counts, totalLimit, totalUtilized) \<Rightarrow>
       (jsmap_set (cl_status line) (Suc (case jsmap_get counts (cl_status line) of Some n \<Rightarrow> n | None \<Rightarrow> 0)) counts,
        num_add totalLimit (or_zero (parseFloat (cl_creditLimit line))),
        num_add totalUtilized (or_zero (parseFloat (if cl_utilized line = [] then ''0'' else cl_utilized line)))))"

definition aggregate :: "CreditLine list \<Rightarrow> string \<Rightarrow> DashboardSummary" where
  "aggregate lines generatedAt =
     (case fold aggregate_line lines (zero_counts, Fin 0, Fin 0) of (counts, totalLimit, totalUtilized) \<Rightarrow>
       \<lparr>da_totalCreditLines = length lines, da_totalCreditLimit = num_toFixed 2 totalLimit, da_totalUtilized = num_toFixed 2 totalUtilized,
        da_totalAvailable = num_toFixed 2 (num_max (Fin 0) (num_sub totalLimit totalUtilized)), da_countsByStatus = counts, da_generatedAt = generatedAt\<rparr>)"

section \<open>The cache\<close>

definition DEFAULT_TTL_MS :: int where
  "DEFAULT_TTL_MS = 30000"

record dash_cache =
  dc_summary :: DashboardSummary
  dc_expiresAt :: time

type_synonym dash = "dash_cache option"

definition isFresh :: "time \<Rightarrow> dash \<Rightarrow> bool" where
  "isFresh nowMs cache \<longleftrightarrow> (case cache of Some c \<Rightarrow> nowMs < dc_expiresAt c | None \<Rightarrow> False)"

definition invalidate :: "dash \<Rightarrow> dash" where
  "invalidate cache = None"

text \<open>The synchronous start of \<open>getSummary\<close>: the cached summary, or nothing when it has to be computed.\<close>

definition getSummary_cached :: "time \<Rightarrow> dash \<Rightarrow> DashboardSummary option" where
  "getSummary_cached nowMs cache =
     (case cache of Some c \<Rightarrow> if nowMs < dc_expiresAt c then Some (dc_summary c) else None | None \<Rightarrow> None)"

definition computeSummary :: "CreditLine list \<Rightarrow> time \<Rightarrow> DashboardSummary" where
  "computeSummary lines now = aggregate lines (toISOString now)"

text \<open>The end of a read that started at \<open>nowMs\<close> and loaded \<open>lines\<close>.\<close>

definition getSummary_computed :: "int \<Rightarrow> time \<Rightarrow> CreditLine list \<Rightarrow> time \<Rightarrow> DashboardSummary \<times> dash" where
  "getSummary_computed ttlMs nowMs lines now =
     (let summary = computeSummary lines now in (summary, Some \<lparr>dc_summary = summary, dc_expiresAt = nowMs + ttlMs\<rparr>))"

section \<open>Interleaved reads\<close>

text \<open>A pending read carries the time it started and, once loaded, the lines. \<open>dd_served\<close> collects what readers got, with the time they got it and the time they
  asked.\<close>

record dash_state =
  dd_clock :: time
  dd_cache :: dash
  dd_pending :: "(time \<times> CreditLine list option) list"
  dd_served :: "(time \<times> time \<times> DashboardSummary) list"

inductive dash_step ::
  "(string \<Rightarrow> string \<Rightarrow> int) \<Rightarrow> (time \<Rightarrow> creditLineRepo \<Rightarrow> bool) \<Rightarrow> int \<Rightarrow> dash_state \<Rightarrow> dash_state \<Rightarrow> bool"
  for lc contents ttlMs where
  tick: "dd_clock s \<le> t \<Longrightarrow> dash_step lc contents ttlMs s (s\<lparr>dd_clock := t\<rparr>)"
| hit: "getSummary_cached (dd_clock s) (dd_cache s) = Some summary \<Longrightarrow>
    dash_step lc contents ttlMs s (s\<lparr>dd_served := (dd_clock s, dd_clock s, summary) # dd_served s\<rparr>)"
| miss: "getSummary_cached (dd_clock s) (dd_cache s) = None \<Longrightarrow>
    dash_step lc contents ttlMs s (s\<lparr>dd_pending := dd_pending s @ [(dd_clock s, None)]\<rparr>)"
| load: "i < length (dd_pending s) \<Longrightarrow> dd_pending s ! i = (nowMs, None) \<Longrightarrow> contents (dd_clock s) m \<Longrightarrow>
    dash_step lc contents ttlMs s (s\<lparr>dd_pending := (dd_pending s)[i := (nowMs, Some (InMemoryCreditLineRepository_findAll lc m None None))]\<rparr>)"
| store: "i < length (dd_pending s) \<Longrightarrow> dd_pending s ! i = (nowMs, Some lines) \<Longrightarrow>
    getSummary_computed ttlMs nowMs lines (dd_clock s) = (summary, cache) \<Longrightarrow>
    dash_step lc contents ttlMs s (s\<lparr>dd_pending := take i (dd_pending s) @ drop (Suc i) (dd_pending s), dd_cache := cache,
      dd_served := (nowMs, dd_clock s, summary) # dd_served s\<rparr>)"
| drop_cache: "dash_step lc contents ttlMs s (s\<lparr>dd_cache := invalidate (dd_cache s)\<rparr>)"

definition dash_start :: "time \<Rightarrow> dash_state" where
  "dash_start t = \<lparr>dd_clock = t, dd_cache = None, dd_pending = [], dd_served = []\<rparr>"

section \<open>Staleness\<close>

definition loaded_between :: "(string \<Rightarrow> string \<Rightarrow> int) \<Rightarrow> (time \<Rightarrow> creditLineRepo \<Rightarrow> bool) \<Rightarrow> time \<Rightarrow> time \<Rightarrow> CreditLine list \<Rightarrow> bool" where
  "loaded_between lc contents a b lines \<longleftrightarrow> (\<exists>t m. a \<le> t \<and> t \<le> b \<and> contents t m \<and> lines = InMemoryCreditLineRepository_findAll lc m None None)"

definition summary_between :: "(string \<Rightarrow> string \<Rightarrow> int) \<Rightarrow> (time \<Rightarrow> creditLineRepo \<Rightarrow> bool) \<Rightarrow> time \<Rightarrow> time \<Rightarrow> DashboardSummary \<Rightarrow> bool" where
  "summary_between lc contents a b summary \<longleftrightarrow> (\<exists>lines generatedAt. loaded_between lc contents a b lines \<and> summary = aggregate lines generatedAt)"

definition dash_ok :: "(string \<Rightarrow> string \<Rightarrow> int) \<Rightarrow> (time \<Rightarrow> creditLineRepo \<Rightarrow> bool) \<Rightarrow> int \<Rightarrow> dash_state \<Rightarrow> bool" where
  "dash_ok lc contents ttlMs s \<longleftrightarrow>
     (\<forall>c. dd_cache s = Some c \<longrightarrow> summary_between lc contents (dc_expiresAt c - ttlMs) (dd_clock s) (dc_summary c)) \<and>
     (\<forall>(nowMs, r) \<in> set (dd_pending s). nowMs \<le> dd_clock s \<and> (\<forall>lines. r = Some lines \<longrightarrow> loaded_between lc contents nowMs (dd_clock s) lines)) \<and>
     (\<forall>(asked, got, summary) \<in> set (dd_served s). asked \<le> got \<and> got \<le> dd_clock s \<and>
        (summary_between lc contents asked got summary \<or> summary_between lc contents (asked - ttlMs + 1) asked summary))"

lemma loaded_mono:
  assumes "loaded_between lc contents a b ls" "a' \<le> a" "b \<le> b'"
  shows "loaded_between lc contents a' b' ls"
proof -
  obtain t m where "a \<le> t" "t \<le> b" "contents t m" "ls = InMemoryCreditLineRepository_findAll lc m None None"
    using assms(1) unfolding loaded_between_def by blast
  moreover have "a' \<le> t" "t \<le> b'" using assms(2,3) calculation by simp_all
  ultimately show ?thesis unfolding loaded_between_def by blast
qed

lemma summary_mono: "summary_between lc contents a b x \<Longrightarrow> a' \<le> a \<Longrightarrow> b \<le> b' \<Longrightarrow> summary_between lc contents a' b' x"
  unfolding summary_between_def using loaded_mono by blast

lemmas between_mono = summary_mono loaded_mono

lemma dash_ok_step: "dash_step lc contents ttlMs s s' \<Longrightarrow> dash_ok lc contents ttlMs s \<Longrightarrow> dash_ok lc contents ttlMs s'"
proof (induction rule: dash_step.induct)
  case (tick s t)
  then show ?case by (fastforce simp: dash_ok_def intro: between_mono)
next
  case (hit s summary)
  then obtain c where c: "dd_cache s = Some c" "dd_clock s < dc_expiresAt c" "summary = dc_summary c"
    by (auto simp: getSummary_cached_def split: option.splits if_splits)
  then have "summary_between lc contents (dc_expiresAt c - ttlMs) (dd_clock s) summary" using hit(2) by (simp add: dash_ok_def)
  then have "summary_between lc contents (dd_clock s - ttlMs + 1) (dd_clock s) summary" by (rule between_mono) (use c in simp_all)
  with hit(2) show ?case by (simp add: dash_ok_def)
next
  case (miss s)
  then show ?case by (auto simp: dash_ok_def)
next
  case (load i s nowMs m)
  then have "(nowMs, None) \<in> set (dd_pending s)" by (metis nth_mem)
  then have n: "nowMs \<le> dd_clock s" using load(4) by (auto simp: dash_ok_def)
  then have "loaded_between lc contents nowMs (dd_clock s) (InMemoryCreditLineRepository_findAll lc m None None)"
    using load(3) by (auto simp: loaded_between_def)
  with n load(4) show ?case by (auto simp: dash_ok_def dest!: set_update_subset_insert [THEN subsetD])
next
  case (store i s nowMs lines summary cache)
  have mem: "(nowMs, Some lines) \<in> set (dd_pending s)" using store(1,2) by (metis nth_mem)
  have n: "nowMs \<le> dd_clock s" "loaded_between lc contents nowMs (dd_clock s) lines" using store(4) mem by (auto simp: dash_ok_def)
  then have "summary_between lc contents nowMs (dd_clock s) summary"
    using store(3) by (auto simp: summary_between_def getSummary_computed_def computeSummary_def Let_def)
  moreover have "set (take i (dd_pending s) @ drop (Suc i) (dd_pending s)) \<subseteq> set (dd_pending s)"
    by (simp add: set_take_subset set_drop_subset)
  then have "\<forall>(nowMs, r) \<in> set (take i (dd_pending s) @ drop (Suc i) (dd_pending s)).
      nowMs \<le> dd_clock s \<and> (\<forall>lines. r = Some lines \<longrightarrow> loaded_between lc contents nowMs (dd_clock s) lines)"
    using store(4) unfolding dash_ok_def by (meson subsetD)
  ultimately show ?case using n store(3,4)
    by (auto simp: dash_ok_def getSummary_computed_def Let_def simp del: set_append)
next
  case (drop_cache s)
  then show ?case by (simp add: dash_ok_def invalidate_def)
qed

lemma dash_reachable_ok: "(dash_step lc contents ttlMs)\<^sup>*\<^sup>* (dash_start t) s \<Longrightarrow> dash_ok lc contents ttlMs s"
  by (induction rule: rtranclp_induct) (simp add: dash_ok_def dash_start_def, blast intro: dash_ok_step)

text \<open>C24. The documented staleness window of the dashboard holds under every interleaving of reads, mutations and invalidations: whatever a reader who asked at
  \<open>asked\<close> was given, it is the aggregate of what the repository returned at a moment later than \<open>asked - ttlMs\<close> and no later than the answer.\<close>

theorem dashboard_staleness_window:
  assumes "(dash_step lc contents ttlMs)\<^sup>*\<^sup>* (dash_start t0) s" "(asked, got, summary) \<in> set (dd_served s)" "0 < ttlMs"
  shows "\<exists>t m generatedAt. asked - ttlMs < t \<and> t \<le> got \<and> contents t m \<and>
    summary = aggregate (InMemoryCreditLineRepository_findAll lc m None None) generatedAt"
proof -
  have "asked \<le> got \<and> (summary_between lc contents asked got summary \<or> summary_between lc contents (asked - ttlMs + 1) asked summary)"
    using dash_reachable_ok [OF assms(1)] assms(2) by (auto simp: dash_ok_def)
  then have "summary_between lc contents (asked - ttlMs + 1) got summary" using assms(3) by (auto elim: between_mono)
  then show ?thesis by (force simp: summary_between_def loaded_between_def)
qed

text \<open>An invalidation that arrives while a summary is being computed is lost: the old lines are stored afterwards and served to the next reader.\<close>

definition oldLines :: creditLineRepo where
  "oldLines = []"

lemma invalidation_during_computation_is_lost:
  "\<exists>s. (dash_step code_unit_compare (\<lambda>t m. (t = 0 \<and> m = oldLines) \<or> (t \<ge> 1 \<and> m = [(''L1'', exampleLine)])) DEFAULT_TTL_MS)\<^sup>*\<^sup>* (dash_start 0) s \<and>
     dd_clock s = 2 \<and> (\<exists>summary. getSummary_cached (dd_clock s) (dd_cache s) = Some summary \<and> da_totalCreditLines summary = 0)"
  (is "\<exists>s. ?step\<^sup>*\<^sup>* _ s \<and> _")
proof -
  have a: "?step (dash_start 0) \<lparr>dd_clock = 0, dd_cache = None, dd_pending = [(0, None)], dd_served = []\<rparr>"
    using dash_step.miss [of "dash_start 0"] by (simp add: dash_start_def getSummary_cached_def)
  have b: "?step \<lparr>dd_clock = 0, dd_cache = None, dd_pending = [(0, None)], dd_served = []\<rparr>
      \<lparr>dd_clock = 0, dd_cache = None, dd_pending = [(0, Some [])], dd_served = []\<rparr>"
    using dash_step.load [of 0 "\<lparr>dd_clock = 0, dd_cache = None, dd_pending = [(0, None)], dd_served = []\<rparr>" 0
        "\<lambda>t m. (t = 0 \<and> m = oldLines) \<or> (t \<ge> 1 \<and> m = [(''L1'', exampleLine)])" oldLines code_unit_compare DEFAULT_TTL_MS]
    by (simp add: oldLines_def InMemoryCreditLineRepository_findAll_def InMemoryCreditLineRepository_sortByNewest_def jsmap_values_def js_slice_def)
  have c: "?step \<lparr>dd_clock = 0, dd_cache = None, dd_pending = [(0, Some [])], dd_served = []\<rparr>
      \<lparr>dd_clock = 1, dd_cache = None, dd_pending = [(0, Some [])], dd_served = []\<rparr>"
    using dash_step.tick [of "\<lparr>dd_clock = 0, dd_cache = None, dd_pending = [(0, Some [])], dd_served = []\<rparr>" 1] by simp
  have d: "?step \<lparr>dd_clock = 1, dd_cache = None, dd_pending = [(0, Some [])], dd_served = []\<rparr>
      \<lparr>dd_clock = 1, dd_cache = None, dd_pending = [(0, Some [])], dd_served = []\<rparr>"
    using dash_step.drop_cache [of _ _ _ "\<lparr>dd_clock = 1, dd_cache = None, dd_pending = [(0, Some [])], dd_served = []\<rparr>"] by (simp add: invalidate_def)
  obtain summary cache where g: "getSummary_computed DEFAULT_TTL_MS 0 [] 1 = (summary, cache)" by fastforce
  let ?s = "\<lparr>dd_clock = 1, dd_cache = cache, dd_pending = [], dd_served = [(0, 1, summary)]\<rparr>"
  have e: "?step \<lparr>dd_clock = 1, dd_cache = None, dd_pending = [(0, Some [])], dd_served = []\<rparr> ?s"
    using dash_step.store [of 0 "\<lparr>dd_clock = 1, dd_cache = None, dd_pending = [(0, Some [])], dd_served = []\<rparr>" 0 "[]"] g by simp
  have f: "?step ?s (?s\<lparr>dd_clock := 2\<rparr>)" by (rule dash_step.tick) simp
  have "getSummary_cached 2 cache = Some summary" "da_totalCreditLines summary = 0"
    using g by (auto simp: getSummary_computed_def getSummary_cached_def computeSummary_def aggregate_def DEFAULT_TTL_MS_def Let_def)
  then show ?thesis using a b c d e f
    by (intro exI [of _ "?s\<lparr>dd_clock := 2\<rparr>"]) (auto intro: rtranclp.rtrancl_into_rtrancl)
qed
text \<open>The summary covers at most 100 credit lines, because \<open>findAll\<close> without arguments returns the first page: a portfolio of more lines is under-reported.\<close>

lemma dashboard_covers_100_lines:
  "da_totalCreditLines (aggregate (InMemoryCreditLineRepository_findAll lc m None None) generatedAt) = min 100 (jsmap_size m)"
  by (simp add: aggregate_def InMemoryCreditLineRepository_findAll_def InMemoryCreditLineRepository_sortByNewest_def Let_def js_slice_nat [of 0 100, simplified]
      jsmap_values_def jsmap_size_def case_prod_unfold)

section \<open>Witness\<close>

theorem dashboard_staleness_window_witness:
  "\<exists>t m generatedAt. 0 - DEFAULT_TTL_MS < t \<and> t \<le> (1::int) \<and> (t = 0 \<and> m = oldLines) \<and>
     aggregate [] (toISOString 1) = aggregate (InMemoryCreditLineRepository_findAll code_unit_compare m None None) generatedAt"
proof -
  let ?c = "\<lambda>t m. t = 0 \<and> m = oldLines"
  let ?p = "\<lambda>t r. \<lparr>dd_clock = t, dd_cache = None, dd_pending = [(0, r)], dd_served = []\<rparr>"
  let ?step = "dash_step code_unit_compare ?c DEFAULT_TTL_MS"
  have a: "?step (dash_start 0) (?p 0 None)"
    using dash_step.miss [of "dash_start 0"] by (simp add: dash_start_def getSummary_cached_def)
  have b: "?step (?p 0 None) (?p 0 (Some []))"
    using dash_step.load [of 0 "?p 0 None" 0 ?c oldLines code_unit_compare DEFAULT_TTL_MS]
    by (simp add: oldLines_def InMemoryCreditLineRepository_findAll_def InMemoryCreditLineRepository_sortByNewest_def jsmap_values_def js_slice_def)
  have c: "?step (?p 0 (Some [])) (?p 1 (Some []))" using dash_step.tick [of "?p 0 (Some [])" 1] by simp
  obtain cache where g: "getSummary_computed DEFAULT_TTL_MS 0 [] 1 = (aggregate [] (toISOString 1), cache)"
    by (simp add: getSummary_computed_def computeSummary_def Let_def)
  let ?s = "\<lparr>dd_clock = 1, dd_cache = cache, dd_pending = [], dd_served = [(0, 1, aggregate [] (toISOString 1))]\<rparr>"
  have e: "?step (?p 1 (Some [])) ?s" using dash_step.store [of 0 "?p 1 (Some [])" 0 "[]"] g by simp
  have "?step\<^sup>*\<^sup>* (dash_start 0) ?s" using a b c e by (auto intro: rtranclp.rtrancl_into_rtrancl)
  then show ?thesis
    by (rule dashboard_staleness_window) (simp_all add: DEFAULT_TTL_MS_def)
qed

end
