(* ===== verification/Migrations.thy ===== *)
theory Migrations
  imports Prelude HorizonListener
begin

text \<open>
  Schema migrations and their command line tools: \<open>db/migrations.ts\<close>, \<open>db/validate-schema.ts\<close>, \<open>db/migrate-cli.ts\<close> and \<open>db/validate-cli.ts\<close>. The catalogue holds
  what the code reads of the server: tables, columns, indexes of the schema \<open>public\<close> and the recorded versions. The server's execution of a script, the files and
  the faults of the connection are parameters (\<open>mig_env\<close>). What the tools print is left out; their exit code is kept.
\<close>

section \<open>Applying migrations\<close>

record catalog =
  ct_tables :: "string list"
  ct_columns :: "(string \<times> string) list"
  ct_indexes :: "(string \<times> string) list"
  ct_versions :: "string list option"

record mig_env =
  me_entries :: "js_error + (string \<times> bool) list"
  me_readFile :: "string \<Rightarrow> js_error + string"
  me_exec :: "string \<Rightarrow> catalog \<Rightarrow> (js_error + unit) \<times> catalog"
  me_insertFault :: "string \<Rightarrow> js_error option"
  me_catalogFault :: "js_error option"

definition EXPECTED_TABLES :: "string list" where
  "EXPECTED_TABLES = [''borrowers'', ''credit_lines'', ''risk_evaluations'', ''transactions'', ''events'', ''risk_signals'']"

definition ensureSchemaMigrations :: "mig_env \<Rightarrow> catalog \<Rightarrow> (js_error + unit) \<times> catalog" where
  "ensureSchemaMigrations env c =
     (case me_catalogFault env of
        Some e \<Rightarrow> (Inl e, c)
      | None \<Rightarrow> (Inr (), if ct_versions c = None then c\<lparr>ct_versions := Some []\<rparr> else c))"

definition js_endsWith :: "string \<Rightarrow> string \<Rightarrow> bool" where
  "js_endsWith s p \<longleftrightarrow> length p \<le> length s \<and> drop (length s - length p) s = p"

definition listMigrationFiles :: "mig_env \<Rightarrow> js_error + string list" where
  "listMigrationFiles env =
     ebind (me_entries env) (\<lambda>entries. Inr (js_sort code_unit_compare (map fst (filter (\<lambda>(name, isFile). isFile \<and> js_endsWith name ''.sql'') entries))))"

definition versionFromFilename :: "string \<Rightarrow> string" where
  "versionFromFilename filename = (if \<not> js_endsWith filename ''.sql'' then filename else take (length filename - 4) filename)"

text \<open>The rows come back in the order of the database's collation, which nothing below depends on.\<close>

definition getAppliedVersions :: "mig_env \<Rightarrow> catalog \<Rightarrow> (js_error + string list) \<times> catalog" where
  "getAppliedVersions env c =
     (case ensureSchemaMigrations env c of
        (Inl e, c') \<Rightarrow> (Inl e, c')
      | (Inr _, c') \<Rightarrow> (Inr (js_sort code_unit_compare (the (ct_versions c'))), c'))"

definition insertVersion :: "mig_env \<Rightarrow> string \<Rightarrow> catalog \<Rightarrow> (js_error + unit) \<times> catalog" where
  "insertVersion env version c =
     (case me_insertFault env version of
        Some e \<Rightarrow> (Inl e, c)
      | None \<Rightarrow>
         (case ct_versions c of
            None \<Rightarrow> (Inl (Error ''relation schema_migrations does not exist''), c)
          | Some vs \<Rightarrow> (Inr (), c\<lparr>ct_versions := Some (if version \<in> set vs then vs else vs @ [version])\<rparr>)))"

definition applyMigration :: "mig_env \<Rightarrow> string \<Rightarrow> catalog \<Rightarrow> (js_error + unit) \<times> catalog" where
  "applyMigration env filename c =
     (case me_readFile env filename of
        Inl e \<Rightarrow> (Inl e, c)
      | Inr sql \<Rightarrow>
         (case me_exec env sql c of
            (Inl e, c') \<Rightarrow> (Inl e, c')
          | (Inr _, c') \<Rightarrow> insertVersion env (versionFromFilename filename) c'))"

fun apply_pending :: "mig_env \<Rightarrow> string list \<Rightarrow> string list \<Rightarrow> string list \<Rightarrow> catalog \<Rightarrow> (js_error + string list) \<times> catalog" where
  "apply_pending env [] appliedSet run c = (Inr run, c)"
| "apply_pending env (file # files) appliedSet run c =
     (let version = versionFromFilename file in
      if version \<in> set appliedSet then apply_pending env files appliedSet run c
      else (case applyMigration env file c of
              (Inl e, c') \<Rightarrow> (Inl e, c')
            | (Inr _, c') \<Rightarrow> apply_pending env files (version # appliedSet) (run @ [version]) c'))"

definition runPendingMigrations :: "mig_env \<Rightarrow> catalog \<Rightarrow> (js_error + string list) \<times> catalog" where
  "runPendingMigrations env c =
     (case getAppliedVersions env c of
        (Inl e, c') \<Rightarrow> (Inl e, c')
      | (Inr applied, c') \<Rightarrow>
         (case listMigrationFiles env of
            Inl e \<Rightarrow> (Inl e, c')
          | Inr files \<Rightarrow> apply_pending env files applied [] c'))"

section \<open>Validating the schema\<close>

definition REQUIRED_COLUMNS :: "(string \<times> string list) list" where
  "REQUIRED_COLUMNS =
     [(''borrowers'', [''id'', ''wallet_address'', ''created_at'']),
      (''credit_lines'', [''id'', ''borrower_id'', ''credit_limit'', ''currency'', ''status'', ''created_at'']),
      (''risk_evaluations'', [''id'', ''borrower_id'', ''risk_score'', ''suggested_limit'', ''interest_rate_bps'', ''evaluated_at'']),
      (''transactions'', [''id'', ''credit_line_id'', ''type'', ''amount'', ''currency'', ''created_at'']),
      (''events'', [''id'', ''event_type'', ''created_at'']),
      (''risk_signals'', [''id'', ''signal_type'', ''rule_id'', ''severity'', ''wallet_address'', ''correlation_id'', ''thresholds'', ''evidence'', ''status'',
         ''created_at''])]"

definition REQUIRED_INDEXES :: "(string \<times> string list) list" where
  "REQUIRED_INDEXES =
     [(''borrowers'', [''borrowers_wallet_address_key'']), (''credit_lines'', [''credit_lines_borrower_id_idx'', ''credit_lines_status_idx'']),
      (''risk_evaluations'', [''risk_evaluations_borrower_id_idx'']), (''transactions'', [''transactions_credit_line_id_idx'']),
      (''events'', [''events_idempotency_key_key'']), (''risk_signals'', [''risk_signals_wallet_address_idx'', ''risk_signals_created_at_idx''])]"

definition missingTables :: "catalog \<Rightarrow> string list \<Rightarrow> string list" where
  "missingTables c tables = (let found = filter (\<lambda>t. t \<in> set tables) (ct_tables c) in filter (\<lambda>t. t \<notin> set found) tables)"

definition missingColumns :: "catalog \<Rightarrow> string \<Rightarrow> string list \<Rightarrow> string list" where
  "missingColumns c tableName required =
     (let found = map snd (filter (\<lambda>(t, col). t = tableName \<and> col \<in> set required) (ct_columns c)) in filter (\<lambda>col. col \<notin> set found) required)"

definition missingIndexes :: "catalog \<Rightarrow> string \<Rightarrow> string list \<Rightarrow> string list" where
  "missingIndexes c tableName required =
     (let found = map snd (filter (\<lambda>(t, i). t = tableName \<and> i \<in> set required) (ct_indexes c)) in filter (\<lambda>i. i \<notin> set found) required)"

record SchemaValidationError =
  se_message :: string
  se_missingTables :: "string list option"
  se_missingColumns :: "(string \<times> string) list option"
  se_missingIndexes :: "(string \<times> string) list option"

definition listed :: "string \<Rightarrow> (string \<times> string) list \<Rightarrow> string list" where
  "listed prefix ms = (if ms = [] then [] else [prefix @ js_join '', '' (map (\<lambda>(t, x). t @ ''.'' @ x) ms)])"

definition nonempty :: "'a list \<Rightarrow> 'a list option" where
  "nonempty xs = (if xs = [] then None else Some xs)"

definition validateSchema :: "bool \<Rightarrow> bool \<Rightarrow> catalog \<Rightarrow> SchemaValidationError + unit" where
  "validateSchema skipColumnCheck skipIndexCheck c =
     (let missing = missingTables c EXPECTED_TABLES;
          cols = (if \<not> skipColumnCheck \<and> missing = [] then
                    concat (map (\<lambda>(t, columns). map (Pair t) (missingColumns c t columns)) REQUIRED_COLUMNS) else []);
          idxs = (if \<not> skipIndexCheck \<and> missing = [] then
                    concat (map (\<lambda>(t, indexes). map (Pair t) (missingIndexes c t indexes)) REQUIRED_INDEXES) else []);
          errors = (if missing = [] then [] else [''Missing tables: '' @ js_join '', '' missing]) @
                   listed ''Missing required columns: '' cols @ listed ''Missing critical indexes: '' idxs
      in if errors \<noteq> [] then
           Inl \<lparr>se_message = js_join ''; '' errors, se_missingTables = nonempty missing, se_missingColumns = nonempty cols, se_missingIndexes = nonempty idxs\<rparr>
         else Inr ())"

section \<open>The command line tools\<close>

record CliArgs =
  ca_dryRun :: bool
  ca_force :: bool
  ca_env :: string
  ca_help :: bool

fun parse_flags :: "string list \<Rightarrow> CliArgs \<Rightarrow> CliArgs" where
  "parse_flags [] result = result"
| "parse_flags (arg # args) result =
     (if arg = ''--dry-run'' \<or> arg = ''-n'' then parse_flags args (result\<lparr>ca_dryRun := True\<rparr>)
      else if arg = ''--force'' \<or> arg = ''-f'' then parse_flags args (result\<lparr>ca_force := True\<rparr>)
      else if arg = ''--env'' then
        (case args of [] \<Rightarrow> result | v # rest \<Rightarrow> parse_flags rest (result\<lparr>ca_env := v\<rparr>))
      else if arg = ''--help'' \<or> arg = ''-h'' then parse_flags args (result\<lparr>ca_help := True\<rparr>)
      else if starts_with ''--env='' arg then parse_flags args (result\<lparr>ca_env := js_split (CHR ''='') arg ! 1\<rparr>)
      else parse_flags args result)"

definition parseArgs :: "string option \<Rightarrow> string list \<Rightarrow> CliArgs" where
  "parseArgs nodeEnv args = parse_flags args
     \<lparr>ca_dryRun = False, ca_force = False, ca_env = (case nodeEnv of Some e \<Rightarrow> if e \<noteq> [] then e else ''development'' | None \<Rightarrow> ''development''), ca_help = False\<rparr>"

definition isProductionLike :: "string \<Rightarrow> bool" where
  "isProductionLike env =
     (let normalizedEnv = js_toLowerCase env
      in js_includes normalizedEnv ''prod'' \<or> js_includes normalizedEnv ''stage'' \<or> normalizedEnv = ''production'' \<or> normalizedEnv = ''staging'')"

definition confirmDestructiveOperation :: "string \<Rightarrow> string \<Rightarrow> bool" where
  "confirmDestructiveOperation env answer =
     (if js_toLowerCase env = ''production'' then js_trim answer = ''MIGRATE PRODUCTION''
      else let normalized = js_toLowerCase (js_trim answer) in normalized = ''yes'' \<or> normalized = ''y'')"

text \<open>The main functions: \<open>online\<close> says whether connecting and \<open>SELECT 1\<close> succeed, \<open>answer\<close> is the line typed at the prompt.\<close>

definition migrate_main :: "mig_env \<Rightarrow> CliArgs \<Rightarrow> bool \<Rightarrow> string \<Rightarrow> catalog \<Rightarrow> int \<times> catalog" where
  "migrate_main env args online answer c =
     (if ca_help args then (0, c)
      else if isProductionLike (ca_env args) \<and> \<not> ca_force args then (1, c)
      else if \<not> online then (1, c)
      else if ca_dryRun args then (0, c)
      else if isProductionLike (ca_env args) \<and> \<not> confirmDestructiveOperation (ca_env args) answer then (1, c)
      else (case runPendingMigrations env c of (Inl _, c') \<Rightarrow> (1, c') | (Inr _, c') \<Rightarrow> (0, c')))"

definition validate_main :: "mig_env \<Rightarrow> (string \<Rightarrow> string option) \<Rightarrow> bool \<Rightarrow> catalog \<Rightarrow> int \<times> catalog" where
  "validate_main env processEnv online c =
     (if (case processEnv ''DATABASE_URL'' of None \<Rightarrow> True | Some u \<Rightarrow> u = []) then (1, c)
      else if \<not> online then (1, c)
      else (case runPendingMigrations env c of
              (Inl _, c') \<Rightarrow> (1, c')
            | (Inr _, c') \<Rightarrow>
               (case validateSchema (processEnv ''SKIP_COLUMN_CHECK'' = Some ''true'') (processEnv ''SKIP_INDEX_CHECK'' = Some ''true'') c' of
                  Inl _ \<Rightarrow> (1, c') | Inr _ \<Rightarrow> (0, c'))))"

section \<open>Each file once, in order\<close>

definition recorded :: "catalog \<Rightarrow> string set" where
  "recorded c = (case ct_versions c of None \<Rightarrow> {} | Some vs \<Rightarrow> set vs)"

text \<open>Migration scripts do not remove recorded versions.\<close>

definition keeps_versions :: "mig_env \<Rightarrow> bool" where
  "keeps_versions env \<longleftrightarrow> (\<forall>sql c c'. me_exec env sql c = (Inr (), c') \<longrightarrow> ct_versions c \<noteq> None \<longrightarrow> ct_versions c' \<noteq> None \<and> recorded c \<subseteq> recorded c')"

definition pending_versions :: "string list \<Rightarrow> string set \<Rightarrow> string list" where
  "pending_versions files applied = filter (\<lambda>v. v \<notin> applied) (map versionFromFilename files)"

lemma endsWith_split: "js_endsWith f ''.sql'' \<Longrightarrow> f = versionFromFilename f @ ''.sql''"
proof -
  assume "js_endsWith f ''.sql''"
  then have "drop (length f - 4) f = ''.sql''" "4 \<le> length f" by (simp_all add: js_endsWith_def numeral_eq_Suc)
  then show ?thesis using \<open>js_endsWith f ''.sql''\<close> append_take_drop_id [of "length f - 4" f] by (simp add: versionFromFilename_def)
qed

lemma versionFromFilename_inj: "js_endsWith f ''.sql'' \<Longrightarrow> js_endsWith g ''.sql'' \<Longrightarrow> versionFromFilename f = versionFromFilename g \<Longrightarrow> f = g"
  by (metis endsWith_split)

lemma applyMigration_records:
  assumes "keeps_versions env" "applyMigration env file c = (Inr (), c')" "ct_versions c \<noteq> None"
  shows "ct_versions c' \<noteq> None \<and> recorded c \<subseteq> recorded c' \<and> versionFromFilename file \<in> recorded c'"
proof -
  obtain sql c1 where s: "me_exec env sql c = (Inr (), c1)" "insertVersion env (versionFromFilename file) c1 = (Inr (), c')"
    using assms(2) by (auto simp: applyMigration_def split: sum.splits prod.splits)
  then have "ct_versions c1 \<noteq> None" and k: "recorded c \<subseteq> recorded c1" using assms(1,3) by (simp_all add: keeps_versions_def)
  then obtain vs where vs: "ct_versions c1 = Some vs" by blast
  then have "recorded c' = insert (versionFromFilename file) (recorded c1) \<and> ct_versions c' \<noteq> None"
    using s(2) by (auto simp: insertVersion_def recorded_def split: option.splits if_splits)
  with k show ?thesis by blast
qed

lemma apply_pending_result:
  assumes "keeps_versions env" "ct_versions c \<noteq> None" "apply_pending env files appliedSet run c = (Inr run', c')" "set appliedSet \<subseteq> recorded c"
    and "distinct (map versionFromFilename files)"
  shows "run' = run @ pending_versions files (set appliedSet) \<and> ct_versions c' \<noteq> None \<and> recorded c \<union> versionFromFilename ` set files \<subseteq> recorded c'"
  using assms(2-)
proof (induction files arbitrary: appliedSet run c)
  case (Cons fl files)
  show ?case
  proof (cases "versionFromFilename fl \<in> set appliedSet")
    case True
    then have "apply_pending env files appliedSet run c = (Inr run', c')" using Cons.prems(2) by simp
    from Cons.IH [OF Cons.prems(1) this Cons.prems(3)] Cons.prems(3,4) True show ?thesis by (auto simp: pending_versions_def)
  next
    case False
    then obtain c1 where c1: "applyMigration env fl c = (Inr (), c1)"
      "apply_pending env files (versionFromFilename fl # appliedSet) (run @ [versionFromFilename fl]) c1 = (Inr run', c')"
      using Cons.prems(2) by (auto simp: Let_def split: prod.splits sum.splits)
    note r = applyMigration_records [OF assms(1) c1(1) Cons.prems(1)]
    have "set (versionFromFilename fl # appliedSet) \<subseteq> recorded c1" using r Cons.prems(3) by auto
    from Cons.IH [OF conjunct1 [OF r] c1(2) this] Cons.prems(4)
    have "run' = (run @ [versionFromFilename fl]) @ pending_versions files (set (versionFromFilename fl # appliedSet))"
      "ct_versions c' \<noteq> None" "recorded c1 \<union> versionFromFilename ` set files \<subseteq> recorded c'" by auto
    moreover have "pending_versions files (set (versionFromFilename fl # appliedSet)) = pending_versions files (set appliedSet)"
      using Cons.prems(4) by (auto simp: pending_versions_def intro!: filter_cong)
    ultimately show ?thesis using r False by (auto simp: pending_versions_def)
  qed
qed (simp add: pending_versions_def)

text \<open>What a run should do to the database, without reference to how the tool goes about it: the script of each file, read from the directory, is executed once and with
  success on what the scripts before it left, and after each script its version is on record.\<close>

definition on_record :: "string \<Rightarrow> catalog \<Rightarrow> catalog" where
  "on_record v c = c\<lparr>ct_versions := map_option (\<lambda>vs. if v \<in> set vs then vs else vs @ [v]) (ct_versions c)\<rparr>"

fun scripts_executed :: "mig_env \<Rightarrow> string list \<Rightarrow> catalog \<Rightarrow> catalog \<Rightarrow> bool" where
  "scripts_executed env [] c c' \<longleftrightarrow> c' = c"
| "scripts_executed env (f # fs) c c' \<longleftrightarrow>
     (\<exists>sql c1. me_readFile env f = Inr sql \<and> me_exec env sql c = (Inr (), c1) \<and> scripts_executed env fs (on_record (versionFromFilename f) c1) c')"

lemma applyMigration_executes:
  assumes "applyMigration env file c = (Inr (), c')"
  obtains sql c1 where "me_readFile env file = Inr sql" "me_exec env sql c = (Inr (), c1)" "c' = on_record (versionFromFilename file) c1"
  using assms that by (auto simp: applyMigration_def insertVersion_def on_record_def split: sum.splits prod.splits option.splits)

lemma apply_pending_executes:
  assumes "apply_pending env files appliedSet run c = (Inr run', c')" "distinct (map versionFromFilename files)"
  shows "scripts_executed env (filter (\<lambda>f. versionFromFilename f \<notin> set appliedSet) files) c c'"
  using assms
proof (induction files arbitrary: appliedSet run c)
  case (Cons fl files)
  show ?case
  proof (cases "versionFromFilename fl \<in> set appliedSet")
    case True
    then show ?thesis using Cons by simp
  next
    case False
    then obtain c1 where c1: "applyMigration env fl c = (Inr (), c1)"
      "apply_pending env files (versionFromFilename fl # appliedSet) (run @ [versionFromFilename fl]) c1 = (Inr run', c')"
      using Cons.prems(1) by (auto simp: Let_def split: prod.splits sum.splits)
    have "filter (\<lambda>f. versionFromFilename f \<notin> set (versionFromFilename fl # appliedSet)) files = filter (\<lambda>f. versionFromFilename f \<notin> set appliedSet) files"
      using Cons.prems(2) by (intro filter_cong) (auto simp: image_iff)
    then have "scripts_executed env (filter (\<lambda>f. versionFromFilename f \<notin> set appliedSet) files) c1 c'"
      using Cons.IH [OF c1(2)] Cons.prems(2) by simp
    moreover obtain sql c2 where "me_readFile env fl = Inr sql" "me_exec env sql c = (Inr (), c2)" "c1 = on_record (versionFromFilename fl) c2"
      by (rule applyMigration_executes [OF c1(1)])
    ultimately show ?thesis using False by auto
  qed
qed simp

lemma apply_pending_none: "versionFromFilename ` set files \<subseteq> set appliedSet \<Longrightarrow> apply_pending env files appliedSet run c = (Inr run, c)"
  by (induction files) (simp_all add: Let_def)

lemma getAppliedVersions_ok:
  "me_catalogFault env = None \<Longrightarrow> \<exists>vs. getAppliedVersions env c = (Inr vs, if ct_versions c = None then c\<lparr>ct_versions := Some []\<rparr> else c) \<and> set vs = recorded c"
  by (auto simp: getAppliedVersions_def ensureSchemaMigrations_def recorded_def)

lemma sorted_files:
  assumes "listMigrationFiles env = Inr files" "me_entries env = Inr entries" "distinct (map fst entries)"
  shows "sorted_wrt (\<lambda>a b. code_unit_compare a b \<le> 0) files" "distinct (map versionFromFilename files)"
    "set files = {name. (name, True) \<in> set entries \<and> js_endsWith name ''.sql''}"
proof -
  let ?fs = "map fst (filter (\<lambda>(name, isFile). isFile \<and> js_endsWith name ''.sql'') entries)"
  have f: "files = js_sort code_unit_compare ?fs" using assms(1,2) by (simp add: listMigrationFiles_def)
  then show "sorted_wrt (\<lambda>a b. code_unit_compare a b \<le> 0) files" by (simp add: cu.sorted_js_sort)
  show s: "set files = {name. (name, True) \<in> set entries \<and> js_endsWith name ''.sql''}" by (force simp: f)
  have "distinct files" using assms(3) by (simp add: f distinct_map_filter)
  moreover have "inj_on versionFromFilename (set files)" unfolding s by (auto intro!: inj_onI versionFromFilename_inj)
  ultimately show "distinct (map versionFromFilename files)" by (simp add: distinct_map)
qed

section \<open>Properties\<close>

lemma missingTables_none: "missingTables c ts = [] \<longleftrightarrow> set ts \<subseteq> set (ct_tables c)"
  by (auto simp: missingTables_def filter_empty_conv)

lemma missingColumns_none: "missingColumns c t cols = [] \<longleftrightarrow> Pair t ` set cols \<subseteq> set (ct_columns c)"
  by (force simp: missingColumns_def filter_empty_conv)

lemma missingIndexes_none: "missingIndexes c t idxs = [] \<longleftrightarrow> Pair t ` set idxs \<subseteq> set (ct_indexes c)"
  by (force simp: missingIndexes_def filter_empty_conv)

definition schema_complete :: "bool \<Rightarrow> bool \<Rightarrow> catalog \<Rightarrow> bool" where
  "schema_complete skipColumnCheck skipIndexCheck c \<longleftrightarrow>
     set EXPECTED_TABLES \<subseteq> set (ct_tables c) \<and>
     (skipColumnCheck \<or> list_all (\<lambda>(t, cols). Pair t ` set cols \<subseteq> set (ct_columns c)) REQUIRED_COLUMNS) \<and>
     (skipIndexCheck \<or> list_all (\<lambda>(t, idxs). Pair t ` set idxs \<subseteq> set (ct_indexes c)) REQUIRED_INDEXES)"

lemma validateSchema_iff: "validateSchema sc si c = Inr () \<longleftrightarrow> schema_complete sc si c"
proof -
  have "(concat (map (\<lambda>(t, xs). map (Pair t) (missingColumns c t xs)) rs) = []) = list_all (\<lambda>(t, xs). Pair t ` set xs \<subseteq> set (ct_columns c)) rs" for rs
    by (auto simp: list_all_iff missingColumns_none case_prod_unfold image_subset_iff)
  moreover have "(concat (map (\<lambda>(t, xs). map (Pair t) (missingIndexes c t xs)) rs) = []) = list_all (\<lambda>(t, xs). Pair t ` set xs \<subseteq> set (ct_indexes c)) rs" for rs
    by (auto simp: list_all_iff missingIndexes_none case_prod_unfold image_subset_iff)
  ultimately show ?thesis
    unfolding validateSchema_def schema_complete_def Let_def missingTables_none [symmetric] listed_def
    by (cases "missingTables c EXPECTED_TABLES = []"; cases sc; cases si) (simp_all del: concat_eq_Nil_conv)
qed

lemma runPending_result:
  assumes "keeps_versions env" "me_entries env = Inr entries" "distinct (map fst entries)" "runPendingMigrations env c = (Inr run, c')"
  obtains files where "listMigrationFiles env = Inr files" "run = pending_versions files (recorded c)" "ct_versions c' \<noteq> None"
    "recorded c \<union> versionFromFilename ` set files \<subseteq> recorded c'" "me_catalogFault env = None"
    "scripts_executed env (filter (\<lambda>f. versionFromFilename f \<notin> recorded c) files) (if ct_versions c = None then c\<lparr>ct_versions := Some []\<rparr> else c) c'"
proof -
  have nf: "me_catalogFault env = None" using assms(4)
    by (auto simp: runPendingMigrations_def getAppliedVersions_def ensureSchemaMigrations_def split: option.splits)
  obtain vs where vs: "getAppliedVersions env c = (Inr vs, if ct_versions c = None then c\<lparr>ct_versions := Some []\<rparr> else c)" "set vs = recorded c"
    using getAppliedVersions_ok [OF nf] by blast
  define c0 where "c0 = (if ct_versions c = None then c\<lparr>ct_versions := Some []\<rparr> else c)"
  obtain files where f: "listMigrationFiles env = Inr files" using assms(2) by (simp add: listMigrationFiles_def)
  have r: "apply_pending env files vs [] c0 = (Inr run, c')" using assms(4) vs(1) f by (simp add: runPendingMigrations_def c0_def split: if_splits)
  have c0: "ct_versions c0 \<noteq> None" "recorded c0 = recorded c" by (auto simp: c0_def recorded_def)
  have "run = [] @ pending_versions files (set vs) \<and> ct_versions c' \<noteq> None \<and> recorded c0 \<union> versionFromFilename ` set files \<subseteq> recorded c'"
    by (rule apply_pending_result [OF assms(1) c0(1) r]) (use vs(2) c0(2) sorted_files [OF f assms(2,3)] in simp_all)
  moreover have "scripts_executed env (filter (\<lambda>f. versionFromFilename f \<notin> set vs) files) c0 c'"
    by (rule apply_pending_executes [OF r]) (use sorted_files [OF f assms(2,3)] in simp)
  ultimately show ?thesis using f nf c0(2) vs(2) unfolding c0_def by (intro that [of files]) simp_all
qed

text \<open>C27. Migrations run once and in file order. When a run succeeds, the versions it reports are exactly those of the directory's \<open>.sql\<close> files that were not
  recorded before, in the order of the sorted file names; the database it leaves is the one obtained by executing the scripts of exactly those files, each once and in
  that order, with each version put on record after its script; afterwards every file's version is recorded and nothing recorded is lost, and a second run applies
  nothing and leaves the database as it is. (Scripts are assumed not to delete recorded versions. A failed run may leave a script executed but unrecorded: see
  \<open>unrecorded_script_runs_again\<close>.)\<close>

theorem migrations_run_once_in_order:
  assumes "keeps_versions env" "me_entries env = Inr entries" "distinct (map fst entries)" "runPendingMigrations env c = (Inr run, c')"
  shows "\<exists>files. sorted_wrt (\<lambda>a b. code_unit_compare a b \<le> 0) files \<and> set files = {name. (name, True) \<in> set entries \<and> js_endsWith name ''.sql''} \<and>
      run = filter (\<lambda>v. v \<notin> recorded c) (map versionFromFilename files) \<and> distinct run \<and>
      scripts_executed env (filter (\<lambda>f. versionFromFilename f \<notin> recorded c) files) (if ct_versions c = None then c\<lparr>ct_versions := Some []\<rparr> else c) c' \<and>
      recorded c \<union> versionFromFilename ` set files \<subseteq> recorded c' \<and> runPendingMigrations env c' = (Inr [], c')"
proof -
  obtain files where f: "listMigrationFiles env = Inr files" "run = pending_versions files (recorded c)" "ct_versions c' \<noteq> None"
    "recorded c \<union> versionFromFilename ` set files \<subseteq> recorded c'" "me_catalogFault env = None"
    "scripts_executed env (filter (\<lambda>f. versionFromFilename f \<notin> recorded c) files) (if ct_versions c = None then c\<lparr>ct_versions := Some []\<rparr> else c) c'"
    by (rule runPending_result [OF assms])
  note s = sorted_files [OF f(1) assms(2,3)]
  obtain vs where "getAppliedVersions env c' = (Inr vs, c')" "set vs = recorded c'" using getAppliedVersions_ok [OF f(5), of c'] f(3) by auto
  then have "runPendingMigrations env c' = (Inr [], c')" using f(1,4) by (simp add: runPendingMigrations_def apply_pending_none)
  then show ?thesis using f s by (intro exI [of _ files]) (simp add: pending_versions_def)
qed

text \<open>The deployment tools are guarded. The migration tool changes the database only when it was not asked for help or a dry run, and on an environment whose
  name looks like production or staging only with \<open>--force\<close> and the typed confirmation, which for \<open>production\<close> is the full phrase. The validation tool reports
  success exactly when a database address is set, the connection works, the pending migrations apply and the resulting schema has every expected table and, unless
  skipped, every required column and index.\<close>

theorem deployment_tools_guarded:
  "(snd (migrate_main env args online answer c) = c \<or>
    (online \<and> \<not> ca_help args \<and> \<not> ca_dryRun args \<and>
     (if isProductionLike (ca_env args) then ca_force args \<and> confirmDestructiveOperation (ca_env args) answer else True) \<and>
     (if js_toLowerCase (ca_env args) = ''production'' then ca_force args \<and> js_trim answer = ''MIGRATE PRODUCTION'' else True))) \<and>
   (fst (validate_main env processEnv online c) = 0) =
     ((\<exists>u. processEnv ''DATABASE_URL'' = Some u \<and> u \<noteq> []) \<and> online \<and>
      (\<exists>run c'. runPendingMigrations env c = (Inr run, c') \<and>
         schema_complete (processEnv ''SKIP_COLUMN_CHECK'' = Some ''true'') (processEnv ''SKIP_INDEX_CHECK'' = Some ''true'') c'))"
proof (intro conjI)
  have p: "js_toLowerCase e = ''production'' \<Longrightarrow> isProductionLike e" for e by (simp add: isProductionLike_def)
  show "snd (migrate_main env args online answer c) = c \<or>
    (online \<and> \<not> ca_help args \<and> \<not> ca_dryRun args \<and>
     (if isProductionLike (ca_env args) then ca_force args \<and> confirmDestructiveOperation (ca_env args) answer else True) \<and>
     (if js_toLowerCase (ca_env args) = ''production'' then ca_force args \<and> js_trim answer = ''MIGRATE PRODUCTION'' else True))"
    using p [of "ca_env args"] by (auto simp: migrate_main_def confirmDestructiveOperation_def)
  show "(fst (validate_main env processEnv online c) = 0) =
     ((\<exists>u. processEnv ''DATABASE_URL'' = Some u \<and> u \<noteq> []) \<and> online \<and>
      (\<exists>run c'. runPendingMigrations env c = (Inr run, c') \<and>
         schema_complete (processEnv ''SKIP_COLUMN_CHECK'' = Some ''true'') (processEnv ''SKIP_INDEX_CHECK'' = Some ''true'') c'))"
    unfolding validateSchema_iff [symmetric] by (auto simp: validate_main_def split: option.splits sum.splits prod.splits)
qed

text \<open>The script and its record are two statements outside a transaction: when the second fails, the script has run but counts as pending, and the next run executes it
  again.\<close>

lemma unrecorded_script_runs_again:
  assumes "me_readFile env fl = Inr sql" "me_exec env sql c = (Inr (), c1)" "me_insertFault env (versionFromFilename fl) = Some e"
  shows "applyMigration env fl c = (Inl e, c1)"
  using assms by (simp add: applyMigration_def insertVersion_def)

section \<open>Witness\<close>

definition exampleMigEnv :: mig_env where
  "exampleMigEnv = \<lparr>me_entries = Inr [(''002_b.sql'', True), (''README.md'', True), (''001_a.sql'', True)], me_readFile = (\<lambda>f. Inr f),
     me_exec = (\<lambda>sql c. (Inr (), c\<lparr>ct_tables := sql # ct_tables c\<rparr>)), me_insertFault = (\<lambda>_. None), me_catalogFault = None\<rparr>"

definition emptyCatalog :: catalog where
  "emptyCatalog = \<lparr>ct_tables = [], ct_columns = [], ct_indexes = [], ct_versions = None\<rparr>"

lemma example_run:
  "runPendingMigrations exampleMigEnv emptyCatalog =
     (Inr [''001_a'', ''002_b''], \<lparr>ct_tables = [''002_b.sql'', ''001_a.sql''], ct_columns = [], ct_indexes = [], ct_versions = Some [''001_a'', ''002_b'']\<rparr>)"
  by code_simp

theorem migrations_run_once_in_order_witness:
  "runPendingMigrations exampleMigEnv (snd (runPendingMigrations exampleMigEnv emptyCatalog)) = (Inr [], snd (runPendingMigrations exampleMigEnv emptyCatalog)) \<and>
   distinct [''001_a'', ''002_b'']"
proof -
  have "keeps_versions exampleMigEnv" by (auto simp: keeps_versions_def exampleMigEnv_def recorded_def)
  moreover have "me_entries exampleMigEnv = Inr [(''002_b.sql'', True), (''README.md'', True), (''001_a.sql'', True)]" by (simp add: exampleMigEnv_def)
  ultimately show ?thesis using migrations_run_once_in_order [OF _ _ _ example_run] unfolding example_run by auto
qed

end
