(* ===== verification/PgIdempotency.thy ===== *)
theory PgIdempotency
  imports Idempotency
begin

text \<open>
  The Postgres idempotency store (\<open>PostgresIdempotencyStore\<close> of \<open>src/services/idempotencyStore.ts\<close>). Each statement is atomic in the database; between its statements a
  \<open>begin\<close> awaits, and other requests, of this or of other processes, run theirs. Expiry is compared with the database's clock in microseconds; \<open>expires_at\<close> is set from the
  client's clock in milliseconds. \<open>jsonb\<close> is what the column of that type makes of a value.
\<close>

section \<open>Statements\<close>

record idempotency_row =
  ik_token :: string
  ik_key_hash :: string
  ik_scope :: string
  ik_principal_hash :: string
  ik_request_hash :: string
  ik_completed :: bool
  ik_response_status :: "int option"
  ik_response_body :: json
  ik_expires_at :: int

definition row_key :: "idempotency_row \<Rightarrow> string \<times> string \<times> string" where
  "row_key r = (ik_key_hash r, ik_scope r, ik_principal_hash r)"

definition entry_key :: "IdempotencyEntry \<Rightarrow> string \<times> string \<times> string" where
  "entry_key e = (ie_keyHash e, ie_scope e, ie_principalHash e)"

definition pg_deleteExpired :: "int \<Rightarrow> idempotency_row list \<Rightarrow> idempotency_row list" where
  "pg_deleteExpired dbNow rows = filter (\<lambda>r. \<not> ik_expires_at r \<le> dbNow) rows"

text \<open>\<open>INSERT \<dots> ON CONFLICT DO NOTHING RETURNING token\<close>: whether a row was inserted.\<close>

definition pg_insert :: "string \<Rightarrow> IdempotencyEntry \<Rightarrow> int \<Rightarrow> idempotency_row list \<Rightarrow> bool \<times> idempotency_row list" where
  "pg_insert token entry expiresAt rows =
     (if list_ex (\<lambda>r. row_key r = entry_key entry) rows then (False, rows)
      else (True, rows @ [\<lparr>ik_token = token, ik_key_hash = ie_keyHash entry, ik_scope = ie_scope entry, ik_principal_hash = ie_principalHash entry,
             ik_request_hash = ie_requestHash entry, ik_completed = False, ik_response_status = None, ik_response_body = JNull, ik_expires_at = expiresAt\<rparr>]))"

definition pg_select :: "IdempotencyEntry \<Rightarrow> idempotency_row list \<Rightarrow> idempotency_row option" where
  "pg_select entry rows = find (\<lambda>r. row_key r = entry_key entry) rows"

definition pg_answer :: "IdempotencyEntry \<Rightarrow> idempotency_row \<Rightarrow> IdempotencyBeginResult" where
  "pg_answer entry row =
     (if ik_request_hash row \<noteq> ie_requestHash entry then Conflict
      else if ik_completed row then
        (case ik_response_status row of
           Some status \<Rightarrow> Replay \<lparr>cr_statusCode = status, cr_body = ik_response_body row\<rparr>
         | None \<Rightarrow> InProgress)
      else InProgress)"

definition PostgresIdempotencyStore_complete :: "(json \<Rightarrow> json) \<Rightarrow> string \<Rightarrow> CachedIdempotencyResponse \<Rightarrow> idempotency_row list \<Rightarrow> idempotency_row list" where
  "PostgresIdempotencyStore_complete jsonb token response rows =
     map (\<lambda>r. if ik_token r = token
          then r\<lparr>ik_completed := True, ik_response_status := Some (cr_statusCode response), ik_response_body := jsonb (cr_body response)\<rparr> else r) rows"

definition PostgresIdempotencyStore_fail :: "string \<Rightarrow> idempotency_row list \<Rightarrow> idempotency_row list" where
  "PostgresIdempotencyStore_fail token rows = filter (\<lambda>r. \<not> (ik_token r = token \<and> \<not> ik_completed r)) rows"

section \<open>Begin, one statement at a time\<close>

datatype begin_phase = ToDelete | ToInsert | ToSelect | Answered IdempotencyBeginResult

record begin_call =
  bc_entry :: IdempotencyEntry
  bc_phase :: begin_phase

text \<open>\<open>token\<close> and \<open>clientNow\<close> are the identifier and the time the client draws before the insert. A row that is gone at the select starts the call over.\<close>

definition PostgresIdempotencyStore_begin_step ::
  "int \<Rightarrow> string \<Rightarrow> time \<Rightarrow> int \<Rightarrow> begin_call \<Rightarrow> idempotency_row list \<Rightarrow> begin_call \<times> idempotency_row list" where
  "PostgresIdempotencyStore_begin_step ttlMs token clientNow dbNow call rows =
     (case bc_phase call of
        ToDelete \<Rightarrow> (call\<lparr>bc_phase := ToInsert\<rparr>, pg_deleteExpired dbNow rows)
      | ToInsert \<Rightarrow>
         (case pg_insert token (bc_entry call) (1000 * (clientNow + ttlMs)) rows of
            (True, rows') \<Rightarrow> (call\<lparr>bc_phase := Answered (Started token)\<rparr>, rows')
          | (False, rows') \<Rightarrow> (call\<lparr>bc_phase := ToSelect\<rparr>, rows'))
      | ToSelect \<Rightarrow>
         (case pg_select (bc_entry call) rows of
            None \<Rightarrow> (call\<lparr>bc_phase := ToDelete\<rparr>, rows)
          | Some row \<Rightarrow> (call\<lparr>bc_phase := Answered (pg_answer (bc_entry call) row)\<rparr>, rows))
      | Answered _ \<Rightarrow> (call, rows))"

text \<open>A start: the token, its key, the database time, the expiry, and the tokens that had failed by then.\<close>

record idem_start =
  st_token :: string
  st_key :: "string \<times> string \<times> string"
  st_at :: int
  st_expires :: int
  st_failedBefore :: "string set"

record pg_idem =
  pg_now :: int
  pg_rows :: "idempotency_row list"
  pg_calls :: "begin_call list"
  pg_starts :: "idem_start list"
  pg_failed :: "string set"

definition note_start :: "int \<Rightarrow> string \<Rightarrow> time \<Rightarrow> begin_call \<Rightarrow> begin_call \<Rightarrow> pg_idem \<Rightarrow> idem_start list" where
  "note_start ttlMs token clientNow call call' s =
     (if bc_phase call = ToInsert \<and> bc_phase call' = Answered (Started token)
      then \<lparr>st_token = token, st_key = entry_key (bc_entry call), st_at = pg_now s, st_expires = 1000 * (clientNow + ttlMs), st_failedBefore = pg_failed s\<rparr> # pg_starts s
      else pg_starts s)"

inductive pg_step :: "(json \<Rightarrow> json) \<Rightarrow> int \<Rightarrow> pg_idem \<Rightarrow> pg_idem \<Rightarrow> bool" for jsonb ttlMs where
  tick: "pg_now s \<le> t \<Longrightarrow> pg_step jsonb ttlMs s (s\<lparr>pg_now := t\<rparr>)"
| call: "pg_step jsonb ttlMs s (s\<lparr>pg_calls := \<lparr>bc_entry = entry, bc_phase = ToDelete\<rparr> # pg_calls s\<rparr>)"
| advance: "i < length (pg_calls s) \<Longrightarrow>
    PostgresIdempotencyStore_begin_step ttlMs token clientNow (pg_now s) (pg_calls s ! i) (pg_rows s) = (c', rows') \<Longrightarrow>
    pg_step jsonb ttlMs s (s\<lparr>pg_calls := (pg_calls s)[i := c'], pg_rows := rows', pg_starts := note_start ttlMs token clientNow (pg_calls s ! i) c' s\<rparr>)"
| complete: "pg_step jsonb ttlMs s (s\<lparr>pg_rows := PostgresIdempotencyStore_complete jsonb token response (pg_rows s)\<rparr>)"
| fail: "pg_step jsonb ttlMs s (s\<lparr>pg_rows := PostgresIdempotencyStore_fail token (pg_rows s), pg_failed := insert token (pg_failed s)\<rparr>)"

definition pg_idem_start :: "int \<Rightarrow> pg_idem" where
  "pg_idem_start t = \<lparr>pg_now = t, pg_rows = [], pg_calls = [], pg_starts = [], pg_failed = {}\<rparr>"

section \<open>A key is started once\<close>

definition held :: "pg_idem \<Rightarrow> idem_start \<Rightarrow> bool" where
  "held s a \<longleftrightarrow> st_token a \<in> pg_failed s \<or> st_expires a \<le> pg_now s \<or>
     (\<exists>r \<in> set (pg_rows s). ik_token r = st_token a \<and> row_key r = st_key a \<and> ik_expires_at r = st_expires a)"

fun starts_apart :: "idem_start list \<Rightarrow> bool" where
  "starts_apart [] = True"
| "starts_apart (b # as) = ((\<forall>a \<in> set as. st_key a = st_key b \<longrightarrow> st_token a \<in> st_failedBefore b \<or> st_expires a \<le> st_at b) \<and> starts_apart as)"

definition pg_idem_ok :: "pg_idem \<Rightarrow> bool" where
  "pg_idem_ok s \<longleftrightarrow> (\<forall>a \<in> set (pg_starts s). held s a) \<and> starts_apart (pg_starts s)"

lemma held_rows:
  assumes "held s a" "pg_failed s \<subseteq> pg_failed s'" "pg_now s \<le> pg_now s'"
    and "\<And>r. r \<in> set (pg_rows s) \<Longrightarrow> ik_token r = st_token a \<Longrightarrow> row_key r = st_key a \<Longrightarrow> ik_expires_at r = st_expires a \<Longrightarrow>
      st_token a \<in> pg_failed s' \<or> st_expires a \<le> pg_now s' \<or>
      (\<exists>r' \<in> set (pg_rows s'). ik_token r' = st_token a \<and> row_key r' = st_key a \<and> ik_expires_at r' = st_expires a)"
  shows "held s' a"
  using assms unfolding held_def by (meson order_trans subsetD)

lemma held_advance:
  assumes "held s a" "PostgresIdempotencyStore_begin_step ttlMs token clientNow (pg_now s) c (pg_rows s) = (c', rows')"
  shows "held (s\<lparr>pg_calls := cs, pg_rows := rows', pg_starts := ss\<rparr>) a"
proof (rule held_rows [OF assms(1)])
  fix r assume r: "r \<in> set (pg_rows s)" "ik_token r = st_token a" "row_key r = st_key a" "ik_expires_at r = st_expires a"
  have "r \<in> set rows' \<or> ik_expires_at r \<le> pg_now s"
    using assms(2) r(1) by (auto simp: PostgresIdempotencyStore_begin_step_def pg_deleteExpired_def pg_insert_def split: begin_phase.splits option.splits if_splits)
  then show "st_token a \<in> pg_failed (s\<lparr>pg_calls := cs, pg_rows := rows', pg_starts := ss\<rparr>) \<or>
      st_expires a \<le> pg_now (s\<lparr>pg_calls := cs, pg_rows := rows', pg_starts := ss\<rparr>) \<or>
      (\<exists>r' \<in> set (pg_rows (s\<lparr>pg_calls := cs, pg_rows := rows', pg_starts := ss\<rparr>)). ik_token r' = st_token a \<and> row_key r' = st_key a \<and> ik_expires_at r' = st_expires a)"
    using r by auto
qed simp_all

lemma insert_excludes_held:
  assumes "held s a" "st_key a = entry_key (bc_entry c)" "bc_phase c = ToInsert"
    and "PostgresIdempotencyStore_begin_step ttlMs token clientNow (pg_now s) c (pg_rows s) = (c', rows')" "bc_phase c' = Answered (Started token)"
  shows "st_token a \<in> pg_failed s \<or> st_expires a \<le> pg_now s"
  using assms by (auto simp: held_def PostgresIdempotencyStore_begin_step_def pg_insert_def list_ex_iff split: if_splits)

lemma started_row:
  assumes "bc_phase c = ToInsert" "PostgresIdempotencyStore_begin_step ttlMs token clientNow (pg_now s) c (pg_rows s) = (c', rows')"
    and "bc_phase c' = Answered (Started token)"
  shows "\<exists>r \<in> set rows'. ik_token r = token \<and> row_key r = entry_key (bc_entry c) \<and> ik_expires_at r = 1000 * (clientNow + ttlMs)"
  using assms by (auto simp: PostgresIdempotencyStore_begin_step_def pg_insert_def row_key_def entry_key_def split: if_splits)

lemma complete_keeps_row:
  assumes "r \<in> set rows"
  shows "\<exists>r' \<in> set (PostgresIdempotencyStore_complete jsonb token response rows). ik_token r' = ik_token r \<and> row_key r' = row_key r \<and> ik_expires_at r' = ik_expires_at r"
proof -
  let ?f = "\<lambda>r. if ik_token r = token
    then r\<lparr>ik_completed := True, ik_response_status := Some (cr_statusCode response), ik_response_body := jsonb (cr_body response)\<rparr> else r"
  have "?f r \<in> set (PostgresIdempotencyStore_complete jsonb token response rows)"
    unfolding PostgresIdempotencyStore_complete_def set_map using assms by (rule imageI)
  then show ?thesis by (rule bexI [rotated]) (simp add: row_key_def)
qed

lemma pg_idem_ok_step: "pg_step jsonb ttlMs s s' \<Longrightarrow> pg_idem_ok s \<Longrightarrow> pg_idem_ok s'"
proof (induction rule: pg_step.induct)
  case (tick s t)
  then show ?case by (force simp: pg_idem_ok_def held_def)
next
  case (call s entry)
  then show ?case by (simp add: pg_idem_ok_def held_def)
next
  case (advance i s token clientNow c' rows')
  let ?c = "pg_calls s ! i" let ?ss = "note_start ttlMs token clientNow ?c c' s"
  let ?s = "s\<lparr>pg_calls := (pg_calls s)[i := c'], pg_rows := rows', pg_starts := ?ss\<rparr>"
  have old: "held ?s a" if "a \<in> set (pg_starts s)" for a
    using held_advance [OF _ advance(2)] advance(3) that by (simp add: pg_idem_ok_def)
  show ?case
  proof (cases "bc_phase ?c = ToInsert \<and> bc_phase c' = Answered (Started token)")
    case True
    have "starts_apart ?ss"
      using True advance(2,3) insert_excludes_held [of s _ ?c] by (auto simp: note_start_def pg_idem_ok_def)
    moreover have "\<exists>r \<in> set rows'. ik_token r = token \<and> row_key r = entry_key (bc_entry ?c) \<and> ik_expires_at r = 1000 * (clientNow + ttlMs)"
      using started_row [OF _ advance(2)] True by blast
    ultimately show ?thesis using old True by (auto simp: pg_idem_ok_def note_start_def held_def)
  next
    case False
    then have "?ss = pg_starts s" by (simp add: note_start_def)
    then show ?thesis using old advance(3) by (simp add: pg_idem_ok_def)
  qed
next
  case (complete s token response)
  let ?s = "s\<lparr>pg_rows := PostgresIdempotencyStore_complete jsonb token response (pg_rows s)\<rparr>"
  have "held ?s a" if "held s a" for a
  proof (rule held_rows [OF that])
    fix r assume r: "r \<in> set (pg_rows s)" "ik_token r = st_token a" "row_key r = st_key a" "ik_expires_at r = st_expires a"
    show "st_token a \<in> pg_failed ?s \<or> st_expires a \<le> pg_now ?s \<or>
        (\<exists>r' \<in> set (pg_rows ?s). ik_token r' = st_token a \<and> row_key r' = st_key a \<and> ik_expires_at r' = st_expires a)"
      using complete_keeps_row [OF r(1), of jsonb token response] r by simp
  qed simp_all
  then show ?case using complete by (simp add: pg_idem_ok_def)
next
  case (fail s token)
  let ?s = "s\<lparr>pg_rows := PostgresIdempotencyStore_fail token (pg_rows s), pg_failed := insert token (pg_failed s)\<rparr>"
  have "held ?s a" if "held s a" for a
    by (rule held_rows [OF that]) (auto simp: PostgresIdempotencyStore_fail_def)
  then show ?case using fail by (simp add: pg_idem_ok_def)
qed

lemma pg_idem_reachable: "(pg_step jsonb ttlMs)\<^sup>*\<^sup>* (pg_idem_start t0) s \<Longrightarrow> pg_idem_ok s"
  by (induction rule: rtranclp_induct) (simp add: pg_idem_ok_def pg_idem_start_def, blast intro: pg_idem_ok_step)

lemma starts_apart_append: "starts_apart (xs @ b # ys) \<Longrightarrow> a \<in> set ys \<Longrightarrow> st_key a = st_key b \<Longrightarrow> st_token a \<in> st_failedBefore b \<or> st_expires a \<le> st_at b"
  by (induction xs) auto
section \<open>Property\<close>

text \<open>C4. With the Postgres store a key is started once, whatever requests of whatever processes interleave their statements: if a request \<open>b\<close> was started for the same key,
  scope and principal as an earlier request \<open>a\<close>, then \<open>a\<close> had failed by then or its record had expired on the database's clock.\<close>

theorem postgres_key_started_once:
  assumes "(pg_step jsonb ttlMs)\<^sup>*\<^sup>* (pg_idem_start t0) s" "pg_starts s = later @ b # earlier" "a \<in> set earlier" "st_key a = st_key b"
  shows "st_token a \<in> st_failedBefore b \<or> st_expires a \<le> st_at b"
  using pg_idem_reachable [OF assms(1)] assms(2-) starts_apart_append [of later b earlier a] by (simp add: pg_idem_ok_def)

section \<open>Witness\<close>

definition examplePgEntry :: IdempotencyEntry where
  "examplePgEntry = \<lparr>ie_keyHash = ''k'', ie_scope = ''POST /draw'', ie_principalHash = ''p'', ie_requestHash = ''r''\<rparr>"

abbreviation example_pg :: "int \<Rightarrow> idempotency_row list \<Rightarrow> begin_phase list \<Rightarrow> idem_start list \<Rightarrow> pg_idem" where
  "example_pg now rows ps ss \<equiv> \<lparr>pg_now = now, pg_rows = rows, pg_calls = map (\<lambda>p. \<lparr>bc_entry = examplePgEntry, bc_phase = p\<rparr>) ps, pg_starts = ss, pg_failed = {}\<rparr>"

abbreviation example_row :: "string \<Rightarrow> int \<Rightarrow> idempotency_row" where
  "example_row token expiresAt \<equiv> \<lparr>ik_token = token, ik_key_hash = ''k'', ik_scope = ''POST /draw'', ik_principal_hash = ''p'',
     ik_request_hash = ''r'', ik_completed = False, ik_response_status = None, ik_response_body = JNull, ik_expires_at = expiresAt\<rparr>"

abbreviation example_start :: "string \<Rightarrow> int \<Rightarrow> int \<Rightarrow> idem_start" where
  "example_start token t e \<equiv> \<lparr>st_token = token, st_key = (''k'', ''POST /draw'', ''p''), st_at = t, st_expires = e, st_failedBefore = {}\<rparr>"

lemma example_quiet:
  assumes "p = ToDelete" "rows' = pg_deleteExpired now rows"
  shows "pg_step (\<lambda>j. j) 1 (example_pg now rows (p # ps) ss) (example_pg now rows' (ToInsert # ps) ss)"
  using pg_step.advance [of 0 "example_pg now rows (p # ps) ss" 1 "[]" 0 "\<lparr>bc_entry = examplePgEntry, bc_phase = ToInsert\<rparr>" rows' "\<lambda>j. j"] assms
  by (simp add: note_start_def PostgresIdempotencyStore_begin_step_def)

lemma example_insert:
  "pg_step (\<lambda>j. j) 1 (example_pg now [] (ToInsert # ps) ss)
     (example_pg now [example_row token (1000 * (clientNow + 1))] (Answered (Started token) # ps) (example_start token now (1000 * (clientNow + 1)) # ss))"
  using pg_step.advance [of 0 "example_pg now [] (ToInsert # ps) ss" 1 token clientNow "\<lparr>bc_entry = examplePgEntry, bc_phase = Answered (Started token)\<rparr>"
      "[example_row token (1000 * (clientNow + 1))]" "\<lambda>j. j"]
  by (simp add: note_start_def entry_key_def examplePgEntry_def PostgresIdempotencyStore_begin_step_def pg_insert_def)

lemma example_call: "pg_step (\<lambda>j. j) 1 (example_pg now rows ps ss) (example_pg now rows (ToDelete # ps) ss)"
  using pg_step.call [of "\<lambda>j. j" 1 "example_pg now rows ps ss" examplePgEntry] by simp

lemma example_reached:
  "(pg_step (\<lambda>j. j) 1)\<^sup>*\<^sup>* (pg_idem_start 0) (example_pg 1000 [example_row ''t2'' 2000] [Answered (Started ''t2''), Answered (Started ''t1'')]
     [example_start ''t2'' 1000 2000, example_start ''t1'' 0 1000])" (is "?R\<^sup>*\<^sup>* _ _")
proof -
  have "?R (pg_idem_start 0) (example_pg 0 [] [ToDelete] [])" using example_call [of 0 "[]" "[]" "[]"] by (simp add: pg_idem_start_def)
  moreover have "?R (example_pg 0 [] [ToDelete] []) (example_pg 0 [] [ToInsert] [])" by (rule example_quiet) (simp_all add: pg_deleteExpired_def)
  moreover have "?R (example_pg 0 [] [ToInsert] []) (example_pg 0 [example_row ''t1'' 1000] [Answered (Started ''t1'')] [example_start ''t1'' 0 1000])"
    using example_insert [of 0 "[]" "[]" "''t1''" 0] by simp
  moreover have "?R (example_pg 0 [example_row ''t1'' 1000] [Answered (Started ''t1'')] [example_start ''t1'' 0 1000])
      (example_pg 1000 [example_row ''t1'' 1000] [Answered (Started ''t1'')] [example_start ''t1'' 0 1000])"
    using pg_step.tick [of "example_pg 0 [example_row ''t1'' 1000] [Answered (Started ''t1'')] [example_start ''t1'' 0 1000]" 1000] by simp
  moreover have "?R (example_pg 1000 [example_row ''t1'' 1000] [Answered (Started ''t1'')] [example_start ''t1'' 0 1000])
      (example_pg 1000 [example_row ''t1'' 1000] [ToDelete, Answered (Started ''t1'')] [example_start ''t1'' 0 1000])" by (rule example_call)
  moreover have "?R (example_pg 1000 [example_row ''t1'' 1000] [ToDelete, Answered (Started ''t1'')] [example_start ''t1'' 0 1000])
      (example_pg 1000 [] [ToInsert, Answered (Started ''t1'')] [example_start ''t1'' 0 1000])" by (rule example_quiet) (simp_all add: pg_deleteExpired_def)
  moreover have "?R (example_pg 1000 [] [ToInsert, Answered (Started ''t1'')] [example_start ''t1'' 0 1000])
      (example_pg 1000 [example_row ''t2'' 2000] [Answered (Started ''t2''), Answered (Started ''t1'')] [example_start ''t2'' 1000 2000, example_start ''t1'' 0 1000])"
    using example_insert [of 1000 "[Answered (Started ''t1'')]" "[example_start ''t1'' 0 1000]" "''t2''" 1] by simp
  ultimately show ?thesis by (meson rtranclp.rtrancl_into_rtrancl rtranclp.rtrancl_refl)
qed

theorem postgres_key_started_once_witness:
  "st_token (example_start ''t1'' 0 1000) \<in> {} \<or> st_expires (example_start ''t1'' 0 1000) \<le> (1000 :: int)"
  using postgres_key_started_once [OF example_reached, of "[]" "example_start ''t2'' 1000 2000" "[example_start ''t1'' 0 1000]" "example_start ''t1'' 0 1000"] by simp

end
