(* ===== verification/PgStores.thy ===== *)
theory PgStores
  imports Events OutboundWebhooks
begin

text \<open>
  The Postgres stores of domain events (\<open>PostgresDomainEventStore\<close> of \<open>src/services/domainEventStore.ts\<close>) and of outbound webhooks
  (\<open>PostgresOutboundWebhookStore\<close> of \<open>src/services/outboundWebhookStore.ts\<close>), one statement after the other on tables in insertion order. Columns of type
  \<open>TIMESTAMPTZ\<close> are in microseconds, what the code reads of them is in milliseconds; \<open>jsonb\<close> is what a column of that type returns for a value. The unique indexes are
  those of the migrations 008 and 009. Rows with equal sort keys come in table order.
\<close>

section \<open>Domain events\<close>

record domain_event_row =
  dr_id :: string
  dr_event :: domain_event
  dr_created_at :: int

definition event_key :: "domain_event \<Rightarrow> string \<times> string \<times> time" where
  "event_key e = (ev_creditLineId e, ev_type e, ev_occurredAt e)"

definition PostgresDomainEventStore_append :: "string \<Rightarrow> int \<Rightarrow> domain_event \<Rightarrow> domain_event_row list \<Rightarrow> domain_event_row list" where
  "PostgresDomainEventStore_append uuid dbNow event rows =
     (if list_ex (\<lambda>r. event_key (dr_event r) = event_key event) rows then rows
      else rows @ [\<lparr>dr_id = uuid, dr_event = event, dr_created_at = dbNow\<rparr>])"

definition toRecord :: "((string \<times> string) list \<Rightarrow> (string \<times> string) list) \<Rightarrow> domain_event_row \<Rightarrow> DomainEventRecord" where
  "toRecord jsonb r =
     \<lparr>de_id = dr_id r, de_eventType = ev_type (dr_event r), de_aggregateId = ev_creditLineId (dr_event r), de_payload = jsonb (ev_payload (dr_event r)),
      de_occurredAt = ev_occurredAt (dr_event r), de_createdAt = dr_created_at r div 1000\<rparr>"

text \<open>\<open>LIMIT\<close> and \<open>OFFSET\<close> of a negative number are errors of the server.\<close>

definition PostgresDomainEventStore_list ::
  "((string \<times> string) list \<Rightarrow> (string \<times> string) list) \<Rightarrow> DomainEventQuery \<Rightarrow> domain_event_row list \<Rightarrow> js_error + DomainEventRecord list" where
  "PostgresDomainEventStore_list jsonb q rows =
     (let limit = (case dq_limit q of Some v \<Rightarrow> v | None \<Rightarrow> 100);
          offset = (case dq_offset q of Some v \<Rightarrow> v | None \<Rightarrow> 0);
          selected = filter (\<lambda>r. matches_filter (dq_aggregateId q) (ev_creditLineId (dr_event r)) \<and> matches_filter (dq_eventType q) (ev_type (dr_event r))) rows;
          ordered = js_sort (\<lambda>a b. ev_occurredAt (dr_event a) - ev_occurredAt (dr_event b)) selected
      in if limit < 0 then Inl (Error ''LIMIT must not be negative'')
         else if offset < 0 then Inl (Error ''OFFSET must not be negative'')
         else Inr (map (toRecord jsonb) (take (nat limit) (drop (nat offset) ordered))))"

section \<open>Webhook subscriptions and deliveries\<close>

record pg_webhooks =
  pw_subscriptions :: "OutboundWebhookSubscription list"
  pw_deliveries :: "OutboundWebhookDelivery list"

definition mapSubscription :: "OutboundWebhookSubscription \<Rightarrow> OutboundWebhookSubscription" where
  "mapSubscription r = r\<lparr>sub_createdAt := sub_createdAt r div 1000, sub_updatedAt := sub_updatedAt r div 1000\<rparr>"

definition mapDelivery :: "OutboundWebhookDelivery \<Rightarrow> OutboundWebhookDelivery" where
  "mapDelivery r = r\<lparr>od_nextAttemptAt := map_option (\<lambda>t. t div 1000) (od_nextAttemptAt r), od_deliveredAt := map_option (\<lambda>t. t div 1000) (od_deliveredAt r),
     od_createdAt := od_createdAt r div 1000, od_updatedAt := od_updatedAt r div 1000\<rparr>"

definition pgw_upsertEnvSubscription ::
  "string \<Rightarrow> string list \<Rightarrow> string \<Rightarrow> string \<Rightarrow> int \<Rightarrow> pg_webhooks \<Rightarrow> OutboundWebhookSubscription \<times> pg_webhooks" where
  "pgw_upsertEnvSubscription url eventTypes secretRef uuid dbNow s =
     (case List.find (\<lambda>r. sub_url r = url) (pw_subscriptions s) of
        Some r \<Rightarrow>
          let r' = r\<lparr>sub_eventTypes := eventTypes, sub_active := True, sub_secretRef := secretRef, sub_updatedAt := dbNow\<rparr>
          in (mapSubscription r', s\<lparr>pw_subscriptions := map (\<lambda>x. if sub_url x = url then r' else x) (pw_subscriptions s)\<rparr>)
      | None \<Rightarrow>
          let r' = \<lparr>sub_id = uuid, sub_url = url, sub_eventTypes = eventTypes, sub_active = True, sub_secretRef = secretRef, sub_createdAt = dbNow, sub_updatedAt = dbNow\<rparr>
          in (mapSubscription r', s\<lparr>pw_subscriptions := pw_subscriptions s @ [r']\<rparr>))"

definition pgw_listSubscriptions :: "pg_webhooks \<Rightarrow> OutboundWebhookSubscription list" where
  "pgw_listSubscriptions s = map mapSubscription (js_sort (\<lambda>a b. sub_createdAt a - sub_createdAt b) (filter sub_active (pw_subscriptions s)))"

definition pgw_createDelivery :: "(json \<Rightarrow> json) \<Rightarrow> CreateDeliveryInput \<Rightarrow> string \<Rightarrow> int \<Rightarrow> pg_webhooks \<Rightarrow> OutboundWebhookDelivery \<times> pg_webhooks" where
  "pgw_createDelivery jsonb input uuid dbNow s =
     (let r = \<lparr>od_id = uuid, od_subscriptionId = cd_subscriptionId input, od_url = cd_url input, od_eventType = cd_eventType input, od_eventId = cd_eventId input,
            od_status = Queued, od_payload = jsonb (cd_payload input), od_attempts = 0, od_responseStatus = None, od_lastError = None, od_nextAttemptAt = None,
            od_deliveredAt = None, od_createdAt = dbNow, od_updatedAt = dbNow\<rparr>
      in (mapDelivery r, s\<lparr>pw_deliveries := pw_deliveries s @ [r]\<rparr>))"

definition pgw_getDelivery :: "pg_webhooks \<Rightarrow> string \<Rightarrow> OutboundWebhookDelivery option" where
  "pgw_getDelivery s deliveryId = map_option mapDelivery (List.find (\<lambda>r. od_id r = deliveryId) (pw_deliveries s))"

definition newest_delivery :: "OutboundWebhookDelivery list \<Rightarrow> OutboundWebhookDelivery list" where
  "newest_delivery rs = js_sort (\<lambda>a b. od_createdAt b - od_createdAt a) rs"

definition pgw_findDelivery :: "pg_webhooks \<Rightarrow> string \<Rightarrow> string \<Rightarrow> OutboundWebhookDelivery option" where
  "pgw_findDelivery s subscriptionId evId =
     (case newest_delivery (filter (\<lambda>r. od_subscriptionId r = subscriptionId \<and> od_eventId r = evId) (pw_deliveries s)) of
        [] \<Rightarrow> None | r # _ \<Rightarrow> Some (mapDelivery r))"

text \<open>The partial unique index: one delivered row per subscription and event.\<close>

definition delivered_twice :: "OutboundWebhookDelivery \<Rightarrow> OutboundWebhookDelivery list \<Rightarrow> bool" where
  "delivered_twice r rows \<longleftrightarrow> od_status r = Delivered \<and>
     list_ex (\<lambda>x. od_id x \<noteq> od_id r \<and> od_status x = Delivered \<and> od_subscriptionId x = od_subscriptionId r \<and> od_eventId x = od_eventId r) rows"

definition stored_delivery :: "OutboundWebhookDelivery \<Rightarrow> OutboundWebhookDelivery \<Rightarrow> int \<Rightarrow> OutboundWebhookDelivery" where
  "stored_delivery row nxt dbNow = row\<lparr>od_status := od_status nxt, od_attempts := od_attempts nxt, od_responseStatus := od_responseStatus nxt,
     od_lastError := od_lastError nxt, od_nextAttemptAt := map_option (\<lambda>t. 1000 * t) (od_nextAttemptAt nxt),
     od_deliveredAt := map_option (\<lambda>t. 1000 * t) (od_deliveredAt nxt), od_updatedAt := dbNow\<rparr>"

definition pgw_updateDelivery :: "string \<Rightarrow> DeliveryPatch \<Rightarrow> int \<Rightarrow> (pg_webhooks, OutboundWebhookDelivery) comp" where
  "pgw_updateDelivery deliveryId patch dbNow s =
     (case List.find (\<lambda>r. od_id r = deliveryId) (pw_deliveries s) of
        None \<Rightarrow> (Inl (Error (''Webhook delivery not found: '' @ deliveryId)), s)
      | Some row \<Rightarrow>
          let row' = stored_delivery row (postgresPatch (mapDelivery row) patch dbNow) dbNow
          in if delivered_twice row' (pw_deliveries s)
             then (Inl (Error ''duplicate key value violates unique constraint outbound_webhook_deliveries_event_subscription_key''), s)
             else (Inr (mapDelivery row'), s\<lparr>pw_deliveries := map (\<lambda>x. if od_id x = deliveryId then row' else x) (pw_deliveries s)\<rparr>))"

definition pgw_listDeliveries :: "OutboundWebhookStatus option \<Rightarrow> int option \<Rightarrow> pg_webhooks \<Rightarrow> OutboundWebhookDelivery list" where
  "pgw_listDeliveries status limit s =
     (let n = min (max (case limit of Some l \<Rightarrow> l | None \<Rightarrow> 50) 1) 200
      in map mapDelivery (take (nat n) (newest_delivery (filter (\<lambda>d. case status of None \<Rightarrow> True | Some st \<Rightarrow> od_status d = st) (pw_deliveries s)))))"

section \<open>The event store keeps its contract\<close>

definition event_rows_ok :: "domain_event_row list \<Rightarrow> bool" where
  "event_rows_ok rows \<longleftrightarrow> distinct (map (\<lambda>r. event_key (dr_event r)) rows)"

interpretation pglog: event_log "\<lambda>now. PostgresDomainEventStore_append uuid now" "\<lambda>rows. map dr_event rows" event_key event_rows_ok for uuid
  by unfold_locales (auto simp: PostgresDomainEventStore_append_def event_rows_ok_def list_ex_iff image_iff)

text \<open>Redelivering an event changes nothing, as for the in-memory store.\<close>

lemma pg_redelivery_is_noop:
  "event_rows_ok rows \<Longrightarrow>
     PostgresDomainEventStore_append uuid now' e (PostgresDomainEventStore_append uuid now e rows) = PostgresDomainEventStore_append uuid now e rows"
  by (rule pglog.redelivery_is_noop)

text \<open>Without a limit the Postgres store returns at most 100 events, where the in-memory store returns them all.\<close>

lemma pg_replay_is_cut:
  assumes "PostgresDomainEventStore_list jsonb \<lparr>dq_aggregateId = None, dq_eventType = None, dq_offset = None, dq_limit = None\<rparr> rows = Inr records"
  shows "length records = min 100 (length rows)"
  using assms by (auto simp: PostgresDomainEventStore_list_def Let_def matches_filter_def)

section \<open>One delivered row per event\<close>

definition deliveries_ok :: "pg_webhooks \<Rightarrow> bool" where
  "deliveries_ok s \<longleftrightarrow> distinct (map od_id (pw_deliveries s)) \<and>
     (\<forall>x \<in> set (pw_deliveries s). \<forall>y \<in> set (pw_deliveries s).
        od_status x = Delivered \<and> od_status y = Delivered \<and> od_subscriptionId x = od_subscriptionId y \<and> od_eventId x = od_eventId y \<longrightarrow> x = y)"

lemma deliveries_ok_update:
  assumes "deliveries_ok s" "pgw_updateDelivery deliveryId patch dbNow s = (r, s')"
  shows "deliveries_ok s'"
proof (cases "List.find (\<lambda>r. od_id r = deliveryId) (pw_deliveries s)")
  case None
  then show ?thesis using assms by (simp add: pgw_updateDelivery_def)
next
  case (Some row)
  define row' where "row' = stored_delivery row (postgresPatch (mapDelivery row) patch dbNow) dbNow"
  have keep: "od_id row' = deliveryId" "od_subscriptionId row' = od_subscriptionId row" "od_eventId row' = od_eventId row"
    using find_SomeD [OF Some] by (simp_all add: row'_def stored_delivery_def)
  show ?thesis
  proof (cases "delivered_twice row' (pw_deliveries s)")
    case True
    then show ?thesis using assms Some by (simp add: pgw_updateDelivery_def Let_def row'_def)
  next
    case False
    let ?f = "\<lambda>x. if od_id x = deliveryId then row' else x"
    have s': "s' = s\<lparr>pw_deliveries := map ?f (pw_deliveries s)\<rparr>"
      using assms(2) Some False by (simp add: pgw_updateDelivery_def Let_def flip: row'_def)
    have ids: "map od_id (map ?f (pw_deliveries s)) = map od_id (pw_deliveries s)" using keep(1) by simp
    have no: "\<not> (od_status x = Delivered \<and> od_subscriptionId x = od_subscriptionId row' \<and> od_eventId x = od_eventId row')"
      if "x \<in> set (pw_deliveries s)" "od_id x \<noteq> deliveryId" "od_status row' = Delivered" for x
      using False that keep(1) by (auto simp: delivered_twice_def list_ex_iff)
    have uniq: "x = y" if "x \<in> set (pw_deliveries s)" "y \<in> set (pw_deliveries s)" "od_status x = Delivered" "od_status y = Delivered"
      "od_subscriptionId x = od_subscriptionId y" "od_eventId x = od_eventId y" for x y
      using assms(1) that by (auto simp: deliveries_ok_def)
    have "?f x = ?f y" if "x \<in> set (pw_deliveries s)" "y \<in> set (pw_deliveries s)" "od_status (?f x) = Delivered" "od_status (?f y) = Delivered"
      "od_subscriptionId (?f x) = od_subscriptionId (?f y)" "od_eventId (?f x) = od_eventId (?f y)" for x y
      using that no [of x] no [of y] uniq [of x y] by (cases "od_id x = deliveryId"; cases "od_id y = deliveryId") auto
    then have "\<forall>x \<in> set (map ?f (pw_deliveries s)). \<forall>y \<in> set (map ?f (pw_deliveries s)).
        od_status x = Delivered \<and> od_status y = Delivered \<and> od_subscriptionId x = od_subscriptionId y \<and> od_eventId x = od_eventId y \<longrightarrow> x = y"
      unfolding set_map ball_simps by blast
    moreover have "distinct (map od_id (map ?f (pw_deliveries s)))" unfolding ids using assms(1) by (simp only: deliveries_ok_def)
    moreover have "pw_deliveries s' = map ?f (pw_deliveries s)" unfolding s' by simp
    ultimately show ?thesis unfolding deliveries_ok_def by (simp only:)
  qed
qed

lemma deliveries_ok_create:
  assumes "deliveries_ok s" "uuid \<notin> od_id ` set (pw_deliveries s)"
  shows "deliveries_ok (snd (pgw_createDelivery jsonb input uuid dbNow s))"
  using assms by (auto simp: deliveries_ok_def pgw_createDelivery_def Let_def)

text \<open>A second delivery of an event that is already delivered cannot be recorded: after its request has succeeded, the update fails on the index, so the job counts as failed and
  sends the request again.\<close>

lemma second_delivery_cannot_be_recorded:
  assumes "List.find (\<lambda>r. od_id r = deliveryId) (pw_deliveries s) = Some row" "x \<in> set (pw_deliveries s)" "od_id x \<noteq> deliveryId"
    and "od_status x = Delivered" "od_subscriptionId x = od_subscriptionId row" "od_eventId x = od_eventId row"
  shows "\<exists>m. pgw_updateDelivery deliveryId (successPatch attempt status now) dbNow s = (Inl (Error m), s)"
proof -
  have "od_id row = deliveryId" using find_SomeD [OF assms(1)] by simp
  then have "delivered_twice (stored_delivery row (postgresPatch (mapDelivery row) (successPatch attempt status now) dbNow) dbNow) (pw_deliveries s)"
    using assms by (auto simp: delivered_twice_def stored_delivery_def postgresPatch_def successPatch_def list_ex_iff)
  then show ?thesis using assms(1) by (simp add: pgw_updateDelivery_def Let_def)
qed

end
