(* ===== verification/Redaction.thy ===== *)
theory Redaction
  imports Diagnostics JsDate
begin

text \<open>
  Redaction of logs (\<open>src/utils/logRedact.ts\<close>) and of support payloads (\<open>src/utils/supportRedact.ts\<close>).

  \<open>replaceAll m f\<close> is \<open>s.replace(regex, f)\<close> with a global regular expression: \<open>m prev s\<close> is the length of the match that starts where \<open>s\<close> does,
  after the character \<open>prev\<close>; the scan goes from the left and resumes after a match. The expressions for keys have one candidate at each place; the one for
  e-mail addresses backtracks over the length of the domain.

  Values carry the identity of each object, because both functions remember the objects they have entered. An object reached again is a node with the same
  identity; the functions never look at what such a node holds, so a cyclic value is given by its unfolding up to the first repetition.

  The property is about words, the maximal runs of word characters of a text: a key between word boundaries is a word (\<open>key_words\<close>).
\<close>

section \<open>Global replacement\<close>

type_synonym matcher = "char option \<Rightarrow> string \<Rightarrow> nat option"

function replaceAll :: "matcher \<Rightarrow> (string \<Rightarrow> string) \<Rightarrow> char option \<Rightarrow> string \<Rightarrow> string" where
  "replaceAll m f prev s =
     (case s of [] \<Rightarrow> []
      | c # cs \<Rightarrow>
          (case m prev s of
             Some (Suc n) \<Rightarrow> f (take (Suc n) s) @ replaceAll m f (Some (last (take (Suc n) s))) (drop (Suc n) s)
           | _ \<Rightarrow> c # replaceAll m f (Some c) cs))"
  by pat_completeness auto
termination
  by (relation "measure (\<lambda>(_, _, _, s). length s)") auto

declare replaceAll.simps [simp del]

text \<open>\<open>\b k [A-Z2-7]{n} \b\<close>: the boundaries, since \<open>k\<close> and the last character are word characters, ask that no word character stands before or after.\<close>

definition key_match :: "char \<Rightarrow> nat \<Rightarrow> matcher" where
  "key_match k n prev s =
     (case s of [] \<Rightarrow> None
      | c # cs \<Rightarrow>
          if \<not> is_word_opt prev \<and> c = k \<and> n \<le> length cs \<and> list_all is_key_char (take n cs) \<and> \<not> is_word_at (drop n cs)
          then Some (Suc n) else None)"

definition STELLAR_ADDRESS_REGEX :: matcher where
  "STELLAR_ADDRESS_REGEX = key_match (CHR ''G'') 55"

definition STELLAR_SECRET_SEED_REGEX :: matcher where
  "STELLAR_SECRET_SEED_REGEX = key_match (CHR ''S'') 55"

definition STELLAR_MUXED_ACCOUNT_REGEX :: matcher where
  "STELLAR_MUXED_ACCOUNT_REGEX = key_match (CHR ''M'') 68"

definition is_letter :: "char \<Rightarrow> bool" where
  "is_letter c \<longleftrightarrow> 65 \<le> (of_char c :: nat) \<and> (of_char c :: nat) \<le> 90 \<or> 97 \<le> (of_char c :: nat) \<and> (of_char c :: nat) \<le> 122"

definition is_local_char :: "char \<Rightarrow> bool" where
  "is_local_char c \<longleftrightarrow> is_letter c \<or> is_digit c \<or> c \<in> set ''._%+-''"

definition is_domain_char :: "char \<Rightarrow> bool" where
  "is_domain_char c \<longleftrightarrow> is_letter c \<or> is_digit c \<or> c \<in> set ''.-''"

text \<open>\<open>\.[A-Z]{2,}\b\<close> at \<open>s\<close>, longest first.\<close>

definition tld_match :: "string \<Rightarrow> nat option" where
  "tld_match s =
     (case s of [] \<Rightarrow> None
      | c # e \<Rightarrow>
          if c = CHR ''.''
          then map_option Suc (List.find (\<lambda>j. \<not> is_word_at (drop j e)) (rev [2..<Suc (length (takeWhile is_letter e))]))
          else None)"

text \<open>\<open>[A-Z0-9.-]+\.[A-Z]{2,}\b\<close> at \<open>d\<close>, longest domain first.\<close>

definition domain_match :: "string \<Rightarrow> nat option" where
  "domain_match d =
     (case List.find (\<lambda>i. tld_match (drop i d) \<noteq> None) (rev [1..<Suc (length (takeWhile is_domain_char d))]) of
        None \<Rightarrow> None
      | Some i \<Rightarrow> map_option (\<lambda>j. i + j) (tld_match (drop i d)))"

text \<open>The local part extends to the first character outside its class, which has to be the sign \<open>@\<close>: a shorter part is followed by a character of the class.\<close>

definition EMAIL_REGEX :: matcher where
  "EMAIL_REGEX prev s =
     (let l = takeWhile is_local_char s
      in if is_word_opt prev = is_word_at s \<or> l = [] then None
         else (case dropWhile is_local_char s of [] \<Rightarrow> None
           | c # d \<Rightarrow> if c = CHR ''@'' then map_option (\<lambda>n. length l + 1 + n) (domain_match d) else None))"

section \<open>Strings\<close>

definition truncateAddress :: "string \<Rightarrow> string" where
  "truncateAddress address = take 6 address @ ''...'' @ js_slice address (- 4) (int (length address))"

definition truncateWalletAddress :: "string \<Rightarrow> string" where
  "truncateWalletAddress address =
     (if length address < 12 then ''[REDACTED_WALLET]'' else take 6 address @ ''...'' @ js_slice address (- 4) (int (length address)))"

definition redactLogString :: "string \<Rightarrow> bool \<Rightarrow> string" where
  "redactLogString v debugEnabled =
     (if debugEnabled then v
      else replaceAll STELLAR_ADDRESS_REGEX truncateAddress None
        (replaceAll EMAIL_REGEX (\<lambda>_. ''[REDACTED_EMAIL]'') None
          (replaceAll STELLAR_MUXED_ACCOUNT_REGEX (\<lambda>_. ''[REDACTED_MUXED_ACCOUNT]'') None
            (replaceAll STELLAR_SECRET_SEED_REGEX (\<lambda>_. ''[REDACTED_STELLAR_SECRET]'') None v))))"

definition redactSupportString :: "string \<Rightarrow> string" where
  "redactSupportString v =
     replaceAll STELLAR_ADDRESS_REGEX truncateWalletAddress None
       (replaceAll EMAIL_REGEX (\<lambda>_. ''[REDACTED_EMAIL]'') None
         (replaceAll STELLAR_MUXED_ACCOUNT_REGEX (\<lambda>_. ''[REDACTED_MUXED_ACCOUNT]'') None
           (replaceAll STELLAR_SECRET_SEED_REGEX (\<lambda>_. ''[REDACTED_STELLAR_SECRET]'') None v)))"

definition isLogRedactionDebugEnabled :: "(string \<Rightarrow> string option) \<Rightarrow> bool" where
  "isLogRedactionDebugEnabled env =
     (case env ''LOG_REDACTION_DEBUG'' of None \<Rightarrow> False
      | Some flag \<Rightarrow>
          if flag = [] then False
          else let normalized = js_toLowerCase (js_trim flag) in normalized = ''true'' \<or> normalized = ''1'')"

section \<open>Values\<close>

text \<open>\<open>VPrim\<close> is a function, symbol or \<open>bigint\<close>, \<open>VOther\<close> an instance of a class other than \<open>Error\<close>, \<open>Array\<close> and \<open>Date\<close>; the first argument of an object is its identity.
  An error has its name, its message, its stack (\<open>None\<close> for the trace of the place that made it) and its own enumerable properties. A new object made from another one carries that one's identity.\<close>

datatype jval =
    VUndefined
  | VNull
  | VBool bool
  | VNum number
  | VStr string
  | VPrim string
  | VDate nat time
  | VArr nat "jval list"
  | VObj nat "(string \<times> jval) list"
  | VError nat string string "string option" "(string \<times> jval) list"
  | VOther nat string

fun redactValueInternal :: "jval \<Rightarrow> nat list \<Rightarrow> jval \<times> nat list"
and redactLogEntries :: "jval list \<Rightarrow> nat list \<Rightarrow> jval list \<times> nat list"
and redactLogProps :: "(string \<times> jval) list \<Rightarrow> nat list \<Rightarrow> (string \<times> jval) list \<times> nat list" where
  "redactValueInternal (VStr s) seen = (VStr (redactLogString s False), seen)"
| "redactValueInternal (VError i nm msg stack extra) seen =
     (if i \<in> set seen then (VStr ''[Circular]'', seen)
      else let (extra', seen') = redactLogProps extra (i # seen)
           in (VError i nm (redactLogString msg False)
                 (case stack of Some t \<Rightarrow> if t \<noteq> [] then Some (redactLogString t False) else None | None \<Rightarrow> None) extra', seen'))"
| "redactValueInternal (VArr i xs) seen =
     (if i \<in> set seen then (VStr ''[Circular]'', seen)
      else let (xs', seen') = redactLogEntries xs (i # seen) in (VArr i xs', seen'))"
| "redactValueInternal (VObj i ps) seen =
     (if i \<in> set seen then (VStr ''[Circular]'', seen)
      else let (ps', seen') = redactLogProps ps (i # seen) in (VObj i ps', seen'))"
| "redactValueInternal (VDate i t) seen = (if i \<in> set seen then (VStr ''[Circular]'', seen) else (VDate i t, i # seen))"
| "redactValueInternal (VOther i t) seen = (if i \<in> set seen then (VStr ''[Circular]'', seen) else (VOther i t, i # seen))"
| "redactValueInternal v seen = (v, seen)"
| "redactLogEntries [] seen = ([], seen)"
| "redactLogEntries (x # xs) seen =
     (let (y, seen1) = redactValueInternal x seen; (ys, seen2) = redactLogEntries xs seen1 in (y # ys, seen2))"
| "redactLogProps [] seen = ([], seen)"
| "redactLogProps (p # ps) seen =
     (let (y, seen1) = redactValueInternal (snd p) seen; (ys, seen2) = redactLogProps ps seen1 in ((fst p, y) # ys, seen2))"

definition redactLogValue :: "jval \<Rightarrow> bool \<Rightarrow> jval" where
  "redactLogValue v debugEnabled = (if debugEnabled then v else fst (redactValueInternal v []))"

definition redactLogArgs :: "jval list \<Rightarrow> bool \<Rightarrow> jval list" where
  "redactLogArgs args debugEnabled = (if debugEnabled then args else map (\<lambda>arg. redactLogValue arg False) args)"

definition SENSITIVE_KEYS :: "string list" where
  "SENSITIVE_KEYS = [''password'', ''secret'', ''seed'', ''privatekey'', ''private_key'', ''private-key'', ''apikey'', ''api_key'', ''api-key'', ''token'', ''authorization'']"

definition SENSITIVE_KEY_PATTERN :: "string \<Rightarrow> bool" where
  "SENSITIVE_KEY_PATTERN key \<longleftrightarrow> js_toLowerCase key \<in> set SENSITIVE_KEYS"

definition is_VStr :: "jval \<Rightarrow> bool" where
  "is_VStr v \<longleftrightarrow> (case v of VStr _ \<Rightarrow> True | _ \<Rightarrow> False)"

definition str_of :: "jval \<Rightarrow> string" where
  "str_of v = (case v of VStr s \<Rightarrow> s | _ \<Rightarrow> [])"

fun redactInternal :: "jval \<Rightarrow> nat list \<Rightarrow> jval \<times> nat list"
and redactEntries :: "jval list \<Rightarrow> nat list \<Rightarrow> jval list \<times> nat list"
and redactProps :: "(string \<times> jval) list \<Rightarrow> nat list \<Rightarrow> (string \<times> jval) list \<times> nat list" where
  "redactInternal (VStr s) seen = (VStr (redactSupportString s), seen)"
| "redactInternal (VDate i t) seen = (VStr (toISOString t), seen)"
| "redactInternal (VArr i xs) seen =
     (if i \<in> set seen then (VStr ''[Circular]'', seen)
      else let (xs', seen') = redactEntries xs (i # seen) in (VArr i xs', seen'))"
| "redactInternal (VObj i ps) seen =
     (if i \<in> set seen then (VStr ''[Circular]'', seen)
      else let (ps', seen') = redactProps ps (i # seen) in (VObj i ps', seen'))"
| "redactInternal (VError i nm msg stack extra) seen =
     (if i \<in> set seen then (VStr ''[Circular]'', seen) else (VError i nm msg stack extra, i # seen))"
| "redactInternal (VOther i t) seen = (if i \<in> set seen then (VStr ''[Circular]'', seen) else (VOther i t, i # seen))"
| "redactInternal v seen = (v, seen)"
| "redactEntries [] seen = ([], seen)"
| "redactEntries (x # xs) seen =
     (let (y, seen1) = redactInternal x seen; (ys, seen2) = redactEntries xs seen1 in (y # ys, seen2))"
| "redactProps [] seen = ([], seen)"
| "redactProps (p # ps) seen =
     (let (y, seen1) =
            (if SENSITIVE_KEY_PATTERN (fst p) then (VStr ''[REDACTED]'', seen)
             else if (fst p = ''walletAddress'' \<or> fst p = ''borrowerWallet'') \<and> is_VStr (snd p)
             then (VStr (truncateWalletAddress (str_of (snd p))), seen)
             else redactInternal (snd p) seen);
          (ys, seen2) = redactProps ps seen1
      in ((fst p, y) # ys, seen2))"

definition redactSupportValue :: "jval \<Rightarrow> jval" where
  "redactSupportValue v = fst (redactInternal v [])"

section \<open>Words\<close>

fun words_from :: "string \<Rightarrow> string \<Rightarrow> string list" where
  "words_from run [] = (if run = [] then [] else [run])"
| "words_from run (c # cs) =
     (if is_word_char c then words_from (run @ [c]) cs else (if run = [] then [] else [run]) @ words_from [] cs)"

definition words :: "string \<Rightarrow> string list" where
  "words s = words_from [] s"

text \<open>A word that is a key of kind \<open>k\<close> with \<open>n\<close> further characters.\<close>

definition key_word :: "char \<Rightarrow> nat \<Rightarrow> string \<Rightarrow> bool" where
  "key_word k n w \<longleftrightarrow> (case w of [] \<Rightarrow> False | c # cs \<Rightarrow> c = k \<and> length cs = n \<and> list_all is_key_char cs)"

lemma words_from_no_word: "\<not> is_word_at v \<Longrightarrow> words_from r v = words_from r [] @ words_from [] v"
  by (cases v) (auto simp: is_word_at_def)

lemma words_from_append:
  "\<not> is_word_at v \<or> u \<noteq> [] \<and> \<not> is_word_char (last u) \<or> u = [] \<and> r = [] \<Longrightarrow> words_from r (u @ v) = words_from r u @ words_from [] v"
proof (induction u arbitrary: r)
  case Nil
  then show ?case using words_from_no_word [of v r] by auto
next
  case (Cons c u)
  show ?case
  proof (cases "is_word_char c")
    case True
    then show ?thesis using Cons.IH [of "r @ [c]"] Cons.prems by (cases u) auto
  next
    case False
    then show ?thesis using Cons.IH [of "[]"] Cons.prems by (cases u) auto
  qed
qed

text \<open>The run of word characters before the scan, in the output.\<close>

definition run_ok :: "string \<Rightarrow> char option \<Rightarrow> string \<Rightarrow> bool" where
  "run_ok r prev s \<longleftrightarrow> (if is_word_opt prev then r \<noteq> [] \<or> \<not> is_word_at s else r = [])"

text \<open>What a replacement has to respect: a match is not empty, ends in a word character with none after it, and does not cut a word at its start.\<close>

locale word_replacement =
  fixes m :: matcher and f :: "string \<Rightarrow> string"
  assumes match_length: "m prev s = Some n \<Longrightarrow> 0 < n \<and> n \<le> length s"
    and match_end: "m prev s = Some n \<Longrightarrow> is_word_char (last (take n s)) \<and> \<not> is_word_at (drop n s)"
    and match_start: "m prev s = Some n \<Longrightarrow> is_word_opt prev \<Longrightarrow> \<not> is_word_at s \<and> \<not> is_word_at (f (take n s))"
begin

lemma replace_Nil [simp]: "replaceAll m f prev [] = []"
  by (subst replaceAll.simps) simp

lemma replace_match: "m prev s = Some n \<Longrightarrow> replaceAll m f prev s = f (take n s) @ replaceAll m f (Some (last (take n s))) (drop n s)"
  using match_length [of prev s n] by (subst replaceAll.simps) (cases n; auto split: list.splits)

lemma replace_skip: "m prev (c # cs) = None \<Longrightarrow> replaceAll m f prev (c # cs) = c # replaceAll m f (Some c) cs"
  by (subst replaceAll.simps) simp

lemma replace_induct [case_names Nil match skip]:
  assumes "\<And>prev. Q prev []"
    and "\<And>prev s n. m prev s = Some n \<Longrightarrow> Q (Some (last (take n s))) (drop n s) \<Longrightarrow> Q prev s"
    and "\<And>prev c cs. m prev (c # cs) = None \<Longrightarrow> Q (Some c) cs \<Longrightarrow> Q prev (c # cs)"
  shows "Q prev s"
proof (induction s arbitrary: prev rule: length_induct)
  case (1 s)
  show ?case
  proof (cases "m prev s")
    case None
    show ?thesis
    proof (cases s)
      case (Cons c cs)
      then have "Q (Some c) cs" using 1 by simp
      then show ?thesis using assms(3) None Cons by blast
    qed (simp add: assms(1))
  next
    case (Some n)
    have "length (drop n s) < length s" unfolding length_drop using match_length [OF Some] by linarith
    then show ?thesis using assms(2) [OF Some] 1 by blast
  qed
qed

lemma replace_not_word: "is_word_opt prev \<Longrightarrow> \<not> is_word_at s \<Longrightarrow> \<not> is_word_at (replaceAll m f prev s)"
proof (induction prev s rule: replace_induct)
  case (match prev s n)
  have "\<not> is_word_at (f (take n s))" using match_start match by blast
  moreover have "\<not> is_word_at (replaceAll m f (Some (last (take n s))) (drop n s))"
    using match(2) match_end [OF match(1)] by (simp add: is_word_opt_def)
  ultimately show ?case by (cases "f (take n s)") (simp_all add: replace_match [OF match(1)] is_word_at_def)
qed (simp_all add: replace_skip is_word_at_def)

lemma words_after_match:
  assumes "m prev s = Some n" "run_ok r prev s"
  shows "words_from r (replaceAll m f prev s) =
    words_from r [] @ words_from [] (f (take n s)) @ words_from [] (replaceAll m f (Some (last (take n s))) (drop n s))"
proof -
  let ?rest = "replaceAll m f (Some (last (take n s))) (drop n s)"
  have "\<not> is_word_at ?rest" by (rule replace_not_word) (use match_end [OF assms(1)] in \<open>simp_all add: is_word_opt_def\<close>)
  then have "words_from r (f (take n s) @ ?rest) = words_from r (f (take n s)) @ words_from [] ?rest" by (simp add: words_from_append)
  moreover have "words_from r (f (take n s)) = words_from r [] @ words_from [] (f (take n s))"
  proof (cases "is_word_opt prev")
    case True
    then show ?thesis using match_start [OF assms(1)] words_from_no_word by blast
  qed (use assms(2) in \<open>simp add: run_ok_def\<close>)
  ultimately show ?thesis by (simp add: replace_match [OF assms(1)])
qed

lemma words_of_match:
  assumes "m prev s = Some n" "run_ok r prev s"
  shows "words_from r s = words_from r [] @ words_from [] (take n s) @ words_from [] (drop n s)"
proof -
  have "words_from r s = words_from r (take n s) @ words_from [] (drop n s)"
    using match_end [OF assms(1)] words_from_append [of "drop n s" "take n s" r] by simp
  moreover have "words_from r (take n s) = words_from r [] @ words_from [] (take n s)"
  proof (cases "is_word_opt prev")
    case True
    then have "\<not> is_word_at (take n s)" using match_start [OF assms(1)] by (cases s; cases n) (simp_all add: is_word_at_def)
    then show ?thesis by (rule words_from_no_word)
  qed (use assms(2) in \<open>simp add: run_ok_def\<close>)
  ultimately show ?thesis by simp
qed

text \<open>No word of a kind is added where the replacements hold none.\<close>

lemma replace_keeps:
  assumes "\<And>prev s n. m prev s = Some n \<Longrightarrow> \<forall>w \<in> set (words_from [] (f (take n s))). \<not> P w"
    and "run_ok r prev s" "\<forall>w \<in> set (words_from r s). \<not> P w"
  shows "\<forall>w \<in> set (words_from r (replaceAll m f prev s)). \<not> P w"
  using assms(2,3)
proof (induction prev s arbitrary: r rule: replace_induct)
  case (match prev s n)
  have "run_ok [] (Some (last (take n s))) (drop n s)" using match_end [OF match(1)] by (simp add: run_ok_def)
  then have "\<forall>w \<in> set (words_from [] (replaceAll m f (Some (last (take n s))) (drop n s))). \<not> P w"
    using match(2) match(4) by (simp add: words_of_match [OF match(1,3)])
  then show ?case using assms(1) [OF match(1)] match(4)
    unfolding words_after_match [OF match(1,3)] words_of_match [OF match(1,3)] by auto
next
  case (skip prev c cs)
  let ?r = "if is_word_char c then r @ [c] else []"
  have "run_ok ?r (Some c) cs" by (simp add: run_ok_def is_word_opt_def)
  moreover have "\<forall>w \<in> set (words_from ?r cs). \<not> P w" using skip(4) by simp
  ultimately have "\<forall>w \<in> set (words_from ?r (replaceAll m f (Some c) cs)). \<not> P w" by (rule skip(2))
  then show ?case using skip(4) by (simp add: replace_skip [OF skip(1)] split: if_splits)
qed simp

text \<open>Every word of a kind is removed that the expression matches.\<close>

lemma replace_removes:
  assumes "\<And>prev s n. m prev s = Some n \<Longrightarrow> \<forall>w \<in> set (words_from [] (f (take n s))). \<not> P w"
    and "\<And>prev s. \<not> is_word_opt prev \<Longrightarrow> P (takeWhile is_word_char s) \<Longrightarrow> m prev s \<noteq> None" "\<not> P []"
    and "run_ok r prev s" "r \<noteq> [] \<Longrightarrow> \<not> P (r @ takeWhile is_word_char s)"
  shows "\<forall>w \<in> set (words_from r (replaceAll m f prev s)). \<not> P w"
  using assms(4,5)
proof (induction prev s arbitrary: r rule: replace_induct)
  case (match prev s n)
  have "run_ok [] (Some (last (take n s))) (drop n s)" using match_end [OF match(1)] by (simp add: run_ok_def)
  then have "\<forall>w \<in> set (words_from [] (replaceAll m f (Some (last (take n s))) (drop n s))). \<not> P w"
    by (rule match(2)) simp
  moreover have "\<forall>w \<in> set (words_from r []). \<not> P w"
  proof (cases "is_word_opt prev")
    case True
    then have "takeWhile is_word_char s = []" using match_start [OF match(1)] by (cases s) (simp_all add: is_word_at_def)
    then show ?thesis using match(4) by simp
  qed (use match(3) in \<open>simp add: run_ok_def\<close>)
  ultimately show ?case using assms(1) [OF match(1)] unfolding words_after_match [OF match(1,3)] by auto
next
  case (skip prev c cs)
  let ?r = "if is_word_char c then r @ [c] else []"
  have run: "run_ok ?r (Some c) cs" by (simp add: run_ok_def is_word_opt_def)
  have "\<not> P (r @ c # takeWhile is_word_char cs)" if "is_word_char c"
  proof (cases "r = []")
    case True
    then have "\<not> is_word_opt prev" using skip(3) that by (auto simp: run_ok_def is_word_at_def)
    then show ?thesis using assms(2) [of prev "c # cs"] skip(1) that True by auto
  qed (use skip(4) that in simp)
  then have "\<forall>w \<in> set (words_from ?r (replaceAll m f (Some c) cs)). \<not> P w" by (intro skip(2) run) (simp split: if_splits)
  then show ?case using skip(4) by (simp add: replace_skip [OF skip(1)] split: if_splits)
qed (use assms(3) in simp)

lemma keeps_words:
  assumes "\<And>x w. w \<in> set (words (f x)) \<Longrightarrow> \<not> P w"
    and "\<forall>w \<in> set (words s). \<not> P w"
  shows "\<forall>w \<in> set (words (replaceAll m f None s)). \<not> P w"
  unfolding words_def by (rule replace_keeps) (use assms in \<open>auto simp: run_ok_def is_word_opt_def words_def\<close>)

lemma removes_words:
  assumes "\<And>x w. w \<in> set (words (f x)) \<Longrightarrow> \<not> P w"
    and "\<And>prev s. \<not> is_word_opt prev \<Longrightarrow> P (takeWhile is_word_char s) \<Longrightarrow> m prev s \<noteq> None" "\<not> P []"
  shows "\<forall>w \<in> set (words (replaceAll m f None s)). \<not> P w"
  unfolding words_def by (rule replace_removes [of P]) (use assms in \<open>auto simp: run_ok_def is_word_opt_def words_def\<close>)

end

section \<open>The four expressions\<close>

lemma key_match_Some:
  assumes "key_match k n prev s = Some i"
  shows "i = Suc n \<and> \<not> is_word_opt prev \<and> (\<exists>cs. s = k # cs \<and> n \<le> length cs \<and> list_all is_key_char (take n cs) \<and> \<not> is_word_at (drop n cs))"
  using assms by (cases s) (auto simp: key_match_def split: if_splits)

lemma word_replacement_key:
  assumes "is_word_char k"
  shows "word_replacement (key_match k n) f"
proof
  fix prev s i assume m: "key_match k n prev s = Some i"
  note f = key_match_Some [OF m]
  then obtain cs where cs: "s = k # cs" "n \<le> length cs" "list_all is_key_char (take n cs)" "\<not> is_word_at (drop n cs)" by blast
  show "0 < i \<and> i \<le> length s" using f cs by simp
  have "is_word_char c" if "c \<in> set (k # take n cs)" for c using that assms cs(3) key_char_word by (auto simp: list_all_iff)
  then have "is_word_char (last (k # take n cs))" using last_in_set by blast
  then show "is_word_char (last (take i s)) \<and> \<not> is_word_at (drop i s)" using f cs by simp
  show "\<not> is_word_at s \<and> \<not> is_word_at (f (take i s))" if "is_word_opt prev" using that f by simp
qed

lemma tld_match_Some:
  assumes "tld_match s = Some n"
  shows "n \<le> length s \<and> 0 < n \<and> is_word_char (last (take n s)) \<and> \<not> is_word_at (drop n s)"
proof -
  obtain e j where e: "s = CHR ''.'' # e" "n = Suc j" "List.find (\<lambda>j. \<not> is_word_at (drop j e)) (rev [2..<Suc (length (takeWhile is_letter e))]) = Some j"
    using assms by (cases s) (auto simp: tld_match_def split: if_splits)
  then have "\<not> is_word_at (drop j e)" "j \<in> set (rev [2..<Suc (length (takeWhile is_letter e))])"
    using find_SomeD by fast+
  then have j: "\<not> is_word_at (drop j e)" "2 \<le> j" "j \<le> length (takeWhile is_letter e)" by auto
  then have "take j e = take j (takeWhile is_letter e)" by (metis takeWhile_eq_take take_take min.absorb1)
  moreover have "take j (takeWhile is_letter e) \<noteq> []" using j by auto
  ultimately have "last (take j e) \<in> set (takeWhile is_letter e)" by (metis last_in_set in_set_takeD)
  then have "is_word_char (last (take j e))" by (auto dest: set_takeWhileD simp: is_letter_def is_word_char_def)
  moreover have "j \<le> length e" using j(3) length_takeWhile_le le_trans by blast
  ultimately show ?thesis using j e by auto
qed

lemma domain_match_Some:
  assumes "domain_match d = Some n"
  shows "n \<le> length d \<and> 0 < n \<and> is_word_char (last (take n d)) \<and> \<not> is_word_at (drop n d)"
proof -
  obtain i j where i: "tld_match (drop i d) = Some j" "n = i + j" using assms by (auto simp: domain_match_def split: option.splits)
  note t = tld_match_Some [OF i(1)]
  then have "i \<le> length d" by (cases "i \<le> length d") auto
  moreover have "take n d = take i d @ take j (drop i d)" by (simp add: i(2) take_add)
  moreover have "take j (drop i d) \<noteq> []" using t by auto
  ultimately show ?thesis using t by (auto simp: i(2) add.commute)
qed

lemma word_replacement_email:
  assumes "\<And>x. \<not> is_word_at (f x)"
  shows "word_replacement EMAIL_REGEX f"
proof
  fix prev s i assume m: "EMAIL_REGEX prev s = Some i"
  let ?l = "takeWhile is_local_char s"
  from m obtain d n where d: "dropWhile is_local_char s = CHR ''@'' # d" "domain_match d = Some n" "i = length ?l + 1 + n" "is_word_opt prev \<noteq> is_word_at s"
    by (auto simp: EMAIL_REGEX_def Let_def split: if_splits list.splits)
  note t = domain_match_Some [OF d(2)]
  have s: "s = ?l @ CHR ''@'' # d" using d(1) by (metis takeWhile_dropWhile_id)
  have tk: "take i s = ?l @ CHR ''@'' # take n d" and dr: "drop i s = drop n d" by (subst s, simp add: d(3))+
  show "0 < i \<and> i \<le> length s" using t d(3) by (subst s) simp
  have "take n d \<noteq> []" using t by auto
  then show "is_word_char (last (take i s)) \<and> \<not> is_word_at (drop i s)" using t tk dr by simp
  show "\<not> is_word_at s \<and> \<not> is_word_at (f (take i s))" if "is_word_opt prev" using that d(4) assms by simp
qed

interpretation seeds: word_replacement STELLAR_SECRET_SEED_REGEX "\<lambda>_. ''[REDACTED_STELLAR_SECRET]''"
  unfolding STELLAR_SECRET_SEED_REGEX_def by (rule word_replacement_key) (simp add: is_word_char_def)

interpretation muxed: word_replacement STELLAR_MUXED_ACCOUNT_REGEX "\<lambda>_. ''[REDACTED_MUXED_ACCOUNT]''"
  unfolding STELLAR_MUXED_ACCOUNT_REGEX_def by (rule word_replacement_key) (simp add: is_word_char_def)

interpretation emails: word_replacement EMAIL_REGEX "\<lambda>_. ''[REDACTED_EMAIL]''"
  by (rule word_replacement_email) (simp add: is_word_at_def is_word_char_def is_digit_def)

interpretation log_addresses: word_replacement STELLAR_ADDRESS_REGEX truncateAddress
  unfolding STELLAR_ADDRESS_REGEX_def by (rule word_replacement_key) (simp add: is_word_char_def)

interpretation addresses: word_replacement STELLAR_ADDRESS_REGEX truncateWalletAddress
  unfolding STELLAR_ADDRESS_REGEX_def by (rule word_replacement_key) (simp add: is_word_char_def)

lemma key_word_start:
  assumes "\<not> is_word_opt prev" "key_word k n (takeWhile is_word_char s)"
  shows "key_match k n prev s \<noteq> None"
proof -
  obtain cs where cs: "takeWhile is_word_char s = k # cs" "length cs = n" "list_all is_key_char cs"
    using assms(2) by (auto simp: key_word_def split: list.splits)
  then have s: "s = k # cs @ dropWhile is_word_char s" by (metis append_Cons takeWhile_dropWhile_id)
  have "\<not> is_word_at (dropWhile is_word_char s)" by (auto simp: is_word_at_def hd_dropWhile dest: dropWhile_eq_Cons_conv [THEN iffD1] split: list.splits)
  then show ?thesis using assms(1) cs by (subst s) (simp add: key_match_def)
qed

text \<open>The regular expression for a key occurs in a text.\<close>

fun occurs :: "matcher \<Rightarrow> char option \<Rightarrow> string \<Rightarrow> bool" where
  "occurs m prev [] \<longleftrightarrow> False"
| "occurs m prev (c # cs) \<longleftrightarrow> m prev (c # cs) \<noteq> None \<or> occurs m (Some c) cs"

lemma key_match_word:
  assumes "key_match k n prev s \<noteq> None" "is_word_char k"
  shows "key_word k n (takeWhile is_word_char s)"
proof -
  obtain cs where cs: "s = k # cs" "n \<le> length cs" "list_all is_key_char (take n cs)" "\<not> is_word_at (drop n cs)"
    using assms(1) key_match_Some by blast
  have "takeWhile is_word_char (take n cs @ drop n cs) = take n cs @ takeWhile is_word_char (drop n cs)"
    using cs(3) key_char_word by (intro takeWhile_append2) (auto simp: list_all_iff)
  moreover have "takeWhile is_word_char (drop n cs) = []" using cs(4) by (cases "drop n cs") (simp_all add: is_word_at_def)
  ultimately show ?thesis using cs assms(2) by (simp add: key_word_def)
qed

lemma key_words_from:
  assumes "is_word_char k" "is_word_opt prev \<longleftrightarrow> r \<noteq> []"
  shows "(\<exists>w \<in> set (words_from r s). key_word k n w) \<longleftrightarrow> (r \<noteq> [] \<and> key_word k n (r @ takeWhile is_word_char s)) \<or> occurs (key_match k n) prev s"
  using assms(2)
proof (induction s arbitrary: r prev)
  case (Cons c cs)
  have m: "key_match k n prev (c # cs) \<noteq> None \<longleftrightarrow> r = [] \<and> is_word_char c \<and> key_word k n (c # takeWhile is_word_char cs)"
    using key_match_word [of k n prev "c # cs"] key_word_start [of prev k n "c # cs"] assms(1) Cons.prems key_match_Some [of k n prev "c # cs"]
    by (cases "is_word_char c"; cases "key_match k n prev (c # cs)") (auto simp: key_word_def)
  show ?case
  proof (cases "is_word_char c")
    case True
    then have "(\<exists>w \<in> set (words_from (r @ [c]) cs). key_word k n w) \<longleftrightarrow>
        (r @ [c] \<noteq> [] \<and> key_word k n ((r @ [c]) @ takeWhile is_word_char cs)) \<or> occurs (key_match k n) (Some c) cs"
      by (intro Cons.IH) (simp add: is_word_opt_def)
    then show ?thesis using m True by auto
  next
    case False
    then have "(\<exists>w \<in> set (words_from [] cs). key_word k n w) \<longleftrightarrow> occurs (key_match k n) (Some c) cs"
      using Cons.IH [of "Some c" "[]"] by (simp add: is_word_opt_def)
    then show ?thesis using m False by auto
  qed
qed (auto simp: key_word_def)

lemma key_words: "is_word_char k \<Longrightarrow> (\<exists>w \<in> set (words s). key_word k n w) \<longleftrightarrow> occurs (key_match k n) None s"
  unfolding words_def using key_words_from [of k None "[]"] by (simp add: is_word_opt_def)

section \<open>No key is left\<close>

definition keyless :: "string \<Rightarrow> bool" where
  "keyless s \<longleftrightarrow> list_all (\<lambda>w. \<not> key_word (CHR ''S'') 55 w \<and> \<not> key_word (CHR ''M'') 68 w \<and> \<not> key_word (CHR ''G'') 55 w) (words s)"

lemma key_word_length: "key_word k n w \<Longrightarrow> length w = Suc n"
  by (auto simp: key_word_def split: list.splits)

lemma words_from_length: "w \<in> set (words_from r s) \<Longrightarrow> length w \<le> length r + length s"
proof (induction r s rule: words_from.induct)
  case (2 r c cs)
  show ?case
  proof (cases "is_word_char c")
    case True
    then show ?thesis using 2 by simp
  next
    case False
    then have "w = r \<or> length w \<le> length cs" using 2 by (auto split: if_splits)
    then show ?thesis by auto
  qed
qed (simp split: if_splits)

text \<open>A short text has no key.\<close>

lemma short_keyless: "length s \<le> 55 \<Longrightarrow> 55 \<le> n \<Longrightarrow> w \<in> set (words s) \<Longrightarrow> \<not> key_word k n w"
  using words_from_length [of w "[]" s] unfolding words_def by (auto dest: key_word_length)

lemma length_truncated:
  "length (truncateAddress s) \<le> 55" "length (truncateWalletAddress s) \<le> 55"
proof -
  have "length (js_slice s (- 4) (int (length s))) \<le> 4" unfolding js_slice_def js_index_def Let_def by simp
  then show "length (truncateAddress s) \<le> 55" "length (truncateWalletAddress s) \<le> 55"
    unfolding truncateAddress_def truncateWalletAddress_def by auto
qed

text \<open>The four replacements in their order, for any short replacement of an address.\<close>

lemma redacted_keyless:
  assumes "word_replacement STELLAR_ADDRESS_REGEX f" "\<And>x. length (f x) \<le> 55"
  shows "keyless (replaceAll STELLAR_ADDRESS_REGEX f None (replaceAll EMAIL_REGEX (\<lambda>_. ''[REDACTED_EMAIL]'') None
    (replaceAll STELLAR_MUXED_ACCOUNT_REGEX (\<lambda>_. ''[REDACTED_MUXED_ACCOUNT]'') None
      (replaceAll STELLAR_SECRET_SEED_REGEX (\<lambda>_. ''[REDACTED_STELLAR_SECRET]'') None v))))"
proof -
  let ?a = "replaceAll STELLAR_SECRET_SEED_REGEX (\<lambda>_. ''[REDACTED_STELLAR_SECRET]'') None v"
  let ?b = "replaceAll STELLAR_MUXED_ACCOUNT_REGEX (\<lambda>_. ''[REDACTED_MUXED_ACCOUNT]'') None ?a"
  let ?c = "replaceAll EMAIL_REGEX (\<lambda>_. ''[REDACTED_EMAIL]'') None ?b"
  let ?d = "replaceAll STELLAR_ADDRESS_REGEX f None ?c"
  let ?free = "\<lambda>k n s. \<forall>w \<in> set (words s). \<not> key_word k n w"
  have nil: "\<not> key_word k n []" for k n by (simp add: key_word_def)
  note f = short_keyless [OF assms(2)]
  have texts: "length ''[REDACTED_STELLAR_SECRET]'' \<le> 55" "length ''[REDACTED_MUXED_ACCOUNT]'' \<le> 55" "length ''[REDACTED_EMAIL]'' \<le> 55"
    by simp_all
  have keep_d: "?free k n ?c \<Longrightarrow> ?free k n ?d" if "55 \<le> n" for k n
    using that by (intro word_replacement.keeps_words [OF assms(1)] f)
  have keep_c: "?free k n ?b \<Longrightarrow> ?free k n ?c" if "55 \<le> n" for k n
    using that by (intro emails.keeps_words short_keyless [OF texts(3)])
  have keep_b: "?free k n ?a \<Longrightarrow> ?free k n ?b" if "55 \<le> n" for k n
    using that by (intro muxed.keeps_words short_keyless [OF texts(2)])
  have "?free (CHR ''S'') 55 ?a"
    by (rule seeds.removes_words) (simp_all add: nil short_keyless [OF texts(1)] STELLAR_SECRET_SEED_REGEX_def key_word_start del: not_None_eq)
  then have S: "?free (CHR ''S'') 55 ?d" by (intro keep_d keep_c keep_b) simp_all
  have "?free (CHR ''M'') 68 ?b"
    by (rule muxed.removes_words) (simp_all add: nil short_keyless [OF texts(2)] STELLAR_MUXED_ACCOUNT_REGEX_def key_word_start del: not_None_eq)
  then have M: "?free (CHR ''M'') 68 ?d" by (intro keep_d keep_c) simp_all
  have "?free (CHR ''G'') 55 ?d"
    by (rule word_replacement.removes_words [OF assms(1)]) (simp_all add: nil f STELLAR_ADDRESS_REGEX_def key_word_start del: not_None_eq)
  with S M show ?thesis by (simp add: keyless_def list_all_iff)
qed

lemma redactLogString_keyless: "keyless (redactLogString v False)"
  unfolding redactLogString_def using redacted_keyless [OF log_addresses.word_replacement_axioms length_truncated(1)] by simp

lemma redactSupportString_keyless: "keyless (redactSupportString v)"
  unfolding redactSupportString_def by (rule redacted_keyless [OF addresses.word_replacement_axioms length_truncated(2)])

lemma short_text_keyless: "length s \<le> 55 \<Longrightarrow> keyless s"
  unfolding keyless_def list_all_iff by (auto dest: short_keyless [of s 55] short_keyless [of s 68])

lemma words_from_chars: "w \<in> set (words_from r s) \<Longrightarrow> set w \<subseteq> set r \<union> set s"
proof (induction r s rule: words_from.induct)
  case (2 r c cs)
  then show ?case by (auto split: if_splits)
qed (simp split: if_splits)

lemma key_word_chars: "w \<in> set (words s) \<Longrightarrow> key_word k n w \<Longrightarrow> k \<in> set s"
  using words_from_chars [of w "[]" s] by (auto simp: words_def key_word_def split: list.splits)

lemma keyless_chars: "CHR ''S'' \<notin> set s \<Longrightarrow> CHR ''M'' \<notin> set s \<Longrightarrow> CHR ''G'' \<notin> set s \<Longrightarrow> keyless s"
  unfolding keyless_def list_all_iff using key_word_chars by blast

lemma pad_digits_chars: "c \<in> set (pad_digits n i) \<Longrightarrow> is_digit c"
  by (auto simp: pad_digits_def js_padStart_def is_digit_def dest: digits_of_nat_digits)

lemma toISOString_chars: "c \<in> set (toISOString t) \<Longrightarrow> is_digit c \<or> c \<in> set ''+-T:.Z''"
  by (auto simp: toISOString_def iso_year_def Let_def split: prod.splits if_splits dest: pad_digits_chars)

lemma toISOString_keyless: "keyless (toISOString t)"
  by (rule keyless_chars) (auto dest: toISOString_chars simp: is_digit_def)

text \<open>Everything a value shows as text: strings, property names, names, messages and stacks of errors, what functions, symbols and class instances print as. Of these
  the redaction for the log copies property names, names of errors and what is not a plain object as they are (\<open>copied_texts\<close>).\<close>

fun texts_of :: "jval \<Rightarrow> string list" where
  "texts_of (VStr s) = [s]"
| "texts_of (VPrim t) = [t]"
| "texts_of (VOther i t) = [t]"
| "texts_of (VArr i xs) = concat (map texts_of xs)"
| "texts_of (VObj i ps) = concat (map (\<lambda>p. fst p # texts_of (snd p)) ps)"
| "texts_of (VError i nm msg stack extra) = nm # msg # (case stack of Some t \<Rightarrow> [t] | None \<Rightarrow> []) @ concat (map (\<lambda>p. fst p # texts_of (snd p)) extra)"
| "texts_of _ = []"

fun copied_texts :: "jval \<Rightarrow> string list" where
  "copied_texts (VPrim t) = [t]"
| "copied_texts (VOther i t) = [t]"
| "copied_texts (VArr i xs) = concat (map copied_texts xs)"
| "copied_texts (VObj i ps) = concat (map (\<lambda>p. fst p # copied_texts (snd p)) ps)"
| "copied_texts (VError i nm msg stack extra) = nm # concat (map (\<lambda>p. fst p # copied_texts (snd p)) extra)"
| "copied_texts _ = []"

abbreviation all_keyless :: "jval \<Rightarrow> bool" where
  "all_keyless v \<equiv> list_all keyless (texts_of v)"

lemma log_value_keyless:
  "\<forall>t \<in> set (texts_of (fst (redactValueInternal v seen))). keyless t \<or> t \<in> set (copied_texts v)"
  "\<forall>y \<in> set (fst (redactLogEntries vs seen)). \<forall>t \<in> set (texts_of y). keyless t \<or> (\<exists>v \<in> set vs. t \<in> set (copied_texts v))"
  "\<forall>q \<in> set (fst (redactLogProps ps seen)). \<forall>t \<in> set (fst q # texts_of (snd q)). keyless t \<or> (\<exists>p \<in> set ps. t \<in> set (fst p # copied_texts (snd p)))"
proof (induction v seen and vs seen and ps seen rule: redactValueInternal_redactLogEntries_redactLogProps.induct)
  case (2 i nm msg stack extra seen)
  show ?case
  proof (cases "i \<in> set seen")
    case False
    have "keyless t \<or> t \<in> set (copied_texts (VError i nm msg stack extra))"
      if "q \<in> set (fst (redactLogProps extra (i # seen)))" "t \<in> set (fst q # texts_of (snd q))" for q t
      using 2 [OF False] that by fastforce
    then show ?thesis using False by (auto simp: redactLogString_keyless Let_def split_def split: option.splits if_splits)
  qed (simp add: short_text_keyless)
next
  case (3 i xs seen)
  then show ?case by (cases "i \<in> set seen") (fastforce simp: short_text_keyless Let_def split_def)+
next
  case (4 i ps seen)
  show ?case
  proof (cases "i \<in> set seen")
    case False
    have "keyless t \<or> t \<in> set (copied_texts (VObj i ps))"
      if "q \<in> set (fst (redactLogProps ps (i # seen)))" "t \<in> set (fst q # texts_of (snd q))" for q t
      using 4 [OF False] that by fastforce
    then show ?thesis using False by (auto simp: Let_def split_def)
  qed (simp add: short_text_keyless)
next
  case (9 x xs seen)
  note rest = 9(2) [OF refl prod.collapse]
  then show ?case using 9(1) by (auto simp: Let_def split_def)
next
  case (11 p ps seen)
  note rest = 11(2) [OF refl prod.collapse]
  then show ?case using 11(1) by (auto simp: Let_def split_def)
qed (auto simp: redactLogString_keyless short_text_keyless)

text \<open>A key in a place that is copied reaches the log: here as a property name, as the name of an error and inside a class instance.\<close>

lemma copied_keys_survive:
  "redactLogValue (VObj 0 [(key, VOther 1 key), (''e'', VError 2 key [] None [])]) False = VObj 0 [(key, VOther 1 key), (''e'', VError 2 key [] None [])]"
proof -
  have "replaceAll m f prev [] = []" for m f prev by (subst replaceAll.simps) simp
  then show ?thesis by (simp add: redactLogValue_def redactLogString_def)
qed

text \<open>Plain data, as the support payloads are: strings, numbers, lists and objects whose property names are no longer than 55 characters.\<close>

fun plain_data :: "jval \<Rightarrow> bool" where
  "plain_data (VArr i xs) = list_all plain_data xs"
| "plain_data (VObj i ps) = list_all (\<lambda>p. length (fst p) \<le> 55 \<and> plain_data (snd p)) ps"
| "plain_data (VError i nm msg stack extra) = False"
| "plain_data (VPrim t) = False"
| "plain_data (VOther i t) = False"
| "plain_data _ = True"

lemma support_value_keyless:
  "plain_data v \<Longrightarrow> all_keyless (fst (redactInternal v seen))"
  "list_all plain_data vs \<Longrightarrow> list_all all_keyless (fst (redactEntries vs seen))"
  "list_all (\<lambda>p. length (fst p) \<le> 55 \<and> plain_data (snd p)) ps \<Longrightarrow> list_all (\<lambda>p. keyless (fst p) \<and> all_keyless (snd p)) (fst (redactProps ps seen))"
proof (induction v seen and vs seen and ps seen rule: redactInternal_redactEntries_redactProps.induct)
qed (auto simp: redactSupportString_keyless toISOString_keyless short_text_keyless length_truncated list_all_iff Let_def split: prod.splits if_splits)

section \<open>Other text is left alone\<close>

lemma replace_nothing: "\<not> occurs m prev s \<Longrightarrow> replaceAll m f prev s = s"
  by (induction s arbitrary: prev) (subst replaceAll.simps, simp)+

lemma email_needs_at: "CHR ''@'' \<notin> set s \<Longrightarrow> \<not> occurs EMAIL_REGEX prev s"
proof (induction s arbitrary: prev)
  case (Cons c cs)
  have "CHR ''@'' \<notin> set (dropWhile is_local_char (c # cs))" using Cons.prems set_dropWhileD by fastforce
  then have "EMAIL_REGEX prev (c # cs) = None" by (auto simp: EMAIL_REGEX_def Let_def split: list.splits)
  then show ?case using Cons by simp
qed simp

text \<open>Redaction touches only keys and e-mail addresses.\<close>

lemma redaction_spares_text:
  assumes "keyless s" "CHR ''@'' \<notin> set s"
  shows "redactSupportString s = s" "redactLogString s False = s"
proof -
  have k: "is_word_char (CHR ''S'')" "is_word_char (CHR ''M'')" "is_word_char (CHR ''G'')" by (simp_all add: is_word_char_def)
  have "\<not> occurs STELLAR_SECRET_SEED_REGEX None s" "\<not> occurs STELLAR_MUXED_ACCOUNT_REGEX None s" "\<not> occurs STELLAR_ADDRESS_REGEX None s"
    using assms(1) unfolding STELLAR_SECRET_SEED_REGEX_def STELLAR_MUXED_ACCOUNT_REGEX_def STELLAR_ADDRESS_REGEX_def keyless_def list_all_iff
    using key_words [OF k(1)] key_words [OF k(2)] key_words [OF k(3)] by blast+
  then show "redactSupportString s = s" "redactLogString s False = s"
    using email_needs_at [OF assms(2)] by (simp_all add: redactSupportString_def redactLogString_def replace_nothing)
qed

text \<open>The domain is as long as it can be: a trailing word after a dot that is too short is given up.\<close>

lemma email_example: "replaceAll EMAIL_REGEX (\<lambda>_. ''*'') None ''to a@b.org.x'' = ''to *.x''"
  by code_simp

text \<open>An object that is reached twice without a cycle is logged as a cycle the second time.\<close>

lemma shared_is_circular:
  "redactLogValue (VArr 0 [VObj 1 [(''a'', VNum (Fin 1))], VObj 1 [(''a'', VNum (Fin 1))]]) False =
     VArr 0 [VObj 1 [(''a'', VNum (Fin 1))], VStr ''[Circular]'']"
  by (simp add: redactLogValue_def)

end
