(* ===== verification/SupportTools.thy ===== *)
theory SupportTools
  imports Redaction Reconciliation PostgresRepos
begin

text \<open>
  The read-only support views (\<open>src/services/supportToolsService.ts\<close>) over the in-memory repositories, the reconciliation worker and the job queue. A payload is written as JSON
  data; \<open>label_json\<close> gives each object and array the identity of a new one, as evaluating the literals does, before it is redacted. An operation returns the view and,
  having no effect, no state; \<open>None\<close> is \<open>null\<close>.
\<close>

section \<open>Payloads\<close>

fun label_json :: "json \<Rightarrow> nat \<Rightarrow> jval \<times> nat"
and label_list :: "json list \<Rightarrow> nat \<Rightarrow> jval list \<times> nat"
and label_props :: "(string \<times> json) list \<Rightarrow> nat \<Rightarrow> (string \<times> jval) list \<times> nat" where
  "label_json JNull n = (VNull, n)"
| "label_json (JBool b) n = (VBool b, n)"
| "label_json (JNum x) n = (VNum x, n)"
| "label_json (JStr s) n = (VStr s, n)"
| "label_json (JArr xs) n = (let (ys, n') = label_list xs (Suc n) in (VArr n ys, n'))"
| "label_json (JObj ps) n = (let (qs, n') = label_props ps (Suc n) in (VObj n qs, n'))"
| "label_list [] n = ([], n)"
| "label_list (x # xs) n = (let (y, n1) = label_json x n; (ys, n2) = label_list xs n1 in (y # ys, n2))"
| "label_props [] n = ([], n)"
| "label_props (p # ps) n = (let (y, n1) = label_json (snd p) n; (ys, n2) = label_props ps n1 in ((fst p, y) # ys, n2))"

definition DEFAULT_RECENT_TX_LIMIT :: int where
  "DEFAULT_RECENT_TX_LIMIT = 20"

definition MAX_RECENT_TX_LIMIT :: int where
  "MAX_RECENT_TX_LIMIT = 100"

definition support_clampLimit :: "number \<Rightarrow> int" where
  "support_clampLimit limit =
     (case limit of
        Fin q \<Rightarrow> if q < 1 then DEFAULT_RECENT_TX_LIMIT else min \<lfloor>q\<rfloor> MAX_RECENT_TX_LIMIT
      | _ \<Rightarrow> DEFAULT_RECENT_TX_LIMIT)"

definition json_option :: "string option \<Rightarrow> json" where
  "json_option v = (case v of Some s \<Rightarrow> JStr s | None \<Rightarrow> JNull)"

definition toCreditLineSnapshot :: "CreditLine \<Rightarrow> json" where
  "toCreditLineSnapshot line = JObj
     [(''id'', JStr (cl_id line)), (''walletAddress'', JStr (cl_walletAddress line)), (''creditLimit'', JStr (cl_creditLimit line)),
      (''availableCredit'', JStr (cl_availableCredit line)), (''utilized'', JStr (cl_utilized line)), (''interestRateBps'', JNum (cl_interestRateBps line)),
      (''status'', JStr (line_status_string (cl_status line))),
      (''version'', case cl_version line of Some v \<Rightarrow> JNum (Fin (of_int v)) | None \<Rightarrow> JNull),
      (''createdAt'', JStr (toISOString (cl_createdAt line))), (''updatedAt'', JStr (toISOString (cl_updatedAt line)))]"

definition toTransactionSnapshot :: "Transaction \<Rightarrow> json" where
  "toTransactionSnapshot tx = JObj
     [(''id'', JStr (tx_id tx)), (''creditLineId'', JStr (tx_creditLineId tx)), (''walletAddress'', JStr (tx_walletAddress tx)),
      (''amount'', JStr (tx_amount tx)), (''type'', JStr (tx_type_string (tx_type tx))), (''status'', JStr (tx_status_string (tx_status tx))),
      (''blockchainTxHash'', json_option (tx_blockchainTxHash tx)), (''createdAt'', JStr (toISOString (tx_createdAt tx))),
      (''processedAt'', json_option (map_option toISOString (tx_processedAt tx)))]"

section \<open>The service\<close>

record 'w SupportToolsServiceDeps =
  sd_creditLineRepository :: creditLineRepo
  sd_transactionRepository :: transactionRepo
  sd_reconciliationWorker :: reconciliation_worker
  sd_jobQueue :: "(unit, 'w) job_queue"

definition SupportToolsService_getReconciliationStatus :: "'w SupportToolsServiceDeps \<Rightarrow> json" where
  "SupportToolsService_getReconciliationStatus deps = JObj
     [(''workerRunning'', JBool (rw_running (sd_reconciliationWorker deps))),
      (''queueSize'', JNum (Fin (of_nat (InMemoryJobQueue_size (sd_jobQueue deps))))),
      (''failedJobs'', JNum (Fin (of_nat (length (InMemoryJobQueue_getFailedJobs (sd_jobQueue deps)))))),
      (''readOnly'', JBool True)]"

definition borrower_payload :: "(string \<Rightarrow> string \<Rightarrow> int) \<Rightarrow> 'w SupportToolsServiceDeps \<Rightarrow> string \<Rightarrow> number option \<Rightarrow> time \<Rightarrow> json" where
  "borrower_payload lc deps walletAddress recentTxLimit now =
     (let limit = support_clampLimit (case recentTxLimit of Some l \<Rightarrow> l | None \<Rightarrow> Fin (of_int DEFAULT_RECENT_TX_LIMIT));
          lines = InMemoryCreditLineRepository_findByWalletAddress lc (sd_creditLineRepository deps) walletAddress;
          txs = InMemoryTransactionRepository_findByWalletAddress lc (sd_transactionRepository deps) walletAddress (Some 0) (Some limit)
      in JObj
        [(''walletAddress'', JStr walletAddress), (''creditLines'', JArr (map toCreditLineSnapshot lines)),
         (''recentTransactions'', JArr (map toTransactionSnapshot txs)), (''reconciliation'', SupportToolsService_getReconciliationStatus deps),
         (''generatedAt'', JStr (toISOString now)), (''found'', JBool (lines \<noteq> []))])"

definition SupportToolsService_getBorrowerLookup ::
  "(string \<Rightarrow> string \<Rightarrow> int) \<Rightarrow> 'w SupportToolsServiceDeps \<Rightarrow> string \<Rightarrow> number option \<Rightarrow> time \<Rightarrow> jval" where
  "SupportToolsService_getBorrowerLookup lc deps walletAddress recentTxLimit now =
     redactSupportValue (fst (label_json (borrower_payload lc deps walletAddress recentTxLimit now) 0))"

definition SupportToolsService_getCreditLineLookup ::
  "(string \<Rightarrow> string \<Rightarrow> int) \<Rightarrow> 'w SupportToolsServiceDeps \<Rightarrow> string \<Rightarrow> number option \<Rightarrow> time \<Rightarrow> jval option" where
  "SupportToolsService_getCreditLineLookup lc deps creditLineId recentTxLimit now =
     (let limit = support_clampLimit (case recentTxLimit of Some l \<Rightarrow> l | None \<Rightarrow> Fin (of_int DEFAULT_RECENT_TX_LIMIT))
      in (case InMemoryCreditLineRepository_findById (sd_creditLineRepository deps) creditLineId of
            None \<Rightarrow> None
          | Some line \<Rightarrow>
              let txs = InMemoryTransactionRepository_findByCreditLineId lc (sd_transactionRepository deps) creditLineId (Some 0) (Some limit);
                  payload = JObj
                    [(''creditLine'', toCreditLineSnapshot line), (''recentTransactions'', JArr (map toTransactionSnapshot txs)),
                     (''reconciliation'', SupportToolsService_getReconciliationStatus deps), (''generatedAt'', JStr (toISOString now))]
              in Some (redactSupportValue (fst (label_json payload 0)))))"

definition SupportToolsService_getRecentTransactions ::
  "(string \<Rightarrow> string \<Rightarrow> int) \<Rightarrow> 'w SupportToolsServiceDeps \<Rightarrow> string \<Rightarrow> number option \<Rightarrow> jval option" where
  "SupportToolsService_getRecentTransactions lc deps creditLineId limit =
     (if \<not> InMemoryCreditLineRepository_exists (sd_creditLineRepository deps) creditLineId then None
      else let txs = InMemoryTransactionRepository_findByCreditLineId lc (sd_transactionRepository deps) creditLineId (Some 0)
                 (Some (support_clampLimit (case limit of Some l \<Rightarrow> l | None \<Rightarrow> Fin (of_int DEFAULT_RECENT_TX_LIMIT))))
           in Some (redactSupportValue (fst (label_json (JArr (map toTransactionSnapshot txs)) 0))))"

section \<open>The views are the redacted payloads\<close>

lemma support_clampLimit_bounds: "1 \<le> support_clampLimit l \<and> support_clampLimit l \<le> 100"
  by (cases l) (auto simp: support_clampLimit_def DEFAULT_RECENT_TX_LIMIT_def MAX_RECENT_TX_LIMIT_def le_floor_iff)

text \<open>The property names of the payloads are literals of the program.\<close>

fun short_names :: "json \<Rightarrow> bool" where
  "short_names (JArr xs) = list_all short_names xs"
| "short_names (JObj ps) = list_all (\<lambda>p. length (fst p) \<le> 55 \<and> short_names (snd p)) ps"
| "short_names _ = True"

lemma label_plain:
  "short_names j \<Longrightarrow> plain_data (fst (label_json j n))"
  "list_all short_names js \<Longrightarrow> list_all plain_data (fst (label_list js n))"
  "list_all (\<lambda>p. length (fst p) \<le> 55 \<and> short_names (snd p)) ps \<Longrightarrow> list_all (\<lambda>p. length (fst p) \<le> 55 \<and> plain_data (snd p)) (fst (label_props ps n))"
  by (induction j n and js n and ps n rule: label_json_label_list_label_props.induct) (auto split: prod.splits)

lemma snapshot_names: "short_names (toCreditLineSnapshot l)" "short_names (toTransactionSnapshot t)" "short_names (SupportToolsService_getReconciliationStatus deps)"
  by (simp_all add: toCreditLineSnapshot_def toTransactionSnapshot_def SupportToolsService_getReconciliationStatus_def json_option_def split: option.splits)

lemma snapshots_names: "short_names (JArr (map toTransactionSnapshot ts))" "short_names (JArr (map toCreditLineSnapshot ls))"
  by (simp_all add: list.pred_map comp_def list.pred_True snapshot_names)

lemma payload_keyless: "short_names j \<Longrightarrow> all_keyless (redactSupportValue (fst (label_json j n)))"
  unfolding redactSupportValue_def by (intro support_value_keyless(1) label_plain(1))

text \<open>Redaction of JSON data without the memory of entered objects: nothing in a payload of new objects is taken for a cycle.\<close>

fun support_json :: "json \<Rightarrow> json" where
  "support_json (JStr s) = JStr (redactSupportString s)"
| "support_json (JArr xs) = JArr (map support_json xs)"
| "support_json (JObj ps) = JObj (map (\<lambda>p. (fst p,
     if SENSITIVE_KEY_PATTERN (fst p) then JStr ''[REDACTED]''
     else case snd p of
        JStr s \<Rightarrow> if fst p = ''walletAddress'' \<or> fst p = ''borrowerWallet'' then JStr (truncateWalletAddress s) else support_json (snd p)
      | _ \<Rightarrow> support_json (snd p))) ps)"
| "support_json v = v"

fun unlabel :: "jval \<Rightarrow> json" where
  "unlabel (VBool b) = JBool b"
| "unlabel (VNum x) = JNum x"
| "unlabel (VStr s) = JStr s"
| "unlabel (VArr i xs) = JArr (map unlabel xs)"
| "unlabel (VObj i ps) = JObj (map (\<lambda>p. (fst p, unlabel (snd p))) ps)"
| "unlabel _ = JNull"

definition below :: "nat \<Rightarrow> nat list \<Rightarrow> bool" where
  "below n seen \<longleftrightarrow> (\<forall>i \<in> set seen. i < n)"

lemma below_Cons: "below n seen \<Longrightarrow> n \<notin> set seen \<and> below (Suc n) (n # seen)"
  by (auto simp: below_def less_Suc_eq)

lemma below_mono: "below n seen \<Longrightarrow> n \<le> n' \<Longrightarrow> below n' seen"
  by (auto simp: below_def)

lemma label_grows:
  "n \<le> snd (label_json j n)" "n \<le> snd (label_list js n)" "n \<le> snd (label_props ps n)"
proof (induction j n and js n and ps n rule: label_json_label_list_label_props.induct)
  case (8 x xs n)
  then show ?case using 8(2) [OF refl prod.collapse] by (simp add: split_def Let_def)
next
  case (10 p ps n)
  then show ?case using 10(2) [OF refl prod.collapse] by (simp add: split_def Let_def)
qed (auto simp: split_def Let_def)

lemma label_is_VStr: "is_VStr (fst (label_json j n)) \<longleftrightarrow> (\<exists>s. j = JStr s)"
  by (cases j) (auto simp: is_VStr_def split: prod.splits)

lemma redact_labelled:
  "below n seen \<Longrightarrow> unlabel (fst (redactInternal (fst (label_json j n)) seen)) = support_json j \<and>
     below (snd (label_json j n)) (snd (redactInternal (fst (label_json j n)) seen))"
  "below n seen \<Longrightarrow> map unlabel (fst (redactEntries (fst (label_list js n)) seen)) = map support_json js \<and>
     below (snd (label_list js n)) (snd (redactEntries (fst (label_list js n)) seen))"
  "below n seen \<Longrightarrow> JObj (map (\<lambda>p. (fst p, unlabel (snd p))) (fst (redactProps (fst (label_props ps n)) seen))) = support_json (JObj ps) \<and>
     below (snd (label_props ps n)) (snd (redactProps (fst (label_props ps n)) seen))"
proof (induction j n and js n and ps n arbitrary: seen and seen and seen rule: label_json_label_list_label_props.induct)
  case (5 xs n)
  then show ?case using 5(1) [of "n # seen"] below_Cons [of n seen] by (simp add: split_def Let_def)
next
  case (6 ps n)
  then show ?case using 6(1) [of "n # seen"] below_Cons [of n seen] by (simp add: split_def Let_def)
next
  case (8 x xs n)
  note x = 8(1) [OF 8(3)]
  note xs = 8(2) [OF refl prod.collapse, of "snd (redactInternal (fst (label_json x n)) seen)"]
  show ?case using x xs by (simp add: split_def Let_def)
next
  case (10 p ps n)
  obtain k j where p: "p = (k, j)" by (cases p)
  let ?seen1 = "if SENSITIVE_KEY_PATTERN k \<or> (k = ''walletAddress'' \<or> k = ''borrowerWallet'') \<and> is_VStr (fst (label_json j n)) then seen
    else snd (redactInternal (fst (label_json j n)) seen)"
  have j: "unlabel (fst (redactInternal (fst (label_json j n)) seen)) = support_json j" and "below (snd (label_json j n)) ?seen1"
    using 10(1) [OF 10(3)] below_mono [OF 10(3) label_grows(1) [of n j]] by (simp_all add: p)
  then have ps: "JObj (map (\<lambda>p. (fst p, unlabel (snd p))) (fst (redactProps (fst (label_props ps (snd (label_json j n)))) ?seen1))) = support_json (JObj ps)"
    "below (snd (label_props ps (snd (label_json j n)))) (snd (redactProps (fst (label_props ps (snd (label_json j n)))) ?seen1))"
    using 10(2) [OF refl prod.collapse, of ?seen1] by (simp_all add: p)
  show ?case using j ps by (cases j) (simp_all add: p split_def Let_def is_VStr_def str_of_def split: if_splits)
qed (auto simp: split_def Let_def)

text \<open>At most a hundred transactions are shown.\<close>

lemma recent_transactions_bounded:
  "length (InMemoryTransactionRepository_select lc m p (Some 0) (Some (support_clampLimit l))) \<le> 100"
  using support_clampLimit_bounds [of l] by (auto simp: InMemoryTransactionRepository_select_def Let_def js_slice_def js_index_def min_def)

section \<open>Property\<close>

text \<open>C11. No key leaves through the support views, and the log shows keys only where it copies. The borrower view is the payload with every string redacted, nothing in it being taken
  for a cycle; in every view no text, property names included, contains a secret seed, a muxed account or a full public key, that is, none of their regular expressions occurs in it. With the
  debug switch off, every text of an argument handed to the log, cyclic or not, is free of keys too or is one of those the redaction copies from the argument: a property name, the name of an error, or what a
  function, symbol or class instance holds (\<open>copied_keys_survive\<close>); with the switch on the arguments are logged as they are. A view of a line is \<open>null\<close> exactly when the line does not exist.\<close>

theorem support_views_hide_keys:
  "unlabel (SupportToolsService_getBorrowerLookup lc deps wallet limit now) = support_json (borrower_payload lc deps wallet limit now) \<and>
   all_keyless (SupportToolsService_getBorrowerLookup lc deps wallet limit now) \<and>
   pred_option all_keyless (SupportToolsService_getCreditLineLookup lc deps lineId limit now) \<and>
   pred_option all_keyless (SupportToolsService_getRecentTransactions lc deps lineId limit) \<and>
   (SupportToolsService_getCreditLineLookup lc deps lineId limit now = None \<longleftrightarrow> \<not> InMemoryCreditLineRepository_exists (sd_creditLineRepository deps) lineId) \<and>
   list_all2 (\<lambda>arg shown. list_all (\<lambda>t. keyless t \<or> t \<in> set (copied_texts arg)) (texts_of shown)) args (redactLogArgs args False) \<and>
   redactLogArgs args True = args"
proof (intro conjI)
  show "unlabel (SupportToolsService_getBorrowerLookup lc deps wallet limit now) = support_json (borrower_payload lc deps wallet limit now)"
    unfolding SupportToolsService_getBorrowerLookup_def redactSupportValue_def by (rule redact_labelled(1) [THEN conjunct1]) (simp add: below_def)
  have "short_names (borrower_payload lc deps wallet limit now)"
    unfolding borrower_payload_def Let_def by (simp add: snapshots_names snapshot_names del: short_names.simps(1))
  then show "all_keyless (SupportToolsService_getBorrowerLookup lc deps wallet limit now)"
    unfolding SupportToolsService_getBorrowerLookup_def by (rule payload_keyless)
  show "pred_option all_keyless (SupportToolsService_getCreditLineLookup lc deps lineId limit now)"
    unfolding SupportToolsService_getCreditLineLookup_def Let_def
    by (auto split: option.split intro!: payload_keyless simp: snapshots_names snapshot_names simp del: short_names.simps(1) label_json.simps)
  show "pred_option all_keyless (SupportToolsService_getRecentTransactions lc deps lineId limit)"
    unfolding SupportToolsService_getRecentTransactions_def Let_def using payload_keyless [OF snapshots_names(1)] by (simp del: label_json.simps)
  show "list_all2 (\<lambda>arg shown. list_all (\<lambda>t. keyless t \<or> t \<in> set (copied_texts arg)) (texts_of shown)) args (redactLogArgs args False)"
    unfolding redactLogArgs_def redactLogValue_def using log_value_keyless(1) by (simp add: list_all2_conv_all_nth list_all_iff)
qed (simp_all add: SupportToolsService_getCreditLineLookup_def redactLogArgs_def
    InMemoryCreditLineRepository_exists_def InMemoryCreditLineRepository_findById_def jsmap_has_def Let_def del: label_json.simps split: option.splits)

end
