(* ===== verification/Routes.thy ===== *)
theory Routes
  imports CreditLineService CreditService ServiceAuth AdminAudit Problems
begin

text \<open>
  Request handlers that compose several components: the preflight simulation of draws and repayments (\<open>src/routes/simulation.ts\<close>), the administrators' suspension and closing of a credit line
  (\<open>src/routes/credit.ts\<close>) with its authentication, audit record and error translation, and the validation middleware (\<open>src/middleware/validate.ts\<close>). A schema is a parameter
  \<open>safeParse\<close> that returns the parsed value or the list of issues; the issues have a path and a message.
\<close>

section \<open>Validation\<close>

record zod_issue =
  zi_path :: "string list"
  zi_message :: string

record ValidationIssue =
  vi_field :: string
  vi_message :: string

definition toValidationDetails :: "zod_issue list \<Rightarrow> ValidationIssue list" where
  "toValidationDetails issues = map (\<lambda>issue.
     \<lparr>vi_field = (if zi_path issue \<noteq> [] then js_join ''.'' (zi_path issue) else ''(root)''), vi_message = zi_message issue\<rparr>) issues"

definition issue_value :: "zod_issue \<Rightarrow> js_value" where
  "issue_value issue = JsObject [(''field'', JsString (js_join ''.'' (zi_path issue))), (''message'', JsString (zi_message issue))]"

text \<open>\<open>validateBody\<close>, \<open>validateQuery\<close> and \<open>validateParams\<close> differ in the part of the request they read and replace.\<close>

definition validatePart :: "('a \<Rightarrow> zod_issue list + 'b) \<Rightarrow> 'a \<Rightarrow> problem_response + 'b" where
  "validatePart safeParse part =
     (case safeParse part of
        Inl issues \<Rightarrow> Inl (sendProblem (appErrorToProblem (validationFailed ''Validation failed'' (JsArray (map issue_value issues)))))
      | Inr data \<Rightarrow> Inr data)"

definition isResponseValidationEnabled :: "(string \<Rightarrow> string option) \<Rightarrow> bool" where
  "isResponseValidationEnabled env =
     (let flag = (case env ''ENABLE_RESPONSE_VALIDATION'' of Some f \<Rightarrow> Some f | None \<Rightarrow> env ''RESPONSE_SCHEMA_VALIDATION'')
      in flag = Some ''true'' \<or> flag = Some ''1'')"

definition assertMatchesSchema :: "('a \<Rightarrow> zod_issue list + 'b) \<Rightarrow> 'a \<Rightarrow> string \<Rightarrow> js_error + 'b" where
  "assertMatchesSchema safeParse v label =
     (case safeParse v of
        Inl issues \<Rightarrow> Inl (Error (''Schema validation failed for '' @ label @ '': '' @
          js_join ''; '' (map (\<lambda>d. vi_field d @ '': '' @ vi_message d) (toValidationDetails issues))))
      | Inr data \<Rightarrow> Inr data)"

text \<open>What \<open>res.json(body)\<close> sends behind \<open>validateResponse\<close>: the status set so far, the body, and whether the headers went out before. The recorded violation is the third component.\<close>

definition validateResponse ::
  "(string \<Rightarrow> string option) \<Rightarrow> (js_value \<Rightarrow> zod_issue list + 'b) \<Rightarrow> bool \<Rightarrow> int \<Rightarrow> js_value \<Rightarrow> int \<times> js_value \<times> ValidationIssue list option" where
  "validateResponse env safeParse headersSent status body =
     (if \<not> isResponseValidationEnabled env then (status, body, None)
      else case safeParse body of
        Inl issues \<Rightarrow>
          (if headersSent then status else 500, JsObject [(''data'', JsNull), (''error'', JsString ''Response contract violation'')],
           Some (toValidationDetails issues))
      | Inr _ \<Rightarrow> (status, body, None))"

section \<open>Simulation\<close>

definition INTEREST_RATE_DIVISOR :: number where
  "INTEREST_RATE_DIVISOR = Fin 10000"

record draw_simulation =
  ds_valid :: bool
  ds_issues :: "string list"
  ds_requestedAmount :: number
  ds_estimatedFee :: number
  ds_newBalance :: "number option"
  ds_remainingCredit :: number

definition simulateDraw :: "'s CreditLineRepository \<Rightarrow> 's service_state \<Rightarrow> string \<Rightarrow> string \<Rightarrow> js_error + draw_simulation" where
  "simulateDraw R st lineId amount =
     (case CreditLineService_getCreditLine R st lineId of
        None \<Rightarrow> Inl (CreditLineNotFoundError lineId)
      | Some line \<Rightarrow>
          let drawAmount = js_Number amount;
              availableCredit = num_sub (js_Number (cl_creditLimit line)) (js_Number (cl_utilized line));
              valid = (num_gt drawAmount (Fin 0) \<and> num_le drawAmount availableCredit);
              interestBps = cl_interestRateBps line;
              estimatedFee = num_ceil (num_div (num_mul drawAmount interestBps) INTEREST_RATE_DIVISOR)
          in Inr \<lparr>ds_valid = valid,
              ds_issues = (if valid then []
                else (if num_le drawAmount (Fin 0) then [''amount must be positive''] else []) @
                     (if num_gt drawAmount availableCredit
                      then [''amount '' @ num_toString drawAmount @ '' exceeds available credit '' @ num_toString availableCredit] else [])),
              ds_requestedAmount = drawAmount, ds_estimatedFee = estimatedFee,
              ds_newBalance = (if valid then Some (num_add (js_Number (cl_utilized line)) drawAmount) else None),
              ds_remainingCredit = (if valid then num_sub availableCredit drawAmount else availableCredit)\<rparr>)"

record repay_simulation =
  rs_valid :: bool
  rs_issues :: "string list"
  rs_requestedAmount :: number
  rs_effectiveRepayAmount :: number
  rs_overpaymentReturned :: number
  rs_newBalance :: number

definition simulateRepay :: "'s CreditLineRepository \<Rightarrow> 's service_state \<Rightarrow> string \<Rightarrow> string \<Rightarrow> js_error + repay_simulation" where
  "simulateRepay R st lineId amount =
     (case CreditLineService_getCreditLine R st lineId of
        None \<Rightarrow> Inl (CreditLineNotFoundError lineId)
      | Some line \<Rightarrow>
          let repayAmount = js_Number amount;
              currentBalance = js_Number (cl_utilized line);
              effectiveRepay = num_min repayAmount currentBalance;
              valid = num_gt repayAmount (Fin 0)
          in Inr \<lparr>rs_valid = valid, rs_issues = (if valid then [] else [''amount must be positive'']),
              rs_requestedAmount = repayAmount, rs_effectiveRepayAmount = effectiveRepay,
              rs_overpaymentReturned = (if num_gt repayAmount currentBalance then num_sub repayAmount currentBalance else Fin 0),
              rs_newBalance = (if valid then num_sub currentBalance effectiveRepay else currentBalance)\<rparr>)"

text \<open>The response of either endpoint; \<open>render\<close> writes the simulation as the payload. Anything but an unknown line is passed on.\<close>

definition simulation_response :: "('a \<Rightarrow> js_value) \<Rightarrow> js_error + 'a \<Rightarrow> js_error + (int \<times> js_value)" where
  "simulation_response render r =
     (case r of
        Inr x \<Rightarrow> Inr (ok_response (render x) 200)
      | Inl (CreditLineNotFoundError i) \<Rightarrow>
          Inr (fail_response (ValThrown (JsString (''Credit line \"'' @ i @ ''\" not found.''))) 404)
      | Inl e \<Rightarrow> Inl e)"

section \<open>Administrative transitions\<close>

fun action_string :: "line_action \<Rightarrow> string" where
  "action_string ActCreated = ''created''"
| "action_string ActSuspended = ''suspended''"
| "action_string ActClosed = ''closed''"

definition line_json :: "StatusLine \<Rightarrow> json" where
  "line_json line = JObj
     [(''id'', JStr (ln_id line)), (''status'', JStr (status_text (ln_status line))), (''createdAt'', JStr (toISOString (ln_createdAt line))),
      (''updatedAt'', JStr (toISOString (ln_updatedAt line))),
      (''events'', JArr (map (\<lambda>e. JObj [(''action'', JStr (action_string (ev_action e))), (''timestamp'', JStr (toISOString (ev_timestamp e)))]) (ln_events line)))]"

text \<open>The error classes that the service throws and their messages; everything else becomes an internal error.\<close>

definition handleServiceError :: "js_error \<Rightarrow> problem_response" where
  "handleServiceError err = sendProblem (appErrorToProblem
     (case err of
        CreditLineNotFoundError i \<Rightarrow> notFound (''Credit line \"'' @ i @ ''\" not found.'') (JsString ''credit_line'') JsUndefined
      | InvalidTransitionError st act \<Rightarrow>
          ConflictError_new (''Cannot \"'' @ act @ ''\" a credit line that is already \"'' @ st @ ''\".'') (Some ''invalid_state_transition'') (JsString ''credit_line'') JsUndefined
      | VersionConflictError i ev av \<Rightarrow>
          ConflictError_new (''Credit line was modified concurrently (expected version '' @ show_int ev @ '', found '' @ show_int av @ ''). Re-read and retry.'')
            (Some ''version_conflict'') (JsString ''credit_line'') JsUndefined
      | _ \<Rightarrow> internalError ''Internal server error''))"

datatype admin_response =
    RouteAuth auth_response
  | RouteProblem problem_response
  | RouteLine StatusLine string

record admin_state =
  as_store :: credit_store
  as_audit :: "AdminAuditRecord list"

text \<open>What one request draws from its surroundings: the identifiers of the transaction, the audit record and the correlation, and two readings of the clock.\<close>

record admin_inputs =
  in_txUuid :: string
  in_auditUuid :: string
  in_corrUuid :: string
  in_now :: time
  in_auditNow :: time

definition actor_header :: "http_request \<Rightarrow> string list option" where
  "actor_header req = (case jsmap_get (rq_headers req) ''x-admin-api-key'' of Some (HStr v) \<Rightarrow> Some [v] | Some (HArr vs) \<Rightarrow> Some vs | None \<Rightarrow> None)"

definition transition_input :: "(string \<Rightarrow> string) \<Rightarrow> http_request \<Rightarrow> string \<Rightarrow> string \<Rightarrow> StatusLine option \<Rightarrow> StatusLine \<Rightarrow> AdminAuditRecordInput" where
  "transition_input sha req action lineId before line =
     \<lparr>ai_actor = adminActorFromRequest sha (actor_header req), ai_action = action, ai_targetType = ''credit_line'', ai_targetId = Some lineId,
      ai_before = map_option line_json before, ai_after = Some (line_json line), ai_correlationId = None\<rparr>"

text \<open>Both handlers: authentication, the parameter schema, then the transition, the audit record and the answer.\<close>

definition admin_transition ::
  "(string \<Rightarrow> string) \<Rightarrow> (string \<Rightarrow> string \<Rightarrow> int) \<Rightarrow> string option \<Rightarrow> (string \<Rightarrow> zod_issue list + string) \<Rightarrow>
     (string \<Rightarrow> string \<Rightarrow> time \<Rightarrow> (credit_store, StatusLine) comp) \<Rightarrow> string \<Rightarrow> string \<Rightarrow> http_request \<Rightarrow> string \<Rightarrow> admin_inputs \<Rightarrow> admin_state \<Rightarrow> admin_response \<times> admin_state" where
  "admin_transition sha lc expectedKey idParamSchema move action message req rawId inp st =
     (case adminAuth sha expectedKey req of
        AuthNext \<Rightarrow>
          (case validatePart idParamSchema rawId of
             Inl problem \<Rightarrow> (RouteProblem problem, st)
           | Inr lineId \<Rightarrow>
               let before = getCreditLine lineId (as_store st)
               in (case move lineId (in_txUuid inp) (in_now inp) (as_store st) of
                     (Inl err, s1) \<Rightarrow> (RouteProblem (handleServiceError err), st\<lparr>as_store := s1\<rparr>)
                   | (Inr line, s1) \<Rightarrow>
                       (RouteLine line message,
                        \<lparr>as_store = s1,
                         as_audit = snd (AdminAuditLog_record sha lc (transition_input sha req action lineId before line)
                           (in_auditUuid inp) (in_corrUuid inp) (in_auditNow inp) (as_audit st))\<rparr>)))
      | refusal \<Rightarrow> (RouteAuth refusal, st))"

definition suspendRoute ::
  "(string \<Rightarrow> string) \<Rightarrow> (string \<Rightarrow> string \<Rightarrow> int) \<Rightarrow> string option \<Rightarrow> (string \<Rightarrow> zod_issue list + string) \<Rightarrow> http_request \<Rightarrow> string \<Rightarrow> admin_inputs \<Rightarrow> admin_state \<Rightarrow> admin_response \<times> admin_state" where
  "suspendRoute sha lc expectedKey idParamSchema =
     admin_transition sha lc expectedKey idParamSchema suspendCreditLine ''credit_line.suspended'' ''Credit line suspended.''"

definition closeRoute ::
  "(string \<Rightarrow> string) \<Rightarrow> (string \<Rightarrow> string \<Rightarrow> int) \<Rightarrow> string option \<Rightarrow> (string \<Rightarrow> zod_issue list + string) \<Rightarrow> http_request \<Rightarrow> string \<Rightarrow> admin_inputs \<Rightarrow> admin_state \<Rightarrow> admin_response \<times> admin_state" where
  "closeRoute sha lc expectedKey idParamSchema =
     admin_transition sha lc expectedKey idParamSchema closeCreditLine ''credit_line.closed'' ''Credit line closed.''"

section \<open>The simulation predicts the operation\<close>

text \<open>An amount that both \<open>Number\<close> and \<open>parseFloat\<close> read as the same whole number.\<close>

definition whole_amount :: "string \<Rightarrow> nat \<Rightarrow> bool" where
  "whole_amount s n \<longleftrightarrow> s \<noteq> [] \<and> js_Number s = Fin (of_nat n) \<and> parseFloat s = Fin (of_nat n) \<and> n < 2 ^ 52"

lemma js_Number_digits:
  assumes "ds \<noteq> []" "\<forall>c \<in> set ds. is_digit c"
  shows "js_Number ds = parseFloat ds"
proof -
  have trim: "js_trim ds = ds" by (rule js_trim_no_ws) (use assms(2) is_digit_not_ws in blast)
  have x: "\<not> starts_with [c, d] ds" if "\<not> is_digit d" for c d
    using assms(2) that by (cases ds rule: remdups_adj.cases) (auto simp: starts_with_def)
  have m: "(case ds of c # cs \<Rightarrow> if c = CHR ''-'' \<or> c = CHR ''+'' then cs else ds | [] \<Rightarrow> []) = ds"
    using assms by (cases ds) (auto simp: is_digit_def)
  have all: "takeWhile is_digit ds = ds" "dropWhile is_digit ds = []" using assms(2) by (simp_all add: dropWhile_eq_Nil_conv takeWhile_eq_all_conv)
  have "decimal_literal_ok ds" using assms(1) by (simp add: decimal_literal_ok_def all parse_fraction_def exponent_ok_def)
  then show ?thesis using assms(1) x [of "CHR ''x''"] x [of "CHR ''X''"] x [of "CHR ''o''"] x [of "CHR ''O''"] x [of "CHR ''b''"] x [of "CHR ''B''"]
    by (simp add: js_Number_def Let_def trim m is_digit_def)
qed

lemma whole_digits: "ds \<noteq> [] \<Longrightarrow> \<forall>c \<in> set ds. is_digit c \<Longrightarrow> nat_of_digits ds < 2 ^ 52 \<Longrightarrow> whole_amount ds (nat_of_digits ds)"
  by (simp add: whole_amount_def js_Number_digits parseFloat_digits)

lemma dround_whole: "\<bar>i\<bar> < 2 ^ 53 \<Longrightarrow> q = of_int i \<Longrightarrow> dround q = Fin (of_int i)"
  by simp

lemma whole_add: "a < 2 ^ 52 \<Longrightarrow> b < 2 ^ 52 \<Longrightarrow> num_add (Fin (of_nat a)) (Fin (of_nat b)) = Fin (of_nat (a + b))"
  using dround_whole [of "int (a + b)" "of_nat a + of_nat b"] by simp

lemma whole_sub: "a < 2 ^ 52 \<Longrightarrow> b < 2 ^ 52 \<Longrightarrow> num_sub (Fin (of_nat a)) (Fin (of_nat b)) = Fin (of_int (int a - int b))"
  using dround_whole [of "int a - int b" "of_nat a - of_nat b"] by simp

lemma whole_double: "n < 2 ^ 53 \<Longrightarrow> is_double (Fin (of_nat n))"
  using is_double_dround [of "of_int (int n)"] dround_int [of "int n"] by (simp del: dround_int is_double_dround)

lemma whole_drawCheck:
  assumes "whole_amount (cl_creditLimit line) L" "whole_amount (cl_utilized line) U" "whole_amount amount a"
    and "cl_status line = ACTIVE" "cl_walletAddress line = b"
  shows "CreditLineService_drawCheck (Some line) b amount =
    (if a = 0 then Inl (Error ''Draw amount must be greater than 0'')
     else if U + a \<le> L then Inr (line, num_toString (Fin (of_nat (U + a)))) else Inl (Error ''Credit limit exceeded''))"
proof -
  have h: "parseFloat amount = Fin (of_nat a)" "parseFloat (cl_creditLimit line) = Fin (of_nat L)" "utilizedNum line = Fin (of_nat U)" "a < 2 ^ 52" "U < 2 ^ 52"
    using assms by (simp_all add: whole_amount_def utilizedNum_def)
  have "num_gt (num_add (Fin (of_nat U)) (Fin (of_nat a))) (Fin (of_nat L)) \<longleftrightarrow> \<not> U + a \<le> L"
    unfolding whole_add [OF h(5,4)] num_gt_def num_lt.simps of_nat_less_iff by linarith
  then show ?thesis using assms(4,5) whole_add [OF h(5,4)] by (simp add: CreditLineService_drawCheck_def h(1-3) num_le_def Let_def del: num_add.simps)
qed

lemma whole_simulateDraw:
  assumes "repo_findById R (ss_lines st) i = Some line" "whole_amount (cl_creditLimit line) L" "whole_amount (cl_utilized line) U" "whole_amount amount a"
  shows "\<exists>d. simulateDraw R st i amount = Inr d \<and> (ds_valid d \<longleftrightarrow> 0 < a \<and> U + a \<le> L) \<and>
    (ds_valid d \<longrightarrow> ds_newBalance d = Some (Fin (of_nat (U + a))) \<and> ds_remainingCredit d = Fin (of_nat (L - (U + a))))"
proof -
  have h: "js_Number amount = Fin (of_nat a)" "js_Number (cl_creditLimit line) = Fin (of_nat L)" "js_Number (cl_utilized line) = Fin (of_nat U)"
    "a < 2 ^ 52" "U < 2 ^ 52" "L < 2 ^ 52"
    using assms by (simp_all add: whole_amount_def)
  have le: "num_le (Fin (of_nat a)) (Fin (of_int (int L - int U))) \<longleftrightarrow> U + a \<le> L"
  proof -
    have "(of_nat a :: rat) \<le> of_int (int L - int U) \<longleftrightarrow> int a \<le> int L - int U" by (metis of_int_le_iff of_int_of_nat_eq)
    then show ?thesis by (simp add: num_le_def del: of_int_diff) linarith
  qed
  have rest: "num_sub (Fin (of_int (int L - int U))) (Fin (of_nat a)) = Fin (of_nat (L - (U + a)))" if "U + a \<le> L"
    using that whole_sub [of "L - U" a] h by (simp add: of_nat_diff del: num_sub_Fin)
  show ?thesis
    unfolding simulateDraw_def CreditLineService_getCreditLine_def assms(1)
    using le rest by (simp add: Let_def h(1-3) whole_sub [OF h(6,5)] whole_add [OF h(5,4)] num_gt_def del: num_sub_Fin num_add.simps of_int_diff)
qed

lemma whole_simulateRepay:
  assumes "repo_findById R (ss_lines st) i = Some line" "whole_amount (cl_utilized line) U" "whole_amount amount a"
  shows "\<exists>r. simulateRepay R st i amount = Inr r \<and> (rs_valid r \<longleftrightarrow> 0 < a) \<and> (rs_valid r \<longrightarrow> rs_newBalance r = Fin (of_nat (U - a)))"
proof -
  have h: "js_Number amount = Fin (of_nat a)" "js_Number (cl_utilized line) = Fin (of_nat U)" "a < 2 ^ 52" "U < 2 ^ 52"
    using assms by (simp_all add: whole_amount_def)
  have "num_min (Fin (of_nat a)) (Fin (of_nat U)) = Fin (of_nat (min a U))" by (simp add: num_min_def num_le_def min_def)
  moreover have "num_sub (Fin (of_nat U)) (Fin (of_nat (min a U))) = Fin (of_nat (U - a))"
    using whole_sub [of U "min a U"] h by (cases "a \<le> U") (simp_all add: of_nat_diff min_def del: num_sub_Fin)
  ultimately show ?thesis
    unfolding simulateRepay_def CreditLineService_getCreditLine_def assms(1) by (simp add: Let_def h(1,2) num_gt_def del: num_sub_Fin)
qed

lemma whole_repay:
  assumes "repo_findById (inMemoryCreditLines lc) (ss_lines st) i = Some line" "whole_amount (cl_utilized line) U" "whole_amount amount a"
  shows "fst (CreditLineService_repay (inMemoryCreditLines lc) passthroughTransactionRunner clk u i w amount st) =
    (if 0 < a then Inr (withUtilized line (num_toString (Fin (of_nat (U - a)))) (clk 1)) else Inl (Error ''Repay amount must be greater than 0''))"
proof (cases "0 < a")
  case True
  have h: "parseFloat amount = Fin (of_nat a)" "utilizedNum line = Fin (of_nat U)" "a < 2 ^ 52" "U < 2 ^ 52"
    using assms by (simp_all add: whole_amount_def utilizedNum_def)
  have "num_max (Fin 0) (num_sub (Fin (of_nat U)) (Fin (of_nat a))) = Fin (of_nat (U - a))"
    unfolding whole_sub [OF h(4,3)] by (cases "a \<le> U") (simp_all add: num_max_def num_le_def of_nat_diff)
  then show ?thesis using mem.repay_accepted(1) [OF assms(1) h(1), of clk u w] True h(2) by simp
next
  case False
  then show ?thesis using assms by (simp add: CreditLineService_repay_def whole_amount_def num_le_def Let_def)
qed

text \<open>
  C15. The simulation endpoints predict the operations. On an active line of the caller, with whole amounts, the simulated draw is valid exactly when the draw succeeds and the simulated
  repayment exactly when the repayment does; the new balance and the remaining credit of a valid draw, and the new balance of a valid repayment, are those of the line that results.
\<close>

theorem simulation_predicts_outcome:
  assumes "repo_findById (inMemoryCreditLines lc) (ss_lines st) i = Some line"
    and "whole_amount (cl_creditLimit line) L" "whole_amount (cl_utilized line) U" "whole_amount amount a"
    and "cl_status line = ACTIVE" "cl_walletAddress line = b"
  shows "\<exists>d r. simulateDraw (inMemoryCreditLines lc) st i amount = Inr d \<and> simulateRepay (inMemoryCreditLines lc) st i amount = Inr r \<and>
    (case fst (CreditLineService_draw (inMemoryCreditLines lc) passthroughTransactionRunner clk u i b amount st) of
       Inl _ \<Rightarrow> \<not> ds_valid d
     | Inr l' \<Rightarrow> ds_valid d \<and> ds_newBalance d = Some (utilizedNum l') \<and> ds_remainingCredit d = parseFloat (cl_availableCredit l')) \<and>
    (case fst (CreditLineService_repay (inMemoryCreditLines lc) passthroughTransactionRunner clk u i b amount st) of
       Inl _ \<Rightarrow> \<not> rs_valid r
     | Inr l' \<Rightarrow> rs_valid r \<and> rs_newBalance r = utilizedNum l')"
proof -
  let ?R = "inMemoryCreditLines lc"
  let ?draw = "CreditLineService_draw ?R passthroughTransactionRunner clk u i b amount st"
  obtain d where d: "simulateDraw ?R st i amount = Inr d" "ds_valid d \<longleftrightarrow> 0 < a \<and> U + a \<le> L"
    "ds_valid d \<longrightarrow> ds_newBalance d = Some (Fin (of_nat (U + a))) \<and> ds_remainingCredit d = Fin (of_nat (L - (U + a)))"
    using whole_simulateDraw [OF assms(1-4)] by blast
  obtain r where r: "simulateRepay ?R st i amount = Inr r" "rs_valid r \<longleftrightarrow> 0 < a" "rs_valid r \<longrightarrow> rs_newBalance r = Fin (of_nat (U - a))"
    using whole_simulateRepay [OF assms(1,3,4)] by blast
  have bounds: "L < 2 ^ 52" "U < 2 ^ 52" and lim: "parseFloat (cl_creditLimit line) = Fin (of_nat L)" using assms(2,3) by (simp_all add: whole_amount_def)
  have "case fst ?draw of Inl _ \<Rightarrow> \<not> ds_valid d
     | Inr l' \<Rightarrow> ds_valid d \<and> ds_newBalance d = Some (utilizedNum l') \<and> ds_remainingCredit d = parseFloat (cl_availableCredit l')"
  proof (cases "ds_valid d")
    case True
    let ?l = "withUtilized line (num_toString (Fin (of_nat (U + a)))) (clk 2)"
    have le: "U + a \<le> L" using True d(2) by simp
    then have "U + a < 2 ^ 52" using bounds(1) by (rule le_less_trans)
    then have n: "U + a < 2 ^ 53" "U + a < 2 ^ 52" "U + a \<le> L" using le by simp_all
    note dbl = whole_double [OF n(1)]
    have "fst ?draw = Inr ?l" using mem.draw_accepted(1) whole_drawCheck [OF assms(2-6)] True d(2) assms(1) by simp
    moreover have "cl_availableCredit ?l = num_toString (Fin (of_nat (L - (U + a))))"
      using whole_sub [OF bounds(1) n(2)] n(3) by (simp add: withUtilized_available parseFloat_toString [OF dbl] lim of_nat_diff del: num_sub_Fin of_nat_add)
    moreover have "parseFloat (num_toString (Fin (of_nat (L - (U + a))))) = Fin (of_nat (L - (U + a)))"
      using bounds by (intro parseFloat_toString whole_double) simp
    ultimately show ?thesis using True d(3) withUtilized_utilizedNum [OF dbl] by simp
  next
    case False
    then have "\<exists>e. CreditLineService_drawCheck (repo_findById ?R (ss_lines st) i) b amount = Inl e"
      using whole_drawCheck [OF assms(2-6)] d(2) assms(1) by (cases "a = 0") simp_all
    then obtain e where "CreditLineService_drawCheck (repo_findById ?R (ss_lines st) i) b amount = Inl e" by blast
    then show ?thesis using mem.draw_rejected [of lc st i b amount e] False by simp
  qed
  moreover have "is_double (Fin (of_nat (U - a)))" using bounds by (intro whole_double) simp
  ultimately show ?thesis using d(1) r whole_repay [OF assms(1,3,4), of clk u b] by (auto simp: withUtilized_utilizedNum)
qed

lemma whole_examples: "whole_amount ''1000'' 1000" "whole_amount ''100'' 100" "whole_amount ''250'' 250"
  using whole_digits [of "''1000''"] whole_digits [of "''100''"] whole_digits [of "''250''"]
  by (simp_all add: nat_of_digits_Cons digit_val_def is_digit_def)

theorem simulation_predicts_outcome_witness:
  "\<exists>d. simulateDraw memLines exampleState ''L1'' ''250'' = Inr d \<and> ds_valid d \<and> ds_newBalance d = Some (Fin 350)"
proof -
  let ?draw = "CreditLineService_draw memLines passthroughTransactionRunner int ''T1'' ''L1'' ''GA'' ''250'' exampleState"
  have "fst ?draw = Inr (withUtilized exampleLine (num_toString (Fin 350)) 2)"
    using mem.draw_accepted(1) [of code_unit_compare exampleState "''L1''" "''GA''" "''250''" exampleLine _ int "''T1''"]
      exampleLine_drawCheck by (simp only: exampleState_find of_nat_numeral)
  moreover have "utilizedNum (withUtilized exampleLine (num_toString (Fin 350)) 2) = Fin 350"
    by (rule withUtilized_utilizedNum) (use whole_double [of 350] in simp)
  ultimately show ?thesis
    using simulation_predicts_outcome [of code_unit_compare exampleState "''L1''" exampleLine 1000 100 "''250''" 250 "''GA''" int "''T1''"] whole_examples
    by (force simp: exampleState_find exampleLine_def)
qed

text \<open>The simulation looks at neither the status nor the owner: on a suspended line it calls valid a draw that the service refuses.\<close>

lemma simulation_ignores_status:
  assumes "repo_findById R (ss_lines st) i = Some line" "repo_findById R (ss_lines st') i = Some (line\<lparr>cl_status := status, cl_walletAddress := w\<rparr>)"
  shows "simulateDraw R st' i amount = simulateDraw R st i amount"
  by (simp add: simulateDraw_def CreditLineService_getCreditLine_def assms Let_def)

section \<open>Administrative transitions are audited\<close>

definition transition_outcome :: "(string \<Rightarrow> string) \<Rightarrow> (string \<Rightarrow> string \<Rightarrow> int) \<Rightarrow> string option \<Rightarrow> string \<Rightarrow> LineStatus \<Rightarrow> http_request \<Rightarrow> string \<Rightarrow>
    admin_state \<Rightarrow> admin_response \<times> admin_state \<Rightarrow> bool" where
  "transition_outcome sha lc expectedKey action status req rawId st out \<longleftrightarrow>
     (case fst out of
        RouteLine line _ \<Rightarrow>
          (\<exists>lineId line0 r. adminAuth sha expectedKey req = AuthNext \<and> getCreditLine lineId (as_store st) = Some line0 \<and> ln_status line0 \<noteq> status \<and>
             ln_status line = status \<and> getCreditLine lineId (as_store (snd out)) = Some line \<and> as_audit (snd out) = as_audit st @ [r] \<and>
             aa_action r = action \<and> aa_targetId r = Some lineId \<and> aa_actor r = adminActorFromRequest sha (actor_header req) \<and>
             aa_before r = Some (redactAuditValue (line_json line0)) \<and> aa_after r = Some (redactAuditValue (line_json line)))
      | _ \<Rightarrow> snd out = st)"

text \<open>What the route needs of a transition: it fails without effect, or moves an existing line to the status.\<close>

definition moves_to :: "(string \<Rightarrow> string \<Rightarrow> time \<Rightarrow> (credit_store, StatusLine) comp) \<Rightarrow> LineStatus \<Rightarrow> bool" where
  "moves_to move status \<longleftrightarrow> (\<forall>i u t s. case move i u t s of
     (Inl _, s') \<Rightarrow> s' = s
   | (Inr line, s') \<Rightarrow> ln_status line = status \<and> getCreditLine i s' = Some line \<and> (\<exists>line0. getCreditLine i s = Some line0 \<and> ln_status line0 \<noteq> status))"

lemma moves_toD:
  assumes "moves_to move status"
  shows "move i u t s = (Inl e, s') \<Longrightarrow> s' = s"
    and "move i u t s = (Inr line, s') \<Longrightarrow> ln_status line = status \<and> getCreditLine i s' = Some line \<and>
      (\<exists>line0. getCreditLine i s = Some line0 \<and> ln_status line0 \<noteq> status)"
proof -
  have "case move i u t s of (Inl _, s') \<Rightarrow> s' = s
   | (Inr line, s') \<Rightarrow> ln_status line = status \<and> getCreditLine i s' = Some line \<and> (\<exists>line0. getCreditLine i s = Some line0 \<and> ln_status line0 \<noteq> status)"
    using assms unfolding moves_to_def by (elim allE)
  then show "move i u t s = (Inl e, s') \<Longrightarrow> s' = s"
    "move i u t s = (Inr line, s') \<Longrightarrow> ln_status line = status \<and> getCreditLine i s' = Some line \<and>
      (\<exists>line0. getCreditLine i s = Some line0 \<and> ln_status line0 \<noteq> status)" by simp_all
qed

lemma recordTransaction_store [simp]: "cs_store (recordTransaction i ty t md u s) = cs_store s"
  by (simp add: recordTransaction_def Let_def)

lemma suspend_moves: "moves_to suspendCreditLine LSuspended"
  by (auto simp: moves_to_def suspendCreditLine_def getCreditLine_def moveLine_def Let_def split: option.splits)

lemma close_moves: "moves_to closeCreditLine LClosed"
  by (auto simp: moves_to_def closeCreditLine_def getCreditLine_def moveLine_def Let_def split: option.splits)

lemma record_appends:
  "\<exists>r. snd (AdminAuditLog_record sha lc input u c t trail) = trail @ [r] \<and> aa_action r = ai_action input \<and> aa_targetId r = ai_targetId input \<and> aa_actor r = ai_actor input \<and>
     aa_before r = map_option redactAuditValue (ai_before input) \<and> aa_after r = map_option redactAuditValue (ai_after input)"
  by (simp add: AdminAuditLog_record_def Let_def)

lemma transition_audited:
  assumes "moves_to move status"
  shows "transition_outcome sha lc key action status req rawId st (admin_transition sha lc key schema move action message req rawId inp st)"
proof (cases "adminAuth sha key req = AuthNext")
  case True
  show ?thesis
  proof (cases "validatePart schema rawId")
    case (Inr lineId)
    obtain res s1 where m: "move lineId (in_txUuid inp) (in_now inp) (as_store st) = (res, s1)" by fastforce
    show ?thesis
    proof (cases res)
      case (Inl e)
      then have "s1 = as_store st" using moves_toD(1) [OF assms] m by blast
      then show ?thesis by (simp add: transition_outcome_def admin_transition_def True Inr m Inl Let_def)
    next
      case (Inr line)
      obtain line0 where l: "ln_status line = status" "getCreditLine lineId s1 = Some line" "getCreditLine lineId (as_store st) = Some line0" "ln_status line0 \<noteq> status"
        using moves_toD(2) [OF assms] m Inr by blast
      show ?thesis using record_appends [of sha lc "transition_input sha req action lineId (Some line0) line" "in_auditUuid inp" "in_corrUuid inp" "in_auditNow inp" "as_audit st"] l
        by (auto simp: transition_outcome_def admin_transition_def True \<open>validatePart schema rawId = Inr lineId\<close> m Inr Let_def transition_input_def)
    qed
  qed (simp add: transition_outcome_def admin_transition_def True)
next
  case False
  then show ?thesis by (cases "adminAuth sha key req") (simp_all add: transition_outcome_def admin_transition_def)
qed

lemma transition_keeps_chain:
  "audit_chain sha lc None (as_audit st) \<Longrightarrow> audit_chain sha lc None (as_audit (snd (admin_transition sha lc key schema move action message req rawId inp st)))"
  by (auto simp: admin_transition_def Let_def record_extends_chain split: auth_response.splits sum.splits prod.splits)

text \<open>C13. Suspending and closing a credit line through the administrators' routes is authenticated and audited. A request is answered with a line only when it carries the administrators' key
  and the line existed in another status; then the stored line has the new status, and the audit log has grown by exactly one record with the action, the line, the fingerprint of the
  caller and the line before and after. Every other answer (no key, bad parameter, unknown line, transition not allowed) leaves the lines and the log as they were.\<close>

theorem admin_transitions_are_audited:
  "transition_outcome sha lc key ''credit_line.suspended'' LSuspended req rawId st (suspendRoute sha lc key schema req rawId inp st) \<and>
   transition_outcome sha lc key ''credit_line.closed'' LClosed req rawId st (closeRoute sha lc key schema req rawId inp st)"
  unfolding suspendRoute_def closeRoute_def by (intro conjI transition_audited suspend_moves close_moves)

text \<open>Error statuses of the routes.\<close>

lemma handleServiceError_status:
  "pr_status (handleServiceError (CreditLineNotFoundError i)) = Fin 404"
  "pr_status (handleServiceError (InvalidTransitionError s a)) = Fin 409"
  "pr_status (handleServiceError (VersionConflictError i x y)) = Fin 409"
  "pr_status (handleServiceError (Error m)) = Fin 500 \<and> pd_detail (pr_body (handleServiceError (Error m))) = ''Internal server error''"
  by (simp_all add: handleServiceError_def sendProblem_def appErrorToProblem_def toProblem_def notFound_def ConflictError_new_def internalError_def AppError_new_def errorOptions_def
      PROBLEM_STATUS_def Let_def nullish_def)

text \<open>A response that does not match its schema never reaches the client when validation is on.\<close>

lemma violation_replaced:
  assumes "isResponseValidationEnabled env" "safeParse body = Inl issues"
  shows "fst (snd (validateResponse env safeParse sent status body)) = JsObject [(''data'', JsNull), (''error'', JsString ''Response contract violation'')] \<and>
    (\<not> sent \<longrightarrow> fst (validateResponse env safeParse sent status body) = 500)"
  using assms by (simp add: validateResponse_def)

end
