(* ===== verification/PgRisk.thy ===== *)
theory PgRisk
  imports PostgresRepos AnomalyDetection RiskEvaluation
begin

text \<open>
  The Postgres repositories of risk signals and risk evaluations (\<open>src/repositories/postgres/PostgresRiskSignalRepository.ts\<close>, \<open>PostgresRiskEvaluationRepository.ts\<close>) on the tables of
  migrations 001, 004 and 006. \<open>jsonb\<close> is what a JSON document becomes in a \<open>JSONB\<close> column (it may reorder the properties), \<open>uuid_in\<close> the server's reading of a \<open>UUID\<close>. The
  condition that \<open>buildWhere\<close> assembles is kept as its parts, each a column and the number of its parameter, and evaluated against the list of values that is sent with it.
\<close>

section \<open>Risk signals\<close>

record signal_row =
  sg_id :: string
  sg_signal_type :: string
  sg_rule_id :: string
  sg_severity :: string
  sg_wallet_address :: string
  sg_credit_line_id :: "string option"
  sg_correlation_id :: string
  sg_thresholds :: json
  sg_evidence :: json
  sg_status :: string
  sg_created_at :: timestamptz

record CreateRiskSignalInput =
  ci_signalType :: RiskSignalType
  ci_ruleId :: string
  ci_severity :: RiskSignalSeverity
  ci_walletAddress :: string
  ci_creditLineId :: string
  ci_correlationId :: string
  ci_thresholds :: json
  ci_evidence :: json
  ci_status :: "RiskSignalStatus option"

fun signal_type_string :: "RiskSignalType \<Rightarrow> string" where
  "signal_type_string RapidSuccessiveDraws = ''rapid_successive_draws''"
| "signal_type_string DrawBurst = ''draw_burst''"
| "signal_type_string UnusualRepayPattern = ''unusual_repay_pattern''"

fun severity_string :: "RiskSignalSeverity \<Rightarrow> string" where
  "severity_string LowSeverity = ''low''"
| "severity_string MediumSeverity = ''medium''"
| "severity_string HighSeverity = ''high''"

fun signal_status_string :: "RiskSignalStatus \<Rightarrow> string" where
  "signal_status_string OpenSignal = ''open''"
| "signal_status_string AcknowledgedSignal = ''acknowledged''"
| "signal_status_string DismissedSignal = ''dismissed''"

text \<open>Casts of the columns back to the enumerations, which are all the code writes.\<close>

definition signal_type_of :: "string \<Rightarrow> RiskSignalType" where
  "signal_type_of s = (if s = ''rapid_successive_draws'' then RapidSuccessiveDraws else if s = ''draw_burst'' then DrawBurst else UnusualRepayPattern)"

definition severity_of :: "string \<Rightarrow> RiskSignalSeverity" where
  "severity_of s = (if s = ''low'' then LowSeverity else if s = ''medium'' then MediumSeverity else HighSeverity)"

definition signal_status_of :: "string \<Rightarrow> RiskSignalStatus" where
  "signal_status_of s = (if s = ''open'' then OpenSignal else if s = ''acknowledged'' then AcknowledgedSignal else DismissedSignal)"

definition parseJsonObject :: "json \<Rightarrow> json" where
  "parseJsonObject v =
     (case v of
        JStr s \<Rightarrow> (case JSON_parse s of Some (JObj ps) \<Rightarrow> JObj ps | _ \<Rightarrow> JObj [])
      | JNull \<Rightarrow> JObj []
      | _ \<Rightarrow> v)"

definition signal_toModel :: "signal_row \<Rightarrow> RiskSignal" where
  "signal_toModel row =
     \<lparr>rs_id = sg_id row, rs_signalType = signal_type_of (sg_signal_type row), rs_ruleId = sg_rule_id row, rs_severity = severity_of (sg_severity row),
      rs_walletAddress = sg_wallet_address row, rs_creditLineId = (case sg_credit_line_id row of Some c \<Rightarrow> c | None \<Rightarrow> []), rs_correlationId = sg_correlation_id row,
      rs_thresholds = parseJsonObject (sg_thresholds row), rs_evidence = parseJsonObject (sg_evidence row), rs_status = signal_status_of (sg_status row),
      rs_createdAt = js_date (sg_created_at row)\<rparr>"

definition pgs_create ::
  "(json \<Rightarrow> json) \<Rightarrow> (string \<Rightarrow> js_error + string) \<Rightarrow> CreateRiskSignalInput \<Rightarrow> string \<Rightarrow> timestamptz \<Rightarrow> (signal_row list, RiskSignal) comp" where
  "pgs_create jsonb uuid_in input uuid now rows =
     (case uuid_in (ci_creditLineId input) of
        Inl e \<Rightarrow> (Inl e, rows)
      | Inr lineId \<Rightarrow>
          let row = \<lparr>sg_id = uuid, sg_signal_type = signal_type_string (ci_signalType input), sg_rule_id = ci_ruleId input,
                sg_severity = severity_string (ci_severity input), sg_wallet_address = ci_walletAddress input, sg_credit_line_id = Some lineId,
                sg_correlation_id = ci_correlationId input, sg_thresholds = jsonb (ci_thresholds input), sg_evidence = jsonb (ci_evidence input),
                sg_status = signal_status_string (case ci_status input of Some s \<Rightarrow> s | None \<Rightarrow> OpenSignal), sg_created_at = now\<rparr>
          in (Inr (signal_toModel row), rows @ [row]))"

definition pgs_findById :: "(string \<Rightarrow> js_error + string) \<Rightarrow> signal_row list \<Rightarrow> string \<Rightarrow> js_error + RiskSignal option" where
  "pgs_findById uuid_in rows i = ebind (uuid_in i) (\<lambda>u. Inr (map_option signal_toModel (List.find (\<lambda>row. sg_id row = u) rows)))"

record where_clause =
  wc_parts :: "(string \<times> nat) list"
  wc_values :: "string list"
  wc_nextIndex :: nat

text \<open>\<open>if (filter) { parts.push(`column = $i++`); values.push(filter); }\<close>\<close>

definition add_part :: "string \<Rightarrow> string option \<Rightarrow> where_clause \<Rightarrow> where_clause" where
  "add_part column v w =
     (case v of
        Some x \<Rightarrow> if x = [] then w
                   else \<lparr>wc_parts = wc_parts w @ [(column, wc_nextIndex w)], wc_values = wc_values w @ [x], wc_nextIndex = wc_nextIndex w + 1\<rparr>
      | None \<Rightarrow> w)"

definition buildWhere :: "RiskSignalListFilters \<Rightarrow> where_clause" where
  "buildWhere filters =
     add_part ''correlation_id'' (sf_correlationId filters)
      (add_part ''status'' (map_option signal_status_string (sf_status filters))
       (add_part ''signal_type'' (map_option signal_type_string (sf_signalType filters))
        (add_part ''credit_line_id'' (sf_creditLineId filters)
         (add_part ''wallet_address'' (sf_walletAddress filters) \<lparr>wc_parts = [], wc_values = [], wc_nextIndex = 1\<rparr>))))"

definition where_text :: "where_clause \<Rightarrow> string" where
  "where_text w =
     (if wc_parts w = [] then []
      else ''WHERE '' @ js_join '' AND '' (map (\<lambda>(column, i). column @ '' = $'' @ show_int (int i)) (wc_parts w)))"

text \<open>The server's side: a column equals its parameter. A \<open>NULL\<close> equals nothing.\<close>

definition signal_column :: "signal_row \<Rightarrow> string \<Rightarrow> string option" where
  "signal_column row column =
     (if column = ''wallet_address'' then Some (sg_wallet_address row)
      else if column = ''credit_line_id'' then sg_credit_line_id row
      else if column = ''signal_type'' then Some (sg_signal_type row)
      else if column = ''status'' then Some (sg_status row)
      else if column = ''correlation_id'' then Some (sg_correlation_id row)
      else None)"

definition where_holds :: "where_clause \<Rightarrow> signal_row \<Rightarrow> bool" where
  "where_holds w row = list_all (\<lambda>(column, i). signal_column row column = Some (wc_values w ! (i - 1))) (wc_parts w)"

text \<open>The parameter compared with the \<open>UUID\<close> column is read as one, or the statement fails.\<close>

definition read_filters :: "(string \<Rightarrow> js_error + string) \<Rightarrow> RiskSignalListFilters \<Rightarrow> js_error + RiskSignalListFilters" where
  "read_filters uuid_in filters =
     (case sf_creditLineId filters of
        Some x \<Rightarrow> if x = [] then Inr filters else ebind (uuid_in x) (\<lambda>u. Inr (filters\<lparr>sf_creditLineId := Some u\<rparr>))
      | None \<Rightarrow> Inr filters)"

text \<open>\<open>LIMIT\<close> and \<open>OFFSET\<close> are not negative: the query schema of the route asks for it.\<close>

definition pgs_findMany :: "(string \<Rightarrow> js_error + string) \<Rightarrow> RiskSignalListFilters \<Rightarrow> signal_row list \<Rightarrow> js_error + RiskSignal list" where
  "pgs_findMany uuid_in filters rows = ebind (read_filters uuid_in filters) (\<lambda>f.
     let w = buildWhere f; limit = (case sf_limit f of Some l \<Rightarrow> l | None \<Rightarrow> 50); offset = (case sf_offset f of Some n \<Rightarrow> n | None \<Rightarrow> 0)
     in Inr (map signal_toModel (take (nat limit) (drop (nat offset) (sort_key (\<lambda>row. - sg_created_at row) (filter (where_holds w) rows))))))"

definition pgs_count :: "(string \<Rightarrow> js_error + string) \<Rightarrow> RiskSignalListFilters \<Rightarrow> signal_row list \<Rightarrow> js_error + nat" where
  "pgs_count uuid_in filters rows = ebind (read_filters uuid_in filters) (\<lambda>f. Inr (length (filter (where_holds (buildWhere f)) rows)))"

section \<open>Risk evaluations\<close>

record evaluation_row =
  er_id :: string
  er_borrower_id :: string
  er_risk_score :: int
  er_suggested_limit :: int
  er_interest_rate_bps :: int
  er_inputs :: "RiskFactor list option"
  er_evaluated_at :: timestamptz
  er_expires_at :: "timestamptz option"

record risk_tables =
  rt_db :: database
  rt_evaluations :: "evaluation_row list"

definition evaluation_toModel :: "pg_types \<Rightarrow> evaluation_row \<Rightarrow> string \<Rightarrow> RiskEvaluation" where
  "evaluation_toModel pg row wallet =
     \<lparr>re_walletAddress = wallet, re_riskScore = num_of_int (er_risk_score row), re_creditLimit = pg_out pg (er_suggested_limit row),
      re_interestRateBps = num_of_int (er_interest_rate_bps row), re_factors = (case er_inputs row of Some fs \<Rightarrow> fs | None \<Rightarrow> []),
      re_evaluatedAt = js_date (er_evaluated_at row),
      re_expiresAt = js_date (case er_expires_at row of Some t \<Rightarrow> t | None \<Rightarrow> er_evaluated_at row), re_id = er_id row\<rparr>"

text \<open>\<open>ensureBorrower\<close>. Another writer may act between the \<open>SELECT\<close> and the \<open>INSERT\<close> (\<open>other\<close>); the unique index on the wallet then rejects the insertion and the
  winner's row is read.\<close>

definition pge_ensureBorrower :: "(database \<Rightarrow> database) \<Rightarrow> string \<Rightarrow> string \<Rightarrow> timestamptz \<Rightarrow> database \<Rightarrow> string \<times> database" where
  "pge_ensureBorrower other walletAddress uuid now db =
     (case borrower_with db walletAddress of
        Some b \<Rightarrow> (bo_id b, db)
      | None \<Rightarrow>
          let db1 = other db
          in case borrower_with db1 walletAddress of
               Some b \<Rightarrow> (bo_id b, db1)
             | None \<Rightarrow> (uuid, db1\<lparr>db_borrowers := db_borrowers db1 @
                 [\<lparr>bo_id = uuid, bo_wallet_address = walletAddress, bo_created_at = now, bo_updated_at = now, bo_anonymized_at = None\<rparr>]\<rparr>))"

text \<open>\<open>save\<close>: the borrower first, then the insertion, whose values the server may reject. Dates are sent in milliseconds.\<close>

definition pge_save ::
  "pg_types \<Rightarrow> (database \<Rightarrow> database) \<Rightarrow> NewRiskEvaluation \<Rightarrow> string \<Rightarrow> string \<Rightarrow> timestamptz \<Rightarrow> (risk_tables, RiskEvaluation) comp" where
  "pge_save pg other evaluation borrowerUuid uuid now st =
     (let (borrowerId, db1) = pge_ensureBorrower other (re_walletAddress evaluation) borrowerUuid now (rt_db st); st1 = st\<lparr>rt_db := db1\<rparr>
      in case ebind (pg_int pg (re_riskScore evaluation)) (\<lambda>score. ebind (pg_in pg (re_creditLimit evaluation)) (\<lambda>limit.
             ebind (pg_int pg (re_interestRateBps evaluation)) (\<lambda>rate. Inr (score, limit, rate)))) of
           Inl e \<Rightarrow> (Inl e, st1)
         | Inr (score, limit, rate) \<Rightarrow>
             let row = \<lparr>er_id = uuid, er_borrower_id = borrowerId, er_risk_score = score, er_suggested_limit = limit, er_interest_rate_bps = rate,
                   er_inputs = Some (re_factors evaluation), er_evaluated_at = 1000 * re_evaluatedAt evaluation,
                   er_expires_at = Some (1000 * re_expiresAt evaluation)\<rparr>
             in (Inr (evaluation_toModel pg row (re_walletAddress evaluation)), st1\<lparr>rt_evaluations := rt_evaluations st1 @ [row]\<rparr>))"

text \<open>\<open>risk_evaluations re JOIN borrowers b ON re.borrower_id = b.id ... ORDER BY re.evaluated_at DESC\<close>\<close>

definition joined_evaluations :: "risk_tables \<Rightarrow> (evaluation_row \<times> borrower_row) list" where
  "joined_evaluations st =
     concat (map (\<lambda>row. map (Pair row) (filter (\<lambda>b. er_borrower_id row = bo_id b) (db_borrowers (rt_db st)))) (rt_evaluations st))"

definition pge_select :: "pg_types \<Rightarrow> (evaluation_row \<times> borrower_row \<Rightarrow> bool) \<Rightarrow> risk_tables \<Rightarrow> RiskEvaluation list" where
  "pge_select pg cond st =
     map (\<lambda>(row, b). evaluation_toModel pg row (bo_wallet_address b)) (sort_key (\<lambda>(row, b). - er_evaluated_at row) (filter cond (joined_evaluations st)))"

definition of_wallet :: "string \<Rightarrow> evaluation_row \<times> borrower_row \<Rightarrow> bool" where
  "of_wallet wallet = (\<lambda>(row, b). bo_wallet_address b = wallet)"

definition pge_findLatestByWalletAddress :: "pg_types \<Rightarrow> risk_tables \<Rightarrow> string \<Rightarrow> RiskEvaluation option" where
  "pge_findLatestByWalletAddress pg st wallet = (case take 1 (pge_select pg (of_wallet wallet) st) of e # _ \<Rightarrow> Some e | [] \<Rightarrow> None)"

definition pge_findById :: "pg_types \<Rightarrow> (string \<Rightarrow> js_error + string) \<Rightarrow> risk_tables \<Rightarrow> string \<Rightarrow> js_error + RiskEvaluation option" where
  "pge_findById pg uuid_in st i = ebind (uuid_in i) (\<lambda>u.
     Inr (map_option (\<lambda>(row, b). evaluation_toModel pg row (bo_wallet_address b)) (List.find (\<lambda>(row, b). er_id row = u) (joined_evaluations st))))"

definition pge_findByWalletAddress :: "pg_types \<Rightarrow> risk_tables \<Rightarrow> string \<Rightarrow> nat option \<Rightarrow> nat option \<Rightarrow> RiskEvaluation list" where
  "pge_findByWalletAddress pg st wallet offset limit =
     take (case limit of Some n \<Rightarrow> n | None \<Rightarrow> 100) (drop (case offset of Some n \<Rightarrow> n | None \<Rightarrow> 0) (pge_select pg (of_wallet wallet) st))"

definition pge_findAll :: "pg_types \<Rightarrow> risk_tables \<Rightarrow> nat option \<Rightarrow> nat option \<Rightarrow> RiskEvaluation list" where
  "pge_findAll pg st offset limit =
     take (case limit of Some n \<Rightarrow> n | None \<Rightarrow> 100) (drop (case offset of Some n \<Rightarrow> n | None \<Rightarrow> 0) (pge_select pg (\<lambda>_. True) st))"

definition expired_row :: "timestamptz \<Rightarrow> evaluation_row \<Rightarrow> bool" where
  "expired_row now row \<longleftrightarrow> (case er_expires_at row of Some t \<Rightarrow> t < now | None \<Rightarrow> False)"

definition pge_deleteExpired :: "timestamptz \<Rightarrow> risk_tables \<Rightarrow> nat \<times> risk_tables" where
  "pge_deleteExpired now st =
     (length (filter (expired_row now) (rt_evaluations st)), st\<lparr>rt_evaluations := filter (\<lambda>row. \<not> expired_row now row) (rt_evaluations st)\<rparr>)"

definition pge_isValid :: "pg_types \<Rightarrow> time \<Rightarrow> risk_tables \<Rightarrow> string \<Rightarrow> bool" where
  "pge_isValid pg now st wallet = (case pge_findLatestByWalletAddress pg st wallet of None \<Rightarrow> False | Some latest \<Rightarrow> now < re_expiresAt latest)"

definition pge_count :: "risk_tables \<Rightarrow> nat" where
  "pge_count st = length (rt_evaluations st)"

section \<open>The condition means what the filters say\<close>

definition where_ok :: "where_clause \<Rightarrow> bool" where
  "where_ok w \<longleftrightarrow> map snd (wc_parts w) = [1..<Suc (length (wc_values w))] \<and> wc_nextIndex w = Suc (length (wc_values w))"

definition part_holds :: "signal_row \<Rightarrow> string \<Rightarrow> string option \<Rightarrow> bool" where
  "part_holds row column v \<longleftrightarrow> (case v of Some x \<Rightarrow> x = [] \<or> signal_column row column = Some x | None \<Rightarrow> True)"

lemma add_part_ok: "where_ok w \<Longrightarrow> where_ok (add_part column v w)"
  by (auto simp: where_ok_def add_part_def split: option.splits)

lemma where_ok_index: "where_ok w \<Longrightarrow> (column, i) \<in> set (wc_parts w) \<Longrightarrow> 1 \<le> i \<and> i \<le> length (wc_values w)"
  unfolding where_ok_def by (metis Suc_leI atLeastLessThan_iff imageI le_simps(2) list.set_map set_upt snd_conv)

lemma add_part_holds:
  assumes "where_ok w"
  shows "where_holds (add_part column v w) row \<longleftrightarrow> where_holds w row \<and> part_holds row column v"
proof (cases v)
  case (Some x)
  show ?thesis
  proof (cases "x = []")
    case False
    have "(wc_values w @ [x]) ! (i - 1) = wc_values w ! (i - 1)" if "(c, i) \<in> set (wc_parts w)" for c i
      using where_ok_index [OF assms that] by (auto simp: nth_append)
    then have "list_all (\<lambda>(c, i). signal_column row c = Some ((wc_values w @ [x]) ! (i - 1))) (wc_parts w) \<longleftrightarrow> where_holds w row"
      unfolding where_holds_def by (intro list.pred_cong refl) auto
    then show ?thesis using assms Some False by (auto simp: where_holds_def add_part_def part_holds_def where_ok_def)
  qed (simp add: Some add_part_def part_holds_def)
qed (simp add: add_part_def part_holds_def)

lemma buildWhere_holds:
  "where_holds (buildWhere f) row \<longleftrightarrow> part_holds row ''wallet_address'' (sf_walletAddress f) \<and> part_holds row ''credit_line_id'' (sf_creditLineId f) \<and>
     part_holds row ''signal_type'' (map_option signal_type_string (sf_signalType f)) \<and> part_holds row ''status'' (map_option signal_status_string (sf_status f)) \<and>
     part_holds row ''correlation_id'' (sf_correlationId f)"
proof -
  have "where_ok \<lparr>wc_parts = [], wc_values = [], wc_nextIndex = 1\<rparr>" "where_holds \<lparr>wc_parts = [], wc_values = [], wc_nextIndex = 1\<rparr> row"
    by (simp_all add: where_ok_def where_holds_def)
  then show ?thesis unfolding buildWhere_def by (simp add: add_part_holds add_part_ok)
qed

text \<open>Rows as \<open>create\<close> writes them.\<close>

definition written :: "signal_row \<Rightarrow> bool" where
  "written row \<longleftrightarrow> sg_signal_type row \<in> range signal_type_string \<and> sg_status row \<in> range signal_status_string \<and> sg_severity row \<in> range severity_string"

lemma signal_type_of_string [simp]: "signal_type_of (signal_type_string t) = t"
  by (cases t) (simp_all add: signal_type_of_def)

lemma signal_status_of_string [simp]: "signal_status_of (signal_status_string s) = s"
  by (cases s) (simp_all add: signal_status_of_def)

lemma string_inj: "signal_type_string t = signal_type_string t' \<longleftrightarrow> t = t'" "signal_status_string s = signal_status_string s' \<longleftrightarrow> s = s'"
  by (metis signal_type_of_string, metis signal_status_of_string)

lemma create_written: "list_all written rows \<Longrightarrow> list_all written (snd (pgs_create jsonb uuid_in input uuid now rows))"
  by (auto simp: pgs_create_def written_def Let_def split: sum.splits)

text \<open>The in-memory repository that holds the same signals.\<close>

definition signals_of :: "signal_row list \<Rightarrow> signal_repo" where
  "signals_of rows = map (\<lambda>row. (sg_id row, signal_toModel row)) rows"

lemma where_is_filter:
  assumes "list_all written rows"
  shows "map signal_toModel (filter (where_holds (buildWhere f)) rows) = signal_filter f (signals_of rows)"
proof -
  have type_empty: "signal_type_string t \<noteq> []" "signal_status_string s \<noteq> []" for t s by (cases t; simp) (cases s; simp)
  have "where_holds (buildWhere f) row \<longleftrightarrow> matches_filter (sf_walletAddress f) (rs_walletAddress (signal_toModel row)) \<and>
      matches_filter (sf_creditLineId f) (rs_creditLineId (signal_toModel row)) \<and>
      (case sf_signalType f of None \<Rightarrow> True | Some t \<Rightarrow> rs_signalType (signal_toModel row) = t) \<and>
      (case sf_status f of None \<Rightarrow> True | Some t \<Rightarrow> rs_status (signal_toModel row) = t) \<and> matches_filter (sf_correlationId f) (rs_correlationId (signal_toModel row))"
    if row: "written row" for row
  proof -
    obtain t s where "sg_signal_type row = signal_type_string t" "sg_status row = signal_status_string s" using row by (auto simp: written_def)
    then show ?thesis
      by (auto simp: buildWhere_holds part_holds_def signal_column_def matches_filter_def signal_toModel_def type_empty string_inj split: option.splits)
  qed
  then show ?thesis using assms
    by (auto simp: signal_filter_def signals_of_def jsmap_values_def filter_map comp_def list_all_iff intro!: arg_cong [of _ _ "map signal_toModel"] filter_cong)
qed

text \<open>The Postgres repository answers as the in-memory repository with the same signals does: the same count, and a page of the same signals with the newest first.\<close>

lemma pg_signals_refine_memory:
  assumes "list_all written rows" "read_filters uuid_in f = Inr f"
  shows "pgs_count uuid_in f rows = Inr (signal_count f (signals_of rows))"
    and "\<exists>all. mset all = mset (signal_filter f (signals_of rows)) \<and> sorted_wrt (\<lambda>a b. rs_createdAt b \<le> rs_createdAt a) all \<and>
      pgs_findMany uuid_in f rows =
        Inr (take (nat (case sf_limit f of Some l \<Rightarrow> l | None \<Rightarrow> 50)) (drop (nat (case sf_offset f of Some n \<Rightarrow> n | None \<Rightarrow> 0)) all))"
proof -
  let ?hit = "filter (where_holds (buildWhere f)) rows"
  let ?all = "map signal_toModel (sort_key (\<lambda>row. - sg_created_at row) ?hit)"
  note same = where_is_filter [OF assms(1), of f]
  show "pgs_count uuid_in f rows = Inr (signal_count f (signals_of rows))"
    unfolding pgs_count_def signal_count_def same [symmetric] by (simp add: assms(2))
  have "mset ?all = mset (signal_filter f (signals_of rows))" unfolding same [symmetric] by simp
  moreover have "sorted_wrt (\<lambda>a b. sg_created_at b \<le> sg_created_at a) (sort_key (\<lambda>row. - sg_created_at row) ?hit)"
    using sorted_sort_key [of "\<lambda>row. - sg_created_at row" ?hit] by (simp add: sorted_map)
  then have "sorted_wrt (\<lambda>a b. rs_createdAt b \<le> rs_createdAt a) ?all"
    unfolding sorted_wrt_map by (rule sorted_wrt_mono_rel [rotated]) (simp add: signal_toModel_def js_date_def zdiv_mono1)
  ultimately show "\<exists>all. mset all = mset (signal_filter f (signals_of rows)) \<and> sorted_wrt (\<lambda>a b. rs_createdAt b \<le> rs_createdAt a) all \<and>
      pgs_findMany uuid_in f rows =
        Inr (take (nat (case sf_limit f of Some l \<Rightarrow> l | None \<Rightarrow> 50)) (drop (nat (case sf_offset f of Some n \<Rightarrow> n | None \<Rightarrow> 0)) all))"
    by (intro exI [of _ ?all]) (simp add: pgs_findMany_def assms(2) Let_def take_map drop_map)
qed

section \<open>Evaluations: the cache contract on Postgres\<close>

lemma sort_key_newest: "\<forall>y \<in> set xs. f x < f y \<Longrightarrow> sort_key f (xs @ [x]) = x # sort_key f xs"
proof -
  have "foldr (insort_key f) xs [x] = x # foldr (insort_key f) xs []" if "\<forall>y \<in> set xs. f x < f y"
    using that by (induction xs) auto
  then show "\<forall>y \<in> set xs. f x < f y \<Longrightarrow> sort_key f (xs @ [x]) = x # sort_key f xs" by (simp add: sort_key_def)
qed

lemma filter_by_key: "distinct (map k xs) \<Longrightarrow> x \<in> set xs \<Longrightarrow> k x = i \<Longrightarrow> filter (\<lambda>y. i = k y) xs = [x]"
  by (induction xs) (auto simp: filter_empty_conv image_iff dest: sym)

lemma concat_filter_rows:
  "concat (map (\<lambda>row. map (Pair row) (g row)) (filter p rows)) = filter (\<lambda>(row, b). p row) (concat (map (\<lambda>row. map (Pair row) (g row)) rows))"
  by (induction rows) (auto simp: filter_map comp_def)

lemma pge_ensureBorrower_present:
  "pge_ensureBorrower other w u now db = (bid, db1) \<Longrightarrow> \<exists>b \<in> set (db_borrowers db1). bo_id b = bid \<and> bo_wallet_address b = w"
  by (auto simp: pge_ensureBorrower_def Let_def split: option.splits dest: borrower_with_Some)

text \<open>What was saved last is the evaluation the cache finds, with the limit as the column prints it; it is valid until it expires.\<close>

lemma pg_saved_is_latest:
  assumes "pge_save pg other e borrowerUuid uuid now st = (Inr r, st')" "distinct (map bo_id (db_borrowers (rt_db st')))"
    and "\<forall>(row, b) \<in> set (joined_evaluations (st\<lparr>rt_db := rt_db st'\<rparr>)). bo_wallet_address b = re_walletAddress e \<longrightarrow> er_evaluated_at row < 1000 * re_evaluatedAt e"
  shows "pge_findLatestByWalletAddress pg st' (re_walletAddress e) = Some r"
    and "pge_isValid pg t st' (re_walletAddress e) \<longleftrightarrow> t < re_expiresAt e"
proof -
  obtain bid db1 where b: "pge_ensureBorrower other (re_walletAddress e) borrowerUuid now (rt_db st) = (bid, db1)" by fastforce
  obtain row where row: "st' = st\<lparr>rt_db := db1, rt_evaluations := rt_evaluations st @ [row]\<rparr>" "r = evaluation_toModel pg row (re_walletAddress e)"
    "er_borrower_id row = bid" "er_evaluated_at row = 1000 * re_evaluatedAt e" "er_expires_at row = Some (1000 * re_expiresAt e)"
    using assms(1) by (auto simp: pge_save_def b Let_def split: sum.splits prod.splits)
  obtain br where br: "br \<in> set (db_borrowers db1)" "bo_id br = bid" "bo_wallet_address br = re_walletAddress e" using pge_ensureBorrower_present [OF b] by blast
  have "distinct (map bo_id (db_borrowers db1))" using assms(2) by (simp add: row(1))
  then have only: "filter (\<lambda>x. bid = bo_id x) (db_borrowers db1) = [br]" using filter_by_key [of bo_id] br(1,2) by blast
  have joined: "joined_evaluations st' = joined_evaluations (st\<lparr>rt_db := db1\<rparr>) @ [(row, br)]"
    by (simp add: joined_evaluations_def row(1,3) only)
  let ?old = "filter (of_wallet (re_walletAddress e)) (joined_evaluations (st\<lparr>rt_db := db1\<rparr>))"
  have "sort_key (\<lambda>(row, b). - er_evaluated_at row) (?old @ [(row, br)]) = (row, br) # sort_key (\<lambda>(row, b). - er_evaluated_at row) ?old"
    by (rule sort_key_newest) (use assms(3) in \<open>auto simp: of_wallet_def row(1,4)\<close>)
  then show latest: "pge_findLatestByWalletAddress pg st' (re_walletAddress e) = Some r"
    using br(3) by (simp add: pge_findLatestByWalletAddress_def pge_select_def joined of_wallet_def row(2))
  show "pge_isValid pg t st' (re_walletAddress e) \<longleftrightarrow> t < re_expiresAt e"
    by (simp add: pge_isValid_def latest row(2,5) evaluation_toModel_def js_date_def)
qed

text \<open>The clean-up never takes away an evaluation that is still valid at the time of the clean-up.\<close>

lemma pg_cleanup_keeps_valid:
  assumes "pge_isValid pg (js_date t) st w"
  shows "pge_findLatestByWalletAddress pg (snd (pge_deleteExpired t st)) w = pge_findLatestByWalletAddress pg st w"
proof -
  let ?key = "\<lambda>(row, b :: borrower_row). - er_evaluated_at row"
  let ?keep = "\<lambda>(row, b :: borrower_row). \<not> expired_row t row"
  have "joined_evaluations (snd (pge_deleteExpired t st)) = filter ?keep (joined_evaluations st)"
    by (simp add: joined_evaluations_def pge_deleteExpired_def concat_filter_rows)
  then have sel: "sort_key ?key (filter (of_wallet w) (joined_evaluations (snd (pge_deleteExpired t st)))) =
      filter ?keep (sort_key ?key (filter (of_wallet w) (joined_evaluations st)))"
    by (simp add: filter_sort conj_commute)
  obtain rb rest where s: "sort_key ?key (filter (of_wallet w) (joined_evaluations st)) = rb # rest"
    using assms by (cases "sort_key ?key (filter (of_wallet w) (joined_evaluations st))")
      (auto simp: pge_isValid_def pge_findLatestByWalletAddress_def pge_select_def)
  have "?keep rb"
  proof (cases rb)
    case (Pair row b)
    have "js_date t < js_date (case er_expires_at row of Some x \<Rightarrow> x | None \<Rightarrow> er_evaluated_at row)"
      using assms by (simp add: pge_isValid_def pge_findLatestByWalletAddress_def pge_select_def s Pair evaluation_toModel_def)
    then have "\<not> x < t" if "er_expires_at row = Some x" for x using that zdiv_mono1 [of x t 1000] by (auto simp: js_date_def)
    then show ?thesis by (auto simp: Pair expired_row_def split: option.splits)
  qed
  then show ?thesis by (simp add: pge_findLatestByWalletAddress_def pge_select_def sel s)
qed

end
