(* ===== verification/Config.thy ===== *)
theory Config
  imports JsonParse
begin

text \<open>
  Start-up configuration: the CORS policy (\<open>src/config/cors.ts\<close>), the security posture (\<open>src/config/security.ts\<close>) and the key management adapters (\<open>src/services/keyManagement.ts\<close>).
  The environment is a function; \<open>parseUrl\<close> is the host's URL parser, with the error it throws.
\<close>

type_synonym environment = "string \<Rightarrow> string option"

section \<open>CORS\<close>

record parsed_origin =
  po_protocol :: string
  po_username :: string
  po_password :: string
  po_hostname :: string
  po_pathname :: string
  po_search :: string
  po_hash :: string
  po_origin :: string

type_synonym url_parser = "string \<Rightarrow> js_error + parsed_origin"

definition LOOPBACK_HOSTNAMES :: "string list" where
  "LOOPBACK_HOSTNAMES = [''localhost'', ''127.0.0.1'', ''::1'']"

datatype CorsPolicy = Allowlist "string list" | Loopback

definition normalizeOrigin :: "url_parser \<Rightarrow> string \<Rightarrow> js_error + string" where
  "normalizeOrigin parseUrl origin = ebind (parseUrl origin) (\<lambda>parsed.
     if po_protocol parsed \<noteq> ''http:'' \<and> po_protocol parsed \<noteq> ''https:''
       then Inl (Error (''Invalid CORS origin '' @ [CHR 0x27] @ origin @ [CHR 0x27] @ ''. Only http and https origins are supported.''))
     else if po_username parsed \<noteq> [] \<or> po_password parsed \<noteq> []
       then Inl (Error (''Invalid CORS origin '' @ [CHR 0x27] @ origin @ [CHR 0x27] @ ''. Credentials are not allowed.''))
     else if po_pathname parsed \<noteq> ''/'' \<or> po_search parsed \<noteq> [] \<or> po_hash parsed \<noteq> []
       then Inl (Error (''Invalid CORS origin '' @ [CHR 0x27] @ origin @ [CHR 0x27] @ ''. Provide the exact origin only, without a path, query, or fragment.''))
     else Inr (po_origin parsed))"

definition parseCorsOrigins :: "url_parser \<Rightarrow> string \<Rightarrow> js_error + string list" where
  "parseCorsOrigins parseUrl raw =
     ebind (emap (normalizeOrigin parseUrl) (filter (\<lambda>s. s \<noteq> []) (map js_trim (js_split (CHR '','') raw)))) (\<lambda>origins. Inr (fold jsset_add origins []))"

definition loadCorsPolicy :: "url_parser \<Rightarrow> environment \<Rightarrow> js_error + CorsPolicy" where
  "loadCorsPolicy parseUrl env =
     (case env ''CORS_ORIGINS'' of
        Some raw \<Rightarrow> ebind (parseCorsOrigins parseUrl raw) (\<lambda>origins.
          if origins = []
          then Inl (Error (''CORS_ORIGINS is set but contains no valid browser origins. '' @ ''Use a comma-separated list of exact origins such as '' @
                 ''https://app.example.com,https://admin.example.com.''))
          else Inr (Allowlist origins))
      | None \<Rightarrow>
          if env ''NODE_ENV'' = Some ''production''
          then Inl (Error (''CORS_ORIGINS must be set in production. '' @
                 ''Provide a comma-separated allowlist of exact browser origins before starting the service.''))
          else Inr Loopback)"

text \<open>\<open>replace(/^\[(.*)\]$/, '$1')\<close>; the dot matches no line terminator, and a host name has none.\<close>

definition unbracket :: "string \<Rightarrow> string" where
  "unbracket h = (if 2 \<le> length h \<and> hd h = CHR ''['' \<and> last h = CHR '']'' then butlast (tl h) else h)"

definition isLoopbackOrigin :: "url_parser \<Rightarrow> string \<Rightarrow> bool" where
  "isLoopbackOrigin parseUrl origin =
     (case parseUrl origin of
        Inl _ \<Rightarrow> False
      | Inr parsed \<Rightarrow>
          if po_protocol parsed \<noteq> ''http:'' \<and> po_protocol parsed \<noteq> ''https:'' then False
          else unbracket (js_toLowerCase (po_hostname parsed)) \<in> set LOOPBACK_HOSTNAMES)"

definition isAllowedCorsOrigin :: "url_parser \<Rightarrow> string option \<Rightarrow> CorsPolicy \<Rightarrow> bool" where
  "isAllowedCorsOrigin parseUrl origin policy =
     (case origin of
        None \<Rightarrow> True
      | Some o1 \<Rightarrow>
          if o1 = [] then True
          else (case policy of Allowlist origins \<Rightarrow> o1 \<in> set origins | Loopback \<Rightarrow> isLoopbackOrigin parseUrl o1))"

section \<open>Security posture\<close>

datatype TrustProxySetting = TrustBool bool | TrustHops number | TrustNames string

definition loadTrustProxy :: "environment \<Rightarrow> TrustProxySetting" where
  "loadTrustProxy env =
     (case env ''TRUST_PROXY'' of
        None \<Rightarrow> TrustBool False
      | Some raw \<Rightarrow>
          if js_trim raw = [] then TrustBool False
          else let normalized = js_toLowerCase (js_trim raw)
               in if normalized \<in> set [''true'', ''yes'', ''on''] then TrustBool True
                  else if normalized \<in> set [''false'', ''no'', ''off''] then TrustBool False
                  else if list_all is_digit normalized then TrustHops (parseInt10 normalized)
                  else TrustNames (js_trim raw))"

definition security_parsePositiveInt :: "string option \<Rightarrow> number \<Rightarrow> number" where
  "security_parsePositiveInt raw fallback =
     (case raw of
        None \<Rightarrow> fallback
      | Some r \<Rightarrow> if js_trim r = [] then fallback
                   else let n = parseInt10 r in if num_isFinite n \<and> num_ge n (Fin 0) then n else fallback)"

record hsts_options =
  hs_maxAge :: number
  hs_includeSubDomains :: bool
  hs_preload :: bool

record HelmetOptions =
  ho_hsts :: hsts_options
  ho_useDefaults :: bool
  ho_directives :: "(string \<times> string list) list"
  ho_crossOriginEmbedderPolicy :: bool
  ho_frameguard :: string
  ho_noSniff :: bool
  ho_referrerPolicy :: string
  ho_dnsPrefetchControl :: bool
  ho_hidePoweredBy :: bool

definition quoted :: "string \<Rightarrow> string" where
  "quoted s = [CHR 0x27] @ s @ [CHR 0x27]"

definition loadHelmetOptions :: "environment \<Rightarrow> HelmetOptions" where
  "loadHelmetOptions env =
     \<lparr>ho_hsts = \<lparr>hs_maxAge = security_parsePositiveInt (env ''HSTS_MAX_AGE'') (Fin 15552000), hs_includeSubDomains = True,
        hs_preload = (env ''HSTS_PRELOAD'' = Some ''true'')\<rparr>,
      ho_useDefaults = True,
      ho_directives = [(''script-src'', [quoted ''self'', quoted ''unsafe-inline'']), (''style-src'', [quoted ''self'', quoted ''unsafe-inline'']),
        (''img-src'', [quoted ''self'', ''data:'']), (''default-src'', [quoted ''self'']), (''object-src'', [quoted ''none'']),
        (''base-uri'', [quoted ''self'']), (''frame-ancestors'', [quoted ''none''])],
      ho_crossOriginEmbedderPolicy = False, ho_frameguard = ''deny'', ho_noSniff = True, ho_referrerPolicy = ''no-referrer'',
      ho_dnsPrefetchControl = False, ho_hidePoweredBy = True\<rparr>"

record cookie_defaults =
  cd_httpOnly :: bool
  cd_secure :: bool
  cd_sameSite :: string
  cd_path :: string

definition loadCookieDefaults :: "environment \<Rightarrow> cookie_defaults" where
  "loadCookieDefaults env =
     (let isProduction = ((case env ''NODE_ENV'' of Some e \<Rightarrow> e | None \<Rightarrow> ''development'') = ''production'')
      in \<lparr>cd_httpOnly = True, cd_secure = (isProduction \<or> env ''COOKIE_SECURE'' = Some ''true''), cd_sameSite = ''lax'', cd_path = ''/''\<rparr>)"

record SecurityPosture =
  sp_trustProxy :: TrustProxySetting
  sp_helmet :: HelmetOptions
  sp_cookieDefaults :: cookie_defaults

definition loadSecurityPosture :: "environment \<Rightarrow> SecurityPosture" where
  "loadSecurityPosture env = \<lparr>sp_trustProxy = loadTrustProxy env, sp_helmet = loadHelmetOptions env, sp_cookieDefaults = loadCookieDefaults env\<rparr>"

section \<open>Key management\<close>

datatype key_adapter = LocalKeyAdapter "(string, string) jsmap" | KmsKeyAdapter string

definition env_name :: "string \<Rightarrow> string" where
  "env_name keyId = map (\<lambda>c. if c = CHR ''-'' then CHR ''_'' else c) (js_toUpperCase keyId)"

text \<open>The KMS adapter is a stub: each of its operations throws.\<close>

definition kms_getSecret :: "string \<Rightarrow> string \<Rightarrow> js_error + string" where
  "kms_getSecret kmsKeyArn keyId = Inl (Error (''KmsKeyAdapter: not yet wired for key '' @ [CHR 0x27] @ keyId @ [CHR 0x27] @ '' (ARN: '' @ kmsKeyArn @ '')''))"

definition kms_setSecret :: "string \<Rightarrow> js_error + unit" where
  "kms_setSecret keyId = Inl (Error (''KmsKeyAdapter: setSecret not implemented for key '' @ [CHR 0x27] @ keyId @ [CHR 0x27]))"

definition kms_rotateSecret :: "string \<Rightarrow> js_error + string" where
  "kms_rotateSecret keyId = Inl (Error (''KmsKeyAdapter: rotateSecret not implemented for key '' @ [CHR 0x27] @ keyId @ [CHR 0x27]))"

definition getSecret :: "environment \<Rightarrow> string \<Rightarrow> key_adapter \<Rightarrow> js_error + string" where
  "getSecret env keyId adapter =
     (case adapter of
        LocalKeyAdapter store \<Rightarrow>
          (case jsmap_get store keyId of
             Some v \<Rightarrow> Inr v
           | None \<Rightarrow> (case env (env_name keyId) of
                Some v \<Rightarrow> Inr v
              | None \<Rightarrow> Inl (Error (''LocalKeyAdapter: secret '' @ [CHR 0x27] @ keyId @ [CHR 0x27] @ '' not found''))))
      | KmsKeyAdapter arn \<Rightarrow> kms_getSecret arn keyId)"

definition setSecret :: "string \<Rightarrow> string \<Rightarrow> (key_adapter, unit) comp" where
  "setSecret keyId v adapter =
     (case adapter of
        LocalKeyAdapter store \<Rightarrow> (Inr (), LocalKeyAdapter (jsmap_set keyId v store))
      | KmsKeyAdapter arn \<Rightarrow> (kms_setSecret keyId, adapter))"

definition rotateSecret :: "string \<Rightarrow> string \<Rightarrow> (key_adapter, string) comp" where
  "rotateSecret uuid keyId adapter =
     (case adapter of
        LocalKeyAdapter store \<Rightarrow>
          (case setSecret keyId uuid adapter of (Inl e, a) \<Rightarrow> (Inl e, a) | (Inr _, a) \<Rightarrow> (Inr uuid, a))
      | KmsKeyAdapter arn \<Rightarrow> (kms_rotateSecret keyId, adapter))"

text \<open>The module-level instance, created on first use.\<close>

definition getKeyManagementAdapter :: "environment \<Rightarrow> key_adapter option \<Rightarrow> key_adapter \<times> key_adapter option" where
  "getKeyManagementAdapter env instance0 =
     (case instance0 of
        Some a \<Rightarrow> (a, instance0)
      | None \<Rightarrow>
          let adapterType = (case env ''KEY_MANAGEMENT_ADAPTER'' of Some t \<Rightarrow> t | None \<Rightarrow> ''local'');
              a = (if adapterType = ''kms'' then KmsKeyAdapter (case env ''KMS_KEY_ARN'' of Some arn \<Rightarrow> arn | None \<Rightarrow> [])
                   else LocalKeyAdapter jsmap_empty)
          in (a, Some a))"

definition setKeyManagementAdapter :: "key_adapter \<Rightarrow> key_adapter option \<Rightarrow> key_adapter option" where
  "setKeyManagementAdapter adapter instance0 = Some adapter"

section \<open>What the configuration guarantees\<close>

text \<open>An origin a policy from the environment lets through is absent, an entry of the list after normalisation, or a loopback origin outside production.\<close>

lemma cors_entry_normalized:
  assumes "parseCorsOrigins parseUrl raw = Inr origins" "x \<in> set origins"
  shows "\<exists>entry parsed. parseUrl entry = Inr parsed \<and> x = po_origin parsed \<and> po_protocol parsed \<in> {''http:'', ''https:''} \<and>
    po_username parsed = [] \<and> po_password parsed = [] \<and> po_pathname parsed = ''/'' \<and> po_search parsed = [] \<and> po_hash parsed = []"
proof -
  obtain es os where os: "emap (normalizeOrigin parseUrl) es = Inr os" "origins = fold jsset_add os []"
    using assms(1) by (auto simp: parseCorsOrigins_def ebind_Inr_iff)
  then have "x \<in> set os" using assms(2) by simp
  then obtain entry where "normalizeOrigin parseUrl entry = Inr x"
    using os(1) unfolding emap_Inr_iff by (auto simp: list_all2_conv_all_nth in_set_conv_nth)
  then show ?thesis by (auto simp: normalizeOrigin_def ebind_Inr_iff split: if_splits)
qed

lemma cors_production_fails_closed:
  assumes "loadCorsPolicy parseUrl env = Inr policy" "env ''NODE_ENV'' = Some ''production''" "isAllowedCorsOrigin parseUrl (Some x) policy" "x \<noteq> []"
  shows "\<exists>raw origins. env ''CORS_ORIGINS'' = Some raw \<and> parseCorsOrigins parseUrl raw = Inr origins \<and> x \<in> set origins"
  using assms by (auto simp: loadCorsPolicy_def isAllowedCorsOrigin_def ebind_Inr_iff split: option.splits if_splits)

text \<open>A number in \<open>TRUST_PROXY\<close> is a hop count, also the \<open>1\<close> and the \<open>0\<close>.\<close>

lemma trust_proxy_one: "loadTrustProxy (\<lambda>k. if k = ''TRUST_PROXY'' then Some ''1'' else None) = TrustHops (parseInt10 ''1'')"
proof -
  have "js_trim ''1'' = ''1''" by (rule js_trim_no_ws) (simp add: is_ws_def)
  then show ?thesis by (simp add: loadTrustProxy_def js_toLowerCase_def js_lower_char_def is_digit_def)
qed

lemma secret_round_trip:
  assumes "setSecret keyId v a = (Inr (), a')"
  shows "getSecret env keyId a' = Inr v" "k \<noteq> keyId \<Longrightarrow> getSecret env k a' = getSecret env k a"
  using assms by (auto simp: setSecret_def getSecret_def kms_setSecret_def split: key_adapter.splits)

lemma rotation_replaces: "rotateSecret uuid keyId a = (Inr v, a') \<Longrightarrow> v = uuid \<and> getSecret env keyId a' = Inr uuid"
  by (auto simp: rotateSecret_def setSecret_def getSecret_def kms_rotateSecret_def split: key_adapter.splits)

end
