(* ===== verification/Spec2Isabelle.thy ===== *)
theory Spec2Isabelle
  imports DrawConcurrency Money Idempotency RedisRateLimit PolicyEngine CreditService OutboundWebhooks ServiceAuth InboundWebhooks DrawWebhook Wiring SorobanClient RiskEvaluation
    OutboundHttp ConditionalGet DataRetention PostgresRepos ComplianceExport AdminAudit Dashboard Migrations PgIdempotency PgStores
    SupportTools Routes PgRisk Config
begin

text \<open>
  Verification of the Creditra backend, a Node service that keeps credit lines for Stellar wallets: it opens lines, draws and repays against them, evaluates risk,
  watches the chain, reconciles its records with a Soroban contract and notifies subscribers. Paths below are relative to \<open>src/src/\<close> of the repository.

  \<^bold>\<open>The program and its parts.\<close> Requests pass the guards (maintenance mode, body limits, API versions, rate limits, API keys, service tokens, idempotency) and reach a
  handler that calls one service. Services work on repositories (in memory, or Postgres), announce what they did on an in-process event bus, and throw errors that one
  handler turns into problem documents. Workers run beside the requests: the job queue, the Horizon poller, reconciliation, webhook delivery and data retention.

  \<^bold>\<open>How the code is modelled.\<close> One theory per component; records and datatypes have the fields and constructors of the source's interfaces and enumerations, one definition
  stands for one function, method or handler and keeps its name, with a prefix for methods (\<open>CreditLineService_draw\<close>). Fallible code returns \<open>error + value\<close>; state is
  passed explicitly; a JavaScript \<open>Map\<close> is an association list in insertion order (\<open>jsmap\<close>). Numbers of the source are binary64 values with rounding to even, NaN and
  infinities (\<open>JsNumber\<close>), because amounts are parsed by \<open>parseFloat\<close> and several behaviours depend on it. Code that awaits is split at its awaits where interleaving
  matters, and the blocks are the steps of a schedule or of an \<open>inductive\<close> relation.

  \<^bold>\<open>Runtime.\<close>
  \<^item> \<open>Prelude\<close>: results, maps, sets, slices, stable sorting, strings and digits; the locales \<open>kv_store\<close> and \<open>comparator\<close>, interpreted on \<open>jsmap\<close> and on comparison by code units.
  \<^item> \<open>JsNumber\<close>, \<open>JsDate\<close>, \<open>JsValue\<close>: binary64 arithmetic with \<open>parseFloat\<close>, shortest printing and their round trip; ISO dates; dynamically typed values.
  \<^item> \<open>Json\<close>, \<open>JsonParse\<close>: \<open>JSON.stringify\<close>, \<open>JSON.parse\<close> and base64url, with their round trips.

  \<^bold>\<open>Credit lines.\<close>
  \<^item> \<open>CreditLineRepo\<close> (\<open>models/\<close>, \<open>repositories/memory/\<close>): the in-memory repositories; the locale \<open>credit_line_repository\<close> states the contract of
    \<open>CreditLineRepository.ts\<close> and is interpreted on them.
  \<^item> \<open>CreditLineService\<close> (\<open>services/CreditLineService.ts\<close>, \<open>db/transaction.ts\<close>): draws stay within the limit, refused draws have no effect, repayments stop at zero,
    transactions are all or nothing.
  \<^item> \<open>DrawConcurrency\<close>: draws interleaved at their awaits keep every stored row in order, but can lose an update.
  \<^item> \<open>Database\<close>, \<open>PostgresRepos\<close> (\<open>repositories/postgres/\<close>): the statements of the Postgres repositories on tables; draws follow the ledger sum
    (the statements of one draw, run without another in between). The conflict errors of creation are not imported there, so a second open line ends in a \<open>ReferenceError\<close>, answered with 500.
  \<^item> \<open>CreditService\<close> (\<open>services/creditService.ts\<close>): the older functional module with its event log: lines may be created with any status, each log is a
    path of the life cycle from the status it was created with to the present one.
  \<^item> \<open>Money\<close>, \<open>CursorPagination\<close> (\<open>utils/\<close>): lossless formatting of minor units; pages by cursor partition the list.
  \<^item> \<open>PolicyEngine\<close> (\<open>services/policyEngine.ts\<close>), \<open>RiskEvaluation\<close> (\<open>services/RiskEvaluationService.ts\<close>, \<open>riskService.ts\<close>, \<open>providers/\<close>): rules, scoring and the evaluation
    cache; the locale \<open>risk_repository\<close> is interpreted on the in-memory repository. \<open>PgRisk\<close> (\<open>repositories/postgres/\<close>) has the Postgres
    repositories of signals and evaluations: the signals are those of the in-memory one, a saved evaluation is the latest, the clean-up keeps what is valid.

  \<^bold>\<open>Requests.\<close>
  \<^item> \<open>Problems\<close> (\<open>errors/\<close>, \<open>middleware/errorHandler.ts\<close>): what a client sees of an error: errors answered with 500 or more do not show their message, except thrown
    strings, which are sent as they are; errors below 500 show theirs. \<open>RequestGuards\<close> and \<open>ConditionalGet\<close> (\<open>middleware/\<close>, \<open>utils/etag.ts\<close>).
  \<^item> \<open>Routes\<close> (\<open>routes/simulation.ts\<close>, \<open>routes/credit.ts\<close>, \<open>middleware/validate.ts\<close>): simulated draws and repayments agree with the real ones on whole amounts; the administrators'
    transitions are authenticated and audited; validation with the schema as a parameter.
  \<^item> \<open>Idempotency\<close>, \<open>PgIdempotency\<close> (\<open>services/idempotencyStore.ts\<close>, \<open>middleware/idempotency.ts\<close>): a request runs once until it fails or expires, its repetition is replayed when
    the answer was below 500 and executed again otherwise; in Postgres a key is started once under every interleaving of statements.
  \<^item> \<open>RateLimit\<close>, \<open>RedisRateLimit\<close> (\<open>middleware/rateLimit.ts\<close>): a burst is bounded by the capacity; the Lua script decides as the in-memory bucket does.
  \<^item> \<open>ServiceAuth\<close> (\<open>services/apiKeyStore.ts\<close>, \<open>serviceTokens.ts\<close>): life cycle of keys, authenticity of tokens. \<open>InboundWebhooks\<close>: no replay inside the window.

  \<^bold>\<open>Events, webhooks and workers.\<close>
  \<^item> \<open>Events\<close>, \<open>AnomalyDetection\<close>, \<open>Wiring\<close> (\<open>services/events/\<close>, \<open>auditLogStore.ts\<close>, \<open>domainEventStore.ts\<close>, \<open>anomalyDetectionService.ts\<close>, \<open>container/Container.ts\<close>): every
    subscriber gets every event whatever the others do. An observation of the anomaly detector is cut at the awaits of \<open>repository.create\<close>; the cooldown holds when the observations of
    a line follow one another (those of other lines may overlap, and a creation may fail), and a lemma shows that two overlapping ones on a line both record their signal. There, the locale \<open>event_log\<close> is interpreted on the in-memory event store, and in \<open>PgStores\<close> on the
    Postgres one; \<open>PgStores\<close> also has the Postgres store of webhook deliveries, of which at most one per event is recorded as delivered.
  \<^item> \<open>JobQueue\<close> (\<open>services/jobQueue.ts\<close>): a step relation on which ticks of the timer run side by side; the flag
    \<open>processing\<close> leaves at most one of them a batch, no job is lost, draining ends, a running queue stays awake.
  \<^item> \<open>OutboundWebhooks\<close>, \<open>DrawWebhook\<close>, \<open>OutboundHttp\<close> (\<open>outboundWebhookDispatcher.ts\<close>, \<open>drawWebhookService.ts\<close>, \<open>utils/fetchWithTimeout.ts\<close>): deliveries and their retries.
    \<open>DrawWebhook\<close> takes the events one at a time; the source does not import \<open>fetchWithTimeout\<close> there, so every attempt of the code as it stands fails.
  \<^item> \<open>HorizonListener\<close>, \<open>Diagnostics\<close>: deduplication of chain events, and diagnostics from which no key survives redaction.
  \<^item> \<open>SorobanClient\<close>, \<open>Reconciliation\<close>: decoding and enumeration of the contract's records; a clean report means that both sides hold the same lines.
  \<^item> \<open>DataRetention\<close> (\<open>dataRetentionService.ts\<close>): the preview predicts the sweep, which spares active borrowers.

  \<^bold>\<open>Operations.\<close>
  \<^item> \<open>AdminAudit\<close> (\<open>services/adminAuditLog.ts\<close>): the log is a hash chain that commits to its history and holds no secrets.
  \<^item> \<open>ComplianceExport\<close> (\<open>complianceExportService.ts\<close>, \<open>utils/exportStream.ts\<close>): exports return the requested page and read back; the locale \<open>page_source\<close> is interpreted on
    the two repositories.
  \<^item> \<open>Dashboard\<close> (\<open>dashboardSummaryService.ts\<close>): the staleness window holds under interleaving.
  \<^item> \<open>Redaction\<close>, \<open>SupportTools\<close> (\<open>utils/logRedact.ts\<close>, \<open>utils/supportRedact.ts\<close>, \<open>supportToolsService.ts\<close>): global replacement of regular expressions; the locale \<open>word_replacement\<close>
    states what a replacement has to respect so that it neither leaves nor creates a key, and is interpreted on each of the four expressions; no key is left in a view;
    in the log a key can only be left in what the code copies unchanged (property names, error names, class instances).
  \<^item> \<open>Config\<close> (\<open>config/cors.ts\<close>, \<open>config/security.ts\<close>, \<open>services/keyManagement.ts\<close>): origins, the fail-closed policy in production, headers and secrets.
  \<^item> \<open>Migrations\<close> (\<open>db/\<close>): a run executes exactly the scripts of the files that are not recorded, in order, and records them; the guards of the deployment tools.

  \<^bold>\<open>Parameters, bounds and fuel.\<close> Code outside the repository is an argument of the definitions that use it: SHA-256 and HMAC, \<open>localeCompare\<close> (of which the laws of a comparator
  are used), the host's \<open>Date.parse\<close> and \<open>log2\<close>, the URL parser, the network exchanges, the RPC endpoint, Postgres' numeric conversions and the execution of migration
  scripts, the text form of numbers in Redis, random identifiers and clocks. Properties that rely on one state what they need as a hypothesis (for instance, that the digest does not
  collide on the texts at hand) and have a witness with a concrete function. Loops that the code bounds are structural recursions; the retry loops and the page enumeration carry
  fuel that their theorems show to be enough; the export scan is a partial function whose theorem shows that it returns. The rate-limit lemmas assume capacities up to
  \<open>2 ^ 53\<close>, windows up to \<open>2 ^ 50\<close> milliseconds and instants below \<open>2 ^ 52\<close>, where binary64 integers are exact;
  the cooldown of the anomaly detector assumes instants below \<open>2 ^ 51\<close> for the same reason. Strings are lists of characters below 256.

  \<^bold>\<open>Not modelled.\<close> Express glue in the other \<open>routes/\<close> and in \<open>app.ts\<close>, where a handler parses the request and calls one modelled operation (several of these files do not parse or
  lack imports as they stand); the declarations of the validation library in \<open>schemas/\<close> and \<open>config/env.ts\<close>; output to the log; the command line of the data retention tool; connecting to Redis and the expiry
  of its keys (\<open>PEXPIRE\<close>);
  small helpers that no modelled component calls. The second definition of \<open>createRateLimitMiddleware\<close> calls a method its store does not have and is left out.
\<close>

end
